(* ===== verification/Prelude.thy ===== *)
theory Prelude
  imports Complex_Main "HOL-Library.AList" "HOL-Library.Multiset" "HOL-Library.Word"
begin

text \<open>
  Generic material shared by every component: the collections of facts the
  component proofs pass to the automation, the suffix operation \<open>lastn\<close> that
  specifies bounded histories, association lists as models of Go maps, and the
  Go integer helpers.

  A Go map is modelled by an association list with distinct keys
  (\<open>AList.update\<close>, \<open>AList.delete\<close>, \<open>map_of\<close>).  The order of the list stands
  for the unspecified iteration order of Go's \<open>range\<close>: a theorem about an
  operation that ranges over a map holds for every order of the list.
\<close>

section \<open>Collections\<close>

named_theorems fbtw_intros "interval rules for binary64 arithmetic"
named_theorems inv_intros "preservation of component invariants"
named_theorems frame_simps "fields an operation does not change"

section \<open>Suffixes of lists\<close>

definition lastn :: "nat \<Rightarrow> 'a list \<Rightarrow> 'a list" where
  "lastn n xs = drop (length xs - n) xs"

lemma length_lastn [simp]: "length (lastn n xs) = min n (length xs)"
  by (simp add: lastn_def)

lemma lastn_0 [simp]: "lastn 0 xs = []"
  by (simp add: lastn_def)

lemma lastn_Nil [simp]: "lastn n [] = []"
  by (simp add: lastn_def)

lemma lastn_all: "length xs \<le> n \<Longrightarrow> lastn n xs = xs"
  by (simp add: lastn_def)

lemma lastn_snoc: "lastn (Suc n) (xs @ [x]) = lastn n xs @ [x]"
  by (simp add: lastn_def)

lemma lastn_lastn: "lastn m (lastn n xs) = lastn (min m n) xs"
  by (auto simp: lastn_def min_def intro!: arg_cong [where f = "\<lambda>k. drop k xs"])

lemma set_lastn: "set (lastn n xs) \<subseteq> set xs"
  by (simp add: lastn_def set_drop_subset)

lemma nth_lastn: "n \<le> length xs \<Longrightarrow> i < n \<Longrightarrow> lastn n xs ! i = xs ! (length xs - n + i)"
  by (simp add: lastn_def)

lemma lastn_snoc_lastn: "n > 0 \<Longrightarrow> lastn n (lastn n xs @ [x]) = lastn n (xs @ [x])"
  by (cases n) (auto simp: lastn_snoc lastn_lastn)

lemma lastn_append_ge: "n \<le> length ys \<Longrightarrow> lastn n (xs @ ys) = lastn n ys"
  by (simp add: lastn_def)

lemma lastn_append_lastn: "lastn n (lastn n ys @ zs) = lastn n (ys @ zs)"
proof (cases "length ys \<le> n")
  case False
  have "lastn n (ys @ zs) = lastn n ((take (length ys - n) ys @ lastn n ys) @ zs)"
    by (simp add: lastn_def [of n ys])
  also have "\<dots> = lastn n (take (length ys - n) ys @ (lastn n ys @ zs))" by simp
  also have "\<dots> = lastn n (lastn n ys @ zs)" using False by (intro lastn_append_ge) simp
  finally show ?thesis by simp
qed (simp add: lastn_all)

lemma last_lastn: "n > 0 \<Longrightarrow> xs \<noteq> [] \<Longrightarrow> last (lastn n xs) = last xs"
  by (simp add: lastn_def last_drop)

section \<open>Association lists as Go maps\<close>

type_synonym ('k, 'v) gomap = "('k \<times> 'v) list"

definition wf_gomap :: "('k, 'v) gomap \<Rightarrow> bool" where
  "wf_gomap m \<longleftrightarrow> distinct (map fst m)"

abbreviation keys :: "('k, 'v) gomap \<Rightarrow> 'k set" where
  "keys m \<equiv> fst ` set m"

lemma wf_gomap_Nil [simp, inv_intros]: "wf_gomap []"
  by (simp add: wf_gomap_def)

lemma wf_gomap_update [simp, inv_intros]: "wf_gomap m \<Longrightarrow> wf_gomap (AList.update k v m)"
  by (simp add: wf_gomap_def distinct_update)

lemma wf_gomap_delete [simp, inv_intros]: "wf_gomap m \<Longrightarrow> wf_gomap (AList.delete k m)"
  by (simp add: wf_gomap_def distinct_delete)

lemma wf_gomap_filter [simp, inv_intros]: "wf_gomap m \<Longrightarrow> wf_gomap (filter P m)"
  by (simp add: wf_gomap_def distinct_map_filter)

lemma map_of_update [simp]: "map_of (AList.update k v m) = (map_of m)(k \<mapsto> v)"
  by (rule update_conv')

lemma map_of_delete [simp]: "map_of (AList.delete k m) = (map_of m)(k := None)"
  by (rule delete_conv')

lemma keys_update [simp]: "keys (AList.update k v m) = insert k (keys m)"
  by (simp add: dom_update)

lemma keys_delete [simp]: "keys (AList.delete k m) = keys m - {k}"
  by (simp add: delete_keys flip: set_map)

lemma keys_map_of: "keys m = dom (map_of m)"
  by (simp add: dom_map_of_conv_image_fst)

lemma set_updateD: "(i, x) \<in> set (AList.update k v m) \<Longrightarrow> i = k \<and> x = v \<or> (i, x) \<in> set m"
  by (induction m) (auto split: if_splits)

lemma length_update:
  "length (AList.update k v m) = (if k \<in> keys m then length m else Suc (length m))"
  by (induction m) auto

lemma length_delete_key:
  "wf_gomap m \<Longrightarrow> k \<in> keys m \<Longrightarrow> Suc (length (AList.delete k m)) = length m"
proof (induction m)
  case Nil
  then show ?case by simp
next
  case (Cons a m)
  then show ?case
    by (cases "fst a = k") (auto simp: wf_gomap_def delete_id image_iff)
qed

lemma wf_gomap_map_of_iff: "wf_gomap m \<Longrightarrow> map_of m k = Some v \<longleftrightarrow> (k, v) \<in> set m"
  by (simp add: wf_gomap_def)

lemma map_of_filter:
  "wf_gomap m \<Longrightarrow> map_of (filter P m) k =
     (case map_of m k of None \<Rightarrow> None | Some v \<Rightarrow> if P (k, v) then Some v else None)"
proof (induction m)
  case (Cons a m)
  have "wf_gomap m" using Cons.prems by (simp add: wf_gomap_def)
  note IH = Cons.IH [OF this]
  show ?case
  proof (cases "fst a = k")
    case True
    then have "map_of m k = None" using Cons.prems by (auto simp: wf_gomap_def map_of_eq_None_iff)
    then show ?thesis using True IH by (cases a) auto
  qed (use IH in \<open>cases a, auto\<close>)
qed simp

section \<open>Go integers\<close>

text \<open>
  \<open>int\<close> stands for Go's \<open>int\<close> and \<open>int64\<close> wherever the values stay far below
  \<open>2\<^sup>6\<^sup>3\<close>; hashes, seeds and tick counters, whose wrap-around the code relies on, are
  words of their width.
\<close>

type_synonym u32 = "32 word"
type_synonym u64 = "64 word"

definition minI64 :: int where "minI64 = - (2 ^ 63)"
definition maxI64 :: int where "maxI64 = 2 ^ 63 - 1"

definition sat_i64 :: "int \<Rightarrow> int" where
  "sat_i64 i = max minI64 (min maxI64 i)"

definition quot :: "int \<Rightarrow> int \<Rightarrow> int" where
  \<comment> \<open>Go's integer division truncates towards zero.\<close>
  "quot a b = sgn a * sgn b * (\<bar>a\<bar> div \<bar>b\<bar>)"

definition remt :: "int \<Rightarrow> int \<Rightarrow> int" where
  "remt a b = a - quot a b * b"

lemma quot_nonneg: "0 \<le> a \<Longrightarrow> 0 < b \<Longrightarrow> quot a b = a div b"
  by (cases "a = 0") (auto simp: quot_def sgn_if)

lemma remt_nonneg: "0 \<le> a \<Longrightarrow> 0 < b \<Longrightarrow> remt a b = a mod b"
  by (simp add: remt_def quot_nonneg minus_div_mult_eq_mod)

end
