(* ===== verification/RingLog.thy ===== *)
theory RingLog
  imports Prelude
begin

text \<open>
  Circular buffers.  The telemetry ring buffer and the audit log keep the same
  four fields: a slice of fixed length, the index of the next write, the number of
  valid entries and the capacity.  \<open>ring_list\<close> is the abstract content, oldest entry
  first; the two lemmas on it carry both components.

  The locale \<open>bounded_log\<close> is the interface both implement and their clients
  (the store, the audit endpoint) use: a write never fails, and what can be read
  back is the end of the history, cut at the capacity.
\<close>

section \<open>Index arithmetic\<close>

definition ring_list :: "'a list \<Rightarrow> int \<Rightarrow> int \<Rightarrow> int \<Rightarrow> 'a list" where
  "ring_list buf head sz cap =
     map (\<lambda>i. buf ! nat ((head - sz + int i) mod cap)) [0..<nat sz]"

definition ring_ok :: "'a list \<Rightarrow> int \<Rightarrow> int \<Rightarrow> int \<Rightarrow> bool" where
  "ring_ok buf head sz cap \<longleftrightarrow>
     int (length buf) = cap \<and> 0 < cap \<and> 0 \<le> head \<and> head < cap \<and> 0 \<le> sz \<and> sz \<le> cap"

lemma length_ring_list [simp]: "length (ring_list buf head sz cap) = nat sz"
  by (simp add: ring_list_def)

lemma nth_ring_list:
  "int i < sz \<Longrightarrow> ring_list buf head sz cap ! i = buf ! nat ((head - sz + int i) mod cap)"
  by (subst ring_list_def, subst nth_map) auto

lemma mod_distinct:
  fixes head d cap :: int
  assumes "0 \<le> head" "head < cap" "0 < d" "d < cap"
  shows "(head - d) mod cap \<noteq> head"
proof
  assume "(head - d) mod cap = head"
  then have "(head - d) mod cap = head mod cap" using assms by simp
  then have "cap dvd d" by (simp add: mod_eq_dvd_iff)
  with assms show False by (auto dest: zdvd_imp_le)
qed

lemma ring_list_push:
  assumes ok: "ring_ok buf head sz cap"
  shows "ring_list (buf[nat head := x]) ((head + 1) mod cap) (if sz < cap then sz + 1 else sz) cap
     = lastn (nat cap) (ring_list buf head sz cap @ [x])" (is "?l = ?r")
proof (rule nth_equalityI)
  let ?s = "if sz < cap then sz + 1 else sz"
  let ?d = "sz + 1 - ?s"
  note h = ok [unfolded ring_ok_def]
  show len: "length ?l = length ?r" using h by auto
  fix i assume "i < length ?l"
  then have i: "int i < ?s" using h by (auto split: if_splits)
  define j where "j = int i + ?d"
  have j: "0 \<le> j" "j \<le> sz" "sz - j < cap" using i h by (auto simp: j_def split: if_splits)
  have idx: "((head + 1) mod cap - ?s + int i) mod cap = (head - (sz - j)) mod cap"
  proof -
    have "((head + 1) mod cap - ?s + int i) mod cap = ((head + 1) mod cap + (int i - ?s)) mod cap"
      by (simp add: algebra_simps)
    also have "\<dots> = (head + 1 + (int i - ?s)) mod cap" by (rule mod_add_left_eq)
    also have "head + 1 + (int i - ?s) = head - (sz - j)" by (simp add: j_def)
    finally show ?thesis .
  qed
  have "?l ! i = buf[nat head := x] ! nat ((head - (sz - j)) mod cap)"
    by (subst nth_ring_list [OF i]) (simp only: idx)
  also have "\<dots> = (ring_list buf head sz cap @ [x]) ! nat j"
  proof (cases "j = sz")
    case True
    moreover have "nat head < length buf" using h by linarith
    ultimately show ?thesis using h by (simp add: nth_append)
  next
    case False
    then have "(head - (sz - j)) mod cap \<noteq> head" using j h by (intro mod_distinct) linarith+
    moreover have "0 \<le> (head - (sz - j)) mod cap" using h by simp
    ultimately have "nat head \<noteq> nat ((head - (sz - j)) mod cap)"
      using h by (simp add: nat_eq_iff)
    then show ?thesis using False j h
      by (simp add: nth_append nth_ring_list nat_less_iff algebra_simps)
  qed
  also have "\<dots> = ?r ! i"
  proof -
    have "nat j = Suc (nat sz) - nat cap + i" using i h by (auto simp: j_def split: if_splits)
    moreover have "Suc (nat sz) - nat cap \<le> Suc (nat sz)" by simp
    ultimately show ?thesis by (simp add: lastn_def del: drop_append)
  qed
  finally show "?l ! i = ?r ! i" .
qed

lemma ring_list_recent:
  assumes ok: "ring_ok buf head sz cap" and n: "0 \<le> n" "n \<le> sz"
  shows "ring_list buf head n cap = lastn (nat n) (ring_list buf head sz cap)"
proof (rule nth_equalityI)
  note h = ok [unfolded ring_ok_def]
  show "length (ring_list buf head n cap) = length (lastn (nat n) (ring_list buf head sz cap))"
    using n by simp
  fix i assume "i < length (ring_list buf head n cap)"
  then have i: "int i < n" by simp
  then have "lastn (nat n) (ring_list buf head sz cap) ! i
      = ring_list buf head sz cap ! (nat sz - nat n + i)"
    using n by (simp add: nth_lastn)
  also have "\<dots> = buf ! nat ((head - n + int i) mod cap)"
    using i n by (simp add: nth_ring_list of_nat_diff algebra_simps)
  finally show "ring_list buf head n cap ! i = lastn (nat n) (ring_list buf head sz cap) ! i"
    using i by (simp add: nth_ring_list)
qed

lemma ring_ok_push:
  assumes "ring_ok buf head sz cap"
  shows "ring_ok (buf[nat head := x]) ((head + 1) mod cap) (if sz < cap then sz + 1 else sz) cap"
  using assms by (auto simp: ring_ok_def)

text \<open>The code computes \<open>(head - n + i + cap) % cap\<close> with Go's remainder.\<close>

lemma ring_index:
  assumes "ring_ok buf head sz cap" "0 \<le> n" "n \<le> cap" "0 \<le> i"
  shows "remt (head - n + i + cap) cap = (head - n + i) mod cap"
proof -
  have "remt (head - n + i + cap) cap = (head - n + i + cap) mod cap"
    using assms by (intro remt_nonneg) (auto simp: ring_ok_def)
  then show ?thesis by simp
qed

lemma ring_start_index:
  assumes "ring_ok buf head sz cap" "0 \<le> n" "n \<le> cap" "0 \<le> i"
  shows "remt (remt (head - n + cap) cap + i) cap = (head - n + i) mod cap"
proof -
  have "remt (head - n + cap) cap = (head - n) mod cap"
    using ring_index [OF assms(1-3), of 0] by simp
  moreover have "0 \<le> (head - n) mod cap" using assms by (auto simp: ring_ok_def)
  ultimately have "remt (remt (head - n + cap) cap + i) cap = ((head - n) mod cap + i) mod cap"
    using assms by (simp add: remt_nonneg ring_ok_def)
  then show ?thesis by (simp add: mod_add_left_eq)
qed

section \<open>The interface\<close>

text \<open>Running a fallible operation over a list of inputs; \<open>None\<close> is a panic.\<close>

fun foldo :: "('a \<Rightarrow> 's \<Rightarrow> 's option) \<Rightarrow> 'a list \<Rightarrow> 's \<Rightarrow> 's option" where
  "foldo f [] s = Some s"
| "foldo f (x # xs) s = Option.bind (f x s) (foldo f xs)"

locale bounded_log =
  fixes push :: "'a \<Rightarrow> 's \<Rightarrow> 's option"
    and recent :: "'s \<Rightarrow> nat \<Rightarrow> 'a list option"
    and content :: "'s \<Rightarrow> 'a list"
    and cap :: "'s \<Rightarrow> nat"
    and inv :: "'s \<Rightarrow> bool"
  assumes push_law:
      "inv s \<Longrightarrow> \<exists>s'. push x s = Some s' \<and> inv s' \<and> cap s' = cap s \<and>
         content s' = lastn (cap s) (content s @ [x])"
    and recent_law: "inv s \<Longrightarrow> 0 < n \<Longrightarrow> recent s n = Some (lastn n (content s))"
    and cap_law: "inv s \<Longrightarrow> 0 < cap s \<and> length (content s) \<le> cap s"
begin

lemma push_all:
  "inv s \<Longrightarrow> \<exists>s'. foldo push xs s = Some s' \<and> inv s' \<and> cap s' = cap s \<and>
     content s' = lastn (cap s) (content s @ xs)"
proof (induction xs arbitrary: s)
  case Nil
  then show ?case using cap_law [of s] by (simp add: lastn_all)
next
  case (Cons x xs)
  from push_law [OF Cons.prems, of x] obtain t where
    t: "push x s = Some t" "inv t" "cap t = cap s" "content t = lastn (cap s) (content s @ [x])"
    by blast
  from Cons.IH [OF t(2)] obtain s' where
    s': "foldo push xs t = Some s'" "inv s'" "cap s' = cap s"
      "content s' = lastn (cap s) (lastn (cap s) (content s @ [x]) @ xs)"
    using t by auto
  then show ?case using t by (simp add: lastn_append_lastn)
qed

lemma recent_after:
  assumes "inv s" "0 < n"
  shows "\<exists>s'. foldo push xs s = Some s' \<and> recent s' n = Some (lastn (min n (cap s)) (content s @ xs))"
proof -
  from push_all [OF assms(1), of xs] obtain s' where
    "foldo push xs s = Some s'" "inv s'" "content s' = lastn (cap s) (content s @ xs)" by blast
  then show ?thesis using recent_law [of s' n] assms(2) by (simp add: lastn_lastn)
qed

lemma newest:
  assumes "inv s" "0 < n"
  shows "\<exists>s' ys. push x s = Some s' \<and> recent s' n = Some (ys @ [x])"
proof -
  from push_law [OF assms(1), of x] obtain s' where
    s': "push x s = Some s'" "inv s'" "content s' = lastn (cap s) (content s @ [x])" by blast
  obtain m k where "n = Suc m" "cap s = Suc k"
    using assms cap_law [OF assms(1)] by (metis gr0_implies_Suc)
  then show ?thesis using s' recent_law [of s' n] assms(2) by (simp add: lastn_snoc)
qed

end

end
