(* ===== verification/Float64.thy ===== *)
theory Float64
  imports Prelude
begin

text \<open>
  Go's \<open>float64\<close>: IEEE 754 binary64 with the rounding to nearest, ties to even,
  that Go's arithmetic uses.  A finite value is the real number it denotes, every
  operation computes exactly and rounds once (\<open>fl\<close>), an overflow gives an infinity,
  and comparisons with a NaN are false.  The two zeros are identified (no modelled
  operation depends on the sign of a zero), and NaN has no payload.

  The library functions \<open>math.Exp\<close>, \<open>math.Log\<close>, \<open>math.Pow\<close>, \<open>math.Tanh\<close> and
  \<open>math.Sin\<close> are taken as correctly rounded.

  \<open>fbtw lo x hi\<close> says that \<open>x\<close> is finite and between two reals; the rules of the
  collection \<open>fbtw_intros\<close> propagate such bounds through the arithmetic.
\<close>

section \<open>Rounding\<close>

text \<open>Rounding to the nearest integer, ties to even.\<close>

definition rne :: "real \<Rightarrow> int" where
  "rne x = (let f = \<lfloor>x\<rfloor>; d = x - of_int f in
     if d < 1/2 then f else if d > 1/2 then f + 1 else if even f then f else f + 1)"

definition ulp_exp :: "real \<Rightarrow> int" where
  "ulp_exp x = max (\<lfloor>log 2 \<bar>x\<bar>\<rfloor> - 52) (- 1074)"

definition rnd :: "real \<Rightarrow> real" where
  "rnd x = of_int (rne (x / 2 powi ulp_exp x)) * 2 powi ulp_exp x"

lemma rne_of_int [simp]: "rne (of_int i) = i"
  by (simp add: rne_def)

lemma rne_bounds: "\<lfloor>x\<rfloor> \<le> rne x" "rne x \<le> \<lfloor>x\<rfloor> + 1"
  by (auto simp: rne_def Let_def)

lemma rne_mono: "x \<le> y \<Longrightarrow> rne x \<le> rne y"
proof (cases "\<lfloor>x\<rfloor> < \<lfloor>y\<rfloor>")
  case True
  then show ?thesis using rne_bounds(2) [of x] rne_bounds(1) [of y] by linarith
next
  case False
  moreover assume "x \<le> y"
  ultimately have "\<lfloor>x\<rfloor> = \<lfloor>y\<rfloor>" by (meson floor_mono not_less order_antisym)
  with \<open>x \<le> y\<close> show ?thesis by (auto simp: rne_def Let_def)
qed

lemma rne_le: "x \<le> of_int i \<Longrightarrow> rne x \<le> i"
  using rne_mono [of x "of_int i"] by simp

lemma rne_ge: "of_int i \<le> x \<Longrightarrow> i \<le> rne x"
  using rne_mono [of "of_int i" x] by simp

lemma rne_minus: "rne (- x) = - rne x"
proof (cases "x \<in> \<int>")
  case True
  then obtain i where "x = of_int i" by (auto elim: Ints_cases)
  then show ?thesis using rne_of_int [of "- i"] by (simp del: rne_of_int) simp
next
  case False
  have f: "\<lfloor>- x\<rfloor> = - \<lfloor>x\<rfloor> - 1"
  proof (rule floor_unique)
    have "of_int \<lfloor>x\<rfloor> \<noteq> x" using False by (metis Ints_of_int)
    then have "of_int \<lfloor>x\<rfloor> < x" using of_int_floor_le [of x] by linarith
    then show "- x < of_int (- \<lfloor>x\<rfloor> - 1) + 1" by simp
    show "of_int (- \<lfloor>x\<rfloor> - 1) \<le> - x" by (simp add: floor_correct) linarith
  qed
  show ?thesis by (auto simp: rne_def Let_def f)
qed

lemma rne_error: "\<bar>of_int (rne x) - x\<bar> \<le> 1/2"
proof -
  have "x - of_int \<lfloor>x\<rfloor> < 1" "0 \<le> x - of_int \<lfloor>x\<rfloor>" by linarith+
  then show ?thesis by (auto simp: rne_def Let_def)
qed

lemma powi_pos [simp]: "0 < (2::real) powi e"
  by simp

lemma powi_mono2: "a \<le> b \<Longrightarrow> (2::real) powi a \<le> 2 powi b"
  by (simp add: power_int_increasing)

lemma ulp_exp_minus [simp]: "ulp_exp (- x) = ulp_exp x"
  by (simp add: ulp_exp_def)

lemma rnd_minus: "rnd (- x) = - rnd x"
  by (simp add: rnd_def rne_minus flip: minus_divide_left)

lemma rnd_0 [simp]: "rnd 0 = 0"
  using rne_of_int [of 0] by (simp add: rnd_def del: rne_of_int)


lemma powr_powi: "2 powr of_int e = (2::real) powi e"
  by (simp add: powr_real_of_int')

lemma ulp_exp_ge: "- 1074 \<le> ulp_exp x"
  by (simp add: ulp_exp_def)

lemma lt_ulp_exp:
  assumes "x \<noteq> 0" shows "\<bar>x\<bar> < 2 powi (ulp_exp x + 53)"
proof -
  have "log 2 \<bar>x\<bar> < of_int (ulp_exp x + 53)"
    by (simp add: ulp_exp_def) linarith
  then have "\<bar>x\<bar> < 2 powr of_int (ulp_exp x + 53)"
    using assms by (simp add: log_less_iff)
  then show ?thesis by (simp only: powr_powi)
qed

lemma ulp_exp_lb:
  assumes "x \<noteq> 0" "- 1074 < ulp_exp x" shows "2 powi (ulp_exp x + 52) \<le> \<bar>x\<bar>"
proof -
  have "of_int (ulp_exp x + 52) \<le> log 2 \<bar>x\<bar>"
    using assms(2) by (simp add: ulp_exp_def)
  then have "2 powr of_int (ulp_exp x + 52) \<le> \<bar>x\<bar>"
    using assms(1) by (simp add: le_log_iff)
  then show ?thesis by (simp only: powr_powi)
qed

lemma ulp_exp_le_of_lt:
  assumes "x \<noteq> 0" "\<bar>x\<bar> < 2 powi (e + 53)" "- 1074 \<le> e" shows "ulp_exp x \<le> e"
proof -
  have "\<bar>x\<bar> < 2 powr of_int (e + 53)"
    using assms(2) by (simp only: powr_powi)
  then have "log 2 \<bar>x\<bar> < of_int (e + 53)"
    using assms(1) by (simp add: log_less_iff)
  then show ?thesis using assms(3) by (simp add: ulp_exp_def) linarith
qed

lemma ulp_exp_mono:
  assumes "x \<noteq> 0" "\<bar>x\<bar> \<le> \<bar>y\<bar>" shows "ulp_exp x \<le> ulp_exp y"
  using assms lt_ulp_exp [of y]
  by (intro ulp_exp_le_of_lt ulp_exp_ge order.strict_trans1 [OF assms(2)]) auto

text \<open>Multiples of the unit in the last place are fixed.\<close>

lemma rnd_multiple:
  assumes "x = of_int m * 2 powi e" "ulp_exp x \<le> e" shows "rnd x = x"
proof -
  have "x / 2 powi ulp_exp x = of_int m * (2 powi e / 2 powi ulp_exp x)"
    using assms(1) by simp
  also have "2 powi e / (2::real) powi ulp_exp x = 2 powi (e - ulp_exp x)"
    by (simp add: power_int_diff)
  also have "\<dots> = 2 ^ nat (e - ulp_exp x)"
    using assms(2) by (simp add: power_int_def)
  also have "of_int m * (2::real) ^ nat (e - ulp_exp x) = of_int (m * 2 ^ nat (e - ulp_exp x))"
    by simp
  finally have "x / 2 powi ulp_exp x = of_int (m * 2 ^ nat (e - ulp_exp x))" .
  then have "rne (x / 2 powi ulp_exp x) = m * 2 ^ nat (e - ulp_exp x)"
    by (simp only: rne_of_int)
  then have "rnd x = x / 2 powi ulp_exp x * 2 powi ulp_exp x"
    by (simp only: rnd_def \<open>x / 2 powi ulp_exp x = of_int (m * 2 ^ nat (e - ulp_exp x))\<close>)
  then show ?thesis by simp
qed

lemma rnd_pow2: 
  assumes "- 1074 \<le> e" shows "rnd (2 powi e) = 2 powi e"
proof (rule rnd_multiple [where m = 1])
  show "ulp_exp (2 powi e) \<le> e"
    by (rule ulp_exp_le_of_lt) (use assms in \<open>auto intro: power_int_strict_increasing\<close>)
qed simp

lemma rnd_nonneg: "0 \<le> x \<Longrightarrow> 0 \<le> rnd x"
  unfolding rnd_def by (intro mult_nonneg_nonneg) (auto intro!: rne_ge)

lemma rnd_mono_pos:
  assumes "0 < x" "x \<le> y" shows "rnd x \<le> rnd y"
proof (cases "ulp_exp x = ulp_exp y")
  case True
  then show ?thesis
    using assms unfolding rnd_def by (auto intro!: mult_right_mono rne_mono divide_right_mono)
next
  case False
  with ulp_exp_mono [of x y] assms have lt: "ulp_exp x < ulp_exp y" by auto
  let ?a = "ulp_exp x" and ?b = "ulp_exp y"
  have "x < 2 powi (?a + 53)" using lt_ulp_exp [of x] assms by simp
  then have "x / 2 powi ?a \<le> of_int (2 ^ 53)"
    by (simp add: power_int_add divide_le_eq)
  then have "rne (x / 2 powi ?a) \<le> 2 ^ 53" by (rule rne_le)
  then have "rnd x \<le> 2 ^ 53 * 2 powi ?a"
    unfolding rnd_def by (intro mult_right_mono) (simp_all add: of_int_le_numeral_iff)
  also have "\<dots> \<le> 2 ^ 52 * 2 powi ?b"
  proof -
    have "(2::real) powi (?a + 1) \<le> 2 powi ?b" using lt by (intro powi_mono2) simp
    then show ?thesis by (simp add: power_int_add)
  qed
  also have "\<dots> \<le> rnd y"
  proof -
    have "2 powi (?b + 52) \<le> y"
      using ulp_exp_lb [of y] ulp_exp_ge [of x] lt assms by simp
    then have "of_int (2 ^ 52) \<le> y / 2 powi ?b"
      by (simp add: power_int_add le_divide_eq)
    then have "2 ^ 52 \<le> rne (y / 2 powi ?b)" by (rule rne_ge)
    then have "(2::real) ^ 52 \<le> of_int (rne (y / 2 powi ?b))"
      by (metis of_int_le_iff of_int_numeral of_int_power)
    then show ?thesis unfolding rnd_def by (intro mult_right_mono) auto
  qed
  finally show ?thesis .
qed

lemma rnd_mono: assumes "x \<le> y" shows "rnd x \<le> rnd y"
proof -
  consider "0 < x" | "x \<le> 0" "0 \<le> y" | "y < 0" by linarith
  then show ?thesis
  proof cases
    case 1
    then show ?thesis using assms by (rule rnd_mono_pos)
  next
    case 2
    then have "0 \<le> rnd (- x)" "0 \<le> rnd y" by (auto intro: rnd_nonneg)
    then show ?thesis by (simp add: rnd_minus)
  next
    case 3
    then have "rnd (- y) \<le> rnd (- x)" using assms by (intro rnd_mono_pos) auto
    then show ?thesis by (simp add: rnd_minus)
  qed
qed

section \<open>Representable numbers\<close>

text \<open>A significand of at most 53 bits and an exponent of at least \<open>-1074\<close>.\<close>

definition frep :: "real \<Rightarrow> bool" where
  "frep x \<longleftrightarrow> (\<exists>m e. x = of_int m * 2 powi e \<and> \<bar>m\<bar> \<le> 2 ^ 53 \<and> - 1074 \<le> e)"

lemma frepI: "x = of_int m * 2 powi e \<Longrightarrow> \<bar>m\<bar> \<le> 2 ^ 53 \<Longrightarrow> - 1074 \<le> e \<Longrightarrow> frep x"
  by (auto simp: frep_def)

lemma rnd_frep: assumes "frep x" shows "rnd x = x"
proof -
  obtain m e where x: "x = of_int m * 2 powi e" "\<bar>m\<bar> \<le> 2 ^ 53" "- 1074 \<le> e"
    using assms by (auto simp: frep_def)
  show ?thesis
  proof (cases "m = 0 \<or> \<bar>m\<bar> = 2 ^ 53")
    case True
    then have "m = 0 \<or> m = 2 ^ 53 \<or> m = - (2 ^ 53)" by linarith
    then have "x = 0 \<or> x = 2 powi (e + 53) \<or> x = - (2 powi (e + 53))"
      using x(1) by (auto simp: power_int_add)
    then show ?thesis using rnd_pow2 [of "e + 53"] x(3) by (auto simp: rnd_minus)
  next
    case False
    then have "\<bar>m\<bar> < 2 ^ 53" using x(2) by linarith
    then have "of_int \<bar>m\<bar> < (of_int (2 ^ 53) :: real)" by (simp only: of_int_less_iff)
    then have "\<bar>x\<bar> < 2 powi (e + 53)"
      unfolding x(1) by (simp add: abs_mult power_int_add)
    moreover have "x \<noteq> 0" using False x(1) by auto
    ultimately have "ulp_exp x \<le> e" using x(3) by (intro ulp_exp_le_of_lt)
    with x(1) show ?thesis by (rule rnd_multiple)
  qed
qed

lemma frep_rnd: "frep (rnd x)"
proof (cases "x = 0")
  case False
  let ?e = "ulp_exp x"
  have "\<bar>x / 2 powi ?e\<bar> \<le> of_int (2 ^ 53)"
    using lt_ulp_exp [OF False] by (simp add: abs_divide power_int_add divide_le_eq)
  then have "x / 2 powi ?e \<le> of_int (2 ^ 53)" "of_int (- (2 ^ 53)) \<le> x / 2 powi ?e"
    unfolding abs_le_iff by simp_all
  then have "\<bar>rne (x / 2 powi ?e)\<bar> \<le> 2 ^ 53"
    using rne_le [of "x / 2 powi ?e" "2 ^ 53"] rne_ge [of "- (2 ^ 53)" "x / 2 powi ?e"]
    by (auto simp: abs_le_iff)
  then show ?thesis
    using ulp_exp_ge [of x] by (intro frepI [where e = ?e]) (auto simp: rnd_def)
qed (auto simp: frep_def)

lemma rnd_idem [simp]: "rnd (rnd x) = rnd x"
  by (rule rnd_frep [OF frep_rnd])

lemma rnd_le: "x \<le> y \<Longrightarrow> frep y \<Longrightarrow> rnd x \<le> y"
  using rnd_mono [of x y] by (simp add: rnd_frep)

lemma rnd_ge: "y \<le> x \<Longrightarrow> frep y \<Longrightarrow> y \<le> rnd x"
  using rnd_mono [of y x] by (simp add: rnd_frep)

lemma frep_of_int: "\<bar>i\<bar> \<le> 2 ^ 53 \<Longrightarrow> frep (of_int i)"
  by (rule frepI [where e = 0]) auto

lemma frep_0 [simp]: "frep 0"
  using frep_of_int [of 0] by simp

lemma frep_1 [simp]: "frep 1"
  using frep_of_int [of 1] by simp

lemma frep_minus [simp]: "frep (- x) \<longleftrightarrow> frep x"
proof -
  have "frep x \<Longrightarrow> frep (- x)" for x
  proof -
    assume "frep x"
    then obtain m e where "x = of_int m * 2 powi e" "\<bar>m\<bar> \<le> 2 ^ 53" "- 1074 \<le> e"
      by (auto simp: frep_def)
    then show "frep (- x)" by (intro frepI [where m = "- m" and e = e]) simp_all
  qed
  from this [of x] this [of "- x"] show ?thesis by auto
qed

lemma frep_numeral [simp]: "(numeral n :: int) \<le> 2 ^ 53 \<Longrightarrow> frep (numeral n)"
  using frep_of_int [of "numeral n"] by simp

lemma frep_div_pow2:
  assumes "\<bar>i\<bar> \<le> 2 ^ 53" "k \<le> 1074" shows "frep (of_int i / 2 ^ k)"
proof (rule frepI [where m = i and e = "- int k"])
  show "of_int i / 2 ^ k = (of_int i :: real) * 2 powi - int k"
    by (simp add: power_int_minus divide_inverse)
qed (use assms in auto)

text \<open>Dyadic fractions with small denominators, for evaluation.\<close>

lemma frep_half [simp]: "(numeral n :: int) \<le> 2 ^ 53 \<Longrightarrow> frep (numeral n / 2)"
  using frep_div_pow2 [of "numeral n" 1] by simp

lemma frep_quarter [simp]: "(numeral n :: int) \<le> 2 ^ 53 \<Longrightarrow> frep (numeral n / 4)"
  using frep_div_pow2 [of "numeral n" 2] by simp

lemma frep_eighth [simp]: "(numeral n :: int) \<le> 2 ^ 53 \<Longrightarrow> frep (numeral n / 8)"
  using frep_div_pow2 [of "numeral n" 3] by simp

lemma frep_one_half [simp]: "frep (1 / 2)" "frep (1 / 4)" "frep (1 / 8)"
  using frep_div_pow2 [of 1 1] frep_div_pow2 [of 1 2] frep_div_pow2 [of 1 3] by simp_all

lemma frep_pow2: "- 1074 \<le> e \<Longrightarrow> frep (2 powi e)"
  by (rule frepI [where m = 1]) auto

section \<open>The type and its arithmetic\<close>

datatype f64 = Fin real | PInf | NInf | NaN

definition fl :: "real \<Rightarrow> f64" where
  \<comment> \<open>Round a real number, overflowing to an infinity.\<close>
  "fl x = (if 2 ^ 1024 \<le> rnd x then PInf else if rnd x \<le> - (2 ^ 1024) then NInf else Fin (rnd x))"

fun finite64 :: "f64 \<Rightarrow> bool" where
  "finite64 (Fin _) = True"
| "finite64 _ = False"

fun val :: "f64 \<Rightarrow> real" where
  "val (Fin r) = r"
| "val _ = 0"

instantiation f64 :: "{zero, one, plus, minus, times, uminus, inverse, abs, ord}"
begin

definition zero_f64 :: f64 where "0 = Fin 0"

definition one_f64 :: f64 where "1 = Fin 1"

fun uminus_f64 :: "f64 \<Rightarrow> f64" where
  "- Fin a = Fin (- a)"
| "- PInf = NInf"
| "- NInf = PInf"
| "- NaN = NaN"

fun plus_f64 :: "f64 \<Rightarrow> f64 \<Rightarrow> f64" where
  "Fin a + Fin b = fl (a + b)"
| "NaN + _ = NaN"
| "_ + NaN = NaN"
| "PInf + NInf = NaN"
| "NInf + PInf = NaN"
| "PInf + _ = PInf"
| "_ + PInf = PInf"
| "NInf + _ = NInf"
| "_ + NInf = NInf"

definition minus_f64 :: "f64 \<Rightarrow> f64 \<Rightarrow> f64" where
  "x - y = x + (- y :: f64)"

fun sgn_inf :: "real \<Rightarrow> f64" where
  "sgn_inf s = (if 0 < s then PInf else if s < 0 then NInf else NaN)"

fun times_f64 :: "f64 \<Rightarrow> f64 \<Rightarrow> f64" where
  "Fin a * Fin b = fl (a * b)"
| "NaN * _ = NaN"
| "_ * NaN = NaN"
| "PInf * Fin b = sgn_inf b"
| "NInf * Fin b = sgn_inf (- b)"
| "Fin a * PInf = sgn_inf a"
| "Fin a * NInf = sgn_inf (- a)"
| "PInf * PInf = PInf"
| "NInf * NInf = PInf"
| "PInf * NInf = NInf"
| "NInf * PInf = NInf"

fun divide_f64 :: "f64 \<Rightarrow> f64 \<Rightarrow> f64" where
  "Fin a div Fin b = (if b = 0 then sgn_inf a else fl (a / b))"
| "NaN div _ = NaN"
| "_ div NaN = NaN"
| "PInf div Fin b = (if b < 0 then NInf else PInf)"
| "NInf div Fin b = (if b < 0 then PInf else NInf)"
| "Fin a div _ = Fin 0"
| "_ div _ = NaN"

definition inverse_f64 :: "f64 \<Rightarrow> f64" where
  "inverse x = 1 div (x :: f64)"

fun abs_f64 :: "f64 \<Rightarrow> f64" where
  "\<bar>Fin a\<bar> = Fin \<bar>a\<bar>"
| "\<bar>PInf\<bar> = PInf"
| "\<bar>NInf\<bar> = PInf"
| "\<bar>NaN\<bar> = NaN"

fun less_f64 :: "f64 \<Rightarrow> f64 \<Rightarrow> bool" where
  "Fin a < Fin b \<longleftrightarrow> a < b"
| "NInf < Fin _ \<longleftrightarrow> True"
| "NInf < PInf \<longleftrightarrow> True"
| "Fin _ < PInf \<longleftrightarrow> True"
| "_ < (_ :: f64) \<longleftrightarrow> False"

fun less_eq_f64 :: "f64 \<Rightarrow> f64 \<Rightarrow> bool" where
  "Fin a \<le> Fin b \<longleftrightarrow> a \<le> b"
| "NInf \<le> Fin _ \<longleftrightarrow> True"
| "NInf \<le> PInf \<longleftrightarrow> True"
| "NInf \<le> NInf \<longleftrightarrow> True"
| "Fin _ \<le> PInf \<longleftrightarrow> True"
| "PInf \<le> PInf \<longleftrightarrow> True"
| "_ \<le> (_ :: f64) \<longleftrightarrow> False"

instance ..

end

text \<open>Go's \<open>==\<close>: false as soon as an operand is NaN.\<close>

fun feq :: "f64 \<Rightarrow> f64 \<Rightarrow> bool" where
  "feq NaN _ = False"
| "feq _ NaN = False"
| "feq x y = (x = y)"

lemma divide_simps64 [simp]:
  "Fin a / Fin b = (if b = 0 then sgn_inf a else fl (a / b))"
  "Fin a / PInf = Fin 0" "Fin a / NInf = Fin 0"
  "NaN / x = NaN" "x / NaN = NaN"
  by (auto split: f64.split, cases x, auto)

lemma less_f64_iff:
  "Fin a < y \<longleftrightarrow> (\<exists>b. y = Fin b \<and> a < b) \<or> y = PInf"
  "x < Fin b \<longleftrightarrow> (\<exists>a. x = Fin a \<and> a < b) \<or> x = NInf"
  by (cases y; simp) (cases x; simp)

lemma less_eq_f64_iff:
  "Fin a \<le> y \<longleftrightarrow> (\<exists>b. y = Fin b \<and> a \<le> b) \<or> y = PInf"
  "x \<le> Fin b \<longleftrightarrow> (\<exists>a. x = Fin a \<and> a \<le> b) \<or> x = NInf"
  by (cases y; simp) (cases x; simp)

lemma not_less_NaN [simp]: "\<not> x < NaN" "\<not> NaN < x" "\<not> x \<le> NaN" "\<not> NaN \<le> x"
  by (cases x; simp)+

lemma less_imp_le64: "x < y \<Longrightarrow> x \<le> (y :: f64)"
  by (cases x; cases y) auto

lemma less_irrefl64 [simp]: "\<not> x < (x :: f64)"
  by (cases x) auto

lemma le_refl64: "x \<noteq> NaN \<Longrightarrow> x \<le> (x :: f64)"
  by (cases x) auto

lemma not_less64: "x \<noteq> NaN \<Longrightarrow> y \<noteq> NaN \<Longrightarrow> \<not> x < y \<longleftrightarrow> y \<le> (x :: f64)"
  by (cases x; cases y) auto

lemma le_trans64: "x \<le> y \<Longrightarrow> y \<le> z \<Longrightarrow> x \<le> (z :: f64)"
  by (cases x; cases y; cases z) auto

lemma minus_simps64 [simp]:
  "Fin a - Fin b = fl (a - b)" "NaN - x = NaN" "x - NaN = NaN"
  by (cases x; simp add: minus_f64_def)+

section \<open>Rounding into the type\<close>

text \<open>A bound below which nothing overflows.\<close>

definition big :: real where "big = 2 ^ 1000"

lemma big_ge [simp]: "0 < big" "0 \<le> big" "1 \<le> big"
  by (simp_all add: big_def)

lemma numeral_le_big: "(numeral n :: real) \<le> 2 ^ 1000 \<Longrightarrow> numeral n \<le> big"
  by (simp add: big_def)

lemma frep_big [simp]: "frep big"
proof -
  have "big = 2 powi 1000" unfolding big_def by (simp only: power_int_numeral)
  then show ?thesis using frep_pow2 [of 1000] by simp
qed

lemma fl_Fin: assumes "\<bar>x\<bar> \<le> big" shows "fl x = Fin (rnd x)"
proof -
  have "rnd x \<le> big" using assms by (intro rnd_le) auto
  moreover have "- big \<le> rnd x" using assms by (intro rnd_ge) auto
  moreover have "big < 2 ^ 1024" unfolding big_def by (rule power_strict_increasing) auto
  ultimately have "rnd x < 2 ^ 1024" "- (2 ^ 1024) < rnd x" by linarith+
  then show ?thesis by (simp only: fl_def not_le [symmetric] if_False)
qed

lemma fl_frep: "frep x \<Longrightarrow> \<bar>x\<bar> \<le> big \<Longrightarrow> fl x = Fin x"
  by (simp add: fl_Fin rnd_frep)

lemma fl_numeral [simp]: "(numeral n :: int) \<le> 2 ^ 53 \<Longrightarrow> fl (numeral n) = Fin (numeral n)"
proof -
  assume n: "(numeral n :: int) \<le> 2 ^ 53"
  then have "(of_int (numeral n) :: real) \<le> of_int (2 ^ 53)" by (simp only: of_int_le_iff)
  also have "\<dots> \<le> big" unfolding big_def by (simp only: of_int_power of_int_numeral) (rule power_increasing, auto)
  finally show ?thesis using n by (intro fl_frep) auto
qed

lemma fl_0 [simp]: "fl 0 = Fin 0" and fl_1 [simp]: "fl 1 = Fin 1"
  by (rule fl_frep; simp)+

lemma fl_not_NaN [simp]: "fl x \<noteq> NaN"
  by (simp add: fl_def)

lemma fl_mono: "x \<le> y \<Longrightarrow> fl x \<le> fl y"
  using rnd_mono [of x y] by (auto simp: fl_def)

lemma fl_minus: "fl (- x) = - fl x"
  by (auto simp: fl_def rnd_minus)

section \<open>Intervals\<close>

definition fbtw :: "real \<Rightarrow> f64 \<Rightarrow> real \<Rightarrow> bool" where
  "fbtw lo x hi \<longleftrightarrow> (\<exists>r. x = Fin r \<and> lo \<le> r \<and> r \<le> hi)"

text \<open>Bounds that rounding respects: representable and far from overflow.\<close>

definition fbound :: "real \<Rightarrow> bool" where
  "fbound b \<longleftrightarrow> frep b \<and> \<bar>b\<bar> \<le> big"

lemma fbtwE: "fbtw lo x hi \<Longrightarrow> (\<And>r. x = Fin r \<Longrightarrow> lo \<le> r \<Longrightarrow> r \<le> hi \<Longrightarrow> P) \<Longrightarrow> P"
  by (auto simp: fbtw_def)

lemma fbtw_Fin [simp]: "fbtw lo (Fin r) hi \<longleftrightarrow> lo \<le> r \<and> r \<le> hi"
  by (auto simp: fbtw_def)

lemma fbtw_not_finite [simp]: "\<not> fbtw lo NaN hi" "\<not> fbtw lo PInf hi" "\<not> fbtw lo NInf hi"
  by (auto simp: fbtw_def)

lemma fbtw_weaken: "fbtw a x b \<Longrightarrow> lo \<le> a \<Longrightarrow> b \<le> hi \<Longrightarrow> fbtw lo x hi"
  by (auto simp: fbtw_def)

lemma fbtw_finite: "fbtw lo x hi \<Longrightarrow> finite64 x"
  by (auto simp: fbtw_def)

lemma fbtw_le_iff: "fbtw lo x hi \<longleftrightarrow> Fin lo \<le> x \<and> x \<le> Fin hi"
  by (cases x) auto

lemma fbound_simps [simp]:
  "fbound 0" "fbound 1" "fbound (- x) \<longleftrightarrow> fbound x"
  "(numeral n :: int) \<le> 2 ^ 53 \<Longrightarrow> fbound (numeral n)"
proof -
  show "fbound (numeral n)" if n: "(numeral n :: int) \<le> 2 ^ 53"
  proof -
    have "(of_int (numeral n) :: real) \<le> of_int (2 ^ 53)" using n by (simp only: of_int_le_iff)
    also have "\<dots> \<le> big"
      unfolding big_def by (simp only: of_int_power of_int_numeral) (rule power_increasing, auto)
    finally show ?thesis using n by (simp add: fbound_def)
  qed
qed (simp_all add: fbound_def)

lemma fbound_of_int: assumes "\<bar>i\<bar> \<le> 2 ^ 53" shows "fbound (of_int i)"
proof -
  have "\<bar>of_int i :: real\<bar> = of_int \<bar>i\<bar>" by simp
  also have "\<dots> \<le> of_int (2 ^ 53)" using assms by (simp only: of_int_le_iff)
  also have "\<dots> \<le> big"
    unfolding big_def by (simp only: of_int_power of_int_numeral) (rule power_increasing, auto)
  finally show ?thesis using assms by (simp add: fbound_def frep_of_int)
qed

lemma fbound_half [simp]:
  "fbound (1 / 2)" "fbound (1 / 4)" "fbound (1 / 8)"
  unfolding fbound_def by (intro conjI frep_one_half, insert big_ge(3), linarith)+

lemma fbound_rnd [simp]: assumes "\<bar>x\<bar> \<le> big" shows "fbound (rnd x)"
proof -
  have "rnd x \<le> big" "- big \<le> rnd x"
    using assms by (auto intro!: rnd_le rnd_ge)
  then show ?thesis by (simp add: fbound_def frep_rnd)
qed

lemma fbtw_fl [fbtw_intros]:
  assumes "lo \<le> x" "x \<le> hi" "fbound lo" "fbound hi" shows "fbtw lo (fl x) hi"
proof -
  have "\<bar>x\<bar> \<le> big" using assms by (auto simp: fbound_def)
  then show ?thesis
    using assms by (simp add: fl_Fin rnd_le rnd_ge fbound_def)
qed

lemma fbtw_add [fbtw_intros]:
  assumes "fbtw a x b" "fbtw c y d" "lo \<le> a + c" "b + d \<le> hi" "fbound lo" "fbound hi"
  shows "fbtw lo (x + y) hi"
  using assms by (auto elim!: fbtwE intro!: fbtw_fl)

lemma fbtw_diff [fbtw_intros]:
  assumes "fbtw a x b" "fbtw c y d" "lo \<le> a - d" "b - c \<le> hi" "fbound lo" "fbound hi"
  shows "fbtw lo (x - y) hi"
  using assms by (auto elim!: fbtwE intro!: fbtw_fl)

lemma fbtw_mult [fbtw_intros]:
  assumes "fbtw a x b" "fbtw c y d" "0 \<le> a" "0 \<le> c" "lo \<le> a * c" "b * d \<le> hi"
    "fbound lo" "fbound hi"
  shows "fbtw lo (x * y) hi"
proof -
  obtain r s where "x = Fin r" "y = Fin s" "a \<le> r" "r \<le> b" "c \<le> s" "s \<le> d"
    using assms(1,2) by (auto elim!: fbtwE)
  moreover have "a * c \<le> r * s" "r * s \<le> b * d"
    using calculation assms(3,4) by (auto intro!: mult_mono)
  ultimately show ?thesis using assms(5-) by (auto intro!: fbtw_fl)
qed

lemma fbtw_divide [fbtw_intros]:
  assumes "fbtw a x b" "fbtw c y d" "0 \<le> a" "0 < c" "lo \<le> a / d" "b / c \<le> hi"
    "fbound lo" "fbound hi"
  shows "fbtw lo (x / y) hi"
proof -
  obtain r s where *: "x = Fin r" "y = Fin s" "a \<le> r" "r \<le> b" "c \<le> s" "s \<le> d"
    using assms(1,2) by (auto elim!: fbtwE)
  have "a / d \<le> r / s" "r / s \<le> b / c"
    using * assms(3,4) by (auto intro!: frac_le)
  then show ?thesis using * assms(4-) by (auto intro!: fbtw_fl)
qed

lemma fbtw_abs [fbtw_intros]:
  assumes "fbtw a x b" "- hi \<le> a" "b \<le> hi" shows "fbtw 0 \<bar>x\<bar> hi"
  using assms by (auto elim!: fbtwE)

lemma fbtw_minus [fbtw_intros]: "fbtw (- b) x (- a) \<Longrightarrow> fbtw a (- x) b"
  by (auto elim!: fbtwE)

section \<open>The functions of package math the code calls\<close>

definition math_IsNaN :: "f64 \<Rightarrow> bool" where
  "math_IsNaN x \<longleftrightarrow> x = NaN"

definition math_IsInf :: "f64 \<Rightarrow> bool" where
  \<comment> \<open>\<open>math.IsInf(x, 0)\<close>\<close>
  "math_IsInf x \<longleftrightarrow> x = PInf \<or> x = NInf"

definition math_Max :: "f64 \<Rightarrow> f64 \<Rightarrow> f64" where
  "math_Max x y =
     (if x = PInf \<or> y = PInf then PInf
      else if x = NaN \<or> y = NaN then NaN
      else if y < x then x else y)"

definition math_Min :: "f64 \<Rightarrow> f64 \<Rightarrow> f64" where
  "math_Min x y =
     (if x = NInf \<or> y = NInf then NInf
      else if x = NaN \<or> y = NaN then NaN
      else if x < y then x else y)"

definition math_Copysign :: "f64 \<Rightarrow> f64 \<Rightarrow> f64" where
  \<comment> \<open>the sign of NaN and of zero is read as positive\<close>
  "math_Copysign f sign = (if sign < 0 then - \<bar>f\<bar> else \<bar>f\<bar>)"

fun math_Sqrt :: "f64 \<Rightarrow> f64" where
  "math_Sqrt (Fin r) = (if r < 0 then NaN else fl (sqrt r))"
| "math_Sqrt PInf = PInf"
| "math_Sqrt _ = NaN"

fun math_Exp :: "f64 \<Rightarrow> f64" where
  "math_Exp (Fin r) = fl (exp r)"
| "math_Exp PInf = PInf"
| "math_Exp NInf = 0"
| "math_Exp NaN = NaN"

fun math_Log :: "f64 \<Rightarrow> f64" where
  "math_Log (Fin r) = (if r < 0 then NaN else if r = 0 then NInf else fl (ln r))"
| "math_Log PInf = PInf"
| "math_Log _ = NaN"

fun math_Tanh :: "f64 \<Rightarrow> f64" where
  "math_Tanh (Fin r) = fl (tanh r)"
| "math_Tanh PInf = 1"
| "math_Tanh NInf = - 1"
| "math_Tanh NaN = NaN"

fun math_Sin :: "f64 \<Rightarrow> f64" where
  "math_Sin (Fin r) = fl (sin r)"
| "math_Sin _ = NaN"

definition is_int_real :: "real \<Rightarrow> bool" where
  "is_int_real e = (of_int \<lfloor>e\<rfloor> = e)"

definition neg_pow_sign :: "real \<Rightarrow> real" where
  \<comment> \<open>the sign of a power of a negative base, for an integer exponent\<close>
  "neg_pow_sign e = (if even \<lfloor>e\<rfloor> then 1 else - 1)"

fun math_Pow :: "f64 \<Rightarrow> f64 \<Rightarrow> f64" where
  "math_Pow (Fin b) (Fin e) =
     (if e = 0 \<or> b = 1 then 1
      else if b < 0 then (if is_int_real e then fl (neg_pow_sign e * ((- b) powr e)) else NaN)
      else if b = 0 then (if e < 0 then PInf else 0)
      else fl (b powr e))"
| "math_Pow PInf (Fin e) = (if e = 0 then 1 else if e < 0 then 0 else PInf)"
| "math_Pow NInf (Fin e) =
     (if e = 0 then 1 else if e < 0 then 0
      else if is_int_real e \<and> odd \<lfloor>e\<rfloor> then NInf else PInf)"
| "math_Pow NaN (Fin e) = (if e = 0 then 1 else NaN)"
| "math_Pow x NaN = (if x = Fin 1 then 1 else NaN)"
| "math_Pow x PInf =
     (if x = NaN then NaN else if x = Fin 1 \<or> x = Fin (- 1) then 1
      else if \<bar>x\<bar> < 1 then 0 else PInf)"
| "math_Pow x NInf =
     (if x = NaN then NaN else if x = Fin 1 \<or> x = Fin (- 1) then 1
      else if \<bar>x\<bar> < 1 then PInf else 0)"

definition MaxFloat64 :: f64 where
  "MaxFloat64 = Fin ((2 - 1 / 2 ^ 52) * 2 ^ 1023)"

definition round_away :: "real \<Rightarrow> int" where
  \<comment> \<open>\<open>math.Round\<close>: half away from zero\<close>
  "round_away r = (if r < 0 then - \<lfloor>\<bar>r\<bar> + 1/2\<rfloor> else \<lfloor>r + 1/2\<rfloor>)"

fun math_Round :: "f64 \<Rightarrow> f64" where
  "math_Round (Fin r) = Fin (of_int (round_away r))"
| "math_Round x = x"

fun math_Ceil :: "f64 \<Rightarrow> f64" where
  "math_Ceil (Fin r) = Fin (of_int \<lceil>r\<rceil>)"
| "math_Ceil x = x"

definition f64_of_int :: "int \<Rightarrow> f64" where
  "f64_of_int i = fl (of_int i)"

definition trunc_real :: "real \<Rightarrow> int" where
  "trunc_real r = (if r < 0 then - \<lfloor>\<bar>r\<bar>\<rfloor> else \<lfloor>r\<rfloor>)"

fun int_of_f64 :: "f64 \<Rightarrow> int" where
  \<comment> \<open>\<open>int(x)\<close> on amd64: truncation, and the smallest \<open>int64\<close> when the value does not fit\<close>
  "int_of_f64 (Fin r) =
     (let t = trunc_real r in if minI64 \<le> t \<and> t \<le> maxI64 then t else minI64)"
| "int_of_f64 _ = minI64"

lemma math_Max_btw [fbtw_intros]:
  "fbtw a x b \<Longrightarrow> fbtw c y d \<Longrightarrow> lo \<le> max a c \<Longrightarrow> max b d \<le> hi \<Longrightarrow> fbtw lo (math_Max x y) hi"
  by (auto elim!: fbtwE simp: math_Max_def)

lemma math_Min_btw [fbtw_intros]:
  "fbtw a x b \<Longrightarrow> fbtw c y d \<Longrightarrow> lo \<le> min a c \<Longrightarrow> min b d \<le> hi \<Longrightarrow> fbtw lo (math_Min x y) hi"
  by (auto elim!: fbtwE simp: math_Min_def)

lemma math_Max_Fin [simp]: "math_Max (Fin a) (Fin b) = Fin (max a b)"
  by (auto simp: math_Max_def)

lemma math_Min_Fin [simp]: "math_Min (Fin a) (Fin b) = Fin (min a b)"
  by (auto simp: math_Min_def)

lemma f64_of_int_small: "\<bar>i\<bar> \<le> 2 ^ 53 \<Longrightarrow> f64_of_int i = Fin (of_int i)"
  using fbound_of_int [of i] by (auto simp: f64_of_int_def fbound_def intro: fl_frep)

lemma f64_of_int_simps [simp]:
  "f64_of_int 0 = Fin 0" "f64_of_int 1 = Fin 1"
  "(numeral n :: int) \<le> 2 ^ 53 \<Longrightarrow> f64_of_int (numeral n) = Fin (numeral n)"
  using f64_of_int_small [of 0] f64_of_int_small [of 1] f64_of_int_small [of "numeral n"]
  by simp_all

lemma trunc_real_of_int [simp]: "trunc_real (of_int i) = i"
  by (cases "i < 0") (auto simp: trunc_real_def)

lemma trunc_real_bounds: "0 \<le> r \<Longrightarrow> 0 \<le> trunc_real r \<and> of_int (trunc_real r) \<le> r"
  by (simp add: trunc_real_def)

lemma int_of_f64_range: "minI64 \<le> int_of_f64 x \<and> int_of_f64 x \<le> maxI64"
  by (cases x) (auto simp: Let_def minI64_def maxI64_def)

lemma int_of_f64_of_int: "minI64 \<le> i \<Longrightarrow> i \<le> maxI64 \<Longrightarrow> int_of_f64 (Fin (of_int i)) = i"
  by simp

lemma round_away_of_int [simp]: "round_away (of_int i) = i"
proof -
  have "\<lfloor>(of_int j :: real) + 1/2\<rfloor> = j" for j by linarith
  from this [of i] this [of "- i"] show ?thesis by (auto simp: round_away_def)
qed

lemma round_away_mono: "x \<le> y \<Longrightarrow> round_away x \<le> round_away y"
proof -
  assume "x \<le> y"
  consider "0 \<le> x" | "x < 0" "0 \<le> y" | "y < 0" using \<open>x \<le> y\<close> by linarith
  then show ?thesis
  proof cases
    case 1
    with \<open>x \<le> y\<close> show ?thesis by (auto simp: round_away_def intro: floor_mono)
  next
    case 2
    have "0 \<le> \<lfloor>\<bar>x\<bar> + 1/2\<rfloor>" "0 \<le> \<lfloor>y + 1/2\<rfloor>" using 2 by auto
    then have "- \<lfloor>\<bar>x\<bar> + 1/2\<rfloor> \<le> \<lfloor>y + 1/2\<rfloor>" by linarith
    with 2 show ?thesis unfolding round_away_def by (auto simp only: not_less split: if_split)
  next
    case 3
    have "\<lfloor>\<bar>y\<bar> + 1/2\<rfloor> \<le> \<lfloor>\<bar>x\<bar> + 1/2\<rfloor>" using 3 \<open>x \<le> y\<close> by (intro floor_mono) auto
    with 3 \<open>x \<le> y\<close> show ?thesis by (auto simp: round_away_def)
  qed
qed

text \<open>
  \<open>f64_clamp\<close> is the shape of the code's clamp helpers: two comparisons, so NaN
  passes through.
\<close>

definition f64_clamp :: "f64 \<Rightarrow> f64 \<Rightarrow> f64 \<Rightarrow> f64" where
  "f64_clamp x lo hi = (if x < lo then lo else if hi < x then hi else x)"

lemma f64_clamp_NaN [simp]: "f64_clamp NaN lo hi = NaN"
  by (simp add: f64_clamp_def)

lemma f64_clamp_btw:
  "x \<noteq> NaN \<Longrightarrow> lo \<le> hi \<Longrightarrow> fbtw lo (f64_clamp x (Fin lo) (Fin hi)) hi"
  by (cases x) (auto simp: f64_clamp_def)

lemma f64_clamp_id: "fbtw lo x hi \<Longrightarrow> f64_clamp x (Fin lo) (Fin hi) = x"
  by (auto elim!: fbtwE simp: f64_clamp_def)

section \<open>Signs with infinities\<close>

definition f_nonneg :: "f64 \<Rightarrow> bool" where
  "f_nonneg x \<longleftrightarrow> x = PInf \<or> (\<exists>r. x = Fin r \<and> 0 \<le> r)"

definition f_nonpos :: "f64 \<Rightarrow> bool" where
  "f_nonpos x \<longleftrightarrow> x = NInf \<or> (\<exists>r. x = Fin r \<and> r \<le> 0)"

lemma fl_nonneg: assumes "0 \<le> x" shows "f_nonneg (fl x)"
proof -
  have "0 \<le> rnd x" using assms by (rule rnd_nonneg)
  moreover have "\<not> rnd x \<le> - (2 ^ 1024)"
    using \<open>0 \<le> rnd x\<close> by (smt (verit) zero_less_power)
  ultimately show ?thesis by (auto simp: fl_def f_nonneg_def)
qed

lemma f_nonneg_Fin [simp]: "f_nonneg (Fin r) \<longleftrightarrow> 0 \<le> r"
  and f_nonneg_inf [simp]: "f_nonneg PInf" "\<not> f_nonneg NInf" "\<not> f_nonneg NaN"
  and f_nonpos_Fin [simp]: "f_nonpos (Fin r) \<longleftrightarrow> r \<le> 0"
  and f_nonpos_inf [simp]: "f_nonpos NInf" "\<not> f_nonpos PInf" "\<not> f_nonpos NaN"
  by (auto simp: f_nonneg_def f_nonpos_def)

lemma fl_pos_cases: "0 \<le> y \<Longrightarrow> fl y = PInf \<or> fl y = Fin (rnd y)"
  using fl_nonneg [of y] by (auto simp: fl_def split: if_splits)

lemma f_nonpos_minus [simp]: "f_nonpos (- x) \<longleftrightarrow> f_nonneg x"
  by (cases x) auto

lemma fl_nonpos: "x \<le> 0 \<Longrightarrow> f_nonpos (fl x)"
  using fl_nonneg [of "- x"] by (cases "fl x") (auto simp: fl_minus)

lemma f_nonneg_divide: "f_nonneg x \<Longrightarrow> 0 < c \<Longrightarrow> f_nonneg (x / Fin c)"
  by (cases x) (auto intro: fl_nonneg)

lemma f_nonneg_mult: "f_nonneg x \<Longrightarrow> 0 < c \<Longrightarrow> f_nonneg (x * Fin c)"
  by (cases x) (auto intro: fl_nonneg)

lemma f_nonpos_divide: "f_nonpos x \<Longrightarrow> 0 < c \<Longrightarrow> f_nonpos (x / Fin c)"
  by (cases x) (auto intro!: fl_nonpos simp: divide_le_0_iff)

lemma f_nonpos_mult: "f_nonpos x \<Longrightarrow> 0 < c \<Longrightarrow> f_nonpos (x * Fin c)"
  by (cases x) (auto intro!: fl_nonpos simp: mult_le_0_iff)

lemma math_Exp_nonpos: "f_nonpos x \<Longrightarrow> fbtw 0 (math_Exp x) 1"
  by (cases x) (auto intro!: fbtw_fl simp: zero_f64_def)

lemma fbound_big [simp]: "fbound big"
  unfolding fbound_def big_def using frep_pow2 [of 1000] by simp

lemma fbtw_nonneg: "fbtw 0 x hi \<Longrightarrow> f_nonneg x"
  by (auto elim!: fbtwE)

lemma math_Sqrt_btw:
  assumes "fbtw 0 x hi" "hi \<le> big" shows "fbtw 0 (math_Sqrt x) big"
proof -
  obtain r where r: "x = Fin r" "0 \<le> r" "r \<le> hi" using assms(1) by (rule fbtwE)
  have "sqrt r \<le> max 1 r"
    by (cases "r \<le> 1") (auto intro!: real_le_lsqrt real_sqrt_le_1_iff [THEN iffD2] simp: max_def power2_eq_square)
  also have "\<dots> \<le> big" using r assms(2) by simp
  finally have "sqrt r \<le> big" .
  then show ?thesis using r by (auto intro!: fbtw_fl)
qed

lemma fbtw_square:
  assumes "fbtw (- h) x h" "fbound (h * h)" shows "fbtw 0 (x * x) (h * h)"
proof -
  obtain r where r: "x = Fin r" "- h \<le> r" "r \<le> h" using assms(1) by (rule fbtwE)
  have "r * r \<le> h * h" using r by (smt (verit) mult_mono mult_minus_left mult_minus_right)
  then show ?thesis using r assms(2) by (auto intro!: fbtw_fl)
qed

text \<open>A loop that adds bounded terms.\<close>

lemma fold_sum_btw:
  assumes "\<forall>x \<in> set xs. fbtw 0 (g x) h" "fbtw 0 a (real k * h)"
    "\<And>j. j \<le> k + length xs \<Longrightarrow> fbound (real j * h)"
  shows "fbtw 0 (fold (\<lambda>x a. a + g x) xs a) (real (k + length xs) * h)"
  using assms
proof (induction xs arbitrary: a k)
  case (Cons x xs)
  have "fbtw 0 (a + g x) (real (Suc k) * h)"
    using Cons.prems(1,2) Cons.prems(3) [of "Suc k"]
    by (intro fbtw_add [where a = 0 and c = 0 and b = "real k * h" and d = h])
      (auto simp: algebra_simps)
  then show ?case using Cons.IH [of "a + g x" "Suc k"] Cons.prems by simp
qed simp

section \<open>The rounding error\<close>

lemma rnd_error:
  assumes "\<bar>x\<bar> < 2 powi (e + 53)" "- 1074 \<le> e" shows "\<bar>rnd x - x\<bar> \<le> 2 powi e / 2"
proof (cases "x = 0")
  case False
  let ?u = "2 powi ulp_exp x :: real"
  have "rnd x - x = (of_int (rne (x / ?u)) - x / ?u) * ?u"
    by (simp add: rnd_def left_diff_distrib)
  then have "\<bar>rnd x - x\<bar> = \<bar>of_int (rne (x / ?u)) - x / ?u\<bar> * ?u"
    by (simp add: abs_mult)
  also have "\<dots> \<le> 1 / 2 * ?u" by (intro mult_right_mono rne_error) auto
  also have "\<dots> \<le> 2 powi e / 2"
    using powi_mono2 [OF ulp_exp_le_of_lt [OF False assms]] by simp
  finally show ?thesis .
qed simp

lemma rnd_error_unit:
  assumes "\<bar>x\<bar> \<le> 1" shows "\<bar>rnd x - x\<bar> \<le> 1 / 2 ^ 54"
proof (cases "\<bar>x\<bar> = 1")
  case True
  then have "x = 1 \<or> x = - 1" by linarith
  then show ?thesis by (auto simp: rnd_minus rnd_frep)
next
  case False
  then have "\<bar>rnd x - x\<bar> \<le> 2 powi (- 53) / 2" using assms by (intro rnd_error) auto
  then show ?thesis by (simp add: power_int_minus field_simps)
qed

lemma rnd_just_above_1: assumes "x \<le> 1 + 1 / 2 ^ 53" shows "rnd x \<le> 1"
proof -
  let ?y = "1 + 1 / 2 ^ 53 :: real"
  have "log 2 ?y < 1" by (subst log_less_iff) auto
  moreover have "0 \<le> log 2 ?y" by simp
  ultimately have "\<lfloor>log 2 ?y\<rfloor> = 0" by (intro floor_unique) auto
  then have u: "ulp_exp ?y = - 52" by (simp add: ulp_exp_def)
  have "?y / 2 powi (- 52) = 2 ^ 52 + 1 / 2" by (simp add: power_int_minus)
  moreover have "rne (2 ^ 52 + 1 / 2) = 2 ^ 52"
  proof -
    have f: "\<lfloor>2 ^ 52 + 1 / 2 :: real\<rfloor> = 2 ^ 52" by (rule floor_unique) auto
    show ?thesis unfolding rne_def f Let_def by simp
  qed
  ultimately have "rnd ?y = of_int (2 ^ 52) * 2 powi (- 52)" by (simp only: rnd_def u)
  then have "rnd ?y = 1" by (simp add: power_int_minus)
  then show ?thesis using rnd_mono [OF assms] by simp
qed

text \<open>A convex combination of values in the unit interval stays there, rounding included.\<close>

lemma convex_btw:
  assumes "fbtw 0 alpha 1" "fbtw 0 x 1" "fbtw 0 old 1"
  shows "fbtw 0 (alpha * x + (1 - alpha) * old) 1"
proof -
  obtain a where a: "alpha = Fin a" "0 \<le> a" "a \<le> 1" using assms(1) by (rule fbtwE)
  obtain r where r: "x = Fin r" "0 \<le> r" "r \<le> 1" using assms(2) by (rule fbtwE)
  obtain s where s: "old = Fin s" "0 \<le> s" "s \<le> 1" using assms(3) by (rule fbtwE)
  define b where "b = rnd (1 - a)"
  have b: "0 \<le> b" "b \<le> 1" "frep b"
    using a by (auto simp: b_def intro: rnd_nonneg rnd_le frep_rnd)
  have b1: "b \<le> 1 - a + 1 / 2 ^ 54"
    using rnd_error_unit [of "1 - a"] a unfolding b_def by linarith
  have ra: "rnd a \<le> a + 1 / 2 ^ 54" using rnd_error_unit [of a] a by linarith
  have 1: "rnd (a * r) \<le> rnd a" "0 \<le> rnd (a * r)"
    using a r by (auto intro!: rnd_mono rnd_nonneg mult_left_le)
  have 2: "rnd (b * s) \<le> b" "0 \<le> rnd (b * s)"
    using b s by (auto intro!: rnd_le rnd_nonneg mult_left_le)
  have "rnd (a * r) + rnd (b * s) \<le> 1 + 1 / 2 ^ 53" using 1 2 b1 ra by simp
  then have sum: "rnd (rnd (a * r) + rnd (b * s)) \<le> 1" by (rule rnd_just_above_1)
  have small: "\<bar>y\<bar> \<le> big" if "\<bar>y\<bar> \<le> 3" for y :: real
  proof -
    have "(3 :: real) \<le> big" unfolding big_def by simp
    then show ?thesis using that by linarith
  qed
  have le: "a * r \<le> 1" "b * s \<le> 1" "0 \<le> a * r" "0 \<le> b * s" using a r b s by (auto intro: mult_le_one)
  have ra1: "rnd a \<le> 1" using a by (intro rnd_le) auto
  have e1: "1 - alpha = Fin b"
    using a small [of "1 - a"] by (simp add: one_f64_def fl_Fin b_def)
  have e2: "alpha * x = Fin (rnd (a * r))" "(1 - alpha) * old = Fin (rnd (b * s))"
    unfolding e1 using a(1) r(1) s(1) small [of "a * r"] small [of "b * s"] le by (simp_all add: fl_Fin)
  have "alpha * x + (1 - alpha) * old = Fin (rnd (rnd (a * r) + rnd (b * s)))"
  proof -
    have "\<bar>rnd (a * r) + rnd (b * s)\<bar> \<le> 3" using 1 2 b(2) ra1 by linarith
    then show ?thesis unfolding e2 by (simp add: fl_Fin [OF small])
  qed
  then show ?thesis using sum 1 2 by (simp add: rnd_nonneg)
qed

section \<open>Values that are not NaN\<close>

lemma f_nonneg_not_NaN: "f_nonneg x \<Longrightarrow> x \<noteq> NaN"
  by auto

lemma fbtw_not_NaN: "fbtw lo x hi \<Longrightarrow> x \<noteq> NaN"
  by auto

lemma f_nonneg_Exp: "x \<noteq> NaN \<Longrightarrow> f_nonneg (math_Exp x)"
  by (cases x) (auto intro!: fl_nonneg simp: zero_f64_def)

lemma f_nonneg_add: "f_nonneg x \<Longrightarrow> f_nonneg y \<Longrightarrow> f_nonneg (x + y)"
  by (cases x; cases y) (auto intro!: fl_nonneg)

lemma f_nonneg_one [simp]: "f_nonneg 1" "f_nonneg 0"
  by (simp_all add: one_f64_def zero_f64_def)

lemma f_nonneg_recip: "0 < r \<Longrightarrow> f_nonneg y \<Longrightarrow> f_nonneg (Fin r / y)"
  by (cases y) (auto intro!: fl_nonneg)

lemma int_of_f64_btw:
  assumes "fbtw (of_int a) x (of_int b)" "0 \<le> a" "b \<le> maxI64"
  shows "a \<le> int_of_f64 x \<and> int_of_f64 x \<le> b"
proof -
  obtain r where r: "x = Fin r" "of_int a \<le> r" "r \<le> of_int b" using assms(1) by (rule fbtwE)
  have "0 \<le> r" using r(2) assms(2) by (metis of_int_0_le_iff order_trans)
  then have t: "trunc_real r = \<lfloor>r\<rfloor>" by (simp add: trunc_real_def)
  have "a \<le> \<lfloor>r\<rfloor>" "\<lfloor>r\<rfloor> \<le> b" using r(2,3) by (auto simp: le_floor_iff) linarith
  then show ?thesis using r t assms by (auto simp: Let_def minI64_def)
qed

lemma f64_clamp_le:
  "x \<noteq> NaN \<Longrightarrow> lo \<le> hi \<Longrightarrow> lo \<le> f64_clamp x lo hi \<and> f64_clamp x lo hi \<le> (hi :: f64)"
  by (cases x; cases lo; cases hi) (auto simp: f64_clamp_def)

lemma fl_finite: assumes "\<bar>x\<bar> \<le> 2 ^ 53" shows "fl x = Fin (rnd x)"
proof -
  have "(2 :: real) ^ 53 \<le> big" unfolding big_def by (rule power_increasing) auto
  then show ?thesis using assms by (intro fl_Fin) linarith
qed

end
