(* ===== verification/GoTime.thy ===== *)
theory GoTime
  imports Float64
begin

text \<open>
  Go's package \<open>time\<close>, as far as the code uses it.  An instant is the number of
  nanoseconds since the zero \<open>time.Time\<close>; \<open>IsZero\<close> is equality with \<open>0\<close>.
  A \<open>time.Duration\<close> is a count of nanoseconds; subtracting two instants saturates
  at the ends of \<open>int64\<close>, as \<open>Time.Sub\<close> does.  The clock is an argument of every
  operation that calls \<open>time.Now\<close>.
\<close>

type_synonym gotime = int
type_synonym duration = int

definition time_sub :: "gotime \<Rightarrow> gotime \<Rightarrow> duration" where
  "time_sub t u = sat_i64 (t - u)"

definition time_add :: "gotime \<Rightarrow> duration \<Rightarrow> gotime" where
  "time_add t d = t + d"

definition Second :: duration where "Second = 1000000000"
definition Millisecond :: duration where "Millisecond = 1000000"
definition Minute :: duration where "Minute = 60 * Second"

definition duration_Seconds :: "duration \<Rightarrow> f64" where
  \<comment> \<open>\<open>Duration.Seconds\<close>: whole seconds plus the remainder over \<open>1e9\<close>, in \<open>float64\<close>\<close>
  "duration_Seconds d = f64_of_int (quot d Second) + f64_of_int (remt d Second) / fl 1000000000"

definition duration_Milliseconds :: "duration \<Rightarrow> int" where
  "duration_Milliseconds d = quot d Millisecond"

definition duration_of_f64 :: "f64 \<Rightarrow> duration" where
  \<comment> \<open>\<open>time.Duration(x)\<close> for a \<open>float64\<close> \<open>x\<close>\<close>
  "duration_of_f64 x = int_of_f64 x"

lemma time_sub_small: "minI64 \<le> t - u \<Longrightarrow> t - u \<le> maxI64 \<Longrightarrow> time_sub t u = t - u"
  by (simp add: time_sub_def sat_i64_def)

lemma time_sub_self [simp]: "time_sub t t = 0"
  by (simp add: time_sub_def sat_i64_def minI64_def maxI64_def)

lemma time_sub_mono: "t \<le> t' \<Longrightarrow> time_sub t u \<le> time_sub t' u"
  by (simp add: time_sub_def sat_i64_def)

lemma duration_Seconds_nonneg:
  assumes "0 \<le> d" "d \<le> maxI64" shows "\<exists>r. duration_Seconds d = Fin r \<and> 0 \<le> r"
proof -
  let ?q = "d div Second" and ?m = "d mod Second"
  have q: "0 \<le> ?q" "?q \<le> 10000000000"
    using assms by (auto simp: Second_def maxI64_def)
  have m: "0 \<le> ?m" "?m < 1000000000" by (simp_all add: Second_def)
  have "fbtw 0 (f64_of_int ?q) 10000000000"
    unfolding f64_of_int_def using q by (intro fbtw_fl) auto
  moreover have "fbtw 0 (f64_of_int ?m / fl 1000000000) 1"
    unfolding f64_of_int_def
    by (rule fbtw_divide [where a = 0 and b = 1000000000 and c = 1000000000 and d = 1000000000])
      (use m in \<open>auto intro!: fbtw_fl\<close>)
  ultimately have "fbtw 0 (f64_of_int ?q + f64_of_int ?m / fl 1000000000) 10000000001"
    by (rule fbtw_add) auto
  then show ?thesis
    using assms by (auto simp: duration_Seconds_def quot_nonneg remt_nonneg Second_def elim!: fbtwE)
qed

end
