(* ===== verification/TelemetryRing.thy ===== *)
theory TelemetryRing
  imports RingLog GoTime
begin

text \<open>
  \<open>internal/telemetry/types.go\<close> and \<open>ringbuffer.go\<close>: metric points and the ring
  buffer that holds the recent points of one service.  The code copies the slice of
  upstream calls on the way in and out, so that no caller shares memory with the
  buffer; with lists as values a copy is the value itself.
\<close>

section \<open>Metric points\<close>

record LatencyStats =
  lat_P50 :: f64
  lat_P95 :: f64
  lat_P99 :: f64
  lat_Mean :: f64

record UpstreamCall =
  uc_TargetServiceID :: string
  uc_CallRate :: f64
  uc_ErrorRate :: f64
  uc_LatencyMean :: f64

record MetricPoint =
  mp_ServiceID :: string
  mp_Timestamp :: gotime
  mp_RequestRate :: f64
  mp_ErrorRate :: f64
  mp_Latency :: LatencyStats
  mp_CPUUsage :: f64
  mp_MemUsage :: f64
  mp_ActiveConns :: int
  mp_QueueDepth :: int
  mp_UpstreamCalls :: "UpstreamCall list"

definition zero_point :: MetricPoint where
  \<comment> \<open>the zero value \<open>MetricPoint{}\<close>\<close>
  "zero_point = \<lparr> mp_ServiceID = '''', mp_Timestamp = 0, mp_RequestRate = 0, mp_ErrorRate = 0,
     mp_Latency = \<lparr> lat_P50 = 0, lat_P95 = 0, lat_P99 = 0, lat_Mean = 0 \<rparr>,
     mp_CPUUsage = 0, mp_MemUsage = 0, mp_ActiveConns = 0, mp_QueueDepth = 0,
     mp_UpstreamCalls = [] \<rparr>"

section \<open>The ring buffer\<close>

record RingBuffer =
  rb_buf :: "MetricPoint list"
  rb_head :: int
  rb_size :: int
  rb_capacity :: int

definition NewRingBuffer :: "int \<Rightarrow> RingBuffer option" where
  \<comment> \<open>\<open>make\<close> panics on a negative length\<close>
  "NewRingBuffer capacity =
     (if capacity < 0 then None
      else Some \<lparr> rb_buf = replicate (nat capacity) zero_point, rb_head = 0, rb_size = 0,
                  rb_capacity = capacity \<rparr>)"

definition Append :: "MetricPoint \<Rightarrow> RingBuffer \<Rightarrow> RingBuffer option" where
  \<comment> \<open>\<open>&r.buf[r.head]\<close> panics out of range, \<open>% r.capacity\<close> on a zero capacity\<close>
  "Append p r =
     (if rb_head r < 0 \<or> int (length (rb_buf r)) \<le> rb_head r \<or> rb_capacity r = 0 then None
      else Some (r\<lparr> rb_buf := (rb_buf r)[nat (rb_head r) := p],
                    rb_head := remt (rb_head r + 1) (rb_capacity r),
                    rb_size := (if rb_size r < rb_capacity r then rb_size r + 1 else rb_size r) \<rparr>))"

definition Snapshot :: "RingBuffer \<Rightarrow> int option \<Rightarrow> MetricPoint list" where
  \<comment> \<open>the variadic argument is absent or one number\<close>
  "Snapshot r n =
     (if rb_size r = 0 then []
      else
        let count = (case n of None \<Rightarrow> rb_size r
                     | Some k \<Rightarrow> if 0 < k \<and> k < rb_size r then k else rb_size r);
            start = remt (rb_head r - count + rb_capacity r) (rb_capacity r)
        in map (\<lambda>i. rb_buf r ! nat (remt (start + int i) (rb_capacity r))) [0..<nat count])"

definition Last :: "RingBuffer \<Rightarrow> MetricPoint" where
  "Last r =
     (if rb_size r = 0 then zero_point
      else rb_buf r ! nat (remt (rb_head r - 1 + rb_capacity r) (rb_capacity r)))"

definition Size :: "RingBuffer \<Rightarrow> int" where
  "Size r = rb_size r"

record RingSummary =
  rs_Count :: int
  rs_MeanReqRate :: f64
  rs_StdReqRate :: f64
  rs_MeanLatencyMs :: f64
  rs_MaxLatencyMs :: f64
  rs_MeanErrorRate :: f64
  rs_OldestAt :: gotime
  rs_NewestAt :: gotime

text \<open>The accumulators of the loop of \<open>SummaryStats\<close>.\<close>

record summary_sums =
  ss_req :: f64
  ss_reqSq :: f64
  ss_lat :: f64
  ss_maxLat :: f64
  ss_err :: f64

definition summary_step :: "MetricPoint \<Rightarrow> summary_sums \<Rightarrow> summary_sums" where
  "summary_step p a =
     \<lparr> ss_req = ss_req a + mp_RequestRate p,
       ss_reqSq = ss_reqSq a + mp_RequestRate p * mp_RequestRate p,
       ss_lat = ss_lat a + lat_Mean (mp_Latency p),
       ss_maxLat = (if ss_maxLat a < lat_Mean (mp_Latency p) then lat_Mean (mp_Latency p)
                    else ss_maxLat a),
       ss_err = ss_err a + mp_ErrorRate p \<rparr>"

definition SummaryStats :: "RingBuffer \<Rightarrow> RingSummary" where
  "SummaryStats r =
     (if rb_size r = 0 then
        \<lparr> rs_Count = 0, rs_MeanReqRate = 0, rs_StdReqRate = 0, rs_MeanLatencyMs = 0,
          rs_MaxLatencyMs = 0, rs_MeanErrorRate = 0, rs_OldestAt = 0, rs_NewestAt = 0 \<rparr>
      else
        let start = remt (rb_head r - rb_size r + rb_capacity r) (rb_capacity r);
            oldest = rb_buf r ! nat start;
            newest = rb_buf r ! nat (remt (rb_head r - 1 + rb_capacity r) (rb_capacity r));
            pts = map (\<lambda>i. rb_buf r ! nat (remt (start + int i) (rb_capacity r)))
                    [0..<nat (rb_size r)];
            a = fold summary_step pts
                  \<lparr> ss_req = 0, ss_reqSq = 0, ss_lat = 0, ss_maxLat = 0, ss_err = 0 \<rparr>;
            n = f64_of_int (rb_size r);
            mean = ss_req a / n;
            variance = ss_reqSq a / n - mean * mean;
            variance = (if variance < 0 then 0 else variance)
        in \<lparr> rs_Count = rb_size r, rs_MeanReqRate = mean, rs_StdReqRate = math_Sqrt variance,
             rs_MeanLatencyMs = ss_lat a / n, rs_MaxLatencyMs = ss_maxLat a,
             rs_MeanErrorRate = ss_err a / n, rs_OldestAt = mp_Timestamp oldest,
             rs_NewestAt = mp_Timestamp newest \<rparr>)"

section \<open>Invariant and abstract content\<close>

definition rb_inv :: "RingBuffer \<Rightarrow> bool" where
  "rb_inv r \<longleftrightarrow> ring_ok (rb_buf r) (rb_head r) (rb_size r) (rb_capacity r)"

definition rb_content :: "RingBuffer \<Rightarrow> MetricPoint list" where
  "rb_content r = ring_list (rb_buf r) (rb_head r) (rb_size r) (rb_capacity r)"

lemma length_rb_content: "rb_inv r \<Longrightarrow> int (length (rb_content r)) = rb_size r"
  by (simp add: rb_inv_def ring_ok_def rb_content_def)

lemma NewRingBuffer_inv:
  "0 < c \<Longrightarrow> \<exists>r. NewRingBuffer c = Some r \<and> rb_inv r \<and> rb_content r = [] \<and> rb_capacity r = c"
  by (auto simp: NewRingBuffer_def rb_inv_def ring_ok_def rb_content_def ring_list_def)

lemma Append_content:
  assumes "rb_inv r"
  shows "\<exists>r'. Append p r = Some r' \<and> rb_inv r' \<and> rb_capacity r' = rb_capacity r \<and>
           rb_content r' = lastn (nat (rb_capacity r)) (rb_content r @ [p])"
  using assms ring_list_push [of "rb_buf r" "rb_head r" "rb_size r" "rb_capacity r" p]
    ring_ok_push [of "rb_buf r" "rb_head r" "rb_size r" "rb_capacity r" p]
  by (auto simp: Append_def rb_inv_def ring_ok_def rb_content_def remt_nonneg)

lemma Snapshot_content:
  assumes "rb_inv r"
  shows "Snapshot r n = (case n of None \<Rightarrow> rb_content r
           | Some k \<Rightarrow> if 0 < k then lastn (nat k) (rb_content r) else rb_content r)"
proof -
  let ?count = "case n of None \<Rightarrow> rb_size r
                | Some k \<Rightarrow> if 0 < k \<and> k < rb_size r then k else rb_size r"
  note ok = assms [unfolded rb_inv_def]
  have c: "0 \<le> ?count" "?count \<le> rb_size r"
    using ok by (auto simp: ring_ok_def split: option.splits)
  have eq: "Snapshot r n = ring_list (rb_buf r) (rb_head r) ?count (rb_capacity r)"
  proof (cases "rb_size r = 0")
    case True
    then have "?count = 0" using c by linarith
    then show ?thesis using True by (simp add: Snapshot_def ring_list_def)
  next
    case False
    have "remt (remt (rb_head r - ?count + rb_capacity r) (rb_capacity r) + int i) (rb_capacity r)
        = (rb_head r - ?count + int i) mod rb_capacity r" for i
      using c ok by (intro ring_start_index [OF ok]) (auto simp: ring_ok_def)
    then show ?thesis using False by (simp only: Snapshot_def Let_def ring_list_def if_False)
  qed
  also have "\<dots> = lastn (nat ?count) (rb_content r)"
    unfolding rb_content_def by (rule ring_list_recent [OF ok c])
  also have "\<dots> = (case n of None \<Rightarrow> rb_content r
      | Some k \<Rightarrow> if 0 < k then lastn (nat k) (rb_content r) else rb_content r)"
    using length_rb_content [OF assms] by (auto simp: lastn_all split: option.splits)
  finally show ?thesis .
qed

lemma Last_content:
  assumes "rb_inv r" shows "Last r = (if rb_content r = [] then zero_point else last (rb_content r))"
proof (cases "rb_size r = 0")
  case True
  then show ?thesis using assms by (simp add: Last_def rb_content_def ring_list_def)
next
  case False
  note ok = assms [unfolded rb_inv_def]
  have sz: "0 < rb_size r" using False ok by (auto simp: ring_ok_def)
  then have ne: "rb_content r \<noteq> []" using length_rb_content [OF assms] by auto
  have "last (rb_content r) = rb_content r ! (nat (rb_size r) - 1)"
    using ne length_rb_content [OF assms] by (simp add: last_conv_nth rb_content_def)
  also have "\<dots> = rb_buf r ! nat ((rb_head r - 1) mod rb_capacity r)"
    unfolding rb_content_def using sz by (subst nth_ring_list) (auto simp: of_nat_diff)
  also have "\<dots> = Last r"
    using ring_index [OF ok, of 1 0] ok sz False by (simp add: Last_def ring_ok_def)
  finally show ?thesis using ne by simp
qed

interpretation ring: bounded_log Append "\<lambda>r n. Some (Snapshot r (Some (int n)))" rb_content
  "\<lambda>r. nat (rb_capacity r)" rb_inv
proof
  show "\<exists>r'. Append p r = Some r' \<and> rb_inv r' \<and> nat (rb_capacity r') = nat (rb_capacity r) \<and>
      rb_content r' = lastn (nat (rb_capacity r)) (rb_content r @ [p])"
    if "rb_inv r" for r p using Append_content [OF that, of p] by auto
  show "Some (Snapshot r (Some (int n))) = Some (lastn n (rb_content r))"
    if "rb_inv r" "0 < n" for r n using that by (simp add: Snapshot_content)
  show "0 < nat (rb_capacity r) \<and> length (rb_content r) \<le> nat (rb_capacity r)" if "rb_inv r" for r
    using that length_rb_content [OF that] by (auto simp: rb_inv_def ring_ok_def)
qed

section \<open>The history of a service\<close>

text \<open>
  C11: a new buffer of positive capacity, after any sequence of appends, answers a
  request for the \<open>n\<close> most recent points with exactly the last \<open>n\<close> points appended
  (all that are kept, when fewer are), in order, and its last point is the last
  one appended; no append panics.
\<close>

theorem Snapshot_after_appends:
  assumes "0 < c" "0 < n" "ps \<noteq> []"
  shows "\<exists>r. Option.bind (NewRingBuffer c) (foldo Append ps) = Some r \<and>
     Snapshot r (Some (int n)) = lastn (min n (nat c)) ps \<and>
     Snapshot r None = lastn (nat c) ps \<and> Last r = last ps \<and> Size r = int (min (length ps) (nat c))"
proof -
  obtain b where b: "NewRingBuffer c = Some b" "rb_inv b" "rb_content b = []" "rb_capacity b = c"
    using NewRingBuffer_inv [OF assms(1)] by blast
  obtain r where r: "foldo Append ps b = Some r" "rb_inv r" "rb_content r = lastn (nat c) ps"
    using ring.push_all [OF b(2), of ps] b(3,4) by auto
  have "rb_content r \<noteq> []" using r(3) assms by (simp flip: length_greater_0_conv)
  then show ?thesis
    using b r assms length_rb_content [OF r(2)]
    by (simp add: Snapshot_content [OF r(2)] Last_content [OF r(2)] lastn_lastn last_lastn Size_def
        min.commute)
qed

theorem Snapshot_after_appends_witness:
  "\<exists>r. Option.bind (NewRingBuffer 2)
       (foldo Append [zero_point, zero_point\<lparr> mp_Timestamp := 1 \<rparr>, zero_point\<lparr> mp_Timestamp := 2 \<rparr>]) = Some r \<and>
     Snapshot r (Some 1) = [zero_point\<lparr> mp_Timestamp := 2 \<rparr>] \<and> Size r = 2"
  using Snapshot_after_appends [of 2 1 "[zero_point, zero_point\<lparr> mp_Timestamp := 1 \<rparr>,
      zero_point\<lparr> mp_Timestamp := 2 \<rparr>]"]
  by (auto simp: lastn_def)

end
