(* ===== verification/TelemetryStore.thy ===== *)
theory TelemetryStore
  imports TelemetryRing
begin

unbundle bit_operations_syntax

text \<open>
  \<open>internal/telemetry/store.go\<close>, lines 1 to 226: the sanitiser that every ingested
  point passes, and the sharded store of ring buffers.  A shard's two Go maps are
  association lists.  The methods hold one shard's lock while they touch it and are
  modelled as atomic; the interleaving of the admission loop of \<open>Ingest\<close> is the
  subject of theory \<open>StoreAdmission\<close>.
\<close>

section \<open>Sanitising a point\<close>

definition finiteOrZero :: "f64 \<Rightarrow> f64" where
  "finiteOrZero v = (if math_IsNaN v \<or> math_IsInf v then 0 else v)"

definition maxReasonableRPS :: f64 where "maxReasonableRPS = fl 10000000"
definition maxReasonableLatencyMs :: f64 where "maxReasonableLatencyMs = fl 3600000"
definition minLatencyMs :: f64 where "minLatencyMs = fl 0.1"

definition cap_field :: "f64 \<Rightarrow> f64 \<Rightarrow> f64" where
  \<comment> \<open>\<open>if v > hi { v = hi }\<close>\<close>
  "cap_field hi v = (if hi < v then hi else v)"

definition floor_field :: "f64 \<Rightarrow> f64" where
  \<comment> \<open>\<open>if v < 0 { v = 0 }\<close>\<close>
  "floor_field v = (if v < 0 then 0 else v)"

definition sanitizeLatency :: "LatencyStats \<Rightarrow> LatencyStats" where
  "sanitizeLatency l =
    (let fix = (\<lambda>v. floor_field (cap_field maxReasonableLatencyMs (finiteOrZero v)));
         l = \<lparr> lat_P50 = fix (lat_P50 l), lat_P95 = fix (lat_P95 l),
               lat_P99 = fix (lat_P99 l), lat_Mean = fix (lat_Mean l) \<rparr>
     in if feq (lat_Mean l) 0 \<and> feq (lat_P50 l) 0 \<and> feq (lat_P95 l) 0
        then l\<lparr> lat_Mean := minLatencyMs \<rparr> else l)"

definition sanitizePoint :: "MetricPoint \<Rightarrow> MetricPoint option" where
  \<comment> \<open>\<open>None\<close> is the return value \<open>false\<close>; otherwise the point as updated in place\<close>
  "sanitizePoint p =
    (if mp_ServiceID p = '''' then None
     else Some (p\<lparr>
       mp_RequestRate := cap_field maxReasonableRPS (floor_field (finiteOrZero (mp_RequestRate p))),
       mp_ErrorRate := cap_field 1 (floor_field (finiteOrZero (mp_ErrorRate p))),
       mp_Latency := sanitizeLatency (mp_Latency p),
       mp_CPUUsage := finiteOrZero (mp_CPUUsage p),
       mp_MemUsage := finiteOrZero (mp_MemUsage p),
       mp_ActiveConns := (if mp_ActiveConns p < 0 then 0 else mp_ActiveConns p),
       mp_QueueDepth := (if mp_QueueDepth p < 0 then 0 else mp_QueueDepth p) \<rparr>))"

definition clean_point :: "MetricPoint \<Rightarrow> bool" where
  \<comment> \<open>what the rest of the system may assume of a stored point\<close>
  "clean_point p \<longleftrightarrow>
     mp_ServiceID p \<noteq> '''' \<and>
     fbtw 0 (mp_RequestRate p) 10000000 \<and> fbtw 0 (mp_ErrorRate p) 1 \<and>
     fbtw 0 (lat_P50 (mp_Latency p)) 3600000 \<and> fbtw 0 (lat_P95 (mp_Latency p)) 3600000 \<and>
     fbtw 0 (lat_P99 (mp_Latency p)) 3600000 \<and> fbtw 0 (lat_Mean (mp_Latency p)) 3600000 \<and>
     \<not> (feq (lat_Mean (mp_Latency p)) 0 \<and> feq (lat_P50 (mp_Latency p)) 0 \<and>
        feq (lat_P95 (mp_Latency p)) 0) \<and>
     finite64 (mp_CPUUsage p) \<and> finite64 (mp_MemUsage p) \<and>
     0 \<le> mp_ActiveConns p \<and> 0 \<le> mp_QueueDepth p"

lemma finiteOrZero_finite: "\<exists>r. finiteOrZero v = Fin r"
  by (cases v) (auto simp: finiteOrZero_def math_IsNaN_def math_IsInf_def zero_f64_def)

lemma finiteOrZero_id [simp]: "finiteOrZero (Fin r) = Fin r"
  by (simp add: finiteOrZero_def math_IsNaN_def math_IsInf_def)

lemma clip_btw:
  assumes "0 \<le> hi"
  shows "fbtw 0 (floor_field (cap_field (Fin hi) (finiteOrZero v))) hi"
    "fbtw 0 (cap_field (Fin hi) (floor_field (finiteOrZero v))) hi"
  using assms finiteOrZero_finite [of v] by (auto simp: floor_field_def cap_field_def zero_f64_def)

lemma clip_id:
  assumes "fbtw 0 v hi"
  shows "floor_field (cap_field (Fin hi) (finiteOrZero v)) = v"
    "cap_field (Fin hi) (floor_field (finiteOrZero v)) = v"
  using assms by (auto simp: floor_field_def cap_field_def zero_f64_def elim!: fbtwE)

lemma bounds_simps: "maxReasonableRPS = Fin 10000000" "maxReasonableLatencyMs = Fin 3600000"
  by (simp_all add: maxReasonableRPS_def maxReasonableLatencyMs_def)

lemma minLatencyMs_btw: "fbtw (1/16) minLatencyMs 1"
proof -
  have "fbound (1/16)"
    using frep_div_pow2 [of 1 4] unfolding fbound_def by (intro conjI) (simp, insert big_ge(3), linarith)
  then show ?thesis unfolding minLatencyMs_def by (intro fbtw_fl) auto
qed

lemma not_feq_0: "fbtw lo x hi \<Longrightarrow> 0 < lo \<Longrightarrow> \<not> feq x (Fin 0)"
  by (auto elim!: fbtwE)

lemma minLatencyMs_nonzero [simp]: "\<not> feq minLatencyMs (Fin 0)"
  using minLatencyMs_btw by (rule not_feq_0) simp

lemma sanitizeLatency_clean:
  "fbtw 0 (lat_P50 (sanitizeLatency l)) 3600000" "fbtw 0 (lat_P95 (sanitizeLatency l)) 3600000"
  "fbtw 0 (lat_P99 (sanitizeLatency l)) 3600000" "fbtw 0 (lat_Mean (sanitizeLatency l)) 3600000"
  "\<not> (feq (lat_Mean (sanitizeLatency l)) 0 \<and> feq (lat_P50 (sanitizeLatency l)) 0 \<and>
      feq (lat_P95 (sanitizeLatency l)) 0)"
  using fbtw_weaken [OF minLatencyMs_btw, of 0 3600000] minLatencyMs_btw
  by (auto simp: sanitizeLatency_def Let_def bounds_simps clip_btw zero_f64_def elim!: fbtwE)

section \<open>Shards\<close>

definition numShards :: nat where "numShards = 64"

fun fnv_loop :: "u32 \<Rightarrow> string \<Rightarrow> u32" where
  "fnv_loop h [] = h"
| "fnv_loop h (c # cs) = fnv_loop ((h XOR of_char c) * 16777619) cs"

definition shardFor :: "string \<Rightarrow> nat" where
  "shardFor serviceID = unat (fnv_loop 2166136261 serviceID AND 63)"

record storeShard =
  sh_buffers :: "(string, RingBuffer) gomap"
  sh_lastSeen :: "(string, gotime) gomap"

record Store =
  st_shards :: "storeShard list"
  st_appliedScales :: "(string, f64) gomap"
  st_bufCap :: int
  st_maxSvc :: int
  st_svcCount :: int
  st_staleAge :: duration

definition NewStore :: "int \<Rightarrow> int \<Rightarrow> duration \<Rightarrow> Store" where
  "NewStore bufferCapacity maxServices staleAge =
     \<lparr> st_shards = replicate numShards \<lparr> sh_buffers = [], sh_lastSeen = [] \<rparr>,
       st_appliedScales = [], st_bufCap = bufferCapacity, st_maxSvc = maxServices,
       st_svcCount = 0, st_staleAge = staleAge \<rparr>"

definition StaleAge :: "Store \<Rightarrow> duration" where
  "StaleAge s = st_staleAge s"

text \<open>
  \<open>Ingest\<close>: a point that fails the sanitiser is dropped, an unknown service is
  admitted below \<open>maxSvc\<close> only, and the point is appended to the service's buffer.
  \<open>None\<close> is a panic of \<open>NewRingBuffer\<close> or \<open>Append\<close>.
\<close>

definition store_put :: "nat \<Rightarrow> string \<Rightarrow> gotime \<Rightarrow> RingBuffer \<Rightarrow> Store \<Rightarrow> Store" where
  \<comment> \<open>\<open>sh.buffers[id] = buf; sh.lastSeen[id] = t\<close> on shard \<open>k\<close>\<close>
  "store_put k sid t buf s =
    (let sh = st_shards s ! k in
     s\<lparr> st_shards := (st_shards s)[k :=
          sh\<lparr> sh_buffers := AList.update sid buf (sh_buffers sh),
              sh_lastSeen := AList.update sid t (sh_lastSeen sh) \<rparr>] \<rparr>)"

definition Ingest :: "gotime \<Rightarrow> MetricPoint \<Rightarrow> Store \<Rightarrow> Store option" where
  "Ingest now p s =
    (case sanitizePoint p of
       None \<Rightarrow> Some s
     | Some p \<Rightarrow>
        let p = (if mp_Timestamp p = 0 then p\<lparr> mp_Timestamp := now \<rparr> else p);
            sid = mp_ServiceID p;
            k = shardFor sid
        in (case map_of (sh_buffers (st_shards s ! k)) sid of
              Some buf \<Rightarrow>
                map_option (\<lambda>buf'. store_put k sid (mp_Timestamp p) buf' s) (Append p buf)
            | None \<Rightarrow>
                if st_maxSvc s \<le> st_svcCount s then Some s
                else
                  let s = s\<lparr> st_svcCount := st_svcCount s + 1 \<rparr>
                  in Option.bind (NewRingBuffer (st_bufCap s)) (\<lambda>buf.
                     map_option (\<lambda>buf'. store_put k sid (mp_Timestamp p) buf' s) (Append p buf))))"

definition SetAppliedScale :: "string \<Rightarrow> f64 \<Rightarrow> Store \<Rightarrow> Store" where
  "SetAppliedScale serviceID scale s =
     s\<lparr> st_appliedScales := AList.update serviceID scale (st_appliedScales s) \<rparr>"

text \<open>\<open>Prune\<close>: one entry of a shard's \<open>lastSeen\<close>, one shard, all shards.\<close>

type_synonym prune_acc = "storeShard \<times> int \<times> string list"

definition prune_entry :: "gotime \<Rightarrow> duration \<Rightarrow> string \<times> gotime \<Rightarrow> prune_acc \<Rightarrow> prune_acc" where
  "prune_entry now age e a =
    (case (e, a) of ((sid, t), (sh, cnt, pruned)) \<Rightarrow>
       if age < time_sub now t
       then (sh\<lparr> sh_buffers := AList.delete sid (sh_buffers sh),
                 sh_lastSeen := AList.delete sid (sh_lastSeen sh) \<rparr>, cnt - 1, pruned @ [sid])
       else a)"

definition prune_shard :: "gotime \<Rightarrow> duration \<Rightarrow> prune_acc \<Rightarrow> prune_acc" where
  "prune_shard now age a = fold (prune_entry now age) (sh_lastSeen (fst a)) a"

fun prune_shards ::
  "gotime \<Rightarrow> duration \<Rightarrow> storeShard list \<Rightarrow> int \<Rightarrow> string list \<Rightarrow> storeShard list \<times> int \<times> string list"
where
  "prune_shards now age [] cnt pruned = ([], cnt, pruned)"
| "prune_shards now age (sh # shs) cnt pruned =
    (case prune_shard now age (sh, cnt, pruned) of (sh', cnt', pruned') \<Rightarrow>
       case prune_shards now age shs cnt' pruned' of (shs', cnt'', pruned'') \<Rightarrow>
         (sh' # shs', cnt'', pruned''))"

definition Prune :: "gotime \<Rightarrow> Store \<Rightarrow> string list \<times> Store" where
  "Prune now s =
    (case prune_shards now (st_staleAge s) (st_shards s) (st_svcCount s) [] of (shs, cnt, pruned) \<Rightarrow>
       (pruned, s\<lparr> st_shards := shs, st_svcCount := cnt \<rparr>))"

definition HasServices :: "Store \<Rightarrow> bool" where
  "HasServices s \<longleftrightarrow> 0 < st_svcCount s"

definition ServiceIDs :: "Store \<Rightarrow> string list" where
  "ServiceIDs s = concat (map (\<lambda>sh. map fst (sh_buffers sh)) (st_shards s))"

section \<open>Invariant and abstract view\<close>

definition shard_inv :: "int \<Rightarrow> nat \<Rightarrow> storeShard \<Rightarrow> bool" where
  "shard_inv bufcap k sh \<longleftrightarrow>
     wf_gomap (sh_buffers sh) \<and> wf_gomap (sh_lastSeen sh) \<and>
     keys (sh_buffers sh) = keys (sh_lastSeen sh) \<and>
     (\<forall>sid \<in> keys (sh_buffers sh). shardFor sid = k) \<and>
     (\<forall>(sid, b) \<in> set (sh_buffers sh). rb_inv b \<and> rb_capacity b = bufcap)"

definition services_total :: "storeShard list \<Rightarrow> int" where
  "services_total shs = int (\<Sum>sh\<leftarrow>shs. length (sh_buffers sh))"

definition store_inv :: "Store \<Rightarrow> bool" where
  "store_inv s \<longleftrightarrow>
     length (st_shards s) = numShards \<and> 0 < st_bufCap s \<and>
     (\<forall>k < numShards. shard_inv (st_bufCap s) k (st_shards s ! k)) \<and>
     st_svcCount s = services_total (st_shards s)"

definition st_buffer :: "Store \<Rightarrow> string \<rightharpoonup> RingBuffer" where
  "st_buffer s sid = map_of (sh_buffers (st_shards s ! shardFor sid)) sid"

definition st_seen :: "Store \<Rightarrow> string \<rightharpoonup> gotime" where
  "st_seen s sid = map_of (sh_lastSeen (st_shards s ! shardFor sid)) sid"

definition st_history :: "Store \<Rightarrow> string \<rightharpoonup> MetricPoint list" where
  \<comment> \<open>the abstract store: the recent points of every known service\<close>
  "st_history s sid = map_option rb_content (st_buffer s sid)"

lemma shardFor_less: "shardFor sid < numShards"
proof -
  have "fnv_loop 2166136261 sid AND 63 \<le> (63 :: u32)" by (rule word_and_le1)
  then have "unat (fnv_loop 2166136261 sid AND 63) \<le> unat (63 :: u32)"
    by (simp only: word_le_nat_alt)
  then show ?thesis by (simp add: shardFor_def numShards_def)
qed

section \<open>The sanitiser\<close>

lemma finite_finiteOrZero [simp]: "finite64 (finiteOrZero v)"
  using finiteOrZero_finite [of v] by auto

lemma sanitizePoint_clean:
  assumes "sanitizePoint p = Some q"
  shows "clean_point q \<and> mp_ServiceID q = mp_ServiceID p \<and>
     mp_Timestamp q = mp_Timestamp p \<and> mp_UpstreamCalls q = mp_UpstreamCalls p"
proof -
  have "fbtw 0 (cap_field 1 (floor_field (finiteOrZero v))) 1"
    "fbtw 0 (cap_field maxReasonableRPS (floor_field (finiteOrZero v))) 10000000" for v
    using clip_btw(2) by (simp_all add: bounds_simps one_f64_def)
  note r = this
  obtain ne: "mp_ServiceID p \<noteq> ''''" using assms by (auto simp: sanitizePoint_def split: if_splits)
  then have q: "q = p\<lparr>
       mp_RequestRate := cap_field maxReasonableRPS (floor_field (finiteOrZero (mp_RequestRate p))),
       mp_ErrorRate := cap_field 1 (floor_field (finiteOrZero (mp_ErrorRate p))),
       mp_Latency := sanitizeLatency (mp_Latency p),
       mp_CPUUsage := finiteOrZero (mp_CPUUsage p),
       mp_MemUsage := finiteOrZero (mp_MemUsage p),
       mp_ActiveConns := (if mp_ActiveConns p < 0 then 0 else mp_ActiveConns p),
       mp_QueueDepth := (if mp_QueueDepth p < 0 then 0 else mp_QueueDepth p) \<rparr>"
    using assms by (simp add: sanitizePoint_def)
  have "clean_point q"
    unfolding clean_point_def q by (intro conjI) (simp_all add: ne r sanitizeLatency_clean(1-4),
      use sanitizeLatency_clean(5) in simp_all)
  then show ?thesis by (simp add: q)
qed

lemma sanitizeLatency_id:
  assumes "fbtw 0 (lat_P50 l) 3600000" "fbtw 0 (lat_P95 l) 3600000" "fbtw 0 (lat_P99 l) 3600000"
    "fbtw 0 (lat_Mean l) 3600000"
    "\<not> (feq (lat_Mean l) 0 \<and> feq (lat_P50 l) 0 \<and> feq (lat_P95 l) 0)"
  shows "sanitizeLatency l = l"
  using assms by (auto simp: sanitizeLatency_def Let_def bounds_simps clip_id)

lemma sanitizePoint_id: "clean_point p \<Longrightarrow> sanitizePoint p = Some p"
proof -
  assume c: "clean_point p"
  have "finiteOrZero (mp_CPUUsage p) = mp_CPUUsage p" "finiteOrZero (mp_MemUsage p) = mp_MemUsage p"
    using c by (cases "mp_CPUUsage p"; cases "mp_MemUsage p"; simp add: clean_point_def)+
  then show ?thesis
    using c by (simp add: sanitizePoint_def clean_point_def bounds_simps one_f64_def clip_id
        sanitizeLatency_id)
qed

section \<open>Shards and the view of the store\<close>

lemma shard_inv_keys: "shard_inv c k sh \<Longrightarrow> keys (sh_buffers sh) = keys (sh_lastSeen sh)"
  by (simp only: shard_inv_def)

lemma shard_inv_home: "shard_inv c k sh \<Longrightarrow> i \<in> keys (sh_lastSeen sh) \<Longrightarrow> shardFor i = k"
  unfolding shard_inv_def by (metis (no_types, lifting))

lemma shard_at: "store_inv s \<Longrightarrow> shard_inv (st_bufCap s) (shardFor sid) (st_shards s ! shardFor sid)"
  using shardFor_less by (simp add: store_inv_def)

lemma st_buffer_inv:
  "store_inv s \<Longrightarrow> st_buffer s sid = Some b \<Longrightarrow> rb_inv b \<and> rb_capacity b = st_bufCap s"
  using shard_at [of s sid] by (auto simp: st_buffer_def shard_inv_def dest!: map_of_SomeD)

lemma view_put:
  assumes "length (st_shards s) = numShards" "k = shardFor sid"
  shows "st_buffer (store_put k sid t b s) = (st_buffer s)(sid \<mapsto> b)"
    "st_seen (store_put k sid t b s) = (st_seen s)(sid \<mapsto> t)"
proof -
  have "k < length (st_shards s)" using assms shardFor_less by simp
  then show "st_buffer (store_put k sid t b s) = (st_buffer s)(sid \<mapsto> b)"
    "st_seen (store_put k sid t b s) = (st_seen s)(sid \<mapsto> t)"
    using assms(2-)
    by (auto simp: store_put_def Let_def st_buffer_def st_seen_def nth_list_update fun_eq_iff)
qed

lemma store_put_frame [simp, frame_simps]:
  "st_bufCap (store_put k sid t b s) = st_bufCap s" "st_maxSvc (store_put k sid t b s) = st_maxSvc s"
  "st_svcCount (store_put k sid t b s) = st_svcCount s"
  "st_staleAge (store_put k sid t b s) = st_staleAge s"
  "st_appliedScales (store_put k sid t b s) = st_appliedScales s"
  by (simp_all add: store_put_def Let_def)

lemma view_svcCount [simp]:
  "st_buffer (s\<lparr> st_svcCount := c \<rparr>) = st_buffer s" "st_seen (s\<lparr> st_svcCount := c \<rparr>) = st_seen s"
  by (simp_all add: fun_eq_iff st_buffer_def st_seen_def)

lemma services_total_update:
  assumes "k < length shs"
  shows "services_total (shs[k := sh]) =
    services_total shs + int (length (sh_buffers sh)) - int (length (sh_buffers (shs ! k)))"
proof -
  have "(\<Sum>x\<leftarrow>shs. length (sh_buffers x)) \<ge> length (sh_buffers (shs ! k))"
    using assms elem_le_sum_list [of k "map (\<lambda>x. length (sh_buffers x)) shs"] by simp
  then show ?thesis
    using assms by (simp add: services_total_def map_update sum_list_update of_nat_diff)
qed

lemma shard_inv_update:
  assumes sh: "shard_inv c k sh" and b: "shardFor sid = k" "rb_inv b" "rb_capacity b = c"
  shows "shard_inv c k (sh\<lparr> sh_buffers := AList.update sid b (sh_buffers sh),
           sh_lastSeen := AList.update sid t (sh_lastSeen sh) \<rparr>)" (is "shard_inv c k ?sh")
proof -
  have eq: "sh_buffers ?sh = AList.update sid b (sh_buffers sh)"
    "sh_lastSeen ?sh = AList.update sid t (sh_lastSeen sh)" by simp_all
  have "\<forall>(i, x) \<in> set (sh_buffers ?sh). rb_inv x \<and> rb_capacity x = c"
    unfolding eq using set_updateD [of _ _ sid b "sh_buffers sh"] sh b
    unfolding shard_inv_def by blast
  moreover have "\<forall>i \<in> keys (sh_buffers ?sh). shardFor i = k"
    unfolding eq keys_update using sh b unfolding shard_inv_def by blast
  moreover have "keys (sh_buffers ?sh) = keys (sh_lastSeen ?sh)"
    unfolding eq keys_update using sh unfolding shard_inv_def by blast
  moreover have "wf_gomap (sh_buffers ?sh)" "wf_gomap (sh_lastSeen ?sh)"
    unfolding eq using sh by (simp_all only: shard_inv_def wf_gomap_update)
  ultimately show ?thesis unfolding shard_inv_def by blast
qed

lemma store_inv_put:
  assumes inv: "store_inv s" and b: "rb_inv b" "rb_capacity b = st_bufCap s"
    and k: "k = shardFor sid"
  shows "store_inv (store_put k sid t b
      (s\<lparr> st_svcCount := (if st_buffer s sid = None then st_svcCount s + 1 else st_svcCount s) \<rparr>))"
proof -
  let ?sh = "(st_shards s ! k)\<lparr> sh_buffers := AList.update sid b (sh_buffers (st_shards s ! k)),
      sh_lastSeen := AList.update sid t (sh_lastSeen (st_shards s ! k)) \<rparr>"
  have k': "k < length (st_shards s)" using inv shardFor_less by (simp add: k store_inv_def)
  have "shard_inv (st_bufCap s) k ?sh"
    using b inv by (intro shard_inv_update) (auto simp: k shard_at)
  moreover have "length (sh_buffers ?sh) =
      (if st_buffer s sid = None then Suc (length (sh_buffers (st_shards s ! k)))
       else length (sh_buffers (st_shards s ! k)))"
    by (simp add: length_update st_buffer_def k map_of_eq_None_iff)
  ultimately show ?thesis
    using inv k' by (auto simp: store_put_def Let_def store_inv_def nth_list_update services_total_update)
qed

text \<open>The service counter is the number of services of the view.\<close>

lemma dom_st_buffer:
  assumes "store_inv s"
  shows "dom (st_buffer s) = (\<Union>k<numShards. keys (sh_buffers (st_shards s ! k)))"
proof -
  have "i \<in> dom (st_buffer s) \<longleftrightarrow> i \<in> keys (sh_buffers (st_shards s ! shardFor i))" for i
    by (simp add: st_buffer_def keys_map_of dom_def)
  then have "i \<in> dom (st_buffer s) \<longleftrightarrow>
      (\<exists>k<numShards. i \<in> keys (sh_buffers (st_shards s ! k)))" for i
    using assms shardFor_less [of i] unfolding store_inv_def shard_inv_def by metis
  then show ?thesis by (simp only: set_eq_iff UN_iff lessThan_iff bex_simps) blast
qed

lemma svcCount_card:
  assumes "store_inv s" shows "st_svcCount s = int (card (dom (st_history s)))"
proof -
  let ?K = "\<lambda>k. keys (sh_buffers (st_shards s ! k))"
  have len: "length (st_shards s) = numShards"
    and sh: "\<And>k. k < numShards \<Longrightarrow> shard_inv (st_bufCap s) k (st_shards s ! k)"
    and cnt: "st_svcCount s = services_total (st_shards s)"
    using assms by (simp_all add: store_inv_def)
  have "dom (st_history s) = dom (st_buffer s)" by (auto simp: st_history_def dom_def)
  then have "card (dom (st_history s)) = card (\<Union>k\<in>{..<numShards}. ?K k)"
    using dom_st_buffer [OF assms] by simp
  also have "\<dots> = (\<Sum>k<numShards. card (?K k))"
  proof (rule card_UN_disjoint)
    show "\<forall>i\<in>{..<numShards}. \<forall>j\<in>{..<numShards}. i \<noteq> j \<longrightarrow> ?K i \<inter> ?K j = {}"
    proof (intro ballI impI)
      fix i j assume "i \<in> {..<numShards}" "j \<in> {..<numShards}" "i \<noteq> j"
      moreover from calculation have "\<forall>x\<in>?K i. shardFor x = i" "\<forall>x\<in>?K j. shardFor x = j"
        using sh unfolding shard_inv_def by blast+
      ultimately show "?K i \<inter> ?K j = {}" by fastforce
    qed
  qed auto
  also have "\<dots> = (\<Sum>k<numShards. length (sh_buffers (st_shards s ! k)))"
  proof (rule sum.cong)
    fix k assume "k \<in> {..<numShards}"
    then have "distinct (map fst (sh_buffers (st_shards s ! k)))"
      using sh unfolding shard_inv_def wf_gomap_def by blast
    then show "card (?K k) = length (sh_buffers (st_shards s ! k))"
      using distinct_card by fastforce
  qed simp
  also have "\<dots> = (\<Sum>sh\<leftarrow>st_shards s. length (sh_buffers sh))"
    using len by (simp add: sum_list_sum_nth atLeast0LessThan)
  finally show ?thesis by (simp add: cnt services_total_def)
qed

section \<open>Ingest refines an update of the view\<close>

definition stamp :: "gotime \<Rightarrow> MetricPoint \<Rightarrow> MetricPoint" where
  "stamp now p = (if mp_Timestamp p = 0 then p\<lparr> mp_Timestamp := now \<rparr> else p)"

definition ingest_spec ::
  "nat \<Rightarrow> int \<Rightarrow> gotime \<Rightarrow> MetricPoint \<Rightarrow> (string \<rightharpoonup> MetricPoint list) \<Rightarrow> (string \<rightharpoonup> MetricPoint list)"
where
  \<comment> \<open>what a store of \<open>maxSvc\<close> services with \<open>cap\<close> points each promises\<close>
  "ingest_spec cap maxSvc now p h =
    (case sanitizePoint p of None \<Rightarrow> h
     | Some q \<Rightarrow>
        (case h (mp_ServiceID q) of
           Some old \<Rightarrow> h(mp_ServiceID q \<mapsto> lastn cap (old @ [stamp now q]))
         | None \<Rightarrow> if int (card (dom h)) < maxSvc then h(mp_ServiceID q \<mapsto> lastn cap [stamp now q])
                   else h))"

lemma stamp_ServiceID [simp]: "mp_ServiceID (stamp now p) = mp_ServiceID p"
  by (simp add: stamp_def)

lemma put_history:
  assumes "store_inv s"
  shows "st_history (store_put (shardFor sid) sid t b s) = (st_history s)(sid \<mapsto> rb_content b)"
    "st_history (store_put (shardFor sid) sid t b (s\<lparr> st_svcCount := c \<rparr>)) =
       (st_history s)(sid \<mapsto> rb_content b)"
proof -
  have "length (st_shards s) = numShards" using assms by (simp add: store_inv_def)
  then show "st_history (store_put (shardFor sid) sid t b s) = (st_history s)(sid \<mapsto> rb_content b)"
    "st_history (store_put (shardFor sid) sid t b (s\<lparr> st_svcCount := c \<rparr>)) =
       (st_history s)(sid \<mapsto> rb_content b)"
    by (simp_all add: st_history_def view_put fun_eq_iff)
qed

lemma Ingest_step:
  assumes inv: "store_inv s"
  shows "\<exists>s'. Ingest now p s = Some s' \<and> store_inv s' \<and> st_bufCap s' = st_bufCap s \<and>
    st_maxSvc s' = st_maxSvc s \<and> st_staleAge s' = st_staleAge s \<and>
    (st_svcCount s \<le> st_maxSvc s \<longrightarrow> st_svcCount s' \<le> st_maxSvc s') \<and>
    st_history s' = ingest_spec (nat (st_bufCap s)) (st_maxSvc s) now p (st_history s)"
proof (cases "sanitizePoint p")
  case None
  then show ?thesis using inv by (simp add: Ingest_def ingest_spec_def)
next
  case (Some q)
  let ?sid = "mp_ServiceID q" and ?q = "stamp now q"
  let ?k = "shardFor ?sid"
  have cap: "0 < st_bufCap s" using inv by (simp add: store_inv_def)
  have buf: "map_of (sh_buffers (st_shards s ! ?k)) ?sid = st_buffer s ?sid"
    by (simp add: st_buffer_def)
  have I: "Ingest now p s =
     (case st_buffer s ?sid of
        Some buf \<Rightarrow> map_option (\<lambda>b. store_put ?k ?sid (mp_Timestamp ?q) b s) (Append ?q buf)
      | None \<Rightarrow>
          if st_maxSvc s \<le> st_svcCount s then Some s
          else Option.bind (NewRingBuffer (st_bufCap s)) (\<lambda>buf.
            map_option (\<lambda>b. store_put ?k ?sid (mp_Timestamp ?q) b
                 (s\<lparr> st_svcCount := st_svcCount s + 1 \<rparr>)) (Append ?q buf)))"
    using Some buf by (simp add: Ingest_def stamp_def Let_def cong: option.case_cong)
  show ?thesis
  proof (cases "st_buffer s ?sid")
    case (Some b)
    then have h: "st_history s ?sid = Some (rb_content b)" by (simp add: st_history_def)
    have b: "rb_inv b" "rb_capacity b = st_bufCap s" using st_buffer_inv [OF inv Some] by auto
    from Append_content [OF b(1), of ?q] obtain b' where b': "Append ?q b = Some b'" "rb_inv b'"
      "rb_capacity b' = st_bufCap s" "rb_content b' = lastn (nat (st_bufCap s)) (rb_content b @ [?q])"
      using b(2) by auto
    have "store_inv (store_put ?k ?sid (mp_Timestamp ?q) b' s)"
      using store_inv_put [OF inv b'(2,3), where sid = ?sid, OF refl] Some by simp
    then show ?thesis
      using I b' Some h \<open>sanitizePoint p = Some q\<close> inv by (simp add: put_history ingest_spec_def)
  next
    case None
    then have h: "st_history s ?sid = None" by (simp add: st_history_def)
    from NewRingBuffer_inv [OF cap] obtain b where
      b: "NewRingBuffer (st_bufCap s) = Some b" "rb_inv b" "rb_content b = []"
        "rb_capacity b = st_bufCap s" by blast
    from Append_content [OF b(2), of ?q] obtain b' where b': "Append ?q b = Some b'" "rb_inv b'"
      "rb_capacity b' = st_bufCap s" "rb_content b' = lastn (nat (st_bufCap s)) [?q]"
      using b(3,4) by auto
    have "store_inv (store_put ?k ?sid (mp_Timestamp ?q) b' (s\<lparr> st_svcCount := st_svcCount s + 1 \<rparr>))"
      using store_inv_put [OF inv b'(2,3), where sid = ?sid, OF refl] None by simp
    then show ?thesis
      using I b b' None h \<open>sanitizePoint p = Some q\<close> inv
      by (simp add: put_history ingest_spec_def flip: svcCount_card)
  qed
qed

section \<open>Prune removes exactly the stale services\<close>

definition stale :: "gotime \<Rightarrow> duration \<Rightarrow> gotime \<Rightarrow> bool" where
  "stale now age t \<longleftrightarrow> age < time_sub now t"

abbreviation stale_ids :: "gotime \<Rightarrow> duration \<Rightarrow> (string \<times> gotime) list \<Rightarrow> string list" where
  "stale_ids now age es \<equiv> map fst (filter (\<lambda>e. stale now age (snd e)) es)"

definition drop_keys :: "'k list \<Rightarrow> ('k, 'v) gomap \<Rightarrow> ('k, 'v) gomap" where
  "drop_keys ks m = filter (\<lambda>e. fst e \<notin> set ks) m"

lemma drop_keys_Nil [simp]: "drop_keys [] m = m"
  by (simp add: drop_keys_def)

lemma drop_keys_delete: "drop_keys ks (AList.delete k m) = drop_keys (k # ks) m"
  by (induction m) (auto simp: drop_keys_def)

lemma map_of_drop_keys: "map_of (drop_keys ks m) k = (if k \<in> set ks then None else map_of m k)"
  by (induction m) (auto simp: drop_keys_def)

lemma wf_drop_keys [simp]: "wf_gomap m \<Longrightarrow> wf_gomap (drop_keys ks m)"
  by (simp add: drop_keys_def)

lemma keys_drop_keys: "keys (drop_keys ks m) = keys m - set ks"
  by (auto simp: drop_keys_def)

lemma length_drop_keys:
  assumes "wf_gomap m" "distinct ks" "set ks \<subseteq> keys m"
  shows "length (drop_keys ks m) + length ks = length m"
proof -
  have "length m = card (keys m)" "length ks = card (set ks)"
    "length (drop_keys ks m) = card (keys m - set ks)"
    using assms distinct_card [of "map fst m"] distinct_card [of ks]
      distinct_card [of "map fst (drop_keys ks m)"] keys_drop_keys [of ks m] wf_drop_keys [of m ks]
    by (simp_all add: wf_gomap_def)
  then show ?thesis using assms(3) by (simp add: card_Diff_subset card_mono)
qed

lemma prune_entry_eq:
  "prune_entry now age e (sh, cnt, pruned) =
     (if stale now age (snd e)
      then (\<lparr> sh_buffers = AList.delete (fst e) (sh_buffers sh),
               sh_lastSeen = AList.delete (fst e) (sh_lastSeen sh) \<rparr>, cnt - 1, pruned @ [fst e])
      else (sh, cnt, pruned))"
  by (cases e) (simp add: prune_entry_def stale_def)

lemma prune_fold:
  "fold (prune_entry now age) es (sh, cnt, pruned) =
     (\<lparr> sh_buffers = drop_keys (stale_ids now age es) (sh_buffers sh),
        sh_lastSeen = drop_keys (stale_ids now age es) (sh_lastSeen sh) \<rparr>,
      cnt - int (length (stale_ids now age es)), pruned @ stale_ids now age es)"
proof (induction es arbitrary: sh cnt pruned)
  case Nil
  then show ?case by simp
next
  case (Cons e es)
  show ?case
    by (simp add: prune_entry_eq Cons.IH drop_keys_delete)
qed

definition prune_keys :: "gotime \<Rightarrow> duration \<Rightarrow> storeShard \<Rightarrow> string list" where
  "prune_keys now age sh = stale_ids now age (sh_lastSeen sh)"

lemma prune_shards_eq:
  "prune_shards now age shs cnt pruned =
     (map (\<lambda>sh. \<lparr> sh_buffers = drop_keys (prune_keys now age sh) (sh_buffers sh),
                  sh_lastSeen = drop_keys (prune_keys now age sh) (sh_lastSeen sh) \<rparr>) shs,
      cnt - int (\<Sum>sh\<leftarrow>shs. length (prune_keys now age sh)),
      pruned @ concat (map (prune_keys now age) shs))"
  by (induction shs arbitrary: cnt pruned)
    (simp_all add: prune_shard_def prune_fold prune_keys_def)

lemma stale_ids_mem:
  "wf_gomap m \<Longrightarrow> i \<in> set (stale_ids now age m) \<longleftrightarrow> (\<exists>t. map_of m i = Some t \<and> stale now age t)"
  by (force simp: wf_gomap_map_of_iff)

lemma stale_ids_distinct: "wf_gomap m \<Longrightarrow> distinct (stale_ids now age m)"
  by (simp add: wf_gomap_def distinct_map_filter)

lemma prune_shard_inv:
  assumes "shard_inv c k sh"
  shows "shard_inv c k \<lparr> sh_buffers = drop_keys ks (sh_buffers sh),
           sh_lastSeen = drop_keys ks (sh_lastSeen sh) \<rparr>"
proof -
  have "set (drop_keys ks (sh_buffers sh)) \<subseteq> set (sh_buffers sh)" by (auto simp: drop_keys_def)
  then show ?thesis
    using assms unfolding shard_inv_def storeShard.select_convs keys_drop_keys
    by (intro conjI wf_drop_keys) blast+
qed

lemma sum_list_split:
  fixes f g h :: "'a \<Rightarrow> nat"
  assumes "\<forall>x \<in> set xs. f x + g x = h x"
  shows "int (\<Sum>x\<leftarrow>xs. f x) = int (\<Sum>x\<leftarrow>xs. h x) - int (\<Sum>x\<leftarrow>xs. g x)"
proof -
  have "(\<Sum>x\<leftarrow>xs. h x) = (\<Sum>x\<leftarrow>xs. f x + g x)"
    using assms by (intro arg_cong [where f = sum_list] map_cong) auto
  then show ?thesis by (simp add: sum_list_addf)
qed

lemma Prune_spec:
  assumes inv: "store_inv s" and P: "Prune now s = (pruned, s')"
  shows "store_inv s'"
    "\<And>i. i \<in> set pruned \<longleftrightarrow> (\<exists>t. st_seen s i = Some t \<and> stale now (st_staleAge s) t)"
    "\<And>i. st_history s' i = (if i \<in> set pruned then None else st_history s i)"
    "\<And>i. st_seen s' i = (if i \<in> set pruned then None else st_seen s i)"
    "st_maxSvc s' = st_maxSvc s" "st_bufCap s' = st_bufCap s"
proof -
  let ?age = "st_staleAge s"
  let ?ks = "prune_keys now ?age"
  let ?f = "\<lambda>sh. \<lparr> sh_buffers = drop_keys (?ks sh) (sh_buffers sh),
                sh_lastSeen = drop_keys (?ks sh) (sh_lastSeen sh) \<rparr>"
  have len: "length (st_shards s) = numShards"
    and shi: "k < numShards \<Longrightarrow> shard_inv (st_bufCap s) k (st_shards s ! k)" for k
    using inv by (simp_all add: store_inv_def)
  have p: "pruned = concat (map ?ks (st_shards s))"
    and s': "s' = s\<lparr> st_shards := map ?f (st_shards s),
       st_svcCount := st_svcCount s - int (\<Sum>sh\<leftarrow>st_shards s. length (?ks sh)) \<rparr>"
    using P by (simp_all add: Prune_def prune_shards_eq)
  have wf: "wf_gomap (sh_lastSeen sh)" "wf_gomap (sh_buffers sh)" "keys (sh_buffers sh) = keys (sh_lastSeen sh)"
    if "sh \<in> set (st_shards s)" for sh
  proof -
    obtain k where "k < numShards" "sh = st_shards s ! k"
      using \<open>sh \<in> set (st_shards s)\<close> len by (auto simp: in_set_conv_nth)
    then show "wf_gomap (sh_lastSeen sh)" "wf_gomap (sh_buffers sh)"
      "keys (sh_buffers sh) = keys (sh_lastSeen sh)"
      using shi [of k] unfolding shard_inv_def by simp_all
  qed
  have mem: "i \<in> set (?ks sh) \<longleftrightarrow> (\<exists>t. map_of (sh_lastSeen sh) i = Some t \<and> stale now ?age t)"
    if "sh \<in> set (st_shards s)" for i sh
    unfolding prune_keys_def by (rule stale_ids_mem [OF wf(1) [OF that]])
  have own: "i \<in> set (?ks (st_shards s ! k)) \<longleftrightarrow> k = shardFor i \<and> i \<in> set pruned"
    if "k < numShards" for i k
  proof -
    have home: "k' = shardFor i" if "k' < numShards" "i \<in> set (?ks (st_shards s ! k'))" for k'
    proof -
      have "i \<in> keys (sh_lastSeen (st_shards s ! k'))"
        using that(2) by (auto simp: prune_keys_def)
      from shard_inv_home [OF shi [OF that(1)] this] show ?thesis by simp
    qed
    have "i \<in> set pruned \<longleftrightarrow> (\<exists>k'<numShards. i \<in> set (?ks (st_shards s ! k')))"
      unfolding p by (simp add: set_conv_nth [of "st_shards s"] len) blast
    then show ?thesis using home that by blast
  qed
  show "i \<in> set pruned \<longleftrightarrow> (\<exists>t. st_seen s i = Some t \<and> stale now ?age t)" for i
    using own [OF shardFor_less, of i i] mem [of "st_shards s ! shardFor i" i] len shardFor_less [of i]
    by (simp add: st_seen_def)
  show "st_history s' i = (if i \<in> set pruned then None else st_history s i)"
    "st_seen s' i = (if i \<in> set pruned then None else st_seen s i)" for i
    using own [OF shardFor_less, of i i] len shardFor_less [of i]
    by (simp_all add: s' st_history_def st_buffer_def st_seen_def map_of_drop_keys)
  show "st_maxSvc s' = st_maxSvc s" "st_bufCap s' = st_bufCap s" by (simp_all add: s')
  have "length (drop_keys (?ks sh) (sh_buffers sh)) + length (?ks sh) = length (sh_buffers sh)"
    if "sh \<in> set (st_shards s)" for sh
  proof (rule length_drop_keys)
    show "set (?ks sh) \<subseteq> keys (sh_buffers sh)"
      unfolding wf(3) [OF that] by (auto simp: prune_keys_def)
  qed (use wf that in \<open>simp_all add: prune_keys_def stale_ids_distinct\<close>)
  then have "services_total (map ?f (st_shards s)) =
      services_total (st_shards s) - int (\<Sum>sh\<leftarrow>st_shards s. length (?ks sh))"
    using sum_list_split [of "st_shards s" "\<lambda>sh. length (drop_keys (?ks sh) (sh_buffers sh))"
        "\<lambda>sh. length (?ks sh)" "\<lambda>sh. length (sh_buffers sh)"]
    by (simp add: services_total_def o_def)
  then show "store_inv s'"
    using inv shi len by (simp add: s' store_inv_def prune_shard_inv)
qed

lemma NewStore_inv:
  assumes "0 < bufferCapacity"
  shows "store_inv (NewStore bufferCapacity maxServices staleAge)"
    "st_history (NewStore bufferCapacity maxServices staleAge) = Map.empty"
    "st_seen (NewStore bufferCapacity maxServices staleAge) = Map.empty"
  using assms shardFor_less
  by (simp_all add: NewStore_def store_inv_def shard_inv_def services_total_def fun_eq_iff
      st_history_def st_buffer_def st_seen_def)

section \<open>Sequences of ingests\<close>

definition hist_ok :: "nat \<Rightarrow> (string \<rightharpoonup> MetricPoint list) \<Rightarrow> bool" where
  \<comment> \<open>bounded histories of clean points, each under its own service id\<close>
  "hist_ok cap h \<longleftrightarrow> (\<forall>sid ps. h sid = Some ps \<longrightarrow>
     ps \<noteq> [] \<and> length ps \<le> cap \<and> (\<forall>p \<in> set ps. clean_point p \<and> mp_ServiceID p = sid))"

lemma clean_stamp [simp]: "clean_point (stamp now p) = clean_point p"
  by (simp add: stamp_def clean_point_def)

lemma hist_ok_update:
  "hist_ok cap h \<Longrightarrow> ps \<noteq> [] \<Longrightarrow> length ps \<le> cap \<Longrightarrow>
     \<forall>p \<in> set ps. clean_point p \<and> mp_ServiceID p = sid \<Longrightarrow> hist_ok cap (h(sid \<mapsto> ps))"
  unfolding hist_ok_def by (auto simp only: fun_upd_apply split: if_splits)

lemma hist_ok_spec:
  assumes "0 < cap" "hist_ok cap h"
  shows "hist_ok cap (ingest_spec cap m now p h)"
proof (cases "sanitizePoint p")
  case None
  then show ?thesis using assms by (simp add: ingest_spec_def)
next
  case (Some q)
  have q: "clean_point q" using sanitizePoint_clean [OF Some] by simp
  have ne: "lastn cap (xs @ [x]) \<noteq> []" for xs :: "MetricPoint list" and x
    using assms(1) by (simp flip: length_greater_0_conv)
  have app: "hist_ok cap (h(mp_ServiceID q \<mapsto> lastn cap (old @ [stamp now q])))"
    if "\<forall>p \<in> set old. clean_point p \<and> mp_ServiceID p = mp_ServiceID q" for old
  proof (rule hist_ok_update [OF assms(2) ne])
    show "\<forall>p \<in> set (lastn cap (old @ [stamp now q])). clean_point p \<and> mp_ServiceID p = mp_ServiceID q"
      using that q set_lastn [of cap "old @ [stamp now q]"] by fastforce
  qed simp
  show ?thesis
  proof (cases "h (mp_ServiceID q)")
    case None
    then show ?thesis using app [of "[]"] assms(2) Some by (simp add: ingest_spec_def)
  next
    case (Some old)
    then have "\<forall>p \<in> set old. clean_point p \<and> mp_ServiceID p = mp_ServiceID q"
      using assms(2) unfolding hist_ok_def by blast
    then show ?thesis using app [of old] Some \<open>sanitizePoint p = Some q\<close> by (simp add: ingest_spec_def)
  qed
qed

lemma Ingest_all:
  assumes "store_inv s" "hist_ok (nat (st_bufCap s)) (st_history s)" "st_svcCount s \<le> max 0 (st_maxSvc s)"
  shows "\<exists>s'. foldo (\<lambda>(now, p). Ingest now p) ops s = Some s' \<and> store_inv s' \<and>
     st_bufCap s' = st_bufCap s \<and> st_maxSvc s' = st_maxSvc s \<and>
     hist_ok (nat (st_bufCap s)) (st_history s') \<and> st_svcCount s' \<le> max 0 (st_maxSvc s)"
  using assms
proof (induction ops arbitrary: s)
  case (Cons op ops)
  obtain now p where op: "op = (now, p)" by (cases op)
  from Ingest_step [OF Cons.prems(1), of now p] obtain t where
    t: "Ingest now p s = Some t" "store_inv t" "st_bufCap t = st_bufCap s" "st_maxSvc t = st_maxSvc s"
       "st_history t = ingest_spec (nat (st_bufCap s)) (st_maxSvc s) now p (st_history s)"
    by blast
  have cap: "0 < nat (st_bufCap s)" using Cons.prems(1) by (simp add: store_inv_def)
  have "st_svcCount t \<le> max 0 (st_maxSvc s)"
  proof -
    have "finite (dom (st_history s))"
    proof -
      have "dom (st_history s) = dom (st_buffer s)" by (auto simp: st_history_def dom_def)
      then show ?thesis using dom_st_buffer [OF Cons.prems(1)] by simp
    qed
    then show ?thesis
      using Cons.prems(3) unfolding svcCount_card [OF t(2)] svcCount_card [OF Cons.prems(1)] t(5)
      by (auto simp: ingest_spec_def insert_absorb domI card_insert_if split: option.splits)
  qed
  moreover have "hist_ok (nat (st_bufCap s)) (st_history t)"
    unfolding t(5) by (rule hist_ok_spec [OF cap Cons.prems(2)])
  ultimately show ?case using Cons.IH [of t] t by (auto simp: op)
qed simp

section \<open>Properties of the store\<close>

text \<open>
  C3: \<open>Ingest\<close> refines an update of the abstract store that maps every service to its
  recent points: it never panics, keeps the invariant, drops points without a service
  id, admits an unknown service only below the limit and keeps the last \<open>bufCap\<close>
  points of a known one.
\<close>

theorem Ingest_refines:
  assumes "store_inv s"
  shows "\<exists>s'. Ingest now p s = Some s' \<and> store_inv s' \<and>
    st_history s' = ingest_spec (nat (st_bufCap s)) (st_maxSvc s) now p (st_history s)"
  using Ingest_step [OF assms, of now p] by blast

theorem Ingest_refines_witness:
  "\<exists>s'. Ingest 5 zero_point (NewStore 4 2 0) = Some s' \<and> store_inv s'"
  using Ingest_refines [of "NewStore 4 2 0" 5 zero_point] NewStore_inv(1) [of 4 2 0] by auto

text \<open>
  Whatever is ingested, a store made with a positive buffer capacity never holds
  more than \<open>maxServices\<close> services, never more than \<open>bufCap\<close> points of one, and every
  stored point is sanitised and filed under its own service id.
\<close>

theorem Ingest_bounded:
  assumes "0 < c"
  shows "\<exists>s'. foldo (\<lambda>(now, p). Ingest now p) ops (NewStore c m age) = Some s' \<and>
    st_svcCount s' = int (card (dom (st_history s'))) \<and> st_svcCount s' \<le> max 0 m \<and>
    hist_ok (nat c) (st_history s')"
proof -
  note new = NewStore_inv [OF assms, of m age]
  have "hist_ok (nat c) (st_history (NewStore c m age))" by (simp add: new hist_ok_def)
  then show ?thesis
    using Ingest_all [OF new(1), of ops] svcCount_card by (fastforce simp: NewStore_def)
qed

theorem Ingest_bounded_witness:
  "\<exists>s'. foldo (\<lambda>(now, p). Ingest now p) [(1, zero_point), (2, zero_point\<lparr> mp_ServiceID := ''a'' \<rparr>)]
      (NewStore 4 1 0) = Some s' \<and> st_svcCount s' \<le> 1"
  using Ingest_bounded [of 4 "[(1, zero_point), (2, zero_point\<lparr> mp_ServiceID := ''a'' \<rparr>)]" 1 0] by auto

text \<open>
  \<open>Prune\<close> removes exactly the services whose last point is older than the stale
  age, reports exactly those, leaves every other history and time untouched, and keeps
  the service counter exact.
\<close>

theorem Prune_exact:
  assumes "store_inv s" "Prune now s = (pruned, s')"
  shows "store_inv s' \<and> st_svcCount s' = int (card (dom (st_history s'))) \<and>
    (\<forall>i. (i \<in> set pruned) = (\<exists>t. st_seen s i = Some t \<and> stale now (st_staleAge s) t)) \<and>
    (\<forall>i. st_history s' i = (if i \<in> set pruned then None else st_history s i) \<and>
         st_seen s' i = (if i \<in> set pruned then None else st_seen s i))"
  using Prune_spec [OF assms] svcCount_card by auto

theorem Prune_exact_witness:
  "store_inv (snd (Prune 7 (NewStore 4 2 0)))"
  using Prune_exact [of "NewStore 4 2 0" 7] NewStore_inv(1) [of 4 2 0]
  by (metis prod.collapse zero_less_numeral)

text \<open>
  C32: the sanitiser rejects exactly the points without a service id; what it accepts
  has every field finite and in range and an observable latency, and sanitising it
  again changes nothing.
\<close>

theorem sanitizePoint_sound:
  "case sanitizePoint p of None \<Rightarrow> mp_ServiceID p = ''''
   | Some q \<Rightarrow> clean_point q \<and> sanitizePoint q = Some q \<and> mp_ServiceID q = mp_ServiceID p \<and>
       mp_Timestamp q = mp_Timestamp p \<and> mp_UpstreamCalls q = mp_UpstreamCalls p"
proof (cases "sanitizePoint p")
  case None
  then show ?thesis unfolding sanitizePoint_def by (cases "mp_ServiceID p") simp_all
next
  case (Some q)
  then show ?thesis using sanitizePoint_clean [OF Some] sanitizePoint_id by simp
qed

end
