(* ===== verification/StoreAdmission.thy ===== *)
theory StoreAdmission
  imports TelemetryStore
begin

text \<open>
  The admission of services under concurrency: \<open>Ingest\<close> and \<open>Prune\<close> of
  \<open>internal/telemetry/store.go\<close> at the grain of their atomic accesses.  A thread
  holds the mutex of one shard while it looks a service up, runs the load and
  compare-and-swap loop on \<open>svcCount\<close>, inserts the buffer, or deletes a stale entry
  and decrements the counter; other threads may act between any two of these steps.
  Only the set of known services is kept of the shards' maps; \<open>Prune\<close> may take any
  service for stale.
\<close>

datatype pc =
    Idle
  | Lookup string        \<comment> \<open>\<open>sh.mu.Lock()\<close> done\<close>
  | Loading string       \<comment> \<open>at the head of the \<open>for\<close> loop\<close>
  | Cas string int       \<comment> \<open>\<open>current\<close> loaded and below \<open>maxSvc\<close>\<close>
  | Insert string        \<comment> \<open>the swap succeeded\<close>
  | Seen string          \<comment> \<open>before \<open>lastSeen\<close> is set and the mutex released\<close>
  | Pruning nat          \<comment> \<open>\<open>Prune\<close> inside the loop over one shard\<close>
  | PruneSub nat         \<comment> \<open>before \<open>svcCount.Add(-1)\<close>\<close>

record adm =
  ad_known :: "string set"
  ad_count :: int
  ad_lock :: "nat \<Rightarrow> nat option"
  ad_pcs :: "pc list"

fun pc_shard :: "pc \<Rightarrow> nat option" where
  "pc_shard Idle = None"
| "pc_shard (Lookup sid) = Some (shardFor sid)"
| "pc_shard (Loading sid) = Some (shardFor sid)"
| "pc_shard (Cas sid c) = Some (shardFor sid)"
| "pc_shard (Insert sid) = Some (shardFor sid)"
| "pc_shard (Seen sid) = Some (shardFor sid)"
| "pc_shard (Pruning k) = Some k"
| "pc_shard (PruneSub k) = Some k"

fun pc_new :: "pc \<Rightarrow> string option" where
  \<comment> \<open>the service a thread is about to admit\<close>
  "pc_new (Loading sid) = Some sid"
| "pc_new (Cas sid c) = Some sid"
| "pc_new (Insert sid) = Some sid"
| "pc_new _ = None"

fun pc_owed :: "pc \<Rightarrow> int" where
  \<comment> \<open>counted in \<open>svcCount\<close> but not (or no longer) a known service\<close>
  "pc_owed (Insert sid) = 1"
| "pc_owed (PruneSub k) = 1"
| "pc_owed _ = 0"

definition go :: "adm \<Rightarrow> nat \<Rightarrow> pc \<Rightarrow> adm" where
  "go s i p = s\<lparr> ad_pcs := (ad_pcs s)[i := p] \<rparr>"

definition lock :: "adm \<Rightarrow> nat \<Rightarrow> nat \<Rightarrow> adm" where
  "lock s k i = s\<lparr> ad_lock := (ad_lock s)(k := Some i) \<rparr>"

definition unlock :: "adm \<Rightarrow> nat \<Rightarrow> adm" where
  "unlock s k = s\<lparr> ad_lock := (ad_lock s)(k := None) \<rparr>"

text \<open>One step of thread \<open>i\<close>, with the limit \<open>m\<close>.\<close>

inductive adm_step :: "int \<Rightarrow> nat \<Rightarrow> adm \<Rightarrow> adm \<Rightarrow> bool" for m i where
  enter: "i < length (ad_pcs s) \<Longrightarrow> ad_pcs s ! i = Idle \<Longrightarrow> ad_lock s (shardFor sid) = None \<Longrightarrow>
    adm_step m i s (go (lock s (shardFor sid) i) i (Lookup sid))"
| hit: "i < length (ad_pcs s) \<Longrightarrow> ad_pcs s ! i = Lookup sid \<Longrightarrow> sid \<in> ad_known s \<Longrightarrow>
    adm_step m i s (go s i (Seen sid))"
| miss: "i < length (ad_pcs s) \<Longrightarrow> ad_pcs s ! i = Lookup sid \<Longrightarrow> sid \<notin> ad_known s \<Longrightarrow>
    adm_step m i s (go s i (Loading sid))"
| full: "i < length (ad_pcs s) \<Longrightarrow> ad_pcs s ! i = Loading sid \<Longrightarrow> m \<le> ad_count s \<Longrightarrow>
    adm_step m i s (go (unlock s (shardFor sid)) i Idle)"
| load: "i < length (ad_pcs s) \<Longrightarrow> ad_pcs s ! i = Loading sid \<Longrightarrow> ad_count s < m \<Longrightarrow>
    adm_step m i s (go s i (Cas sid (ad_count s)))"
| cas_ok: "i < length (ad_pcs s) \<Longrightarrow> ad_pcs s ! i = Cas sid c \<Longrightarrow> ad_count s = c \<Longrightarrow>
    adm_step m i s (go (s\<lparr> ad_count := c + 1 \<rparr>) i (Insert sid))"
| cas_fail: "i < length (ad_pcs s) \<Longrightarrow> ad_pcs s ! i = Cas sid c \<Longrightarrow> ad_count s \<noteq> c \<Longrightarrow>
    adm_step m i s (go s i (Loading sid))"
| insert_new: "i < length (ad_pcs s) \<Longrightarrow> ad_pcs s ! i = Insert sid \<Longrightarrow>
    adm_step m i s (go (s\<lparr> ad_known := insert sid (ad_known s) \<rparr>) i (Seen sid))"
| leave: "i < length (ad_pcs s) \<Longrightarrow> ad_pcs s ! i = Seen sid \<Longrightarrow>
    adm_step m i s (go (unlock s (shardFor sid)) i Idle)"
| prune_enter: "i < length (ad_pcs s) \<Longrightarrow> ad_pcs s ! i = Idle \<Longrightarrow> ad_lock s k = None \<Longrightarrow>
    adm_step m i s (go (lock s k i) i (Pruning k))"
| prune_delete: "i < length (ad_pcs s) \<Longrightarrow> ad_pcs s ! i = Pruning k \<Longrightarrow> sid \<in> ad_known s \<Longrightarrow>
    shardFor sid = k \<Longrightarrow>
    adm_step m i s (go (s\<lparr> ad_known := ad_known s - {sid} \<rparr>) i (PruneSub k))"
| prune_count: "i < length (ad_pcs s) \<Longrightarrow> ad_pcs s ! i = PruneSub k \<Longrightarrow>
    adm_step m i s (go (s\<lparr> ad_count := ad_count s - 1 \<rparr>) i (Pruning k))"
| prune_leave: "i < length (ad_pcs s) \<Longrightarrow> ad_pcs s ! i = Pruning k \<Longrightarrow>
    adm_step m i s (go (unlock s k) i Idle)"

inductive adm_reach :: "int \<Rightarrow> nat \<Rightarrow> adm \<Rightarrow> bool" for m n where
  start: "adm_reach m n \<lparr> ad_known = {}, ad_count = 0, ad_lock = (\<lambda>_. None), ad_pcs = replicate n Idle \<rparr>"
| step: "adm_reach m n s \<Longrightarrow> adm_step m i s s' \<Longrightarrow> adm_reach m n s'"

inductive_cases adm_stepE: "adm_step m i s s'"

section \<open>The invariant\<close>

definition adm_inv :: "int \<Rightarrow> adm \<Rightarrow> bool" where
  "adm_inv m s \<longleftrightarrow>
     finite (ad_known s) \<and>
     ad_count s = int (card (ad_known s)) + sum_list (map pc_owed (ad_pcs s)) \<and>
     ad_count s \<le> max 0 m \<and>
     (\<forall>j < length (ad_pcs s). \<forall>k. pc_shard (ad_pcs s ! j) = Some k \<longrightarrow> ad_lock s k = Some j) \<and>
     (\<forall>j < length (ad_pcs s). \<forall>sid. pc_new (ad_pcs s ! j) = Some sid \<longrightarrow> sid \<notin> ad_known s) \<and>
     (\<forall>j < length (ad_pcs s). \<forall>sid c. ad_pcs s ! j = Cas sid c \<longrightarrow> c < m)"

lemma go_simps [simp]:
  "ad_known (go s i p) = ad_known s" "ad_count (go s i p) = ad_count s"
  "ad_lock (go s i p) = ad_lock s" "ad_pcs (go s i p) = (ad_pcs s)[i := p]"
  "ad_known (lock s k j) = ad_known s" "ad_count (lock s k j) = ad_count s"
  "ad_lock (lock s k j) = (ad_lock s)(k := Some j)" "ad_pcs (lock s k j) = ad_pcs s"
  "ad_known (unlock s k) = ad_known s" "ad_count (unlock s k) = ad_count s"
  "ad_lock (unlock s k) = (ad_lock s)(k := None)" "ad_pcs (unlock s k) = ad_pcs s"
  by (simp_all add: go_def lock_def unlock_def)

lemma owed_update:
  "i < length ps \<Longrightarrow>
     sum_list (map pc_owed (ps[i := p])) = sum_list (map pc_owed ps) + pc_owed p - pc_owed (ps ! i)"
  by (induction ps arbitrary: i) (auto split: nat.split)

lemma pc_new_shard: "pc_new p = Some sid \<Longrightarrow> pc_shard p = Some (shardFor sid)"
  by (cases p) auto

lemma pc_owed_nonneg: "0 \<le> sum_list (map pc_owed ps)"
proof -
  have "0 \<le> pc_owed p" for p by (cases p) auto
  then show ?thesis by (intro sum_list_nonneg) auto
qed

text \<open>
  The proof obligations of a step: mutual exclusion gives that a thread that holds the
  mutex of a shard is the only one about to admit a service of that shard.
\<close>

lemma adm_inv_go:
  assumes "adm_inv m s" "i < length (ad_pcs s)" and pcs: "ad_pcs t = (ad_pcs s)[i := p]"
    and "finite (ad_known t)"
    and "ad_count t = int (card (ad_known t)) + sum_list (map pc_owed (ad_pcs s)) + pc_owed p - pc_owed (ad_pcs s ! i)"
    and "ad_count t \<le> max 0 m"
    and "\<And>j k. j \<noteq> i \<Longrightarrow> ad_lock s k = Some j \<Longrightarrow> ad_lock t k = Some j"
    and "\<And>k. pc_shard p = Some k \<Longrightarrow> ad_lock t k = Some i"
    and "\<And>j sid. j \<noteq> i \<Longrightarrow> sid \<in> ad_known t \<Longrightarrow> sid \<notin> ad_known s \<Longrightarrow> ad_lock s (shardFor sid) \<noteq> Some j"
    and "\<And>sid. pc_new p = Some sid \<Longrightarrow> sid \<notin> ad_known t"
    and "\<And>sid c. p = Cas sid c \<Longrightarrow> c < m"
  shows "adm_inv m t"
  unfolding adm_inv_def pcs length_list_update
proof (intro conjI allI impI)
  have inv: "j < length (ad_pcs s) \<Longrightarrow> pc_shard (ad_pcs s ! j) = Some k \<Longrightarrow> ad_lock s k = Some j"
    "j < length (ad_pcs s) \<Longrightarrow> pc_new (ad_pcs s ! j) = Some sid \<Longrightarrow> sid \<notin> ad_known s"
    "j < length (ad_pcs s) \<Longrightarrow> ad_pcs s ! j = Cas sid c \<Longrightarrow> c < m" for j k sid c
    using assms(1) by (auto simp: adm_inv_def)
  fix j assume j: "j < length (ad_pcs s)"
  show "ad_lock t k = Some j" if "pc_shard ((ad_pcs s)[i := p] ! j) = Some k" for k
    using that inv(1) [OF j] assms(7,8) j by (cases "j = i") auto
  show "sid \<notin> ad_known t" if "pc_new ((ad_pcs s)[i := p] ! j) = Some sid" for sid
    using that inv(1) [OF j] inv(2) [OF j] assms(9,10) j pc_new_shard by (cases "j = i") fastforce+
  show "c < m" if "(ad_pcs s)[i := p] ! j = Cas sid c" for sid c
    using that inv(3) [OF j] assms(11) j by (cases "j = i") auto
qed (use assms in \<open>auto simp: owed_update\<close>)

lemma adm_step_inv:
  assumes "adm_step m i s s'" and inv: "adm_inv m s" shows "adm_inv m s'"
proof -
  have fin: "finite (ad_known s)"
    and cnt: "ad_count s = int (card (ad_known s)) + sum_list (map pc_owed (ad_pcs s))"
    and le: "ad_count s \<le> max 0 m"
    and lk: "j < length (ad_pcs s) \<Longrightarrow> pc_shard (ad_pcs s ! j) = Some k \<Longrightarrow> ad_lock s k = Some j"
    and new: "j < length (ad_pcs s) \<Longrightarrow> pc_new (ad_pcs s ! j) = Some sid \<Longrightarrow> sid \<notin> ad_known s"
    and cas: "j < length (ad_pcs s) \<Longrightarrow> ad_pcs s ! j = Cas sid c \<Longrightarrow> c < m" for j k sid c
    using inv by (auto simp: adm_inv_def)
  note go = adm_inv_go [OF inv]
  show ?thesis
    using assms(1)
  proof cases
    case (insert_new sid)
    have "sid \<notin> ad_known s" "ad_lock s (shardFor sid) = Some i"
      using new [of i sid] lk [of i "shardFor sid"] insert_new by auto
    then show ?thesis
      using insert_new fin cnt le by (intro go [of i _ "Seen sid"]) auto
  next
    case (prune_delete k sid)
    then have "int (card (ad_known s - {sid})) = int (card (ad_known s)) - 1"
      using fin card_gt_0_iff [of "ad_known s"] by (auto simp: of_nat_diff)
    then show ?thesis
      using prune_delete fin cnt le lk [of i k] by (intro go [of i _ "PruneSub k"]) (auto simp del: card_Diff_insert card_Diff_singleton)
  next
    case (cas_ok sid c)
    then have "sid \<notin> ad_known s" "ad_lock s (shardFor sid) = Some i" "c < m"
      using new [of i sid] lk [of i "shardFor sid"] cas [of i sid c] by auto
    then show ?thesis
      using cas_ok fin cnt by (intro go [of i _ "Insert sid"]) auto
  next
    case (load sid)
    then show ?thesis using fin cnt le new [of i sid] lk [of i "shardFor sid"]
      by (intro go [of i _ "Cas sid (ad_count s)"]) auto
  next
    case (cas_fail sid c)
    then show ?thesis using fin cnt le new [of i sid] lk [of i "shardFor sid"]
      by (intro go [of i _ "Loading sid"]) auto
  next
    case (miss sid)
    then show ?thesis using fin cnt le lk [of i "shardFor sid"]
      by (intro go [of i _ "Loading sid"]) auto
  next
    case (hit sid)
    then show ?thesis using fin cnt le lk [of i "shardFor sid"]
      by (intro go [of i _ "Seen sid"]) auto
  next
    case (enter sid)
    then show ?thesis using fin cnt le by (intro go [of i _ "Lookup sid"]) auto
  next
    case (prune_enter k)
    then show ?thesis using fin cnt le by (intro go [of i _ "Pruning k"]) auto
  next
    case (prune_count k)
    then show ?thesis using fin cnt le lk [of i k] by (intro go [of i _ "Pruning k"]) auto
  next
    case (full sid)
    then show ?thesis using fin cnt le lk [of i "shardFor sid"] by (intro go [of i _ Idle]) auto
  next
    case (leave sid)
    then show ?thesis using fin cnt le lk [of i "shardFor sid"] by (intro go [of i _ Idle]) auto
  next
    case (prune_leave k)
    then show ?thesis using fin cnt le lk [of i k] by (intro go [of i _ Idle]) auto
  qed
qed

lemma adm_reach_inv: "adm_reach m n s \<Longrightarrow> adm_inv m s"
proof (induction rule: adm_reach.induct)
  case start
  have "sum_list (map pc_owed (replicate n Idle)) = 0" by (induction n) auto
  then show ?case by (simp add: adm_inv_def)
qed (rule adm_step_inv)

text \<open>
  C10: under any interleaving of any number of threads that ingest and prune, the store
  never holds more than \<open>maxSvc\<close> services, and whenever no thread is inside \<open>Ingest\<close> or
  \<open>Prune\<close> the service counter is exactly the number of known services.
\<close>

theorem admission_limit:
  assumes "adm_reach m n s"
  shows "finite (ad_known s) \<and> int (card (ad_known s)) \<le> max 0 m \<and>
    (set (ad_pcs s) \<subseteq> {Idle} \<longrightarrow> ad_count s = int (card (ad_known s)))"
proof -
  have inv: "adm_inv m s" using assms by (rule adm_reach_inv)
  then have "int (card (ad_known s)) \<le> max 0 m"
    using pc_owed_nonneg [of "ad_pcs s"] by (simp add: adm_inv_def)
  moreover have "sum_list (map pc_owed ps) = 0" if "set ps \<subseteq> {Idle}" for ps
    using that by (induction ps) auto
  ultimately show ?thesis using inv by (simp add: adm_inv_def)
qed

theorem admission_limit_witness:
  "\<exists>s. adm_reach 1 2 s \<and> ad_known s = {''a''} \<and> int (card (ad_known s)) \<le> max 0 1"
proof -
  let ?s0 = "\<lparr> ad_known = {}, ad_count = 0, ad_lock = (\<lambda>_. None), ad_pcs = replicate 2 Idle \<rparr>"
  let ?s1 = "go (lock ?s0 (shardFor ''a'') 0) 0 (Lookup ''a'')"
  let ?s2 = "go ?s1 0 (Loading ''a'')"
  let ?s3 = "go ?s2 0 (Cas ''a'' 0)"
  let ?s4 = "go (?s3\<lparr> ad_count := 0 + 1 \<rparr>) 0 (Insert ''a'')"
  let ?s5 = "go (?s4\<lparr> ad_known := insert ''a'' (ad_known ?s4) \<rparr>) 0 (Seen ''a'')"
  have "adm_reach 1 2 ?s0" by (rule adm_reach.start)
  moreover have "adm_step 1 0 ?s0 ?s1" by (rule adm_step.enter) auto
  moreover have "adm_step 1 0 ?s1 ?s2" by (rule adm_step.miss) (auto simp: numeral_2_eq_2)
  moreover have "adm_step 1 0 ?s2 ?s3"
    using adm_step.load [of 0 ?s2 "''a''" 1] by (auto simp: numeral_2_eq_2)
  moreover have "adm_step 1 0 ?s3 ?s4" by (rule adm_step.cas_ok) (auto simp: numeral_2_eq_2)
  moreover have "adm_step 1 0 ?s4 ?s5" by (rule adm_step.insert_new) (auto simp: numeral_2_eq_2)
  ultimately have "adm_reach 1 2 ?s5" by (meson adm_reach.step)
  from admission_limit [OF this] this show ?thesis by auto
qed

end
