(* ===== verification/TelemetryWindow.thy ===== *)
theory TelemetryWindow
  imports TelemetryStore
begin

text \<open>
  \<open>internal/telemetry/store.go\<close>, lines 227 to 451: the windows the engine works on.
  \<open>computeWindow\<close> aggregates a snapshot of one buffer; its loops are folds over the
  points, and \<open>map[string]*edgeAccum\<close> is an association list of accumulators.  A
  reading of the clock is an argument: \<open>computeWindow\<close> reads it twice, for the age of
  the last point and for \<open>ComputedAt\<close>.
\<close>

record EdgeWindow =
  ew_TargetServiceID :: string
  ew_MeanCallRate :: f64
  ew_MeanErrorRate :: f64
  ew_MeanLatencyMs :: f64

record ServiceWindow =
  sw_ServiceID :: string
  sw_ComputedAt :: gotime
  sw_LastObservedAt :: gotime
  sw_SampleCount :: int
  sw_MeanRequestRate :: f64
  sw_StdRequestRate :: f64
  sw_LastRequestRate :: f64
  sw_MeanLatencyMs :: f64
  sw_MaxLatencyMs :: f64
  sw_LastLatencyMs :: f64
  sw_LastP99LatencyMs :: f64
  sw_MeanErrorRate :: f64
  sw_LastErrorRate :: f64
  sw_MeanCPU :: f64
  sw_MeanMem :: f64
  sw_MeanQueueDepth :: f64
  sw_LastQueueDepth :: f64
  sw_MeanActiveConns :: f64
  sw_UpstreamEdges :: "(string, EdgeWindow) gomap"
  sw_AppliedScale :: f64
  sw_ConfidenceScore :: f64
  sw_SignalQuality :: string
  sw_Hazard :: f64
  sw_Reservoir :: f64

section \<open>The accumulators\<close>

record edgeAccum =
  ea_target :: string
  ea_sumCallRate :: f64
  ea_sumErrRate :: f64
  ea_sumLatency :: f64
  ea_count :: int

record window_sums =
  ws_req :: f64
  ws_err :: f64
  ws_lat :: f64
  ws_maxLat :: f64
  ws_cpu :: f64
  ws_mem :: f64
  ws_queue :: f64
  ws_conns :: f64
  ws_edges :: "(string, edgeAccum) gomap"

definition zero_sums :: window_sums where
  "zero_sums = \<lparr> ws_req = 0, ws_err = 0, ws_lat = 0, ws_maxLat = 0, ws_cpu = 0, ws_mem = 0,
     ws_queue = 0, ws_conns = 0, ws_edges = [] \<rparr>"

definition edge_step :: "UpstreamCall \<Rightarrow> (string, edgeAccum) gomap \<Rightarrow> (string, edgeAccum) gomap" where
  "edge_step uc m =
    (let tid = uc_TargetServiceID uc;
         acc = (case map_of m tid of Some acc \<Rightarrow> acc
                | None \<Rightarrow> \<lparr> ea_target = tid, ea_sumCallRate = 0, ea_sumErrRate = 0,
                            ea_sumLatency = 0, ea_count = 0 \<rparr>)
     in AList.update tid
          (acc\<lparr> ea_sumCallRate := ea_sumCallRate acc + finiteOrZero (uc_CallRate uc),
                ea_sumErrRate := ea_sumErrRate acc + finiteOrZero (uc_ErrorRate uc),
                ea_sumLatency := ea_sumLatency acc + finiteOrZero (uc_LatencyMean uc),
                ea_count := ea_count acc + 1 \<rparr>) m)"

definition window_step :: "MetricPoint \<Rightarrow> window_sums \<Rightarrow> window_sums" where
  "window_step p a =
     \<lparr> ws_req = ws_req a + mp_RequestRate p,
       ws_err = ws_err a + mp_ErrorRate p,
       ws_lat = ws_lat a + lat_Mean (mp_Latency p),
       ws_maxLat = (if ws_maxLat a < lat_Mean (mp_Latency p) then lat_Mean (mp_Latency p)
                    else ws_maxLat a),
       ws_cpu = ws_cpu a + mp_CPUUsage p,
       ws_mem = ws_mem a + mp_MemUsage p,
       ws_queue = ws_queue a + f64_of_int (mp_QueueDepth p),
       ws_conns = ws_conns a + f64_of_int (mp_ActiveConns p),
       ws_edges = fold edge_step (mp_UpstreamCalls p) (ws_edges a) \<rparr>"

definition edge_window :: "string \<Rightarrow> edgeAccum \<Rightarrow> EdgeWindow" where
  "edge_window tid acc =
    (let c = f64_of_int (ea_count acc) in
     \<lparr> ew_TargetServiceID = tid, ew_MeanCallRate = ea_sumCallRate acc / c,
       ew_MeanErrorRate = ea_sumErrRate acc / c, ew_MeanLatencyMs = ea_sumLatency acc / c \<rparr>)"

section \<open>The parts of \<open>computeWindow\<close>\<close>

definition std_request_rate :: "MetricPoint list \<Rightarrow> f64 \<Rightarrow> f64" where
  "std_request_rate pts meanReq =
    (let n = f64_of_int (int (length pts));
         sumSqDiff = fold (\<lambda>p acc. let d = mp_RequestRate p - meanReq in acc + d * d) pts 0
     in if 1 < n then math_Sqrt (sumSqDiff / (n - 1)) else 0)"

definition infer_p99 :: "LatencyStats \<Rightarrow> f64" where
  "infer_p99 l =
    (let v = lat_P99 l;
         v = (if v \<le> 0 \<and> 0 < lat_P95 l then lat_P95 l * fl 1.20 else v)
     in if v \<le> 0 \<and> 0 < lat_Mean l then lat_Mean l * fl 2.5 else v)"

definition infer_conns :: "f64 \<Rightarrow> f64 \<Rightarrow> f64 \<Rightarrow> f64 \<Rightarrow> f64" where
  "infer_conns n meanConns meanReq sumLat =
    (if meanConns < 1 \<and> 0 < meanReq \<and> 0 < sumLat
     then let inferred = meanReq * (sumLat / n / fl 1000) in if 1 \<le> inferred then inferred else 1
     else meanConns)"

definition infer_queue :: "f64 \<Rightarrow> MetricPoint \<Rightarrow> f64 \<Rightarrow> f64 \<Rightarrow> f64 \<times> f64" where
  \<comment> \<open>the pair \<open>(lastQueueDepth, meanQueueDepth)\<close>\<close>
  "infer_queue n lst meanConns sumQueue =
    (let lastQ = f64_of_int (mp_QueueDepth lst); meanQ = sumQueue / n; l = mp_Latency lst in
     if feq lastQ 0 \<and> 0 < lat_P50 l \<and> lat_P50 l * fl 1.5 < lat_Mean l
     then let excessFrac = (lat_Mean l - lat_P50 l) / lat_Mean l;
              lastQ = excessFrac * meanConns
          in (lastQ, if feq meanQ 0 then lastQ / n else meanQ)
     else (lastQ, meanQ))"

definition window_confidence :: "int \<Rightarrow> f64 \<Rightarrow> f64 \<Rightarrow> duration \<Rightarrow> f64" where
  "window_confidence cnt meanReq stdReq age =
    (let sampleConf = 1 - math_Exp (- f64_of_int cnt / fl 15);
         cov = (if 0 < meanReq then stdReq / meanReq else 0);
         stabilityConf = math_Exp (- cov * fl 0.5);
         ageSec = duration_Seconds age;
         freshnessConf = math_Exp (- ageSec / fl 6)
     in sampleConf * stabilityConf * freshnessConf)"

definition signal_quality :: "int \<Rightarrow> f64 \<Rightarrow> string" where
  "signal_quality cnt confidence =
    (if cnt < 3 \<or> confidence < fl 0.3 then ''sparse''
     else if confidence < fl 0.65 then ''degraded'' else ''good'')"

definition computeWindow ::
  "gotime \<Rightarrow> gotime \<Rightarrow> string \<Rightarrow> MetricPoint list \<Rightarrow> ServiceWindow" where
  \<comment> \<open>the callers exclude an empty \<open>pts\<close>, on which \<open>pts[len(pts)-1]\<close> panics\<close>
  "computeWindow t_age t_done serviceID pts =
    (let n = f64_of_int (int (length pts));
         a = fold window_step pts zero_sums;
         lst = last pts;
         meanReq = ws_req a / n;
         stdReq = std_request_rate pts meanReq;
         meanConns = infer_conns n (ws_conns a / n) meanReq (ws_lat a);
         (lastQ, meanQ) = infer_queue n lst meanConns (ws_queue a);
         confidence = window_confidence (int (length pts)) meanReq stdReq
                        (time_sub t_age (mp_Timestamp lst))
     in \<lparr> sw_ServiceID = serviceID, sw_ComputedAt = t_done,
          sw_LastObservedAt = mp_Timestamp lst, sw_SampleCount = int (length pts),
          sw_MeanRequestRate = meanReq, sw_StdRequestRate = stdReq,
          sw_LastRequestRate = mp_RequestRate lst, sw_MeanLatencyMs = ws_lat a / n,
          sw_MaxLatencyMs = ws_maxLat a, sw_LastLatencyMs = lat_Mean (mp_Latency lst),
          sw_LastP99LatencyMs = infer_p99 (mp_Latency lst),
          sw_MeanErrorRate = ws_err a / n, sw_LastErrorRate = mp_ErrorRate lst,
          sw_MeanCPU = ws_cpu a / n, sw_MeanMem = ws_mem a / n,
          sw_MeanQueueDepth = meanQ, sw_LastQueueDepth = lastQ, sw_MeanActiveConns = meanConns,
          sw_UpstreamEdges = map (\<lambda>(tid, acc). (tid, edge_window tid acc)) (ws_edges a),
          sw_AppliedScale = 0, sw_ConfidenceScore = confidence,
          sw_SignalQuality = signal_quality (int (length pts)) confidence,
          sw_Hazard = 0, sw_Reservoir = 0 \<rparr>)"

section \<open>Reading windows from the store\<close>

definition Window ::
  "gotime \<Rightarrow> gotime \<Rightarrow> gotime \<Rightarrow> Store \<Rightarrow> string \<Rightarrow> int \<Rightarrow> duration \<Rightarrow> ServiceWindow option" where
  "Window t_fresh t_age t_done s serviceID n cutoff =
    (case map_of (sh_buffers (st_shards s ! shardFor serviceID)) serviceID of
       None \<Rightarrow> None
     | Some buf \<Rightarrow>
        let lst = Last buf in
        if mp_Timestamp lst = 0 then None
        else if 0 < cutoff \<and> cutoff < time_sub t_fresh (mp_Timestamp lst) then None
        else let points = Snapshot buf (Some n) in
             if points = [] then None else Some (computeWindow t_age t_done serviceID points))"

definition fresh_entries ::
  "gotime \<Rightarrow> duration \<Rightarrow> storeShard \<Rightarrow> (string \<times> RingBuffer) list" where
  \<comment> \<open>phase 1 on one shard\<close>
  "fresh_entries now cutoff sh =
     filter (\<lambda>(sid, buf). \<not> (0 < cutoff \<and>
        (case map_of (sh_lastSeen sh) sid of None \<Rightarrow> True | Some t \<Rightarrow> cutoff < time_sub now t)))
       (sh_buffers sh)"

definition window_entry ::
  "(string \<Rightarrow> gotime \<times> gotime) \<Rightarrow> Store \<Rightarrow> int \<Rightarrow> string \<times> RingBuffer
     \<Rightarrow> (string, ServiceWindow) gomap \<Rightarrow> (string, ServiceWindow) gomap" where
  \<comment> \<open>phase 2 on one entry\<close>
  "window_entry clk s n e out =
    (case e of (sid, buf) \<Rightarrow>
       let pts = Snapshot buf (Some n) in
       if pts = [] then out
       else let w = computeWindow (fst (clk sid)) (snd (clk sid)) sid pts;
                w = (case map_of (st_appliedScales s) sid of
                       Some v \<Rightarrow> w\<lparr> sw_AppliedScale := v \<rparr> | None \<Rightarrow> w)
            in AList.update sid w out)"

definition AllWindows ::
  "gotime \<Rightarrow> (string \<Rightarrow> gotime \<times> gotime) \<Rightarrow> Store \<Rightarrow> int \<Rightarrow> duration \<Rightarrow> (string, ServiceWindow) gomap"
where
  "AllWindows now clk s n cutoff =
    (if st_svcCount s = 0 then []
     else fold (window_entry clk s n) (concat (map (fresh_entries now cutoff) (st_shards s))) [])"

section \<open>Bounds of the aggregates\<close>

text \<open>\<open>2\<^sup>2\<^sup>0\<close> points bound the windows considered; the engine's buffers hold a few hundred.\<close>

definition window_pts :: "MetricPoint list \<Rightarrow> bool" where
  "window_pts pts \<longleftrightarrow> pts \<noteq> [] \<and> length pts \<le> 2 ^ 20 \<and> (\<forall>p \<in> set pts. clean_point p)"

lemma fold_window_step:
  "ws_req (fold window_step pts a) = fold (\<lambda>p s. s + mp_RequestRate p) pts (ws_req a)"
  "ws_err (fold window_step pts a) = fold (\<lambda>p s. s + mp_ErrorRate p) pts (ws_err a)"
  "ws_lat (fold window_step pts a) = fold (\<lambda>p s. s + lat_Mean (mp_Latency p)) pts (ws_lat a)"
  "ws_maxLat (fold window_step pts a) =
     fold (\<lambda>p s. if s < lat_Mean (mp_Latency p) then lat_Mean (mp_Latency p) else s) pts (ws_maxLat a)"
  by (induction pts arbitrary: a) (simp_all add: window_step_def)

lemma fbound_nat_mult:
  assumes "j \<le> 2 ^ 20" "h \<le> 2 ^ 32" shows "fbound (real j * of_nat h)"
proof -
  have "j * h \<le> 2 ^ 20 * 2 ^ 32" using assms by (intro mult_mono) auto
  then have "int (j * h) \<le> 2 ^ 53" by (simp del: of_nat_mult)
  then show ?thesis using fbound_of_int [of "int (j * h)"] by simp
qed

lemma mean_btw:
  assumes "window_pts pts" "\<forall>p \<in> set pts. fbtw 0 (g p) (of_nat h)" "h \<le> 2 ^ 32"
  shows "fbtw 0 (fold (\<lambda>p s. s + g p) pts 0 / f64_of_int (int (length pts))) (of_nat h)"
proof -
  have n: "0 < length pts" "length pts \<le> 2 ^ 20" using assms(1) by (auto simp: window_pts_def)
  have "fbtw 0 (fold (\<lambda>p s. s + g p) pts 0) (real (0 + length pts) * of_nat h)"
    using assms(2) n fbound_nat_mult [OF _ assms(3)] by (intro fold_sum_btw) (auto simp: zero_f64_def)
  moreover have "f64_of_int (int (length pts)) = Fin (real (length pts))"
    using n f64_of_int_small [of "int (length pts)"] by simp
  moreover have "fbound (of_nat h)" using fbound_nat_mult [of 1 h] assms(3) by simp
  ultimately show ?thesis
    using n by (intro fbtw_divide [where a = 0 and b = "real (length pts) * of_nat h"
          and c = "real (length pts)" and d = "real (length pts)"]) auto
qed

lemma max_fold:
  assumes "\<forall>p \<in> set pts. fbtw 0 (g p) h" "fbtw 0 m h"
  shows "fbtw 0 (fold (\<lambda>p s. if s < g p then g p else s) pts m) h \<and>
    m \<le> fold (\<lambda>p s. if s < g p then g p else s) pts m \<and>
    (\<forall>p \<in> set pts. g p \<le> fold (\<lambda>p s. if s < g p then g p else s) pts m)"
  using assms
proof (induction pts arbitrary: m)
  case (Cons p pts)
  obtain a b where ab: "g p = Fin a" "m = Fin b" "0 \<le> a" "a \<le> h" "0 \<le> b" "b \<le> h"
    using Cons.prems by (auto elim!: fbtwE)
  show ?case
    using Cons.IH [of "if m < g p then g p else m"] Cons.prems(1) ab
    by (cases "fold (\<lambda>p s. if s < g p then g p else s) pts (if m < g p then g p else m)")
      (auto split: if_splits)
qed (auto elim!: fbtwE)

lemma clean_mean_bounds:
  assumes "window_pts pts"
  shows "fbtw 0 (sw_MeanErrorRate (computeWindow t1 t2 sid pts)) 1"
    "fbtw 0 (sw_MeanRequestRate (computeWindow t1 t2 sid pts)) 10000000"
    "fbtw 0 (sw_MeanLatencyMs (computeWindow t1 t2 sid pts)) 3600000"
  using mean_btw [OF assms, of mp_ErrorRate 1] mean_btw [OF assms, of mp_RequestRate 10000000]
    mean_btw [OF assms, of "\<lambda>p. lat_Mean (mp_Latency p)" 3600000] assms
  by (simp_all add: computeWindow_def Let_def case_prod_unfold fold_window_step zero_sums_def
      window_pts_def clean_point_def)

lemma fbound_pow2: "e \<le> 1000 \<Longrightarrow> fbound (2 ^ e)"
  using frep_pow2 [of "int e"] power_increasing [of e 1000 "2 :: real"]
  by (simp add: fbound_def big_def)

lemma std_request_btw:
  assumes w: "window_pts pts" and m: "fbtw 0 meanReq 10000000"
  shows "fbtw 0 (std_request_rate pts meanReq) big"
proof -
  let ?d = "\<lambda>p. mp_RequestRate p - meanReq"
  have len: "0 < length pts" "length pts \<le> 2 ^ 20" using w by (auto simp: window_pts_def)
  have le68: "real j * 2 ^ 48 \<le> 2 ^ 68" if "j \<le> 2 ^ 20" for j
  proof -
    have "real j * 2 ^ 48 \<le> 2 ^ 20 * 2 ^ 48" using that by (intro mult_right_mono) auto
    then show ?thesis by simp
  qed
  have b: "fbound (real j * 2 ^ 48)" if "j \<le> 2 ^ 20" for j
  proof -
    have "frep (real j * 2 ^ 48)"
      using that by (intro frepI [where m = "int j" and e = 48]) auto
    moreover have "\<bar>real j * 2 ^ 48\<bar> \<le> big"
      using le68 [OF that] fbound_pow2 [of 68] by (simp add: fbound_def)
    ultimately show ?thesis by (simp add: fbound_def)
  qed
  have "fbtw 0 (?d p * ?d p) (2 ^ 48)" if "p \<in> set pts" for p
  proof -
    have "fbtw 0 (mp_RequestRate p) 10000000" using w that by (auto simp: window_pts_def clean_point_def)
    then have "fbtw (- (2 ^ 24)) (?d p) (2 ^ 24)"
      using m fbound_pow2 [of 24]
      by (intro fbtw_diff [where a = 0 and b = 10000000 and c = 0 and d = 10000000]) auto
    from fbtw_square [OF this] show ?thesis using fbound_pow2 [of 48] by simp
  qed
  then have "fbtw 0 (fold (\<lambda>p acc. acc + ?d p * ?d p) pts 0) (real (0 + length pts) * 2 ^ 48)"
    using b len by (intro fold_sum_btw) (auto simp: zero_f64_def)
  then have s: "fbtw 0 (fold (\<lambda>p acc. acc + ?d p * ?d p) pts 0) (2 ^ 68)"
    using le68 [of "length pts"] len by (auto elim!: fbtw_weaken)
  have n: "f64_of_int (int (length pts)) = Fin (real (length pts))"
    using len f64_of_int_small [of "int (length pts)"] by simp
  show ?thesis
  proof (cases "1 < length pts")
    case False
    then show ?thesis by (simp add: std_request_rate_def n one_f64_def zero_f64_def)
  next
    case True
    have "fbtw 1 (f64_of_int (int (length pts)) - 1) (2 ^ 20)"
      using True len fbound_pow2 [of 20] unfolding n one_f64_def
      by (intro fbtw_diff [where a = "real (length pts)" and b = "real (length pts)"
            and c = 1 and d = 1]) auto
    from fbtw_divide [OF s this, of 0 "2 ^ 68"]
    have "fbtw 0 (fold (\<lambda>p acc. acc + ?d p * ?d p) pts 0 / (f64_of_int (int (length pts)) - 1)) (2 ^ 68)"
      using fbound_pow2 [of 68] by simp
    from math_Sqrt_btw [OF this] show ?thesis
      using True fbound_pow2 [of 68] by (simp add: std_request_rate_def n one_f64_def fbound_def Let_def)
  qed
qed

text \<open>The confidence score.\<close>

lemma confidence_btw:
  assumes "0 < cnt" "cnt \<le> 2 ^ 20" "fbtw 0 meanReq 10000000" "fbtw 0 stdReq big"
    "0 \<le> age" "age \<le> maxI64"
  shows "fbtw 0 (window_confidence cnt meanReq stdReq age) 1"
proof -
  have "fbtw 0 (math_Exp (- f64_of_int cnt / fl 15)) 1"
    using assms(1,2) by (intro math_Exp_nonpos) (simp add: f64_of_int_small fl_nonpos)
  then have sample: "fbtw 0 (1 - math_Exp (- f64_of_int cnt / fl 15)) 1"
    unfolding one_f64_def by (intro fbtw_diff [where a = 1 and b = 1 and c = 0 and d = 1]) auto
  let ?cov = "if 0 < meanReq then stdReq / meanReq else 0"
  have "f_nonneg ?cov"
    using assms(3,4) by (auto elim!: fbtwE simp: zero_f64_def intro!: fl_nonneg divide_nonneg_nonneg)
  then have "f_nonpos (- ?cov * fl 0.5)"
  proof -
    have "fl 0.5 = Fin (1/2)" using fl_frep [of "1/2"] big_ge(3) by simp
    then show ?thesis using \<open>f_nonneg ?cov\<close> by (simp add: f_nonpos_mult)
  qed
  then have stab: "fbtw 0 (math_Exp (- ?cov * fl 0.5)) 1" by (rule math_Exp_nonpos)
  obtain r where "duration_Seconds age = Fin r" "0 \<le> r"
    using duration_Seconds_nonneg [OF assms(5,6)] by blast
  then have fresh: "fbtw 0 (math_Exp (- duration_Seconds age / fl 6)) 1"
    by (intro math_Exp_nonpos) (simp add: fl_nonpos divide_nonpos_pos)
  have mul: "fbtw 0 x 1 \<Longrightarrow> fbtw 0 y 1 \<Longrightarrow> fbtw 0 (x * y) 1" for x y
    by (rule fbtw_mult [where a = 0 and b = 1 and c = 0 and d = 1]) auto
  show ?thesis
    unfolding window_confidence_def Let_def by (intro mul sample stab fresh)
qed

section \<open>What \<open>AllWindows\<close> returns\<close>

lemma concat_single:
  assumes "k < length xs" "\<And>j. j < length xs \<Longrightarrow> j \<noteq> k \<Longrightarrow> g (xs ! j) = []"
  shows "concat (map g xs) = g (xs ! k)"
proof -
  have "concat (map g (take k xs)) = []" "concat (map g (drop (Suc k) xs)) = []"
    using assms by (auto simp: in_set_conv_nth)
  moreover have "xs = take k xs @ xs ! k # drop (Suc k) xs"
    using assms(1) by (rule id_take_nth_drop)
  ultimately show ?thesis
    by (metis append.right_neutral append_self_conv2 concat.simps(2) concat_append list.simps(9) map_append)
qed

lemma filter_key: "wf_gomap m \<Longrightarrow> filter (\<lambda>e. fst e = i) m = (case map_of m i of None \<Rightarrow> [] | Some v \<Rightarrow> [(i, v)])"
proof (induction m)
  case (Cons a m)
  then have "fst a = i \<Longrightarrow> map_of m i = None"
    by (auto simp: wf_gomap_def map_of_eq_None_iff)
  with Cons show ?case by (cases a) (auto simp: wf_gomap_def split: option.splits)
qed simp

lemma window_entry_other: "fst e \<noteq> i \<Longrightarrow> map_of (window_entry clk s n e out) i = map_of out i"
  by (cases e) (simp add: window_entry_def Let_def)

lemma window_entry_cong:
  "map_of out i = map_of out' i \<Longrightarrow>
     map_of (window_entry clk s n e out) i = map_of (window_entry clk s n e out') i"
  by (cases e) (simp add: window_entry_def Let_def)

lemma fold_window_key:
  "map_of out i = map_of out' i \<Longrightarrow>
   map_of (fold (window_entry clk s n) es out) i =
   map_of (fold (window_entry clk s n) (filter (\<lambda>e. fst e = i) es) out') i"
proof (induction es arbitrary: out out')
  case (Cons e es)
  show ?case
  proof (cases "fst e = i")
    case True
    then show ?thesis using Cons.IH [OF window_entry_cong [OF Cons.prems]] by simp
  next
    case False
    then show ?thesis
      using Cons.IH [of "window_entry clk s n e out" out'] Cons.prems by (simp add: window_entry_other)
  qed
qed simp

definition window_of :: "(string \<Rightarrow> gotime \<times> gotime) \<Rightarrow> Store \<Rightarrow> int \<Rightarrow> string \<Rightarrow> MetricPoint list \<Rightarrow> ServiceWindow" where
  \<comment> \<open>the window over the last \<open>n\<close> points of a history, with the applied scale\<close>
  "window_of clk s n sid h =
    (let w = computeWindow (fst (clk sid)) (snd (clk sid)) sid (if 0 < n then lastn (nat n) h else h)
     in case map_of (st_appliedScales s) sid of Some v \<Rightarrow> w\<lparr> sw_AppliedScale := v \<rparr> | None \<Rightarrow> w)"

lemma AllWindows_lookup:
  assumes inv: "store_inv s"
  shows "map_of (AllWindows now clk s n cutoff) sid =
    (case st_history s sid of None \<Rightarrow> None
     | Some h \<Rightarrow>
         if h = [] \<or> 0 < cutoff \<and> (\<forall>t. st_seen s sid = Some t \<longrightarrow> stale now cutoff t) then None
         else Some (window_of clk s n sid h))"
proof (cases "st_svcCount s = 0")
  case True
  have "finite (dom (st_history s))"
    using dom_st_buffer [OF inv] by (simp add: st_history_def dom_def)
  then have "st_history s sid = None"
    using True svcCount_card [OF inv] by (auto simp: dom_def)
  then show ?thesis using True by (simp add: AllWindows_def)
next
  case False
  let ?k = "shardFor sid" and ?shs = "st_shards s"
  let ?sh = "?shs ! ?k"
  have len: "length ?shs = numShards" using inv by (simp add: store_inv_def)
  have shi: "shard_inv (st_bufCap s) k (?shs ! k)" if "k < numShards" for k
    using inv that by (simp add: store_inv_def)
  have wf: "wf_gomap (sh_buffers ?sh)"
    using shi [OF shardFor_less] unfolding shard_inv_def by blast
  let ?F = "filter (\<lambda>e. fst e = sid) \<circ> fresh_entries now cutoff"
  have other: "?F (?shs ! j) = []" if "j < length ?shs" "j \<noteq> ?k" for j
  proof -
    have "sid \<notin> keys (sh_buffers (?shs ! j))"
      using shard_inv_home [OF shi] shard_inv_keys [OF shi] that len by metis
    then show ?thesis by (force simp: fresh_entries_def filter_empty_conv)
  qed
  have "filter (\<lambda>e. fst e = sid) (concat (map (fresh_entries now cutoff) ?shs)) = ?F ?sh"
    using concat_single [of ?k ?shs ?F] other shardFor_less len by (simp add: filter_concat comp_def)
  also have "\<dots> = (case st_buffer s sid of None \<Rightarrow> [] | Some b \<Rightarrow>
      if 0 < cutoff \<and> (\<forall>t. st_seen s sid = Some t \<longrightarrow> stale now cutoff t) then [] else [(sid, b)])"
  proof -
    have "?F ?sh = filter (\<lambda>(i, b). \<not> (0 < cutoff \<and> (case map_of (sh_lastSeen ?sh) i of None \<Rightarrow> True
        | Some t \<Rightarrow> cutoff < time_sub now t))) (filter (\<lambda>e. fst e = sid) (sh_buffers ?sh))"
      by (simp add: fresh_entries_def conj_commute)
    then show ?thesis
      by (auto simp: filter_key [OF wf] st_buffer_def st_seen_def stale_def split: option.splits)
  qed
  finally have look: "map_of (AllWindows now clk s n cutoff) sid =
      map_of (fold (window_entry clk s n) \<dots> []) sid"
    using False fold_window_key [of "[]" sid "[]" clk s n "concat (map (fresh_entries now cutoff) ?shs)"]
    by (simp only: AllWindows_def if_False refl simp_thms)
  show ?thesis
  proof (cases "st_buffer s sid")
    case None
    then show ?thesis by (simp add: look st_history_def)
  next
    case (Some b)
    then have snap: "Snapshot b (Some n) = (if 0 < n then lastn (nat n) (rb_content b) else rb_content b)"
      using st_buffer_inv [OF inv Some] Snapshot_content [of b "Some n"] by simp
    then have "Snapshot b (Some n) = [] \<longleftrightarrow> rb_content b = []"
      by (auto simp flip: length_0_conv)
    then show ?thesis
      using Some snap
      by (simp add: look st_history_def window_entry_def window_of_def Let_def split: option.split)
  qed
qed

section \<open>Properties of the windows\<close>

text \<open>
  \<open>AllWindows\<close> has a window for exactly the known services that are fresh, each
  computed from the last \<open>n\<close> points of that service's history and carrying its applied
  scale, whatever the order the maps of the shards are ranged over.
\<close>

theorem AllWindows_exact:
  assumes "store_inv s"
  shows "map_of (AllWindows now clk s n cutoff) sid =
    (case st_history s sid of None \<Rightarrow> None
     | Some h \<Rightarrow>
         if h = [] \<or> 0 < cutoff \<and> (\<forall>t. st_seen s sid = Some t \<longrightarrow> stale now cutoff t) then None
         else Some (window_of clk s n sid h))"
  by (rule AllWindows_lookup [OF assms])

theorem AllWindows_exact_witness:
  "map_of (AllWindows 9 (\<lambda>_. (9, 9)) (NewStore 4 2 0) 3 0) ''a'' = None"
  using AllWindows_exact [of "NewStore 4 2 0" 9 "\<lambda>_. (9, 9)" 3 0 "''a''"] NewStore_inv [of 4 2 0]
  by simp

text \<open>
  Over a snapshot of sanitised points whose last point does not lie in the future,
  the window's means and its confidence score are finite and in range, in binary64
  arithmetic with every rounding: error rate and confidence in \<open>[0,1]\<close>, request rate
  and latency within the sanitiser's caps.
\<close>

theorem computeWindow_ranges:
  assumes "window_pts pts" "mp_Timestamp (last pts) \<le> t_age"
  shows "fbtw 0 (sw_ConfidenceScore (computeWindow t_age t_done sid pts)) 1 \<and>
    fbtw 0 (sw_MeanErrorRate (computeWindow t_age t_done sid pts)) 1 \<and>
    fbtw 0 (sw_MeanRequestRate (computeWindow t_age t_done sid pts)) 10000000 \<and>
    fbtw 0 (sw_StdRequestRate (computeWindow t_age t_done sid pts)) big \<and>
    fbtw 0 (sw_MeanLatencyMs (computeWindow t_age t_done sid pts)) 3600000"
proof -
  note m = clean_mean_bounds [OF assms(1), of t_age t_done sid]
  let ?w = "computeWindow t_age t_done sid pts"
  have std: "sw_StdRequestRate ?w = std_request_rate pts (sw_MeanRequestRate ?w)"
    and conf: "sw_ConfidenceScore ?w = window_confidence (int (length pts)) (sw_MeanRequestRate ?w)
        (sw_StdRequestRate ?w) (time_sub t_age (mp_Timestamp (last pts)))"
    by (simp_all add: computeWindow_def Let_def case_prod_unfold)
  have s: "fbtw 0 (sw_StdRequestRate ?w) big" unfolding std by (rule std_request_btw [OF assms(1) m(2)])
  have "0 \<le> time_sub t_age (mp_Timestamp (last pts))" "time_sub t_age (mp_Timestamp (last pts)) \<le> maxI64"
    using assms(2) by (auto simp: time_sub_def sat_i64_def maxI64_def minI64_def)
  then have "fbtw 0 (sw_ConfidenceScore ?w) 1"
    unfolding conf using assms(1) m(2) s by (intro confidence_btw) (auto simp: window_pts_def)
  then show ?thesis using m s by blast
qed

definition sample_point :: MetricPoint where
  "sample_point = zero_point\<lparr> mp_ServiceID := ''a'', mp_Timestamp := 60000000000,
     mp_Latency := \<lparr> lat_P50 = Fin 1, lat_P95 = Fin 1, lat_P99 = Fin 1, lat_Mean = Fin 1 \<rparr> \<rparr>"

lemma sample_point_clean [simp]: "clean_point sample_point"
  by (simp add: clean_point_def sample_point_def zero_point_def zero_f64_def)

theorem computeWindow_ranges_witness:
  "fbtw 0 (sw_ConfidenceScore (computeWindow 60000000000 0 ''a'' [sample_point, sample_point])) 1"
proof -
  have "window_pts [sample_point, sample_point]" "mp_Timestamp (last [sample_point, sample_point]) \<le> 60000000000"
    by (simp_all add: window_pts_def, simp add: sample_point_def)
  from computeWindow_ranges [OF this] show ?thesis by blast
qed

lemma exp_10: "8 \<le> exp (10 :: real)" "exp (10 :: real) \<le> 65536"
proof -
  show "8 \<le> exp (10 :: real)" using exp_ge_add_one_self [of 10] by linarith
  have "exp (10 :: real) = exp 1 ^ 10" by (simp flip: exp_of_nat_mult)
  also have "\<dots> \<le> 3 ^ 10" by (intro power_mono exp_le) simp
  finally show "exp (10 :: real) \<le> 65536" by simp
qed

text \<open>
  The documented range of \<open>ConfidenceScore\<close> is not kept for a point from the
  future: fifteen sanitised points stamped a minute ahead of the clock give a score
  above 1, which is classified as \<open>good\<close>.
\<close>

theorem future_point_confidence:
  "window_pts (replicate 15 sample_point) \<and>
   1 < sw_ConfidenceScore (computeWindow 0 0 ''a'' (replicate 15 sample_point))"
proof
  show w: "window_pts (replicate 15 sample_point)" by (simp add: window_pts_def)
  let ?w = "computeWindow 0 0 ''a'' (replicate 15 sample_point)"
  have "mp_RequestRate sample_point = 0" by (simp add: sample_point_def zero_point_def)
  then have "fold (\<lambda>p s. s + mp_RequestRate p) (replicate k sample_point) 0 = 0" for k
    by (induction k) (simp_all add: zero_f64_def)
  from this [of 15] have req: "ws_req (fold window_step (replicate 15 sample_point) zero_sums) = 0"
    by (simp only: fold_window_step) (simp add: zero_sums_def)
  have "time_sub 0 (mp_Timestamp (last (replicate 15 sample_point))) = - 60000000000"
    by (simp add: sample_point_def time_sub_def sat_i64_def minI64_def maxI64_def)
  then have "sw_ConfidenceScore ?w =
      window_confidence 15 0 (std_request_rate (replicate 15 sample_point) 0) (- 60000000000)"
    unfolding computeWindow_def Let_def case_prod_unfold ServiceWindow.select_convs req
    by (simp add: zero_f64_def del: replicate.simps replicate_Suc)
  also have "\<dots> = (1 - math_Exp (Fin (- 1))) * Fin 1 * math_Exp (Fin 10)"
  proof -
    have "fl 0.5 = Fin (1/2)" using fl_frep [of "1/2"] big_ge(3) by simp
    moreover have "duration_Seconds (- 60000000000) = Fin (- 60)"
      by (simp add: duration_Seconds_def quot_def remt_def Second_def f64_of_int_def fl_minus)
    ultimately show ?thesis
      by (simp add: window_confidence_def Let_def zero_f64_def fl_minus)
  qed
  finally have eq: "sw_ConfidenceScore ?w = \<dots>" .
  have "exp (- 1 :: real) \<le> 1/2"
    using exp_ge_add_one_self [of 1] by (simp add: exp_minus field_simps)
  then have "fbtw 0 (math_Exp (Fin (- 1))) (1/2)" by (auto intro!: fbtw_fl)
  then have "fbtw (1/2) (1 - math_Exp (Fin (- 1))) 1"
    unfolding one_f64_def by (intro fbtw_diff [where a = 1 and b = 1 and c = 0 and d = "1/2"]) auto
  then have "fbtw (1/2) ((1 - math_Exp (Fin (- 1))) * Fin 1) 1"
    by (intro fbtw_mult [where a = "1/2" and b = 1 and c = 1 and d = 1]) auto
  moreover have "fbtw 8 (math_Exp (Fin 10)) 65536" using exp_10 by (auto intro!: fbtw_fl)
  ultimately have "fbtw 4 (sw_ConfidenceScore ?w) 65536"
    unfolding eq by (rule fbtw_mult [where a = "1/2" and b = 1 and c = 8 and d = 65536]) auto
  then show "1 < sw_ConfidenceScore ?w" by (auto elim!: fbtwE simp: one_f64_def)
qed

end
