(* ===== verification/Topology.thy ===== *)
theory Topology
  imports TelemetryWindow
begin

text \<open>
  \<open>internal/topology\<close>: the dependency graph of the services, updated from the telemetry
  windows of each tick, with edge decay, node expiry, load propagation and the critical
  path.  The maps are association lists; the loops that run over all edges several times
  take the order of each round as an argument (\<open>eo i\<close>), a permutation of the edges.
\<close>

record Node =
  nd_ServiceID :: string
  nd_LastSeen :: gotime
  nd_NormalisedLoad :: f64

record Edge =
  eg_Source :: string
  eg_Target :: string
  eg_CallRate :: f64
  eg_ErrorRate :: f64
  eg_LatencyMs :: f64
  eg_Weight :: f64
  eg_LastUpdated :: gotime

record CriticalPath =
  cr_Nodes :: "string list"
  cr_TotalWeight :: f64
  cr_CascadeRisk :: f64

record GraphSnapshot =
  gs_CapturedAt :: gotime
  gs_Nodes :: "Node list"
  gs_Edges :: "Edge list"
  gs_CriticalPath :: CriticalPath

type_synonym node_map = "(string, Node) gomap"
type_synonym edge_map = "(string, (string, Edge) gomap) gomap"

record Graph =
  gr_nodes :: node_map
  gr_edges :: edge_map

definition New_graph :: Graph where
  "New_graph = \<lparr> gr_nodes = [], gr_edges = [] \<rparr>"

definition edgeDecayFactor :: f64 where "edgeDecayFactor = fl 0.82"
definition nodeStaleAge :: duration where "nodeStaleAge = 5 * Minute"
definition maxNodes :: nat where "maxNodes = 300"

section \<open>The update\<close>

definition upsert_node :: "gotime \<Rightarrow> string \<times> ServiceWindow \<Rightarrow> node_map \<Rightarrow> node_map" where
  "upsert_node now iw nodes =
    (case map_of nodes (fst iw) of
       Some n \<Rightarrow> AList.update (fst iw) (n\<lparr> nd_LastSeen := now \<rparr>) nodes
     | None \<Rightarrow> if maxNodes \<le> length nodes then nodes
               else AList.update (fst iw) \<lparr> nd_ServiceID = fst iw, nd_LastSeen = now, nd_NormalisedLoad = 0 \<rparr> nodes)"

type_synonym upd_state = "node_map \<times> edge_map \<times> (string \<times> string) list"

definition targets_of :: "edge_map \<Rightarrow> string \<Rightarrow> (string, Edge) gomap" where
  "targets_of edges src = (case map_of edges src of None \<Rightarrow> [] | Some m \<Rightarrow> m)"

definition touch_target :: "gotime \<Rightarrow> string \<Rightarrow> node_map \<Rightarrow> node_map" where
  "touch_target now tgt nodes =
    (if map_of nodes tgt = None \<and> length nodes < maxNodes
     then AList.update tgt \<lparr> nd_ServiceID = tgt, nd_LastSeen = now, nd_NormalisedLoad = 0 \<rparr> nodes
     else nodes)"

definition observed_edge :: "gotime \<Rightarrow> string \<Rightarrow> ServiceWindow \<Rightarrow> EdgeWindow \<Rightarrow> Edge option \<Rightarrow> Edge" where
  "observed_edge now src w ue old =
    (let tgt = ew_TargetServiceID ue;
         e = (case old of Some e \<Rightarrow> e
              | None \<Rightarrow> \<lparr> eg_Source = src, eg_Target = tgt, eg_CallRate = 0, eg_ErrorRate = 0,
                          eg_LatencyMs = 0, eg_Weight = 0, eg_LastUpdated = 0 \<rparr>)
     in e\<lparr> eg_CallRate := ew_MeanCallRate ue, eg_ErrorRate := ew_MeanErrorRate ue,
           eg_LatencyMs := ew_MeanLatencyMs ue,
           eg_Weight := (if 0 < sw_MeanRequestRate w
                         then math_Min (ew_MeanCallRate ue / sw_MeanRequestRate w) 1 else eg_Weight e),
           eg_LastUpdated := now \<rparr>)"

definition upsert_edge :: "gotime \<Rightarrow> string \<Rightarrow> ServiceWindow \<Rightarrow> EdgeWindow \<Rightarrow> upd_state \<Rightarrow> upd_state" where
  "upsert_edge now src w ue st =
    (case st of (nodes, edges, seen) \<Rightarrow>
       let tgt = ew_TargetServiceID ue;
           targets = targets_of edges src
       in (touch_target now tgt nodes,
           AList.update src (AList.update tgt (observed_edge now src w ue (map_of targets tgt)) targets) edges,
           (src, tgt) # seen))"

definition upsert_edges :: "gotime \<Rightarrow> string \<times> ServiceWindow \<Rightarrow> upd_state \<Rightarrow> upd_state" where
  "upsert_edges now iw st =
     fold (\<lambda>kue. upsert_edge now (fst iw) (snd iw) (snd kue)) (sw_UpstreamEdges (snd iw)) st"

definition decay_edge :: "(string \<times> string) list \<Rightarrow> string \<Rightarrow> string \<times> Edge \<Rightarrow> (string \<times> Edge) list" where
  "decay_edge seen src te =
    (if (src, fst te) \<in> set seen then [te]
     else let e = (snd te)\<lparr> eg_Weight := eg_Weight (snd te) * edgeDecayFactor \<rparr>
          in if eg_Weight e < fl 0.005 then [] else [(fst te, e)])"

definition decay_edges :: "(string \<times> string) list \<Rightarrow> edge_map \<Rightarrow> edge_map" where
  "decay_edges seen edges =
     filter (\<lambda>x. snd x \<noteq> [])
       (map (\<lambda>(src, targets). (src, concat (map (decay_edge seen src) targets))) edges)"

definition stale_node :: "gotime \<Rightarrow> string \<times> Node \<Rightarrow> bool" where
  "stale_node now n \<longleftrightarrow> nodeStaleAge < time_sub now (nd_LastSeen (snd n))"

section \<open>Load propagation\<close>

definition max_rate :: "(string, ServiceWindow) gomap \<Rightarrow> f64" where
  "max_rate windows =
     fold (\<lambda>iw m. if m < sw_MeanRequestRate (snd iw) then sw_MeanRequestRate (snd iw) else m) windows 1"

definition own_load :: "(string, ServiceWindow) gomap \<Rightarrow> f64 \<Rightarrow> string \<times> Node \<Rightarrow> string \<times> Node" where
  "own_load windows maxRate n =
    (case map_of windows (fst n) of
       None \<Rightarrow> n
     | Some w \<Rightarrow> (fst n, (snd n)\<lparr> nd_NormalisedLoad := sw_MeanRequestRate w / maxRate \<rparr>))"

definition flow :: "string \<times> string \<times> Edge \<Rightarrow> node_map \<times> f64 \<Rightarrow> node_map \<times> f64" where
  "flow ste acc =
    (case (ste, acc) of ((src, tgt, e), (nodes, delta)) \<Rightarrow>
       (case (map_of nodes src, map_of nodes tgt) of
          (Some sn, Some tn) \<Rightarrow>
            let contrib = nd_NormalisedLoad sn * eg_Weight e * fl 0.25;
                prev = nd_NormalisedLoad tn;
                load = math_Min (prev + contrib) 1
            in (AList.update tgt (tn\<lparr> nd_NormalisedLoad := load \<rparr>) nodes, delta + \<bar>load - prev\<bar>)
        | _ \<Rightarrow> (nodes, delta)))"

type_synonym edge_order = "nat \<Rightarrow> (string \<times> string \<times> Edge) list"

fun propagate :: "edge_order \<Rightarrow> nat \<Rightarrow> nat \<Rightarrow> node_map \<Rightarrow> node_map" where
  \<comment> \<open>\<open>k\<close> rounds left of eight\<close>
  "propagate eo i 0 nodes = nodes"
| "propagate eo i (Suc k) nodes =
    (let (nodes', delta) = fold flow (eo i) (nodes, 0)
     in if delta < fl 0.000001 then nodes' else propagate eo (Suc i) k nodes')"

definition flat_edges :: "edge_map \<Rightarrow> (string \<times> string \<times> Edge) list" where
  "flat_edges edges = concat (map (\<lambda>(src, targets). map (\<lambda>(tgt, e). (src, tgt, e)) targets) edges)"

definition edge_orders :: "edge_map \<Rightarrow> edge_order \<Rightarrow> bool" where
  "edge_orders edges eo \<longleftrightarrow> (\<forall>i. set (eo i) = set (flat_edges edges))"

definition propagateLoad :: "edge_order \<Rightarrow> (string, ServiceWindow) gomap \<Rightarrow> node_map \<Rightarrow> node_map" where
  "propagateLoad eo windows nodes =
     propagate eo 0 8 (map (own_load windows (max_rate windows)) nodes)"

definition Update_structure :: "gotime \<Rightarrow> (string, ServiceWindow) gomap \<Rightarrow> Graph \<Rightarrow> Graph" where
  \<comment> \<open>\<open>Update\<close> up to the propagation\<close>
  "Update_structure now windows g =
    (let nodes = fold (upsert_node now) windows (gr_nodes g);
         (nodes, edges, seen) = fold (upsert_edges now) windows (nodes, gr_edges g, []);
         edges = decay_edges seen edges;
         stale = map fst (filter (stale_node now) nodes)
     in \<lparr> gr_nodes = filter (\<lambda>n. \<not> stale_node now n) nodes,
          gr_edges = filter (\<lambda>x. fst x \<notin> set stale) edges \<rparr>)"

definition Update_graph ::
  "(edge_map \<Rightarrow> edge_order) \<Rightarrow> gotime \<Rightarrow> (string, ServiceWindow) gomap \<Rightarrow> Graph \<Rightarrow> Graph" where
  "Update_graph ord now windows g =
    (let g = Update_structure now windows g
     in g\<lparr> gr_nodes := propagateLoad (ord (gr_edges g)) windows (gr_nodes g) \<rparr>)"

section \<open>The critical path\<close>

definition get_dist :: "(string, f64) gomap \<Rightarrow> string \<Rightarrow> f64" where
  "get_dist ds x = (case map_of ds x of None \<Rightarrow> 0 | Some d \<Rightarrow> d)"

definition get_prev :: "(string, string) gomap \<Rightarrow> string \<Rightarrow> string" where
  "get_prev prev x = (case map_of prev x of None \<Rightarrow> '''' | Some p \<Rightarrow> p)"

type_synonym relax_state = "(string, f64) gomap \<times> (string, string) gomap"

definition relax :: "string \<times> string \<times> Edge \<Rightarrow> relax_state \<Rightarrow> relax_state" where
  "relax ste dp =
    (case (ste, dp) of ((src, tgt, e), (ds, prev)) \<Rightarrow>
       let d = get_dist ds src + eg_Weight e
       in if get_dist ds tgt < d then (AList.update tgt d ds, AList.update tgt src prev) else (ds, prev))"

definition pick_best :: "(string \<times> f64) list \<Rightarrow> string \<times> f64 \<Rightarrow> string \<times> f64" where
  "pick_best xs b = fold (\<lambda>x b. if snd b < snd x then x else b) xs b"

text \<open>The walk back from the end of the path stops at the start or at a repeated node.\<close>

function path_back :: "(string, string) gomap \<Rightarrow> string \<Rightarrow> string list \<Rightarrow> string list" where
  \<comment> \<open>the path so far is also the set of the visited nodes\<close>
  "path_back prev cur path =
    (if cur \<noteq> '''' \<and> cur \<notin> set path then path_back prev (get_prev prev cur) (cur # path) else path)"
  by pat_completeness auto
termination
proof (relation "measure (\<lambda>(prev, cur, path). card (insert cur (snd ` set prev) - set path - {''''}))")
  fix prev :: "(string, string) gomap" and cur :: string and path :: "string list"
  assume c: "cur \<noteq> '''' \<and> cur \<notin> set path"
  have "get_prev prev cur \<in> insert '''' (snd ` set prev)"
    by (auto simp: get_prev_def split: option.split dest: map_of_SomeD intro: rev_image_eqI)
  then have "insert (get_prev prev cur) (snd ` set prev) - set (cur # path) - {''''}
      \<subset> insert cur (snd ` set prev) - set path - {''''}"
    using c by auto
  then have "card (insert (get_prev prev cur) (snd ` set prev) - set (cur # path) - {''''})
      < card (insert cur (snd ` set prev) - set path - {''''})"
    by (intro psubset_card_mono) auto
  then show "((prev, get_prev prev cur, cur # path), (prev, cur, path))
      \<in> measure (\<lambda>(prev, cur, path). card (insert cur (snd ` set prev) - set path - {''''}))"
    by simp
qed simp

declare path_back.simps [simp del]

definition sigmoid :: "f64 \<Rightarrow> f64" where
  "sigmoid x = 1 / (1 + math_Exp (- x))"

definition cascade_step :: "node_map \<Rightarrow> string \<Rightarrow> f64 \<Rightarrow> f64" where
  "cascade_step nodes x c =
    (case map_of nodes x of
       None \<Rightarrow> c
     | Some n \<Rightarrow> let r = sigmoid ((nd_NormalisedLoad n - fl 0.78) / fl 0.05) in 1 - (1 - c) * (1 - r))"

definition relaxed :: "edge_order \<Rightarrow> node_map \<Rightarrow> relax_state" where
  "relaxed eo nodes =
     fold (\<lambda>i. fold relax (eo i)) [0..<length nodes] (map (\<lambda>n. (fst n, 0)) nodes, [])"

definition criticalPath :: "edge_order \<Rightarrow> Graph \<Rightarrow> CriticalPath" where
  "criticalPath eo g =
    (if gr_nodes g = [] then \<lparr> cr_Nodes = [], cr_TotalWeight = 0, cr_CascadeRisk = 0 \<rparr>
     else
       let (ds, prev) = relaxed eo (gr_nodes g);
           (best, bestD) = pick_best ds ('''', 0)
       in if best = '''' then
            (let (best, bestD) = pick_best (map (\<lambda>n. (nd_ServiceID (snd n), nd_NormalisedLoad (snd n))) (gr_nodes g))
                                   (best, bestD)
             in if best = '''' then \<lparr> cr_Nodes = [], cr_TotalWeight = 0, cr_CascadeRisk = 0 \<rparr>
                else \<lparr> cr_Nodes = [best], cr_TotalWeight = bestD, cr_CascadeRisk = 0 \<rparr>)
          else
            (let path = path_back prev best []
             in \<lparr> cr_Nodes = path, cr_TotalWeight = bestD,
                  cr_CascadeRisk = fold (cascade_step (gr_nodes g)) path 0 \<rparr>))"

definition edgeWeightFloor :: f64 where "edgeWeightFloor = fl 0.02"

definition Snapshot_graph :: "gotime \<Rightarrow> edge_order \<Rightarrow> Graph \<Rightarrow> GraphSnapshot" where
  "Snapshot_graph now eo g =
     \<lparr> gs_CapturedAt = now, gs_Nodes = map snd (gr_nodes g),
       gs_Edges = filter (\<lambda>e. edgeWeightFloor \<le> eg_Weight e) (map (\<lambda>(s, t, e). e) (flat_edges (gr_edges g))),
       gs_CriticalPath = criticalPath eo g \<rparr>"

definition NodeCount :: "Graph \<Rightarrow> int" where
  "NodeCount g = int (length (gr_nodes g))"

section \<open>The invariant\<close>

definition unit_btw :: "f64 \<Rightarrow> bool" where
  "unit_btw x \<longleftrightarrow> fbtw 0 x 1"

definition node_inv :: "node_map \<Rightarrow> bool" where
  "node_inv nodes \<longleftrightarrow> wf_gomap nodes \<and> length nodes \<le> maxNodes \<and>
     (\<forall>(x, n) \<in> set nodes. nd_ServiceID n = x \<and> unit_btw (nd_NormalisedLoad n))"

definition targets_inv :: "string \<Rightarrow> (string, Edge) gomap \<Rightarrow> bool" where
  "targets_inv src targets \<longleftrightarrow> wf_gomap targets \<and>
     (\<forall>(tgt, e) \<in> set targets. eg_Source e = src \<and> eg_Target e = tgt \<and> unit_btw (eg_Weight e))"

definition edge_inv :: "edge_map \<Rightarrow> bool" where
  "edge_inv edges \<longleftrightarrow> wf_gomap edges \<and> (\<forall>(src, targets) \<in> set edges. targets_inv src targets)"

definition graph_inv :: "Graph \<Rightarrow> bool" where
  "graph_inv g \<longleftrightarrow> node_inv (gr_nodes g) \<and> edge_inv (gr_edges g)"

definition window_ok :: "ServiceWindow \<Rightarrow> bool" where
  "window_ok w \<longleftrightarrow> fbtw 0 (sw_MeanRequestRate w) big \<and>
     (\<forall>(k, ue) \<in> set (sw_UpstreamEdges w). fbtw 0 (ew_MeanCallRate ue) big)"

definition windows_ok :: "(string, ServiceWindow) gomap \<Rightarrow> bool" where
  "windows_ok windows \<longleftrightarrow> (\<forall>(x, w) \<in> set windows. window_ok w)"

lemma unit_btw_0 [simp]: "unit_btw 0"
  by (simp add: unit_btw_def zero_f64_def)

lemma min_1_unit: "f_nonneg x \<Longrightarrow> unit_btw (math_Min x 1)"
  by (cases x) (auto simp: unit_btw_def math_Min_def one_f64_def)

lemma unit_mult: "unit_btw x \<Longrightarrow> unit_btw y \<Longrightarrow> unit_btw (x * y)"
  unfolding unit_btw_def by (rule fbtw_mult [where a = 0 and b = 1 and c = 0 and d = 1]) auto

lemma unit_const: "0 \<le> c \<Longrightarrow> c \<le> 1 \<Longrightarrow> unit_btw (fl c)"
  unfolding unit_btw_def by (rule fbtw_fl) auto

lemma unit_nonneg: "unit_btw x \<Longrightarrow> f_nonneg x"
  unfolding unit_btw_def by (rule fbtw_nonneg)

lemma node_inv_update:
  assumes "node_inv nodes" "x \<in> keys nodes \<or> length nodes < maxNodes" "nd_ServiceID n = x"
    "unit_btw (nd_NormalisedLoad n)"
  shows "node_inv (AList.update x n nodes)"
  using assms by (auto simp: node_inv_def length_update dest!: set_updateD)

lemma node_inv_at: "node_inv nodes \<Longrightarrow> map_of nodes x = Some n \<Longrightarrow>
    nd_ServiceID n = x \<and> unit_btw (nd_NormalisedLoad n) \<and> x \<in> keys nodes"
  by (auto simp: node_inv_def dest!: map_of_SomeD intro: rev_image_eqI)

lemma upsert_node_inv: "node_inv nodes \<Longrightarrow> node_inv (upsert_node now iw nodes)"
  by (auto simp: upsert_node_def dest: node_inv_at split: option.split intro!: node_inv_update)

lemma touch_target_inv: "node_inv nodes \<Longrightarrow> node_inv (touch_target now tgt nodes)"
  by (auto simp: touch_target_def intro!: node_inv_update)

lemma targets_of_inv: "edge_inv edges \<Longrightarrow> targets_inv src (targets_of edges src)"
  by (auto simp: edge_inv_def targets_of_def targets_inv_def split: option.split dest!: map_of_SomeD)

lemma observed_edge_inv:
  assumes "targets_inv src targets" "map_of targets (ew_TargetServiceID ue) = old"
    "fbtw 0 (sw_MeanRequestRate w) big" "fbtw 0 (ew_MeanCallRate ue) big"
  shows "eg_Source (observed_edge now src w ue old) = src \<and>
    eg_Target (observed_edge now src w ue old) = ew_TargetServiceID ue \<and>
    unit_btw (eg_Weight (observed_edge now src w ue old))"
proof -
  obtain r where r: "sw_MeanRequestRate w = Fin r" using assms(3) by (rule fbtwE)
  have "f_nonneg (ew_MeanCallRate ue / sw_MeanRequestRate w)" if "0 < sw_MeanRequestRate w"
    using that assms(4) unfolding r by (intro f_nonneg_divide) (auto simp: zero_f64_def dest: fbtw_nonneg)
  then have w: "unit_btw (math_Min (ew_MeanCallRate ue / sw_MeanRequestRate w) 1)" if "0 < sw_MeanRequestRate w"
    using that by (intro min_1_unit)
  have "\<And>e. old = Some e \<Longrightarrow> eg_Source e = src \<and> eg_Target e = ew_TargetServiceID ue \<and> unit_btw (eg_Weight e)"
    using assms(1,2) by (auto simp: targets_inv_def dest!: map_of_SomeD)
  then show ?thesis using w by (cases old) (auto simp: observed_edge_def Let_def)
qed

definition upd_inv :: "upd_state \<Rightarrow> bool" where
  "upd_inv st \<longleftrightarrow> node_inv (fst st) \<and> edge_inv (fst (snd st))"

lemma upsert_edge_inv:
  assumes "upd_inv st" "fbtw 0 (sw_MeanRequestRate w) big" "fbtw 0 (ew_MeanCallRate ue) big"
  shows "upd_inv (upsert_edge now src w ue st)"
proof -
  obtain nodes edges seen where st: "st = (nodes, edges, seen)" by (cases st) auto
  have t: "targets_inv src (targets_of edges src)" using assms(1) st by (auto simp: upd_inv_def intro: targets_of_inv)
  let ?e = "observed_edge now src w ue (map_of (targets_of edges src) (ew_TargetServiceID ue))"
  have "targets_inv src (AList.update (ew_TargetServiceID ue) ?e (targets_of edges src))"
    using t observed_edge_inv [OF t refl assms(2,3), of now] by (auto simp: targets_inv_def dest!: set_updateD)
  then have "edge_inv (AList.update src (AList.update (ew_TargetServiceID ue) ?e (targets_of edges src)) edges)"
    using assms(1) st by (auto simp: upd_inv_def edge_inv_def dest!: set_updateD)
  then show ?thesis
    using assms(1) st by (auto simp: upsert_edge_def upd_inv_def Let_def intro: touch_target_inv)
qed

lemma fold_inv: "P s \<Longrightarrow> (\<And>x s. x \<in> set xs \<Longrightarrow> P s \<Longrightarrow> P (f x s)) \<Longrightarrow> P (fold f xs s)"
  by (induction xs arbitrary: s) auto

lemma upsert_edges_inv:
  assumes "upd_inv st" "window_ok (snd iw)" shows "upd_inv (upsert_edges now iw st)"
  unfolding upsert_edges_def
  by (rule fold_inv [where P = upd_inv]) (use assms in \<open>auto simp: window_ok_def intro!: upsert_edge_inv\<close>)

lemma wf_concat_map:
  assumes "wf_gomap m" "\<And>x. x \<in> set m \<Longrightarrow> f x = [] \<or> map fst (f x) = [fst x]"
  shows "wf_gomap (concat (map f m))"
  using assms
proof (induction m)
  case (Cons x m)
  have "fst z = fst y" if "y \<in> set m" "z \<in> set (f y)" for y z
  proof -
    have "f y = [] \<or> map fst (f y) = [fst y]" using Cons.prems(2) that(1) by simp
    then show ?thesis using that(2) by auto
  qed
  then have "fst ` set (concat (map f m)) \<subseteq> fst ` set m"
    by (simp add: image_subset_iff)
  then have "fst x \<notin> set (map fst (concat (map f m)))"
    using Cons.prems(1) by (auto simp: wf_gomap_def)
  moreover have "distinct (map fst (concat (map f m)))"
    using Cons by (simp add: wf_gomap_def)
  moreover have "f x = [] \<or> map fst (f x) = [fst x]" using Cons.prems(2) [of x] by simp
  ultimately show ?case
    by (auto simp only: wf_gomap_def list.map concat.simps map_append append.simps distinct.simps)
qed simp

lemma decay_targets_inv:
  assumes "targets_inv src targets" shows "targets_inv src (concat (map (decay_edge seen src) targets))"
proof -
  have "wf_gomap (concat (map (decay_edge seen src) targets))"
    using assms by (intro wf_concat_map) (auto simp: targets_inv_def decay_edge_def Let_def)
  moreover have "unit_btw (eg_Weight e * edgeDecayFactor)" if "unit_btw (eg_Weight e)" for e
    unfolding edgeDecayFactor_def using that by (intro unit_mult unit_const) auto
  ultimately show ?thesis
    using assms by (fastforce simp: targets_inv_def decay_edge_def Let_def split: if_splits)
qed

lemma decay_edges_inv:
  assumes "edge_inv edges" shows "edge_inv (decay_edges seen edges)"
proof -
  have "map fst (map (\<lambda>(src, targets). (src, concat (map (decay_edge seen src) targets))) edges) = map fst edges"
    by (auto simp: split_beta)
  then have "wf_gomap (decay_edges seen edges)"
    using assms unfolding decay_edges_def by (intro wf_gomap_filter) (simp only: wf_gomap_def edge_inv_def)
  then show ?thesis
    using assms by (auto simp: edge_inv_def decay_edges_def intro!: decay_targets_inv)
qed

lemma Update_structure_inv:
  assumes "graph_inv g" "windows_ok windows" shows "graph_inv (Update_structure now windows g)"
proof -
  have n: "node_inv (fold (upsert_node now) windows (gr_nodes g))"
    by (rule fold_inv [where P = node_inv]) (use assms in \<open>auto simp: graph_inv_def intro: upsert_node_inv\<close>)
  define st where "st = fold (upsert_edges now) windows (fold (upsert_node now) windows (gr_nodes g), gr_edges g, [])"
  have st: "upd_inv st"
    unfolding st_def by (rule fold_inv [where P = upd_inv])
      (use n assms in \<open>auto simp: upd_inv_def [of "(_, _)"] graph_inv_def windows_ok_def intro!: upsert_edges_inv\<close>)
  obtain nodes edges seen where e: "st = (nodes, edges, seen)" by (cases st) auto
  have "node_inv (filter (\<lambda>n. \<not> stale_node now n) nodes)"
    using st e by (auto simp: upd_inv_def node_inv_def intro: order_trans [OF length_filter_le])
  moreover have "edge_inv (filter P (decay_edges seen edges))" for P
    using decay_edges_inv [of edges seen] st e by (auto simp: upd_inv_def edge_inv_def)
  ultimately show ?thesis
    by (simp add: Update_structure_def st_def [symmetric] e graph_inv_def Let_def)
qed

lemma max_rate_ge:
  "fbtw 1 m big \<Longrightarrow> windows_ok ws \<Longrightarrow>
   \<exists>r. fold (\<lambda>iw m. if m < sw_MeanRequestRate (snd iw) then sw_MeanRequestRate (snd iw) else m) ws m = Fin r \<and>
     1 \<le> r \<and> r \<le> big \<and> m \<le> Fin r \<and> (\<forall>(x, w) \<in> set ws. sw_MeanRequestRate w \<le> Fin r)"
proof (induction ws arbitrary: m)
  case (Cons xw ws)
  obtain x w where xw: "xw = (x, w)" by (cases xw)
  obtain q where q: "sw_MeanRequestRate w = Fin q" "q \<le> big"
    using Cons.prems xw by (auto simp: windows_ok_def window_ok_def elim!: fbtwE)
  obtain p where p: "m = Fin p" "1 \<le> p" "p \<le> big" using Cons.prems(1) by (rule fbtwE)
  have ws: "windows_ok ws" using Cons.prems by (simp add: windows_ok_def)
  let ?m = "if m < sw_MeanRequestRate w then sw_MeanRequestRate w else m"
  have "fbtw 1 ?m big" using p q by auto
  from Cons.IH [OF this ws] obtain r where r: "1 \<le> r" "r \<le> big" "?m \<le> Fin r"
    "fold (\<lambda>iw m. if m < sw_MeanRequestRate (snd iw) then sw_MeanRequestRate (snd iw) else m) ws ?m = Fin r"
    "\<forall>(x, w) \<in> set ws. sw_MeanRequestRate w \<le> Fin r" by blast
  have "m \<le> Fin r" "sw_MeanRequestRate w \<le> Fin r" using r(3) p q by (auto split: if_splits)
  then show ?case using r xw by (intro exI [of _ r]) auto
qed (auto elim!: fbtwE)

lemma own_loads_inv:
  assumes "node_inv nodes" "windows_ok windows"
  shows "node_inv (map (own_load windows (max_rate windows)) nodes)"
proof -
  obtain r where r: "max_rate windows = Fin r" "1 \<le> r" "\<forall>(x, w) \<in> set windows. sw_MeanRequestRate w \<le> Fin r"
    using max_rate_ge [OF _ assms(2), of 1] by (auto simp: max_rate_def one_f64_def)
  have key: "fst (own_load windows (max_rate windows) n) = fst n" for n
    by (simp add: own_load_def split: option.split)
  have load: "unit_btw (sw_MeanRequestRate w / max_rate windows)" if "(x, w) \<in> set windows" for x w
  proof -
    have "fbtw 0 (sw_MeanRequestRate w) big"
      using that assms(2) by (auto simp: windows_ok_def window_ok_def)
    then obtain q where q: "sw_MeanRequestRate w = Fin q" "0 \<le> q" by (rule fbtwE)
    then have "q \<le> r" using r(3) that by auto
    then show ?thesis using q r(1,2) unfolding unit_btw_def by (auto intro!: fbtw_fl)
  qed
  have "map fst (map (own_load windows (max_rate windows)) nodes) = map fst nodes" using key by simp
  then have "wf_gomap (map (own_load windows (max_rate windows)) nodes)"
    using assms(1) by (simp only: wf_gomap_def node_inv_def)
  then show ?thesis
    using assms(1) load by (fastforce simp: node_inv_def own_load_def dest: map_of_SomeD split: option.splits)
qed

definition edges_unit :: "(string \<times> string \<times> Edge) list \<Rightarrow> bool" where
  "edges_unit xs \<longleftrightarrow> (\<forall>(s, t, e) \<in> set xs. unit_btw (eg_Weight e))"

lemma flow_inv:
  assumes "node_inv (fst acc)" "unit_btw (eg_Weight (snd (snd ste)))"
  shows "node_inv (fst (flow ste acc))"
proof -
  obtain src tgt e where ste: "ste = (src, tgt, e)" by (cases ste) auto
  obtain nodes delta where acc: "acc = (nodes, delta)" by (cases acc) auto
  show ?thesis
  proof (cases "map_of nodes src = None \<or> map_of nodes tgt = None")
    case False
    then obtain sn tn where n: "map_of nodes src = Some sn" "map_of nodes tgt = Some tn" by auto
    have "unit_btw (nd_NormalisedLoad sn)" and tn: "nd_ServiceID tn = tgt" "unit_btw (nd_NormalisedLoad tn)" "tgt \<in> keys nodes"
      using n assms(1) acc node_inv_at by auto
    then have "unit_btw (nd_NormalisedLoad sn * eg_Weight e * fl 0.25)"
      using assms(2) ste by (intro unit_mult unit_const) auto
    then have "f_nonneg (nd_NormalisedLoad tn + nd_NormalisedLoad sn * eg_Weight e * fl 0.25)"
      using tn(2) by (intro f_nonneg_add unit_nonneg)
    then have "unit_btw (math_Min (nd_NormalisedLoad tn + nd_NormalisedLoad sn * eg_Weight e * fl 0.25) 1)"
      by (rule min_1_unit)
    then have "node_inv (AList.update tgt (tn\<lparr> nd_NormalisedLoad :=
        math_Min (nd_NormalisedLoad tn + nd_NormalisedLoad sn * eg_Weight e * fl 0.25) 1 \<rparr>) nodes)"
      using assms(1) acc tn by (intro node_inv_update) simp_all
    then show ?thesis by (simp add: ste acc flow_def n Let_def)
  qed (use assms(1) in \<open>auto simp: ste acc flow_def split: option.split\<close>)
qed

lemma propagate_inv:
  "node_inv nodes \<Longrightarrow> (\<And>i. edges_unit (eo i)) \<Longrightarrow> node_inv (propagate eo i k nodes)"
proof (induction k arbitrary: i nodes)
  case (Suc k)
  have "node_inv (fst (fold flow (eo i) (nodes, 0)))"
    by (rule fold_inv [where P = "\<lambda>a. node_inv (fst a)"])
      (use Suc.prems(1) Suc.prems(2) [of i] in \<open>auto simp: edges_unit_def intro!: flow_inv\<close>)
  then show ?case using Suc by (auto simp: Let_def split: prod.split)
qed simp

lemma flat_edges_mem:
  "(s, t, e) \<in> set (flat_edges edges) \<longleftrightarrow> (\<exists>targets. (s, targets) \<in> set edges \<and> (t, e) \<in> set targets)"
  by (force simp: flat_edges_def)

lemma flat_edges_map_of:
  assumes "edge_inv edges" "(s, t, e) \<in> set (flat_edges edges)"
  shows "\<exists>targets. map_of edges s = Some targets \<and> map_of targets t = Some e \<and>
      eg_Source e = s \<and> eg_Target e = t \<and> unit_btw (eg_Weight e)"
proof -
  obtain targets where st: "(s, targets) \<in> set edges" "(t, e) \<in> set targets"
    using assms(2) by (auto simp: flat_edges_mem)
  moreover from this have "targets_inv s targets" using assms(1) by (auto simp: edge_inv_def)
  ultimately show ?thesis
    using assms(1) by (intro exI [of _ targets]) (auto simp: edge_inv_def targets_inv_def wf_gomap_map_of_iff)
qed

lemma edges_unit_orders: "edge_inv edges \<Longrightarrow> edge_orders edges eo \<Longrightarrow> edges_unit (eo i)"
  by (auto simp: edges_unit_def edge_orders_def flat_edges_mem edge_inv_def targets_inv_def, blast)

lemma Update_graph_inv:
  assumes "graph_inv g" "windows_ok windows" "\<And>es. edge_orders es (ord es)"
  shows "graph_inv (Update_graph ord now windows g)"
proof -
  define g' where "g' = Update_structure now windows g"
  have g': "graph_inv g'" unfolding g'_def by (rule Update_structure_inv [OF assms(1,2)])
  have "node_inv (propagateLoad (ord (gr_edges g')) windows (gr_nodes g'))"
    unfolding propagateLoad_def
    using g' assms(2,3) by (intro propagate_inv own_loads_inv edges_unit_orders) (auto simp: graph_inv_def)
  then show ?thesis using g' by (simp add: Update_graph_def g'_def [symmetric] graph_inv_def Let_def)
qed

fun updates ::
  "(edge_map \<Rightarrow> edge_order) \<Rightarrow> (gotime \<times> (string, ServiceWindow) gomap) list \<Rightarrow> Graph \<Rightarrow> Graph" where
  "updates ord [] g = g"
| "updates ord ((now, windows) # us) g = updates ord us (Update_graph ord now windows g)"

lemma New_graph_inv: "graph_inv New_graph"
  by (simp add: graph_inv_def New_graph_def node_inv_def edge_inv_def)

lemma updates_inv:
  assumes "\<forall>u \<in> set us. windows_ok (snd u)" "\<And>es. edge_orders es (ord es)" "graph_inv g"
  shows "graph_inv (updates ord us g)"
  using assms(1,3)
proof (induction us arbitrary: g)
  case (Cons u us)
  obtain now windows where "u = (now, windows)" by (cases u)
  then show ?case using Cons Update_graph_inv [OF Cons.prems(2) _ assms(2)] by auto
qed simp


section \<open>The path\<close>

lemma one_plus_cases:
  assumes "f_nonneg y" shows "1 + y = PInf \<or> (\<exists>q. 1 + y = Fin q \<and> 1 \<le> q)"
proof (cases y)
  case (Fin r)
  then have "0 \<le> r" using assms by simp
  moreover have "1 \<le> rnd (1 + r)" using rnd_mono [of 1 "1 + r"] calculation rnd_pow2 [of 0] by simp
  ultimately show ?thesis using Fin fl_pos_cases [of "1 + r"] by (auto simp: one_f64_def)
qed (use assms in \<open>auto simp: one_f64_def\<close>)

lemma recip_unit: "f_nonneg y \<Longrightarrow> unit_btw (1 / (1 + y))"
  using one_plus_cases [of y] by (auto simp: unit_btw_def one_f64_def intro!: fbtw_fl)

lemma sigmoid_unit:
  assumes "fbtw lo x hi" shows "unit_btw (sigmoid ((x - fl 0.78) / fl 0.05))"
proof -
  obtain r where r: "x = Fin r" using assms by (rule fbtwE)
  have "rnd (1 / 32) \<le> rnd 0.05" by (rule rnd_mono) simp
  then have "1 / 32 \<le> rnd 0.05" using rnd_pow2 [of "- 5"] by (simp add: power_int_minus)
  then have pos: "\<exists>c > 0. fl 0.05 = Fin c" using fl_finite [of "0.05"] by (intro exI [of _ "rnd 0.05"]) auto
  have "x - fl 0.78 \<noteq> NaN" using fl_finite [of "0.78"] by (simp add: r)
  then have "- ((x - fl 0.78) / fl 0.05) \<noteq> NaN"
    using pos by (cases "x - fl 0.78") (auto simp flip: fl_minus)
  then show ?thesis unfolding sigmoid_def by (intro recip_unit f_nonneg_Exp)
qed

lemma cascade_step_unit:
  assumes "node_inv nodes" "unit_btw c" shows "unit_btw (cascade_step nodes x c)"
proof (cases "map_of nodes x")
  case (Some n)
  then have "fbtw 0 (nd_NormalisedLoad n) 1" using assms(1) node_inv_at by (auto simp: unit_btw_def)
  then have r: "unit_btw (sigmoid ((nd_NormalisedLoad n - fl 0.78) / fl 0.05))" by (rule sigmoid_unit)
  have one: "unit_btw (1 - y)" if "unit_btw y" for y
    using that unfolding unit_btw_def one_f64_def by (cases y) (auto intro!: fbtw_fl)
  have "unit_btw (1 - (1 - c) * (1 - sigmoid ((nd_NormalisedLoad n - fl 0.78) / fl 0.05)))"
    by (intro one unit_mult assms(2) r)
  then show ?thesis by (simp add: cascade_step_def Some Let_def)
qed (simp add: cascade_step_def assms(2))

definition prev_edges :: "edge_map \<Rightarrow> (string, string) gomap \<Rightarrow> bool" where
  "prev_edges edges prev \<longleftrightarrow> (\<forall>(t, s) \<in> set prev. \<exists>e. (s, t, e) \<in> set (flat_edges edges))"

lemma relax_prev:
  "prev_edges edges (snd dp) \<Longrightarrow> ste \<in> set (flat_edges edges) \<Longrightarrow> prev_edges edges (snd (relax ste dp))"
  by (cases ste; cases dp) (auto simp: relax_def prev_edges_def Let_def dest!: set_updateD)

lemma relaxed_prev:
  assumes "edge_orders edges eo" shows "prev_edges edges (snd (relaxed eo nodes))"
  unfolding relaxed_def
  by (rule fold_inv [where P = "\<lambda>dp. prev_edges edges (snd dp)"], simp add: prev_edges_def,
      rule fold_inv [where P = "\<lambda>dp. prev_edges edges (snd dp)"])
    (use assms in \<open>auto simp: edge_orders_def intro: relax_prev\<close>)

definition edge_between :: "edge_map \<Rightarrow> string \<Rightarrow> string \<Rightarrow> bool" where
  "edge_between edges s t \<longleftrightarrow> (\<exists>targets e. map_of edges s = Some targets \<and> map_of targets t = Some e)"

lemma prev_edge_between:
  assumes "edge_inv edges" "prev_edges edges prev" "get_prev prev t \<noteq> ''''"
  shows "edge_between edges (get_prev prev t) t"
proof -
  obtain s where s: "map_of prev t = Some s" "get_prev prev t = s"
    using assms(3) by (auto simp: get_prev_def split: option.splits)
  then obtain e where "(s, t, e) \<in> set (flat_edges edges)"
    using assms(2) by (auto simp: prev_edges_def dest!: map_of_SomeD)
  then show ?thesis
    using flat_edges_map_of [OF assms(1)] unfolding edge_between_def s(2) by blast
qed

lemma path_back_path:
  assumes "edge_inv edges" "prev_edges edges prev" "distinct path"
    "successively (edge_between edges) path"
    "path \<noteq> [] \<Longrightarrow> cur \<noteq> '''' \<Longrightarrow> edge_between edges cur (hd path)"
  shows "distinct (path_back prev cur path) \<and> successively (edge_between edges) (path_back prev cur path)"
  using assms
proof (induction prev cur path rule: path_back.induct)
  case (1 prev cur path)
  show ?case
  proof (cases "cur \<noteq> '''' \<and> cur \<notin> set path")
    case True
    have "successively (edge_between edges) (cur # path)"
      using 1(5,6) True by (cases path) auto
    moreover have "get_prev prev cur \<noteq> '''' \<Longrightarrow> edge_between edges (get_prev prev cur) cur"
      by (rule prev_edge_between [OF 1(2,3)])
    ultimately show ?thesis
      using 1(1) [OF True 1(2,3)] 1(4) True by (simp add: path_back.simps [of prev cur])
  qed (use 1(4,5) in \<open>auto simp: path_back.simps [of prev cur]\<close>)
qed

lemma path_back_end:
  "path \<noteq> [] \<Longrightarrow> \<exists>pre. path_back prev cur path = pre @ path"
proof (induction prev cur path rule: path_back.induct)
  case (1 prev cur path)
  then show ?case by (cases "cur \<noteq> '''' \<and> cur \<notin> set path") (auto simp: path_back.simps [of prev cur])
qed

text \<open>
  The critical path is a path of the graph.  For every reachable graph and every
  iteration order its nodes are distinct, consecutive nodes are joined by an edge of the
  graph, and its cascade risk, the probability that some node on it is saturated, is a
  finite number of the unit interval.
\<close>

theorem criticalPath_sound:
  assumes "\<forall>u \<in> set us. windows_ok (snd u)" "\<And>es. edge_orders es (ord es)"
  defines "g \<equiv> updates ord us New_graph"
  shows "let cp = criticalPath (ord (gr_edges g)) g in
    distinct (cr_Nodes cp) \<and> successively (edge_between (gr_edges g)) (cr_Nodes cp) \<and>
    fbtw 0 (cr_CascadeRisk cp) 1"
proof -
  have inv: "graph_inv g" unfolding g_def by (rule updates_inv [OF assms(1,2) New_graph_inv])
  obtain ds prev where r: "relaxed (ord (gr_edges g)) (gr_nodes g) = (ds, prev)" by fastforce
  then have "prev_edges (gr_edges g) prev" using relaxed_prev [OF assms(2)] by (metis snd_conv)
  then have path: "distinct (path_back prev b []) \<and> successively (edge_between (gr_edges g)) (path_back prev b [])" for b
    using inv by (intro path_back_path) (auto simp: graph_inv_def)
  have "unit_btw (fold (cascade_step (gr_nodes g)) xs 0)" for xs
    by (rule fold_inv [where P = unit_btw]) (use inv in \<open>auto simp: graph_inv_def intro: cascade_step_unit\<close>)
  moreover have "fbtw 0 0 1" by (simp add: zero_f64_def)
  ultimately show ?thesis
    using path by (auto simp: criticalPath_def r Let_def unit_btw_def split: prod.split)
qed

text \<open>
  The walk back along the predecessors always ends, whatever the predecessor map
  holds (the graph may have cycles): it visits no node twice, so it takes at most one
  step more than the map has entries.
\<close>

theorem path_back_terminates:
  "distinct (path_back prev cur []) \<and> set (path_back prev cur []) \<subseteq> insert cur (snd ` set prev) - {''''} \<and>
   length (path_back prev cur []) \<le> length prev + 1"
proof -
  define V where "V = insert cur (snd ` set prev) - {''''}"
  have step: "get_prev prev c \<in> insert '''' V" for c
    unfolding V_def by (auto simp: get_prev_def split: option.split dest: map_of_SomeD intro: rev_image_eqI)
  have "distinct (path_back p c path) \<and> set (path_back p c path) \<subseteq> V"
    if "\<forall>c. get_prev p c \<in> insert '''' V" "distinct path" "set path \<subseteq> V" "c \<in> insert '''' V" for p c path
    using that
  proof (induction p c path rule: path_back.induct)
    case (1 p c path)
    show ?case
    proof (cases "c \<noteq> '''' \<and> c \<notin> set path")
      case True
      then have "path_back p c path = path_back p (get_prev p c) (c # path)"
        by (simp add: path_back.simps [of p c])
      then show ?thesis using 1(1) [OF True 1(2)] True 1 by simp
    qed (use 1(3,4) in \<open>auto simp: path_back.simps [of p c]\<close>)
  qed
  from this [of prev "[]" cur] have d: "distinct (path_back prev cur [])" "set (path_back prev cur []) \<subseteq> V"
    using step unfolding V_def by auto
  then have "length (path_back prev cur []) \<le> card V"
    unfolding V_def by (metis card_mono distinct_card finite_Diff finite_imageI finite_insert finite_set)
  also have "\<dots> \<le> card (insert cur (snd ` set prev))" unfolding V_def by (intro card_mono) auto
  also have "\<dots> \<le> length prev + 1"
    using card_length [of "map snd prev"] by (simp add: card_insert_if image_image)
  finally show ?thesis using d unfolding V_def by simp
qed

section \<open>Two services that call each other\<close>

definition caller :: "string \<Rightarrow> string \<Rightarrow> ServiceWindow" where
  "caller s t = \<lparr> sw_ServiceID = s, sw_ComputedAt = 0, sw_LastObservedAt = 0, sw_SampleCount = 1,
     sw_MeanRequestRate = 1, sw_StdRequestRate = 0, sw_LastRequestRate = 1, sw_MeanLatencyMs = 0,
     sw_MaxLatencyMs = 0, sw_LastLatencyMs = 0, sw_LastP99LatencyMs = 0, sw_MeanErrorRate = 0,
     sw_LastErrorRate = 0, sw_MeanCPU = 0, sw_MeanMem = 0, sw_MeanQueueDepth = 0, sw_LastQueueDepth = 0,
     sw_MeanActiveConns = 0,
     sw_UpstreamEdges = [(t, \<lparr> ew_TargetServiceID = t, ew_MeanCallRate = 1, ew_MeanErrorRate = 0, ew_MeanLatencyMs = 0 \<rparr>)],
     sw_AppliedScale = 0, sw_ConfidenceScore = 1, sw_SignalQuality = ''good'', sw_Hazard = 0, sw_Reservoir = 0 \<rparr>"

definition two_callers :: "(string, ServiceWindow) gomap" where
  "two_callers = [(''a'', caller ''a'' ''b''), (''b'', caller ''b'' ''a'')]"

definition two_edge :: "string \<Rightarrow> string \<Rightarrow> Edge" where
  "two_edge s t = \<lparr> eg_Source = s, eg_Target = t, eg_CallRate = 1, eg_ErrorRate = 0, eg_LatencyMs = 0,
     eg_Weight = 1, eg_LastUpdated = 0 \<rparr>"

definition two_node :: "string \<Rightarrow> Node" where
  "two_node s = \<lparr> nd_ServiceID = s, nd_LastSeen = 0, nd_NormalisedLoad = 1 \<rparr>"

lemma fresh_node: "nd_LastSeen (snd n) = now \<Longrightarrow> \<not> stale_node now n"
  by (simp add: stale_node_def nodeStaleAge_def Minute_def Second_def)

lemma two_structure:
  "Update_structure 0 two_callers New_graph =
    \<lparr> gr_nodes = [(''a'', (two_node ''a'')\<lparr> nd_NormalisedLoad := 0 \<rparr>), (''b'', (two_node ''b'')\<lparr> nd_NormalisedLoad := 0 \<rparr>)],
      gr_edges = [(''a'', [(''b'', two_edge ''a'' ''b'')]), (''b'', [(''a'', two_edge ''b'' ''a'')])] \<rparr>"
  by (simp add: Update_structure_def New_graph_def two_callers_def caller_def upsert_node_def upsert_edges_def
      upsert_edge_def targets_of_def touch_target_def observed_edge_def decay_edges_def decay_edge_def
      fresh_node maxNodes_def two_edge_def two_node_def Let_def one_f64_def zero_f64_def
      del: set_filter set_map)

lemma frep_1_4: "frep (1 / 4)"
  using frep_pow2 [of "- 2"] by (simp add: power_int_minus)

lemma fl_quarters: "fl (1 / 4) = Fin (1 / 4)" "fl (5 / 4) = Fin (5 / 4)"
  using big_ge(3) numeral_le_big [of "num.Bit1 (num.Bit0 num.One)"]
  by (auto intro!: fl_frep simp: frep_1_4 simp del: big_ge)

lemma propagate_fixpoint:
  "fold flow (eo i) (nodes, 0) = (nodes', 0) \<Longrightarrow> propagate eo i 8 nodes = nodes'"
proof -
  assume *: "fold flow (eo i) (nodes, 0) = (nodes', 0)"
  have "rnd (1 / 2 ^ 20) \<le> rnd 0.000001" by (rule rnd_mono) simp
  then have "1 / 2 ^ 20 \<le> rnd 0.000001"
    using rnd_pow2 [of "- 20"] by (simp add: power_int_minus)
  then have "0 < rnd 0.000001" by (rule less_le_trans [rotated]) simp
  then have "0 < fl 0.000001" using fl_finite [of "0.000001"] by (simp add: zero_f64_def)
  then have "propagate eo i (Suc 7) nodes = nodes'"
    unfolding propagate.simps(2) * by simp
  moreover have "(8::nat) = Suc 7" by simp
  ultimately show ?thesis by (simp only:)
qed

lemma two_graph:
  "Update_graph (\<lambda>es i. flat_edges es) 0 two_callers New_graph =
    \<lparr> gr_nodes = [(''a'', two_node ''a''), (''b'', two_node ''b'')],
      gr_edges = [(''a'', [(''b'', two_edge ''a'' ''b'')]), (''b'', [(''a'', two_edge ''b'' ''a'')])] \<rparr>"
proof -
  have m: "max_rate two_callers = 1"
    by (simp add: max_rate_def two_callers_def caller_def one_f64_def)
  have "map (own_load two_callers 1) (gr_nodes (Update_structure 0 two_callers New_graph)) =
      [(''a'', two_node ''a''), (''b'', two_node ''b'')]"
    unfolding two_structure by (simp add: own_load_def two_callers_def caller_def two_node_def one_f64_def)
  moreover have "fold flow (flat_edges (gr_edges (Update_structure 0 two_callers New_graph)))
      ([(''a'', two_node ''a''), (''b'', two_node ''b'')], 0) = ([(''a'', two_node ''a''), (''b'', two_node ''b'')], 0)"
    unfolding two_structure
    by (simp add: flat_edges_def flow_def two_node_def two_edge_def Let_def one_f64_def zero_f64_def
        fl_quarters)
  ultimately show ?thesis
    unfolding Update_graph_def Let_def propagateLoad_def m
    by (subst propagate_fixpoint) (simp_all add: two_structure)
qed

abbreviation list_order :: "edge_map \<Rightarrow> edge_order" where
  "list_order es \<equiv> (\<lambda>i. flat_edges es)"

lemma two_updates: "updates list_order [(0, two_callers)] New_graph =
    \<lparr> gr_nodes = [(''a'', two_node ''a''), (''b'', two_node ''b'')],
      gr_edges = [(''a'', [(''b'', two_edge ''a'' ''b'')]), (''b'', [(''a'', two_edge ''b'' ''a'')])] \<rparr>"
  by (simp add: two_graph)

lemma two_windows_ok: "\<forall>u \<in> set [(0 :: gotime, two_callers)]. windows_ok (snd u)"
  by (simp add: windows_ok_def window_ok_def two_callers_def caller_def one_f64_def)

lemma list_order_ok: "edge_orders es (list_order es)"
  by (simp add: edge_orders_def)


theorem criticalPath_sound_witness:
  "let g = updates list_order [(0, two_callers)] New_graph; cp = criticalPath (list_order (gr_edges g)) g in
    distinct (cr_Nodes cp) \<and> fbtw 0 (cr_CascadeRisk cp) 1"
  using criticalPath_sound [OF two_windows_ok list_order_ok] by (simp add: Let_def)

text \<open>
  On a cycle the reported weight is not the weight of the reported path.  Two
  services that call each other with weight one give the critical path from one to the
  other, whose single edge has weight one, with the total weight four: the relaxation
  went round the cycle twice in its two rounds.
\<close>

theorem cycle_weight_inflated:
  "let g = updates list_order [(0, two_callers)] New_graph; cp = criticalPath (list_order (gr_edges g)) g in
    cr_Nodes cp = [''b'', ''a''] \<and> cr_TotalWeight cp = Fin 4 \<and>
    map (\<lambda>(s, t, e). eg_Weight e) (flat_edges (gr_edges g)) = [Fin 1, Fin 1]"
proof -
  have "relaxed (list_order [(''a'', [(''b'', two_edge ''a'' ''b'')]), (''b'', [(''a'', two_edge ''b'' ''a'')])])
      [(''a'', two_node ''a''), (''b'', two_node ''b'')] = ([(''a'', Fin 4), (''b'', Fin 3)], [(''b'', ''a''), (''a'', ''b'')])"
    by (simp add: relaxed_def relax_def get_dist_def flat_edges_def two_edge_def Let_def one_f64_def zero_f64_def)
  then show ?thesis
    unfolding two_updates
    by (simp add: criticalPath_def pick_best_def Let_def zero_f64_def path_back.simps get_prev_def)
      (simp add: flat_edges_def two_edge_def one_f64_def)
qed

end
