(* ===== verification/TopologyDiff.thy ===== *)
theory TopologyDiff
  imports Topology
begin

text \<open>
  \<open>internal/streaming/diff.go\<close>: the difference between two topology snapshots, sent to
  the clients instead of the whole graph.  The code builds one lookup map per snapshot for
  the nodes (by service) and one for the edges (by \<open>"source:target"\<close>) and compares them;
  the comparison is written once here, for a key and a compared number.

  The client is a specification: \<open>apply_diff\<close> says what it means to apply a difference
  to a view of the graph.
\<close>

record TopologyDiff =
  td_Schema :: u32
  td_AddedNodes :: "Node list"
  td_RemovedNodeIDs :: "string list"
  td_UpdatedNodes :: "Node list"
  td_AddedEdges :: "Edge list"
  td_RemovedEdgeKeys :: "string list"
  td_UpdatedEdges :: "Edge list"
  td_IsFull :: bool

definition topoDeltaThreshold :: f64 where "topoDeltaThreshold = fl 0.02"

definition abs64 :: "f64 \<Rightarrow> f64" where
  "abs64 x = (if x < 0 then - x else x)"

definition index_by :: "('a \<Rightarrow> string) \<Rightarrow> 'a list \<Rightarrow> (string, 'a) gomap" where
  "index_by key xs = fold (\<lambda>x. AList.update (key x) x) xs []"

definition edge_key :: "Edge \<Rightarrow> string" where
  "edge_key e = eg_Source e @ '':'' @ eg_Target e"

definition diff_added :: "(string, 'a) gomap \<Rightarrow> (string, 'a) gomap \<Rightarrow> 'a list" where
  "diff_added prev cur = map snd (filter (\<lambda>(k, c). map_of prev k = None) cur)"

definition moved :: "('a \<Rightarrow> f64) \<Rightarrow> 'a \<Rightarrow> 'a \<Rightarrow> bool" where
  "moved load p c \<longleftrightarrow> topoDeltaThreshold < abs64 (load c - load p)"

definition diff_updated :: "('a \<Rightarrow> f64) \<Rightarrow> (string, 'a) gomap \<Rightarrow> (string, 'a) gomap \<Rightarrow> 'a list" where
  "diff_updated load prev cur =
     map snd (filter (\<lambda>(k, c). case map_of prev k of None \<Rightarrow> False | Some p \<Rightarrow> moved load p c) cur)"

definition diff_removed :: "(string, 'a) gomap \<Rightarrow> (string, 'a) gomap \<Rightarrow> string list" where
  "diff_removed prev cur = map fst (filter (\<lambda>(k, p). map_of cur k = None) prev)"

definition SchemaVersion :: u32 where "SchemaVersion = 3"

definition fullDiff :: "GraphSnapshot \<Rightarrow> TopologyDiff" where
  "fullDiff snap =
     \<lparr> td_Schema = SchemaVersion, td_AddedNodes = gs_Nodes snap, td_RemovedNodeIDs = [], td_UpdatedNodes = [],
       td_AddedEdges = gs_Edges snap, td_RemovedEdgeKeys = [], td_UpdatedEdges = [], td_IsFull = True \<rparr>"

definition ComputeTopologyDiff :: "GraphSnapshot \<Rightarrow> GraphSnapshot \<Rightarrow> TopologyDiff" where
  "ComputeTopologyDiff prev cur =
    (if gs_Nodes prev = [] then fullDiff cur
     else
       let prevNodes = index_by nd_ServiceID (gs_Nodes prev);
           currNodes = index_by nd_ServiceID (gs_Nodes cur);
           prevEdges = index_by edge_key (gs_Edges prev);
           currEdges = index_by edge_key (gs_Edges cur);
           diff = \<lparr> td_Schema = SchemaVersion,
             td_AddedNodes = diff_added prevNodes currNodes,
             td_RemovedNodeIDs = diff_removed prevNodes currNodes,
             td_UpdatedNodes = diff_updated nd_NormalisedLoad prevNodes currNodes,
             td_AddedEdges = diff_added prevEdges currEdges,
             td_RemovedEdgeKeys = diff_removed prevEdges currEdges,
             td_UpdatedEdges = diff_updated eg_Weight prevEdges currEdges,
             td_IsFull = False \<rparr>;
           totalChanges = length (td_AddedNodes diff) + length (td_RemovedNodeIDs diff) +
             length (td_UpdatedNodes diff)
       in if length (gs_Nodes cur) div 2 < totalChanges then fullDiff cur else diff)"

section \<open>The client\<close>

type_synonym view = "(string, Node) gomap \<times> (string, Edge) gomap"

definition view_of :: "GraphSnapshot \<Rightarrow> view" where
  "view_of s = (index_by nd_ServiceID (gs_Nodes s), index_by edge_key (gs_Edges s))"

definition apply_keyed :: "('a \<Rightarrow> string) \<Rightarrow> 'a list \<Rightarrow> 'a list \<Rightarrow> string list \<Rightarrow> (string, 'a) gomap \<Rightarrow> (string, 'a) gomap" where
  "apply_keyed key added updated removed m =
     fold (\<lambda>x. AList.update (key x) x) (added @ updated) (filter (\<lambda>x. fst x \<notin> set removed) m)"

definition apply_diff :: "TopologyDiff \<Rightarrow> view \<Rightarrow> view" where
  "apply_diff d v =
    (if td_IsFull d then (index_by nd_ServiceID (td_AddedNodes d), index_by edge_key (td_AddedEdges d))
     else (apply_keyed nd_ServiceID (td_AddedNodes d) (td_UpdatedNodes d) (td_RemovedNodeIDs d) (fst v),
           apply_keyed edge_key (td_AddedEdges d) (td_UpdatedEdges d) (td_RemovedEdgeKeys d) (snd v)))"

definition close_views :: "('a \<Rightarrow> f64) \<Rightarrow> (string, 'a) gomap \<Rightarrow> (string, 'a) gomap \<Rightarrow> bool" where
  \<comment> \<open>the same keys, and every entry current or within the threshold of the current one\<close>
  "close_views load m m' \<longleftrightarrow> (\<forall>k. rel_option (\<lambda>x c. x = c \<or> \<not> moved load x c) (map_of m k) (map_of m' k))"

section \<open>One difference\<close>

lemma map_of_fold_update:
  assumes "\<And>x. x \<in> set xs \<Longrightarrow> key x = k \<Longrightarrow> x = c"
  shows "map_of (fold (\<lambda>x. AList.update (key x) x) xs m) k =
    (if \<exists>x \<in> set xs. key x = k then Some c else map_of m k)"
  using assms by (induction xs arbitrary: m) auto

lemma wf_fold_update [simp]: "wf_gomap m \<Longrightarrow> wf_gomap (fold (\<lambda>x. AList.update (key x) x) xs m)"
  by (induction xs arbitrary: m) auto

lemma wf_index_by [simp]: "wf_gomap (index_by key xs)"
  by (simp add: index_by_def)

lemma index_by_key: "(k, x) \<in> set (index_by key xs) \<Longrightarrow> key x = k \<and> x \<in> set xs"
proof -
  have "(k, x) \<in> set (fold (\<lambda>x. AList.update (key x) x) xs m) \<Longrightarrow> (key x = k \<and> x \<in> set xs) \<or> (k, x) \<in> set m" for m
    by (induction xs arbitrary: m) (auto dest: set_updateD)
  then show "(k, x) \<in> set (index_by key xs) \<Longrightarrow> key x = k \<and> x \<in> set xs"
    unfolding index_by_def by fastforce
qed

lemma index_by_at: "map_of (index_by key xs) k = Some x \<Longrightarrow> key x = k"
  by (auto dest!: map_of_SomeD dest: index_by_key)

lemma mem_map_snd_filter: "c \<in> set (map snd (filter P m)) \<longleftrightarrow> (\<exists>j. (j, c) \<in> set m \<and> P (j, c))"
  by force

lemma apply_keyed_lookup:
  fixes prev cur :: "(string, 'a) gomap"
  assumes "prev = index_by key ps" "cur = index_by key cs"
  shows "map_of (apply_keyed key (diff_added prev cur) (diff_updated load prev cur) (diff_removed prev cur) prev) k =
    (case map_of cur k of None \<Rightarrow> None
     | Some c \<Rightarrow> (case map_of prev k of None \<Rightarrow> Some c | Some p \<Rightarrow> if moved load p c then Some c else Some p))"
proof -
  have wf: "wf_gomap prev" "wf_gomap cur" using assms by auto
  have keyed: "(j, c) \<in> set cur \<longleftrightarrow> j = key c \<and> map_of cur (key c) = Some c" for j c
    using wf_gomap_map_of_iff [OF wf(2)] index_by_key [of j c key cs] assms(2) by metis
  let ?as = "diff_added prev cur @ diff_updated load prev cur"
  have added: "c \<in> set (diff_added prev cur) \<longleftrightarrow> map_of cur (key c) = Some c \<and> map_of prev (key c) = None" for c
    unfolding diff_added_def mem_map_snd_filter by (auto simp: keyed)
  have updated: "c \<in> set (diff_updated load prev cur) \<longleftrightarrow> map_of cur (key c) = Some c \<and>
      (\<exists>p. map_of prev (key c) = Some p \<and> moved load p c)" for c
    unfolding diff_updated_def mem_map_snd_filter by (auto simp: keyed split: option.splits)
  have mem: "c \<in> set ?as \<longleftrightarrow> map_of cur (key c) = Some c \<and>
      (case map_of prev (key c) of None \<Rightarrow> True | Some p \<Rightarrow> moved load p c)" for c
    by (cases "map_of prev (key c)") (auto simp: added updated)
  have rem: "k \<in> set (diff_removed prev cur) \<longleftrightarrow> map_of prev k \<noteq> None \<and> map_of cur k = None" for k
    using wf by (force simp: diff_removed_def map_of_eq_None_iff)
  have flt: "map_of (filter (\<lambda>x. fst x \<notin> set (diff_removed prev cur)) prev) k =
      (if map_of cur k = None then None else map_of prev k)"
    unfolding map_of_filter [OF wf(1)] by (auto simp: rem split: option.split)
  show ?thesis
  proof (cases "map_of cur k")
    case None
    then have "\<not> (\<exists>x \<in> set ?as. key x = k)" using mem by (metis option.distinct(1))
    then show ?thesis
      unfolding apply_keyed_def by (subst map_of_fold_update [where c = undefined]) (auto simp: flt None)
  next
    case (Some c)
    then have "key c = k" using assms(2) by (auto dest: index_by_at)
    have uniq: "x = c" if "x \<in> set ?as" "key x = k" for x
      using mem [of x] that Some by (metis option.inject)
    then have ex: "(\<exists>x \<in> set ?as. key x = k) \<longleftrightarrow> c \<in> set ?as" using \<open>key c = k\<close> by blast
    have in_as: "c \<in> set ?as \<longleftrightarrow> (case map_of prev k of None \<Rightarrow> True | Some p \<Rightarrow> moved load p c)"
      using mem [of c] Some \<open>key c = k\<close> by simp
    have "map_of (fold (\<lambda>x. AList.update (key x) x) ?as m) k = (if c \<in> set ?as then Some c else map_of m k)" for m
      using map_of_fold_update [of ?as key k c m] uniq ex by auto
    then show ?thesis
      unfolding apply_keyed_def in_as by (simp only: flt) (simp add: Some split: option.split)
  qed
qed

lemma close_refl: "close_views load m m"
  by (simp add: close_views_def option.rel_refl)

lemma apply_keyed_close:
  "close_views load (apply_keyed key (diff_added (index_by key ps) (index_by key cs))
     (diff_updated load (index_by key ps) (index_by key cs)) (diff_removed (index_by key ps) (index_by key cs))
     (index_by key ps)) (index_by key cs)"
  unfolding close_views_def by (auto simp: apply_keyed_lookup split: option.split)

text \<open>
  C24: one difference brings a client up to date within the threshold.  For any two
  snapshots, applying their difference to the view of the first gives a view with exactly
  the services and the edge keys of the second, in which every node and every edge is the
  current one or one whose load, respectively weight, has not moved by more than 0.02.
\<close>

theorem diff_roundtrip:
  "let v = apply_diff (ComputeTopologyDiff prev cur) (view_of prev) in
    close_views nd_NormalisedLoad (fst v) (fst (view_of cur)) \<and> close_views eg_Weight (snd v) (snd (view_of cur))"
  by (simp add: ComputeTopologyDiff_def apply_diff_def view_of_def fullDiff_def Let_def close_refl apply_keyed_close)

section \<open>Many differences\<close>

text \<open>
  The engine replaces the snapshot it compares with on every tick, whether or not the
  difference carried the change.
\<close>

fun client :: "GraphSnapshot \<Rightarrow> GraphSnapshot list \<Rightarrow> view \<Rightarrow> view" where
  "client prev [] v = v"
| "client prev (s # ss) v = client s ss (apply_diff (ComputeTopologyDiff prev s) v)"

definition no_path :: CriticalPath where
  "no_path = \<lparr> cr_Nodes = [], cr_TotalWeight = 0, cr_CascadeRisk = 0 \<rparr>"

definition no_graph :: GraphSnapshot where
  \<comment> \<open>the zero value of \<open>prevTopo\<close>\<close>
  "no_graph = \<lparr> gs_CapturedAt = 0, gs_Nodes = [], gs_Edges = [], gs_CriticalPath = no_path \<rparr>"

definition ramp_node :: "nat \<Rightarrow> Node" where
  "ramp_node k = \<lparr> nd_ServiceID = ''s'', nd_LastSeen = 0, nd_NormalisedLoad = Fin (real k / 64) \<rparr>"

definition ramp :: "nat \<Rightarrow> GraphSnapshot" where
  "ramp k = \<lparr> gs_CapturedAt = 0, gs_Nodes = [ramp_node k], gs_Edges = [], gs_CriticalPath = no_path \<rparr>"

lemma ramp_step: "\<not> moved nd_NormalisedLoad (ramp_node k) (ramp_node (Suc k))"
proof -
  have "rnd (1 / 64) = 1 / 64" using rnd_pow2 [of "- 6"] by (simp add: power_int_minus)
  moreover have "rnd (1 / 64) \<le> rnd 0.02" by (rule rnd_mono) simp
  moreover have "real (Suc k) / 64 - real k / 64 = 1 / 64" by (simp add: field_simps)
  then have "nd_NormalisedLoad (ramp_node (Suc k)) - nd_NormalisedLoad (ramp_node k) = fl (1 / 64)"
    unfolding ramp_node_def Node.select_convs minus_simps64 by (simp only:)
  ultimately show ?thesis
    by (simp add: moved_def topoDeltaThreshold_def fl_finite abs64_def zero_f64_def)
qed

lemma ramp_silent: "apply_diff (ComputeTopologyDiff (ramp k) (ramp (Suc k))) v = v"
  using ramp_step [of k]
  by (simp add: ComputeTopologyDiff_def ramp_def index_by_def ramp_node_def diff_added_def diff_removed_def
      diff_updated_def apply_diff_def apply_keyed_def Let_def)

lemma client_ramp: "client (ramp k) (map ramp [Suc k..<n]) v = v"
proof (induction "n - Suc k" arbitrary: k)
  case (Suc d)
  then have "[Suc k..<n] = Suc k # [Suc (Suc k)..<n]" by (simp add: upt_rec)
  then show ?case using Suc by (simp add: ramp_silent)
qed simp

text \<open>
  Many differences do not add up.  A service whose load rises from zero to one in
  steps of 1/64, each below the threshold, is never sent again after the first tick: a
  client that has applied every difference still shows the load zero.
\<close>

theorem diff_drift:
  "let seen = client no_graph (map ramp [0..<65]) ([], []) in
    seen = view_of (ramp 0) \<and> view_of (last (map ramp [0..<65])) = ([(''s'', ramp_node 64)], []) \<and>
    nd_NormalisedLoad (ramp_node 0) = Fin 0 \<and> nd_NormalisedLoad (ramp_node 64) = Fin 1"
proof -
  have "client no_graph (map ramp [0..<65]) ([], []) = client no_graph (ramp 0 # map ramp [Suc 0..<65]) ([], [])"
    by (simp add: upt_conv_Cons)
  also have "\<dots> = view_of (ramp 0)"
    by (simp only: client.simps(2) client_ramp)
      (simp add: ComputeTopologyDiff_def no_graph_def fullDiff_def apply_diff_def view_of_def)
  finally have *: "client no_graph (map ramp [0..<65]) ([], []) = view_of (ramp 0)" .
  have "last (map ramp [0..<65]) = ramp 64" by (subst last_map) (auto simp: last_upt)
  then show ?thesis
    unfolding Let_def * by (simp add: view_of_def ramp_def index_by_def) (simp add: ramp_node_def)
qed

definition plain_edge :: "string \<Rightarrow> string \<Rightarrow> Edge" where
  "plain_edge s t = \<lparr> eg_Source = s, eg_Target = t, eg_CallRate = 1, eg_ErrorRate = 0, eg_LatencyMs = 0,
     eg_Weight = 1, eg_LastUpdated = 0 \<rparr>"

lemma split_at_eq: "a @ z # s = b @ z # t \<Longrightarrow> z \<notin> set a \<Longrightarrow> z \<notin> set b \<Longrightarrow> a = b \<and> s = t"
proof (induction a arbitrary: b)
  case Nil then show ?case by (cases b) auto
next
  case (Cons x a) then show ?case by (cases b) auto
qed

lemma edge_key_inj:
  assumes "edge_key e = edge_key f" "CHR '':'' \<notin> set (eg_Source e)" "CHR '':'' \<notin> set (eg_Source f)"
  shows "eg_Source e = eg_Source f \<and> eg_Target e = eg_Target f"
  using assms by (intro split_at_eq) (simp_all add: edge_key_def)

lemma moved_self: "load x = Fin r \<Longrightarrow> \<not> moved load x x"
  using rnd_nonneg [of "0.02"] by (simp add: moved_def topoDeltaThreshold_def fl_finite abs64_def zero_f64_def)

text \<open>
  The edge key is not injective.  When service names hold a colon (as in
  \<open>host:port\<close>), two new edges can share one key, and the difference announces only one
  of them.
\<close>

theorem edge_key_collision:
  "let ns = [ramp_node 0];
       prev = no_graph\<lparr> gs_Nodes := ns \<rparr>;
       cur = prev\<lparr> gs_Edges := [plain_edge ''a:b'' ''c'', plain_edge ''a'' ''b:c''] \<rparr>
   in td_IsFull (ComputeTopologyDiff prev cur) = False \<and>
      td_AddedEdges (ComputeTopologyDiff prev cur) = [plain_edge ''a'' ''b:c'']"
proof -
  have "\<not> moved nd_NormalisedLoad (ramp_node 0) (ramp_node 0)" by (rule moved_self) (simp add: ramp_node_def)
  then show ?thesis
    by (simp add: ComputeTopologyDiff_def no_graph_def index_by_def edge_key_def plain_edge_def
        diff_added_def diff_removed_def diff_updated_def Let_def)
qed

end
