(* ===== verification/FloatEwma.thy ===== *)
theory FloatEwma
  imports Float64
begin

text \<open>
  Rounding of decimal constants, and exponential moving averages.  A constant such as
  \<open>0.2\<close> is not a binary64 number; \<open>rnd_value\<close> computes the number the compiler
  stores for it.  The code averages with pairs of such constants (\<open>0.2*x + 0.8*y\<close>)
  whose sum need not be one; \<open>mix_btw\<close> shows that the result stays between powers of
  two that bound both arguments, with every rounding, because the sum of the constants is
  within half a unit in the last place of one.
\<close>

lemma rnd_value:
  assumes "2 powi e \<le> x" "x < 2 powi (e + 1)" "- 1022 \<le> e" "\<bar>x * 2 powi (52 - e) - of_int m\<bar> < 1 / 2"
  shows "rnd x = of_int m * 2 powi (e - 52)"
proof -
  have x: "0 < x" using assms(1) by (smt (verit) powi_pos)
  have "of_int e \<le> log 2 x" "log 2 x < of_int (e + 1)"
    using assms(1,2) x by (simp_all add: le_log_iff log_less_iff flip: powr_powi)
  then have "\<lfloor>log 2 \<bar>x\<bar>\<rfloor> = e" using x by (intro floor_unique) auto
  then have u: "ulp_exp x = e - 52" using assms(3) by (simp add: ulp_exp_def)
  have d: "x / 2 powi (e - 52) = x * 2 powi (52 - e)"
    by (simp add: power_int_diff field_simps)
  have "rne (x * 2 powi (52 - e)) = m"
  proof -
    define y where "y = x * 2 powi (52 - e)"
    have y: "\<bar>y - of_int m\<bar> < 1 / 2" using assms(4) by (simp add: y_def)
    have "\<lfloor>y\<rfloor> = m \<or> \<lfloor>y\<rfloor> = m - 1" using y by linarith
    then have "rne y = m"
    proof
      assume f: "\<lfloor>y\<rfloor> = m"
      then have "y - of_int m < 1 / 2" using y by linarith
      then show ?thesis unfolding rne_def Let_def f by simp
    next
      assume f: "\<lfloor>y\<rfloor> = m - 1"
      have "1 / 2 < y - (of_int m - 1)" using y by linarith
      then have "1 / 2 < y - of_int (m - 1)" by simp
      then show ?thesis unfolding rne_def Let_def f by simp
    qed
    then show ?thesis by (simp only: y_def)
  qed
  then show ?thesis by (simp only: rnd_def u d)
qed

lemma rnd_scale:
  assumes "1 / 2 \<le> x" "x < 2" "- 1000 \<le> k" shows "rnd (x * 2 powi k) = rnd x * 2 powi k"
proof -
  have x: "0 < x" using assms(1) by simp
  have "log 2 (x * 2 powi k) = log 2 x + of_int k"
    using x by (simp add: log_mult flip: powr_powi)
  then have f: "\<lfloor>log 2 (x * 2 powi k)\<rfloor> = \<lfloor>log 2 x\<rfloor> + k" by simp
  have "- 1 \<le> log 2 x" using assms(1) x by (simp add: le_log_iff powr_minus)
  then have "- 1 \<le> \<lfloor>log 2 x\<rfloor>" by (simp add: le_floor_iff)
  then have "ulp_exp (x * 2 powi k) = ulp_exp x + k"
    using f x assms(3) by (simp add: ulp_exp_def abs_mult)
  then show ?thesis by (simp add: rnd_def power_int_add)
qed

lemma rnd_just_below_1: assumes "1 - 1 / 2 ^ 54 \<le> x" shows "1 \<le> rnd x"
proof -
  let ?y = "1 - 1 / 2 ^ 54 :: real"
  have "log 2 ?y < 0" "- 1 \<le> log 2 ?y" by (simp, subst le_log_iff, auto simp: powr_minus)
  then have "\<lfloor>log 2 ?y\<rfloor> = - 1" by (intro floor_unique) auto
  then have u: "ulp_exp ?y = - 53" by (simp add: ulp_exp_def)
  have "?y / 2 powi (- 53) = 2 ^ 53 - 1 / 2" by (simp add: power_int_minus)
  moreover have "rne (2 ^ 53 - 1 / 2) = 2 ^ 53"
  proof -
    have f: "\<lfloor>2 ^ 53 - 1 / 2 :: real\<rfloor> = 2 ^ 53 - 1" by (rule floor_unique) auto
    show ?thesis unfolding rne_def f Let_def by simp
  qed
  ultimately have "rnd ?y = of_int (2 ^ 53) * 2 powi (- 53)" by (simp only: rnd_def u)
  then have "rnd ?y = 1" by (simp add: power_int_minus)
  then show ?thesis using rnd_mono [OF assms] by simp
qed

section \<open>Pairs of weights\<close>

definition weight_ok :: "real \<Rightarrow> bool" where
  "weight_ok a \<longleftrightarrow> 0 \<le> a \<and> a \<le> 1 \<and> (\<exists>m k. a = of_int m / 2 ^ k \<and> \<bar>m\<bar> \<le> 2 ^ 53 \<and> k \<le> 100)"

definition weight_pair :: "real \<Rightarrow> real \<Rightarrow> bool" where
  "weight_pair a b \<longleftrightarrow> weight_ok a \<and> weight_ok b \<and> 1 - 1 / 2 ^ 54 \<le> a + b \<and> a + b \<le> 1 + 1 / 2 ^ 53"

lemma weight_frep: assumes "weight_ok a" "- 900 \<le> k" shows "frep (a * 2 powi k)"
proof -
  obtain m j where a: "a = of_int m / 2 ^ j" "\<bar>m\<bar> \<le> 2 ^ 53" "j \<le> 100"
    using assms(1) by (auto simp: weight_ok_def)
  have "a * 2 powi k = of_int m * 2 powi (k - int j)" by (simp add: a(1) power_int_diff)
  then show ?thesis using a(2,3) assms(2) by (intro frepI [where m = m and e = "k - int j"]) auto
qed

lemma le_900_big: "h \<le> 900 \<Longrightarrow> (2::real) powi h * 3 \<le> big"
proof -
  assume "h \<le> 900"
  then have "(2::real) powi h \<le> 2 powi 900" by (rule powi_mono2)
  moreover have "(2::real) powi 900 * 3 \<le> 2 ^ 1000" by simp
  ultimately show ?thesis unfolding big_def by linarith
qed

lemma ewma_upper:
  assumes "weight_pair a b" "fbtw 0 x (2 powi h)" "fbtw 0 y (2 powi h)" "- 900 \<le> h" "h \<le> 900"
  shows "\<exists>r s q. Fin a * x = Fin r \<and> Fin b * y = Fin s \<and> Fin a * x + Fin b * y = Fin q \<and>
    0 \<le> r \<and> 0 \<le> s \<and> q = rnd (r + s) \<and> 0 \<le> q \<and> q \<le> 2 powi h"
proof -
  let ?H = "2 powi h :: real"
  have H: "0 < ?H" "?H * 3 \<le> big" using le_900_big [OF assms(5)] by auto
  obtain u v where x: "x = Fin u" "0 \<le> u" "u \<le> ?H" and y: "y = Fin v" "0 \<le> v" "v \<le> ?H"
    using assms(2,3) by (auto elim!: fbtwE)
  have w: "0 \<le> a" "a \<le> 1" "0 \<le> b" "b \<le> 1" "weight_ok a" "weight_ok b" "a + b \<le> 1 + 1 / 2 ^ 53"
    using assms(1) by (auto simp: weight_pair_def weight_ok_def)
  have le: "a * u \<le> a * ?H" "b * v \<le> b * ?H" using w x y by (auto intro: mult_left_mono)
  have leH: "a * u \<le> ?H" "b * v \<le> ?H"
    using w x y by (metis mult_mono mult_1 less_eq_real_def powi_pos order_trans)+
  have fr: "frep (a * ?H)" "frep (b * ?H)" using w assms(4) by (auto intro: weight_frep)
  have r: "rnd (a * u) \<le> a * ?H" "rnd (b * v) \<le> b * ?H" using le fr by (auto intro: rnd_le)
  have n: "0 \<le> rnd (a * u)" "0 \<le> rnd (b * v)" using w x y by (auto intro!: rnd_nonneg)
  have e: "Fin a * x = Fin (rnd (a * u))" "Fin b * y = Fin (rnd (b * v))"
    using leH H w x y by (auto intro!: fl_Fin simp: abs_mult)
  have "rnd (a * u) + rnd (b * v) \<le> (a + b) * ?H" using r by (simp add: distrib_right)
  also have "\<dots> \<le> (1 + 1 / 2 ^ 53) * ?H" using w(7) H(1) by (intro mult_right_mono) auto
  finally have s: "rnd (a * u) + rnd (b * v) \<le> (1 + 1 / 2 ^ 53) * ?H" .
  then have "rnd (rnd (a * u) + rnd (b * v)) \<le> rnd ((1 + 1 / 2 ^ 53) * ?H)" by (rule rnd_mono)
  also have "\<dots> = rnd (1 + 1 / 2 ^ 53) * ?H" using assms(4) by (intro rnd_scale) auto
  also have "\<dots> \<le> ?H" using rnd_just_above_1 [of "1 + 1 / 2 ^ 53"] H(1) by simp
  finally have q: "rnd (rnd (a * u) + rnd (b * v)) \<le> ?H" .
  have "(1 + 1 / 2 ^ 53) * ?H \<le> 2 * ?H" using H(1) by (intro mult_right_mono) auto
  then have "\<bar>rnd (a * u) + rnd (b * v)\<bar> \<le> big" using s n H by linarith
  then have "Fin a * x + Fin b * y = Fin (rnd (rnd (a * u) + rnd (b * v)))" unfolding e by (simp add: fl_Fin)
  then show ?thesis using e n q by (auto intro: rnd_nonneg)
qed

lemma ewma_lower:
  assumes "weight_pair a b" "fbtw (2 powi l) x (2 powi h)" "fbtw (2 powi l) y (2 powi h)" "- 900 \<le> l" "h \<le> 900"
  shows "fbtw (2 powi l) (Fin a * x + Fin b * y) (2 powi h)"
proof -
  let ?L = "2 powi l :: real"
  have "?L \<le> 2 powi h" using assms(2) by (auto elim!: fbtwE)
  then have lh: "l \<le> h"
    using power_int_strict_increasing [of h l "2 :: real"] by (cases "l \<le> h") auto
  have x0: "fbtw 0 x (2 powi h)" "fbtw 0 y (2 powi h)"
    using assms(2,3) by (auto elim!: fbtw_weaken)
  obtain r s q where q: "Fin a * x = Fin r" "Fin b * y = Fin s" "Fin a * x + Fin b * y = Fin q"
    "q = rnd (r + s)" "q \<le> 2 powi h"
    using ewma_upper [OF assms(1) x0] assms(4,5) lh by auto
  have w: "0 \<le> a" "0 \<le> b" "weight_ok a" "weight_ok b" "1 - 1 / 2 ^ 54 \<le> a + b"
    using assms(1) by (auto simp: weight_pair_def weight_ok_def)
  obtain u v where x: "x = Fin u" "?L \<le> u" and y: "y = Fin v" "?L \<le> v"
    using assms(2,3) by (auto elim!: fbtwE)
  have "r = rnd (a * u)" "s = rnd (b * v)" using q(1,2) x y by (auto simp: fl_def split: if_splits)
  moreover have "a * ?L \<le> rnd (a * u)" "b * ?L \<le> rnd (b * v)"
    using w x y assms(4) by (auto intro!: rnd_ge weight_frep mult_left_mono)
  ultimately have "(a + b) * ?L \<le> r + s" by (simp add: distrib_right)
  moreover have "(1 - 1 / 2 ^ 54) * ?L \<le> (a + b) * ?L" using w(5) by (intro mult_right_mono) auto
  ultimately have "rnd ((1 - 1 / 2 ^ 54) * ?L) \<le> q" unfolding q(4) by (intro rnd_mono) linarith
  moreover have "rnd ((1 - 1 / 2 ^ 54) * ?L) = rnd (1 - 1 / 2 ^ 54) * ?L"
    using assms(4) by (intro rnd_scale) auto
  moreover have "1 * ?L \<le> rnd (1 - 1 / 2 ^ 54) * ?L"
    using rnd_just_below_1 [of "1 - 1 / 2 ^ 54"] by (intro mult_right_mono) auto
  ultimately have "?L \<le> q" by linarith
  then show ?thesis using q(3,5) by simp
qed

lemma mix_btw:
  assumes "weight_pair a b" "fbtw 0 x (2 powi h)" "fbtw 0 y (2 powi h)" "- 900 \<le> h" "h \<le> 900"
  shows "fbtw 0 (Fin a * x + Fin b * y) (2 powi h)"
  using ewma_upper [OF assms] by auto

section \<open>The constants of the code\<close>

definition weights :: "f64 \<Rightarrow> f64 \<Rightarrow> bool" where
  "weights A B \<longleftrightarrow> (\<exists>a b. A = Fin a \<and> B = Fin b \<and> weight_pair a b)"

lemma weights_sym: "weights A B \<Longrightarrow> weights B A"
  by (auto simp: weights_def weight_pair_def add.commute)

lemma fl_value:
  assumes "2 powi e \<le> x" "x < 2 powi (e + 1)" "- 1022 \<le> e" "\<bar>x * 2 powi (52 - e) - of_int m\<bar> < 1 / 2"
    "x \<le> 1" "e = - int k"
  shows "fl x = Fin (of_int m / 2 ^ (k + 52))"
proof -
  have "0 < x" using assms(1) by (smt (verit) powi_pos)
  then have "fl x = Fin (rnd x)" using assms(5) big_ge(3) by (intro fl_Fin) linarith
  moreover have "of_int m * 2 powi (e - 52) = (of_int m / 2 ^ (k + 52) :: real)"
  proof -
    have "e - 52 = - int (k + 52)" using assms(6) by simp
    then show ?thesis by (simp only: power_int_minus power_int_of_nat divide_inverse)
  qed
  ultimately show ?thesis using rnd_value [OF assms(1-4)] by simp
qed

lemma fl_decimals:
  "fl 0.2 = Fin (7205759403792794 / 2 ^ 55)" "fl 0.8 = Fin (7205759403792794 / 2 ^ 53)"
  "fl 0.1 = Fin (7205759403792794 / 2 ^ 56)" "fl 0.9 = Fin (8106479329266893 / 2 ^ 53)"
  "fl 0.7 = Fin (6305039478318694 / 2 ^ 53)" "fl 0.3 = Fin (5404319552844595 / 2 ^ 54)"
  by (subst fl_value [where e = "- 3" and m = 7205759403792794 and k = 3], simp_all add: power_int_minus)
     (subst fl_value [where e = "- 1" and m = 7205759403792794 and k = 1], simp_all add: power_int_minus,
      subst fl_value [where e = "- 4" and m = 7205759403792794 and k = 4], simp_all add: power_int_minus,
      subst fl_value [where e = "- 1" and m = 8106479329266893 and k = 1], simp_all add: power_int_minus,
      subst fl_value [where e = "- 1" and m = 6305039478318694 and k = 1], simp_all add: power_int_minus,
      subst fl_value [where e = "- 2" and m = 5404319552844595 and k = 2], simp_all add: power_int_minus)

lemma weight_okI:
  "a = of_int m / 2 ^ k \<Longrightarrow> 0 \<le> m \<Longrightarrow> m \<le> 2 ^ 53 \<Longrightarrow> k \<le> 100 \<Longrightarrow> a \<le> 1 \<Longrightarrow> weight_ok a"
  unfolding weight_ok_def by (intro conjI exI [of _ m] exI [of _ k]) auto

lemma weights_of:
  assumes "A = Fin (of_int m / 2 ^ j)" "B = Fin (of_int n / 2 ^ k)" "0 \<le> m" "m \<le> 2 ^ 53" "0 \<le> n" "n \<le> 2 ^ 53"
    "j \<le> 100" "k \<le> 100" "(of_int m / 2 ^ j :: real) \<le> 1" "(of_int n / 2 ^ k :: real) \<le> 1"
    "1 - 1 / 2 ^ 54 \<le> (of_int m / 2 ^ j + of_int n / 2 ^ k :: real)"
    "(of_int m / 2 ^ j + of_int n / 2 ^ k :: real) \<le> 1 + 1 / 2 ^ 53"
  shows "weights A B"
  unfolding weights_def weight_pair_def
  by (intro exI conjI, rule assms(1), rule assms(2)) (use assms(3-) in \<open>auto intro: weight_okI\<close>)

lemma weights_const [intro]:
  "weights (fl 0.2) (fl 0.8)" "weights (fl 0.8) (fl 0.2)" "weights (fl 0.1) (fl 0.9)" "weights (fl 0.9) (fl 0.1)"
  "weights (fl 0.7) (fl 0.3)" "weights (fl 0.3) (fl 0.7)"
proof -
  show 1: "weights (fl 0.2) (fl 0.8)"
    by (rule weights_of [where m = 7205759403792794 and j = 55 and n = 7205759403792794 and k = 53])
      (simp_all add: fl_decimals [simplified])
  show 2: "weights (fl 0.1) (fl 0.9)"
    by (rule weights_of [where m = 7205759403792794 and j = 56 and n = 8106479329266893 and k = 53])
      (simp_all add: fl_decimals [simplified])
  show 3: "weights (fl 0.7) (fl 0.3)"
    by (rule weights_of [where m = 6305039478318694 and j = 53 and n = 5404319552844595 and k = 54])
      (simp_all add: fl_decimals [simplified])
  show "weights (fl 0.8) (fl 0.2)" "weights (fl 0.9) (fl 0.1)" "weights (fl 0.3) (fl 0.7)"
    using 1 2 3 by (auto intro: weights_sym)
qed

lemma weighted_btw:
  assumes "weights A B" "fbtw 0 x (2 powi h)" "fbtw 0 y (2 powi h)" "- 900 \<le> h" "h \<le> 900"
  shows "fbtw 0 (A * x + B * y) (2 powi h)"
  using assms by (auto simp: weights_def intro: mix_btw)

lemma weighted_between:
  assumes "weights A B" "fbtw (2 powi l) x (2 powi h)" "fbtw (2 powi l) y (2 powi h)" "- 900 \<le> l" "h \<le> 900"
  shows "fbtw (2 powi l) (A * x + B * y) (2 powi h)"
  using assms by (auto simp: weights_def intro: ewma_lower)

lemma weighted_unit: "weights A B \<Longrightarrow> fbtw 0 x 1 \<Longrightarrow> fbtw 0 y 1 \<Longrightarrow> fbtw 0 (A * x + B * y) 1"
  using weighted_btw [of A B x 0 y] by simp

lemma weights_complement:
  assumes "weight_ok a" "a \<le> 1 - 1 / 2 ^ 40" shows "weights (Fin a) (1 - Fin a)"
proof -
  define x where "x = 1 - a"
  have a: "0 \<le> a" "a \<le> 1" using assms(1) by (auto simp: weight_ok_def)
  have x: "1 / 2 ^ 40 \<le> x" "x \<le> 1" using assms(2) a by (auto simp: x_def)
  have x0: "x \<noteq> 0" "\<bar>x\<bar> = x" using x(1) by (smt (verit) divide_pos_pos zero_less_power)+
  let ?u = "ulp_exp x"
  have "(2::real) powi - 40 < 2 powi (?u + 53)"
    using lt_ulp_exp [OF x0(1)] x(1) x0(2) by (simp add: power_int_minus)
  then have lo: "- 93 < ?u" using powi_mono2 [of "?u + 53" "- 40"] by (cases "?u + 53 \<le> - 40") auto
  have hi: "?u \<le> 0"
  proof (rule ccontr)
    assume "\<not> ?u \<le> 0"
    then have "2 powi (?u + 52) \<le> x" using ulp_exp_lb [OF x0(1)] x0(2) by simp
    moreover have "(2::real) powi 1 \<le> 2 powi (?u + 52)" using \<open>\<not> ?u \<le> 0\<close> by (intro powi_mono2) simp
    ultimately show False using x(2) by simp
  qed
  define b where "b = rnd x"
  have b: "0 \<le> b" "b \<le> 1" "\<bar>b - x\<bar> \<le> 1 / 2 ^ 54"
    using x x0 rnd_error_unit [of x] by (auto simp: b_def intro!: rnd_le rnd_nonneg)
  obtain m where m: "b = of_int m * 2 powi ?u" "m = rne (x / 2 powi ?u)" by (simp add: b_def rnd_def)
  have "\<bar>m\<bar> \<le> 2 ^ 53"
  proof -
    have "\<bar>x / 2 powi ?u\<bar> \<le> of_int (2 ^ 53)"
      using lt_ulp_exp [OF x0(1)] by (simp add: abs_divide power_int_add divide_le_eq)
    then have "x / 2 powi ?u \<le> of_int (2 ^ 53)" "of_int (- (2 ^ 53)) \<le> x / 2 powi ?u" unfolding abs_le_iff by simp_all
    then show ?thesis using rne_le [of "x / 2 powi ?u" "2 ^ 53"] rne_ge [of "- (2 ^ 53)" "x / 2 powi ?u"]
      by (auto simp: abs_le_iff m(2))
  qed
  moreover have "?u = - int (nat (- ?u))" using hi by simp
  then have "b = of_int m / 2 ^ nat (- ?u)" unfolding m(1)
    by (metis divide_inverse power_int_minus power_int_of_nat)
  ultimately have "weight_ok b" using b lo unfolding weight_ok_def by (intro conjI exI [of _ m] exI [of _ "nat (- ?u)"]) auto
  moreover have "(1 :: real) / 2 ^ 54 \<le> 1 / 2 ^ 53" by simp
  then have "1 - 1 / 2 ^ 54 \<le> a + b \<and> a + b \<le> 1 + 1 / 2 ^ 53" using b(3) unfolding x_def by linarith
  moreover have "1 - Fin a = Fin b" using a by (simp add: one_f64_def fl_finite b_def x_def)
  ultimately show ?thesis using assms(1) unfolding weights_def weight_pair_def by auto
qed

end
