(* ===== verification/QueuePhysics.thy ===== *)
theory QueuePhysics
  imports Topology FloatEwma
begin

text \<open>
  \<open>internal/modelling\<close>: the model of one service, from \<open>types.go\<close>, \<open>math.go\<close>,
  \<open>queueing.go\<close> and \<open>stochastic.go\<close>.  \<open>RunQueueModel\<close> keeps a physical state per
  service (backlog, arrival momentum, estimated capacity) in 32 shards.  It reads the clock
  five times; the readings are the fields of \<open>clock\<close>.
\<close>

record QueueModel =
  qm_ServiceID :: string
  qm_ComputedAt :: gotime
  qm_ArrivalRate :: f64
  qm_ServiceRate :: f64
  qm_Concurrency :: f64
  qm_Utilisation :: f64
  qm_MeanQueueLen :: f64
  qm_MeanWaitMs :: f64
  qm_MeanSojournMs :: f64
  qm_BurstFactor :: f64
  qm_AdjustedWaitMs :: f64
  qm_UtilisationTrend :: f64
  qm_SaturationHorizon :: duration
  qm_Confidence :: f64
  qm_UpstreamPressure :: f64
  qm_NetworkSaturationHorizon :: duration
  qm_Hazard :: f64
  qm_Reservoir :: f64

record StochasticModel =
  sm_ServiceID :: string
  sm_ComputedAt :: gotime
  sm_ArrivalCoV :: f64
  sm_BurstAmplification :: f64
  sm_RiskPropagation :: f64
  sm_Confidence :: f64

record SignalState =
  sg_ServiceID :: string
  sg_ComputedAt :: gotime
  sg_FastEWMA :: f64
  sg_SlowEWMA :: f64
  sg_EWMAVariance :: f64
  sg_SpikeDetected :: bool
  sg_ChangePointDetected :: bool
  sg_CUSUMPos :: f64
  sg_CUSUMNeg :: f64

record StabilityAssessment =
  sa_ServiceID :: string
  sa_ComputedAt :: gotime
  sa_StabilityMargin :: f64
  sa_CollapseRisk :: f64
  sa_OscillationRisk :: f64
  sa_FeedbackGain :: f64
  sa_IsUnstable :: bool
  sa_PredictedCollapseMs :: f64
  sa_CascadeAmplificationScore :: f64
  sa_CollapseZone :: string
  sa_TrendAdjustedMargin :: f64
  sa_StabilityDerivative :: f64

record ServiceModelBundle =
  mb_Queue :: QueueModel
  mb_Stochastic :: StochasticModel
  mb_Signal :: SignalState
  mb_Stability :: StabilityAssessment

section \<open>\<open>math.go\<close>\<close>

definition clamp01 :: "f64 \<Rightarrow> f64" where
  "clamp01 v = (if v < 0 then 0 else if 1 < v then 1 else v)"

definition pos_part :: "f64 \<Rightarrow> f64" where
  "pos_part v = (if v < 0 then 0 else v)"

definition safeDiv :: "f64 \<Rightarrow> f64 \<Rightarrow> f64 \<Rightarrow> f64" where
  "safeDiv a b fallback =
    (if b \<le> 0 then fallback else let r = a / b in if math_IsNaN r \<or> math_IsInf r then fallback else r)"

definition medianBiasedRate :: "f64 \<Rightarrow> f64 \<Rightarrow> f64 \<Rightarrow> f64" where
  "medianBiasedRate lst mean std =
    (if std \<le> 0 then fl 0.6 * lst + fl 0.4 * mean
     else let deviation = lst - mean; threshold = fl 1.5 * std
       in if threshold < \<bar>deviation\<bar>
          then fl 0.5 * (mean + math_Copysign threshold deviation) + fl 0.5 * mean
          else fl 0.6 * lst + fl 0.4 * mean)"

section \<open>The physical state and the estimators\<close>

record PhysicalQueueState =
  pq_accumulatedBacklog :: f64
  pq_arrivalMomentum :: f64
  pq_localArrivalEwma :: f64
  pq_lastTickTime :: gotime
  pq_historicalCapacity :: f64
  pq_confidenceEwma :: f64

definition applied_scale :: "ServiceWindow \<Rightarrow> f64" where
  "applied_scale w = (if 0 < sw_AppliedScale w then sw_AppliedScale w else 1)"

definition legacy_Estimate :: "ServiceWindow \<Rightarrow> PhysicalQueueState \<Rightarrow> f64 \<Rightarrow> f64 \<times> f64" where
  "legacy_Estimate w st c =
    (let effectiveLatency = (if sw_MeanLatencyMs w \<le> 0 then fl 50 else sw_MeanLatencyMs w);
         effectiveLatency = (if fl 10000 < pq_accumulatedBacklog st \<and> fl 500 < effectiveLatency
                             then fl 500 else effectiveLatency);
         hazardFactor = math_Exp (- sw_Hazard w * fl 0.1);
         latencyServicePerServer = (fl 1000 / math_Max effectiveLatency (fl 0.001)) * hazardFactor;
         hazardWeight = math_Min (sw_Hazard w) 1;
         hazardWeight = (if fl 0.5 < hazardWeight then fl 0.5 + (hazardWeight - fl 0.5) * fl 0.2 else hazardWeight);
         serviceRatePerServer = hazardWeight * latencyServicePerServer + (1 - hazardWeight) * fl 700
     in (serviceRatePerServer * c * applied_scale w, fl 0.5))"

definition hybrid_capacity :: "ServiceWindow \<Rightarrow> PhysicalQueueState \<Rightarrow> f64 \<Rightarrow> f64" where
  "hybrid_capacity w st c =
    (let latencyMu = (fl 1000 / math_Max (sw_MeanLatencyMs w) 1) * c;
         saturationRatio = math_Min (pq_accumulatedBacklog st / math_Max c 1) 1;
         estMu = (1 - saturationRatio) * latencyMu + saturationRatio * sw_MeanRequestRate w
     in if feq (pq_historicalCapacity st) 0 then estMu
        else fl 0.2 * estMu + fl 0.8 * pq_historicalCapacity st)"

definition hybrid_confidence :: "ServiceWindow \<Rightarrow> PhysicalQueueState \<Rightarrow> f64" where
  "hybrid_confidence w st =
    (let old = (if feq (pq_confidenceEwma st) 0 then 1 else pq_confidenceEwma st)
     in fl 0.1 * (1 - math_Min (sw_Hazard w) (fl 0.9)) + fl 0.9 * old)"

definition hybrid_Estimate ::
  "ServiceWindow \<Rightarrow> PhysicalQueueState \<Rightarrow> f64 \<Rightarrow> f64 \<times> f64 \<times> PhysicalQueueState" where
  "hybrid_Estimate w st c =
    (let st = st\<lparr> pq_historicalCapacity := hybrid_capacity w st c, pq_confidenceEwma := hybrid_confidence w st \<rparr>
     in (pq_historicalCapacity st * applied_scale w, pq_confidenceEwma st, st))"

datatype ServiceStrategy = Legacy | Hybrid

definition Estimate ::
  "ServiceStrategy \<Rightarrow> ServiceWindow \<Rightarrow> PhysicalQueueState \<Rightarrow> f64 \<Rightarrow> f64 \<times> f64 \<times> PhysicalQueueState" where
  "Estimate strategy w st c =
    (case strategy of Legacy \<Rightarrow> (case legacy_Estimate w st c of (mu, conf) \<Rightarrow> (mu, conf, st))
     | Hybrid \<Rightarrow> hybrid_Estimate w st c)"

section \<open>Erlang C and the helpers\<close>

definition logFactorial :: "int \<Rightarrow> f64" where
  "logFactorial n = (if n \<le> 1 then 0 else fold (\<lambda>i s. s + math_Log (f64_of_int i)) [2..n] 0)"

definition erlang_terms :: "int \<Rightarrow> f64 \<Rightarrow> f64 list" where
  "erlang_terms ci logA = map (\<lambda>k. f64_of_int k * logA - logFactorial k) [0..ci - 1]"

definition max_term :: "f64 list \<Rightarrow> f64" where
  "max_term ts = fold (\<lambda>t m. if m < t then t else m) ts (hd ts)"

definition log_sum_exp :: "f64 list \<Rightarrow> f64" where
  "log_sum_exp ts = max_term ts + math_Log (fold (\<lambda>t s. s + math_Exp (t - max_term ts)) ts 0)"

definition ComputeErlangC :: "f64 \<Rightarrow> f64 \<Rightarrow> f64" where
  "ComputeErlangC c a =
    (let ci = max 1 (int_of_f64 (math_Round c));
         rho = a / c
     in if 1 \<le> rho then 1
        else let logA = math_Log a;
                 logSumK = log_sum_exp (erlang_terms ci logA);
                 logLastTerm = f64_of_int ci * logA - logFactorial ci - math_Log (1 - rho);
                 d = logLastTerm - logSumK
             in if fl 700 < d then 1 else let ratio = math_Exp d in ratio / (1 + ratio))"

definition estimateServiceCoV :: "ServiceWindow \<Rightarrow> f64" where
  "estimateServiceCoV w =
    (if sw_LastP99LatencyMs w \<le> 0 \<or> sw_MeanLatencyMs w \<le> 0 then 1
     else math_Min (math_Sqrt (math_Max (sw_LastP99LatencyMs w / sw_MeanLatencyMs w / fl 4.6) (fl 0.1))) (fl 5))"

definition confidenceFromSamples :: "int \<Rightarrow> f64" where
  "confidenceFromSamples n = (if n \<le> 0 then 0 else 1 - math_Exp (- f64_of_int n / fl 15))"

definition stalePenalty :: "gotime \<Rightarrow> ServiceWindow \<Rightarrow> f64 \<Rightarrow> f64" where
  "stalePenalty now w tickInterval =
    (if sw_LastObservedAt w = 0 then 1
     else let ageSec = duration_Seconds (time_sub now (sw_LastObservedAt w))
       in if ageSec \<le> 0 then 1 else math_Exp (- ageSec / (fl 3 * tickInterval)))"

definition utilTrendRegression :: "ServiceWindow \<Rightarrow> f64 \<Rightarrow> f64" where
  "utilTrendRegression w serviceRate =
    (if sw_SampleCount w < 3 \<or> serviceRate \<le> 0 then 0
     else let halfWindowSec = f64_of_int (sw_SampleCount w) * fl 2 / fl 2
       in if halfWindowSec \<le> 0 then 0
          else let slope = (sw_LastRequestRate w / serviceRate - sw_MeanRequestRate w / serviceRate) / halfWindowSec;
                   slope = slope * confidenceFromSamples (sw_SampleCount w)
               in math_Max (fl (- 0.5)) (math_Min slope (fl 0.5)))"

definition computeInboundPressure :: "ServiceWindow \<Rightarrow> f64" where
  "computeInboundPressure w =
    (if sw_MeanRequestRate w \<le> 0 then 0
     else let queueRatio = (if 0 < sw_MeanActiveConns w
                            then math_Min (sw_LastQueueDepth w / sw_MeanActiveConns w) 1 else 0);
              arrivalVariance = (if 0 < sw_MeanRequestRate w
                                 then math_Min (sw_StdRequestRate w / sw_MeanRequestRate w / fl 2) 1 else 0)
       in math_Min (fl 0.60 * queueRatio + fl 0.40 * arrivalVariance) 1)"

section \<open>The queue model\<close>

record clock =
  ck_create :: gotime
  ck_since :: gotime
  ck_tick :: gotime
  ck_computed :: gotime
  ck_stale :: gotime

definition tick_dt :: "PhysicalQueueState \<Rightarrow> gotime \<Rightarrow> f64" where
  "tick_dt st now =
    (let dt = duration_Seconds (time_sub now (pq_lastTickTime st))
     in if dt \<le> fl 0.001 \<or> fl 10 < dt then fl 2 else dt)"

definition empty_model :: "clock \<Rightarrow> ServiceWindow \<Rightarrow> QueueModel" where
  "empty_model ck w =
     \<lparr> qm_ServiceID = sw_ServiceID w, qm_ComputedAt = ck_computed ck, qm_ArrivalRate = 0, qm_ServiceRate = 0,
       qm_Concurrency = 0, qm_Utilisation = 0, qm_MeanQueueLen = 0, qm_MeanWaitMs = 0, qm_MeanSojournMs = 0,
       qm_BurstFactor = 0, qm_AdjustedWaitMs = 0, qm_UtilisationTrend = 0, qm_SaturationHorizon = 0,
       qm_Confidence = confidenceFromSamples (sw_SampleCount w), qm_UpstreamPressure = 0,
       qm_NetworkSaturationHorizon = 0, qm_Hazard = 0, qm_Reservoir = 0 \<rparr>"

definition momentum :: "f64 \<Rightarrow> f64 \<Rightarrow> f64" where
  "momentum currentArrival old =
    (if old < currentArrival then fl 0.8 * currentArrival + fl 0.2 * old
     else fl 0.2 * currentArrival + fl 0.8 * old)"

definition next_backlog :: "f64 \<Rightarrow> f64 \<Rightarrow> f64 \<Rightarrow> f64 \<Rightarrow> f64 \<Rightarrow> f64" where
  "next_backlog backlog arrival service c dt =
    (let netFlowNormalised = (arrival - service) / c;
         b = backlog + netFlowNormalised * c * dt
     in if b < 0 then 0 else b)"

definition wait_ms :: "f64 \<Rightarrow> f64 \<Rightarrow> f64 \<Rightarrow> f64 \<Rightarrow> f64 \<Rightarrow> f64" where
  "wait_ms c arrival service queueLen util =
    (if 1 < util \<and> 0 < service then queueLen / service * fl 1000
     else let perServerMu = service / c;
              erlangC = ComputeErlangC c (arrival / perServerMu);
              denom = service * (1 - util)
          in if 0 < denom then erlangC / denom * fl 1000 else 0)"

definition cov_penalty :: "ServiceWindow \<Rightarrow> f64" where
  "cov_penalty w =
    (let p = math_Exp (- sw_StdRequestRate w / math_Max (sw_MeanRequestRate w) 1 * fl 0.5)
     in if math_IsNaN p \<or> p \<le> 0 then fl 0.5 else p)"

definition run_physics ::
  "ServiceStrategy \<Rightarrow> clock \<Rightarrow> ServiceWindow \<Rightarrow> f64 \<Rightarrow> PhysicalQueueState \<Rightarrow> PhysicalQueueState \<times> QueueModel" where
  \<comment> \<open>the part behind the guard on the request rate and the latency\<close>
  "run_physics strategy ck w dt st =
    (let trustWeight = math_Max (sw_ConfidenceScore w) (fl 0.10);
         c = math_Max (math_Round (sw_MeanActiveConns w)) 1;
         arrival = momentum (sw_MeanRequestRate w) (pq_arrivalMomentum st);
         (service, estConf, st) = Estimate strategy w (st\<lparr> pq_arrivalMomentum := arrival \<rparr>) c;
         backlog = next_backlog (pq_accumulatedBacklog st) arrival service c dt;
         util = arrival / math_Max service (fl 0.001);
         wait = wait_ms c arrival service backlog util;
         trend = utilTrendRegression w service * trustWeight;
         horizon = (if util < 1 \<and> fl 0.000001 < trend
                    then duration_of_f64 ((1 - util) / trend * f64_of_int Second) else 0)
     in (st\<lparr> pq_accumulatedBacklog := backlog \<rparr>,
         \<lparr> qm_ServiceID = sw_ServiceID w, qm_ComputedAt = ck_computed ck, qm_ArrivalRate = arrival,
           qm_ServiceRate = service, qm_Concurrency = c, qm_Utilisation = util, qm_MeanQueueLen = backlog,
           qm_MeanWaitMs = wait, qm_MeanSojournMs = wait + math_Max (sw_MeanLatencyMs w) 1,
           qm_BurstFactor = 1, qm_AdjustedWaitMs = wait, qm_UtilisationTrend = trend,
           qm_SaturationHorizon = horizon,
           qm_Confidence = confidenceFromSamples (sw_SampleCount w) * estConf * cov_penalty w * stalePenalty (ck_stale ck) w (fl 2),
           qm_UpstreamPressure = computeInboundPressure w * trustWeight,
           qm_NetworkSaturationHorizon = horizon, qm_Hazard = sw_Hazard w, qm_Reservoir = sw_Reservoir w \<rparr>))"

record QueuePhysicsEngine =
  pe_shards :: "(string, PhysicalQueueState) gomap list"
  pe_ServiceStrategy :: "ServiceStrategy option"

definition queueShards :: nat where "queueShards = 32"

definition queueShardFor :: "string \<Rightarrow> nat" where
  "queueShardFor sid = unat (fnv_loop 2166136261 sid AND 31)"

definition NewQueuePhysicsEngine :: QueuePhysicsEngine where
  "NewQueuePhysicsEngine = \<lparr> pe_shards = replicate queueShards [], pe_ServiceStrategy = Some Hybrid \<rparr>"

definition new_queue_state :: "clock \<Rightarrow> ServiceWindow \<Rightarrow> PhysicalQueueState" where
  "new_queue_state ck w =
     \<lparr> pq_accumulatedBacklog = 0, pq_arrivalMomentum = 0, pq_localArrivalEwma = sw_MeanRequestRate w,
       pq_lastTickTime = ck_create ck, pq_historicalCapacity = 0, pq_confidenceEwma = 0 \<rparr>"

definition run_queue_state ::
  "ServiceStrategy \<Rightarrow> clock \<Rightarrow> ServiceWindow \<Rightarrow> PhysicalQueueState \<Rightarrow> PhysicalQueueState \<times> QueueModel" where
  "run_queue_state strategy ck w st =
    (let dt = tick_dt st (ck_since ck); st = st\<lparr> pq_lastTickTime := ck_tick ck \<rparr>
     in if sw_MeanRequestRate w \<le> 0 \<or> sw_MeanLatencyMs w \<le> 0 then (st, empty_model ck w)
        else run_physics strategy ck w dt st)"

definition RunQueueModel :: "clock \<Rightarrow> ServiceWindow \<Rightarrow> QueuePhysicsEngine \<Rightarrow> QueuePhysicsEngine \<times> QueueModel" where
  "RunQueueModel ck w pe =
    (let k = queueShardFor (sw_ServiceID w);
         sh = pe_shards pe ! k;
         st = (case map_of sh (sw_ServiceID w) of Some st \<Rightarrow> st | None \<Rightarrow> new_queue_state ck w);
         strategy = (case pe_ServiceStrategy pe of Some s \<Rightarrow> s | None \<Rightarrow> Legacy);
         (st, m) = run_queue_state strategy ck w st
     in (pe\<lparr> pe_shards := (pe_shards pe)[k := AList.update (sw_ServiceID w) st sh],
             pe_ServiceStrategy :=
               (if sw_MeanRequestRate w \<le> 0 \<or> sw_MeanLatencyMs w \<le> 0 then pe_ServiceStrategy pe
                else Some strategy) \<rparr>, m))"

definition Prune_queues :: "string list \<Rightarrow> QueuePhysicsEngine \<Rightarrow> QueuePhysicsEngine" where
  "Prune_queues activeIDs pe =
     pe\<lparr> pe_shards := map (filter (\<lambda>x. fst x \<in> set activeIDs)) (pe_shards pe) \<rparr>"

section \<open>\<open>stochastic.go\<close>\<close>

definition RunStochasticModel :: "gotime \<Rightarrow> ServiceWindow \<Rightarrow> StochasticModel" where
  "RunStochasticModel now w =
    (let sm = \<lparr> sm_ServiceID = sw_ServiceID w, sm_ComputedAt = now, sm_ArrivalCoV = 0, sm_BurstAmplification = 0,
                sm_RiskPropagation = 0, sm_Confidence = 0 \<rparr>
     in if sw_MeanRequestRate w \<le> 0 \<or> sw_SampleCount w < 2 then sm
        else let cov = sw_StdRequestRate w / sw_MeanRequestRate w
          in sm\<lparr> sm_ArrivalCoV := cov, sm_BurstAmplification := (1 + cov * cov) / fl 2,
                  sm_RiskPropagation := sigmoid ((cov - 1) / fl 0.3),
                  sm_Confidence := confidenceFromSamples (sw_SampleCount w) * math_Exp (- cov * fl 0.3) \<rparr>)"

section \<open>Erlang C is a probability\<close>

lemma fl_int: "\<bar>i\<bar> \<le> 2 ^ 53 \<Longrightarrow> f64_of_int i = Fin (of_int i)"
  by (rule f64_of_int_small)

lemma sym_mult:
  assumes "fbtw (- a) x a" "fbtw (- b) y b" "fbound (a * b)" shows "fbtw (- (a * b)) (x * y) (a * b)"
proof -
  obtain r s where r: "x = Fin r" "\<bar>r\<bar> \<le> a" and s: "y = Fin s" "\<bar>s\<bar> \<le> b"
    using assms(1,2) by (auto elim!: fbtwE simp: abs_le_iff)
  have "\<bar>r * s\<bar> \<le> a * b" unfolding abs_mult using r(2) s(2) by (intro mult_mono) auto
  then show ?thesis using r(1) s(1) assms(3) by (auto intro!: fbtw_fl simp: abs_le_iff)
qed

lemma sym_divide:
  assumes "fbtw (- a) x a" "fbtw 1 y b" "fbound a" shows "fbtw (- a) (x / y) a"
proof -
  obtain r s where r: "x = Fin r" "\<bar>r\<bar> \<le> a" and s: "y = Fin s" "1 \<le> s"
    using assms(1,2) by (auto elim!: fbtwE simp: abs_le_iff)
  have "\<bar>r / s\<bar> \<le> \<bar>r\<bar> / 1" unfolding abs_divide using s(2) by (intro frac_le) auto
  then have "\<bar>r / s\<bar> \<le> a" using r(2) by simp
  then have "- a \<le> r / s" "r / s \<le> a" by linarith+
  then show ?thesis using r(1) s assms(3) by (auto intro!: fbtw_fl)
qed

lemma fbound_powi: assumes "- 900 \<le> h" "h \<le> 900" shows "fbound (2 powi h)"
proof -
  have "2 powi h \<le> big" using le_900_big [OF assms(2)] powi_pos [of h] by linarith
  then show ?thesis using frep_pow2 [of h] assms(1) by (simp add: fbound_def)
qed

lemma log_int_btw: "1 \<le> i \<Longrightarrow> i \<le> 2 ^ 20 \<Longrightarrow> fbtw 0 (math_Log (f64_of_int i)) 32"
proof -
  assume i: "1 \<le> i" "i \<le> 2 ^ 20"
  have "real_of_int i \<le> real_of_int (2 ^ 20)" using i(2) by (simp only: of_int_le_iff)
  then have "ln (real_of_int i) \<le> ln (2 ^ 20)" using i(1) by (subst ln_le_cancel_iff) auto
  also have "\<dots> = of_nat 20 * ln 2" by (rule ln_realpow)
  also have "\<dots> \<le> 32" using ln_2_less_1 by simp
  finally have "ln (real_of_int i) \<le> 32" .
  moreover have "0 \<le> ln (real_of_int i)" using i(1) by simp
  moreover have "f64_of_int i = Fin (of_int i)" using i by (intro fl_int) simp
  ultimately show ?thesis using i(1) by (auto intro!: fbtw_fl)
qed

lemma logFactorial_btw: "n \<le> 2 ^ 20 \<Longrightarrow> fbtw 0 (logFactorial n) (2 ^ 25)"
proof (cases "n \<le> 1")
  case False
  assume n: "n \<le> 2 ^ 20"
  have "fbtw 0 (fold (\<lambda>i s. s + math_Log (f64_of_int i)) [2..n] 0) (real (0 + length [2..n]) * 32)"
  proof (rule fold_sum_btw)
    show "\<forall>i \<in> set [2..n]. fbtw 0 (math_Log (f64_of_int i)) 32" using n by (auto intro!: log_int_btw)
    fix j assume "j \<le> 0 + length [2..n]"
    then have "int j * 32 \<le> 2 ^ 53" "0 \<le> int j * 32" using n by (auto simp: length_upto)
    then show "fbound (real j * 32)" using fbound_of_int [of "int j * 32"] by simp
  qed (simp add: zero_f64_def)
  then have "fbtw 0 (logFactorial n) (real (length [2..n]) * 32)" using False by (simp add: logFactorial_def)
  moreover have "length [2..n] \<le> 2 ^ 20" using n by simp
  then have "real (length [2..n]) \<le> real (2 ^ 20)" by (simp only: of_nat_le_iff)
  ultimately show ?thesis by (elim fbtw_weaken) simp_all
qed (simp add: logFactorial_def zero_f64_def)

lemma log_btw: "1 / 2 ^ 100 \<le> r \<Longrightarrow> r \<le> 2 ^ 100 \<Longrightarrow> fbtw (- 100) (math_Log (Fin r)) 100"
proof -
  assume r: "1 / 2 ^ 100 \<le> r" "r \<le> 2 ^ 100"
  have pos: "0 < r" using r(1) by (smt (verit) divide_pos_pos zero_less_power)
  have "ln (2 ^ 100 :: real) = of_nat 100 * ln 2" by (rule ln_realpow)
  then have l: "ln (2 ^ 100 :: real) \<le> 100" using ln_2_less_1 by simp
  have "ln r \<le> ln (2 ^ 100)" using r(2) pos by (subst ln_le_cancel_iff) auto
  moreover have "ln (1 / 2 ^ 100) \<le> ln r" using r(1) pos by (subst ln_le_cancel_iff) auto
  moreover have "ln (1 / 2 ^ 100 :: real) = - ln (2 ^ 100)" by (simp add: ln_div)
  ultimately have "- 100 \<le> ln r" "ln r \<le> 100" using l by linarith+
  then show ?thesis using pos by (auto intro!: fbtw_fl)
qed

lemma erlang_terms_finite:
  assumes "fbtw (- 100) logA 100" "ci \<le> 2 ^ 20" "t \<in> set (erlang_terms ci logA)"
  shows "fbtw (- (2 ^ 28)) t (2 ^ 28)"
proof -
  obtain k where k: "0 \<le> k" "k < ci" "t = f64_of_int k * logA - logFactorial k"
    using assms(3) by (auto simp: erlang_terms_def)
  have "real_of_int k \<le> real_of_int (2 ^ 20)" using k assms(2) by (simp only: of_int_le_iff)
  moreover have "f64_of_int k = Fin (of_int k)" using k assms(2) by (intro fl_int) simp
  ultimately have "fbtw (- (2 ^ 20)) (f64_of_int k) (2 ^ 20)" using k(1) by simp
  then have "fbtw (- (2 ^ 20 * 100)) (f64_of_int k * logA) (2 ^ 20 * 100)"
    using assms(1) by (rule sym_mult) simp
  moreover have "fbtw 0 (logFactorial k) (2 ^ 25)" using k assms(2) by (intro logFactorial_btw) simp
  ultimately show ?thesis unfolding k(3) by (rule fbtw_diff) simp_all
qed

lemma max_term_props:
  assumes "ts \<noteq> []" "\<forall>t \<in> set ts. finite64 t"
  shows "max_term ts \<in> set ts \<and> (\<forall>t \<in> set ts. t \<le> max_term ts)"
proof -
  have "fold (\<lambda>t m. if m < t then t else m) xs m \<in> insert m (set xs) \<and>
      (\<forall>t \<in> insert m (set xs). t \<le> fold (\<lambda>t m. if m < t then t else m) xs m)"
    if "\<forall>t \<in> insert m (set xs). finite64 t" for xs m
    using that
  proof (induction xs arbitrary: m)
    case Nil
    then show ?case by (cases m) auto
  next
    case (Cons x xs)
    define m' where "m' = (if m < x then x else m)"
    have m': "finite64 m'" "m \<le> m'" "x \<le> m'"
      using Cons.prems by (cases m; cases x; auto simp: m'_def)+
    then have IH: "fold (\<lambda>t m. if m < t then t else m) xs m' \<in> insert m' (set xs)"
      "\<forall>t \<in> insert m' (set xs). t \<le> fold (\<lambda>t m. if m < t then t else m) xs m'"
      using Cons.IH [of m'] Cons.prems by auto
    have "m' \<in> {m, x}" by (simp add: m'_def)
    then show ?case using IH m' by (auto simp flip: m'_def intro: le_trans64)
  qed
  from this [of "hd ts" ts] show ?thesis using assms by (auto simp: max_term_def insert_absorb)
qed

lemma sum_ge_1:
  assumes "\<forall>x \<in> set xs. fbtw 0 (g x) 1" "fbtw 0 s (real k)" "k + length xs \<le> 2 ^ 20"
    "(\<exists>q. s = Fin q \<and> 1 \<le> q) \<or> (\<exists>x \<in> set xs. g x = Fin 1)"
  shows "fbtw 1 (fold (\<lambda>x s. s + g x) xs s) (real (k + length xs))"
  using assms
proof (induction xs arbitrary: s k)
  case (Cons x xs)
  obtain e where e: "g x = Fin e" "0 \<le> e" "e \<le> 1" using Cons.prems(1) by (auto elim: fbtwE)
  obtain q where q: "s = Fin q" "0 \<le> q" "q \<le> real k" using Cons.prems(2) by (rule fbtwE)
  have "int (Suc k) \<le> 2 ^ 53" using Cons.prems(3) by simp
  then have fb: "fbound (real (Suc k))" using fbound_of_int [of "int (Suc k)"] by simp
  have "fbtw 0 (s + g x) (real (Suc k))" using e q fb by (auto intro!: fbtw_fl)
  moreover have "fbtw 1 (s + g x) (real (Suc k))" if "1 \<le> q \<or> e = 1"
    using that e q fb by (auto intro!: fbtw_fl)
  then have "(\<exists>q. s + g x = Fin q \<and> 1 \<le> q) \<or> (\<exists>x \<in> set xs. g x = Fin 1)"
    using Cons.prems(4) e(1) q(1) by (auto elim!: fbtwE)
  ultimately show ?case
    using Cons.IH [of "s + g x" "Suc k"] Cons.prems(1,3) by simp
qed (auto elim: fbtwE)

lemma log_sum_exp_parts:
  assumes "ts \<noteq> []" "\<forall>t \<in> set ts. fbtw (- (2 ^ 28)) t (2 ^ 28)" "length ts \<le> 2 ^ 20"
  shows "\<exists>mx l. log_sum_exp ts = Fin mx + Fin l \<and> Fin mx \<in> set ts \<and> (\<forall>t \<in> set ts. t \<le> Fin mx) \<and> 0 \<le> l \<and> l \<le> 100"
proof -
  define mx where "mx = max_term ts"
  have mx: "mx \<in> set ts" "\<forall>t \<in> set ts. t \<le> mx"
    using max_term_props [OF assms(1)] assms(2) by (auto simp: mx_def dest: fbtw_finite)
  have e: "fbtw 0 (math_Exp (t - mx)) 1" if t: "t \<in> set ts" for t
  proof -
    obtain a b where "t = Fin a" "mx = Fin b" "a \<le> b" using assms(2) mx t by (metis fbtwE less_eq_f64.simps(1))
    then have "f_nonpos (t - mx)" by (auto intro: fl_nonpos)
    then show ?thesis by (rule math_Exp_nonpos)
  qed
  have one: "math_Exp (mx - mx) = Fin 1" using assms(2) mx(1) by (auto elim!: fbtwE)
  let ?s = "fold (\<lambda>t s. s + math_Exp (t - mx)) ts 0"
  have "fbtw 1 ?s (real (0 + length ts))"
    by (rule sum_ge_1) (use e one mx(1) assms(3) in \<open>auto simp: zero_f64_def\<close>)
  moreover have "real (length ts) \<le> real (2 ^ 20)" using assms(3) by (simp only: of_nat_le_iff)
  ultimately have "fbtw 1 ?s (2 ^ 20)" by (elim fbtw_weaken) simp_all
  then obtain r where r: "?s = Fin r" "1 \<le> r" "r \<le> 2 ^ 20" by (rule fbtwE)
  have "fbtw (- 100) (math_Log ?s) 100"
    unfolding r(1) using r(2,3) by (intro log_btw) simp_all
  moreover have "f_nonneg (math_Log ?s)" using r(1,2) by (auto intro: fl_nonneg)
  ultimately obtain l where l: "math_Log ?s = Fin l" "0 \<le> l" "l \<le> 100" by (auto elim!: fbtwE)
  obtain m where m: "mx = Fin m" using assms(2) mx(1) by (auto elim!: fbtwE)
  have "log_sum_exp ts = Fin m + Fin l" by (simp only: log_sum_exp_def flip: m mx_def l(1))
  then show ?thesis using mx l(2,3) unfolding m by blast
qed

lemma log_sum_exp_finite:
  assumes "ts \<noteq> []" "\<forall>t \<in> set ts. fbtw (- (2 ^ 28)) t (2 ^ 28)" "length ts \<le> 2 ^ 20"
  shows "fbtw (- (2 ^ 29)) (log_sum_exp ts) (2 ^ 29)"
proof -
  obtain mx l where "log_sum_exp ts = Fin mx + Fin l" "Fin mx \<in> set ts" "0 \<le> l" "l \<le> 100"
    using log_sum_exp_parts [OF assms] by blast
  moreover have "fbtw (- (2 ^ 28)) (Fin mx) (2 ^ 28)" "fbtw (- 100) (Fin l) 100" using assms(2) calculation by auto
  then have "fbtw (- (2 ^ 29)) (Fin mx + Fin l) (2 ^ 29)" by (rule fbtw_add) simp_all
  ultimately show ?thesis by (simp only:)
qed

lemma log_sum_exp_nonneg:
  assumes "ts \<noteq> []" "\<forall>t \<in> set ts. fbtw (- (2 ^ 28)) t (2 ^ 28)" "length ts \<le> 2 ^ 20" "Fin 0 \<in> set ts"
  shows "f_nonneg (log_sum_exp ts)"
proof -
  obtain mx l where "log_sum_exp ts = Fin mx + Fin l" "Fin 0 \<le> Fin mx" "0 \<le> l"
    using log_sum_exp_parts [OF assms(1-3)] assms(4) by blast
  then show ?thesis by (auto intro!: fl_nonneg)
qed

lemma exp_double: "exp x \<le> b \<Longrightarrow> exp (2 * x) \<le> b * (b :: real)"
proof -
  assume "exp x \<le> b"
  then have "exp x * exp x \<le> b * b" by (intro mult_mono) (auto intro: order_trans [of _ "exp x"])
  then show ?thesis by (simp flip: exp_add)
qed

lemma exp_1_bound: "exp 1 \<le> (2.75 :: real)"
proof -
  have "exp (1 / 64) \<le> 1 + 1 / 64 + (1 / 64 :: real)\<^sup>2" by (rule exp_bound) auto
  then have "exp (1 / 64 :: real) \<le> 1.01587" by (simp add: power2_eq_square)
  from exp_double [OF this] have "exp (1 / 32 :: real) \<le> 1.032" by simp
  from exp_double [OF this] have "exp (1 / 16 :: real) \<le> 1.06503" by simp
  from exp_double [OF this] have "exp (1 / 8 :: real) \<le> 1.13429" by simp
  from exp_double [OF this] have "exp (1 / 4 :: real) \<le> 1.28662" by simp
  from exp_double [OF this] have "exp (1 / 2 :: real) \<le> 1.6554" by simp
  from exp_double [OF this] show ?thesis by simp
qed

lemma exp_700: "exp 700 \<le> (2 :: real) ^ 1023"
proof -
  have "exp 1 ^ 50 \<le> (2.75 :: real) ^ 50" using exp_1_bound by (intro power_mono) auto
  also have "(2.75 :: real) ^ 50 \<le> 2 ^ 73" by (simp add: power_divide divide_le_eq)
  finally have "exp 50 \<le> (2 :: real) ^ 73" by (simp flip: exp_of_nat_mult)
  then have "exp 50 ^ 14 \<le> ((2 :: real) ^ 73) ^ 14" by (intro power_mono) auto
  also have "((2 :: real) ^ 73) ^ 14 = 2 ^ 1022" by (simp flip: power_mult)
  also have "(2 :: real) ^ 1022 \<le> 2 ^ 1023" by simp
  finally show ?thesis by (simp flip: exp_of_nat_mult)
qed

lemma exp_not_inf:
  assumes "\<not> fl 700 < d" "d \<noteq> NaN" shows "\<exists>r. math_Exp d = Fin r \<and> 0 \<le> r \<and> frep r"
proof (cases d)
  case (Fin q)
  then have "q \<le> 700" using assms(1) by simp
  then have "exp q \<le> 2 ^ 1023" using exp_700 exp_le_cancel_iff [of q 700] by linarith
  then have "rnd (exp q) \<le> 2 ^ 1023" using frep_pow2 [of 1023] by (intro rnd_le) auto
  moreover have "0 \<le> rnd (exp q)" by (intro rnd_nonneg) simp
  moreover have "(2 :: real) ^ 1023 < 2 ^ 1024" by simp
  ultimately have "fl (exp q) = Fin (rnd (exp q))" unfolding fl_def by auto
  then show ?thesis using Fin \<open>0 \<le> rnd (exp q)\<close> frep_rnd by simp
qed (use assms in \<open>auto simp: zero_f64_def\<close>)

lemma ratio_unit: assumes "0 \<le> r" "frep r" shows "fbtw 0 (Fin r / (1 + Fin r)) 1"
proof -
  consider "1 + Fin r = PInf" | q where "1 + Fin r = Fin q" "1 \<le> q" using one_plus_cases [of "Fin r"] assms(1) by auto
  then show ?thesis
  proof cases
    case 2
    have "q = rnd (1 + r)" using 2(1) by (auto simp: one_f64_def fl_def split: if_splits)
    then have "r \<le> q" using rnd_ge [of r "1 + r"] assms(2) by simp
    then show ?thesis unfolding 2(1) using assms(1) 2(2) by (auto intro!: fbtw_fl)
  qed simp
qed

lemma nonpos_log: "0 \<le> q \<Longrightarrow> q \<le> 1 \<Longrightarrow> f_nonpos (math_Log (Fin q))"
  by (auto intro!: fl_nonpos)

lemma minus_nonpos_not_NaN: "f_nonpos x \<Longrightarrow> Fin z - x \<noteq> NaN"
  by (cases x) (auto simp: minus_f64_def)

lemma erlang_parts:
  assumes "1 \<le> ci" "ci \<le> 2 ^ 20" "fbtw (- 100) logA 100" "0 \<le> s" "s \<le> 1"
  shows "\<exists>z y q. f64_of_int ci * logA - logFactorial ci = Fin z \<and> log_sum_exp (erlang_terms ci logA) = Fin y \<and>
    1 - Fin s = Fin q \<and> 0 \<le> q \<and> q \<le> 1 \<and> Fin z - math_Log (Fin q) \<noteq> NaN"
proof -
  have "real_of_int ci \<le> real_of_int (2 ^ 20)" using assms(2) by (simp only: of_int_le_iff)
  then have "fbtw (- (2 ^ 20)) (f64_of_int ci) (2 ^ 20)" using assms(1,2) by (simp add: fl_int)
  then have "fbtw (- (2 ^ 20 * 100)) (f64_of_int ci * logA) (2 ^ 20 * 100)"
    using assms(3) by (rule sym_mult) simp
  then have "fbtw (- (2 ^ 28)) (f64_of_int ci * logA - logFactorial ci) (2 ^ 28)"
    using logFactorial_btw [OF assms(2)] by (rule fbtw_diff) simp_all
  then obtain z where z: "f64_of_int ci * logA - logFactorial ci = Fin z" by (rule fbtwE)
  have "fbtw (- (2 ^ 29)) (log_sum_exp (erlang_terms ci logA)) (2 ^ 29)"
    using assms(1,2) erlang_terms_finite [OF assms(3,2)]
    by (intro log_sum_exp_finite) (auto simp: erlang_terms_def)
  then obtain y where y: "log_sum_exp (erlang_terms ci logA) = Fin y" by (rule fbtwE)
  have "fbtw 0 (1 - Fin s) 1" using assms(4,5) by (auto simp: one_f64_def intro!: fbtw_fl)
  then obtain q where q: "1 - Fin s = Fin q" "0 \<le> q" "q \<le> 1" by (rule fbtwE)
  have "Fin z - math_Log (Fin q) \<noteq> NaN" using q(2,3) by (intro minus_nonpos_not_NaN nonpos_log)
  then show ?thesis using z y q by auto
qed

lemma erlang_ratio_unit:
  assumes "1 \<le> ci" "ci \<le> 2 ^ 20" "fbtw (- 100) logA 100" "0 \<le> s" "s \<le> 1"
    "d = f64_of_int ci * logA - logFactorial ci - math_Log (1 - Fin s) - log_sum_exp (erlang_terms ci logA)"
  shows "fbtw 0 (if fl 700 < d then 1 else math_Exp d / (1 + math_Exp d)) 1"
proof -
  obtain z y q where p: "f64_of_int ci * logA - logFactorial ci = Fin z" "log_sum_exp (erlang_terms ci logA) = Fin y"
    "1 - Fin s = Fin q" "Fin z - math_Log (Fin q) \<noteq> NaN"
    using erlang_parts [OF assms(1-5)] by blast
  have "d \<noteq> NaN" using p(4) unfolding assms(6) p(1-3)
    by (cases "Fin z - math_Log (Fin q)") (auto simp: minus_f64_def)
  then show ?thesis using exp_not_inf [of d] ratio_unit by (auto simp: one_f64_def)
qed

lemma erlangC_unit:
  assumes "1 \<le> ci" "ci \<le> 2 ^ 20" "1 / 2 ^ 100 \<le> r" "r \<le> 2 ^ 100"
  shows "fbtw 0 (ComputeErlangC (Fin (of_int ci)) (Fin r)) 1"
proof -
  have r0: "0 < r" using assms(3) by (smt (verit) divide_pos_pos zero_less_power)
  have ci: "max 1 (int_of_f64 (math_Round (Fin (of_int ci)))) = ci"
    using assms(1,2) by (simp add: int_of_f64_of_int minI64_def maxI64_def)
  have la: "fbtw (- 100) (math_Log (Fin r)) 100" using assms(3,4) by (rule log_btw)
  have c: "1 \<le> real_of_int ci" using assms(1) by simp
  show ?thesis
  proof (cases "1 \<le> Fin r / Fin (of_int ci)")
    case False
    have "f_nonneg (Fin r / Fin (of_int ci))" using r0 c by (intro f_nonneg_divide) auto
    then obtain s where s: "Fin r / Fin (of_int ci) = Fin s" "0 \<le> s" "s \<le> 1"
      using False by (cases "Fin r / Fin (of_int ci)") (auto simp: one_f64_def)
    show ?thesis
      using erlang_ratio_unit [OF assms(1,2) la s(2,3) refl] False
      by (simp only: ComputeErlangC_def Let_def ci s(1) if_False)
  next
    case True
    then have "ComputeErlangC (Fin (of_int ci)) (Fin r) = 1" by (simp only: ComputeErlangC_def Let_def if_True)
    then show ?thesis by (simp add: one_f64_def)
  qed
qed

text \<open>
  The Erlang C formula, computed with logarithms, sums of exponentials and every
  rounding, is a probability: for up to a million servers and any offered load in a range
  of 200 binary orders of magnitude the result is a finite number between zero and one.
\<close>

theorem erlangC_probability:
  assumes "1 \<le> ci" "ci \<le> 2 ^ 20" "1 / 2 ^ 100 \<le> r" "r \<le> 2 ^ 100"
  shows "fbtw 0 (ComputeErlangC (Fin (of_int ci)) (Fin r)) 1"
  using assms by (rule erlangC_unit)

theorem erlangC_probability_witness: "fbtw 0 (ComputeErlangC (Fin 3) (Fin 2)) 1"
  using erlangC_probability [of 3 2] by simp

text \<open>With no offered load the formula gives NaN: \<open>0 * log 0\<close> is computed.\<close>

lemma erlangC_zero_load: "ComputeErlangC 1 0 = NaN"
proof -
  have t: "erlang_terms 1 NInf = [NaN]"
    by (simp add: erlang_terms_def f64_of_int_def logFactorial_def zero_f64_def)
  have r: "round_away 1 = 1" using round_away_of_int [of 1] by simp
  have i: "int_of_f64 (Fin 1) = 1" using int_of_f64_of_int [of 1] by (simp add: minI64_def maxI64_def)
  have l: "log_sum_exp [NaN] = NaN" by (simp add: log_sum_exp_def max_term_def)
  show ?thesis
    by (simp add: ComputeErlangC_def one_f64_def zero_f64_def r i t l Let_def del: int_of_f64.simps)
qed

section \<open>One tick keeps the state physical\<close>

abbreviation zero_or :: "real \<Rightarrow> f64 \<Rightarrow> real \<Rightarrow> bool" where
  "zero_or lo x hi \<equiv> x = Fin 0 \<or> fbtw lo x hi"

definition physics_window :: "ServiceWindow \<Rightarrow> bool" where
  "physics_window w \<longleftrightarrow>
     zero_or (2 powi - 12) (sw_MeanRequestRate w) (2 powi 24) \<and> fbtw 0 (sw_MeanLatencyMs w) (2 powi 22) \<and>
     fbtw 0 (sw_LastRequestRate w) (2 powi 24) \<and> fbtw 0 (sw_StdRequestRate w) big \<and>
     fbtw 0 (sw_MeanActiveConns w) (2 ^ 20) \<and> fbtw 0 (sw_LastQueueDepth w) big \<and>
     fbtw 0 (sw_Hazard w) big \<and> zero_or (1 / 16) (sw_AppliedScale w) 16 \<and>
     fbtw 0 (sw_ConfidenceScore w) 1 \<and> sw_SampleCount w \<le> 2 ^ 31"

definition queue_ok :: "PhysicalQueueState \<Rightarrow> bool" where
  "queue_ok st \<longleftrightarrow>
     f_nonneg (pq_accumulatedBacklog st) \<and> zero_or (2 powi - 13) (pq_arrivalMomentum st) (2 powi 24) \<and>
     zero_or (2 powi - 14) (pq_historicalCapacity st) (2 powi 31) \<and> fbtw 0 (pq_confidenceEwma st) 1"

lemma pow_values:
  "(2::real) powi 24 = 2 ^ 24" "(2::real) powi 22 = 2 ^ 22" "(2::real) powi 31 = 2 ^ 31"
  "(2::real) powi - 12 = 1 / 2 ^ 12" "(2::real) powi - 13 = 1 / 2 ^ 13" "(2::real) powi - 14 = 1 / 2 ^ 14"
  by (simp_all add: power_int_minus)

lemma fbound_dyadic [simp]: "h \<le> 900 \<Longrightarrow> fbound (1 / 2 ^ h)" "h \<le> 900 \<Longrightarrow> fbound (2 ^ h)"
  using fbound_powi [of "- int h"] fbound_powi [of "int h"] by (simp_all add: power_int_minus divide_inverse)

lemmas fbound_small [simp] = fbound_dyadic(1) [of 12, simplified] fbound_dyadic(1) [of 13, simplified]
  fbound_dyadic(1) [of 14, simplified] fbound_dyadic(1) [of 18, simplified]

lemma momentum_ok:
  assumes "fbtw (2 powi - 12) cur (2 powi 24)" "zero_or (2 powi - 13) old (2 powi 24)"
  shows "fbtw (2 powi - 13) (momentum cur old) (2 powi 24)"
proof (cases "old < cur")
  case True
  have u: "fbtw 0 (fl 0.8 * cur + fl 0.2 * old) (2 powi 24)"
    using assms by (intro weighted_btw [OF weights_const(2)]) (auto elim!: fbtw_weaken)
  have k: "fbtw (1 / 2) (fl 0.8) 1" "fbtw 0 (fl 0.2) 1" by (auto intro!: fbtw_fl)
  have old: "fbtw 0 old (2 ^ 24)" using assms(2) by (auto simp: pow_values elim!: fbtw_weaken)
  have m: "fbtw (1 / 2 ^ 13) (fl 0.8 * cur) (2 ^ 24)" "fbtw 0 (fl 0.2 * old) (2 ^ 24)"
    using fbtw_mult [OF k(1) assms(1)] fbtw_mult [OF k(2) old] unfolding pow_values by simp_all
  have "fbtw (2 powi - 13) (fl 0.8 * cur + fl 0.2 * old) (2 ^ 25)"
    unfolding pow_values by (rule fbtw_add [OF m]) simp_all
  then show ?thesis using u True by (auto simp: momentum_def elim!: fbtwE)
next
  case False
  then have "fbtw (2 powi - 12) old (2 powi 24)"
    using assms by (auto simp: pow_values elim!: fbtwE)
  then have "fbtw (2 powi - 12) (fl 0.2 * cur + fl 0.8 * old) (2 powi 24)"
    using assms(1) by (intro weighted_between [OF weights_const(1)]) auto
  then show ?thesis using False by (auto simp: momentum_def pow_values elim!: fbtw_weaken)
qed

lemma saturation_unit:
  assumes "f_nonneg backlog" "fbtw 1 c (2 ^ 20)"
  shows "fbtw 0 (math_Min (backlog / math_Max c 1) 1) 1"
proof -
  obtain r where r: "c = Fin r" "1 \<le> r" using assms(2) by (auto elim: fbtwE)
  then have "math_Max c 1 = Fin r" by (simp add: one_f64_def)
  then have "f_nonneg (backlog / math_Max c 1)" using assms(1) r(2) by (simp add: f_nonneg_divide)
  then show ?thesis using min_1_unit by (simp add: unit_btw_def)
qed

lemma capacity_ok:
  assumes "physics_window w" "0 < sw_MeanRequestRate w" "queue_ok st" "fbtw 1 c (2 ^ 20)"
  shows "fbtw (2 powi - 14) (hybrid_capacity w st c) (2 powi 31)"
proof -
  have "fbtw 1 (math_Max (sw_MeanLatencyMs w) 1) (2 ^ 22)"
    using assms(1) by (auto simp: physics_window_def pow_values one_f64_def elim!: fbtwE)
  then have "fbtw (1 / 2 ^ 13) (fl 1000 / math_Max (sw_MeanLatencyMs w) 1) 1024"
    by (intro fbtw_divide [where a = 1000 and b = 1000]) auto
  then have lat: "fbtw (1 / 2 ^ 13) (fl 1000 / math_Max (sw_MeanLatencyMs w) 1 * c) (2 ^ 30)"
    using assms(4) by (rule fbtw_mult) simp_all
  have rate: "fbtw (1 / 2 ^ 12) (sw_MeanRequestRate w) (2 ^ 24)"
    using assms(1,2) by (auto simp: physics_window_def pow_values zero_f64_def)
  define s where "s = math_Min (pq_accumulatedBacklog st / math_Max c 1) 1"
  have s: "fbtw 0 s 1" unfolding s_def using assms(3,4) by (intro saturation_unit) (auto simp: queue_ok_def)
  have s': "fbtw 0 (1 - s) 1" using s by (intro fbtw_diff [where a = 1 and b = 1]) (auto simp: one_f64_def)
  define x y where "x = (1 - s) * (fl 1000 / math_Max (sw_MeanLatencyMs w) 1 * c)" and "y = s * sw_MeanRequestRate w"
  have x: "fbtw 0 x (2 ^ 30)" unfolding x_def using s' lat by (rule fbtw_mult) simp_all
  have y: "fbtw 0 y (2 ^ 24)" unfolding y_def using s rate by (rule fbtw_mult) simp_all
  have "fbtw (1 / 2 ^ 14) x (2 ^ 30) \<or> fbtw (1 / 2 ^ 14) y (2 ^ 24)"
  proof (cases "s \<le> Fin (1 / 2)")
    case True
    then have "fbtw (1 / 2) (1 - s) 1"
      using s by (auto simp: one_f64_def elim!: fbtwE intro!: fbtw_fl)
    then have "fbtw (1 / 2 ^ 14) x (2 ^ 30)" unfolding x_def using lat by (rule fbtw_mult) simp_all
    then show ?thesis ..
  next
    case False
    then have "fbtw (1 / 2) s 1" using s by (auto elim!: fbtwE)
    then have "fbtw (1 / 2 ^ 14) y (2 ^ 24)" unfolding y_def using rate by (rule fbtw_mult) simp_all
    then show ?thesis ..
  qed
  then have est: "fbtw (1 / 2 ^ 14) (x + y) (2 ^ 31)"
    using x y by (auto intro: fbtw_add [where a = "1 / 2 ^ 14" and c = 0] fbtw_add [where a = 0 and c = "1 / 2 ^ 14"])
  show ?thesis
  proof (cases "feq (pq_historicalCapacity st) 0")
    case True
    then show ?thesis using est by (simp add: hybrid_capacity_def x_def y_def s_def Let_def pow_values)
  next
    case False
    then have "fbtw (2 powi - 14) (pq_historicalCapacity st) (2 powi 31)"
      using assms(3) by (auto simp: queue_ok_def zero_f64_def)
    then have "fbtw (2 powi - 14) (fl 0.2 * (x + y) + fl 0.8 * pq_historicalCapacity st) (2 powi 31)"
      using est by (intro weighted_between [OF weights_const(1)]) (auto simp: pow_values)
    then show ?thesis using False by (simp add: hybrid_capacity_def x_def y_def s_def Let_def)
  qed
qed

lemma confidence_ok:
  assumes "physics_window w" "queue_ok st" shows "fbtw 0 (hybrid_confidence w st) 1"
proof -
  have "fbtw 0 (math_Min (sw_Hazard w) (fl 0.9)) 1"
    using assms(1) fbtw_fl [of 0 "0.9" 1] by (auto simp: physics_window_def elim!: fbtwE)
  then have "fbtw 0 (1 - math_Min (sw_Hazard w) (fl 0.9)) 1"
    by (intro fbtw_diff [where a = 1 and b = 1]) (auto simp: one_f64_def)
  moreover have "fbtw 0 (if feq (pq_confidenceEwma st) 0 then 1 else pq_confidenceEwma st) 1"
    using assms(2) by (auto simp: queue_ok_def one_f64_def)
  ultimately show ?thesis unfolding hybrid_confidence_def Let_def by (rule weighted_unit [OF weights_const(3)])
qed

lemma scale_btw: "physics_window w \<Longrightarrow> fbtw (1 / 16) (applied_scale w) 16"
  by (auto simp: physics_window_def applied_scale_def zero_f64_def one_f64_def)

lemma quot_bound: "0 < b \<Longrightarrow> \<bar>quot a b\<bar> \<le> \<bar>a\<bar> div b"
  by (auto simp: quot_def abs_mult sgn_if pos_imp_zdiv_nonneg_iff)

lemma remt_bound: assumes "0 < b" shows "\<bar>remt a b\<bar> < b"
proof (cases "0 \<le> a")
  case True
  then show ?thesis using assms by (simp add: remt_nonneg)
next
  case False
  then have "remt a b = - ((- a) mod b)"
    using assms by (simp add: remt_def quot_def sgn_if minus_div_mult_eq_mod [symmetric])
  then show ?thesis using assms by simp
qed

lemma duration_finite: "\<exists>r. duration_Seconds (time_sub t u) = Fin r"
proof -
  define d where "d = time_sub t u"
  have d: "\<bar>d\<bar> \<le> 2 ^ 63" by (auto simp: d_def time_sub_def sat_i64_def minI64_def maxI64_def)
  have "\<bar>quot d Second\<bar> \<le> \<bar>d\<bar> div Second" by (rule quot_bound) (simp add: Second_def)
  also have "\<dots> \<le> 2 ^ 63 div Second" using d by (rule zdiv_mono1) (simp add: Second_def)
  finally have q: "\<bar>quot d Second\<bar> \<le> 2 ^ 34" by (simp add: Second_def)
  then have "\<bar>real_of_int (quot d Second)\<bar> \<le> real_of_int (2 ^ 34)" by (simp only: of_int_le_iff flip: of_int_abs)
  then have qf: "fbtw (- (2 ^ 34)) (f64_of_int (quot d Second)) (2 ^ 34)"
    using q by (simp add: fl_int abs_le_iff)
  have m: "\<bar>remt d Second\<bar> < Second" by (rule remt_bound) (simp add: Second_def)
  then have m': "\<bar>remt d Second\<bar> \<le> 2 ^ 30" by (simp add: Second_def)
  then have "\<bar>real_of_int (remt d Second)\<bar> \<le> real_of_int (2 ^ 30)" by (simp only: of_int_le_iff flip: of_int_abs)
  then have "fbtw (- (2 ^ 30)) (f64_of_int (remt d Second)) (2 ^ 30)"
    using m' by (simp add: fl_int abs_le_iff)
  then have "fbtw (- (2 ^ 30)) (f64_of_int (remt d Second) / fl 1000000000) (2 ^ 30)"
    by (rule sym_divide [where b = 1000000000]) simp_all
  from fbtw_add [OF qf this, of "- (2 ^ 35)" "2 ^ 35"] show ?thesis
    unfolding duration_Seconds_def d_def [symmetric] by (auto elim: fbtwE)
qed

lemma tick_dt_btw: "fbtw 0 (tick_dt st now) 16"
proof -
  obtain r where r: "duration_Seconds (time_sub now (pq_lastTickTime st)) = Fin r" using duration_finite by blast
  have "fl 0.001 = Fin (rnd 0.001)" "0 \<le> rnd 0.001" by (rule fl_finite, simp, rule rnd_nonneg, simp)
  then show ?thesis by (auto simp: tick_dt_def r Let_def)
qed

lemma nonneg_part: "x \<noteq> NaN \<Longrightarrow> f_nonneg (if x < 0 then 0 else x)"
  by (cases x) (auto simp: zero_f64_def)

lemma next_backlog_ok:
  assumes "f_nonneg b" "fbtw 0 arr (2 ^ 24)" "fbtw 0 svc (2 ^ 35)" "fbtw 1 c (2 ^ 20)" "fbtw 0 dt 16"
  shows "f_nonneg (next_backlog b arr svc c dt)"
proof -
  have "fbtw (- (2 ^ 35)) (arr - svc) (2 ^ 35)" by (rule fbtw_diff [OF assms(2,3)]) simp_all
  then have "fbtw (- (2 ^ 35)) ((arr - svc) / c) (2 ^ 35)" using assms(4) by (rule sym_divide) simp
  moreover have "fbtw (- (2 ^ 20)) c (2 ^ 20)" using assms(4) by (rule fbtw_weaken) simp_all
  ultimately have "fbtw (- (2 ^ 35 * 2 ^ 20)) ((arr - svc) / c * c) (2 ^ 35 * 2 ^ 20)"
    by (rule sym_mult) (simp add: fbound_dyadic(2) [of 55, simplified])
  moreover have "fbtw (- 16) dt 16" using assms(5) by (rule fbtw_weaken) simp_all
  ultimately have "fbtw (- (2 ^ 35 * 2 ^ 20 * 16)) ((arr - svc) / c * c * dt) (2 ^ 35 * 2 ^ 20 * 16)"
    by (rule sym_mult) (simp add: fbound_dyadic(2) [of 59, simplified])
  then obtain z where z: "(arr - svc) / c * c * dt = Fin z" by (rule fbtwE)
  have "b + Fin z \<noteq> NaN" using assms(1) by (cases b) auto
  then show ?thesis unfolding next_backlog_def Let_def z by (rule nonneg_part)
qed

lemma sample_confidence_unit: "fbtw 0 (confidenceFromSamples n) 1"
proof (cases "n \<le> 0")
  case False
  have "f_nonneg (f64_of_int n)" using False by (simp add: f64_of_int_def fl_nonneg)
  then have "f_nonpos (- f64_of_int n / fl 15)" by (simp add: f_nonpos_divide)
  then have "fbtw 0 (math_Exp (- f64_of_int n / fl 15)) 1" by (rule math_Exp_nonpos)
  then have "fbtw 0 (1 - math_Exp (- f64_of_int n / fl 15)) 1"
    by (intro fbtw_diff [where a = 1 and b = 1]) (auto simp: one_f64_def)
  then show ?thesis using False by (simp add: confidenceFromSamples_def)
qed (simp add: confidenceFromSamples_def zero_f64_def)

lemma cov_penalty_unit: assumes "physics_window w" shows "fbtw 0 (cov_penalty w) 1"
proof -
  obtain m where m: "math_Max (sw_MeanRequestRate w) 1 = Fin m" "1 \<le> m"
    using assms by (auto simp: physics_window_def one_f64_def elim!: fbtwE)
  have "f_nonneg (sw_StdRequestRate w)" using assms by (auto simp: physics_window_def dest: fbtw_nonneg)
  moreover have "fl 0.5 = Fin 0.5" using frep_one_half(1) by (simp add: fl_finite rnd_frep)
  ultimately have "f_nonpos (- sw_StdRequestRate w / math_Max (sw_MeanRequestRate w) 1 * fl 0.5)"
    using m by (simp add: f_nonpos_mult f_nonpos_divide)
  then have "fbtw 0 (math_Exp (- sw_StdRequestRate w / math_Max (sw_MeanRequestRate w) 1 * fl 0.5)) 1"
    by (rule math_Exp_nonpos)
  moreover have "fbtw 0 (fl 0.5) 1" by (auto intro!: fbtw_fl)
  ultimately show ?thesis by (simp add: cov_penalty_def Let_def)
qed

lemma stale_penalty_unit: "fbtw 0 (stalePenalty now w (fl 2)) 1"
proof -
  obtain r where r: "duration_Seconds (time_sub now (sw_LastObservedAt w)) = Fin r" using duration_finite by blast
  have "fl 3 * fl 2 = Fin 6" by simp
  then have "f_nonpos (- Fin r / (fl 3 * fl 2))" if "0 < r" using that by (simp add: fl_nonpos)
  then show ?thesis
    using math_Exp_nonpos by (auto simp: stalePenalty_def r Let_def zero_f64_def one_f64_def not_le)
qed

lemma util_ok:
  assumes "fbtw 0 arr (2 ^ 24)" "fbtw 0 svc (2 ^ 35)"
  shows "fbtw 0 (arr / math_Max svc (fl 0.001)) (2 ^ 35)"
proof -
  have "fl 0.001 = Fin (rnd 0.001)" by (rule fl_finite) simp
  moreover have "1 / 2048 \<le> rnd 0.001" using frep_pow2 [of "- 11"] by (intro rnd_ge) (simp_all add: power_int_minus)
  moreover have "rnd 0.001 \<le> 1" by (intro rnd_le) simp_all
  ultimately have "fbtw (1 / 2048) (fl 0.001) 1" by simp
  then have "fbtw (1 / 2048) (math_Max svc (fl 0.001)) (2 ^ 35)" using assms(2) by (auto elim!: fbtwE)
  from fbtw_divide [OF assms(1) this] show ?thesis by simp
qed

lemma wait_ok:
  assumes "fbtw (1 / 2 ^ 13) arr (2 ^ 24)" "fbtw (1 / 2 ^ 18) svc (2 ^ 35)" "f_nonneg q" "fbtw 0 util (2 ^ 35)"
    "1 \<le> ci" "ci \<le> 2 ^ 20"
  shows "f_nonneg (wait_ms (Fin (of_int ci)) arr svc q util)"
proof (cases "1 < util \<and> 0 < svc")
  case True
  obtain s where s: "svc = Fin s" "0 < s" using assms(2) by (auto elim!: fbtwE)
  have "f_nonneg (q / svc)" using assms(3) s by (simp add: f_nonneg_divide)
  then have "f_nonneg (q / svc * fl 1000)" by (simp add: f_nonneg_mult)
  then show ?thesis using True by (simp add: wait_ms_def)
next
  case False
  have "real_of_int ci \<le> real_of_int (2 ^ 20)" using assms(6) by (simp only: of_int_le_iff)
  then have c: "fbtw 1 (Fin (of_int ci)) (2 ^ 20)" using assms(5) by simp
  have "fbtw (1 / 2 ^ 38) (svc / Fin (of_int ci)) (2 ^ 35)"
    by (rule fbtw_divide [OF assms(2) c]) (simp_all add: fbound_dyadic(1) [of 38, simplified])
  from fbtw_divide [OF assms(1) this, of "1 / 2 ^ 48" "2 ^ 62"]
  have "fbtw (1 / 2 ^ 48) (arr / (svc / Fin (of_int ci))) (2 ^ 62)"
    by (simp add: fbound_dyadic(1) [of 48, simplified] fbound_dyadic(2) [of 62, simplified])
  then obtain r where r: "arr / (svc / Fin (of_int ci)) = Fin r" "1 / 2 ^ 48 \<le> r" "r \<le> 2 ^ 62" by (rule fbtwE)
  have "(1::real) / 2 ^ 100 \<le> 1 / 2 ^ 48" "(2::real) ^ 62 \<le> 2 ^ 100" by simp_all
  then have "1 / 2 ^ 100 \<le> r" "r \<le> 2 ^ 100" using r(2,3) by linarith+
  then have e: "f_nonneg (ComputeErlangC (Fin (of_int ci)) (arr / (svc / Fin (of_int ci))))"
    unfolding r(1) using assms(5,6) by (intro fbtw_nonneg [OF erlangC_unit])
  have "fbtw (- (2 ^ 35)) (1 - util) (2 ^ 35)"
    using assms(4) by (intro fbtw_diff [where a = 1 and b = 1]) (auto simp: one_f64_def)
  moreover have "fbtw (- (2 ^ 35)) svc (2 ^ 35)" using assms(2) by (rule fbtw_weaken) simp_all
  ultimately have "fbtw (- (2 ^ 35 * 2 ^ 35)) (svc * (1 - util)) (2 ^ 35 * 2 ^ 35)"
    by (intro sym_mult) (auto simp: fbound_dyadic(2) [of 70, simplified])
  then obtain d where d: "svc * (1 - util) = Fin d" by (rule fbtwE)
  have "f_nonneg (ComputeErlangC (Fin (of_int ci)) (arr / (svc / Fin (of_int ci))) / Fin d * fl 1000)" if "0 < d"
    using e that by (simp add: f_nonneg_divide f_nonneg_mult)
  then show ?thesis using False by (auto simp: wait_ms_def d Let_def zero_f64_def)
qed

lemma unit_half: "fl 0.5 = Fin (1 / 2)" "fl (- 0.5) = Fin (- (1 / 2))"
  using frep_one_half(1) by (simp_all add: fl_finite rnd_frep fl_minus)

lemma clip_half: "x \<noteq> NaN \<Longrightarrow> fbtw (- (1 / 2)) (math_Max (fl (- 0.5)) (math_Min x (fl 0.5))) (1 / 2)"
  unfolding unit_half by (cases x) (auto simp: math_Max_def math_Min_def)

lemma trend_ok:
  assumes "physics_window w" "fbtw (1 / 2 ^ 18) svc (2 ^ 35)"
  shows "fbtw (- (1 / 2)) (utilTrendRegression w svc) (1 / 2)"
proof (cases "sw_SampleCount w < 3 \<or> svc \<le> 0 \<or> f64_of_int (sw_SampleCount w) * fl 2 / fl 2 \<le> 0")
  case False
  have lst: "fbtw 0 (sw_LastRequestRate w / svc) (2 ^ 42)" "fbtw 0 (sw_MeanRequestRate w / svc) (2 ^ 42)"
    using assms(1) by (auto intro!: fbtw_divide [OF _ assms(2), where a = 0 and b = "2 ^ 24"]
      simp: physics_window_def pow_values zero_f64_def elim!: fbtw_weaken)
  have diff: "fbtw (- (2 ^ 42)) (sw_LastRequestRate w / svc - sw_MeanRequestRate w / svc) (2 ^ 42)"
    by (rule fbtw_diff [OF lst]) simp_all
  have n: "3 \<le> sw_SampleCount w" "sw_SampleCount w \<le> 2 ^ 31" using False assms(1) by (auto simp: physics_window_def)
  have "real_of_int 3 \<le> real_of_int (sw_SampleCount w)" "real_of_int (sw_SampleCount w) \<le> real_of_int (2 ^ 31)"
    using n by (simp_all only: of_int_le_iff)
  then have "fbtw 3 (f64_of_int (sw_SampleCount w)) (2 ^ 31)" using n by (simp add: fl_int)
  then have "fbtw 3 (f64_of_int (sw_SampleCount w) * fl 2) (2 ^ 32)"
    by (rule fbtw_mult [where c = 2 and d = 2]) simp_all
  then have "fbtw 1 (f64_of_int (sw_SampleCount w) * fl 2 / fl 2) (2 ^ 32)"
    by (rule fbtw_divide [where c = 2 and d = 2]) simp_all
  with diff have "fbtw (- (2 ^ 42)) ((sw_LastRequestRate w / svc - sw_MeanRequestRate w / svc) /
      (f64_of_int (sw_SampleCount w) * fl 2 / fl 2)) (2 ^ 42)" by (rule sym_divide) simp
  moreover have "fbtw (- 1) (confidenceFromSamples (sw_SampleCount w)) 1"
    using sample_confidence_unit by (rule fbtw_weaken) simp_all
  ultimately have "fbtw (- (2 ^ 42 * 1)) ((sw_LastRequestRate w / svc - sw_MeanRequestRate w / svc) /
      (f64_of_int (sw_SampleCount w) * fl 2 / fl 2) * confidenceFromSamples (sw_SampleCount w)) (2 ^ 42 * 1)"
    by (rule sym_mult) simp
  from clip_half [OF fbtw_not_NaN [OF this]] show ?thesis
    using False by (simp only: utilTrendRegression_def Let_def de_Morgan_disj if_False simp_thms)
qed (auto simp: utilTrendRegression_def Let_def zero_f64_def)

lemma inbound_pressure_unit: assumes "physics_window w" shows "fbtw 0 (computeInboundPressure w) 1"
proof (cases "sw_MeanRequestRate w \<le> 0")
  case False
  obtain m where m: "sw_MeanRequestRate w = Fin m" "0 < m"
    using assms False by (auto simp: physics_window_def zero_f64_def elim!: fbtwE)
  obtain k where k: "sw_MeanActiveConns w = Fin k" using assms by (auto simp: physics_window_def elim!: fbtwE)
  have "f_nonneg (sw_LastQueueDepth w)" "f_nonneg (sw_StdRequestRate w)"
    using assms by (auto simp: physics_window_def dest: fbtw_nonneg)
  then have "0 < sw_MeanActiveConns w \<Longrightarrow> f_nonneg (sw_LastQueueDepth w / sw_MeanActiveConns w)"
    and "f_nonneg (sw_StdRequestRate w / sw_MeanRequestRate w / fl 2)"
    using k m by (auto simp: zero_f64_def intro!: f_nonneg_divide)
  then have q: "fbtw 0 (if 0 < sw_MeanActiveConns w then math_Min (sw_LastQueueDepth w / sw_MeanActiveConns w) 1 else 0) 1"
    and v: "fbtw 0 (math_Min (sw_StdRequestRate w / sw_MeanRequestRate w / fl 2) 1) 1"
    using min_1_unit by (auto simp: unit_btw_def zero_f64_def)
  have c: "fbtw 0 (fl 0.60) 1" "fbtw 0 (fl 0.40) 1" by (auto intro!: fbtw_fl)
  have "f_nonneg (fl 0.60 * a + fl 0.40 * b)" if "fbtw 0 a 1" "fbtw 0 b 1" for a b
    using fbtw_mult [OF c(1) that(1), of 0 1] fbtw_mult [OF c(2) that(2), of 0 1]
    by (intro f_nonneg_add) (auto dest: fbtw_nonneg)
  then have "fbtw 0 (math_Min (fl 0.60 * a + fl 0.40 * b) 1) 1" if "fbtw 0 a 1" "fbtw 0 b 1" for a b
    using that min_1_unit by (auto simp: unit_btw_def)
  from this [OF q v] show ?thesis using False m by (simp add: computeInboundPressure_def Let_def zero_f64_def)
qed (simp add: computeInboundPressure_def zero_f64_def)

definition model_ok :: "QueueModel \<Rightarrow> bool" where
  "model_ok m \<longleftrightarrow>
     fbtw 0 (qm_ArrivalRate m) (2 ^ 24) \<and> fbtw 0 (qm_ServiceRate m) (2 ^ 35) \<and> fbtw 0 (qm_Utilisation m) (2 ^ 35) \<and>
     f_nonneg (qm_MeanQueueLen m) \<and> f_nonneg (qm_MeanWaitMs m) \<and> f_nonneg (qm_MeanSojournMs m) \<and>
     fbtw (- (1 / 2)) (qm_UtilisationTrend m) (1 / 2) \<and> fbtw 0 (qm_UpstreamPressure m) 1 \<and>
     fbtw 0 (qm_Confidence m) 1"

lemma trust_unit: "physics_window w \<Longrightarrow> fbtw 0 (math_Max (sw_ConfidenceScore w) (fl 0.10)) 1"
  using fbtw_fl [of 0 "0.10" 1] by (auto simp: physics_window_def elim!: fbtwE)

lemma servers_int:
  assumes "fbtw 0 (sw_MeanActiveConns w) (2 ^ 20)"
  shows "\<exists>ci. math_Max (math_Round (sw_MeanActiveConns w)) 1 = Fin (of_int ci) \<and> 1 \<le> ci \<and> ci \<le> 2 ^ 20"
proof -
  obtain k where k: "sw_MeanActiveConns w = Fin k" "0 \<le> k" "k \<le> 2 ^ 20"
    using assms by (rule fbtwE)
  have "round_away k \<le> round_away (of_int (2 ^ 20))" using k(3) by (intro round_away_mono) simp
  then have "round_away k \<le> 2 ^ 20" by (simp only: round_away_of_int)
  then show ?thesis
    by (intro exI [of _ "max 1 (round_away k)"]) (auto simp: k(1) one_f64_def max_def)
qed

lemma unit_mult_half: "fbtw (- (1 / 2)) x (1 / 2) \<Longrightarrow> fbtw 0 y 1 \<Longrightarrow> fbtw (- (1 / 2)) (x * y) (1 / 2)"
  using sym_mult [of "1 / 2" x 1 y] by (auto dest: fbtw_weaken [of 0 y 1 "- 1" 1])

lemma run_physics_ok:
  assumes w: "physics_window w" "\<not> sw_MeanRequestRate w \<le> 0" and st: "queue_ok st" and dt: "fbtw 0 dt 16"
  shows "queue_ok (fst (run_physics Hybrid ck w dt st)) \<and> model_ok (snd (run_physics Hybrid ck w dt st))"
proof -
  have pos: "0 < sw_MeanRequestRate w"
    using w by (auto simp: physics_window_def zero_f64_def elim!: fbtwE)
  obtain ci where ci: "math_Max (math_Round (sw_MeanActiveConns w)) 1 = Fin (of_int ci)" "1 \<le> ci" "ci \<le> 2 ^ 20"
    using servers_int [of w] w(1) by (auto simp: physics_window_def)
  have "real_of_int ci \<le> real_of_int (2 ^ 20)" using ci(3) by (simp only: of_int_le_iff)
  then have c: "fbtw 1 (Fin (of_int ci)) (2 ^ 20)" using ci(2) by simp
  define arr where "arr = momentum (sw_MeanRequestRate w) (pq_arrivalMomentum st)"
  have arr: "fbtw (2 powi - 13) arr (2 powi 24)" unfolding arr_def
    using w(1) pos st by (intro momentum_ok) (auto simp: physics_window_def queue_ok_def zero_f64_def)
  define st1 where "st1 = st\<lparr> pq_arrivalMomentum := arr \<rparr>"
  have st1: "queue_ok st1" using st arr by (simp add: st1_def queue_ok_def)
  define hist where "hist = hybrid_capacity w st1 (Fin (of_int ci))"
  define conf where "conf = hybrid_confidence w st1"
  define svc where "svc = hist * applied_scale w"
  define backlog where "backlog = next_backlog (pq_accumulatedBacklog st1) arr svc (Fin (of_int ci)) dt"
  define util where "util = arr / math_Max svc (fl 0.001)"
  have hist: "fbtw (2 powi - 14) hist (2 powi 31)" unfolding hist_def by (rule capacity_ok [OF w(1) pos st1 c])
  have conf: "fbtw 0 conf 1" unfolding conf_def by (rule confidence_ok [OF w(1) st1])
  have svc: "fbtw (1 / 2 ^ 18) svc (2 ^ 35)"
    unfolding svc_def by (rule fbtw_mult [OF hist scale_btw [OF w(1)]]) (simp_all add: pow_values)
  have arr0: "fbtw (1 / 2 ^ 13) arr (2 ^ 24)" "fbtw 0 arr (2 ^ 24)" "fbtw 0 svc (2 ^ 35)"
    using arr svc by (auto simp: pow_values elim!: fbtw_weaken)
  have backlog: "f_nonneg backlog" unfolding backlog_def
    using st1 arr0 c dt by (intro next_backlog_ok) (auto simp: queue_ok_def)
  have util: "fbtw 0 util (2 ^ 35)" unfolding util_def by (rule util_ok [OF arr0(2,3)])
  have wait: "f_nonneg (wait_ms (Fin (of_int ci)) arr svc backlog util)"
    by (rule wait_ok [OF arr0(1) svc backlog util ci(2,3)])
  have lat: "f_nonneg (math_Max (sw_MeanLatencyMs w) 1)"
    using w(1) by (auto simp: physics_window_def one_f64_def elim!: fbtwE)
  have unit: "fbtw 0 (x * y) 1" if "fbtw 0 x 1" "fbtw 0 y 1" for x y
    using that by (rule fbtw_mult) simp_all
  have run: "fst (run_physics Hybrid ck w dt st) =
    st1\<lparr> pq_historicalCapacity := hist, pq_confidenceEwma := conf, pq_accumulatedBacklog := backlog \<rparr>"
    by (simp add: run_physics_def Estimate_def hybrid_Estimate_def Let_def ci(1) arr_def st1_def hist_def conf_def
        svc_def backlog_def)
  have u: "util = arr / math_Max svc (fl (1 / 1000))" by (simp add: util_def)
  define m where "m = snd (run_physics Hybrid ck w dt st)"
  have m: "qm_ArrivalRate m = arr" "qm_ServiceRate m = svc" "qm_Utilisation m = util" "qm_MeanQueueLen m = backlog"
    "qm_MeanWaitMs m = wait_ms (Fin (of_int ci)) arr svc backlog util"
    "qm_MeanSojournMs m = wait_ms (Fin (of_int ci)) arr svc backlog util + math_Max (sw_MeanLatencyMs w) 1"
    "qm_UtilisationTrend m = utilTrendRegression w svc * math_Max (sw_ConfidenceScore w) (fl 0.10)"
    "qm_UpstreamPressure m = computeInboundPressure w * math_Max (sw_ConfidenceScore w) (fl 0.10)"
    "qm_Confidence m = confidenceFromSamples (sw_SampleCount w) * conf * cov_penalty w * stalePenalty (ck_stale ck) w (fl 2)"
    by (simp_all add: m_def run_physics_def Estimate_def hybrid_Estimate_def Let_def ci(1) st1_def
        arr_def hist_def conf_def svc_def backlog_def u)
  have "model_ok m"
    unfolding model_ok_def m
    using arr0 util backlog wait f_nonneg_add [OF wait lat]
    by (intro conjI unit unit_mult_half trend_ok [OF w(1) svc] trust_unit [OF w(1)] inbound_pressure_unit [OF w(1)]
        conf sample_confidence_unit cov_penalty_unit [OF w(1)] stale_penalty_unit) assumption+
  moreover have "queue_ok (fst (run_physics Hybrid ck w dt st))"
    unfolding run using arr hist conf backlog by (simp add: queue_ok_def st1_def)
  ultimately show ?thesis unfolding m_def by blast
qed

section \<open>The engine\<close>

definition engine_ok :: "QueuePhysicsEngine \<Rightarrow> bool" where
  "engine_ok pe \<longleftrightarrow> length (pe_shards pe) = queueShards \<and> pe_ServiceStrategy pe = Some Hybrid \<and>
     (\<forall>sh \<in> set (pe_shards pe). \<forall>(x, st) \<in> set sh. queue_ok st)"

lemma queueShardFor_less: "queueShardFor sid < queueShards"
proof -
  have "fnv_loop 2166136261 sid AND 31 \<le> (31 :: u32)" by (rule word_and_le1)
  then have "unat (fnv_loop 2166136261 sid AND 31) \<le> unat (31 :: u32)" by (simp only: word_le_nat_alt)
  then show ?thesis by (simp add: queueShardFor_def queueShards_def)
qed

lemma New_engine_ok: "engine_ok NewQueuePhysicsEngine"
  by (simp add: engine_ok_def NewQueuePhysicsEngine_def)

lemma run_queue_state_ok:
  assumes "physics_window w" "queue_ok st"
  shows "queue_ok (fst (run_queue_state Hybrid ck w st)) \<and> model_ok (snd (run_queue_state Hybrid ck w st))"
proof (cases "sw_MeanRequestRate w \<le> 0 \<or> sw_MeanLatencyMs w \<le> 0")
  case True
  have "model_ok (empty_model ck w)"
    using sample_confidence_unit [of "sw_SampleCount w"] by (simp add: model_ok_def empty_model_def zero_f64_def)
  moreover have "queue_ok (st\<lparr> pq_lastTickTime := ck_tick ck \<rparr>)" using assms(2) by (simp add: queue_ok_def)
  ultimately show ?thesis using True by (simp add: run_queue_state_def Let_def)
next
  case False
  have "queue_ok (st\<lparr> pq_lastTickTime := ck_tick ck \<rparr>)" using assms(2) by (simp add: queue_ok_def)
  from run_physics_ok [OF assms(1) _ this tick_dt_btw] show ?thesis
    using False by (simp add: run_queue_state_def Let_def)
qed

lemma RunQueueModel_ok:
  assumes "engine_ok pe" "physics_window w"
  shows "engine_ok (fst (RunQueueModel ck w pe)) \<and> model_ok (snd (RunQueueModel ck w pe))"
proof -
  define k where "k = queueShardFor (sw_ServiceID w)"
  have k: "k < length (pe_shards pe)" using assms(1) queueShardFor_less by (simp add: k_def engine_ok_def)
  define sh where "sh = pe_shards pe ! k"
  define st where "st = (case map_of sh (sw_ServiceID w) of Some st \<Rightarrow> st | None \<Rightarrow> new_queue_state ck w)"
  have sh: "\<forall>(x, st) \<in> set sh. queue_ok st" using assms(1) k by (auto simp: sh_def engine_ok_def)
  have "queue_ok (new_queue_state ck w)" by (simp add: queue_ok_def new_queue_state_def zero_f64_def)
  then have "queue_ok st" using sh by (auto simp: st_def split: option.split dest!: map_of_SomeD)
  from run_queue_state_ok [OF assms(2) this, of ck]
  have r: "queue_ok (fst (run_queue_state Hybrid ck w st))" "model_ok (snd (run_queue_state Hybrid ck w st))" by auto
  have run: "RunQueueModel ck w pe = (pe\<lparr> pe_shards :=
      (pe_shards pe)[k := AList.update (sw_ServiceID w) (fst (run_queue_state Hybrid ck w st)) sh] \<rparr>,
      snd (run_queue_state Hybrid ck w st))"
    using assms(1) by (simp add: RunQueueModel_def Let_def engine_ok_def split_beta k_def sh_def st_def)
  have "\<forall>(x, s) \<in> set (AList.update (sw_ServiceID w) (fst (run_queue_state Hybrid ck w st)) sh). queue_ok s"
    using sh r(1) by (auto dest!: set_updateD)
  then show ?thesis
    using assms(1) r(2) unfolding run by (auto simp: engine_ok_def dest!: set_update_subset_insert [THEN subsetD])
qed

fun queue_runs :: "(clock \<times> ServiceWindow) list \<Rightarrow> QueuePhysicsEngine \<Rightarrow> QueuePhysicsEngine \<times> QueueModel list" where
  "queue_runs [] pe = (pe, [])"
| "queue_runs ((ck, w) # us) pe =
    (let (pe, m) = RunQueueModel ck w pe; (pe, ms) = queue_runs us pe in (pe, m # ms))"

lemma queue_runs_ok:
  "engine_ok pe \<Longrightarrow> \<forall>u \<in> set us. physics_window (snd u) \<Longrightarrow>
   engine_ok (fst (queue_runs us pe)) \<and> (\<forall>m \<in> set (snd (queue_runs us pe)). model_ok m)"
proof (induction us arbitrary: pe)
  case (Cons u us)
  obtain ck w where u: "u = (ck, w)" by (cases u)
  have r: "engine_ok (fst (RunQueueModel ck w pe))" "model_ok (snd (RunQueueModel ck w pe))"
    using RunQueueModel_ok Cons.prems u by auto
  show ?case using Cons.IH [OF r(1)] Cons.prems(2) r(2) u by (simp add: Let_def split_beta)
qed simp


lemma caller_physical: "physics_window (caller s t)"
  using big_ge by (simp add: physics_window_def caller_def pow_values zero_f64_def one_f64_def)


text \<open>
  A second run within a millisecond of the first does not integrate a step of length zero
  but one of two seconds.
\<close>

lemma repeated_run_integrates:
  "tick_dt st (pq_lastTickTime st) = fl 2"
proof -
  have "0 \<le> rnd 0.001" by (rule rnd_nonneg) simp
  moreover have "fl 0.001 = Fin (rnd 0.001)" by (rule fl_finite) simp
  moreover have "duration_Seconds 0 = Fin 0"
    by (simp add: duration_Seconds_def quot_def remt_def f64_of_int_def)
  ultimately show ?thesis by (simp add: tick_dt_def Let_def)
qed

end
