(* ===== verification/SignalModel.thy ===== *)
theory SignalModel
  imports QueuePhysics
begin

text \<open>
  \<open>internal/modelling/signal.go\<close>: the moving averages of the request rate of every
  service, with winsorised outliers, and the CUSUM change detector, sharded like the queue
  states.
\<close>

record signalPerService =
  sp_fastEWMA :: f64
  sp_fastVariance :: f64
  sp_slowEWMA :: f64
  sp_cusumPos :: f64
  sp_cusumNeg :: f64
  sp_initialized :: bool
  sp_lastUpdate :: gotime

record SignalProcessor =
  sr_shards :: "(string, signalPerService) gomap list"
  sr_fastAlpha :: f64
  sr_slowAlpha :: f64
  sr_spikeK :: f64

definition cusumSlack :: f64 where "cusumSlack = fl 0.5"
definition cusumThreshold :: f64 where "cusumThreshold = fl 5"
definition signalShards :: nat where "signalShards = 32"

definition signalShardFor :: "string \<Rightarrow> nat" where
  "signalShardFor sid = unat (fnv_loop 2166136261 sid AND 31)"

definition NewSignalProcessor :: "f64 \<Rightarrow> f64 \<Rightarrow> f64 \<Rightarrow> SignalProcessor" where
  "NewSignalProcessor fastAlpha slowAlpha spikeK =
     \<lparr> sr_shards = replicate signalShards [], sr_fastAlpha = fastAlpha, sr_slowAlpha = slowAlpha, sr_spikeK = spikeK \<rparr>"

definition new_signal_state :: signalPerService where
  "new_signal_state = \<lparr> sp_fastEWMA = 0, sp_fastVariance = 0, sp_slowEWMA = 0, sp_cusumPos = 0, sp_cusumNeg = 0,
     sp_initialized = False, sp_lastUpdate = 0 \<rparr>"

definition empty_signal :: "gotime \<Rightarrow> ServiceWindow \<Rightarrow> SignalState" where
  "empty_signal now w = \<lparr> sg_ServiceID = sw_ServiceID w, sg_ComputedAt = now, sg_FastEWMA = 0, sg_SlowEWMA = 0,
     sg_EWMAVariance = 0, sg_SpikeDetected = False, sg_ChangePointDetected = False, sg_CUSUMPos = 0, sg_CUSUMNeg = 0 \<rparr>"

definition first_signal :: "gotime \<Rightarrow> ServiceWindow \<Rightarrow> signalPerService \<Rightarrow> signalPerService \<times> SignalState" where
  "first_signal now w st =
    (let x = sw_LastRequestRate w
     in (st\<lparr> sp_fastEWMA := x, sp_slowEWMA := x, sp_fastVariance := math_Max (x * fl 0.01) 1,
             sp_initialized := True, sp_lastUpdate := sw_LastObservedAt w \<rparr>,
         (empty_signal now w)\<lparr> sg_FastEWMA := x, sg_SlowEWMA := x \<rparr>))"

definition std_dev :: "signalPerService \<Rightarrow> f64" where
  "std_dev st = math_Sqrt (math_Max (sp_fastVariance st) (fl (1 / 10 ^ 12)))"

definition winsorise :: "f64 \<Rightarrow> f64 \<Rightarrow> f64 \<Rightarrow> f64" where
  "winsorise bound fast x =
    (let deviation = x - fast in if bound < \<bar>deviation\<bar> then fast + math_Copysign bound deviation else x)"

definition next_signal :: "SignalProcessor \<Rightarrow> gotime \<Rightarrow> ServiceWindow \<Rightarrow> signalPerService \<Rightarrow> signalPerService \<times> SignalState" where
  "next_signal sp now w st =
    (let x = sw_LastRequestRate w;
         stdDev = std_dev st;
         filteredX = winsorise (sr_spikeK sp * stdDev) (sp_fastEWMA st) x;
         prevFast = sp_fastEWMA st;
         fast = sr_fastAlpha sp * filteredX + (1 - sr_fastAlpha sp) * prevFast;
         slow = sr_slowAlpha sp * filteredX + (1 - sr_slowAlpha sp) * sp_slowEWMA st;
         diff = filteredX - prevFast;
         var = (1 - sr_fastAlpha sp) * (sp_fastVariance st + sr_fastAlpha sp * diff * diff);
         normalisedDiff = diff / math_Max stdDev (fl (1 / 10 ^ 12));
         cpos = math_Max 0 (sp_cusumPos st + normalisedDiff - cusumSlack);
         cneg = math_Max 0 (sp_cusumNeg st - normalisedDiff - cusumSlack);
         change = (cusumThreshold < cpos \<or> cusumThreshold < cneg);
         cpos = (if change then 0 else cpos);
         cneg = (if change then 0 else cneg)
     in (st\<lparr> sp_fastEWMA := fast, sp_slowEWMA := slow, sp_fastVariance := var, sp_cusumPos := cpos,
             sp_cusumNeg := cneg, sp_lastUpdate := sw_LastObservedAt w \<rparr>,
         (empty_signal now w)\<lparr> sg_SpikeDetected := (sr_spikeK sp * stdDev < \<bar>x - prevFast\<bar>),
           sg_ChangePointDetected := change, sg_FastEWMA := fast, sg_SlowEWMA := slow, sg_EWMAVariance := var,
           sg_CUSUMPos := cpos, sg_CUSUMNeg := cneg \<rparr>))"

definition Update_signal :: "gotime \<Rightarrow> ServiceWindow \<Rightarrow> SignalProcessor \<Rightarrow> SignalProcessor \<times> SignalState" where
  "Update_signal now w sp =
    (let k = signalShardFor (sw_ServiceID w);
         sh = sr_shards sp ! k;
         st = (case map_of sh (sw_ServiceID w) of Some st \<Rightarrow> st | None \<Rightarrow> new_signal_state);
         (st, ss) = (if sp_initialized st then next_signal sp now w st else first_signal now w st)
     in (sp\<lparr> sr_shards := (sr_shards sp)[k := AList.update (sw_ServiceID w) st sh] \<rparr>, ss))"

definition Prune_signals :: "string list \<Rightarrow> SignalProcessor \<Rightarrow> SignalProcessor" where
  "Prune_signals activeIDs sp = sp\<lparr> sr_shards := map (filter (\<lambda>x. fst x \<in> set activeIDs)) (sr_shards sp) \<rparr>"

section \<open>Winsorising stays between the average and the sample\<close>

text \<open>
  All rates lie in \<open>[0, H]\<close> for a power of two \<open>H\<close>; the outlier is moved to the average
  plus or minus the bound, and the sum, rounded twice, does not leave the interval.
\<close>

definition rate :: "f64 \<Rightarrow> bool" where
  "rate x \<longleftrightarrow> (\<exists>r. x = Fin r \<and> 0 \<le> r \<and> r \<le> 2 ^ 24 \<and> frep r)"

lemma rate_btw: "rate x \<Longrightarrow> fbtw 0 x (2 ^ 24)"
  by (auto simp: rate_def)

lemma rnd_half_ulp:
  assumes "0 \<le> x" "x \<le> 2 ^ 24" shows "rnd x \<le> x + 1 / 2 ^ 30"
proof (cases "x = 2 ^ 24")
  case True
  then show ?thesis using frep_pow2 [of 24] by (simp add: rnd_frep)
next
  case False
  then have "\<bar>x\<bar> < 2 powi (- 29 + 53)" using assms by simp
  from rnd_error [OF this] have "\<bar>rnd x - x\<bar> \<le> 1 / 2 ^ 30" by (simp add: power_int_minus)
  then show ?thesis by linarith
qed

lemma winsorise_rate:
  assumes "rate fast" "rate x" "f_nonneg bound"
  shows "rate (winsorise bound fast x)"
proof -
  obtain f where f: "fast = Fin f" "0 \<le> f" "f \<le> 2 ^ 24" "frep f" using assms(1) by (auto simp: rate_def)
  obtain v where v: "x = Fin v" "0 \<le> v" "v \<le> 2 ^ 24" using assms(2) by (auto simp: rate_def)
  have "fbtw (- (2 ^ 24)) (Fin v - Fin f) (2 ^ 24)" using f v by (auto intro!: fbtw_fl)
  then obtain d where d: "Fin v - Fin f = Fin d" "\<bar>d\<bar> \<le> 2 ^ 24" by (auto elim!: fbtwE simp: abs_le_iff)
  have dr: "d = rnd (v - f)" using d(1) by (auto simp: fl_def split: if_splits)
  show ?thesis
  proof (cases "bound < \<bar>Fin d\<bar>")
    case True
    then obtain t where t: "bound = Fin t" "0 \<le> t" "t < \<bar>d\<bar>" using assms(3) by (cases bound) auto
    have range: "0 \<le> rnd (f + (if d < 0 then - t else t)) \<and> rnd (f + (if d < 0 then - t else t)) \<le> 2 ^ 24"
    proof (cases "d < 0")
      case True
      have "- f \<le> rnd (v - f)" using f v by (intro rnd_ge) auto
      then have "t \<le> f" using t True dr by simp
      then show ?thesis using True t f frep_pow2 [of 24] by (auto intro!: rnd_nonneg rnd_le)
    next
      case False
      have "rnd (v - f) \<le> rnd (2 ^ 24 - f)" using v by (intro rnd_mono) simp
      also have "\<dots> \<le> 2 ^ 24 - f + 1 / 2 ^ 30" using f by (intro rnd_half_ulp) auto
      finally have "f + t \<le> (1 + 1 / 2 ^ 53) * 2 powi 24" using t False dr by simp
      then have "rnd (f + t) \<le> rnd ((1 + 1 / 2 ^ 53) * 2 powi 24)" by (rule rnd_mono)
      also have "\<dots> = rnd (1 + 1 / 2 ^ 53) * 2 powi 24" by (rule rnd_scale) auto
      also have "\<dots> \<le> 1 * 2 powi 24" using rnd_just_above_1 [of "1 + 1 / 2 ^ 53"] by (intro mult_right_mono) auto
      finally show ?thesis using False t f by (auto intro!: rnd_nonneg)
    qed
    have "fast + math_Copysign bound (Fin d) = fl (f + (if d < 0 then - t else t))"
      using t f by (simp add: math_Copysign_def zero_f64_def)
    moreover have "\<dots> = Fin (rnd (f + (if d < 0 then - t else t)))" using range by (auto simp: fl_def)
    ultimately show ?thesis
      using True f v d(1) range by (simp add: winsorise_def Let_def rate_def frep_rnd)
  qed (use assms(2) f v d in \<open>simp add: winsorise_def\<close>)
qed

section \<open>The state stays in range\<close>

definition signal_ok :: "signalPerService \<Rightarrow> bool" where
  "signal_ok st \<longleftrightarrow> rate (sp_fastEWMA st) \<and> rate (sp_slowEWMA st) \<and> f_nonneg (sp_fastVariance st) \<and>
     fbtw 0 (sp_cusumPos st) 5 \<and> fbtw 0 (sp_cusumNeg st) 5"

definition signal_out_ok :: "SignalState \<Rightarrow> bool" where
  "signal_out_ok ss \<longleftrightarrow> rate (sg_FastEWMA ss) \<and> rate (sg_SlowEWMA ss) \<and> f_nonneg (sg_EWMAVariance ss) \<and>
     fbtw 0 (sg_CUSUMPos ss) 5 \<and> fbtw 0 (sg_CUSUMNeg ss) 5"

definition alphas_ok :: "SignalProcessor \<Rightarrow> bool" where
  "alphas_ok sp \<longleftrightarrow> weights (sr_fastAlpha sp) (1 - sr_fastAlpha sp) \<and> weights (sr_slowAlpha sp) (1 - sr_slowAlpha sp) \<and>
     0 < 1 - sr_fastAlpha sp \<and> (\<exists>k. sr_spikeK sp = Fin k \<and> 0 < k)"

lemma weighted_rate: assumes "weights A B" "rate x" "rate y" shows "rate (A * x + B * y)"
proof -
  obtain a b where a: "A = Fin a" "B = Fin b" "weight_pair a b" using assms(1) by (auto simp: weights_def)
  have "fbtw 0 x (2 powi 24)" "fbtw 0 y (2 powi 24)" using assms(2,3) by (auto dest!: rate_btw)
  from ewma_upper [OF a(3) this] show ?thesis using a by (auto simp: rate_def frep_rnd)
qed

lemma std_dev_nonneg: assumes "f_nonneg (sp_fastVariance st)" shows "f_nonneg (std_dev st)"
proof -
  have "fl (1 / 10 ^ 12) = Fin (rnd (1 / 10 ^ 12))" "0 \<le> rnd (1 / 10 ^ 12)"
    by (rule fl_finite, simp, rule rnd_nonneg, simp)
  then have "f_nonneg (math_Max (sp_fastVariance st) (fl (1 / 10 ^ 12)))"
    using assms by (cases "sp_fastVariance st") (auto simp: math_Max_def)
  then show ?thesis unfolding std_dev_def by (cases "math_Max (sp_fastVariance st) (fl (1 / 10 ^ 12))") (auto intro!: fl_nonneg)
qed

lemma tiny_btw: "fbtw (1 / 2 ^ 40) (fl (1 / 10 ^ 12)) 1"
proof -
  have "fl (1 / 10 ^ 12) = Fin (rnd (1 / 10 ^ 12))" by (rule fl_finite) simp
  moreover have "1 / 2 ^ 40 \<le> rnd (1 / 10 ^ 12)"
    using frep_pow2 [of "- 40"] by (intro rnd_ge) (simp_all add: power_int_minus)
  moreover have "rnd (1 / 10 ^ 12) \<le> 1" by (intro rnd_le) simp_all
  ultimately show ?thesis by simp
qed

lemma normalised_diff:
  assumes "fbtw (- (2 ^ 24)) d (2 ^ 24)" "f_nonneg s" "fbtw (1 / 2 ^ 40) eps 1"
  shows "fbtw (- (2 ^ 64)) (d / math_Max s eps) (2 ^ 64)"
proof -
  obtain r where r: "d = Fin r" "\<bar>r\<bar> \<le> 2 ^ 24" using assms(1) by (auto elim!: fbtwE simp: abs_le_iff)
  obtain t where t: "eps = Fin t" "1 / 2 ^ 40 \<le> t" using assms(3) by (rule fbtwE)
  consider "math_Max s eps = PInf" | u where "math_Max s eps = Fin u" "1 / 2 ^ 40 \<le> u"
  proof (cases s)
    case (Fin q)
    then have "math_Max s eps = Fin (max q t)" using t(1) by simp
    then show ?thesis using t(2) that(2) by force
  qed (use assms(2) t(1) that(1) in \<open>auto simp: math_Max_def\<close>)
  then show ?thesis
  proof cases
    case 2
    have u0: "0 < u" using 2(2) by (smt (verit) divide_pos_pos zero_less_power)
    have "\<bar>r / u\<bar> = \<bar>r\<bar> / u" using u0 by simp
    also have "\<dots> \<le> 2 ^ 24 / (1 / 2 ^ 40)" using r(2) 2(2) by (intro frac_le) auto
    finally have "\<bar>r / u\<bar> \<le> 2 ^ 64" by simp
    then have "- (2 ^ 64) \<le> r / u" "r / u \<le> 2 ^ 64" by linarith+
    then show ?thesis using r(1) 2(1) u0 by (auto intro!: fbtw_fl simp: fbound_dyadic(2) [of 64, simplified])
  qed (simp add: r(1))
qed

lemma cusum_ok:
  assumes "fbtw 0 c 5" "fbtw (- (2 ^ 64)) d (2 ^ 64)"
  shows "fbtw 0 (math_Max 0 (c + d - cusumSlack)) (2 ^ 66)" "fbtw 0 (math_Max 0 (c - d - cusumSlack)) (2 ^ 66)"
proof -
  note fb = fbound_dyadic(2) [of 65, simplified] fbound_dyadic(2) [of 66, simplified]
  have s: "fbtw 0 cusumSlack 1" unfolding cusumSlack_def by (rule fbtw_fl) simp_all
  have "fbtw (- (2 ^ 65)) (c + d) (2 ^ 65)" "fbtw (- (2 ^ 65)) (c - d) (2 ^ 65)"
    using fbtw_add [OF assms] fbtw_diff [OF assms] by (simp_all add: fb)
  then have "fbtw (- (2 ^ 66)) (c + d - cusumSlack) (2 ^ 66)" "fbtw (- (2 ^ 66)) (c - d - cusumSlack) (2 ^ 66)"
    using fbtw_diff [OF _ s] by (simp_all add: fb)
  then show "fbtw 0 (math_Max 0 (c + d - cusumSlack)) (2 ^ 66)" "fbtw 0 (math_Max 0 (c - d - cusumSlack)) (2 ^ 66)"
    by (auto simp: zero_f64_def elim!: fbtwE)
qed

lemma variance_ok:
  assumes "weights a b" "0 < b" "f_nonneg v" "fbtw (- (2 ^ 24)) d (2 ^ 24)"
  shows "f_nonneg (b * (v + a * d * d))"
proof -
  obtain p q where ab: "a = Fin p" "b = Fin q" "0 \<le> p" "p \<le> 1" "0 < q"
    using assms(1,2) by (auto simp: weights_def weight_pair_def weight_ok_def zero_f64_def)
  obtain r where r: "d = Fin r" "\<bar>r\<bar> \<le> 2 ^ 24" using assms(4) by (auto elim!: fbtwE simp: abs_le_iff)
  have "\<bar>p * r\<bar> \<le> 1 * 2 ^ 24" unfolding abs_mult using ab r by (intro mult_mono) auto
  then have pr: "a * d = Fin (rnd (p * r))" using ab r by (simp add: fl_finite)
  have "0 \<le> rnd (p * r) * r"
  proof (cases "0 \<le> r")
    case True
    then have "0 \<le> rnd (p * r)" using ab by (intro rnd_nonneg) simp
    then show ?thesis using True by simp
  next
    case False
    then have "0 \<le> p * - r" using ab by (intro mult_nonneg_nonneg) auto
    then have "0 \<le> rnd (- (p * r))" by (intro rnd_nonneg) simp
    then show ?thesis using False by (simp add: rnd_minus mult_nonpos_nonpos)
  qed
  then have "f_nonneg (Fin (rnd (p * r)) * d)" unfolding r(1) by (simp add: fl_nonneg)
  then have "f_nonneg (a * d * d)" by (simp only: pr)
  with assms(3) have "f_nonneg (v + a * d * d)" by (rule f_nonneg_add)
  then have "f_nonneg ((v + a * d * d) * b)" using ab by (simp add: f_nonneg_mult)
  moreover have "b * x = x * b" for x by (cases x) (auto simp: ab(2) mult.commute)
  ultimately show ?thesis by simp
qed

lemma winsorised_diff: "rate x \<Longrightarrow> rate y \<Longrightarrow> fbtw (- (2 ^ 24)) (x - y) (2 ^ 24)"
  by (auto simp: rate_def intro!: fbtw_fl)

lemma next_signal_ok:
  assumes "alphas_ok sp" "rate (sw_LastRequestRate w)" "signal_ok st"
  shows "signal_ok (fst (next_signal sp now w st)) \<and> signal_out_ok (snd (next_signal sp now w st))"
proof -
  have al: "weights (sr_fastAlpha sp) (1 - sr_fastAlpha sp)" "0 < 1 - sr_fastAlpha sp"
    "weights (sr_slowAlpha sp) (1 - sr_slowAlpha sp)" "f_nonneg (sr_spikeK sp)"
    "\<exists>k. sr_spikeK sp = Fin k \<and> 0 < k"
    using assms(1) by (auto simp: alphas_ok_def)
  have st: "rate (sp_fastEWMA st)" "rate (sp_slowEWMA st)" "f_nonneg (sp_fastVariance st)"
    "fbtw 0 (sp_cusumPos st) 5" "fbtw 0 (sp_cusumNeg st) 5" using assms(3) by (auto simp: signal_ok_def)
  have s: "f_nonneg (std_dev st)" using st(3) by (rule std_dev_nonneg)
  have "f_nonneg (std_dev st * sr_spikeK sp)" using al(5) s by (auto intro: f_nonneg_mult)
  moreover have "sr_spikeK sp * std_dev st = std_dev st * sr_spikeK sp"
    using al(5) by (cases "std_dev st") (auto simp: mult.commute)
  ultimately have "f_nonneg (sr_spikeK sp * std_dev st)" by simp
  define fx where "fx = winsorise (sr_spikeK sp * std_dev st) (sp_fastEWMA st) (sw_LastRequestRate w)"
  have fx: "rate fx" unfolding fx_def by (rule winsorise_rate) fact+
  define d where "d = fx - sp_fastEWMA st"
  have d: "fbtw (- (2 ^ 24)) d (2 ^ 24)" unfolding d_def by (rule winsorised_diff [OF fx st(1)])
  define nd where "nd = d / math_Max (std_dev st) (fl (1 / 10 ^ 12))"
  have nd: "fbtw (- (2 ^ 64)) nd (2 ^ 64)" unfolding nd_def by (rule normalised_diff [OF d s tiny_btw])
  define cp where "cp = math_Max 0 (sp_cusumPos st + nd - cusumSlack)"
  define cn where "cn = math_Max 0 (sp_cusumNeg st - nd - cusumSlack)"
  have c: "fbtw 0 cp (2 ^ 66)" "fbtw 0 cn (2 ^ 66)" unfolding cp_def cn_def by (rule cusum_ok [OF st(4) nd] cusum_ok [OF st(5) nd])+
  define reset where "reset \<longleftrightarrow> cusumThreshold < cp \<or> cusumThreshold < cn"
  have c': "fbtw 0 (if reset then 0 else cp) 5" "fbtw 0 (if reset then 0 else cn) 5"
    using c by (auto simp: reset_def cusumThreshold_def zero_f64_def elim!: fbtwE)
  define fast where "fast = sr_fastAlpha sp * fx + (1 - sr_fastAlpha sp) * sp_fastEWMA st"
  define slow where "slow = sr_slowAlpha sp * fx + (1 - sr_slowAlpha sp) * sp_slowEWMA st"
  define var where "var = (1 - sr_fastAlpha sp) * (sp_fastVariance st + sr_fastAlpha sp * d * d)"
  have r: "rate fast" "rate slow" "f_nonneg var"
    unfolding fast_def slow_def var_def
    by (rule weighted_rate [OF al(1) fx st(1)], rule weighted_rate [OF al(3) fx st(2)], rule variance_ok [OF al(1,2) st(3) d])
  have eqs: "cusumThreshold < math_Max 0 (sp_cusumPos st + d / math_Max (std_dev st) (fl (1 / 10 ^ 12)) - cusumSlack) \<or>
      cusumThreshold < math_Max 0 (sp_cusumNeg st - d / math_Max (std_dev st) (fl (1 / 10 ^ 12)) - cusumSlack) \<longleftrightarrow> reset"
    by (simp add: reset_def cp_def cn_def nd_def)
  show ?thesis
    unfolding next_signal_def Let_def fx_def [symmetric] d_def [symmetric] nd_def [symmetric] cp_def [symmetric]
      cn_def [symmetric] reset_def [symmetric] fast_def [symmetric] slow_def [symmetric] var_def [symmetric]
    using r c' by (simp add: signal_ok_def signal_out_ok_def)
qed

lemma first_signal_ok:
  assumes "rate (sw_LastRequestRate w)" "signal_ok st"
  shows "signal_ok (fst (first_signal now w st)) \<and> signal_out_ok (snd (first_signal now w st))"
proof -
  have max: "f_nonneg (math_Max x 1)" if "x \<noteq> NaN" for x
    using that by (cases x) (auto simp: math_Max_def one_f64_def)
  have "f_nonneg (math_Max (sw_LastRequestRate w * fl 0.01) 1)"
    by (rule max) (use assms(1) in \<open>auto simp: rate_def fl_finite\<close>)
  moreover have "rate 0" by (simp add: rate_def zero_f64_def)
  ultimately show ?thesis
    using assms by (auto simp: first_signal_def Let_def signal_ok_def signal_out_ok_def empty_signal_def zero_f64_def)
qed

section \<open>The processor\<close>

definition processor_ok :: "SignalProcessor \<Rightarrow> bool" where
  "processor_ok sp \<longleftrightarrow> alphas_ok sp \<and> length (sr_shards sp) = signalShards \<and>
     (\<forall>sh \<in> set (sr_shards sp). \<forall>(x, st) \<in> set sh. signal_ok st)"

lemma signalShardFor_less: "signalShardFor sid < signalShards"
  using queueShardFor_less [of sid] by (simp add: signalShardFor_def queueShardFor_def signalShards_def queueShards_def)

lemma Update_signal_ok:
  assumes "processor_ok sp" "rate (sw_LastRequestRate w)"
  shows "processor_ok (fst (Update_signal now w sp)) \<and> signal_out_ok (snd (Update_signal now w sp))"
proof -
  define k where "k = signalShardFor (sw_ServiceID w)"
  have k: "k < length (sr_shards sp)" using assms(1) signalShardFor_less by (simp add: k_def processor_ok_def)
  define sh where "sh = sr_shards sp ! k"
  define st where "st = (case map_of sh (sw_ServiceID w) of Some st \<Rightarrow> st | None \<Rightarrow> new_signal_state)"
  have sh: "\<forall>(x, st) \<in> set sh. signal_ok st" using assms(1) k by (auto simp: sh_def processor_ok_def)
  have "signal_ok new_signal_state" by (simp add: signal_ok_def new_signal_state_def zero_f64_def rate_def)
  then have st: "signal_ok st" using sh by (auto simp: st_def split: option.split dest!: map_of_SomeD)
  define p where "p = (if sp_initialized st then next_signal sp now w st else first_signal now w st)"
  have p: "signal_ok (fst p) \<and> signal_out_ok (snd p)"
    using next_signal_ok [OF _ assms(2) st] first_signal_ok [OF assms(2) st] assms(1)
    by (simp add: p_def processor_ok_def)
  have upd: "Update_signal now w sp =
      (sp\<lparr> sr_shards := (sr_shards sp)[k := AList.update (sw_ServiceID w) (fst p) sh] \<rparr>, snd p)"
    by (simp add: Update_signal_def Let_def split_beta k_def sh_def st_def p_def)
  have "\<forall>(x, s) \<in> set (AList.update (sw_ServiceID w) (fst p) sh). signal_ok s"
    using sh p by (auto dest!: set_updateD)
  then show ?thesis
    using assms(1) p unfolding upd
    by (auto simp: processor_ok_def alphas_ok_def dest!: set_update_subset_insert [THEN subsetD])
qed

fun signal_runs :: "(gotime \<times> ServiceWindow) list \<Rightarrow> SignalProcessor \<Rightarrow> SignalProcessor \<times> SignalState list" where
  "signal_runs [] sp = (sp, [])"
| "signal_runs ((now, w) # us) sp =
    (let (sp, s) = Update_signal now w sp; (sp, ss) = signal_runs us sp in (sp, s # ss))"

lemma signal_runs_ok:
  "processor_ok sp \<Longrightarrow> \<forall>u \<in> set us. rate (sw_LastRequestRate (snd u)) \<Longrightarrow>
   processor_ok (fst (signal_runs us sp)) \<and> (\<forall>s \<in> set (snd (signal_runs us sp)). signal_out_ok s)"
proof (induction us arbitrary: sp)
  case (Cons u us)
  obtain now w where u: "u = (now, w)" by (cases u)
  have r: "processor_ok (fst (Update_signal now w sp))" "signal_out_ok (snd (Update_signal now w sp))"
    using Update_signal_ok Cons.prems u by auto
  show ?case using Cons.IH [OF r(1)] Cons.prems(2) r(2) u by (simp add: Let_def split_beta)
qed simp

lemma New_processor_ok:
  assumes "weight_ok a" "a \<le> 1 - 1 / 2 ^ 40" "weight_ok b" "b \<le> 1 - 1 / 2 ^ 40" "0 < k"
  shows "processor_ok (NewSignalProcessor (Fin a) (Fin b) (Fin k))"
proof -
  have "1 / 2 ^ 40 \<le> rnd (1 - a)"
    using assms(2) frep_pow2 [of "- 40"] by (intro rnd_ge) (simp_all add: power_int_minus)
  then have "0 < rnd (1 - a)" by (smt (verit) divide_pos_pos zero_less_power)
  moreover have "0 \<le> a" "a \<le> 1" using assms(1) by (auto simp: weight_ok_def)
  ultimately have "0 < 1 - Fin a" by (simp add: one_f64_def zero_f64_def fl_finite)
  then show ?thesis
    using assms weights_complement
    by (simp add: processor_ok_def alphas_ok_def NewSignalProcessor_def)
qed



end
