(* ===== verification/StabilityModel.thy ===== *)
theory StabilityModel
  imports SignalModel
begin

text \<open>
  \<open>internal/modelling/stability.go\<close>: the stability assessment of one service, from its
  queue model, its signal state and the topology.  The network field is the map from
  services to the densities of the cells of their edge; the program never constructs one
  (the engine's field is nil), so both branches are modelled and the field is any such map.
\<close>

type_synonym network_densities = "(string, f64 list) gomap"

record zone_risk =
  zr_zone :: string
  zr_risk :: f64
  zr_margin :: f64

definition effective_rho :: "QueueModel \<Rightarrow> f64" where
  "effective_rho q = qm_Utilisation q + qm_Hazard q * fl 0.2 + qm_Reservoir q * fl 0.1"

definition field_zone :: "f64 list \<Rightarrow> zone_risk" where
  \<comment> \<open>\<open>RhoCritical\<close> is the constant 0.5; its multiples are constant expressions\<close>
  "field_zone cells =
    (let maxRho = fold (\<lambda>c m. if m < c then c else m) cells 0
     in \<lparr> zr_zone = (if fl 0.5 \<le> maxRho then ''collapse'' else if fl 0.4 \<le> maxRho then ''warning'' else ''safe''),
          zr_risk = sigmoid ((maxRho - fl 0.475) / fl 0.02),
          zr_margin = 1 - math_Min (maxRho / fl 0.5) 1 \<rparr>)"

definition fallback_zone :: "f64 \<Rightarrow> f64 \<Rightarrow> zone_risk" where
  "fallback_zone threshold effectiveRho =
     \<lparr> zr_zone = (if threshold \<le> effectiveRho then ''collapse''
                  else if threshold * fl 0.83 \<le> effectiveRho then ''warning'' else ''safe''),
       zr_risk = sigmoid ((effectiveRho - threshold * fl 0.95) / fl 0.04),
       zr_margin = 1 - effectiveRho \<rparr>"

definition collapse_zone :: "network_densities option \<Rightarrow> f64 \<Rightarrow> QueueModel \<Rightarrow> zone_risk" where
  "collapse_zone nf threshold q =
    (case nf of
       None \<Rightarrow> fallback_zone threshold (effective_rho q)
     | Some edges \<Rightarrow> (case map_of edges (qm_ServiceID q) of
         None \<Rightarrow> fallback_zone threshold (effective_rho q)
       | Some cells \<Rightarrow> field_zone cells))"

definition oscillation_risk :: "SignalState \<Rightarrow> f64" where
  "oscillation_risk sig =
    (let s = (if 0 < sg_SlowEWMA sig
              then let relativeDivergence = \<bar>sg_FastEWMA sig - sg_SlowEWMA sig\<bar> / sg_SlowEWMA sig;
                       varianceSignal =
                         (if 0 < sg_FastEWMA sig
                          then math_Sqrt (math_Max (sg_EWMAVariance sig) 0) / math_Max (sg_FastEWMA sig) (fl 0.000001)
                          else 0)
                   in math_Sqrt ((relativeDivergence * relativeDivergence + varianceSignal * varianceSignal) / fl 2)
              else 0)
     in math_Min (s * fl 4) 1)"

definition outboundFeedbackGain :: "string \<Rightarrow> GraphSnapshot \<Rightarrow> f64" where
  "outboundFeedbackGain serviceID snap =
    (let out = filter (\<lambda>e. eg_Source e = serviceID \<and> 0 < eg_Weight e) (gs_Edges snap);
         totalWeight = fold (\<lambda>e s. s + eg_Weight e) out 0
     in if out = [] then 0 else math_Min (totalWeight / f64_of_int (int (length out))) 1)"

definition predicted_collapse :: "QueueModel \<Rightarrow> f64" where
  "predicted_collapse q =
    (if qm_Utilisation q < 1 \<and> fl 0.000001 < qm_UtilisationTrend q
     then (1 - qm_Utilisation q) / qm_UtilisationTrend q * fl 1000
     else if 1 \<le> qm_Utilisation q then 0 else - 1)"

definition amplified_risk :: "f64 \<Rightarrow> f64 \<Rightarrow> f64 \<Rightarrow> f64 \<Rightarrow> f64" where
  "amplified_risk threshold rho gain risk =
    (if fl 0.5 < gain \<and> threshold * fl 0.75 < rho then math_Min (risk * (1 + gain * fl 0.4)) 1 else risk)"

definition pressured_margin :: "f64 \<Rightarrow> f64 \<Rightarrow> f64" where
  "pressured_margin pressure margin =
    (if fl 0.3 < pressure
     then math_Max (margin * (1 - sigmoid ((pressure - fl 0.3) / fl 0.2) * fl 0.2)) 0 else margin)"

definition RunStabilityAssessment ::
  "gotime \<Rightarrow> QueueModel \<Rightarrow> SignalState \<Rightarrow> GraphSnapshot \<Rightarrow> network_densities option \<Rightarrow> f64 \<Rightarrow> StabilityAssessment" where
  "RunStabilityAssessment now q sig topoSnap nf threshold =
    (let rho = qm_Utilisation q;
         z = collapse_zone nf threshold q;
         osc = oscillation_risk sig;
         gain = outboundFeedbackGain (qm_ServiceID q) topoSnap;
         risk = amplified_risk threshold rho gain (zr_risk z)
     in \<lparr> sa_ServiceID = qm_ServiceID q, sa_ComputedAt = now,
          sa_StabilityMargin = pressured_margin (qm_UpstreamPressure q) (zr_margin z),
          sa_CollapseRisk = risk, sa_OscillationRisk = osc, sa_FeedbackGain = gain,
          sa_IsUnstable = (fl 0.85 < zr_risk z \<or> (fl 0.6 < osc \<and> fl 0.7 < rho) \<or> 1 \<le> rho),
          sa_PredictedCollapseMs = predicted_collapse q,
          sa_CascadeAmplificationScore = gain * risk * (1 + osc),
          sa_CollapseZone = zr_zone z,
          sa_TrendAdjustedMargin = 1 - math_Max rho (rho + qm_UtilisationTrend q * fl 20),
          sa_StabilityDerivative = zr_risk z * (1 - zr_risk z) / fl 0.04 * qm_UtilisationTrend q \<rparr>)"

section \<open>The ranges of the assessment\<close>

lemma sigmoid_any: "x \<noteq> NaN \<Longrightarrow> unit_btw (sigmoid x)"
  unfolding sigmoid_def by (intro recip_unit f_nonneg_Exp) (cases x; simp)

lemma sigmoid_scaled:
  assumes "x \<noteq> NaN" "fbtw lo y hi" "fbtw a c b" "0 < a" shows "unit_btw (sigmoid ((x - y) / c))"
proof -
  obtain s where s: "y = Fin s" using assms(2) by (rule fbtwE)
  obtain t where t: "c = Fin t" "0 < t" using assms(3,4) by (auto elim!: fbtwE)
  have "x - y \<noteq> NaN" using assms(1) by (cases x) (auto simp: s minus_f64_def)
  then show ?thesis using t by (intro sigmoid_any) (cases "x - y"; auto)
qed

lemma tiny_divisors: "fbtw (1 / 128) (fl 0.02) 1" "fbtw (1 / 64) (fl 0.04) 1" "fbtw (1 / 8) (fl 0.2) 1"
proof -
  have f: "frep (1 / 128)" "frep (1 / 64)" using frep_pow2 [of "- 7"] frep_pow2 [of "- 6"] by (simp_all add: power_int_minus)
  have b: "1 / 128 \<le> big" "1 / 64 \<le> big" "1 / 8 \<le> big" using big_ge(3) by linarith+
  show "fbtw (1 / 128) (fl 0.02) 1" "fbtw (1 / 64) (fl 0.04) 1" "fbtw (1 / 8) (fl 0.2) 1"
    using f b by (auto intro!: fbtw_fl simp: fbound_def)
qed

definition stability_inputs :: "QueueModel \<Rightarrow> SignalState \<Rightarrow> GraphSnapshot \<Rightarrow> bool" where
  "stability_inputs q sig snap \<longleftrightarrow>
     model_ok q \<and> fbtw 0 (qm_Hazard q) big \<and> fbtw 0 (qm_Reservoir q) big \<and> signal_out_ok sig \<and>
     (\<forall>e \<in> set (gs_Edges snap). unit_btw (eg_Weight e)) \<and> length (gs_Edges snap) \<le> 2 ^ 50"

lemma effective_rho_nonneg:
  assumes "stability_inputs q sig snap" shows "f_nonneg (effective_rho q)"
proof -
  have f: "f_nonneg (x * fl c)" if "fbtw 0 x big" "0 \<le> c" "c \<le> 1" for x c
    using fbtw_mult [OF that(1) fbtw_fl [of 0 c 1], of 0 big] that by (auto dest: fbtw_nonneg)
  show ?thesis
    using assms unfolding effective_rho_def stability_inputs_def model_ok_def
    by (intro f_nonneg_add f) (auto dest: fbtw_nonneg)
qed

lemma collapse_zone_risk:
  assumes "stability_inputs q sig snap" "fbtw 0 threshold 1"
    "\<And>edges x cells c. nf = Some edges \<Longrightarrow> map_of edges x = Some cells \<Longrightarrow> c \<in> set cells \<Longrightarrow> unit_btw c"
  shows "unit_btw (zr_risk (collapse_zone nf threshold q))"
proof -
  have "effective_rho q \<noteq> NaN" using effective_rho_nonneg [OF assms(1)] by (rule f_nonneg_not_NaN)
  moreover have "fbtw 0 (threshold * fl 0.95) 1" by (rule fbtw_mult [OF assms(2) fbtw_fl [of 0 _ 1]]) simp_all
  ultimately have "unit_btw (zr_risk (fallback_zone threshold (effective_rho q)))"
    unfolding fallback_zone_def zone_risk.select_convs by (rule sigmoid_scaled [OF _ _ tiny_divisors(2)]) simp
  moreover have "unit_btw (zr_risk (field_zone cells))" if "\<forall>c \<in> set cells. unit_btw c" for cells
  proof -
    have "unit_btw (fold (\<lambda>c m. if m < c then c else m) cells 0)"
      by (rule fold_inv [where P = unit_btw]) (use that in auto)
    then have "fold (\<lambda>c m. if m < c then c else m) cells 0 \<noteq> NaN" by (auto simp: unit_btw_def)
    moreover have "fbtw 0 (fl 0.475) 1" by (rule fbtw_fl) simp_all
    ultimately show ?thesis
      unfolding field_zone_def Let_def zone_risk.select_convs by (rule sigmoid_scaled [OF _ _ tiny_divisors(1)]) simp
  qed
  ultimately show ?thesis
    using assms(3) by (auto simp: collapse_zone_def split: option.split)
qed

lemma oscillation_unit: assumes "signal_out_ok sig" shows "fbtw 0 (oscillation_risk sig) 1"
proof -
  have sq: "f_nonneg (math_Sqrt x)" if "f_nonneg x" for x using that by (cases x) (auto intro!: fl_nonneg)
  have mul: "f_nonneg (x * x)" if "f_nonneg x" for x using that by (cases x) (auto intro!: fl_nonneg)
  have mx: "f_nonneg (math_Max x 0)" if "f_nonneg x" for x
    using that by (cases x) (auto simp: math_Max_def zero_f64_def)
  obtain f s where f: "sg_FastEWMA sig = Fin f" "0 \<le> f" "f \<le> 2 ^ 24" and s: "sg_SlowEWMA sig = Fin s" "0 \<le> s" "s \<le> 2 ^ 24"
    using assms by (auto simp: signal_out_ok_def rate_def)
  have "fbtw (- (2 ^ 24)) (Fin f - Fin s) (2 ^ 24)" using f s by (auto intro!: fbtw_fl)
  then have "f_nonneg \<bar>Fin f - Fin s\<bar>" by (auto elim!: fbtwE)
  then have rel: "f_nonneg (\<bar>Fin f - Fin s\<bar> / Fin s)" if "0 < s" using that by (intro f_nonneg_divide)
  have "f_nonneg (math_Sqrt (math_Max (sg_EWMAVariance sig) 0))" using assms by (intro sq mx) (simp add: signal_out_ok_def)
  moreover have "\<exists>m. math_Max (Fin f) (fl 0.000001) = Fin m \<and> 0 < m" if "0 < f"
    using that fl_finite [of "0.000001"] by (intro exI [of _ "max f (rnd 0.000001)"]) auto
  ultimately have var: "f_nonneg (math_Sqrt (math_Max (sg_EWMAVariance sig) 0) / math_Max (Fin f) (fl 0.000001))" if "0 < f"
    using that by (auto intro: f_nonneg_divide)
  have "f_nonneg (math_Sqrt ((a * a + b * b) / fl 2))" if "f_nonneg a" "f_nonneg b" for a b
    using that by (intro sq) (simp add: f_nonneg_divide f_nonneg_add mul)
  then have "f_nonneg (math_Sqrt ((a * a + b * b) / fl 2) * fl 4)" if "f_nonneg a" "f_nonneg b" for a b
    using that by (simp add: f_nonneg_mult)
  then have both: "fbtw 0 (math_Min (math_Sqrt ((a * a + b * b) / fl 2) * fl 4) 1) 1" if "f_nonneg a" "f_nonneg b" for a b
    using that min_1_unit by (simp add: unit_btw_def)
  have "fbtw 0 (math_Min (math_Sqrt ((a * a + Fin 0) / fl 2) * fl 4) 1) 1" if "f_nonneg a" for a
    using both [of a "Fin 0"] that by simp
  moreover have "fbtw 0 (math_Min (0 * fl 4) 1) 1" by (simp add: zero_f64_def one_f64_def)
  ultimately show ?thesis
    using rel var both unfolding oscillation_risk_def Let_def f(1) s(1)
    by (cases "0 < s"; cases "0 < f") (simp_all add: zero_f64_def)
qed

lemma gain_unit:
  assumes "\<forall>e \<in> set (gs_Edges snap). unit_btw (eg_Weight e)" "length (gs_Edges snap) \<le> 2 ^ 50"
  shows "fbtw 0 (outboundFeedbackGain x snap) 1"
proof -
  define out where "out = filter (\<lambda>e. eg_Source e = x \<and> 0 < eg_Weight e) (gs_Edges snap)"
  have "f_nonneg (fold (\<lambda>e s. s + eg_Weight e) out 0)"
    by (rule fold_inv [where P = f_nonneg]) (use assms in \<open>auto simp: out_def intro!: f_nonneg_add dest!: bspec dest: unit_nonneg\<close>)
  moreover have "length out \<le> 2 ^ 50" using assms(2) length_filter_le le_trans unfolding out_def by blast
  then have "\<bar>int (length out)\<bar> \<le> 2 ^ 53" by simp
  then have "f64_of_int (int (length out)) = Fin (real (length out))" using fl_int by simp
  ultimately have "out \<noteq> [] \<Longrightarrow> f_nonneg (fold (\<lambda>e s. s + eg_Weight e) out 0 / f64_of_int (int (length out)))"
    by (simp add: f_nonneg_divide)
  then have "out \<noteq> [] \<Longrightarrow> fbtw 0 (math_Min (fold (\<lambda>e s. s + eg_Weight e) out 0 / f64_of_int (int (length out))) 1) 1"
    using min_1_unit by (simp add: unit_btw_def)
  moreover have "fbtw 0 0 1" by (simp add: zero_f64_def)
  ultimately show ?thesis
    unfolding outboundFeedbackGain_def Let_def out_def [symmetric] by (cases "out = []") simp_all
qed

lemma amplified_unit:
  assumes "fbtw 0 gain 1" "fbtw 0 risk 1" shows "fbtw 0 (amplified_risk threshold rho gain risk) 1"
proof -
  have "fbtw 0 (gain * fl 0.4) 1" by (rule fbtw_mult [OF assms(1) fbtw_fl [of 0 _ 1]]) simp_all
  then have "fbtw 0 (1 + gain * fl 0.4) 2"
    by (intro fbtw_add [where a = 1 and b = 1 and c = 0 and d = 1]) (simp_all add: one_f64_def)
  then have "fbtw 0 (risk * (1 + gain * fl 0.4)) 2" by (rule fbtw_mult [OF assms(2)]) simp_all
  then have "fbtw 0 (math_Min (risk * (1 + gain * fl 0.4)) 1) 1" by (auto simp: one_f64_def elim!: fbtwE)
  then show ?thesis using assms(2) by (simp add: amplified_risk_def)
qed

text \<open>
  The stability assessment is a set of risks.  For any queue model and signal state in
  the ranges the two models guarantee, any topology with normalised weights and any network
  field with densities in the unit interval (or none), the collapse risk, the oscillation
  risk and the feedback gain are finite and in the unit interval and the cascade score is
  at most two; without a field the zone is collapse exactly from the threshold on, and a
  utilisation of one or more is always reported as unstable.
\<close>

theorem stability_in_range:
  fixes now :: gotime
  assumes "stability_inputs q sig snap" "fbtw 0 threshold 1"
    "\<And>edges x cells c. nf = Some edges \<Longrightarrow> map_of edges x = Some cells \<Longrightarrow> c \<in> set cells \<Longrightarrow> unit_btw c"
  defines "sa \<equiv> RunStabilityAssessment now q sig snap nf threshold"
  shows "fbtw 0 (sa_CollapseRisk sa) 1 \<and> fbtw 0 (sa_OscillationRisk sa) 1 \<and> fbtw 0 (sa_FeedbackGain sa) 1 \<and>
    fbtw 0 (sa_CascadeAmplificationScore sa) 2 \<and>
    (nf = None \<longrightarrow> (sa_CollapseZone sa = ''collapse'' \<longleftrightarrow> threshold \<le> effective_rho q)) \<and>
    (1 \<le> qm_Utilisation q \<longrightarrow> sa_IsUnstable sa)"
proof -
  have z: "fbtw 0 (zr_risk (collapse_zone nf threshold q)) 1"
    using collapse_zone_risk [OF assms(1-3)] by (simp add: unit_btw_def)
  have o: "fbtw 0 (oscillation_risk sig) 1" and g: "fbtw 0 (outboundFeedbackGain (qm_ServiceID q) snap) 1"
    using assms(1) oscillation_unit gain_unit by (auto simp: stability_inputs_def)
  note r = amplified_unit [OF g z, of threshold "qm_Utilisation q"]
  have "fbtw 0 (outboundFeedbackGain (qm_ServiceID q) snap *
      amplified_risk threshold (qm_Utilisation q) (outboundFeedbackGain (qm_ServiceID q) snap)
        (zr_risk (collapse_zone nf threshold q))) 1"
    by (rule fbtw_mult [OF g r]) simp_all
  moreover have "fbtw 0 (1 + oscillation_risk sig) 2"
    using o by (intro fbtw_add [where a = 1 and b = 1 and c = 0 and d = 1]) (simp_all add: one_f64_def)
  ultimately have c: "fbtw 0 (outboundFeedbackGain (qm_ServiceID q) snap *
      amplified_risk threshold (qm_Utilisation q) (outboundFeedbackGain (qm_ServiceID q) snap)
        (zr_risk (collapse_zone nf threshold q)) * (1 + oscillation_risk sig)) 2"
    by (rule fbtw_mult) simp_all
  show ?thesis
    unfolding sa_def RunStabilityAssessment_def Let_def StabilityAssessment.select_convs
    using r o g c by (auto simp: collapse_zone_def fallback_zone_def)
qed

definition idle_queue :: QueueModel where
  "idle_queue = empty_model \<lparr> ck_create = 0, ck_since = 0, ck_tick = 0, ck_computed = 0, ck_stale = 0 \<rparr> (caller ''a'' ''b'')"

definition idle_signal :: SignalState where
  "idle_signal = empty_signal 0 (caller ''a'' ''b'')"

lemma idle_inputs: "stability_inputs idle_queue idle_signal (Snapshot_graph 0 (\<lambda>i. []) New_graph)"
  using sample_confidence_unit [of 1]
  by (simp add: stability_inputs_def idle_queue_def idle_signal_def empty_model_def empty_signal_def model_ok_def
      signal_out_ok_def rate_def zero_f64_def Snapshot_graph_def New_graph_def flat_edges_def caller_def)

theorem stability_in_range_witness:
  "fbtw 0 (sa_CollapseRisk (RunStabilityAssessment 0 idle_queue idle_signal
     (Snapshot_graph 0 (\<lambda>i. []) New_graph) None (Fin (7 / 8)))) 1"
  using stability_in_range [OF idle_inputs, of "Fin (7 / 8)" None 0] by simp

section \<open>The order of amplification and classification\<close>

lemma fbound_div_pow2: assumes "\<bar>i\<bar> \<le> 2 ^ 30" "k \<le> 900" shows "fbound (real_of_int i / 2 ^ k)"
proof -
  have "\<bar>real_of_int i\<bar> \<le> 2 ^ 30"
  proof -
    have "\<bar>real_of_int i\<bar> = real_of_int \<bar>i\<bar>" by simp
    also have "\<dots> \<le> real_of_int (2 ^ 30)" using assms(1) by (simp only: of_int_le_iff)
    finally show ?thesis by simp
  qed
  moreover have "\<bar>real_of_int i\<bar> / 2 ^ k \<le> \<bar>real_of_int i\<bar> / 1" by (intro divide_left_mono) auto
  then have "\<bar>real_of_int i / 2 ^ k\<bar> \<le> \<bar>real_of_int i\<bar>" by simp
  moreover have "(2 :: real) ^ 30 \<le> big" using numeral_le_big [of "num.Bit0 num.One"] unfolding big_def by simp
  ultimately have "\<bar>real_of_int i / 2 ^ k\<bar> \<le> big" by linarith
  then show ?thesis using assms frep_div_pow2 [of i k] by (simp add: fbound_def)
qed

lemma three_halves: "fbound (3 / 2)" "fl 1.5 = Fin (3 / 2)"
proof -
  show f: "fbound (3 / 2)" using fbound_div_pow2 [of 3 1] by simp
  have "fl (3 / 2) = Fin (3 / 2)" using f by (auto simp: fbound_def intro: fl_frep)
  then show "fl 1.5 = Fin (3 / 2)" by simp
qed

lemma fl_between: "real_of_int i / 2 ^ 14 \<le> x \<Longrightarrow> x \<le> real_of_int j / 2 ^ 14 \<Longrightarrow> \<bar>i\<bar> \<le> 2 ^ 30 \<Longrightarrow> \<bar>j\<bar> \<le> 2 ^ 30 \<Longrightarrow>
    fbtw (real_of_int i / 2 ^ 14) (fl x) (real_of_int j / 2 ^ 14)"
  by (rule fbtw_fl, assumption, assumption) (rule fbound_div_pow2; simp)+

lemma e_bounds: "2 \<le> exp (7 / 8 :: real)" "exp (9 / 8 :: real) \<le> 4"
proof -
  have "1 + 7 / 8 + (7 / 8)\<^sup>2 / 2 \<le> exp (7 / 8 :: real)" by (rule exp_lower_Taylor_quadratic) simp
  then show "2 \<le> exp (7 / 8 :: real)" by (simp add: power2_eq_square)
  have "exp (1 / 8) \<le> 1 + 1 / 8 + (1 / 8 :: real)\<^sup>2" by (rule exp_bound) auto
  then have "exp (1 / 8 :: real) \<le> 1.15" by (simp add: power2_eq_square)
  then have "exp 1 * exp (1 / 8) \<le> 2.75 * (1.15 :: real)" using exp_1_bound by (intro mult_mono) auto
  then show "exp (9 / 8 :: real) \<le> 4" by (simp flip: exp_add)
qed

lemma sigmoid_near_1: assumes "fbtw (7 / 8) x (9 / 8)" shows "fbtw (1 / 2) (sigmoid x) (13 / 16)" "Fin (5 / 8) < sigmoid x"
proof -
  obtain r where r: "x = Fin r" "7 / 8 \<le> r" "r \<le> 9 / 8" using assms by (rule fbtwE)
  have "exp (7 / 8) \<le> exp r" "exp r \<le> exp (9 / 8)" using r by simp_all
  then have "2 \<le> exp r" "exp r \<le> 4" using e_bounds by linarith+
  then have e: "1 / 4 \<le> exp (- r)" "exp (- r) \<le> 1 / 2" by (simp_all add: exp_minus inverse_eq_divide field_simps)
  have "fbtw (1 / 4) (math_Exp (- x)) (1 / 2)" using e r(1) by (auto intro!: fbtw_fl)
  then have "fbtw (5 / 4) (1 + math_Exp (- x)) (3 / 2)"
    using fbound_div_pow2 [of 5 2] fbound_div_pow2 [of 3 1] unfolding one_f64_def
    by (intro fbtw_add [where a = 1 and b = 1 and c = "1 / 4" and d = "1 / 2"]) simp_all
  then have "fbtw (21 / 32) (sigmoid x) (13 / 16)" unfolding sigmoid_def
    using fbound_div_pow2 [of 21 5] fbound_div_pow2 [of 13 4]
    unfolding one_f64_def
    by (intro fbtw_divide [where a = 1 and b = 1 and c = "5 / 4" and d = "3 / 2"]) simp_all
  then show "fbtw (1 / 2) (sigmoid x) (13 / 16)" "Fin (5 / 8) < sigmoid x" by (auto elim!: fbtwE)
qed

definition loaded_queue :: QueueModel where
  "loaded_queue = idle_queue\<lparr> qm_Utilisation := Fin (229 / 256) \<rparr>"

definition one_call :: GraphSnapshot where
  "one_call = \<lparr> gs_CapturedAt = 0, gs_Nodes = [two_node ''a'', two_node ''b''], gs_Edges = [two_edge ''a'' ''b''],
     gs_CriticalPath = \<lparr> cr_Nodes = [], cr_TotalWeight = 0, cr_CascadeRisk = 0 \<rparr> \<rparr>"

text \<open>The risk of the loaded service before the amplification.\<close>

abbreviation loaded_zone :: zone_risk where
  "loaded_zone \<equiv> collapse_zone None (fl 0.9) loaded_queue"

lemma loaded_risk: "fbtw (5 / 8) (zr_risk loaded_zone) (13 / 16)"
proof -
  have rho: "effective_rho loaded_queue = Fin (229 / 256)"
    using fl_frep [of "229 / 256"] fbound_div_pow2 [of 229 8]
    by (simp add: effective_rho_def loaded_queue_def idle_queue_def empty_model_def zero_f64_def fbound_def fl_finite)
  have "fbtw (14745 / 2 ^ 14) (fl 0.9) (14746 / 2 ^ 14)" "fbtw (15564 / 2 ^ 14) (fl 0.95) (15565 / 2 ^ 14)"
    using fl_between [of 14745 "0.9" 14746] fl_between [of 15564 "0.95" 15565] by simp_all
  then have "fbtw (875 / 1024) (fl 0.9 * fl 0.95) (876 / 1024)"
    by (rule fbtw_mult) (use fbound_div_pow2 [of 875 10] fbound_div_pow2 [of 876 10] in simp_all)
  then have "fbtw (40 / 1024) (Fin (229 / 256) - fl 0.9 * fl 0.95) (41 / 1024)"
    by (intro fbtw_diff [where a = "229 / 256" and b = "229 / 256" and c = "875 / 1024" and d = "876 / 1024"])
      (use fbound_div_pow2 [of 40 10] fbound_div_pow2 [of 41 10] in simp_all)
  moreover have "fbtw (655 / 2 ^ 14) (fl 0.04) (656 / 2 ^ 14)" using fl_between [of 655 "0.04" 656] by simp
  ultimately have "fbtw (7 / 8) ((Fin (229 / 256) - fl 0.9 * fl 0.95) / fl 0.04) (9 / 8)"
    by (rule fbtw_divide) (use fbound_div_pow2 [of 7 3] fbound_div_pow2 [of 9 3] in simp_all)
  note s = sigmoid_near_1 [OF this]
  have "zr_risk loaded_zone = sigmoid ((Fin (229 / 256) - fl 0.9 * fl 0.95) / fl 0.04)"
    by (simp add: collapse_zone_def fallback_zone_def rho)
  then show ?thesis using s by (auto elim!: fbtwE)
qed

lemma loaded_limits:
  "fbtw (27 / 32) (fl 0.85) (55 / 64 - 1 / 512)" "fl 0.9 * fl 0.75 < Fin (229 / 256)" "\<not> fl 0.6 < Fin 0"
  "\<not> fl 0.85 < zr_risk loaded_zone"
proof -
  show l: "fbtw (27 / 32) (fl 0.85) (55 / 64 - 1 / 512)"
    using fbound_div_pow2 [of 27 5] fbound_div_pow2 [of 439 9] by (intro fbtw_fl) simp_all
  have "fbtw 0 (fl 0.9 * fl 0.75) (7 / 8)"
    using fbound_div_pow2 [of 7 3] fbound_div_pow2 [of 15 4] fbound_div_pow2 [of 3 2]
    by (intro fbtw_mult [where a = 0 and b = "15 / 16" and c = 0 and d = "3 / 4"] fbtw_fl) simp_all
  then show "fl 0.9 * fl 0.75 < Fin (229 / 256)" by (auto elim!: fbtwE)
  have "fbtw 0 (fl 0.6) 1" by (rule fbtw_fl) simp_all
  then show "\<not> fl 0.6 < Fin 0" by (auto elim!: fbtwE)
  show "\<not> fl 0.85 < zr_risk loaded_zone" using l loaded_risk by (auto elim!: fbtwE)
qed

lemma loaded_amplified: "fbtw (55 / 64) (zr_risk loaded_zone * (1 + Fin 1 * fl 0.4)) 2"
proof -
  have "fbtw (3 / 8) (fl 0.4) (1 / 2)" using fbound_div_pow2 [of 3 3] by (intro fbtw_fl) simp_all
  then have "fbtw (3 / 8) (Fin 1 * fl 0.4) (1 / 2)"
    using fbound_div_pow2 [of 3 3] by (intro fbtw_mult [where a = 1 and b = 1 and c = "3 / 8" and d = "1 / 2"]) simp_all
  then have "fbtw (11 / 8) (1 + Fin 1 * fl 0.4) 2"
    using fbound_div_pow2 [of 11 3] unfolding one_f64_def
    by (intro fbtw_add [where a = 1 and b = 1 and c = "3 / 8" and d = "1 / 2"]) simp_all
  from fbtw_mult [OF loaded_risk this, of "55 / 64" 2] show ?thesis
    using fbound_div_pow2 [of 55 6] by simp
qed

text \<open>
  The service is classified before the cascade amplification.  A service at 89.5
  percent utilisation that sends all its traffic to one callee, with the default threshold
  0.9, is reported with a collapse risk above 0.85, the limit from which a service counts as
  unstable, and as not unstable: the flag was computed from the risk before the
  amplification.
\<close>

theorem stable_with_unstable_risk:
  "let sa = RunStabilityAssessment 0 loaded_queue idle_signal one_call None (fl 0.9)
   in fl 0.85 < sa_CollapseRisk sa \<and> \<not> sa_IsUnstable sa"
proof -
  have g: "outboundFeedbackGain ''a'' one_call = Fin 1"
    by (simp add: outboundFeedbackGain_def one_call_def two_edge_def Let_def one_f64_def zero_f64_def)
  have "oscillation_risk idle_signal = Fin 0"
    by (simp add: oscillation_risk_def idle_signal_def empty_signal_def zero_f64_def one_f64_def)
  moreover have "\<not> 1 \<le> Fin (229 / 256)" by (simp add: one_f64_def)
  ultimately have stable: "\<not> sa_IsUnstable (RunStabilityAssessment 0 loaded_queue idle_signal one_call None (fl 0.9))"
    unfolding RunStabilityAssessment_def Let_def StabilityAssessment.select_convs
    using loaded_limits(3,4) by (simp add: loaded_queue_def)
  have "qm_ServiceID loaded_queue = ''a''" "qm_Utilisation loaded_queue = Fin (229 / 256)"
    by (simp_all add: loaded_queue_def idle_queue_def empty_model_def caller_def)
  then have "sa_CollapseRisk (RunStabilityAssessment 0 loaded_queue idle_signal one_call None (fl 0.9)) =
      math_Min (zr_risk loaded_zone * (1 + Fin 1 * fl 0.4)) 1"
    unfolding RunStabilityAssessment_def Let_def StabilityAssessment.select_convs amplified_risk_def
    using g loaded_limits(2) unit_half(1) by simp
  moreover have "fl 0.85 < math_Min (zr_risk loaded_zone * (1 + Fin 1 * fl 0.4)) 1"
    using loaded_amplified loaded_limits(1) by (auto simp: one_f64_def elim!: fbtwE)
  ultimately show ?thesis using stable by (simp add: Let_def)
qed

end
