(* ===== verification/StreamTimeline.thy ===== *)
theory StreamTimeline
  imports StabilityModel
begin

text \<open>
  \<open>internal/streaming/predict.go\<close> and \<open>sanitize.go\<close>: the predicted utilisation and risk of
  every service for the dashboard, and the sanitiser of the payload.
\<close>

record PredictionPoint =
  pp_TickOffset :: int
  pp_Rho :: f64
  pp_Lower95 :: f64
  pp_Upper95 :: f64

record RiskTimelinePoint =
  rp_TickOffset :: int
  rp_Rho :: f64
  rp_CollapseRisk :: f64

definition sigma_rho :: "ServiceModelBundle \<Rightarrow> f64" where
  "sigma_rho b =
    (let s = sm_ArrivalCoV (mb_Stochastic b) * qm_Utilisation (mb_Queue b) * fl 0.5
     in if s < fl 0.01 then fl 0.01 else s)"

definition projected :: "ServiceModelBundle \<Rightarrow> f64 \<Rightarrow> int \<Rightarrow> f64" where
  "projected b tickSec k =
     qm_Utilisation (mb_Queue b) + qm_UtilisationTrend (mb_Queue b) * f64_of_int k * tickSec"

definition prediction_point :: "ServiceModelBundle \<Rightarrow> f64 \<Rightarrow> int \<Rightarrow> PredictionPoint" where
  "prediction_point b tickSec k =
    (let predRho = math_Max 0 (math_Min (projected b tickSec k) (fl 1.5));
         ciHalf = fl 1.645 * sigma_rho b * math_Sqrt (f64_of_int (k + 1))
     in \<lparr> pp_TickOffset = k, pp_Rho = predRho, pp_Lower95 = math_Max 0 (predRho - ciHalf),
          pp_Upper95 = math_Min (fl 1.5) (predRho + ciHalf) \<rparr>)"

definition BuildPredictionTimeline ::
  "(string, ServiceModelBundle) gomap \<Rightarrow> int \<Rightarrow> f64 \<Rightarrow> (string, PredictionPoint list) gomap" where
  "BuildPredictionTimeline bundles horizon tickSec =
    (let horizon = (if horizon \<le> 0 then 8 else horizon)
     in map (\<lambda>(sid, b). (sid, map (prediction_point b tickSec) [0..horizon])) bundles)"

definition risk_point :: "ServiceModelBundle \<Rightarrow> f64 \<Rightarrow> f64 \<Rightarrow> int \<Rightarrow> RiskTimelinePoint" where
  "risk_point b tickSec threshold k =
    (let projRho = projected b tickSec k;
         projRho = (if projRho < 0 then 0 else projRho);
         projRho = (if fl 1.5 < projRho then fl 1.5 else projRho)
     in \<lparr> rp_TickOffset = k, rp_Rho = projRho,
          rp_CollapseRisk = 1 / (1 + math_Exp (- (projRho - threshold * fl 0.95) / fl 0.04)) \<rparr>)"

definition BuildRiskTimeline ::
  "(string, ServiceModelBundle) gomap \<Rightarrow> int \<Rightarrow> f64 \<Rightarrow> f64 \<Rightarrow> (string, RiskTimelinePoint list) gomap" where
  "BuildRiskTimeline bundles horizon tickSec collapseThreshold =
    (let horizon = (if horizon \<le> 0 then 8 else horizon);
         threshold = (if collapseThreshold \<le> 0 then fl 0.85 else collapseThreshold)
     in map (\<lambda>(sid, b). (sid, map (risk_point b tickSec threshold) [0..horizon])) bundles)"

section \<open>The sanitiser\<close>

definition safeNumber :: "f64 \<Rightarrow> f64" where
  "safeNumber v = (if math_IsNaN v \<or> math_IsInf v then 0 else v)"

text \<open>The numbers of the payload the sanitiser visits.\<close>

record payload_numbers =
  tp_TickHealthMs :: f64
  tp_DegradedFraction :: f64
  tp_JitterMs :: f64
  tp_SaturationCountdowns :: "(string, f64) gomap"
  tp_PredictionHorizon :: "(string, f64) gomap"
  tp_PressureHeatmap :: "(string, f64) gomap"

definition sanitize_map :: "(string, f64) gomap \<Rightarrow> (string, f64) gomap" where
  "sanitize_map m = map (\<lambda>(k, v). (k, safeNumber v)) m"

definition sanitizePayload :: "payload_numbers \<Rightarrow> payload_numbers" where
  "sanitizePayload p =
     \<lparr> tp_TickHealthMs = safeNumber (tp_TickHealthMs p),
       tp_DegradedFraction = safeNumber (tp_DegradedFraction p),
       tp_JitterMs = safeNumber (tp_JitterMs p),
       tp_SaturationCountdowns = sanitize_map (tp_SaturationCountdowns p),
       tp_PredictionHorizon = sanitize_map (tp_PredictionHorizon p),
       tp_PressureHeatmap = sanitize_map (tp_PressureHeatmap p) \<rparr>"

definition map_finite :: "(string, f64) gomap \<Rightarrow> bool" where
  "map_finite m \<longleftrightarrow> (\<forall>v \<in> snd ` set m. finite64 v)"

lemma safeNumber_finite: "finite64 (safeNumber v)" "finite64 v \<Longrightarrow> safeNumber v = v"
  by (cases v; simp add: safeNumber_def math_IsNaN_def math_IsInf_def zero_f64_def)+

lemma sanitize_map_finite: "map_finite (sanitize_map m)" "map_finite m \<Longrightarrow> sanitize_map m = m"
  "map fst (sanitize_map m) = map fst m"
  by (auto simp: map_finite_def sanitize_map_def safeNumber_finite intro!: map_idI)

text \<open>
  After the sanitiser every number it visits is encodable: none of the three health
  numbers and of the entries of the three maps is NaN or infinite.  No key is added or
  dropped, finite values are unchanged, and sanitising twice is sanitising once.
\<close>

theorem sanitizePayload_finite:
  "let q = sanitizePayload p in
    finite64 (tp_TickHealthMs q) \<and> finite64 (tp_DegradedFraction q) \<and> finite64 (tp_JitterMs q) \<and>
    map_finite (tp_SaturationCountdowns q) \<and> map_finite (tp_PredictionHorizon q) \<and> map_finite (tp_PressureHeatmap q) \<and>
    map fst (tp_PressureHeatmap q) = map fst (tp_PressureHeatmap p) \<and> sanitizePayload q = q"
  by (simp add: sanitizePayload_def Let_def safeNumber_finite sanitize_map_finite)

section \<open>The prediction band\<close>

definition bundle_ok :: "ServiceModelBundle \<Rightarrow> bool" where
  "bundle_ok b \<longleftrightarrow> fbtw 0 (qm_Utilisation (mb_Queue b)) (2 ^ 35) \<and>
     fbtw (- (1 / 2)) (qm_UtilisationTrend (mb_Queue b)) (1 / 2) \<and> fbtw 0 (sm_ArrivalCoV (mb_Stochastic b)) (2 ^ 64)"

lemma projected_finite:
  assumes "bundle_ok b" "fbtw 0 tickSec (2 ^ 20)" "0 \<le> k" "k \<le> 2 ^ 20"
  shows "\<exists>r. projected b tickSec k = Fin r \<and> frep r"
proof -
  have "real_of_int k \<le> real_of_int (2 ^ 20)" using assms(4) by (simp only: of_int_le_iff)
  then have "fbtw (- (2 ^ 20)) (f64_of_int k) (2 ^ 20)" using assms(3,4) by (simp add: fl_int)
  moreover have "fbtw (- 1) (qm_UtilisationTrend (mb_Queue b)) 1"
    using assms(1) by (auto simp: bundle_ok_def elim!: fbtw_weaken)
  ultimately have "fbtw (- (1 * 2 ^ 20)) (qm_UtilisationTrend (mb_Queue b) * f64_of_int k) (1 * 2 ^ 20)"
    by (intro sym_mult) simp_all
  moreover have "fbtw (- (2 ^ 20)) tickSec (2 ^ 20)" using assms(2) by (rule fbtw_weaken) simp_all
  ultimately have t: "fbtw (- (1 * 2 ^ 20 * 2 ^ 20)) (qm_UtilisationTrend (mb_Queue b) * f64_of_int k * tickSec) (1 * 2 ^ 20 * 2 ^ 20)"
    by (rule sym_mult) simp
  then obtain y where y: "qm_UtilisationTrend (mb_Queue b) * f64_of_int k * tickSec = Fin y" "\<bar>y\<bar> \<le> 2 ^ 40"
    by (auto elim!: fbtwE simp: abs_le_iff)
  obtain x where x: "qm_Utilisation (mb_Queue b) = Fin x" "0 \<le> x" "x \<le> 2 ^ 35"
    using assms(1) by (auto simp: bundle_ok_def elim: fbtwE)
  have "\<bar>x + y\<bar> \<le> 2 ^ 53" using x y by (simp add: abs_le_iff)
  then show ?thesis by (simp add: projected_def x(1) y(1) fl_finite frep_rnd)
qed

lemma sigma_positive: assumes "bundle_ok b" shows "\<exists>s. sigma_rho b = Fin s \<and> 0 \<le> s \<and> s \<le> 2 ^ 100"
proof -
  note fb = fbound_dyadic(2) [of 99, simplified] fbound_dyadic(2) [of 100, simplified]
  have "fbtw 0 (sm_ArrivalCoV (mb_Stochastic b) * qm_Utilisation (mb_Queue b)) (2 ^ 99)"
    using assms fb by (intro fbtw_mult [where a = 0 and c = 0 and b = "2 ^ 64" and d = "2 ^ 35"]) (auto simp: bundle_ok_def)
  then have "fbtw 0 (sm_ArrivalCoV (mb_Stochastic b) * qm_Utilisation (mb_Queue b) * fl 0.5) (2 ^ 100)"
    using fb by (elim fbtw_mult [OF _ fbtw_fl [of 0 "0.5" 1]]) simp_all
  moreover have "fbtw 0 (fl 0.01) 1" by (rule fbtw_fl) simp_all
  then have "fbtw 0 (fl 0.01) (2 ^ 100)" by (rule fbtw_weaken) simp_all
  ultimately have "fbtw 0 (sigma_rho b) (2 ^ 100)" by (simp add: sigma_rho_def Let_def)
  then show ?thesis by (auto elim: fbtwE)
qed

lemma ci_finite:
  assumes "bundle_ok b" "0 \<le> k" "k \<le> 2 ^ 20"
  shows "\<exists>c. fl 1.645 * sigma_rho b * math_Sqrt (f64_of_int (k + 1)) = Fin c \<and> 0 \<le> c \<and> c \<le> 2 ^ 112"
proof -
  note fb = fbound_dyadic(2) [of 101, simplified] fbound_dyadic(2) [of 112, simplified]
  have "k + 1 \<le> 2 ^ 22" using assms(3) by simp
  then have "real_of_int (k + 1) \<le> real_of_int (2 ^ 22)" by (simp only: of_int_le_iff)
  then have "sqrt (real_of_int (k + 1)) \<le> 2 ^ 11" by (intro real_le_lsqrt) simp_all
  moreover have "f64_of_int (k + 1) = Fin (real_of_int (k + 1))" using assms(2,3) by (simp add: f64_of_int_small)
  ultimately have s: "fbtw 0 (math_Sqrt (f64_of_int (k + 1))) (2 ^ 11)"
    using assms(2) by (auto intro!: fbtw_fl)
  have "fbtw 0 (sigma_rho b) (2 ^ 100)" using sigma_positive [OF assms(1)] by auto
  moreover have "fbtw 0 (fl 1.645) 2" by (rule fbtw_fl) simp_all
  ultimately have "fbtw 0 (fl 1.645 * sigma_rho b) (2 ^ 101)"
    using fb by (intro fbtw_mult [where a = 0 and c = 0 and b = 2 and d = "2 ^ 100"]) auto
  then have "fbtw 0 (fl 1.645 * sigma_rho b * math_Sqrt (f64_of_int (k + 1))) (2 ^ 112)"
    by (rule fbtw_mult [OF _ s]) (use fb in simp_all)
  then show ?thesis by (auto elim: fbtwE)
qed

lemma band_limits:
  assumes "0 \<le> p" "p \<le> 3 / 2" "frep p" "0 \<le> c" "c \<le> 2 ^ 112"
  shows "fbtw 0 (math_Max 0 (Fin p - Fin c)) (3 / 2) \<and> math_Max 0 (Fin p - Fin c) \<le> Fin p"
    "Fin p \<le> math_Min (Fin (3 / 2)) (Fin p + Fin c) \<and> fbtw 0 (math_Min (Fin (3 / 2)) (Fin p + Fin c)) (3 / 2)"
proof -
  have big: "2 ^ 113 \<le> big" unfolding big_def by (rule power_increasing) simp_all
  have n: "p - c \<le> p" "p \<le> p + c" using assms(4) by simp_all
  have l: "rnd (p - c) \<le> p" "p \<le> rnd (p + c)"
    using rnd_mono [OF n(1)] rnd_mono [OF n(2)] assms(3) by (simp_all add: rnd_frep)
  have f: "Fin p - Fin c = Fin (rnd (p - c))" "Fin p + Fin c = Fin (rnd (p + c))"
    using assms(1,2,4,5) big by (simp_all add: fl_Fin abs_le_iff)
  show "fbtw 0 (math_Max 0 (Fin p - Fin c)) (3 / 2) \<and> math_Max 0 (Fin p - Fin c) \<le> Fin p"
    using l assms(1,2) unfolding f zero_f64_def by simp
  show "Fin p \<le> math_Min (Fin (3 / 2)) (Fin p + Fin c) \<and> fbtw 0 (math_Min (Fin (3 / 2)) (Fin p + Fin c)) (3 / 2)"
    using l assms(1,2) unfolding f by simp
qed

lemma risk_unit:
  assumes "0 \<le> p" "p \<le> 3 / 2" "fbtw 0 threshold 1"
  shows "unit_btw (1 / (1 + math_Exp (- (Fin p - threshold * fl 0.95) / fl 0.04)))"
proof -
  have "fbtw 0 (threshold * fl 0.95) 1" by (rule fbtw_mult [OF assms(3) fbtw_fl [of 0 "0.95" 1]]) simp_all
  then have "fbtw (- 1) (Fin p - threshold * fl 0.95) 2" using assms(1,2)
    by (intro fbtw_diff [where a = 0 and b = "3 / 2" and c = 0 and d = 1]) simp_all
  then have "- (Fin p - threshold * fl 0.95) / fl 0.04 \<noteq> NaN"
    using tiny_divisors(2) by (auto elim!: fbtwE)
  then show ?thesis by (intro recip_unit f_nonneg_Exp)
qed

text \<open>
  The prediction of every tick is a band inside the display range: whenever the bundle
  is one the models produce (\<open>bundle_ok\<close>) the predicted utilisation lies between the lower
  and the upper limit, both lie in \<open>[0, 1.5]\<close>, and the collapse risk of the risk timeline is a
  finite number in \<open>[0, 1]\<close> for every positive threshold up to one.
\<close>

theorem prediction_band:
  assumes "bundle_ok b" "fbtw 0 tickSec (2 ^ 20)" "0 \<le> k" "k \<le> 2 ^ 20" "fbtw 0 threshold 1"
  shows "let p = prediction_point b tickSec k; q = risk_point b tickSec threshold k in
     fbtw 0 (pp_Lower95 p) (3 / 2) \<and> pp_Lower95 p \<le> pp_Rho p \<and> pp_Rho p \<le> pp_Upper95 p \<and>
     fbtw 0 (pp_Upper95 p) (3 / 2) \<and> rp_Rho q = pp_Rho p \<and> fbtw 0 (rp_CollapseRisk q) 1"
proof -
  obtain r where r: "projected b tickSec k = Fin r" "frep r" using projected_finite [OF assms(1-4)] by blast
  obtain c where c: "fl 1.645 * sigma_rho b * math_Sqrt (f64_of_int (k + 1)) = Fin c" "0 \<le> c" "c \<le> 2 ^ 112"
    using ci_finite [OF assms(1,3,4)] by blast
  define p where "p = max 0 (min r (3 / 2))"
  note h = three_halves(2)
  have p: "0 \<le> p" "p \<le> 3 / 2" "frep p" using r(2) three_halves(1) by (auto simp: p_def max_def min_def fbound_def)
  have pp: "prediction_point b tickSec k = \<lparr> pp_TickOffset = k, pp_Rho = Fin p,
      pp_Lower95 = math_Max 0 (Fin p - Fin c), pp_Upper95 = math_Min (Fin (3 / 2)) (Fin p + Fin c) \<rparr>"
    unfolding prediction_point_def Let_def c(1) r(1) h by (simp add: p_def zero_f64_def)
  have rp: "rp_Rho (risk_point b tickSec threshold k) = Fin p"
    "rp_CollapseRisk (risk_point b tickSec threshold k) = 1 / (1 + math_Exp (- (Fin p - threshold * fl 0.95) / fl 0.04))"
    unfolding risk_point_def Let_def r(1) h zero_f64_def by (auto simp: p_def min_def)
  show ?thesis
    using band_limits [OF p c(2,3)] risk_unit [OF p(1,2) assms(5)] by (simp add: pp rp unit_btw_def)
qed

text \<open>A service at full load with a rising trend, for which the band is computed.\<close>

definition busy_bundle :: ServiceModelBundle where
  "busy_bundle = \<lparr> mb_Queue = idle_queue\<lparr> qm_Utilisation := Fin 1, qm_UtilisationTrend := Fin (1 / 4) \<rparr>,
     mb_Stochastic = (RunStochasticModel 0 (caller ''a'' ''b''))\<lparr> sm_ArrivalCoV := Fin 2 \<rparr>, mb_Signal = idle_signal,
     mb_Stability = RunStabilityAssessment 0 idle_queue idle_signal (Snapshot_graph 0 (\<lambda>i. []) New_graph) None (Fin (7 / 8)) \<rparr>"

lemma prediction_band_witness:
  "pp_Rho (prediction_point busy_bundle 1 1) \<le> pp_Upper95 (prediction_point busy_bundle 1 1) \<and>
   fbtw 0 (pp_Upper95 (prediction_point busy_bundle 1 1)) (3 / 2)"
proof -
  have "bundle_ok busy_bundle" by (simp add: bundle_ok_def busy_bundle_def)
  from prediction_band [OF this, of 1 1 "Fin (3 / 4)"] show ?thesis by (simp add: Let_def one_f64_def)
qed

end
