(* ===== verification/StreamHub.thy ===== *)
theory StreamHub
  imports Prelude
begin

text \<open>
  \<open>internal/streaming/hub.go\<close>: the hub that fans every tick payload out to the connected
  clients, as a step relation.  The goroutines are the broadcaster (one, the engine's loop),
  one upgrade handler per connection request, and a write pump and a read pump per client;
  each rule is one atomic access to the shared state (an atomic variable, a section under the
  hub's lock, one channel operation).  A payload is represented by its sequence number, a
  client by its index in the list of all clients ever accepted.  Left out are the contents
  of the payload, the deadlines and the ping frames, which change no state of the hub, and
  the return of \<open>Broadcast\<close> when even the fallback payload cannot be encoded: its only
  number is the tick health, which \<open>sanitizePayload\<close> made finite before.
\<close>

definition sendBufferSize :: nat where "sendBufferSize = 64"

datatype message = Boot nat | Tick nat

datatype pump = P_new | P_run | P_dead

datatype handler =
    H_start
  | H_counted nat
  | H_read nat "nat option"
  | H_rejected
  | H_inserted "nat option"
  | H_booted
  | H_served

text \<open>
  A connection: the upgrade handler of the request and, once inserted, the client.
  \<open>cl_out\<close> are the messages the write pump has written to the socket, \<open>cl_removers\<close> counts
  the pumps about to call \<open>remove\<close>, and \<open>cl_closing\<close> those that have won the compare-and-swap
  and not yet entered the locked section.
\<close>

record client =
  cl_handler :: handler
  cl_closed :: bool
  cl_done :: bool
  cl_inmap :: bool
  cl_send :: "message list"
  cl_out :: "message list"
  cl_pump :: pump
  cl_reader :: bool
  cl_removers :: nat
  cl_closing :: nat

datatype broadcaster =
    B_idle
  | B_marshal nat
  | B_stored nat
  | B_fan nat "nat list"
  | B_send nat nat "nat list"
  | B_drop nat nat "nat list"
  | B_finish nat nat "nat list"

record hub =
  hb_max :: nat
  hb_seq :: nat
  hb_last :: "nat option"
  hb_clients :: "client list"
  hb_bc :: broadcaster
  hb_panic :: bool

definition NewHub :: "nat \<Rightarrow> hub" where
  "NewHub n = \<lparr> hb_max = n, hb_seq = 0, hb_last = None, hb_clients = [], hb_bc = B_idle, hb_panic = False \<rparr>"

definition new_request :: client where
  "new_request = \<lparr> cl_handler = H_start, cl_closed = False, cl_done = False, cl_inmap = False, cl_send = [], cl_out = [],
     cl_pump = P_new, cl_reader = False, cl_removers = 0, cl_closing = 0 \<rparr>"

abbreviation client_at :: "hub \<Rightarrow> nat \<Rightarrow> client" where
  "client_at s i \<equiv> hb_clients s ! i"

definition set_client :: "nat \<Rightarrow> client \<Rightarrow> hub \<Rightarrow> hub" where
  "set_client i c s = s\<lparr> hb_clients := (hb_clients s)[i := c] \<rparr>"

definition ClientCount :: "hub \<Rightarrow> nat" where
  "ClientCount s = length (filter cl_inmap (hb_clients s))"

definition enqueue :: "message \<Rightarrow> client \<Rightarrow> client" where
  "enqueue m c = c\<lparr> cl_send := cl_send c @ [m] \<rparr>"

text \<open>
  The locked section of \<open>remove\<close>: the client leaves the map, its queue is drained and
  \<open>done\<close> is closed; closing it a second time panics.
\<close>

definition close_client :: "nat \<Rightarrow> client \<Rightarrow> hub \<Rightarrow> hub" where
  "close_client i c s =
     (set_client i (c\<lparr> cl_done := True, cl_inmap := False, cl_send := [] \<rparr>) s)\<lparr> hb_panic := hb_panic s \<or> cl_done c \<rparr>"

inductive hub_step :: "hub \<Rightarrow> hub \<Rightarrow> bool" where
  bc_start: "hb_bc s = B_idle \<Longrightarrow> hub_step s (s\<lparr> hb_seq := hb_seq s + 1, hb_bc := B_marshal (hb_seq s + 1) \<rparr>)"
| bc_store: "hb_bc s = B_marshal n \<Longrightarrow> hub_step s (s\<lparr> hb_last := Some n, hb_bc := B_stored n \<rparr>)"
| bc_snapshot: "hb_bc s = B_stored n \<Longrightarrow> distinct cs \<Longrightarrow> set cs = {i. i < length (hb_clients s) \<and> cl_inmap (client_at s i)} \<Longrightarrow>
    hub_step s (s\<lparr> hb_bc := B_fan n cs \<rparr>)"
| fan_done: "hb_bc s = B_fan n [] \<Longrightarrow> hub_step s (s\<lparr> hb_bc := B_idle \<rparr>)"
| fan_skip: "hb_bc s = B_fan n (i # cs) \<Longrightarrow> cl_closed (client_at s i) \<Longrightarrow> hub_step s (s\<lparr> hb_bc := B_fan n cs \<rparr>)"
| fan_check: "hb_bc s = B_fan n (i # cs) \<Longrightarrow> \<not> cl_closed (client_at s i) \<Longrightarrow> hub_step s (s\<lparr> hb_bc := B_send n i cs \<rparr>)"
| send_done: "hb_bc s = B_send n i cs \<Longrightarrow> cl_done (client_at s i) \<Longrightarrow> hub_step s (s\<lparr> hb_bc := B_fan n cs \<rparr>)"
| send_ok: "hb_bc s = B_send n i cs \<Longrightarrow> length (cl_send (client_at s i)) < sendBufferSize \<Longrightarrow>
    hub_step s ((set_client i (enqueue (Tick n) (client_at s i)) s)\<lparr> hb_bc := B_fan n cs \<rparr>)"
| send_full: "hb_bc s = B_send n i cs \<Longrightarrow> \<not> cl_done (client_at s i) \<Longrightarrow> sendBufferSize \<le> length (cl_send (client_at s i)) \<Longrightarrow>
    hub_step s (s\<lparr> hb_bc := B_drop n i cs \<rparr>)"
| drop_lost: "hb_bc s = B_drop n i cs \<Longrightarrow> cl_closed (client_at s i) \<Longrightarrow> hub_step s (s\<lparr> hb_bc := B_fan n cs \<rparr>)"
| drop_won: "hb_bc s = B_drop n i cs \<Longrightarrow> \<not> cl_closed (client_at s i) \<Longrightarrow>
    hub_step s ((set_client i ((client_at s i)\<lparr> cl_closed := True \<rparr>) s)\<lparr> hb_bc := B_finish n i cs \<rparr>)"
| drop_finish: "hb_bc s = B_finish n i cs \<Longrightarrow> hub_step s ((close_client i (client_at s i) s)\<lparr> hb_bc := B_fan n cs \<rparr>)"
| set_last: "hub_step s (s\<lparr> hb_last := Some (hb_seq s) \<rparr>)"
| request: "hub_step s (s\<lparr> hb_clients := hb_clients s @ [new_request] \<rparr>)"
| h_count: "i < length (hb_clients s) \<Longrightarrow> cl_handler (client_at s i) = H_start \<Longrightarrow>
    hub_step s (set_client i ((client_at s i)\<lparr> cl_handler := H_counted (ClientCount s) \<rparr>) s)"
| h_read: "i < length (hb_clients s) \<Longrightarrow> cl_handler (client_at s i) = H_counted n \<Longrightarrow>
    hub_step s (set_client i ((client_at s i)\<lparr> cl_handler := H_read n (hb_last s) \<rparr>) s)"
| h_reject: "i < length (hb_clients s) \<Longrightarrow> cl_handler (client_at s i) = H_read n l \<Longrightarrow> hb_max s \<le> n \<Longrightarrow>
    hub_step s (set_client i ((client_at s i)\<lparr> cl_handler := H_rejected \<rparr>) s)"
| h_fail: "i < length (hb_clients s) \<Longrightarrow> cl_handler (client_at s i) = H_read n l \<Longrightarrow> n < hb_max s \<Longrightarrow>
    hub_step s (set_client i ((client_at s i)\<lparr> cl_handler := H_rejected \<rparr>) s)"
| h_insert: "i < length (hb_clients s) \<Longrightarrow> cl_handler (client_at s i) = H_read n l \<Longrightarrow> n < hb_max s \<Longrightarrow>
    hub_step s (set_client i ((client_at s i)\<lparr> cl_handler := H_inserted l, cl_inmap := True \<rparr>) s)"
| h_noboot: "i < length (hb_clients s) \<Longrightarrow> cl_handler (client_at s i) = H_inserted l \<Longrightarrow>
    l = None \<or> sendBufferSize \<le> length (cl_send (client_at s i)) \<Longrightarrow>
    hub_step s (set_client i ((client_at s i)\<lparr> cl_handler := H_booted \<rparr>) s)"
| h_boot: "i < length (hb_clients s) \<Longrightarrow> cl_handler (client_at s i) = H_inserted (Some k) \<Longrightarrow>
    length (cl_send (client_at s i)) < sendBufferSize \<Longrightarrow>
    hub_step s (set_client i ((enqueue (Boot k) (client_at s i))\<lparr> cl_handler := H_booted \<rparr>) s)"
| h_pumps: "i < length (hb_clients s) \<Longrightarrow> cl_handler (client_at s i) = H_booted \<Longrightarrow>
    hub_step s (set_client i ((client_at s i)\<lparr> cl_handler := H_served, cl_pump := P_run, cl_reader := True \<rparr>) s)"
| p_write: "i < length (hb_clients s) \<Longrightarrow> cl_pump (client_at s i) = P_run \<Longrightarrow> cl_send (client_at s i) = m # ms \<Longrightarrow>
    hub_step s (set_client i ((client_at s i)\<lparr> cl_send := ms, cl_out := cl_out (client_at s i) @ [m] \<rparr>) s)"
| p_fail: "i < length (hb_clients s) \<Longrightarrow> cl_pump (client_at s i) = P_run \<Longrightarrow> cl_send (client_at s i) = m # ms \<Longrightarrow>
    hub_step s (set_client i ((client_at s i)\<lparr> cl_send := ms, cl_pump := P_dead, cl_removers := cl_removers (client_at s i) + 1 \<rparr>) s)"
| p_exit: "i < length (hb_clients s) \<Longrightarrow> cl_pump (client_at s i) = P_run \<Longrightarrow>
    hub_step s (set_client i ((client_at s i)\<lparr> cl_pump := P_dead, cl_removers := cl_removers (client_at s i) + 1 \<rparr>) s)"
| r_exit: "i < length (hb_clients s) \<Longrightarrow> cl_reader (client_at s i) \<Longrightarrow>
    hub_step s (set_client i ((client_at s i)\<lparr> cl_reader := False, cl_removers := cl_removers (client_at s i) + 1 \<rparr>) s)"
| rm_lost: "i < length (hb_clients s) \<Longrightarrow> 0 < cl_removers (client_at s i) \<Longrightarrow> cl_closed (client_at s i) \<Longrightarrow>
    hub_step s (set_client i ((client_at s i)\<lparr> cl_removers := cl_removers (client_at s i) - 1 \<rparr>) s)"
| rm_won: "i < length (hb_clients s) \<Longrightarrow> 0 < cl_removers (client_at s i) \<Longrightarrow> \<not> cl_closed (client_at s i) \<Longrightarrow>
    hub_step s (set_client i ((client_at s i)\<lparr> cl_removers := cl_removers (client_at s i) - 1, cl_closed := True,
      cl_closing := cl_closing (client_at s i) + 1 \<rparr>) s)"
| rm_finish: "i < length (hb_clients s) \<Longrightarrow> 0 < cl_closing (client_at s i) \<Longrightarrow>
    hub_step s (close_client i ((client_at s i)\<lparr> cl_closing := cl_closing (client_at s i) - 1 \<rparr>) s)"

inductive hub_reach :: "nat \<Rightarrow> hub \<Rightarrow> bool" for n :: nat where
  reach_new: "hub_reach n (NewHub n)"
| reach_step: "hub_reach n s \<Longrightarrow> hub_step s s' \<Longrightarrow> hub_reach n s'"

section \<open>The invariant\<close>

fun ticks :: "message list \<Rightarrow> nat list" where
  "ticks [] = []"
| "ticks (Tick n # ms) = n # ticks ms"
| "ticks (Boot n # ms) = ticks ms"

lemma ticks_append [simp]: "ticks (xs @ ys) = ticks xs @ ticks ys"
  by (induction xs rule: ticks.induct) auto

text \<open>The clients that still have to receive the current payload.\<close>

fun pending :: "broadcaster \<Rightarrow> nat \<Rightarrow> bool" where
  "pending B_idle i = False"
| "pending (B_marshal n) i = True"
| "pending (B_stored n) i = True"
| "pending (B_fan n cs) i = (i \<in> set cs)"
| "pending (B_send n j cs) i = (i = j \<or> i \<in> set cs)"
| "pending (B_drop n j cs) i = (i = j \<or> i \<in> set cs)"
| "pending (B_finish n j cs) i = (i \<in> set cs)"

fun finishing :: "broadcaster \<Rightarrow> nat \<Rightarrow> nat" where
  "finishing (B_finish n j cs) i = (if i = j then 1 else 0)"
| "finishing _ i = 0"

fun bc_ok :: "nat \<Rightarrow> nat \<Rightarrow> broadcaster \<Rightarrow> bool" where
  "bc_ok seq len B_idle = True"
| "bc_ok seq len (B_marshal n) = (n = seq \<and> 0 < n)"
| "bc_ok seq len (B_stored n) = (n = seq \<and> 0 < n)"
| "bc_ok seq len (B_fan n cs) = (n = seq \<and> 0 < n \<and> distinct cs \<and> (\<forall>i \<in> set cs. i < len))"
| "bc_ok seq len (B_send n j cs) = (n = seq \<and> 0 < n \<and> distinct (j # cs) \<and> (\<forall>i \<in> set (j # cs). i < len))"
| "bc_ok seq len (B_drop n j cs) = (n = seq \<and> 0 < n \<and> distinct (j # cs) \<and> (\<forall>i \<in> set (j # cs). i < len))"
| "bc_ok seq len (B_finish n j cs) = (n = seq \<and> 0 < n \<and> distinct (j # cs) \<and> (\<forall>i \<in> set (j # cs). i < len))"

definition run_of :: "nat list \<Rightarrow> nat \<Rightarrow> bool" where
  \<comment> \<open>consecutive numbers that end before \<open>hi\<close>\<close>
  "run_of ns hi \<longleftrightarrow> (\<exists>k \<le> hi. ns = [k..<hi])"

definition consecutive :: "nat list \<Rightarrow> bool" where
  "consecutive ns \<longleftrightarrow> (\<exists>k m. ns = [k..<m])"

fun inserted :: "handler \<Rightarrow> bool" where
  "inserted (H_inserted l) = True"
| "inserted H_booted = True"
| "inserted H_served = True"
| "inserted _ = False"

definition client_ok :: "nat \<Rightarrow> bool \<Rightarrow> nat \<Rightarrow> client \<Rightarrow> bool" where
  "client_ok seq pend fin c \<longleftrightarrow>
     length (cl_send c) \<le> sendBufferSize \<and>
     (cl_done c \<longrightarrow> cl_closed c \<and> \<not> cl_inmap c \<and> cl_closing c + fin = 0) \<and>
     cl_closing c + fin \<le> 1 \<and>
     (cl_closed c \<longrightarrow> inserted (cl_handler c) \<and> (cl_done c \<or> cl_closing c + fin = 1)) \<and>
     (0 < cl_closing c + fin \<longrightarrow> cl_closed c) \<and>
     (\<not> cl_closed c \<longrightarrow> (cl_inmap c \<longleftrightarrow> inserted (cl_handler c)) \<and> consecutive (ticks (cl_out c)) \<and>
        (cl_pump c \<noteq> P_dead \<longrightarrow> run_of (ticks (cl_out c @ cl_send c)) (if pend then seq else Suc seq))) \<and>
     (\<not> inserted (cl_handler c) \<longrightarrow> cl_send c = [] \<and> cl_out c = [] \<and> cl_removers c = 0) \<and>
     (cl_handler c \<noteq> H_served \<longrightarrow> cl_pump c = P_new \<and> \<not> cl_reader c)"

fun targets :: "broadcaster \<Rightarrow> nat set" where
  "targets (B_fan n cs) = set cs"
| "targets (B_send n j cs) = insert j (set cs)"
| "targets (B_drop n j cs) = insert j (set cs)"
| "targets (B_finish n j cs) = insert j (set cs)"
| "targets _ = {}"

definition hub_inv :: "hub \<Rightarrow> bool" where
  "hub_inv s \<longleftrightarrow> \<not> hb_panic s \<and> bc_ok (hb_seq s) (length (hb_clients s)) (hb_bc s) \<and>
     (\<forall>i \<in> targets (hb_bc s). inserted (cl_handler (client_at s i))) \<and>
     (\<forall>i < length (hb_clients s). client_ok (hb_seq s) (pending (hb_bc s) i) (finishing (hb_bc s) i) (client_at s i))"

lemma consecutive_prefix: "consecutive (xs @ ys) \<Longrightarrow> consecutive xs"
proof -
  assume "consecutive (xs @ ys)"
  then obtain k m where "xs @ ys = [k..<m]" by (auto simp: consecutive_def)
  then have "xs = take (length xs) [k..<m]" by (metis append_eq_conv_conj)
  then have "xs = [k..<k + length xs] \<or> xs = [k..<m]" by (metis linorder_le_cases take_all_iff take_upt length_upt le_add_diff_inverse diff_is_0_eq' add_leD2 diff_add_inverse le_diff_conv2 nat_le_linear upt_conv_Nil add.commute)
  then show ?thesis by (auto simp: consecutive_def)
qed

lemma consecutive_Nil [simp]: "consecutive []"
  unfolding consecutive_def by (intro exI [of _ 0]) simp

lemma run_of_prefix: "run_of (xs @ ys) hi \<Longrightarrow> consecutive xs"
  by (rule consecutive_prefix) (auto simp: run_of_def consecutive_def)

lemma run_of_snoc: "run_of xs n \<Longrightarrow> run_of (xs @ [n]) (Suc n)"
  by (auto simp: run_of_def)

lemma nth_upd_if: "xs[i := c] ! j = (if i = j \<and> i < length xs then c else xs ! j)"
  by (cases "i = j"; cases "i < length xs") (auto simp: list_update_beyond)

lemma run_of_Nil [simp]: "run_of [] n"
  by (auto simp: run_of_def intro: exI [of _ n])

lemma client_ok_unsent: "client_ok n True fin c \<Longrightarrow> \<not> cl_inmap c \<Longrightarrow> client_ok n False fin c"
  by (auto simp: client_ok_def)

lemma client_ok_closed: "client_ok n p fin c \<Longrightarrow> cl_closed c \<Longrightarrow> client_ok n q fin c"
  by (auto simp: client_ok_def)

lemma inv_client:
  assumes "hub_inv s" "inserted (cl_handler (client_at s i)) \<longrightarrow> inserted (cl_handler c)"
    "i < length (hb_clients s) \<Longrightarrow> client_ok (hb_seq s) (pending (hb_bc s) i) (finishing (hb_bc s) i) c"
  shows "hub_inv (set_client i c s)"
  using assms by (auto simp: hub_inv_def set_client_def nth_upd_if)

lemma inv_at: "hub_inv s \<Longrightarrow> i < length (hb_clients s) \<Longrightarrow>
    client_ok (hb_seq s) (pending (hb_bc s) i) (finishing (hb_bc s) i) (client_at s i)"
  by (simp add: hub_inv_def)

lemma inv_bc:
  assumes "hub_inv s" "bc_ok (hb_seq s) (length (hb_clients s)) bc" "\<forall>i \<in> targets bc. inserted (cl_handler (client_at s i))"
    "\<And>i. i < length (hb_clients s) \<Longrightarrow> client_ok (hb_seq s) (pending bc i) (finishing bc i) (client_at s i)"
  shows "hub_inv (s\<lparr> hb_bc := bc \<rparr>)"
  using assms by (simp add: hub_inv_def)

lemma inv_both:
  assumes "hub_inv s" "bc_ok (hb_seq s) (length (hb_clients s)) bc" "targets bc \<subseteq> targets (hb_bc s)"
    "inserted (cl_handler (client_at s i)) \<longrightarrow> inserted (cl_handler c)"
    "\<forall>j. j \<noteq> i \<longrightarrow> pending bc j = pending (hb_bc s) j \<and> finishing bc j = finishing (hb_bc s) j"
    "client_ok (hb_seq s) (pending bc i) (finishing bc i) c"
  shows "hub_inv ((set_client i c s)\<lparr> hb_bc := bc \<rparr>)"
  using assms by (auto simp: hub_inv_def set_client_def nth_upd_if)

lemma inv_bc_only:
  assumes "hub_inv s" "bc_ok (hb_seq s) (length (hb_clients s)) bc" "targets bc \<subseteq> targets (hb_bc s)"
    "\<forall>j. j \<noteq> i \<longrightarrow> pending bc j = pending (hb_bc s) j \<and> finishing bc j = finishing (hb_bc s) j"
    "client_ok (hb_seq s) (pending bc i) (finishing bc i) (client_at s i)"
  shows "hub_inv (s\<lparr> hb_bc := bc \<rparr>)"
  using inv_both [OF assms(1-3) _ assms(4,5)] by (simp add: set_client_def)

lemma hub_step_inv: "hub_step s s' \<Longrightarrow> hub_inv s \<Longrightarrow> hub_inv s'"
proof (induction rule: hub_step.induct)
  case (bc_start s)
  then show ?case by (auto simp: hub_inv_def client_ok_def)
next
  case (bc_store s n)
  then show ?case by (auto simp: hub_inv_def)
next
  case (bc_snapshot s n cs)
  have "inserted (cl_handler (client_at s i))" if "i \<in> set cs" for i
    using inv_at [OF bc_snapshot(4), of i] that bc_snapshot(3) by (auto simp: client_ok_def)
  moreover have "client_ok (hb_seq s) (i \<in> set cs) 0 (client_at s i)" if i: "i < length (hb_clients s)" for i
  proof (cases "cl_inmap (client_at s i)")
    case True
    then show ?thesis using inv_at [OF bc_snapshot(4) i] bc_snapshot(1,3) i by simp
  next
    case False
    then show ?thesis using inv_at [OF bc_snapshot(4) i] bc_snapshot(1,3) client_ok_unsent by simp
  qed
  ultimately show ?case
    using bc_snapshot by (intro inv_bc) (auto simp: hub_inv_def)
next
  case (fan_done s n)
  then show ?case by (auto simp: hub_inv_def)
next
  case (fan_skip s n i cs)
  have i: "i < length (hb_clients s)" using fan_skip(1,3) by (auto simp: hub_inv_def)
  have "client_ok (hb_seq s) False 0 (client_at s i)"
    using client_ok_closed [OF inv_at [OF fan_skip(3) i] fan_skip(2)] fan_skip(1) by simp
  then show ?case using fan_skip(1,3) by (intro inv_bc_only [where i = i]) (auto simp: hub_inv_def)
next
  case (fan_check s n i cs)
  then show ?case by (auto simp: hub_inv_def)
next
  case (send_done s n i cs)
  have i: "i < length (hb_clients s)" using send_done(1,3) by (auto simp: hub_inv_def)
  have "cl_closed (client_at s i)" using inv_at [OF send_done(3) i] send_done(2) by (simp add: client_ok_def)
  then have "client_ok (hb_seq s) False 0 (client_at s i)"
    using client_ok_closed [OF inv_at [OF send_done(3) i]] send_done(1) by simp
  then show ?case using send_done(1,3) by (intro inv_bc_only [where i = i]) (auto simp: hub_inv_def)
next
  case (send_ok s n i cs)
  have i: "i < length (hb_clients s)" "inserted (cl_handler (client_at s i))" "n = hb_seq s"
    using send_ok(1,3) by (auto simp: hub_inv_def)
  have "client_ok (hb_seq s) True 0 (client_at s i)" using inv_at [OF send_ok(3) i(1)] send_ok(1) by simp
  then have "client_ok (hb_seq s) False 0 (enqueue (Tick n) (client_at s i))"
    using send_ok(2) i(2,3) run_of_snoc [of "ticks (cl_out (client_at s i) @ cl_send (client_at s i))" n]
    by (auto simp: client_ok_def enqueue_def)
  then show ?case using send_ok(1,3) by (intro inv_both) (auto simp: hub_inv_def enqueue_def)
next
  case (send_full s n i cs)
  then show ?case by (auto simp: hub_inv_def)
next
  case (drop_lost s n i cs)
  have i: "i < length (hb_clients s)" using drop_lost(1,3) by (auto simp: hub_inv_def)
  have "client_ok (hb_seq s) False 0 (client_at s i)"
    using client_ok_closed [OF inv_at [OF drop_lost(3) i] drop_lost(2)] drop_lost(1) by simp
  then show ?case using drop_lost(1,3) by (intro inv_bc_only [where i = i]) (auto simp: hub_inv_def)
next
  case (drop_won s n i cs)
  have i: "i < length (hb_clients s)" "inserted (cl_handler (client_at s i))" using drop_won(1,3) by (auto simp: hub_inv_def)
  have "client_ok (hb_seq s) False 1 ((client_at s i)\<lparr> cl_closed := True \<rparr>)"
    using inv_at [OF drop_won(3) i(1)] drop_won(1,2) i(2) by (auto simp: client_ok_def)
  then show ?case using drop_won(1,3) by (intro inv_both) (auto simp: hub_inv_def)
next
  case (drop_finish s n i cs)
  have i: "i < length (hb_clients s)" using drop_finish by (auto simp: hub_inv_def)
  have c: "client_ok (hb_seq s) False 1 (client_at s i)" using inv_at [OF drop_finish(2) i] drop_finish by (auto simp: hub_inv_def)
  then have "\<not> cl_done (client_at s i)" "client_ok (hb_seq s) False 0 ((client_at s i)\<lparr> cl_done := True, cl_inmap := False, cl_send := [] \<rparr>)"
    by (auto simp: client_ok_def)
  then have "hub_inv ((set_client i ((client_at s i)\<lparr> cl_done := True, cl_inmap := False, cl_send := [] \<rparr>) s)\<lparr> hb_bc := B_fan n cs \<rparr>)"
    using drop_finish by (intro inv_both) (auto simp: hub_inv_def)
  then show ?case using \<open>\<not> cl_done (client_at s i)\<close> drop_finish(2)
    by (auto simp: hub_inv_def close_client_def set_client_def)
next
  case (set_last s)
  then show ?case by (auto simp: hub_inv_def)
next
  case (request s)
  have f: "finishing (hb_bc s) (length (hb_clients s)) = 0" "\<forall>i \<in> targets (hb_bc s). i < length (hb_clients s)"
    using request by (cases "hb_bc s"; auto simp: hub_inv_def)+
  have "bc_ok (hb_seq s) (Suc (length (hb_clients s))) (hb_bc s)"
    using request by (cases "hb_bc s") (auto simp: hub_inv_def)
  moreover have "client_ok (hb_seq s) p 0 new_request" for p
    by (simp add: client_ok_def new_request_def)
  ultimately show ?case using request f
    by (auto simp: hub_inv_def nth_append less_Suc_eq)
next
  case (h_count i s)
  note c = inv_at [OF h_count(3,1)]
  show ?case by (rule inv_client [OF h_count(3)]) (use c h_count(2) in \<open>auto simp: client_ok_def\<close>)
next
  case (h_read i s n)
  note c = inv_at [OF h_read(3,1)]
  show ?case by (rule inv_client [OF h_read(3)]) (use c h_read(2) in \<open>auto simp: client_ok_def\<close>)
next
  case (h_reject i s n l)
  note c = inv_at [OF h_reject(4,1)]
  show ?case by (rule inv_client [OF h_reject(4)]) (use c h_reject(2) in \<open>auto simp: client_ok_def\<close>)
next
  case (h_fail i s n l)
  note c = inv_at [OF h_fail(4,1)]
  show ?case by (rule inv_client [OF h_fail(4)]) (use c h_fail(2) in \<open>auto simp: client_ok_def\<close>)
next
  case (h_insert i s n l)
  note c = inv_at [OF h_insert(4,1)]
  show ?case by (rule inv_client [OF h_insert(4)]) (use c h_insert(2) in \<open>auto simp: client_ok_def\<close>)
next
  case (h_noboot i s l)
  note c = inv_at [OF h_noboot(4,1)]
  show ?case by (rule inv_client [OF h_noboot(4)]) (use c h_noboot(2) in \<open>auto simp: client_ok_def\<close>)
next
  case (h_boot i s k)
  note c = inv_at [OF h_boot(4,1)]
  show ?case by (rule inv_client [OF h_boot(4)]) (use c h_boot(2,3) in \<open>auto simp: client_ok_def enqueue_def\<close>)
next
  case (h_pumps i s)
  note c = inv_at [OF h_pumps(3,1)]
  show ?case by (rule inv_client [OF h_pumps(3)]) (use c h_pumps(2) in \<open>auto simp: client_ok_def\<close>)
next
  case (p_write i s m ms)
  note c = inv_at [OF p_write(4,1)]
  have "consecutive (ticks (cl_out (client_at s i)) @ ticks [m])" if "\<not> cl_closed (client_at s i)"
    using c p_write(2,3) that run_of_prefix [of "ticks (cl_out (client_at s i)) @ ticks [m]" "ticks ms"]
    by (cases m) (auto simp: client_ok_def)
  then show ?case by (intro inv_client [OF p_write(4)]) (use c p_write(2,3) in \<open>cases m; auto simp: client_ok_def\<close>)+
next
  case (p_fail i s m ms)
  note c = inv_at [OF p_fail(4,1)]
  show ?case by (rule inv_client [OF p_fail(4)]) (use c p_fail(2,3) in \<open>auto simp: client_ok_def\<close>)
next
  case (p_exit i s)
  note c = inv_at [OF p_exit(3,1)]
  show ?case by (rule inv_client [OF p_exit(3)]) (use c p_exit(2) in \<open>auto simp: client_ok_def\<close>)
next
  case (r_exit i s)
  note c = inv_at [OF r_exit(3,1)]
  show ?case by (rule inv_client [OF r_exit(3)]) (use c r_exit(2) in \<open>auto simp: client_ok_def\<close>)
next
  case (rm_lost i s)
  note c = inv_at [OF rm_lost(4,1)]
  show ?case by (rule inv_client [OF rm_lost(4)]) (use c rm_lost(2,3) in \<open>auto simp: client_ok_def\<close>)
next
  case (rm_won i s)
  note c = inv_at [OF rm_won(4,1)]
  show ?case by (rule inv_client [OF rm_won(4)]) (use c rm_won(2,3) in \<open>auto simp: client_ok_def\<close>)
next
  case (rm_finish i s)
  note c = inv_at [OF rm_finish(3,1)]
  have "\<not> cl_done (client_at s i)" using c rm_finish(2) by (auto simp: client_ok_def)
  moreover have "hub_inv (set_client i ((client_at s i)\<lparr> cl_closing := cl_closing (client_at s i) - 1, cl_done := True, cl_inmap := False, cl_send := [] \<rparr>) s)"
    by (rule inv_client [OF rm_finish(3)]) (use c rm_finish(2) in \<open>auto simp: client_ok_def\<close>)
  ultimately show ?case using rm_finish(3) by (auto simp: hub_inv_def close_client_def set_client_def)
qed

lemma hub_reach_inv: "hub_reach n s \<Longrightarrow> hub_inv s"
proof (induction rule: hub_reach.induct)
  case reach_new
  then show ?case by (simp add: hub_inv_def NewHub_def)
next
  case (reach_step s s')
  then show ?case by (blast intro: hub_step_inv)
qed

text \<open>
  C18: removal is safe whoever triggers it.  In every reachable state, with the broadcaster,
  the write pump and the read pump of a client racing to remove it, the channel \<open>done\<close> is
  closed at most once (no panic), a closed client is out of the map and is never inserted
  again, a client that nobody has closed is in the map from its insertion on, and its queue
  holds at most 64 messages.
\<close>

theorem hub_safe:
  assumes "hub_reach n s" "i < length (hb_clients s)"
  shows "\<not> hb_panic s \<and> length (cl_send (client_at s i)) \<le> 64 \<and>
    \<not> (cl_done (client_at s i) \<and> (cl_inmap (client_at s i) \<or> \<not> cl_closed (client_at s i))) \<and>
    (cl_closed (client_at s i) \<or> (cl_inmap (client_at s i) \<longleftrightarrow> inserted (cl_handler (client_at s i))))"
  using hub_reach_inv [OF assms(1)] inv_at [OF hub_reach_inv [OF assms(1)] assms(2)]
  by (auto simp: hub_inv_def client_ok_def sendBufferSize_def)


section \<open>Races\<close>

lemmas hub_simps = NewHub_def set_client_def new_request_def enqueue_def ClientCount_def sendBufferSize_def

text \<open>
  A run is given by its states; each step is checked against the relation.
\<close>

abbreviation blank :: "handler \<Rightarrow> bool \<Rightarrow> client" where
  "blank h b \<equiv> new_request\<lparr> cl_handler := h, cl_inmap := b \<rparr>"

abbreviation hub_of :: "nat \<Rightarrow> nat option \<Rightarrow> broadcaster \<Rightarrow> client list \<Rightarrow> hub" where
  "hub_of q l b cs \<equiv> \<lparr> hb_max = 1, hb_seq = q, hb_last = l, hb_clients = cs, hb_bc = b, hb_panic = False \<rparr>"

lemma reach_1: "hub_reach 1 (hub_of 0 None B_idle [])"
  using reach_new [of 1] by (simp add: NewHub_def)

text \<open>
  The limit on the number of clients can be exceeded.  The handler compares the count
  with the limit before it upgrades the connection and inserts the client in a later locked
  section, without counting again: with a limit of one, two requests that count before
  either inserts are both accepted.
\<close>

theorem capacity_race: "\<exists>s. hub_reach 1 s \<and> hb_max s = 1 \<and> ClientCount s = 2"
proof -
  note step = reach_step [OF _ hub_step.request] reach_step [OF _ hub_step.h_count] reach_step [OF _ hub_step.h_read]
    reach_step [OF _ hub_step.h_insert]
  have "hub_reach 1 (hub_of 0 None B_idle [new_request])" using step(1) [OF reach_1] by simp
  then have "hub_reach 1 (hub_of 0 None B_idle [new_request, new_request])" using step(1) by fastforce
  from step(2) [OF this, of 0] have "hub_reach 1 (hub_of 0 None B_idle [blank (H_counted 0) False, new_request])"
    by (simp add: hub_simps)
  from step(2) [OF this, of 1] have "hub_reach 1 (hub_of 0 None B_idle [blank (H_counted 0) False, blank (H_counted 0) False])"
    by (simp add: hub_simps)
  from step(3) [OF this, of 0] have "hub_reach 1 (hub_of 0 None B_idle [blank (H_read 0 None) False, blank (H_counted 0) False])"
    by (simp add: hub_simps)
  from step(3) [OF this, of 1] have "hub_reach 1 (hub_of 0 None B_idle [blank (H_read 0 None) False, blank (H_read 0 None) False])"
    by (simp add: hub_simps)
  from step(4) [OF this, of 0] have "hub_reach 1 (hub_of 0 None B_idle [blank (H_inserted None) True, blank (H_read 0 None) False])"
    by (simp add: hub_simps)
  from step(4) [OF this, of 1] have "hub_reach 1 (hub_of 0 None B_idle [blank (H_inserted None) True, blank (H_inserted None) True])"
    by (simp add: hub_simps)
  then show ?thesis
    by (intro exI [of _ "hub_of 0 None B_idle [blank (H_inserted None) True, blank (H_inserted None) True]"] conjI)
      (simp_all add: hub_simps)
qed

abbreviation fed :: "handler \<Rightarrow> message list \<Rightarrow> message list \<Rightarrow> pump \<Rightarrow> bool \<Rightarrow> client" where
  "fed h ms out p r \<equiv> (blank h True)\<lparr> cl_send := ms, cl_out := out, cl_pump := p, cl_reader := r \<rparr>"

lemma idle_broadcast: "hub_reach 1 (hub_of 1 (Some 1) B_idle [])"
proof -
  have "hub_reach 1 (hub_of 1 None (B_marshal 1) [])" using reach_step [OF reach_1 hub_step.bc_start] by simp
  from reach_step [OF this hub_step.bc_store [of _ 1]] have "hub_reach 1 (hub_of 1 (Some 1) (B_stored 1) [])" by simp
  from reach_step [OF this hub_step.bc_snapshot [of _ 1 "[]"]] have "hub_reach 1 (hub_of 1 (Some 1) (B_fan 1 []) [])" by simp
  from reach_step [OF this hub_step.fan_done [of _ 1]] show ?thesis by simp
qed

lemma inserted_late: "hub_reach 1 (hub_of 1 (Some 1) B_idle [fed (H_inserted (Some 1)) [] [] P_new False])"
proof -
  have "hub_reach 1 (hub_of 1 (Some 1) B_idle [new_request])"
    using reach_step [OF idle_broadcast hub_step.request] by simp
  from reach_step [OF this hub_step.h_count [of 0]] have "hub_reach 1 (hub_of 1 (Some 1) B_idle [blank (H_counted 0) False])"
    by (simp add: hub_simps)
  from reach_step [OF this hub_step.h_read [of 0]] have "hub_reach 1 (hub_of 1 (Some 1) B_idle [blank (H_read 0 (Some 1)) False])"
    by (simp add: hub_simps)
  from reach_step [OF this hub_step.h_insert [of 0]] show ?thesis by (simp add: hub_simps)
qed

text \<open>
  The bootstrap payload can arrive out of order.  The handler reads the last payload
  before it inserts the client and queues it afterwards; a broadcast in between overtakes
  it, and the new client receives payload 2 and then, as its newest, payload 1.
\<close>

theorem bootstrap_out_of_order:
  "\<exists>s. hub_reach 1 s \<and> hb_seq s = 2 \<and> map cl_out (hb_clients s) = [[Tick 2, Boot 1]]"
proof -
  let ?c = "\<lambda>h ms out p r. [fed h ms out p r]"
  let ?i = "H_inserted (Some 1)"
  from reach_step [OF inserted_late hub_step.bc_start]
  have "hub_reach 1 (hub_of 2 (Some 1) (B_marshal 2) (?c ?i [] [] P_new False))" by (simp add: numeral_2_eq_2)
  from reach_step [OF this hub_step.bc_store [of _ 2]]
  have "hub_reach 1 (hub_of 2 (Some 2) (B_stored 2) (?c ?i [] [] P_new False))" by simp
  from reach_step [OF this hub_step.bc_snapshot [of _ 2 "[0]"]]
  have "hub_reach 1 (hub_of 2 (Some 2) (B_fan 2 [0]) (?c ?i [] [] P_new False))" by (simp add: new_request_def Collect_conv_if)
  from reach_step [OF this hub_step.fan_check [of _ 2 0 "[]"]]
  have "hub_reach 1 (hub_of 2 (Some 2) (B_send 2 0 []) (?c ?i [] [] P_new False))" by (simp add: new_request_def)
  from reach_step [OF this hub_step.send_ok [of _ 2 0 "[]"]]
  have "hub_reach 1 (hub_of 2 (Some 2) (B_fan 2 []) (?c ?i [Tick 2] [] P_new False))" by (simp add: hub_simps)
  from reach_step [OF this hub_step.h_boot [of 0 _ 1]]
  have "hub_reach 1 (hub_of 2 (Some 2) (B_fan 2 []) (?c H_booted [Tick 2, Boot 1] [] P_new False))" by (simp add: hub_simps)
  from reach_step [OF this hub_step.h_pumps [of 0]]
  have "hub_reach 1 (hub_of 2 (Some 2) (B_fan 2 []) (?c H_served [Tick 2, Boot 1] [] P_run True))" by (simp add: hub_simps)
  from reach_step [OF this hub_step.p_write [of 0 _ "Tick 2" "[Boot 1]"]]
  have "hub_reach 1 (hub_of 2 (Some 2) (B_fan 2 []) (?c H_served [Boot 1] [Tick 2] P_run True))" by (simp add: hub_simps)
  from reach_step [OF this hub_step.p_write [of 0 _ "Boot 1" "[]"]]
  have "hub_reach 1 (hub_of 2 (Some 2) (B_fan 2 []) (?c H_served [] [Tick 2, Boot 1] P_run True))" by (simp add: hub_simps)
  then show ?thesis by (intro exI [of _ "hub_of 2 (Some 2) (B_fan 2 []) (?c H_served [] [Tick 2, Boot 1] P_run True)"]) simp
qed

theorem hub_safe_witness:
  "\<not> hb_panic (hub_of 1 (Some 1) B_idle [fed (H_inserted (Some 1)) [] [] P_new False])"
  using hub_safe [OF inserted_late, of 0] by simp


end
