(* ===== verification/TopologySensitivity.thy ===== *)
theory TopologySensitivity
  imports Topology
begin

text \<open>
  \<open>internal/modelling/topology_sensitivity.go\<close>: how much of the system depends on each
  service.  \<open>reachCount\<close> is proved to count the services within the given number of hops;
  the search for the path of the largest amplification is proved to find nothing.
\<close>

record ServiceSensitivity =
  ss_ServiceID :: string
  ss_PerturbationScore :: f64
  ss_DownstreamReach :: int
  ss_UpstreamExposure :: int
  ss_IsKeystone :: bool

record TopologySensitivity =
  ts_ByService :: "(string, ServiceSensitivity) gomap"
  ts_SystemFragility :: f64
  ts_MaxAmplificationPath :: "string list"
  ts_MaxAmplificationScore :: f64

type_synonym adjacency = "(string, string list) gomap"

definition nbrs :: "adjacency \<Rightarrow> string \<Rightarrow> string list" where
  "nbrs adj x = (case map_of adj x of None \<Rightarrow> [] | Some ys \<Rightarrow> ys)"

definition add_nbr :: "string \<Rightarrow> string \<Rightarrow> adjacency \<Rightarrow> adjacency" where
  "add_nbr x y adj = AList.update x (nbrs adj x @ [y]) adj"

definition weight_at :: "(string, f64) gomap \<Rightarrow> string \<Rightarrow> f64" where
  "weight_at m x = (case map_of m x of None \<Rightarrow> 0 | Some w \<Rightarrow> w)"

definition add_weight :: "string \<Rightarrow> f64 \<Rightarrow> (string, f64) gomap \<Rightarrow> (string, f64) gomap" where
  "add_weight x w m = AList.update x (weight_at m x + w) m"

section \<open>Reach\<close>

definition visit :: "string \<Rightarrow> string list \<times> string list \<Rightarrow> string list \<times> string list" where
  \<comment> \<open>the next layer and the visited nodes\<close>
  "visit nb nv = (if nb \<in> set (snd nv) then nv else (fst nv @ [nb], nb # snd nv))"

fun reach_loop :: "adjacency \<Rightarrow> nat \<Rightarrow> string list \<Rightarrow> string list \<Rightarrow> string list" where
  "reach_loop adj 0 layer visited = visited"
| "reach_loop adj (Suc d) layer visited =
    (if layer = [] then visited
     else let (next, visited) = fold (\<lambda>cur. fold visit (nbrs adj cur)) layer ([], visited)
          in reach_loop adj d next visited)"

definition reachCount :: "string \<Rightarrow> adjacency \<Rightarrow> nat \<Rightarrow> int" where
  "reachCount start adj maxDepth = int (length (reach_loop adj maxDepth [start] [start])) - 1"

section \<open>The path of the largest amplification\<close>

type_synonym log_edge = "string \<times> string \<times> f64"

definition log_edges :: "GraphSnapshot \<Rightarrow> log_edge list" where
  "log_edges snap =
     map (\<lambda>e. (eg_Source e, eg_Target e, math_Log (eg_Weight e))) (filter (\<lambda>e. 0 < eg_Weight e) (gs_Edges snap))"

definition log_orders :: "GraphSnapshot \<Rightarrow> (nat \<Rightarrow> log_edge list) \<Rightarrow> bool" where
  "log_orders snap lo \<longleftrightarrow> (\<forall>i. set (lo i) = set (log_edges snap))"

definition relax_log :: "log_edge \<Rightarrow> relax_state \<Rightarrow> relax_state" where
  "relax_log stw dp =
    (case (stw, dp) of ((src, tgt, logW), (ds, prev)) \<Rightarrow>
       let d = get_dist ds src + logW
       in if get_dist ds tgt < d then (AList.update tgt d ds, AList.update tgt src prev) else (ds, prev))"

definition findMaxAmplificationPath :: "(nat \<Rightarrow> log_edge list) \<Rightarrow> GraphSnapshot \<Rightarrow> f64 \<times> string list" where
  "findMaxAmplificationPath lo snap =
    (if gs_Edges snap = [] then (0, [])
     else
       let (ds, prev) = fold (\<lambda>i. fold relax_log (lo i)) [0..<length (gs_Nodes snap)] ([], []);
           (bestEnd, bestDist) = pick_best ds ('''', - MaxFloat64)
       in if bestEnd = '''' then (0, []) else (math_Exp bestDist, path_back prev bestEnd []))"

section \<open>The sensitivity of every service\<close>

record sens_maps =
  sm_outWeight :: "(string, f64) gomap"
  sm_inWeight :: "(string, f64) gomap"
  sm_outEdges :: adjacency
  sm_inEdges :: adjacency

definition sens_edge :: "Edge \<Rightarrow> sens_maps \<Rightarrow> sens_maps" where
  "sens_edge e m =
    (if eg_Weight e \<le> 0 then m
     else \<lparr> sm_outWeight = add_weight (eg_Source e) (eg_Weight e) (sm_outWeight m),
            sm_inWeight = add_weight (eg_Target e) (eg_Weight e) (sm_inWeight m),
            sm_outEdges = add_nbr (eg_Source e) (eg_Target e) (sm_outEdges m),
            sm_inEdges = add_nbr (eg_Target e) (eg_Source e) (sm_inEdges m) \<rparr>)"

definition sens_edges :: "GraphSnapshot \<Rightarrow> sens_maps" where
  "sens_edges snap = fold sens_edge (gs_Edges snap)
     \<lparr> sm_outWeight = [], sm_inWeight = [], sm_outEdges = [], sm_inEdges = [] \<rparr>"

definition both_weights :: "sens_maps \<Rightarrow> string \<Rightarrow> f64" where
  "both_weights m x = weight_at (sm_outWeight m) x + weight_at (sm_inWeight m) x"

definition sens_max_weight :: "sens_maps \<Rightarrow> f64" where
  "sens_max_weight m =
     fold (\<lambda>xw mx. if mx < both_weights m (fst xw) then both_weights m (fst xw) else mx) (sm_outWeight m) 1"

definition service_sensitivity :: "nat \<Rightarrow> sens_maps \<Rightarrow> f64 \<Rightarrow> string \<Rightarrow> ServiceSensitivity" where
  "service_sensitivity n m maxWeight x =
    (let perturbScore = both_weights m x / maxWeight;
         downReach = reachCount x (sm_outEdges m) 4
     in \<lparr> ss_ServiceID = x,
          ss_PerturbationScore = math_Min perturbScore 1,
          ss_DownstreamReach = downReach,
          ss_UpstreamExposure = reachCount x (sm_inEdges m) 4,
          ss_IsKeystone = (fl 0.6 < perturbScore \<or> int (n div 2) < downReach) \<rparr>)"

definition ComputeTopologySensitivity :: "(nat \<Rightarrow> log_edge list) \<Rightarrow> GraphSnapshot \<Rightarrow> TopologySensitivity" where
  "ComputeTopologySensitivity lo snap =
    (if gs_Nodes snap = []
     then \<lparr> ts_ByService = [], ts_SystemFragility = 0, ts_MaxAmplificationPath = [], ts_MaxAmplificationScore = 0 \<rparr>
     else
       let n = length (gs_Nodes snap);
           m = sens_edges snap;
           maxWeight = sens_max_weight m;
           ids = map nd_ServiceID (gs_Nodes snap);
           sumPerturbation = fold (\<lambda>x s. s + both_weights m x / maxWeight) ids 0;
           (bestScore, bestPath) = findMaxAmplificationPath lo snap
       in \<lparr> ts_ByService = fold (\<lambda>x. AList.update x (service_sensitivity n m maxWeight x)) ids [],
            ts_SystemFragility = math_Min (sumPerturbation / f64_of_int (int n)) 1,
            ts_MaxAmplificationPath = bestPath,
            ts_MaxAmplificationScore = bestScore \<rparr>)"

section \<open>What \<open>reachCount\<close> counts\<close>

definition hop :: "adjacency \<Rightarrow> (string \<times> string) set" where
  "hop adj = {(s, t). t \<in> set (nbrs adj s)}"

definition within_hops :: "adjacency \<Rightarrow> nat \<Rightarrow> string \<Rightarrow> string set" where
  "within_hops adj d s = {t. \<exists>n \<le> d. (s, t) \<in> hop adj ^^ n}"

lemma visit_simps [simp]:
  "nb \<in> set v \<Longrightarrow> visit nb (q, v) = (q, v)"
  "nb \<notin> set v \<Longrightarrow> visit nb (q, v) = (q @ [nb], nb # v)"
  by (simp_all add: visit_def)

lemma fold_visit:
  assumes "distinct v" "fold visit ns (q, v) = (q', v')"
  shows "set v' = set v \<union> set ns \<and> distinct v' \<and> set q' = set q \<union> (set ns - set v)"
  using assms
proof (induction ns arbitrary: q v)
  case (Cons nb ns)
  then show ?case
  proof (cases "nb \<in> set v")
    case False
    then show ?thesis using Cons.IH [of "nb # v" "q @ [nb]"] Cons.prems by auto
  next
    case True
    then show ?thesis using Cons.IH [of v q] Cons.prems by auto
  qed
qed simp

lemma fold_layer:
  assumes "distinct v" "fold (\<lambda>cur. fold visit (nbrs adj cur)) layer (q, v) = (q', v')"
  shows "set v' = set v \<union> hop adj `` set layer \<and> distinct v' \<and> set q' = set q \<union> (hop adj `` set layer - set v)"
  using assms
proof (induction layer arbitrary: q v)
  case (Cons x layer)
  obtain q1 v1 where 1: "fold visit (nbrs adj x) (q, v) = (q1, v1)" by fastforce
  have a: "set v1 = set v \<union> set (nbrs adj x)" "distinct v1" "set q1 = set q \<union> (set (nbrs adj x) - set v)"
    using fold_visit [OF Cons.prems(1) 1] by auto
  have h: "hop adj `` set (x # layer) = set (nbrs adj x) \<union> hop adj `` set layer"
    by (auto simp: hop_def)
  have "fold (\<lambda>cur. fold visit (nbrs adj cur)) layer (q1, v1) = (q', v')" using Cons.prems(2) 1 by simp
  from Cons.IH [OF a(2) this] show ?case using a unfolding h by auto
qed simp

lemma relpow_Image_Suc:
  "{t. \<exists>s \<in> V. \<exists>n \<le> Suc k. (s, t) \<in> R ^^ n} = {t. \<exists>s \<in> V \<union> R `` V. \<exists>n \<le> k. (s, t) \<in> R ^^ n}" (is "?l = ?r")
proof
  show "?l \<subseteq> ?r"
  proof
    fix t assume "t \<in> ?l"
    then obtain s n where s: "s \<in> V" "n \<le> Suc k" "(s, t) \<in> R ^^ n" by blast
    show "t \<in> ?r"
    proof (cases n)
      case (Suc j)
      then obtain u where "(s, u) \<in> R" "(u, t) \<in> R ^^ j" using s(3) relpow_Suc_D2 [of s t j R] by blast
      then show ?thesis using s Suc by blast
    qed (use s in \<open>auto intro!: bexI [of _ t] exI [of _ 0]\<close>)
  qed
  show "?r \<subseteq> ?l"
  proof
    fix t assume "t \<in> ?r"
    then obtain s n where s: "s \<in> V \<union> R `` V" "n \<le> k" "(s, t) \<in> R ^^ n" by blast
    show "t \<in> ?l"
    proof (cases "s \<in> V")
      case False
      then obtain u where "u \<in> V" "(u, s) \<in> R" using s by auto
      then show ?thesis using s relpow_Suc_I2 [of u s R t n] by (intro CollectI bexI [of _ u] exI [of _ "Suc n"]) auto
    qed (use s in \<open>auto intro: le_SucI\<close>)
  qed
qed

lemma closed_relpow: "R `` V \<subseteq> V \<Longrightarrow> {t. \<exists>s \<in> V. \<exists>n \<le> k. (s, t) \<in> R ^^ n} = V"
proof -
  assume c: "R `` V \<subseteq> V"
  have "(s, t) \<in> R ^^ n \<Longrightarrow> s \<in> V \<Longrightarrow> t \<in> V" for s t n
    using c by (induction n arbitrary: t) (auto 0 3)
  then show ?thesis by (auto intro!: exI [of _ 0])
qed

lemma reach_loop_set:
  assumes "distinct v" "set q \<subseteq> set v" "hop adj `` (set v - set q) \<subseteq> set v"
  shows "distinct (reach_loop adj d q v) \<and>
    set (reach_loop adj d q v) = {t. \<exists>s \<in> set v. \<exists>n \<le> d. (s, t) \<in> hop adj ^^ n}"
  using assms
proof (induction d arbitrary: q v)
  case (Suc d)
  show ?case
  proof (cases "q = []")
    case True
    then have "hop adj `` set v \<subseteq> set v" using Suc.prems by simp
    then show ?thesis using Suc.prems(1) closed_relpow [of "hop adj" "set v" "Suc d"] True by simp
  next
    case False
    obtain q' v' where f: "fold (\<lambda>cur. fold visit (nbrs adj cur)) q ([], v) = (q', v')" by fastforce
    have a: "set v' = set v \<union> hop adj `` set q" "distinct v'" "set q' = hop adj `` set q - set v"
      using fold_layer [OF Suc.prems(1) f] by auto
    have b: "set v' = set v \<union> hop adj `` set v" using a(1) Suc.prems(2,3) by blast
    have "set q' \<subseteq> set v'" "hop adj `` (set v' - set q') \<subseteq> set v'" using a b by auto
    from Suc.IH [OF a(2) this] show ?thesis
      using False unfolding relpow_Image_Suc by (simp add: f b)
  qed
qed simp

text \<open>
  C27: \<open>reachCount\<close> is exact: it returns the number of services other than the start that
  are reachable from it in at most the given number of hops, on any graph, with cycles
  and repeated edges.
\<close>

theorem reachCount_exact:
  "reachCount start adj d = int (card (within_hops adj d start - {start}))"
proof -
  have r: "distinct (reach_loop adj d [start] [start]) \<and>
      set (reach_loop adj d [start] [start]) = within_hops adj d start"
    using reach_loop_set [of "[start]" "[start]" adj d] by (simp add: within_hops_def)
  then have "int (length (reach_loop adj d [start] [start])) = int (card (within_hops adj d start))"
    by (metis distinct_card)
  moreover have "start \<in> within_hops adj d start" by (auto simp: within_hops_def intro!: exI [of _ 0])
  moreover have "finite (within_hops adj d start)" using r by (metis List.finite_set)
  ultimately have "Suc (card (within_hops adj d start - {start})) = length (reach_loop adj d [start] [start])"
    using card_Suc_Diff1 by fastforce
  then show ?thesis by (simp add: reachCount_def)
qed

section \<open>The search for the amplification path\<close>

lemma nonpos_not_pos: "f_nonpos x \<Longrightarrow> \<not> 0 < 0 + x"
proof -
  assume a: "f_nonpos x"
  show ?thesis
  proof (cases x)
    case (Fin r)
    then have "f_nonpos (fl r)" using a by (intro fl_nonpos) simp
    then show ?thesis using Fin by (cases "fl r") (auto simp: zero_f64_def)
  qed (use a in \<open>auto simp: zero_f64_def\<close>)
qed

lemma log_unit_nonpos: "fbtw 0 w 1 \<Longrightarrow> 0 < w \<Longrightarrow> f_nonpos (math_Log w)"
  by (cases w) (auto simp: zero_f64_def intro!: fl_nonpos)

lemma relax_log_idle: "f_nonpos w \<Longrightarrow> relax_log (s, t, w) ([], []) = ([], [])"
  by (simp add: relax_log_def get_dist_def nonpos_not_pos)

lemma no_relaxation:
  assumes "\<And>i s t w. (s, t, w) \<in> set (lo i) \<Longrightarrow> f_nonpos w"
  shows "fold (\<lambda>i. fold relax_log (lo i)) is ([], []) = ([], [])"
proof -
  have idle: "fold relax_log xs ([], []) = ([], [])" if "\<forall>(s, t, w) \<in> set xs. f_nonpos w" for xs
    using that by (induction xs) (auto simp: relax_log_idle)
  have "fold relax_log (lo i) ([], []) = ([], [])" for i
    by (rule idle) (use assms in auto)
  then show ?thesis by (induction "is") simp_all
qed

lemma findMax_nothing:
  assumes "\<And>e. e \<in> set (gs_Edges snap) \<Longrightarrow> fbtw 0 (eg_Weight e) 1" "log_orders snap lo"
  shows "findMaxAmplificationPath lo snap = (0, [])"
proof -
  have "f_nonpos w" if "(s, t, w) \<in> set (lo i)" for i s t w
    using that assms by (auto simp: log_orders_def log_edges_def intro: log_unit_nonpos)
  then show ?thesis
    by (simp add: findMaxAmplificationPath_def no_relaxation pick_best_def)
qed

text \<open>
  The search for the path of the largest amplification finds nothing.  The distances
  start at zero and the logarithm of a weight is never positive, so no edge is ever
  relaxed: for the snapshot of any reachable graph and any iteration order the path is
  empty and its score zero, also when the graph has edges.
\<close>

theorem amplification_never_found:
  fixes now :: gotime and eo :: edge_order
  assumes "\<forall>u \<in> set us. windows_ok (snd u)" "\<And>es. edge_orders es (ord es)"
  defines "snap \<equiv> Snapshot_graph now eo (updates ord us New_graph)"
  assumes "log_orders snap lo"
  shows "ts_MaxAmplificationPath (ComputeTopologySensitivity lo snap) = [] \<and>
    ts_MaxAmplificationScore (ComputeTopologySensitivity lo snap) = 0"
proof -
  have "graph_inv (updates ord us New_graph)" by (rule updates_inv [OF assms(1,2) New_graph_inv])
  then have "fbtw 0 (eg_Weight e) 1" if "e \<in> set (gs_Edges snap)" for e
    using that unfolding snap_def
    by (auto simp: Snapshot_graph_def graph_inv_def unit_btw_def dest!: flat_edges_map_of [rotated])
  from findMax_nothing [OF this assms(4)] show ?thesis
    by (simp add: ComputeTopologySensitivity_def Let_def)
qed

theorem amplification_never_found_witness:
  "let snap = Snapshot_graph 0 (\<lambda>i. []) (updates list_order [(0, two_callers)] New_graph) in
    length (gs_Edges snap) = 2 \<and>
    ts_MaxAmplificationPath (ComputeTopologySensitivity (\<lambda>i. log_edges snap) snap) = []"
proof -
  have "length (gs_Edges (Snapshot_graph 0 (\<lambda>i. []) (updates list_order [(0, two_callers)] New_graph))) = 2"
    unfolding two_updates using rnd_mono [of "0.02" 1] rnd_pow2 [of 0]
    by (simp add: Snapshot_graph_def flat_edges_def two_edge_def edgeWeightFloor_def one_f64_def fl_finite)
  then show ?thesis
    using amplification_never_found [OF two_windows_ok list_order_ok, of 0 "\<lambda>i. []"
        "\<lambda>i. log_edges (Snapshot_graph 0 (\<lambda>i. []) (updates list_order [(0, two_callers)] New_graph))"]
    by (simp add: Let_def log_orders_def)
qed

section \<open>The normalisation\<close>

definition fan_in :: GraphSnapshot where
  "fan_in = \<lparr> gs_CapturedAt = 0, gs_Nodes = map two_node [''a'', ''b'', ''c''],
     gs_Edges = [two_edge ''a'' ''c'', two_edge ''b'' ''c''],
     gs_CriticalPath = \<lparr> cr_Nodes = [], cr_TotalWeight = 0, cr_CascadeRisk = 0 \<rparr> \<rparr>"

text \<open>
  The weights are normalised by the largest sum over the services that have an outgoing
  edge: with two callers of one service that calls nobody, the maximum is one and the sum
  at the called service is two, which is not brought into the unit interval before it
  enters the fragility.
\<close>

lemma sink_not_normalised:
  "sens_max_weight (sens_edges fan_in) = Fin 1 \<and> both_weights (sens_edges fan_in) ''c'' = Fin 2"
  by (simp add: fan_in_def sens_edges_def sens_edge_def two_edge_def add_weight_def weight_at_def both_weights_def
      sens_max_weight_def one_f64_def zero_f64_def)

end
