(* ===== verification/FloatSign.thy ===== *)
theory FloatSign
  imports Float64
begin

text \<open>
  Values that are nonnegative unless they are NaN, and rounding near a real: the facts that
  carry signs and numeric constants through floating-point code without finiteness assumptions.
\<close>

section \<open>Values that are nonnegative unless they are NaN\<close>

definition nn :: "f64 \<Rightarrow> bool" where
  "nn x \<longleftrightarrow> x = NaN \<or> f_nonneg x"

lemma nnI [intro]: "f_nonneg x \<Longrightarrow> nn x"
  by (simp add: nn_def)

lemma nn_NaN [simp]: "nn NaN"
  by (simp add: nn_def)

lemma nn_cases: "nn x \<Longrightarrow> (x = NaN \<Longrightarrow> P) \<Longrightarrow> (x = PInf \<Longrightarrow> P) \<Longrightarrow> (\<And>r. x = Fin r \<Longrightarrow> 0 \<le> r \<Longrightarrow> P) \<Longrightarrow> P"
  by (auto simp: nn_def f_nonneg_def)

lemma nn_fl [simp]: "0 \<le> r \<Longrightarrow> nn (fl r)"
  by (simp add: nnI fl_nonneg)

lemma nn_Fin [simp]: "nn (Fin r) \<longleftrightarrow> 0 \<le> r"
  by (simp add: nn_def)

lemma NaN_absorbs [simp]:
  "x + NaN = NaN" "NaN + x = NaN" "x * NaN = NaN" "NaN * x = (NaN :: f64)" "math_Max 0 NaN = NaN"
  by (cases x; simp add: math_Max_def zero_f64_def)+

lemma nn_add: "nn x \<Longrightarrow> nn y \<Longrightarrow> nn (x + y)"
  by (elim nn_cases) auto

lemma nn_mult: "nn x \<Longrightarrow> nn y \<Longrightarrow> nn (x * y)"
  by (elim nn_cases) auto

lemma nn_divide: "nn x \<Longrightarrow> nn y \<Longrightarrow> nn (x / y)"
  by (elim nn_cases) auto

lemma nn_Max0: "nn (math_Max 0 x)"
  by (cases x) (auto simp: math_Max_def zero_f64_def)

lemma nn_Min: "nn x \<Longrightarrow> nn y \<Longrightarrow> nn (math_Min x y)"
  by (auto simp: math_Min_def nn_def)

lemma nn_one: "nn 1" "nn 0"
  by auto

lemma nn_of_int: "0 \<le> i \<Longrightarrow> nn (f64_of_int i)"
  by (simp add: f64_of_int_def)

lemma nn_uminus_nonpos: "nn x \<Longrightarrow> x \<noteq> NaN \<Longrightarrow> f_nonpos (- x)"
  by (auto simp: nn_def)

lemma nn_Max: "nn y \<Longrightarrow> nn (math_Max x y)"
  by (cases x; elim nn_cases) (auto simp: math_Max_def nn_def)

lemma nn_Sqrt: "nn (math_Sqrt x)"
  by (cases x) (auto intro: fl_nonneg)

lemma nn_Exp: "nn (math_Exp x)"
  by (cases x) (auto simp: nn_def zero_f64_def intro: fl_nonneg)

lemma nn_abs: "nn \<bar>x\<bar>"
  by (cases x) auto

lemma nn_clip: "nn (if x < 0 then 0 else x)"
  by (cases x) (auto simp: zero_f64_def)

lemma nn_Tanh: "nn x \<Longrightarrow> nn (math_Tanh x)"
  by (elim nn_cases) (auto simp: one_f64_def intro: fl_nonneg)

lemma math_Tanh_cases:
  obtains "math_Tanh x = NaN" | t where "math_Tanh x = Fin t" "- 1 \<le> t" "t \<le> 1"
proof (cases "x = NaN")
  case False
  have "fbtw (- 1) (math_Tanh x) 1"
  proof (cases x)
    case (Fin r)
    have "- 1 \<le> tanh r" "tanh r \<le> 1"
      using tanh_real_lt_1 [of r] tanh_real_gt_neg1 [of r] by linarith+
    then show ?thesis by (simp add: Fin) (intro fbtw_fl; simp)
  qed (use False in \<open>simp_all add: one_f64_def\<close>)
  then show ?thesis by (auto elim!: fbtwE intro: that(2))
qed (simp add: that(1))

lemmas nn_closed = nn_add nn_mult nn_divide nn_Max0 nn_Min nn_one nn_of_int nn_Max nn_Sqrt nn_Exp nn_abs nn_clip nn_Tanh

section \<open>Rounding near a real\<close>

lemma rnd_near: assumes "\<bar>x\<bar> \<le> 1024" shows "\<bar>rnd x - x\<bar> \<le> 1 / 1099511627776"
proof -
  define m where "m = \<lfloor>x * 2 ^ 40\<rfloor>"
  have m: "of_int m / 2 ^ 40 \<le> x" "x \<le> of_int (m + 1) / 2 ^ 40"
    using floor_correct [of "x * 2 ^ 40"] by (simp_all add: m_def field_simps)
  have "x * 2 ^ 40 \<le> 2 ^ 50" "- (2 ^ 50) \<le> x * 2 ^ 40" using assms by (simp_all add: abs_le_iff)
  moreover have "of_int m \<le> x * 2 ^ 40" "x * 2 ^ 40 < of_int m + 1" by (simp_all add: m_def)
  ultimately have "real_of_int m \<le> real_of_int (2 ^ 50)" "real_of_int (- (2 ^ 50) - 1) \<le> real_of_int m" by simp_all
  then have "m \<le> 2 ^ 50" "- (2 ^ 50) - 1 \<le> m" by (simp_all only: of_int_le_iff)
  then have "\<bar>m\<bar> \<le> 2 ^ 53" "\<bar>m + 1\<bar> \<le> 2 ^ 53" by (simp_all add: abs_le_iff)
  moreover have "frep (of_int i / 2 ^ 40)" if "\<bar>i\<bar> \<le> 2 ^ 53" for i
  proof (rule frepI [OF _ that])
    show "of_int i / 2 ^ 40 = (of_int i * 2 powi - 40 :: real)" by (simp add: power_int_minus)
  qed simp
  ultimately have "frep (of_int m / 2 ^ 40)" "frep (of_int (m + 1) / 2 ^ 40)" by blast+
  then have "of_int m / 2 ^ 40 \<le> rnd x" "rnd x \<le> of_int (m + 1) / 2 ^ 40"
    using rnd_mono [OF m(1)] rnd_mono [OF m(2)] by (simp_all only: rnd_frep)
  moreover have "(of_int (m + 1) / 2 ^ 40 :: real) = of_int m / 2 ^ 40 + 1 / 1099511627776" by (simp add: add_divide_distrib)
  ultimately show ?thesis using m by linarith
qed

lemma fl_near: assumes "\<bar>x\<bar> \<le> 1024" shows "\<exists>y. fl x = Fin y \<and> \<bar>y - x\<bar> \<le> 1 / 1099511627776"
proof -
  have "\<bar>x\<bar> \<le> 2 ^ 53" using assms by simp
  then have "fl x = Fin (rnd x)" by (rule fl_finite)
  then show ?thesis using rnd_near [OF assms] by auto
qed

lemma fl_close:
  assumes "- 1024 \<le> x" "x \<le> 1024"
  obtains y where "fl x = Fin y" "x - 1 / 100000 \<le> y" "y \<le> x + 1 / 100000"
proof -
  have "\<bar>x\<bar> \<le> 1024" using assms by simp
  then obtain y where y: "fl x = Fin y" "\<bar>y - x\<bar> \<le> 1 / 1099511627776" using fl_near by blast
  have "x - 1 / 100000 \<le> y" "y \<le> x + 1 / 100000" using y(2) by linarith+
  with y(1) show ?thesis by (rule that)
qed

end
