(* ===== verification/NetworkCoupling.thy ===== *)
theory NetworkCoupling
  imports StabilityModel TopologySensitivity FloatSign
begin

text \<open>
  \<open>internal/modelling/network.go\<close>, first half: \<open>ComputeNetworkCoupling\<close>, which propagates the
  load of the callers along the call graph and derives the coupled load, the equilibrium
  utilisation and the steady-state figures of every service.  The map of the windows is an
  association list; the order in which a sweep visits the targets is an argument, one list
  of targets per sweep.
\<close>

record NetworkCoupling =
  nc_EffectivePressure :: f64
  nc_PathSaturationRisk :: f64
  nc_CoupledArrivalRate :: f64
  nc_SaturationPathLength :: int
  nc_PathEquilibriumRho :: f64
  nc_PathCollapseProb :: f64
  nc_SteadyStateP0 :: f64
  nc_SteadyStateMeanQueue :: f64
  nc_CongestionFeedbackScore :: f64
  nc_PathSaturationHorizonSec :: f64

section \<open>The callers of a service\<close>

type_synonym weightedSrc = "string \<times> f64"

type_synonym caller_map = "(string, weightedSrc list) gomap"

definition callers_of :: "caller_map \<Rightarrow> string \<Rightarrow> weightedSrc list" where
  "callers_of callers x = (case map_of callers x of None \<Rightarrow> [] | Some ss \<Rightarrow> ss)"

definition add_caller :: "Edge \<Rightarrow> caller_map \<Rightarrow> caller_map" where
  "add_caller e callers =
    (if 0 < eg_Weight e
     then AList.update (eg_Target e) (callers_of callers (eg_Target e) @ [(eg_Source e, eg_Weight e)]) callers
     else callers)"

definition callers_index :: "GraphSnapshot \<Rightarrow> caller_map" where
  "callers_index snap = fold add_caller (gs_Edges snap) []"

function upstreamDepth :: "string \<Rightarrow> caller_map \<Rightarrow> string list \<Rightarrow> nat \<Rightarrow> nat \<Rightarrow> nat" where
  \<comment> \<open>the node is removed from \<open>visited\<close> on return, so the callee sees the nodes of the current path\<close>
  "upstreamDepth node callers visited depth maxDepth =
    (if maxDepth \<le> depth \<or> node \<in> set visited then depth
     else fold (\<lambda>s best. let d = upstreamDepth (fst s) callers (node # visited) (depth + 1) maxDepth
                         in if best < d then d else best)
            (callers_of callers node) depth)"
  by pat_completeness auto
termination
  by (relation "measure (\<lambda>(_, _, _, depth, maxDepth). maxDepth - depth)") auto

declare upstreamDepth.simps [simp del]

section \<open>Propagation of the pressure\<close>

definition initial_pressure :: "(string, ServiceWindow) gomap \<Rightarrow> (string, f64) gomap" where
  "initial_pressure windows = map (\<lambda>(x, w). (x, sw_MeanRequestRate w / max_rate windows)) windows"

definition injected :: "(string, f64) gomap \<Rightarrow> weightedSrc list \<Rightarrow> f64" where
  "injected pressure srcs =
    fold (\<lambda>s inj. case map_of pressure (fst s) of None \<Rightarrow> inj | Some p \<Rightarrow> inj + p * snd s * fl 0.25) srcs 0"

definition damped_pressure :: "f64 \<Rightarrow> f64 \<Rightarrow> f64" where
  "damped_pressure p load =
    (let rawNew = p + load; dampedNew = p + fl 0.6 * (rawNew - p)
     in if fl 2 < dampedNew then fl 2 else dampedNew)"

definition sweep_target ::
  "caller_map \<Rightarrow> (string, f64) gomap \<Rightarrow> string \<Rightarrow> (string, f64) gomap \<times> f64 \<Rightarrow> (string, f64) gomap \<times> f64" where
  "sweep_target callers pressure tgt acc =
    (let p = weight_at pressure tgt;
         dampedNew = damped_pressure p (injected pressure (callers_of callers tgt))
     in (AList.update tgt dampedNew (fst acc), snd acc + \<bar>dampedNew - p\<bar>))"

definition pressure_sweep :: "caller_map \<Rightarrow> string list \<Rightarrow> (string, f64) gomap \<Rightarrow> (string, f64) gomap \<times> f64" where
  "pressure_sweep callers order pressure = fold (sweep_target callers pressure) order (pressure, 0)"

fun pressure_loop ::
  "caller_map \<Rightarrow> (nat \<Rightarrow> string list) \<Rightarrow> nat \<Rightarrow> nat \<Rightarrow> (string, f64) gomap \<Rightarrow> (string, f64) gomap" where
  \<comment> \<open>the sweep number and the sweeps left\<close>
  "pressure_loop callers co i 0 pressure = pressure"
| "pressure_loop callers co i (Suc n) pressure =
    (let (pressure, delta) = pressure_sweep callers (co i) pressure
     in if delta < fl 0.00001 then pressure else pressure_loop callers co (Suc i) n pressure)"

definition pressures ::
  "(nat \<Rightarrow> string list) \<Rightarrow> (string, ServiceWindow) gomap \<Rightarrow> GraphSnapshot \<Rightarrow> (string, f64) gomap" where
  "pressures co windows snap =
     pressure_loop (callers_index snap) co 0 (min 20 (length (gs_Nodes snap))) (initial_pressure windows)"

definition target_orders :: "GraphSnapshot \<Rightarrow> (nat \<Rightarrow> string list) \<Rightarrow> bool" where
  "target_orders snap co \<longleftrightarrow> (\<forall>i. distinct (co i) \<and> set (co i) = keys (callers_index snap))"

section \<open>The figures of one service\<close>

definition path_saturation_risk :: "caller_map \<Rightarrow> (string, f64) gomap \<Rightarrow> string \<Rightarrow> f64" where
  "path_saturation_risk callers pressure x =
    (let srcs = callers_of callers x
     in if srcs = [] then 0
        else f64_of_int (int (length (filter (\<lambda>s. fl 0.85 < weight_at pressure (fst s)) srcs))) /
             f64_of_int (int (length srcs)))"

definition coupled_rate :: "(string, ServiceWindow) gomap \<Rightarrow> GraphSnapshot \<Rightarrow> string \<Rightarrow> ServiceWindow \<Rightarrow> f64" where
  "coupled_rate windows snap x w =
     math_Min (fold (\<lambda>e r. if eg_Target e = x \<and> 0 < eg_Weight e
                     then (case map_of windows (eg_Source e) of None \<Rightarrow> r
                           | Some uw \<Rightarrow> r + eg_Weight e * sw_MeanRequestRate uw * fl 0.15)
                     else r) (gs_Edges snap) (sw_MeanRequestRate w))
       (sw_MeanRequestRate w * fl 2.5)"

definition window_util :: "ServiceWindow \<Rightarrow> f64" where
  "window_util w =
    (if 0 < sw_MeanRequestRate w \<and> 0 < sw_MeanLatencyMs w
     then math_Min (sw_MeanRequestRate w * (sw_MeanLatencyMs w / fl 1000) / math_Max (sw_MeanActiveConns w) 1) (fl 2)
     else 0)"

definition outbound_mean :: "GraphSnapshot \<Rightarrow> string \<Rightarrow> f64" where
  "outbound_mean snap x =
    (let out = filter (\<lambda>e. eg_Source e = x \<and> 0 < eg_Weight e) (gs_Edges snap)
     in if out = [] then 0 else fold (\<lambda>e s. s + eg_Weight e) out 0 / f64_of_int (int (length out)))"

definition equilibrium_rho :: "f64 \<Rightarrow> f64" where
  "equilibrium_rho ep = math_Min (ep * (1 + ep * fl 0.20)) (fl 2)"

definition saturation_horizon :: "ServiceWindow \<Rightarrow> f64 \<Rightarrow> f64 \<Rightarrow> f64" where
  "saturation_horizon w localUtil eqRho =
    (if 1 \<le> eqRho then 0
     else if 0 < localUtil \<and> localUtil < 1
     then let halfWindowSec = f64_of_int (sw_SampleCount w) * fl 2 / fl 2
          in if 0 < halfWindowSec
             then let pressureTrend = (eqRho - localUtil) / halfWindowSec
                  in if fl 0.000001 < pressureTrend
                     then let h = (1 - eqRho) / pressureTrend in if h < 0 then 0 else h
                     else - 1
             else - 1
     else - 1)"

section \<open>Steady state of the M/M/c queue\<close>

definition servers :: "ServiceWindow \<Rightarrow> f64" where
  "servers w = math_Max (math_Round (sw_MeanActiveConns w)) 1"

definition computeSteadyStateP0 :: "f64 \<Rightarrow> ServiceWindow \<Rightarrow> f64" where
  "computeSteadyStateP0 eqRho w =
    (if 1 \<le> eqRho then 0
     else if eqRho \<le> 0 then 1
     else
       let c = servers w;
           ci = int_of_f64 c;
           logA = math_Log (math_Max (eqRho * c) (fl (1 / 10 ^ 12)));
           logSumK = log_sum_exp (erlang_terms ci logA);
           logLastTerm = f64_of_int ci * logA - logFactorial ci - math_Log (1 - eqRho)
       in if logSumK < logLastTerm
          then 1 / math_Exp (logLastTerm + math_Log (1 + math_Exp (logSumK - logLastTerm)))
          else 1 / math_Exp (logSumK + math_Log (1 + math_Exp (logLastTerm - logSumK))))"

definition computeErlangCNet :: "f64 \<Rightarrow> f64 \<Rightarrow> f64 \<Rightarrow> f64" where
  "computeErlangCNet c a rho =
    (let ci = max 1 (int_of_f64 (math_Round c))
     in if 1 \<le> rho then 1
        else let logA = math_Log (math_Max a (fl (1 / 10 ^ 12)));
                 logSumK = log_sum_exp (erlang_terms ci logA);
                 logLastTerm = f64_of_int ci * logA - logFactorial ci - math_Log (1 - rho);
                 d = logLastTerm - logSumK
             in if fl 700 < d then 1 else let ratio = math_Exp d in ratio / (1 + ratio))"

definition computeSteadyStateMeanQueue :: "f64 \<Rightarrow> ServiceWindow \<Rightarrow> f64" where
  "computeSteadyStateMeanQueue eqRho w =
    (if 1 \<le> eqRho then - 1
     else if eqRho \<le> 0 then 0
     else let c = servers w;
              lq = computeErlangCNet c (eqRho * c) eqRho * eqRho / (1 - eqRho)
          in if math_IsNaN lq \<or> math_IsInf lq then 0 else lq)"

section \<open>The coupling of all services\<close>

definition service_coupling ::
  "(string, ServiceWindow) gomap \<Rightarrow> GraphSnapshot \<Rightarrow> (string, f64) gomap \<Rightarrow> string \<Rightarrow> ServiceWindow \<Rightarrow> NetworkCoupling" where
  "service_coupling windows snap pressure x w =
    (let callers = callers_index snap;
         ep = weight_at pressure x;
         localUtil = window_util w;
         eqRho = equilibrium_rho ep
     in \<lparr> nc_EffectivePressure = ep,
          nc_PathSaturationRisk = path_saturation_risk callers pressure x,
          nc_CoupledArrivalRate = coupled_rate windows snap x w,
          nc_SaturationPathLength = int (upstreamDepth x callers [] 0 6),
          nc_PathEquilibriumRho = eqRho,
          nc_PathCollapseProb = sigmoid ((eqRho - fl 0.90) / fl 0.04),
          nc_SteadyStateP0 = computeSteadyStateP0 eqRho w,
          nc_SteadyStateMeanQueue = computeSteadyStateMeanQueue eqRho w,
          nc_CongestionFeedbackScore = math_Min (localUtil * outbound_mean snap x) 1,
          nc_PathSaturationHorizonSec = saturation_horizon w localUtil eqRho \<rparr>)"

definition ComputeNetworkCoupling ::
  "(nat \<Rightarrow> string list) \<Rightarrow> (string, ServiceWindow) gomap \<Rightarrow> GraphSnapshot \<Rightarrow> (string, NetworkCoupling) gomap" where
  \<comment> \<open>the nil map of the early return is the empty map\<close>
  "ComputeNetworkCoupling co windows snap =
    (if windows = [] \<or> gs_Nodes snap = [] then []
     else let pressure = pressures co windows snap
          in map (\<lambda>(x, w). (x, service_coupling windows snap pressure x w)) windows)"

section \<open>The depth of the callers\<close>

fun chain :: "caller_map \<Rightarrow> string list \<Rightarrow> bool" where
  "chain callers (x # y # zs) = (y \<in> fst ` set (callers_of callers x) \<and> chain callers (y # zs))"
| "chain callers _ = True"

text \<open>
  A chain of callers that starts at \<open>x\<close> and repeats no service before its last one; the last
  may close a cycle.
\<close>

definition open_chain :: "caller_map \<Rightarrow> string list \<Rightarrow> string \<Rightarrow> string list \<Rightarrow> bool" where
  "open_chain callers visited x xs \<longleftrightarrow> xs \<noteq> [] \<and> hd xs = x \<and> chain callers xs \<and>
     distinct (butlast xs) \<and> set (butlast xs) \<inter> set visited = {}"

definition chain_lengths :: "caller_map \<Rightarrow> string list \<Rightarrow> string \<Rightarrow> nat \<Rightarrow> nat set" where
  "chain_lengths callers visited x k = {length xs - 1 |xs. open_chain callers visited x xs \<and> length xs \<le> Suc k}"

lemma fold_max_if: "fold (\<lambda>s best. let d = f s in if best < d then d else best) xs b = Max (insert b (f ` set xs))" for f :: "'a \<Rightarrow> nat"
proof -
  have "fold (\<lambda>s best. let d = f s in if best < d then d else best) xs b = fold max (map f xs) b"
    by (induction xs arbitrary: b) (auto simp: Let_def max_def)
  also have "\<dots> = Max (set (b # map f xs))" by (rule Max.set_eq_fold [symmetric])
  finally show ?thesis by simp
qed

lemma chain_lengths_step:
  assumes "x \<notin> set visited"
  shows "chain_lengths callers visited x (Suc k) =
    insert 0 (\<Union>y \<in> fst ` set (callers_of callers x). Suc ` chain_lengths callers (x # visited) y k)"
    (is "?L = insert 0 (\<Union>y \<in> ?C. ?R y)")
proof (intro equalityI subsetI)
  fix n assume "n \<in> ?L"
  then obtain xs where xs: "n = length xs - 1" "open_chain callers visited x xs" "length xs \<le> Suc (Suc k)"
    by (auto simp: chain_lengths_def)
  show "n \<in> insert 0 (\<Union>y \<in> ?C. ?R y)"
  proof (cases xs)
    case (Cons a ys)
    show ?thesis
    proof (cases ys)
      case Nil
      then show ?thesis using xs(1) Cons by simp
    next
      case (Cons y zs)
      have "y \<in> ?C" "open_chain callers (x # visited) y ys" "length ys \<le> Suc k" "n = Suc (length ys - 1)"
        using xs \<open>xs = a # ys\<close> Cons by (auto simp: open_chain_def)
      then show ?thesis by (auto simp: chain_lengths_def)
    qed
  qed (use xs in \<open>simp add: open_chain_def\<close>)
next
  fix n assume "n \<in> insert 0 (\<Union>y \<in> ?C. ?R y)"
  then consider "n = 0" | y ys where "y \<in> ?C" "n = Suc (length ys - 1)" "open_chain callers (x # visited) y ys" "length ys \<le> Suc k"
    by (auto simp: chain_lengths_def)
  then show "n \<in> ?L"
  proof cases
    case 1
    have "open_chain callers visited x [x]" by (simp add: open_chain_def)
    then show ?thesis using 1 by (force simp: chain_lengths_def)
  next
    case 2
    then obtain zs where ys: "ys = y # zs" by (cases ys) (auto simp: open_chain_def)
    have "open_chain callers visited x (x # ys)" using 2(1,3) assms ys by (auto simp: open_chain_def)
    then show ?thesis using 2(2,4) ys by (auto simp: chain_lengths_def intro!: exI [of _ "x # ys"])
  qed
qed

lemma chain_lengths_bound: "finite (chain_lengths callers visited x k)" "0 \<in> chain_lengths callers visited x k"
proof -
  have "chain_lengths callers visited x k \<subseteq> {..k}" by (auto simp: chain_lengths_def)
  then show "finite (chain_lengths callers visited x k)" by (rule finite_subset) simp
  have "open_chain callers visited x [x]" by (simp add: open_chain_def)
  then show "0 \<in> chain_lengths callers visited x k" by (force simp: chain_lengths_def)
qed

lemma chain_lengths_end: "k = 0 \<or> x \<in> set visited \<Longrightarrow> chain_lengths callers visited x k = {0}"
proof -
  assume k: "k = 0 \<or> x \<in> set visited"
  have "length xs = 1" if "open_chain callers visited x xs" "length xs \<le> Suc k" for xs
    using that k by (cases xs; cases "tl xs") (auto simp: open_chain_def)
  then show ?thesis using chain_lengths_bound(2) by (fastforce simp: chain_lengths_def)
qed

lemma upstreamDepth_chains:
  "depth \<le> maxDepth \<Longrightarrow>
   upstreamDepth x callers visited depth maxDepth = depth + Max (chain_lengths callers visited x (maxDepth - depth))"
proof (induction x callers visited depth maxDepth rule: upstreamDepth.induct)
  case (1 x callers visited depth maxDepth)
  show ?case
  proof (cases "maxDepth \<le> depth \<or> x \<in> set visited")
    case True
    then show ?thesis using 1(2) by (auto simp: upstreamDepth.simps [of x] chain_lengths_end)
  next
    case False
    define k where "k = maxDepth - Suc depth"
    define L where "L y = chain_lengths callers (x # visited) y k" for y
    have k: "maxDepth - depth = Suc k" using False unfolding k_def by arith
    have IH: "upstreamDepth (fst s) callers (x # visited) (depth + 1) maxDepth = depth + Suc (Max (L (fst s)))"
      if "s \<in> set (callers_of callers x)" for s
      using 1(1) [OF False that] False by (simp add: L_def k_def)
    have fin: "finite (L y)" "L y \<noteq> {}" for y using chain_lengths_bound [of callers "x # visited" y k] by (auto simp: L_def)
    define A where "A = insert 0 (\<Union>y \<in> fst ` set (callers_of callers x). Suc ` L y)"
    have A: "finite A" "\<And>y. y \<in> fst ` set (callers_of callers x) \<Longrightarrow> Suc (Max (L y)) \<in> A"
      using fin(1) Max_in [OF fin] unfolding A_def by blast+
    have "upstreamDepth x callers visited depth maxDepth =
        Max (insert depth ((\<lambda>s. upstreamDepth (fst s) callers (x # visited) (depth + 1) maxDepth) ` set (callers_of callers x)))"
      using False by (simp only: upstreamDepth.simps [of x] fold_max_if if_False)
    also have "\<dots> = depth + Max A"
    proof (rule Max_eqI)
      show "n \<le> depth + Max A"
        if "n \<in> insert depth ((\<lambda>s. upstreamDepth (fst s) callers (x # visited) (depth + 1) maxDepth) ` set (callers_of callers x))" for n
        using that IH A(1,2) Max_ge [OF A(1)] by fastforce
      have "Max A \<in> A" using A(1) by (intro Max_in) (auto simp: A_def)
      then consider "Max A = 0" | s n where "s \<in> set (callers_of callers x)" "n \<in> L (fst s)" "Max A = Suc n"
        by (auto simp: A_def)
      then show "depth + Max A \<in> insert depth ((\<lambda>s. upstreamDepth (fst s) callers (x # visited) (depth + 1) maxDepth) ` set (callers_of callers x))"
      proof cases
        case 2
        have "Suc (Max (L (fst s))) \<in> A" using 2(1) by (intro A(2)) simp
        from Max_ge [OF A(1) this] have "Max (L (fst s)) \<le> n" unfolding 2(3) by simp
        then have "n = Max (L (fst s))" using Max_ge [OF fin(1) 2(2)] by (intro antisym)
        then have "depth + Max A = upstreamDepth (fst s) callers (x # visited) (depth + 1) maxDepth"
          using IH [OF 2(1)] 2(3) by simp
        then show ?thesis using 2(1) by blast
      qed simp
    qed simp
    finally show ?thesis
      using False chain_lengths_step [of x visited callers k] by (simp add: k L_def A_def)
  qed
qed

section \<open>The pressure never falls and never exceeds two\<close>

definition pval :: "f64 \<Rightarrow> bool" where
  "pval p \<longleftrightarrow> (\<exists>r. p = Fin r \<and> frep r \<and> 0 \<le> r \<and> r \<le> 2)"

definition pressure_ok :: "(string, f64) gomap \<Rightarrow> bool" where
  "pressure_ok m \<longleftrightarrow> (\<forall>(x, p) \<in> set m. pval p)"

definition coupling_window :: "ServiceWindow \<Rightarrow> bool" where
  "coupling_window w \<longleftrightarrow> window_ok w \<and> fbtw 0 (sw_MeanRequestRate w) (2 ^ 24) \<and> fbtw 0 (sw_MeanLatencyMs w) (2 ^ 22) \<and>
     fbtw 0 (sw_MeanActiveConns w) (2 ^ 20) \<and> sw_SampleCount w \<le> 2 ^ 31"

definition coupling_inputs :: "(string, ServiceWindow) gomap \<Rightarrow> GraphSnapshot \<Rightarrow> bool" where
  "coupling_inputs windows snap \<longleftrightarrow> (\<forall>(x, w) \<in> set windows. coupling_window w) \<and>
     (\<forall>e \<in> set (gs_Edges snap). unit_btw (eg_Weight e)) \<and> length (gs_Edges snap) \<le> 2 ^ 50"

lemma pval_0 [simp]: "pval 0"
  by (simp add: pval_def zero_f64_def)

lemma pval_btw: "pval p \<Longrightarrow> fbtw 0 p 2"
  by (auto simp: pval_def)

lemma pressure_at: "pressure_ok m \<Longrightarrow> pval (weight_at m x)"
  by (auto simp: weight_at_def pressure_ok_def split: option.split dest: map_of_SomeD)

lemma pressure_update: "pressure_ok m \<Longrightarrow> pval p \<Longrightarrow> pressure_ok (AList.update x p m)"
  by (auto simp: pressure_ok_def dest!: set_updateD)

lemma callers_of_weights:
  assumes "\<forall>e \<in> set es. unit_btw (eg_Weight e)" "\<forall>x. \<forall>(s, v) \<in> set (callers_of m x). unit_btw v"
  shows "\<forall>(s, v) \<in> set (callers_of (fold add_caller es m) x). unit_btw v"
  using assms
proof (induction es arbitrary: m)
  case (Cons e es)
  have "\<forall>x. \<forall>(s, v) \<in> set (callers_of (add_caller e m) x). unit_btw v"
    using Cons.prems by (auto simp: add_caller_def callers_of_def split: if_splits option.splits)
  then show ?case using Cons.IH Cons.prems(1) by simp
qed simp

lemma injected_nonneg:
  assumes "pressure_ok pressure" "\<forall>(s, v) \<in> set srcs. unit_btw v" shows "f_nonneg (injected pressure srcs)"
proof -
  have "f_nonneg (p * v * fl 0.25)" if "pval p" "unit_btw v" for p v
  proof -
    have "fbtw 0 (p * v) 2" by (rule fbtw_mult [OF pval_btw [OF that(1)] that(2) [unfolded unit_btw_def]]) simp_all
    then have "fbtw 0 (p * v * fl 0.25) 2" by (rule fbtw_mult [OF _ fbtw_fl [of 0 _ 1]]) simp_all
    then show ?thesis by (rule fbtw_nonneg)
  qed
  note step = this
  show ?thesis
    unfolding injected_def
  proof (rule fold_inv [where P = f_nonneg])
    fix s a assume s: "s \<in> set srcs" "f_nonneg a"
    have "unit_btw (snd s)" using s(1) assms(2) by auto
    then show "f_nonneg (case map_of pressure (fst s) of None \<Rightarrow> a | Some p \<Rightarrow> a + p * snd s * fl 0.25)"
      using s(2) assms(1) by (auto split: option.split intro!: f_nonneg_add step [simplified] dest!: map_of_SomeD simp: pressure_ok_def)
  qed simp
qed

lemma fl_2: "fl 2 = Fin 2"
  by (rule fl_numeral) simp

lemma fl_add_ge:
  assumes "frep r" "0 \<le> r" "0 \<le> y" shows "fl (r + y) = PInf \<or> (\<exists>s. fl (r + y) = Fin s \<and> r \<le> s \<and> frep s)"
  using fl_pos_cases [of "r + y"] rnd_mono [of r "r + y"] assms by (auto simp: rnd_frep frep_rnd)

lemma damped_pressure_ok:
  assumes "pval p" "f_nonneg y" shows "pval (damped_pressure p y) \<and> p \<le> damped_pressure p y"
proof -
  obtain r where r: "p = Fin r" "frep r" "0 \<le> r" "r \<le> 2" using assms(1) by (auto simp: pval_def)
  have c: "\<exists>c > 0. fl 0.6 = Fin c"
  proof -
    have "fbtw (1 / 2) (fl 0.6) 1" by (rule fbtw_fl) simp_all
    then show ?thesis by (auto elim!: fbtwE)
  qed
  define d where "d = p + fl 0.6 * (p + y - p)"
  have "p + y = PInf \<or> (\<exists>s. p + y = Fin s \<and> r \<le> s)"
    using assms(2) r fl_add_ge [OF r(2,3)] by (cases y) fastforce+
  then have "f_nonneg (p + y - p)" using r(1) by (auto intro!: fl_nonneg simp: minus_f64_def [of PInf])
  then have "f_nonneg (fl 0.6 * (p + y - p))" using c by (cases "p + y - p") (auto intro!: fl_nonneg)
  then have "d = PInf \<or> (\<exists>s. d = Fin s \<and> r \<le> s \<and> frep s)"
    using r fl_add_ge [OF r(2,3)] unfolding d_def by (cases "fl 0.6 * (p + y - p)") fastforce+
  then show ?thesis
    using r unfolding damped_pressure_def Let_def d_def [symmetric] fl_2
    by (auto simp: pval_def)
qed

lemma sweep_ok:
  assumes "pressure_ok pressure" "\<forall>x. \<forall>(s, v) \<in> set (callers_of callers x). unit_btw v"
    "pressure_sweep callers order pressure = (pressure', delta)"
  shows "pressure_ok pressure' \<and> (\<forall>x. weight_at pressure x \<le> weight_at pressure' x)"
proof -
  define good where "good acc \<longleftrightarrow> pressure_ok (fst acc) \<and> (\<forall>x. weight_at pressure x \<le> weight_at (fst acc) x)"
    for acc :: "(string, f64) gomap \<times> f64"
  have "good (fold (sweep_target callers pressure) order (pressure, 0))"
  proof (rule fold_inv [where P = good])
    have "weight_at pressure x \<le> weight_at pressure x" for x
      using pressure_at [OF assms(1), of x] by (auto simp: pval_def)
    then show "good (pressure, 0)" using assms(1) by (simp add: good_def)
    fix tgt acc assume "good acc"
    moreover have "f_nonneg (injected pressure (callers_of callers tgt))"
      using assms(2) by (intro injected_nonneg [OF assms(1)]) blast
    note damped_pressure_ok [OF pressure_at [OF assms(1), of tgt] this]
    ultimately show "good (sweep_target callers pressure tgt acc)"
      by (auto simp: good_def sweep_target_def Let_def weight_at_def intro: pressure_update)
  qed
  then show ?thesis using assms(3) by (simp add: good_def pressure_sweep_def)
qed

lemma pressure_loop_ok:
  assumes "\<forall>x. \<forall>(s, v) \<in> set (callers_of callers x). unit_btw v"
  shows "pressure_ok pressure \<Longrightarrow> pressure_ok (pressure_loop callers co i n pressure) \<and>
    (\<forall>x. weight_at pressure x \<le> weight_at (pressure_loop callers co i n pressure) x)"
proof (induction n arbitrary: i pressure)
  case 0
  then show ?case using pressure_at [OF 0] by (auto simp: pval_def) (metis less_eq_f64.simps(1) order_refl)
next
  case (Suc n)
  obtain p' delta where s: "pressure_sweep callers (co i) pressure = (p', delta)" by (cases "pressure_sweep callers (co i) pressure")
  have p': "pressure_ok p'" "\<forall>x. weight_at pressure x \<le> weight_at p' x"
    using sweep_ok [OF Suc.prems assms s] by blast+
  show ?case
  proof (cases "delta < fl 0.00001")
    case False
    have "pressure_ok (pressure_loop callers co (Suc i) n p')"
      "\<forall>x. weight_at p' x \<le> weight_at (pressure_loop callers co (Suc i) n p') x"
      using Suc.IH [OF p'(1)] by blast+
    then show ?thesis using p'(2) False by (auto simp: s intro: le_trans64)
  qed (use p' in \<open>simp add: s\<close>)
qed

lemma initial_pressure_ok:
  assumes "\<forall>(x, w) \<in> set windows. coupling_window w" shows "pressure_ok (initial_pressure windows)"
proof -
  have "windows_ok windows" using assms by (auto simp: windows_ok_def coupling_window_def)
  moreover have "fbtw 1 1 big" by (simp add: one_f64_def)
  ultimately obtain r where r: "max_rate windows = Fin r" "1 \<le> r" "\<forall>(x, w) \<in> set windows. sw_MeanRequestRate w \<le> Fin r"
    using max_rate_ge [of 1 windows] by (auto simp: max_rate_def)
  have "pval (sw_MeanRequestRate w / Fin r)" if "(x, w) \<in> set windows" for x w
  proof -
    have "fbtw 0 (sw_MeanRequestRate w) (2 ^ 24)" using that assms by (auto simp: coupling_window_def)
    then obtain q where q: "sw_MeanRequestRate w = Fin q" "0 \<le> q" by (rule fbtwE)
    then have "q \<le> r" using that r(3) by auto
    then have "0 \<le> q / r" "q / r \<le> 1" using q r(2) by auto
    then have "fbtw 0 (fl (q / r)) 1" "fl (q / r) = Fin (rnd (q / r))" by (auto intro!: fbtw_fl fl_finite)
    then show ?thesis using q(1) r(2) by (auto simp: pval_def frep_rnd)
  qed
  then show ?thesis by (auto simp: pressure_ok_def initial_pressure_def r(1))
qed

lemma pressures_ok: "coupling_inputs windows snap \<Longrightarrow> pressure_ok (pressures co windows snap)"
  unfolding pressures_def callers_index_def coupling_inputs_def
  by (intro conjunct1 [OF pressure_loop_ok] initial_pressure_ok allI callers_of_weights) (auto simp: callers_of_def)

section \<open>The ranges of the figures\<close>

lemma path_risk_unit:
  assumes "length (callers_of callers x) \<le> 2 ^ 50" shows "unit_btw (path_saturation_risk callers pressure x)"
proof (cases "callers_of callers x = []")
  case False
  define srcs where "srcs = callers_of callers x"
  define sat where "sat = filter (\<lambda>s. fl 0.85 < weight_at pressure (fst s)) srcs"
  have l: "length sat \<le> length srcs" "0 < length srcs" "length srcs \<le> 2 ^ 50"
    using assms False by (simp_all add: sat_def srcs_def)
  then have "f64_of_int (int (length srcs)) = Fin (real (length srcs))" "f64_of_int (int (length sat)) = Fin (real (length sat))"
    by (subst fl_int; simp)+
  moreover have "real (length sat) / real (length srcs) \<le> 1" using l by simp
  ultimately show ?thesis using l
    unfolding path_saturation_risk_def Let_def srcs_def [symmetric] sat_def [symmetric]
    by (auto simp: unit_btw_def intro!: fbtw_fl)
qed (simp add: path_saturation_risk_def)

lemma callers_of_length:
  "length (callers_of (fold add_caller es m) x) \<le> length (callers_of m x) + length es"
proof (induction es arbitrary: m)
  case (Cons e es)
  have "length (callers_of (add_caller e m) x) \<le> Suc (length (callers_of m x))"
    by (auto simp: add_caller_def callers_of_def split: option.split)
  then show ?case using Cons.IH [of "add_caller e m"] by simp
qed simp

lemma coupled_rate_btw:
  assumes "coupling_inputs windows snap" "coupling_window w" shows "fbtw 0 (coupled_rate windows snap x w) (2 ^ 26)"
proof -
  have w: "fbtw 0 (sw_MeanRequestRate w) (2 ^ 24)" using assms(2) by (simp add: coupling_window_def)
  have lim: "fbtw 0 (sw_MeanRequestRate w * fl 2.5) (2 ^ 26)"
    by (rule fbtw_mult [OF w fbtw_fl [of 0 _ 4]]) simp_all
  have "f_nonneg (fold (\<lambda>e r. if eg_Target e = x \<and> 0 < eg_Weight e
      then (case map_of windows (eg_Source e) of None \<Rightarrow> r
            | Some uw \<Rightarrow> r + eg_Weight e * sw_MeanRequestRate uw * fl 0.15) else r) (gs_Edges snap) (sw_MeanRequestRate w))"
  proof (rule fold_inv [where P = f_nonneg])
    fix e r assume e: "e \<in> set (gs_Edges snap)" "f_nonneg r"
    have "f_nonneg (eg_Weight e * sw_MeanRequestRate uw * fl 0.15)" if "map_of windows (eg_Source e) = Some uw" for uw
    proof -
      have "(eg_Source e, uw) \<in> set windows" using that by (rule map_of_SomeD)
      then have u: "fbtw 0 (sw_MeanRequestRate uw) (2 ^ 24)" "fbtw 0 (eg_Weight e) 1"
        using assms(1) e(1) by (auto simp: coupling_inputs_def coupling_window_def unit_btw_def)
      have "fbtw 0 (eg_Weight e * sw_MeanRequestRate uw) (2 ^ 24)" by (rule fbtw_mult [OF u(2,1)]) simp_all
      then have "fbtw 0 (eg_Weight e * sw_MeanRequestRate uw * fl 0.15) (2 ^ 24)"
        by (rule fbtw_mult [OF _ fbtw_fl [of 0 _ 1]]) simp_all
      then show ?thesis by (rule fbtw_nonneg)
    qed
    then show "f_nonneg (if eg_Target e = x \<and> 0 < eg_Weight e
      then (case map_of windows (eg_Source e) of None \<Rightarrow> r
            | Some uw \<Rightarrow> r + eg_Weight e * sw_MeanRequestRate uw * fl 0.15) else r)"
      using e(2) by (auto split: option.split intro!: f_nonneg_add)
  qed (use w in \<open>rule fbtw_nonneg\<close>)
  moreover have "fbtw 0 (math_Min y (sw_MeanRequestRate w * fl 2.5)) (2 ^ 26)" if "f_nonneg y" for y
    using that lim by (cases y) (auto simp: math_Min_def elim!: fbtwE)
  ultimately show ?thesis by (simp only: coupled_rate_def)
qed

lemma min_2_btw: "f_nonneg x \<Longrightarrow> fbtw 0 (math_Min x (fl 2)) 2"
  by (cases x) (auto simp: fl_2 math_Min_def)

lemma window_util_btw: assumes "coupling_window w" shows "fbtw 0 (window_util w) 2"
proof -
  have w: "fbtw 0 (sw_MeanRequestRate w) (2 ^ 24)" "fbtw 0 (sw_MeanLatencyMs w) (2 ^ 22)" "fbtw 0 (sw_MeanActiveConns w) (2 ^ 20)"
    using assms by (simp_all add: coupling_window_def)
  have "fbtw 0 (sw_MeanLatencyMs w / fl 1000) (2 ^ 22)"
    by (rule fbtw_divide [OF w(2), of 1 _ 1000]) (simp_all add: fl_numeral)
  then have "fbtw 0 (sw_MeanRequestRate w * (sw_MeanLatencyMs w / fl 1000)) (2 ^ 46)"
    by (rule fbtw_mult [OF w(1)]) simp_all
  moreover have "fbtw 1 (math_Max (sw_MeanActiveConns w) 1) (2 ^ 20)"
    using w(3) by (auto simp: one_f64_def elim!: fbtwE)
  ultimately have "fbtw 0 (sw_MeanRequestRate w * (sw_MeanLatencyMs w / fl 1000) / math_Max (sw_MeanActiveConns w) 1) (2 ^ 46)"
    by (rule fbtw_divide) simp_all
  from min_2_btw [OF fbtw_nonneg [OF this]] show ?thesis by (simp add: window_util_def zero_f64_def)
qed

lemma outbound_mean_btw:
  assumes "\<forall>e \<in> set (gs_Edges snap). unit_btw (eg_Weight e)" "length (gs_Edges snap) \<le> 2 ^ 50"
  shows "unit_btw (outbound_mean snap x)"
proof -
  define out where "out = filter (\<lambda>e. eg_Source e = x \<and> 0 < eg_Weight e) (gs_Edges snap)"
  have l: "length out \<le> 2 ^ 50" using assms(2) length_filter_le le_trans unfolding out_def by blast
  have "fbtw 0 (fold (\<lambda>e s. s + eg_Weight e) out 0) (real (0 + length out) * 1)"
  proof (rule fold_sum_btw)
    show "\<forall>e \<in> set out. fbtw 0 (eg_Weight e) 1" using assms(1) by (auto simp: out_def unit_btw_def)
    fix j assume "j \<le> 0 + length out"
    then show "fbound (real j * 1)" using l fbound_of_int [of "int j"] by simp
  qed (simp add: zero_f64_def)
  moreover have "f64_of_int (int (length out)) = Fin (real (length out))" using l by (subst fl_int) simp_all
  ultimately have "out \<noteq> [] \<Longrightarrow> unit_btw (fold (\<lambda>e s. s + eg_Weight e) out 0 / f64_of_int (int (length out)))"
    unfolding unit_btw_def
    by (intro fbtw_divide [where a = 0 and b = "real (length out)" and c = "real (length out)" and d = "real (length out)"]) simp_all
  then show ?thesis unfolding outbound_mean_def Let_def out_def [symmetric] by simp
qed

lemma equilibrium_btw: assumes "pval ep" shows "fbtw 0 (equilibrium_rho ep) 2"
proof -
  have "fbtw 0 (ep * fl 0.20) 2" by (rule fbtw_mult [OF pval_btw [OF assms] fbtw_fl [of 0 _ 1]]) simp_all
  then have "fbtw 0 (1 + ep * fl 0.20) 3"
    by (intro fbtw_add [where a = 1 and b = 1 and c = 0 and d = 2]) (simp_all add: one_f64_def)
  then have "fbtw 0 (ep * (1 + ep * fl 0.20)) 6" by (rule fbtw_mult [OF pval_btw [OF assms]]) simp_all
  then show ?thesis unfolding equilibrium_rho_def by (intro min_2_btw) (rule fbtw_nonneg)
qed

lemma not_neg_horizon: "x \<noteq> NaN \<Longrightarrow> f_nonneg (if x < 0 then 0 else x)"
  by (cases x) (auto simp: zero_f64_def)

lemma horizon_sign:
  assumes "fbtw 0 eqRho 2" shows "saturation_horizon w u eqRho = - 1 \<or> f_nonneg (saturation_horizon w u eqRho)"
proof -
  obtain r where r: "eqRho = Fin r" "0 \<le> r" "r \<le> 2" using assms by (rule fbtwE)
  obtain q where q: "1 - eqRho = Fin q"
    using r fl_finite [of "1 - r"] by (auto simp: one_f64_def intro: fl_Fin)
  have tiny: "fbtw 0 (fl 0.000001) 1" by (rule fbtw_fl) simp_all
  have "f_nonneg ((1 - eqRho) / t)" if t: "fl 0.000001 < t" "\<not> (1 - eqRho) / t < 0" for t
  proof -
    have "(1 - eqRho) / t \<noteq> NaN" unfolding q using t(1) tiny by (cases t) (auto elim!: fbtwE)
    then show ?thesis using t(2) not_neg_horizon [of "(1 - eqRho) / t"] by simp
  qed
  then show ?thesis unfolding saturation_horizon_def Let_def by auto
qed

lemma log_a_btw:
  assumes "fbtw 0 a (2 ^ 30)" shows "fbtw (- 100) (math_Log (math_Max a (fl (1 / 10 ^ 12)))) 100"
proof -
  have "fbtw (1 / 2 ^ 40) (fl (1 / 10 ^ 12)) 1"
    by (rule fbtw_fl) (use fbound_div_pow2 [of 1 40] in simp_all)
  then obtain t where t: "fl (1 / 10 ^ 12) = Fin t" "1 / 2 ^ 40 \<le> t" "t \<le> 1" by (rule fbtwE)
  obtain r where r: "a = Fin r" "0 \<le> r" "r \<le> 2 ^ 30" using assms by (rule fbtwE)
  have "t \<le> max r t" "max r t \<le> 2 ^ 30" using r t by simp_all
  then have "1 / 2 ^ 100 \<le> max r t" "max r t \<le> 2 ^ 100"
    using order_trans [OF _ order_trans [OF t(2)], of "1 / 2 ^ 100" "max r t"] order_trans [of "max r t" "2 ^ 30" "2 ^ 100"] by simp_all
  then show ?thesis unfolding t(1) r(1) math_Max_Fin by (rule log_btw)
qed

lemma recip_exp_unit: "f_nonneg x \<Longrightarrow> unit_btw (1 / math_Exp x)"
proof (cases x)
  case (Fin r)
  assume "f_nonneg x"
  then have "1 \<le> exp r" using Fin by simp
  then have "1 \<le> rnd (exp r)" using rnd_mono [of 1 "exp r"] rnd_pow2 [of 0] by simp
  then show ?thesis using Fin fl_pos_cases [of "exp r"] by (auto simp: unit_btw_def one_f64_def intro!: fbtw_fl)
qed (auto simp: unit_btw_def one_f64_def)

lemma log_1_exp: assumes "f_nonpos x" shows "f_nonneg (math_Log (1 + math_Exp x))"
proof -
  have "fbtw 0 (math_Exp x) 1" using assms by (rule math_Exp_nonpos)
  then have "fbtw 1 (1 + math_Exp x) 2"
    by (intro fbtw_add [where a = 1 and b = 1 and c = 0 and d = 1]) (simp_all add: one_f64_def)
  then show ?thesis by (auto elim!: fbtwE intro!: fl_nonneg)
qed

lemma diff_nonpos: "x \<noteq> NaN \<Longrightarrow> x \<le> Fin y \<Longrightarrow> f_nonpos (x - Fin y)"
  by (cases x) (auto intro!: fl_nonpos simp: minus_f64_def [of NInf])

lemma P0_unit:
  assumes "coupling_window w" "fbtw 0 eqRho 2" shows "unit_btw (computeSteadyStateP0 eqRho w)"
proof -
  obtain ci where ci: "servers w = Fin (of_int ci)" "1 \<le> ci" "ci \<le> 2 ^ 20"
    using servers_int [of w] assms(1) by (auto simp: servers_def coupling_window_def)
  have "real_of_int ci \<le> real_of_int (2 ^ 20)" using ci(3) by (simp only: of_int_le_iff)
  then have "fbtw 0 (servers w) (2 ^ 20)" using ci by simp
  then have "fbtw 0 (eqRho * servers w) (2 ^ 30)" by (rule fbtw_mult [OF assms(2)]) simp_all
  then have la: "fbtw (- 100) (math_Log (math_Max (eqRho * servers w) (fl (1 / 10 ^ 12)))) 100" (is "fbtw _ ?la _")
    by (rule log_a_btw)
  obtain r where r: "eqRho = Fin r" "0 \<le> r" using assms(2) by (auto elim: fbtwE)
  have ii: "int_of_f64 (servers w) = ci" using ci by (simp add: int_of_f64_of_int minI64_def maxI64_def)
  show ?thesis
  proof (cases "1 \<le> eqRho \<or> eqRho \<le> 0")
    case True
    then show ?thesis by (auto simp: computeSteadyStateP0_def unit_btw_def one_f64_def zero_f64_def)
  next
    case False
    then have "r \<le> 1" using r by (simp add: one_f64_def)
    obtain z y q where p: "f64_of_int ci * ?la - logFactorial ci = Fin z" "log_sum_exp (erlang_terms ci ?la) = Fin y"
      "1 - Fin r = Fin q" "Fin z - math_Log (Fin q) \<noteq> NaN"
      using erlang_parts [OF ci(2,3) la r(2) \<open>r \<le> 1\<close>] by blast
    define l where "l = Fin z - math_Log (Fin q)"
    have "f64_of_int 0 * ?la - logFactorial 0 = Fin 0" using la by (auto simp: logFactorial_def zero_f64_def elim!: fbtwE)
    moreover have "f64_of_int 0 * ?la - logFactorial 0 \<in> set (erlang_terms ci ?la)"
      using ci(2) unfolding erlang_terms_def set_map by (intro imageI) simp
    ultimately have "Fin 0 \<in> set (erlang_terms ci ?la)" by simp
    then have "f_nonneg (log_sum_exp (erlang_terms ci ?la))"
      using ci(2,3) erlang_terms_finite [OF la ci(3)]
      by (intro log_sum_exp_nonneg) (auto simp: erlang_terms_def)
    then have y: "0 \<le> y" unfolding p(2) by simp
    have P: "computeSteadyStateP0 eqRho w = (if Fin y < l then 1 / math_Exp (l + math_Log (1 + math_Exp (Fin y - l)))
        else 1 / math_Exp (Fin y + math_Log (1 + math_Exp (l - Fin y))))"
      unfolding computeSteadyStateP0_def Let_def ii p(1,2)
      using False unfolding r(1) p(3) l_def [symmetric] by simp
    show ?thesis
    proof (cases "Fin y < l")
      case True
      then have "f_nonpos (Fin y - l)" by (cases l) (auto intro!: fl_nonpos simp: minus_f64_def [of "Fin y" PInf])
      moreover have "f_nonneg l" using True y by (cases l) auto
      ultimately have "f_nonneg (l + math_Log (1 + math_Exp (Fin y - l)))" by (intro f_nonneg_add log_1_exp)
      then show ?thesis unfolding P using True recip_exp_unit by simp
    next
      case False
      have l: "l \<noteq> NaN" using p(4) by (simp add: l_def)
      then have "l \<le> Fin y" using False by (cases l) auto
      with l have "f_nonpos (l - Fin y)" by (rule diff_nonpos)
      then have "f_nonneg (Fin y + math_Log (1 + math_Exp (l - Fin y)))" using y by (intro f_nonneg_add log_1_exp) simp_all
      then show ?thesis unfolding P using False recip_exp_unit by simp
    qed
  qed
qed

lemma mean_queue_sign:
  assumes "coupling_window w" "fbtw 0 eqRho 2"
  shows "computeSteadyStateMeanQueue eqRho w = - 1 \<or>
    f_nonneg (computeSteadyStateMeanQueue eqRho w) \<and> finite64 (computeSteadyStateMeanQueue eqRho w)"
proof (cases "1 \<le> eqRho \<or> eqRho \<le> 0")
  case True
  then show ?thesis by (auto simp: computeSteadyStateMeanQueue_def zero_f64_def)
next
  case False
  obtain ci where ci: "servers w = Fin (of_int ci)" "1 \<le> ci" "ci \<le> 2 ^ 20"
    using servers_int [of w] assms(1) by (auto simp: servers_def coupling_window_def)
  have ii: "max 1 (int_of_f64 (math_Round (servers w))) = ci"
    using ci by (simp add: int_of_f64_of_int minI64_def maxI64_def)
  obtain r where r: "eqRho = Fin r" "0 \<le> r" "r \<le> 1" using assms(2) False by (auto simp: one_f64_def elim!: fbtwE)
  have "real_of_int ci \<le> real_of_int (2 ^ 20)" using ci(3) by (simp only: of_int_le_iff)
  then have "fbtw 0 (servers w) (2 ^ 20)" using ci by simp
  then have "fbtw 0 (eqRho * servers w) (2 ^ 30)" by (rule fbtw_mult [OF assms(2)]) simp_all
  then have la: "fbtw (- 100) (math_Log (math_Max (eqRho * servers w) (fl (1 / 10 ^ 12)))) 100" by (rule log_a_btw)
  have e: "fbtw 0 (computeErlangCNet (servers w) (eqRho * servers w) eqRho) 1"
    using erlang_ratio_unit [OF ci(2,3) la r(2,3) refl] False
    by (simp only: computeErlangCNet_def Let_def ii r(1) de_Morgan_disj simp_thms if_False)
  have n: "fbtw 0 (computeErlangCNet (servers w) (eqRho * servers w) eqRho * eqRho) 2"
    by (rule fbtw_mult [OF e assms(2)]) simp_all
  have "fbtw 0 (1 - eqRho) 1" using r by (auto simp: one_f64_def intro!: fbtw_fl)
  then obtain q where q: "1 - eqRho = Fin q" "0 \<le> q" by (rule fbtwE)
  define lq where "lq = computeErlangCNet (servers w) (eqRho * servers w) eqRho * eqRho / (1 - eqRho)"
  have "math_IsNaN lq \<or> math_IsInf lq \<or> (f_nonneg lq \<and> finite64 lq)"
  proof (cases "q = 0")
    case True
    then show ?thesis using n unfolding lq_def q(1)
      by (auto simp: math_IsNaN_def math_IsInf_def split: if_splits elim!: fbtwE)
  next
    case False
    then have "f_nonneg lq" using n q(2) unfolding lq_def q(1) by (intro f_nonneg_divide) (auto dest: fbtw_nonneg)
    then show ?thesis by (cases lq) (auto simp: math_IsInf_def)
  qed
  moreover have "computeSteadyStateMeanQueue eqRho w = (if math_IsNaN lq \<or> math_IsInf lq then 0 else lq)"
    using False by (simp add: computeSteadyStateMeanQueue_def Let_def lq_def)
  ultimately show ?thesis by (auto simp: zero_f64_def)
qed

lemma depth_le_6: "int (upstreamDepth x callers [] 0 6) \<le> 6"
proof -
  have "Max (chain_lengths callers [] x 6) \<in> chain_lengths callers [] x 6"
    using chain_lengths_bound [of callers "[]" x 6] by (intro Max_in) auto
  then have "Max (chain_lengths callers [] x 6) \<le> 6" by (auto simp: chain_lengths_def)
  then show ?thesis using upstreamDepth_chains [of 0 6 x callers "[]"] by simp
qed

text \<open>
  C30: the coupling of every service is in range.  For windows in the ranges of the telemetry
  store and any graph with normalised weights, and for every order in which the sweeps visit
  the targets: the pressure and the equilibrium utilisation are in \<open>[0, 2]\<close>, the saturation
  risk, the collapse probability, the idle probability and the feedback score are
  probabilities, the depth of the callers is at most six, and the mean queue and the horizon
  are non-negative or the marker \<open>-1\<close>.
\<close>

theorem coupling_in_range:
  assumes "coupling_inputs windows snap" "map_of (ComputeNetworkCoupling co windows snap) x = Some nc"
  shows "fbtw 0 (nc_EffectivePressure nc) 2 \<and> fbtw 0 (nc_PathEquilibriumRho nc) 2 \<and>
    fbtw 0 (nc_CoupledArrivalRate nc) (2 ^ 26) \<and>
    unit_btw (nc_PathSaturationRisk nc) \<and> unit_btw (nc_PathCollapseProb nc) \<and> unit_btw (nc_SteadyStateP0 nc) \<and>
    unit_btw (nc_CongestionFeedbackScore nc) \<and> nc_SaturationPathLength nc \<le> 6 \<and>
    (nc_SteadyStateMeanQueue nc = - 1 \<or> f_nonneg (nc_SteadyStateMeanQueue nc) \<and> finite64 (nc_SteadyStateMeanQueue nc)) \<and>
    (nc_PathSaturationHorizonSec nc = - 1 \<or> f_nonneg (nc_PathSaturationHorizonSec nc))"
proof -
  define ps where "ps = pressures co windows snap"
  have c: "\<exists>w. (x, w) \<in> set windows \<and> nc = service_coupling windows snap ps x w"
    using assms(2) by (auto simp: ComputeNetworkCoupling_def ps_def Let_def split: if_splits dest!: map_of_SomeD)
  then obtain w where w: "(x, w) \<in> set windows" "nc = service_coupling windows snap ps x w" by blast
  have cw: "coupling_window w" and edges: "\<forall>e \<in> set (gs_Edges snap). unit_btw (eg_Weight e)" "length (gs_Edges snap) \<le> 2 ^ 50"
    using assms(1) w(1) by (auto simp: coupling_inputs_def)
  have p: "pval (weight_at ps x)" unfolding ps_def by (intro pressure_at pressures_ok assms(1))
  note eq = equilibrium_btw [OF p]
  have len: "length (callers_of (callers_index snap) x) \<le> 2 ^ 50"
    using callers_of_length [of "gs_Edges snap" "[]" x] edges(2) by (simp add: callers_index_def callers_of_def)
  have fb: "unit_btw (math_Min (window_util w * outbound_mean snap x) 1)"
    using fbtw_mult [OF window_util_btw [OF cw] outbound_mean_btw [OF edges, unfolded unit_btw_def], of 0 2]
    by (intro min_1_unit) (auto dest: fbtw_nonneg)
  have "unit_btw (sigmoid ((equilibrium_rho (weight_at ps x) - fl 0.90) / fl 0.04))"
    by (rule sigmoid_scaled [OF fbtw_not_NaN [OF eq] fbtw_fl [of 0 _ 1] tiny_divisors(2)]) simp_all
  then show ?thesis
    unfolding w(2) service_coupling_def Let_def NetworkCoupling.select_convs
    using pval_btw [OF p] eq coupled_rate_btw [OF assms(1) cw] path_risk_unit [OF len] P0_unit [OF cw eq] fb
      depth_le_6 mean_queue_sign [OF cw eq] horizon_sign [OF eq]
    by (intro conjI) assumption+
qed

text \<open>
  C26: \<open>upstreamDepth\<close> computes the length of the longest chain of callers above a service:
  the maximum, up to the limit, over all chains in which no service repeats before the last
  one.  A cycle of callers therefore counts once around, and the marks that the recursion
  sets and deletes do not make it miss a chain.
\<close>

theorem upstreamDepth_longest:
  "upstreamDepth x callers [] 0 maxDepth =
   Max {length xs - 1 |xs. xs \<noteq> [] \<and> hd xs = x \<and> chain callers xs \<and> distinct (butlast xs) \<and> length xs \<le> Suc maxDepth}"
  using upstreamDepth_chains [of 0 maxDepth x callers "[]"] by (simp add: chain_lengths_def open_chain_def conj_assoc)

section \<open>The pressure depends on the number of services\<close>

text \<open>
  The damped update adds a positive amount to the pressure of every service with a loaded
  caller, so the sweeps only stop at the limit of two or at their number, which is the number
  of nodes.
\<close>

lemma damped_quarter:
  assumes "0 \<le> r" "r \<le> 2"
  shows "\<exists>s. damped_pressure (Fin r) (Fin (1 / 4)) = Fin s \<and> min 2 (r + 9 / 64) \<le> s \<and> s \<le> r + 10 / 64 \<and> s \<le> 2"
proof -
  obtain c where c: "fl 0.6 = Fin c" "\<bar>c - 3 / 5\<bar> \<le> 1 / 1099511627776" using fl_near [of "0.6"] by auto
  obtain a where a: "fl (r + 1 / 4) = Fin a" "\<bar>a - (r + 1 / 4)\<bar> \<le> 1 / 1099511627776" using fl_near [of "r + 1 / 4"] assms by auto
  have "\<bar>a - r\<bar> \<le> 1024" using a(2) by linarith
  then obtain b where b: "fl (a - r) = Fin b" "\<bar>b - (a - r)\<bar> \<le> 1 / 1099511627776" using fl_near by blast
  have b1: "\<bar>b - 1 / 4\<bar> \<le> 1 / 274877906944" using a(2) b(2) by linarith
  have cb: "\<bar>c * b - 3 / 20\<bar> \<le> 1 / 1073741824"
  proof -
    define q where "q = (c - 3 / 5) * b"
    have q: "\<bar>q\<bar> \<le> 1 / 1099511627776 * 1"
      unfolding q_def abs_mult using c(2) b1 by (intro mult_mono; linarith)
    have w: "\<bar>3 / 5 * (b - 1 / 4)\<bar> \<le> 1 / 274877906944" using b1 unfolding abs_mult by simp
    have "\<bar>q + 3 / 5 * (b - 1 / 4)\<bar> \<le> 1 / 1099511627776 * 1 + 1 / 274877906944"
      by (rule order_trans [OF abs_triangle_ineq add_mono [OF q w]])
    moreover have "c * b - 3 / 20 = q + 3 / 5 * (b - 1 / 4)" by (simp add: q_def field_simps)
    ultimately have "\<bar>c * b - 3 / 20\<bar> \<le> 1 / 1099511627776 * 1 + 1 / 274877906944" by (simp only:)
    then show ?thesis by simp
  qed
  have "\<bar>c * b\<bar> \<le> 1024" using cb by linarith
  then obtain d where d: "fl (c * b) = Fin d" "\<bar>d - c * b\<bar> \<le> 1 / 1099511627776" using fl_near by blast
  have d1: "\<bar>d - 3 / 20\<bar> \<le> 1 / 536870912" using d(2) cb by linarith
  have "\<bar>r + d\<bar> \<le> 1024" using d1 assms by linarith
  then obtain e where e: "fl (r + d) = Fin e" "\<bar>e - (r + d)\<bar> \<le> 1 / 1099511627776" using fl_near by blast
  have e1: "r + 9 / 64 \<le> e" "e \<le> r + 10 / 64" using e(2) d1 by linarith+
  have "damped_pressure (Fin r) (Fin (1 / 4)) = (if Fin 2 < Fin e then Fin 2 else Fin e)"
    unfolding damped_pressure_def Let_def fl_2 c(1) by (simp add: a(1) b(1) d(1) e(1))
  then show ?thesis using e1 by auto
qed

abbreviation two_pressures :: "real \<Rightarrow> (string, f64) gomap" where
  "two_pressures r \<equiv> [(''a'', Fin 1), (''b'', Fin r)]"

abbreviation one_caller :: caller_map where
  "one_caller \<equiv> [(''b'', [(''a'', Fin 1)])]"

lemma two_sweep:
  assumes "damped_pressure (Fin r) (Fin (1 / 4)) = Fin s"
  shows "pressure_sweep one_caller [''b''] (two_pressures r) = (two_pressures s, Fin 0 + \<bar>Fin s - Fin r\<bar>)"
  using assms fl_quarters(1)
  by (simp add: pressure_sweep_def sweep_target_def injected_def callers_of_def weight_at_def Let_def zero_f64_def)

lemma delta_large:
  assumes "0 \<le> r" "r + 9 / 64 \<le> s" "s \<le> 2" shows "\<not> Fin 0 + \<bar>Fin s - Fin r\<bar> < fl 0.00001"
proof -
  obtain d where d: "fl (s - r) = Fin d" "\<bar>d - (s - r)\<bar> \<le> 1 / 1099511627776" using fl_near [of "s - r"] assms by auto
  have "1 / 8 \<le> d" "d \<le> 3" using d(2) assms by linarith+
  then have "fbtw (1 / 8) (Fin 0 + \<bar>Fin s - Fin r\<bar>) 3" using d(1) by (auto intro!: fbtw_fl)
  moreover have "fbtw 0 (fl 0.00001) (1 / 8)" by (rule fbtw_fl) simp_all
  ultimately show ?thesis by (auto elim!: fbtwE)
qed

lemma two_loop:
  "0 \<le> r \<Longrightarrow> r \<le> 2 \<Longrightarrow> \<exists>t. pressure_loop one_caller (\<lambda>i. [''b'']) i n (two_pressures r) = two_pressures t \<and>
     min 2 (r + real n * (9 / 64)) \<le> t \<and> t \<le> r + real n * (10 / 64) \<and> t \<le> 2"
proof (induction n arbitrary: i r)
  case (Suc n)
  obtain s where s: "damped_pressure (Fin r) (Fin (1 / 4)) = Fin s" "min 2 (r + 9 / 64) \<le> s" "s \<le> r + 10 / 64" "s \<le> 2"
    using damped_quarter Suc.prems by blast
  have n: "real (Suc n) * (9 / 64) = 9 / 64 + real n * (9 / 64)" "real (Suc n) * (10 / 64) = 10 / 64 + real n * (10 / 64)"
    "0 \<le> real n * (10 / 64)" "0 \<le> real n * (9 / 64)"
    by (simp_all add: field_simps)
  show ?case
  proof (cases "Fin 0 + \<bar>Fin s - Fin r\<bar> < fl 0.00001")
    case True
    then have "s = 2" using delta_large [of r s] Suc.prems s(2,4) by (cases "r + 9 / 64 \<le> s") auto
    moreover have "s \<le> r + real (Suc n) * (10 / 64)" using s(3) n by linarith
    ultimately show ?thesis using True by (intro exI [of _ s]) (simp add: two_sweep [OF s(1)])
  next
    case False
    have "0 \<le> s" using s(2) Suc.prems by auto
    then obtain t where t: "pressure_loop one_caller (\<lambda>i. [''b'']) (Suc i) n (two_pressures s) = two_pressures t"
      "min 2 (s + real n * (9 / 64)) \<le> t" "t \<le> s + real n * (10 / 64)" "t \<le> 2"
      using Suc.IH [of s "Suc i"] s(4) by blast
    have "min 2 (r + real (Suc n) * (9 / 64)) \<le> t" using t(2,4) s(2) n by linarith
    moreover have "t \<le> r + real (Suc n) * (10 / 64)" using t(3) s(3) n by linarith
    ultimately show ?thesis using False t(1,4) by (intro exI [of _ t]) (simp add: two_sweep [OF s(1)])
  qed
qed simp

definition idle_nodes :: "nat \<Rightarrow> Node list" where
  "idle_nodes n = map (\<lambda>i. two_node (replicate (Suc i) CHR ''c'')) [0..<n]"

definition bystanders :: "nat \<Rightarrow> GraphSnapshot" where
  "bystanders n = \<lparr> gs_CapturedAt = 0, gs_Nodes = two_node ''a'' # two_node ''b'' # idle_nodes n,
     gs_Edges = [two_edge ''a'' ''b''], gs_CriticalPath = \<lparr> cr_Nodes = [], cr_TotalWeight = 0, cr_CascadeRisk = 0 \<rparr> \<rparr>"

definition one_call_windows :: "(string, ServiceWindow) gomap" where
  "one_call_windows = [(''a'', caller ''a'' ''b''),
     (''b'', (caller ''b'' ''b'')\<lparr> sw_MeanRequestRate := 0, sw_UpstreamEdges := [] \<rparr>)]"

lemma one_call_pressures:
  "\<exists>t. pressures (\<lambda>i. [''b'']) one_call_windows (bystanders n) = two_pressures t \<and>
     min 2 (real (min 20 (n + 2)) * (9 / 64)) \<le> t \<and> t \<le> real (min 20 (n + 2)) * (10 / 64) \<and> t \<le> 2"
proof -
  have m: "max_rate one_call_windows = 1"
    by (simp add: max_rate_def one_call_windows_def caller_def one_f64_def zero_f64_def)
  have i: "initial_pressure one_call_windows = two_pressures 0" unfolding initial_pressure_def m
    by (simp add: one_call_windows_def caller_def one_f64_def zero_f64_def)
  have c: "callers_index (bystanders n) = one_caller"
    by (simp add: callers_index_def bystanders_def add_caller_def two_edge_def callers_of_def zero_f64_def one_f64_def)
  have "length (gs_Nodes (bystanders n)) = n + 2" by (simp add: bystanders_def idle_nodes_def)
  then show ?thesis using two_loop [of 0 0 "min 20 (n + 2)"] by (simp only: pressures_def i c) simp
qed

text \<open>
  The pressure of a service depends on how many unrelated services the graph holds,
  because the number of sweeps is the number of nodes and every sweep adds to the pressure.
  One loaded caller puts a pressure of at most one third on an idle callee when the two are
  alone; with eighteen idle services that neither call nor are called in the same snapshot
  the pressure of the same callee is the maximum 2 and its equilibrium utilisation, an
  overload, is 2 as well.
\<close>

theorem bystanders_raise_pressure:
  "(let few = ComputeNetworkCoupling (\<lambda>i. [''b'']) one_call_windows (bystanders 0);
        many = ComputeNetworkCoupling (\<lambda>i. [''b'']) one_call_windows (bystanders 18)
    in (\<exists>nc. map_of few ''b'' = Some nc \<and> fbtw 0 (nc_EffectivePressure nc) (1 / 3)) \<and>
       (\<exists>nc. map_of many ''b'' = Some nc \<and> nc_EffectivePressure nc = Fin 2 \<and> nc_PathEquilibriumRho nc = Fin 2))"
proof -
  obtain t where t: "pressures (\<lambda>i. [''b'']) one_call_windows (bystanders 0) = two_pressures t" "0 \<le> t" "t \<le> 1 / 3"
    using one_call_pressures [of 0] by auto
  obtain u where u: "pressures (\<lambda>i. [''b'']) one_call_windows (bystanders 18) = two_pressures u" "u = 2"
    using one_call_pressures [of 18] by auto
  have "fbtw 1 (1 + Fin 2 * fl 0.20) 3"
  proof (rule fbtw_add [where a = 1 and b = 1 and c = 0 and d = 2])
    show "fbtw 0 (Fin 2 * fl 0.20) 2" by (rule fbtw_mult [OF _ fbtw_fl [of 0 _ 1], of 2 _ 2]) simp_all
  qed (simp_all add: one_f64_def)
  then have "fbtw 2 (Fin 2 * (1 + Fin 2 * fl 0.20)) 6" by (intro fbtw_mult [where a = 2 and b = 2 and c = 1 and d = 3]) simp_all
  then have "equilibrium_rho (Fin 2) = Fin 2" unfolding equilibrium_rho_def fl_2 by (auto elim!: fbtwE)
  moreover have "gs_Nodes (bystanders n) \<noteq> []" for n by (simp add: bystanders_def)
  ultimately show ?thesis using t u
    by (simp add: ComputeNetworkCoupling_def Let_def one_call_windows_def service_coupling_def weight_at_def)
qed

lemma one_call_inputs: "coupling_inputs one_call_windows (bystanders n)"
  by (simp add: coupling_inputs_def one_call_windows_def bystanders_def caller_def two_edge_def coupling_window_def
      window_ok_def unit_btw_def one_f64_def zero_f64_def)

theorem coupling_in_range_witness:
  "unit_btw (nc_PathCollapseProb (service_coupling one_call_windows (bystanders 0)
     (pressures (\<lambda>i. [''b'']) one_call_windows (bystanders 0)) ''a'' (caller ''a'' ''b'')))"
proof -
  have "map_of (ComputeNetworkCoupling (\<lambda>i. [''b'']) one_call_windows (bystanders 0)) ''a'' =
      Some (service_coupling one_call_windows (bystanders 0)
        (pressures (\<lambda>i. [''b'']) one_call_windows (bystanders 0)) ''a'' (caller ''a'' ''b''))"
    by (simp add: ComputeNetworkCoupling_def Let_def one_call_windows_def bystanders_def)
  from coupling_in_range [OF one_call_inputs this] show ?thesis by blast
qed

end
