(* ===== verification/NetworkEquilibrium.thy ===== *)
theory NetworkEquilibrium
  imports NetworkCoupling
begin

text \<open>
  \<open>internal/modelling/network.go\<close>, second half: the summary of the coupled network, the
  fixed-point solver for the equilibrium utilisations and the perturbation analysis that
  runs the solver once per service.  The solver updates the utilisations in place while it
  ranges over the map of the windows, so its result depends on the iteration order, which is
  an argument: one list of the windows per sweep.
\<close>

record NetworkEquilibriumState =
  ne_SystemRhoMean :: f64
  ne_SystemRhoVariance :: f64
  ne_EquilibriumDelta :: f64
  ne_IsConverging :: bool
  ne_MaxCongestionFeedback :: f64
  ne_CriticalServiceID :: string
  ne_NetworkSaturationRisk :: f64

record FixedPointResult =
  fp_EquilibriumRho :: "(string, f64) gomap"
  fp_SystemicCollapseProb :: f64
  fp_ConvergedInIterations :: nat
  fp_Converged :: bool
  fp_ConvergenceRate :: f64
  fp_StabilityMargin :: f64

type_synonym window_map = "(string, ServiceWindow) gomap"

section \<open>The summary of the network\<close>

definition current_rho :: "ServiceWindow \<Rightarrow> f64" where
  "current_rho w =
    (if 0 < sw_MeanLatencyMs w \<and> 0 < sw_MeanActiveConns w
     then math_Min (sw_MeanRequestRate w * (sw_MeanLatencyMs w / fl 1000) / sw_MeanActiveConns w) (fl 2) else 0)"

definition rho_sums :: "window_map \<Rightarrow> f64 \<times> f64 \<times> f64" where
  \<comment> \<open>the sums of the weights, of the weighted utilisations and of their weighted squares\<close>
  "rho_sums windows =
    fold (\<lambda>xw s. let w = snd xw; weight = sw_MeanRequestRate w; rho = current_rho w
                 in if sw_MeanRequestRate w \<le> 0 then s
                    else (fst s + weight, fst (snd s) + rho * weight, snd (snd s) + rho * rho * weight))
      windows (0, 0, 0)"

record equilibrium_acc =
  ea_sumEqRho :: f64
  ea_maxFeedback :: f64
  ea_maxEqRho :: f64
  ea_critSvc :: string

definition coupling_step :: "window_map \<Rightarrow> string \<times> NetworkCoupling \<Rightarrow> equilibrium_acc \<Rightarrow> equilibrium_acc" where
  "coupling_step windows xnc acc =
    (let nc = snd xnc;
         weight = (case map_of windows (fst xnc) of None \<Rightarrow> 1
                   | Some w \<Rightarrow> if 0 < sw_MeanRequestRate w then sw_MeanRequestRate w else 1)
     in \<lparr> ea_sumEqRho = ea_sumEqRho acc + nc_PathEquilibriumRho nc * weight,
          ea_maxFeedback = (if ea_maxFeedback acc < nc_CongestionFeedbackScore nc
                            then nc_CongestionFeedbackScore nc else ea_maxFeedback acc),
          ea_maxEqRho = (if ea_maxEqRho acc < nc_PathEquilibriumRho nc then nc_PathEquilibriumRho nc else ea_maxEqRho acc),
          ea_critSvc = (if ea_maxEqRho acc < nc_PathEquilibriumRho nc then fst xnc else ea_critSvc acc) \<rparr>)"

definition any_saturates :: "f64 \<Rightarrow> f64 \<Rightarrow> f64 \<Rightarrow> f64" where
  \<comment> \<open>one step of \<open>1 - \<Prod>(1 - p)\<close>\<close>
  "any_saturates threshold rho p = 1 - (1 - p) * (1 - sigmoid ((rho - threshold) / fl 0.04))"

definition ComputeNetworkEquilibrium ::
  "(nat \<Rightarrow> (string \<times> NetworkCoupling) list) \<Rightarrow> window_map \<Rightarrow> NetworkEquilibriumState" where
  \<comment> \<open>the coupling in the orders of the two loops over it\<close>
  "ComputeNetworkEquilibrium co windows =
    (if co 0 = []
     then \<lparr> ne_SystemRhoMean = 0, ne_SystemRhoVariance = 0, ne_EquilibriumDelta = 0, ne_IsConverging = False,
            ne_MaxCongestionFeedback = 0, ne_CriticalServiceID = '''', ne_NetworkSaturationRisk = 0 \<rparr>
     else
       let (sumW, sumRho, sumRhoSq) = rho_sums windows;
           meanRho = (if 0 < sumW then sumRho / sumW else 0);
           varRho = (if 0 < sumW then sumRhoSq / sumW - meanRho * meanRho else 0);
           varRho = (if varRho < 0 then 0 else varRho);
           acc = fold (coupling_step windows) (co 0)
                   \<lparr> ea_sumEqRho = 0, ea_maxFeedback = 0, ea_maxEqRho = 0, ea_critSvc = '''' \<rparr>;
           meanEqRho = (if 0 < sumW then ea_sumEqRho acc / sumW else 0);
           eqDelta = meanEqRho - meanRho;
           risk = fold (\<lambda>xnc. any_saturates (fl 0.95) (nc_PathEquilibriumRho (snd xnc))) (co 1) 0
       in \<lparr> ne_SystemRhoMean = meanRho, ne_SystemRhoVariance = varRho, ne_EquilibriumDelta = eqDelta,
            ne_IsConverging = (eqDelta < 0), ne_MaxCongestionFeedback = ea_maxFeedback acc,
            ne_CriticalServiceID = ea_critSvc acc, ne_NetworkSaturationRisk = math_Min risk 1 \<rparr>)"

section \<open>The fixed-point solver\<close>

definition fp_active :: "ServiceWindow \<Rightarrow> bool" where
  "fp_active w \<longleftrightarrow> 0 < sw_MeanRequestRate w \<and> 0 < sw_MeanLatencyMs w \<and> 0 < sw_MeanActiveConns w"

definition fp_mu :: "ServiceWindow \<Rightarrow> f64" where
  "fp_mu w =
    (if fp_active w
     then let c = math_Max (math_Round (sw_MeanActiveConns w)) 1;
              svcTimeMs = sw_MeanLatencyMs w *
                (1 - math_Min (sw_LastQueueDepth w / (sw_MeanActiveConns w + 1)) (fl 0.8) * fl 0.5)
          in c * fl 1000 / math_Max svcTimeMs (fl 0.001)
     else 1)"

definition fp_rho0 :: "ServiceWindow \<Rightarrow> f64" where
  "fp_rho0 w = (if fp_active w then math_Min (sw_MeanRequestRate w / fp_mu w) (fl 1.5) else 0)"

definition fp_lambda :: "window_map \<Rightarrow> GraphSnapshot \<Rightarrow> (string, f64) gomap \<Rightarrow> string \<Rightarrow> ServiceWindow \<Rightarrow> f64" where
  "fp_lambda windows snap rho x w =
    fold (\<lambda>e l. if eg_Target e = x \<and> 0 < eg_Weight e
                then (case map_of windows (eg_Source e) of None \<Rightarrow> l
                      | Some upW \<Rightarrow> l + eg_Weight e * sw_MeanRequestRate upW * math_Min (weight_at rho (eg_Source e)) 1 * fl 0.10)
                else l) (gs_Edges snap) (sw_MeanRequestRate w)"

definition fp_updated :: "window_map \<Rightarrow> GraphSnapshot \<Rightarrow> (string, f64) gomap \<Rightarrow> string \<Rightarrow> ServiceWindow \<Rightarrow> f64" where
  "fp_updated windows snap rho x w =
    (let newRho = fp_lambda windows snap rho x w / fp_mu w;
         newRho = (if math_IsNaN newRho \<or> math_IsInf newRho then weight_at rho x else newRho);
         newRho = math_Max 0 (math_Min newRho (fl 1.5))
     in fl 0.45 * weight_at rho x + fl 0.55 * newRho)"

definition fp_step ::
  "window_map \<Rightarrow> GraphSnapshot \<Rightarrow> string \<times> ServiceWindow \<Rightarrow> (string, f64) gomap \<times> f64 \<Rightarrow> (string, f64) gomap \<times> f64" where
  "fp_step windows snap xw acc =
    (case (xw, acc) of ((x, w), (rho, maxDelta)) \<Rightarrow>
      if fp_mu w \<le> 0 then acc
      else let updated = fp_updated windows snap rho x w;
               delta = \<bar>updated - weight_at rho x\<bar>
           in (AList.update x updated rho, if maxDelta < delta then delta else maxDelta))"

definition fp_sweep ::
  "window_map \<Rightarrow> GraphSnapshot \<Rightarrow> (string \<times> ServiceWindow) list \<Rightarrow> (string, f64) gomap \<Rightarrow> (string, f64) gomap \<times> f64" where
  "fp_sweep windows snap order rho = fold (fp_step windows snap) order (rho, 0)"

definition next_rate :: "nat \<Rightarrow> f64 \<Rightarrow> f64 \<Rightarrow> f64 \<Rightarrow> f64" where
  "next_rate iter prevDelta maxDelta convergenceRate =
    (if 0 < iter \<and> fl (1 / 10 ^ 12) < prevDelta
     then let rate = maxDelta / prevDelta
          in if iter = 1 then rate else fl 0.7 * convergenceRate + fl 0.3 * rate
     else convergenceRate)"

fun fp_loop ::
  "window_map \<Rightarrow> GraphSnapshot \<Rightarrow> (nat \<Rightarrow> (string \<times> ServiceWindow) list) \<Rightarrow> nat \<Rightarrow> nat \<Rightarrow> (string, f64) gomap \<Rightarrow> f64 \<Rightarrow> f64 \<Rightarrow>
   (string, f64) gomap \<times> f64 \<times> nat" where
  \<comment> \<open>the sweeps left, the sweep number, the utilisations, the last residual and the rate; the result ends with \<open>convergedAt\<close>\<close>
  "fp_loop windows snap wo 0 iter rho prevDelta cr = (rho, cr, 0)"
| "fp_loop windows snap wo (Suc n) iter rho prevDelta cr =
    (let (rho, maxDelta) = fp_sweep windows snap (wo iter) rho;
         cr = next_rate iter prevDelta maxDelta cr
     in if maxDelta < fl 0.000001 then (rho, cr, iter + 1)
        else fp_loop windows snap wo n (iter + 1) rho maxDelta cr)"

definition guarded_rate :: "f64 \<Rightarrow> nat \<Rightarrow> f64" where
  "guarded_rate cr convergedAt =
    (if cr \<le> 0 \<or> math_IsNaN cr \<or> math_IsInf cr then (if 0 < convergedAt then fl 0.5 else 1) else cr)"

definition ComputeFixedPointEquilibrium ::
  "(nat \<Rightarrow> (string \<times> ServiceWindow) list) \<Rightarrow> ((string, f64) gomap \<Rightarrow> (string \<times> f64) list) \<Rightarrow> window_map \<Rightarrow> GraphSnapshot \<Rightarrow>
   FixedPointResult" where
  \<comment> \<open>the orders of the sweeps over the windows and of the last loop over the utilisations\<close>
  "ComputeFixedPointEquilibrium wo ro windows snap =
    (if windows = []
     then \<lparr> fp_EquilibriumRho = [], fp_SystemicCollapseProb = 0, fp_ConvergedInIterations = 0, fp_Converged = False,
            fp_ConvergenceRate = 0, fp_StabilityMargin = 0 \<rparr>
     else
       let (rho, cr, convergedAt) = fp_loop windows snap wo 50 0 (map (\<lambda>(x, w). (x, fp_rho0 w)) windows) 0 0;
           systemic = fold (\<lambda>xr. any_saturates (fl 0.90) (snd xr)) (ro rho) 0;
           cr = guarded_rate cr convergedAt
       in \<lparr> fp_EquilibriumRho = rho, fp_SystemicCollapseProb = math_Min systemic 1,
            fp_ConvergedInIterations = convergedAt, fp_Converged = (0 < convergedAt),
            fp_ConvergenceRate = cr, fp_StabilityMargin = 1 - cr \<rparr>)"

section \<open>The perturbation analysis\<close>

definition degraded :: "ServiceWindow \<Rightarrow> ServiceWindow" where
  "degraded w = w\<lparr> sw_MeanActiveConns :=
     (let c = sw_MeanActiveConns w * fl 0.70 in if c < 1 then 1 else c) \<rparr>"

definition perturbed :: "string \<Rightarrow> window_map \<Rightarrow> window_map" where
  "perturbed p windows = map (\<lambda>(x, w). (x, if x = p then degraded w else w)) windows"

definition ComputePerturbationSensitivity ::
  "(string \<Rightarrow> window_map \<Rightarrow> nat \<Rightarrow> (string \<times> ServiceWindow) list) \<Rightarrow>
   (string \<Rightarrow> (string, f64) gomap \<Rightarrow> (string \<times> f64) list) \<Rightarrow> window_map \<Rightarrow> GraphSnapshot \<Rightarrow> f64 \<Rightarrow> (string, f64) gomap" where
  "ComputePerturbationSensitivity wo ro windows snap baselineCollapse =
    map (\<lambda>(p, _). (p, math_Max (fp_SystemicCollapseProb (ComputeFixedPointEquilibrium (wo p (perturbed p windows)) (ro p)
                        (perturbed p windows) snap) - baselineCollapse) 0)) windows"

section \<open>The solver stays in range\<close>

text \<open>The damping constants are not exact, but one update of utilisations below 1.5 stays below 1.5.\<close>

lemma fl_damping: "fl 0.45 = Fin (8106479329266893 / 2 ^ 54)" "fl 0.55 = Fin (4953959590107546 / 2 ^ 53)"
  by (subst fl_value [where e = "- 2" and m = 8106479329266893 and k = 2], simp_all add: power_int_minus)
     (subst fl_value [where e = "- 1" and m = 4953959590107546 and k = 1], simp_all add: power_int_minus)

lemma damping_products:
  "rnd (8106479329266893 / 2 ^ 54 * (3 / 2)) = 6079859496950170 / 2 ^ 53"
  "rnd (4953959590107546 / 2 ^ 53 * (3 / 2)) = 7430939385161319 / 2 ^ 53"
  by (subst rnd_value [where e = "- 1" and m = 6079859496950170], simp_all add: power_int_minus)
     (subst rnd_value [where e = "- 1" and m = 7430939385161319], simp_all add: power_int_minus)

lemma rnd_three_halves: assumes "x \<le> 3 / 2 + 1 / 2 ^ 53" shows "rnd x \<le> 3 / 2"
proof -
  let ?y = "3 / 2 + 1 / 2 ^ 53 :: real"
  have "log 2 ?y < 1" by (subst log_less_iff) auto
  moreover have "0 \<le> log 2 ?y" by simp
  ultimately have "\<lfloor>log 2 ?y\<rfloor> = 0" by (intro floor_unique) auto
  then have u: "ulp_exp ?y = - 52" by (simp add: ulp_exp_def)
  have "?y / 2 powi (- 52) = 6755399441055744 + 1 / 2" by (simp add: power_int_minus)
  moreover have "rne (6755399441055744 + 1 / 2) = 6755399441055744"
  proof -
    have f: "\<lfloor>6755399441055744 + 1 / 2 :: real\<rfloor> = 6755399441055744" by (rule floor_unique) auto
    show ?thesis unfolding rne_def f Let_def by simp
  qed
  ultimately have "rnd ?y = of_int 6755399441055744 * 2 powi (- 52)" by (simp only: rnd_def u)
  then have "rnd ?y = 3 / 2" by (simp add: power_int_minus)
  then show ?thesis using rnd_mono [OF assms] by simp
qed

lemma damped_update:
  assumes "fbtw 0 x (3 / 2)" "fbtw 0 y (3 / 2)" shows "fbtw 0 (fl 0.45 * x + fl 0.55 * y) (3 / 2)"
proof -
  obtain r where r: "x = Fin r" "0 \<le> r" "r \<le> 3 / 2" using assms(1) by (rule fbtwE)
  obtain s where s: "y = Fin s" "0 \<le> s" "s \<le> 3 / 2" using assms(2) by (rule fbtwE)
  let ?a = "8106479329266893 / 2 ^ 54 :: real" and ?b = "4953959590107546 / 2 ^ 53 :: real"
  have ar: "rnd (?a * r) \<le> 6079859496950170 / 2 ^ 53" "0 \<le> rnd (?a * r)"
    using rnd_mono [of "?a * r" "?a * (3 / 2)"] damping_products(1) r by (auto intro: rnd_nonneg)
  have bs: "rnd (?b * s) \<le> 7430939385161319 / 2 ^ 53" "0 \<le> rnd (?b * s)"
    using rnd_mono [of "?b * s" "?b * (3 / 2)"] damping_products(2) s by (auto intro: rnd_nonneg)
  have sum: "rnd (?a * r) + rnd (?b * s) \<le> 3 / 2 + 1 / 2 ^ 53" using ar(1) bs(1) by simp
  have f: "\<bar>?a * r\<bar> \<le> 2 ^ 53" "\<bar>?b * s\<bar> \<le> 2 ^ 53" "\<bar>rnd (?a * r) + rnd (?b * s)\<bar> \<le> 2 ^ 53"
    using r s ar bs sum by simp_all
  have "fl 0.45 * x + fl 0.55 * y = Fin (rnd (rnd (?a * r) + rnd (?b * s)))"
    unfolding fl_damping r(1) s(1) using fl_finite [OF f(1)] fl_finite [OF f(2)] fl_finite [OF f(3)] by simp
  then show ?thesis using rnd_three_halves [OF sum] ar(2) bs(2) by (auto intro: rnd_nonneg)
qed

definition rho_ok :: "(string, f64) gomap \<Rightarrow> bool" where
  "rho_ok m \<longleftrightarrow> (\<forall>(x, r) \<in> set m. fbtw 0 r (3 / 2))"

definition fp_inputs :: "window_map \<Rightarrow> bool" where
  "fp_inputs windows \<longleftrightarrow> wf_gomap windows \<and> windows \<noteq> [] \<and>
     (\<forall>(x, w) \<in> set windows. coupling_window w \<and> fbtw 0 (sw_LastQueueDepth w) big)"

definition fp_orders ::
  "window_map \<Rightarrow> (nat \<Rightarrow> (string \<times> ServiceWindow) list) \<Rightarrow> ((string, f64) gomap \<Rightarrow> (string \<times> f64) list) \<Rightarrow> bool" where
  "fp_orders windows wo ro \<longleftrightarrow> (\<forall>i. distinct (map fst (wo i)) \<and> set (wo i) = set windows) \<and> (\<forall>m. set (ro m) = set m)"

lemma rho_at: "rho_ok m \<Longrightarrow> fbtw 0 (weight_at m x) (3 / 2)"
  by (auto simp: weight_at_def rho_ok_def zero_f64_def split: option.split dest: map_of_SomeD)

lemma rho_update: "rho_ok m \<Longrightarrow> fbtw 0 r (3 / 2) \<Longrightarrow> rho_ok (AList.update x r m)"
  by (auto simp: rho_ok_def dest!: set_updateD)

lemma fp_mu_btw:
  assumes "coupling_window w" "fbtw 0 (sw_LastQueueDepth w) big" shows "fbtw (1 / 2 ^ 13) (fp_mu w) (2 ^ 40)"
proof (cases "fp_active w")
  case True
  have w: "fbtw 0 (sw_MeanLatencyMs w) (2 ^ 22)" "fbtw 0 (sw_MeanActiveConns w) (2 ^ 20)"
    using assms(1) by (simp_all add: coupling_window_def)
  note fb = fbound_div_pow2 [of 1 13] fbound_div_pow2 [of 1 10]
  have "fbtw 1 (sw_MeanActiveConns w + 1) (2 ^ 21)"
    by (rule fbtw_add [OF w(2), where c = 1 and d = 1]) (simp_all add: one_f64_def)
  then have "fbtw 0 (sw_LastQueueDepth w / (sw_MeanActiveConns w + 1)) big"
    by (rule fbtw_divide [OF assms(2)]) simp_all
  then have "fbtw 0 (math_Min (sw_LastQueueDepth w / (sw_MeanActiveConns w + 1)) (fl 0.8)) 1"
    by (rule math_Min_btw [OF _ fbtw_fl [of 0 _ 1]]) simp_all
  then have "fbtw 0 (math_Min (sw_LastQueueDepth w / (sw_MeanActiveConns w + 1)) (fl 0.8) * fl 0.5) 1"
    by (rule fbtw_mult [OF _ fbtw_fl [of 0 _ 1]]) simp_all
  then have "fbtw 0 (1 - math_Min (sw_LastQueueDepth w / (sw_MeanActiveConns w + 1)) (fl 0.8) * fl 0.5) 1"
    by (intro fbtw_diff [where a = 1 and b = 1 and c = 0 and d = 1]) (simp_all add: one_f64_def)
  from fbtw_mult [OF w(1) this, of 0 "2 ^ 22"]
  have svc: "fbtw 0 (sw_MeanLatencyMs w * (1 - math_Min (sw_LastQueueDepth w / (sw_MeanActiveConns w + 1)) (fl 0.8) * fl 0.5)) (2 ^ 22)"
    by simp
  have "fbtw (1 / 2 ^ 10) (fl 0.001) 1" by (rule fbtw_fl) (use fb in simp_all)
  from math_Max_btw [OF svc this, of "1 / 2 ^ 10" "2 ^ 22"]
  have m: "fbtw (1 / 2 ^ 10) (math_Max (sw_MeanLatencyMs w * (1 - math_Min (sw_LastQueueDepth w / (sw_MeanActiveConns w + 1)) (fl 0.8) * fl 0.5)) (fl 0.001)) (2 ^ 22)"
    by simp
  obtain ci where ci: "math_Max (math_Round (sw_MeanActiveConns w)) 1 = Fin (of_int ci)" "1 \<le> ci" "ci \<le> 2 ^ 20"
    using servers_int [OF w(2)] by blast
  have "real_of_int ci \<le> real_of_int (2 ^ 20)" using ci(3) by (simp only: of_int_le_iff)
  then have "fbtw 1 (Fin (real_of_int ci)) (2 ^ 20)" using ci(2) by simp
  then have "fbtw 1000 (Fin (real_of_int ci) * fl 1000) (2 ^ 30)"
    by (rule fbtw_mult [where c = 1000 and d = 1000]) (simp_all add: fl_numeral)
  then have "fbtw (1 / 2 ^ 13) (Fin (real_of_int ci) * fl 1000 /
      math_Max (sw_MeanLatencyMs w * (1 - math_Min (sw_LastQueueDepth w / (sw_MeanActiveConns w + 1)) (fl 0.8) * fl 0.5)) (fl 0.001)) (2 ^ 40)"
    using m by (rule fbtw_divide) (use fb in simp_all)
  then show ?thesis using True by (simp only: fp_mu_def ci(1) Let_def if_True)
next
  case False
  then show ?thesis by (simp add: fp_mu_def one_f64_def)
qed

lemma fp_rho0_btw:
  assumes "coupling_window w" "fbtw 0 (sw_LastQueueDepth w) big" shows "fbtw 0 (fp_rho0 w) (3 / 2)"
proof -
  have "fbtw 0 (sw_MeanRequestRate w) (2 ^ 24)" using assms(1) by (simp add: coupling_window_def)
  then have "fbtw 0 (sw_MeanRequestRate w / fp_mu w) (2 ^ 37)"
    using fp_mu_btw [OF assms] by (rule fbtw_divide) simp_all
  then have "fbtw 0 (math_Min (sw_MeanRequestRate w / fp_mu w) (Fin (3 / 2))) (3 / 2)" by (auto elim!: fbtwE)
  then show ?thesis unfolding fp_rho0_def three_halves(2) by (simp add: zero_f64_def)
qed

lemma fp_updated_btw: assumes "rho_ok rho" shows "fbtw 0 (fp_updated windows snap rho x w) (3 / 2)"
proof -
  define n where "n = fp_lambda windows snap rho x w / fp_mu w"
  have "fbtw 0 (math_Max 0 (math_Min (if math_IsNaN n \<or> math_IsInf n then weight_at rho x else n) (Fin (3 / 2)))) (3 / 2)"
    using rho_at [OF assms, of x] by (cases n) (auto simp: math_IsNaN_def math_IsInf_def zero_f64_def elim!: fbtwE)
  from damped_update [OF rho_at [OF assms] this]
  show ?thesis unfolding fp_updated_def Let_def n_def three_halves(2) .
qed

section \<open>One sweep and its residual\<close>

definition change :: "(string, f64) gomap \<Rightarrow> (string, f64) gomap \<Rightarrow> string \<Rightarrow> f64" where
  "change m' m x = \<bar>weight_at m' x - weight_at m x\<bar>"

lemma change_btw: assumes "rho_ok m'" "rho_ok m" shows "fbtw 0 (change m' m x) 2"
proof -
  have "fbtw (- 2) (weight_at m' x - weight_at m x) 2"
    using rho_at [OF assms(1), of x] rho_at [OF assms(2), of x]
    by (rule fbtw_diff) simp_all
  then show ?thesis unfolding change_def by (rule fbtw_abs) simp_all
qed

lemma fp_mu_pos: "coupling_window w \<Longrightarrow> fbtw 0 (sw_LastQueueDepth w) big \<Longrightarrow> \<not> fp_mu w \<le> 0"
  using fp_mu_btw [of w] by (auto simp: zero_f64_def elim!: fbtwE)

lemma fp_fold:
  assumes "rho_ok rho" "\<forall>(x, w) \<in> set xs. coupling_window w \<and> fbtw 0 (sw_LastQueueDepth w) big" "distinct (map fst xs)"
    "rho_ok r" "fbtw 0 m 2" "\<forall>x. change r rho x \<le> m" "\<forall>x \<in> fst ` set xs. weight_at r x = weight_at rho x"
  shows "case fold (fp_step windows snap) xs (r, m) of (r', m') \<Rightarrow>
    rho_ok r' \<and> fbtw 0 m' 2 \<and> (\<forall>x. change r' rho x \<le> m') \<and> keys r' = keys r \<union> fst ` set xs"
  using assms(2-)
proof (induction xs arbitrary: r m)
  case (Cons xw xs)
  obtain x w where xw: "xw = (x, w)" by (cases xw)
  have w: "coupling_window w" "fbtw 0 (sw_LastQueueDepth w) big" and x: "x \<notin> fst ` set xs" "weight_at r x = weight_at rho x"
    using Cons.prems(1,2,6) xw by auto
  define u where "u = fp_updated windows snap r x w"
  define d where "d = \<bar>u - weight_at r x\<bar>"
  define m' where "m' = (if m < d then d else m)"
  have u: "fbtw 0 u (3 / 2)" unfolding u_def by (rule fp_updated_btw [OF Cons.prems(3)])
  have r': "rho_ok (AList.update x u r)" using Cons.prems(3) u by (rule rho_update)
  have at: "weight_at (AList.update x u r) y = (if y = x then u else weight_at r y)" for y by (simp add: weight_at_def)
  have d: "change (AList.update x u r) rho x = d" "fbtw 0 d 2"
    using change_btw [OF r' assms(1), of x] by (simp_all add: change_def at d_def x(2))
  have m': "fbtw 0 m' 2" "m \<le> m'" "d \<le> m'" using Cons.prems(4) d(2) by (auto simp: m'_def elim!: fbtwE)
  have "change (AList.update x u r) rho y \<le> m'" for y
  proof (cases "y = x")
    case False
    then have "change (AList.update x u r) rho y \<le> m" using Cons.prems(5) by (simp add: change_def at)
    then show ?thesis using m'(2) by (rule le_trans64)
  qed (use d(1) m'(3) in simp)
  moreover have "weight_at (AList.update x u r) y = weight_at rho y" if "y \<in> fst ` set xs" for y
    using that x(1) Cons.prems(6) xw by (auto simp: at)
  moreover have "fp_step windows snap xw (r, m) = (AList.update x u r, m')"
    using fp_mu_pos [OF w] by (simp add: fp_step_def xw u_def d_def m'_def Let_def)
  ultimately show ?case
    using Cons.IH [OF _ _ r' m'(1)] Cons.prems(1,2) xw
    by (auto split: prod.splits)
qed simp

lemma fp_sweep_ok:
  assumes "fp_inputs windows" "fp_orders windows wo ro" "rho_ok rho" "keys rho = keys windows" "fp_sweep windows snap (wo i) rho = (r', m')"
  shows "rho_ok r' \<and> (\<forall>x. change r' rho x \<le> m') \<and> keys r' = keys windows \<and> fbtw 0 m' 2"
proof -
  have o: "set (wo i) = set windows" "distinct (map fst (wo i))" using assms(2) by (simp_all add: fp_orders_def)
  have "change rho rho x \<le> 0" for x
    using rho_at [OF assms(3), of x] by (auto simp: change_def zero_f64_def elim!: fbtwE)
  then have "case fold (fp_step windows snap) (wo i) (rho, 0) of (r', m') \<Rightarrow>
      rho_ok r' \<and> fbtw 0 m' 2 \<and> (\<forall>x. change r' rho x \<le> m') \<and> keys r' = keys rho \<union> fst ` set (wo i)"
    using assms(1,3) o by (intro fp_fold) (auto simp: fp_inputs_def zero_f64_def)
  then show ?thesis using assms(4,5) o(1) by (auto simp: fp_sweep_def)
qed

lemma fp_loop_ok:
  assumes "fp_inputs windows" "fp_orders windows wo ro"
  shows "rho_ok rho \<Longrightarrow> keys rho = keys windows \<Longrightarrow> fp_loop windows snap wo n iter rho prev cr = (r', cr', k) \<Longrightarrow>
    rho_ok r' \<and> keys r' = keys windows \<and> k \<le> iter + n \<and>
    (0 < k \<longrightarrow> (\<exists>old m. rho_ok old \<and> keys old = keys windows \<and> fp_sweep windows snap (wo (k - 1)) old = (r', m) \<and> m < fl 0.000001))"
proof (induction n arbitrary: iter rho prev cr)
  case (Suc n)
  obtain r m where s: "fp_sweep windows snap (wo iter) rho = (r, m)" by (cases "fp_sweep windows snap (wo iter) rho")
  have r: "rho_ok r" "keys r = keys windows" using fp_sweep_ok [OF assms Suc.prems(1,2) s] by auto
  show ?case
  proof (cases "m < fl 0.000001")
    case True
    then show ?thesis using Suc.prems s r by (auto simp: Let_def)
  next
    case False
    then have "fp_loop windows snap wo n (iter + 1) r m (next_rate iter prev m cr) = (r', cr', k)"
      using Suc.prems(3) s by (simp add: Let_def)
    from Suc.IH [OF r this] show ?thesis by simp
  qed
qed auto

lemma fp_start:
  assumes "fp_inputs windows" shows "rho_ok (map (\<lambda>(x, w). (x, fp_rho0 w)) windows)" "keys (map (\<lambda>(x, w). (x, fp_rho0 w)) windows) = keys windows"
  using assms by (force simp: fp_inputs_def rho_ok_def intro: fp_rho0_btw)+

lemma any_saturates_unit:
  assumes "fbtw lo r hi" "unit_btw p" "0 \<le> c" "c \<le> 1" shows "unit_btw (any_saturates (fl c) r p)"
proof -
  have "unit_btw (sigmoid ((r - fl c) / fl 0.04))"
    by (rule sigmoid_scaled [OF fbtw_not_NaN [OF assms(1)] fbtw_fl [of 0 _ 1] tiny_divisors(2)]) (use assms(3,4) in simp_all)
  moreover have one: "unit_btw (1 - y)" if "unit_btw y" for y
    using that unfolding unit_btw_def one_f64_def by (cases y) (auto intro!: fbtw_fl)
  ultimately show ?thesis unfolding any_saturates_def by (intro one unit_mult assms(2))
qed

lemma guarded_rate_pos: "\<exists>q. guarded_rate cr k = Fin q \<and> 0 < q"
proof (cases "cr \<le> 0 \<or> math_IsNaN cr \<or> math_IsInf cr")
  case True
  have "fbtw (1 / 4) (fl 0.5) 1" by (rule fbtw_fl) simp_all
  then obtain h where "fl 0.5 = Fin h" "0 < h" by (auto elim!: fbtwE)
  then show ?thesis using True unfolding guarded_rate_def by (auto simp: one_f64_def)
next
  case False
  then show ?thesis by (cases cr) (auto simp: guarded_rate_def math_IsNaN_def math_IsInf_def zero_f64_def)
qed

lemma fp_result:
  "windows \<noteq> [] \<Longrightarrow> fp_loop windows snap wo 50 0 (map (\<lambda>(x, w). (x, fp_rho0 w)) windows) 0 0 = (r, cr, k) \<Longrightarrow>
   ComputeFixedPointEquilibrium wo ro windows snap =
     \<lparr> fp_EquilibriumRho = r,
       fp_SystemicCollapseProb = math_Min (fold (\<lambda>xr. any_saturates (fl 0.90) (snd xr)) (ro r) 0) 1,
       fp_ConvergedInIterations = k, fp_Converged = (0 < k), fp_ConvergenceRate = guarded_rate cr k,
       fp_StabilityMargin = 1 - guarded_rate cr k \<rparr>"
  by (simp only: ComputeFixedPointEquilibrium_def Let_def split if_False)

lemma fixed_point_range:
  assumes "fp_inputs windows" "fp_orders windows wo ro"
  shows "let res = ComputeFixedPointEquilibrium wo ro windows snap in
    keys (fp_EquilibriumRho res) = keys windows \<and> rho_ok (fp_EquilibriumRho res) \<and>
    unit_btw (fp_SystemicCollapseProb res) \<and> fp_ConvergedInIterations res \<le> 50 \<and>
    0 < fp_ConvergenceRate res \<and> finite64 (fp_ConvergenceRate res)"
proof -
  obtain r cr k where l: "fp_loop windows snap wo 50 0 (map (\<lambda>(x, w). (x, fp_rho0 w)) windows) 0 0 = (r, cr, k)"
    by (rule prod_cases3)
  note ok = fp_loop_ok [OF assms fp_start [OF assms(1)] l]
  have "set (ro r) = set r" using assms(2) by (simp add: fp_orders_def)
  then have "unit_btw (fold (\<lambda>xr. any_saturates (fl 0.90) (snd xr)) (ro r) 0)"
    using ok by (intro fold_inv [where P = unit_btw] any_saturates_unit) (auto simp: rho_ok_def)
  then have u: "unit_btw (math_Min (fold (\<lambda>xr. any_saturates (fl 0.90) (snd xr)) (ro r) 0) 1)"
    by (intro min_1_unit unit_nonneg)
  obtain q where q: "guarded_rate cr k = Fin q" "0 < q" using guarded_rate_pos by blast
  have "windows \<noteq> []" using assms(1) by (simp add: fp_inputs_def)
  note res = fp_result [OF this l, of ro]
  show ?thesis unfolding res Let_def FixedPointResult.select_convs using ok u q by (simp add: zero_f64_def)
qed

text \<open>
  C31: the fixed-point solver ends after at most fifty sweeps with one utilisation in
  \<open>[0, 1.5]\<close> per service, although the damping constants do not add up to one exactly, with
  a collapse probability in \<open>[0, 1]\<close> and a positive finite convergence rate, for every order
  in which the sweeps visit the services.
\<close>

theorem fixed_point_in_range:
  assumes "fp_inputs windows" "fp_orders windows wo ro"
  shows "let res = ComputeFixedPointEquilibrium wo ro windows snap in
    keys (fp_EquilibriumRho res) = keys windows \<and> rho_ok (fp_EquilibriumRho res) \<and>
    unit_btw (fp_SystemicCollapseProb res) \<and> fp_ConvergedInIterations res \<le> 50 \<and>
    0 < fp_ConvergenceRate res \<and> finite64 (fp_ConvergenceRate res)"
  using assms by (rule fixed_point_range)

text \<open>
  Convergence means what it says: when the solver reports convergence, its utilisations
  are the result of one sweep from utilisations in range, and that sweep changed the
  utilisation of no service by \<open>10\<^sup>-\<^sup>6\<close> or more.
\<close>

theorem fixed_point_settled:
  assumes "fp_inputs windows" "fp_orders windows wo ro" "fp_Converged (ComputeFixedPointEquilibrium wo ro windows snap)"
  shows "let res = ComputeFixedPointEquilibrium wo ro windows snap in
    \<exists>old. rho_ok old \<and> fp_EquilibriumRho res = fst (fp_sweep windows snap (wo (fp_ConvergedInIterations res - 1)) old) \<and>
      (\<forall>x. \<bar>weight_at (fp_EquilibriumRho res) x - weight_at old x\<bar> < fl 0.000001)"
proof -
  obtain r cr k where l: "fp_loop windows snap wo 50 0 (map (\<lambda>(x, w). (x, fp_rho0 w)) windows) 0 0 = (r, cr, k)"
    by (rule prod_cases3)
  have "windows \<noteq> []" using assms(1) by (simp add: fp_inputs_def)
  note eq = fp_result [OF this l, of ro]
  have res: "fp_EquilibriumRho (ComputeFixedPointEquilibrium wo ro windows snap) = r"
    "fp_ConvergedInIterations (ComputeFixedPointEquilibrium wo ro windows snap) = k" "0 < k"
    using assms(3) unfolding eq by simp_all
  note ok = fp_loop_ok [OF assms(1,2) fp_start [OF assms(1)] l]
  obtain old m where o: "rho_ok old" "keys old = keys windows" "fp_sweep windows snap (wo (k - 1)) old = (r, m)" "m < fl 0.000001"
    using ok [THEN conjunct2, THEN conjunct2, THEN conjunct2, THEN mp, OF res(3)] by (elim exE conjE) (rule that)
  have c: "\<forall>x. change r old x \<le> m" "fbtw 0 m 2" using fp_sweep_ok [OF assms(1,2) o(1-3)] by blast+
  have "\<bar>weight_at r x - weight_at old x\<bar> < fl 0.000001" for x
  proof -
    have "change r old x \<le> m" using c(1) by blast
    moreover have "fbtw 0 (change r old x) 2" by (rule change_btw [OF conjunct1 [OF ok] o(1)])
    moreover have "fbtw 0 (fl 0.000001) 1" by (rule fbtw_fl) simp_all
    ultimately have "change r old x < fl 0.000001" using o(4) c(2) by (auto elim!: fbtwE)
    then show ?thesis by (simp only: change_def)
  qed
  then show ?thesis unfolding Let_def res(1,2) using o(1,3) by (intro exI [of _ old]) simp
qed

section \<open>Blind spots of the analysis\<close>

lemma degraded_single: "sw_MeanActiveConns w = Fin 1 \<Longrightarrow> degraded w = w"
proof -
  assume w: "sw_MeanActiveConns w = Fin 1"
  have "fbtw 0 (fl 0.70) (7 / 8)" using fbound_div_pow2 [of 7 3] by (intro fbtw_fl) simp_all
  then obtain q where q: "fl 0.70 = Fin q" "0 \<le> q" "q \<le> 7 / 8" by (rule fbtwE)
  have "fbtw 0 (Fin 1 * Fin q) (7 / 8)" using q fbound_div_pow2 [of 7 3] by (auto intro!: fbtw_fl)
  then have "Fin 1 * fl 0.70 < 1" unfolding q(1) by (auto simp: one_f64_def elim!: fbtwE)
  then show ?thesis using w by (simp add: degraded_def one_f64_def)
qed

lemma map_of_keyed: "x \<in> keys m \<Longrightarrow> map_of (map (\<lambda>(x, _). (x, f x)) m) x = Some (f x)"
  by (induction m) auto

text \<open>
  A service with one active connection is never perturbed.  The degraded capacity is
  floored at one connection, so the solver runs on the unchanged system and, against the
  baseline the same solver computed, the sensitivity of the service is zero however critical
  the service is.
\<close>

theorem single_connection_insensitive:
  assumes "fp_inputs windows" "fp_orders windows (wo p windows) (ro p)" "map_of windows p = Some w" "sw_MeanActiveConns w = Fin 1"
    "baseline = fp_SystemicCollapseProb (ComputeFixedPointEquilibrium (wo p windows) (ro p) windows snap)"
  shows "map_of (ComputePerturbationSensitivity wo ro windows snap baseline) p = Some 0"
proof -
  have "perturbed p windows = windows" unfolding perturbed_def
    using assms(1,3,4) by (intro map_idI) (auto simp: fp_inputs_def wf_gomap_map_of_iff [symmetric] degraded_single)
  moreover have "unit_btw baseline"
    using fixed_point_range [OF assms(1,2), of snap] by (simp only: assms(5) Let_def)
  then have "baseline - baseline = 0" by (auto simp: unit_btw_def zero_f64_def elim!: fbtwE)
  moreover have "p \<in> keys windows" using assms(3) by (force dest: map_of_SomeD)
  ultimately show ?thesis unfolding ComputePerturbationSensitivity_def
    using assms(5) by (simp add: map_of_keyed zero_f64_def)
qed

text \<open>
  The equilibrium mean divides by the sum of the positive request rates, but its numerator
  counts a service without requests with weight one: with a little traffic on one service
  and an idle one whose pressure is at the limit, the mean of two utilisations of at most two
  is 256, and so is the delta.
\<close>

definition pressed :: "f64 \<Rightarrow> NetworkCoupling" where
  "pressed eqRho = \<lparr> nc_EffectivePressure = 0, nc_PathSaturationRisk = 0, nc_CoupledArrivalRate = 0,
     nc_SaturationPathLength = 0, nc_PathEquilibriumRho = eqRho, nc_PathCollapseProb = 0, nc_SteadyStateP0 = 0,
     nc_SteadyStateMeanQueue = 0, nc_CongestionFeedbackScore = 0, nc_PathSaturationHorizonSec = 0 \<rparr>"

definition quiet_windows :: window_map where
  "quiet_windows = [(''a'', (caller ''a'' ''b'')\<lparr> sw_MeanRequestRate := Fin (1 / 128) \<rparr>),
     (''b'', (caller ''b'' ''b'')\<lparr> sw_MeanRequestRate := 0 \<rparr>)]"

lemma equilibrium_delta_inflated:
  "ne_EquilibriumDelta (ComputeNetworkEquilibrium (\<lambda>i. [(''a'', pressed (Fin 0)), (''b'', pressed (Fin 2))]) quiet_windows) = Fin 256"
proof -
  have f: "fl (1 / 128) = Fin (1 / 128)" using fbound_div_pow2 [of 1 7] by (auto simp: fbound_def intro: fl_frep)
  have n: "fl 2 = Fin 2" "fl 256 = Fin 256" by (rule fl_numeral, simp)+
  show ?thesis
    by (simp add: ComputeNetworkEquilibrium_def Let_def rho_sums_def quiet_windows_def caller_def current_rho_def
        coupling_step_def pressed_def zero_f64_def one_f64_def f n)
qed

section \<open>A quiet system\<close>

definition idle_window :: ServiceWindow where
  "idle_window = (caller ''b'' ''b'')\<lparr> sw_MeanRequestRate := 0, sw_MeanActiveConns := Fin 1, sw_UpstreamEdges := [] \<rparr>"

definition idle_windows :: window_map where
  "idle_windows = [(''b'', idle_window)]"

abbreviation idle_solution :: FixedPointResult where
  "idle_solution \<equiv> ComputeFixedPointEquilibrium (\<lambda>i. idle_windows) (\<lambda>m. m) idle_windows (bystanders 0)"

lemma idle_ok: "fp_inputs idle_windows" "fp_orders idle_windows (\<lambda>i. idle_windows) (\<lambda>m. m)"
  by (simp_all add: fp_inputs_def fp_orders_def idle_windows_def idle_window_def caller_def wf_gomap_def
      coupling_window_def window_ok_def zero_f64_def one_f64_def)

lemma idle_converged: "fp_Converged idle_solution"
proof -
  have "fbtw 0 (fl 0.45) 1" "fbtw 0 (fl 0.55) 1" "fbtw 0 (fl 1.5) 2" by (rule fbtw_fl; simp)+
  then have u: "fp_updated idle_windows (bystanders 0) [(''b'', 0)] ''b'' idle_window = 0"
    by (auto simp: fp_updated_def fp_lambda_def bystanders_def two_edge_def idle_windows_def idle_window_def caller_def
        fp_mu_def fp_active_def weight_at_def Let_def zero_f64_def one_f64_def math_IsNaN_def math_IsInf_def elim!: fbtwE)
  have s: "fp_sweep idle_windows (bystanders 0) idle_windows [(''b'', 0)] = ([(''b'', 0)], 0)"
    using u by (simp add: fp_sweep_def fp_step_def idle_windows_def fp_mu_def fp_active_def Let_def weight_at_def)
      (simp add: idle_window_def zero_f64_def one_f64_def)
  have "fbtw (1 / 2 ^ 20) (fl 0.000001) 1" by (rule fbtw_fl) (use fbound_div_pow2 [of 1 20] in simp_all)
  then have "0 < fl 0.000001" by (auto simp: zero_f64_def elim!: fbtwE)
  then have "\<exists>cr. fp_loop idle_windows (bystanders 0) (\<lambda>i. idle_windows) (Suc 49) 0 [(''b'', 0)] 0 0 = ([(''b'', 0)], cr, 1)"
    unfolding fp_loop.simps(2) s by (simp add: Let_def)
  moreover have "map (\<lambda>(x, w). (x, fp_rho0 w)) idle_windows = [(''b'', 0)]"
    by (simp add: idle_windows_def fp_rho0_def fp_active_def idle_window_def zero_f64_def)
  ultimately obtain cr where "fp_loop idle_windows (bystanders 0) (\<lambda>i. idle_windows) 50 0 (map (\<lambda>(x, w). (x, fp_rho0 w)) idle_windows) 0 0
      = ([(''b'', 0)], cr, 1)" by auto
  from fp_result [OF _ this, of "\<lambda>m. m"] show ?thesis by (simp add: idle_windows_def)
qed

theorem fixed_point_in_range_witness: "unit_btw (fp_SystemicCollapseProb idle_solution)"
  using fixed_point_in_range [OF idle_ok, of "bystanders 0"] by (simp only: Let_def)

theorem fixed_point_settled_witness:
  "\<exists>old. rho_ok old \<and> \<bar>weight_at (fp_EquilibriumRho idle_solution) ''b'' - weight_at old ''b''\<bar> < fl 0.000001"
  using fixed_point_settled [OF idle_ok idle_converged] unfolding Let_def by blast

theorem single_connection_insensitive_witness:
  "map_of (ComputePerturbationSensitivity (\<lambda>p m i. m) (\<lambda>p m. m) idle_windows (bystanders 0)
     (fp_SystemicCollapseProb idle_solution)) ''b'' = Some 0"
proof -
  have "map_of idle_windows ''b'' = Some idle_window" "sw_MeanActiveConns idle_window = Fin 1"
    by (simp_all add: idle_windows_def idle_window_def)
  with single_connection_insensitive [of idle_windows "\<lambda>p m i. m" "''b''" "\<lambda>p m. m" idle_window _ "bystanders 0"] idle_ok
  show ?thesis by simp
qed

end
