(* ===== verification/TelemetryCoupler.thy ===== *)
theory TelemetryCoupler
  imports NetworkCoupling
begin

text \<open>
  \<open>internal/modelling/coupler.go\<close>: the coupler that carries backlog, latency, demand and
  variance of every service from tick to tick and writes them back into the telemetry
  windows.  The backlog of a service is injected into the services it calls, through a ring
  of three slots per service.
\<close>

record couplerState =
  cs_queueBaseline :: f64
  cs_latencyPersisted :: f64
  cs_demandMemory :: f64
  cs_varianceAcc :: f64
  cs_propBuffer :: "f64 list"
  cs_propIdx :: nat

type_synonym coupler = "(string, couplerState) gomap"

definition NewTelemetryCoupler :: coupler where
  "NewTelemetryCoupler = []"

definition injected_loads :: "coupler \<Rightarrow> GraphSnapshot \<Rightarrow> (string, f64) gomap" where
  "injected_loads states topo =
    fold (\<lambda>e m. case map_of states (eg_Source e) of None \<Rightarrow> m
           | Some st \<Rightarrow> if 0 < cs_queueBaseline st
               then add_weight (eg_Target e) (cs_queueBaseline st * eg_Weight e * fl 0.15) m else m)
      (gs_Edges topo) []"

definition new_coupler_state :: "ServiceWindow \<Rightarrow> couplerState" where
  "new_coupler_state w =
     \<lparr> cs_queueBaseline = 0, cs_latencyPersisted = math_Max (sw_MeanLatencyMs w) (fl 10),
       cs_demandMemory = sw_MeanRequestRate w, cs_varianceAcc = 0, cs_propBuffer = [0, 0, 0], cs_propIdx = 0 \<rparr>"

definition propagate_load :: "f64 \<Rightarrow> couplerState \<Rightarrow> couplerState \<times> f64" where
  \<comment> \<open>the ring of three slots and the load that leaves it\<close>
  "propagate_load ld st =
    (let buf = (cs_propBuffer st)[cs_propIdx st := ld]; idx = (cs_propIdx st + 1) mod 3
     in (st\<lparr> cs_propBuffer := buf, cs_propIdx := idx \<rparr>, buf ! idx))"

definition couple_latency :: "f64 \<Rightarrow> f64 \<Rightarrow> f64" where
  "couple_latency rawExpected persisted =
    (if persisted < rawExpected then fl 0.8 * rawExpected + fl 0.2 * persisted
     else fl 0.1 * rawExpected + fl 0.9 * persisted)"

definition couple_service :: "f64 \<Rightarrow> couplerState \<Rightarrow> ServiceWindow \<Rightarrow> couplerState \<times> ServiceWindow" where
  "couple_service ld st w =
    (let capScale = math_Max 1 (sw_MeanActiveConns w);
         memory = fl 0.7 * sw_MeanRequestRate w + fl 0.3 * cs_demandMemory st;
         (st, delayedInjection) = propagate_load ld (st\<lparr> cs_demandMemory := memory \<rparr>);
         smoothed = memory + delayedInjection;
         svcRate = capScale * fl 1000 / math_Max (cs_latencyPersisted st) 1;
         netDemand = smoothed - svcRate;
         baseline = cs_queueBaseline st + netDemand * fl 2;
         baseline = (if baseline < 0 then 0 else baseline);
         rawExpected = sw_MeanLatencyMs w + baseline / capScale * fl 60;
         latency = couple_latency rawExpected (cs_latencyPersisted st);
         variance = (if svcRate < smoothed then cs_varianceAcc st + \<bar>netDemand\<bar> * fl 0.25
                     else cs_varianceAcc st * fl 0.85)
     in (st\<lparr> cs_queueBaseline := baseline, cs_latencyPersisted := latency, cs_varianceAcc := variance \<rparr>,
         w\<lparr> sw_MeanRequestRate := smoothed, sw_MeanQueueDepth := baseline, sw_LastQueueDepth := baseline,
            sw_MeanLatencyMs := latency, sw_LastLatencyMs := latency, sw_StdRequestRate := sw_StdRequestRate w + variance \<rparr>))"

definition couple_step ::
  "(string, f64) gomap \<Rightarrow> string \<times> ServiceWindow \<Rightarrow> coupler \<times> (string, ServiceWindow) gomap \<Rightarrow> coupler \<times> (string, ServiceWindow) gomap" where
  "couple_step injectedLoad xw acc =
    (let st = (case map_of (fst acc) (fst xw) of Some st \<Rightarrow> st | None \<Rightarrow> new_coupler_state (snd xw));
         (st, w) = couple_service (weight_at injectedLoad (fst xw)) st (snd xw)
     in (AList.update (fst xw) st (fst acc), AList.update (fst xw) w (snd acc)))"

definition ApplyCoupling ::
  "(string, ServiceWindow) gomap \<Rightarrow> GraphSnapshot \<Rightarrow> coupler \<Rightarrow> coupler \<times> (string, ServiceWindow) gomap" where
  \<comment> \<open>the windows are updated in place; the second component is the map after the call\<close>
  "ApplyCoupling windows topo states =
    (let (states, windows) = fold (couple_step (injected_loads states topo)) windows (states, windows)
     in (filter (\<lambda>x. fst x \<in> keys windows) states, windows))"

section \<open>The delay of the injected load\<close>

text \<open>One service over many ticks, with the load injected into it and its window at every tick.\<close>

fun coupled_run :: "(f64 \<times> ServiceWindow) list \<Rightarrow> couplerState \<Rightarrow> ServiceWindow list" where
  "coupled_run [] st = []"
| "coupled_run ((ld, w) # ticks) st =
    (let (st, w') = couple_service ld st w in w' # coupled_run ticks st)"

fun memories :: "ServiceWindow list \<Rightarrow> f64 \<Rightarrow> f64 list" where
  "memories [] m = []"
| "memories (w # ws) m = (let m = fl 0.7 * sw_MeanRequestRate w + fl 0.3 * m in m # memories ws m)"

definition ring_ok :: "f64 \<Rightarrow> f64 \<Rightarrow> couplerState \<Rightarrow> bool" where
  \<comment> \<open>the two loads still in the ring, the older one first\<close>
  "ring_ok older newer st \<longleftrightarrow> length (cs_propBuffer st) = 3 \<and> cs_propIdx st < 3 \<and>
     cs_propBuffer st ! ((cs_propIdx st + 1) mod 3) = older \<and> cs_propBuffer st ! ((cs_propIdx st + 2) mod 3) = newer"

lemma propagate_ring:
  assumes "ring_ok older newer st" "propagate_load ld st = (st', out)"
  shows "out = older \<and> ring_ok newer ld st' \<and> cs_demandMemory st' = cs_demandMemory st"
proof -
  have "cs_propIdx st = 0 \<or> cs_propIdx st = 1 \<or> cs_propIdx st = 2" using assms(1) by (auto simp: ring_ok_def)
  moreover have "length (cs_propBuffer st) = Suc (Suc (Suc 0))" using assms(1) by (simp add: ring_ok_def)
  then obtain a b c where "cs_propBuffer st = [a, b, c]" by (auto simp: length_Suc_conv)
  ultimately show ?thesis using assms by (auto simp: ring_ok_def propagate_load_def Let_def)
qed

lemma coupled_run_rates:
  "ring_ok older newer st \<Longrightarrow>
   map sw_MeanRequestRate (coupled_run ticks st) =
     map2 (+) (memories (map snd ticks) (cs_demandMemory st)) (older # newer # map fst ticks)"
proof (induction ticks arbitrary: st older newer)
  case (Cons t ticks)
  obtain ld w where t: "t = (ld, w)" by (cases t)
  define m where "m = fl 0.7 * sw_MeanRequestRate w + fl 0.3 * cs_demandMemory st"
  obtain st1 out where p: "propagate_load ld (st\<lparr> cs_demandMemory := m \<rparr>) = (st1, out)" by fastforce
  have ring: "ring_ok older newer (st\<lparr> cs_demandMemory := m \<rparr>)" using Cons.prems by (simp add: ring_ok_def)
  have o: "out = older" "ring_ok newer ld st1" "cs_demandMemory st1 = m" using propagate_ring [OF ring p] by simp_all
  obtain st' w' where c: "couple_service ld st w = (st', w')" by fastforce
  have "sw_MeanRequestRate w' = m + older" "ring_ok newer ld st'" "cs_demandMemory st' = m"
    using c o p unfolding couple_service_def m_def [symmetric] by (auto simp: Let_def ring_ok_def)
  then show ?case using Cons.IH [of newer ld st'] by (simp add: t c m_def Let_def)
qed simp

text \<open>
  Load injected into a service reaches it after exactly two ticks and exactly once.  Over
  any sequence of ticks of a service that starts with a new state, the request rate written
  to the window is the smoothed demand plus the load injected two ticks before, and plus
  nothing in the first two ticks; the ring never drops, repeats or reorders a load.
\<close>

theorem injection_delayed:
  "map sw_MeanRequestRate (coupled_run ticks (new_coupler_state w)) =
     map2 (+) (memories (map snd ticks) (sw_MeanRequestRate w)) (0 # 0 # map fst ticks)"
proof -
  have "ring_ok 0 0 (new_coupler_state w)" by (simp add: ring_ok_def new_coupler_state_def)
  from coupled_run_rates [OF this, of ticks] show ?thesis by (simp add: new_coupler_state_def)
qed

end
