(* ===== verification/AutoPredictor.thy ===== *)
theory AutoPredictor
  imports FloatSign
begin

text \<open>
  \<open>internal/autopilot\<close>: the helpers of \<open>utils.go\<close> and the congestion model of \<open>predictor.go\<close>,
  which every layer of the autopilot runs on.  The fields of the predictor that no code reads
  (\<open>CapacityJitterSigma\<close>) are kept in its record.
\<close>

section \<open>Helpers\<close>

definition unit_clamp :: "f64 \<Rightarrow> f64" where
  \<comment> \<open>\<open>clamp01\<close>\<close>
  "unit_clamp x = (if x < 0 then 0 else if 1 < x then 1 else x)"

definition log_norm :: "f64 \<Rightarrow> f64" where
  \<comment> \<open>\<open>norm\<close>\<close>
  "log_norm x = (if x \<le> 0 then 0 else let l = math_Log (1 + x) in l / (1 + l))"

definition pos :: "f64 \<Rightarrow> f64" where
  "pos x = (if x < 0 then 0 else x)"

definition boundedAgg :: "f64 list \<Rightarrow> f64" where
  "boundedAgg vals =
    (if vals = [] then 0
     else let top = fold (\<lambda>v m. if m < v then v else m) vals 0; s = fold (\<lambda>v a. a + v) vals 0
       in if s = 0 then 0
          else let mean = s / f64_of_int (int (length vals)); blend = fl 0.7 * top + fl 0.3 * mean
            in blend / (1 + blend))"

section \<open>The model\<close>

record CongestionState =
  cg_Backlog :: f64
  cg_ArrivalMean :: f64
  cg_ArrivalVar :: f64
  cg_BurstState :: f64
  cg_RegimeConfidence :: f64
  cg_ServiceRate :: f64
  cg_ServiceEfficiency :: f64
  cg_ConcurrencyLimit :: f64
  cg_CapacityActive :: f64
  cg_CapacityTarget :: f64
  cg_CapacityTauUp :: f64
  cg_CapacityTauDown :: f64
  cg_RetryFactor :: f64
  cg_Latency :: f64
  cg_CPUPressure :: f64
  cg_NetworkJitter :: f64
  cg_Disturbance :: f64
  cg_DisturbanceEnergy :: f64
  cg_UpstreamPressure :: f64
  cg_TopologyAmplification :: f64
  cg_CacheRelief :: f64

definition zero_congestion :: CongestionState where
  "zero_congestion =
    \<lparr> cg_Backlog = 0, cg_ArrivalMean = 0, cg_ArrivalVar = 0, cg_BurstState = 0, cg_RegimeConfidence = 0,
      cg_ServiceRate = 0, cg_ServiceEfficiency = 0, cg_ConcurrencyLimit = 0, cg_CapacityActive = 0,
      cg_CapacityTarget = 0, cg_CapacityTauUp = 0, cg_CapacityTauDown = 0, cg_RetryFactor = 0, cg_Latency = 0,
      cg_CPUPressure = 0, cg_NetworkJitter = 0, cg_Disturbance = 0, cg_DisturbanceEnergy = 0,
      cg_UpstreamPressure = 0, cg_TopologyAmplification = 0, cg_CacheRelief = 0 \<rparr>"

record Predictor =
  pd_Dt :: f64
  pd_MaxQueue :: f64
  pd_BurstEntryRate :: f64
  pd_BurstCollapseThreshold :: f64
  pd_BurstIntensity :: f64
  pd_ArrivalRiseGain :: f64
  pd_ArrivalDropGain :: f64
  pd_VarianceDecayRate :: f64
  pd_RetryGain :: f64
  pd_RetryDelayTau :: f64
  pd_DisturbanceSigma :: f64
  pd_DisturbanceInjectionGain :: f64
  pd_DisturbanceBound :: f64
  pd_TopologyCouplingK :: f64
  pd_TopologyAdaptTau :: f64
  pd_CacheAdaptTau :: f64
  pd_LatencyGain :: f64
  pd_CapacityJitterSigma :: f64
  pd_BarrierExpK :: f64
  pd_BarrierCap :: f64

definition updateBurstState :: "Predictor \<Rightarrow> CongestionState \<Rightarrow> f64" where
  "updateBurstState p x =
    (let entry = pd_BurstEntryRate p * (1 + cg_UpstreamPressure x);
         v = cg_BurstState x + entry * pd_Dt p;
         v = (if cg_Backlog x < pd_BurstCollapseThreshold p then v * fl 0.85 else v);
         v = v / (1 + v)
     in if v < fl 0.05 then fl 0.05 else v)"

definition burst_arrival :: "Predictor \<Rightarrow> CongestionState \<Rightarrow> f64" where
  \<comment> \<open>\<open>arrival\<close>\<close>
  "burst_arrival p x =
    cg_ArrivalMean x + pd_BurstIntensity p * cg_BurstState x * math_Sqrt (cg_ArrivalVar x + 1)"

definition updateArrivalStats :: "Predictor \<Rightarrow> CongestionState \<Rightarrow> f64 \<Rightarrow> f64 \<times> f64" where
  "updateArrivalStats p x arrival =
    (let gain = (if cg_ArrivalMean x < arrival then pd_ArrivalRiseGain p else pd_ArrivalDropGain p);
         m = (1 - gain) * cg_ArrivalMean x + gain * arrival;
         m = (if m < fl 0.1 * cg_ArrivalMean x then fl 0.1 * cg_ArrivalMean x else m);
         v = (1 - pd_VarianceDecayRate p) * cg_ArrivalVar x + pd_VarianceDecayRate p * \<bar>arrival - m\<bar>
     in (m, v))"

definition retryCascade :: "Predictor \<Rightarrow> CongestionState \<Rightarrow> f64" where
  "retryCascade p x =
    (let lag = math_Exp (- pd_Dt p / pd_RetryDelayTau p);
         pressure = (1 - lag) * (cg_Backlog x + cg_Latency x);
         load' = pd_RetryGain p * cg_RetryFactor x * math_Pow (pressure + 1) (fl 1.02);
         load' = (if fl 5 < load' then fl 5 else load')
     in load' / (1 + load'))"

definition capacityNext :: "CongestionState \<Rightarrow> f64" where
  "capacityNext x = cg_CapacityActive x + fl 0.3 * (cg_CapacityTarget x - cg_CapacityActive x)"

definition latencyNext :: "Predictor \<Rightarrow> CongestionState \<Rightarrow> f64" where
  "latencyNext p x =
    (let recovery = 1 / (1 + cg_ServiceEfficiency x * cg_CapacityActive x);
         concurrencyPressure = cg_Backlog x / (cg_ConcurrencyLimit x + 1)
     in fl 0.7 * cg_Latency x + fl 0.15 * pd_LatencyGain p * math_Sqrt (cg_Backlog x + 1) +
        fl 0.05 * cg_CPUPressure x + fl 0.05 * cg_NetworkJitter x + fl 0.05 * concurrencyPressure + fl 0.1 * recovery)"

definition disturbanceNext :: "Predictor \<Rightarrow> CongestionState \<Rightarrow> f64 \<times> f64" where
  "disturbanceNext p x =
    (let injection = pd_DisturbanceInjectionGain p * (1 + cg_UpstreamPressure x);
         noise = pd_DisturbanceSigma p * math_Sqrt (cg_DisturbanceEnergy x + 1);
         v = fl 0.8 * cg_Disturbance x + injection + noise;
         v = (if pd_DisturbanceBound p < v then pd_DisturbanceBound p else v);
         energy = math_Max 0 (cg_DisturbanceEnergy x + injection * pd_Dt p - v * pd_Dt p)
     in (v, energy))"

definition topologyNext :: "Predictor \<Rightarrow> CongestionState \<Rightarrow> f64" where
  "topologyNext p x =
    (let target = 1 + cg_UpstreamPressure x
     in cg_TopologyAmplification x +
        (target - cg_TopologyAmplification x) * (1 - math_Exp (- pd_Dt p / pd_TopologyAdaptTau p)))"

definition cacheNext :: "Predictor \<Rightarrow> CongestionState \<Rightarrow> f64" where
  "cacheNext p x =
    (let target = 1 / (1 + math_Sqrt (cg_Backlog x + 1)) * (1 + fl 0.3 * cg_CapacityActive x)
     in cg_CacheRelief x + (target - cg_CacheRelief x) * (1 - math_Exp (- pd_Dt p / pd_CacheAdaptTau p)))"

definition overloadBarrier :: "Predictor \<Rightarrow> f64 \<Rightarrow> f64" where
  "overloadBarrier p q =
    (if math_IsNaN q \<or> q = NInf then 0
     else if q \<le> 0 then 0
     else if q = PInf then pd_BarrierCap p
     else if q \<le> pd_MaxQueue p then q
     else let v = pd_MaxQueue p + math_Exp (pd_BarrierExpK p * (q - pd_MaxQueue p))
       in if pd_BarrierCap p < v then pd_BarrierCap p else v)"

definition arrival_limits :: "CongestionState \<Rightarrow> f64 \<Rightarrow> f64" where
  \<comment> \<open>the limits on the new mean: at most eight times the old one, at least zero\<close>
  "arrival_limits x m =
    (let top = math_Max (fl 100) (cg_ArrivalMean x * fl 8);
         m = (if top < m then top else m)
     in if m < 0 then 0 else m)"

definition plant_inflow :: "Predictor \<Rightarrow> CongestionState \<Rightarrow> f64 \<Rightarrow> f64 \<Rightarrow> f64 \<Rightarrow> f64" where
  \<comment> \<open>\<open>dQ\<close>: the change of the backlog, from the arrivals, the amplification and the disturbance\<close>
  "plant_inflow p x arrival amp shock =
    (let effectiveRelief = math_Min (fl 0.25) (math_Max 0 (cg_CacheRelief x));
         service = cg_ServiceRate x * capacityNext x;
         maxService = fl 1.5 * cg_ArrivalMean x;
         service = (if maxService < service then maxService else service);
         topology = cg_UpstreamPressure x * amp * pd_TopologyCouplingK p
     in (arrival * (1 - effectiveRelief) + retryCascade p x + topology - service + shock) * pd_Dt p)"

definition Step_predictor :: "Predictor \<Rightarrow> CongestionState \<Rightarrow> CongestionState" where
  "Step_predictor p x =
    (let burst = updateBurstState p x;
         arrival = burst_arrival p (x\<lparr> cg_BurstState := burst \<rparr>);
         (m, v) = updateArrivalStats p x arrival;
         amp = topologyNext p x;
         (shock, energy) = disturbanceNext p x;
         b = overloadBarrier p (cg_Backlog x + plant_inflow p x arrival amp shock)
     in x\<lparr> cg_BurstState := burst, cg_ArrivalMean := arrival_limits x m, cg_ArrivalVar := v,
          cg_TopologyAmplification := amp, cg_Backlog := (if b < 0 then 0 else b),
          cg_CapacityActive := capacityNext x, cg_Latency := latencyNext p x, cg_Disturbance := shock,
          cg_DisturbanceEnergy := energy, cg_CacheRelief := cacheNext p x \<rparr>)"

fun Rollout_predictor :: "Predictor \<Rightarrow> CongestionState \<Rightarrow> nat \<Rightarrow> CongestionState list" where
  "Rollout_predictor p x 0 = []"
| "Rollout_predictor p x (Suc h) = Step_predictor p x # Rollout_predictor p (Step_predictor p x) h"

text \<open>What the planner asks for in one step; the rollout, the safety engine and the runtime read it.\<close>

record MPCControl =
  mc_CapacityTarget :: f64
  mc_RetryFactor :: f64
  mc_CacheRelief :: f64

section \<open>The backlog stays in its range\<close>

definition barrier_ok :: "Predictor \<Rightarrow> bool" where
  "barrier_ok p \<longleftrightarrow> (\<exists>q c k. pd_MaxQueue p = Fin q \<and> pd_BarrierCap p = Fin c \<and> pd_BarrierExpK p = Fin k \<and>
     0 \<le> q \<and> q \<le> c \<and> 0 < k)"

definition in_barrier :: "Predictor \<Rightarrow> f64 \<Rightarrow> bool" where
  "in_barrier p b \<longleftrightarrow> finite64 b \<and> 0 \<le> b \<and> b \<le> pd_BarrierCap p"

lemma barrier_exp: assumes "0 < k" "m < r" shows "\<exists>e. math_Exp (Fin k * (Fin r - Fin m)) = e \<and> f_nonneg e"
proof -
  have "f_nonneg (fl (r - m))" using assms(2) by (intro fl_nonneg) simp
  then have "Fin k * (Fin r - Fin m) \<noteq> NaN" using assms(1) by (cases "fl (r - m)") (auto simp: minus_f64_def)
  then show ?thesis using f_nonneg_Exp by blast
qed

lemma overloadBarrier_range:
  assumes "barrier_ok p" shows "in_barrier p (overloadBarrier p q)"
proof -
  obtain m c k where p: "pd_MaxQueue p = Fin m" "pd_BarrierCap p = Fin c" "pd_BarrierExpK p = Fin k" "0 \<le> m" "m \<le> c"
    "0 < k"
    using assms by (auto simp: barrier_ok_def)
  show ?thesis
  proof (cases q)
    case (Fin r)
    define e where "e = math_Exp (Fin k * (Fin r - Fin m))"
    consider "r \<le> 0" | "0 < r" "r \<le> m" | "0 < r" "m < r" by linarith
    then show ?thesis
    proof cases
      case 3
      then have v: "overloadBarrier p q = (if Fin c < Fin m + e then Fin c else Fin m + e)"
        using p Fin unfolding e_def by (simp add: overloadBarrier_def zero_f64_def math_IsNaN_def Let_def del: minus_simps64)
      have "f_nonneg (Fin m + e)" using barrier_exp [OF p(6) 3(2)] p(4) unfolding e_def by (intro f_nonneg_add) auto
      then show ?thesis unfolding v using p by (cases "Fin m + e") (auto simp: in_barrier_def zero_f64_def)
    qed (use p Fin in \<open>auto simp: overloadBarrier_def in_barrier_def zero_f64_def math_IsNaN_def\<close>)
  qed (use p in \<open>auto simp: overloadBarrier_def in_barrier_def math_IsNaN_def zero_f64_def\<close>)
qed

lemma Step_predictor_backlog: "barrier_ok p \<Longrightarrow> in_barrier p (cg_Backlog (Step_predictor p x))"
  using overloadBarrier_range [of p]
  by (auto simp: Step_predictor_def Let_def barrier_ok_def in_barrier_def zero_f64_def split: prod.split)

text \<open>
  However the state looks (infinite and NaN fields included), every backlog of a forecast of the
  autopilot is a number between zero and the cap of the overload barrier.
\<close>

theorem forecast_bounded:
  assumes "barrier_ok p" "y \<in> set (Rollout_predictor p x h)" shows "in_barrier p (cg_Backlog y)"
  using assms(2) by (induction h arbitrary: x) (auto intro: Step_predictor_backlog [OF assms(1)])

definition runtime_predictor :: "f64 \<Rightarrow> Predictor" where
  \<comment> \<open>as \<open>ensureService\<close> configures it; the tick length is the argument\<close>
  "runtime_predictor tickSec =
    \<lparr> pd_Dt = tickSec, pd_MaxQueue = fl 5000, pd_BurstEntryRate = fl 0.10, pd_BurstCollapseThreshold = fl 20,
      pd_BurstIntensity = fl 0.35, pd_ArrivalRiseGain = fl 0.25, pd_ArrivalDropGain = fl 0.12,
      pd_VarianceDecayRate = fl 0.10, pd_RetryGain = fl 0.30, pd_RetryDelayTau = fl 1.5, pd_DisturbanceSigma = fl 0.05,
      pd_DisturbanceInjectionGain = fl 0.02, pd_DisturbanceBound = fl 0.40, pd_TopologyCouplingK = fl 0.35,
      pd_TopologyAdaptTau = fl 2, pd_CacheAdaptTau = fl 2, pd_LatencyGain = fl 0.50, pd_CapacityJitterSigma = fl 0.04,
      pd_BarrierExpK = fl 0.005, pd_BarrierCap = fl 10000 \<rparr>"

lemma runtime_predictor_ok: "barrier_ok (runtime_predictor dt)"
proof -
  obtain k where "fl 0.005 = Fin k" "0.005 - 1 / 100000 \<le> k" using fl_close [of "0.005"] by auto
  then show ?thesis by (auto simp: barrier_ok_def runtime_predictor_def)
qed

theorem forecast_bounded_witness:
  "in_barrier (runtime_predictor 1) (cg_Backlog (Step_predictor (runtime_predictor 1) zero_congestion))"
  by (rule forecast_bounded [OF runtime_predictor_ok, where h = 1 and x = zero_congestion]) simp

end
