(* ===== verification/AutoRollout.thy ===== *)
theory AutoRollout
  imports AutoPredictor
begin

text \<open>
  \<open>internal/autopilot/rollout.go\<close>: how the capacity, retry and cache targets of a plan reach the
  actuators.  An intent is queued, the governance mode is chosen, and the newest intent is
  ramped in.  The pace modifier saves and restores the ramp rates around a step without using
  them.
\<close>

datatype GovernanceMode = ModeNormal | ModeDegraded | ModeEmergency

record RolloutIntent =
  ri_Cap :: f64
  ri_Retry :: f64
  ri_Cache :: f64
  ri_SLAWeight :: f64
  ri_CostWeight :: f64
  ri_TopoImpact :: f64

record RolloutState =
  rl_CapacityActive :: f64
  rl_RetryActive :: f64
  rl_CacheActive :: f64
  rl_IntentQueue :: "RolloutIntent list"
  rl_WarmupReadiness :: f64
  rl_ConfigLag :: f64
  rl_Mode :: GovernanceMode
  rl_RolloutTimer :: f64
  rl_RetryCount :: int

definition zero_rollout :: RolloutState where
  "zero_rollout =
    \<lparr> rl_CapacityActive = 0, rl_RetryActive = 0, rl_CacheActive = 0, rl_IntentQueue = [], rl_WarmupReadiness = 0,
      rl_ConfigLag = 0, rl_Mode = ModeNormal, rl_RolloutTimer = 0, rl_RetryCount = 0 \<rparr>"

record RolloutController =
  rc_Dt :: f64
  rc_CapRampUpNormal :: f64
  rc_CapRampUpEmergency :: f64
  rc_CapRampDown :: f64
  rc_RetryEnableRamp :: f64
  rc_RetryDisableRamp :: f64
  rc_CacheEnableRamp :: f64
  rc_CacheDisableRamp :: f64
  rc_WarmupTau :: f64
  rc_ConfigLagTau :: f64
  rc_QueueMax :: int
  rc_QueuePressureRampGain :: f64
  rc_EmergencyBacklog :: f64
  rc_DegradedBacklog :: f64
  rc_RolloutTimeout :: f64
  rc_MaxRetries :: int
  rc_SuccessProbBase :: f64
  rc_InfraFailureGain :: f64
  rc_PaceModifier :: f64

definition priorityScore :: "RolloutIntent \<Rightarrow> f64 \<Rightarrow> f64 \<Rightarrow> f64" where
  "priorityScore i backlog topology =
    ri_SLAWeight i * backlog + ri_CostWeight i * \<bar>ri_Cap i\<bar> + ri_TopoImpact i * \<bar>topology\<bar>"

definition same_intent :: "RolloutIntent \<Rightarrow> RolloutIntent \<Rightarrow> bool" where
  "same_intent a b \<longleftrightarrow>
    \<bar>ri_Cap a - ri_Cap b\<bar> < fl 0.05 \<and> \<bar>ri_Retry a - ri_Retry b\<bar> < fl 0.05 \<and> \<bar>ri_Cache a - ri_Cache b\<bar> < fl 0.05"

definition lowest_step :: "(nat \<Rightarrow> f64) \<Rightarrow> nat \<Rightarrow> nat \<times> f64 \<Rightarrow> nat \<times> f64" where
  "lowest_step score i acc = (if score i < snd acc then (i, score i) else acc)"

definition drop_lowest :: "f64 \<Rightarrow> f64 \<Rightarrow> RolloutIntent list \<Rightarrow> RolloutIntent list" where
  "drop_lowest backlog topology q =
    (let score = (\<lambda>i. priorityScore (q ! i) backlog topology);
         k = fst (fold (lowest_step score) [1..<length q] (0, score 0))
     in take k q @ drop (k + 1) q)"

definition enqueue_intent :: "RolloutController \<Rightarrow> RolloutIntent \<Rightarrow> f64 \<Rightarrow> f64 \<Rightarrow> RolloutState \<Rightarrow> RolloutState" where
  \<comment> \<open>\<open>enqueue\<close>\<close>
  "enqueue_intent r intent backlog topology x =
    (let q = map (\<lambda>i. if same_intent i intent then intent else i) (rl_IntentQueue x) @ [intent];
         q = (if rc_QueueMax r < int (length q) then drop_lowest backlog topology q else q)
     in x\<lparr> rl_IntentQueue := q \<rparr>)"

definition modeNext :: "RolloutController \<Rightarrow> f64 \<Rightarrow> f64 \<Rightarrow> GovernanceMode" where
  "modeNext r backlog queuePressure =
    (if rc_EmergencyBacklog r < backlog then ModeEmergency
     else if rc_DegradedBacklog r < backlog \<or> fl 0.7 < queuePressure then ModeDegraded
     else ModeNormal)"

definition warmupNext :: "RolloutController \<Rightarrow> f64 \<Rightarrow> RolloutState \<Rightarrow> f64" where
  "warmupNext r scaleDelta x =
    (if scaleDelta \<le> 0 then rl_WarmupReadiness x
     else let g = 1 - math_Exp (- scaleDelta / rc_WarmupTau r) in math_Min 1 (rl_WarmupReadiness x + g))"

definition lagNext :: "RolloutController \<Rightarrow> f64 \<Rightarrow> RolloutState \<Rightarrow> f64" where
  "lagNext r delta x =
    rl_ConfigLag x + (1 - rl_ConfigLag x) * (1 - math_Exp (- \<bar>delta\<bar> * rc_Dt r / rc_ConfigLagTau r))"

definition successProb :: "RolloutController \<Rightarrow> f64 \<Rightarrow> f64" where
  "successProb r infraLoad = rc_SuccessProbBase r * math_Exp (- rc_InfraFailureGain r * infraLoad)"

definition ramp_rate :: "RolloutController \<Rightarrow> f64 \<Rightarrow> GovernanceMode \<Rightarrow> f64 \<Rightarrow> f64 \<Rightarrow> f64" where
  "ramp_rate r err mode queuePressure backlog =
    (let rate' = (if mode = ModeEmergency \<or> mode = ModeDegraded then rc_CapRampUpEmergency r else rc_CapRampUpNormal r);
         rate' = (if fl 5 < err then rate' + math_Min (err * fl 0.3) rate' else rate');
         rate' = (if err < 0 then rc_CapRampDown r else rate');
         rate' = rate' * (1 + rc_QueuePressureRampGain r * queuePressure)
     in if fl 50 < backlog \<and> fl 50 < rc_EmergencyBacklog r
        then rate' * (1 + fl 0.5 * math_Min 1 ((backlog - fl 50) / (rc_EmergencyBacklog r - fl 50)))
        else rate')"

definition rampCap :: "RolloutController \<Rightarrow> f64 \<Rightarrow> f64 \<Rightarrow> GovernanceMode \<Rightarrow> f64 \<Rightarrow> f64 \<Rightarrow> f64" where
  "rampCap r active target mode queuePressure backlog =
    (let err = target - active; rate' = ramp_rate r err mode queuePressure backlog
     in active + math_Max (- rate' * rc_Dt r) (math_Min (rate' * rc_Dt r) err))"

definition ramp_toward :: "f64 \<Rightarrow> f64 \<Rightarrow> f64 \<Rightarrow> f64 \<Rightarrow> f64 \<Rightarrow> f64" where
  \<comment> \<open>the asymmetric ramps of retries and cache\<close>
  "ramp_toward up down dt target active = (if active < target then active + up * dt else active - down * dt)"

definition finish_rollout :: "RolloutController \<Rightarrow> f64 \<Rightarrow> RolloutState \<Rightarrow> RolloutState" where
  \<comment> \<open>the timer and the retries of a rollout; the queue is already empty here\<close>
  "finish_rollout r infraLoad x =
    (let x = x\<lparr> rl_RolloutTimer := rl_RolloutTimer x + rc_Dt r \<rparr>
     in if rc_RolloutTimeout r < rl_RolloutTimer x
        then if successProb r infraLoad < fl 0.5 \<and> rl_RetryCount x < rc_MaxRetries r
             then x\<lparr> rl_RetryCount := rl_RetryCount x + 1, rl_RolloutTimer := 0 \<rparr>
             else x\<lparr> rl_IntentQueue := tl (rl_IntentQueue x), rl_RolloutTimer := 0, rl_RetryCount := 0 \<rparr>
        else x)"

definition apply_intent :: "RolloutController \<Rightarrow> RolloutIntent \<Rightarrow> f64 \<Rightarrow> f64 \<Rightarrow> RolloutState \<Rightarrow> RolloutState \<Rightarrow> RolloutState" where
  \<comment> \<open>\<open>x\<close> is the state before the step, \<open>next\<close> the one with the new mode\<close>
  "apply_intent r i queuePressure backlog x next =
    (let newCap = rampCap r (rl_CapacityActive x) (ri_Cap i) (rl_Mode next) queuePressure backlog;
         delta = newCap - rl_CapacityActive x
     in next\<lparr> rl_IntentQueue := [], rl_CapacityActive := newCap,
             rl_RetryActive := ramp_toward (rc_RetryEnableRamp r) (rc_RetryDisableRamp r) (rc_Dt r) (ri_Retry i) (rl_RetryActive x),
             rl_CacheActive := ramp_toward (rc_CacheEnableRamp r) (rc_CacheDisableRamp r) (rc_Dt r) (ri_Cache i) (rl_CacheActive x),
             rl_WarmupReadiness := warmupNext r delta x, rl_ConfigLag := lagNext r delta x \<rparr>)"

definition Step_rollout :: "RolloutController \<Rightarrow> RolloutState \<Rightarrow> RolloutIntent \<Rightarrow> f64 \<Rightarrow> f64 \<Rightarrow> f64 \<Rightarrow> RolloutState" where
  "Step_rollout r x intent backlog topology infraLoad =
    (let next = enqueue_intent r intent backlog topology x;
         queuePressure = f64_of_int (int (length (rl_IntentQueue next))) / f64_of_int (rc_QueueMax r);
         next = next\<lparr> rl_Mode := modeNext r backlog queuePressure \<rparr>
     in if rl_IntentQueue next = [] then next
        else finish_rollout r infraLoad
          (apply_intent r (last (rl_IntentQueue next)) queuePressure backlog x next))"

definition SetPacingModifier :: "f64 \<Rightarrow> RolloutController \<Rightarrow> RolloutController" where
  "SetPacingModifier d r = (if 0 < d then r\<lparr> rc_PaceModifier := d \<rparr> else r)"

definition StepAdaptive ::
  "RolloutController \<Rightarrow> RolloutState \<Rightarrow> MPCControl \<Rightarrow> f64 \<Rightarrow> f64 \<Rightarrow> f64 \<Rightarrow> f64 \<Rightarrow> RolloutController \<times> RolloutState" where
  \<comment> \<open>the arguments \<open>override\<close> and \<open>time\<close> are not read\<close>
  "StepAdaptive r x ctrl confidence backlog stabilityPressure infraLoad =
    (let intent = \<lparr> ri_Cap = mc_CapacityTarget ctrl, ri_Retry = mc_RetryFactor ctrl, ri_Cache = mc_CacheRelief ctrl,
           ri_SLAWeight = 1 + stabilityPressure, ri_CostWeight = 1 - fl 0.5 * confidence,
           ri_TopoImpact = fl 0.5 + fl 0.5 * stabilityPressure \<rparr>
     in if 0 < rc_PaceModifier r
        then let savedUp = rc_CapRampUpNormal r; savedEmg = rc_CapRampUpEmergency r; savedDown = rc_CapRampDown r;
                 result = Step_rollout r x intent backlog stabilityPressure infraLoad
          in (r\<lparr> rc_CapRampUpNormal := savedUp, rc_CapRampUpEmergency := savedEmg, rc_CapRampDown := savedDown \<rparr>, result)
        else (r, Step_rollout r x intent backlog stabilityPressure infraLoad))"

section \<open>What a step guarantees\<close>

lemma Step_rollout_queue: "rl_IntentQueue (Step_rollout r x intent backlog topology infraLoad) = []"
  by (simp add: Step_rollout_def finish_rollout_def apply_intent_def Let_def)

lemma unpaced [simp]:
  "enqueue_intent (r\<lparr> rc_PaceModifier := d \<rparr>) i b t x = enqueue_intent r i b t x"
  "modeNext (r\<lparr> rc_PaceModifier := d \<rparr>) b q = modeNext r b q"
  "ramp_rate (r\<lparr> rc_PaceModifier := d \<rparr>) e m q b = ramp_rate r e m q b"
  "warmupNext (r\<lparr> rc_PaceModifier := d \<rparr>) e x = warmupNext r e x"
  "lagNext (r\<lparr> rc_PaceModifier := d \<rparr>) e x = lagNext r e x"
  "successProb (r\<lparr> rc_PaceModifier := d \<rparr>) l = successProb r l"
  by (simp_all add: enqueue_intent_def modeNext_def ramp_rate_def warmupNext_def lagNext_def successProb_def Let_def
      cong: if_cong)

lemma unpaced_step [simp]:
  "rampCap (r\<lparr> rc_PaceModifier := d \<rparr>) a t m q b = rampCap r a t m q b"
  "finish_rollout (r\<lparr> rc_PaceModifier := d \<rparr>) l x = finish_rollout r l x"
  by (simp_all add: rampCap_def finish_rollout_def Let_def cong: if_cong)

lemma unpaced_intent [simp]:
  "apply_intent (r\<lparr> rc_PaceModifier := d \<rparr>) i q b x n = apply_intent r i q b x n"
  by (simp add: apply_intent_def Let_def)

lemma Step_rollout_unpaced:
  "Step_rollout (r\<lparr> rc_PaceModifier := d \<rparr>) x intent backlog topology infraLoad =
   Step_rollout r x intent backlog topology infraLoad"
  by (simp add: Step_rollout_def Let_def cong: if_cong)

lemma StepAdaptive_controller: "fst (StepAdaptive r x ctrl confidence backlog pressure infraLoad) = r"
  by (simp add: StepAdaptive_def Let_def)

text \<open>
  Damping does not slow the rollout: whatever pace modifier is set, a step changes the actuators
  in exactly the same way, and the controller it leaves differs from the one it got in nothing.
\<close>

theorem pacing_has_no_effect:
  "snd (StepAdaptive (SetPacingModifier d r) x ctrl confidence backlog pressure infraLoad) =
     snd (StepAdaptive r x ctrl confidence backlog pressure infraLoad) \<and>
   fst (StepAdaptive r x ctrl confidence backlog pressure infraLoad) = r"
  by (simp add: StepAdaptive_def SetPacingModifier_def Step_rollout_unpaced Let_def)

text \<open>Ramping: retries and the cache move in every step, even when they are where the plan wants them.\<close>

lemma ramp_moves:
  assumes "fl u = Fin a" "fl d = Fin b" "1 / 100 \<le> a" "a \<le> 1" "1 / 100 \<le> b" "b \<le> 1" "- 1000 \<le> x" "x \<le> 1000"
  shows "\<exists>y. ramp_toward (fl u) (fl d) 1 t (Fin x) = Fin y \<and> (if Fin x < t then x < y else y < x)"
proof -
  obtain a' where a': "fl (a * 1) = Fin a'" "a - 1 / 100000 \<le> a'" "a' \<le> a + 1 / 100000"
    using fl_close [of "a * 1"] assms by auto
  obtain b' where b': "fl (b * 1) = Fin b'" "b - 1 / 100000 \<le> b'" "b' \<le> b + 1 / 100000"
    using fl_close [of "b * 1"] assms by auto
  obtain y where y: "fl (x + a') = Fin y" "x + a' - 1 / 100000 \<le> y" using fl_close [of "x + a'"] assms a' by auto
  obtain z where z: "fl (x - b') = Fin z" "z \<le> x - b' + 1 / 100000" using fl_close [of "x - b'"] assms b' by auto
  have "x < y" "z < x" using y(2) z(2) a'(2) b'(2) assms(3,5) by linarith+
  then show ?thesis
    using assms(1,2) a'(1) b'(1) y(1) z(1) by (simp add: ramp_toward_def one_f64_def minus_f64_def)
qed

lemma Step_rollout_retry:
  assumes "0 < rc_QueueMax r" "rl_IntentQueue x = []"
  shows "rl_RetryActive (Step_rollout r x i b t l) =
    ramp_toward (rc_RetryEnableRamp r) (rc_RetryDisableRamp r) (rc_Dt r) (ri_Retry i) (rl_RetryActive x)"
  using assms by (simp add: Step_rollout_def finish_rollout_def apply_intent_def enqueue_intent_def Let_def)

definition runtime_rollout :: "f64 \<Rightarrow> RolloutController" where
  \<comment> \<open>as \<open>ensureService\<close> configures it\<close>
  "runtime_rollout tickSec =
    \<lparr> rc_Dt = tickSec, rc_CapRampUpNormal = fl 2, rc_CapRampUpEmergency = fl 8, rc_CapRampDown = fl 0.4,
      rc_RetryEnableRamp = fl 0.5, rc_RetryDisableRamp = fl 0.3, rc_CacheEnableRamp = fl 0.4, rc_CacheDisableRamp = fl 0.3,
      rc_WarmupTau = 1, rc_ConfigLagTau = fl 2, rc_QueueMax = 16, rc_QueuePressureRampGain = fl 0.5,
      rc_EmergencyBacklog = fl 300, rc_DegradedBacklog = fl 150, rc_RolloutTimeout = fl 2 * tickSec, rc_MaxRetries = 3,
      rc_SuccessProbBase = fl 0.95, rc_InfraFailureGain = fl 0.4, rc_PaceModifier = 0 \<rparr>"

text \<open>
  The retry actuator of the running system never settles: with the configured ramps and ticks of a
  second, a step moves it strictly towards a higher target and strictly down otherwise, also
  when it is exactly at its target, so a target of zero drives it below zero.
\<close>

theorem retry_never_settles:
  assumes "rl_IntentQueue x = []" "rl_RetryActive x = Fin a" "- 1000 \<le> a" "a \<le> 1000"
  shows "\<exists>y. rl_RetryActive (Step_rollout (runtime_rollout 1) x i b t l) = Fin y \<and> (if Fin a < ri_Retry i then a < y else y < a)"
proof -
  obtain u where u: "fl 0.5 = Fin u" "0.5 - 1 / 100000 \<le> u" "u \<le> 0.5 + 1 / 100000" using fl_close [of "0.5"] by auto
  obtain d where d: "fl 0.3 = Fin d" "0.3 - 1 / 100000 \<le> d" "d \<le> 0.3 + 1 / 100000" using fl_close [of "0.3"] by auto
  have "1 / 100 \<le> u" "u \<le> 1" "1 / 100 \<le> d" "d \<le> 1" using u d by auto
  from ramp_moves [OF u(1) d(1) this assms(3,4), of "ri_Retry i"] show ?thesis
    using assms(1,2) by (simp add: Step_rollout_retry runtime_rollout_def)
qed

definition idle_intent :: RolloutIntent where
  "idle_intent = \<lparr> ri_Cap = 1, ri_Retry = 0, ri_Cache = 0, ri_SLAWeight = 1, ri_CostWeight = 1, ri_TopoImpact = 0 \<rparr>"

theorem retry_never_settles_witness:
  "\<exists>y. rl_RetryActive (Step_rollout (runtime_rollout 1) zero_rollout idle_intent 0 0 0) = Fin y \<and> y < 0"
  using retry_never_settles [of zero_rollout 0 idle_intent 0 0 0]
  by (auto simp: zero_rollout_def idle_intent_def zero_f64_def)

end
