(* ===== verification/AutoIdent.thy ===== *)
theory AutoIdent
  imports AutoPredictor
begin

text \<open>
  \<open>internal/autopilot/identification.go\<close>: the estimation of the arrivals (two averages, a blend, a
  jump detector on a running variance), the burst energy, the disturbance, the confidence in the
  model, and the signals the other layers are tuned with.  The strategy interface is a
  datatype of its two implementations.
\<close>

fun math_Log1p :: "f64 \<Rightarrow> f64" where
  "math_Log1p (Fin r) = (if r < - 1 then NaN else if r = - 1 then NInf else fl (ln (1 + r)))"
| "math_Log1p PInf = PInf"
| "math_Log1p _ = NaN"

record IdentificationState =
  id_ArrivalFast :: f64
  id_ArrivalSlow :: f64
  id_ArrivalBlendCoef :: f64
  id_ArrivalEstimate :: f64
  id_ArrivalVar :: f64
  id_ArrivalWelfordM :: f64
  id_ArrivalWelfordV :: f64
  id_BurstEnergy :: f64
  id_DisturbNoise :: f64
  id_ModelDrift :: f64
  id_ReliabilityUp :: f64
  id_ReliabilityDown :: f64
  id_QueueErr :: f64
  id_LatErr :: f64
  id_ModelConfidence :: f64
  id_ArrivalUpper :: f64
  id_SeasonalLoadMemory :: f64
  id_StabilityPressure :: f64

definition zero_identification :: IdentificationState where
  "zero_identification =
    \<lparr> id_ArrivalFast = 0, id_ArrivalSlow = 0, id_ArrivalBlendCoef = 0, id_ArrivalEstimate = 0, id_ArrivalVar = 0,
      id_ArrivalWelfordM = 0, id_ArrivalWelfordV = 0, id_BurstEnergy = 0, id_DisturbNoise = 0, id_ModelDrift = 0,
      id_ReliabilityUp = 0, id_ReliabilityDown = 0, id_QueueErr = 0, id_LatErr = 0, id_ModelConfidence = 0,
      id_ArrivalUpper = 0, id_SeasonalLoadMemory = 0, id_StabilityPressure = 0 \<rparr>"

record IdentificationSignals =
  ig_MPCVarianceScale :: f64
  ig_SafetyMarginScale :: f64
  ig_RolloutTrustScale :: f64
  ig_DampingFactor :: f64

datatype ArrivalEstimator = LegacyArrivalEstimator | StatisticalArrivalEstimator f64 f64
  \<comment> \<open>the arguments are \<open>SigmaMultiplier\<close> and \<open>NoiseFloorRatio\<close>\<close>

record IdentificationEngine =
  ie_Dt :: f64
  ie_FastGain :: f64
  ie_SlowGain :: f64
  ie_BlendGain :: f64
  ie_VarGain :: f64
  ie_BurstGain :: f64
  ie_BurstDecay :: f64
  ie_BurstCap :: f64
  ie_NoiseGain :: f64
  ie_DriftGain :: f64
  ie_BaseConfidenceFloor :: f64
  ie_ConfidenceGain :: f64
  ie_ReliabilityGain :: f64
  ie_InfraSensitivity :: f64
  ie_SLAWeightQueue :: f64
  ie_SLAWeightLatency :: f64
  ie_EVTFactor :: f64
  ie_SeasonalGain :: f64
  ie_DampingGain :: f64
  ie_ArrivalStrategy :: "ArrivalEstimator option"

section \<open>Arrivals\<close>

definition track :: "IdentificationEngine \<Rightarrow> f64 \<Rightarrow> IdentificationState \<Rightarrow> IdentificationState" where
  \<comment> \<open>the fast and the slow average\<close>
  "track e measured s =
    s\<lparr> id_ArrivalFast := id_ArrivalFast s + ie_FastGain e * (measured - id_ArrivalFast s),
       id_ArrivalSlow := id_ArrivalSlow s + ie_SlowGain e * (measured - id_ArrivalSlow s) \<rparr>"

definition jump_to :: "bool \<Rightarrow> f64 \<Rightarrow> IdentificationState \<Rightarrow> IdentificationState" where
  "jump_to jump measured s = (if jump then s\<lparr> id_ArrivalFast := measured, id_ArrivalSlow := measured \<rparr> else s)"

definition blend :: "IdentificationEngine \<Rightarrow> f64 \<Rightarrow> IdentificationState \<Rightarrow> IdentificationState" where
  \<comment> \<open>\<open>fErr\<close> is the error of the fast average before its update\<close>
  "blend e fErr s =
    (let blendError = \<bar>id_ArrivalFast s - id_ArrivalSlow s\<bar>;
         coef = id_ArrivalBlendCoef s + ie_BlendGain e * (blendError - id_ArrivalBlendCoef s);
         alpha = coef / (1 + coef)
     in s\<lparr> id_ArrivalBlendCoef := coef,
          id_ArrivalEstimate := alpha * id_ArrivalFast s + (1 - alpha) * id_ArrivalSlow s,
          id_ArrivalVar := (1 - ie_VarGain e) * id_ArrivalVar s + ie_VarGain e * fErr * fErr \<rparr>)"

definition welford :: "IdentificationEngine \<Rightarrow> f64 \<Rightarrow> IdentificationState \<Rightarrow> IdentificationState" where
  "welford e measured s =
    (let m = (if id_ArrivalWelfordM s = 0 then measured else id_ArrivalWelfordM s); diff = measured - m
     in s\<lparr> id_ArrivalWelfordM := m + ie_VarGain e * diff,
          id_ArrivalWelfordV := (1 - ie_VarGain e) * id_ArrivalWelfordV s + ie_VarGain e * diff * diff \<rparr>)"

definition legacy_jump :: "f64 \<Rightarrow> IdentificationState \<Rightarrow> bool" where
  "legacy_jump measured s \<longleftrightarrow> id_ArrivalSlow s * fl 1.5 < measured \<and> fl 10 < measured"

definition sigma_jump :: "f64 \<Rightarrow> f64 \<Rightarrow> f64 \<Rightarrow> IdentificationState \<Rightarrow> bool" where
  "sigma_jump sigmas ratio measured s \<longleftrightarrow>
    id_ArrivalSlow s + sigmas * math_Sqrt (math_Max (id_ArrivalWelfordV s) (math_Max (id_ArrivalEstimate s * ratio) 1)) < measured"

definition Update_arrival :: "ArrivalEstimator \<Rightarrow> IdentificationEngine \<Rightarrow> f64 \<Rightarrow> IdentificationState \<Rightarrow> IdentificationState" where
  "Update_arrival strategy e measured s =
    (let fErr = measured - id_ArrivalFast s
     in case strategy of
         LegacyArrivalEstimator \<Rightarrow>
           (let t = track e measured s in blend e fErr (jump_to (legacy_jump measured t) measured t))
       | StatisticalArrivalEstimator sigmas ratio \<Rightarrow>
           (let t = track e measured (welford e measured s)
            in blend e fErr (jump_to (sigma_jump sigmas ratio measured t) measured t)))"

definition updateArrival :: "IdentificationEngine \<Rightarrow> f64 \<Rightarrow> IdentificationState \<Rightarrow> IdentificationState" where
  "updateArrival e measured s =
    Update_arrival (case ie_ArrivalStrategy e of None \<Rightarrow> LegacyArrivalEstimator | Some st \<Rightarrow> st) e measured s"

section \<open>The other estimates\<close>

definition adaptive_decay :: "IdentificationEngine \<Rightarrow> IdentificationState \<Rightarrow> f64" where
  "adaptive_decay e s =
    (let ratio = (if 0 < id_ArrivalSlow s then id_ArrivalFast s / id_ArrivalSlow s else 1);
         d = (if fl 1.05 < ratio then ie_BurstDecay e / (ratio * ratio) else ie_BurstDecay e * fl 2);
         d = (if 1 < d then 1 else d)
     in if d < fl 0.01 then fl 0.01 else d)"

definition updateBurst :: "IdentificationEngine \<Rightarrow> f64 \<Rightarrow> IdentificationState \<Rightarrow> IdentificationState" where
  "updateBurst e measured s =
    (let relativeFloor = math_Max (id_ArrivalEstimate s * fl 0.10) 1;
         denom = math_Max relativeFloor (math_Sqrt (id_ArrivalVar s + fl (1 / 1000000)));
         b = math_Max 0 ((measured - id_ArrivalEstimate s) / denom);
         energy = (1 - adaptive_decay e s) * id_BurstEnergy s + ie_BurstGain e * b
     in s\<lparr> id_BurstEnergy := (if ie_BurstCap e < energy then ie_BurstCap e else energy) \<rparr>)"

definition updateDisturbance :: "IdentificationEngine \<Rightarrow> f64 \<Rightarrow> IdentificationState \<Rightarrow> IdentificationState" where
  "updateDisturbance e residual s =
    s\<lparr> id_DisturbNoise := id_DisturbNoise s + ie_NoiseGain e * (\<bar>residual\<bar> - id_DisturbNoise s),
       id_ModelDrift := id_ModelDrift s + ie_DriftGain e * (residual - id_ModelDrift s) \<rparr>"

definition updateErrors :: "f64 \<Rightarrow> f64 \<Rightarrow> IdentificationState \<Rightarrow> IdentificationState" where
  "updateErrors qErr lErr s = s\<lparr> id_QueueErr := qErr, id_LatErr := lErr \<rparr>"

definition confidenceFloor :: "IdentificationEngine \<Rightarrow> f64 \<Rightarrow> f64 \<Rightarrow> f64" where
  "confidenceFloor e slaPressure maturity =
    ie_BaseConfidenceFloor e * (1 + slaPressure) * (1 + (1 - maturity))"

definition updateConfidence ::
  "IdentificationEngine \<Rightarrow> f64 \<Rightarrow> f64 \<Rightarrow> f64 \<Rightarrow> f64 \<Rightarrow> f64 \<Rightarrow> IdentificationState \<Rightarrow> IdentificationState" where
  "updateConfidence e mpcQuality safetyRate queuePressure slaPressure maturity s =
    (let err = ie_SLAWeightQueue e * \<bar>id_QueueErr s\<bar> + ie_SLAWeightLatency e * \<bar>id_LatErr s\<bar>;
         loss = err / (1 + err);
         external = fl 0.4 * mpcQuality + fl 0.3 * (1 - safetyRate) + fl 0.3 * (1 - queuePressure);
         target = (1 - loss) * external
     in s\<lparr> id_ModelConfidence := math_Max (confidenceFloor e slaPressure maturity)
            ((1 - ie_ConfidenceGain e) * id_ModelConfidence s + ie_ConfidenceGain e * target) \<rparr>)"

definition updateReliability :: "IdentificationEngine \<Rightarrow> bool \<Rightarrow> f64 \<Rightarrow> f64 \<Rightarrow> IdentificationState \<Rightarrow> IdentificationState" where
  "updateReliability e success scaleDelta infraLoad s =
    (let v = (if success then 1 else 0);
         w = 1 / (1 + ie_InfraSensitivity e * infraLoad);
         learn = (\<lambda>x. (1 - ie_ReliabilityGain e) * x + ie_ReliabilityGain e * v * w)
     in if 0 \<le> scaleDelta then s\<lparr> id_ReliabilityUp := learn (id_ReliabilityUp s) \<rparr>
        else s\<lparr> id_ReliabilityDown := learn (id_ReliabilityDown s) \<rparr>)"

definition updateEnvelope :: "IdentificationEngine \<Rightarrow> IdentificationState \<Rightarrow> IdentificationState" where
  "updateEnvelope e s =
    s\<lparr> id_ArrivalUpper := id_ArrivalEstimate s +
         ie_EVTFactor e * math_Sqrt (id_ArrivalVar s + fl (1 / 1000000)) * (1 + math_Log1p (id_BurstEnergy s)) \<rparr>"

definition updateSeasonal :: "IdentificationEngine \<Rightarrow> f64 \<Rightarrow> IdentificationState \<Rightarrow> IdentificationState" where
  "updateSeasonal e load' s =
    s\<lparr> id_SeasonalLoadMemory := (1 - ie_SeasonalGain e) * id_SeasonalLoadMemory s + ie_SeasonalGain e * load' \<rparr>"

definition updateDamping :: "IdentificationEngine \<Rightarrow> IdentificationState \<Rightarrow> IdentificationState" where
  "updateDamping e s =
    (let instability = \<bar>id_QueueErr s\<bar> + \<bar>id_LatErr s\<bar>
     in s\<lparr> id_StabilityPressure := (1 - ie_DampingGain e) * id_StabilityPressure s + ie_DampingGain e * math_Tanh instability \<rparr>)"

section \<open>Sanitising and the step\<close>

definition finiteOrZero :: "f64 \<Rightarrow> f64" where
  "finiteOrZero v = (if math_IsNaN v \<or> math_IsInf v then 0 else v)"

definition finiteNonNegative :: "f64 \<Rightarrow> f64" where
  "finiteNonNegative v = (let v = finiteOrZero v in if v < 0 then 0 else v)"

definition finiteClamp :: "f64 \<Rightarrow> f64 \<Rightarrow> f64 \<Rightarrow> f64" where
  "finiteClamp v lo hi = (let v = finiteOrZero v in if v < lo then lo else if hi < v then hi else v)"

definition finiteClamp01 :: "f64 \<Rightarrow> f64" where
  "finiteClamp01 v = finiteClamp v 0 1"

definition sanitizeIdentificationState :: "IdentificationState \<Rightarrow> IdentificationState" where
  "sanitizeIdentificationState s =
    s\<lparr> id_ArrivalFast := finiteNonNegative (id_ArrivalFast s),
       id_ArrivalSlow := finiteNonNegative (id_ArrivalSlow s),
       id_ArrivalBlendCoef := finiteNonNegative (id_ArrivalBlendCoef s),
       id_ArrivalEstimate := finiteNonNegative (id_ArrivalEstimate s),
       id_ArrivalVar := finiteNonNegative (id_ArrivalVar s),
       id_BurstEnergy := finiteNonNegative (id_BurstEnergy s),
       id_DisturbNoise := finiteOrZero (id_DisturbNoise s),
       id_ModelDrift := finiteOrZero (id_ModelDrift s),
       id_ReliabilityUp := finiteClamp01 (id_ReliabilityUp s),
       id_ReliabilityDown := finiteClamp01 (id_ReliabilityDown s),
       id_QueueErr := finiteOrZero (id_QueueErr s),
       id_LatErr := finiteOrZero (id_LatErr s),
       id_ModelConfidence := finiteClamp01 (id_ModelConfidence s),
       id_ArrivalUpper := finiteNonNegative (id_ArrivalUpper s),
       id_SeasonalLoadMemory := finiteClamp (id_SeasonalLoadMemory s) 0 (fl 2),
       id_StabilityPressure := finiteClamp (id_StabilityPressure s) 0 (fl 2) \<rparr>"

definition dead_zone :: "f64 \<Rightarrow> f64" where
  "dead_zone x = (if x < fl 0.15 then 0 else x)"

definition signals :: "IdentificationState \<Rightarrow> IdentificationSignals" where
  "signals s =
    (let conf = finiteClamp01 (id_ModelConfidence s);
         burst = dead_zone (finiteNonNegative (id_BurstEnergy s));
         noise = dead_zone (finiteNonNegative \<bar>id_DisturbNoise s\<bar>);
         seasonal = finiteClamp (id_SeasonalLoadMemory s) 0 (fl 2);
         pressure = finiteClamp (id_StabilityPressure s) 0 (fl 2)
     in \<lparr> ig_MPCVarianceScale = math_Min (fl 3) (1 + fl 0.4 * burst + fl 0.6 * noise),
          ig_SafetyMarginScale = math_Min (fl 3) (1 + (1 - conf) + seasonal),
          ig_RolloutTrustScale = fl 0.3 + fl 0.7 * math_Max (id_ReliabilityUp s) (id_ReliabilityDown s),
          ig_DampingFactor = 1 + pressure \<rparr>)"

record identification_input =
  ii_measuredArrival :: f64
  ii_queueErr :: f64
  ii_latErr :: f64
  ii_residual :: f64
  ii_mpcQuality :: f64
  ii_safetyRate :: f64
  ii_queuePressure :: f64
  ii_slaPressure :: f64
  ii_maturity :: f64
  ii_rolloutSuccess :: bool
  ii_scaleDelta :: f64
  ii_infraLoad :: f64
  ii_totalLoad :: f64
  ii_pdeDensity :: f64
  ii_stabilityMargin :: f64

definition shockwaveMultiplier :: "f64 \<Rightarrow> f64 \<Rightarrow> f64" where
  "shockwaveMultiplier pdeDensity stabilityMargin =
    (let m = (if fl 0.8 < pdeDensity then 1 + (pdeDensity - fl 0.8) * fl 2 else 1);
         m = (if 0 < stabilityMargin \<and> stabilityMargin < fl 0.2 then m + (fl 0.2 - stabilityMargin) * fl 5 else m)
     in math_Min m (fl 3))"

definition dynamic_engine :: "f64 \<Rightarrow> IdentificationEngine \<Rightarrow> IdentificationEngine" where
  "dynamic_engine m e =
    e\<lparr> ie_FastGain := math_Min (ie_FastGain e * m) 1, ie_SlowGain := math_Min (ie_SlowGain e * m) 1,
       ie_VarGain := math_Min (ie_VarGain e * m) 1 \<rparr>"

definition estimate :: "IdentificationEngine \<Rightarrow> identification_input \<Rightarrow> IdentificationState \<Rightarrow> IdentificationState" where
  \<comment> \<open>the nine updates, in the order of \<open>Step\<close>\<close>
  "estimate e i s =
    (let s = updateArrival e (ii_measuredArrival i) s;
         s = updateBurst e (ii_measuredArrival i) s;
         s = updateDisturbance e (ii_residual i) s;
         s = updateErrors (ii_queueErr i) (ii_latErr i) s;
         s = updateConfidence e (ii_mpcQuality i) (ii_safetyRate i) (ii_queuePressure i) (ii_slaPressure i) (ii_maturity i) s;
         s = updateReliability e (ii_rolloutSuccess i) (ii_scaleDelta i) (ii_infraLoad i) s;
         s = updateEnvelope e s;
         s = updateSeasonal e (ii_totalLoad i) s
     in updateDamping e s)"

definition Step_identification ::
  "IdentificationEngine \<Rightarrow> identification_input \<Rightarrow> IdentificationState \<Rightarrow> IdentificationState \<times> IdentificationSignals" where
  "Step_identification e i s =
    (let dyn = dynamic_engine (shockwaveMultiplier (ii_pdeDensity i) (ii_stabilityMargin i)) e;
         next = sanitizeIdentificationState (estimate dyn i s)
     in (next, signals next))"

section \<open>The estimates stay in range\<close>

lemma ident_finiteOrZero_finite: "finite64 (finiteOrZero v)"
  by (cases v) (simp_all add: finiteOrZero_def math_IsNaN_def math_IsInf_def zero_f64_def)

lemma finiteNonNegative_ok: "finite64 (finiteNonNegative v) \<and> 0 \<le> finiteNonNegative v"
  by (cases v) (simp_all add: finiteNonNegative_def finiteOrZero_def math_IsNaN_def math_IsInf_def zero_f64_def)

lemma finiteClamp_btw: "lo \<le> 0 \<Longrightarrow> 0 \<le> hi \<Longrightarrow> fbtw lo (finiteClamp v (Fin lo) (Fin hi)) hi"
  by (cases v) (auto simp: finiteClamp_def finiteOrZero_def math_IsNaN_def math_IsInf_def zero_f64_def Let_def)

lemma finiteClamp01_btw: "fbtw 0 (finiteClamp01 v) 1"
  using finiteClamp_btw [of 0 1] by (simp add: finiteClamp01_def zero_f64_def one_f64_def)

lemma finiteClamp2_btw: "fbtw 0 (finiteClamp v 0 (Fin 2)) 2"
  using finiteClamp_btw [of 0 2] by (simp add: zero_f64_def)

definition sane :: "f64 \<Rightarrow> bool" where
  "sane x \<longleftrightarrow> finite64 x \<and> 0 \<le> x"

definition identification_ok :: "IdentificationState \<Rightarrow> bool" where
  "identification_ok s \<longleftrightarrow>
    sane (id_ArrivalFast s) \<and> sane (id_ArrivalSlow s) \<and> sane (id_ArrivalBlendCoef s) \<and> sane (id_ArrivalEstimate s) \<and>
    sane (id_ArrivalVar s) \<and> sane (id_BurstEnergy s) \<and> sane (id_ArrivalUpper s) \<and> finite64 (id_DisturbNoise s) \<and>
    finite64 (id_ModelDrift s) \<and> finite64 (id_QueueErr s) \<and> finite64 (id_LatErr s) \<and> fbtw 0 (id_ReliabilityUp s) 1 \<and>
    fbtw 0 (id_ReliabilityDown s) 1 \<and> fbtw 0 (id_ModelConfidence s) 1 \<and> fbtw 0 (id_SeasonalLoadMemory s) 2 \<and>
    fbtw 0 (id_StabilityPressure s) 2"

definition signals_ok :: "IdentificationSignals \<Rightarrow> bool" where
  "signals_ok g \<longleftrightarrow> fbtw 1 (ig_MPCVarianceScale g) 3 \<and> fbtw 1 (ig_SafetyMarginScale g) 3 \<and> fbtw 1 (ig_DampingFactor g) 3"

lemma sanitize_ok: "identification_ok (sanitizeIdentificationState s)"
  by (simp add: identification_ok_def sanitizeIdentificationState_def sane_def finiteNonNegative_ok ident_finiteOrZero_finite
      finiteClamp01_btw finiteClamp2_btw)

lemma above_one: "f_nonneg x \<Longrightarrow> f_nonneg y \<Longrightarrow> fbtw 1 (math_Min (Fin 3) (1 + x + y)) 3"
proof -
  assume x: "f_nonneg x" and y: "f_nonneg y"
  have up: "Fin 1 \<le> a + b" if "Fin 1 \<le> a" "f_nonneg b" for a b
    using that fl_mono [of 1 "r + s" for r s] by (cases a; cases b) auto
  have "Fin 1 \<le> 1 + x" using x by (intro up) (simp_all add: one_f64_def)
  then have "Fin 1 \<le> 1 + x + y" using y by (rule up)
  then show ?thesis by (cases "1 + x + y") (auto simp: math_Min_def)
qed

lemma signals_range: "signals_ok (signals s)"
proof -
  have g: "f_nonneg (fl c * dead_zone (finiteNonNegative v))" if "0 < c" "fl c = Fin r" "0 < r" for c v r
  proof -
    have "f_nonneg (dead_zone (finiteNonNegative v))"
      using finiteNonNegative_ok [of v] by (cases "finiteNonNegative v") (auto simp: dead_zone_def zero_f64_def)
    then show ?thesis using that by (cases "dead_zone (finiteNonNegative v)") (auto intro!: fl_nonneg)
  qed
  obtain a where a: "fl 0.4 = Fin a" "0.4 - 1 / 100000 \<le> a" using fl_close [of "0.4"] by auto
  obtain b where b: "fl 0.6 = Fin b" "0.6 - 1 / 100000 \<le> b" using fl_close [of "0.6"] by auto
  have "fbtw 1 (ig_MPCVarianceScale (signals s)) 3"
    using above_one [OF g [of "0.4" a] g [of "0.6" b]] a b by (simp add: signals_def Let_def)
  moreover have "f_nonneg (1 - finiteClamp01 v)" for v
  proof -
    have "fbtw 0 (1 - finiteClamp01 v) 1"
      by (rule fbtw_diff [OF _ finiteClamp01_btw, where a = 1 and b = 1]) (simp_all add: one_f64_def)
    then show ?thesis by (rule fbtw_nonneg)
  qed
  then have "fbtw 1 (ig_SafetyMarginScale (signals s)) 3"
    using above_one fbtw_nonneg [OF finiteClamp2_btw] by (simp add: signals_def Let_def)
  moreover have "fbtw 1 (1 + finiteClamp v 0 (Fin 2)) 3" for v
    by (rule fbtw_add [OF _ finiteClamp2_btw, where a = 1 and b = 1]) (simp_all add: one_f64_def)
  then have "fbtw 1 (ig_DampingFactor (signals s)) 3" by (simp add: signals_def Let_def)
  ultimately show ?thesis by (simp add: signals_ok_def)
qed

text \<open>
  Identification absorbs bad measurements: whatever it is given (infinite and NaN values
  included), in any state, its next estimates are finite and in their ranges and so are the
  signals it tunes the other layers with.
\<close>

theorem identification_in_range:
  "identification_ok (fst (Step_identification e i s)) \<and> signals_ok (snd (Step_identification e i s))"
  by (simp add: Step_identification_def sanitize_ok signals_range Let_def)

section \<open>The variance of the jump detector is not sanitised\<close>

lemma NaN_cmp [simp]: "\<not> (x :: f64) < NaN" "\<not> NaN < x" by (cases x; simp)+

lemma math_Max_NaN: "math_Max NaN x = (if x = PInf then PInf else NaN)" "math_Sqrt NaN = NaN"
  by (cases x; simp add: math_Max_def)+

definition deaf :: "IdentificationState \<Rightarrow> bool" where
  "deaf s \<longleftrightarrow> id_ArrivalWelfordV s = NaN \<and> id_ArrivalWelfordM s = NaN"

lemma welford_frames [simp]:
  "id_ArrivalWelfordV (updateDamping e s) = id_ArrivalWelfordV s"
  "id_ArrivalWelfordM (updateDamping e s) = id_ArrivalWelfordM s"
  "id_ArrivalWelfordV (updateSeasonal e y s) = id_ArrivalWelfordV s"
  "id_ArrivalWelfordM (updateSeasonal e y s) = id_ArrivalWelfordM s"
  "id_ArrivalWelfordV (updateEnvelope e s) = id_ArrivalWelfordV s"
  "id_ArrivalWelfordM (updateEnvelope e s) = id_ArrivalWelfordM s"
  "id_ArrivalWelfordV (updateReliability e b y z s) = id_ArrivalWelfordV s"
  "id_ArrivalWelfordM (updateReliability e b y z s) = id_ArrivalWelfordM s"
  "id_ArrivalWelfordV (updateConfidence e u v w x y s) = id_ArrivalWelfordV s"
  "id_ArrivalWelfordM (updateConfidence e u v w x y s) = id_ArrivalWelfordM s"
  "id_ArrivalWelfordV (updateErrors y z s) = id_ArrivalWelfordV s"
  "id_ArrivalWelfordM (updateErrors y z s) = id_ArrivalWelfordM s"
  "id_ArrivalWelfordV (updateDisturbance e y s) = id_ArrivalWelfordV s"
  "id_ArrivalWelfordM (updateDisturbance e y s) = id_ArrivalWelfordM s"
  "id_ArrivalWelfordV (updateBurst e y s) = id_ArrivalWelfordV s"
  "id_ArrivalWelfordM (updateBurst e y s) = id_ArrivalWelfordM s"
  "id_ArrivalWelfordV (sanitizeIdentificationState s) = id_ArrivalWelfordV s"
  "id_ArrivalWelfordM (sanitizeIdentificationState s) = id_ArrivalWelfordM s"
  "id_ArrivalWelfordV (track e y s) = id_ArrivalWelfordV s"
  "id_ArrivalWelfordM (track e y s) = id_ArrivalWelfordM s"
  "id_ArrivalWelfordV (jump_to b y s) = id_ArrivalWelfordV s"
  "id_ArrivalWelfordM (jump_to b y s) = id_ArrivalWelfordM s"
  "id_ArrivalWelfordV (blend e y s) = id_ArrivalWelfordV s"
  "id_ArrivalWelfordM (blend e y s) = id_ArrivalWelfordM s"
  by (simp_all add: updateDamping_def updateSeasonal_def updateEnvelope_def updateReliability_def updateConfidence_def
      updateErrors_def updateDisturbance_def updateBurst_def sanitizeIdentificationState_def track_def jump_to_def
      blend_def Let_def)

lemma NaN_arith [simp]:
  "x + NaN = (NaN :: f64)" "NaN + x = (NaN :: f64)" "x - NaN = (NaN :: f64)" "NaN - x = (NaN :: f64)"
  "x * NaN = (NaN :: f64)" "NaN * x = (NaN :: f64)"
  by (cases x; simp add: minus_f64_def)+

lemma welford_NaN:
  "x = NaN \<or> deaf s \<Longrightarrow> deaf (welford e x s)"
  by (auto simp: deaf_def welford_def Let_def zero_f64_def)

lemma deaf_step:
  assumes "ie_ArrivalStrategy e = Some (StatisticalArrivalEstimator k r)" "ii_measuredArrival i = NaN \<or> deaf s"
  shows "deaf (fst (Step_identification e i s))"
proof -
  have "ie_ArrivalStrategy (dynamic_engine m e) = ie_ArrivalStrategy e" for m by (simp add: dynamic_engine_def)
  with assms show ?thesis
    using welford_NaN [of "ii_measuredArrival i" s "dynamic_engine m e" for m]
    by (auto simp: Step_identification_def estimate_def updateArrival_def Update_arrival_def deaf_def Let_def)
qed

lemma sanitized_sane: "sane (id_ArrivalEstimate (fst (Step_identification e i s)))"
  using sanitize_ok by (simp add: Step_identification_def identification_ok_def Let_def)

primrec identify_run :: "IdentificationEngine \<Rightarrow> identification_input list \<Rightarrow> IdentificationState \<Rightarrow> IdentificationState" where
  "identify_run e [] s = s"
| "identify_run e (i # is) s = identify_run e is (fst (Step_identification e i s))"

lemma deaf_run:
  "ie_ArrivalStrategy e = Some (StatisticalArrivalEstimator k r) \<Longrightarrow> deaf s \<Longrightarrow> deaf (identify_run e is s)"
  by (induction "is" arbitrary: s) (simp_all add: deaf_step)

text \<open>
  One NaN measurement disables the statistical jump detector for good: the running mean and
  variance are the two fields the sanitiser forgets, so they stay NaN over every later
  sequence of measurements, and whatever arrival rate is then seen the detector never reports a
  jump.
\<close>

theorem jump_detector_deaf:
  assumes "ie_ArrivalStrategy e = Some (StatisticalArrivalEstimator k r)" "0 \<le> k" "ii_measuredArrival i = NaN"
  shows "id_ArrivalWelfordV (identify_run e is (fst (Step_identification e i s))) = NaN \<and>
    \<not> sigma_jump k r x (identify_run e is (fst (Step_identification e i s)))"
proof -
  let ?s = "identify_run e is (fst (Step_identification e i s))"
  have v: "id_ArrivalWelfordV ?s = NaN" using deaf_run [OF assms(1) deaf_step] assms by (simp add: deaf_def)
  moreover have "\<not> z + k * math_Sqrt (math_Max NaN y) < x" for y z
    using assms(2) by (cases k; cases z; cases x) (auto simp: math_Max_NaN zero_f64_def split: if_splits)
  ultimately show ?thesis by (simp add: sigma_jump_def)
qed

theorem jump_detector_deaf_witness: "\<exists>(e :: IdentificationEngine) (i :: identification_input). ie_ArrivalStrategy e = Some (StatisticalArrivalEstimator (Fin 3) (Fin 1)) \<and>
  (\<forall>x. \<not> sigma_jump (Fin 3) (Fin 1) x (identify_run e [] (fst (Step_identification e i zero_identification))))"
proof -
  obtain e :: IdentificationEngine where e: "ie_ArrivalStrategy e = Some (StatisticalArrivalEstimator (Fin 3) (Fin 1))"
    by (metis IdentificationEngine.select_convs(20))
  obtain i :: identification_input where i: "ii_measuredArrival i = NaN" by (metis identification_input.select_convs(1))
  show ?thesis using jump_detector_deaf [of e "Fin 3" "Fin 1" i "[]" zero_identification] e i by (auto simp: zero_f64_def)
qed

end
