(* ===== verification/SandboxScenario.thy ===== *)
theory SandboxScenario
  imports FloatSign GoTime "HOL-Library.Stream"
begin

text \<open>
  \<open>internal/sandbox\<close>, the traffic of an experiment: \<open>scenario_generator.go\<close> (a base arrival rate,
  the service state that reacts to it, retries, bursts, correlated noise and admission control)
  and \<open>load_profile.go\<close>.

  The seeded source answers \<open>Float64\<close> and \<open>NormFloat64\<close>; the model holds the answers to come of
  each kind as a stream.  A \<open>time.Duration\<close> is an \<open>int64\<close> and its sum wraps.  The generator's
  loop ends only if \<open>Step\<close> is positive, so it runs on fuel.
\<close>

section \<open>The generator\<close>

datatype ScenarioKind = ScenarioSteady | ScenarioSpike | ScenarioDiurnal | ScenarioRetryStorm | ScenarioBrownout

record ScenarioConfig =
  scf_BaseArrival :: f64
  scf_BaseService :: f64
  scf_Duration :: duration
  scf_Step :: duration
  scf_Seed :: int
  scf_NoiseStd :: f64
  scf_ARCoef :: f64
  scf_RetryGain :: f64
  scf_RetryDecay :: f64
  scf_RetryJitter :: f64
  scf_SaturationCap :: f64
  scf_BurstOnProb :: f64
  scf_BurstOffProb :: f64
  scf_ParetoAlpha :: f64
  scf_BurstCeiling :: f64
  scf_HeavyTailProb :: f64
  scf_Harmonics :: "f64 list"
  scf_PhaseDrift :: f64
  scf_ShockTimes :: "duration list"
  scf_ShockMag :: f64
  scf_RelaxTau :: f64
  scf_CapacityDrop :: f64
  scf_CollapseProb :: f64
  scf_RateLimit :: f64
  scf_ShedProb :: f64
  scf_BreakerThresh :: f64
  scf_FanoutBase :: f64
  scf_FanoutLoad :: f64
  scf_FanoutVar :: f64

record LoadPoint =
  lp_T :: duration
  lp_Arrival :: f64
  lp_Fanout :: f64

record Scenario =
  sn_Config :: ScenarioConfig
  sn_Trace :: "LoadPoint list"

record genState =
  gs_uniform :: "f64 stream"
  gs_normal :: "f64 stream"
  gs_prevNoise :: f64
  gs_backlog :: f64
  gs_serviceState :: f64
  gs_collapsed :: bool
  gs_burstState :: bool
  gs_retryClock :: f64
  gs_phases :: "f64 list"

definition draw_uniform :: "genState \<Rightarrow> f64 \<times> genState" where
  "draw_uniform s = (shd (gs_uniform s), s\<lparr> gs_uniform := stl (gs_uniform s) \<rparr>)"

definition draw_normal :: "genState \<Rightarrow> f64 \<times> genState" where
  "draw_normal s = (shd (gs_normal s), s\<lparr> gs_normal := stl (gs_normal s) \<rparr>)"

definition pi64 :: f64 where
  "pi64 = fl pi"

definition init_gen :: "ScenarioConfig \<Rightarrow> f64 stream \<Rightarrow> f64 stream \<Rightarrow> genState" where
  "init_gen cfg us ns =
    \<lparr> gs_uniform = sdrop (length (scf_Harmonics cfg)) us, gs_normal = ns, gs_prevNoise = 0, gs_backlog = 0,
      gs_serviceState = scf_BaseService cfg, gs_collapsed = False, gs_burstState = False, gs_retryClock = 0,
      gs_phases = map (\<lambda>u. u * fl 2 * pi64) (stake (length (scf_Harmonics cfg)) us) \<rparr>"

definition drift_phase :: "ScenarioConfig \<Rightarrow> f64 \<Rightarrow> nat \<Rightarrow> f64 \<times> genState \<Rightarrow> f64 \<times> genState" where
  \<comment> \<open>one harmonic of the diurnal curve\<close>
  "drift_phase cfg x i acc =
    (case acc of (tot, s) \<Rightarrow>
      (case draw_normal s of (z, s) \<Rightarrow>
        let freq = f64_of_int (int i + 1) * fl 2 * pi64 / f64_of_int (24 * 3600);
            p = gs_phases s ! i + scf_PhaseDrift cfg * z
        in (tot + scf_Harmonics cfg ! i * math_Sin (freq * x + p), s\<lparr> gs_phases := (gs_phases s)[i := p] \<rparr>)))"

definition shock_total :: "ScenarioConfig \<Rightarrow> duration \<Rightarrow> f64" where
  "shock_total cfg t =
    fold (\<lambda>st tot.
      if st \<le> t
      then tot + scf_ShockMag cfg * math_Exp (- (duration_Seconds t - duration_Seconds st) / scf_RelaxTau cfg)
      else tot) (scf_ShockTimes cfg) (scf_BaseArrival cfg)"

definition baseArrival :: "ScenarioConfig \<Rightarrow> ScenarioKind \<Rightarrow> duration \<Rightarrow> genState \<Rightarrow> f64 \<times> genState" where
  "baseArrival cfg kind t s =
    (case kind of
      ScenarioDiurnal \<Rightarrow>
        (case fold (drift_phase cfg (duration_Seconds t)) [0..<length (scf_Harmonics cfg)] (0, s) of
          (tot, s) \<Rightarrow> (scf_BaseArrival cfg + tot, s))
    | ScenarioSpike \<Rightarrow> (shock_total cfg t, s)
    | _ \<Rightarrow> (scf_BaseArrival cfg, s))"

definition gen_pressure :: "ScenarioConfig \<Rightarrow> genState \<Rightarrow> f64" where
  "gen_pressure cfg s = math_Tanh (gs_backlog s / scf_SaturationCap cfg)"

definition maybe_collapse :: "ScenarioConfig \<Rightarrow> f64 \<Rightarrow> genState \<Rightarrow> genState" where
  "maybe_collapse cfg pressure s =
    (if gs_collapsed s then s
     else case draw_uniform s of (u, s) \<Rightarrow> if u < scf_CollapseProb cfg * pressure then s\<lparr> gs_collapsed := True \<rparr> else s)"

definition serviceDynamics :: "ScenarioConfig \<Rightarrow> genState \<Rightarrow> f64 \<times> genState" where
  "serviceDynamics cfg s =
    (let pressure = gen_pressure cfg s;
         target = scf_BaseService cfg * (1 - scf_CapacityDrop cfg * pressure);
         s = maybe_collapse cfg pressure s;
         target = (if gs_collapsed s then target * fl 0.15 else target);
         next = (1 - fl 0.05) * gs_serviceState s + fl 0.05 * target;
         next = (if next < fl 0.05 * scf_BaseService cfg then fl 0.05 * scf_BaseService cfg else next)
     in (next, s\<lparr> gs_serviceState := next \<rparr>))"

definition retryProcess :: "ScenarioConfig \<Rightarrow> genState \<Rightarrow> f64 \<times> genState" where
  "retryProcess cfg s =
    (let pressure = gen_pressure cfg s;
         s = s\<lparr> gs_retryClock := gs_retryClock s - 1 \<rparr>
     in if 0 < gs_retryClock s then (0, s)
        else case draw_normal s of (z, s) \<Rightarrow>
          let interval = math_Exp (- pressure * scf_RetryDecay cfg);
              jitter = 1 + scf_RetryJitter cfg * z;
              success = math_Exp (- pressure)
          in (scf_RetryGain cfg * pressure * (1 - success), s\<lparr> gs_retryClock := interval * jitter * fl 10 \<rparr>))"

definition burst_switch :: "ScenarioConfig \<Rightarrow> genState \<Rightarrow> genState" where
  "burst_switch cfg s =
    (case draw_uniform s of (u, s') \<Rightarrow>
      if gs_burstState s
      then if u < scf_BurstOffProb cfg then s'\<lparr> gs_burstState := False \<rparr> else s'
      else if u < scf_BurstOnProb cfg then s'\<lparr> gs_burstState := True \<rparr> else s')"

definition clusteredBurst :: "ScenarioConfig \<Rightarrow> genState \<Rightarrow> f64 \<times> genState" where
  "clusteredBurst cfg s0 =
    (let s = burst_switch cfg s0
     in if \<not> gs_burstState s then (0, s)
        else case draw_uniform s of (v, s) \<Rightarrow>
          if scf_HeavyTailProb cfg < v then (0, s)
          else case draw_uniform s of (u, s) \<Rightarrow>
            let raw = math_Pow (1 - u) (- 1 / scf_ParetoAlpha cfg);
                raw = (if scf_BurstCeiling cfg < raw then scf_BurstCeiling cfg else raw)
            in (raw * (1 + gen_pressure cfg s), s))"

definition correlatedNoise :: "ScenarioConfig \<Rightarrow> genState \<Rightarrow> f64 \<times> genState" where
  "correlatedNoise cfg s =
    (if scf_NoiseStd cfg = 0 then (0, s)
     else case draw_normal s of (n, s) \<Rightarrow>
       let out = scf_ARCoef cfg * gs_prevNoise s + n * scf_NoiseStd cfg in (out, s\<lparr> gs_prevNoise := out \<rparr>))"

definition admissionControl :: "ScenarioConfig \<Rightarrow> f64 \<Rightarrow> genState \<Rightarrow> f64 \<times> genState" where
  "admissionControl cfg arrival s0 =
    (case (if scf_RateLimit cfg < arrival
           then case draw_uniform s0 of (u, s) \<Rightarrow> (if u < scf_ShedProb cfg then arrival * fl 0.6 else arrival, s)
           else (arrival, s0))
     of (a, s) \<Rightarrow> (if scf_BreakerThresh cfg < gs_backlog s then a * fl 0.3 else a, s))"

definition fanoutFactor :: "ScenarioConfig \<Rightarrow> genState \<Rightarrow> f64 \<times> genState" where
  "fanoutFactor cfg s =
    (let loadEffect = scf_FanoutLoad cfg * gen_pressure cfg s
     in case draw_normal s of (z, s) \<Rightarrow> (scf_FanoutBase cfg + loadEffect + scf_FanoutVar cfg * z, s))"

definition gen_backlog :: "ScenarioConfig \<Rightarrow> f64 \<Rightarrow> f64 \<Rightarrow> genState \<Rightarrow> genState" where
  "gen_backlog cfg arrival service s =
    (let b = gs_backlog s + (arrival - service) * duration_Seconds (scf_Step cfg)
     in s\<lparr> gs_backlog := (if b < 0 then 0 else b) \<rparr>)"

definition gen_step :: "ScenarioConfig \<Rightarrow> ScenarioKind \<Rightarrow> duration \<Rightarrow> genState \<Rightarrow> LoadPoint \<times> genState" where
  "gen_step cfg kind t s =
    (case baseArrival cfg kind t s of (arrival, s) \<Rightarrow>
     case serviceDynamics cfg s of (service, s) \<Rightarrow>
     case retryProcess cfg (gen_backlog cfg arrival service s) of (retries, s) \<Rightarrow>
     case clusteredBurst cfg s of (burst, s) \<Rightarrow>
     case correlatedNoise cfg s of (noise, s) \<Rightarrow>
     case admissionControl cfg (arrival + retries + burst + noise) s of (arrival, s) \<Rightarrow>
     case fanoutFactor cfg s of (fanout, s) \<Rightarrow>
       (\<lparr> lp_T = t, lp_Arrival = (if arrival < 0 then 0 else arrival), lp_Fanout = fanout \<rparr>, s))"

definition add_duration :: "duration \<Rightarrow> duration \<Rightarrow> duration" where
  "add_duration a b = sint (word_of_int (a + b) :: 64 word)"

fun gen_loop :: "nat \<Rightarrow> ScenarioConfig \<Rightarrow> ScenarioKind \<Rightarrow> duration \<Rightarrow> genState \<Rightarrow> LoadPoint list option" where
  "gen_loop fuel cfg kind t s =
    (if \<not> t < scf_Duration cfg then Some []
     else case fuel of 0 \<Rightarrow> None
       | Suc n \<Rightarrow> (case gen_step cfg kind t s of (p, s) \<Rightarrow>
           map_option ((#) p) (gen_loop n cfg kind (add_duration t (scf_Step cfg)) s)))"

definition GenerateScenario ::
  "nat \<Rightarrow> f64 stream \<Rightarrow> f64 stream \<Rightarrow> ScenarioConfig \<Rightarrow> ScenarioKind \<Rightarrow> Scenario option" where
  "GenerateScenario fuel us ns cfg kind =
    map_option (\<lambda>tr. \<lparr> sn_Config = cfg, sn_Trace = tr \<rparr>) (gen_loop fuel cfg kind 0 (init_gen cfg us ns))"

section \<open>Load profiles\<close>

datatype LoadProfileKind =
  ProfileConstant | ProfileRamp | ProfileSine | ProfileMultiSine | ProfileShockStack | ProfileStepSmooth
  | ProfileEnvelopeBlend

datatype StochasticMode = StochasticAdd | StochasticMul

record Shock =
  sh_Time :: duration
  sh_Magnitude :: f64

record LoadProfileConfig =
  pf_Kind :: LoadProfileKind
  pf_Base :: f64
  pf_Peak :: f64
  pf_Period :: duration
  pf_Harmonics :: "f64 list"
  pf_Frequencies :: "f64 list"
  pf_RandomPhase :: bool
  pf_Seed :: int
  pf_Shocks :: "Shock list"
  pf_RiseTau :: f64
  pf_DecayTau :: f64
  pf_OscFreq :: f64
  pf_OscDamp :: f64
  pf_TrendRate :: f64
  pf_TrendSkew :: f64
  pf_TrendCap :: f64
  pf_BlendWeight :: f64
  pf_DutyCycle :: f64
  pf_RampTau :: f64
  pf_MinClamp :: f64
  pf_MaxClamp :: f64
  pf_StochasticGain :: f64
  pf_StochasticMode :: StochasticMode

definition NewProfileState :: "f64 stream \<Rightarrow> LoadProfileConfig \<Rightarrow> f64 list" where
  \<comment> \<open>the phases; none are drawn unless \<open>RandomPhase\<close>\<close>
  "NewProfileState us cfg =
    (if pf_RandomPhase cfg then map (\<lambda>u. u * fl 2 * pi64) (stake (length (pf_Harmonics cfg)) us) else [])"

definition period_phase :: "duration \<Rightarrow> duration \<Rightarrow> f64 option" where
  \<comment> \<open>\<open>2\<pi> (t mod Period) / Period\<close>; the integer remainder panics for a zero period\<close>
  "period_phase t p =
    (if p = 0 then None else Some (fl (2 * pi) * f64_of_int (remt t p) / f64_of_int p))"

definition sine_term :: "LoadProfileConfig \<Rightarrow> f64 list option \<Rightarrow> f64 \<Rightarrow> nat \<Rightarrow> f64" where
  "sine_term cfg ps x i =
    (let f = (if i < length (pf_Frequencies cfg) then pf_Frequencies cfg ! i
              else fl (2 * pi) * f64_of_int (int i + 1) / duration_Seconds (pf_Period cfg));
         phase = (if pf_RandomPhase cfg then case ps of Some phs \<Rightarrow> phs ! i | None \<Rightarrow> 0 else 0)
     in pf_Harmonics cfg ! i * math_Sin (f * x + phase))"

definition multi_sine :: "LoadProfileConfig \<Rightarrow> f64 list option \<Rightarrow> f64 \<Rightarrow> f64" where
  "multi_sine cfg ps x =
    (let n = length (pf_Harmonics cfg);
         terms = map (sine_term cfg ps x) [0..<n];
         tot = fold (\<lambda>s a. a + s) terms 0;
         energy = fold (\<lambda>s a. a + s * s) terms 0;
         tot = (if 0 < energy then tot / math_Sqrt (energy / f64_of_int (int n)) else tot)
     in pf_Base cfg + (pf_Peak cfg - pf_Base cfg) * (fl 0.5 + fl 0.5 * tot))"

definition shock_term :: "LoadProfileConfig \<Rightarrow> duration \<Rightarrow> Shock \<Rightarrow> f64 \<Rightarrow> f64" where
  "shock_term cfg t sh tot =
    (if t < sh_Time sh then tot
     else let dt = duration_Seconds t - duration_Seconds (sh_Time sh);
              rise = 1 / (1 + math_Exp (- dt / pf_RiseTau cfg));
              decay = math_Exp (- dt / pf_DecayTau cfg);
              osc = 1 + math_Exp (- pf_OscDamp cfg * dt) * math_Sin (pf_OscFreq cfg * dt)
          in tot + sh_Magnitude sh * rise * decay * osc)"

definition step_smooth :: "LoadProfileConfig \<Rightarrow> duration \<Rightarrow> f64" where
  \<comment> \<open>\<open>math.Mod\<close> of two integers that are exact in \<open>float64\<close> is their remainder\<close>
  "step_smooth cfg t =
    (if pf_Period cfg = 0 then pf_Base cfg
     else let phase = f64_of_int (remt t (pf_Period cfg)) / f64_of_int (pf_Period cfg);
              target = (if pf_DutyCycle cfg < phase then pf_Peak cfg else pf_Base cfg);
              alpha = 1 - math_Exp (- duration_Seconds t / pf_RampTau cfg)
          in pf_Base cfg * (1 - alpha) + target * alpha)"

definition profile_value :: "LoadProfileConfig \<Rightarrow> f64 list option \<Rightarrow> duration \<Rightarrow> f64 option" where
  "profile_value cfg ps t =
    (case pf_Kind cfg of
      ProfileConstant \<Rightarrow> Some (pf_Base cfg)
    | ProfileRamp \<Rightarrow> Some (pf_Base cfg + pf_Peak cfg * duration_Seconds t)
    | ProfileSine \<Rightarrow>
        map_option (\<lambda>ph. pf_Base cfg + (pf_Peak cfg - pf_Base cfg) * (fl 0.5 + fl 0.5 * math_Sin ph))
          (period_phase t (pf_Period cfg))
    | ProfileMultiSine \<Rightarrow>
        Some (if pf_Harmonics cfg = [] then pf_Base cfg else multi_sine cfg ps (duration_Seconds t))
    | ProfileShockStack \<Rightarrow> Some (pf_Base cfg * (1 + fold (shock_term cfg t) (pf_Shocks cfg) 0))
    | ProfileStepSmooth \<Rightarrow> Some (step_smooth cfg t)
    | ProfileEnvelopeBlend \<Rightarrow>
        (let trend = pf_TrendCap cfg / (1 + math_Exp (- pf_TrendRate cfg * (duration_Seconds t - pf_TrendSkew cfg)))
         in map_option (\<lambda>ph. (1 - pf_BlendWeight cfg) * trend +
              pf_BlendWeight cfg * (pf_Peak cfg * (fl 0.5 + fl 0.5 * math_Sin ph))) (period_phase t (pf_Period cfg))))"

definition modulate :: "LoadProfileConfig \<Rightarrow> f64 \<Rightarrow> f64 \<Rightarrow> f64" where
  "modulate cfg stochastic v =
    (case pf_StochasticMode cfg of
      StochasticAdd \<Rightarrow> v + pf_StochasticGain cfg * stochastic
    | StochasticMul \<Rightarrow>
        (let m = 1 + pf_StochasticGain cfg * stochastic in v * (if m < fl 0.2 then fl 0.2 else m)))"

definition profile_clamp :: "LoadProfileConfig \<Rightarrow> f64 \<Rightarrow> f64" where
  "profile_clamp cfg v =
    (if pf_MinClamp cfg < pf_MaxClamp cfg
     then let v = (if pf_MaxClamp cfg < v then pf_MaxClamp cfg else v)
          in if v < pf_MinClamp cfg then pf_MinClamp cfg else v
     else v)"

definition EvaluateProfile :: "LoadProfileConfig \<Rightarrow> f64 list option \<Rightarrow> duration \<Rightarrow> f64 \<Rightarrow> f64 option" where
  \<comment> \<open>\<open>None\<close> is the panic of a zero period\<close>
  "EvaluateProfile cfg ps t stochastic = map_option (profile_clamp cfg \<circ> modulate cfg stochastic) (profile_value cfg ps t)"

section \<open>What the generator and the profiles produce\<close>

lemma add_duration_small: "minI64 \<le> a + b \<Longrightarrow> a + b \<le> maxI64 \<Longrightarrow> add_duration a b = a + b"
  by (simp add: add_duration_def sint_sbintrunc' minI64_def maxI64_def signed_take_bit_int_eq_self del: of_int_add)

lemma nn_not_neg: "\<not> x < 0 \<Longrightarrow> nn x"
  by (cases x) (auto simp: zero_f64_def)

lemma gen_step_point:
  "lp_T (fst (gen_step cfg kind t s)) = t \<and> nn (lp_Arrival (fst (gen_step cfg kind t s)))"
  by (auto simp: gen_step_def nn_one nn_not_neg split: prod.split)

definition steps_left :: "ScenarioConfig \<Rightarrow> duration \<Rightarrow> nat" where
  "steps_left cfg t = nat ((scf_Duration cfg - t + scf_Step cfg - 1) div scf_Step cfg)"

lemma steps_left_Suc:
  assumes "0 < scf_Step cfg" "t < scf_Duration cfg"
  shows "steps_left cfg t = Suc (steps_left cfg (t + scf_Step cfg))"
proof -
  let ?d = "scf_Step cfg" and ?a = "scf_Duration cfg - t - 1"
  have "(?a + ?d) div ?d = ?a div ?d + 1" using assms by simp
  moreover have "0 \<le> ?a div ?d" using assms by (simp add: pos_imp_zdiv_nonneg_iff)
  ultimately show ?thesis
    by (simp add: steps_left_def algebra_simps nat_add_distrib)
qed

lemma steps_left_0: "0 < scf_Step cfg \<Longrightarrow> scf_Duration cfg \<le> t \<Longrightarrow> steps_left cfg t = 0"
  by (simp add: steps_left_def div_nonpos_pos_le0 div_pos_pos_trivial zdiv_mono1 flip: zless_nat_eq_int_zless)
     (smt (verit) div_pos_pos_trivial div_neg_pos_less0)

lemma gen_loop_trace:
  assumes "0 < scf_Step cfg" "scf_Duration cfg + scf_Step cfg \<le> maxI64"
  shows "0 \<le> t \<Longrightarrow> steps_left cfg t \<le> fuel \<Longrightarrow>
    \<exists>tr. gen_loop fuel cfg kind t s = Some tr \<and>
      map lp_T tr = map (\<lambda>k. t + int k * scf_Step cfg) [0..<steps_left cfg t] \<and> (\<forall>p \<in> set tr. nn (lp_Arrival p))"
proof (induction fuel arbitrary: t s)
  case 0
  then have "\<not> t < scf_Duration cfg" using steps_left_Suc [OF assms(1), of t] by auto
  then show ?case using steps_left_0 [OF assms(1), of t] by simp
next
  case (Suc n)
  show ?case
  proof (cases "t < scf_Duration cfg")
    case False
    then show ?thesis using steps_left_0 [OF assms(1), of t] by simp
  next
    case True
    obtain p s' where p: "gen_step cfg kind t s = (p, s')" by force
    note left = steps_left_Suc [OF assms(1) True]
    have sum: "add_duration t (scf_Step cfg) = t + scf_Step cfg"
      using assms True Suc.prems(1) by (intro add_duration_small) (simp_all add: minI64_def)
    obtain tr where tr: "gen_loop n cfg kind (t + scf_Step cfg) s' = Some tr"
      "map lp_T tr = map (\<lambda>k. t + scf_Step cfg + int k * scf_Step cfg) [0..<steps_left cfg (t + scf_Step cfg)]"
      "\<forall>p \<in> set tr. nn (lp_Arrival p)"
      using Suc.IH [of "t + scf_Step cfg" s'] Suc.prems left assms(1) by auto
    have "[0..<steps_left cfg t] = 0 # map Suc [0..<steps_left cfg (t + scf_Step cfg)]"
      by (simp only: left upt_conv_Cons zero_less_Suc flip: map_Suc_upt)
    then have "map (\<lambda>k. t + int k * scf_Step cfg) [0..<steps_left cfg t] = t # map lp_T tr"
      by (simp add: tr(2) algebra_simps)
    then show ?thesis
      using True p sum tr gen_step_point [of cfg kind t s] by simp
  qed
qed

text \<open>
  A scenario with a positive step is generated: with fuel for every step of its duration the
  loop ends with one point per step, at the multiples of the step, and no arrival rate is
  negative.
\<close>

theorem scenario_generated:
  assumes "0 < scf_Step cfg" "scf_Duration cfg + scf_Step cfg \<le> maxI64" "steps_left cfg 0 \<le> fuel"
  shows "\<exists>sn. GenerateScenario fuel us ns cfg kind = Some sn \<and> sn_Config sn = cfg \<and>
    map lp_T (sn_Trace sn) = map (\<lambda>k. int k * scf_Step cfg) [0..<steps_left cfg 0] \<and>
    (\<forall>p \<in> set (sn_Trace sn). nn (lp_Arrival p))"
  using gen_loop_trace [OF assms(1,2), of 0 fuel kind "init_gen cfg us ns"] assms(3)
  by (auto simp: GenerateScenario_def)

lemma zero_step_never_ends:
  \<comment> \<open>without a positive step the loop does not end, whatever the fuel\<close>
  assumes "scf_Step cfg = 0" "0 < scf_Duration cfg"
  shows "GenerateScenario fuel us ns cfg kind = None"
proof -
  have "gen_loop fuel cfg kind 0 s = None" for s
    by (induction fuel arbitrary: s) (use assms in \<open>auto simp: add_duration_def split: prod.split\<close>)
  then show ?thesis by (simp add: GenerateScenario_def)
qed

text \<open>
  Whatever its kind and the noise, a profile whose clamps are in order never leaves them, unless
  its value is not a number.
\<close>

theorem profile_in_clamps:
  assumes "EvaluateProfile cfg ps t stochastic = Some v" "pf_MinClamp cfg < pf_MaxClamp cfg" "v \<noteq> NaN"
  shows "pf_MinClamp cfg \<le> v \<and> v \<le> pf_MaxClamp cfg"
proof -
  have "pf_MinClamp cfg \<noteq> NaN" "pf_MaxClamp cfg \<noteq> NaN" using assms(2) by auto
  then show ?thesis
    using assms
    by (auto simp: EvaluateProfile_def profile_clamp_def Let_def not_less64 less_imp_le64 le_refl64 split: if_splits)
qed

definition plain_scenario :: ScenarioConfig where
  "plain_scenario =
    \<lparr> scf_BaseArrival = fl 10, scf_BaseService = fl 12, scf_Duration = 6 * Second, scf_Step = Second, scf_Seed = 7,
      scf_NoiseStd = 0, scf_ARCoef = 0, scf_RetryGain = 0, scf_RetryDecay = 0, scf_RetryJitter = 0, scf_SaturationCap = 1,
      scf_BurstOnProb = 0, scf_BurstOffProb = 0, scf_ParetoAlpha = 1, scf_BurstCeiling = 1, scf_HeavyTailProb = 0,
      scf_Harmonics = [], scf_PhaseDrift = 0, scf_ShockTimes = [2 * Second, 4 * Second], scf_ShockMag = 1, scf_RelaxTau = fl 2,
      scf_CapacityDrop = 0, scf_CollapseProb = 0, scf_RateLimit = fl 100, scf_ShedProb = 0, scf_BreakerThresh = fl 100,
      scf_FanoutBase = 1, scf_FanoutLoad = 0, scf_FanoutVar = 0 \<rparr>"

theorem scenario_generated_witness:
  "\<exists>sn. GenerateScenario 6 (sconst 0) (sconst 0) plain_scenario ScenarioSpike = Some sn \<and> map lp_T (sn_Trace sn) = map (\<lambda>k. int k * Second) [0..<6]"
proof -
  have six: "steps_left plain_scenario 0 = 6" by (simp add: steps_left_def plain_scenario_def Second_def)
  show ?thesis
    using scenario_generated [of plain_scenario 6 "sconst 0" "sconst 0" ScenarioSpike] six
    by (auto simp: plain_scenario_def Second_def maxI64_def)
qed

definition clamped_profile :: LoadProfileConfig where
  "clamped_profile =
    \<lparr> pf_Kind = ProfileConstant, pf_Base = fl 9, pf_Peak = fl 20, pf_Period = 0, pf_Harmonics = [], pf_Frequencies = [],
      pf_RandomPhase = False, pf_Seed = 0, pf_Shocks = [], pf_RiseTau = 1, pf_DecayTau = 1, pf_OscFreq = 0, pf_OscDamp = 0,
      pf_TrendRate = 0, pf_TrendSkew = 0, pf_TrendCap = 0, pf_BlendWeight = 0, pf_DutyCycle = 0, pf_RampTau = 1,
      pf_MinClamp = 0, pf_MaxClamp = fl 5, pf_StochasticGain = 0, pf_StochasticMode = StochasticAdd \<rparr>"

theorem profile_in_clamps_witness:
  "EvaluateProfile clamped_profile None 0 0 = Some (fl 5) \<and> 0 \<le> fl 5 \<and> fl 5 \<le> fl 5"
proof -
  have v: "EvaluateProfile clamped_profile None 0 0 = Some (fl 5)"
    by (simp add: EvaluateProfile_def profile_value_def modulate_def profile_clamp_def clamped_profile_def zero_f64_def)
  show ?thesis
    using profile_in_clamps [OF v] v by (simp add: clamped_profile_def zero_f64_def)
qed

end
