(* ===== verification/SandboxPlant.thy ===== *)
theory SandboxPlant
  imports SandboxScenario
begin

text \<open>
  \<open>internal/sandbox\<close>, from a scenario to what is measured on it: \<open>RunVirtualPlant\<close> and the
  uncertainty of snapshots (\<open>virtual_plant_support.go\<close>), and \<open>BuildBaselineSnapshot\<close>
  (\<open>baseline_snapshot.go\<close>).  \<open>sort.Float64s\<close> orders NaNs first and the rest ascending; that list is
  unique, and \<open>float_sort\<close> computes it by insertion.
\<close>

section \<open>The virtual plant\<close>

record PlantConfig =
  pg_CapacityScale :: f64
  pg_RetryBias :: f64
  pg_CacheRelief :: f64

record PlantPoint =
  pt_Time :: duration
  pt_Latency :: f64
  pt_Backlog :: f64
  pt_Throughput :: f64
  pt_ServiceRate :: f64
  pt_Collapsed :: bool

type_synonym PlantTrace = "PlantPoint list"

definition plant_service :: "ScenarioConfig \<Rightarrow> PlantConfig \<Rightarrow> f64" where
  "plant_service sc cfg =
    math_Max (scf_BaseService sc * (if pg_CapacityScale cfg \<le> 0 then 1 else pg_CapacityScale cfg)) (fl (1 / 1000))"

definition plant_arrival :: "PlantConfig \<Rightarrow> LoadPoint \<Rightarrow> f64" where
  "plant_arrival cfg p =
    (let fanout = math_Max (lp_Fanout p) (fl 0.1);
         arrival = math_Max (lp_Arrival p * fanout) 0 * (1 + fl 0.15 * pg_RetryBias cfg)
     in arrival * math_Max (fl 0.6) (1 - fl 0.10 * pg_CacheRelief cfg))"

definition effective_service :: "PlantConfig \<Rightarrow> f64 \<Rightarrow> f64 \<Rightarrow> f64" where
  "effective_service cfg service backlog =
    (let capacityPenalty = 1 + fl 0.15 * math_Tanh (backlog / (service + 1))
     in service * (1 + fl 0.10 * pg_CacheRelief cfg) / capacityPenalty)"

definition virtual_step :: "ScenarioConfig \<Rightarrow> PlantConfig \<Rightarrow> LoadPoint \<Rightarrow> f64 \<times> f64 \<Rightarrow> PlantPoint \<times> f64 \<times> f64" where
  \<comment> \<open>one load point; the state is the backlog and the latency\<close>
  "virtual_step sc cfg p acc =
    (case acc of (backlog, latency) \<Rightarrow>
      let arrival = plant_arrival cfg p;
          eff = effective_service cfg (plant_service sc cfg) backlog;
          throughput = math_Min arrival eff;
          b = backlog + (arrival - throughput) * duration_Seconds (scf_Step sc);
          backlog = (if b < 0 then 0 else b);
          util = arrival / (eff + fl (1 / 1000000));
          latency = fl 0.8 * latency + fl 0.2 * (fl 20 + fl 40 * util + fl 15 * math_Sqrt (backlog + 1));
          collapsed = (fl 5 * eff < backlog \<or> fl 1500 < latency)
      in (\<lparr> pt_Time = lp_T p, pt_Latency = latency, pt_Backlog = backlog, pt_Throughput = throughput,
            pt_ServiceRate = eff, pt_Collapsed = collapsed \<rparr>, backlog, latency))"

fun virtual_loop :: "ScenarioConfig \<Rightarrow> PlantConfig \<Rightarrow> LoadPoint list \<Rightarrow> f64 \<times> f64 \<Rightarrow> PlantTrace" where
  "virtual_loop sc cfg [] acc = []"
| "virtual_loop sc cfg (p # ps) acc =
    (case virtual_step sc cfg p acc of (q, acc) \<Rightarrow> q # virtual_loop sc cfg ps acc)"

definition RunVirtualPlant :: "Scenario option \<Rightarrow> PlantConfig \<Rightarrow> PlantTrace" where
  "RunVirtualPlant scenario cfg =
    (case scenario of None \<Rightarrow> []
     | Some sn \<Rightarrow> virtual_loop (sn_Config sn) cfg (sn_Trace sn) (0, fl 25))"

section \<open>Statistics\<close>

definition list_mean :: "f64 list \<Rightarrow> f64" where
  "list_mean xs = fold (\<lambda>v s. s + v) xs 0 / f64_of_int (int (length xs))"

definition square_sum :: "f64 list \<Rightarrow> f64 \<Rightarrow> f64" where
  "square_sum xs mean = fold (\<lambda>v s. s + (v - mean) * (v - mean)) xs 0"

definition variance :: "f64 list \<Rightarrow> f64" where
  "variance xs = (if xs = [] then 0 else square_sum xs (list_mean xs) / f64_of_int (int (length xs)))"

definition coeffVar :: "f64 list \<Rightarrow> f64 \<Rightarrow> f64" where
  "coeffVar xs mean = (if mean = 0 then 0 else math_Sqrt (square_sum xs mean / f64_of_int (int (length xs))) / mean)"

definition float_le :: "f64 \<Rightarrow> f64 \<Rightarrow> bool" where
  \<comment> \<open>the order of \<open>sort.Float64s\<close>\<close>
  "float_le x y \<longleftrightarrow> x = NaN \<or> x \<le> y"

definition float_sort :: "f64 list \<Rightarrow> f64 list" where
  "float_sort xs = foldr (\<lambda>x ys. takeWhile (\<lambda>y. \<not> float_le x y) ys @ x # dropWhile (\<lambda>y. \<not> float_le x y) ys) xs []"

fun math_Floor :: "f64 \<Rightarrow> f64" where
  "math_Floor (Fin r) = Fin (of_int \<lfloor>r\<rfloor>)"
| "math_Floor x = x"

definition percentileInterp :: "f64 list \<Rightarrow> f64 \<Rightarrow> f64" where
  "percentileInterp x q =
    (let y = float_sort x;
         pos = q * f64_of_int (int (length y) - 1);
         i = int_of_f64 (math_Floor pos);
         f = pos - f64_of_int i
     in if i + 1 < int (length y) then y ! nat i * (1 - f) + y ! nat (i + 1) * f else y ! nat i)"

section \<open>The snapshot of a trace\<close>

record BaselineSnapshot =
  bs_MeanLatency :: f64
  bs_P95Latency :: f64
  bs_P99Latency :: f64
  bs_LogTailIndex :: f64
  bs_MeanBacklog :: f64
  bs_MaxBacklog :: f64
  bs_P95Backlog :: f64
  bs_CongestionPersistence :: f64
  bs_ThroughputMean :: f64
  bs_ThroughputCV :: f64
  bs_ThroughputMin :: f64
  bs_CollapseOccurred :: bool
  bs_CollapseFraction :: f64
  bs_CollapseSeverity :: f64
  bs_RecoveryTime :: f64
  bs_SpectralOscillation :: f64
  bs_SettlingTime :: f64
  bs_OscillationIndex :: f64
  bs_SettlingIndex :: f64

definition empty_snapshot :: BaselineSnapshot where
  "empty_snapshot =
    \<lparr> bs_MeanLatency = 0, bs_P95Latency = 0, bs_P99Latency = 0, bs_LogTailIndex = 0, bs_MeanBacklog = 0,
      bs_MaxBacklog = 0, bs_P95Backlog = 0, bs_CongestionPersistence = 0, bs_ThroughputMean = 0, bs_ThroughputCV = 0,
      bs_ThroughputMin = 0, bs_CollapseOccurred = False, bs_CollapseFraction = 0, bs_CollapseSeverity = 0,
      bs_RecoveryTime = 0, bs_SpectralOscillation = 0, bs_SettlingTime = 0, bs_OscillationIndex = 0,
      bs_SettlingIndex = 0 \<rparr>"

definition slaPenalty :: "f64 \<Rightarrow> f64" where
  "slaPenalty lat = math_Exp (fl 0.02 * lat)"

definition severity_of :: "PlantPoint \<Rightarrow> f64" where
  "severity_of p =
    slaPenalty (pt_Latency p) * (1 - pt_Throughput p / (pt_ServiceRate p + fl (1 / 1000000))) * math_Log (1 + pt_Backlog p)"

definition dynamicCongestionPersistence :: "f64 list \<Rightarrow> f64 list \<Rightarrow> f64" where
  "dynamicCongestionPersistence back svc =
    (let meanSvc = list_mean svc;
         stdSvc = math_Sqrt (square_sum svc meanSvc / f64_of_int (int (length svc)));
         thr = fl 0.1 * meanSvc + fl 0.5 * stdSvc
     in fold (\<lambda>b c. if thr < b then c + 1 else c) back 0 / f64_of_int (int (length back)))"

definition meanLatencyWindow :: "PlantTrace \<Rightarrow> int \<Rightarrow> int \<Rightarrow> f64" where
  \<comment> \<open>the sum over \<open>a .. b - 1\<close>, divided by \<open>b - a + 1\<close>\<close>
  "meanLatencyWindow tr a b =
    (let a = (if a < 0 then 0 else a);
         b = (if int (length tr) < b then int (length tr) else b)
     in fold (\<lambda>i s. s + pt_Latency (tr ! i)) [nat a..<nat b] 0 / f64_of_int (b - a + 1))"

fun last_index :: "('a \<Rightarrow> bool) \<Rightarrow> nat \<Rightarrow> 'a list \<Rightarrow> nat option" where
  \<comment> \<open>the search from \<open>n - 1\<close> down to \<open>0\<close>\<close>
  "last_index P 0 xs = None"
| "last_index P (Suc n) xs = (if P (xs ! n) then Some n else last_index P n xs)"

definition recoveryTimeMoving :: "PlantTrace \<Rightarrow> f64" where
  "recoveryTimeMoving tr =
    (let n = length tr
     in case last_index pt_Collapsed n tr of None \<Rightarrow> 0
      | Some e \<Rightarrow>
          let window = int_of_f64 (math_Max (fl 5) (f64_of_int (int n) / fl 20));
              base = meanLatencyWindow tr (int e - window) (int e);
              back = (\<lambda>j. \<bar>meanLatencyWindow tr (int j) (int j + window) - base\<bar> < fl 0.1 * base)
          in case find back [e..<n] of Some j \<Rightarrow> f64_of_int (int j - int e) | None \<Rightarrow> f64_of_int (int n - int e))"

definition diff_energy :: "(nat \<Rightarrow> bool) \<Rightarrow> f64 list \<Rightarrow> f64" where
  \<comment> \<open>the squared differences at the indices of a parity\<close>
  "diff_energy par x =
    fold (\<lambda>i s. if par i then let d = x ! i - x ! (i - 1) in s + d * d else s) [1..<length x] 0"

definition spectralOscillation :: "f64 list \<Rightarrow> f64" where
  "spectralOscillation x =
    (let low = diff_energy even x; high = diff_energy odd x in if low = 0 then 0 else math_Sqrt (high / low))"

fun settle_search :: "PlantTrace \<Rightarrow> f64 \<Rightarrow> f64 \<Rightarrow> nat \<Rightarrow> f64" where
  "settle_search tr totalTime target 0 = 0"
| "settle_search tr totalTime target (Suc i) =
    (let m = meanLatencyWindow tr (int i) (int (length tr))
     in if fl 0.05 * target < \<bar>m - target\<bar> then totalTime - duration_Seconds (pt_Time (tr ! i))
        else settle_search tr totalTime target i)"

definition settlingTime :: "PlantTrace \<Rightarrow> f64" where
  "settlingTime tr =
    (let n = length tr;
         totalTime = duration_Seconds (pt_Time (tr ! (n - 1)));
         target = meanLatencyWindow tr (int (n div 2)) (int n)
     in settle_search tr totalTime target n)"

definition BuildBaselineSnapshot :: "PlantTrace \<Rightarrow> BaselineSnapshot" where
  "BuildBaselineSnapshot tr =
    (if tr = [] then empty_snapshot
     else let n = f64_of_int (int (length tr));
              lat = map pt_Latency tr; back = map pt_Backlog tr; thr = map pt_Throughput tr; svc = map pt_ServiceRate tr;
              collapsed = filter pt_Collapsed tr;
              meanLat = fold (\<lambda>v s. s + v) lat 0 / n;
              meanThr = fold (\<lambda>v s. s + v) thr 0 / n;
              p99 = percentileInterp lat (fl 0.99)
          in \<lparr> bs_MeanLatency = meanLat,
               bs_P95Latency = percentileInterp lat (fl 0.95),
               bs_P99Latency = p99,
               bs_LogTailIndex = math_Log (1 + p99 / (meanLat + fl (1 / 1000000))),
               bs_MeanBacklog = fold (\<lambda>v s. s + v) back 0 / n,
               bs_MaxBacklog = fold (\<lambda>b m. if m < b then b else m) back 0,
               bs_P95Backlog = percentileInterp back (fl 0.95),
               bs_CongestionPersistence = dynamicCongestionPersistence back svc,
               bs_ThroughputMean = meanThr,
               bs_ThroughputCV = coeffVar thr meanThr,
               bs_ThroughputMin = fold (\<lambda>x m. if x < m then x else m) thr MaxFloat64,
               bs_CollapseOccurred = (collapsed \<noteq> []),
               bs_CollapseFraction = f64_of_int (int (length collapsed)) / n,
               bs_CollapseSeverity =
                 (if collapsed = [] then 0
                  else fold (\<lambda>p s. s + severity_of p) collapsed 0 / f64_of_int (int (length collapsed))),
               bs_RecoveryTime = recoveryTimeMoving tr,
               bs_SpectralOscillation = spectralOscillation lat,
               bs_SettlingTime = settlingTime tr,
               bs_OscillationIndex = 0,
               bs_SettlingIndex = 0 \<rparr>)"

record SnapshotUncertainty =
  su_LatencyVar :: f64
  su_TailVar :: f64
  su_ThroughputVar :: f64
  su_BacklogVar :: f64

definition estimateUncertainty :: "BaselineSnapshot list \<Rightarrow> SnapshotUncertainty" where
  "estimateUncertainty snaps =
    \<lparr> su_LatencyVar = variance (map bs_MeanLatency snaps), su_TailVar = variance (map bs_LogTailIndex snaps),
      su_ThroughputVar = variance (map bs_ThroughputMean snaps), su_BacklogVar = variance (map bs_MeanBacklog snaps) \<rparr>"

definition estimateUncertaintyInflated :: "BaselineSnapshot list \<Rightarrow> SnapshotUncertainty" where
  "estimateUncertaintyInflated snaps =
    (let u = estimateUncertainty snaps;
         inflate = 1 + math_Log (1 + list_mean (map bs_LogTailIndex snaps))
     in u\<lparr> su_LatencyVar := su_LatencyVar u * inflate, su_TailVar := su_TailVar u * inflate,
          su_BacklogVar := su_BacklogVar u * inflate \<rparr>)"

section \<open>The plant's backlog\<close>

definition on_grid :: "f64 \<Rightarrow> bool" where
  \<comment> \<open>a value a computation can produce: rounding it again changes nothing\<close>
  "on_grid x \<longleftrightarrow> (\<forall>r. x = Fin r \<longrightarrow> fl r = Fin r)"

lemma on_grid_fl [simp]: "on_grid (fl x)"
  by (auto simp: on_grid_def fl_def Let_def split: if_splits)

lemma on_grid_simps [simp]: "on_grid 0" "on_grid NaN" "on_grid PInf" "on_grid NInf"
  by (auto simp: on_grid_def zero_f64_def)

lemma on_grid_add: "on_grid (x + y)"
  by (cases x; cases y) simp_all

lemma grid_grows: "on_grid b \<Longrightarrow> nn d \<Longrightarrow> b + d = NaN \<or> b \<le> b + d"
proof (elim nn_cases)
  fix s assume "on_grid b" "d = Fin s" "0 \<le> s"
  then show ?thesis
    using fl_mono [of r "r + s" for r] by (cases b) (auto simp: on_grid_def, metis le_add_same_cancel1)
qed (cases b; simp)+

lemma served_gap_nn: "nn (a - math_Min a e)"
  by (cases a; cases e) (auto simp: math_Min_def minus_f64_def)

definition not_below :: "f64 \<Rightarrow> f64 \<Rightarrow> bool" where
  "not_below x y \<longleftrightarrow> y = NaN \<or> x \<noteq> NaN \<and> x \<le> y"

lemma not_below_trans: "not_below x y \<Longrightarrow> not_below y z \<Longrightarrow> not_below x z"
  by (auto simp: not_below_def dest: le_trans64)

lemma virtual_step_backlog:
  assumes "virtual_step sc cfg p (b, l) = (q, b', l')" "on_grid b" "nn b" "0 \<le> scf_Step sc" "scf_Step sc \<le> maxI64"
  shows "not_below b b'" and "on_grid b'" and "nn b'" and "pt_Backlog q = b'" and "pt_Time q = lp_T p"
    and "nn (pt_Backlog q)"
proof -
  let ?a = "plant_arrival cfg p" and ?e = "effective_service cfg (plant_service sc cfg) b"
  let ?d = "(?a - math_Min ?a ?e) * duration_Seconds (scf_Step sc)"
  have b': "b' = (if b + ?d < 0 then 0 else b + ?d)" "pt_Backlog q = b'" "pt_Time q = lp_T p"
    using assms(1) by (auto simp: virtual_step_def Let_def)
  have "nn (duration_Seconds (scf_Step sc))" using duration_Seconds_nonneg [OF assms(4,5)] by auto
  then have d: "nn ?d" by (intro nn_mult served_gap_nn)
  moreover have "\<not> x < 0" if "nn x" for x using that by (auto elim!: nn_cases simp: zero_f64_def)
  ultimately have "b' = b + ?d" using b'(1) nn_add [OF assms(3) d] by simp
  then show "not_below b b'" "on_grid b'" "nn b'"
    using grid_grows [OF assms(2) d] on_grid_add nn_add [OF assms(3) d] by (auto simp: not_below_def)
  then show "nn (pt_Backlog q)" by (simp add: b'(2))
qed (use assms(1) in \<open>auto simp: virtual_step_def Let_def\<close>)

lemma virtual_loop_backlog:
  assumes "0 \<le> scf_Step sc" "scf_Step sc \<le> maxI64"
  shows "on_grid b \<Longrightarrow> nn b \<Longrightarrow> (\<forall>q \<in> set (virtual_loop sc cfg ps (b, l)). not_below b (pt_Backlog q)) \<and>
    sorted_wrt not_below (map pt_Backlog (virtual_loop sc cfg ps (b, l)))"
proof (induction ps arbitrary: b l)
  case (Cons p ps)
  obtain q b' l' where st: "virtual_step sc cfg p (b, l) = (q, b', l')" by (metis prod.exhaust)
  note vs = virtual_step_backlog [OF st Cons.prems assms]
  show ?case using Cons.IH [OF vs(2,3)] st vs not_below_trans by fastforce
qed simp

text \<open>
  The backlog of the virtual plant never drains: throughput is at most the arrivals, even when
  the service could do more, so along a trace the backlog never falls (it can only stop being
  a number).
\<close>

theorem plant_backlog_never_drains:
  assumes "0 \<le> scf_Step (sn_Config sn)" "scf_Step (sn_Config sn) \<le> maxI64"
  shows "sorted_wrt not_below (map pt_Backlog (RunVirtualPlant (Some sn) cfg))"
  using virtual_loop_backlog [OF assms, of 0] by (simp add: RunVirtualPlant_def nn_one)

theorem plant_backlog_never_drains_witness:
  "sorted_wrt not_below (map pt_Backlog (RunVirtualPlant (Some \<lparr> sn_Config = plain_scenario,
     sn_Trace = [\<lparr> lp_T = 0, lp_Arrival = fl 40, lp_Fanout = 1 \<rparr>, \<lparr> lp_T = Second, lp_Arrival = 0, lp_Fanout = 1 \<rparr>] \<rparr>)
     \<lparr> pg_CapacityScale = 1, pg_RetryBias = 0, pg_CacheRelief = 0 \<rparr>))"
  by (rule plant_backlog_never_drains) (simp_all add: plain_scenario_def Second_def maxI64_def)

section \<open>One point per load point\<close>

lemma virtual_loop_length [simp]: "length (virtual_loop sc cfg ps acc) = length ps"
  by (induction ps arbitrary: acc) (auto split: prod.split)

lemma plant_times: "map pt_Time (virtual_loop sc cfg ps acc) = map lp_T ps"
  by (induction ps arbitrary: acc) (auto simp: virtual_step_def Let_def split: prod.split)

section \<open>The settling time\<close>

lemma last_window:
  assumes "tr \<noteq> []" shows "meanLatencyWindow tr (int (length tr - 1)) (int (length tr)) = (0 + pt_Latency (last tr)) / fl 2"
proof -
  obtain n where n: "length tr = Suc n" using assms by (cases tr) auto
  moreover have "[n..<nat (1 + int n)] = [n]" by (simp add: nat_add_distrib)
  ultimately show ?thesis by (simp add: meanLatencyWindow_def Let_def last_conv_nth assms)
qed

lemma far_from_target:
  assumes "0 \<le> l" "l \<le> t" "1 \<le> t" "t \<le> 1000"
  shows "fl 0.05 * Fin t < \<bar>(0 + Fin l) / fl 2 - Fin t\<bar>"
proof -
  obtain a where a: "fl l = Fin a" "l - 1 / 100000 \<le> a" "a \<le> l + 1 / 100000"
    using fl_close [of l] assms by auto
  obtain b where b: "fl (a / 2) = Fin b" "a / 2 - 1 / 100000 \<le> b" "b \<le> a / 2 + 1 / 100000"
    using fl_close [of "a / 2"] assms a by auto
  obtain d where d: "fl (b - t) = Fin d" "b - t - 1 / 100000 \<le> d" "d \<le> b - t + 1 / 100000"
    using fl_close [of "b - t"] assms a b by auto
  obtain p where p: "fl 0.05 = Fin p" "p \<le> 1 / 20 + 1 / 100000" "1 / 20 - 1 / 100000 \<le> p"
    using fl_close [of "0.05"] by auto
  have pt: "p * t \<le> (3 / 50) * t" "0 \<le> p * t"
    using p(2,3) assms(3) by (auto intro!: mult_right_mono mult_nonneg_nonneg)
  obtain q where q: "fl (p * t) = Fin q" "q \<le> p * t + 1 / 100000"
    using fl_close [of "p * t"] pt assms(4) by auto
  have "q < - d" using q(2) pt(1) d(3) b(3) a(3) assms by linarith
  then show ?thesis
    using a(1) b(1) d(1) p(1) q(1) by (simp add: zero_f64_def minus_f64_def)
qed

text \<open>
  The settling time that is measured is zero: the search starts with the window of the last point
  alone, whose mean is half of the latency there because the sum of \<open>b - a\<close> points is divided
  by \<open>b - a + 1\<close>, so the first window is already away from the target.
\<close>

theorem settling_time_zero:
  assumes "tr \<noteq> []" "pt_Latency (last tr) = Fin l" "0 \<le> l" "l \<le> t" "1 \<le> t" "t \<le> 1000"
    "meanLatencyWindow tr (int (length tr div 2)) (int (length tr)) = Fin t" "duration_Seconds (pt_Time (last tr)) = Fin s"
  shows "settlingTime tr = 0"
proof -
  obtain n where n: "length tr = Suc n" using assms(1) by (cases tr) auto
  then have l: "tr ! n = last tr" using assms(1) by (simp add: last_conv_nth)
  have "fl 0.05 * Fin t < \<bar>meanLatencyWindow tr (int n) (int (length tr)) - Fin t\<bar>"
    using last_window [OF assms(1)] far_from_target [OF assms(3-6)] assms(2) n by simp
  then show ?thesis
    using assms(7,8) n l by (simp add: settlingTime_def Let_def zero_f64_def minus_f64_def)
qed

definition settled_trace :: PlantTrace where
  "settled_trace =
    [\<lparr> pt_Time = 0, pt_Latency = fl 64, pt_Backlog = 0, pt_Throughput = 1, pt_ServiceRate = 1, pt_Collapsed = False \<rparr>,
     \<lparr> pt_Time = Second, pt_Latency = fl 4, pt_Backlog = 0, pt_Throughput = 1, pt_ServiceRate = 1, pt_Collapsed = False \<rparr>,
     \<lparr> pt_Time = 2 * Second, pt_Latency = fl 8, pt_Backlog = 0, pt_Throughput = 1, pt_ServiceRate = 1, pt_Collapsed = False \<rparr>,
     \<lparr> pt_Time = 3 * Second, pt_Latency = fl 4, pt_Backlog = 0, pt_Throughput = 1, pt_ServiceRate = 1, pt_Collapsed = False \<rparr>]"

theorem settling_time_zero_witness: "settlingTime settled_trace = 0"
proof (rule settling_time_zero)
  show "pt_Latency (last settled_trace) = Fin 4" "duration_Seconds (pt_Time (last settled_trace)) = Fin 3"
    by (simp_all add: settled_trace_def duration_Seconds_def quot_def remt_def Second_def)
  show "meanLatencyWindow settled_trace (int (length settled_trace div 2)) (int (length settled_trace)) = Fin 4"
  proof -
    have "[2..<4] = [2, 3 :: nat]" by (simp add: upt_rec)
    then show ?thesis by (simp add: settled_trace_def meanLatencyWindow_def zero_f64_def)
  qed
qed (simp_all add: settled_trace_def)

end
