(* ===== verification/AutoMPC.thy ===== *)
theory AutoMPC
  imports AutoIdent SandboxPlant "HOL-Library.Stream"
begin

text \<open>
  \<open>internal/autopilot/mpc.go\<close>: the planner.  A plan of one control per step of the horizon is warm
  started from the previous plan and improved by simulated annealing; a plan is scored by the
  mean and the tail of its cost over several scenarios.  The private random source is four
  streams of draws, one per method of \<open>math/rand\<close>; a panic of the code is \<open>None\<close>.
\<close>

record MPCState =
  ms_Backlog :: f64
  ms_Latency :: f64
  ms_ArrivalMean :: f64
  ms_ArrivalVar :: f64
  ms_TopologyPressure :: f64
  ms_TopologyState :: f64
  ms_ServiceRate :: f64
  ms_CapacityActive :: f64
  ms_PrevBacklog :: f64

record MPCOptimiser =
  mo_Horizon :: int
  mo_Dt :: f64
  mo_ScenarioCount :: int
  mo_Deterministic :: bool
  mo_BurstProb :: f64
  mo_BacklogCost :: f64
  mo_LatencyCost :: f64
  mo_VarianceBase :: f64
  mo_ScalingCost :: f64
  mo_SmoothCost :: f64
  mo_TerminalCost :: f64
  mo_UtilCost :: f64
  mo_SafetyBarrier :: f64
  mo_RiskQuantile :: f64
  mo_RiskWeight :: f64
  mo_MaxCapacity :: f64
  mo_MinCapacity :: f64
  mo_MaxStepCap :: f64
  mo_MaxStepRetry :: f64
  mo_MaxStepCache :: f64
  mo_InitTemp :: f64
  mo_Cooling :: f64
  mo_Iters :: int
  mo_IterModifier :: f64

record mpc_rng =
  rn_Float64 :: "f64 stream"
  rn_NormFloat64 :: "f64 stream"
  rn_ExpFloat64 :: "f64 stream"
  rn_Intn :: "nat stream"  \<comment> \<open>the draw of \<open>Intn n\<close> is the head modulo \<open>n\<close>\<close>

definition draw_Float64 :: "mpc_rng \<Rightarrow> f64 \<times> mpc_rng" where
  "draw_Float64 g = (shd (rn_Float64 g), g\<lparr> rn_Float64 := stl (rn_Float64 g) \<rparr>)"

definition draw_NormFloat64 :: "mpc_rng \<Rightarrow> f64 \<times> mpc_rng" where
  "draw_NormFloat64 g = (shd (rn_NormFloat64 g), g\<lparr> rn_NormFloat64 := stl (rn_NormFloat64 g) \<rparr>)"

definition draw_ExpFloat64 :: "mpc_rng \<Rightarrow> f64 \<times> mpc_rng" where
  "draw_ExpFloat64 g = (shd (rn_ExpFloat64 g), g\<lparr> rn_ExpFloat64 := stl (rn_ExpFloat64 g) \<rparr>)"

definition draw_Intn :: "nat \<Rightarrow> mpc_rng \<Rightarrow> nat \<times> mpc_rng" where
  "draw_Intn n g = (shd (rn_Intn g) mod n, g\<lparr> rn_Intn := stl (rn_Intn g) \<rparr>)"

abbreviation epsilon6 :: f64 where "epsilon6 \<equiv> fl (1 / 1000000)"

section \<open>The model of the planner\<close>

definition disturb :: "MPCOptimiser \<Rightarrow> MPCState \<Rightarrow> nat \<Rightarrow> mpc_rng \<Rightarrow> f64 \<times> mpc_rng" where
  "disturb m x scenario g =
    (if mo_Deterministic m
     then (math_Sin (f64_of_int (int scenario)) * fl 0.3 * math_Sqrt (ms_ArrivalVar x + 1), g)
     else let (u, g) = draw_Float64 g
       in if u < mo_BurstProb m
          then let (d, g) = draw_ExpFloat64 g in (d * fl 0.7 * math_Sqrt (ms_ArrivalVar x + 1), g)
          else let (d, g) = draw_NormFloat64 g in (d * fl 0.25 * math_Sqrt (ms_ArrivalVar x + 1), g))"

definition varianceNext :: "MPCState \<Rightarrow> f64 \<Rightarrow> f64 \<Rightarrow> f64" where
  "varianceNext x retry cap =
    (let damp = 1 / (1 + cap)
     in fl 0.8 * ms_ArrivalVar x + fl 0.15 * \<bar>ms_TopologyPressure x\<bar> + fl 0.05 * retry * damp)"

definition mpc_topologyNext :: "MPCState \<Rightarrow> f64 \<Rightarrow> f64" where
  "mpc_topologyNext x service =
    (let util = ms_ArrivalMean x / (service + epsilon6)
     in fl 0.75 * ms_TopologyPressure x + fl 0.2 * util + fl 0.05 * ms_TopologyState x)"

definition capLag :: "MPCState \<Rightarrow> f64 \<Rightarrow> f64" where
  "capLag x target = ms_CapacityActive x + fl 0.3 * (target - ms_CapacityActive x)"

definition propagate :: "MPCOptimiser \<Rightarrow> MPCState \<Rightarrow> MPCControl \<Rightarrow> nat \<Rightarrow> mpc_rng \<Rightarrow> MPCState \<times> mpc_rng" where
  "propagate m x u scenario g =
    (let cap = math_Max (mo_MinCapacity m) (math_Min (mo_MaxCapacity m) (capLag x (mc_CapacityTarget u)));
         effectiveCache = math_Min (fl 0.5) (math_Max 0 (mc_CacheRelief u));
         service = ms_ServiceRate x * cap;
         retry = math_Min (mc_RetryFactor u * ms_ArrivalMean x) (ms_ArrivalMean x * fl 0.5);
         (d, g) = disturb m x scenario g;
         rawArrival = ms_ArrivalMean x + d + fl 0.35 * ms_TopologyPressure x;
         maxJump = ms_ArrivalMean x * (fl 1.3 + fl 0.7 * math_Sqrt (ms_ArrivalVar x + 1));
         arrival = (if maxJump < rawArrival then maxJump else rawArrival);
         arrival = fl 0.8 * ms_ArrivalMean x + fl 0.2 * arrival;
         arrival = arrival * (1 - effectiveCache);
         dQ = (arrival + retry - service) * mo_Dt m;
         backlog = math_Max 0 (ms_Backlog x + dQ);
         util = arrival / (service + epsilon6)
     in (x\<lparr> ms_Backlog := backlog,
           ms_Latency := fl 0.55 * ms_Latency x + fl 0.3 * util * math_Sqrt (backlog + 1) + fl 0.15 * math_Sqrt backlog,
           ms_TopologyPressure := mpc_topologyNext x service, ms_ArrivalVar := varianceNext x retry cap,
           ms_CapacityActive := cap, ms_PrevBacklog := ms_Backlog x \<rparr>, g))"

definition smooth_barrier :: "MPCOptimiser \<Rightarrow> f64 \<Rightarrow> f64" where
  "smooth_barrier m q = mo_SafetyBarrier m * math_Pow q (fl 3) / (1 + q * q)"

section \<open>Costs\<close>

definition utilPenalty :: "MPCState \<Rightarrow> f64" where
  "utilPenalty x =
    (let util = ms_ArrivalMean x / (ms_ServiceRate x * ms_CapacityActive x + epsilon6);
         volUtil = math_Sqrt (ms_ArrivalVar x + 1);
         targetUtil = fl 0.95 - math_Min (fl 0.3) (volUtil / fl 10)
     in math_Pow (math_Max 0 (util - targetUtil)) (fl 2) * fl 30)"

definition load_pressure :: "MPCState \<Rightarrow> f64" where
  "load_pressure x = ms_ArrivalMean x - ms_ServiceRate x * ms_CapacityActive x"

definition required_capacity :: "MPCState \<Rightarrow> f64" where
  "required_capacity x =
    (let safety = 1 + math_Min 1 (math_Sqrt (ms_ArrivalVar x + 1) / fl 10 + math_Max 0 (load_pressure x) / fl 100)
     in ms_ArrivalMean x / (ms_ServiceRate x + epsilon6) * safety)"

definition excessCost :: "MPCState \<Rightarrow> MPCControl \<Rightarrow> f64" where
  "excessCost x u =
    (let excess = mc_CapacityTarget u - required_capacity x
     in if 0 < excess then excess * excess * (fl 2 * (1 + math_Max 0 (- load_pressure x))) else 0)"

definition deficitCost :: "MPCState \<Rightarrow> MPCControl \<Rightarrow> f64" where
  "deficitCost x u =
    (let deficit = required_capacity x - mc_CapacityTarget u
     in if 0 < deficit then deficit * deficit * deficit * (fl 20 * (1 + math_Max 0 (load_pressure x))) else 0)"

definition idlePenalty :: "MPCState \<Rightarrow> MPCControl \<Rightarrow> f64" where
  "idlePenalty x u =
    (let diff = math_Max 0 (required_capacity x * fl 0.8 - mc_CapacityTarget u)
     in math_Exp (- ms_Backlog x) * diff * diff * fl 3)"

definition growthPenalty :: "MPCState \<Rightarrow> f64" where
  "growthPenalty x =
    (let growth = ms_Backlog x - ms_PrevBacklog x
     in if 0 < growth then growth * growth * (fl 20 + math_Sqrt (ms_ArrivalVar x + 1)) else 0)"

definition stage_cost :: "MPCOptimiser \<Rightarrow> MPCState \<Rightarrow> MPCControl \<Rightarrow> MPCControl \<Rightarrow> f64" where
  \<comment> \<open>\<open>cost\<close>\<close>
  "stage_cost m x u prev =
    (let collapsePenalty = math_Pow (ms_Backlog x) (fl 3) * fl 0.05;
         vol = math_Sqrt (ms_ArrivalVar x + 1);
         retryPenalty = mc_RetryFactor u * mc_RetryFactor u * (1 + math_Max 0 (load_pressure x) + vol);
         cacheBenefit = mc_CacheRelief u * ms_ArrivalMean x
     in mo_LatencyCost m * ms_Latency x * ms_Latency x + mo_VarianceBase m * math_Sqrt (ms_ArrivalVar x + 1) +
        excessCost x u + deficitCost x u + idlePenalty x u +
        mo_SmoothCost m * \<bar>mc_CapacityTarget u - mc_CapacityTarget prev\<bar> + smooth_barrier m (ms_Backlog x) +
        collapsePenalty + utilPenalty x + retryPenalty + growthPenalty x - fl 0.5 * cacheBenefit)"

definition terminal_cost :: "MPCOptimiser \<Rightarrow> MPCState \<Rightarrow> f64" where
  "terminal_cost m x =
    (let util = load_pressure x
     in mo_TerminalCost m * (ms_Backlog x * ms_Backlog x + ms_Latency x * ms_Latency x + util * util) +
        mo_SafetyBarrier m * math_Pow (math_Max 0 (ms_Backlog x - fl 5)) (fl 2) * fl 5)"

definition sanitizeMPCState :: "MPCState \<Rightarrow> MPCState" where
  "sanitizeMPCState x =
    x\<lparr> ms_Backlog := finiteNonNegative (ms_Backlog x), ms_Latency := finiteNonNegative (ms_Latency x),
       ms_ArrivalMean := finiteNonNegative (ms_ArrivalMean x), ms_ArrivalVar := finiteNonNegative (ms_ArrivalVar x),
       ms_TopologyPressure := finiteOrZero (ms_TopologyPressure x), ms_TopologyState := finiteOrZero (ms_TopologyState x),
       ms_ServiceRate := math_Max (finiteNonNegative (ms_ServiceRate x)) epsilon6,
       ms_CapacityActive := math_Max (finiteNonNegative (ms_CapacityActive x)) (fl 0.5),
       ms_PrevBacklog := finiteNonNegative (ms_PrevBacklog x) \<rparr>"

definition safeCost :: "f64 \<Rightarrow> f64" where
  "safeCost v = (if math_IsNaN v \<or> math_IsInf v then fl (10 ^ 12) else if v < 0 then 0 else v)"

section \<open>Scoring a plan\<close>

fun path_cost :: "MPCOptimiser \<Rightarrow> MPCControl list \<Rightarrow> nat \<Rightarrow> nat list \<Rightarrow> MPCState \<times> f64 \<times> mpc_rng \<Rightarrow> MPCState \<times> f64 \<times> mpc_rng" where
  \<comment> \<open>the stages of one scenario\<close>
  "path_cost m plan scenario [] acc = acc"
| "path_cost m plan scenario (t # ts) (x, tot, g) =
    (let tot = tot + safeCost (stage_cost m x (plan ! t) (plan ! (t - 1)));
         (x, g) = propagate m x (plan ! t) scenario g
     in path_cost m plan scenario ts (x, tot, g))"

definition scenario_cost :: "MPCOptimiser \<Rightarrow> MPCState \<Rightarrow> MPCControl list \<Rightarrow> nat \<Rightarrow> f64 list \<times> mpc_rng \<Rightarrow> f64 list \<times> mpc_rng" where
  "scenario_cost m initial plan scenario acc =
    (case path_cost m plan scenario [0..<nat (mo_Horizon m)] (initial, 0, snd acc) of
       (x, tot, g) \<Rightarrow> (fst acc @ [tot + safeCost (terminal_cost m x)], g))"

definition tail_index :: "f64 \<Rightarrow> nat \<Rightarrow> nat" where
  "tail_index quantile n =
    (let i = int_of_f64 (quantile * f64_of_int (int n)); i = (if int n \<le> i then int n - 1 else i)
     in nat (if i < 0 then 0 else i))"

definition evaluate_plan :: "MPCOptimiser \<Rightarrow> MPCState \<Rightarrow> MPCControl list \<Rightarrow> mpc_rng \<Rightarrow> f64 \<times> f64 \<times> mpc_rng" where
  \<comment> \<open>\<open>evaluate\<close>: the score and the conditional value at risk\<close>
  "evaluate_plan m initial plan g =
    (let (costs, g) = fold (scenario_cost m (sanitizeMPCState initial) plan) [0..<nat (mo_ScenarioCount m)] ([], g);
         costs = float_sort costs; n = length costs; q = tail_index (mo_RiskQuantile m) n;
         cvar = fold (\<lambda>c a. a + c) (drop q costs) 0 / math_Max 1 (f64_of_int (int n - int q));
         mean = fold (\<lambda>c a. a + c) costs 0 / f64_of_int (int n)
     in (safeCost (mean + mo_RiskWeight m * cvar), safeCost cvar, g))"

section \<open>Annealing\<close>

definition clamp_capacity :: "MPCOptimiser \<Rightarrow> f64 \<Rightarrow> f64" where
  "clamp_capacity m v = math_Max (mo_MinCapacity m) (math_Min (mo_MaxCapacity m) v)"

definition mutate_local :: "MPCOptimiser \<Rightarrow> f64 \<Rightarrow> nat \<Rightarrow> MPCControl list \<Rightarrow> mpc_rng \<Rightarrow> MPCControl list \<times> mpc_rng" where
  "mutate_local m bias i plan g =
    (let u = plan ! i; (a, g) = draw_Float64 g; (b, g) = draw_Float64 g; (c, g) = draw_Float64 g
     in (plan[i := u\<lparr> mc_CapacityTarget := clamp_capacity m (mc_CapacityTarget u + (a - fl 0.5) * mo_MaxStepCap m +
                         fl 0.1 * (bias - mc_CapacityTarget u)),
                     mc_RetryFactor := math_Max 0 (mc_RetryFactor u + (b - fl 0.5) * mo_MaxStepRetry m),
                     mc_CacheRelief := math_Max 0 (mc_CacheRelief u + (c - fl 0.5) * mo_MaxStepCache m) \<rparr>], g))"

fun mutate_global :: "MPCOptimiser \<Rightarrow> MPCControl list \<Rightarrow> mpc_rng \<Rightarrow> MPCControl list \<times> mpc_rng" where
  "mutate_global m [] g = ([], g)"
| "mutate_global m (u # us) g =
    (let (a, g) = draw_Float64 g;
         u' = u\<lparr> mc_CapacityTarget := clamp_capacity m (mc_CapacityTarget u + (a - fl 0.5) * mo_MaxStepCap m * fl 0.5) \<rparr>;
         (us', g) = mutate_global m us g
     in (u' # us', g))"

definition mutate :: "MPCOptimiser \<Rightarrow> MPCState \<Rightarrow> MPCControl list \<Rightarrow> mpc_rng \<Rightarrow> (MPCControl list \<times> mpc_rng) option" where
  \<comment> \<open>\<open>Intn\<close> panics on an empty plan\<close>
  "mutate m x plan g =
    (let bias = (ms_ArrivalMean x + ms_Backlog x * 1) / (ms_ServiceRate x + epsilon6); (u, g) = draw_Float64 g
     in if u < fl 0.8
        then if plan = [] then None
             else let (i, g) = draw_Intn (length plan) g in Some (mutate_local m bias i plan g)
        else Some (mutate_global m plan g))"

definition SetCadenceModifier :: "f64 \<Rightarrow> MPCOptimiser \<Rightarrow> MPCOptimiser" where
  "SetCadenceModifier d m =
    (if d \<le> 0 then m else m\<lparr> mo_IterModifier := (if 1 < d then 1 else d) \<rparr>)"

definition effectiveIters :: "MPCOptimiser \<Rightarrow> int" where
  "effectiveIters m =
    (let base = mo_Iters m; base = (if base \<le> 0 then 1 else base); base = (if 32 < base then 32 else base)
     in if mo_IterModifier m \<le> 0 then base
        else let n = int_of_f64 (math_Max 1 (f64_of_int base * mo_IterModifier m))
          in if base < n then base else n)"

fun anneal :: "MPCOptimiser \<Rightarrow> MPCState \<Rightarrow> nat \<Rightarrow> MPCControl list \<Rightarrow> f64 \<Rightarrow> f64 \<Rightarrow> f64 \<Rightarrow> mpc_rng \<Rightarrow> (MPCControl list \<times> f64 \<times> mpc_rng) option" where
  \<comment> \<open>before an iteration the candidate is a copy of the best plan; the result is the plan and its tail\<close>
  "anneal m x 0 plan best tail temp g = Some (plan, tail, g)"
| "anneal m x (Suc n) plan best tail temp g =
    (case mutate m x plan g of None \<Rightarrow> None
     | Some (candidate, g) \<Rightarrow>
         (let (c, t, g) = evaluate_plan m x candidate g;
              (accept, g) = (if c < best then (True, g)
                             else let (u, g) = draw_Float64 g in (u < math_Exp ((best - c) / temp), g))
          in if accept then anneal m x n candidate c t (temp * mo_Cooling m) g
             else anneal m x n plan best tail (temp * mo_Cooling m) g))"

definition warmRequired :: "MPCState \<Rightarrow> f64" where
  "warmRequired x = (ms_ArrivalMean x + ms_Backlog x * 1) / math_Max (ms_ServiceRate x) 1"

definition idle_control :: MPCControl where
  "idle_control = \<lparr> mc_CapacityTarget = 0, mc_RetryFactor = 0, mc_CacheRelief = 0 \<rparr>"

definition warm_start :: "MPCOptimiser \<Rightarrow> MPCState \<Rightarrow> MPCControl list \<Rightarrow> MPCControl list" where
  "warm_start m x prevSeq =
    map (\<lambda>i. let u = (if i < length prevSeq then prevSeq ! i else idle_control)
      in if length prevSeq \<le> i \<or> fl 10 < ms_Backlog x then u\<lparr> mc_CapacityTarget := warmRequired x \<rparr>
         else u\<lparr> mc_CapacityTarget := fl 0.6 * mc_CapacityTarget u + fl 0.2 * ms_CapacityActive x + fl 0.2 * warmRequired x \<rparr>)
      [0..<nat (mo_Horizon m)]"

definition regime_shift :: "MPCState \<Rightarrow> MPCControl list \<Rightarrow> bool" where
  "regime_shift x prevSeq \<longleftrightarrow>
    prevSeq \<noteq> [] \<and> epsilon6 < ms_ArrivalMean x \<and>
    (let implied = mc_CapacityTarget (hd prevSeq) * ms_ServiceRate x; ratio = ms_ArrivalMean x / implied
     in epsilon6 < implied \<and> (fl 1.30 < ratio \<or> ratio < fl 0.70))"

definition start_plan :: "MPCOptimiser \<Rightarrow> MPCState \<Rightarrow> MPCControl list \<Rightarrow> MPCControl list" where
  "start_plan m x prevSeq =
    (if regime_shift x prevSeq
     then map (\<lambda>u. \<lparr> mc_CapacityTarget = warmRequired x, mc_RetryFactor = 0, mc_CacheRelief = 0 \<rparr>) (warm_start m x prevSeq)
     else warm_start m x prevSeq)"

definition Optimise :: "MPCOptimiser \<Rightarrow> MPCState \<Rightarrow> MPCControl list \<Rightarrow> mpc_rng \<Rightarrow> (MPCControl list \<times> f64 \<times> mpc_rng) option" where
  "Optimise m initial prevSeq g =
    (if mo_Horizon m < 0 \<or> mo_ScenarioCount m < 0 then None
     else let x = sanitizeMPCState initial; plan = start_plan m x prevSeq; (best, tail, g) = evaluate_plan m x plan g
       in case anneal m x (nat (effectiveIters m)) plan best tail (mo_InitTemp m) g of
           None \<Rightarrow> None
         | Some (plan, tail, g) \<Rightarrow>
             (let conf = 1 / (1 + math_Sqrt (safeCost tail))
              in Some (plan, if math_IsNaN conf \<or> math_IsInf conf then 0 else conf, g)))"

section \<open>The plan and the confidence\<close>

lemma math_Max_Min_NaN [simp]: "math_Min (Fin hi) NaN = NaN" "math_Max (Fin lo) NaN = NaN"
  by (simp_all add: math_Min_def math_Max_def math_IsNaN_def)

definition target_ok :: "MPCOptimiser \<Rightarrow> f64 \<Rightarrow> bool" where
  "target_ok m v \<longleftrightarrow> math_IsNaN v \<or> mo_MinCapacity m \<le> v \<and> v \<le> mo_MaxCapacity m"

definition bounds_ok :: "MPCOptimiser \<Rightarrow> bool" where
  "bounds_ok m \<longleftrightarrow> finite64 (mo_MinCapacity m) \<and> finite64 (mo_MaxCapacity m) \<and> mo_MinCapacity m \<le> mo_MaxCapacity m"

lemma clamp_capacity_ok: "bounds_ok m \<Longrightarrow> target_ok m (clamp_capacity m v)"
  by (cases "mo_MinCapacity m"; cases "mo_MaxCapacity m"; cases v)
    (auto simp: bounds_ok_def target_ok_def clamp_capacity_def math_Max_def math_Min_def math_IsNaN_def)

definition evolved :: "MPCOptimiser \<Rightarrow> MPCControl list \<Rightarrow> MPCControl list \<Rightarrow> bool" where
  \<comment> \<open>a plan reached from the first by mutations\<close>
  "evolved m start plan \<longleftrightarrow> list_all2 (\<lambda>u v. mc_CapacityTarget v = mc_CapacityTarget u \<or> target_ok m (mc_CapacityTarget v)) start plan"

lemma evolved_refl: "evolved m p p"
  by (simp add: evolved_def list.rel_refl)

lemma evolved_trans: "evolved m p q \<Longrightarrow> evolved m q r \<Longrightarrow> evolved m p r"
  unfolding evolved_def by (erule (1) list_all2_trans [rotated]) auto

lemma mutate_global_evolved: "bounds_ok m \<Longrightarrow> mutate_global m p g = (q, h) \<Longrightarrow> evolved m p q"
  by (induction m p g arbitrary: q h rule: mutate_global.induct)
    (auto simp: evolved_def Let_def clamp_capacity_ok split: prod.splits)

lemma mutate_local_evolved: "bounds_ok m \<Longrightarrow> mutate_local m bias i p g = (q, h) \<Longrightarrow> evolved m p q"
  by (cases "i < length p")
    (auto simp: evolved_def mutate_local_def Let_def list_all2_conv_all_nth nth_list_update clamp_capacity_ok split: prod.splits)

lemma mutate_evolved: "bounds_ok m \<Longrightarrow> mutate m x p g = Some (q, h) \<Longrightarrow> evolved m p q"
  by (auto simp: mutate_def Let_def mutate_global_evolved mutate_local_evolved split: prod.splits if_splits)

lemma anneal_evolved:
  "bounds_ok m \<Longrightarrow> anneal m x n plan best tail temp g = Some (plan', tail', g') \<Longrightarrow> evolved m plan plan'"
proof (induction n arbitrary: plan best tail temp g)
  case 0
  then show ?case by (simp add: evolved_refl)
next
  case (Suc n)
  from Suc.prems obtain cand h where c: "mutate m x plan g = Some (cand, h)" by (auto split: option.splits)
  then show ?case
    using Suc.prems Suc.IH [OF Suc.prems(1)] evolved_trans [OF mutate_evolved [OF Suc.prems(1) c]]
    by (auto simp: Let_def split: prod.splits if_splits)
qed

lemma safeCost_ok: "\<exists>r \<ge> 0. safeCost v = Fin r"
proof -
  obtain a where "fl (10 ^ 12) = Fin a" "0 \<le> a" using fl_close [of "10 ^ 12"] by auto
  then show ?thesis
    by (cases v) (auto simp: safeCost_def math_IsNaN_def math_IsInf_def zero_f64_def)
qed

lemma mpc_recip_unit: "f_nonneg y \<Longrightarrow> fbtw 0 (1 / (1 + y)) 1"
proof (cases y)
  case (Fin r)
  assume "f_nonneg y"
  then have "1 \<le> 1 + r" using Fin by simp
  moreover from this have "1 \<le> rnd (1 + r)" using rnd_mono [of 1 "1 + r"] rnd_pow2 [of 0] by simp
  ultimately show ?thesis using Fin fl_pos_cases [of "1 + r"] by (auto simp: one_f64_def intro!: fbtw_fl)
qed (auto simp: one_f64_def)

lemma confidence_unit: "fbtw 0 (1 / (1 + math_Sqrt (safeCost v))) 1"
proof (rule mpc_recip_unit)
  obtain r where "0 \<le> r" "safeCost v = Fin r" using safeCost_ok by blast
  then show "f_nonneg (math_Sqrt (safeCost v))" by (auto intro!: fl_nonneg)
qed

lemma fbtw_not_special: "fbtw lo x hi \<Longrightarrow> \<not> math_IsNaN x \<and> \<not> math_IsInf x"
  by (cases x) (auto simp: math_IsNaN_def math_IsInf_def)

lemma start_plan_length [simp]: "length (start_plan m x p) = nat (mo_Horizon m)"
  by (simp add: start_plan_def warm_start_def)

lemma Optimise_shape:
  assumes "Optimise m initial prevSeq g = Some (plan, conf, g')"
  obtains n best tail temp h t where
    "anneal m (sanitizeMPCState initial) n (start_plan m (sanitizeMPCState initial) prevSeq) best tail temp h = Some (plan, t, g')"
    "conf = 1 / (1 + math_Sqrt (safeCost t))" "0 \<le> mo_Horizon m"
  using assms fbtw_not_special [OF confidence_unit]
  by (auto simp: Optimise_def Let_def split: prod.splits option.splits if_splits)

lemma Optimise_confidence:
  assumes "Optimise m initial prevSeq g = Some (plan, conf, g')" shows "fbtw 0 conf 1"
  using assms confidence_unit by (auto elim: Optimise_shape)

lemma Optimise_evolved:
  assumes "bounds_ok m" "Optimise m initial prevSeq g = Some (plan, conf, g')"
  shows "evolved m (start_plan m (sanitizeMPCState initial) prevSeq) plan \<and> int (length plan) = mo_Horizon m"
  using assms(2)
proof (rule Optimise_shape)
  let ?s = "start_plan m (sanitizeMPCState initial) prevSeq"
  fix n best tail temp h t
  assume "anneal m (sanitizeMPCState initial) n ?s best tail temp h = Some (plan, t, g')" and h: "0 \<le> mo_Horizon m"
  then have e: "evolved m ?s plan" by (intro anneal_evolved [OF assms(1)])
  then have "length plan = nat (mo_Horizon m)" by (simp add: evolved_def list_all2_lengthD [symmetric])
  then show ?thesis using e h by simp
qed

lemmas Optimise_length = Optimise_evolved [THEN conjunct2]

text \<open>
  C38: The planner's result has one control per step of the horizon and a confidence between 0 and
  1, whatever the state and the draws; each capacity target is either the warm start's or lies in
  the configured bounds, unless it is not a number.
\<close>

theorem plan_sound:
  assumes "bounds_ok m" "Optimise m initial prevSeq g = Some (plan, conf, g')"
  shows "int (length plan) = mo_Horizon m \<and> fbtw 0 conf 1 \<and>
    evolved m (start_plan m (sanitizeMPCState initial) prevSeq) plan"
  using Optimise_evolved [OF assms] Optimise_confidence [OF assms(2)] by blast

section \<open>The bounds do not bind the warm start\<close>

lemma mutate_keeps_first:
  assumes "mutate m x p g = Some (q, h)" "shd (rn_Float64 g) < fl 0.8" "shd (rn_Intn g) mod length p \<noteq> 0"
  shows "length q = length p \<and> q ! 0 = p ! 0"
  using assms by (auto simp: mutate_def mutate_local_def draw_Float64_def draw_Intn_def Let_def split: if_splits)

definition only_later :: "nat \<Rightarrow> mpc_rng \<Rightarrow> bool" where
  \<comment> \<open>every mutation is local and away from the first step\<close>
  "only_later n g \<longleftrightarrow> (\<forall>u \<in> sset (rn_Float64 g). u < fl 0.8) \<and> (\<forall>i \<in> sset (rn_Intn g). i mod n \<noteq> 0)"

lemma sset_stl: "\<forall>u \<in> sset s. P u \<Longrightarrow> u \<in> sset (stl s) \<Longrightarrow> P u"
  by (cases s) simp

lemma draws_later:
  "only_later n g \<Longrightarrow> draw_Float64 g = (a, h) \<Longrightarrow> only_later n h"
  "only_later n g \<Longrightarrow> draw_NormFloat64 g = (a, h) \<Longrightarrow> only_later n h"
  "only_later n g \<Longrightarrow> draw_ExpFloat64 g = (a, h) \<Longrightarrow> only_later n h"
  "only_later n g \<Longrightarrow> draw_Intn k g = (i, h) \<Longrightarrow> only_later n h"
  by (auto simp: only_later_def draw_Float64_def draw_NormFloat64_def draw_ExpFloat64_def draw_Intn_def
      elim: sset_stl)

lemma disturb_later: "only_later n g \<Longrightarrow> disturb m x k g = (a, h) \<Longrightarrow> only_later n h"
  by (auto simp: disturb_def Let_def split: prod.splits if_splits dest: draws_later)

lemma propagate_later: "only_later n g \<Longrightarrow> propagate m x u k g = (y, h) \<Longrightarrow> only_later n h"
  by (auto simp: propagate_def Let_def split: prod.splits dest: disturb_later)

lemma path_cost_later:
  "only_later n (snd (snd acc)) \<Longrightarrow> only_later n (snd (snd (path_cost m plan k ts acc)))"
  by (induction m plan k ts acc rule: path_cost.induct)
    (auto simp: Let_def split: prod.splits dest: propagate_later)

lemma scenario_cost_later: "only_later n (snd acc) \<Longrightarrow> only_later n (snd (scenario_cost m x plan k acc))"
  using path_cost_later [of n "(x, 0, snd acc)" m plan k "[0..<nat (mo_Horizon m)]"]
  by (simp add: scenario_cost_def case_prod_unfold)

lemma scenarios_later: "only_later n (snd acc) \<Longrightarrow> only_later n (snd (fold (scenario_cost m x plan) ks acc))"
  by (induction ks arbitrary: acc) (simp_all add: scenario_cost_later)

lemma evaluate_later: "only_later n g \<Longrightarrow> only_later n (snd (snd (evaluate_plan m x plan g)))"
  using scenarios_later [of n "([], g)" m "sanitizeMPCState x" plan]
  by (simp add: evaluate_plan_def case_prod_unfold Let_def)

lemma mutate_later:
  assumes "only_later n g" "n = length p" "mutate m x p g = Some (q, h)"
  shows "only_later n h \<and> length q = n \<and> q ! 0 = p ! 0"
proof -
  have "shd (rn_Float64 g) < fl 0.8" "shd (rn_Intn g) mod length p \<noteq> 0"
    using assms(1,2) shd_sset by (auto simp: only_later_def)
  moreover from this have "only_later n h"
    using assms by (auto simp: mutate_def mutate_local_def draw_Float64_def draw_Intn_def only_later_def Let_def
        dest!: stl_sset split: if_splits)
  ultimately show ?thesis using mutate_keeps_first [OF assms(3)] assms(2) by simp
qed

lemma anneal_keeps_first:
  assumes "only_later (length plan) g" "anneal m x n plan best tail temp g = Some (plan', tail', g')"
  shows "plan' ! 0 = plan ! 0"
  using assms
proof (induction n arbitrary: plan best tail temp g)
  case 0
  then show ?case by simp
next
  case (Suc n)
  from Suc.prems(2) obtain cand h where c: "mutate m x plan g = Some (cand, h)" by (auto split: option.splits)
  have l: "only_later (length plan) h" "length cand = length plan" "cand ! 0 = plan ! 0"
    using mutate_later [OF Suc.prems(1) refl c] by auto
  obtain sc t h1 where e: "evaluate_plan m x cand h = (sc, t, h1)" by (cases "evaluate_plan m x cand h") auto
  have h1: "only_later (length plan) h1" using evaluate_later [OF l(1), of m x cand] e by simp
  obtain u h2 where u: "draw_Float64 h1 = (u, h2)" by (cases "draw_Float64 h1") auto
  have h2: "only_later (length plan) h2" by (rule draws_later(1) [OF h1 u])
  show ?case using Suc.prems(2) c e u h1 h2 l Suc.IH [of cand] Suc.IH [of plan]
    by (auto split: if_splits)
qed

lemma start_plan_first:
  assumes "0 < mo_Horizon m" "fl 10 < ms_Backlog x"
  shows "mc_CapacityTarget (start_plan m x p ! 0) = warmRequired x"
  using assms by (simp add: start_plan_def warm_start_def Let_def)

text \<open>
  The capacity bounds do not bind the planner: with a backlog above ten the first target of the
  result, the one the autopilot applies, is the arrivals and the backlog divided by the service
  rate, whatever the bounds are, as long as no mutation happens to hit the first step.
\<close>

theorem warm_start_unbounded:
  assumes "Optimise m initial prevSeq g = Some (plan, conf, g')" "0 < mo_Horizon m"
    "fl 10 < ms_Backlog (sanitizeMPCState initial)" "only_later (nat (mo_Horizon m)) g"
  shows "mc_CapacityTarget (plan ! 0) = warmRequired (sanitizeMPCState initial)"
proof -
  let ?x = "sanitizeMPCState initial" let ?s = "start_plan m ?x prevSeq"
  obtain best tail h where e: "evaluate_plan m ?x ?s g = (best, tail, h)" by (cases "evaluate_plan m ?x ?s g") auto
  have "only_later (length ?s) h" using evaluate_later [of _ g m ?x ?s] e assms(4) by simp
  moreover obtain n t g2 where "anneal m ?x n ?s best tail (mo_InitTemp m) h = Some (plan, t, g2)"
    using assms(1) e by (auto simp: Optimise_def Let_def split: option.splits if_splits)
  ultimately have "plan ! 0 = ?s ! 0" by (rule anneal_keeps_first)
  then show ?thesis by (simp add: start_plan_first [OF assms(2,3)])
qed

definition greedy_optimiser :: MPCOptimiser where
  \<comment> \<open>two steps, one iteration, capacity between 1 and 10\<close>
  "greedy_optimiser =
    \<lparr> mo_Horizon = 2, mo_Dt = 1, mo_ScenarioCount = 1, mo_Deterministic = True, mo_BurstProb = 0, mo_BacklogCost = 1,
      mo_LatencyCost = 1, mo_VarianceBase = 1, mo_ScalingCost = 1, mo_SmoothCost = 1, mo_TerminalCost = 1,
      mo_UtilCost = 1, mo_SafetyBarrier = 1, mo_RiskQuantile = 0, mo_RiskWeight = 1, mo_MaxCapacity = fl 10,
      mo_MinCapacity = 1, mo_MaxStepCap = 1, mo_MaxStepRetry = 1, mo_MaxStepCache = 1, mo_InitTemp = 1,
      mo_Cooling = 1, mo_Iters = 1, mo_IterModifier = 1 \<rparr>"

definition busy_state :: MPCState where
  "busy_state =
    \<lparr> ms_Backlog = fl 20, ms_Latency = 0, ms_ArrivalMean = fl 1000, ms_ArrivalVar = 0, ms_TopologyPressure = 0,
      ms_TopologyState = 0, ms_ServiceRate = 1, ms_CapacityActive = 1, ms_PrevBacklog = 0 \<rparr>"

definition calm_rng :: mpc_rng where
  "calm_rng = \<lparr> rn_Float64 = sconst 0, rn_NormFloat64 = sconst 0, rn_ExpFloat64 = sconst 0, rn_Intn = sconst 1 \<rparr>"

lemma mutate_global_length: "length (fst (mutate_global m p g)) = length p"
  by (induction p arbitrary: g) (simp_all add: Let_def case_prod_unfold)

lemma mutate_returns: "p \<noteq> [] \<Longrightarrow> \<exists>c h. mutate m x p g = Some (c, h) \<and> c \<noteq> []"
  using mutate_global_length [of m p "snd (draw_Float64 g)"]
  by (cases "mutate_global m p (snd (draw_Float64 g))")
    (auto simp: mutate_def mutate_local_def Let_def case_prod_unfold)

lemma anneal_returns: "p \<noteq> [] \<Longrightarrow> \<exists>r. anneal m x n p best tail temp g = Some r"
proof (induction n arbitrary: p best tail temp g)
  case (Suc n)
  obtain c h where "mutate m x p g = Some (c, h)" "c \<noteq> []" using mutate_returns [OF Suc.prems] by blast
  then show ?case using Suc by (auto simp: Let_def case_prod_unfold)
qed simp

text \<open>The planner returns: with a positive horizon no draw can make it panic.\<close>

lemma Optimise_returns:
  assumes "0 < mo_Horizon m" "0 \<le> mo_ScenarioCount m"
  shows "\<exists>plan conf g'. Optimise m x p g = Some (plan, conf, g')"
proof -
  have "start_plan m (sanitizeMPCState x) p \<noteq> []"
    using start_plan_length [of m "sanitizeMPCState x" p] assms(1) by (metis list.size(3) zero_less_nat_eq less_irrefl)
  from anneal_returns [OF this] show ?thesis
    using assms by (fastforce simp: Optimise_def Let_def case_prod_unfold split: option.splits)
qed

lemma greedy_returns: "\<exists>plan conf g'. Optimise greedy_optimiser x p g = Some (plan, conf, g')"
  by (rule Optimise_returns) (simp_all add: greedy_optimiser_def)

theorem plan_sound_witness:
  "bounds_ok greedy_optimiser \<and> (\<exists>plan conf g'. Optimise greedy_optimiser busy_state [] calm_rng = Some (plan, conf, g') \<and>
     int (length plan) = 2 \<and> fbtw 0 conf 1)"
proof -
  have b: "bounds_ok greedy_optimiser" by (simp add: bounds_ok_def greedy_optimiser_def one_f64_def)
  obtain plan conf g' where o: "Optimise greedy_optimiser busy_state [] calm_rng = Some (plan, conf, g')"
    using greedy_returns by blast
  show ?thesis using plan_sound [OF b o] o b by (auto simp: greedy_optimiser_def)
qed

theorem warm_start_unbounded_witness:
  "\<exists>plan conf g'. Optimise greedy_optimiser busy_state [] calm_rng = Some (plan, conf, g') \<and>
     mc_CapacityTarget (plan ! 0) = fl 1020 \<and> mo_MaxCapacity greedy_optimiser = fl 10"
proof -
  obtain plan conf g' where o: "Optimise greedy_optimiser busy_state [] calm_rng = Some (plan, conf, g')"
    using greedy_returns by blast
  obtain a where a: "fl (4 / 5) = Fin a" "4 / 5 - 1 / 100000 \<le> a" using fl_close [of "4 / 5"] by auto
  obtain b where b: "epsilon6 = Fin b" "b \<le> 1 / 1000000 + 1 / 100000" using fl_close [of "1 / 1000000"] by auto
  have later: "only_later 2 calm_rng" using a by (simp add: only_later_def calm_rng_def zero_f64_def)
  have x: "ms_Backlog (sanitizeMPCState busy_state) = fl 20" "warmRequired (sanitizeMPCState busy_state) = fl 1020"
    using b by (simp_all add: sanitizeMPCState_def busy_state_def warmRequired_def finiteNonNegative_def AutoIdent.finiteOrZero_def
        math_IsNaN_def math_IsInf_def math_Max_def one_f64_def zero_f64_def Let_def)
  have "fl 10 < ms_Backlog (sanitizeMPCState busy_state)" unfolding x by simp
  from warm_start_unbounded [OF o _ this] show ?thesis using o later x by (simp add: greedy_optimiser_def)
qed

lemma effectiveIters_unscaled:
  "effectiveIters (m\<lparr> mo_IterModifier := 0 \<rparr>) = (if mo_Iters m \<le> 0 then 1 else min 32 (mo_Iters m))"
  by (simp add: effectiveIters_def zero_f64_def Let_def min_def)

lemma effectiveIters_le: "effectiveIters m \<le> (if mo_Iters m \<le> 0 then 1 else min 32 (mo_Iters m))"
  by (simp add: effectiveIters_def Let_def min_def)

lemma SetCadenceModifier_Iters [simp]: "mo_Iters (SetCadenceModifier d m) = mo_Iters m"
  by (simp add: SetCadenceModifier_def)

text \<open>
  Damping never buys iterations: whatever the damping factor is, the planner runs at most as many
  iterations as without it.
\<close>

theorem cadence_never_adds:
  "effectiveIters (SetCadenceModifier d m) \<le> effectiveIters (m\<lparr> mo_IterModifier := 0 \<rparr>)"
  using effectiveIters_le [of "SetCadenceModifier d m"] by (simp add: effectiveIters_unscaled cong: if_cong)

end
