(* ===== verification/AutoSafety.thy ===== *)
theory AutoSafety
  imports AutoMPC GoTime FloatSign
begin

text \<open>
  \<open>internal/autopilot/safety.go\<close> and \<open>confidence_engine.go\<close>: the safety override on a planned
  trajectory (the legacy engine, the barrier-function engine and the shadow that runs both and
  follows the legacy one) and the confidence in the decisions (legacy, logistic and their
  shadow).  \<open>math.Gamma\<close> is an argument; the loop of the Erlang formula runs on fuel, \<open>None\<close>
  being a loop that has not ended.  The explanations are reduced to the divergence flag.
\<close>

record SafetyState =
  ys_Backlog :: f64
  ys_Latency :: f64
  ys_CapacityActive :: f64
  ys_CapacityTarget :: f64
  ys_ServiceRate :: f64
  ys_ArrivalMean :: f64
  ys_ArrivalVar :: f64
  ys_Disturbance :: f64
  ys_TopologyPressure :: f64
  ys_RetryPressure :: f64

record LegacySafetyEngine =
  le_BaseMaxBacklog :: f64
  le_BaseMaxLatency :: f64
  le_Alpha :: f64
  le_Beta :: f64
  le_ArrivalGain :: f64
  le_DisturbanceGain :: f64
  le_TopologyGain :: f64
  le_RetryGain :: f64
  le_TailRiskBase :: f64
  le_AccelBaseWindow :: int
  le_AccelThreshold :: f64
  le_MaxCapacityRamp :: f64
  le_CapacityEffectTau :: f64
  le_TopologyDelayTau :: f64
  le_TerminalEnergyBase :: f64
  le_ContractionSlack :: f64
  le_HysteresisBand :: f64
  le_LastUnsafe :: bool
  le_AdaptiveTightness :: f64

section \<open>The legacy engine\<close>

definition energy :: "LegacySafetyEngine \<Rightarrow> SafetyState \<Rightarrow> f64" where
  "energy s x =
    (let util = ys_ArrivalMean x - ys_ServiceRate x * ys_CapacityActive x
     in ys_Backlog x * ys_Backlog x + le_Alpha s * util * util + le_Beta s * ys_Disturbance x * ys_Disturbance x)"

definition backlogLimit :: "LegacySafetyEngine \<Rightarrow> SafetyState \<Rightarrow> f64" where
  "backlogLimit s x =
    (let scale = 1 + le_ArrivalGain s * \<bar>ys_ArrivalMean x\<bar> + le_DisturbanceGain s * \<bar>ys_Disturbance x\<bar> +
           le_TopologyGain s * \<bar>ys_TopologyPressure x\<bar> + le_RetryGain s * \<bar>ys_RetryPressure x\<bar>
     in (le_BaseMaxBacklog s / scale) * (1 - fl 0.5 * le_AdaptiveTightness s))"

definition riskMargin :: "LegacySafetyEngine \<Rightarrow> SafetyState \<Rightarrow> f64" where
  "riskMargin s x = le_TailRiskBase s * math_Pow (ys_ArrivalVar x + 1) (fl 0.75)"

definition adaptiveEnergyBound :: "LegacySafetyEngine \<Rightarrow> SafetyState \<Rightarrow> f64" where
  "adaptiveEnergyBound s x =
    (let tube = 1 + fl 0.3 * \<bar>ys_Disturbance x\<bar> + fl 0.2 * \<bar>ys_TopologyPressure x\<bar> in energy s x * tube)"

definition accelWindow :: "LegacySafetyEngine \<Rightarrow> SafetyState \<Rightarrow> int" where
  "accelWindow s x =
    (let loadFactor = \<bar>ys_ArrivalMean x\<bar> / (ys_ServiceRate x * ys_CapacityActive x + 1);
         w = int_of_f64 (f64_of_int (le_AccelBaseWindow s) * (1 + loadFactor))
     in if w < 3 then 3 else w)"

definition InstabilityGrowth :: "LegacySafetyEngine \<Rightarrow> SafetyState list \<Rightarrow> bool" where
  "InstabilityGrowth s traj =
    (let w = accelWindow s (hd traj); e0 = energy s (hd traj)
     in if int (length traj) < w then False
        else fl 0.5 < fold (\<lambda>i r. r + (energy s (traj ! i) - energy s (traj ! (i - 1))) / (e0 + 1)) [1..<nat w] 0)"

definition ActuationFeasible :: "LegacySafetyEngine \<Rightarrow> SafetyState \<Rightarrow> SafetyState \<Rightarrow> bool" where
  "ActuationFeasible s current target \<longleftrightarrow>
    \<bar>ys_CapacityActive target - ys_CapacityActive current\<bar> \<le>
      le_MaxCapacityRamp s / (1 + le_CapacityEffectTau s + le_TopologyDelayTau s)"

definition terminalSafe :: "LegacySafetyEngine \<Rightarrow> SafetyState \<Rightarrow> bool" where
  "terminalSafe s x \<longleftrightarrow>
    energy s x < le_TerminalEnergyBase s * (1 + fl 0.5 * \<bar>ys_Disturbance x\<bar>) \<and> ys_Backlog x < backlogLimit s x * fl 0.7"

definition recursivelySafe :: "LegacySafetyEngine \<Rightarrow> SafetyState list \<Rightarrow> bool" where
  "recursivelySafe s traj \<longleftrightarrow>
    list_all (\<lambda>i. ActuationFeasible s (traj ! i) (traj ! (i + 1))) [0..<length traj - 1] \<and> terminalSafe s (last traj)"

definition reactionPossible :: "SafetyState \<Rightarrow> int \<Rightarrow> bool" where
  "reactionPossible x horizon \<longleftrightarrow>
    ys_ArrivalMean x - ys_ServiceRate x * ys_CapacityActive x < math_Log (1 + ys_ServiceRate x * f64_of_int horizon)"

definition fallbackCapacity :: "LegacySafetyEngine \<Rightarrow> SafetyState \<Rightarrow> f64" where
  "fallbackCapacity s x =
    (let required = ys_ArrivalMean x / (ys_ServiceRate x + epsilon6);
         base = math_Max (ys_CapacityActive x) (ys_CapacityTarget x)
     in math_Min (required * fl 1.3) (base + le_MaxCapacityRamp s))"

definition PredictiveSafe :: "LegacySafetyEngine \<Rightarrow> SafetyState list \<Rightarrow> bool" where
  "PredictiveSafe s traj \<longleftrightarrow>
    list_all (\<lambda>x. \<not> backlogLimit s x - riskMargin s x < ys_Backlog x \<and> \<not> le_BaseMaxLatency s < ys_Latency x \<and>
      \<not> adaptiveEnergyBound s (hd traj) < energy s x) traj \<and>
    (traj \<noteq> [] \<longrightarrow> \<not> energy s (hd traj) * (1 + le_ContractionSlack s) < energy s (last traj))"

definition unsafe_plan :: "LegacySafetyEngine \<Rightarrow> SafetyState list \<Rightarrow> bool" where
  "unsafe_plan s traj \<longleftrightarrow>
    \<not> PredictiveSafe s traj \<or> InstabilityGrowth s traj \<or> \<not> recursivelySafe s traj \<or>
    \<not> reactionPossible (hd traj) (int (length traj))"

definition EmergencyOverride :: "LegacySafetyEngine \<Rightarrow> SafetyState list \<Rightarrow> LegacySafetyEngine \<times> bool \<times> f64" where
  "EmergencyOverride s traj =
    (if unsafe_plan s traj \<and> \<not> le_LastUnsafe s then (s\<lparr> le_LastUnsafe := True \<rparr>, True, fallbackCapacity s (hd traj))
     else (if unsafe_plan s traj then s else s\<lparr> le_LastUnsafe := False \<rparr>, False, 0))"

definition SetAdaptiveTightness :: "f64 \<Rightarrow> LegacySafetyEngine \<Rightarrow> LegacySafetyEngine" where
  "SetAdaptiveTightness t s =
    (let t = (if t < 0 then 0 else t); t = (if 1 < t then 1 else t) in s\<lparr> le_AdaptiveTightness := t \<rparr>)"

definition lag_capacity :: "MPCControl \<Rightarrow> SafetyState \<Rightarrow> SafetyState" where
  "lag_capacity u x =
    (let delta = mc_CapacityTarget u - ys_CapacityActive x
     in if fl 80 < ys_Backlog x then x\<lparr> ys_CapacityActive := mc_CapacityTarget u \<rparr>
        else if fl 40 < ys_Backlog x then x\<lparr> ys_CapacityActive := ys_CapacityActive x + delta * fl 0.6 \<rparr>
        else x\<lparr> ys_CapacityActive := ys_CapacityActive x + delta * fl 0.3 \<rparr>)"

primrec plan_trajectory :: "MPCControl list \<Rightarrow> SafetyState \<Rightarrow> SafetyState list" where
  "plan_trajectory [] x = []"
| "plan_trajectory (u # us) x = lag_capacity u x # plan_trajectory us (lag_capacity u x)"

definition ShouldOverrideProb ::
  "SafetyState \<Rightarrow> MPCControl list \<Rightarrow> f64 \<Rightarrow> LegacySafetyEngine \<Rightarrow> LegacySafetyEngine \<times> bool \<times> f64" where
  "ShouldOverrideProb x plan arrivalUpper s =
    (if plan = [] then (s, False, 0)
     else let worst = (if ys_ArrivalMean x < arrivalUpper then x\<lparr> ys_ArrivalMean := arrivalUpper \<rparr> else x)
       in EmergencyOverride s (plan_trajectory plan worst))"

section \<open>The barrier-function engine and the shadow\<close>

record CBFSafetyEngine =
  cb_BaseMaxBacklog :: f64
  cb_TimeStep :: f64
  cb_EffectTau :: f64

fun erlang_sum :: "nat \<Rightarrow> (f64 \<Rightarrow> f64) \<Rightarrow> f64 \<Rightarrow> f64 \<Rightarrow> f64 \<Rightarrow> f64 \<Rightarrow> f64 option" where
  \<comment> \<open>the loop \<open>for k := 0.0; k < c; k++\<close>\<close>
  "erlang_sum 0 gamma a c k den = (if k < c then None else Some den)"
| "erlang_sum (Suc n) gamma a c k den =
    (if k < c then erlang_sum n gamma a c (k + 1) (den + math_Pow a k / gamma (k + 1)) else Some den)"

definition cbf_erlangC :: "nat \<Rightarrow> (f64 \<Rightarrow> f64) \<Rightarrow> f64 \<Rightarrow> f64 \<Rightarrow> f64 \<Rightarrow> f64 option" where
  "cbf_erlangC fuel gamma lam mu c =
    (let rho = lam / (mu * c + epsilon6)
     in if fl 0.99 \<le> rho then Some (math_Max 0 (lam - mu * c))
        else let num = math_Pow (lam / mu) c / gamma (c + 1)
          in case erlang_sum fuel gamma (lam / mu) c 0 0 of None \<Rightarrow> None
             | Some den \<Rightarrow> (let pb = num / (den + num / (1 - rho)) in Some ((pb * rho) / (1 - rho))))"

definition cbf_ShouldOverrideProb ::
  "nat \<Rightarrow> (f64 \<Rightarrow> f64) \<Rightarrow> CBFSafetyEngine \<Rightarrow> SafetyState \<Rightarrow> MPCControl list \<Rightarrow> f64 \<Rightarrow> (bool \<times> f64) option" where
  "cbf_ShouldOverrideProb fuel gamma s x plan arrivalUpper =
    (if plan = [] then Some (False, 0)
     else let targetCap = mc_CapacityTarget (hd plan)
       in case cbf_erlangC fuel gamma arrivalUpper (ys_ServiceRate x) targetCap of None \<Rightarrow> None
          | Some qGrowth \<Rightarrow>
             (let netFlow = arrivalUpper - ys_ServiceRate x * targetCap;
                  predicted = (if 0 < netFlow then ys_Backlog x + qGrowth else math_Max 0 (ys_Backlog x + netFlow));
                  h_x = cb_BaseMaxBacklog s - ys_Backlog x;
                  h_next = cb_BaseMaxBacklog s - predicted;
                  g = cb_TimeStep s / (cb_EffectTau s + epsilon6);
                  g = (if 1 < g then 1 else g);
                  violated = (h_next - h_x < - g * h_x \<or> cb_BaseMaxBacklog s \<le> predicted)
              in Some (violated, if violated then math_Max (ys_CapacityActive x) targetCap + 1 else 0)))"

record safety_result =
  sr_override :: bool
  sr_severity :: f64
  sr_divergence :: bool

definition shadow_ShouldOverrideProb ::
  "nat \<Rightarrow> (f64 \<Rightarrow> f64) \<Rightarrow> CBFSafetyEngine \<Rightarrow> SafetyState \<Rightarrow> MPCControl list \<Rightarrow> f64 \<Rightarrow> LegacySafetyEngine \<Rightarrow>
    (LegacySafetyEngine \<times> safety_result) option" where
  "shadow_ShouldOverrideProb fuel gamma cbf x plan arrivalUpper legacy =
    (case ShouldOverrideProb x plan arrivalUpper legacy of (legacy', ov, sev) \<Rightarrow>
       (case cbf_ShouldOverrideProb fuel gamma cbf x plan arrivalUpper of None \<Rightarrow> None
        | Some (cov, csev) \<Rightarrow> Some (legacy', \<lparr> sr_override = ov, sr_severity = sev, sr_divergence = (ov \<noteq> cov) \<rparr>)))"

section \<open>Confidence\<close>

record ConfidenceState =
  cf_PrevConfidence :: f64
  cf_LastTickTime :: gotime

record ConfidenceInput =
  ci_TrendConsistency :: f64
  ci_SignalAgreement :: f64
  ci_ControlEffectiveness :: f64
  ci_Oscillation :: f64

definition max3 :: "f64 \<Rightarrow> f64 \<Rightarrow> f64 \<Rightarrow> f64" where
  "max3 a b c = (if b < a then if c < a then a else c else if c < b then b else c)"

definition legacy_raw :: "f64 \<Rightarrow> f64 \<Rightarrow> f64 \<Rightarrow> f64 \<Rightarrow> f64" where
  "legacy_raw c a e osc =
    (let agreement = 1 - \<bar>c - a\<bar>;
         magnitude = (c + a) * fl 0.5;
         coherence = fl 0.5 * magnitude + fl 0.5 * agreement;
         controlGain = (fl 0.2 + fl 0.8 * e * e) / (1 + fl 0.2 * (1 - e));
         mismatch = \<bar>c - a\<bar>;
         instability = unit_clamp (max3 mismatch (1 - c) (1 - e));
         shortTermRisk = fl 0.6 * instability + fl 0.4 * osc;
         stabilityFactor = 1 / (1 + fl 3 * shortTermRisk + fl 2 * shortTermRisk * shortTermRisk);
         raw = coherence * controlGain * stabilityFactor
     in if fl 0.8 < instability \<and> (fl 0.5 < osc \<or> e < fl 0.15) then raw * fl 0.15
        else if fl 0.8 < osc then raw * fl 0.3 else raw)"

definition legacy_blend :: "f64 \<Rightarrow> f64 \<Rightarrow> f64" where
  \<comment> \<open>saturation and temporal smoothing\<close>
  "legacy_blend p raw =
    (let conf = raw / (fl 0.40 + fl 0.60 * raw);
         alpha = fl 0.25 + fl 0.30 * (1 - p);
         alpha = (if fl 0.85 < alpha then fl 0.85 else alpha)
     in unit_clamp ((1 - alpha) * p + alpha * conf))"

definition legacy_Estimate :: "gotime \<Rightarrow> ConfidenceInput \<Rightarrow> ConfidenceState \<Rightarrow> f64 \<times> ConfidenceState" where
  "legacy_Estimate now i prev =
    (let raw = legacy_raw (unit_clamp (ci_TrendConsistency i)) (unit_clamp (ci_SignalAgreement i))
           (unit_clamp (ci_ControlEffectiveness i)) (unit_clamp (ci_Oscillation i));
         conf = legacy_blend (cf_PrevConfidence prev) raw;
         calmness = (1 - ci_Oscillation i) * ci_TrendConsistency i;
         conf = (if fl 0.35 < calmness \<and> fl 0.3 < ci_ControlEffectiveness i \<and> conf < fl 0.6
                 then unit_clamp (conf + fl 0.08 * (1 - conf)) else conf)
     in (conf, \<lparr> cf_PrevConfidence = conf, cf_LastTickTime = now \<rparr>))"

record LogisticConfidenceEstimator =
  lg_WeightTrend :: f64
  lg_WeightAgree :: f64
  lg_WeightCtrl :: f64
  lg_WeightOsc :: f64
  lg_Intercept :: f64
  lg_TimeConst :: duration

definition NewLogisticConfidenceEstimator :: LogisticConfidenceEstimator where
  "NewLogisticConfidenceEstimator =
    \<lparr> lg_WeightTrend = fl 3.1363, lg_WeightAgree = fl 3.3163, lg_WeightCtrl = fl 5.2644, lg_WeightOsc = fl (- 6.5301),
      lg_Intercept = fl (- 1.5), lg_TimeConst = 2 * Second \<rparr>"

definition logistic_Estimate ::
  "LogisticConfidenceEstimator \<Rightarrow> gotime \<Rightarrow> ConfidenceInput \<Rightarrow> ConfidenceState \<Rightarrow> f64 \<times> ConfidenceState" where
  "logistic_Estimate c now i prev =
    (let logit = lg_Intercept c + lg_WeightTrend c * ci_TrendConsistency i + lg_WeightAgree c * ci_SignalAgreement i +
           lg_WeightCtrl c * ci_ControlEffectiveness i + lg_WeightOsc c * ci_Oscillation i;
         instantProb = 1 / (1 + math_Exp (- logit));
         dt = duration_Seconds (time_sub now (cf_LastTickTime prev));
         dt = (if dt \<le> 0 \<or> fl 10 < dt then 1 else dt);
         tauSec = duration_Seconds (lg_TimeConst c);
         tauSec = (if instantProb < cf_PrevConfidence prev then tauSec * fl 0.5 else tauSec);
         alpha = 1 - math_Exp (- dt / tauSec);
         smoothed = (1 - alpha) * cf_PrevConfidence prev + alpha * instantProb
     in (smoothed, \<lparr> cf_PrevConfidence = smoothed, cf_LastTickTime = now \<rparr>))"

definition shadow_Estimate ::
  "LogisticConfidenceEstimator \<Rightarrow> gotime \<Rightarrow> gotime \<Rightarrow> ConfidenceInput \<Rightarrow> ConfidenceState \<Rightarrow> f64 \<times> ConfidenceState \<times> bool" where
  \<comment> \<open>two clock readings; the last component is the drift alert\<close>
  "shadow_Estimate c now1 now2 i prev =
    (let (legacyConf, legacyState) = legacy_Estimate now1 i prev; (logisticConf, st) = logistic_Estimate c now2 i prev
     in (logisticConf, legacyState, fl 0.4 < \<bar>legacyConf - logisticConf\<bar>))"

section \<open>The override lasts one tick\<close>

lemma SetAdaptiveTightness_LastUnsafe [simp]: "le_LastUnsafe (SetAdaptiveTightness t s) = le_LastUnsafe s"
  by (simp add: SetAdaptiveTightness_def Let_def)

lemma ShouldOverrideProb_latched: "le_LastUnsafe s \<Longrightarrow> \<not> fst (snd (ShouldOverrideProb x plan up s))"
  by (simp add: ShouldOverrideProb_def EmergencyOverride_def Let_def)

lemma ShouldOverrideProb_latches: "ShouldOverrideProb x plan up s = (s', True, cap) \<Longrightarrow> le_LastUnsafe s'"
  by (auto simp: ShouldOverrideProb_def EmergencyOverride_def Let_def split: if_splits)

text \<open>
  An emergency override lasts a single tick: the check that follows an overriding one never
  overrides, however unsafe the state and the plan are by then and however the limits have been
  tightened.
\<close>

theorem override_lasts_one_tick:
  assumes "ShouldOverrideProb x plan up s = (s', True, cap)"
  shows "\<not> fst (snd (ShouldOverrideProb y plan' up' (SetAdaptiveTightness t s')))"
  by (rule ShouldOverrideProb_latched) (simp add: ShouldOverrideProb_latches [OF assms])

lemma plan_trajectory_static:
  \<comment> \<open>the trajectory that is checked only moves the capacity\<close>
  "y \<in> set (plan_trajectory plan x) \<Longrightarrow> \<exists>c. y = x\<lparr> ys_CapacityActive := c \<rparr>"
  by (induction plan arbitrary: x) (fastforce simp: lag_capacity_def Let_def split: if_splits)+

section \<open>The Erlang loop\<close>

lemma erlang_sum_long:
  assumes "n + k \<le> 2 ^ 50" "Fin (real (n + k)) < c"
  shows "erlang_sum n gamma a c (Fin (real k)) den = None"
  using assms
proof (induction n arbitrary: k den)
  case (Suc n)
  have "Fin (real k) + 1 = Fin (real (Suc k))"
    using f64_of_int_small [of "int (Suc k)"] Suc.prems(1) by (simp add: one_f64_def f64_of_int_def add.commute)
  moreover have "Fin (real k) < c" using Suc.prems(2) by (cases c) auto
  ultimately show ?case using Suc.prems Suc.IH [of "Suc k"] by simp
qed simp

text \<open>
  The barrier check takes time proportional to the planned capacity, which nothing bounds: below
  saturation the loop of its Erlang formula has not ended after any number of rounds that is
  smaller than the first capacity target of the plan.
\<close>

theorem barrier_check_linear_in_capacity:
  assumes "plan \<noteq> []" "rounds \<le> 2 ^ 50" "f64_of_int (int rounds) < mc_CapacityTarget (hd plan)"
    and "\<not> fl 0.99 \<le> up / (ys_ServiceRate x * mc_CapacityTarget (hd plan) + epsilon6)"
  shows "shadow_ShouldOverrideProb rounds gamma cbf x plan up legacy = None"
proof -
  have "f64_of_int (int rounds) = Fin (real rounds)"
    using assms(2) f64_of_int_small [of "int rounds"] by simp
  then have "erlang_sum rounds gamma b (mc_CapacityTarget (hd plan)) 0 0 = None" for b
    using erlang_sum_long [of rounds 0 "mc_CapacityTarget (hd plan)" gamma b 0] assms(2,3) by (simp add: zero_f64_def)
  then have "cbf_erlangC rounds gamma up (ys_ServiceRate x) (mc_CapacityTarget (hd plan)) = None"
    using assms(4) by (simp add: cbf_erlangC_def Let_def)
  then show ?thesis
    using assms(1) by (simp add: shadow_ShouldOverrideProb_def cbf_ShouldOverrideProb_def split: prod.splits)
qed

section \<open>The confidence is a probability\<close>

lemma f64_add_commute: "x + y = y + (x :: f64)"
  by (cases x; cases y) (simp_all add: add.commute)

lemma unit_clamp_btw: "x \<noteq> NaN \<Longrightarrow> fbtw 0 (unit_clamp x) 1"
  by (cases x) (auto simp: unit_clamp_def zero_f64_def one_f64_def)

lemma fbtw_mult_unit:
  assumes "fbtw (- h) x h" "fbtw 0 y 1" "fbound h" shows "fbtw (- h) (x * y) h"
proof -
  obtain r s where r: "x = Fin r" "y = Fin s" "- h \<le> r" "r \<le> h" "0 \<le> s" "s \<le> 1"
    using assms(1,2) by (auto elim!: fbtwE)
  have h: "0 \<le> h" using r(3,4) by linarith
  have "\<bar>r * s\<bar> \<le> h * 1" unfolding abs_mult using r h by (intro mult_mono) auto
  then have "- h \<le> r * s" "r * s \<le> h" by linarith+
  then show ?thesis using r assms(3) by (auto intro!: fbtw_fl simp: fbound_def frep_minus)
qed

lemma fl_btw:
  assumes "- 1000 \<le> x" "x \<le> 1000" "lo \<le> x - 1 / 100000" "x + 1 / 100000 \<le> hi" shows "fbtw lo (fl x) hi"
proof -
  obtain y where "fl x = Fin y" "x - 1 / 100000 \<le> y" "y \<le> x + 1 / 100000" using fl_close [of x] assms(1,2) by auto
  then show ?thesis using assms(3,4) by simp
qed

definition inputs_unit :: "ConfidenceInput \<Rightarrow> bool" where
  "inputs_unit i \<longleftrightarrow> fbtw 0 (ci_TrendConsistency i) 1 \<and> fbtw 0 (ci_SignalAgreement i) 1 \<and>
    fbtw 0 (ci_ControlEffectiveness i) 1 \<and> fbtw 0 (ci_Oscillation i) 1"

lemma logit_btw:
  assumes "inputs_unit i"
  shows "fbtw (- 34) (lg_Intercept NewLogisticConfidenceEstimator +
    lg_WeightTrend NewLogisticConfidenceEstimator * ci_TrendConsistency i +
    lg_WeightAgree NewLogisticConfidenceEstimator * ci_SignalAgreement i +
    lg_WeightCtrl NewLogisticConfidenceEstimator * ci_ControlEffectiveness i +
    lg_WeightOsc NewLogisticConfidenceEstimator * ci_Oscillation i) 34"
proof -
  have w: "fbtw (- 8) (fl w * y) 8" if "fbtw 0 y 1" "- 7 \<le> w" "w \<le> 7" for w y
    using that by (intro fbtw_mult_unit fl_btw) auto
  have a: "fbtw (- k) (x + fl w * y) k"
    if "fbtw (- h) x h" "fbtw 0 y 1" "- 7 \<le> w" "w \<le> 7" "h + 8 \<le> k" "fbound k" for x y w h k
    using that by (intro fbtw_add [OF that(1) w]) (auto simp: fbound_def)
  have "fbtw (- 2) (fl (- 1.5)) 2" by (rule fl_btw) auto
  then show ?thesis
    using assms unfolding NewLogisticConfidenceEstimator_def inputs_unit_def LogisticConfidenceEstimator.select_convs
    by (intro a [where h = 26 and k = 34, OF a [where h = 18, OF a [where h = 10, OF a [where h = 2]]]]) auto
qed

lemma max3_btw: "fbtw 0 a 1 \<Longrightarrow> fbtw 0 b 1 \<Longrightarrow> fbtw 0 c 1 \<Longrightarrow> fbtw 0 (max3 a b c) 1"
  by (simp add: max3_def)

lemma one_minus_btw: "fbtw 0 x 1 \<Longrightarrow> fbtw 0 (1 - x) 1"
  by (rule fbtw_diff [where a = 1 and b = 1]) (auto simp: one_f64_def)

lemma scaled_btw: "fbtw 0 x h \<Longrightarrow> 0 \<le> w \<Longrightarrow> w \<le> 5 \<Longrightarrow> fbound (6 * h) \<Longrightarrow> 0 \<le> h \<Longrightarrow> fbtw 0 (fl w * x) (6 * h)"
  by (rule fbtw_mult [where a = 0 and b = 6 and c = 0 and d = h]) (auto intro!: fbtw_fl)

lemma legacy_raw_btw:
  assumes c: "fbtw 0 c 1" and a: "fbtw 0 a 1" and e: "fbtw 0 e 1" and osc: "fbtw 0 osc 1"
  shows "fbtw 0 (legacy_raw c a e osc) 20000"
proof -
  have mis: "fbtw 0 \<bar>c - a\<bar> 1"
    by (rule fbtw_abs [where a = "- 1" and b = 1], rule fbtw_diff [OF c a]) auto
  have mag: "fbtw 0 ((c + a) * fl 0.5) 4"
    by (rule fbtw_mult [where a = 0 and b = 2 and c = 0 and d = 2], rule fbtw_add [OF c a]) (auto intro!: fbtw_fl)
  have coh: "fbtw 0 (fl 0.5 * ((c + a) * fl 0.5) + fl 0.5 * (1 - \<bar>c - a\<bar>)) 30"
    using scaled_btw [OF mag, of "0.5"] scaled_btw [OF one_minus_btw [OF mis], of "0.5"]
    by (intro fbtw_add [where a = 0 and c = 0 and b = 24 and d = 6]) auto
  have e8: "fbtw 0 (fl 0.8 * e * e) 6" using fbtw_mult [OF scaled_btw [OF e, of "0.8"] e] by auto
  have gain: "fbtw 0 ((fl 0.2 + fl 0.8 * e * e) / (1 + fl 0.2 * (1 - e))) 8"
  proof (rule fbtw_divide [where a = 0 and b = 8 and c = 1 and d = 7])
    show "fbtw 0 (fl 0.2 + fl 0.8 * e * e) 8"
      by (rule fbtw_add [OF _ e8, where a = 0 and b = 1]) (auto intro!: fbtw_fl)
    show "fbtw 1 (1 + fl 0.2 * (1 - e)) 7"
      using scaled_btw [OF one_minus_btw [OF e], of "0.2"]
      by (intro fbtw_add [where a = 1 and b = 1 and c = 0 and d = 6]) (auto simp: one_f64_def)
  qed auto
  define q where "q = unit_clamp (max3 \<bar>c - a\<bar> (1 - c) (1 - e))"
  have q: "fbtw 0 q 1"
    unfolding q_def using max3_btw [OF mis one_minus_btw [OF c] one_minus_btw [OF e]] by (intro unit_clamp_btw) auto
  define k where "k = fl 0.6 * q + fl 0.4 * osc"
  have k: "fbtw 0 k 12"
    unfolding k_def using scaled_btw [OF q, of "0.6"] scaled_btw [OF osc, of "0.4"]
    by (intro fbtw_add [where a = 0 and c = 0 and b = 6 and d = 6]) auto
  have "fbtw 0 (1 / (1 + fl 3 * k + fl 2 * k * k)) 1"
  proof (rule fbtw_divide [where a = 1 and b = 1 and c = 1 and d = 1000])
    have "fbtw 0 (fl 2 * k * k) 864" using fbtw_mult [OF scaled_btw [OF k, of 2] k] by auto
    moreover have "fbtw 1 (1 + fl 3 * k) 73"
      using scaled_btw [OF k, of 3] by (intro fbtw_add [where a = 1 and b = 1 and c = 0 and d = 72]) (auto simp: one_f64_def)
    ultimately show "fbtw 1 (1 + fl 3 * k + fl 2 * k * k) 1000" by (auto elim: fbtw_add)
  qed (auto simp: one_f64_def)
  from fbtw_mult [OF fbtw_mult [OF coh gain, where lo = 0 and hi = 240] this, where lo = 0 and hi = 240]
  have raw: "fbtw 0 ((fl 0.5 * ((c + a) * fl 0.5) + fl 0.5 * (1 - \<bar>c - a\<bar>)) *
      ((fl 0.2 + fl 0.8 * e * e) / (1 + fl 0.2 * (1 - e))) * (1 / (1 + fl 3 * k + fl 2 * k * k))) 240" by auto
  then have "fbtw 0 (r * fl w) 20000" if "r = ((fl 0.5 * ((c + a) * fl 0.5) + fl 0.5 * (1 - \<bar>c - a\<bar>)) *
      ((fl 0.2 + fl 0.8 * e * e) / (1 + fl 0.2 * (1 - e))) * (1 / (1 + fl 3 * k + fl 2 * k * k)))" "0 \<le> w" "w \<le> 1" for r w
    using that by (intro fbtw_mult [where a = 0 and b = 240 and c = 0 and d = 1]) (auto intro!: fbtw_fl)
  from this [OF refl, of "0.15"] this [OF refl, of "0.3"] fbtw_weaken [OF raw, of 0 20000]
  show ?thesis by (simp add: legacy_raw_def Let_def q_def k_def cong: if_cong)
qed

lemma fbound_quarter: "fbound (1 / 4)"
  using frepI [of "1 / 4" 1 "- 2"] by (simp add: fbound_def big_def power_int_minus)

lemma saturating_btw: assumes "fbtw 0 r 20000" shows "fbtw 0 (r / (fl 0.40 + fl 0.60 * r)) 100000"
proof (rule fbtw_divide [OF assms, where c = "1 / 4" and d = 130000])
  have "fbtw 0 (fl 0.60 * r) 120000" using scaled_btw [OF assms, of "0.60"] by simp
  then show "fbtw (1 / 4) (fl 0.40 + fl 0.60 * r) 130000"
    by (intro fbtw_add [where a = "1 / 4" and b = 1 and c = 0 and d = 120000]) (auto intro!: fl_btw fbound_quarter)
qed auto

lemma legacy_alpha_btw:
  assumes "fbtw 0 p 1" shows "fbtw 0 (if fl 0.85 < fl 0.25 + fl 0.30 * (1 - p) then fl 0.85 else fl 0.25 + fl 0.30 * (1 - p)) 1"
proof -
  have "fbtw 0 (fl 0.30 * (1 - p)) 6" using scaled_btw [OF one_minus_btw [OF assms], of "0.30"] by simp
  then have "fbtw 0 (fl 0.25 + fl 0.30 * (1 - p)) 7"
    by (intro fbtw_add [where a = 0 and b = 1 and c = 0 and d = 6]) (auto intro!: fbtw_fl)
  moreover have "fbtw 0 (fl 0.85) 1" by (intro fbtw_fl) auto
  ultimately show ?thesis by (auto elim!: fbtwE)
qed

lemma clamp_blend_btw:
  assumes "fbtw 0 a 1" "fbtw 0 p 1" "fbtw 0 c 100000" shows "fbtw 0 (unit_clamp ((1 - a) * p + a * c)) 1"
proof -
  have "fbtw 0 ((1 - a) * p) 1" by (rule fbtw_mult [OF one_minus_btw [OF assms(1)] assms(2)]) auto
  moreover have "fbtw 0 (a * c) 100000" by (rule fbtw_mult [OF assms(1,3)]) auto
  ultimately have "fbtw 0 ((1 - a) * p + a * c) 100001" by (rule fbtw_add) auto
  then show ?thesis by (intro unit_clamp_btw) auto
qed

lemma legacy_blend_btw: "fbtw 0 p 1 \<Longrightarrow> fbtw 0 r 20000 \<Longrightarrow> fbtw 0 (legacy_blend p r) 1"
  using clamp_blend_btw [OF legacy_alpha_btw _ saturating_btw] by (simp add: legacy_blend_def Let_def cong: if_cong)

lemma recovered_btw: assumes "fbtw 0 c 1" shows "fbtw 0 (unit_clamp (c + fl 0.08 * (1 - c))) 1"
proof -
  have "fbtw 0 (fl 0.08 * (1 - c)) 6" using scaled_btw [OF one_minus_btw [OF assms], of "0.08"] by simp
  from fbtw_add [OF assms this, where lo = 0 and hi = 7] show ?thesis by (intro unit_clamp_btw) auto
qed

lemma legacy_confidence_unit:
  assumes "inputs_unit i" "fbtw 0 (cf_PrevConfidence prev) 1"
  shows "fbtw 0 (fst (legacy_Estimate now i prev)) 1"
proof -
  have "fbtw 0 (legacy_raw (unit_clamp (ci_TrendConsistency i)) (unit_clamp (ci_SignalAgreement i))
           (unit_clamp (ci_ControlEffectiveness i)) (unit_clamp (ci_Oscillation i))) 20000"
    using assms(1) by (intro legacy_raw_btw unit_clamp_btw) (auto simp: inputs_unit_def)
  from legacy_blend_btw [OF assms(2) this] recovered_btw [OF legacy_blend_btw [OF assms(2) this]]
  show ?thesis by (simp add: legacy_Estimate_def Let_def)
qed

lemma half_life_btw: "\<exists>c > 0. duration_Seconds (2 * Second) = Fin c \<and> (\<exists>d > 0. Fin c * fl 0.5 = Fin d)"
proof -
  obtain y where y: "fl 0.5 = Fin y" "0.5 - 1 / 100000 \<le> y" "y \<le> 0.5 + 1 / 100000" using fl_close [of "0.5"] by auto
  obtain z where "fl (2 * y) = Fin z" "2 * y - 1 / 100000 \<le> z" using fl_close [of "2 * y"] y by auto
  moreover have "duration_Seconds (2 * Second) = Fin 2" by (simp add: duration_Seconds_def Second_def quot_def remt_def)
  ultimately show ?thesis using y by (intro exI [of _ 2]) auto
qed

lemma convex_blend_btw:
  "fbtw 0 a 1 \<Longrightarrow> fbtw 0 x 1 \<Longrightarrow> fbtw 0 old 1 \<Longrightarrow> fbtw 0 ((1 - a) * old + a * x) 1"
  by (subst f64_add_commute) (rule convex_btw)

lemma logistic_confidence_unit:
  assumes "inputs_unit i" "fbtw 0 (cf_PrevConfidence prev) 1" "cf_LastTickTime prev \<le> now"
  shows "fbtw 0 (fst (logistic_Estimate NewLogisticConfidenceEstimator now i prev)) 1"
proof -
  have tc: "lg_TimeConst NewLogisticConfidenceEstimator = 2 * Second" by (simp add: NewLogisticConfidenceEstimator_def)
  have dt: "f_nonneg (if d \<le> 0 \<or> fl 10 < d then 1 else d)"
    if "d = duration_Seconds (time_sub now (cf_LastTickTime prev))" for d
  proof -
    have "0 \<le> time_sub now (cf_LastTickTime prev)" "time_sub now (cf_LastTickTime prev) \<le> maxI64"
      using assms(3) by (auto simp: time_sub_def sat_i64_def minI64_def maxI64_def)
    from duration_Seconds_nonneg [OF this] have "\<exists>r. d = Fin r \<and> 0 \<le> r" unfolding that .
    then show ?thesis by auto
  qed
  obtain c d where cd: "0 < c" "duration_Seconds (2 * Second) = Fin c" "0 < d" "Fin c * fl 0.5 = Fin d"
    using half_life_btw by blast
  have alpha: "fbtw 0 (1 - math_Exp (- t / (if b then Fin c * fl 0.5 else Fin c))) 1" if "f_nonneg t" for t b
    unfolding cd(4) using that cd(1,3) by (intro one_minus_btw math_Exp_nonpos) (auto intro: f_nonpos_divide)
  have prob: "fbtw 0 (1 / (1 + math_Exp (- l))) 1" if "fbtw (- 34) l 34" for l
    using that by (intro mpc_recip_unit f_nonneg_Exp) (auto elim!: fbtwE)
  show ?thesis
    unfolding logistic_Estimate_def Let_def tc cd(2) fst_conv
    by (rule convex_blend_btw [OF alpha [OF dt [OF refl]] prob [OF logit_btw [OF assms(1)]] assms(2)])
qed

text \<open>
  The confidence of the running system is a probability: from a confidence in [0, 1] and unit
  inputs, the value that is used and the value that is remembered are both finite and in [0, 1].
  The value that is used is the logistic one although it smooths the legacy model's memory.
\<close>

theorem shadow_confidence_unit:
  assumes "inputs_unit i" "fbtw 0 (cf_PrevConfidence prev) 1" "cf_LastTickTime prev \<le> now2"
    and "shadow_Estimate NewLogisticConfidenceEstimator now1 now2 i prev = (conf, st, drift)"
  shows "fbtw 0 conf 1 \<and> fbtw 0 (cf_PrevConfidence st) 1 \<and>
    conf = fst (logistic_Estimate NewLogisticConfidenceEstimator now2 i prev) \<and> st = snd (legacy_Estimate now1 i prev)"
proof -
  have "cf_PrevConfidence (snd (legacy_Estimate now1 i prev)) = fst (legacy_Estimate now1 i prev)"
    by (simp add: legacy_Estimate_def Let_def)
  then show ?thesis
    using assms(4) legacy_confidence_unit [OF assms(1,2), of now1] logistic_confidence_unit [OF assms(1-3)]
    by (simp add: shadow_Estimate_def Let_def split: prod.splits)
qed

definition fresh_input :: ConfidenceInput where
  "fresh_input = \<lparr> ci_TrendConsistency = 1, ci_SignalAgreement = 1, ci_ControlEffectiveness = 0, ci_Oscillation = 0 \<rparr>"

theorem shadow_confidence_unit_witness:
  "\<exists>conf st drift. shadow_Estimate NewLogisticConfidenceEstimator 0 0 fresh_input \<lparr> cf_PrevConfidence = 0, cf_LastTickTime = 0 \<rparr> =
    (conf, st, drift) \<and> fbtw 0 conf 1"
proof -
  let ?p = "\<lparr> cf_PrevConfidence = 0, cf_LastTickTime = 0 \<rparr>"
  obtain conf st drift where e: "shadow_Estimate NewLogisticConfidenceEstimator 0 0 fresh_input ?p = (conf, st, drift)"
    by (cases "shadow_Estimate NewLogisticConfidenceEstimator 0 0 fresh_input ?p") auto
  have "inputs_unit fresh_input" by (simp add: inputs_unit_def fresh_input_def one_f64_def zero_f64_def)
  moreover have "fbtw 0 (cf_PrevConfidence ?p) 1" "cf_LastTickTime ?p \<le> 0" by (simp_all add: zero_f64_def)
  ultimately have "fbtw 0 conf 1" using shadow_confidence_unit [OF _ _ _ e] by blast
  with e show ?thesis by blast
qed

definition calm_safety :: LegacySafetyEngine where
  \<comment> \<open>an engine whose terminal energy is not a number: no plan is safe\<close>
  "calm_safety =
    \<lparr> le_BaseMaxBacklog = fl 2000, le_BaseMaxLatency = fl 2500, le_Alpha = 0, le_Beta = 0, le_ArrivalGain = 0,
      le_DisturbanceGain = 0, le_TopologyGain = 0, le_RetryGain = 0, le_TailRiskBase = 0, le_AccelBaseWindow = 3,
      le_AccelThreshold = 0, le_MaxCapacityRamp = 1, le_CapacityEffectTau = 1, le_TopologyDelayTau = 1,
      le_TerminalEnergyBase = NaN, le_ContractionSlack = 0, le_HysteresisBand = 0, le_LastUnsafe = False,
      le_AdaptiveTightness = 0 \<rparr>"

definition idle_safety :: SafetyState where
  "idle_safety =
    \<lparr> ys_Backlog = 0, ys_Latency = 0, ys_CapacityActive = 1, ys_CapacityTarget = 1, ys_ServiceRate = 1, ys_ArrivalMean = 0,
      ys_ArrivalVar = 0, ys_Disturbance = 0, ys_TopologyPressure = 0, ys_RetryPressure = 0 \<rparr>"

theorem override_lasts_one_tick_witness:
  "\<exists>s' cap. ShouldOverrideProb idle_safety [idle_control] 0 calm_safety = (s', True, cap) \<and>
    \<not> fst (snd (ShouldOverrideProb idle_safety [idle_control] 0 (SetAdaptiveTightness 1 s')))"
proof -
  have lt: "\<not> x < NaN" for x by (cases x) auto
  have "\<not> recursivelySafe calm_safety (plan_trajectory [idle_control] idle_safety)"
    by (simp add: recursivelySafe_def terminalSafe_def calm_safety_def lt)
  then obtain s' cap where e: "ShouldOverrideProb idle_safety [idle_control] 0 calm_safety = (s', True, cap)"
    by (simp add: ShouldOverrideProb_def EmergencyOverride_def unsafe_plan_def calm_safety_def idle_safety_def zero_f64_def Let_def)
  then show ?thesis using override_lasts_one_tick [OF e] by blast
qed

definition large_plan :: "MPCControl list" where
  "large_plan = [\<lparr> mc_CapacityTarget = fl 2000000, mc_RetryFactor = 0, mc_CacheRelief = 0 \<rparr>]"

theorem barrier_check_linear_in_capacity_witness:
  "\<forall>gamma cbf legacy. shadow_ShouldOverrideProb 1000000 gamma cbf idle_safety large_plan 0 legacy = None"
proof (intro allI, rule barrier_check_linear_in_capacity)
  obtain a where a: "fl 0.99 = Fin a" "0.99 - 1 / 100000 \<le> a" using fl_close [of "0.99"] by auto
  obtain b where b: "epsilon6 = Fin b" using fl_close [of "1 / 1000000"] by auto
  moreover have "f_nonneg epsilon6" by (rule fl_nonneg) simp
  ultimately have "0 \<le> b" by simp
  have "f_nonneg (fl (2000000 + b))" using \<open>0 \<le> b\<close> by (intro fl_nonneg) simp
  then have "0 / (fl 2000000 + epsilon6) = Fin 0 \<or> 0 / (fl 2000000 + epsilon6) = NaN"
    using b by (cases "fl (2000000 + b)") (auto simp: zero_f64_def)
  moreover have "1 * fl 2000000 = fl 2000000" by (simp add: one_f64_def)
  ultimately show "\<not> fl 0.99 \<le> 0 / (ys_ServiceRate idle_safety * mc_CapacityTarget (hd large_plan) + epsilon6)"
    unfolding a(1) using a(2) by (auto simp: idle_safety_def large_plan_def)
  have "(1000000 :: nat) \<le> 1125899906842624" by simp
  also have "\<dots> = 2 ^ 50" by simp
  finally show "(1000000 :: nat) \<le> 2 ^ 50" .
  show "large_plan \<noteq> []" by (simp add: large_plan_def)
  show "f64_of_int (int 1000000) < mc_CapacityTarget (hd large_plan)" by (simp add: large_plan_def)
qed

end
