(* ===== verification/AutoMemory.thy ===== *)
theory AutoMemory
  imports AutoPredictor RingLog FloatSign
begin

text \<open>
  \<open>internal/autopilot/regime_memory.go\<close>: the ring of the last decisions with the measures the
  controller reads from it (trend, effectiveness, oscillation, stability, cycles).  The ring is
  the third implementation of \<open>bounded_log\<close>.  The sizes are positive: the runtime makes the
  memory with 128 entries.
\<close>

datatype AnomalyType = Stable | Local | Systemic | Cascade

record MemoryEntry =
  me_Instability :: f64
  me_Confidence :: f64
  me_Anomaly :: AnomalyType
  me_Backlog :: f64
  me_Workers :: f64
  me_Action :: string
  me_ScaleDelta :: f64

record RegimeMemory =
  rm_buffer :: "MemoryEntry list"
  rm_size :: int
  rm_index :: int
  rm_count :: int
  rm_cycleScore :: f64
  rm_midRangeCap :: f64

definition zero_entry :: MemoryEntry where
  "zero_entry =
    \<lparr> me_Instability = 0, me_Confidence = 0, me_Anomaly = Stable, me_Backlog = 0, me_Workers = 0, me_Action = '''',
      me_ScaleDelta = 0 \<rparr>"

definition NewRegimeMemory :: "int \<Rightarrow> RegimeMemory" where
  "NewRegimeMemory n =
    \<lparr> rm_buffer = replicate (nat n) zero_entry, rm_size = n, rm_index = 0, rm_count = 0, rm_cycleScore = 0, rm_midRangeCap = 0 \<rparr>"

definition get_entry :: "RegimeMemory \<Rightarrow> int \<Rightarrow> MemoryEntry" where
  \<comment> \<open>\<open>get\<close>: the entry \<open>i\<close> writes back\<close>
  "get_entry m i = rm_buffer m ! nat (remt (rm_index m - 1 - i + rm_size m) (rm_size m))"

definition score_cycle :: "MemoryEntry \<Rightarrow> RegimeMemory \<Rightarrow> RegimeMemory" where
  "score_cycle e m =
    (if 2 \<le> rm_count m
     then let prev = get_entry m 0;
              flip = (if me_Action prev \<noteq> me_Action e \<and> me_Action e \<noteq> ''hold'' \<and> me_Action prev \<noteq> ''hold'' then 1 else 0)
       in m\<lparr> rm_cycleScore := fl 0.85 * rm_cycleScore m + fl 0.15 * flip \<rparr>
     else m)"

definition hint_capacity :: "MemoryEntry \<Rightarrow> RegimeMemory \<Rightarrow> RegimeMemory" where
  "hint_capacity e m =
    (if fl 0.45 < rm_cycleScore m \<and> 0 < me_Workers e
     then m\<lparr> rm_midRangeCap := if rm_midRangeCap m = 0 then me_Workers e
                              else fl 0.90 * rm_midRangeCap m + fl 0.10 * me_Workers e \<rparr>
     else m)"

definition Add_entry :: "MemoryEntry \<Rightarrow> RegimeMemory \<Rightarrow> RegimeMemory" where
  "Add_entry e m =
    (let m = hint_capacity e (score_cycle e m)
     in m\<lparr> rm_buffer := (rm_buffer m)[nat (rm_index m) := e], rm_index := remt (rm_index m + 1) (rm_size m),
           rm_count := if rm_count m < rm_size m then rm_count m + 1 else rm_count m \<rparr>)"

definition decay :: "int \<Rightarrow> int \<Rightarrow> f64" where
  "decay i n = 1 / (1 + fl 2.5 * (f64_of_int i / f64_of_int n))"

record Trend =
  tr_Instability :: f64
  tr_Backlog :: f64
  tr_Confidence :: f64

definition no_trend :: Trend where
  "no_trend = \<lparr> tr_Instability = 0, tr_Backlog = 0, tr_Confidence = 0 \<rparr>"

definition trend_step :: "RegimeMemory \<Rightarrow> int \<Rightarrow> Trend \<times> f64 \<Rightarrow> Trend \<times> f64" where
  "trend_step m i acc =
    (let a = get_entry m i; b = get_entry m (i + 1); w = decay i (rm_count m); t = fst acc
     in (\<lparr> tr_Instability = tr_Instability t + w * (me_Instability a - me_Instability b),
           tr_Backlog = tr_Backlog t + w * (log_norm (me_Backlog a) - log_norm (me_Backlog b)),
           tr_Confidence = tr_Confidence t + w * (me_Confidence a - me_Confidence b) \<rparr>, snd acc + w))"

definition GetTrend :: "RegimeMemory \<Rightarrow> Trend" where
  "GetTrend m =
    (if rm_count m < 4 then no_trend
     else let (t, wSum) = fold (trend_step m) (map int [0..<nat (rm_count m - 1)]) (no_trend, 0)
       in if wSum = 0 then no_trend
          else \<lparr> tr_Instability = tr_Instability t / wSum, tr_Backlog = tr_Backlog t / wSum, tr_Confidence = tr_Confidence t / wSum \<rparr>)"

definition response :: "RegimeMemory \<Rightarrow> int \<Rightarrow> f64 \<times> f64" where
  \<comment> \<open>the mean change of instability and backlog over the four writes after entry \<open>i\<close>\<close>
  "response m i =
    (let (ri, rb) = fold (\<lambda>d (ri, rb).
           let a = get_entry m (i - d); b = get_entry m (i - d + 1)
           in (ri + (me_Instability a - me_Instability b), rb + (log_norm (me_Backlog a) - log_norm (me_Backlog b)))) [1, 2, 3, 4] (0, 0)
     in (ri / fl 4, rb / fl 4))"

definition action_effect :: "RegimeMemory \<Rightarrow> int \<Rightarrow> f64 \<Rightarrow> f64" where
  "action_effect m i expected =
    (let (respInst, respBack) = response m i;
         effect = fl 0.7 * (- expected * respInst) + fl 0.3 * (- expected * respBack)
     in unit_clamp ((effect + 1) / fl 2))"

definition expected_direction :: "string \<Rightarrow> f64 option" where
  "expected_direction action =
    (if action = ''scale_up'' then Some (- 1) else if action = ''scale_down'' then Some 1 else None)"

definition effect_step :: "RegimeMemory \<Rightarrow> int \<Rightarrow> f64 \<times> f64 \<Rightarrow> f64 \<times> f64" where
  "effect_step m i acc =
    (case expected_direction (me_Action (get_entry m i)) of
       None \<Rightarrow> acc
     | Some expected \<Rightarrow> (let w = decay i (rm_count m) in (fst acc + w * action_effect m i expected, snd acc + w)))"

definition GetEffectiveness :: "RegimeMemory \<Rightarrow> f64" where
  "GetEffectiveness m =
    (if rm_count m < 6 then fl 0.5
     else let (score, wSum) = fold (effect_step m) (map int [4..<nat (rm_count m - 1)]) (0, 0)
       in if wSum = 0 then 1 else unit_clamp (score / wSum))"

record oscillation =
  oc_zeroCross :: f64
  oc_variance :: f64
  oc_actionFlip :: f64
  oc_wSum :: f64

definition oscillation_step :: "RegimeMemory \<Rightarrow> f64 \<Rightarrow> int \<Rightarrow> oscillation \<Rightarrow> oscillation" where
  "oscillation_step m mean i o' =
    (let a = get_entry m i; b = get_entry m (i - 1); c = get_entry m (i - 2); w = decay i (rm_count m);
         d1 = me_Instability b - me_Instability a; d2 = me_Instability c - me_Instability b;
         dev = me_Instability b - mean
     in \<lparr> oc_zeroCross = (if d1 * d2 < 0 then oc_zeroCross o' + w else oc_zeroCross o'),
          oc_variance = oc_variance o' + w * dev * dev,
          oc_actionFlip = (if me_Action b \<noteq> me_Action a then oc_actionFlip o' + w else oc_actionFlip o'),
          oc_wSum = oc_wSum o' + w \<rparr>)"

definition GetOscillationScore :: "RegimeMemory \<Rightarrow> f64" where
  "GetOscillationScore m =
    (if rm_count m < 6 then 0
     else let n = rm_count m;
              mean = fold (\<lambda>i s. s + me_Instability (get_entry m i)) (map int [0..<nat n]) 0 / f64_of_int n;
              o' = fold (oscillation_step m mean) (map int [2..<nat n])
                \<lparr> oc_zeroCross = 0, oc_variance = 0, oc_actionFlip = 0, oc_wSum = 0 \<rparr>
       in if oc_wSum o' = 0 then 0
          else let z = oc_zeroCross o' / oc_wSum o'; v = oc_variance o' / (oc_variance o' + 1); a = oc_actionFlip o' / oc_wSum o'
            in unit_clamp (fl 0.4 * z + fl 0.4 * v + fl 0.2 * a))"

definition GetStabilityScore :: "RegimeMemory \<Rightarrow> f64" where
  "GetStabilityScore m =
    (if rm_count m < 4 then fl 0.5
     else let t = GetTrend m; osc = GetOscillationScore m; eff = GetEffectiveness m;
              inst = unit_clamp ((tr_Instability t + 1) / fl 2); conf = unit_clamp ((tr_Confidence t + 1) / fl 2);
              trustTrend = 1 - osc
       in unit_clamp (trustTrend * (1 - inst) * fl 0.4 + conf * fl 0.3 + eff * fl 0.3))"

definition GetCycleScore :: "RegimeMemory \<Rightarrow> f64" where
  "GetCycleScore m = rm_cycleScore m"

definition GetMidRangeCap :: "RegimeMemory \<Rightarrow> f64" where
  "GetMidRangeCap m = (if rm_cycleScore m < fl 0.45 then 0 else rm_midRangeCap m)"

section \<open>The memory is a bounded log\<close>

definition memory_inv :: "RegimeMemory \<Rightarrow> bool" where
  "memory_inv m \<longleftrightarrow> ring_ok (rm_buffer m) (rm_index m) (rm_count m) (rm_size m)"

definition memory_content :: "RegimeMemory \<Rightarrow> MemoryEntry list" where
  "memory_content m = ring_list (rm_buffer m) (rm_index m) (rm_count m) (rm_size m)"

lemma scored_frames [simp]:
  "rm_buffer (hint_capacity e (score_cycle e m)) = rm_buffer m"
  "rm_index (hint_capacity e (score_cycle e m)) = rm_index m"
  "rm_count (hint_capacity e (score_cycle e m)) = rm_count m"
  "rm_size (hint_capacity e (score_cycle e m)) = rm_size m"
  by (simp_all add: hint_capacity_def score_cycle_def Let_def)

lemma auto_NewRegimeMemory_ok: "0 < n \<Longrightarrow> memory_inv (NewRegimeMemory n) \<and> memory_content (NewRegimeMemory n) = []"
  by (simp add: memory_inv_def memory_content_def NewRegimeMemory_def ring_ok_def ring_list_def)

lemma Add_entry_log:
  assumes "memory_inv m"
  shows "memory_inv (Add_entry e m) \<and> rm_size (Add_entry e m) = rm_size m \<and>
    memory_content (Add_entry e m) = lastn (nat (rm_size m)) (memory_content m @ [e])"
  using assms ring_list_push [of "rm_buffer m" "rm_index m" "rm_count m" "rm_size m" e]
    ring_ok_push [of "rm_buffer m" "rm_index m" "rm_count m" "rm_size m" e]
  by (auto simp: memory_inv_def memory_content_def Add_entry_def ring_ok_def remt_nonneg Let_def)

lemma get_entry_content:
  assumes "memory_inv m" "0 \<le> i" "i < rm_count m"
  shows "get_entry m i = rev (memory_content m) ! nat i"
proof -
  have ok: "ring_ok (rm_buffer m) (rm_index m) (rm_count m) (rm_size m)" using assms(1) by (simp add: memory_inv_def)
  have "remt (rm_index m - (i + 1) + 0 + rm_size m) (rm_size m) = (rm_index m - (i + 1) + 0) mod rm_size m"
    using ok assms(2,3) by (intro ring_index [OF ok]) (auto simp: ring_ok_def)
  then have "get_entry m i = rm_buffer m ! nat ((rm_index m - rm_count m + int (nat (rm_count m - 1 - i))) mod rm_size m)"
    using assms(2,3) by (simp add: get_entry_def algebra_simps)
  also have "\<dots> = memory_content m ! nat (rm_count m - 1 - i)"
    unfolding memory_content_def using assms(2,3) by (subst nth_ring_list) auto
  also have "\<dots> = rev (memory_content m) ! nat i"
    using assms(2,3) by (subst rev_nth) (auto simp: memory_content_def nat_diff_distrib)
  finally show ?thesis .
qed

definition recent_entries :: "RegimeMemory \<Rightarrow> nat \<Rightarrow> MemoryEntry list" where
  "recent_entries m n = rev (map (\<lambda>i. get_entry m (int i)) [0..<min n (nat (rm_count m))])"

lemma recent_entries_content: "memory_inv m \<Longrightarrow> recent_entries m n = lastn n (memory_content m)"
proof -
  assume m: "memory_inv m"
  have len: "length (memory_content m) = nat (rm_count m)" by (simp add: memory_content_def)
  have "map (\<lambda>i. get_entry m (int i)) [0..<min n (nat (rm_count m))] = take n (rev (memory_content m))"
    by (rule nth_equalityI) (auto simp: len get_entry_content [OF m])
  then show ?thesis by (simp add: recent_entries_def lastn_def rev_take len)
qed

interpretation memory: bounded_log "\<lambda>e m. Some (Add_entry e m)" "\<lambda>m n. Some (recent_entries m n)" memory_content
  "\<lambda>m. nat (rm_size m)" memory_inv
proof unfold_locales
  fix m e assume m: "memory_inv m"
  show "\<exists>m'. Some (Add_entry e m) = Some m' \<and> memory_inv m' \<and> nat (rm_size m') = nat (rm_size m) \<and>
      memory_content m' = lastn (nat (rm_size m)) (memory_content m @ [e])"
    using Add_entry_log [OF m] by simp
  show "Some (recent_entries m n) = Some (lastn n (memory_content m))" for n by (simp add: recent_entries_content m)
  show "0 < nat (rm_size m) \<and> length (memory_content m) \<le> nat (rm_size m)"
    using m by (auto simp: memory_inv_def ring_ok_def memory_content_def intro: nat_mono)
qed

lemma foldo_Some: "foldo (\<lambda>x s. Some (f x s)) xs s = Some (fold f xs s)"
  by (induction xs arbitrary: s) simp_all

text \<open>
  After any number of decisions the memory holds exactly the last ones: what the measures read
  as the entry \<open>i\<close> decisions back is that decision, for every \<open>i\<close> below the size and the
  number of decisions.
\<close>

theorem memory_recent:
  assumes "0 < n"
  shows "memory_inv (fold Add_entry es (NewRegimeMemory n)) \<and>
    rm_count (fold Add_entry es (NewRegimeMemory n)) = min n (int (length es)) \<and>
    map (\<lambda>i. get_entry (fold Add_entry es (NewRegimeMemory n)) (int i)) [0..<min (nat n) (length es)] = take (nat n) (rev es)"
proof -
  let ?m = "fold Add_entry es (NewRegimeMemory n)"
  have inv: "memory_inv ?m" and c: "memory_content ?m = lastn (nat n) es"
    using memory.push_all [of "NewRegimeMemory n" es] auto_NewRegimeMemory_ok [OF assms]
    by (simp_all add: foldo_Some NewRegimeMemory_def)
  have len: "nat (rm_count ?m) = min (nat n) (length es)"
    using arg_cong [OF c, of length] by (simp add: memory_content_def)
  moreover have "0 \<le> rm_count ?m" using inv by (simp add: memory_inv_def ring_ok_def)
  ultimately have "rm_count ?m = min n (int (length es))" using assms by linarith
  moreover have "map (\<lambda>i. get_entry ?m (int i)) [0..<min (nat n) (length es)] = take (nat n) (rev es)"
  proof -
    have "recent_entries ?m (nat n) = lastn (nat n) es" by (simp add: recent_entries_content [OF inv] c lastn_lastn)
    then have "map (\<lambda>i. get_entry ?m (int i)) [0..<min (nat n) (length es)] = rev (lastn (nat n) es)"
      by (simp add: recent_entries_def len rev_swap [symmetric])
    moreover have "rev (lastn k xs) = take k (rev xs)" for k and xs :: "MemoryEntry list"
      by (cases "k \<le> length xs") (simp_all add: lastn_def rev_drop)
    ultimately show ?thesis by simp
  qed
  ultimately show ?thesis using inv by blast
qed

section \<open>Effectiveness is measured with the wrong sign\<close>

lemma f_nonpos_add: "f_nonpos x \<Longrightarrow> f_nonpos y \<Longrightarrow> f_nonpos (x + y)"
  by (cases x; cases y) (auto intro!: fl_nonpos)

lemma improving_nonpos: "finite64 x \<Longrightarrow> finite64 y \<Longrightarrow> x \<le> y \<Longrightarrow> f_nonpos (x - y)"
  by (cases x; cases y) (auto simp: minus_f64_def intro!: fl_nonpos)

definition improving :: "RegimeMemory \<Rightarrow> int \<Rightarrow> bool" where
  \<comment> \<open>over the four writes after entry \<open>i\<close> neither instability nor backlog rises\<close>
  "improving m i \<longleftrightarrow> list_all (\<lambda>d.
     let a = get_entry m (i - d); b = get_entry m (i - d + 1)
     in finite64 (me_Instability a) \<and> finite64 (me_Instability b) \<and> me_Instability a \<le> me_Instability b \<and>
        finite64 (log_norm (me_Backlog a)) \<and> finite64 (log_norm (me_Backlog b)) \<and>
        log_norm (me_Backlog a) \<le> log_norm (me_Backlog b)) [1, 2, 3, 4]"

lemma response_nonpos:
  assumes "improving m i" shows "f_nonpos (fst (response m i)) \<and> f_nonpos (snd (response m i))"
proof -
  have z: "f_nonpos 0" by (simp add: zero_f64_def)
  have d: "f_nonpos (me_Instability (get_entry m (i - d)) - me_Instability (get_entry m (i - d + 1)))"
    "f_nonpos (log_norm (me_Backlog (get_entry m (i - d))) - log_norm (me_Backlog (get_entry m (i - d + 1))))"
    if "d \<in> {1, 2, 3, 4}" for d
    using assms that by (auto simp: improving_def Let_def intro!: improving_nonpos)
  have "f_nonpos (0 + a + b + c + e)" if "f_nonpos a" "f_nonpos b" "f_nonpos c" "f_nonpos e" for a b c e
    using that z by (intro f_nonpos_add)
  from this [OF d(1) [of 1] d(1) [of 2] d(1) [of 3] d(1) [of 4]] this [OF d(2) [of 1] d(2) [of 2] d(2) [of 3] d(2) [of 4]]
  show ?thesis by (simp add: response_def Let_def f_nonpos_divide)
qed

text \<open>
  The effectiveness of scaling up has the wrong sign: when neither instability nor backlog rises
  over the four ticks after a scale-up, the action counts as one half at most, which is what the
  memory reports for an unknown effect, and any rise would be counted in its favour.
\<close>

theorem scale_up_effect_inverted:
  assumes "improving m i" "expected_direction ''scale_up'' = Some expected"
  shows "action_effect m i expected \<le> fl 0.5"
proof -
  obtain ri rb where r: "response m i = (ri, rb)" "f_nonpos ri" "f_nonpos rb"
    using response_nonpos [OF assms(1)] by (cases "response m i") auto
  have pos: "f_nonpos (fl w * (1 * x))" if "f_nonpos x" "1 / 10 \<le> w" "w \<le> 1" for w x
  proof -
    obtain y where y: "fl w = Fin y" "w - 1 / 100000 \<le> y" using fl_close [of w] \<open>1 / 10 \<le> w\<close> \<open>w \<le> 1\<close> by auto
    then have "0 < y" using that(2) by linarith
    moreover have "f_nonpos (1 * x)" using that(1) by (cases x) (auto simp: one_f64_def intro!: fl_nonpos)
    ultimately show ?thesis using y(1) by (cases "1 * x") (auto simp: mult_le_0_iff intro!: fl_nonpos)
  qed
  have half: "fl (1 / 2) = Fin (1 / 2)" by (rule fl_frep) (simp_all add: big_def)
  have clamped: "unit_clamp z \<le> fl (1 / 2)" if "z \<le> fl (1 / 2)" for z
    using that half by (cases z) (auto simp: unit_clamp_def one_f64_def zero_f64_def)
  have le: "unit_clamp ((x + 1) / fl 2) \<le> fl (1 / 2)" if "f_nonpos x" for x
  proof (rule clamped, cases x)
    case (Fin q)
    then have "fl (q + 1) \<le> Fin 1" using that fl_mono [of "q + 1" 1] by simp
    then show "(x + 1) / fl 2 \<le> fl (1 / 2)"
      using Fin fl_mono [of "r / 2" "1 / 2" for r] by (cases "fl (q + 1)") (auto simp: one_f64_def half)
  qed (use that half in \<open>auto simp: one_f64_def\<close>)
  have "expected = - 1" using assms(2) by (simp add: expected_direction_def)
  then show ?thesis
    using le [OF f_nonpos_add [OF pos [OF r(2), of "0.7"] pos [OF r(3), of "0.3"]]]
    by (simp add: action_effect_def r(1) one_f64_def)
qed

definition recovering_memory :: RegimeMemory where
  \<comment> \<open>a scale-up, then four entries with falling instability\<close>
  "recovering_memory =
    fold Add_entry (map (\<lambda>(a, x). zero_entry\<lparr> me_Action := a, me_Instability := Fin x \<rparr>)
      [(''scale_up'', 4), (''hold'', 3), (''hold'', 2), (''hold'', 1), (''hold'', 0)]) (NewRegimeMemory 8)"

theorem memory_recent_witness:
  "get_entry (fold Add_entry [zero_entry] (NewRegimeMemory 1)) 0 = zero_entry"
  using memory_recent [of 1 "[zero_entry]"] by simp

theorem scale_up_effect_inverted_witness:
  "improving recovering_memory 4 \<and> action_effect recovering_memory 4 (- 1) \<le> fl 0.5 \<and>
    me_Action (get_entry recovering_memory 4) = ''scale_up''"
proof -
  have e: "get_entry recovering_memory 0 = zero_entry\<lparr> me_Action := ''hold'', me_Instability := Fin 0 \<rparr>"
    "get_entry recovering_memory 1 = zero_entry\<lparr> me_Action := ''hold'', me_Instability := Fin 1 \<rparr>"
    "get_entry recovering_memory 2 = zero_entry\<lparr> me_Action := ''hold'', me_Instability := Fin 2 \<rparr>"
    "get_entry recovering_memory 3 = zero_entry\<lparr> me_Action := ''hold'', me_Instability := Fin 3 \<rparr>"
    "get_entry recovering_memory 4 = zero_entry\<lparr> me_Action := ''scale_up'', me_Instability := Fin 4 \<rparr>"
    by (simp_all add: recovering_memory_def NewRegimeMemory_def Add_entry_def get_entry_def remt_def quot_def Let_def)
  have "improving recovering_memory 4"
    by (simp add: improving_def e zero_entry_def log_norm_def zero_f64_def)
  then show ?thesis using scale_up_effect_inverted [of recovering_memory 4 "- 1"] e by (simp add: expected_direction_def)
qed

end
