(* ===== verification/AutoDecision.thy ===== *)
theory AutoDecision
  imports AutoMemory
begin

text \<open>
  \<open>internal/autopilot/instability_engine.go\<close>, \<open>anomaly_classifier.go\<close>, \<open>decision_policy.go\<close> and
  \<open>supervisor.go\<close>: from the operating metrics to an instability score, a failure regime and a
  decision, and the supervisor that clamps the decision and asks for an urgent one.  The reason
  text of a decision, which nothing reads, is left out.
\<close>

section \<open>Instability\<close>

record InstabilityInput =
  ni_Backlog :: f64
  ni_BacklogRate :: f64
  ni_Latency :: f64
  ni_LatencyRate :: f64
  ni_RetryRate :: f64
  ni_Oscillation :: f64
  ni_Utilization :: f64

definition saturating_product :: "f64 \<Rightarrow> f64 \<Rightarrow> f64 \<Rightarrow> f64" where
  \<comment> \<open>\<open>x * (1 + k*y) / (1 + k*x*y)\<close>, as the pressure field computes it\<close>
  "saturating_product k x y = x * (1 + k * y) / (1 + k * x * y)"

definition amplify :: "f64 \<Rightarrow> f64 \<Rightarrow> f64" where
  "amplify rr utilStress = rr * (1 + utilStress) / (1 + rr * utilStress)"

definition shape_energy :: "f64 \<Rightarrow> f64" where
  "shape_energy energy =
    (let shape = energy / (1 + fl 0.5 * energy); energy = energy * (1 + shape) in unit_clamp (energy / (1 + energy)))"

definition instability_level :: "f64 \<Rightarrow> string" where
  "instability_level score = (if score < fl 0.3 then ''stable'' else if score < fl 0.7 then ''warning'' else ''critical'')"

definition ComputeInstability :: "InstabilityInput \<Rightarrow> f64 \<times> string" where
  "ComputeInstability i =
    (let o' = unit_clamp (ni_Oscillation i); u = unit_clamp (ni_Utilization i);
         bs = log_norm (pos (ni_Backlog i)); bm = log_norm (pos (ni_BacklogRate i));
         ls = log_norm (pos (ni_Latency i)); lm = log_norm (pos (ni_LatencyRate i));
         rr = log_norm (unit_clamp (ni_RetryRate i));
         pressure = saturating_product (fl 0.5) bs ls;
         momentum = amplify bm lm;
         utilStress = u / (1 + (1 - u));
         failure = amplify rr utilStress;
         loadContext = pressure + momentum;
         oscEffect = o' * (loadContext / (1 + loadContext));
         cascade = boundedAgg [bs * ls, ls * rr, rr * utilStress, bs * ls * rr];
         pm = pressure * momentum; pf = pressure * failure; mf = momentum * failure;
         coupling = (pm + pf + mf) / (1 + pm + pf + mf);
         persistence = pressure * momentum;
         score = shape_energy (pressure + fl 0.8 * momentum + fl 0.7 * failure + fl 0.9 * cascade + fl 0.6 * coupling +
           fl 0.5 * persistence + fl 0.5 * oscEffect)
     in (score, instability_level score))"

section \<open>Anomalies\<close>

record AnomalyInput =
  an_Instability :: f64
  an_Confidence :: f64
  an_BacklogGrowth :: f64
  an_LatencyTrend :: f64
  an_RetryPressure :: f64
  an_Oscillation :: f64

definition activity :: "f64 \<Rightarrow> f64" where
  "activity x = x / (1 + x)"

definition dominant :: "f64 \<Rightarrow> f64 \<Rightarrow> f64 \<Rightarrow> AnomalyType" where
  \<comment> \<open>the soft winner-take-all over the shaped energies of local, systemic and cascade\<close>
  "dominant eLocal eSystemic eCascade =
    (let eStable = 1 - (eLocal + eSystemic + eCascade);
         eStable = (if eStable < 0 then 0 else eStable);
         (top, result) = (if eStable < eLocal then (eLocal, Local) else (eStable, Stable));
         (top, result) = (if top < eSystemic then (eSystemic, Systemic) else (top, result))
     in if top < eCascade then Cascade else result)"

definition hard_signals :: "f64 \<Rightarrow> f64 \<Rightarrow> f64 \<Rightarrow> AnomalyType \<Rightarrow> AnomalyType" where
  "hard_signals bg lt rp result =
    (if 0 < bg \<and> 0 < lt then if fl 0.4 < rp then Cascade else if result = Stable then Systemic else result
     else if result = Stable \<and> (fl 0.2 < bg \<or> fl 0.2 < lt) then Local
     else if result = Stable \<and> fl 0.35 < rp \<and> (fl 0.05 < bg \<or> fl 0.05 < lt) then Local
     else result)"

definition Classify :: "AnomalyInput \<Rightarrow> AnomalyType" where
  "Classify i =
    (let bg = log_norm (an_BacklogGrowth i); lt = log_norm (an_LatencyTrend i); rp = log_norm (an_RetryPressure i);
         osc = unit_clamp (an_Oscillation i); inst = unit_clamp (an_Instability i); conf = unit_clamp (an_Confidence i);
         activitySum = activity bg + activity lt + activity rp + activity osc;
         corrBL = bg * lt; corrLR = lt * rp; corrLoop = bg * lt * rp;
         corrOsc = osc * (bg + lt + rp) / (1 + bg + lt + rp);
         correlation = boundedAgg [corrBL, corrLR, corrLoop, corrOsc];
         propagation = (corrBL + corrLR + corrLoop) / (1 + corrBL + corrLR + corrLoop);
         amplification = (lt * rp) / (1 + lt + rp);
         safetyBias = (1 - conf) * (fl 0.5 + fl 0.5 * inst);
         energyCascade = (inst * (propagation + amplification + correlation)) + (fl 0.2 * safetyBias * inst);
         energySystemic = (inst * (correlation + fl 0.5 * propagation)) + (fl 0.2 * safetyBias * inst);
         energyLocal = activitySum / (1 + activitySum) * (1 - correlation) * (1 - propagation)
     in hard_signals bg lt rp (dominant (activity energyLocal) (activity energySystemic) (activity energyCascade)))"

section \<open>Decisions\<close>

record Decision =
  de_Action :: string
  de_ScaleDelta :: f64
  de_Urgency :: f64
  de_Mode :: string

record DecisionInput =
  di_Instability :: f64
  di_Confidence :: f64
  di_Anomaly :: AnomalyType
  di_Backlog :: f64
  di_Workers :: f64
  di_TargetCapacity :: f64
  di_Effectiveness :: f64
  di_Oscillation :: f64
  di_Trend :: f64

definition anomalyFactor :: "AnomalyType \<Rightarrow> f64" where
  "anomalyFactor a = (case a of Cascade \<Rightarrow> 1 | Systemic \<Rightarrow> fl 0.7 | Local \<Rightarrow> fl 0.4 | Stable \<Rightarrow> fl 0.2)"

definition base_delta :: "DecisionInput \<Rightarrow> f64" where
  "base_delta i =
    (let conf = unit_clamp (di_Confidence i); backlog = pos (di_Backlog i); workers = math_Max 1 (di_Workers i);
         absGap = \<bar>di_TargetCapacity i - workers\<bar>;
         rateMultiplier = (if 0 < backlog then 1 * fl 1.5 else 1);
         baseDelta = (absGap / (absGap + fl 2)) * rateMultiplier;
         memFactor = (1 + fl 0.6 * di_Effectiveness i) * (1 - di_Oscillation i);
         memFactor = (if 0 < di_Trend i then memFactor * (1 + di_Trend i) else memFactor);
         delta = baseDelta * memFactor * (fl 0.2 + fl 0.8 * conf)
     in if 1 < delta then 1 else delta)"

definition first_action :: "DecisionInput \<Rightarrow> string" where
  "first_action i =
    (let inst = unit_clamp (di_Instability i); conf = unit_clamp (di_Confidence i); backlog = pos (di_Backlog i);
         gap = di_TargetCapacity i - math_Max 1 (di_Workers i);
         pressure = backlog / math_Max (di_TargetCapacity i) 1
     in if 1 < pressure then ''scale_up''
        else if pressure < fl 0.1 \<and> gap < - 1 \<and> backlog < 1 \<and> inst < fl 0.3 \<and> anomalyFactor (di_Anomaly i) < fl 0.3 \<and>
          fl 0.6 < conf then ''scale_down''
        else ''hold'')"

definition settle_action :: "DecisionInput \<Rightarrow> string \<times> f64" where
  "settle_action i =
    (let inst = unit_clamp (di_Instability i); backlog = pos (di_Backlog i); workers = math_Max 1 (di_Workers i);
         pressure = backlog / math_Max (di_TargetCapacity i) 1; action = first_action i; delta = base_delta i
     in if action = ''hold''
        then if 1 < pressure \<or> workers * fl 3 < backlog then (''scale_up'', fl 0.02)
             else if backlog = 0 \<and> inst < fl 0.3 \<and> di_Trend i \<le> 0 then (''hold'', 0)
             else (''hold'', 0)
        else (action, if delta < fl 0.01 then fl 0.01 else delta))"

definition Decide_policy :: "DecisionInput \<Rightarrow> Decision" where
  "Decide_policy i =
    (let inst = unit_clamp (di_Instability i); conf = unit_clamp (di_Confidence i); backlog = pos (di_Backlog i);
         (action, delta) = settle_action i;
         mode = (if conf < fl 0.5 then ''cautious'' else ''normal'');
         mode = (if conf < fl 0.2 then ''fallback'' else mode);
         urgency = (inst * log_norm backlog) / (1 + inst + log_norm backlog)
     in \<lparr> de_Action = action, de_ScaleDelta = unit_clamp delta, de_Urgency = unit_clamp urgency, de_Mode = mode \<rparr>)"

section \<open>The supervisor\<close>

record PlantState =
  px_Backlog :: f64
  px_ArrivalMean :: f64
  px_ArrivalP95 :: f64
  px_ArrivalRegimeShift :: f64
  px_ServiceRate :: f64
  px_Disturbance :: f64
  px_DisturbanceEnergy :: f64
  px_CapacityActive :: f64
  px_CapacityTarget :: f64
  px_CapacityTau :: f64
  px_RetryFactor :: f64
  px_LatencyPressure :: f64
  px_ScalingCost :: f64
  px_ModelConfidence :: f64
  px_PredictionError :: f64

record Supervisor =
  su_Dt :: f64
  su_MaxHorizon :: nat
  su_Alpha :: f64
  su_Beta :: f64
  su_EnergyAbsLimit :: f64
  su_SafeBacklogLimit :: f64
  su_TerminalSafeBacklog :: f64
  su_DisturbanceBound :: f64
  su_CostWeight :: f64
  su_AdaptGain :: f64

definition arrivalEnvelope :: "PlantState \<Rightarrow> nat \<Rightarrow> f64" where
  "arrivalEnvelope x step =
    math_Max (px_ArrivalMean x + px_ArrivalRegimeShift x * math_Min 1 (f64_of_int (int step) / fl 5)) (px_ArrivalP95 x)"

definition retryLoad :: "PlantState \<Rightarrow> f64" where
  "retryLoad x = px_RetryFactor x * (1 + px_LatencyPressure x) * math_Sqrt (px_Backlog x + 1)"

definition supervisor_energy :: "Supervisor \<Rightarrow> PlantState \<Rightarrow> f64" where
  "supervisor_energy s x =
    (let util = px_ArrivalMean x + retryLoad x - px_ServiceRate x * px_CapacityActive x
     in px_Backlog x * px_Backlog x + su_Alpha s * util * util + su_Beta s * px_Disturbance x * px_Disturbance x)"

fun energy_steps :: "Supervisor \<Rightarrow> PlantState \<Rightarrow> nat \<Rightarrow> nat \<Rightarrow> f64 \<Rightarrow> f64 \<Rightarrow> f64" where
  \<comment> \<open>step \<open>i\<close> of \<open>n\<close> more, with the early return above the limit\<close>
  "energy_steps s x i 0 cap e = e"
| "energy_steps s x i (Suc n) cap e =
    (let cap = cap + (px_CapacityTarget x - cap) * (1 - math_Exp (- su_Dt s / px_CapacityTau x));
         service = px_ServiceRate x * cap;
         gamma = arrivalEnvelope x i + retryLoad x - service + su_DisturbanceBound s;
         e = (if gamma < 0 then e * fl 0.9 else e + gamma * gamma * su_Dt s)
     in if su_EnergyAbsLimit s < e then e else energy_steps s x (i + 1) n cap e)"

definition energyBound :: "Supervisor \<Rightarrow> PlantState \<Rightarrow> nat \<Rightarrow> f64" where
  "energyBound s x h = energy_steps s x 0 h (px_CapacityActive x) (supervisor_energy s x)"

definition supervisor_terminalSafe :: "Supervisor \<Rightarrow> PlantState \<Rightarrow> nat \<Rightarrow> bool" where
  "supervisor_terminalSafe s x h \<longleftrightarrow> energyBound s x h < su_EnergyAbsLimit s \<and> px_Backlog x < su_TerminalSafeBacklog s"

definition horizon_score :: "Supervisor \<Rightarrow> PlantState \<Rightarrow> nat \<Rightarrow> f64" where
  "horizon_score s x h =
    energyBound s x h + su_CostWeight s * px_ScalingCost x * math_Pow (f64_of_int (int h)) (fl 1.2)"

definition adapt :: "PlantState \<Rightarrow> Supervisor \<Rightarrow> Supervisor" where
  "adapt x s =
    (let s = (if fl 0.7 < px_ModelConfidence x
              then s\<lparr> su_Alpha := su_Alpha s * (1 - su_AdaptGain s), su_Beta := su_Beta s * (1 - su_AdaptGain s) \<rparr> else s)
     in if fl 0.3 < px_PredictionError x
        then s\<lparr> su_Alpha := su_Alpha s * (1 + su_AdaptGain s), su_Beta := su_Beta s * (1 + su_AdaptGain s) \<rparr> else s)"

fun best_horizon :: "Supervisor \<Rightarrow> PlantState \<Rightarrow> nat \<Rightarrow> nat list \<Rightarrow> f64 \<Rightarrow> nat" where
  "best_horizon s x best [] bestScore = best"
| "best_horizon s x best (h # hs) bestScore =
    (if \<not> supervisor_terminalSafe s x h then best
     else let sc = horizon_score s x h
       in if sc < bestScore then best_horizon s x h hs sc else best_horizon s x best hs bestScore)"

definition optimalHorizon :: "Supervisor \<Rightarrow> PlantState \<Rightarrow> nat" where
  "optimalHorizon s x = best_horizon s x 1 [1..<su_MaxHorizon s + 1] PInf"

definition ShouldRecompute :: "PlantState \<Rightarrow> Supervisor \<Rightarrow> Supervisor \<times> bool" where
  "ShouldRecompute x s = (let s = adapt x s in (s, optimalHorizon s x \<le> 2))"

definition ClampDecision :: "f64 \<Rightarrow> f64 \<Rightarrow> f64 \<Rightarrow> f64" where
  "ClampDecision delta osc conf = delta * (1 / (1 + fl 0.8 * osc)) * (fl 0.5 + fl 0.5 * conf)"

section \<open>What a decision can be\<close>

lemma calm_anomaly: "anomalyFactor a < fl 0.3 \<Longrightarrow> a = Stable"
proof -
  obtain y where y: "fl 0.3 = Fin y" "y \<le> 0.3 + 1 / 100000" using fl_close [of "0.3"] by auto
  obtain l where l: "fl 0.4 = Fin l" "0.4 - 1 / 100000 \<le> l" using fl_close [of "0.4"] by auto
  obtain s where s: "fl 0.7 = Fin s" "0.7 - 1 / 100000 \<le> s" using fl_close [of "0.7"] by auto
  show "anomalyFactor a < fl 0.3 \<Longrightarrow> a = Stable"
    using y l s by (cases a) (auto simp: anomalyFactor_def one_f64_def)
qed

lemma first_action_cases:
  "first_action i = ''scale_up'' \<or> first_action i = ''hold'' \<or>
   first_action i = ''scale_down'' \<and> di_Anomaly i = Stable \<and> pos (di_Backlog i) < 1"
  by (simp add: first_action_def Let_def calm_anomaly)

definition moves :: "f64 \<Rightarrow> bool" where
  "moves d \<longleftrightarrow> d = NaN \<or> fl 0.01 \<le> d \<and> d \<le> 1"

lemma unit_clamp_moves:
  assumes "\<not> d < fl 0.01" shows "moves (unit_clamp d)"
proof -
  obtain y where y: "fl 0.01 = Fin y" "0.01 - 1 / 100000 \<le> y" "y \<le> 0.01 + 1 / 100000" using fl_close [of "0.01"] by auto
  then show ?thesis using assms by (cases d) (auto simp: moves_def unit_clamp_def zero_f64_def one_f64_def)
qed

text \<open>
  A decision either holds, with a response of exactly zero, or scales by at least 0.01 and at
  most 1 (unless the response is not a number); it scales down only in the stable regime with
  less than one request waiting.  The documented action emergency is never taken.
\<close>

theorem decision_shape:
  "let d = Decide_policy i in
    de_Action d = ''hold'' \<and> de_ScaleDelta d = 0 \<or>
    de_Action d = ''scale_up'' \<and> moves (de_ScaleDelta d) \<or>
    de_Action d = ''scale_down'' \<and> moves (de_ScaleDelta d) \<and> di_Anomaly i = Stable \<and> pos (di_Backlog i) < 1"
proof -
  have zero: "unit_clamp 0 = 0" by (simp add: unit_clamp_def zero_f64_def one_f64_def)
  have small: "\<not> fl 0.01 < fl 0.01" "\<not> fl 0.02 < fl 0.01" using fl_mono [of "0.01" "0.02"] by (cases "fl 0.01"; cases "fl 0.02"; simp)+
  show ?thesis
    using unit_clamp_moves [OF small(1)] unit_clamp_moves [OF small(2)] unit_clamp_moves [of "base_delta i"]
    using first_action_cases [of i] by (elim disjE conjE) (simp_all add: Decide_policy_def settle_action_def zero Let_def)
qed

section \<open>Idle services\<close>

lemma pos_nonpos: "x \<le> 0 \<Longrightarrow> pos x = 0" by (cases x) (auto simp: pos_def zero_f64_def)
lemma unit_clamp_nonpos: "x \<le> 0 \<Longrightarrow> unit_clamp x = 0" by (cases x) (auto simp: unit_clamp_def zero_f64_def one_f64_def)
lemma log_norm_0: "log_norm 0 = 0" by (simp add: log_norm_def zero_f64_def)

definition idle_metrics :: "InstabilityInput \<Rightarrow> bool" where
  "idle_metrics i \<longleftrightarrow> ni_Backlog i \<le> 0 \<and> ni_BacklogRate i \<le> 0 \<and> ni_Latency i \<le> 0 \<and> ni_LatencyRate i \<le> 0 \<and>
    ni_RetryRate i \<le> 0 \<and> \<not> math_IsNaN (ni_Oscillation i) \<and> \<not> math_IsNaN (ni_Utilization i)"

lemma stress_btw: assumes "x \<noteq> NaN" shows "fbtw 0 (unit_clamp x / (1 + (1 - unit_clamp x))) 1"
proof -
  have u: "fbtw 0 (unit_clamp x) 1" using assms by (cases x) (auto simp: unit_clamp_def zero_f64_def one_f64_def)
  have "fbtw 0 (1 - unit_clamp x) 1" by (rule fbtw_diff [OF _ u, where a = 1 and b = 1]) (auto simp: one_f64_def)
  then have "fbtw 1 (1 + (1 - unit_clamp x)) 2"
    by (intro fbtw_add [where a = 1 and b = 1 and c = 0 and d = 1]) (auto simp: one_f64_def)
  from fbtw_divide [OF u this, where lo = 0 and hi = 1] show ?thesis by auto
qed

lemma zero_simps:
  "0 + 0 = (0 :: f64)" "1 + 0 = (1 :: f64)" "0 / 1 = (0 :: f64)" "0 * 0 = (0 :: f64)" "0 * 1 = (0 :: f64)"
  by (simp_all add: zero_f64_def one_f64_def)

lemma zero_times: "finite64 x \<Longrightarrow> 0 * x = (0 :: f64) \<and> x * 0 = 0"
  by (cases x) (auto simp: zero_f64_def)

lemma zero_fields:
  "saturating_product (fl 0.5) 0 0 = 0" "amplify 0 0 = 0" "fbtw 0 x 1 \<Longrightarrow> amplify 0 x = 0" "boundedAgg [0, 0, 0, 0] = 0"
  "shape_energy 0 = 0" "instability_level 0 = ''stable''"
proof -
  have fin: "finite64 (fl k)" if "0 \<le> k" "k \<le> 1" for k using that by (intro fbtw_finite [of 0 _ 1] fbtw_fl) auto
  have half: "fl 0.5 * 0 = 0" "0 * fl 0.5 = 0" using zero_times [OF fin [of "0.5"]] by auto
  show "saturating_product (fl 0.5) 0 0 = 0" unfolding saturating_product_def half zero_simps ..
  show "amplify 0 0 = 0" by (simp add: amplify_def zero_simps)
  show "amplify 0 x = 0" if x: "fbtw 0 x 1"
  proof -
    have "fbtw 1 (1 + x) 2" by (rule fbtw_add [OF _ x, where a = 1 and b = 1]) (auto simp: one_f64_def)
    from zero_times [OF fbtw_finite [OF this]] zero_times [OF fbtw_finite [OF x]]
    show ?thesis by (simp add: amplify_def zero_simps)
  qed
  show "boundedAgg [0, 0, 0, 0] = 0" by (simp add: boundedAgg_def zero_simps Let_def)
  show "shape_energy 0 = 0" unfolding shape_energy_def Let_def half zero_simps by (simp add: unit_clamp_nonpos zero_f64_def)
  obtain y where "fl 0.3 = Fin y" "0.3 - 1 / 100000 \<le> y" using fl_close [of "0.3"] by auto
  then show "instability_level 0 = ''stable''" by (simp add: instability_level_def zero_f64_def)
qed

text \<open>
  An idle service is never unstable: without backlog, latency, growth and retries the score is
  exactly zero, whatever the utilisation and however much the decisions oscillated before.
\<close>

theorem idle_is_stable:
  assumes "idle_metrics i" shows "ComputeInstability i = (0, ''stable'')"
proof -
  have osc: "finite64 (unit_clamp (ni_Oscillation i))"
    using assms by (cases "ni_Oscillation i") (auto simp: idle_metrics_def math_IsNaN_def unit_clamp_def zero_f64_def one_f64_def)
  have util: "fbtw 0 (unit_clamp (ni_Utilization i) / (1 + (1 - unit_clamp (ni_Utilization i)))) 1"
    using assms by (intro stress_btw) (auto simp: idle_metrics_def math_IsNaN_def)
  have fin: "fl k * 0 = 0" if "0 \<le> k" "k \<le> 1" for k
    using that by (intro zero_times [THEN conjunct2] fbtw_finite [of 0 _ 1] fbtw_fl) auto
  have z: "pos (ni_Backlog i) = 0" "pos (ni_BacklogRate i) = 0" "pos (ni_Latency i) = 0" "pos (ni_LatencyRate i) = 0"
    "unit_clamp (ni_RetryRate i) = 0"
    using assms by (simp_all add: idle_metrics_def pos_nonpos unit_clamp_nonpos)
  show ?thesis
    unfolding ComputeInstability_def z log_norm_0 Let_def zero_fields(1,2) zero_fields(3) [OF util] zero_simps
      zero_times [OF osc, THEN conjunct2] zero_times [OF fbtw_finite [OF util], THEN conjunct1] zero_fields(4)
    by (simp add: fin zero_simps zero_fields)
qed

definition idle_input :: InstabilityInput where
  "idle_input =
    \<lparr> ni_Backlog = 0, ni_BacklogRate = 0, ni_Latency = 0, ni_LatencyRate = 0, ni_RetryRate = 0, ni_Oscillation = 1,
      ni_Utilization = fl 0.5 \<rparr>"

theorem idle_is_stable_witness: "ComputeInstability idle_input = (0, ''stable'')"
proof (rule idle_is_stable)
  obtain y where "fl 0.5 = Fin y" using fl_close [of "0.5"] by auto
  then show "idle_metrics idle_input" by (simp add: idle_metrics_def idle_input_def math_IsNaN_def zero_f64_def one_f64_def)
qed

end
