(* ===== verification/AutoRuntime.thy ===== *)
theory AutoRuntime
  imports AutoRollout AutoSafety AutoDecision
begin

text \<open>
  \<open>internal/autopilot/runtime.go\<close>: one tick of the autopilot of a service.  The tick gates the
  measured arrivals, plans, scores the situation, decides, checks safety, moves the actuators,
  reconciles the queue, steps the model and the identification and reports telemetry.  The
  orchestrator is returned with the parts the tick changes; the clock readings, the random
  draws and \<open>math.Gamma\<close> are arguments, and \<open>None\<close> is a panic of the planner or a loop of the
  barrier check that has not ended.
\<close>

datatype AutonomyMode = ModeStable | ModeGuarded | ModeCritical | ModeRecovery

record EngineState =
  en_memory :: "RegimeMemory option"
  en_prevBacklog :: f64
  en_prevLatency :: f64
  en_confState :: ConfidenceState

record RuntimeState =
  rs_Plant :: CongestionState
  rs_Rollout :: RolloutState
  rs_ID :: IdentificationState
  rs_LastPlan :: "MPCControl list"
  rs_ForecastBacklog :: f64
  rs_PhysicalBacklog :: f64
  rs_Time :: f64
  rs_Mode :: AutonomyMode
  rs_OverrideHistory :: "f64 list"
  rs_LastFallbackCap :: f64
  rs_SafetyTight :: f64
  rs_ModeStableCount :: int  \<comment> \<open>never read or written\<close>
  rs_MetaPersistence :: f64
  rs_Engine :: EngineState

record RuntimeTelemetry =
  rt_PhysicalBacklog :: f64
  rt_Backlog :: f64
  rt_Latency :: f64
  rt_Capacity :: f64
  rt_Confidence :: f64
  rt_MPCConfidence :: f64
  rt_OverrideRate :: f64
  rt_Mode :: AutonomyMode
  rt_VarianceScale :: f64
  rt_SafetyScale :: f64
  rt_Damping :: f64
  rt_DecisionDelta :: f64
  rt_DecisionAction :: string

datatype SafetyStrategy =
  SafetyLegacy LegacySafetyEngine | SafetyCBF CBFSafetyEngine | SafetyShadow LegacySafetyEngine CBFSafetyEngine

datatype ConfidenceEstimator =
  ConfidenceLegacy | ConfidenceLogistic LogisticConfidenceEstimator | ConfidenceShadow LogisticConfidenceEstimator

record RuntimeOrchestrator =
  ro_Dt :: f64
  ro_Predictor :: Predictor
  ro_MPC :: MPCOptimiser
  ro_rng :: mpc_rng
  ro_Safety :: "SafetyStrategy option"
  ro_Rollout :: RolloutController
  ro_ID :: IdentificationEngine
  ro_Confidence :: "ConfidenceEstimator option"
  ro_SLA_Backlog :: f64
  ro_OverrideWindow :: int
  ro_DampingMin :: f64
  ro_DampingMax :: f64
  ro_FailureScaleProb :: f64
  ro_FailureConfigProb :: f64
  ro_TelemetryTau :: f64

record tick_env =
  te_now1 :: gotime
  te_now2 :: gotime
  te_rand :: f64
  te_gamma :: "f64 \<Rightarrow> f64"
  te_fuel :: nat

section \<open>Helpers of the tick\<close>

fun forecast_run :: "Predictor \<Rightarrow> MPCControl list \<Rightarrow> f64 \<Rightarrow> CongestionState \<Rightarrow> CongestionState" where
  "forecast_run p [] arrival x = x"
| "forecast_run p (u # us) arrival x =
    forecast_run p us arrival ((Step_predictor p (x\<lparr> cg_CapacityTarget := mc_CapacityTarget u \<rparr>))
      \<lparr> cg_RetryFactor := mc_RetryFactor u, cg_CacheRelief := mc_CacheRelief u, cg_ArrivalMean := arrival \<rparr>)"

definition forecastBacklog :: "RuntimeOrchestrator \<Rightarrow> CongestionState \<Rightarrow> MPCControl list \<Rightarrow> f64 \<Rightarrow> f64" where
  "forecastBacklog r plant plan arrival = cg_Backlog (forecast_run (ro_Predictor r) plan arrival plant)"

definition modeProb :: "RuntimeOrchestrator \<Rightarrow> f64 \<Rightarrow> f64 \<Rightarrow> f64 \<Rightarrow> AutonomyMode" where
  "modeProb r backlog conf overrideRate =
    (let risk = math_Tanh (backlog / ro_SLA_Backlog r + (1 - conf) + overrideRate)
     in if fl 0.80 < risk then ModeCritical else if fl 0.55 < risk then ModeGuarded
        else if risk < fl 0.30 then ModeStable else ModeRecovery)"

definition telemetry_delay :: "RuntimeOrchestrator \<Rightarrow> f64 \<Rightarrow> f64 \<Rightarrow> f64" where
  "telemetry_delay r v prev = (let alpha = math_Exp (- ro_Dt r / ro_TelemetryTau r) in alpha * prev + (1 - alpha) * v)"

definition overrideRate :: "f64 list \<Rightarrow> f64" where
  "overrideRate h =
    (if h = [] then 0
     else let v = fold (\<lambda>x s. s + x) h 0 / f64_of_int (int (length h)) in if v < 0 then 0 else if 1 < v then 1 else v)"

definition gate_arrival :: "RuntimeState \<Rightarrow> f64 \<Rightarrow> f64" where
  "gate_arrival s a =
    (let a = (if a < 0 then 0 else a); est = id_ArrivalEstimate (rs_ID s)
     in if 1 < est then (if est * fl 10 < a then est * fl 3 else a) else a)"

definition mpcState :: "RuntimeState \<Rightarrow> MPCState" where
  "mpcState s =
    (let p = rs_Plant s; amp = cg_UpstreamPressure p * math_Max 1 (cg_TopologyAmplification p)
     in \<lparr> ms_Backlog = cg_Backlog p, ms_Latency = cg_Latency p, ms_ArrivalMean = id_ArrivalEstimate (rs_ID s),
          ms_ArrivalVar = id_ArrivalVar (rs_ID s), ms_TopologyPressure = amp,
          ms_TopologyState = cg_TopologyAmplification p, ms_ServiceRate = cg_ServiceRate p,
          ms_CapacityActive = rl_CapacityActive (rs_Rollout s), ms_PrevBacklog = 0 \<rparr>)"

definition safetyState :: "RuntimeState \<Rightarrow> SafetyState" where
  "safetyState s =
    (let p = rs_Plant s
     in \<lparr> ys_Backlog = cg_Backlog p, ys_Latency = cg_Latency p, ys_CapacityActive = rl_CapacityActive (rs_Rollout s),
          ys_CapacityTarget = cg_CapacityTarget p, ys_ServiceRate = cg_ServiceRate p,
          ys_ArrivalMean = id_ArrivalEstimate (rs_ID s), ys_ArrivalVar = id_ArrivalVar (rs_ID s),
          ys_Disturbance = cg_Disturbance p,
          ys_TopologyPressure = cg_UpstreamPressure p * math_Max 1 (cg_TopologyAmplification p),
          ys_RetryPressure = rl_RetryActive (rs_Rollout s) \<rparr>)"

section \<open>Planning and deciding\<close>

definition instability_input :: "RuntimeState \<Rightarrow> RegimeMemory \<Rightarrow> f64 \<Rightarrow> InstabilityInput" where
  "instability_input s mem arrival =
    (let p = rs_Plant s
     in \<lparr> ni_Backlog = cg_Backlog p, ni_BacklogRate = cg_Backlog p - en_prevBacklog (rs_Engine s), ni_Latency = cg_Latency p,
          ni_LatencyRate = cg_Latency p - en_prevLatency (rs_Engine s), ni_RetryRate = rl_RetryActive (rs_Rollout s),
          ni_Oscillation = GetOscillationScore mem,
          ni_Utilization = arrival / (cg_ServiceRate p * rl_CapacityActive (rs_Rollout s) + epsilon6) \<rparr>)"

definition plan_tick :: "RuntimeOrchestrator \<Rightarrow> RuntimeState \<Rightarrow> RegimeMemory \<Rightarrow> (MPCControl list \<times> f64 \<times> mpc_rng) option" where
  "plan_tick r s mem =
    (let x = mpcState s; midCap = GetMidRangeCap mem;
         x = (if 0 < midCap then x\<lparr> ms_CapacityActive := fl 0.7 * ms_CapacityActive x + fl 0.3 * midCap \<rparr> else x)
     in Optimise (ro_MPC r) x (rs_LastPlan s) (ro_rng r))"

definition Estimate_confidence ::
  "ConfidenceEstimator \<Rightarrow> tick_env \<Rightarrow> ConfidenceInput \<Rightarrow> ConfidenceState \<Rightarrow> f64 \<times> ConfidenceState" where
  "Estimate_confidence c env i st =
    (case c of
       ConfidenceLegacy \<Rightarrow> legacy_Estimate (te_now1 env) i st
     | ConfidenceLogistic l \<Rightarrow> logistic_Estimate l (te_now1 env) i st
     | ConfidenceShadow l \<Rightarrow> (case shadow_Estimate l (te_now1 env) (te_now2 env) i st of (c, st, drift) \<Rightarrow> (c, st)))"

definition confidence_input :: "RegimeMemory \<Rightarrow> ConfidenceInput" where
  "confidence_input mem =
    \<lparr> ci_TrendConsistency = 1 - \<bar>tr_Instability (GetTrend mem)\<bar>, ci_SignalAgreement = GetStabilityScore mem,
      ci_ControlEffectiveness = GetEffectiveness mem, ci_Oscillation = GetOscillationScore mem \<rparr>"

definition tick_supervisor :: "RuntimeOrchestrator \<Rightarrow> RuntimeState \<Rightarrow> Supervisor" where
  "tick_supervisor r s =
    (let b = cg_Backlog (rs_Plant s)
     in \<lparr> su_Dt = ro_Dt r, su_MaxHorizon = 6, su_Alpha = 1, su_Beta = fl 0.5, su_EnergyAbsLimit = fl 500,
          su_SafeBacklogLimit = b * fl 2 + fl 10, su_TerminalSafeBacklog = b * fl 1.2 + fl 5,
          su_DisturbanceBound = cg_Disturbance (rs_Plant s) * fl 1.1, su_CostWeight = fl 0.1, su_AdaptGain = fl 0.05 \<rparr>)"

definition plant_view :: "RuntimeState \<Rightarrow> f64 \<Rightarrow> PlantState" where
  "plant_view s confidence =
    (let p = rs_Plant s
     in \<lparr> px_Backlog = cg_Backlog p, px_ArrivalMean = cg_ArrivalMean p,
          px_ArrivalP95 = cg_ArrivalMean p * (1 + cg_ArrivalVar p), px_ArrivalRegimeShift = 0,
          px_ServiceRate = cg_ServiceRate p, px_Disturbance = cg_Disturbance p,
          px_DisturbanceEnergy = cg_DisturbanceEnergy p, px_CapacityActive = cg_CapacityActive p,
          px_CapacityTarget = cg_CapacityTarget p, px_CapacityTau = cg_CapacityTauUp p,
          px_RetryFactor = cg_RetryFactor p, px_LatencyPressure = unit_clamp (cg_Latency p / fl 500),
          px_ScalingCost = 0, px_ModelConfidence = confidence, px_PredictionError = 0 \<rparr>)"

definition urge :: "bool \<Rightarrow> Decision \<Rightarrow> Decision" where
  "urge urgent d =
    (if urgent \<and> de_Action d \<noteq> ''hold''
     then let boosted = de_ScaleDelta d * fl 1.35 in d\<lparr> de_ScaleDelta := if 1 < boosted then 1 else boosted \<rparr>
     else d)"

definition decide_tick ::
  "RuntimeOrchestrator \<Rightarrow> RuntimeState \<Rightarrow> RegimeMemory \<Rightarrow> f64 \<Rightarrow> f64 \<Rightarrow> f64 \<Rightarrow> MPCControl \<Rightarrow> AnomalyType \<times> Decision" where
  \<comment> \<open>the arguments after the memory: arrivals, instability and confidence\<close>
  "decide_tick r s mem arrival instability confidence control =
    (let p = rs_Plant s; osc = GetOscillationScore mem;
         anomaly = Classify \<lparr> an_Instability = instability, an_Confidence = confidence,
           an_BacklogGrowth = cg_Backlog p - en_prevBacklog (rs_Engine s),
           an_LatencyTrend = cg_Latency p - en_prevLatency (rs_Engine s),
           an_RetryPressure = rl_RetryActive (rs_Rollout s), an_Oscillation = osc \<rparr>;
         d = Decide_policy \<lparr> di_Instability = instability, di_Confidence = confidence, di_Anomaly = anomaly,
           di_Backlog = cg_Backlog p, di_Workers = rl_CapacityActive (rs_Rollout s),
           di_TargetCapacity = mc_CapacityTarget control, di_Effectiveness = GetEffectiveness mem, di_Oscillation = osc,
           di_Trend = tr_Instability (GetTrend mem) \<rparr>;
         d = d\<lparr> de_ScaleDelta := ClampDecision (de_ScaleDelta d) osc confidence \<rparr>
     in (anomaly, urge (snd (ShouldRecompute (plant_view s confidence) (tick_supervisor r s))) d))"

section \<open>Safety, rollout and the queue\<close>

definition safety_tick ::
  "tick_env \<Rightarrow> RuntimeState \<Rightarrow> MPCControl list \<Rightarrow> SafetyStrategy \<Rightarrow> (SafetyStrategy \<times> bool \<times> f64) option" where
  "safety_tick env s plan st =
    (let x = safetyState s; up = id_ArrivalUpper (rs_ID s)
     in case st of
         SafetyLegacy e \<Rightarrow> (case ShouldOverrideProb x plan up e of (e, ov, sev) \<Rightarrow> Some (SafetyLegacy e, ov, sev))
       | SafetyCBF c \<Rightarrow> map_option (\<lambda>(ov, sev). (SafetyCBF c, ov, sev))
           (cbf_ShouldOverrideProb (te_fuel env) (te_gamma env) c x plan up)
       | SafetyShadow e c \<Rightarrow> map_option (\<lambda>(e, res). (SafetyShadow e c, sr_override res, sr_severity res))
           (shadow_ShouldOverrideProb (te_fuel env) (te_gamma env) c x plan up e))"

definition tighten :: "f64 \<Rightarrow> SafetyStrategy \<Rightarrow> SafetyStrategy" where
  "tighten t st =
    (case st of SafetyLegacy e \<Rightarrow> SafetyLegacy (SetAdaptiveTightness t e) | SafetyCBF c \<Rightarrow> SafetyCBF c
     | SafetyShadow e c \<Rightarrow> SafetyShadow (SetAdaptiveTightness t e) c)"

definition push_override :: "int \<Rightarrow> f64 \<Rightarrow> f64 list \<Rightarrow> f64 list" where
  "push_override window flag h = (let h = h @ [flag] in if window < int (length h) then tl h else h)"

definition physical_backlog :: "RuntimeState \<Rightarrow> f64 \<Rightarrow> RolloutState \<Rightarrow> f64" where
  "physical_backlog s arrival ro =
    (let service = cg_ServiceRate (rs_Plant s) * rl_CapacityActive ro; base = rs_PhysicalBacklog s;
         base = (if base = 0 \<and> 0 < cg_Backlog (rs_Plant s) then cg_Backlog (rs_Plant s) else base)
     in math_Max 0 (base + arrival - service))"

definition anchored_plant :: "RuntimeState \<Rightarrow> f64 \<Rightarrow> MPCControl \<Rightarrow> f64 \<Rightarrow> RolloutState \<Rightarrow> CongestionState" where
  "anchored_plant s arrival control physical ro =
    (rs_Plant s)\<lparr> cg_Backlog := physical, cg_CapacityActive := rl_CapacityActive ro,
      cg_CapacityTarget := if mc_CapacityTarget control < 1 then 1 else mc_CapacityTarget control,
      cg_RetryFactor := rl_RetryActive ro, cg_CacheRelief := rl_CacheActive ro, cg_ArrivalMean := arrival \<rparr>"

definition identify_tick ::
  "RuntimeOrchestrator \<Rightarrow> RuntimeState \<Rightarrow> f64 \<Rightarrow> f64 \<Rightarrow> f64 \<Rightarrow> f64 \<Rightarrow> f64 \<Rightarrow> RolloutState \<Rightarrow> CongestionState \<Rightarrow>
    IdentificationState \<times> IdentificationSignals" where
  \<comment> \<open>the numbers: arrivals, infrastructure load, prediction error, planner confidence, override rate\<close>
  "identify_tick r s arrival infraLoad predErr mpcConf ovRate ro plant =
    Step_identification (ro_ID r)
      \<lparr> ii_measuredArrival = arrival, ii_queueErr = predErr, ii_latErr = cg_Latency (rs_Plant s),
        ii_residual = cg_Backlog plant - cg_Backlog (rs_Plant s), ii_mpcQuality = mpcConf, ii_safetyRate = ovRate,
        ii_queuePressure = f64_of_int (int (length (rl_IntentQueue ro))) / f64_of_int (rc_QueueMax (ro_Rollout r)),
        ii_slaPressure = fl 0.5, ii_maturity = fl 0.6, ii_rolloutSuccess = True,
        ii_scaleDelta = rl_CapacityActive ro - rl_CapacityActive (rs_Rollout s), ii_infraLoad = infraLoad,
        ii_totalLoad = cg_Backlog plant,
        ii_pdeDensity = (if 0 < cg_ServiceRate (rs_Plant s) then arrival / cg_ServiceRate (rs_Plant s) else 0),
        ii_stabilityMargin = cg_ArrivalMean (rs_Plant s) \<rparr> (rs_ID s)"

section \<open>The tick\<close>

record tick_plan =
  tp_plan :: "MPCControl list"
  tp_mpcConf :: f64
  tp_decision :: Decision
  tp_engine :: EngineState
  tp_override :: bool
  tp_severity :: f64
  tp_safety :: "SafetyStrategy option"
  tp_confidence :: ConfidenceEstimator
  tp_rng :: mpc_rng

definition remember ::
  "RuntimeState \<Rightarrow> RegimeMemory \<Rightarrow> f64 \<Rightarrow> f64 \<Rightarrow> AnomalyType \<Rightarrow> Decision \<Rightarrow> ConfidenceState \<Rightarrow> EngineState" where
  "remember s mem instability confidence anomaly d cst =
    \<lparr> en_memory = Some (Add_entry \<lparr> me_Instability = instability, me_Confidence = confidence, me_Anomaly = anomaly,
        me_Backlog = cg_Backlog (rs_Plant s), me_Workers = rl_CapacityActive (rs_Rollout s), me_Action = de_Action d,
        me_ScaleDelta = de_ScaleDelta d \<rparr> mem),
      en_prevBacklog = cg_Backlog (rs_Plant s), en_prevLatency = cg_Latency (rs_Plant s), en_confState = cst \<rparr>"

definition check_safety ::
  "tick_env \<Rightarrow> RuntimeState \<Rightarrow> MPCControl list \<Rightarrow> SafetyStrategy option \<Rightarrow> (SafetyStrategy option \<times> bool \<times> f64) option" where
  "check_safety env s plan st =
    (case st of None \<Rightarrow> Some (None, False, 0)
     | Some e \<Rightarrow> map_option (\<lambda>(e, ov, sev). (Some e, ov, sev)) (safety_tick env s plan e))"

definition open_tick :: "tick_env \<Rightarrow> RuntimeOrchestrator \<Rightarrow> RuntimeState \<Rightarrow> f64 \<Rightarrow> tick_plan option" where
  \<comment> \<open>steps 1 to 9 and the safety check; \<open>arrival\<close> is gated\<close>
  "open_tick env r s arrival =
    (let mem = (case en_memory (rs_Engine s) of None \<Rightarrow> NewRegimeMemory 128 | Some m \<Rightarrow> m);
         instability = fst (ComputeInstability (instability_input s mem arrival))
     in case plan_tick r s mem of
         None \<Rightarrow> None
       | Some (plan, mpcConf, g) \<Rightarrow>
           if plan = [] then None
           else let est = (case ro_Confidence r of None \<Rightarrow> ConfidenceLegacy | Some c \<Rightarrow> c);
                    (confidence, cst) = Estimate_confidence est env (confidence_input mem) (en_confState (rs_Engine s));
                    (anomaly, d) = decide_tick r s mem arrival instability confidence (hd plan)
             in case check_safety env s plan (ro_Safety r) of
                 None \<Rightarrow> None
               | Some (safety, ov, sev) \<Rightarrow> Some
                   \<lparr> tp_plan = plan, tp_mpcConf = mpcConf, tp_decision = d,
                     tp_engine = remember s mem instability confidence anomaly d cst, tp_override = ov, tp_severity = sev,
                     tp_safety = safety, tp_confidence = est, tp_rng = g \<rparr>)"

definition fail_config :: "tick_env \<Rightarrow> RuntimeOrchestrator \<Rightarrow> RolloutState \<Rightarrow> RolloutState" where
  "fail_config env r ro =
    (if te_rand env < ro_FailureConfigProb r then ro\<lparr> rl_ConfigLag := rl_ConfigLag ro + fl 0.3 \<rparr> else ro)"

definition move_actuators :: "tick_env \<Rightarrow> RuntimeOrchestrator \<Rightarrow> RuntimeState \<Rightarrow> tick_plan \<Rightarrow> f64 \<Rightarrow> f64 \<Rightarrow> RolloutState" where
  \<comment> \<open>\<open>fallback\<close> is the fallback capacity that is remembered\<close>
  "move_actuators env r s p fallback infraLoad =
    (let control = hd (tp_plan p);
         control = (if tp_override p \<and> mc_CapacityTarget control < fallback then control\<lparr> mc_CapacityTarget := fallback \<rparr> else control)
     in fail_config env r (snd (StepAdaptive (ro_Rollout r) (rs_Rollout s) control (id_ModelConfidence (rs_ID s))
          (cg_Backlog (rs_Plant s)) (id_StabilityPressure (rs_ID s)) infraLoad)))"

definition close_tick ::
  "tick_env \<Rightarrow> RuntimeOrchestrator \<Rightarrow> RuntimeState \<Rightarrow> tick_plan \<Rightarrow> f64 \<Rightarrow> f64 \<Rightarrow> RuntimeOrchestrator \<times> RuntimeState \<times> RuntimeTelemetry" where
  "close_tick env r s p arrival infraLoad =
    (let fallback = (if tp_override p then tp_severity p else rs_LastFallbackCap s);
         history = push_override (ro_OverrideWindow r) (if tp_override p then 1 else 0) (rs_OverrideHistory s);
         ov = overrideRate history; backlog = cg_Backlog (rs_Plant s);
         mode = modeProb r backlog (id_ModelConfidence (rs_ID s)) ov;
         tight = fl 0.8 * rs_SafetyTight s + fl 0.2 * math_Tanh (backlog / ro_SLA_Backlog r + ov);
         ro = move_actuators env r s p fallback infraLoad;
         physical = physical_backlog s arrival ro;
         plant = Step_predictor (ro_Predictor r) (anchored_plant s arrival (hd (tp_plan p)) physical ro);
         forecast = forecastBacklog r (rs_Plant s) (tp_plan p) arrival;
         (ident, sig) = identify_tick r s arrival infraLoad (backlog - forecast) (tp_mpcConf p) ov ro plant;
         d = math_Max (ro_DampingMin r) (math_Min (ro_DampingMax r) (ig_DampingFactor sig))
     in (r\<lparr> ro_MPC := SetCadenceModifier d (ro_MPC r), ro_rng := tp_rng p, ro_Safety := map_option (tighten tight) (tp_safety p),
           ro_Rollout := SetPacingModifier d (ro_Rollout r), ro_Confidence := Some (tp_confidence p) \<rparr>,
         s\<lparr> rs_Plant := plant, rs_Rollout := ro, rs_ID := ident, rs_LastPlan := tp_plan p, rs_ForecastBacklog := forecast,
           rs_PhysicalBacklog := physical, rs_Time := rs_Time s + ro_Dt r, rs_Mode := mode, rs_OverrideHistory := history,
           rs_LastFallbackCap := fallback, rs_SafetyTight := tight,
           rs_MetaPersistence := fl 0.99 * rs_MetaPersistence s + fl 0.01 * cg_Backlog plant, rs_Engine := tp_engine p \<rparr>,
         \<lparr> rt_PhysicalBacklog = physical, rt_Backlog = cg_Backlog plant, rt_Latency = cg_Latency plant,
           rt_Capacity = rl_CapacityActive ro, rt_Confidence = id_ModelConfidence ident, rt_MPCConfidence = tp_mpcConf p,
           rt_OverrideRate = ov, rt_Mode = mode, rt_VarianceScale = ig_MPCVarianceScale sig,
           rt_SafetyScale = ig_SafetyMarginScale sig, rt_Damping = d, rt_DecisionDelta = de_ScaleDelta (tp_decision p),
           rt_DecisionAction = de_Action (tp_decision p) \<rparr>))"

definition Tick_autopilot ::
  "tick_env \<Rightarrow> RuntimeOrchestrator \<Rightarrow> RuntimeState \<Rightarrow> f64 \<Rightarrow> f64 \<Rightarrow>
    (RuntimeOrchestrator \<times> RuntimeState \<times> RuntimeTelemetry) option" where
  "Tick_autopilot env r s measuredArrival infraLoad =
    (let arrival = gate_arrival s measuredArrival
     in map_option (\<lambda>p. close_tick env r s p arrival infraLoad) (open_tick env r s arrival))"

section \<open>What every tick keeps\<close>

definition history_ok :: "int \<Rightarrow> f64 list \<Rightarrow> bool" where
  "history_ok window h \<longleftrightarrow> set h \<subseteq> {0, 1} \<and> int (length h) \<le> window"

definition autopilot_ok :: "RuntimeOrchestrator \<Rightarrow> RuntimeState \<Rightarrow> bool" where
  "autopilot_ok r s \<longleftrightarrow> barrier_ok (ro_Predictor r) \<and> ro_DampingMin r = 1 \<and> ro_DampingMax r = fl 3 \<and>
    0 < ro_OverrideWindow r \<and> ro_OverrideWindow r \<le> 2 ^ 50 \<and> history_ok (ro_OverrideWindow r) (rs_OverrideHistory s)"

definition telemetry_ok :: "Predictor \<Rightarrow> RuntimeTelemetry \<Rightarrow> bool" where
  "telemetry_ok p t \<longleftrightarrow> in_barrier p (rt_Backlog t) \<and> nn (rt_PhysicalBacklog t) \<and> fbtw 0 (rt_Confidence t) 1 \<and>
    fbtw 0 (rt_MPCConfidence t) 1 \<and> fbtw 0 (rt_OverrideRate t) 1 \<and> fbtw 1 (rt_VarianceScale t) 3 \<and>
    fbtw 1 (rt_SafetyScale t) 3 \<and> fbtw 1 (rt_Damping t) 3"

lemma push_override_ok:
  assumes "history_ok w h" "0 < w" shows "history_ok w (push_override w (if b then 1 else 0) h)"
proof -
  have "set (tl xs) \<subseteq> set xs" for xs :: "f64 list" by (cases xs) auto
  from this [of "h @ [if b then 1 else 0]"] show ?thesis
    using assms by (auto simp: history_ok_def push_override_def Let_def split: if_splits)
qed

lemma overrideRate_btw:
  assumes "history_ok w h" "w \<le> 2 ^ 50" shows "fbtw 0 (overrideRate h) 1"
proof (cases "h = []")
  case False
  let ?n = "length h"
  have n: "int ?n \<le> 2 ^ 50" "0 < ?n" using assms False by (auto simp: history_ok_def)
  have b: "fbound (real j * 1)" if "j \<le> 0 + ?n" for j
    using fbound_of_int [of "int j"] that n by simp
  have "fbtw 0 (fold (\<lambda>x s. s + x) h 0) (real (0 + ?n) * 1)"
    by (rule fold_sum_btw) (use assms(1) b in \<open>auto simp: history_ok_def zero_f64_def one_f64_def\<close>)
  moreover have "f64_of_int (int ?n) = Fin (real ?n)" using f64_of_int_small [of "int ?n"] n by simp
  ultimately have "f_nonneg (fold (\<lambda>x s. s + x) h 0 / f64_of_int (int ?n))"
    using n(2) by (auto intro!: f_nonneg_divide dest: fbtw_nonneg)
  then show ?thesis
    using False by (cases "fold (\<lambda>x s. s + x) h 0 / f64_of_int (int ?n)") (auto simp: overrideRate_def Let_def zero_f64_def one_f64_def)
qed (simp add: overrideRate_def zero_f64_def)

lemma open_tick_confidence: "open_tick env r s arrival = Some p \<Longrightarrow> fbtw 0 (tp_mpcConf p) 1"
  using Optimise_confidence
  by (fastforce simp: open_tick_def plan_tick_def Let_def split: option.splits prod.splits if_splits)

lemma identify_tick_ok: "identify_tick r s a l e m o' ro plant = (st, sig) \<Longrightarrow> identification_ok st \<and> signals_ok sig"
  by (auto simp: identify_tick_def Step_identification_def Let_def sanitize_ok signals_range)

lemma damping_btw: "fbtw 1 x 3 \<Longrightarrow> fbtw 1 (math_Max 1 (math_Min (fl 3) x)) 3"
  by (auto elim!: fbtwE simp: one_f64_def math_Max_def math_Min_def)

lemma physical_backlog_nn: "nn (physical_backlog s arrival ro)"
  by (simp add: physical_backlog_def Let_def nn_Max0)

lemma tick_keeps_ok:
  assumes "autopilot_ok r s" "Tick_autopilot env r s measured infraLoad = Some (r', s', t)"
  shows "autopilot_ok r' s' \<and> telemetry_ok (ro_Predictor r') t"
proof -
  obtain p where p: "open_tick env r s (gate_arrival s measured) = Some p"
    and c: "close_tick env r s p (gate_arrival s measured) infraLoad = (r', s', t)"
    using assms(2) by (auto simp: Tick_autopilot_def Let_def)
  have h: "history_ok (ro_OverrideWindow r) (push_override (ro_OverrideWindow r) (if tp_override p then 1 else 0) (rs_OverrideHistory s))"
    using assms(1) by (intro push_override_ok) (auto simp: autopilot_ok_def)
  have ov: "fbtw 0 (overrideRate (push_override (ro_OverrideWindow r) (if tp_override p then 1 else 0) (rs_OverrideHistory s))) 1"
    using overrideRate_btw [OF h] assms(1) by (simp add: autopilot_ok_def)
  have "autopilot_ok r' s'"
    using c h assms(1) by (auto simp: close_tick_def Let_def autopilot_ok_def split: prod.splits)
  moreover have "telemetry_ok (ro_Predictor r') t"
    using c ov open_tick_confidence [OF p] assms(1) damping_btw Step_predictor_backlog
    by (auto simp: close_tick_def Let_def telemetry_ok_def autopilot_ok_def physical_backlog_nn identification_ok_def
        signals_ok_def dest!: identify_tick_ok split: prod.splits)
  ultimately show ?thesis ..
qed


fun tick_run :: "(tick_env \<times> f64 \<times> f64) list \<Rightarrow> RuntimeOrchestrator \<times> RuntimeState \<Rightarrow> (RuntimeOrchestrator \<times> RuntimeState) option" where
  "tick_run [] st = Some st"
| "tick_run ((env, measured, infraLoad) # is) (r, s) =
    (case Tick_autopilot env r s measured infraLoad of None \<Rightarrow> None | Some (r, s, t) \<Rightarrow> tick_run is (r, s))"

lemma Tick_identification:
  assumes "Tick_autopilot env r s measured l = Some (r', s', t)"
  shows "ro_ID r' = ro_ID r \<and>
    (\<exists>i. ii_measuredArrival i = gate_arrival s measured \<and> rs_ID s' = fst (Step_identification (ro_ID r) i (rs_ID s)))"
proof -
  obtain p where c: "close_tick env r s p (gate_arrival s measured) l = (r', s', t)"
    using assms by (auto simp: Tick_autopilot_def Let_def)
  have "\<exists>i. ii_measuredArrival i = a \<and> identify_tick r s a b c d e o' q = Step_identification (ro_ID r) i (rs_ID s)" for a b c d e o' q
    unfolding identify_tick_def by (intro exI conjI, rule identification_input.select_convs(1), rule refl)
  moreover have "ro_ID r' = ro_ID r" using c by (auto simp: close_tick_def Let_def case_prod_unfold)
  moreover have "\<exists>b c d e o' q. rs_ID s' = fst (identify_tick r s (gate_arrival s measured) b c d e o' q)"
    using c by (simp only: close_tick_def Let_def case_prod_unfold prod.inject) (auto; blast)
  ultimately show ?thesis by metis
qed

lemma gate_arrival_NaN: "gate_arrival s NaN = NaN"
  by (simp add: gate_arrival_def Let_def)

text \<open>
  The arrival gate, which is documented to reject NaN, lets it through, and one NaN measurement
  disables the jump detector of the service for good: in every later run of ticks the running
  mean and variance of its arrivals are NaN.
\<close>

theorem nan_measurement_is_forever:
  assumes "ie_ArrivalStrategy (ro_ID r) = Some (StatisticalArrivalEstimator k q)"
    and "tick_run ((env, NaN, l) # is) (r, s) = Some (r', s')"
  shows "id_ArrivalWelfordM (rs_ID s') = NaN \<and> id_ArrivalWelfordV (rs_ID s') = NaN"
proof -
  have step: "ro_ID r' = ro_ID r \<and> deaf (rs_ID s')"
    if t: "Tick_autopilot env r s m l = Some (r', s', tel)" "m = NaN \<or> deaf (rs_ID s)"
      "ie_ArrivalStrategy (ro_ID r) = Some (StatisticalArrivalEstimator k q)" for env r s m l r' s' tel
    using Tick_identification [OF t(1)] deaf_step [OF t(3)] t(2) gate_arrival_NaN by metis
  have run: "deaf (rs_ID (snd res))"
    if "tick_run xs (r, s) = Some res" "deaf (rs_ID s)"
      "ie_ArrivalStrategy (ro_ID r) = Some (StatisticalArrivalEstimator k q)" for xs r s res
    using that
  proof (induction xs arbitrary: r s)
    case (Cons x xs)
    obtain env m l where x: "x = (env, m, l)" by (cases x)
    obtain r1 s1 t1 where "Tick_autopilot env r s m l = Some (r1, s1, t1)" "tick_run xs (r1, s1) = Some res"
      using Cons.prems(1) x by (auto split: option.splits)
    then show ?case using step [of env r s m l r1 s1 t1] Cons.IH [of r1 s1] Cons.prems by auto
  qed auto
  obtain r1 s1 t1 where a: "Tick_autopilot env r s NaN l = Some (r1, s1, t1)" "tick_run is (r1, s1) = Some (r', s')"
    using assms(2) by (auto split: option.splits)
  then show ?thesis using step [OF a(1) _ assms(1)] run [OF a(2)] assms(1) by (simp add: deaf_def)
qed

text \<open>The tick returns when the planner can plan and safety is left to the legacy engine.\<close>

lemma tick_returns:
  assumes "0 < mo_Horizon (ro_MPC r)" "0 \<le> mo_ScenarioCount (ro_MPC r)" "bounds_ok (ro_MPC r)"
    and "case ro_Safety r of Some (SafetyLegacy e) \<Rightarrow> True | None \<Rightarrow> True | _ \<Rightarrow> False"
  shows "Tick_autopilot env r s measured infraLoad \<noteq> None"
proof -
  have safe: "\<exists>res. check_safety env s plan (ro_Safety r) = Some res" for plan
    using assms(4) by (auto simp: check_safety_def safety_tick_def Let_def split: option.splits SafetyStrategy.splits prod.splits)
  have plan: "\<exists>plan c g. plan_tick r s mem = Some (plan, c, g) \<and> plan \<noteq> []" for mem
  proof -
    obtain plan c g where o': "plan_tick r s mem = Some (plan, c, g)"
      using Optimise_returns [OF assms(1,2)] unfolding plan_tick_def Let_def by metis
    then have "int (length plan) = mo_Horizon (ro_MPC r)" using Optimise_length [OF assms(3)] unfolding plan_tick_def Let_def by blast
    then show ?thesis using o' assms(1) by auto
  qed
  define mem where "mem = (case en_memory (rs_Engine s) of None \<Rightarrow> NewRegimeMemory 128 | Some m \<Rightarrow> m)"
  obtain pl c g where pl: "plan_tick r s mem = Some (pl, c, g)" "pl \<noteq> []" using plan by blast
  obtain sf where "check_safety env s pl (ro_Safety r) = Some sf" using safe by blast
  then have "open_tick env r s a \<noteq> None" for a
    using pl unfolding open_tick_def Let_def mem_def [symmetric] by (simp add: case_prod_unfold)
  then show ?thesis by (simp add: Tick_autopilot_def Let_def)
qed

definition demo_runtime :: RuntimeOrchestrator where
  "demo_runtime =
    \<lparr> ro_Dt = 1, ro_Predictor = runtime_predictor 1, ro_MPC = greedy_optimiser, ro_rng = calm_rng, ro_Safety = Some (SafetyLegacy calm_safety),
      ro_Rollout = runtime_rollout 1,
      ro_ID = \<lparr> ie_Dt = 1, ie_FastGain = fl 0.35, ie_SlowGain = fl 0.10, ie_BlendGain = fl 0.10, ie_VarGain = fl 0.10,
        ie_BurstGain = fl 0.10, ie_BurstDecay = fl 0.05, ie_BurstCap = fl 3, ie_NoiseGain = fl 0.20, ie_DriftGain = fl 0.05,
        ie_BaseConfidenceFloor = fl 0.20, ie_ConfidenceGain = fl 0.15, ie_ReliabilityGain = fl 0.10,
        ie_InfraSensitivity = fl 0.5, ie_SLAWeightQueue = fl 0.5, ie_SLAWeightLatency = fl 0.5, ie_EVTFactor = fl 2,
        ie_SeasonalGain = fl 0.05, ie_DampingGain = fl 0.10,
        ie_ArrivalStrategy = Some (StatisticalArrivalEstimator (fl 5) (fl 0.10)) \<rparr>,
      ro_Confidence = None, ro_SLA_Backlog = fl 100, ro_OverrideWindow = 16, ro_DampingMin = 1, ro_DampingMax = fl 3,
      ro_FailureScaleProb = fl 0.02, ro_FailureConfigProb = fl 0.01, ro_TelemetryTau = fl 2 \<rparr>"

definition new_state :: RuntimeState where
  "new_state =
    \<lparr> rs_Plant = zero_congestion, rs_Rollout = zero_rollout, rs_ID = zero_identification, rs_LastPlan = [],
      rs_ForecastBacklog = 0, rs_PhysicalBacklog = 0, rs_Time = 0, rs_Mode = ModeStable, rs_OverrideHistory = [],
      rs_LastFallbackCap = 0, rs_SafetyTight = 0, rs_ModeStableCount = 0, rs_MetaPersistence = 0,
      rs_Engine = \<lparr> en_memory = None, en_prevBacklog = 0, en_prevLatency = 0,
        en_confState = \<lparr> cf_PrevConfidence = 0, cf_LastTickTime = 0 \<rparr> \<rparr> \<rparr>"

lemma demo_returns: "\<exists>r s t. Tick_autopilot env demo_runtime new_state a l = Some (r, s, t)"
  using tick_returns [of demo_runtime env new_state a l]
  by (cases "Tick_autopilot env demo_runtime new_state a l")
    (auto simp: demo_runtime_def greedy_optimiser_def bounds_ok_def one_f64_def)


theorem nan_measurement_is_forever_witness:
  "\<exists>env r s. tick_run [(env, NaN, 0)] (demo_runtime, new_state) = Some (r, s) \<and> id_ArrivalWelfordV (rs_ID s) = NaN"
proof -
  obtain env r s t where "Tick_autopilot env demo_runtime new_state NaN 0 = Some (r, s, t)" using demo_returns by blast
  then have e: "tick_run [(env, NaN, 0)] (demo_runtime, new_state) = Some (r, s)" by simp
  moreover have "ie_ArrivalStrategy (ro_ID demo_runtime) = Some (StatisticalArrivalEstimator (fl 5) (fl 0.10))"
    by (simp add: demo_runtime_def)
  ultimately show ?thesis using nan_measurement_is_forever by blast
qed

end
