(* ===== verification/GoString.thy ===== *)
theory GoString
  imports Prelude "HOL-Library.Sublist"
begin

text \<open>
  Go strings as byte lists, and the functions of package \<open>strings\<close> and of \<open>net\<close> the
  code calls.  \<open>TrimSpace\<close> and \<open>ToLower\<close> treat ASCII only: a byte above 127 is neither
  white space nor a letter with a case.
\<close>

definition has_prefix :: "string \<Rightarrow> string \<Rightarrow> bool" where
  "has_prefix s p = (take (length p) s = p)"

definition has_suffix :: "string \<Rightarrow> string \<Rightarrow> bool" where
  "has_suffix s p = (length p \<le> length s \<and> drop (length s - length p) s = p)"

definition trim_prefix :: "string \<Rightarrow> string \<Rightarrow> string" where
  "trim_prefix s p = (if has_prefix s p then drop (length p) s else s)"

definition char_code :: "char \<Rightarrow> nat" where
  "char_code c = of_char c"

definition is_space :: "char \<Rightarrow> bool" where
  \<comment> \<open>tab, line feed, vertical tab, form feed, carriage return, space\<close>
  "is_space c = (char_code c = 32 \<or> 9 \<le> char_code c \<and> char_code c \<le> 13)"

definition trim_space :: "string \<Rightarrow> string" where
  "trim_space s = rev (dropWhile is_space (rev (dropWhile is_space s)))"

definition trim_right :: "string \<Rightarrow> char \<Rightarrow> string" where
  \<comment> \<open>\<open>strings.TrimRight\<close> with a cut set of one byte\<close>
  "trim_right s c = rev (dropWhile (\<lambda>x. x = c) (rev s))"

definition lower_char :: "char \<Rightarrow> char" where
  "lower_char c = (if 65 \<le> char_code c \<and> char_code c \<le> 90 then char_of (char_code c + 32) else c)"

definition to_lower :: "string \<Rightarrow> string" where
  "to_lower s = map lower_char s"

fun index_byte :: "string \<Rightarrow> char \<Rightarrow> nat option" where
  \<comment> \<open>\<open>None\<close> for \<open>-1\<close>\<close>
  "index_byte [] c = None"
| "index_byte (x # xs) c = (if x = c then Some 0 else map_option Suc (index_byte xs c))"

definition last_index_byte :: "string \<Rightarrow> char \<Rightarrow> nat option" where
  "last_index_byte s c = map_option (\<lambda>i. length s - 1 - i) (index_byte (rev s) c)"

fun contains :: "string \<Rightarrow> string \<Rightarrow> bool" where
  "contains [] sub = (sub = [])"
| "contains (x # xs) sub = (has_prefix (x # xs) sub \<or> contains xs sub)"

fun split_byte :: "string \<Rightarrow> char \<Rightarrow> string list" where
  \<comment> \<open>\<open>strings.Split\<close> with a separator of one byte\<close>
  "split_byte [] c = [[]]"
| "split_byte (x # xs) c =
    (if x = c then [] # split_byte xs c
     else case split_byte xs c of [] \<Rightarrow> [[x]] | p # ps \<Rightarrow> (x # p) # ps)"

text \<open>\<open>net.SplitHostPort\<close>: the host, or \<open>None\<close> for an error.\<close>

definition split_host :: "string \<Rightarrow> string option" where
  "split_host s =
    (case last_index_byte s CHR '':'' of
       None \<Rightarrow> None
     | Some i \<Rightarrow>
        if has_prefix s ''['' then
          (case index_byte s CHR '']'' of
             None \<Rightarrow> None
           | Some e \<Rightarrow>
              if e + 1 \<noteq> i then None
              else if CHR ''['' \<in> set (drop 1 s) \<or> CHR '']'' \<in> set (drop (e + 1) s) then None
              else Some (take (e - 1) (drop 1 s)))
        else if CHR '':'' \<in> set (take i s) then None
        else if CHR ''['' \<in> set s \<or> CHR '']'' \<in> set s then None
        else Some (take i s))"

section \<open>Decimal numbers\<close>

definition digit_char :: "nat \<Rightarrow> char" where
  "digit_char d = char_of (48 + d)"

fun dec_nat :: "nat \<Rightarrow> string" where
  \<comment> \<open>\<open>%d\<close> of an unsigned number\<close>
  "dec_nat n = (if n < 10 then [digit_char n] else dec_nat (n div 10) @ [digit_char (n mod 10)])"

declare dec_nat.simps [simp del]

lemma index_byte_append: "c \<notin> set xs \<Longrightarrow> index_byte (xs @ c # ys) c = Some (length xs)"
  by (induction xs) auto

lemma index_byte_None: "c \<notin> set xs \<Longrightarrow> index_byte xs c = None"
  by (induction xs) auto

lemma last_index_byte_append: "c \<notin> set ys \<Longrightarrow> last_index_byte (xs @ c # ys) c = Some (length xs)"
  using index_byte_append [of c "rev ys" "rev xs"] by (simp add: last_index_byte_def)

lemma last_index_byte_None: "c \<notin> set xs \<Longrightarrow> last_index_byte xs c = None"
  by (simp add: last_index_byte_def index_byte_None)

lemma has_prefix_append: "has_prefix (p @ s) p"
  by (simp add: has_prefix_def)

lemma has_prefix_iff: "has_prefix s p \<longleftrightarrow> (\<exists>t. s = p @ t)"
  unfolding has_prefix_def by (metis append_eq_conv_conj append_take_drop_id)

lemma split_byte_ne [simp]: "split_byte s c \<noteq> []"
  by (induction s) (auto split: list.split)

lemma trim_space_Nil [simp]: "trim_space [] = []"
  by (simp add: trim_space_def)

lemma length_trim_space: "length (trim_space s) \<le> length s"
proof -
  have "length (trim_space s) \<le> length (dropWhile is_space s)"
    unfolding trim_space_def by (metis length_dropWhile_le length_rev)
  also have "\<dots> \<le> length s" by (rule length_dropWhile_le)
  finally show ?thesis .
qed

end
