(* ===== verification/Security.thy ===== *)
theory Security
  imports GoString RingLog GoTime
begin

unbundle bit_operations_syntax

text \<open>
  \<open>internal/security/security.go\<close>: tokens, input validation, the token-bucket rate
  limiter, the audit log and the three middlewares.  A request is a record of what the
  code reads of it; \<open>rq_headers\<close> is \<open>Header.Get\<close> (empty when absent) and \<open>rq_token\<close>
  the query parameter \<open>token\<close>.  A middleware returns the response headers it sets and
  whether it calls the next handler.  The log lines written to stderr are not modelled.
\<close>

section \<open>Tokens\<close>

definition MaxServiceIDLen :: int where "MaxServiceIDLen = 128"
definition MaxBatchSize :: int where "MaxBatchSize = 512"
definition MinTokenLen :: int where "MinTokenLen = 32"
definition AuditBufSize :: int where "AuditBufSize = 10000"

definition ConstantTimeCompare :: "string \<Rightarrow> string \<Rightarrow> int" where
  \<comment> \<open>\<open>crypto/subtle\<close>: 1 for equal slices; the bytes are combined without an early exit\<close>
  "ConstantTimeCompare x y =
    (if length x \<noteq> length y then 0
     else if fold (\<lambda>(a, b) v. v OR ((of_nat (char_code a) :: 8 word) XOR of_nat (char_code b))) (zip x y) 0 = 0 then 1 else 0)"

definition ConstantTimeEq :: "u32 \<Rightarrow> u32 \<Rightarrow> int" where
  "ConstantTimeEq x y = (if x = y then 1 else 0)"

definition ValidateToken :: "string \<Rightarrow> string \<Rightarrow> bool" where
  "ValidateToken expected candidate =
    (if length expected = 0 then True
     else if length candidate = 0 then False
     else if ConstantTimeEq (of_nat (length expected)) (of_nat (length candidate)) = 0 then False
     else ConstantTimeCompare expected candidate = 1)"

record Request =
  rq_Method :: string
  rq_Path :: string
  rq_RemoteAddr :: string
  rq_headers :: "string \<Rightarrow> string"
  rq_token :: string

definition ExtractToken :: "Request \<Rightarrow> string" where
  "ExtractToken r =
    (let t = trim_space (rq_headers r ''X-Ingest-Token'') in
     if t \<noteq> '''' then t
     else let auth = rq_headers r ''Authorization'' in
       if has_prefix auth ''Bearer '' then trim_space (trim_prefix auth ''Bearer '')
       else let t = trim_space (rq_token r) in if t \<noteq> '''' then t else '''')"

definition weakTokens :: "string list" where
  "weakTokens = [''changeme'', ''changeme-set-in-production'', ''secret'', ''password'', ''token'',
     ''test'', ''dev'', ''local'', ''admin'', ''12345678'']"

definition WarnWeakToken :: "string \<Rightarrow> bool" where
  \<comment> \<open>whether a warning is logged; the length counts bytes, of an ASCII token\<close>
  "WarnWeakToken token =
    (token = '''' \<or>
     (let lower = to_lower token in
      (\<exists>weak \<in> set weakTokens. lower = weak \<or> has_prefix lower weak)) \<or>
     int (length token) < MinTokenLen)"

definition ellipsis :: string where
  \<comment> \<open>the three bytes of the UTF-8 encoding of U+2026\<close>
  "ellipsis = [char_of (226 :: nat), char_of (128 :: nat), char_of (166 :: nat)]"

definition tokenPrefix :: "string \<Rightarrow> string" where
  "tokenPrefix token =
    (if length token = 0 then ''''
     else if 8 < length token then take 8 token @ ellipsis
     else take (length token div 2) token @ ellipsis)"

section \<open>Input validation\<close>

datatype ValidationError =
    Empty_id
  | Id_too_long int
  | Id_chars
  | Not_finite string
  | Out_of_range string f64 f64 f64
  | Batch_too_large int

definition service_id_char :: "char \<Rightarrow> bool" where
  \<comment> \<open>the character class of \<open>serviceIDPattern\<close>\<close>
  "service_id_char c =
    (let k = char_code c in
     97 \<le> k \<and> k \<le> 122 \<or> 65 \<le> k \<and> k \<le> 90 \<or> 48 \<le> k \<and> k \<le> 57 \<or> c \<in> set ''-_./: '')"

definition serviceIDPattern :: "string \<Rightarrow> bool" where
  "serviceIDPattern s = (1 \<le> length s \<and> length s \<le> 128 \<and> (\<forall>c \<in> set s. service_id_char c))"

definition ValidateServiceID :: "string \<Rightarrow> ValidationError option" where
  "ValidateServiceID sid =
    (if sid = '''' then Some Empty_id
     else if MaxServiceIDLen < int (length sid) then Some (Id_too_long (int (length sid)))
     else if \<not> serviceIDPattern sid then Some Id_chars
     else None)"

definition ValidateMetricFloat :: "string \<Rightarrow> f64 \<Rightarrow> f64 \<Rightarrow> f64 \<Rightarrow> ValidationError option" where
  "ValidateMetricFloat name v lo hi =
    (if math_IsNaN v \<or> math_IsInf v then Some (Not_finite name)
     else if v < lo \<or> hi < v then Some (Out_of_range name lo hi v)
     else None)"

definition ValidateBatchSize :: "int \<Rightarrow> ValidationError option" where
  "ValidateBatchSize n = (if MaxBatchSize < n then Some (Batch_too_large n) else None)"

section \<open>The rate limiter\<close>

record bucket =
  bk_tokens :: f64
  bk_lastSeen :: gotime

record RateLimiter =
  rl_buckets :: "(string, bucket) gomap"
  rl_capacity :: f64
  rl_refillRate :: f64
  rl_idleTimeout :: duration
  rl_lastCleanup :: gotime

definition NewRateLimiter :: "gotime \<Rightarrow> f64 \<Rightarrow> f64 \<Rightarrow> duration \<Rightarrow> RateLimiter" where
  "NewRateLimiter now capacity rps idleFor =
     \<lparr> rl_buckets = [], rl_capacity = capacity, rl_refillRate = rps, rl_idleTimeout = idleFor,
       rl_lastCleanup = now \<rparr>"

definition gcIfNeeded :: "gotime \<Rightarrow> RateLimiter \<Rightarrow> RateLimiter" where
  "gcIfNeeded now rl =
    (if time_sub now (rl_lastCleanup rl) < Minute then rl
     else rl\<lparr> rl_buckets := filter (\<lambda>(k, b). \<not> rl_idleTimeout rl < time_sub now (bk_lastSeen b))
                            (rl_buckets rl),
              rl_lastCleanup := now \<rparr>)"

definition refill :: "gotime \<Rightarrow> RateLimiter \<Rightarrow> bucket \<Rightarrow> bucket" where
  "refill now rl b =
    (let elapsed = duration_Seconds (time_sub now (bk_lastSeen b));
         t = bk_tokens b + elapsed * rl_refillRate rl;
         t = (if rl_capacity rl < t then rl_capacity rl else t)
     in \<lparr> bk_tokens = t, bk_lastSeen = now \<rparr>)"

definition Allow :: "gotime \<Rightarrow> string \<Rightarrow> RateLimiter \<Rightarrow> bool \<times> RateLimiter" where
  "Allow now key rl =
    (let b = (case map_of (rl_buckets rl) key of Some b \<Rightarrow> b
              | None \<Rightarrow> \<lparr> bk_tokens = rl_capacity rl, bk_lastSeen = now \<rparr>);
         b = refill now rl b
     in if bk_tokens b < 1
        then (False, gcIfNeeded now (rl\<lparr> rl_buckets := AList.update key b (rl_buckets rl) \<rparr>))
        else (True, gcIfNeeded now (rl\<lparr> rl_buckets :=
                AList.update key (b\<lparr> bk_tokens := bk_tokens b - 1 \<rparr>) (rl_buckets rl) \<rparr>)))"

definition RealIP :: "Request \<Rightarrow> string" where
  "RealIP r =
    (let ip = rq_headers r ''X-Real-IP'' in
     if ip \<noteq> '''' then trim_space ip
     else let xff = rq_headers r ''X-Forwarded-For'' in
       if xff \<noteq> '''' then trim_space (hd (split_byte xff CHR '',''))
       else case split_host (rq_RemoteAddr r) of None \<Rightarrow> rq_RemoteAddr r | Some host \<Rightarrow> host)"

section \<open>The audit log\<close>

record AuditEvent =
  ae_Time :: gotime
  ae_IP :: string
  ae_Path :: string
  ae_Method :: string
  ae_EventType :: string
  ae_Detail :: string
  ae_TokenHash :: string
  ae_Status :: int

definition zero_event :: AuditEvent where
  "zero_event = \<lparr> ae_Time = 0, ae_IP = '''', ae_Path = '''', ae_Method = '''', ae_EventType = '''',
     ae_Detail = '''', ae_TokenHash = '''', ae_Status = 0 \<rparr>"

record AuditLogger =
  al_buf :: "AuditEvent list"
  al_cap :: int
  al_head :: int
  al_size :: int

definition NewAuditLogger :: AuditLogger where
  "NewAuditLogger =
     \<lparr> al_buf = replicate (nat AuditBufSize) zero_event, al_cap = AuditBufSize, al_head = 0,
       al_size = 0 \<rparr>"

definition Log :: "gotime \<Rightarrow> AuditEvent \<Rightarrow> AuditLogger \<Rightarrow> AuditLogger option" where
  "Log now e al =
    (let e = e\<lparr> ae_Time := now \<rparr> in
     if al_head al < 0 \<or> int (length (al_buf al)) \<le> al_head al \<or> al_cap al = 0 then None
     else Some (al\<lparr> al_buf := (al_buf al)[nat (al_head al) := e],
                    al_head := remt (al_head al + 1) (al_cap al),
                    al_size := (if al_size al < al_cap al then al_size al + 1 else al_size al) \<rparr>))"

definition Recent :: "AuditLogger \<Rightarrow> int \<Rightarrow> AuditEvent list option" where
  \<comment> \<open>\<open>None\<close>: \<open>make\<close> panics on a negative length\<close>
  "Recent al n =
    (let n = (if al_size al < n then al_size al else n) in
     if n < 0 then None
     else Some (map (\<lambda>i. al_buf al ! nat (remt (al_head al - n + int i + al_cap al) (al_cap al)))
                 [0..<nat n]))"

section \<open>Security headers and CORS\<close>

type_synonym headers = "(string, string) gomap"

definition set_headers :: "(string \<times> string) list \<Rightarrow> headers \<Rightarrow> headers" where
  "set_headers kvs h = fold (\<lambda>(k, v). AList.update k v) kvs h"

definition squoted :: "string \<Rightarrow> string" where
  \<comment> \<open>in single quotes\<close>
  "squoted s = CHR 0x27 # s @ [CHR 0x27]"

definition SecurityHeaders :: "bool \<Rightarrow> Request \<Rightarrow> headers \<Rightarrow> headers" where
  "SecurityHeaders tlsEnabled r h =
    (let h = set_headers
           [(''X-Frame-Options'', ''DENY''),
            (''X-Content-Type-Options'', ''nosniff''),
            (''Referrer-Policy'', ''strict-origin-when-cross-origin''),
            (''Permissions-Policy'', ''geolocation=(), microphone=(), camera=()''),
            (''Content-Security-Policy'',
              concat [''default-src '', squoted ''self'', ''; script-src '', squoted ''self'', '' '',
                squoted ''unsafe-inline'', ''; style-src '', squoted ''self'', '' '',
                squoted ''unsafe-inline'', '' https://fonts.googleapis.com; '',
                ''font-src '', squoted ''self'', '' https://fonts.gstatic.com; '',
                ''connect-src '', squoted ''self'', '' ws: wss:; '',
                ''img-src '', squoted ''self'', '' data:; '', ''frame-ancestors '', squoted ''none''])] h;
         h = (if tlsEnabled
              then AList.update ''Strict-Transport-Security'' ''max-age=31536000; includeSubDomains'' h
              else h)
     in if has_prefix (rq_Path r) ''/api/''
        then set_headers [(''Cache-Control'', ''no-store, max-age=0''), (''Pragma'', ''no-cache'')] h
        else h)"

definition CORSMiddleware :: "string list \<Rightarrow> Request \<Rightarrow> headers \<Rightarrow> headers \<times> bool" where
  \<comment> \<open>the flag: whether the next handler runs; otherwise the status is 204\<close>
  "CORSMiddleware allowedOrigins r h =
    (let originsMap = map (\<lambda>o'. trim_right o' CHR ''/'') allowedOrigins;
         allowAll = (allowedOrigins = []);
         origin = rq_headers r ''Origin'';
         h = (if origin \<noteq> '''' \<and> (allowAll \<or> trim_right origin CHR ''/'' \<in> set originsMap)
              then set_headers
                [(''Access-Control-Allow-Origin'', origin), (''Vary'', ''Origin''),
                 (''Access-Control-Allow-Methods'', ''GET, POST, OPTIONS''),
                 (''Access-Control-Allow-Headers'', ''Content-Type, Authorization, X-Ingest-Token''),
                 (''Access-Control-Max-Age'', ''3600'')] h
              else h)
     in (h, rq_Method r \<noteq> ''OPTIONS''))"

section \<open>Authentication\<close>

record AuthConfig =
  ac_IngestToken :: string
  ac_ControlToken :: string
  ac_DashboardToken :: string
  ac_AllowedOrigins :: "string list"
  ac_TLSEnabled :: bool

datatype routeClass = Ingest_class | Control_class | Dashboard_class

definition route_class :: "string \<Rightarrow> routeClass option" where
  "route_class path =
    (if path = ''/api/v1/ingest'' then Some Ingest_class
     else if has_prefix path ''/api/v1/control/'' \<or> path = ''/api/v1/policy/update'' \<or>
       path = ''/api/v1/runtime/step'' \<or> path = ''/api/v1/sandbox/trigger'' \<or>
       path = ''/api/v1/simulation/control'' \<or> path = ''/api/v1/intelligence/rollout'' \<or>
       path = ''/api/v1/alerts/ack''
     then Some Control_class
     else if path = ''/ws'' \<or> path = ''/api/v1/snapshot'' then Some Dashboard_class
     else None)"

fun class_name :: "routeClass \<Rightarrow> string" where
  "class_name Ingest_class = ''ingest''"
| "class_name Control_class = ''control''"
| "class_name Dashboard_class = ''dashboard''"

definition required_token :: "AuthConfig \<Rightarrow> routeClass \<Rightarrow> string" where
  "required_token cfg c =
    (case c of
       Ingest_class \<Rightarrow> ac_IngestToken cfg
     | Control_class \<Rightarrow> if ac_ControlToken cfg = '''' then ac_IngestToken cfg else ac_ControlToken cfg
     | Dashboard_class \<Rightarrow> ac_DashboardToken cfg)"

record guard_state =
  gs_audit :: AuditLogger
  gs_ingestRL :: "RateLimiter option"
  gs_controlRL :: "RateLimiter option"

definition guard_allow :: "gotime \<Rightarrow> routeClass \<Rightarrow> string \<Rightarrow> guard_state \<Rightarrow> bool \<times> guard_state" where
  \<comment> \<open>\<open>rl != nil && !rl.Allow(ip)\<close>, negated\<close>
  "guard_allow now c ip g =
    (if c = Ingest_class
     then case gs_ingestRL g of None \<Rightarrow> (True, g)
          | Some rl \<Rightarrow> (fst (Allow now ip rl), g\<lparr> gs_ingestRL := Some (snd (Allow now ip rl)) \<rparr>)
     else case gs_controlRL g of None \<Rightarrow> (True, g)
          | Some rl \<Rightarrow> (fst (Allow now ip rl), g\<lparr> gs_controlRL := Some (snd (Allow now ip rl)) \<rparr>))"

datatype verdict = Serve | Too_many_requests | Unauthorized_request

definition audited :: "gotime \<Rightarrow> AuditEvent \<Rightarrow> verdict \<Rightarrow> guard_state \<Rightarrow> (verdict \<times> guard_state) option" where
  "audited now e v g = map_option (\<lambda>al. (v, g\<lparr> gs_audit := al \<rparr>)) (Log now e (gs_audit g))"

definition AuthMiddleware ::
  "AuthConfig \<Rightarrow> gotime \<Rightarrow> Request \<Rightarrow> guard_state \<Rightarrow> (verdict \<times> guard_state) option" where
  "AuthMiddleware cfg now r g =
    (let path = rq_Path r; ip = RealIP r; candidate = ExtractToken r;
         ev = zero_event\<lparr> ae_IP := ip, ae_Path := path, ae_Method := rq_Method r \<rparr>
     in case route_class path of
          None \<Rightarrow> Some (Serve, g)
        | Some c \<Rightarrow>
            let required = required_token cfg c; detail = ''class='' @ class_name c;
                (ok, g) = guard_allow now c ip g
            in if \<not> ok
               then audited now (ev\<lparr> ae_EventType := ''rate_limit'', ae_Detail := detail \<rparr>)
                      Too_many_requests g
               else if required \<noteq> '''' \<and> \<not> ValidateToken required candidate
               then audited now (ev\<lparr> ae_EventType := ''auth_fail'', ae_Detail := detail,
                        ae_TokenHash := tokenPrefix candidate, ae_Status := 401 \<rparr>)
                      Unauthorized_request g
               else if required \<noteq> ''''
               then audited now (ev\<lparr> ae_EventType := ''auth_ok'', ae_Detail := detail,
                        ae_TokenHash := tokenPrefix candidate, ae_Status := 200 \<rparr>) Serve g
               else Some (Serve, g))"

section \<open>Token comparison\<close>

lemma char_code_less: "char_code c < 256"
  by (simp add: char_code_def)

lemma byte_eq: "(of_nat (char_code a) :: 8 word) = of_nat (char_code b) \<longleftrightarrow> a = b"
proof
  assume "(of_nat (char_code a) :: 8 word) = of_nat (char_code b)"
  then have "unat (of_nat (char_code a) :: 8 word) = unat (of_nat (char_code b) :: 8 word)" by simp
  then have "char_code a = char_code b"
    using char_code_less [of a] char_code_less [of b] by (simp add: unat_of_nat take_bit_nat_eq_self)
  then show "a = b" by (simp add: char_code_def)
qed simp

lemma xor_zero_iff: "a XOR b = 0 \<longleftrightarrow> a = (b :: 8 word)"
proof
  assume "a XOR b = 0"
  then have "(a XOR b) XOR b = b" by simp
  then show "a = b" by (simp add: xor.assoc)
qed simp

lemma compare_fold:
  "fold (\<lambda>(a, b) v. v OR ((of_nat (char_code a) :: 8 word) XOR of_nat (char_code b))) ps v = 0 \<longleftrightarrow>
     v = 0 \<and> (\<forall>(a, b) \<in> set ps. a = b)"
  by (induction ps arbitrary: v) (auto simp: or_eq_0_iff xor_zero_iff byte_eq)

lemma ConstantTimeCompare_iff: "ConstantTimeCompare x y = 1 \<longleftrightarrow> x = y"
proof -
  have "(\<forall>(a, b) \<in> set (zip x y). a = b) \<longleftrightarrow> x = y" if "length x = length y"
    using that by (auto simp: list_eq_iff_nth_eq set_zip)
  then show ?thesis by (auto simp: ConstantTimeCompare_def compare_fold)
qed

lemma ValidateToken_iff: "ValidateToken e c \<longleftrightarrow> e = '''' \<or> c = e"
  by (auto simp: ValidateToken_def ConstantTimeEq_def ConstantTimeCompare_iff)

section \<open>The audit log is a bounded log\<close>

definition al_inv :: "AuditLogger \<Rightarrow> bool" where
  "al_inv al \<longleftrightarrow> ring_ok (al_buf al) (al_head al) (al_size al) (al_cap al)"

definition al_content :: "AuditLogger \<Rightarrow> AuditEvent list" where
  "al_content al = ring_list (al_buf al) (al_head al) (al_size al) (al_cap al)"

lemma length_al_content: "al_inv al \<Longrightarrow> int (length (al_content al)) = al_size al"
  by (simp add: al_inv_def ring_ok_def al_content_def)

lemma NewAuditLogger_inv: "al_inv NewAuditLogger" "al_content NewAuditLogger = []"
  by (simp_all add: NewAuditLogger_def al_inv_def ring_ok_def al_content_def ring_list_def
      AuditBufSize_def)

lemma Log_content:
  assumes "al_inv al"
  shows "\<exists>al'. Log now e al = Some al' \<and> al_inv al' \<and> al_cap al' = al_cap al \<and>
     al_content al' = lastn (nat (al_cap al)) (al_content al @ [e\<lparr> ae_Time := now \<rparr>])"
  using assms ring_list_push [of "al_buf al" "al_head al" "al_size al" "al_cap al" "e\<lparr> ae_Time := now \<rparr>"]
    ring_ok_push [of "al_buf al" "al_head al" "al_size al" "al_cap al" "e\<lparr> ae_Time := now \<rparr>"]
  by (auto simp: Log_def Let_def al_inv_def ring_ok_def al_content_def remt_nonneg)

lemma Recent_content:
  assumes inv: "al_inv al"
  shows "Recent al n = (if n < 0 then None else Some (lastn (nat n) (al_content al)))"
proof (cases "n < 0")
  case True
  then show ?thesis using inv by (simp add: Recent_def al_inv_def ring_ok_def)
next
  case False
  let ?n = "if al_size al < n then al_size al else n"
  note ok = inv [unfolded al_inv_def]
  have n: "0 \<le> ?n" "?n \<le> al_size al" using False ok by (auto simp: ring_ok_def)
  have "remt (al_head al - ?n + int i + al_cap al) (al_cap al) = (al_head al - ?n + int i) mod al_cap al" for i
    using n ok by (intro ring_index [OF ok]) (auto simp: ring_ok_def)
  then have "Recent al n = Some (ring_list (al_buf al) (al_head al) ?n (al_cap al))"
    using n by (simp add: Recent_def Let_def ring_list_def)
  also have "\<dots> = Some (lastn (nat ?n) (al_content al))"
    unfolding al_content_def by (simp add: ring_list_recent [OF ok n])
  also have "\<dots> = Some (lastn (nat n) (al_content al))"
    using length_al_content [OF inv] by (auto simp: lastn_all)
  finally show ?thesis using False by simp
qed

interpretation audit: bounded_log "\<lambda>e. Log (ae_Time e) e" "\<lambda>al n. Recent al (int n)" al_content
  "\<lambda>al. nat (al_cap al)" al_inv
proof
  show "\<exists>al'. Log (ae_Time e) e al = Some al' \<and> al_inv al' \<and> nat (al_cap al') = nat (al_cap al) \<and>
      al_content al' = lastn (nat (al_cap al)) (al_content al @ [e])" if "al_inv al" for al e
    using Log_content [OF that, of "ae_Time e" e] by auto
  show "Recent al (int n) = Some (lastn n (al_content al))" if "al_inv al" "0 < n" for al n
    using that by (simp add: Recent_content)
  show "0 < nat (al_cap al) \<and> length (al_content al) \<le> nat (al_cap al)" if "al_inv al" for al
    using that length_al_content [OF that] by (auto simp: al_inv_def ring_ok_def)
qed

section \<open>The token bucket\<close>

definition rl_ok :: "gotime \<Rightarrow> RateLimiter \<Rightarrow> bool" where
  \<comment> \<open>every bucket holds between zero and \<open>capacity\<close> tokens and was last used before \<open>now\<close>\<close>
  "rl_ok now rl \<longleftrightarrow>
     (\<exists>C R. rl_capacity rl = Fin C \<and> rl_refillRate rl = Fin R \<and> 0 \<le> C \<and> 0 \<le> R \<and> fbound C \<and>
        (\<forall>(k, b) \<in> set (rl_buckets rl). fbtw 0 (bk_tokens b) C \<and> bk_lastSeen b \<le> now)) \<and>
     wf_gomap (rl_buckets rl)"

lemma f_nonneg_mult_fin: "0 \<le> a \<Longrightarrow> 0 \<le> b \<Longrightarrow> f_nonneg (Fin a * Fin b)"
  by (auto intro: fl_nonneg)

lemma refill_btw:
  assumes "rl_capacity rl = Fin C" "rl_refillRate rl = Fin R" "0 \<le> C" "0 \<le> R"
    "fbtw 0 (bk_tokens b) C" "bk_lastSeen b \<le> now"
  shows "fbtw 0 (bk_tokens (refill now rl b)) C" "bk_lastSeen (refill now rl b) = now"
proof -
  have "0 \<le> time_sub now (bk_lastSeen b)" "time_sub now (bk_lastSeen b) \<le> maxI64"
    using assms(6) by (auto simp: time_sub_def sat_i64_def maxI64_def minI64_def)
  then obtain r where r: "duration_Seconds (time_sub now (bk_lastSeen b)) = Fin r" "0 \<le> r"
    using duration_Seconds_nonneg by blast
  let ?t = "bk_tokens b + Fin r * Fin R"
  have "f_nonneg ?t"
    using assms(4,5) r(2) by (intro f_nonneg_add f_nonneg_mult_fin fbtw_nonneg) auto
  then show "fbtw 0 (bk_tokens (refill now rl b)) C"
    using assms(1-3) r(1) by (cases ?t) (auto simp: refill_def Let_def)
  show "bk_lastSeen (refill now rl b) = now" by (simp add: refill_def Let_def)
qed

lemma gcIfNeeded_frame [simp]:
  "rl_capacity (gcIfNeeded now rl) = rl_capacity rl" "rl_refillRate (gcIfNeeded now rl) = rl_refillRate rl"
  "rl_idleTimeout (gcIfNeeded now rl) = rl_idleTimeout rl"
  by (simp_all add: gcIfNeeded_def)

lemma gcIfNeeded_buckets:
  "wf_gomap (rl_buckets rl) \<Longrightarrow> map_of (rl_buckets (gcIfNeeded now rl)) k =
     (case map_of (rl_buckets rl) k of None \<Rightarrow> None
      | Some b \<Rightarrow> if time_sub now (rl_lastCleanup rl) \<ge> Minute \<and>
                     rl_idleTimeout rl < time_sub now (bk_lastSeen b) then None else Some b)"
  by (auto simp: gcIfNeeded_def map_of_filter split: option.split)

lemma rl_ok_gc: "rl_ok now rl \<Longrightarrow> rl_ok now (gcIfNeeded now rl)"
  unfolding rl_ok_def gcIfNeeded_frame by (auto simp: gcIfNeeded_def)

lemma rl_ok_put:
  assumes "rl_ok now rl" "rl_capacity rl = Fin C" "fbtw 0 (bk_tokens b) C" "bk_lastSeen b \<le> now"
  shows "rl_ok now (rl\<lparr> rl_buckets := AList.update key b (rl_buckets rl) \<rparr>)"
proof -
  have "\<forall>(k, b') \<in> set (AList.update key b (rl_buckets rl)). fbtw 0 (bk_tokens b') C \<and> bk_lastSeen b' \<le> now"
    using assms set_updateD [of _ _ key b "rl_buckets rl"] unfolding rl_ok_def by fastforce
  then show ?thesis using assms(1,2) by (auto simp: rl_ok_def)
qed

text \<open>The bucket a key has, or would be given.\<close>

definition rl_bucket :: "gotime \<Rightarrow> RateLimiter \<Rightarrow> string \<Rightarrow> bucket" where
  "rl_bucket now rl key = (case map_of (rl_buckets rl) key of Some b \<Rightarrow> b
     | None \<Rightarrow> \<lparr> bk_tokens = rl_capacity rl, bk_lastSeen = now \<rparr>)"

lemma Allow_eq:
  "Allow now key rl =
    (let b = refill now rl (rl_bucket now rl key); ok = \<not> bk_tokens b < 1;
         b = (if ok then b\<lparr> bk_tokens := bk_tokens b - 1 \<rparr> else b)
     in (ok, gcIfNeeded now (rl\<lparr> rl_buckets := AList.update key b (rl_buckets rl) \<rparr>)))"
  by (simp add: Allow_def rl_bucket_def Let_def)

lemma Allow_ok:
  assumes ok: "rl_ok now rl"
  shows "rl_ok now (snd (Allow now key rl))"
    and "fst (Allow now key rl) \<longleftrightarrow> 1 \<le> bk_tokens (refill now rl (rl_bucket now rl key))"
proof -
  obtain C R where C: "rl_capacity rl = Fin C" "rl_refillRate rl = Fin R" "0 \<le> C" "0 \<le> R" "fbound C"
    and b: "\<forall>(k, b) \<in> set (rl_buckets rl). fbtw 0 (bk_tokens b) C \<and> bk_lastSeen b \<le> now"
    using ok unfolding rl_ok_def by blast
  have "fbtw 0 (bk_tokens (rl_bucket now rl key)) C" "bk_lastSeen (rl_bucket now rl key) \<le> now"
    using b C by (auto simp: rl_bucket_def split: option.split dest!: map_of_SomeD)
  from refill_btw [OF C(1-4) this]
  obtain r where r: "bk_tokens (refill now rl (rl_bucket now rl key)) = Fin r" "0 \<le> r" "r \<le> C"
    and l: "bk_lastSeen (refill now rl (rl_bucket now rl key)) = now" by (auto elim!: fbtwE)
  then show "fst (Allow now key rl) \<longleftrightarrow> 1 \<le> bk_tokens (refill now rl (rl_bucket now rl key))"
    by (simp add: Allow_eq Let_def one_f64_def not_less)
  have "fbtw 0 (fl (r - 1)) C" if "1 \<le> r"
    using that r C by (intro fbtw_fl) auto
  then show "rl_ok now (snd (Allow now key rl))"
    using r l by (auto simp: Allow_eq Let_def one_f64_def intro!: rl_ok_gc rl_ok_put [OF ok C(1)])
qed

text \<open>A burst at one instant.\<close>

fun allow_n :: "gotime \<Rightarrow> string \<Rightarrow> nat \<Rightarrow> RateLimiter \<Rightarrow> bool list" where
  "allow_n now key 0 rl = []"
| "allow_n now key (Suc n) rl =
     (case Allow now key rl of (ok, rl') \<Rightarrow> ok # allow_n now key n rl')"

lemma burst_step:
  assumes "wf_gomap (rl_buckets rl)" "rl_refillRate rl = Fin R" "rl_capacity rl = Fin (real c)"
    "0 \<le> rl_idleTimeout rl" "m \<le> c" "c \<le> 2 ^ 53"
    "rl_bucket now rl key = \<lparr> bk_tokens = Fin (real m), bk_lastSeen = now \<rparr>"
  shows "fst (Allow now key rl) = (0 < m)"
    "rl_bucket now (snd (Allow now key rl)) key = \<lparr> bk_tokens = Fin (real (m - 1)), bk_lastSeen = now \<rparr>"
    "wf_gomap (rl_buckets (snd (Allow now key rl)))"
    "rl_refillRate (snd (Allow now key rl)) = Fin R" "rl_capacity (snd (Allow now key rl)) = Fin (real c)"
    "rl_idleTimeout (snd (Allow now key rl)) = rl_idleTimeout rl"
proof -
  have flm: "fl (real j) = Fin (real j)" if "j \<le> c" for j
    using that assms(6) fbound_of_int [of "int j"] by (auto simp: fbound_def intro: fl_frep)
  have "duration_Seconds 0 = Fin 0"
    by (simp add: duration_Seconds_def quot_def remt_def Second_def)
  then have rf: "refill now rl (rl_bucket now rl key) = \<lparr> bk_tokens = Fin (real m), bk_lastSeen = now \<rparr>"
    using assms(2,3,5,7) flm [of m] by (simp add: refill_def Let_def)
  show "fst (Allow now key rl) = (0 < m)"
    by (simp add: Allow_eq rf Let_def one_f64_def)
  have sub: "Fin (real m) - 1 = Fin (real (m - 1))" if "0 < m"
    using that flm [of "m - 1"] assms(5) by (simp add: one_f64_def of_nat_diff)
  show "rl_bucket now (snd (Allow now key rl)) key = \<lparr> bk_tokens = Fin (real (m - 1)), bk_lastSeen = now \<rparr>"
    using assms(1,4) sub
    unfolding Allow_eq rf Let_def snd_conv
    by (simp add: rl_bucket_def gcIfNeeded_buckets one_f64_def)
  show "wf_gomap (rl_buckets (snd (Allow now key rl)))"
    using assms(1) by (auto simp: Allow_eq Let_def gcIfNeeded_def)
qed (use assms in \<open>auto simp: Allow_eq Let_def\<close>)

lemma burst:
  assumes "wf_gomap (rl_buckets rl)" "rl_refillRate rl = Fin R" "rl_capacity rl = Fin (real c)"
    "0 \<le> rl_idleTimeout rl" "m \<le> c" "c \<le> 2 ^ 53"
    "rl_bucket now rl key = \<lparr> bk_tokens = Fin (real m), bk_lastSeen = now \<rparr>"
  shows "allow_n now key n rl = replicate (min n m) True @ replicate (n - m) False"
  using assms
proof (induction n arbitrary: rl m)
  case (Suc n)
  note st = burst_step [OF Suc.prems]
  have IH: "allow_n now key n (snd (Allow now key rl)) =
      replicate (min n (m - 1)) True @ replicate (n - (m - 1)) False"
    using Suc.prems st by (intro Suc.IH) auto
  have "allow_n now key (Suc n) rl = (0 < m) # allow_n now key n (snd (Allow now key rl))"
    using st(1) by (simp add: case_prod_unfold)
  then show ?case using IH by (cases m) auto
qed simp

section \<open>The middlewares\<close>

lemma guard_allow_audit [simp]: "gs_audit (snd (guard_allow now c ip g)) = gs_audit g"
  by (simp add: guard_allow_def split: option.split)

lemma audited_ok:
  assumes "al_inv (gs_audit g)"
  shows "\<exists>g'. audited now e v g = Some (v, g') \<and> al_inv (gs_audit g') \<and>
    al_content (gs_audit g') = lastn (nat (al_cap (gs_audit g))) (al_content (gs_audit g) @ [e\<lparr> ae_Time := now \<rparr>]) \<and>
    al_cap (gs_audit g') = al_cap (gs_audit g) \<and>
    gs_ingestRL g' = gs_ingestRL g \<and> gs_controlRL g' = gs_controlRL g"
  using Log_content [OF assms, of now e] by (auto simp: audited_def)

lemma al_cap_pos: "al_inv al \<Longrightarrow> 0 < nat (al_cap al)"
  by (simp add: al_inv_def ring_ok_def)

definition authorized :: "AuthConfig \<Rightarrow> Request \<Rightarrow> bool" where
  "authorized cfg r = (case route_class (rq_Path r) of None \<Rightarrow> True
     | Some c \<Rightarrow> required_token cfg c = '''' \<or> ExtractToken r = required_token cfg c)"

lemma AuthMiddleware_cases:
  assumes "al_inv (gs_audit g)"
  shows "\<exists>v g'. AuthMiddleware cfg now r g = Some (v, g') \<and> al_inv (gs_audit g') \<and>
    (v = Serve \<longrightarrow> authorized cfg r) \<and>
    (v \<noteq> Serve \<longrightarrow> (\<exists>c. route_class (rq_Path r) = Some c \<and>
       (v = Too_many_requests \<longleftrightarrow> \<not> fst (guard_allow now c (RealIP r) g)) \<and>
       al_content (gs_audit g') \<noteq> [] \<and> ae_Time (last (al_content (gs_audit g'))) = now \<and>
       ae_Path (last (al_content (gs_audit g'))) = rq_Path r \<and>
       ae_EventType (last (al_content (gs_audit g'))) =
         (if v = Too_many_requests then ''rate_limit'' else ''auth_fail'')))"
proof (cases "route_class (rq_Path r)")
  case None
  then show ?thesis using assms by (simp add: AuthMiddleware_def Let_def authorized_def)
next
  case (Some c)
  let ?g = "snd (guard_allow now c (RealIP r) g)" and ?ok = "fst (guard_allow now c (RealIP r) g)"
  let ?req = "required_token cfg c"
  let ?ev = "zero_event\<lparr> ae_IP := RealIP r, ae_Path := rq_Path r, ae_Method := rq_Method r \<rparr>"
  have inv: "al_inv (gs_audit ?g)" using assms by simp
  have ne: "lastn (nat (al_cap (gs_audit g))) (xs @ [e]) \<noteq> []"
    "last (lastn (nat (al_cap (gs_audit g))) (xs @ [e])) = e"
    for xs :: "AuditEvent list" and e
    using al_cap_pos [OF assms] by (simp_all add: last_lastn flip: length_greater_0_conv)
  have eq: "AuthMiddleware cfg now r g =
      (if \<not> ?ok then audited now (?ev\<lparr> ae_EventType := ''rate_limit'', ae_Detail := ''class='' @ class_name c \<rparr>)
                      Too_many_requests ?g
       else if ?req \<noteq> '''' \<and> \<not> ValidateToken ?req (ExtractToken r)
       then audited now (?ev\<lparr> ae_EventType := ''auth_fail'', ae_Detail := ''class='' @ class_name c,
                ae_TokenHash := tokenPrefix (ExtractToken r), ae_Status := 401 \<rparr>)
              Unauthorized_request ?g
       else if ?req \<noteq> ''''
       then audited now (?ev\<lparr> ae_EventType := ''auth_ok'', ae_Detail := ''class='' @ class_name c,
                ae_TokenHash := tokenPrefix (ExtractToken r), ae_Status := 200 \<rparr>) Serve ?g
       else Some (Serve, ?g))"
    by (simp add: AuthMiddleware_def Let_def Some case_prod_unfold)
  consider "\<not> ?ok" | "?ok" "?req \<noteq> ''''" "ExtractToken r \<noteq> ?req" | "?ok" "?req \<noteq> ''''" "ExtractToken r = ?req"
    | "?ok" "?req = ''''" by blast
  then show ?thesis
  proof cases
    case 1
    then show ?thesis
      using eq audited_ok [OF inv, of now "?ev\<lparr> ae_EventType := ''rate_limit'',
          ae_Detail := ''class='' @ class_name c \<rparr>" Too_many_requests] Some ne by auto
  next
    case 2
    then show ?thesis
      using eq audited_ok [OF inv, of now "?ev\<lparr> ae_EventType := ''auth_fail'',
          ae_Detail := ''class='' @ class_name c, ae_TokenHash := tokenPrefix (ExtractToken r),
          ae_Status := 401 \<rparr>" Unauthorized_request] Some ne
      by (auto simp: ValidateToken_iff)
  next
    case 3
    then show ?thesis
      using eq audited_ok [OF inv, of now "?ev\<lparr> ae_EventType := ''auth_ok'',
          ae_Detail := ''class='' @ class_name c, ae_TokenHash := tokenPrefix (ExtractToken r),
          ae_Status := 200 \<rparr>" Serve] Some
      by (auto simp: ValidateToken_iff authorized_def)
  next
    case 4
    then show ?thesis using eq Some inv by (auto simp: authorized_def)
  qed
qed

lemma map_of_set_headers:
  "map_of (set_headers kvs h) k = (case map_of (rev kvs) k of Some v \<Rightarrow> Some v | None \<Rightarrow> map_of h k)"
  unfolding set_headers_def
  by (induction kvs arbitrary: h) (auto simp: map_add_def split: option.split)

section \<open>Properties of the security layer\<close>

text \<open>
  The constant-time token check accepts exactly the expected token; an empty
  expected token disables it.
\<close>

theorem ValidateToken_exact: "ValidateToken expected candidate = (expected = '''' \<or> candidate = expected)"
  by (rule ValidateToken_iff)

text \<open>
  In a burst of any number of requests of one key at one instant, a fresh limiter of
  capacity \<open>c\<close> allows exactly the first \<open>c\<close>, computed in binary64 token counts.
\<close>

theorem RateLimiter_burst:
  assumes "c \<le> 2 ^ 53" "0 \<le> idle"
  shows "allow_n now key n (NewRateLimiter t (Fin (real c)) (Fin rate) idle) =
    replicate (min n c) True @ replicate (n - c) False"
  using assms by (intro burst) (auto simp: NewRateLimiter_def rl_bucket_def)

theorem RateLimiter_burst_witness:
  "allow_n 7 ''ip'' 3 (NewRateLimiter 0 (Fin (real 2)) (Fin 1) 0) = [True, True, False]"
proof -
  have "allow_n 7 ''ip'' 3 (NewRateLimiter 0 (Fin (real 2)) (Fin 1) 0) =
      replicate (min 3 2) True @ replicate (3 - 2) False"
    by (rule RateLimiter_burst) simp_all
  also have "\<dots> = [True, True, False]" by code_simp
  finally show ?thesis .
qed

text \<open>
  Along a clock that does not go back, every bucket stays between zero and the
  capacity, and a request is refused exactly when its refilled bucket holds less than
  one token.
\<close>

theorem Allow_bounds:
  assumes "rl_ok now rl"
  shows "rl_ok now (snd (Allow now key rl)) \<and>
    fst (Allow now key rl) = (1 \<le> bk_tokens (refill now rl (rl_bucket now rl key)))"
  using Allow_ok [OF assms] by blast

theorem Allow_bounds_witness:
  "rl_ok 7 (snd (Allow 7 ''ip'' (NewRateLimiter 0 (Fin 2) (Fin 1) 0)))"
  using Allow_bounds [of 7 "NewRateLimiter 0 (Fin 2) (Fin 1) 0" "''ip''"]
  by (simp add: rl_ok_def NewRateLimiter_def)

text \<open>
  The audit log returns exactly the most recent events in order after any sequence
  of events; asking for a negative number panics.
\<close>

theorem Recent_after_logs:
  assumes "0 < n"
  shows "\<exists>al. foldo (\<lambda>e. Log (ae_Time e) e) es NewAuditLogger = Some al \<and>
    Recent al (int n) = Some (lastn (min n 10000) es) \<and> Recent al (- 1) = None"
proof -
  from audit.push_all [OF NewAuditLogger_inv(1), of es] obtain al where
    al: "foldo (\<lambda>e. Log (ae_Time e) e) es NewAuditLogger = Some al" "al_inv al"
      "al_content al = lastn 10000 es"
    by (auto simp: NewAuditLogger_inv(2)) (simp add: NewAuditLogger_def AuditBufSize_def)
  then show ?thesis using assms by (simp add: Recent_content lastn_lastn)
qed

theorem Recent_after_logs_witness:
  "\<exists>al. foldo (\<lambda>e. Log (ae_Time e) e) [zero_event, zero_event\<lparr> ae_Time := 1 \<rparr>] NewAuditLogger = Some al \<and>
    Recent al 1 = Some [zero_event\<lparr> ae_Time := 1 \<rparr>]"
  using Recent_after_logs [of 1 "[zero_event, zero_event\<lparr> ae_Time := 1 \<rparr>]"] by (auto simp: lastn_def)

text \<open>
  C20: the authentication middleware never panics, calls the handler of a protected
  route only for the required token (or when none is configured), and leaves an audit
  event for every request it refuses.
\<close>

theorem AuthMiddleware_safe:
  assumes "al_inv (gs_audit g)"
  shows "\<exists>v g'. AuthMiddleware cfg now r g = Some (v, g') \<and> al_inv (gs_audit g') \<and>
    (v = Serve \<longrightarrow> authorized cfg r) \<and>
    (v \<noteq> Serve \<longrightarrow> (\<exists>c. route_class (rq_Path r) = Some c \<and>
       (v = Too_many_requests \<longleftrightarrow> \<not> fst (guard_allow now c (RealIP r) g)) \<and>
       al_content (gs_audit g') \<noteq> [] \<and> ae_Time (last (al_content (gs_audit g'))) = now \<and>
       ae_Path (last (al_content (gs_audit g'))) = rq_Path r \<and>
       ae_EventType (last (al_content (gs_audit g'))) =
         (if v = Too_many_requests then ''rate_limit'' else ''auth_fail'')))"
  by (rule AuthMiddleware_cases [OF assms])

definition sample_guard :: guard_state where
  "sample_guard = \<lparr> gs_audit = NewAuditLogger, gs_ingestRL = None, gs_controlRL = None \<rparr>"

definition sample_request :: "string \<Rightarrow> Request" where
  "sample_request path = \<lparr> rq_Method = ''POST'', rq_Path = path, rq_RemoteAddr = ''10.0.0.1:99'',
     rq_headers = (\<lambda>_. ''''), rq_token = ''guess'' \<rparr>"

definition sample_auth :: AuthConfig where
  "sample_auth = \<lparr> ac_IngestToken = ''ingest-token'', ac_ControlToken = ''control-token'',
     ac_DashboardToken = '''', ac_AllowedOrigins = [''https://ops.example''], ac_TLSEnabled = True \<rparr>"

theorem AuthMiddleware_safe_witness:
  "\<exists>v g'. AuthMiddleware sample_auth 5 (sample_request ''/api/v1/runtime/step'') sample_guard =
     Some (v, g') \<and> v \<noteq> Serve"
proof -
  have "al_inv (gs_audit sample_guard)" by (simp add: sample_guard_def NewAuditLogger_inv)
  from AuthMiddleware_safe [OF this, of sample_auth 5 "sample_request ''/api/v1/runtime/step''"]
  obtain v g' where v: "AuthMiddleware sample_auth 5 (sample_request ''/api/v1/runtime/step'') sample_guard =
     Some (v, g')" "v = Serve \<longrightarrow> authorized sample_auth (sample_request ''/api/v1/runtime/step'')"
    by blast
  moreover have "\<not> authorized sample_auth (sample_request ''/api/v1/runtime/step'')"
    by code_simp
  ultimately show ?thesis by blast
qed

text \<open>
  The audit endpoint is in no route class: whatever tokens are configured, every
  request to it reaches the handler without a token, a rate limit or an audit event.
\<close>

theorem audit_route_open:
  "AuthMiddleware cfg now (r\<lparr> rq_Path := ''/api/v1/audit'' \<rparr>) g = Some (Serve, g)"
  by (simp add: AuthMiddleware_def Let_def route_class_def has_prefix_def)

text \<open>
  The CORS middleware sets the allow-origin header exactly for a listed origin, or
  for any origin at all when none is listed, always to the request's own origin; and
  whether the next handler runs depends on the method alone, never on the origin.
\<close>

theorem CORS_exact:
  "map_of (fst (CORSMiddleware allowed r [])) ''Access-Control-Allow-Origin'' =
     (if rq_headers r ''Origin'' \<noteq> '''' \<and> (allowed = [] \<or>
        trim_right (rq_headers r ''Origin'') CHR ''/'' \<in> (\<lambda>o'. trim_right o' CHR ''/'') ` set allowed)
      then Some (rq_headers r ''Origin'') else None) \<and>
   snd (CORSMiddleware allowed r []) = (rq_Method r \<noteq> ''OPTIONS'')"
  by (auto simp: CORSMiddleware_def Let_def map_of_set_headers)

end
