(* ===== verification/OptTypes.thy ===== *)
theory OptTypes
  imports GoTime GoString
begin

text \<open>
  \<open>internal/optimisation/types.go\<close>: the directives and candidates that the optimiser,
  the control authority, the actuator and the streaming hub exchange.
\<close>

record ControlDirective =
  cd_ServiceID :: string
  cd_ComputedAt :: gotime
  cd_ScaleFactor :: f64
  cd_TargetUtilisation :: f64
  cd_Error :: f64
  cd_PIDOutput :: f64
  cd_Active :: bool
  cd_StabilityMargin :: f64
  cd_HysteresisState :: string
  cd_ActuationBound :: f64
  cd_PredictiveTarget :: f64
  cd_MPCPredictedRho :: f64
  cd_MPCOvershootRisk :: bool
  cd_MPCUnderactuationRisk :: bool
  cd_CostGradient :: f64
  cd_TrajectoryCostAvg :: f64
  cd_MaxTrajectoryCost :: f64
  cd_PlannerScaleFactor :: f64
  cd_PlannerConvergent :: bool
  cd_PlannerConvex :: bool
  cd_PlannerProbabilisticScore :: f64

record ControlCandidate =
  cc_ServiceID :: string
  cc_ScaleFactor :: f64
  cc_Score :: f64
  cc_Feasible :: bool
  cc_Convergent :: bool
  cc_PredictedRho :: f64
  cc_RiskScore :: f64
  cc_Uncertainty :: f64
  cc_Source :: string
  cc_ComputedAt :: gotime

record ObjectiveScore =
  os_ComputedAt :: gotime
  os_PredictedP99LatencyMs :: f64
  os_CascadeFailureProbability :: f64
  os_WeightedStabilityMargin :: f64
  os_MaxCollapseRisk :: f64
  os_OscillationRisk :: f64
  os_CompositeScore :: f64
  os_LatencyWeight :: f64
  os_UtilisationWeight :: f64
  os_RiskWeight :: f64
  os_PredictiveHorizon :: int
  os_ReferenceLatencyMs :: f64
  os_TrendStabilityMargin :: f64
  os_RiskAcceleration :: f64
  os_TrajectoryScore :: f64

definition zero_directive :: ControlDirective where
  "zero_directive = \<lparr> cd_ServiceID = '''', cd_ComputedAt = 0, cd_ScaleFactor = 0,
     cd_TargetUtilisation = 0, cd_Error = 0, cd_PIDOutput = 0, cd_Active = False,
     cd_StabilityMargin = 0, cd_HysteresisState = '''', cd_ActuationBound = 0,
     cd_PredictiveTarget = 0, cd_MPCPredictedRho = 0, cd_MPCOvershootRisk = False,
     cd_MPCUnderactuationRisk = False, cd_CostGradient = 0, cd_TrajectoryCostAvg = 0,
     cd_MaxTrajectoryCost = 0, cd_PlannerScaleFactor = 0, cd_PlannerConvergent = False,
     cd_PlannerConvex = False, cd_PlannerProbabilisticScore = 0 \<rparr>"

end
