(* ===== verification/Actuator.thy ===== *)
theory Actuator
  imports OptTypes
begin

text \<open>
  \<open>internal/actuator/coalescer.go\<close> and \<open>actuator.go\<close>: the coalescing dispatcher.
  Callers of \<open>Dispatch\<close>, one caller of \<open>Close\<close> and the worker goroutine share a map of
  pending directives under a mutex, an atomic closed flag and the channel \<open>notify\<close> of
  capacity one (a token and a closed bit).  The step relation has one step per access
  to that shared state; sending on a closed channel is a panic.  The backend is code of
  the user: any call may return any error.
\<close>

record DirectiveSnapshot =
  ds_TickIndex :: u64
  ds_ServiceID :: string
  ds_DirectiveID :: string
  ds_TargetUtilisation :: f64
  ds_ScaleFactor :: f64
  ds_UrgencyScore :: f64
  ds_CreatedAt :: gotime

record ActuationResult =
  ar_TickIndex :: u64
  ar_ServiceID :: string
  ar_DirectiveID :: string
  ar_Success :: bool
  ar_Latency :: duration
  ar_Error :: "string option"

type_synonym pending = "(string, DirectiveSnapshot) gomap"

section \<open>The operations under the mutex\<close>

definition snapshot_of :: "u64 \<Rightarrow> gotime \<Rightarrow> string \<Rightarrow> ControlDirective \<Rightarrow> DirectiveSnapshot" where
  "snapshot_of tick now sid d =
     \<lparr> ds_TickIndex = tick, ds_ServiceID = sid,
       ds_DirectiveID = ''tick-'' @ dec_nat (unat tick) @ ''-svc-'' @ sid,
       ds_TargetUtilisation = cd_TargetUtilisation d, ds_ScaleFactor = cd_ScaleFactor d,
       ds_UrgencyScore = cd_CostGradient d, ds_CreatedAt = now \<rparr>"

definition merge_pending ::
  "u64 \<Rightarrow> gotime \<Rightarrow> (string, ControlDirective) gomap \<Rightarrow> pending \<Rightarrow> pending" where
  \<comment> \<open>the loop of \<open>Dispatch\<close>\<close>
  "merge_pending tick now dirs p =
     fold (\<lambda>(sid, d) p. if cd_Active d then AList.update sid (snapshot_of tick now sid d) p else p)
       dirs p"

definition result_of :: "DirectiveSnapshot \<Rightarrow> string option \<Rightarrow> duration \<Rightarrow> ActuationResult" where
  "result_of snap err latency =
     \<lparr> ar_TickIndex = ds_TickIndex snap, ar_ServiceID = ds_ServiceID snap,
       ar_DirectiveID = ds_DirectiveID snap, ar_Success = (err = None), ar_Latency = latency,
       ar_Error = err \<rparr>"

section \<open>The goroutines\<close>

datatype dpc =
    D_idle
  | D_checked u64 "(string, ControlDirective) gomap"  \<comment> \<open>the fast path read \<open>closed = 0\<close>\<close>
  | D_locked u64 "(string, ControlDirective) gomap"   \<comment> \<open>holds the mutex\<close>
  | D_send                                            \<comment> \<open>map updated, before the \<open>select\<close>\<close>
  | D_unlock

datatype cpc = C_idle | C_flagged | C_locked | C_unlocked | C_closed

datatype wpc =
    W_wait                \<comment> \<open>at \<open>range a.notify\<close>\<close>
  | W_drain               \<comment> \<open>in the inner \<open>select\<close> loop, after the sleep\<close>
  | W_process             \<comment> \<open>before \<open>processPending\<close> of the loop\<close>
  | W_final               \<comment> \<open>before the last \<open>processPending\<close>\<close>
  | W_exec bool pending   \<comment> \<open>executing; the flag: in the last \<open>processPending\<close>\<close>
  | W_done

datatype holder = H_dispatch nat | H_close

record CoalescingActuator =
  ca_pending :: pending
  ca_token :: bool
  ca_nclosed :: bool
  ca_closed :: bool
  ca_mu :: "holder option"
  ca_feedback :: "ActuationResult list"
  ca_failureCount :: u64
  ca_panic :: bool
  ca_dpcs :: "dpc list"
  ca_cpc :: cpc
  ca_wpc :: wpc
  ca_accepted :: "string \<rightharpoonup> DirectiveSnapshot"
  ca_executed :: "string \<rightharpoonup> DirectiveSnapshot"

text \<open>
  The last two fields are history: the latest directive accepted for each service and
  the latest one handed to the backend.
\<close>

definition NewCoalescingActuator :: "nat \<Rightarrow> CoalescingActuator" where
  \<comment> \<open>with \<open>n\<close> goroutines that may call \<open>Dispatch\<close>\<close>
  "NewCoalescingActuator n =
     \<lparr> ca_pending = [], ca_token = False, ca_nclosed = False, ca_closed = False, ca_mu = None,
       ca_feedback = [], ca_failureCount = 0, ca_panic = False, ca_dpcs = replicate n D_idle,
       ca_cpc = C_idle, ca_wpc = W_wait, ca_accepted = Map.empty, ca_executed = Map.empty \<rparr>"

definition put_pending :: "u64 \<Rightarrow> gotime \<Rightarrow> (string, ControlDirective) gomap \<Rightarrow> CoalescingActuator \<Rightarrow> CoalescingActuator" where
  "put_pending tick now dirs a =
     a\<lparr> ca_pending := merge_pending tick now dirs (ca_pending a),
        ca_accepted := (\<lambda>sid. case map_of (merge_pending tick now dirs []) sid of
            Some s \<Rightarrow> Some s | None \<Rightarrow> ca_accepted a sid) \<rparr>"

definition send_notify :: "CoalescingActuator \<Rightarrow> CoalescingActuator" where
  \<comment> \<open>\<open>select { case a.notify <- struct{}{}: default: }\<close>\<close>
  "send_notify a = (if ca_nclosed a then a\<lparr> ca_panic := True \<rparr> else a\<lparr> ca_token := True \<rparr>)"

definition exec_one ::
  "nat \<Rightarrow> string option \<Rightarrow> duration \<Rightarrow> string \<Rightarrow> DirectiveSnapshot \<Rightarrow> CoalescingActuator \<Rightarrow> CoalescingActuator" where
  \<comment> \<open>one round of the loop of \<open>processPending\<close>: the backend returned \<open>err\<close>\<close>
  "exec_one fbcap err latency sid snap a =
     a\<lparr> ca_executed := (ca_executed a)(sid \<mapsto> snap),
        ca_failureCount := (if err = None then ca_failureCount a else ca_failureCount a + 1),
        ca_feedback := (if length (ca_feedback a) < fbcap
                        then ca_feedback a @ [result_of snap err latency] else ca_feedback a) \<rparr>"

definition set_d :: "nat \<Rightarrow> dpc \<Rightarrow> CoalescingActuator \<Rightarrow> CoalescingActuator" where
  "set_d i p a = a\<lparr> ca_dpcs := (ca_dpcs a)[i := p] \<rparr>"

inductive act_step :: "nat \<Rightarrow> CoalescingActuator \<Rightarrow> CoalescingActuator \<Rightarrow> bool" for fbcap where
  d_check: "i < length (ca_dpcs a) \<Longrightarrow> ca_dpcs a ! i = D_idle \<Longrightarrow> \<not> ca_closed a \<Longrightarrow> wf_gomap dirs \<Longrightarrow>
    act_step fbcap a (set_d i (D_checked tick dirs) a)"
| d_lock: "i < length (ca_dpcs a) \<Longrightarrow> ca_dpcs a ! i = D_checked tick dirs \<Longrightarrow> ca_mu a = None \<Longrightarrow>
    act_step fbcap a (set_d i (D_locked tick dirs) (a\<lparr> ca_mu := Some (H_dispatch i) \<rparr>))"
| d_refuse: "i < length (ca_dpcs a) \<Longrightarrow> ca_dpcs a ! i = D_locked tick dirs \<Longrightarrow> ca_closed a \<Longrightarrow>
    act_step fbcap a (set_d i D_idle (a\<lparr> ca_mu := None \<rparr>))"
| d_put: "i < length (ca_dpcs a) \<Longrightarrow> ca_dpcs a ! i = D_locked tick dirs \<Longrightarrow> \<not> ca_closed a \<Longrightarrow>
    act_step fbcap a (set_d i D_send (put_pending tick now dirs a))"
| d_send: "i < length (ca_dpcs a) \<Longrightarrow> ca_dpcs a ! i = D_send \<Longrightarrow>
    act_step fbcap a (set_d i D_unlock (send_notify a))"
| d_unlock: "i < length (ca_dpcs a) \<Longrightarrow> ca_dpcs a ! i = D_unlock \<Longrightarrow>
    act_step fbcap a (set_d i D_idle (a\<lparr> ca_mu := None \<rparr>))"
| c_flag: "ca_cpc a = C_idle \<Longrightarrow> act_step fbcap a (a\<lparr> ca_closed := True, ca_cpc := C_flagged \<rparr>)"
| c_lock: "ca_cpc a = C_flagged \<Longrightarrow> ca_mu a = None \<Longrightarrow>
    act_step fbcap a (a\<lparr> ca_mu := Some H_close, ca_cpc := C_locked \<rparr>)"
| c_unlock: "ca_cpc a = C_locked \<Longrightarrow> act_step fbcap a (a\<lparr> ca_mu := None, ca_cpc := C_unlocked \<rparr>)"
| c_close: "ca_cpc a = C_unlocked \<Longrightarrow> act_step fbcap a (a\<lparr> ca_nclosed := True, ca_cpc := C_closed \<rparr>)"
| w_wake: "ca_wpc a = W_wait \<Longrightarrow> ca_token a \<Longrightarrow>
    act_step fbcap a (a\<lparr> ca_token := False, ca_wpc := W_drain \<rparr>)"
| w_end: "ca_wpc a = W_wait \<Longrightarrow> \<not> ca_token a \<Longrightarrow> ca_nclosed a \<Longrightarrow>
    act_step fbcap a (a\<lparr> ca_wpc := W_final \<rparr>)"
| w_drain: "ca_wpc a = W_drain \<Longrightarrow> ca_token a \<Longrightarrow> act_step fbcap a (a\<lparr> ca_token := False \<rparr>)"
| w_drain_closed: "ca_wpc a = W_drain \<Longrightarrow> \<not> ca_token a \<Longrightarrow> ca_nclosed a \<Longrightarrow>
    act_step fbcap a (a\<lparr> ca_wpc := W_final \<rparr>)"
| w_drained: "ca_wpc a = W_drain \<Longrightarrow> \<not> ca_token a \<Longrightarrow> \<not> ca_nclosed a \<Longrightarrow>
    act_step fbcap a (a\<lparr> ca_wpc := W_process \<rparr>)"
| w_take: "ca_wpc a = W_process \<Longrightarrow> ca_mu a = None \<Longrightarrow>
    act_step fbcap a (a\<lparr> ca_pending := [], ca_wpc := W_exec False (ca_pending a) \<rparr>)"
| w_take_final: "ca_wpc a = W_final \<Longrightarrow> ca_mu a = None \<Longrightarrow>
    act_step fbcap a (a\<lparr> ca_pending := [], ca_wpc := W_exec True (ca_pending a) \<rparr>)"
| w_exec: "ca_wpc a = W_exec fin work \<Longrightarrow> map_of work sid = Some snap \<Longrightarrow>
    act_step fbcap a (exec_one fbcap err latency sid snap (a\<lparr> ca_wpc := W_exec fin (AList.delete sid work) \<rparr>))"
| w_next: "ca_wpc a = W_exec False [] \<Longrightarrow> act_step fbcap a (a\<lparr> ca_wpc := W_wait \<rparr>)"
| w_done: "ca_wpc a = W_exec True [] \<Longrightarrow> act_step fbcap a (a\<lparr> ca_wpc := W_done \<rparr>)"

inductive act_reach :: "nat \<Rightarrow> nat \<Rightarrow> CoalescingActuator \<Rightarrow> bool" for fbcap n where
  start: "act_reach fbcap n (NewCoalescingActuator n)"
| step: "act_reach fbcap n a \<Longrightarrow> act_step fbcap a b \<Longrightarrow> act_reach fbcap n b"

section \<open>Mutual exclusion and the closed channel\<close>

fun d_holds :: "dpc \<Rightarrow> bool" where
  "d_holds D_idle = False"
| "d_holds (D_checked tick dirs) = False"
| "d_holds _ = True"

fun c_past_lock :: "cpc \<Rightarrow> bool" where
  "c_past_lock C_idle = False"
| "c_past_lock C_flagged = False"
| "c_past_lock _ = True"

definition sending :: "CoalescingActuator \<Rightarrow> bool" where
  "sending a \<longleftrightarrow> D_send \<in> set (ca_dpcs a)"

definition mutex_inv :: "CoalescingActuator \<Rightarrow> bool" where
  "mutex_inv a \<longleftrightarrow>
     (\<forall>i < length (ca_dpcs a). d_holds (ca_dpcs a ! i) \<longrightarrow> ca_mu a = Some (H_dispatch i)) \<and>
     (ca_cpc a = C_locked \<longrightarrow> ca_mu a = Some H_close) \<and>
     (ca_cpc a \<noteq> C_idle \<longrightarrow> ca_closed a) \<and>
     (c_past_lock (ca_cpc a) \<longrightarrow> \<not> sending a) \<and>
     (ca_nclosed a \<longrightarrow> ca_cpc a = C_closed) \<and> \<not> ca_panic a"

lemma set_d_simps [simp]:
  "ca_pending (set_d i p a) = ca_pending a" "ca_token (set_d i p a) = ca_token a"
  "ca_nclosed (set_d i p a) = ca_nclosed a" "ca_closed (set_d i p a) = ca_closed a"
  "ca_mu (set_d i p a) = ca_mu a" "ca_panic (set_d i p a) = ca_panic a"
  "ca_dpcs (set_d i p a) = (ca_dpcs a)[i := p]" "ca_cpc (set_d i p a) = ca_cpc a"
  "ca_wpc (set_d i p a) = ca_wpc a" "ca_accepted (set_d i p a) = ca_accepted a"
  "ca_executed (set_d i p a) = ca_executed a"
  by (simp_all add: set_d_def)

lemma sending_set_d:
  "i < length (ca_dpcs a) \<Longrightarrow> sending (set_d i p a) \<Longrightarrow> p = D_send \<or> sending a"
  by (auto simp: sending_def dest: set_update_subset_insert [THEN subsetD])

lemma sendingI: "i < length (ca_dpcs a) \<Longrightarrow> ca_dpcs a ! i = D_send \<Longrightarrow> sending a"
  unfolding sending_def by (metis nth_mem)

lemma sending_cong: "ca_dpcs a = ca_dpcs b \<Longrightarrow> sending a = sending b"
  by (simp add: sending_def)

lemma no_holder_no_send:
  "mutex_inv a \<Longrightarrow> ca_mu a = None \<Longrightarrow> \<not> sending a"
  unfolding mutex_inv_def sending_def
  by (metis d_holds.simps(4) in_set_conv_nth option.distinct(1))

text \<open>A step of one dispatcher, given what it does to the shared fields.\<close>

lemma mutex_dispatch:
  assumes inv: "mutex_inv a" and i: "i < length (ca_dpcs a)"
    and b: "ca_dpcs b = (ca_dpcs a)[i := p]" "ca_cpc b = ca_cpc a" "ca_closed b = ca_closed a"
      "ca_nclosed b = ca_nclosed a" "\<not> ca_panic b"
    and mu: "\<And>j. j \<noteq> i \<Longrightarrow> ca_mu a = Some (H_dispatch j) \<Longrightarrow> ca_mu b = Some (H_dispatch j)"
      "ca_mu a = Some H_close \<Longrightarrow> ca_mu b = Some H_close" "d_holds p \<Longrightarrow> ca_mu b = Some (H_dispatch i)"
    and p: "p = D_send \<Longrightarrow> \<not> ca_closed a"
  shows "mutex_inv b"
proof -
  have "\<not> sending b" if c: "c_past_lock (ca_cpc a)"
  proof -
    have "ca_cpc a \<noteq> C_idle" using c by (cases "ca_cpc a") auto
    then have "ca_closed a" "\<not> sending a" using inv c by (auto simp: mutex_inv_def)
    then show ?thesis using p b(1) set_update_subset_insert [of "ca_dpcs a" i p]
      by (auto simp: sending_def)
  qed
  moreover have "ca_mu b = Some (H_dispatch j)" if "j < length (ca_dpcs b)" "d_holds (ca_dpcs b ! j)" for j
    using that inv mu(1,3) b(1) i by (cases "j = i") (auto simp: mutex_inv_def)
  ultimately show ?thesis using inv b(2-5) mu(2) unfolding mutex_inv_def by simp
qed

text \<open>A step of the worker leaves all of these fields alone.\<close>

lemma mutex_cong:
  "mutex_inv a \<Longrightarrow> ca_dpcs b = ca_dpcs a \<Longrightarrow> ca_cpc b = ca_cpc a \<Longrightarrow> ca_closed b = ca_closed a \<Longrightarrow>
     ca_nclosed b = ca_nclosed a \<Longrightarrow> ca_panic b = ca_panic a \<Longrightarrow> ca_mu b = ca_mu a \<Longrightarrow> mutex_inv b"
  by (simp add: mutex_inv_def sending_def)

lemma mutex_holder: "mutex_inv a \<Longrightarrow> i < length (ca_dpcs a) \<Longrightarrow> d_holds (ca_dpcs a ! i) \<Longrightarrow>
    ca_mu a = Some (H_dispatch i)"
  by (simp add: mutex_inv_def)

lemma mutex_step:
  assumes "act_step fbcap a b" "mutex_inv a" shows "mutex_inv b"
proof -
  have np: "\<not> ca_panic a" using assms(2) by (simp add: mutex_inv_def)
  note D = mutex_dispatch [OF assms(2)]
  show ?thesis
    using assms(1)
  proof cases
    case (d_check i dirs tick)
    then show ?thesis by (intro D [of i b "D_checked tick dirs"]) (simp_all add: np)
  next
    case (d_lock i tick dirs)
    then show ?thesis by (intro D [of i b "D_locked tick dirs"]) (simp_all add: np)
  next
    case (d_refuse i tick dirs)
    then have "ca_mu a = Some (H_dispatch i)" using mutex_holder [OF assms(2), of i] by simp
    then show ?thesis using d_refuse by (intro D [of i b D_idle]) (simp_all add: np)
  next
    case (d_put i tick dirs now)
    then have "ca_mu a = Some (H_dispatch i)" using mutex_holder [OF assms(2), of i] by simp
    then show ?thesis using d_put by (intro D [of i b D_send]) (simp_all add: np put_pending_def)
  next
    case (d_send i)
    have "\<not> ca_nclosed a"
      using assms(2) sendingI [OF d_send(2,3)] by (auto simp: mutex_inv_def)
    moreover have "ca_mu a = Some (H_dispatch i)" using mutex_holder [OF assms(2), of i] d_send by simp
    ultimately show ?thesis using d_send by (intro D [of i b D_unlock]) (simp_all add: np send_notify_def)
  next
    case (d_unlock i)
    then have "ca_mu a = Some (H_dispatch i)" using mutex_holder [OF assms(2), of i] by simp
    then show ?thesis using d_unlock by (intro D [of i b D_idle]) (simp_all add: np)
  next
    case c_flag
    then show ?thesis using assms(2) by (simp add: mutex_inv_def sending_def)
  next
    case c_lock
    have "\<not> sending b"
      using no_holder_no_send [OF assms(2) c_lock(3)] c_lock(1) by (simp add: sending_def)
    then show ?thesis using assms(2) c_lock by (simp add: mutex_inv_def)
  next
    case c_unlock
    then show ?thesis using assms(2) by (auto simp: mutex_inv_def sending_def)
  next
    case c_close
    then show ?thesis using assms(2) by (simp add: mutex_inv_def sending_def)
  qed (use mutex_cong [OF assms(2), of b] in \<open>simp_all add: exec_one_def\<close>)
qed

section \<open>No wake-up is lost, and the latest directive wins\<close>

fun w_work :: "wpc \<Rightarrow> pending" where
  "w_work (W_exec fin work) = work"
| "w_work _ = []"

fun w_ending :: "wpc \<Rightarrow> bool" where
  "w_ending W_final = True"
| "w_ending (W_exec fin work) = fin"
| "w_ending W_done = True"
| "w_ending _ = False"

fun w_emptied :: "wpc \<Rightarrow> bool" where
  "w_emptied (W_exec fin work) = fin"
| "w_emptied W_done = True"
| "w_emptied _ = False"

fun w_will_wait :: "wpc \<Rightarrow> bool" where
  "w_will_wait W_wait = True"
| "w_will_wait (W_exec fin work) = (\<not> fin)"
| "w_will_wait _ = False"

definition work_inv :: "CoalescingActuator \<Rightarrow> bool" where
  "work_inv a \<longleftrightarrow>
     (w_ending (ca_wpc a) \<longrightarrow> ca_nclosed a) \<and>
     (w_emptied (ca_wpc a) \<longrightarrow> ca_pending a = []) \<and>
     (w_will_wait (ca_wpc a) \<longrightarrow> ca_pending a \<noteq> [] \<longrightarrow> ca_token a \<or> ca_nclosed a \<or> sending a)"

definition latest_inv :: "CoalescingActuator \<Rightarrow> bool" where
  "latest_inv a \<longleftrightarrow>
     ca_accepted a = ca_executed a ++ map_of (w_work (ca_wpc a)) ++ map_of (ca_pending a)"

lemma merge_pending_map:
  "map_of (merge_pending tick now dirs p) = map_of p ++ map_of (merge_pending tick now dirs [])"
proof (induction dirs arbitrary: p)
  case (Cons e dirs)
  let ?upd = "\<lambda>p. if cd_Active (snd e) then AList.update (fst e) (snapshot_of tick now (fst e) (snd e)) p else p"
  have split: "merge_pending tick now (e # dirs) p = merge_pending tick now dirs (?upd p)" for p
    by (simp add: merge_pending_def case_prod_unfold)
  have upd: "map_of (?upd p) = map_of p ++ map_of (?upd [])" for p by simp
  show ?case
    unfolding split Cons.IH [of "?upd p"] Cons.IH [of "?upd []"] upd [of p] by (rule map_add_assoc [symmetric])
qed (simp add: merge_pending_def)

lemma w_emptied_ending: "w_emptied w \<Longrightarrow> w_ending w"
  by (cases w) auto

lemma put_accepted:
  "ca_accepted (put_pending tick now dirs a) = ca_accepted a ++ map_of (merge_pending tick now dirs [])"
  by (simp add: put_pending_def map_add_def)

lemma latest_step:
  assumes "act_step fbcap a b" "latest_inv a" shows "latest_inv b"
  using assms(1)
proof cases
  case (d_put i tick dirs now)
  have "ca_pending b = merge_pending tick now dirs (ca_pending a)" "ca_wpc b = ca_wpc a"
    "ca_executed b = ca_executed a" "ca_accepted b = ca_accepted (put_pending tick now dirs a)"
    by (simp_all add: d_put(1) put_pending_def)
  then show ?thesis
    using assms(2) merge_pending_map [of tick now dirs "ca_pending a"]
    by (simp add: latest_inv_def put_accepted)
next
  case (w_exec fin work sid snap err latency)
  then show ?thesis using assms(2)
    by (auto simp: latest_inv_def exec_one_def fun_eq_iff map_add_def split: option.splits)
qed (use assms(2) in \<open>auto simp: latest_inv_def send_notify_def\<close>)

lemma send_other:
  assumes "D_send \<in> set ds" "ds ! i \<noteq> D_send" shows "D_send \<in> set (ds[i := p])"
proof -
  obtain j where "j < length ds" "ds ! j = D_send" using assms(1) by (auto simp: in_set_conv_nth)
  moreover from this have "j \<noteq> i" using assms(2) by auto
  ultimately show ?thesis by (auto simp: in_set_conv_nth intro!: exI [of _ j])
qed

lemma work_step:
  assumes "act_step fbcap a b" "work_inv a" "mutex_inv a" shows "work_inv b"
  using assms(1)
proof cases
  case (d_put i tick dirs now)
  have "sending b" using d_put by (simp add: sending_def set_update_memI put_pending_def)
  moreover have "\<not> ca_nclosed a" using d_put(4) assms(3) by (auto simp: mutex_inv_def)
  moreover from this have "\<not> w_emptied (ca_wpc a)" "\<not> w_ending (ca_wpc a)"
    using assms(2) w_emptied_ending by (auto simp: work_inv_def)
  ultimately show ?thesis using d_put by (simp add: work_inv_def put_pending_def)
next
  case (d_send i)
  then show ?thesis using assms(2) by (auto simp: work_inv_def send_notify_def)
next
  case w_take
  then show ?thesis using assms(2) by (simp add: work_inv_def)
qed (use assms(2) in \<open>auto simp: work_inv_def exec_one_def sending_def send_other\<close>)

lemma act_reach_inv: "act_reach fbcap n a \<Longrightarrow> mutex_inv a \<and> work_inv a \<and> latest_inv a"
proof (induction rule: act_reach.induct)
  case start
  show ?case
    by (auto simp: NewCoalescingActuator_def mutex_inv_def work_inv_def latest_inv_def sending_def)
next
  case (step a b)
  then show ?case using mutex_step work_step latest_step by blast
qed

section \<open>Properties of the dispatcher\<close>

text \<open>
  C4: in no interleaving of dispatching goroutines, a closing one and the worker is a
  value sent on the closed channel, and at every moment the latest accepted directive
  of each service is pending, being executed, or the last one the backend received.
\<close>

theorem dispatcher_safe:
  assumes "act_reach fbcap n a"
  shows "\<not> ca_panic a \<and>
    ca_accepted a = ca_executed a ++ map_of (w_work (ca_wpc a)) ++ map_of (ca_pending a)"
  using act_reach_inv [OF assms] by (simp add: mutex_inv_def latest_inv_def)

theorem dispatcher_safe_witness: "\<not> ca_panic (NewCoalescingActuator 3)"
  using dispatcher_safe [OF act_reach.start [of 8 3]] by blast

text \<open>
  C5: when the worker has ended after \<open>Close\<close>, nothing is pending and for every service
  the backend has received the latest directive that any \<open>Dispatch\<close> accepted; and while
  the worker waits with work pending, a wake-up is on its way.
\<close>

theorem dispatcher_drains:
  assumes "act_reach fbcap n a"
  shows "(ca_wpc a = W_done \<longrightarrow> ca_nclosed a \<and> ca_pending a = [] \<and> ca_executed a = ca_accepted a) \<and>
    (ca_wpc a = W_wait \<and> ca_pending a \<noteq> [] \<longrightarrow> ca_token a \<or> ca_nclosed a \<or> D_send \<in> set (ca_dpcs a))"
  using act_reach_inv [OF assms] by (auto simp: work_inv_def latest_inv_def sending_def)

theorem dispatcher_drains_witness:
  "\<exists>a. act_reach 8 1 a \<and> ca_wpc a = W_done \<and> ca_executed a = ca_accepted a"
proof -
  let ?a0 = "NewCoalescingActuator 1"
  let ?a1 = "?a0\<lparr> ca_closed := True, ca_cpc := C_flagged \<rparr>"
  let ?a2 = "?a1\<lparr> ca_mu := Some H_close, ca_cpc := C_locked \<rparr>"
  let ?a3 = "?a2\<lparr> ca_mu := None, ca_cpc := C_unlocked \<rparr>"
  let ?a4 = "?a3\<lparr> ca_nclosed := True, ca_cpc := C_closed \<rparr>"
  let ?a5 = "?a4\<lparr> ca_wpc := W_final \<rparr>"
  let ?a6 = "?a5\<lparr> ca_pending := [], ca_wpc := W_exec True (ca_pending ?a5) \<rparr>"
  let ?a7 = "?a6\<lparr> ca_wpc := W_done \<rparr>"
  have "act_reach 8 1 ?a0" by (rule act_reach.start)
  moreover have "act_step 8 ?a0 ?a1" by (rule act_step.c_flag) (simp add: NewCoalescingActuator_def)
  moreover have "act_step 8 ?a1 ?a2" by (rule act_step.c_lock) (simp_all add: NewCoalescingActuator_def)
  moreover have "act_step 8 ?a2 ?a3" by (rule act_step.c_unlock) simp
  moreover have "act_step 8 ?a3 ?a4" by (rule act_step.c_close) simp
  moreover have "act_step 8 ?a4 ?a5" by (rule act_step.w_end) (simp_all add: NewCoalescingActuator_def)
  moreover have "act_step 8 ?a5 ?a6" by (rule act_step.w_take_final) (simp_all add: NewCoalescingActuator_def)
  moreover have "act_step 8 ?a6 ?a7" by (rule act_step.w_done) (simp add: NewCoalescingActuator_def)
  ultimately have r: "act_reach 8 1 ?a7" by (meson act_reach.step)
  moreover have "ca_wpc ?a7 = W_done" by simp
  ultimately show ?thesis using dispatcher_drains [OF r] by blast
qed

section \<open>Routing and the queue backend\<close>

text \<open>
  \<open>router.go\<close> and \<open>backends/queue_backend.go\<close>.  A backend is what it does to its own state;
  \<open>RouterBackend\<close> picks one per service.
\<close>

record 'b RouterBackend =
  ro_routes :: "(string, 'b) gomap"
  ro_defaultBackend :: "'b option"
  ro_fallback :: 'b

definition NewRouterBackend :: "'b option \<Rightarrow> 'b \<Rightarrow> 'b RouterBackend" where
  "NewRouterBackend dflt log_only =
     \<lparr> ro_routes = [], ro_defaultBackend = dflt, ro_fallback = log_only \<rparr>"

definition AddRoute :: "string \<Rightarrow> 'b option \<Rightarrow> 'b RouterBackend \<Rightarrow> 'b RouterBackend" where
  "AddRoute serviceID backend r =
    (case backend of None \<Rightarrow> r
     | Some b \<Rightarrow> if serviceID = '''' then r else r\<lparr> ro_routes := AList.update serviceID b (ro_routes r) \<rparr>)"

definition route_backend :: "'b RouterBackend \<Rightarrow> string \<Rightarrow> 'b" where
  \<comment> \<open>the backend on which \<open>Execute\<close> is called\<close>
  "route_backend r sid =
    (case map_of (ro_routes r) sid of Some b \<Rightarrow> b
     | None \<Rightarrow> (case ro_defaultBackend r of Some b \<Rightarrow> b | None \<Rightarrow> ro_fallback r))"

definition minWorkers :: int where "minWorkers = 1"
definition maxWorkers :: int where "maxWorkers = 10000"

type_synonym QueueBackend = "(string, int) gomap"

definition go_get :: "('k, int) gomap \<Rightarrow> 'k \<Rightarrow> int" where
  \<comment> \<open>reading an absent key gives the zero value\<close>
  "go_get m k = (case map_of m k of Some v \<Rightarrow> v | None \<Rightarrow> 0)"

definition queue_Execute :: "bool \<Rightarrow> DirectiveSnapshot \<Rightarrow> QueueBackend \<Rightarrow> string option \<times> QueueBackend" where
  \<comment> \<open>the flag: \<open>ctx.Err()\<close> is not nil; the result carries the error\<close>
  "queue_Execute cancelled snap b =
    (if cancelled then (Some ''context canceled'', b)
     else if ds_ServiceID snap = '''' then (Some ''queue backend: missing service id'', b)
     else
       let current = go_get b (ds_ServiceID snap);
           current = (if current < minWorkers then minWorkers else current);
           next = int_of_f64 (math_Round (f64_of_int current * ds_ScaleFactor snap));
           next = (if next < minWorkers then minWorkers else next);
           next = (if maxWorkers < next then maxWorkers else next)
       in (None, AList.update (ds_ServiceID snap) next b))"

definition WorkerCount :: "string \<Rightarrow> QueueBackend \<Rightarrow> int" where
  "WorkerCount serviceID b =
    (let count = go_get b serviceID in if count < minWorkers then minWorkers else count)"

lemma WorkerCount_cases:
  "WorkerCount sid (snd (queue_Execute c snap b)) = WorkerCount sid b \<or>
   ds_ServiceID snap = sid \<and> WorkerCount sid (snd (queue_Execute c snap b)) \<le> maxWorkers"
  by (auto simp: queue_Execute_def WorkerCount_def Let_def go_get_def minWorkers_def maxWorkers_def)

lemma WorkerCount_range:
  "\<forall>sid. WorkerCount sid b \<le> maxWorkers \<Longrightarrow> WorkerCount sid (snd (queue_Execute c snap b)) \<le> maxWorkers"
  using WorkerCount_cases [of sid c snap b] by auto

text \<open>
  After any sequence of directives with any scale factors (NaN and the infinities
  included) the queue backend reports between 1 and 10000 workers for every service,
  and a directive changes the count of its own service only.
\<close>

theorem queue_workers_bounded:
  "1 \<le> WorkerCount sid (fold (\<lambda>(c, snap) b. snd (queue_Execute c snap b)) ops []) \<and>
   WorkerCount sid (fold (\<lambda>(c, snap) b. snd (queue_Execute c snap b)) ops []) \<le> 10000 \<and>
   (WorkerCount sid (snd (queue_Execute c snap b)) = WorkerCount sid b \<or> ds_ServiceID snap = sid)"
proof -
  have "\<forall>sid. WorkerCount sid (fold (\<lambda>(c, snap) b. snd (queue_Execute c snap b)) ops b) \<le> maxWorkers"
    if "\<forall>sid. WorkerCount sid b \<le> maxWorkers" for b
    using that
    by (induction ops arbitrary: b) (simp, simp add: case_prod_unfold WorkerCount_range)
  from this [of "[]"] have "WorkerCount sid (fold (\<lambda>(c, snap) b. snd (queue_Execute c snap b)) ops []) \<le> maxWorkers"
    by (simp add: WorkerCount_def go_get_def minWorkers_def maxWorkers_def)
  moreover have "minWorkers \<le> WorkerCount sid b'" for b' by (simp add: WorkerCount_def Let_def)
  moreover have "WorkerCount sid (snd (queue_Execute c snap b)) = WorkerCount sid b \<or> ds_ServiceID snap = sid"
    using WorkerCount_cases [of sid c snap b] by blast
  ultimately show ?thesis by (simp add: minWorkers_def maxWorkers_def)
qed

end
