(* ===== verification/Bytes.thy ===== *)
theory Bytes
  imports Prelude
begin

unbundle bit_operations_syntax

text \<open>
  Byte streams and big-endian numbers, shared by the WebSocket and the PostgreSQL
  framing.  A connection's input is the list of bytes still to be read; \<open>io.ReadFull\<close>
  takes exactly the number asked for or fails.
\<close>

type_synonym byte = "8 word"

datatype io_error = Io_eof | Io_panic | Io_failed string

fun be_bytes :: "nat \<Rightarrow> nat \<Rightarrow> byte list" where
  \<comment> \<open>the \<open>k\<close> low bytes of \<open>n\<close>, most significant first\<close>
  "be_bytes 0 n = []"
| "be_bytes (Suc k) n = be_bytes k (n div 256) @ [of_nat n]"

definition be_val :: "byte list \<Rightarrow> nat" where
  "be_val bs = fold (\<lambda>b a. a * 256 + unat b) bs 0"

definition read_full :: "nat \<Rightarrow> byte list \<Rightarrow> io_error + byte list \<times> byte list" where
  "read_full n input = (if length input < n then Inl Io_eof else Inr (take n input, drop n input))"

definition bind_io :: "(io_error + 'a) \<Rightarrow> ('a \<Rightarrow> io_error + 'b) \<Rightarrow> io_error + 'b" where
  "bind_io m f = (case m of Inl e \<Rightarrow> Inl e | Inr x \<Rightarrow> f x)"

lemma bind_io_simps [simp]: "bind_io (Inl e) f = Inl e" "bind_io (Inr x) f = f x"
  by (simp_all add: bind_io_def)

lemma length_be_bytes [simp]: "length (be_bytes k n) = k"
  by (induction k arbitrary: n) auto

lemma be_val_snoc: "be_val (bs @ [b]) = be_val bs * 256 + unat b"
  by (simp add: be_val_def)

lemma unat_byte [simp]: "unat (of_nat n :: byte) = n mod 256"
  by (simp add: unat_of_nat)

lemma be_val_be_bytes: "be_val (be_bytes k n) = n mod 256 ^ k"
proof (induction k arbitrary: n)
  case 0
  then show ?case by (simp add: be_val_def)
next
  case (Suc k)
  have "n div 256 mod 256 ^ k * 256 + n mod 256 = n mod (256 * 256 ^ k)"
    by (simp add: mod_mult2_eq mult.commute)
  then show ?case by (simp add: be_val_snoc Suc.IH)
qed

lemma be_val_less: "be_val bs < 256 ^ length bs"
proof (induction bs rule: rev_induct)
  case (snoc b bs)
  have "unat b < 256" using unsigned_less [of b] by simp
  then have "be_val bs * 256 + unat b < (be_val bs + 1) * 256" by simp
  also have "\<dots> \<le> 256 ^ length bs * 256" using snoc by (intro mult_right_mono) auto
  finally show ?case by (simp add: be_val_snoc mult.commute)
qed (simp add: be_val_def)

lemma read_full_append [simp]: "length xs = n \<Longrightarrow> read_full n (xs @ ys) = Inr (xs, ys)"
  by (auto simp: read_full_def)

lemma read_full_2 [simp]: "read_full 2 (a # b # xs) = Inr ([a, b], xs)"
  by (simp add: read_full_def numeral_2_eq_2)

lemma low_byte:
  assumes "unat (w :: byte) < 128"
  shows "w AND 127 = w" "w AND 128 = 0" "(w OR 128) AND 127 = w" "(w OR 128) AND 128 = 128"
proof -
  have m: "(127 :: byte) = mask 7" by (simp add: mask_eq_exp_minus_1)
  have "take_bit 7 w = w"
    using assms by (subst word_unat_eq_iff) (simp add: unsigned_take_bit_eq take_bit_nat_eq_self)
  then show a: "w AND 127 = w" by (simp only: m take_bit_eq_mask)
  have z: "(127 :: byte) AND 128 = 0" "(128 :: byte) AND 127 = 0" "(128 :: byte) AND 128 = 128" by simp_all
  show b: "w AND 128 = 0"
    by (subst a [symmetric]) (simp only: and.assoc z(1) and_zero_eq)
  show "(w OR 128) AND 127 = w" "(w OR 128) AND 128 = 128"
    by (simp_all only: bit.conj_disj_distrib2 a b z or.right_neutral or.left_neutral)
qed

end
