(* ===== verification/WebSocket.thy ===== *)
theory WebSocket
  imports Bytes
begin

unbundle bit_operations_syntax

text \<open>
  \<open>internal/ws/websocket.go\<close>: the frame codec.  What is written is returned as a byte
  list, what is read is taken from one.  The handshake (SHA-1, base64, HTTP) and the
  deadline shims are not modelled.
\<close>

definition TextMessage :: int where "TextMessage = 1"
definition BinaryMessage :: int where "BinaryMessage = 2"
definition CloseMessage :: int where "CloseMessage = 8"
definition PingMessage :: int where "PingMessage = 9"
definition PongMessage :: int where "PongMessage = 10"

definition max_alloc :: int where
  \<comment> \<open>the largest slice of bytes \<open>make\<close> accepts on a 64-bit system\<close>
  "max_alloc = 2 ^ 48"

definition writeFrame :: "byte \<Rightarrow> byte list \<Rightarrow> byte list" where
  "writeFrame opcode payload =
    (let n = length payload;
         h0 = 128 OR opcode;
         header = (if n \<le> 125 then [h0, of_nat n]
                   else if n \<le> 65535 then [h0, 126] @ be_bytes 2 n
                   else [h0, 127] @ be_bytes 8 n)
     in header @ (if 0 < length payload then payload else []))"

definition WriteMessage :: "int \<Rightarrow> byte list \<Rightarrow> byte list" where
  "WriteMessage mt data = writeFrame (of_int mt) data"

definition put_frame :: "int \<Rightarrow> byte list \<Rightarrow> nat \<Rightarrow> byte list \<Rightarrow> byte list" where
  \<comment> \<open>one round of the loop, at offset \<open>off\<close>\<close>
  "put_frame mt data off frames =
     take off frames @ [128 OR of_int mt, of_nat (length data)] @ data @
     drop (off + (2 + length data)) frames"

definition WriteRepeatedMessage :: "int \<Rightarrow> byte list \<Rightarrow> int \<Rightarrow> io_error + byte list" where
  "WriteRepeatedMessage mt data cnt =
    (if cnt \<le> 0 then Inr []
     else if 125 < length data then Inl (Io_failed ''ws: repeated frame payload too large'')
     else
       let frameLen = 2 + length data
       in Inr (fold (\<lambda>i frames. put_frame mt data (i * frameLen) frames) [0..<nat cnt]
                 (replicate (frameLen * nat cnt) 0)))"

definition apply_mask :: "byte list \<Rightarrow> byte list \<Rightarrow> byte list" where
  "apply_mask maskKey data = map (\<lambda>i. data ! i XOR maskKey ! (i mod 4)) [0..<length data]"

definition read_len :: "byte \<Rightarrow> byte list \<Rightarrow> io_error + int \<times> byte list" where
  \<comment> \<open>\<open>payloadLen\<close>, from the low bits of the second header byte and its extension\<close>
  "read_len h1 input =
    (let len7 = unat (h1 AND 127) in
     if len7 = 126 then bind_io (read_full 2 input) (\<lambda>(ext, input). Inr (int (be_val ext), input))
     else if len7 = 127 then bind_io (read_full 8 input)
            (\<lambda>(ext, input). Inr (sint (of_nat (be_val ext) :: u64), input))
     else Inr (int len7, input))"

definition ReadMessage :: "byte list \<Rightarrow> io_error + int \<times> byte list \<times> byte list" where
  \<comment> \<open>the opcode, the payload and the rest of the stream\<close>
  "ReadMessage input =
     bind_io (read_full 2 input) (\<lambda>(header, input).
       let opcode = int (unat (header ! 0 AND 15));
           masked = (header ! 1 AND 128 \<noteq> 0)
       in bind_io (read_len (header ! 1) input) (\<lambda>(payloadLen, input).
            bind_io (if masked then read_full 4 input else Inr (replicate 4 0, input))
              (\<lambda>(maskKey, input).
                 if payloadLen < 0 \<or> max_alloc < payloadLen then Inl Io_panic
                 else bind_io (read_full (nat payloadLen) input) (\<lambda>(data, input).
                        Inr (opcode, if masked then apply_mask maskKey data else data, input)))))"

section \<open>The wire format\<close>

text \<open>
  The masking of the protocol (RFC 6455, 5.3), with the key rotated along the payload,
  and a frame with an optional masking key.
\<close>

fun rfc_mask :: "byte list \<Rightarrow> byte list \<Rightarrow> byte list" where
  "rfc_mask k [] = []"
| "rfc_mask k (b # bs) = (b XOR hd k) # rfc_mask (rotate1 k) bs"

definition ws_frame :: "byte list option \<Rightarrow> byte \<Rightarrow> byte list \<Rightarrow> byte list" where
  "ws_frame key opcode payload =
    (let n = length payload;
         mark = (\<lambda>w. if key = None then w else w OR 128)
     in [128 OR opcode]
        @ (if n \<le> 125 then [mark (of_nat n)]
           else if n \<le> 65535 then mark 126 # be_bytes 2 n
           else mark 127 # be_bytes 8 n)
        @ (case key of None \<Rightarrow> payload | Some k \<Rightarrow> k @ rfc_mask k payload))"

lemma writeFrame_wire: "writeFrame opcode payload = ws_frame None opcode payload"
  by (simp add: writeFrame_def ws_frame_def Let_def)

lemma length_apply_mask [simp]: "length (apply_mask k data) = length data"
  by (simp add: apply_mask_def)

lemma length_rfc_mask [simp]: "length (rfc_mask k data) = length data"
  by (induction data arbitrary: k) auto

lemma nth_rfc_mask:
  "k \<noteq> [] \<Longrightarrow> i < length data \<Longrightarrow> rfc_mask k data ! i = data ! i XOR k ! (i mod length k)"
proof (induction data arbitrary: k i)
  case (Cons b bs)
  show ?case
  proof (cases i)
    case 0
    then show ?thesis using Cons.prems(1) by (simp add: hd_conv_nth)
  next
    case (Suc j)
    have "rotate1 k \<noteq> []" using Cons.prems(1) by simp
    then have "rfc_mask (rotate1 k) bs ! j = bs ! j XOR rotate1 k ! (j mod length k)"
      using Cons.IH [of "rotate1 k" j] Cons.prems(2) Suc by simp
    also have "rotate1 k ! (j mod length k) = k ! (Suc j mod length k)"
      using nth_rotate1 [of "j mod length k" k] Cons.prems(1) by (simp add: mod_Suc_eq)
    finally show ?thesis using Suc by simp
  qed
qed simp

lemma apply_mask_rfc:
  assumes "length k = 4" shows "apply_mask k (rfc_mask k data) = data"
proof -
  have "k \<noteq> []" using assms by auto
  then show ?thesis using assms by (intro nth_equalityI) (simp_all add: apply_mask_def nth_rfc_mask xor.assoc)
qed

definition control_opcodes :: "byte set" where
  "control_opcodes = {0, 1, 2, 8, 9, 10}"

lemma opcode_bits: "opcode \<in> control_opcodes \<Longrightarrow> (128 OR opcode) AND 15 = opcode"
  by (auto simp: control_opcodes_def)

lemma mark_bits:
  assumes "unat (w :: byte) < 128"
  shows "(if b then w OR 128 else w) AND 127 = w"
    "((if b then w OR 128 else w) AND 128 \<noteq> 0) = b"
  using low_byte [OF assms] by auto

lemma small_byte: "n \<le> 125 \<Longrightarrow> unat (of_nat n :: byte) < 128" "n \<le> 125 \<Longrightarrow> n mod 256 = n"
  by auto

lemma sint_small: "n \<le> 2 ^ 48 \<Longrightarrow> sint (of_nat n :: u64) = int n"
  by (simp add: signed_of_nat signed_take_bit_int_eq_self)

lemma ReadMessage_frame:
  assumes op: "opcode \<in> control_opcodes" and len: "int (length payload) \<le> max_alloc"
    and key: "\<And>k. key = Some k \<Longrightarrow> length k = 4"
  shows "ReadMessage (ws_frame key opcode payload @ rest) = Inr (int (unat opcode), payload, rest)"
proof -
  let ?n = "length payload" and ?m = "key \<noteq> None"
  let ?mark = "\<lambda>w :: byte. if ?m then w OR 128 else w"
  define l7 :: byte where "l7 = (if ?n \<le> 125 then of_nat ?n else if ?n \<le> 65535 then 126 else 127)"
  define ext where "ext = (if ?n \<le> 125 then [] else if ?n \<le> 65535 then be_bytes 2 ?n else be_bytes 8 ?n)"
  define body where "body = (case key of None \<Rightarrow> payload | Some k \<Rightarrow> k @ rfc_mask k payload)"
  have l7: "unat l7 < 128" by (auto simp: l7_def)
  have mk: "(\<lambda>w. if key = None then w else w OR 128) = ?mark" by auto
  have frame: "ws_frame key opcode payload @ rest = [128 OR opcode, ?mark l7] @ ext @ body @ rest"
    unfolding ws_frame_def Let_def mk by (auto simp: l7_def ext_def body_def)
  have lens: "read_len (if b then l7 OR 128 else l7) (ext @ body @ rest) = Inr (int ?n, body @ rest)" for b
  proof -
    consider "?n \<le> 125" | "125 < ?n" "?n \<le> 65535" | "65535 < ?n" by linarith
    then show ?thesis
    proof cases
      case 1
      then have "unat l7 = ?n" by (simp add: l7_def)
      then show ?thesis using 1 by (simp add: ext_def read_len_def mark_bits [OF l7])
    next
      case 2
      then have "unat l7 = 126" by (simp add: l7_def)
      then show ?thesis using 2 by (simp add: ext_def be_val_be_bytes read_len_def mark_bits [OF l7])
    next
      case 3
      then have "unat l7 = 127" by (simp add: l7_def)
      moreover have "?n \<le> 2 ^ 48" using len by (simp add: max_alloc_def)
      ultimately show ?thesis using 3 sint_small [of ?n] by (simp add: ext_def be_val_be_bytes read_len_def mark_bits [OF l7])
    qed
  qed
  have len': "\<not> (int ?n < 0 \<or> max_alloc < int ?n)" using len by simp
  show ?thesis
  proof (cases key)
    case None
    then show ?thesis
      unfolding frame ReadMessage_def
      using lens [of False] len' mark_bits [OF l7, of False] opcode_bits [OF op]
      by (simp add: body_def Let_def)
  next
    case (Some k)
    then have "length k = 4" by (rule key)
    then show ?thesis
      unfolding frame ReadMessage_def
      using Some lens [of True] len' mark_bits [OF l7, of True] opcode_bits [OF op]
      by (simp add: body_def Let_def apply_mask_rfc)
  qed
qed

section \<open>Repeated frames\<close>

lemma put_frames:
  assumes "length data \<le> 125" "i \<le> c"
  shows "fold (\<lambda>i frames. put_frame mt data (i * (2 + length data)) frames) [0..<i]
           (replicate ((2 + length data) * c) 0) =
         concat (replicate i (writeFrame (of_int mt) data)) @ replicate ((2 + length data) * (c - i)) 0"
  using assms(2)
proof (induction i)
  case (Suc i)
  let ?f = "2 + length data" and ?w = "writeFrame (of_int mt) data"
  have w: "?w = [128 OR of_int mt, of_nat (length data)] @ data"
    using assms(1) by (simp add: writeFrame_def Let_def)
  have len: "length (concat (replicate i ?w)) = i * ?f"
    using w by (simp add: length_concat sum_list_replicate)
  have "c - i = Suc (c - Suc i)" using Suc.prems by simp
  then have "replicate (?f * (c - i)) (0 :: byte) = replicate ?f 0 @ replicate (?f * (c - Suc i)) 0"
    by (simp only: mult_Suc_right replicate_add)
  then have "put_frame mt data (i * ?f) (concat (replicate i ?w) @ replicate (?f * (c - i)) 0) =
      concat (replicate i ?w) @ ?w @ replicate (?f * (c - Suc i)) 0"
    unfolding put_frame_def w [symmetric] using len by (simp add: w)
  moreover have "concat (replicate (Suc i) ?w) = concat (replicate i ?w) @ ?w"
    by (metis concat_append concat.simps append_Nil2 replicate_Suc replicate_append_same)
  ultimately show ?case using Suc by simp
qed simp

section \<open>Properties of the codec\<close>

text \<open>
  C21: what \<open>writeFrame\<close> and \<open>WriteMessage\<close> emit, and every client frame masked with any
  key, is read back by \<open>ReadMessage\<close> as the same opcode and payload, with the rest of
  the stream untouched, for all payloads up to the largest allocation.
\<close>

theorem frame_roundtrip:
  assumes "opcode \<in> control_opcodes" "int (length payload) \<le> max_alloc" "length k = 4"
  shows "ReadMessage (writeFrame opcode payload @ rest) = Inr (int (unat opcode), payload, rest) \<and>
    ReadMessage (ws_frame (Some k) opcode payload @ rest) = Inr (int (unat opcode), payload, rest)"
  using ReadMessage_frame [OF assms(1,2), of None rest] ReadMessage_frame [OF assms(1,2), of "Some k" rest]
    assms(3) by (simp add: writeFrame_wire)

theorem frame_roundtrip_witness:
  "ReadMessage (writeFrame 1 [104, 105] @ [7]) = Inr (1, [104, 105], [7])"
  using frame_roundtrip [of 1 "[104, 105]" "[1, 2, 3, 4]" "[7]"]
  by (simp add: control_opcodes_def max_alloc_def)

text \<open>
  One call of \<open>WriteRepeatedMessage\<close> emits exactly what \<open>count\<close> calls of
  \<open>WriteMessage\<close> emit.
\<close>

theorem repeated_frames:
  assumes "length data \<le> 125"
  shows "WriteRepeatedMessage mt data cnt = Inr (concat (replicate (nat cnt) (WriteMessage mt data)))"
  using put_frames [OF assms, of "nat cnt" "nat cnt" mt] assms
  by (simp add: WriteRepeatedMessage_def WriteMessage_def Let_def)

theorem repeated_frames_witness:
  "WriteRepeatedMessage 9 [1] 2 = Inr (concat (replicate (nat 2) (WriteMessage 9 [1])))"
  using repeated_frames [of "[1]" 9 2] by simp

text \<open>
  Ten bytes from a peer make the reader panic: an extended length with the top bit
  set becomes a negative \<open>int64\<close>, and \<open>make\<close> panics on it.
\<close>

theorem length_panic: "ReadMessage ([129, 127, 128, 0, 0, 0, 0, 0, 0, 0] @ rest) = Inl Io_panic"
proof -
  have "be_val [128, 0, 0, 0, 0, 0, 0, 0] = 2 ^ 63" by (simp add: be_val_def)
  moreover have "sint (of_nat (2 ^ 63) :: u64) < 0" by simp
  moreover have "read_full 8 (128 # 0 # 0 # 0 # 0 # 0 # 0 # 0 # rest) = Inr ([128, 0, 0, 0, 0, 0, 0, 0], rest)"
    by (simp add: read_full_def)
  ultimately show ?thesis by (simp add: ReadMessage_def read_len_def Let_def)
qed

end
