(* ===== verification/PgWire.thy ===== *)
theory PgWire
  imports Bytes GoString GoTime
begin

unbundle bit_operations_syntax

text \<open>
  \<open>internal/persistence/writer.go\<close>: the bounded snapshot queue, and the minimal
  PostgreSQL driver: connection strings, message framing, the simple-query exchange and
  the substitution of literals.  The server is the list of bytes it sends.  Formatting
  of numbers and times (\<open>strconv\<close>, \<open>time.Format\<close>) is done before: a non-string argument
  is given by its literal.
\<close>

section \<open>The writer's queue\<close>

text \<open>Sending without blocking on a channel of capacity \<open>cap\<close>; a nil writer ignores it.\<close>

record 's Writer =
  wr_queue :: "'s list"
  wr_cap :: nat

definition Enqueue :: "'s \<Rightarrow> 's Writer option \<Rightarrow> 's Writer option" where
  "Enqueue s w = map_option (\<lambda>w. if length (wr_queue w) < wr_cap w
     then w\<lparr> wr_queue := wr_queue w @ [s] \<rparr> else w) w"

section \<open>Connection strings\<close>

definition split2 :: "string \<Rightarrow> char \<Rightarrow> string list" where
  \<comment> \<open>\<open>strings.SplitN(s, sep, 2)\<close>\<close>
  "split2 s c = (case index_byte s c of None \<Rightarrow> [s] | Some i \<Rightarrow> [take i s, drop (Suc i) s])"

fun fields_acc :: "string \<Rightarrow> string \<Rightarrow> string list" where
  \<comment> \<open>\<open>strings.Fields\<close> with the field being read\<close>
  "fields_acc cur [] = (if cur = [] then [] else [cur])"
| "fields_acc cur (c # cs) =
    (if is_space c then (if cur = [] then fields_acc [] cs else cur # fields_acc [] cs)
     else fields_acc (cur @ [c]) cs)"

type_synonym pgcfg = "(string, string) gomap"

definition dsn_defaults :: pgcfg where
  "dsn_defaults = [(''host'', ''localhost''), (''port'', ''5432''), (''user'', ''postgres''),
     (''password'', ''''), (''dbname'', ''postgres'')]"

definition dsn_userinfo :: "string \<Rightarrow> pgcfg \<Rightarrow> pgcfg" where
  "dsn_userinfo info cfg =
    (case index_byte info CHR '':'' of
       Some c \<Rightarrow> AList.update ''password'' (drop (Suc c) info) (AList.update ''user'' (take c info) cfg)
     | None \<Rightarrow> AList.update ''user'' info cfg)"

definition parse_url :: "string \<Rightarrow> pgcfg \<Rightarrow> pgcfg" where
  \<comment> \<open>from \<open>rest\<close>, after the scheme\<close>
  "parse_url rest cfg =
    (let rest = hd (split2 rest CHR ''?'');
         (rest, cfg) = (case last_index_byte rest CHR ''@'' of
             Some a \<Rightarrow> (drop (Suc a) rest, dsn_userinfo (take a rest) cfg) | None \<Rightarrow> (rest, cfg));
         (rest, cfg) = (case index_byte rest CHR ''/'' of
             Some s \<Rightarrow> (take s rest, AList.update ''dbname'' (drop (Suc s) rest) cfg) | None \<Rightarrow> (rest, cfg))
     in case last_index_byte rest CHR '':'' of
          Some c \<Rightarrow> AList.update ''port'' (drop (Suc c) rest) (AList.update ''host'' (take c rest) cfg)
        | None \<Rightarrow> if rest \<noteq> '''' then AList.update ''host'' rest cfg else cfg)"

definition parseDSN :: "string \<Rightarrow> pgcfg" where
  "parseDSN dsn =
    (if has_prefix dsn ''postgres://'' then parse_url (drop 11 dsn) dsn_defaults
     else if has_prefix dsn ''postgresql://'' then parse_url (drop 13 dsn) dsn_defaults
     else fold (\<lambda>pair cfg. case split2 pair CHR ''='' of
                  [k, v] \<Rightarrow> AList.update k v cfg | _ \<Rightarrow> cfg)
            (fields_acc [] dsn) dsn_defaults)"

section \<open>Messages\<close>

definition bytes_of :: "string \<Rightarrow> byte list" where
  "bytes_of s = map (\<lambda>c. of_nat (char_code c)) s"

definition be32 :: "nat \<Rightarrow> byte list" where
  \<comment> \<open>four assignments of shifted bytes\<close>
  "be32 n = be_bytes 4 n"

definition cfg_get :: "pgcfg \<Rightarrow> string \<Rightarrow> string" where
  "cfg_get cfg k = (case map_of cfg k of Some v \<Rightarrow> v | None \<Rightarrow> '''')"

definition startup_msg :: "pgcfg \<Rightarrow> byte list" where
  "startup_msg cfg =
    (let params = bytes_of ''user'' @ [0] @ bytes_of (cfg_get cfg ''user'') @ [0] @
           bytes_of ''database'' @ [0] @ bytes_of (cfg_get cfg ''dbname'') @ [0, 0];
         body = [0, 3, 0, 0] @ params
     in be32 (length body + 4) @ body)"

definition typed_msg :: "char \<Rightarrow> string \<Rightarrow> byte list" where
  \<comment> \<open>the password message and the query message: type, length, text, NUL\<close>
  "typed_msg t s =
    (let q = bytes_of s @ [0] in of_nat (char_code t) # be32 (4 + length q) @ q)"

definition readMsg :: "byte list \<Rightarrow> io_error + byte \<times> byte list \<times> byte list" where
  \<comment> \<open>the type, the payload and the rest of the stream\<close>
  "readMsg input =
     bind_io (read_full 5 input) (\<lambda>(hdr, input).
       let n = int (be_val (drop 1 hdr)) - 4; n = (if n < 0 then 0 else n) in
       bind_io (if 0 < n then read_full (nat n) input else Inr ([], input)) (\<lambda>(data, input).
         Inr (hdr ! 0, data, input)))"

function pgErrMsg_at :: "byte list \<Rightarrow> nat \<Rightarrow> byte list option" where
  \<comment> \<open>the loop from index \<open>i\<close>; \<open>None\<close> stands for the result \<open>unknown\<close>\<close>
  "pgErrMsg_at data i =
    (if \<not> i + 1 < length data then None
     else let txt = takeWhile (\<lambda>b. b \<noteq> 0) (drop (i + 1) data) in
          if data ! i = of_nat (char_code CHR ''M'') then Some txt
          else pgErrMsg_at data (i + 1 + length txt + 1))"
  by pat_completeness auto
termination by (relation "measure (\<lambda>(data, i). length data - i)") auto

definition pgErrMsg :: "byte list \<Rightarrow> byte list" where
  "pgErrMsg data = (case pgErrMsg_at data 0 of Some m \<Rightarrow> m | None \<Rightarrow> bytes_of ''unknown'')"

datatype pg_error = Pg_io io_error | Pg_short_auth | Pg_unsupported_auth int | Pg_error "byte list"

abbreviation is_type :: "byte \<Rightarrow> char \<Rightarrow> bool" where
  "is_type mt c \<equiv> mt = of_nat (char_code c)"

text \<open>
  The two reading loops.  Every round consumes at least five bytes of the finite input,
  so the length of the input bounds the number of rounds.
\<close>

lemma read_full_rest: "read_full n input = Inr (x, rest) \<Longrightarrow> length rest + n = length input"
  by (auto simp: read_full_def split: if_splits)

lemma readMsg_rest: "readMsg input = Inr (mt, data, rest) \<Longrightarrow> length rest < length input"
  by (auto simp: readMsg_def Let_def bind_io_def split: sum.splits if_splits dest!: read_full_rest)

function readUntilReady :: "string \<Rightarrow> byte list \<Rightarrow> pg_error + byte list \<times> byte list" where
  \<comment> \<open>what is written back, and the rest of the input\<close>
  "readUntilReady password input =
    (case readMsg input of
       Inl e \<Rightarrow> Inl (Pg_io e)
     | Inr (mt, data, input') \<Rightarrow>
        if is_type mt CHR ''R'' then
          (if length data < 4 then Inl Pg_short_auth
           else let authType = sint (of_nat (be_val (take 4 data)) :: 32 word) in
             if authType = 0 then readUntilReady password input'
             else if authType = 3 then
               (case readUntilReady password input' of
                  Inl e \<Rightarrow> Inl e
                | Inr (out, r) \<Rightarrow> Inr (typed_msg CHR ''p'' password @ out, r))
             else Inl (Pg_unsupported_auth authType))
        else if is_type mt CHR ''Z'' then Inr ([], input')
        else if is_type mt CHR ''E'' then Inl (Pg_error (pgErrMsg data))
        else readUntilReady password input')"
  by pat_completeness auto
termination by (relation "measure (\<lambda>(password, input). length input)") (auto dest: readMsg_rest)

function drainQuery :: "byte list \<Rightarrow> pg_error option \<times> byte list" where
  \<comment> \<open>the loop of \<open>simpleQuery\<close>: its error, and what is left unread on the connection\<close>
  "drainQuery input =
    (case readMsg input of
       Inl e \<Rightarrow> (Some (Pg_io e), [])
     | Inr (mt, data, input') \<Rightarrow>
        if is_type mt CHR ''Z'' then (None, input')
        else if is_type mt CHR ''E'' then (Some (Pg_error (pgErrMsg data)), input')
        else drainQuery input')"
  by pat_completeness auto
termination by (relation "measure length") (auto dest: readMsg_rest)

declare readUntilReady.simps [simp del] drainQuery.simps [simp del] pgErrMsg_at.simps [simp del]

definition simpleQuery :: "string \<Rightarrow> byte list \<Rightarrow> byte list \<times> pg_error option \<times> byte list" where
  \<comment> \<open>the bytes sent, the error, the unread input\<close>
  "simpleQuery sql input = (typed_msg CHR ''Q'' sql, drainQuery input)"

section \<open>Literals\<close>

definition pgLiteral :: "string \<Rightarrow> string" where
  "pgLiteral s = CHR 0x27 # concat (map (\<lambda>c. if c = CHR 0x27 then [CHR 0x27, CHR 0x27] else [c]) s) @ [CHR 0x27]"

datatype pg_value = Pg_null | Pg_lit string | Pg_bool bool | Pg_text string
  \<comment> \<open>\<open>Pg_lit\<close>: an \<open>int64\<close> or \<open>float64\<close>, printed; \<open>Pg_text\<close>: bytes, strings, times, others\<close>

definition literal_of :: "pg_value \<Rightarrow> string" where
  "literal_of v = (case v of Pg_null \<Rightarrow> ''NULL'' | Pg_lit s \<Rightarrow> s
     | Pg_bool b \<Rightarrow> if b then ''TRUE'' else ''FALSE'' | Pg_text s \<Rightarrow> pgLiteral s)"

fun replace_first :: "string \<Rightarrow> string \<Rightarrow> string \<Rightarrow> string" where
  \<comment> \<open>\<open>strings.Replace(s, old, new, 1)\<close> for a non-empty \<open>old\<close>\<close>
  "replace_first [] old new = []"
| "replace_first (c # cs) old new =
    (if has_prefix (c # cs) old then new @ drop (length old) (c # cs)
     else c # replace_first cs old new)"

definition placeholder :: "nat \<Rightarrow> string" where
  "placeholder i = CHR ''$'' # dec_nat (i + 1)"

definition substituteArgs :: "string \<Rightarrow> pg_value list \<Rightarrow> string" where
  "substituteArgs query args =
     fold (\<lambda>(i, arg) q. replace_first q (placeholder i) (literal_of arg))
       (zip [0..<length args] args) query"

definition NumInput :: "string \<Rightarrow> int" where
  "NumInput query = int (length (filter (\<lambda>c. c = CHR ''$'') query))"

section \<open>Round trips\<close>

text \<open>How the server reads a quoted literal: a doubled quote is one, a single one ends it.\<close>

fun lit_body :: "string \<Rightarrow> (string \<times> string) option" where
  "lit_body [] = None"
| "lit_body [c] = (if c = CHR 0x27 then Some ([], []) else None)"
| "lit_body (c # d # cs) =
    (if c = CHR 0x27 then
       (if d = CHR 0x27 then map_option (\<lambda>(s, r). (c # s, r)) (lit_body cs) else Some ([], d # cs))
     else map_option (\<lambda>(s, r). (c # s, r)) (lit_body (d # cs)))"

definition read_literal :: "string \<Rightarrow> (string \<times> string) option" where
  "read_literal s = (case s of [] \<Rightarrow> None | c # cs \<Rightarrow> if c = CHR 0x27 then lit_body cs else None)"

lemma lit_body_end: "(rest = [] \<or> hd rest \<noteq> CHR 0x27) \<Longrightarrow> lit_body (CHR 0x27 # rest) = Some ([], rest)"
  by (cases rest) auto

lemma lit_body_step: "c \<noteq> CHR 0x27 \<Longrightarrow> lit_body (c # cs) = map_option (\<lambda>(s, r). (c # s, r)) (lit_body cs)"
  by (cases cs) auto

lemma read_literal_pgLiteral:
  assumes "rest = [] \<or> hd rest \<noteq> CHR 0x27"
  shows "read_literal (pgLiteral s @ rest) = Some (s, rest)"
proof -
  have "lit_body (concat (map (\<lambda>c. if c = CHR 0x27 then [CHR 0x27, CHR 0x27] else [c]) s) @ CHR 0x27 # rest) =
      Some (s, rest)"
    using lit_body_end [OF assms] by (induction s) (auto simp: lit_body_step)
  then show ?thesis by (simp add: read_literal_def pgLiteral_def)
qed

lemma length_bytes_of [simp]: "length (bytes_of s) = length s"
  by (simp add: bytes_of_def)

lemma readMsg_typed:
  assumes "length s + 5 < 2 ^ 32"
  shows "readMsg (typed_msg t s @ rest) = Inr (of_nat (char_code t), bytes_of s @ [0], rest)"
proof -
  have len: "be_val (be32 (length s + 5)) = length s + 5"
    using assms by (simp add: be32_def be_val_be_bytes)
  have l4: "length (be32 n) = 4" for n by (simp add: be32_def)
  have m: "typed_msg t s @ rest = (of_nat (char_code t) # be32 (length s + 5)) @ (bytes_of s @ [0]) @ rest"
    by (simp add: typed_msg_def Let_def add.commute [of 5])
  have r5: "read_full 5 (typed_msg t s @ rest) =
      Inr (of_nat (char_code t) # be32 (length s + 5), (bytes_of s @ [0]) @ rest)"
    unfolding m by (rule read_full_append) (simp add: l4)
  have "read_full (length s + 1) ((bytes_of s @ [0]) @ rest) = Inr (bytes_of s @ [0], rest)"
    by (rule read_full_append) simp
  then show ?thesis
    unfolding readMsg_def r5 by (simp add: len nat_add_distrib)
qed

lemma split2_no: "c \<notin> set s \<Longrightarrow> split2 s c = [s]"
  by (simp add: split2_def index_byte_None)

lemma parse_url_full:
  assumes "CHR '':'' \<notin> set user" "CHR ''@'' \<notin> set (host @ port @ db)"
    "CHR ''/'' \<notin> set (host @ port)" "CHR '':'' \<notin> set port"
    "CHR ''?'' \<notin> set (user @ pw @ host @ port @ db)"
  shows "parse_url (user @ '':'' @ pw @ ''@'' @ host @ '':'' @ port @ ''/'' @ db) cfg =
    AList.update ''port'' port (AList.update ''host'' host (AList.update ''dbname'' db
      (AList.update ''password'' pw (AList.update ''user'' user cfg))))"
proof -
  let ?info = "user @ CHR '':'' # pw" and ?hp = "host @ CHR '':'' # port"
  let ?rest = "?hp @ CHR ''/'' # db"
  have s: "user @ '':'' @ pw @ ''@'' @ host @ '':'' @ port @ ''/'' @ db = ?info @ CHR ''@'' # ?rest" by simp
  have q: "hd (split2 (?info @ CHR ''@'' # ?rest) CHR ''?'') = ?info @ CHR ''@'' # ?rest"
    using assms(5) by (subst split2_no) auto
  have "last_index_byte (?info @ CHR ''@'' # ?rest) CHR ''@'' = Some (length ?info)"
    using assms(2) by (intro last_index_byte_append) auto
  moreover have "index_byte ?info CHR '':'' = Some (length user)"
    using assms(1) by (intro index_byte_append)
  moreover have "index_byte ?rest CHR ''/'' = Some (length ?hp)"
    using assms(3) by (intro index_byte_append) auto
  moreover have "last_index_byte ?hp CHR '':'' = Some (length host)"
    using assms(4) by (intro last_index_byte_append)
  moreover have "take (length ?info) (?info @ CHR ''@'' # ?rest) = ?info"
    "drop (Suc (length ?info)) (?info @ CHR ''@'' # ?rest) = ?rest"
    "take (length ?hp) ?rest = ?hp" "drop (Suc (length ?hp)) ?rest = db" by simp_all
  ultimately show ?thesis
    unfolding s parse_url_def q Let_def by (simp only: dsn_userinfo_def option.case prod.case) simp
qed

section \<open>Properties of the driver\<close>

text \<open>
  A connection URL built from its parts is taken apart again, a password with \<open>@\<close>,
  \<open>:\<close> or \<open>/\<close> in it included.
\<close>

theorem parseDSN_url:
  assumes "CHR '':'' \<notin> set user" "CHR ''@'' \<notin> set (host @ port @ db)"
    "CHR ''/'' \<notin> set (host @ port)" "CHR '':'' \<notin> set port"
    "CHR ''?'' \<notin> set (user @ pw @ host @ port @ db)"
  shows "parseDSN (''postgres://'' @ user @ '':'' @ pw @ ''@'' @ host @ '':'' @ port @ ''/'' @ db) =
    [(''host'', host), (''port'', port), (''user'', user), (''password'', pw), (''dbname'', db)]"
  using parse_url_full [OF assms, of dsn_defaults]
  by (simp add: parseDSN_def has_prefix_def dsn_defaults_def)

theorem parseDSN_url_witness:
  "map_of (parseDSN (''postgres://le:p@ss/w@db.internal:5433/engine'')) ''password'' = Some ''p@ss/w''"
  using parseDSN_url [of "''le''" "''db.internal''" "''5433''" "''engine''" "''p@ss/w''"] by simp

text \<open>
  C22: a literal made by \<open>pgLiteral\<close> is read back by the server as exactly the string it
  was made from, and a message of the driver is read back with its type, text and
  terminator, leaving the rest of the stream.
\<close>

theorem literal_roundtrip:
  assumes "rest = [] \<or> hd rest \<noteq> CHR 0x27" "length s + 5 < 2 ^ 32"
  shows "read_literal (pgLiteral s @ rest) = Some (s, rest) \<and>
    readMsg (typed_msg t s @ bs) = Inr (of_nat (char_code t), bytes_of s @ [0], bs)"
  using read_literal_pgLiteral [OF assms(1)] readMsg_typed [OF assms(2)] by simp

theorem literal_roundtrip_witness:
  "read_literal (pgLiteral (''it'' @ [CHR 0x27] @ ''s'') @ '');'') = Some (''it'' @ [CHR 0x27] @ ''s'', '');'')"
  using literal_roundtrip [of "'');''" "''it'' @ [CHR 0x27] @ ''s''" "CHR ''Q''" "[]"] by simp

text \<open>
  C23: after a failed query the server's ReadyForQuery stays unread on the connection, and
  the next query takes it for its own answer: it succeeds whatever the server replies,
  and leaves that reply to the query after it.
\<close>

theorem stale_ready:
  assumes "readMsg input = Inr (of_nat (char_code CHR ''E''), data, [90, 0, 0, 0, 5, 73] @ reply)"
  shows "snd (simpleQuery q1 input) = (Some (Pg_error (pgErrMsg data)), [90, 0, 0, 0, 5, 73] @ reply) \<and>
    snd (simpleQuery q2 ([90, 0, 0, 0, 5, 73] @ reply)) = (None, reply)"
proof -
  have "readMsg ([90, 0, 0, 0, 5, 73] @ reply) = Inr (90, [73], reply)"
    by (simp add: readMsg_def read_full_def be_val_def)
  then show ?thesis
    using assms by (simp add: simpleQuery_def drainQuery.simps [of input]
        drainQuery.simps [of "90 # 0 # 0 # 0 # 5 # 73 # reply"] char_code_def)
qed

theorem stale_ready_witness:
  "snd (simpleQuery ''x'' [69, 0, 0, 0, 4, 90, 0, 0, 0, 5, 73, 69]) =
     (Some (Pg_error (bytes_of ''unknown'')), [90, 0, 0, 0, 5, 73, 69])"
proof -
  have "readMsg [69, 0, 0, 0, 4, 90, 0, 0, 0, 5, 73, 69] =
      Inr (of_nat (char_code CHR ''E''), [], [90, 0, 0, 0, 5, 73] @ [69])"
    by (simp add: readMsg_def read_full_def be_val_def char_code_def)
  from stale_ready [OF this, of "''x''" "''y''"] show ?thesis
    by (simp add: pgErrMsg_def pgErrMsg_at.simps)
qed

text \<open>
  The arguments are substituted one after the other, and a later placeholder is also
  found inside a literal that an earlier argument put in: the second value lands inside
  the first one's quotes and ends its literal, and its own placeholder stays.
\<close>

theorem substitution_nests:
  "substituteArgs ''($1,$2)'' [Pg_text ''$2'', Pg_text ''x''] =
     ''('' @ [CHR 0x27, CHR 0x27] @ ''x'' @ [CHR 0x27, CHR 0x27] @ '',$2)''"
  by code_simp

end
