(* ===== verification/ControlTypes.thy ===== *)
theory ControlTypes
  imports OptTypes
begin

text \<open>
  \<open>internal/control\<close>: the state, bundle and configuration types of \<open>compat.go\<close> and
  \<open>bundle_generator.go\<close>, the small helpers, and the two library facilities the search
  uses.  \<open>rand.New(rand.NewSource(seed))\<close> is a sequence of \<open>Int63\<close> values that depends on
  the seed (\<open>ce_int63\<close>), from which \<open>Float64\<close> takes 53 bits; \<open>sort.Slice\<close> is a function
  from a less-than predicate and a slice to a slice (\<open>ce_sortB\<close>, \<open>ce_sortS\<close>), of which
  the theorems use that it permutes.
\<close>

record Bundle =
  bn_Replicas :: int
  bn_QueueLimit :: f64
  bn_RetryLimit :: int
  bn_CacheAggression :: f64
  bn_HeuristicScore :: f64

definition zero_bundle :: Bundle where
  "zero_bundle = \<lparr> bn_Replicas = 0, bn_QueueLimit = 0, bn_RetryLimit = 0, bn_CacheAggression = 0,
     bn_HeuristicScore = 0 \<rparr>"

record ActionBounds =
  ab_MinReplicas :: int
  ab_MaxReplicas :: int
  ab_MinQueue :: int
  ab_MaxQueue :: int
  ab_MinRetry :: int
  ab_MaxRetry :: int
  ab_MinCache :: f64
  ab_MaxCache :: f64

record SystemState =
  sys_Replicas :: int
  sys_QueueLimit :: int
  sys_RetryLimit :: int
  sys_CacheAggression :: f64
  sys_QueueDepth :: f64
  sys_PredictedArrival :: f64
  sys_ArrivalRate :: f64
  sys_ServiceRate :: f64
  sys_Latency :: f64
  sys_Risk :: f64
  sys_Utilisation :: f64
  sys_SLATarget :: f64
  sys_MinReplicas :: int
  sys_MaxReplicas :: int
  sys_MinRetry :: int
  sys_MaxRetry :: int

definition zero_state :: SystemState where
  "zero_state = \<lparr> sys_Replicas = 0, sys_QueueLimit = 0, sys_RetryLimit = 0, sys_CacheAggression = 0,
     sys_QueueDepth = 0, sys_PredictedArrival = 0, sys_ArrivalRate = 0, sys_ServiceRate = 0,
     sys_Latency = 0, sys_Risk = 0, sys_Utilisation = 0, sys_SLATarget = 0, sys_MinReplicas = 0,
     sys_MaxReplicas = 0, sys_MinRetry = 0, sys_MaxRetry = 0 \<rparr>"

record GeneratorConfig =
  gc_BaseRadius :: int
  gc_Seed :: int

record BundleConfig =
  bc_ReplicaRadius :: int
  bc_QueueRadius :: int
  bc_CacheRadius :: int
  bc_MaxScaleStep :: int
  bc_MinReplicas :: int
  bc_MaxReplicas :: int
  bc_QueueStep :: f64
  bc_MinQueue :: f64
  bc_MaxQueue :: f64
  bc_MinRetry :: int
  bc_MaxRetry :: int
  bc_CacheStep :: f64
  bc_MinCache :: f64
  bc_MaxCache :: f64
  bc_RetryAmplification :: f64
  bc_EfficiencyDecay :: f64
  bc_TargetUtil :: f64
  bc_QueueWeight :: f64
  bc_ReplicaMovePenalty :: f64
  bc_QueueMovePenalty :: f64
  bc_RetryMovePenalty :: f64
  bc_CacheMovePenalty :: f64
  bc_MinBundleDistance :: f64
  bc_TopK :: int
  bc_GenerationKeepProb :: f64
  bc_Seed :: int

record SimConfig =
  sc_HorizonSteps :: int
  sc_BaseLatency :: f64
  sc_Dt :: f64
  sc_DisturbanceStd :: f64
  sc_DisturbanceFreq :: f64
  sc_RetryFeedbackGain :: f64
  sc_WarmupRate :: f64
  sc_EfficiencyDecay :: f64
  sc_MaxQueueDelay :: f64
  sc_HazardUtilGain :: f64
  sc_HazardBacklogGain :: f64
  sc_HazardRetryGain :: f64
  sc_Seed :: int

record OptimizerConfig =
  oc_ScenarioCount :: int
  oc_EarlyStopMargin :: f64
  oc_BaseTemperature :: f64
  oc_MaxEvaluate :: int
  oc_MinEvaluate :: int

record bundleScore =
  bs_Bundle :: Bundle
  bs_Score :: f64

record control_env =
  ce_int63 :: "int \<Rightarrow> nat \<Rightarrow> int"
  ce_sortB :: "(Bundle \<Rightarrow> Bundle \<Rightarrow> bool) \<Rightarrow> Bundle list \<Rightarrow> Bundle list"
  ce_sortS :: "(bundleScore \<Rightarrow> bundleScore \<Rightarrow> bool) \<Rightarrow> bundleScore list \<Rightarrow> bundleScore list"
  ce_nanos :: int \<comment> \<open>\<open>time.Now().UnixNano()\<close>, the seed when none is given\<close>

definition env_ok :: "control_env \<Rightarrow> bool" where
  "env_ok env \<longleftrightarrow> (\<forall>l xs. set (ce_sortB env l xs) = set xs) \<and> (\<forall>l xs. set (ce_sortS env l xs) = set xs)"

definition rng_Float64 :: "control_env \<Rightarrow> int \<Rightarrow> nat \<Rightarrow> f64" where
  \<comment> \<open>\<open>float64(r.Int63n(1<<53)) / (1<<53)\<close>\<close>
  "rng_Float64 env seed n = f64_of_int (ce_int63 env seed n mod 2 ^ 53) / fl 9007199254740992"

definition maxInt :: "int \<Rightarrow> int \<Rightarrow> int" where
  "maxInt a b = (if b < a then a else b)"

definition clampInt :: "int \<Rightarrow> int \<Rightarrow> int \<Rightarrow> int" where
  "clampInt v lo hi = (if v < lo then lo else if hi < v then hi else v)"

definition clampFloat :: "f64 \<Rightarrow> f64 \<Rightarrow> f64 \<Rightarrow> f64" where
  "clampFloat v lo hi = math_Max lo (math_Min hi v)"

definition bundleFromState :: "SystemState \<Rightarrow> Bundle" where
  "bundleFromState s =
     \<lparr> bn_Replicas = sys_Replicas s, bn_QueueLimit = f64_of_int (sys_QueueLimit s),
       bn_RetryLimit = sys_RetryLimit s, bn_CacheAggression = sys_CacheAggression s,
       bn_HeuristicScore = 0 \<rparr>"

lemma maxInt_max [simp]: "maxInt a b = max a b"
  by (simp add: maxInt_def)

lemma clampInt_bounds: "lo \<le> hi \<Longrightarrow> lo \<le> clampInt v lo hi \<and> clampInt v lo hi \<le> hi"
  by (simp add: clampInt_def)

end
