(* ===== verification/ControlMemory.thy ===== *)
theory ControlMemory
  imports ControlTypes "HOL-Library.Multiset"
begin

text \<open>
  \<open>internal/control/regime_memory.go\<close> and the memory operations of \<open>compat.go\<close>: the
  exponentially weighted state of one service, its regime with hysteresis, and the
  quantities derived from it.
\<close>

datatype ControlRegime = RegimeCalm | RegimeStressed | RegimeUnstable

record RegimeMemory =
  rm_LastAction :: Bundle
  rm_UtilEWMA :: f64
  rm_RiskEWMA :: f64
  rm_LatencyRatioEWMA :: f64
  rm_utilRawHistory :: "f64 list"
  rm_riskHistory :: "f64 list"
  rm_Regime :: ControlRegime
  rm_StabilityAge :: int
  rm_LastCost :: f64
  rm_CostTrendEWMA :: f64
  rm_OscillationEWMA :: f64

record RegimeConfig =
  rc_EWMAAlpha :: f64
  rc_HistorySize :: int
  rc_BaseUtilStress :: f64
  rc_BaseRiskUnstable :: f64
  rc_HysteresisMargin :: f64

definition NewRegimeMemory :: RegimeMemory where
  "NewRegimeMemory =
     \<lparr> rm_LastAction = zero_bundle, rm_UtilEWMA = 0, rm_RiskEWMA = 0, rm_LatencyRatioEWMA = 0,
       rm_utilRawHistory = [], rm_riskHistory = [], rm_Regime = RegimeCalm, rm_StabilityAge = 0,
       rm_LastCost = 0, rm_CostTrendEWMA = 0, rm_OscillationEWMA = 0 \<rparr>"

definition defaultRegimeConfig :: RegimeConfig where
  "defaultRegimeConfig = \<lparr> rc_EWMAAlpha = fl 0.20, rc_HistorySize = 64, rc_BaseUtilStress = fl 0.70,
     rc_BaseRiskUnstable = fl 0.60, rc_HysteresisMargin = fl 0.05 \<rparr>"

section \<open>Percentiles\<close>

text \<open>The inner loop moves the new element left while it is smaller than its neighbour.\<close>

fun sift :: "f64 \<Rightarrow> f64 list \<Rightarrow> f64 list" where
  \<comment> \<open>on the reversed prefix\<close>
  "sift x [] = [x]"
| "sift x (y # ys) = (if x < y then y # sift x ys else x # y # ys)"

definition insertion_sort :: "f64 list \<Rightarrow> f64 list" where
  "insertion_sort v = rev (fold sift v [])"

definition percentile :: "f64 list \<Rightarrow> f64 \<Rightarrow> f64" where
  "percentile v p =
    (if v = [] then 0
     else let tmp = insertion_sort v;
              idx = int_of_f64 (p * f64_of_int (int (length tmp) - 1))
          in tmp ! nat idx)"

section \<open>The update\<close>

definition ewma :: "f64 \<Rightarrow> f64 \<Rightarrow> f64 \<Rightarrow> f64" where
  "ewma alpha x old = alpha * x + (1 - alpha) * old"

definition push_history :: "int \<Rightarrow> f64 \<Rightarrow> f64 list \<Rightarrow> f64 list" where
  \<comment> \<open>append, then drop the first when longer than \<open>HistorySize\<close>\<close>
  "push_history sz x h = (let h = h @ [x] in if sz < int (length h) then tl h else h)"

definition next_regime :: "RegimeConfig \<Rightarrow> f64 \<Rightarrow> f64 \<Rightarrow> RegimeMemory \<Rightarrow> ControlRegime" where
  "next_regime cfg utilThresh riskThresh r =
    (case rm_Regime r of
       RegimeCalm \<Rightarrow>
         if riskThresh < rm_RiskEWMA r then RegimeUnstable
         else if utilThresh < rm_UtilEWMA r \<or> fl 1.1 < rm_LatencyRatioEWMA r then RegimeStressed
         else RegimeCalm
     | RegimeStressed \<Rightarrow>
         if riskThresh + rc_HysteresisMargin cfg < rm_RiskEWMA r then RegimeUnstable
         else if rm_UtilEWMA r < utilThresh - rc_HysteresisMargin cfg \<and>
                 rm_LatencyRatioEWMA r < fl 1.05 then RegimeCalm
         else RegimeStressed
     | RegimeUnstable \<Rightarrow>
         if rm_RiskEWMA r < riskThresh - rc_HysteresisMargin cfg then RegimeStressed
         else RegimeUnstable)"

definition Update :: "SystemState \<Rightarrow> f64 \<Rightarrow> f64 \<Rightarrow> RegimeConfig \<Rightarrow> RegimeMemory \<Rightarrow> RegimeMemory" where
  "Update s sla cost cfg r =
    (let alpha = rc_EWMAAlpha cfg;
         r = r\<lparr> rm_UtilEWMA := ewma alpha (sys_Utilisation s) (rm_UtilEWMA r),
               rm_RiskEWMA := ewma alpha (sys_Risk s) (rm_RiskEWMA r),
               rm_LatencyRatioEWMA := ewma alpha (sys_Latency s / sla) (rm_LatencyRatioEWMA r) \<rparr>;
         r = r\<lparr> rm_utilRawHistory := push_history (rc_HistorySize cfg) (sys_Utilisation s) (rm_utilRawHistory r),
               rm_riskHistory := push_history (rc_HistorySize cfg) (rm_RiskEWMA r) (rm_riskHistory r) \<rparr>;
         utilThresh = math_Max (rc_BaseUtilStress cfg) (percentile (rm_utilRawHistory r) (fl 0.7));
         riskThresh = math_Max (rc_BaseRiskUnstable cfg) (percentile (rm_riskHistory r) (fl 0.8));
         prev = rm_Regime r;
         r = r\<lparr> rm_Regime := next_regime cfg utilThresh riskThresh r \<rparr>;
         r = r\<lparr> rm_StabilityAge := (if prev = rm_Regime r then rm_StabilityAge r + 1 else 0) \<rparr>;
         delta = cost - rm_LastCost r;
         r = (if 0 < rm_LastCost r \<and> fl 0.02 * rm_LastCost r < \<bar>delta\<bar>
              then r\<lparr> rm_CostTrendEWMA := ewma alpha delta (rm_CostTrendEWMA r) \<rparr> else r)
     in r\<lparr> rm_LastCost := cost \<rparr>)"

definition UpdateCostTrend :: "f64 \<Rightarrow> RegimeMemory \<Rightarrow> RegimeMemory" where
  "UpdateCostTrend delta r =
     r\<lparr> rm_CostTrendEWMA := fl 0.8 * rm_CostTrendEWMA r + fl 0.2 * delta \<rparr>"

definition RecordAction :: "Bundle \<Rightarrow> RegimeMemory \<Rightarrow> RegimeMemory" where
  "RecordAction next r =
    (let la = rm_LastAction r;
         dist = \<bar>f64_of_int (bn_Replicas next - bn_Replicas la)\<bar> +
           fl 0.2 * \<bar>bn_QueueLimit next - bn_QueueLimit la\<bar> +
           fl 0.5 * \<bar>f64_of_int (bn_RetryLimit next - bn_RetryLimit la)\<bar> +
           \<bar>bn_CacheAggression next - bn_CacheAggression la\<bar>
     in r\<lparr> rm_OscillationEWMA := fl 0.85 * rm_OscillationEWMA r + fl 0.15 * dist,
          rm_LastAction := next \<rparr>)"

section \<open>Derived quantities\<close>

definition ExplorationProb :: "RegimeMemory \<Rightarrow> f64" where
  "ExplorationProb r =
    (let base = fl 0.02 + fl 0.22 * rm_RiskEWMA r;
         base = (if rm_Regime r = RegimeCalm \<and> 10 < rm_StabilityAge r then base * fl 0.5 else base);
         base = (if rm_Regime r = RegimeUnstable \<and> 5 < rm_StabilityAge r then base * fl 1.4 else base);
         base = (if 0 < rm_CostTrendEWMA r then base + fl 0.05 else base)
     in f64_clamp base (fl 0.01) (fl 0.40))"

definition ScenarioBudget :: "RegimeMemory \<Rightarrow> int" where
  "ScenarioBudget r =
    (let x = rm_RiskEWMA r; v = fl 2 + fl 6 / (1 + math_Exp (fl (- 6) * (x - fl 0.5)))
     in int_of_f64 (f64_clamp v (fl 2) (fl 8)))"

definition ReplicaRadius :: "RegimeMemory \<Rightarrow> int" where
  "ReplicaRadius r = int_of_f64 (f64_clamp (1 + fl 4 * rm_RiskEWMA r) 1 (fl 5))"

definition QueueRadius :: "RegimeMemory \<Rightarrow> int" where
  "QueueRadius r = int_of_f64 (f64_clamp (1 + fl 3 * rm_UtilEWMA r) 1 (fl 6))"

definition RetryRadius :: "RegimeMemory \<Rightarrow> int" where
  "RetryRadius r = int_of_f64 (f64_clamp (1 + fl 2 * rm_RiskEWMA r) 1 (fl 3))"

definition CacheRadius :: "RegimeMemory \<Rightarrow> f64" where
  "CacheRadius r = f64_clamp (fl 0.1 + fl 0.5 * rm_UtilEWMA r) (fl 0.1) (fl 0.6)"

fun dampingFactor :: "ControlRegime \<Rightarrow> f64" where
  "dampingFactor RegimeCalm = fl 0.5"
| "dampingFactor RegimeStressed = fl 0.8"
| "dampingFactor RegimeUnstable = fl 1.1"

definition ApplyDamping :: "Bundle \<Rightarrow> Bundle \<Rightarrow> ActionBounds \<Rightarrow> RegimeMemory \<Rightarrow> Bundle" where
  "ApplyDamping current next bounds r =
    (let f = dampingFactor (rm_Regime r);
         rep = int_of_f64 (f64_of_int (bn_Replicas current) +
                 f * f64_of_int (bn_Replicas next - bn_Replicas current));
         queue = bn_QueueLimit current + f * (bn_QueueLimit next - bn_QueueLimit current);
         retry = int_of_f64 (f64_of_int (bn_RetryLimit current) +
                 f * f64_of_int (bn_RetryLimit next - bn_RetryLimit current));
         cache = bn_CacheAggression current + f * (bn_CacheAggression next - bn_CacheAggression current)
     in \<lparr> bn_Replicas = int_of_f64 (f64_clamp (f64_of_int rep) (f64_of_int (ab_MinReplicas bounds))
                          (f64_of_int (ab_MaxReplicas bounds))),
          bn_QueueLimit = f64_clamp queue (f64_of_int (ab_MinQueue bounds)) (f64_of_int (ab_MaxQueue bounds)),
          bn_RetryLimit = int_of_f64 (f64_clamp (f64_of_int retry) (f64_of_int (ab_MinRetry bounds))
                          (f64_of_int (ab_MaxRetry bounds))),
          bn_CacheAggression = f64_clamp cache (ab_MinCache bounds) (ab_MaxCache bounds),
          bn_HeuristicScore = 0 \<rparr>)"

section \<open>The sort and the percentile\<close>

lemma sift_mset [simp]: "mset (sift x ys) = add_mset x (mset ys)"
  by (induction ys) auto

lemma set_sift [simp]: "set (sift x ys) = insert x (set ys)"
  by (metis sift_mset set_mset_add_mset_insert set_mset_mset)

lemma fold_sift_mset: "mset (fold sift v acc) = mset v + mset acc"
  by (induction v arbitrary: acc) auto

lemma insertion_sort_mset [simp]: "mset (insertion_sort v) = mset v"
  by (simp add: insertion_sort_def fold_sift_mset)

lemma insertion_sort_length [simp]: "length (insertion_sort v) = length v"
  by (metis insertion_sort_mset size_mset)

lemma sift_desc:
  assumes "sorted_wrt (\<lambda>a b. b \<le> a) ys" "x \<noteq> NaN" "NaN \<notin> set ys"
  shows "sorted_wrt (\<lambda>a b. b \<le> a) (sift x ys)"
  using assms
proof (induction ys)
  case (Cons y ys)
  show ?case
  proof (cases "x < y")
    case True
    then show ?thesis using Cons by (auto intro: less_imp_le64)
  next
    case False
    then have "y \<le> x" using Cons.prems not_less64 [of x y] by auto
    then show ?thesis using False Cons.prems by (auto intro: le_trans64)
  qed
qed simp

lemma fold_sift_desc:
  "sorted_wrt (\<lambda>a b. b \<le> a) acc \<Longrightarrow> NaN \<notin> set v \<Longrightarrow> NaN \<notin> set acc \<Longrightarrow>
     sorted_wrt (\<lambda>a b. b \<le> a) (fold sift v acc)"
proof (induction v arbitrary: acc)
  case (Cons x v)
  show ?case using Cons.IH [of "sift x acc"] Cons.prems sift_desc [of acc x] by auto
qed simp

lemma insertion_sort_sorted:
  "NaN \<notin> set v \<Longrightarrow> sorted_wrt (\<lambda>a b. a \<le> b) (insertion_sort v)"
  using fold_sift_desc [of "[]" v] by (simp add: insertion_sort_def sorted_wrt_rev)

lemma percentile_index:
  assumes "v \<noteq> []" "length v \<le> 2 ^ 53" "fbtw 0 p 1"
  shows "nat (int_of_f64 (p * f64_of_int (int (length v) - 1))) < length v"
proof -
  let ?n = "int (length v) - 1"
  have n: "0 \<le> ?n" "\<bar>?n\<bar> \<le> 2 ^ 53" using assms(1,2) by (cases v; simp)+
  have one: "1 \<le> length v" using assms(1) by (cases v) auto
  have "fbtw 0 (p * f64_of_int ?n) (of_int ?n)"
    using n one assms(3) fbound_of_int [OF n(2)]
    by (intro fbtw_mult [where a = 0 and b = 1 and c = "of_int ?n" and d = "of_int ?n"])
      (simp_all add: f64_of_int_small)
  then have "int_of_f64 (p * f64_of_int ?n) \<le> ?n"
    using int_of_f64_btw [of 0 "p * f64_of_int ?n" ?n] n by (simp add: maxI64_def)
  then show ?thesis using assms(1) by (cases v) auto
qed

lemma percentile_set:
  assumes "v \<noteq> []" "length v \<le> 2 ^ 53" "fbtw 0 p 1" shows "percentile v p \<in> set v"
  using nth_mem [of _ "insertion_sort v"] percentile_index [OF assms] assms(1)
  by (simp add: percentile_def Let_def flip: set_mset_mset)

lemma sorted_rank:
  assumes "sorted_wrt (\<lambda>a b. a \<le> b) xs" "i < length xs" "NaN \<notin> set xs"
  shows "i < length (filter (\<lambda>x. x \<le> xs ! i) xs)" "length xs - i \<le> length (filter (\<lambda>x. xs ! i \<le> x) xs)"
proof -
  have self: "xs ! i \<le> xs ! i" using assms(3) nth_mem [OF assms(2)] by (intro le_refl64) metis
  have "take (Suc i) xs = filter (\<lambda>x. x \<le> xs ! i) (take (Suc i) xs)"
    using assms(1,2) self by (auto simp: in_set_conv_nth less_Suc_eq sorted_wrt_iff_nth_less
      intro!: filter_True [symmetric])
  moreover have "length (filter P xs) = length (filter P (take k xs)) + length (filter P (drop k xs))" for P k
    by (metis append_take_drop_id filter_append length_append)
  ultimately show "i < length (filter (\<lambda>x. x \<le> xs ! i) xs)"
    using assms(2) by (metis Suc_le_eq le_add1 length_take min.absorb2)
  have "drop i xs = filter (\<lambda>x. xs ! i \<le> x) (drop i xs)"
  proof (rule filter_True [symmetric], rule ballI)
    fix x assume "x \<in> set (drop i xs)"
    then obtain k where k: "k < length xs - i" "x = xs ! (i + k)" by (auto simp: in_set_conv_nth)
    then show "xs ! i \<le> x"
      using assms(1) self by (cases k) (auto simp: sorted_wrt_iff_nth_less)
  qed
  then show "length xs - i \<le> length (filter (\<lambda>x. xs ! i \<le> x) xs)"
    by (metis \<open>\<And>P k. length (filter P xs) = length (filter P (take k xs)) + length (filter P (drop k xs))\<close>
        le_add2 length_drop)
qed

text \<open>
  The percentile of a window without NaN is an element of the window at the
  requested rank: with \<open>i\<close> the truncation of the rounded product \<open>p * (n - 1)\<close>, more
  than \<open>i\<close> values are below or equal to it and at least \<open>n - i\<close> are above or equal.
  The index is always inside the window.
\<close>

theorem percentile_rank:
  assumes "v \<noteq> []" "length v \<le> 2 ^ 53" "fbtw 0 p 1" "NaN \<notin> set v"
  defines "i \<equiv> nat (int_of_f64 (p * f64_of_int (int (length v) - 1)))"
  shows "percentile v p \<in> set v \<and> i < length v \<and>
    i < length (filter (\<lambda>x. x \<le> percentile v p) v) \<and>
    length v - i \<le> length (filter (\<lambda>x. percentile v p \<le> x) v)"
proof -
  let ?s = "insertion_sort v"
  have i: "i < length v" unfolding i_def by (rule percentile_index [OF assms(1-3)])
  have p: "percentile v p = ?s ! i" using assms(1) by (simp add: percentile_def i_def)
  have set: "set ?s = set v" by (metis insertion_sort_mset mset_eq_setD)
  have len: "length (filter P ?s) = length (filter P v)" for P
    by (metis insertion_sort_mset mset_filter size_mset)
  show ?thesis
    using sorted_rank [of ?s i] insertion_sort_sorted [OF assms(4)] i set assms(4)
      percentile_set [OF assms(1-3)] by (simp add: p len)
qed

lemma percentile_rank_witness:
  "percentile [Fin 3, Fin 1, Fin 2] (Fin (1/2)) = Fin 2 \<and>
   2 - 1 < length (filter (\<lambda>x. x \<le> percentile [Fin 3, Fin 1, Fin 2] (Fin (1/2))) [Fin 3, Fin 1, Fin 2 :: f64])"
proof -
  have i: "nat (int_of_f64 (Fin (1/2) * f64_of_int (int (length [Fin 3, Fin 1, Fin 2 :: f64]) - 1))) = 1"
    by (simp add: trunc_real_def minI64_def maxI64_def)
  have "percentile [Fin 3, Fin 1, Fin 2] (Fin (1/2)) = Fin 2"
    using i by (simp add: percentile_def insertion_sort_def)
  moreover note percentile_rank [of "[Fin 3, Fin 1, Fin 2]" "Fin (1/2)"]
  ultimately show ?thesis using i by simp
qed

section \<open>The smoothed state stays in range\<close>

definition mem_ok :: "RegimeMemory \<Rightarrow> bool" where
  "mem_ok r \<longleftrightarrow> fbtw 0 (rm_RiskEWMA r) 1 \<and> length (rm_utilRawHistory r) \<le> 64 \<and>
     length (rm_riskHistory r) \<le> 64"

lemma Update_RiskEWMA [simp]:
  "rm_RiskEWMA (Update s sla cost cfg r) = ewma (rc_EWMAAlpha cfg) (sys_Risk s) (rm_RiskEWMA r)"
  by (simp add: Update_def Let_def)

lemma Update_histories [simp]:
  "rm_utilRawHistory (Update s sla cost cfg r) =
     push_history (rc_HistorySize cfg) (sys_Utilisation s) (rm_utilRawHistory r)"
  "rm_riskHistory (Update s sla cost cfg r) =
     push_history (rc_HistorySize cfg) (ewma (rc_EWMAAlpha cfg) (sys_Risk s) (rm_RiskEWMA r)) (rm_riskHistory r)"
  by (simp_all add: Update_def Let_def)

lemma push_history_length: "length h \<le> nat sz \<Longrightarrow> length (push_history sz x h) \<le> nat sz"
  by (auto simp: push_history_def Let_def)

lemma ewma_btw:
  "fbtw 0 a 1 \<Longrightarrow> fbtw 0 x 1 \<Longrightarrow> fbtw 0 old 1 \<Longrightarrow> fbtw 0 (ewma a x old) 1"
  unfolding ewma_def by (rule convex_btw)

lemma NewRegimeMemory_ok [simp]: "mem_ok NewRegimeMemory"
  by (simp add: mem_ok_def NewRegimeMemory_def zero_f64_def)

lemma Update_ok:
  assumes "mem_ok r" "fbtw 0 (sys_Risk s) 1" shows "mem_ok (Update s sla cost defaultRegimeConfig r)"
proof -
  have "fbtw 0 (fl 0.20) 1" by (rule fbtw_fl) simp_all
  then show ?thesis
    using assms push_history_length [of _ 64]
    by (simp add: mem_ok_def defaultRegimeConfig_def ewma_btw)
qed

lemma RecordAction_ok [simp]: "mem_ok (RecordAction b r) \<longleftrightarrow> mem_ok r"
  by (simp add: RecordAction_def mem_ok_def Let_def)

lemma UpdateCostTrend_ok [simp]: "mem_ok (UpdateCostTrend d r) \<longleftrightarrow> mem_ok r"
  by (simp add: UpdateCostTrend_def mem_ok_def)

lemma risk_radius:
  assumes "fbtw 0 x 1" "c = Fin (of_int k)" "d = Fin (of_int (1 + k))" "0 \<le> k" "1 + k \<le> 2 ^ 53"
  shows "1 \<le> int_of_f64 (f64_clamp (1 + c * x) 1 d) \<and> int_of_f64 (f64_clamp (1 + c * x) 1 d) \<le> 1 + k"
proof -
  have fb: "fbound (of_int k)" "fbound (1 + of_int k)"
    using fbound_of_int [of k] fbound_of_int [of "1 + k"] assms by simp_all
  have "fbtw 0 (c * x) (of_int k)"
    using assms fb by (intro fbtw_mult [where a = "of_int k" and b = "of_int k" and c = 0 and d = 1]) simp_all
  then have "fbtw 1 (1 + c * x) (1 + of_int k)"
    using fb by (intro fbtw_add [where a = 1 and b = 1 and c = 0 and d = "of_int k"]) (simp_all add: one_f64_def)
  then have "fbtw (of_int 1) (f64_clamp (1 + c * x) 1 d) (of_int (1 + k))"
    using f64_clamp_btw [of "1 + c * x" 1 "of_int (1 + k)"] assms(3,4)
    by (auto simp: one_f64_def dest: fbtw_not_NaN)
  then show ?thesis
    by (rule int_of_f64_btw) (use assms in \<open>simp_all add: maxI64_def\<close>)
qed

lemma ReplicaRadius_range: "mem_ok r \<Longrightarrow> 1 \<le> ReplicaRadius r \<and> ReplicaRadius r \<le> 5"
  using risk_radius [of "rm_RiskEWMA r" "fl 4" 4 "fl 5"] unfolding ReplicaRadius_def mem_ok_def by simp

lemma RetryRadius_range: "mem_ok r \<Longrightarrow> 1 \<le> RetryRadius r \<and> RetryRadius r \<le> 3"
  using risk_radius [of "rm_RiskEWMA r" "fl 2" 2 "fl 3"] unfolding RetryRadius_def mem_ok_def by simp

lemma ScenarioBudget_range:
  assumes "mem_ok r" shows "2 \<le> ScenarioBudget r \<and> ScenarioBudget r \<le> 8"
proof -
  obtain x where x: "rm_RiskEWMA r = Fin x" "0 \<le> x" "x \<le> 1"
    using assms by (auto simp: mem_ok_def elim: fbtwE)
  have "fbtw (- 1) (Fin x - fl 0.5) 1"
    using x by (intro fbtw_diff [where a = 0 and b = 1 and c = 0 and d = 1] fbtw_fl) auto
  then obtain d where d: "Fin x - fl 0.5 = Fin d" by (rule fbtwE)
  have "fl (- 6) = Fin (- 6)" by (simp add: fl_minus)
  then have "f_nonneg (math_Exp (fl (- 6) * (Fin x - fl 0.5)))"
    unfolding d by (intro f_nonneg_Exp) simp
  then have "f_nonneg (Fin 6 / (1 + math_Exp (fl (- 6) * (Fin x - fl 0.5))))"
    by (intro f_nonneg_recip f_nonneg_add) auto
  then have "f_nonneg (Fin 2 + Fin 6 / (1 + math_Exp (fl (- 6) * (Fin x - fl 0.5))))"
    by (intro f_nonneg_add) auto
  then have "fbtw (of_int 2) (f64_clamp (Fin 2 + Fin 6 / (1 + math_Exp (fl (- 6) * (Fin x - fl 0.5)))) (Fin 2) (Fin 8)) (of_int 8)"
    using f64_clamp_btw [of _ 2 8] f_nonneg_not_NaN by simp
  then show ?thesis
    using int_of_f64_btw [of 2 _ 8] by (simp add: ScenarioBudget_def x(1) maxI64_def)
qed

lemma fl_const_btw: "0 \<le> c \<Longrightarrow> c \<le> 1 \<Longrightarrow> fbtw 0 (fl c) 1"
  by (rule fbtw_fl) auto

lemma ExplorationProb_range:
  assumes "mem_ok r" shows "fl 0.01 \<le> ExplorationProb r \<and> ExplorationProb r \<le> fl 0.40"
proof -
  have r: "fbtw 0 (rm_RiskEWMA r) 1" using assms by (simp add: mem_ok_def)
  have 0: "fbtw 0 (fl 0.02 + fl 0.22 * rm_RiskEWMA r) 2"
    using r fl_const_btw [of "0.02"] fl_const_btw [of "0.22"]
    by (intro fbtw_add [where a = 0 and b = 1 and c = 0 and d = 1]
        fbtw_mult [where a = 0 and b = 1 and c = 0 and d = 1]) auto
  have 1: "fbtw 0 (y * fl 0.5) 2" if "fbtw 0 y 2" for y
    using that fl_const_btw [of "0.5"] by (intro fbtw_mult [where a = 0 and b = 2 and c = 0 and d = 1]) auto
  have "fbtw 0 (fl 1.4) 2" by (rule fbtw_fl) auto
  then have 2: "fbtw 0 (y * fl 1.4) 4" if "fbtw 0 y 2" for y
    using that by (intro fbtw_mult [where a = 0 and b = 2 and c = 0 and d = 2]) auto
  have 3: "fbtw 0 (y + fl 0.05) 5" if "fbtw 0 y 4" for y
    using that fl_const_btw [of "0.05"] by (intro fbtw_add [where a = 0 and b = 4 and c = 0 and d = 1]) auto
  have w: "fbtw 0 y 4" if "fbtw 0 y 2" for y using that by (rule fbtw_weaken) auto
  define b0 where "b0 = fl 0.02 + fl 0.22 * rm_RiskEWMA r"
  define b1 where "b1 = (if rm_Regime r = RegimeCalm \<and> 10 < rm_StabilityAge r then b0 * fl 0.5 else b0)"
  define b2 where "b2 = (if rm_Regime r = RegimeUnstable \<and> 5 < rm_StabilityAge r then b1 * fl 1.4 else b1)"
  have "fbtw 0 b1 2" using 0 1 by (simp add: b1_def b0_def)
  then have "fbtw 0 b2 4" using 2 w by (simp add: b2_def)
  then have "(if 0 < rm_CostTrendEWMA r then b2 + fl 0.05 else b2) \<noteq> NaN"
    using 3 [THEN fbtw_not_NaN] by (auto dest: fbtw_not_NaN)
  then show ?thesis
    unfolding ExplorationProb_def Let_def b0_def [symmetric] b1_def [symmetric] b2_def [symmetric]
    by (intro f64_clamp_le) (auto intro: fl_mono)
qed

text \<open>
  However the control loop is driven (any utilisation, latency, SLA, cost, NaN
  included), as long as each risk is in the unit interval the smoothed risk of a
  service stays in the unit interval, both histories stay within the configured 64
  entries, and the quantities derived from them stay in their ranges.
\<close>

theorem memory_bounded:
  assumes "\<forall>u \<in> set us. fbtw 0 (sys_Risk (fst u)) 1"
  defines "r \<equiv> fold (\<lambda>(s, sla, cost). Update s sla cost defaultRegimeConfig) us NewRegimeMemory"
  shows "fbtw 0 (rm_RiskEWMA r) 1 \<and> length (rm_utilRawHistory r) \<le> 64 \<and> length (rm_riskHistory r) \<le> 64 \<and>
    ReplicaRadius r \<in> {1..5} \<and> RetryRadius r \<in> {1..3} \<and> ScenarioBudget r \<in> {2..8} \<and>
    fl 0.01 \<le> ExplorationProb r \<and> ExplorationProb r \<le> fl 0.40"
proof -
  have "mem_ok (fold (\<lambda>(s, sla, cost). Update s sla cost defaultRegimeConfig) us m)" if "mem_ok m" for m
    using assms(1) that
  proof (induction us arbitrary: m)
    case (Cons u us)
    obtain s sla cost where u: "u = (s, sla, cost)" by (cases u)
    then have "mem_ok (Update s sla cost defaultRegimeConfig m)"
      using Cons.prems by (intro Update_ok) auto
    then show ?case using Cons u by simp
  qed simp
  then have "mem_ok r" by (simp add: r_def)
  then show ?thesis
    using ReplicaRadius_range [of r] RetryRadius_range [of r] ScenarioBudget_range [of r] ExplorationProb_range [of r]
    by (simp add: mem_ok_def)
qed

lemma memory_bounded_witness:
  "fbtw 0 (rm_RiskEWMA (Update (zero_state\<lparr> sys_Risk := 1, sys_Utilisation := NaN \<rparr>) 0 NaN defaultRegimeConfig NewRegimeMemory)) 1"
  using memory_bounded [of "[(zero_state\<lparr> sys_Risk := 1, sys_Utilisation := NaN \<rparr>, 0, NaN)]"]
  by (simp add: one_f64_def)

end
