(* ===== verification/ControlSim.thy ===== *)
theory ControlSim
  imports ControlMemory
begin

text \<open>
  \<open>internal/control/joint_simulator.go\<close> and \<open>horizon_cost.go\<close>: the simulation of a
  candidate bundle over the horizon and the cost of its trajectory.  The local variables
  that live through the loop of \<open>SimulateBundle\<close> are a record, one round is \<open>sim_step\<close>.
\<close>

record Trajectory =
  tj_FinalBacklog :: f64
  tj_PeakLatency :: f64
  tj_CollapseRisk :: f64
  tj_SLAIntegral :: f64

record sim_vars =
  sv_backlog :: f64
  sv_latency :: f64
  sv_replicas :: f64
  sv_retryIntensity :: f64
  sv_warmState :: f64
  sv_survival :: f64
  sv_peakLatency :: f64
  sv_slaArea :: f64

definition bound_below :: "f64 \<Rightarrow> f64 \<Rightarrow> f64" where
  \<comment> \<open>\<open>if x < lo { x = lo }\<close>\<close>
  "bound_below lo x = (if x < lo then lo else x)"

definition bound_above :: "f64 \<Rightarrow> f64 \<Rightarrow> f64" where
  \<comment> \<open>\<open>if x > hi { x = hi }\<close>\<close>
  "bound_above hi x = (if hi < x then hi else x)"

definition sim_mult :: "SimConfig \<Rightarrow> nat \<Rightarrow> f64" where
  \<comment> \<open>the bounded disturbance of step \<open>t\<close>\<close>
  "sim_mult cfg t =
    (let disturb = sc_DisturbanceStd cfg * math_Sin (f64_of_int (int t) * sc_DisturbanceFreq cfg);
         disturb = bound_above (fl 1.2) (bound_below (fl (- 0.7)) disturb)
     in bound_above (fl 3) (bound_below (fl 0.2) (1 + disturb)))"

definition sim_step :: "SystemState \<Rightarrow> Bundle \<Rightarrow> SimConfig \<Rightarrow> nat \<Rightarrow> sim_vars \<Rightarrow> sim_vars" where
  "sim_step initial b cfg t v =
    (let baseArrival = sys_PredictedArrival initial * sim_mult cfg t;
         retrySat = math_Tanh (sv_retryIntensity v * fl 0.4);
         arrival = baseArrival * (1 + sc_RetryFeedbackGain cfg * retrySat);
         cacheDelta = bn_CacheAggression b - sys_CacheAggression initial;
         arrival = arrival * math_Exp (fl (- 0.9) * cacheDelta);
         drop = 1 / (1 + math_Exp (fl (- 0.05) * (sv_backlog v - bn_QueueLimit b)));
         effectiveArrival = arrival * (1 - drop);
         rampError = f64_of_int (bn_Replicas b) - sv_replicas v;
         warm = sv_warmState v + sc_Dt cfg * sc_WarmupRate cfg * rampError * (1 - \<bar>sv_warmState v\<bar>);
         warm = bound_below (- 1) (bound_above 1 warm);
         replicas = bound_below 1 (sv_replicas v + sc_Dt cfg * warm * fl 0.6);
         eff = 1 / (1 + sc_EfficiencyDecay cfg * math_Log (1 + replicas));
         service = replicas * sys_ServiceRate initial * eff;
         util = effectiveArrival / math_Max service (fl 0.01);
         backlog = bound_below 0 (sv_backlog v + sc_Dt cfg * (effectiveArrival - service));
         queueDelay = bound_above (sc_MaxQueueDelay cfg) (backlog / math_Max service 1);
         utilPressure = util / (1 + util);
         latency = bound_below (sc_BaseLatency cfg)
           (sv_latency v + sc_Dt cfg * (fl 0.7 * utilPressure + fl 0.5 * queueDelay -
              fl 0.9 * (sv_latency v - sc_BaseLatency cfg)));
         peak = (if sv_peakLatency v < latency then latency else sv_peakLatency v);
         retry = bound_above (fl 10) (bound_below 0
           (sv_retryIntensity v + sc_Dt cfg * (fl 0.4 * (latency / sys_SLATarget initial) -
              fl 0.5 * sv_retryIntensity v + fl 0.3 * drop)));
         utilHaz = sc_HazardUtilGain cfg * (util / (1 + util));
         backlogHaz = sc_HazardBacklogGain cfg * math_Tanh (backlog / (bn_QueueLimit b + 1));
         retryHaz = sc_HazardRetryGain cfg * math_Tanh (retry * fl 0.5);
         hazard = utilHaz + backlogHaz + retryHaz;
         survival = sv_survival v * math_Exp (- hazard * sc_Dt cfg);
         sla = (if sys_SLATarget initial < latency
                then sv_slaArea v + (latency - sys_SLATarget initial) * sc_Dt cfg else sv_slaArea v)
     in \<lparr> sv_backlog = backlog, sv_latency = latency, sv_replicas = replicas,
          sv_retryIntensity = retry, sv_warmState = warm, sv_survival = survival,
          sv_peakLatency = peak, sv_slaArea = sla \<rparr>)"

definition sim_init :: "SystemState \<Rightarrow> SimConfig \<Rightarrow> sim_vars" where
  "sim_init initial cfg =
    (let latency = math_Max (sys_Latency initial) (sc_BaseLatency cfg) in
     \<lparr> sv_backlog = sys_QueueDepth initial, sv_latency = latency,
       sv_replicas = f64_of_int (sys_Replicas initial),
       sv_retryIntensity = f64_of_int (sys_RetryLimit initial), sv_warmState = 0, sv_survival = 1,
       sv_peakLatency = latency, sv_slaArea = 0 \<rparr>)"

definition SimulateBundle :: "SystemState \<Rightarrow> Bundle \<Rightarrow> SimConfig \<Rightarrow> Trajectory" where
  "SimulateBundle initial b cfg =
    (let v = fold (sim_step initial b cfg) [0..<nat (sc_HorizonSteps cfg)] (sim_init initial cfg) in
     \<lparr> tj_FinalBacklog = sv_backlog v, tj_PeakLatency = sv_peakLatency v,
       tj_CollapseRisk = 1 - sv_survival v, tj_SLAIntegral = sv_slaArea v \<rparr>)"

section \<open>The cost of a trajectory\<close>

record CostParams =
  cp_InfraUnitCost :: f64
  cp_SLAWeight :: f64
  cp_RiskWeight :: f64
  cp_BacklogWeight :: f64
  cp_UtilTarget :: f64
  cp_UtilBand :: f64
  cp_SmoothReplica :: f64
  cp_SmoothRetry :: f64
  cp_SmoothQueue :: f64
  cp_SmoothCache :: f64
  cp_CacheCostWeight :: f64

definition risk_cost :: "Bundle \<Rightarrow> Trajectory \<Rightarrow> CostParams \<Rightarrow> RegimeMemory option \<Rightarrow> f64" where
  "risk_cost b traj p mem =
    (let riskExponent = (case mem of None \<Rightarrow> fl 1.3 | Some m \<Rightarrow> fl 1.2 + fl 0.8 * rm_RiskEWMA m);
         riskSignal = tj_CollapseRisk traj +
           fl 0.3 * math_Min 1 (tj_FinalBacklog traj / (bn_QueueLimit b + 1))
     in cp_RiskWeight p * math_Pow riskSignal riskExponent)"

definition backlog_cost :: "SystemState \<Rightarrow> Bundle \<Rightarrow> Trajectory \<Rightarrow> CostParams \<Rightarrow> f64" where
  "backlog_cost initial b traj p =
    (let queuePressure = tj_FinalBacklog traj / (bn_QueueLimit b + 1);
         c = cp_BacklogWeight p * math_Pow queuePressure (fl 1.8);
         c = (if bn_QueueLimit b * fl 1.5 < tj_FinalBacklog traj then c * fl 1.5 else c)
     in if sys_SLATarget initial < tj_PeakLatency traj then c * fl 1.8 else c)"

definition util_cost :: "SystemState \<Rightarrow> Bundle \<Rightarrow> CostParams \<Rightarrow> f64" where
  "util_cost initial b p =
    (let avgUtil = sys_PredictedArrival initial /
           math_Max (f64_of_int (bn_Replicas b) * sys_ServiceRate initial) (fl 0.001);
         tgt = cp_UtilTarget p;
         c = 0;
         c = (if avgUtil < tgt then c + fl 0.5 * (tgt - avgUtil) else c);
         c = (if tgt < avgUtil then c + fl 2 * (avgUtil - tgt) * (avgUtil - tgt) else c)
     in if tgt + fl 0.3 < avgUtil
        then c + fl 5 * (avgUtil - (tgt + fl 0.3)) * (avgUtil - (tgt + fl 0.3)) else c)"

definition EvaluateHorizonCost ::
  "SystemState \<Rightarrow> Bundle \<Rightarrow> Trajectory \<Rightarrow> SimConfig \<Rightarrow> CostParams \<Rightarrow> RegimeMemory option \<Rightarrow> f64" where
  "EvaluateHorizonCost initial b traj cfg p mem =
    (let horizonTime = f64_of_int (sc_HorizonSteps cfg) * sc_Dt cfg;
         infraCost = cp_InfraUnitCost p * math_Sqrt (f64_of_int (bn_Replicas b));
         slaCost = cp_SLAWeight p * tj_SLAIntegral traj;
         riskCost = risk_cost b traj p mem;
         backlogCost = backlog_cost initial b traj p;
         utilCost = util_cost initial b p;
         repRange = math_Max (f64_of_int (sys_MaxReplicas initial - sys_MinReplicas initial)) 1;
         repSmooth = cp_SmoothReplica p * \<bar>f64_of_int (bn_Replicas b - sys_Replicas initial)\<bar> / repRange;
         retryRange = math_Max (f64_of_int (sys_MaxRetry initial - sys_MinRetry initial)) 1;
         retrySmooth = cp_SmoothRetry p * \<bar>f64_of_int (bn_RetryLimit b - sys_RetryLimit initial)\<bar> / retryRange;
         queueSmooth = cp_SmoothQueue p * \<bar>bn_QueueLimit b - f64_of_int (sys_QueueLimit initial)\<bar> /
           math_Max (f64_of_int (sys_QueueLimit initial)) 1;
         cacheSmooth = cp_SmoothCache p * \<bar>bn_CacheAggression b - sys_CacheAggression initial\<bar>;
         cacheCost = cp_CacheCostWeight p * math_Pow (bn_CacheAggression b) (fl 1.3) * horizonTime;
         oscPenalty = (case mem of None \<Rightarrow> 0 | Some m \<Rightarrow> fl 0.4 * rm_OscillationEWMA m)
     in infraCost + slaCost + riskCost + backlogCost + utilCost + repSmooth + retrySmooth +
        queueSmooth + cacheSmooth + cacheCost + oscPenalty)"

end
