(* ===== verification/BundleSearch.thy ===== *)
theory BundleSearch
  imports ControlSim
begin

text \<open>
  \<open>internal/control/bundle_generator.go\<close>, \<open>coordinated_optimizer.go\<close> and \<open>GenerateBundles\<close>
  of \<open>compat.go\<close>: the local grid of candidate bundles with its heuristic score, the
  thinning, sorting and diversity filter, and the scenario-based selection.  The number
  of values drawn from the generator is threaded through the loops.
\<close>

section \<open>The candidate grid\<close>

definition bundle_score :: "SystemState \<Rightarrow> BundleConfig \<Rightarrow> int \<Rightarrow> f64 \<Rightarrow> int \<Rightarrow> f64 \<Rightarrow> f64" where
  "bundle_score cur cfg rep queue retry cache =
    (let queuePressure = sys_QueueDepth cur / math_Max queue 1;
         admissionDrop = 1 / (1 + math_Exp (fl (- 0.05) * (sys_QueueDepth cur - queue)));
         retryAmpl = 1 + bc_RetryAmplification cfg *
           math_Pow (math_Max 0 (f64_of_int (retry - sys_RetryLimit cur))) (fl 1.25);
         cacheRelief = math_Exp (fl (- 1.1) * (cache - sys_CacheAggression cur));
         effectiveArrival = sys_PredictedArrival cur * retryAmpl * cacheRelief * (1 - fl 0.4 * admissionDrop);
         eff = 1 / (1 + bc_EfficiencyDecay cfg * \<bar>f64_of_int (rep - sys_Replicas cur)\<bar>);
         capacity = f64_of_int rep * sys_ServiceRate cur * math_Max eff (fl 0.55);
         util = effectiveArrival / math_Max capacity (fl 0.0001);
         pressurePenalty = math_Log (1 + queuePressure);
         retryPenalty = math_Log (1 + retryAmpl);
         growth = (sys_PredictedArrival cur - sys_ArrivalRate cur) / math_Max (sys_ArrivalRate cur) (fl 10);
         futurePressure = 1 / (1 + math_Exp (fl (- 0.8) * growth));
         repDelta = \<bar>f64_of_int (rep - sys_Replicas cur)\<bar> / math_Max (f64_of_int (sys_Replicas cur)) 1;
         queueDelta = \<bar>queue - f64_of_int (sys_QueueLimit cur)\<bar> / math_Max (f64_of_int (sys_QueueLimit cur)) 1;
         retryDelta = \<bar>f64_of_int (retry - sys_RetryLimit cur)\<bar> / f64_of_int (bc_MaxRetry cfg);
         cacheDelta = \<bar>cache - sys_CacheAggression cur\<bar>;
         infraProxy = fl 0.05 * f64_of_int rep + fl 0.02 * queuePressure + fl 0.03 * retryDelta
     in \<bar>util - bc_TargetUtil cfg\<bar> + bc_QueueWeight cfg * pressurePenalty +
        bc_ReplicaMovePenalty cfg * repDelta + bc_QueueMovePenalty cfg * queueDelta +
        bc_RetryMovePenalty cfg * retryDelta + bc_CacheMovePenalty cfg * cacheDelta +
        fl 0.18 * futurePressure + retryPenalty + infraProxy)"

text \<open>The state of the four loops: the bundles so far and the number of draws.\<close>

type_synonym gen_state = "Bundle list \<times> nat"

definition gen_cache ::
  "control_env \<Rightarrow> int \<Rightarrow> SystemState \<Rightarrow> BundleConfig \<Rightarrow> int \<Rightarrow> f64 \<Rightarrow> int \<Rightarrow> int \<Rightarrow> gen_state \<Rightarrow> gen_state" where
  "gen_cache env seed cur cfg rep queue retry dc st =
    (case st of (bundles, n) \<Rightarrow>
       let draws = 20 < length bundles;
           n' = (if draws then Suc n else n)
       in if draws \<and> bc_GenerationKeepProb cfg < rng_Float64 env seed n then (bundles, n')
          else
            let cache = sys_CacheAggression cur + f64_of_int dc * bc_CacheStep cfg in
            if cache < bc_MinCache cfg \<or> bc_MaxCache cfg < cache then (bundles, n')
            else (bundles @ [\<lparr> bn_Replicas = rep, bn_QueueLimit = queue, bn_RetryLimit = retry,
                     bn_CacheAggression = cache,
                     bn_HeuristicScore = bundle_score cur cfg rep queue retry cache \<rparr>], n'))"

definition gen_retry ::
  "control_env \<Rightarrow> int \<Rightarrow> SystemState \<Rightarrow> BundleConfig \<Rightarrow> int \<Rightarrow> int \<Rightarrow> f64 \<Rightarrow> int \<Rightarrow> gen_state \<Rightarrow> gen_state" where
  "gen_retry env seed cur cfg cacheRadius rep queue rr st =
    (let retry = sys_RetryLimit cur + rr in
     if retry < bc_MinRetry cfg \<or> bc_MaxRetry cfg < retry then st
     else fold (gen_cache env seed cur cfg rep queue retry) [- cacheRadius..cacheRadius] st)"

definition gen_queue ::
  "control_env \<Rightarrow> int \<Rightarrow> SystemState \<Rightarrow> BundleConfig \<Rightarrow> int \<Rightarrow> int \<Rightarrow> int \<Rightarrow> int \<Rightarrow> gen_state \<Rightarrow> gen_state" where
  "gen_queue env seed cur cfg retryRadius cacheRadius rep dq st =
    (let queue = f64_of_int (sys_QueueLimit cur) + f64_of_int dq * bc_QueueStep cfg in
     if queue < bc_MinQueue cfg \<or> bc_MaxQueue cfg < queue then st
     else fold (gen_retry env seed cur cfg cacheRadius rep queue) [- retryRadius..retryRadius] st)"

definition gen_replica ::
  "control_env \<Rightarrow> int \<Rightarrow> SystemState \<Rightarrow> BundleConfig \<Rightarrow> int \<Rightarrow> int \<Rightarrow> int \<Rightarrow> int \<Rightarrow> gen_state \<Rightarrow> gen_state" where
  "gen_replica env seed cur cfg queueRadius retryRadius cacheRadius dr st =
    (if f64_of_int (bc_MaxScaleStep cfg) < \<bar>f64_of_int dr\<bar> then st
     else let rep = sys_Replicas cur + dr in
       if rep < bc_MinReplicas cfg \<or> bc_MaxReplicas cfg < rep then st
       else fold (gen_queue env seed cur cfg retryRadius cacheRadius rep) [- queueRadius..queueRadius] st)"

definition bundle_dist :: "SystemState \<Rightarrow> BundleConfig \<Rightarrow> Bundle \<Rightarrow> Bundle \<Rightarrow> f64" where
  "bundle_dist cur cfg b s =
     \<bar>f64_of_int (bn_Replicas b - bn_Replicas s)\<bar> / math_Max (f64_of_int (sys_Replicas cur)) 1 +
     \<bar>bn_QueueLimit b - bn_QueueLimit s\<bar> / math_Max (f64_of_int (sys_QueueLimit cur)) 1 +
     \<bar>f64_of_int (bn_RetryLimit b - bn_RetryLimit s)\<bar> / f64_of_int (bc_MaxRetry cfg) +
     fl 1.5 * \<bar>bn_CacheAggression b - bn_CacheAggression s\<bar>"

fun select_diverse :: "SystemState \<Rightarrow> BundleConfig \<Rightarrow> Bundle list \<Rightarrow> Bundle list \<Rightarrow> Bundle list" where
  "select_diverse cur cfg selected [] = selected"
| "select_diverse cur cfg selected (b # bs) =
    (let ok = \<not> (\<exists>s \<in> set selected. bundle_dist cur cfg b s < bc_MinBundleDistance cfg);
         selected = (if ok then selected @ [b] else selected)
     in if bc_TopK cfg \<le> int (length selected) then selected
        else select_diverse cur cfg selected bs)"

definition by_heuristic :: "Bundle \<Rightarrow> Bundle \<Rightarrow> bool" where
  "by_heuristic a b = (bn_HeuristicScore a < bn_HeuristicScore b)"

definition GenerateLocalBundles ::
  "control_env \<Rightarrow> SystemState \<Rightarrow> BundleConfig \<Rightarrow> RegimeMemory option \<Rightarrow> Bundle list" where
  "GenerateLocalBundles env cur cfg mem =
    (let risk = (case mem of None \<Rightarrow> 0 | Some m \<Rightarrow> rm_RiskEWMA m);
         repRadius = int_of_f64 (f64_of_int (bc_ReplicaRadius cfg) * (1 + fl 0.7 * risk));
         queueRadius = int_of_f64 (f64_of_int (bc_QueueRadius cfg) * (1 + fl 0.7 * risk));
         cacheRadius = int_of_f64 (f64_of_int (bc_CacheRadius cfg) * (1 + fl 0.7 * risk));
         retryRadius = 1 + int_of_f64 (1 * risk);
         seed = (if bc_Seed cfg = 0 then ce_nanos env else bc_Seed cfg);
         bundles = fst (fold (gen_replica env seed cur cfg queueRadius retryRadius cacheRadius)
                     [- repRadius..repRadius] ([], 0));
         bundles = (if length bundles < 5 then bundles @ [bundleFromState cur] else bundles)
     in select_diverse cur cfg [] (ce_sortB env by_heuristic bundles))"

definition generator_config :: "SystemState \<Rightarrow> GeneratorConfig \<Rightarrow> BundleConfig" where
  "generator_config cur cfg =
    (let radius = (if gc_BaseRadius cfg \<le> 0 then 1 else gc_BaseRadius cfg);
         queueLimit = (if sys_QueueLimit cur \<le> 0 then 10 else sys_QueueLimit cur)
     in \<lparr> bc_ReplicaRadius = radius, bc_QueueRadius = radius, bc_CacheRadius = radius,
          bc_MaxScaleStep = radius,
          bc_MinReplicas = maxInt (sys_MinReplicas cur) 1,
          bc_MaxReplicas = maxInt (sys_MaxReplicas cur)
            (maxInt (sys_MinReplicas cur) (sys_Replicas cur + radius + 1)),
          bc_QueueStep = math_Max (f64_of_int queueLimit * fl 0.1) 1,
          bc_MinQueue = math_Max 1 (f64_of_int queueLimit * fl 0.5),
          bc_MaxQueue = math_Max (f64_of_int queueLimit * fl 1.5) (f64_of_int (queueLimit + 1)),
          bc_MinRetry = maxInt (sys_MinRetry cur) 1,
          bc_MaxRetry = maxInt (sys_MaxRetry cur) (maxInt (sys_RetryLimit cur + radius) 3),
          bc_CacheStep = fl 0.1, bc_MinCache = 0, bc_MaxCache = 1,
          bc_RetryAmplification = fl 0.2, bc_EfficiencyDecay = fl 0.15, bc_TargetUtil = fl 0.70,
          bc_QueueWeight = fl 0.30, bc_ReplicaMovePenalty = fl 0.15, bc_QueueMovePenalty = fl 0.10,
          bc_RetryMovePenalty = fl 0.08, bc_CacheMovePenalty = fl 0.10,
          bc_MinBundleDistance = fl 0.30, bc_TopK = 8, bc_GenerationKeepProb = fl 0.75,
          bc_Seed = gc_Seed cfg \<rparr>)"

definition GenerateBundles ::
  "control_env \<Rightarrow> SystemState \<Rightarrow> GeneratorConfig \<Rightarrow> RegimeMemory option \<Rightarrow> Bundle list" where
  "GenerateBundles env cur cfg mem = GenerateLocalBundles env cur (generator_config cur cfg) mem"

section \<open>The selection\<close>

definition cheapUtilProxy :: "SystemState \<Rightarrow> Bundle \<Rightarrow> f64" where
  "cheapUtilProxy initial b =
    (let base = sys_PredictedArrival initial /
           math_Max (f64_of_int (bn_Replicas b) * sys_ServiceRate initial) (fl 0.001);
         retryAmpl = 1 + fl 0.25 * f64_of_int (bn_RetryLimit b - sys_RetryLimit initial);
         cacheRelief = 1 - fl 0.3 * (bn_CacheAggression b - sys_CacheAggression initial)
     in base * retryAmpl * cacheRelief)"

definition actionDistance :: "Bundle \<Rightarrow> Bundle \<Rightarrow> int \<Rightarrow> f64" where
  "actionDistance a b queueScale =
     \<bar>f64_of_int (bn_Replicas a - bn_Replicas b)\<bar> +
     fl 0.5 * \<bar>f64_of_int (bn_RetryLimit a - bn_RetryLimit b)\<bar> +
     \<bar>bn_QueueLimit a - bn_QueueLimit b\<bar> / math_Max (f64_of_int queueScale) 1 +
     fl 2 * \<bar>bn_CacheAggression a - bn_CacheAggression b\<bar>"

definition diverse_step :: "SystemState \<Rightarrow> bundleScore \<Rightarrow> bundleScore \<times> f64 \<Rightarrow> bundleScore \<times> f64" where
  "diverse_step initial s acc =
    (let dist = actionDistance (bundleFromState initial) (bs_Bundle s) (sys_QueueLimit initial);
         metric = bs_Score s + fl 0.18 * dist
     in if metric < snd acc then (s, metric) else acc)"

definition diversityAwareSelect :: "SystemState \<Rightarrow> bundleScore list \<Rightarrow> Bundle" where
  \<comment> \<open>the caller excludes an empty list\<close>
  "diversityAwareSelect initial tops =
     bs_Bundle (fst (fold (diverse_step initial) tops (hd tops, MaxFloat64)))"

text \<open>
  The scenarios of one candidate: the total, the costs and the number of draws.  The
  loop ends early when the running mean exceeds the best score by the margin.
\<close>

fun run_scenarios ::
  "control_env \<Rightarrow> int \<Rightarrow> (int \<Rightarrow> f64) \<Rightarrow> (f64 \<Rightarrow> bool) \<Rightarrow> nat \<Rightarrow> f64 \<Rightarrow> f64 list \<Rightarrow> nat \<Rightarrow> f64 \<times> f64 list \<times> nat"
where
  "run_scenarios env seed cost stop 0 totalCost costs n = (totalCost, costs, n)"
| "run_scenarios env seed cost stop (Suc k) totalCost costs n =
    (let c = cost (ce_int63 env seed n);
         totalCost = totalCost + c; costs = costs @ [c];
         meanSoFar = totalCost / f64_of_int (int (length costs))
     in if stop meanSoFar then (totalCost, costs, Suc n)
        else run_scenarios env seed cost stop k totalCost costs (Suc n))"

record opt_state =
  op_bestScore :: f64
  op_bestBundle :: Bundle
  op_results :: "bundleScore list"
  op_evaluated :: int
  op_draws :: nat

definition candidate_score ::
  "SystemState \<Rightarrow> Bundle \<Rightarrow> f64 \<Rightarrow> f64 list \<Rightarrow> f64 \<Rightarrow> RegimeMemory option \<Rightarrow> f64" where
  "candidate_score initial b totalCost costs inertiaWeight mem =
    (let k = f64_of_int (int (length costs));
         meanCost = totalCost / k;
         downside = fold (\<lambda>c d. if meanCost < c then d + (c - meanCost) * (c - meanCost) else d) costs 0;
         downside = math_Sqrt (downside / k);
         backlogPressure = sys_QueueDepth initial / f64_of_int (sys_QueueLimit initial);
         score = meanCost + fl 0.3 * downside + fl 2 * backlogPressure
     in case mem of None \<Rightarrow> score
        | Some m \<Rightarrow> score + inertiaWeight * actionDistance (rm_LastAction m) b (sys_QueueLimit initial))"

definition evaluate_candidate ::
  "control_env \<Rightarrow> int \<Rightarrow> SystemState \<Rightarrow> OptimizerConfig \<Rightarrow> SimConfig \<Rightarrow> CostParams \<Rightarrow> RegimeMemory option
     \<Rightarrow> f64 \<Rightarrow> f64 \<Rightarrow> Bundle \<Rightarrow> opt_state \<Rightarrow> opt_state" where
  "evaluate_candidate env seed initial cfg simCfg costCfg mem temp inertiaWeight b st =
    (if oc_MaxEvaluate cfg \<le> op_evaluated st then st
     else
       let cost = (\<lambda>sd. let sim = simCfg\<lparr> sc_Seed := sd \<rparr>; traj = SimulateBundle initial b sim
                        in EvaluateHorizonCost initial b traj sim costCfg mem);
           stop = (\<lambda>mean. oc_MinEvaluate cfg \<le> op_evaluated st \<and>
                     op_bestScore st * (1 + oc_EarlyStopMargin cfg * fl 2) < mean);
           (totalCost, costs, n) = run_scenarios env seed cost stop (nat (oc_ScenarioCount cfg)) 0 [] (op_draws st)
       in if costs = [] then st\<lparr> op_draws := n \<rparr>
          else
            let score = candidate_score initial b totalCost costs inertiaWeight mem;
                worse = op_bestScore st < score;
                prob = math_Exp (- (score - op_bestScore st) / math_Max temp (fl 0.001));
                reject = worse \<and> prob < rng_Float64 env seed n;
                n = (if worse then Suc n else n);
                st = st\<lparr> op_draws := n, op_evaluated := op_evaluated st + 1 \<rparr>
            in if reject then st
               else
                 let st = st\<lparr> op_results := op_results st @ [\<lparr> bs_Bundle = b, bs_Score = score \<rparr>] \<rparr>
                 in if score < op_bestScore st
                    then st\<lparr> op_bestScore := score, op_bestBundle := b \<rparr> else st)"

definition by_util :: "SystemState \<Rightarrow> Bundle \<Rightarrow> Bundle \<Rightarrow> bool" where
  "by_util initial a b = (cheapUtilProxy initial a < cheapUtilProxy initial b)"

definition by_score :: "bundleScore \<Rightarrow> bundleScore \<Rightarrow> bool" where
  "by_score a b = (bs_Score a < bs_Score b)"

definition SelectBestBundle ::
  "control_env \<Rightarrow> SystemState \<Rightarrow> Bundle list \<Rightarrow> OptimizerConfig \<Rightarrow> SimConfig \<Rightarrow> CostParams
     \<Rightarrow> RegimeMemory option \<Rightarrow> Bundle" where
  "SelectBestBundle env initial candidates cfg simCfg costCfg mem =
    (if candidates = [] then bundleFromState initial
     else
       let seed = (if sc_Seed simCfg = 0 then ce_nanos env else sc_Seed simCfg);
           candidates = ce_sortB env (by_util initial) candidates;
           temp = (case mem of None \<Rightarrow> oc_BaseTemperature cfg
                   | Some m \<Rightarrow> oc_BaseTemperature cfg * math_Exp (fl 1.4 * rm_RiskEWMA m));
           inertiaWeight = (case mem of None \<Rightarrow> fl 0.02 | Some m \<Rightarrow> fl 0.12 * (1 - rm_RiskEWMA m));
           st = fold (evaluate_candidate env seed initial cfg simCfg costCfg mem temp inertiaWeight)
                  candidates
                  \<lparr> op_bestScore = MaxFloat64, op_bestBundle = hd candidates, op_results = [],
                    op_evaluated = 0, op_draws = 0 \<rparr>
       in if op_results st = [] then op_bestBundle st
          else diversityAwareSelect initial (take 6 (ce_sortS env by_score (op_results st))))"

section \<open>What the search returns\<close>

definition in_grid :: "SystemState \<Rightarrow> BundleConfig \<Rightarrow> Bundle \<Rightarrow> bool" where
  "in_grid cur cfg b \<longleftrightarrow>
     bc_MinReplicas cfg \<le> bn_Replicas b \<and> bn_Replicas b \<le> bc_MaxReplicas cfg \<and>
     \<not> bn_QueueLimit b < bc_MinQueue cfg \<and> \<not> bc_MaxQueue cfg < bn_QueueLimit b \<and>
     bc_MinRetry cfg \<le> bn_RetryLimit b \<and> bn_RetryLimit b \<le> bc_MaxRetry cfg \<and>
     \<not> bn_CacheAggression b < bc_MinCache cfg \<and> \<not> bc_MaxCache cfg < bn_CacheAggression b"

lemma fold_invariant: "P s \<Longrightarrow> (\<And>x s. x \<in> set xs \<Longrightarrow> P s \<Longrightarrow> P (f x s)) \<Longrightarrow> P (fold f xs s)"
  by (induction xs arbitrary: s) auto

definition grid_st :: "SystemState \<Rightarrow> BundleConfig \<Rightarrow> gen_state \<Rightarrow> bool" where
  "grid_st cur cfg st \<longleftrightarrow> (\<forall>b \<in> set (fst st). in_grid cur cfg b)"

lemmas fold_grid = fold_invariant [where P = "grid_st cur cfg" for cur cfg]

lemma gen_cache_grid:
  assumes "grid_st cur cfg st" "bc_MinReplicas cfg \<le> rep" "rep \<le> bc_MaxReplicas cfg"
    "\<not> q < bc_MinQueue cfg" "\<not> bc_MaxQueue cfg < q" "bc_MinRetry cfg \<le> r" "r \<le> bc_MaxRetry cfg"
  shows "grid_st cur cfg (gen_cache env seed cur cfg rep q r dc st)"
  using assms by (auto simp: gen_cache_def Let_def in_grid_def grid_st_def split: prod.splits)

lemma gen_retry_grid:
  assumes "grid_st cur cfg st" "bc_MinReplicas cfg \<le> rep" "rep \<le> bc_MaxReplicas cfg"
    "\<not> q < bc_MinQueue cfg" "\<not> bc_MaxQueue cfg < q"
  shows "grid_st cur cfg (gen_retry env seed cur cfg cr rep q k st)"
proof (cases "sys_RetryLimit cur + k < bc_MinRetry cfg \<or> bc_MaxRetry cfg < sys_RetryLimit cur + k")
  case False
  then have "grid_st cur cfg (fold (gen_cache env seed cur cfg rep q (sys_RetryLimit cur + k)) [- cr..cr] st)"
    by (intro fold_grid gen_cache_grid assms) auto
  then show ?thesis using False by (simp add: gen_retry_def)
qed (simp add: gen_retry_def assms)

lemma gen_queue_grid:
  assumes "grid_st cur cfg st" "bc_MinReplicas cfg \<le> rep" "rep \<le> bc_MaxReplicas cfg"
  shows "grid_st cur cfg (gen_queue env seed cur cfg rr cr rep dq st)"
  unfolding gen_queue_def Let_def using assms by (auto intro!: fold_grid gen_retry_grid)

lemma gen_replica_grid:
  assumes "grid_st cur cfg st"
  shows "grid_st cur cfg (gen_replica env seed cur cfg qr rr cr dr st)"
  unfolding gen_replica_def Let_def using assms by (auto intro!: fold_grid gen_queue_grid)

lemma select_diverse_set: "set (select_diverse cur cfg sel bs) \<subseteq> set sel \<union> set bs"
proof (induction bs arbitrary: sel)
  case (Cons b bs)
  show ?case using Cons [of sel] Cons [of "sel @ [b]"] by (auto simp: Let_def)
qed simp

lemma select_diverse_count:
  "int (length sel) < bc_TopK cfg \<Longrightarrow> int (length (select_diverse cur cfg sel bs)) \<le> bc_TopK cfg"
  by (induction bs arbitrary: sel) (auto simp: Let_def)

lemma GenerateLocalBundles_grid:
  assumes "env_ok env" "b \<in> set (GenerateLocalBundles env cur cfg mem)"
  shows "in_grid cur cfg b \<or> b = bundleFromState cur"
proof -
  let ?loop = "\<lambda>risk. fst (fold (gen_replica env (if bc_Seed cfg = 0 then ce_nanos env else bc_Seed cfg) cur cfg
      (int_of_f64 (f64_of_int (bc_QueueRadius cfg) * (1 + fl 0.7 * risk))) (1 + int_of_f64 (1 * risk))
      (int_of_f64 (f64_of_int (bc_CacheRadius cfg) * (1 + fl 0.7 * risk))))
      [- int_of_f64 (f64_of_int (bc_ReplicaRadius cfg) * (1 + fl 0.7 * risk))..
         int_of_f64 (f64_of_int (bc_ReplicaRadius cfg) * (1 + fl 0.7 * risk))] ([], 0))"
  have "grid_st cur cfg ([], 0)" by (simp add: grid_st_def)
  then have grid: "\<forall>b \<in> set (?loop risk). in_grid cur cfg b" for risk
    unfolding grid_st_def [symmetric] by (intro fold_grid gen_replica_grid)
  let ?risk = "case mem of None \<Rightarrow> 0 | Some m \<Rightarrow> rm_RiskEWMA m"
  have "b \<in> set (ce_sortB env by_heuristic (if length (?loop ?risk) < 5 then ?loop ?risk @ [bundleFromState cur]
      else ?loop ?risk))"
    using assms(2) select_diverse_set [of cur cfg "[]"] unfolding GenerateLocalBundles_def Let_def by fastforce
  then show ?thesis using grid [of ?risk] assms(1) by (auto simp: env_ok_def split: if_splits)
qed

lemma GenerateLocalBundles_count:
  "0 < bc_TopK cfg \<Longrightarrow> int (length (GenerateLocalBundles env cur cfg mem)) \<le> bc_TopK cfg"
  unfolding GenerateLocalBundles_def Let_def by (rule select_diverse_count) simp

text \<open>The selection returns one of the candidates.\<close>

definition opt_inv :: "Bundle set \<Rightarrow> opt_state \<Rightarrow> bool" where
  "opt_inv B st \<longleftrightarrow> op_bestBundle st \<in> B \<and> (\<forall>r \<in> set (op_results st). bs_Bundle r \<in> B)"

lemma evaluate_candidate_inv:
  "b \<in> B \<Longrightarrow> opt_inv B st \<Longrightarrow>
     opt_inv B (evaluate_candidate env seed initial cfg simCfg costCfg mem temp w b st)"
  by (auto simp: evaluate_candidate_def Let_def opt_inv_def split: prod.splits)

lemma diversity_member:
  assumes "tops \<noteq> []" shows "\<exists>r \<in> set tops. diversityAwareSelect initial tops = bs_Bundle r"
proof -
  have "fst (fold (diverse_step initial) xs acc) \<in> insert (fst acc) (set xs)" for xs acc
    by (induction xs arbitrary: acc) (auto simp: diverse_step_def Let_def, metis fst_conv)
  from this [of tops "(hd tops, MaxFloat64)"] show ?thesis
    using assms unfolding diversityAwareSelect_def by (auto intro: hd_in_set)
qed

lemma SelectBestBundle_member:
  assumes env: "env_ok env" and ne: "candidates \<noteq> []"
  shows "SelectBestBundle env initial candidates cfg simCfg costCfg mem \<in> set candidates"
proof -
  let ?cs = "ce_sortB env (by_util initial) candidates"
  have set: "set ?cs = set candidates" using env by (simp add: env_ok_def)
  then have "?cs \<noteq> []" using ne by (metis set_empty)
  then have hd: "hd ?cs \<in> set candidates" using set hd_in_set by metis
  define st where "st seed temp w = fold (evaluate_candidate env seed initial cfg simCfg costCfg mem temp w) ?cs
      \<lparr> op_bestScore = MaxFloat64, op_bestBundle = hd ?cs, op_results = [], op_evaluated = 0, op_draws = 0 \<rparr>"
    for seed temp w
  have inv: "opt_inv (set candidates) (st seed temp w)" for seed temp w
    unfolding st_def by (rule fold_invariant) (use hd set in \<open>auto simp: opt_inv_def [of _ "\<lparr> op_bestScore = x, op_bestBundle = y, op_results = [], op_evaluated = 0, op_draws = 0 \<rparr>" for x y] evaluate_candidate_inv\<close>)
  have pick: "(if op_results s = [] then op_bestBundle s
     else diversityAwareSelect initial (take 6 (ce_sortS env by_score (op_results s)))) \<in> set candidates"
    if "opt_inv (set candidates) s" for s
  proof (cases "op_results s = []")
    case False
    let ?t = "take 6 (ce_sortS env by_score (op_results s))"
    have eq: "set (ce_sortS env by_score (op_results s)) = set (op_results s)" using env by (simp add: env_ok_def)
    then have "?t \<noteq> []" using False by (metis set_empty take_eq_Nil zero_neq_numeral)
    from diversity_member [OF this] obtain r where "r \<in> set ?t" "diversityAwareSelect initial ?t = bs_Bundle r" by blast
    moreover from this have "r \<in> set (op_results s)" using eq by (metis in_set_takeD)
    ultimately show ?thesis using that False by (auto simp: opt_inv_def)
  qed (use that in \<open>simp add: opt_inv_def\<close>)
  show ?thesis
    unfolding SelectBestBundle_def Let_def st_def [symmetric] using ne pick [OF inv] by simp
qed

text \<open>The replica count of a candidate is at most the scale step away from the current one.\<close>

definition near_st :: "int \<Rightarrow> int \<Rightarrow> gen_state \<Rightarrow> bool" where
  "near_st r k st \<longleftrightarrow> (\<forall>b \<in> set (fst st). \<bar>bn_Replicas b - r\<bar> \<le> k)"

lemmas fold_near = fold_invariant [where P = "near_st r k" for r k]

lemma gen_cache_near:
  "near_st r k st \<Longrightarrow> \<bar>rep - r\<bar> \<le> k \<Longrightarrow> near_st r k (gen_cache env seed cur cfg rep q rt dc st)"
  by (auto simp: gen_cache_def Let_def near_st_def split: prod.splits)

lemma gen_retry_near:
  "near_st r k st \<Longrightarrow> \<bar>rep - r\<bar> \<le> k \<Longrightarrow> near_st r k (gen_retry env seed cur cfg cr rep q j st)"
  unfolding gen_retry_def Let_def by (auto intro!: fold_near gen_cache_near)

lemma gen_queue_near:
  "near_st r k st \<Longrightarrow> \<bar>rep - r\<bar> \<le> k \<Longrightarrow> near_st r k (gen_queue env seed cur cfg rr cr rep dq st)"
  unfolding gen_queue_def Let_def by (auto intro!: fold_near gen_retry_near)

lemma f64_of_int_le:
  assumes "0 \<le> k" "k < 2 ^ 53" "\<not> f64_of_int k < \<bar>f64_of_int i\<bar>" shows "\<bar>i\<bar> \<le> k"
proof (rule ccontr)
  assume "\<not> \<bar>i\<bar> \<le> k"
  then consider "k + 1 \<le> i" | "k + 1 \<le> - i" by linarith
  then have ge: "Fin (of_int k) < \<bar>f64_of_int i\<bar>"
  proof cases
    case 1
    then have "f64_of_int (k + 1) \<le> f64_of_int i" unfolding f64_of_int_def by (intro fl_mono) simp
    then show ?thesis using f64_of_int_small [of "k + 1"] assms by (cases "f64_of_int i") auto
  next
    case 2
    then have "f64_of_int (k + 1) \<le> f64_of_int (- i)" unfolding f64_of_int_def by (intro fl_mono) simp
    moreover have "f64_of_int (- i) = - f64_of_int i" by (simp add: f64_of_int_def fl_minus)
    ultimately show ?thesis using f64_of_int_small [of "k + 1"] assms by (cases "f64_of_int i") auto
  qed
  then show False using assms f64_of_int_small [of k] by simp
qed

lemma gen_replica_near:
  assumes "near_st (sys_Replicas cur) (bc_MaxScaleStep cfg) st" "0 \<le> bc_MaxScaleStep cfg" "bc_MaxScaleStep cfg < 2 ^ 53"
  shows "near_st (sys_Replicas cur) (bc_MaxScaleStep cfg) (gen_replica env seed cur cfg qr rr cr dr st)"
  unfolding gen_replica_def Let_def using assms f64_of_int_le [of "bc_MaxScaleStep cfg" dr]
  by (auto intro!: fold_near gen_queue_near)

lemma GenerateLocalBundles_near:
  assumes "env_ok env" "b \<in> set (GenerateLocalBundles env cur cfg mem)"
    "0 \<le> bc_MaxScaleStep cfg" "bc_MaxScaleStep cfg < 2 ^ 53"
  shows "\<bar>bn_Replicas b - sys_Replicas cur\<bar> \<le> bc_MaxScaleStep cfg"
proof -
  define loop where "loop seed qr rr cr R =
    fst (fold (gen_replica env seed cur cfg qr rr cr) [- R..R] ([], 0))" for seed qr rr cr R
  have near: "\<forall>b \<in> set (loop seed qr rr cr R). \<bar>bn_Replicas b - sys_Replicas cur\<bar> \<le> bc_MaxScaleStep cfg"
    for seed qr rr cr R
    using assms(3,4) unfolding loop_def near_st_def [symmetric]
    by (intro fold_near gen_replica_near) (auto simp: near_st_def)
  obtain seed qr rr cr R where
    "b \<in> set (ce_sortB env by_heuristic (if length (loop seed qr rr cr R) < 5
       then loop seed qr rr cr R @ [bundleFromState cur] else loop seed qr rr cr R))"
    using assms(2) select_diverse_set [of cur cfg "[]"]
    unfolding GenerateLocalBundles_def Let_def loop_def [symmetric] by fastforce
  then show ?thesis
    using near assms(1,3) by (auto simp: env_ok_def bundleFromState_def split: if_splits)
qed

lemma GenerateBundles_near:
  assumes "env_ok env" "b \<in> set (GenerateBundles env cur cfg mem)" "gc_BaseRadius cfg < 2 ^ 53"
  shows "\<bar>bn_Replicas b - sys_Replicas cur\<bar> \<le> max 1 (gc_BaseRadius cfg)"
proof -
  have "bc_MaxScaleStep (generator_config cur cfg) = max 1 (gc_BaseRadius cfg)"
    by (auto simp: generator_config_def Let_def)
  then show ?thesis
    using GenerateLocalBundles_near [of env b cur "generator_config cur cfg" mem] assms
    unfolding GenerateBundles_def by simp
qed

lemma select_diverse_keeps: "sel \<noteq> [] \<Longrightarrow> select_diverse cur cfg sel bs \<noteq> []"
proof (induction bs arbitrary: sel)
  case (Cons b bs)
  then show ?case by (simp add: Let_def)
qed simp

lemma select_diverse_nonempty: "bs \<noteq> [] \<Longrightarrow> select_diverse cur cfg [] bs \<noteq> []"
  by (cases bs) (simp_all add: Let_def select_diverse_keeps)

lemma GenerateBundles_nonempty: assumes "env_ok env" shows "GenerateBundles env cur cfg mem \<noteq> []"
proof -
  have sort: "ce_sortB env by_heuristic xs \<noteq> []" if "xs \<noteq> []" for xs
    using assms that by (metis env_ok_def set_empty)
  have ne: "(if length xs < 5 then xs @ [b] else xs) \<noteq> []" for xs and b :: Bundle by auto
  show ?thesis
    unfolding GenerateBundles_def GenerateLocalBundles_def Let_def
    by (intro select_diverse_nonempty sort ne)
qed

text \<open>A concrete environment, at which the witnesses evaluate.\<close>

definition identity_env :: control_env where
  "identity_env = \<lparr> ce_int63 = \<lambda>_ _. 0, ce_sortB = \<lambda>_ xs. xs, ce_sortS = \<lambda>_ xs. xs, ce_nanos = 1 \<rparr>"

lemma identity_env_ok [simp]: "env_ok identity_env"
  by (simp add: env_ok_def identity_env_def)

text \<open>
  The search space of one decision.  For any random source and any permuting sort,
  the generator returns between one and eight candidates; each is the current
  configuration or a grid point whose replica count is at least the minimum and at most
  the radius away from the current count, whose retry limit is at least the minimum,
  and whose cache aggression and queue limit are within the configured ranges.
\<close>

theorem GenerateBundles_sound:
  fixes cur :: SystemState and mem :: "RegimeMemory option"
  assumes "env_ok env" "gc_BaseRadius cfg < 2 ^ 53"
  defines "bs \<equiv> GenerateBundles env cur cfg mem" and "g \<equiv> generator_config cur cfg"
  shows "bs \<noteq> [] \<and> length bs \<le> 8 \<and>
    (\<forall>b \<in> set bs. \<bar>bn_Replicas b - sys_Replicas cur\<bar> \<le> max 1 (gc_BaseRadius cfg) \<and>
       (b = bundleFromState cur \<or>
        max (sys_MinReplicas cur) 1 \<le> bn_Replicas b \<and> max (sys_MinRetry cur) 1 \<le> bn_RetryLimit b \<and>
        \<not> bn_CacheAggression b < 0 \<and> \<not> 1 < bn_CacheAggression b \<and>
        \<not> bn_QueueLimit b < bc_MinQueue g \<and> \<not> bc_MaxQueue g < bn_QueueLimit b))"
proof -
  have g: "bc_TopK g = 8" "bc_MinReplicas g = max (sys_MinReplicas cur) 1" "bc_MinRetry g = max (sys_MinRetry cur) 1"
    "bc_MinCache g = 0" "bc_MaxCache g = 1"
    by (simp_all add: g_def generator_config_def Let_def)
  have "length bs \<le> 8"
    using GenerateLocalBundles_count [of g env cur mem] g(1) by (simp add: bs_def g_def GenerateBundles_def)
  moreover have "b = bundleFromState cur \<or> in_grid cur g b" if "b \<in> set bs" for b
    using GenerateLocalBundles_grid [OF assms(1), of b cur g mem] that by (auto simp: bs_def g_def GenerateBundles_def)
  ultimately show ?thesis
    using GenerateBundles_nonempty [OF assms(1)] GenerateBundles_near [OF assms(1) _ assms(2)]
    unfolding in_grid_def g bs_def by blast
qed

lemma GenerateBundles_sound_witness:
  "GenerateBundles identity_env zero_state \<lparr> gc_BaseRadius = 3, gc_Seed = 1 \<rparr> None \<noteq> [] \<and>
   length (GenerateBundles identity_env zero_state \<lparr> gc_BaseRadius = 3, gc_Seed = 1 \<rparr> None) \<le> 8"
  using GenerateBundles_sound [of identity_env "\<lparr> gc_BaseRadius = 3, gc_Seed = 1 \<rparr>" zero_state None] by simp

end
