(* ===== verification/Authority.thy ===== *)
theory Authority
  imports BundleSearch
begin

unbundle bit_operations_syntax

text \<open>
  \<open>internal/control/authority.go\<close>: the single decision maker.  \<open>Decide\<close> returns the
  decision and the updated authority; the memory it updates is part of it.
\<close>

record AutopilotAdvice =
  aa_MinReplicas :: int
  aa_MaxReplicas :: int
  aa_PredictedBacklog :: f64
  aa_PredictedLatency :: f64
  aa_InstabilityRisk :: f64
  aa_Confidence :: f64
  aa_OverrideRate :: f64
  aa_Mode :: int
  aa_Damping :: f64
  aa_Warning :: bool

record IntelligenceAdvice =
  ia_Regime :: int
  ia_RiskEWMA :: f64
  ia_AnomalyScore :: f64
  ia_RiskWeight :: f64
  ia_SmoothCost :: f64
  ia_CostBias :: f64

record PolicyAdvice =
  pa_DesiredReplicas :: int
  pa_MinReplicas :: int
  pa_MaxReplicas :: int
  pa_RetryLimit :: int
  pa_QueueLimit :: f64
  pa_CacheAggression :: f64
  pa_Risk :: f64
  pa_Confidence :: f64

record SandboxAdvice =
  sa_CapacityDelta :: f64
  sa_EfficiencyDelta :: f64
  sa_DampingDelta :: f64
  sa_RetryPressureDelta :: f64
  sa_BrownoutDelta :: f64
  sa_RiskScore :: f64
  sa_Urgency :: f64
  sa_Confidence :: f64
  sa_RiskUp :: bool

record AdvisoryBundle =
  av_Autopilot :: AutopilotAdvice
  av_Intelligence :: IntelligenceAdvice
  av_Policy :: PolicyAdvice
  av_Sandbox :: SandboxAdvice

record AuthorityConfig =
  au_TargetUtilisation :: f64
  au_TickSeconds :: f64
  au_MaxScaleDelta :: f64

record AuthorityInput =
  ai_ServiceID :: string
  ai_Tick :: u64
  ai_Now :: gotime
  ai_State :: SystemState
  ai_Config :: AuthorityConfig
  ai_Advisory :: AdvisoryBundle
  ai_OptimizerCandidates :: "ControlCandidate list"

record DecisionQuality =
  dq_UsedSignals :: "string list"
  dq_Contradictions :: "string list"
  dq_AdvisoryRisk :: f64
  dq_CandidateCount :: int

record AuthorityDecision =
  ad_Directive :: ControlDirective
  ad_Bundle :: Bundle
  ad_Bounds :: ActionBounds
  ad_Quality :: DecisionQuality

record Authority =
  at_Memory :: "RegimeMemory option"
  at_LastBundle :: Bundle
  at_LastDirective :: ControlDirective
  at_EWMABacklog :: f64
  at_LastScaleTick :: u64
  at_LastScaleDir :: string

definition NewAuthority :: Authority where
  "NewAuthority =
     \<lparr> at_Memory = Some NewRegimeMemory, at_LastBundle = zero_bundle, at_LastDirective = zero_directive,
       at_EWMABacklog = 0, at_LastScaleTick = 0, at_LastScaleDir = ''hold'' \<rparr>"

section \<open>Helpers\<close>

definition normalizeState :: "SystemState \<Rightarrow> SystemState" where
  "normalizeState s =
    (let s = (if sys_Replicas s \<le> 0 then s\<lparr> sys_Replicas := 1 \<rparr> else s);
         s = (if sys_QueueLimit s \<le> 0 then s\<lparr> sys_QueueLimit := 1 \<rparr> else s);
         s = (if sys_RetryLimit s \<le> 0 then s\<lparr> sys_RetryLimit := 1 \<rparr> else s);
         s = (if sys_ServiceRate s \<le> 0 then s\<lparr> sys_ServiceRate := 1 \<rparr> else s);
         s = (if sys_SLATarget s \<le> 0 then s\<lparr> sys_SLATarget := 1 \<rparr> else s);
         s = (if 0 < sys_MaxReplicas s \<and> sys_MaxReplicas s < sys_MinReplicas s
              then s\<lparr> sys_MaxReplicas := sys_MinReplicas s \<rparr> else s)
     in if sys_Utilisation s \<le> 0 \<and> 0 < sys_PredictedArrival s
        then s\<lparr> sys_Utilisation := sys_PredictedArrival s /
                 (f64_of_int (sys_Replicas s) * sys_ServiceRate s + fl 0.000001) \<rparr> else s)"

definition aggregateAdvisoryRisk :: "SystemState \<Rightarrow> AdvisoryBundle \<Rightarrow> f64" where
  "aggregateAdvisoryRisk state adv =
    (let risk = sys_Risk state;
         risk = math_Max risk (aa_InstabilityRisk (av_Autopilot adv));
         risk = math_Max risk (aa_OverrideRate (av_Autopilot adv));
         risk = math_Max risk (ia_RiskEWMA (av_Intelligence adv));
         risk = math_Max risk (ia_AnomalyScore (av_Intelligence adv) * fl 0.8);
         risk = math_Max risk (pa_Risk (av_Policy adv));
         risk = math_Max risk (sa_RiskScore (av_Sandbox adv));
         risk = (if sa_RiskUp (av_Sandbox adv) then math_Max risk (fl 0.65) else risk)
     in f64_clamp risk 0 1)"

definition defaultOptimizerConfig :: OptimizerConfig where
  "defaultOptimizerConfig = \<lparr> oc_ScenarioCount = 4, oc_EarlyStopMargin = fl 0.20,
     oc_BaseTemperature = fl 0.35, oc_MaxEvaluate = 32, oc_MinEvaluate = 4 \<rparr>"

definition defaultSimConfig :: "f64 \<Rightarrow> int \<Rightarrow> SimConfig" where
  "defaultSimConfig dt seed =
     \<lparr> sc_HorizonSteps = 12, sc_BaseLatency = 1, sc_Dt = dt, sc_DisturbanceStd = fl 0.12,
       sc_DisturbanceFreq = fl 0.2, sc_RetryFeedbackGain = fl 0.35, sc_WarmupRate = fl 0.30,
       sc_EfficiencyDecay = fl 0.12, sc_MaxQueueDelay = fl 200, sc_HazardUtilGain = fl 0.5,
       sc_HazardBacklogGain = fl 0.4, sc_HazardRetryGain = fl 0.3, sc_Seed = seed \<rparr>"

definition defaultCostParams :: "f64 \<Rightarrow> f64 \<Rightarrow> AdvisoryBundle \<Rightarrow> CostParams" where
  "defaultCostParams targetUtil risk adv =
    (let backlog = aa_PredictedBacklog (av_Autopilot adv);
         backlogFactor = math_Pow (math_Max 0 backlog / fl 40) (fl 2.5);
         utilPenalty = (if 0 < backlog then fl 0.05 * risk else 0)
     in \<lparr> cp_InfraUnitCost = 1, cp_SLAWeight = fl 1.5 + risk + math_Max 0 (sa_Urgency (av_Sandbox adv)),
          cp_RiskWeight = fl 1.5 + fl 1 * risk, cp_BacklogWeight = fl 5 + backlogFactor * fl 2,
          cp_UtilTarget = f64_clamp (targetUtil - utilPenalty) (fl 0.45) (fl 0.85),
          cp_UtilBand = fl 0.15, cp_SmoothReplica = fl 0.12, cp_SmoothRetry = fl 0.20,
          cp_SmoothQueue = fl 0.20, cp_SmoothCache = fl 0.20, cp_CacheCostWeight = fl 0.50 \<rparr>)"

definition enforceBundleBounds :: "Bundle \<Rightarrow> ActionBounds \<Rightarrow> Bundle" where
  \<comment> \<open>declared in the file, called from nowhere\<close>
  "enforceBundleBounds b bounds =
     b\<lparr> bn_Replicas := clampInt (bn_Replicas b) (ab_MinReplicas bounds) (ab_MaxReplicas bounds),
        bn_QueueLimit := f64_clamp (bn_QueueLimit b) (f64_of_int (ab_MinQueue bounds)) (f64_of_int (ab_MaxQueue bounds)),
        bn_RetryLimit := clampInt (bn_RetryLimit b) (ab_MinRetry bounds) (ab_MaxRetry bounds),
        bn_CacheAggression := f64_clamp (bn_CacheAggression b) (ab_MinCache bounds) (ab_MaxCache bounds) \<rparr>"

definition scaleFromBundle :: "SystemState \<Rightarrow> Bundle \<Rightarrow> f64" where
  "scaleFromBundle state b =
     f64_of_int (maxInt (bn_Replicas b) 1) / f64_of_int (maxInt (sys_Replicas state) 1)"

definition bundle_key :: "Bundle \<Rightarrow> int \<times> int \<times> int" where
  "bundle_key b = (bn_Replicas b, int_of_f64 (math_Round (bn_QueueLimit b)), bn_RetryLimit b)"

fun unique_from :: "(int \<times> int \<times> int) list \<Rightarrow> Bundle list \<Rightarrow> Bundle list" where
  "unique_from seen [] = []"
| "unique_from seen (b # bs) =
    (if bundle_key b \<in> set seen then unique_from seen bs
     else b # unique_from (bundle_key b # seen) bs)"

definition uniqueBundles :: "Bundle list \<Rightarrow> Bundle list" where
  "uniqueBundles bs = unique_from [] bs"

definition minPositiveInt :: "int \<Rightarrow> int \<Rightarrow> int" where
  "minPositiveInt a b = (if a \<le> 0 then b else if b \<le> 0 then a else if a < b then a else b)"

fun fnv64a :: "u64 \<Rightarrow> string \<Rightarrow> u64" where
  \<comment> \<open>\<open>hash/fnv\<close>\<close>
  "fnv64a h [] = h"
| "fnv64a h (c # cs) = fnv64a ((h XOR of_char c) * 1099511628211) cs"

definition seedFor :: "string \<Rightarrow> u64 \<Rightarrow> u64 \<Rightarrow> int" where
  "seedFor serviceID tick salt =
    (let v = (fnv64a 14695981039346656037 serviceID XOR (tick * 0x9e3779b97f4a7c15)) XOR salt
     in sint (if v = 0 then 1 else v))"

section \<open>Bounds and candidates\<close>

definition deriveBounds ::
  "SystemState \<Rightarrow> AdvisoryBundle \<Rightarrow> DecisionQuality \<Rightarrow> ActionBounds \<times> DecisionQuality" where
  "deriveBounds state adv quality =
    (let minR = maxInt (sys_MinReplicas state) 1;
         maxR = sys_MaxReplicas state;
         maxR = (if maxR \<le> 0 then maxInt (sys_Replicas state * 10) minR else maxR);
         minR = (if 0 < pa_MinReplicas (av_Policy adv) then maxInt minR (pa_MinReplicas (av_Policy adv)) else minR);
         maxR = (if 0 < pa_MaxReplicas (av_Policy adv) then pa_MaxReplicas (av_Policy adv) else maxR);
         minR = (if 0 < aa_MinReplicas (av_Autopilot adv) then maxInt minR (aa_MinReplicas (av_Autopilot adv)) else minR);
         maxR = (if 0 < aa_MaxReplicas (av_Autopilot adv)
                 then minPositiveInt maxR (aa_MaxReplicas (av_Autopilot adv)) else maxR);
         risk = aggregateAdvisoryRisk state adv;
         minR = (if fl 0.75 < risk then maxInt minR (sys_Replicas state) else minR);
         quality = (if maxR < minR
            then quality\<lparr> dq_Contradictions := dq_Contradictions quality @
                   [''replica bounds inverted; widened max to min''] \<rparr> else quality);
         maxR = (if maxR < minR then minR else maxR);
         minRetry = maxInt (sys_MinRetry state) 1;
         maxRetry = sys_MaxRetry state;
         maxRetry = (if maxRetry \<le> 0 then maxInt (sys_RetryLimit state + 2) minRetry else maxRetry)
     in (\<lparr> ab_MinReplicas = minR, ab_MaxReplicas = maxR, ab_MinQueue = 1,
           ab_MaxQueue = maxInt (sys_QueueLimit state * 2) (sys_QueueLimit state + 1),
           ab_MinRetry = minRetry, ab_MaxRetry = maxRetry, ab_MinCache = 0, ab_MaxCache = 1 \<rparr>, quality))"

definition replica_candidate :: "SystemState \<Rightarrow> ActionBounds \<Rightarrow> int \<Rightarrow> Bundle" where
  \<comment> \<open>\<open>addReplicas\<close>\<close>
  "replica_candidate state bounds replicas =
     (bundleFromState state)\<lparr> bn_Replicas := clampInt replicas (ab_MinReplicas bounds) (ab_MaxReplicas bounds) \<rparr>"

definition scale_candidate :: "SystemState \<Rightarrow> ActionBounds \<Rightarrow> f64 \<Rightarrow> Bundle list" where
  \<comment> \<open>\<open>addScale\<close>\<close>
  "scale_candidate state bounds scale =
    (if scale \<le> 0 \<or> math_IsNaN scale \<or> math_IsInf scale then []
     else [replica_candidate state bounds
             (int_of_f64 (math_Round (f64_of_int (sys_Replicas state) * scale)))])"

definition advisoryCandidates ::
  "SystemState \<Rightarrow> ActionBounds \<Rightarrow> AdvisoryBundle \<Rightarrow> ControlCandidate list \<Rightarrow> Bundle list" where
  "advisoryCandidates state bounds adv opt =
     (if 0 < pa_DesiredReplicas (av_Policy adv)
      then [replica_candidate state bounds (pa_DesiredReplicas (av_Policy adv))] else []) @
     (if \<not> feq (sa_CapacityDelta (av_Sandbox adv)) 0
      then scale_candidate state bounds (1 + sa_CapacityDelta (av_Sandbox adv)) else []) @
     concat (map (\<lambda>c. if \<not> cc_Feasible c \<and> fl 0.9 < cc_RiskScore c then []
                      else scale_candidate state bounds (cc_ScaleFactor c)) opt)"

definition enforceScaleRate :: "f64 \<Rightarrow> f64 \<Rightarrow> f64 \<Rightarrow> f64" where
  \<comment> \<open>the first argument is \<open>a.LastDirective.ScaleFactor\<close>\<close>
  "enforceScaleRate lst scale maxDelta =
    (if lst \<le> 0 \<or> maxDelta \<le> 0 then scale
     else let delta = scale - lst in
       if \<bar>delta\<bar> \<le> maxDelta then scale else lst + math_Copysign maxDelta delta)"

section \<open>The decision\<close>

definition used_signals :: "string list" where
  "used_signals = [''autopilot.bounds'', ''autopilot.risk'', ''autopilot.trajectory'',
     ''intelligence.regime'', ''intelligence.risk_ewma'', ''intelligence.cost_shape'',
     ''policy.bounds'', ''policy.candidates'', ''sandbox.risk'', ''sandbox.candidates'',
     ''optimizer.ranked_candidates'']"

definition search_radius :: "SystemState \<Rightarrow> AdvisoryBundle \<Rightarrow> f64 \<Rightarrow> int" where
  "search_radius state adv risk =
    (let radius = 3;
         radius = (if fl 0.5 < risk then 6 else radius);
         radius = (if fl 0.75 < risk then 10 else radius);
         radius = (if 2 \<le> ia_Regime (av_Intelligence adv) \<or> aa_Warning (av_Autopilot adv)
                   then radius + 1 else radius)
     in if sys_Utilisation state < fl 0.4 \<and>
           sys_QueueDepth state < f64_of_int (sys_QueueLimit state) * fl 0.1
        then let reach = int_of_f64 (f64_of_int (sys_Replicas state) * (1 - sys_Utilisation state / fl 0.7))
             in if radius < reach then reach else radius
        else radius)"

definition direction :: "f64 \<Rightarrow> string" where
  "direction rawScale =
    (if fl 1.05 < rawScale then ''up'' else if rawScale < fl 0.95 then ''down'' else ''hold'')"

definition apply_cooldown :: "u64 \<Rightarrow> f64 \<Rightarrow> Authority \<Rightarrow> f64 \<times> Authority" where
  \<comment> \<open>the direction tracking and the cooldown after a reversal\<close>
  "apply_cooldown tick rawScale a =
    (let dir = direction rawScale in
     if dir \<noteq> ''hold'' \<and> at_LastScaleDir a \<noteq> ''hold'' \<and> dir \<noteq> at_LastScaleDir a \<and>
        tick - at_LastScaleTick a < 3
     then (1, a)
     else if dir \<noteq> ''hold'' then (rawScale, a\<lparr> at_LastScaleDir := dir, at_LastScaleTick := tick \<rparr>)
     else (rawScale, a))"

definition final_scale :: "f64 \<Rightarrow> f64 \<Rightarrow> f64 \<Rightarrow> f64 \<Rightarrow> f64 \<times> f64" where
  \<comment> \<open>\<open>rawScale\<close> and \<open>scale\<close> at the end of \<open>Decide\<close>\<close>
  "final_scale lst queueDepth ewmaBacklog rawScale =
    (let rawScale = (if rawScale < lst \<and> ewmaBacklog < queueDepth then lst else rawScale);
         maxDelta = (if lst \<le> rawScale then fl 2 else fl 0.15)
     in (rawScale, f64_clamp (enforceScaleRate lst rawScale maxDelta) (fl 0.45) (fl 10)))"

definition decide_memory :: "SystemState \<Rightarrow> f64 \<Rightarrow> Authority \<Rightarrow> RegimeMemory" where
  "decide_memory state risk a =
     Update (zero_state\<lparr> sys_Utilisation := sys_Utilisation state, sys_Risk := risk,
                         sys_Latency := sys_Latency state \<rparr>)
       (math_Max (sys_SLATarget state) 1) risk defaultRegimeConfig
       (case at_Memory a of None \<Rightarrow> NewRegimeMemory | Some m \<Rightarrow> m)"

definition constrain :: "ActionBounds \<Rightarrow> f64 \<Rightarrow> SystemState \<Rightarrow> SystemState" where
  "constrain bounds risk state =
     state\<lparr> sys_MinReplicas := ab_MinReplicas bounds, sys_MaxReplicas := ab_MaxReplicas bounds,
            sys_MinRetry := ab_MinRetry bounds, sys_MaxRetry := ab_MaxRetry bounds, sys_Risk := risk \<rparr>"

definition decide_candidates ::
  "control_env \<Rightarrow> AuthorityInput \<Rightarrow> SystemState \<Rightarrow> ActionBounds \<Rightarrow> AdvisoryBundle \<Rightarrow> f64
     \<Rightarrow> RegimeMemory \<Rightarrow> Bundle list" where
  "decide_candidates env inp state bounds adv risk mem =
     uniqueBundles
       (GenerateBundles env state
          \<lparr> gc_BaseRadius = search_radius state adv risk,
            gc_Seed = seedFor (ai_ServiceID inp) (ai_Tick inp div 4) 0x41 \<rparr> (Some mem) @
        advisoryCandidates state bounds adv (ai_OptimizerCandidates inp))"

definition decide_best ::
  "control_env \<Rightarrow> AuthorityInput \<Rightarrow> SystemState \<Rightarrow> AdvisoryBundle \<Rightarrow> f64 \<Rightarrow> f64 \<Rightarrow> f64
     \<Rightarrow> RegimeMemory \<Rightarrow> Bundle list \<Rightarrow> Bundle" where
  "decide_best env inp state adv targetUtil tickSeconds risk mem candidates =
    (let best = SelectBestBundle env state candidates defaultOptimizerConfig
           (defaultSimConfig tickSeconds (seedFor (ai_ServiceID inp) (ai_Tick inp) 0x51))
           (defaultCostParams targetUtil risk adv) (Some mem)
     in if bn_Replicas best < 1 then best\<lparr> bn_Replicas := 1 \<rparr> else best)"

definition decide_directive ::
  "AuthorityInput \<Rightarrow> gotime \<Rightarrow> SystemState \<Rightarrow> f64 \<Rightarrow> f64 \<Rightarrow> Bundle \<Rightarrow> f64 \<Rightarrow> f64 \<Rightarrow> ControlDirective" where
  "decide_directive inp now state targetUtil risk best rawScale scale =
    (let sb = av_Sandbox (ai_Advisory inp) in
     \<lparr> cd_ServiceID = ai_ServiceID inp, cd_ComputedAt = now, cd_ScaleFactor = scale,
       cd_TargetUtilisation = f64_clamp (targetUtil - fl 0.05 * risk - fl 0.02 * sa_BrownoutDelta sb)
         (fl 0.45) (fl 0.90),
       cd_Error = sys_Utilisation state - targetUtil, cd_PIDOutput = 0, cd_Active = True,
       cd_StabilityMargin = 1 - risk, cd_HysteresisState = ''control-authority'',
       cd_ActuationBound = 1,
       cd_PredictiveTarget = f64_clamp (sys_Utilisation state + sys_Risk state) 0 (fl 1.5),
       cd_MPCPredictedRho = bn_HeuristicScore best, cd_MPCOvershootRisk = scale < rawScale,
       cd_MPCUnderactuationRisk = fl 0.65 < risk \<and> scale \<le> 1,
       cd_CostGradient = risk + math_Max 0 (ia_CostBias (av_Intelligence (ai_Advisory inp))),
       cd_TrajectoryCostAvg = risk, cd_MaxTrajectoryCost = math_Max risk (sa_RiskScore sb),
       cd_PlannerScaleFactor = rawScale, cd_PlannerConvergent = risk < fl 0.65,
       cd_PlannerConvex = True,
       cd_PlannerProbabilisticScore = math_Max risk (sa_RiskScore sb) \<rparr>)"

definition Decide :: "control_env \<Rightarrow> gotime \<Rightarrow> AuthorityInput \<Rightarrow> Authority \<Rightarrow> AuthorityDecision \<times> Authority" where
  \<comment> \<open>the second argument is the clock, read when \<open>Now\<close> is zero\<close>
  "Decide env clock inp a =
    (let now = (if ai_Now inp = 0 then clock else ai_Now inp);
         state = normalizeState (ai_State inp);
         a = a\<lparr> at_EWMABacklog := fl 0.3 * sys_QueueDepth state + fl 0.7 * at_EWMABacklog a \<rparr>;
         targetUtil = (if au_TargetUtilisation (ai_Config inp) \<le> 0 then fl 0.70
                       else au_TargetUtilisation (ai_Config inp));
         tickSeconds = (if au_TickSeconds (ai_Config inp) \<le> 0 then 1 else au_TickSeconds (ai_Config inp));
         adv = ai_Advisory inp;
         bq = deriveBounds state adv \<lparr> dq_UsedSignals = used_signals, dq_Contradictions = [],
                     dq_AdvisoryRisk = 0, dq_CandidateCount = 0 \<rparr>;
         bounds = fst bq;
         risk = aggregateAdvisoryRisk state adv;
         ap = av_Autopilot adv;
         adv = adv\<lparr> av_Autopilot := (if aa_InstabilityRisk ap < 0 then ap\<lparr> aa_InstabilityRisk := 0 \<rparr> else ap) \<rparr>;
         mem = decide_memory state risk a;
         state = constrain bounds risk state;
         candidates = decide_candidates env inp state bounds adv risk mem;
         quality = (snd bq)\<lparr> dq_AdvisoryRisk := risk, dq_CandidateCount := int (length candidates) \<rparr>;
         best = decide_best env inp state adv targetUtil tickSeconds risk mem candidates;
         ca = apply_cooldown (ai_Tick inp) (scaleFromBundle state best) a;
         a = snd ca;
         fs = final_scale (cd_ScaleFactor (at_LastDirective a)) (sys_QueueDepth state)
           (at_EWMABacklog a) (fst ca);
         directive = decide_directive inp now state targetUtil risk best (fst fs) (snd fs)
     in (\<lparr> ad_Directive = directive, ad_Bundle = best, ad_Bounds = bounds, ad_Quality = quality \<rparr>,
         a\<lparr> at_Memory := Some (RecordAction best mem), at_LastBundle := best,
            at_LastDirective := directive \<rparr>))"

section \<open>Bounds\<close>

lemma minPositiveInt_le: "0 < b \<Longrightarrow> minPositiveInt a b \<le> b \<and> (0 < a \<longrightarrow> minPositiveInt a b \<le> a)"
  by (simp add: minPositiveInt_def)

lemma deriveBounds_facts:
  fixes state :: SystemState and adv :: AdvisoryBundle and q :: DecisionQuality
  defines "b \<equiv> fst (deriveBounds state adv q)" and "q' \<equiv> snd (deriveBounds state adv q)"
  shows "1 \<le> ab_MinReplicas b \<and> ab_MinReplicas b \<le> ab_MaxReplicas b \<and>
    sys_MinReplicas state \<le> ab_MinReplicas b \<and> pa_MinReplicas (av_Policy adv) \<le> ab_MinReplicas b \<and>
    aa_MinReplicas (av_Autopilot adv) \<le> ab_MinReplicas b \<and> 1 \<le> ab_MinRetry b \<and>
    (dq_Contradictions q' = dq_Contradictions q \<longrightarrow>
       (0 < aa_MaxReplicas (av_Autopilot adv) \<longrightarrow> ab_MaxReplicas b \<le> aa_MaxReplicas (av_Autopilot adv)) \<and>
       (0 < pa_MaxReplicas (av_Policy adv) \<longrightarrow> ab_MaxReplicas b \<le> pa_MaxReplicas (av_Policy adv)))"
proof -
  let ?a = "av_Autopilot adv" and ?p = "av_Policy adv"
  define m1 where "m1 = max (sys_MinReplicas state) 1"
  define m2 where "m2 = (if 0 < pa_MinReplicas ?p then max m1 (pa_MinReplicas ?p) else m1)"
  define m3 where "m3 = (if 0 < aa_MinReplicas ?a then max m2 (aa_MinReplicas ?a) else m2)"
  define lo where "lo = (if fl 0.75 < aggregateAdvisoryRisk state adv then max m3 (sys_Replicas state) else m3)"
  define x1 where "x1 = (if sys_MaxReplicas state \<le> 0 then max (sys_Replicas state * 10) m1 else sys_MaxReplicas state)"
  define x2 where "x2 = (if 0 < pa_MaxReplicas ?p then pa_MaxReplicas ?p else x1)"
  define x3 where "x3 = (if 0 < aa_MaxReplicas ?a then minPositiveInt x2 (aa_MaxReplicas ?a) else x2)"
  have b: "ab_MinReplicas b = lo" "ab_MaxReplicas b = (if x3 < lo then lo else x3)"
    "ab_MinRetry b = max (sys_MinRetry state) 1"
    unfolding b_def deriveBounds_def maxInt_max Let_def fst_conv ActionBounds.simps
      m1_def [symmetric] m2_def [symmetric] m3_def [symmetric] lo_def [symmetric]
      x1_def [symmetric] x2_def [symmetric] x3_def [symmetric] by (rule refl)+
  have q: "dq_Contradictions q' = (if x3 < lo then dq_Contradictions q @ [''replica bounds inverted; widened max to min'']
      else dq_Contradictions q)"
    unfolding q'_def deriveBounds_def maxInt_max Let_def snd_conv
      m1_def [symmetric] m2_def [symmetric] m3_def [symmetric] lo_def [symmetric]
      x1_def [symmetric] x2_def [symmetric] x3_def [symmetric] by simp
  have m1: "1 \<le> m1" "sys_MinReplicas state \<le> m1" by (simp_all add: m1_def)
  then have m2: "m1 \<le> m2" "pa_MinReplicas ?p \<le> m2" by (simp_all add: m2_def)
  then have m3: "m2 \<le> m3" "aa_MinReplicas ?a \<le> m3" using m1 by (simp_all add: m3_def)
  have lo: "m3 \<le> lo" by (simp add: lo_def)
  have x: "0 < aa_MaxReplicas ?a \<longrightarrow> x3 \<le> aa_MaxReplicas ?a" "0 < pa_MaxReplicas ?p \<longrightarrow> x3 \<le> pa_MaxReplicas ?p"
    using minPositiveInt_le [of "aa_MaxReplicas ?a" x2] by (auto simp: x3_def x2_def)
  have "ab_MaxReplicas b = x3" if "dq_Contradictions q' = dq_Contradictions q"
    using that by (auto simp: q b split: if_splits)
  moreover have "lo \<le> ab_MaxReplicas b" by (simp add: b)
  ultimately show ?thesis using m1 m2 m3 lo x b(1,3) by simp
qed

text \<open>
  The derived bounds are usable whatever the advice says: at least one replica,
  never inverted, never below what the state, the policy or the autopilot asks for;
  and the ceiling is the tighter of policy and autopilot, unless that contradicts the
  floor, which is then reported in \<open>Contradictions\<close>.
\<close>

theorem deriveBounds_ok:
  fixes state :: SystemState and adv :: AdvisoryBundle and q :: DecisionQuality
  defines "b \<equiv> fst (deriveBounds state adv q)" and "q' \<equiv> snd (deriveBounds state adv q)"
  shows "1 \<le> ab_MinReplicas b \<and> ab_MinReplicas b \<le> ab_MaxReplicas b \<and>
    sys_MinReplicas state \<le> ab_MinReplicas b \<and> pa_MinReplicas (av_Policy adv) \<le> ab_MinReplicas b \<and>
    aa_MinReplicas (av_Autopilot adv) \<le> ab_MinReplicas b \<and> 1 \<le> ab_MinRetry b \<and>
    (dq_Contradictions q' = dq_Contradictions q \<longrightarrow>
       (0 < aa_MaxReplicas (av_Autopilot adv) \<longrightarrow> ab_MaxReplicas b \<le> aa_MaxReplicas (av_Autopilot adv)) \<and>
       (0 < pa_MaxReplicas (av_Policy adv) \<longrightarrow> ab_MaxReplicas b \<le> pa_MaxReplicas (av_Policy adv)))"
  unfolding b_def q'_def by (rule deriveBounds_facts)

text \<open>A concrete input, at which the witnesses evaluate.\<close>

definition capped_advice :: AdvisoryBundle where
  \<comment> \<open>no advice but a ceiling of five replicas from the autopilot\<close>
  "capped_advice =
     \<lparr> av_Autopilot = \<lparr> aa_MinReplicas = 0, aa_MaxReplicas = 5, aa_PredictedBacklog = 0,
          aa_PredictedLatency = 0, aa_InstabilityRisk = 0, aa_Confidence = 0, aa_OverrideRate = 0,
          aa_Mode = 0, aa_Damping = 0, aa_Warning = False \<rparr>,
       av_Intelligence = \<lparr> ia_Regime = 0, ia_RiskEWMA = 0, ia_AnomalyScore = 0, ia_RiskWeight = 0,
          ia_SmoothCost = 0, ia_CostBias = 0 \<rparr>,
       av_Policy = \<lparr> pa_DesiredReplicas = 0, pa_MinReplicas = 0, pa_MaxReplicas = 0, pa_RetryLimit = 0,
          pa_QueueLimit = 0, pa_CacheAggression = 0, pa_Risk = 0, pa_Confidence = 0 \<rparr>,
       av_Sandbox = \<lparr> sa_CapacityDelta = 0, sa_EfficiencyDelta = 0, sa_DampingDelta = 0,
          sa_RetryPressureDelta = 0, sa_BrownoutDelta = 0, sa_RiskScore = 0, sa_Urgency = 0,
          sa_Confidence = 0, sa_RiskUp = False \<rparr> \<rparr>"

definition capped_input :: AuthorityInput where
  \<comment> \<open>a busy service at 100 replicas\<close>
  "capped_input = \<lparr> ai_ServiceID = ''s'', ai_Tick = 1, ai_Now = 1,
     ai_State = zero_state\<lparr> sys_Replicas := 100, sys_MaxReplicas := 200, sys_QueueLimit := 10,
       sys_Utilisation := 1, sys_ServiceRate := 1, sys_SLATarget := 1, sys_RetryLimit := 1 \<rparr>,
     ai_Config = \<lparr> au_TargetUtilisation = 0, au_TickSeconds = 1, au_MaxScaleDelta = 0 \<rparr>,
     ai_Advisory = capped_advice, ai_OptimizerCandidates = [] \<rparr>"

lemma capped_risk [simp]: "aggregateAdvisoryRisk (normalizeState (ai_State capped_input)) capped_advice = 0"
proof -
  have "sys_Risk (normalizeState (ai_State capped_input)) = 0"
    by (simp add: capped_input_def normalizeState_def zero_state_def Let_def)
  moreover have "Fin 0 * fl 0.8 = Fin 0" using fl_finite [of "0.8"] by simp
  ultimately show ?thesis
    by (simp add: aggregateAdvisoryRisk_def capped_advice_def zero_f64_def f64_clamp_def one_f64_def)
qed

lemma capped_state:
  "sys_Replicas (normalizeState (ai_State capped_input)) = 100"
  "sys_MinReplicas (normalizeState (ai_State capped_input)) = 0"
  "sys_MaxReplicas (normalizeState (ai_State capped_input)) = 200"
  "sys_Utilisation (normalizeState (ai_State capped_input)) = 1"
  by (simp_all add: capped_input_def normalizeState_def zero_state_def Let_def zero_f64_def one_f64_def)

lemma capped_bounds:
  "ab_MaxReplicas (fst (deriveBounds (normalizeState (ai_State capped_input)) capped_advice q)) = 5"
proof -
  have "fl 0.75 \<le> Fin 1" using fl_mono [of "0.75" 1] by simp
  have "\<not> fl 0.75 < 0" using fl_mono [of 0 "0.75"] by (cases "fl 0.75") (auto simp: zero_f64_def)
  then show ?thesis
    unfolding deriveBounds_def Let_def capped_state capped_risk
    by (simp add: capped_advice_def minPositiveInt_def)
qed

lemma deriveBounds_ok_witness:
  "ab_MinReplicas (fst (deriveBounds (normalizeState (ai_State capped_input)) capped_advice
     \<lparr> dq_UsedSignals = [], dq_Contradictions = [], dq_AdvisoryRisk = 0, dq_CandidateCount = 0 \<rparr>)) \<in> {1..5}"
  using deriveBounds_ok [of "normalizeState (ai_State capped_input)" capped_advice
      "\<lparr> dq_UsedSignals = [], dq_Contradictions = [], dq_AdvisoryRisk = 0, dq_CandidateCount = 0 \<rparr>"]
  by (simp add: capped_bounds)

end
