(* ===== verification/AuthorityProps.thy ===== *)
theory AuthorityProps
  imports Authority
begin

text \<open>
  What \<open>Decide\<close> guarantees and what it does not: the emitted scale factor is finite, in
  range and rate limited for any advice, a reversal within the cooldown is suppressed,
  the decided bundle comes from the search or from bounded advice; and the replica
  ceiling does not bind the search.
\<close>

section \<open>The parts of a decision\<close>

definition the_state :: "AuthorityInput \<Rightarrow> SystemState" where
  "the_state inp = normalizeState (ai_State inp)"

lemma normalizeState_Replicas:
  "sys_Replicas (normalizeState s) = (if sys_Replicas s \<le> 0 then 1 else sys_Replicas s)"
  by (simp add: normalizeState_def Let_def)

lemma Decide_bounds:
  "ad_Bounds (fst (Decide env clock inp a)) =
     fst (deriveBounds (the_state inp) (ai_Advisory inp)
       \<lparr> dq_UsedSignals = used_signals, dq_Contradictions = [], dq_AdvisoryRisk = 0, dq_CandidateCount = 0 \<rparr>)"
  by (simp add: Decide_def Let_def the_state_def)

definition the_risk :: "AuthorityInput \<Rightarrow> f64" where
  "the_risk inp = aggregateAdvisoryRisk (the_state inp) (ai_Advisory inp)"

lemma Decide_bundle:
  "\<exists>adv cfgs. av_Policy adv = av_Policy (ai_Advisory inp) \<and> av_Sandbox adv = av_Sandbox (ai_Advisory inp) \<and>
     ad_Bundle (fst (Decide env clock inp a)) =
     (let bounds = ad_Bounds (fst (Decide env clock inp a));
          mem = decide_memory (the_state inp) (the_risk inp) a;
          state = constrain bounds (the_risk inp) (the_state inp);
          best = SelectBestBundle env state
            (decide_candidates env inp state bounds adv (the_risk inp) mem)
            defaultOptimizerConfig (fst cfgs) (snd cfgs) (Some mem)
      in if bn_Replicas best < 1 then best\<lparr> bn_Replicas := 1 \<rparr> else best)"
proof -
  let ?ap = "av_Autopilot (ai_Advisory inp)"
  let ?adv = "(ai_Advisory inp)\<lparr> av_Autopilot := (if aa_InstabilityRisk ?ap < 0 then ?ap\<lparr> aa_InstabilityRisk := 0 \<rparr> else ?ap) \<rparr>"
  let ?t = "if au_TargetUtilisation (ai_Config inp) \<le> 0 then fl 0.70 else au_TargetUtilisation (ai_Config inp)"
  let ?s = "if au_TickSeconds (ai_Config inp) \<le> 0 then 1 else au_TickSeconds (ai_Config inp)"
  have mem: "decide_memory s r (a\<lparr> at_EWMABacklog := x \<rparr>) = decide_memory s r a" for s r x
    by (simp add: decide_memory_def)
  show ?thesis
    by (rule exI [of _ ?adv],
        rule exI [of _ "(defaultSimConfig ?s (seedFor (ai_ServiceID inp) (ai_Tick inp) 0x51),
          defaultCostParams ?t (the_risk inp) ?adv)"])
      (simp add: Decide_def Let_def decide_best_def the_state_def the_risk_def mem)
qed

lemma Decide_scale:
  "\<exists>ew. cd_ScaleFactor (ad_Directive (fst (Decide env clock inp a))) =
     snd (final_scale (cd_ScaleFactor (at_LastDirective a)) (sys_QueueDepth (the_state inp)) ew
       (fst (apply_cooldown (ai_Tick inp)
          (scaleFromBundle (the_state inp) (ad_Bundle (fst (Decide env clock inp a)))) a)))"
proof -
  have c: "fst (apply_cooldown t r (a\<lparr> at_EWMABacklog := x \<rparr>)) = fst (apply_cooldown t r a)" for t r x
    by (simp add: apply_cooldown_def Let_def)
  have l: "at_LastDirective (snd (apply_cooldown t r (a\<lparr> at_EWMABacklog := x \<rparr>))) = at_LastDirective a"
    "at_EWMABacklog (snd (apply_cooldown t r (a\<lparr> at_EWMABacklog := x \<rparr>))) = x" for t r x
    by (simp_all add: apply_cooldown_def Let_def)
  have q: "sys_QueueDepth (constrain b r s) = sys_QueueDepth s"
    "scaleFromBundle (constrain b r s) = scaleFromBundle s" for b r s
    by (simp_all add: constrain_def scaleFromBundle_def fun_eq_iff)
  show ?thesis
    by (rule exI [of _ "fl 0.3 * sys_QueueDepth (the_state inp) + fl 0.7 * at_EWMABacklog a"])
      (simp add: Decide_def Let_def decide_directive_def the_state_def c l q)
qed

lemma Decide_last [simp]:
  "at_LastDirective (snd (Decide env clock inp a)) = ad_Directive (fst (Decide env clock inp a))"
  "at_LastBundle (snd (Decide env clock inp a)) = ad_Bundle (fst (Decide env clock inp a))"
  by (simp_all add: Decide_def Let_def)

section \<open>The rate limit\<close>

lemma rnd_le_error:
  assumes "0 \<le> y" "rnd y \<le> d" "d \<le> 2" shows "y \<le> d + 1 / 2 ^ 52"
proof (cases "y < 3")
  case True
  then have "\<bar>rnd y - y\<bar> \<le> 2 powi (- 51) / 2" using assms(1) by (intro rnd_error) auto
  then have "\<bar>rnd y - y\<bar> \<le> 1 / 2 ^ 52" by (simp add: power_int_minus)
  then show ?thesis using assms(2) by linarith
next
  case False
  then have "3 \<le> rnd y" by (intro rnd_ge) auto
  then show ?thesis using assms by simp
qed

lemma rnd_error_12: "\<bar>y\<bar> \<le> 12 \<Longrightarrow> \<bar>rnd y - y\<bar> \<le> 1 / 2 ^ 50"
  using rnd_error [of y "- 49"] by (simp add: power_int_minus)

lemma fl_12: "\<bar>y\<bar> \<le> 12 \<Longrightarrow> fl y = Fin (rnd y)"
  by (rule fl_finite) simp

lemma enforce_up:
  assumes l: "0 < l" "l \<le> 10" and D: "1 / 8 \<le> D" "D \<le> 2" "frep D" and raw: "Fin l \<le> raw"
  shows "\<exists>x. enforceScaleRate (Fin l) raw (Fin D) = Fin x \<and> l \<le> x \<and> x \<le> l + D + 1 / 2 ^ 49 \<and>
    (\<forall>c. frep c \<longrightarrow> raw \<le> Fin c \<longrightarrow> x \<le> c)"
proof -
  have far: ?thesis if delta: "raw - Fin l = PInf \<or> (\<exists>d. raw - Fin l = Fin d \<and> D < d)"
    and ge: "\<And>r. raw = Fin r \<Longrightarrow> l + D \<le> r"
  proof -
    have e: "enforceScaleRate (Fin l) raw (Fin D) = Fin (rnd (l + D))"
      using delta l D fl_12 [of "l + D"]
      by (auto simp: enforceScaleRate_def Let_def zero_f64_def math_Copysign_def)
    have "\<bar>rnd (l + D) - (l + D)\<bar> \<le> 1 / 2 ^ 50" using l D by (intro rnd_error_12) auto
    then have r: "l \<le> rnd (l + D)" "rnd (l + D) \<le> l + D + 1 / 2 ^ 49"
      using D unfolding abs_le_iff by simp_all
    have "rnd (l + D) \<le> c" if c: "frep c" "raw \<le> Fin c" for c
    proof -
      obtain r where "raw = Fin r" using raw c(2) by (cases raw) auto
      then show ?thesis using ge c by (intro rnd_le) auto
    qed
    with e r show ?thesis by blast
  qed
  show ?thesis
  proof (cases raw)
    case (Fin r)
    then have lr: "0 \<le> r - l" using raw by simp
    have delta: "raw - Fin l = fl (r - l)" using Fin by simp
    from fl_pos_cases [OF lr] show ?thesis
    proof
      assume inf: "fl (r - l) = PInf"
      have "l + D \<le> r"
      proof (rule ccontr)
        assume "\<not> l + D \<le> r"
        then have "fl (r - l) = Fin (rnd (r - l))" using lr D by (intro fl_12) auto
        then show False using inf by simp
      qed
      then show ?thesis using inf delta Fin by (intro far) auto
    next
      assume fin: "fl (r - l) = Fin (rnd (r - l))"
      show ?thesis
      proof (cases "rnd (r - l) \<le> D")
        case True
        have "0 \<le> rnd (r - l)" using lr by (rule rnd_nonneg)
        then have "enforceScaleRate (Fin l) raw (Fin D) = Fin r"
          using True l D delta fin Fin by (auto simp: enforceScaleRate_def Let_def zero_f64_def)
        moreover have "r - l \<le> D + 1 / 2 ^ 52" by (rule rnd_le_error [OF lr True D(2)])
        ultimately show ?thesis using lr Fin by auto
      next
        case False
        have "l + D \<le> r"
        proof (rule ccontr)
          assume "\<not> l + D \<le> r"
          then have "rnd (r - l) \<le> D" by (intro rnd_le D) auto
          then show False using False by simp
        qed
        then show ?thesis using False fin delta Fin by (intro far) auto
      qed
    qed
  next
    case PInf
    then show ?thesis by (intro far) (auto simp: minus_f64_def)
  qed (use raw in auto)
qed

lemma enforce_down:
  assumes l: "0 < l" "l \<le> 10" and D: "1 / 8 \<le> D" "D \<le> 2" "frep D" and raw: "raw < Fin l"
  shows "\<exists>x. enforceScaleRate (Fin l) raw (Fin D) = Fin x \<and> x \<le> l \<and> l - D - 1 / 2 ^ 49 \<le> x \<and>
    (\<forall>c. frep c \<longrightarrow> Fin c \<le> raw \<longrightarrow> c \<le> x)"
proof -
  have far: ?thesis if delta: "raw - Fin l = NInf \<or> (\<exists>d. raw - Fin l = Fin (- d) \<and> D < d)"
    and ge: "\<And>r. raw = Fin r \<Longrightarrow> r \<le> l - D"
  proof -
    have e: "enforceScaleRate (Fin l) raw (Fin D) = Fin (rnd (l - D))"
      using delta l D fl_12 [of "l - D"]
      by (auto simp: enforceScaleRate_def Let_def zero_f64_def math_Copysign_def)
    have "\<bar>rnd (l - D) - (l - D)\<bar> \<le> 1 / 2 ^ 50" using l D by (intro rnd_error_12) auto
    then have r: "rnd (l - D) \<le> l" "l - D - 1 / 2 ^ 49 \<le> rnd (l - D)"
      using D unfolding abs_le_iff by simp_all
    have "c \<le> rnd (l - D)" if c: "frep c" "Fin c \<le> raw" for c
    proof -
      obtain r where "raw = Fin r" using raw c(2) by (cases raw) auto
      then show ?thesis using ge c by (intro rnd_ge) auto
    qed
    with e r show ?thesis by blast
  qed
  show ?thesis
  proof (cases raw)
    case (Fin r)
    then have lr: "0 \<le> l - r" using raw by simp
    have delta: "raw - Fin l = - fl (l - r)" using Fin fl_minus [of "l - r"] by simp
    from fl_pos_cases [OF lr] show ?thesis
    proof
      assume inf: "fl (l - r) = PInf"
      have "r \<le> l - D"
      proof (rule ccontr)
        assume "\<not> r \<le> l - D"
        then have "fl (l - r) = Fin (rnd (l - r))" using lr D by (intro fl_12) auto
        then show False using inf by simp
      qed
      then show ?thesis using inf delta Fin by (intro far) auto
    next
      assume fin: "fl (l - r) = Fin (rnd (l - r))"
      show ?thesis
      proof (cases "rnd (l - r) \<le> D")
        case True
        have "0 \<le> rnd (l - r)" using lr by (rule rnd_nonneg)
        then have "enforceScaleRate (Fin l) raw (Fin D) = Fin r"
          using True l D delta fin Fin by (auto simp: enforceScaleRate_def Let_def zero_f64_def)
        moreover have "l - r \<le> D + 1 / 2 ^ 52" by (rule rnd_le_error [OF lr True D(2)])
        ultimately show ?thesis using lr Fin by auto
      next
        case False
        have "r \<le> l - D"
        proof (rule ccontr)
          assume "\<not> r \<le> l - D"
          then have "rnd (l - r) \<le> D" by (intro rnd_le D) auto
          then show False using False by simp
        qed
        then show ?thesis using False fin delta Fin by (intro far) auto
      qed
    qed
  next
    case NInf
    then show ?thesis by (intro far) (auto simp: minus_f64_def)
  qed (use raw in auto)
qed

definition scale_ok :: "f64 \<Rightarrow> bool" where
  "scale_ok s \<longleftrightarrow> fl 0.45 \<le> s \<and> s \<le> fl 10"

lemma fl_045: obtains L where "fl 0.45 = Fin L" "frep L" "2 / 5 \<le> L" "L \<le> 1 / 2"
proof -
  have "fbtw 0 (fl 0.45) (1 / 2)" by (rule fbtw_fl) auto
  then obtain L where L: "fl 0.45 = Fin L" "L \<le> 1 / 2" by (rule fbtwE)
  have r: "L = rnd 0.45" using L(1) fl_finite [of "0.45"] by simp
  then have "\<bar>L - 0.45\<bar> \<le> 1 / 2 ^ 54" using rnd_error_unit [of "0.45"] by simp
  then have "0.45 - L \<le> 1 / 2 ^ 54" by linarith
  then have "2 / 5 \<le> L" by simp
  with L r show ?thesis by (intro that [of L]) (auto simp: frep_rnd)
qed

lemma fl_015: obtains D where "fl 0.15 = Fin D" "frep D" "1 / 8 \<le> D" "D \<le> 0.15 + 1 / 2 ^ 54"
proof -
  have r: "fl 0.15 = Fin (rnd 0.15)" using fl_finite [of "0.15"] by simp
  have "\<bar>rnd 0.15 - 0.15\<bar> \<le> 1 / 2 ^ 54" by (intro rnd_error_unit) simp
  then have "rnd 0.15 - 0.15 \<le> 1 / 2 ^ 54" by linarith
  moreover have "1 / 8 \<le> rnd 0.15" by (rule rnd_ge) auto
  ultimately show ?thesis using r by (intro that [of "rnd 0.15"]) (auto simp: frep_rnd)
qed

lemma scale_okE:
  assumes "scale_ok s" obtains l where "s = Fin l" "2 / 5 \<le> l" "l \<le> 10" "fl 0.45 \<le> Fin l"
proof -
  obtain L where L: "fl 0.45 = Fin L" "2 / 5 \<le> L" by (rule fl_045)
  from assms L show ?thesis by (cases s) (auto simp: scale_ok_def intro: that)
qed

lemma clamp_scale_ok: "x \<noteq> NaN \<Longrightarrow> scale_ok (f64_clamp x (fl 0.45) (fl 10))"
  unfolding scale_ok_def by (intro f64_clamp_le fl_mono) simp_all

lemma clamp_between:
  assumes "scale_ok (Fin l)"
  shows "\<exists>y. f64_clamp (Fin x) (fl 0.45) (fl 10) = Fin y \<and> min x l \<le> y \<and> y \<le> max x l"
proof -
  obtain L where L: "fl 0.45 = Fin L" by (rule fl_045)
  then show ?thesis using assms by (auto simp: f64_clamp_def scale_ok_def)
qed

text \<open>The last factor before the first decision is zero: then the rate is not limited.\<close>

lemma final_scale_first:
  "raw \<noteq> NaN \<Longrightarrow> scale_ok (snd (final_scale 0 q ew raw))"
  using clamp_scale_ok [of raw] clamp_scale_ok [of "Fin 0"]
  by (auto simp: final_scale_def Let_def enforceScaleRate_def zero_f64_def)

lemma enforce_same: "0 < l \<Longrightarrow> 0 < D \<Longrightarrow> enforceScaleRate (Fin l) (Fin l) (Fin D) = Fin l"
  by (simp add: enforceScaleRate_def Let_def zero_f64_def)

lemma final_scale_step:
  assumes lst: "scale_ok lst" and raw: "raw \<noteq> NaN"
  shows "\<exists>l s. lst = Fin l \<and> snd (final_scale lst q ew raw) = Fin s \<and> scale_ok (Fin s) \<and>
    s \<le> l + 2 + 1 / 2 ^ 48 \<and> l - 0.15 - 1 / 2 ^ 48 \<le> s \<and>
    (\<forall>c. frep c \<longrightarrow> raw \<le> Fin c \<longrightarrow> s \<le> max c l) \<and> (\<forall>c. frep c \<longrightarrow> Fin c \<le> raw \<longrightarrow> min c l \<le> s)"
proof -
  obtain l where l: "lst = Fin l" "2 / 5 \<le> l" "l \<le> 10" using lst by (rule scale_okE)
  obtain D where D: "fl 0.15 = Fin D" "frep D" "1 / 8 \<le> D" "D \<le> 0.15 + 1 / 2 ^ 54" by (rule fl_015)
  define r where "r = (if raw < lst \<and> ew < q then lst else raw)"
  have r: "r \<noteq> NaN" "(raw \<le> Fin c \<longrightarrow> r \<le> Fin (max c l))" "(Fin c \<le> raw \<longrightarrow> Fin (min c l) \<le> r)" for c
    using raw l by (cases raw; auto simp: r_def)+
  have s: "snd (final_scale lst q ew raw) =
      f64_clamp (enforceScaleRate lst r (if lst \<le> r then fl 2 else fl 0.15)) (fl 0.45) (fl 10)"
    by (simp add: final_scale_def r_def Let_def)
  have "\<exists>x. enforceScaleRate lst r (if lst \<le> r then fl 2 else fl 0.15) = Fin x \<and>
      x \<le> l + 2 + 1 / 2 ^ 48 \<and> l - 0.15 - 1 / 2 ^ 48 \<le> x \<and>
      (l \<le> x \<and> (\<forall>c. frep c \<longrightarrow> r \<le> Fin c \<longrightarrow> x \<le> c) \<or> x \<le> l \<and> (\<forall>c. frep c \<longrightarrow> Fin c \<le> r \<longrightarrow> c \<le> x))"
  proof (cases "lst \<le> r")
    case True
    then obtain x where "enforceScaleRate (Fin l) r (Fin 2) = Fin x" "l \<le> x" "x \<le> l + 2 + 1 / 2 ^ 49"
      "\<forall>c. frep c \<longrightarrow> r \<le> Fin c \<longrightarrow> x \<le> c"
      using enforce_up [of l 2 r] l by auto
    then show ?thesis using True l by (intro exI [of _ x]) auto
  next
    case False
    then have "r < Fin l" using r(1) l by (cases r) auto
    then obtain x where x: "enforceScaleRate (Fin l) r (Fin D) = Fin x" "x \<le> l" "l - D - 1 / 2 ^ 49 \<le> x"
      "\<forall>c. frep c \<longrightarrow> Fin c \<le> r \<longrightarrow> c \<le> x"
      using enforce_down [of l D r] l D by auto
    moreover have "l - 0.15 - 1 / 2 ^ 48 \<le> x" using x(3) D(4) by simp
    ultimately show ?thesis using False l D by (intro exI [of _ x]) auto
  qed
  then obtain x where x: "enforceScaleRate lst r (if lst \<le> r then fl 2 else fl 0.15) = Fin x"
      "x \<le> l + 2 + 1 / 2 ^ 48" "l - 0.15 - 1 / 2 ^ 48 \<le> x"
      "l \<le> x \<and> (\<forall>c. frep c \<longrightarrow> r \<le> Fin c \<longrightarrow> x \<le> c) \<or> x \<le> l \<and> (\<forall>c. frep c \<longrightarrow> Fin c \<le> r \<longrightarrow> c \<le> x)"
    by blast
  obtain y where y: "f64_clamp (Fin x) (fl 0.45) (fl 10) = Fin y" "min x l \<le> y" "y \<le> max x l"
    using clamp_between lst l(1) by blast
  have same: "x = l" if "r = lst"
    using x(1) that l enforce_same [of l 2] by simp
  have r': "r = lst \<or> r = raw" by (simp add: r_def)
  have up: "x \<le> max c l" if "frep c" "raw \<le> Fin c" for c
    using r' x(4) that same by (auto simp: max_def)
  have down: "min c l \<le> x" if "frep c" "Fin c \<le> raw" for c
    using r' x(4) that same by (auto simp: min_def)
  have ok: "scale_ok (Fin y)" using clamp_scale_ok [of "Fin x"] y(1) by simp
  have e: "snd (final_scale lst q ew raw) = Fin y" using s x(1) y(1) by simp
  have "max x l \<le> l + 2 + 1 / 2 ^ 48" "l - 0.15 - 1 / 2 ^ 48 \<le> min x l" using x(2,3) by simp_all
  then have rate: "y \<le> l + 2 + 1 / 2 ^ 48" "l - 0.15 - 1 / 2 ^ 48 \<le> y" using y(2,3) by linarith+
  have "\<forall>c. frep c \<longrightarrow> raw \<le> Fin c \<longrightarrow> y \<le> max c l"
    using up y(3) by (meson max.bounded_iff max.cobounded2 order_trans)
  moreover have "\<forall>c. frep c \<longrightarrow> Fin c \<le> raw \<longrightarrow> min c l \<le> y"
    using down y(2) by (meson min.bounded_iff min.cobounded2 order_trans)
  ultimately show ?thesis using l(1) e ok rate by blast
qed

lemma ratio_not_NaN:
  assumes "1 \<le> r" "r \<le> maxI64" shows "f64_of_int (max b 1) / f64_of_int r \<noteq> NaN"
proof -
  have "real_of_int r \<le> of_int maxI64" using assms(2) by (simp only: of_int_le_iff)
  also have "\<dots> \<le> big" unfolding big_def maxI64_def by simp
  finally have f: "f64_of_int r = Fin (rnd (of_int r))"
    unfolding f64_of_int_def using assms(1) by (intro fl_Fin) simp
  have "1 \<le> rnd (of_int r)" using assms(1) by (intro rnd_ge) auto
  moreover have "f64_of_int (max b 1) = PInf \<or> f64_of_int (max b 1) = Fin (rnd (of_int (max b 1)))"
    unfolding f64_of_int_def by (rule fl_pos_cases) simp
  ultimately show ?thesis using f by (auto simp: not_less)
qed

lemma scaleFromBundle_not_NaN:
  "sys_Replicas s \<le> maxI64 \<Longrightarrow> scaleFromBundle s b \<noteq> NaN"
  using ratio_not_NaN [of "max (sys_Replicas s) 1" "bn_Replicas b"]
  by (simp add: scaleFromBundle_def maxI64_def)

lemma the_state_Replicas: "sys_Replicas (ai_State inp) \<le> maxI64 \<Longrightarrow> sys_Replicas (the_state inp) \<le> maxI64"
  by (simp add: the_state_def normalizeState_Replicas maxI64_def)

lemma cooldown_not_NaN: "r \<noteq> NaN \<Longrightarrow> fst (apply_cooldown t r a) \<noteq> NaN"
  by (simp add: apply_cooldown_def Let_def one_f64_def)

definition emitted :: "AuthorityDecision \<times> Authority \<Rightarrow> f64" where
  "emitted d = cd_ScaleFactor (ad_Directive (fst d))"

lemma Decide_not_NaN:
  "sys_Replicas (ai_State inp) \<le> maxI64 \<Longrightarrow>
   fst (apply_cooldown t (scaleFromBundle (the_state inp) b) a) \<noteq> NaN"
  by (intro cooldown_not_NaN scaleFromBundle_not_NaN the_state_Replicas)

lemma Decide_first:
  assumes "sys_Replicas (ai_State inp) \<le> maxI64" "cd_ScaleFactor (at_LastDirective a) = 0"
  shows "scale_ok (emitted (Decide env clock inp a))"
proof -
  obtain ew where "emitted (Decide env clock inp a) =
     snd (final_scale (cd_ScaleFactor (at_LastDirective a)) (sys_QueueDepth (the_state inp)) ew
       (fst (apply_cooldown (ai_Tick inp)
          (scaleFromBundle (the_state inp) (ad_Bundle (fst (Decide env clock inp a)))) a)))"
    using Decide_scale [of env clock inp a] unfolding emitted_def by blast
  then show ?thesis
    using final_scale_first [OF Decide_not_NaN [OF assms(1)]] assms(2) by simp
qed

lemma Decide_next:
  assumes "sys_Replicas (ai_State inp) \<le> maxI64" "cd_ScaleFactor (at_LastDirective a) = lst" "scale_ok lst"
  shows "scale_ok (emitted (Decide env clock inp a)) \<and>
    val (emitted (Decide env clock inp a)) \<le> val lst + 2 + 1 / 2 ^ 48 \<and>
    val lst - 0.15 - 1 / 2 ^ 48 \<le> val (emitted (Decide env clock inp a))"
proof -
  obtain ew where e: "emitted (Decide env clock inp a) =
     snd (final_scale lst (sys_QueueDepth (the_state inp)) ew
       (fst (apply_cooldown (ai_Tick inp)
          (scaleFromBundle (the_state inp) (ad_Bundle (fst (Decide env clock inp a)))) a)))"
    using Decide_scale [of env clock inp a] assms(2) unfolding emitted_def by blast
  show ?thesis
    using final_scale_step [OF assms(3) Decide_not_NaN [OF assms(1)]] e by (metis val.simps(1))
qed

text \<open>The factors an authority emits over a sequence of ticks.\<close>

fun decisions :: "(control_env \<times> gotime \<times> AuthorityInput) list \<Rightarrow> Authority \<Rightarrow> f64 list" where
  "decisions [] a = []"
| "decisions ((env, clock, inp) # xs) a =
     emitted (Decide env clock inp a) # decisions xs (snd (Decide env clock inp a))"

definition rate_ok :: "f64 \<Rightarrow> f64 \<Rightarrow> bool" where
  \<comment> \<open>to within the rounding of the sums\<close>
  "rate_ok s s' \<longleftrightarrow> val s' \<le> val s + 2 + 1 / 2 ^ 48 \<and> val s - 0.15 - 1 / 2 ^ 48 \<le> val s'"

lemma decisions_safe:
  assumes "\<forall>x \<in> set xs. sys_Replicas (ai_State (snd (snd x))) \<le> maxI64"
    "cd_ScaleFactor (at_LastDirective a) = lst" "scale_ok lst"
  shows "(\<forall>s \<in> set (decisions xs a). scale_ok s) \<and> successively rate_ok (lst # decisions xs a)"
  using assms
proof (induction xs arbitrary: a lst)
  case (Cons x xs)
  obtain env clock inp where x: "x = (env, clock, inp)" by (cases x)
  note step = Decide_next [of inp a lst env clock]
  have last: "cd_ScaleFactor (at_LastDirective (snd (Decide env clock inp a))) = emitted (Decide env clock inp a)"
    by (simp add: emitted_def)
  have ok: "scale_ok (emitted (Decide env clock inp a))" using step Cons.prems x by simp
  have rate: "rate_ok lst (emitted (Decide env clock inp a))"
    using step Cons.prems x unfolding rate_ok_def by simp
  have "\<forall>x \<in> set xs. sys_Replicas (ai_State (snd (snd x))) \<le> maxI64" using Cons.prems by simp
  from Cons.IH [OF this last ok] show ?case using ok rate by (simp add: x)
qed simp

text \<open>
  C2: whatever the advice, the measurements and the optimizer's candidates are (NaN and
  infinities included), every scale factor that an authority emits is a finite number
  between 0.45 and 10, and two successive factors differ by at most 2 upwards and by
  at most 0.15 downwards, up to the rounding of one sum.  The only hypothesis is that
  replica counts are 64-bit integers.
\<close>

theorem scale_safe:
  assumes "\<forall>x \<in> set xs. sys_Replicas (ai_State (snd (snd x))) \<le> maxI64"
  shows "(\<forall>s \<in> set (decisions xs NewAuthority). fl 0.45 \<le> s \<and> s \<le> fl 10) \<and>
    successively (\<lambda>s s'. val s' \<le> val s + 2 + 1 / 2 ^ 48 \<and> val s - 0.15 - 1 / 2 ^ 48 \<le> val s')
      (decisions xs NewAuthority)"
proof (cases xs)
  case (Cons x ys)
  obtain env clock inp where x: "x = (env, clock, inp)" by (cases x)
  have ok: "scale_ok (emitted (Decide env clock inp NewAuthority))"
    using assms Cons x by (intro Decide_first) (simp_all add: NewAuthority_def zero_directive_def)
  have last: "cd_ScaleFactor (at_LastDirective (snd (Decide env clock inp NewAuthority))) =
    emitted (Decide env clock inp NewAuthority)" by (simp add: emitted_def)
  have "\<forall>x \<in> set ys. sys_Replicas (ai_State (snd (snd x))) \<le> maxI64" using assms Cons by simp
  from decisions_safe [OF this last ok] ok show ?thesis
    unfolding Cons x decisions.simps rate_ok_def scale_ok_def by simp
qed simp

lemma scale_safe_witness:
  "fl 0.45 \<le> emitted (Decide identity_env 0 capped_input NewAuthority) \<and>
   emitted (Decide identity_env 0 capped_input NewAuthority) \<le> fl 10"
  using scale_safe [of "[(identity_env, 0, capped_input), (identity_env, 0, capped_input)]"]
  by (simp add: capped_input_def maxI64_def)

section \<open>The cooldown\<close>

lemma direction_cases:
  assumes "raw \<noteq> NaN"
  shows "direction raw \<in> {''up'', ''down'', ''hold''}" "direction raw \<noteq> ''down'' \<Longrightarrow> fl 0.95 \<le> raw"
    "direction raw \<noteq> ''up'' \<Longrightarrow> raw \<le> fl 1.05"
proof -
  show "direction raw \<in> {''up'', ''down'', ''hold''}" by (simp add: direction_def)
  show "fl 0.95 \<le> raw" if "direction raw \<noteq> ''down''"
  proof (cases "fl 1.05 < raw")
    case True
    then show ?thesis using fl_mono [of "0.95" "1.05"] by (auto intro: le_trans64 less_imp_le64)
  next
    case False
    then show ?thesis using that assms not_less64 [of raw "fl 0.95"] by (auto simp: direction_def split: if_splits)
  qed
  show "raw \<le> fl 1.05" if "direction raw \<noteq> ''up''"
    using that assms not_less64 [of "fl 1.05" raw] by (auto simp: direction_def split: if_splits)
qed

lemma cooldown_up:
  assumes "raw \<noteq> NaN" "at_LastScaleDir a = ''up''" "tick - at_LastScaleTick a < 3"
  shows "fl 0.95 \<le> fst (apply_cooldown tick raw a)" "at_LastScaleDir (snd (apply_cooldown tick raw a)) = ''up''"
proof -
  have "fl 0.95 \<le> 1" using fl_mono [of "0.95" 1] by (simp add: one_f64_def)
  then show "fl 0.95 \<le> fst (apply_cooldown tick raw a)" "at_LastScaleDir (snd (apply_cooldown tick raw a)) = ''up''"
    using assms direction_cases [OF assms(1)] by (auto simp: apply_cooldown_def Let_def)
qed

lemma cooldown_down:
  assumes "raw \<noteq> NaN" "at_LastScaleDir a = ''down''" "tick - at_LastScaleTick a < 3"
  shows "fst (apply_cooldown tick raw a) \<le> fl 1.05" "at_LastScaleDir (snd (apply_cooldown tick raw a)) = ''down''"
proof -
  have "1 \<le> fl 1.05" using fl_mono [of 1 "1.05"] by (simp add: one_f64_def)
  then show "fst (apply_cooldown tick raw a) \<le> fl 1.05" "at_LastScaleDir (snd (apply_cooldown tick raw a)) = ''down''"
    using assms direction_cases [OF assms(1)] by (auto simp: apply_cooldown_def Let_def)
qed

lemma Decide_dir:
  "at_LastScaleDir (snd (Decide env clock inp a)) =
   at_LastScaleDir (snd (apply_cooldown (ai_Tick inp)
     (scaleFromBundle (the_state inp) (ad_Bundle (fst (Decide env clock inp a)))) a))"
proof -
  have c: "at_LastScaleDir (snd (apply_cooldown t r (a\<lparr> at_EWMABacklog := x \<rparr>))) =
      at_LastScaleDir (snd (apply_cooldown t r a))" for t r x
    by (simp add: apply_cooldown_def Let_def)
  have q: "scaleFromBundle (constrain b r s) = scaleFromBundle s" for b r s
    by (simp add: constrain_def scaleFromBundle_def fun_eq_iff)
  show ?thesis by (simp add: Decide_def Let_def the_state_def c q)
qed

text \<open>
  C34: within three ticks of a recorded move, the authority does not reverse it.  After
  a move up, the next factor is at least 0.95 or at least the previous factor, and the
  recorded direction stays up; after a move down it is at most 1.05 or at most the
  previous factor.
\<close>

theorem cooldown_no_reversal:
  fixes env :: control_env and clock :: gotime
  assumes "sys_Replicas (ai_State inp) \<le> maxI64" "scale_ok (cd_ScaleFactor (at_LastDirective a))"
    "ai_Tick inp - at_LastScaleTick a < 3"
  defines "s \<equiv> emitted (Decide env clock inp a)" and "lst \<equiv> cd_ScaleFactor (at_LastDirective a)"
    and "dir' \<equiv> at_LastScaleDir (snd (Decide env clock inp a))"
  shows "(at_LastScaleDir a = ''up'' \<longrightarrow> (fl 0.95 \<le> s \<or> lst \<le> s) \<and> dir' = ''up'') \<and>
    (at_LastScaleDir a = ''down'' \<longrightarrow> (s \<le> fl 1.05 \<or> s \<le> lst) \<and> dir' = ''down'')"
proof -
  let ?raw = "scaleFromBundle (the_state inp) (ad_Bundle (fst (Decide env clock inp a)))"
  let ?c = "fst (apply_cooldown (ai_Tick inp) ?raw a)"
  have raw: "?raw \<noteq> NaN" by (intro scaleFromBundle_not_NaN the_state_Replicas assms(1))
  obtain ew where e: "s = snd (final_scale lst (sys_QueueDepth (the_state inp)) ew ?c)"
    using Decide_scale [of env clock inp a] unfolding emitted_def s_def lst_def by blast
  obtain l x where lx: "lst = Fin l" "s = Fin x"
    "\<forall>c. frep c \<longrightarrow> ?c \<le> Fin c \<longrightarrow> x \<le> max c l" "\<forall>c. frep c \<longrightarrow> Fin c \<le> ?c \<longrightarrow> min c l \<le> x"
    using final_scale_step [of lst ?c "sys_QueueDepth (the_state inp)" ew]
      assms(2) cooldown_not_NaN [OF raw] e unfolding lst_def by metis
  have c: "fl 0.95 = Fin (rnd 0.95)" "fl 1.05 = Fin (rnd 1.05)"
    by (simp_all add: fl_finite)
  have up: "(fl 0.95 \<le> s \<or> lst \<le> s) \<and> dir' = ''up''" if "at_LastScaleDir a = ''up''"
    using cooldown_up [OF raw that assms(3)] lx(4) [rule_format, of "rnd 0.95"] c(1)
    by (auto simp: lx(1,2) dir'_def Decide_dir frep_rnd min_def split: if_splits)
  have down: "(s \<le> fl 1.05 \<or> s \<le> lst) \<and> dir' = ''down''" if "at_LastScaleDir a = ''down''"
    using cooldown_down [OF raw that assms(3)] lx(3) [rule_format, of "rnd 1.05"] c(2)
    by (auto simp: lx(1,2) dir'_def Decide_dir frep_rnd max_def split: if_splits)
  from up down show ?thesis by blast
qed

definition moved_up :: Authority where
  "moved_up = NewAuthority\<lparr> at_LastDirective := zero_directive\<lparr> cd_ScaleFactor := 1 \<rparr>,
     at_LastScaleTick := 0, at_LastScaleDir := ''up'' \<rparr>"

lemma cooldown_no_reversal_witness:
  "fl 0.95 \<le> emitted (Decide identity_env 0 capped_input moved_up) \<or>
   1 \<le> emitted (Decide identity_env 0 capped_input moved_up)"
proof -
  have "scale_ok 1"
    using fl_mono [of "0.45" 1] by (simp add: scale_ok_def one_f64_def)
  then show ?thesis
    using cooldown_no_reversal [of capped_input moved_up identity_env 0]
    by (simp add: moved_up_def capped_input_def maxI64_def)
qed

section \<open>Where the decided bundle comes from\<close>

lemma unique_from_set: "set (unique_from seen bs) \<subseteq> set bs"
  by (induction bs arbitrary: seen) auto

lemma unique_from_cover:
  "b \<in> set bs \<Longrightarrow> bundle_key b \<in> set seen \<union> bundle_key ` set (unique_from seen bs)"
proof (induction bs arbitrary: seen)
  case (Cons c cs)
  show ?case
  proof (cases "b = c")
    case False
    then have "b \<in> set cs" using Cons.prems by simp
    then show ?thesis
      using Cons.IH [of seen] Cons.IH [of "bundle_key c # seen"] by auto
  qed auto
qed simp

lemma unique_from_distinct:
  "distinct (map bundle_key (unique_from seen bs)) \<and> set seen \<inter> bundle_key ` set (unique_from seen bs) = {}"
proof (induction bs arbitrary: seen)
  case (Cons c cs)
  show ?case using Cons.IH [of seen] Cons.IH [of "bundle_key c # seen"] by auto
qed simp

lemma uniqueBundles_nonempty: "bs \<noteq> [] \<Longrightarrow> uniqueBundles bs \<noteq> []"
  by (cases bs) (auto simp: uniqueBundles_def)

lemma scale_candidate_bounds:
  "b \<in> set (scale_candidate s bounds x) \<Longrightarrow> ab_MinReplicas bounds \<le> ab_MaxReplicas bounds \<Longrightarrow>
     ab_MinReplicas bounds \<le> bn_Replicas b \<and> bn_Replicas b \<le> ab_MaxReplicas bounds"
  by (auto simp: scale_candidate_def replica_candidate_def clampInt_def split: if_splits)

lemma advisoryCandidates_bounds:
  "b \<in> set (advisoryCandidates s bounds adv opt) \<Longrightarrow> ab_MinReplicas bounds \<le> ab_MaxReplicas bounds \<Longrightarrow>
     ab_MinReplicas bounds \<le> bn_Replicas b \<and> bn_Replicas b \<le> ab_MaxReplicas bounds"
  by (auto simp: advisoryCandidates_def dest: scale_candidate_bounds split: if_splits)
     (auto simp: replica_candidate_def clampInt_def)

lemma search_radius_le: "\<not> sys_Utilisation s < fl 0.4 \<Longrightarrow> search_radius s adv risk \<le> 11"
  by (simp add: search_radius_def Let_def)

lemma Decide_bounds_ok:
  "1 \<le> ab_MinReplicas (ad_Bounds (fst (Decide env clock inp a)))"
  "ab_MinReplicas (ad_Bounds (fst (Decide env clock inp a))) \<le> ab_MaxReplicas (ad_Bounds (fst (Decide env clock inp a)))"
  unfolding Decide_bounds using deriveBounds_facts by blast+

lemma Decide_bundle_origin:
  fixes clock :: gotime and a :: Authority
  assumes env: "env_ok env" and util: "\<not> sys_Utilisation (the_state inp) < fl 0.4"
  defines "d \<equiv> fst (Decide env clock inp a)"
  shows "1 \<le> bn_Replicas (ad_Bundle d) \<and>
    (\<bar>bn_Replicas (ad_Bundle d) - sys_Replicas (the_state inp)\<bar> \<le> 11 \<or>
     (\<exists>adv s. av_Policy adv = av_Policy (ai_Advisory inp) \<and> av_Sandbox adv = av_Sandbox (ai_Advisory inp) \<and>
        ad_Bundle d \<in> set (advisoryCandidates s (ad_Bounds d) adv (ai_OptimizerCandidates inp))))"
proof -
  let ?r = "the_risk inp"
  let ?s = "constrain (ad_Bounds d) ?r (the_state inp)"
  let ?m = "decide_memory (the_state inp) ?r a"
  obtain adv cfgs where adv: "av_Policy adv = av_Policy (ai_Advisory inp)" "av_Sandbox adv = av_Sandbox (ai_Advisory inp)"
    and best: "ad_Bundle d = (let best = SelectBestBundle env ?s (decide_candidates env inp ?s (ad_Bounds d) adv ?r ?m)
            defaultOptimizerConfig (fst cfgs) (snd cfgs) (Some ?m) in if bn_Replicas best < 1 then best\<lparr> bn_Replicas := 1 \<rparr> else best)"
    using Decide_bundle [of inp env clock a] unfolding d_def Let_def by blast
  let ?gc = "\<lparr> gc_BaseRadius = search_radius ?s adv ?r, gc_Seed = seedFor (ai_ServiceID inp) (ai_Tick inp div 4) 0x41 \<rparr>"
  let ?gen = "GenerateBundles env ?s ?gc (Some ?m)"
  let ?advs = "advisoryCandidates ?s (ad_Bounds d) adv (ai_OptimizerCandidates inp)"
  let ?cands = "decide_candidates env inp ?s (ad_Bounds d) adv ?r ?m"
  let ?best = "SelectBestBundle env ?s ?cands defaultOptimizerConfig (fst cfgs) (snd cfgs) (Some ?m)"
  have ne: "?cands \<noteq> []"
    unfolding decide_candidates_def using GenerateBundles_nonempty [OF env] by (intro uniqueBundles_nonempty) simp
  have "?best \<in> set ?cands" by (rule SelectBestBundle_member [OF env ne])
  then have mem: "?best \<in> set ?gen \<union> set ?advs"
    using unique_from_set unfolding decide_candidates_def uniqueBundles_def by fastforce
  have s: "sys_Replicas ?s = sys_Replicas (the_state inp)" "sys_Utilisation ?s = sys_Utilisation (the_state inp)"
    by (simp_all add: constrain_def)
  have cur: "1 \<le> sys_Replicas (the_state inp)" by (simp add: the_state_def normalizeState_Replicas)
  have rad: "search_radius ?s adv ?r \<le> 11" using util s by (intro search_radius_le) simp
  from mem show ?thesis
  proof
    assume g: "?best \<in> set ?gen"
    have "\<bar>bn_Replicas ?best - sys_Replicas (the_state inp)\<bar> \<le> max 1 (search_radius ?s adv ?r)"
      using GenerateBundles_near [OF env g] rad s by simp
    then show ?thesis using best cur rad by (auto simp: Let_def)
  next
    assume v: "?best \<in> set ?advs"
    then have "1 \<le> bn_Replicas ?best"
      using advisoryCandidates_bounds [OF v] Decide_bounds_ok [of env clock inp a] unfolding d_def by linarith
    then show ?thesis using best v adv by (auto simp: Let_def)
  qed
qed

text \<open>
  For any random source and any permuting sort, a busy service (utilisation of at
  least 0.4) gets a decision of at least one replica that is at most eleven replicas
  away from the current count, unless it is an advised count, which is within the
  derived bounds.
\<close>

theorem decided_bundle:
  assumes "env_ok env" "\<not> sys_Utilisation (normalizeState (ai_State inp)) < fl 0.4"
  shows "let d = fst (Decide env clock inp a); r = bn_Replicas (ad_Bundle d) in
    1 \<le> r \<and> (\<bar>r - max 1 (sys_Replicas (ai_State inp))\<bar> \<le> 11 \<or>
             ab_MinReplicas (ad_Bounds d) \<le> r \<and> r \<le> ab_MaxReplicas (ad_Bounds d))"
proof -
  have cur: "sys_Replicas (the_state inp) = max 1 (sys_Replicas (ai_State inp))"
    by (simp add: the_state_def normalizeState_Replicas)
  have "\<not> sys_Utilisation (the_state inp) < fl 0.4" using assms(2) by (simp only: the_state_def not_False_eq_True)
  from Decide_bundle_origin [OF assms(1) this, of clock a] show ?thesis
    using Decide_bounds_ok(2) [of env clock inp a]
    unfolding cur Let_def by (blast dest: advisoryCandidates_bounds)
qed

lemma decided_bundle_witness:
  "1 \<le> bn_Replicas (ad_Bundle (fst (Decide identity_env 0 capped_input NewAuthority)))"
proof -
  have "\<not> sys_Utilisation (normalizeState (ai_State capped_input)) < fl 0.4"
    using fl_mono [of "0.4" 1] not_less64 [of 1 "fl 0.4"] by (simp add: capped_state one_f64_def)
  from decided_bundle [OF identity_env_ok this, of 0 NewAuthority]
  show ?thesis by (simp add: Let_def)
qed

lemma advisoryCandidates_none:
  assumes "pa_DesiredReplicas (av_Policy adv) \<le> 0" "feq (sa_CapacityDelta (av_Sandbox adv)) 0"
  shows "advisoryCandidates s bounds adv [] = []"
  using assms by (simp add: advisoryCandidates_def)

text \<open>
  The replica ceiling does not bind the search.  For a busy service without advised
  counts, when the current count exceeds the derived ceiling by more than eleven (a
  ceiling the autopilot has just lowered, say), every decision is above the ceiling:
  the generated grid is centred on the current count and its own maximum is widened to
  it, and nothing cuts the result back.
\<close>

theorem ceiling_not_enforced:
  assumes "env_ok env" "\<not> sys_Utilisation (normalizeState (ai_State inp)) < fl 0.4"
    "pa_DesiredReplicas (av_Policy (ai_Advisory inp)) \<le> 0"
    "feq (sa_CapacityDelta (av_Sandbox (ai_Advisory inp))) 0" "ai_OptimizerCandidates inp = []"
    "ab_MaxReplicas (ad_Bounds (fst (Decide env clock inp a))) + 11 < sys_Replicas (ai_State inp)"
  shows "ab_MaxReplicas (ad_Bounds (fst (Decide env clock inp a))) <
    bn_Replicas (ad_Bundle (fst (Decide env clock inp a)))"
proof -
  have cur: "sys_Replicas (ai_State inp) \<le> sys_Replicas (the_state inp)"
    by (simp add: the_state_def normalizeState_Replicas)
  have "advisoryCandidates s b adv (ai_OptimizerCandidates inp) = []"
    if "av_Policy adv = av_Policy (ai_Advisory inp)" "av_Sandbox adv = av_Sandbox (ai_Advisory inp)" for s b adv
    using assms(3-5) that by (simp add: advisoryCandidates_none)
  then have "\<bar>bn_Replicas (ad_Bundle (fst (Decide env clock inp a))) - sys_Replicas (the_state inp)\<bar> \<le> 11"
    using Decide_bundle_origin [of env inp clock a] assms(1,2) unfolding the_state_def
    by (metis in_set_conv_nth less_nat_zero_code list.size(3))
  then show ?thesis using assms(6) cur by linarith
qed

lemma ceiling_not_enforced_witness:
  "5 < bn_Replicas (ad_Bundle (fst (Decide identity_env 0 capped_input NewAuthority))) \<and>
   aa_MaxReplicas (av_Autopilot (ai_Advisory capped_input)) = 5"
proof -
  have adv: "ai_Advisory capped_input = capped_advice" by (simp add: capped_input_def)
  have b: "ab_MaxReplicas (ad_Bounds (fst (Decide identity_env 0 capped_input NewAuthority))) = 5"
    unfolding Decide_bounds the_state_def adv by (rule capped_bounds)
  have "\<not> sys_Utilisation (normalizeState (ai_State capped_input)) < fl 0.4"
    using fl_mono [of "0.4" 1] not_less64 [of 1 "fl 0.4"] by (simp add: capped_state one_f64_def)
  from ceiling_not_enforced [OF identity_env_ok this, of 0 NewAuthority] b
  show ?thesis by (simp add: capped_input_def capped_advice_def zero_f64_def)
qed

section \<open>A NaN in the memory\<close>

lemma nan_absorbs [simp]:
  "x + NaN = NaN" "NaN + x = NaN" "x * NaN = NaN" "NaN * x = NaN"
  by (cases x; simp)+

lemma ewma_NaN [simp]: "ewma a x NaN = NaN" "ewma a NaN old = NaN"
  by (simp_all add: ewma_def)

lemma Decide_risk_NaN:
  assumes "at_Memory a = Some m" "rm_RiskEWMA m = NaN"
  shows "\<exists>m'. at_Memory (snd (Decide env clock inp a)) = Some m' \<and> rm_RiskEWMA m' = NaN"
  by (simp add: Decide_def Let_def RecordAction_def decide_memory_def assms)

lemma GenerateBundles_NaN:
  assumes "env_ok env" "rm_RiskEWMA m = NaN"
  shows "set (GenerateBundles env cur cfg (Some m)) = {bundleFromState cur}"
proof -
  let ?c = "generator_config cur cfg"
  have r: "int_of_f64 (f64_of_int (bc_ReplicaRadius ?c) * (1 + fl 0.7 * rm_RiskEWMA m)) = minI64"
    by (simp add: assms(2))
  have empty: "[- minI64..minI64] = []" by (simp add: minI64_def)
  have "\<exists>xs. GenerateBundles env cur cfg (Some m) = select_diverse cur ?c [] (ce_sortB env by_heuristic xs) \<and>
      xs = [bundleFromState cur]"
    by (simp add: GenerateBundles_def GenerateLocalBundles_def Let_def r empty)
  then have e: "GenerateBundles env cur cfg (Some m) =
      select_diverse cur ?c [] (ce_sortB env by_heuristic [bundleFromState cur])" by simp
  have "set (GenerateBundles env cur cfg (Some m)) \<subseteq> {bundleFromState cur}"
    unfolding e using select_diverse_set [of cur ?c "[]" "ce_sortB env by_heuristic [bundleFromState cur]"] assms(1)
    by (simp add: env_ok_def)
  then show ?thesis using GenerateBundles_nonempty [OF assms(1), of cur cfg "Some m"] by (metis set_empty subset_singletonD)
qed

lemma Decide_NaN_replicas:
  assumes env: "env_ok env" and m: "at_Memory a = Some m" "rm_RiskEWMA m = NaN"
    and none: "pa_DesiredReplicas (av_Policy (ai_Advisory inp)) \<le> 0"
      "feq (sa_CapacityDelta (av_Sandbox (ai_Advisory inp))) 0" "ai_OptimizerCandidates inp = []"
  shows "bn_Replicas (ad_Bundle (fst (Decide env clock inp a))) = sys_Replicas (the_state inp)"
proof -
  let ?d = "fst (Decide env clock inp a)"
  let ?r = "the_risk inp"
  let ?s = "constrain (ad_Bounds ?d) ?r (the_state inp)"
  let ?m = "decide_memory (the_state inp) ?r a"
  obtain adv cfgs where adv: "av_Policy adv = av_Policy (ai_Advisory inp)" "av_Sandbox adv = av_Sandbox (ai_Advisory inp)"
    and best: "ad_Bundle ?d = (let best = SelectBestBundle env ?s (decide_candidates env inp ?s (ad_Bounds ?d) adv ?r ?m)
            defaultOptimizerConfig (fst cfgs) (snd cfgs) (Some ?m) in if bn_Replicas best < 1 then best\<lparr> bn_Replicas := 1 \<rparr> else best)"
    using Decide_bundle [of inp env clock a] unfolding Let_def by blast
  have nan: "rm_RiskEWMA ?m = NaN" by (simp add: decide_memory_def m)
  have "advisoryCandidates ?s (ad_Bounds ?d) adv (ai_OptimizerCandidates inp) = []"
    using none adv by (simp add: advisoryCandidates_none)
  then have sub: "set (decide_candidates env inp ?s (ad_Bounds ?d) adv ?r ?m) \<subseteq> {bundleFromState ?s}"
    and ne: "decide_candidates env inp ?s (ad_Bounds ?d) adv ?r ?m \<noteq> []"
    using unique_from_set GenerateBundles_NaN [OF env nan] GenerateBundles_nonempty [OF env]
    unfolding decide_candidates_def by (fastforce simp: uniqueBundles_def, intro uniqueBundles_nonempty) simp
  have "SelectBestBundle env ?s (decide_candidates env inp ?s (ad_Bounds ?d) adv ?r ?m)
      defaultOptimizerConfig (fst cfgs) (snd cfgs) (Some ?m) = bundleFromState ?s"
    using SelectBestBundle_member [OF env ne] sub by blast
  moreover have "bn_Replicas (bundleFromState ?s) = sys_Replicas (the_state inp)" "1 \<le> sys_Replicas (the_state inp)"
    by (simp_all add: bundleFromState_def constrain_def the_state_def normalizeState_Replicas)
  ultimately show ?thesis using best by (simp add: Let_def)
qed

text \<open>The state of an authority after a sequence of decisions.\<close>

fun after :: "(control_env \<times> gotime \<times> AuthorityInput) list \<Rightarrow> Authority \<Rightarrow> Authority" where
  "after [] a = a"
| "after ((env, clock, inp) # xs) a = after xs (snd (Decide env clock inp a))"

lemma after_NaN:
  "at_Memory a = Some m \<Longrightarrow> rm_RiskEWMA m = NaN \<Longrightarrow>
     \<exists>m'. at_Memory (after xs a) = Some m' \<and> rm_RiskEWMA m' = NaN"
proof (induction xs arbitrary: a m)
  case (Cons x xs)
  obtain env clock inp where "x = (env, clock, inp)" by (cases x)
  then show ?case using Decide_risk_NaN [OF Cons.prems, of env clock inp] Cons.IH by auto
qed simp

text \<open>
  C35: one advisory risk that is NaN disables the local search of a service for good:
  after it, whatever valid inputs follow, a decision without advised counts keeps the
  replica count it was given, however overloaded the service is.
\<close>

theorem nan_risk_freezes:
  assumes "the_risk bad = NaN" "env_ok env"
    "pa_DesiredReplicas (av_Policy (ai_Advisory inp)) \<le> 0"
    "feq (sa_CapacityDelta (av_Sandbox (ai_Advisory inp))) 0" "ai_OptimizerCandidates inp = []"
  shows "bn_Replicas (ad_Bundle (fst (Decide env clock inp (after xs (snd (Decide env0 clock0 bad a)))))) =
    max 1 (sys_Replicas (ai_State inp))"
proof -
  have "rm_RiskEWMA (decide_memory s NaN a') = NaN" for s a' by (simp add: decide_memory_def)
  then have "\<exists>m. at_Memory (snd (Decide env0 clock0 bad a)) = Some m \<and> rm_RiskEWMA m = NaN"
    using assms(1) by (simp add: Decide_def Let_def RecordAction_def the_risk_def the_state_def)
  then obtain m where "at_Memory (after xs (snd (Decide env0 clock0 bad a))) = Some m" "rm_RiskEWMA m = NaN"
    using after_NaN by blast
  then have "bn_Replicas (ad_Bundle (fst (Decide env clock inp (after xs (snd (Decide env0 clock0 bad a)))))) =
      sys_Replicas (the_state inp)"
    using assms(2-5) by (intro Decide_NaN_replicas)
  also have "\<dots> = max 1 (sys_Replicas (ai_State inp))" by (simp add: the_state_def normalizeState_Replicas)
  finally show ?thesis .
qed

lemma nan_risk_freezes_witness:
  "bn_Replicas (ad_Bundle (fst (Decide identity_env 0 capped_input (after []
     (snd (Decide identity_env 0
       (capped_input\<lparr> ai_State := (ai_State capped_input)\<lparr> sys_Risk := NaN \<rparr> \<rparr>) NewAuthority)))))) = 100"
proof -
  have "math_Max NaN (Fin x) = NaN" for x by (simp add: math_Max_def)
  moreover have "Fin 0 * fl 0.8 = Fin 0" using fl_finite [of "0.8"] by simp
  ultimately have "the_risk (capped_input\<lparr> ai_State := (ai_State capped_input)\<lparr> sys_Risk := NaN \<rparr> \<rparr>) = NaN"
    by (simp add: the_risk_def the_state_def aggregateAdvisoryRisk_def capped_input_def capped_advice_def
        normalizeState_def zero_state_def zero_f64_def Let_def)
  then show ?thesis
    by (subst nan_risk_freezes [OF _ identity_env_ok])
      (simp_all add: capped_input_def capped_advice_def zero_f64_def)
qed

end
