(* ===== verification/PolicyEngine.thy ===== *)
theory PolicyEngine
  imports NetworkCoupling GoString
begin

text \<open>
  \<open>internal/policy\<close>: the four per-service recommendations (replicas, retries, queue limit,
  cache aggression), each of which scores a handful of candidate actions and keeps the
  cheapest feasible one, the cost of the combined action, and \<open>EvaluatePolicies\<close>, which
  fuses them and remembers oscillation between calls.

  The candidate loops of the retry, queue and cache policies have one shape, \<open>pick\<close>: the
  lowest and second lowest score seen and the candidate that has the lowest.  What the code
  reads off the choice (its limit, its drain priority, its reason) is a function of it.
  Reasons are UTF-8 byte strings.
\<close>

section \<open>Cost of an action\<close>

record CostWeights =
  cw_SlaViolation :: f64
  cw_InfraCost :: f64
  cw_ChangeCost :: f64
  cw_RiskCost :: f64
  cw_FutureCost :: f64

record CostInput =
  ci_EstimatedLatency :: f64
  ci_TargetLatency :: f64
  ci_DesiredReplicas :: int
  ci_CurrentReplicas :: int
  ci_PricePerReplica :: f64
  ci_BaseSystemRisk :: f64
  ci_PredictedLoad :: f64

record CostBreakdown =
  cb_TotalCost :: f64
  cb_SlaPenaltyCost :: f64
  cb_InfraCost :: f64
  cb_ReconfigCost :: f64
  cb_RiskPenaltyCost :: f64
  cb_FuturePenalty :: f64

definition EvaluatePolicyCost :: "CostInput \<Rightarrow> CostWeights \<Rightarrow> CostBreakdown" where
  "EvaluatePolicyCost i w =
    (let violation = math_Max 0 (ci_EstimatedLatency i - ci_TargetLatency i);
         slaCost = cw_SlaViolation w * violation * violation;
         infraCost = cw_InfraCost w * f64_of_int (ci_DesiredReplicas i) * ci_PricePerReplica i;
         reconfigCost = cw_ChangeCost w * \<bar>f64_of_int (ci_DesiredReplicas i - ci_CurrentReplicas i)\<bar>;
         capacityBuffer = f64_of_int (ci_DesiredReplicas i - ci_CurrentReplicas i) / f64_of_int (ci_CurrentReplicas i);
         actionRisk = math_Max 0 (ci_BaseSystemRisk i - fl 0.3 * capacityBuffer);
         riskCost = cw_RiskCost w * actionRisk;
         loadPressure = ci_PredictedLoad i / f64_of_int (ci_DesiredReplicas i);
         futurePenalty = cw_FutureCost w * math_Max 0 (loadPressure - 1)
     in \<lparr> cb_TotalCost = slaCost + infraCost + reconfigCost + riskCost + futurePenalty,
          cb_SlaPenaltyCost = slaCost, cb_InfraCost = infraCost, cb_ReconfigCost = reconfigCost,
          cb_RiskPenaltyCost = riskCost, cb_FuturePenalty = futurePenalty \<rparr>)"

section \<open>Scaling\<close>

record ScalingSignal =
  sc_PredictedLoad :: f64
  sc_CurrentReplicas :: int
  sc_TargetLatency :: f64
  sc_ObservedLatency :: f64
  sc_MinReplicas :: int
  sc_MaxReplicas :: int
  sc_ScaleCooldownCost :: f64
  sc_InstanceCost :: f64
  sc_SlaPenaltyWeight :: f64

record ScalingDecision =
  sd_DesiredReplicas :: int
  sd_MinReplicas :: int
  sd_MaxReplicas :: int
  sd_Score :: f64
  sd_Reason :: string
  sd_Confidence :: f64
  sd_Risk :: f64

definition arrow :: string where
  \<comment> \<open>U+2192 in UTF-8\<close>
  "arrow = [CHR 0xE2, CHR 0x86, CHR 0x92]"

definition scaling_candidates :: "ScalingSignal \<Rightarrow> int list" where
  "scaling_candidates s =
    (let cur = sc_CurrentReplicas s; loadFactor = sc_PredictedLoad s / f64_of_int cur
     in [cur - 1, cur, cur + 1, cur + 2] @
        (if 0 < sc_PredictedLoad s
         then (if fl 1.3 < loadFactor then [cur + 3] else []) @ (if fl 1.6 < loadFactor then [cur + 4] else [])
         else []))"

definition scaling_feasible :: "ScalingSignal \<Rightarrow> int \<Rightarrow> bool" where
  "scaling_feasible s r \<longleftrightarrow> \<not> (r < sc_MinReplicas s \<or> sc_MaxReplicas s < r)"

definition scaling_cost :: "ScalingSignal \<Rightarrow> int \<Rightarrow> f64" where
  "scaling_cost s r =
    (let estimatedLatency = sc_ObservedLatency s * f64_of_int (sc_CurrentReplicas s) / f64_of_int r;
         slaViolation = math_Max 0 (estimatedLatency - sc_TargetLatency s)
     in sc_SlaPenaltyWeight s * slaViolation + sc_InstanceCost s * f64_of_int r +
        sc_ScaleCooldownCost s * \<bar>f64_of_int (r - sc_CurrentReplicas s)\<bar>)"

definition scaling_reason :: "ScalingSignal \<Rightarrow> int \<Rightarrow> string" where
  "scaling_reason s r =
    (if sc_CurrentReplicas s < r then ''Predicted load increase '' @ arrow @ '' proactive scaling''
     else if r < sc_CurrentReplicas s then ''Low utilization '' @ arrow @ '' cost optimization''
     else ''Stable operating zone'')"

definition scaling_step :: "ScalingSignal \<Rightarrow> int \<Rightarrow> int \<times> f64 \<times> string \<Rightarrow> int \<times> f64 \<times> string" where
  "scaling_step s r acc =
    (if \<not> scaling_feasible s r then acc
     else if scaling_cost s r < fst (snd acc) then (r, scaling_cost s r, scaling_reason s r)
     else acc)"

definition RecommendScaling :: "ScalingSignal \<Rightarrow> ScalingDecision" where
  "RecommendScaling s =
    (let (bestReplicas, bestScore, reason) =
           fold (scaling_step s) (scaling_candidates s) (sc_CurrentReplicas s, MaxFloat64, []);
         confidence = 1 / (1 + bestScore);
         risk = \<bar>f64_of_int (bestReplicas - sc_CurrentReplicas s)\<bar> / f64_of_int (sc_MaxReplicas s)
     in \<lparr> sd_DesiredReplicas = bestReplicas, sd_MinReplicas = sc_MinReplicas s, sd_MaxReplicas = sc_MaxReplicas s,
          sd_Score = bestScore, sd_Reason = reason, sd_Confidence = confidence, sd_Risk = risk \<rparr>)"

section \<open>The candidate loop of the other policies\<close>

definition pick_step ::
  "('c \<Rightarrow> bool) \<Rightarrow> ('c \<Rightarrow> f64) \<Rightarrow> 'c \<Rightarrow> f64 \<times> f64 \<times> 'c option \<Rightarrow> f64 \<times> f64 \<times> 'c option" where
  "pick_step feasible score c acc =
    (case acc of (bestScore, secondScore, best) \<Rightarrow>
       if \<not> feasible c then acc
       else if score c < bestScore then (score c, bestScore, Some c)
       else if score c < secondScore then (bestScore, score c, best)
       else acc)"

definition pick :: "('c \<Rightarrow> bool) \<Rightarrow> ('c \<Rightarrow> f64) \<Rightarrow> 'c list \<Rightarrow> f64 \<times> f64 \<times> 'c option" where
  "pick feasible score cs = fold (pick_step feasible score) cs (MaxFloat64, MaxFloat64, None)"

definition margin_confidence :: "f64 \<Rightarrow> f64 \<Rightarrow> f64" where
  "margin_confidence bestScore secondScore = 1 - math_Exp (- (secondScore - bestScore))"

definition load_ratio :: "f64 \<Rightarrow> f64 \<Rightarrow> f64" where
  \<comment> \<open>the utilisation each policy derives from its signal\<close>
  "load_ratio predictedArrival serviceCapacity =
    (if 0 < serviceCapacity then predictedArrival / serviceCapacity else 0)"

section \<open>Retries\<close>

record RetrySignal =
  rt_ObservedErrorRate :: f64
  rt_TimeoutRate :: f64
  rt_QueueDepth :: f64
  rt_PredictedArrival :: f64
  rt_ServiceCapacity :: f64
  rt_BaseSystemRisk :: f64
  rt_CurrentRetryLimit :: int
  rt_MinRetryLimit :: int
  rt_MaxRetryLimit :: int
  rt_MinBackoff :: f64
  rt_MaxBackoff :: f64

record RetryDecision =
  rd_RetryLimit :: int
  rd_BackoffMultiplier :: f64
  rd_Reason :: string
  rd_Confidence :: f64
  rd_Risk :: f64

definition retry_floor :: "RetrySignal \<Rightarrow> RetrySignal" where
  "retry_floor s = (if rt_MinRetryLimit s < 1 then s\<lparr> rt_MinRetryLimit := 1 \<rparr> else s)"

definition retry_candidates :: "RetrySignal \<Rightarrow> (int \<times> f64) list" where
  "retry_candidates s =
    [(rt_CurrentRetryLimit s - 1, fl 1.3), (rt_CurrentRetryLimit s, fl 1.6), (rt_CurrentRetryLimit s + 1, fl 2)] @
    (if fl 1.15 < load_ratio (rt_PredictedArrival s) (rt_ServiceCapacity s)
     then [(rt_CurrentRetryLimit s - 2, fl 2.5)] else [])"

definition retry_feasible :: "RetrySignal \<Rightarrow> int \<times> f64 \<Rightarrow> bool" where
  "retry_feasible s c \<longleftrightarrow>
    \<not> (fst c < rt_MinRetryLimit s \<or> rt_MaxRetryLimit s < fst c) \<and>
    \<not> (snd c < rt_MinBackoff s \<or> rt_MaxBackoff s < snd c)"

definition retry_score :: "RetrySignal \<Rightarrow> int \<times> f64 \<Rightarrow> f64" where
  "retry_score s c =
    (let retryIntensity = f64_of_int (fst c) * (rt_ObservedErrorRate s + rt_TimeoutRate s);
         delayStress = rt_QueueDepth s * retryIntensity;
         actionRisk = 1 - math_Exp (- (rt_BaseSystemRisk s + fl 0.4 * delayStress))
     in actionRisk + fl 0.6 * retryIntensity + fl 0.2 * (1 / snd c))"

definition retry_reason :: "RetrySignal \<Rightarrow> int \<times> f64 \<Rightarrow> string" where
  "retry_reason s c =
    (if fst c < rt_CurrentRetryLimit s then ''Predicted saturation '' @ arrow @ '' retry suppression''
     else if rt_CurrentRetryLimit s < fst c then ''Transient failures '' @ arrow @ '' retry assist''
     else ''Retry equilibrium'')"

definition retry_choice :: "RetrySignal \<Rightarrow> f64 \<times> f64 \<times> (int \<times> f64) option" where
  "retry_choice s = pick (retry_feasible s) (retry_score s) (retry_candidates s)"

definition RecommendRetryPolicy :: "RetrySignal \<Rightarrow> RetryDecision" where
  "RecommendRetryPolicy s0 =
    (let s = retry_floor s0;
         (bestScore, secondScore, best) = retry_choice s;
         (bestLimit, bestBackoff) = (case best of None \<Rightarrow> (rt_CurrentRetryLimit s, fl 1.6) | Some c \<Rightarrow> c);
         finalRisk = 1 - math_Exp (- (rt_BaseSystemRisk s +
           f64_of_int bestLimit * (rt_ObservedErrorRate s + rt_TimeoutRate s)))
     in \<lparr> rd_RetryLimit = bestLimit, rd_BackoffMultiplier = bestBackoff,
          rd_Reason = (case best of None \<Rightarrow> [] | Some c \<Rightarrow> retry_reason s c),
          rd_Confidence = margin_confidence bestScore secondScore, rd_Risk = finalRisk \<rparr>)"

section \<open>Queue limit\<close>

record QueueSignal =
  qs_CurrentQueueDepth :: f64
  qs_PredictedArrival :: f64
  qs_ServiceCapacity :: f64
  qs_ObservedLatency :: f64
  qs_TargetLatency :: f64
  qs_BaseSystemRisk :: f64
  qs_CurrentQueueLimit :: f64
  qs_MinQueueLimit :: f64
  qs_MaxQueueLimit :: f64
  qs_MaxStep :: f64

record QueueDecision =
  qd_QueueLimit :: f64
  qd_DrainPriority :: f64
  qd_Reason :: string
  qd_Confidence :: f64
  qd_Risk :: f64

definition queue_floor :: "QueueSignal \<Rightarrow> QueueSignal" where
  "queue_floor s =
    (let s = (if qs_MinQueueLimit s < 1 then s\<lparr> qs_MinQueueLimit := 1 \<rparr> else s)
     in if qs_MaxStep s \<le> 0 then s\<lparr> qs_MaxStep := fl 10 \<rparr> else s)"

definition queue_candidates :: "QueueSignal \<Rightarrow> (f64 \<times> f64) list" where
  "queue_candidates s =
    [(qs_CurrentQueueLimit s - qs_MaxStep s, fl 1.3), (qs_CurrentQueueLimit s, 1),
     (qs_CurrentQueueLimit s + qs_MaxStep s, fl 0.8)] @
    (if fl 1.1 < load_ratio (qs_PredictedArrival s) (qs_ServiceCapacity s)
     then [(qs_CurrentQueueLimit s - fl 2 * qs_MaxStep s, fl 1.6)] else [])"

definition queue_feasible :: "QueueSignal \<Rightarrow> f64 \<times> f64 \<Rightarrow> bool" where
  "queue_feasible s c \<longleftrightarrow> \<not> (fst c < qs_MinQueueLimit s \<or> qs_MaxQueueLimit s < fst c)"

definition latency_stress :: "f64 \<Rightarrow> f64 \<Rightarrow> f64" where
  "latency_stress observed target = math_Max 0 (math_Pow (observed / target) (fl 2) - 1)"

definition queue_score :: "QueueSignal \<Rightarrow> f64 \<times> f64 \<Rightarrow> f64" where
  "queue_score s c =
    (let effectiveService = qs_ServiceCapacity s * snd c;
         util = (if 0 < effectiveService then qs_PredictedArrival s / effectiveService else 0);
         backlogRatio = qs_CurrentQueueDepth s / fst c;
         backlogEnergy = math_Min (fl 3) (backlogRatio * util);
         latencyStress = latency_stress (qs_ObservedLatency s) (qs_TargetLatency s);
         actionRisk = 1 - math_Exp (- (qs_BaseSystemRisk s + fl 0.6 * backlogEnergy + fl 0.4 * latencyStress))
     in actionRisk + fl 0.3 * backlogEnergy + fl 0.2 * (1 / snd c))"

definition queue_reason :: "QueueSignal \<Rightarrow> f64 \<times> f64 \<Rightarrow> string" where
  "queue_reason s c =
    (if fst c < qs_CurrentQueueLimit s then ''Predicted congestion '' @ arrow @ '' queue tightening''
     else if qs_CurrentQueueLimit s < fst c then ''Burst tolerance '' @ arrow @ '' queue relaxation''
     else ''Queue stability zone'')"

definition queue_choice :: "QueueSignal \<Rightarrow> f64 \<times> f64 \<times> (f64 \<times> f64) option" where
  "queue_choice s = pick (queue_feasible s) (queue_score s) (queue_candidates s)"

definition RecommendQueuePolicy :: "QueueSignal \<Rightarrow> QueueDecision" where
  "RecommendQueuePolicy s0 =
    (let s = queue_floor s0;
         (bestScore, secondScore, best) = queue_choice s;
         (bestLimit, bestDrain) = (case best of None \<Rightarrow> (qs_CurrentQueueLimit s, 1) | Some c \<Rightarrow> c);
         finalRisk = 1 - math_Exp (- (qs_BaseSystemRisk s + qs_CurrentQueueDepth s / bestLimit))
     in \<lparr> qd_QueueLimit = bestLimit, qd_DrainPriority = bestDrain,
          qd_Reason = (case best of None \<Rightarrow> [] | Some c \<Rightarrow> queue_reason s c),
          qd_Confidence = margin_confidence bestScore secondScore, qd_Risk = finalRisk \<rparr>)"

section \<open>Cache aggression\<close>

record CacheSignal =
  ca_CurrentHitRate :: f64
  ca_TargetHitRate :: f64
  ca_PredictedArrival :: f64
  ca_ServiceCapacity :: f64
  ca_ObservedLatency :: f64
  ca_TargetLatency :: f64
  ca_CacheableRatio :: f64
  ca_BaseMemoryPressure :: f64
  ca_BaseSystemRisk :: f64
  ca_CurrentCacheAggression :: f64
  ca_MinAggression :: f64
  ca_MaxAggression :: f64
  ca_BaseStep :: f64

record CacheDecision =
  cd_CacheAggression :: f64
  cd_Reason :: string
  cd_Confidence :: f64
  cd_Risk :: f64

definition cache_floor :: "CacheSignal \<Rightarrow> CacheSignal" where
  "cache_floor s = (if ca_BaseStep s \<le> 0 then s\<lparr> ca_BaseStep := fl 0.05 \<rparr> else s)"

definition cache_candidates :: "CacheSignal \<Rightarrow> f64 list" where
  "cache_candidates s =
    (let util = load_ratio (ca_PredictedArrival s) (ca_ServiceCapacity s);
         step = ca_BaseStep s * (1 + util * fl 0.5);
         cur = ca_CurrentCacheAggression s
     in [cur - step, cur, cur + step] @ (if fl 1.15 < util then [cur + fl 2 * step] else []))"

definition cache_feasible :: "CacheSignal \<Rightarrow> f64 \<Rightarrow> bool" where
  "cache_feasible s aggr \<longleftrightarrow> \<not> (aggr < ca_MinAggression s \<or> ca_MaxAggression s < aggr)"

definition hit_gain :: "CacheSignal \<Rightarrow> f64 \<Rightarrow> f64" where
  "hit_gain s aggr = (1 - math_Exp (- fl 2.5 * aggr)) * (1 - ca_CurrentHitRate s)"

definition future_hit :: "CacheSignal \<Rightarrow> f64 \<Rightarrow> f64" where
  "future_hit s aggr = math_Min (fl 0.99) (ca_CurrentHitRate s + hit_gain s aggr)"

definition cache_score :: "CacheSignal \<Rightarrow> f64 \<Rightarrow> f64" where
  "cache_score s aggr =
    (let util = load_ratio (ca_PredictedArrival s) (ca_ServiceCapacity s);
         missPressure = math_Max 0 (ca_TargetHitRate s - future_hit s aggr);
         loadRelief = hit_gain s aggr * util * ca_CacheableRatio s;
         latStress = latency_stress (ca_ObservedLatency s) (ca_TargetLatency s);
         aggrDelta = \<bar>aggr - ca_CurrentCacheAggression s\<bar>;
         memPressure = ca_BaseMemoryPressure s + fl 0.6 * aggrDelta;
         actionRisk = 1 - math_Exp (- (ca_BaseSystemRisk s + fl 0.5 * missPressure + fl 0.4 * latStress +
           fl 0.6 * memPressure - fl 0.5 * loadRelief))
     in actionRisk + fl 0.3 * missPressure + fl 0.25 * memPressure + fl 0.2 * latStress)"

definition cache_reason :: "CacheSignal \<Rightarrow> f64 \<Rightarrow> string" where
  "cache_reason s aggr =
    (if ca_CurrentCacheAggression s < aggr then ''Predicted load / latency risk '' @ arrow @ '' strengthen caching''
     else if aggr < ca_CurrentCacheAggression s then ''Memory pressure '' @ arrow @ '' relax caching''
     else ''Cache steady regime'')"

definition cache_choice :: "CacheSignal \<Rightarrow> f64 \<times> f64 \<times> f64 option" where
  "cache_choice s = pick (cache_feasible s) (cache_score s) (cache_candidates s)"

definition RecommendCachePolicy :: "CacheSignal \<Rightarrow> CacheDecision" where
  "RecommendCachePolicy s0 =
    (let s = cache_floor s0;
         (bestScore, secondScore, best) = cache_choice s;
         bestFutureHit = (case best of None \<Rightarrow> 0 | Some aggr \<Rightarrow> future_hit s aggr);
         finalRisk = 1 - math_Exp (- (ca_BaseSystemRisk s + (1 - bestFutureHit)))
     in \<lparr> cd_CacheAggression = (case best of None \<Rightarrow> ca_CurrentCacheAggression s | Some aggr \<Rightarrow> aggr),
          cd_Reason = (case best of None \<Rightarrow> [] | Some aggr \<Rightarrow> cache_reason s aggr),
          cd_Confidence = margin_confidence bestScore secondScore, cd_Risk = finalRisk \<rparr>)"

section \<open>The engine\<close>

record EngineState =
  en_LastGlobalRisk :: f64
  en_LastReplicas :: int
  en_OscillationScore :: f64

record EngineInput =
  ei_Scaling :: ScalingSignal
  ei_Retry :: RetrySignal
  ei_Queue :: QueueSignal
  ei_Cache :: CacheSignal
  ei_CostWeights :: CostWeights

record EngineDecision =
  ed_Scaling :: ScalingDecision
  ed_Retry :: RetryDecision
  ed_Queue :: QueueDecision
  ed_Cache :: CacheDecision
  ed_GlobalRisk :: f64
  ed_GlobalCost :: f64
  ed_Confidence :: f64
  ed_SystemReason :: string

definition damp_conflict :: "EngineInput \<Rightarrow> ScalingDecision \<Rightarrow> QueueDecision \<Rightarrow> QueueDecision" where
  "damp_conflict i scaling queue =
    (if sc_CurrentReplicas (ei_Scaling i) < sd_DesiredReplicas scaling \<and>
        qd_QueueLimit queue < qs_CurrentQueueLimit (ei_Queue i)
     then queue\<lparr> qd_QueueLimit := (qs_CurrentQueueLimit (ei_Queue i) + qd_QueueLimit queue) / fl 2 \<rparr>
     else queue)"

definition risk_weights :: "QueueSignal \<Rightarrow> f64 \<times> f64 \<times> f64 \<times> f64" where
  "risk_weights q =
    (let util = load_ratio (qs_PredictedArrival q) (qs_ServiceCapacity q);
         scaleW = fl 0.25 + fl 0.2 * math_Min 1 util;
         queueW = fl 0.25 + fl 0.2 * math_Min 1 (qs_CurrentQueueDepth q / qs_CurrentQueueLimit q);
         retryW = fl 0.25;
         cacheW = 1 - (scaleW + queueW + retryW)
     in (scaleW, queueW, retryW, cacheW))"

definition fuse_risk :: "QueueSignal \<Rightarrow> f64 \<Rightarrow> f64 \<Rightarrow> f64 \<Rightarrow> f64 \<Rightarrow> f64" where
  "fuse_risk q scalingRisk queueRisk retryRisk cacheRisk =
    (let (scaleW, queueW, retryW, cacheW) = risk_weights q
     in 1 - math_Exp (- (scaleW * scalingRisk + queueW * queueRisk + retryW * retryRisk + cacheW * cacheRisk)))"

definition update_regime :: "f64 \<Rightarrow> int \<Rightarrow> EngineState \<Rightarrow> EngineState" where
  "update_regime globalRisk desired st =
    (let riskDelta = globalRisk - en_LastGlobalRisk st
     in \<lparr> en_LastGlobalRisk = globalRisk, en_LastReplicas = desired,
          en_OscillationScore = (if fl 0.12 < \<bar>riskDelta\<bar> then en_OscillationScore st + 1
                                 else en_OscillationScore st * fl 0.8) \<rparr>)"

definition regime_reason :: "f64 \<Rightarrow> f64 \<Rightarrow> string" where
  "regime_reason globalRisk oscillation =
    (if fl 3 < oscillation then ''Detected control oscillation '' @ arrow @ '' damping regime''
     else if fl 0.7 < globalRisk then ''High instability probability '' @ arrow @ '' defensive control''
     else if fl 0.4 < globalRisk then ''Moderate stress '' @ arrow @ '' adaptive optimisation''
     else ''Stable backend regime'')"

definition stateless_reason :: "f64 \<Rightarrow> string" where
  "stateless_reason globalRisk =
    (if fl 0.7 < globalRisk then ''High instability probability''
     else if fl 0.4 < globalRisk then ''Moderate load stress''
     else ''Stable backend regime'')"

definition EvaluatePolicies :: "EngineInput \<Rightarrow> EngineState option \<Rightarrow> EngineState option \<times> EngineDecision" where
  \<comment> \<open>\<open>None\<close> is the nil state pointer; the first component is the state after the call\<close>
  "EvaluatePolicies i state =
    (let scaling = RecommendScaling (ei_Scaling i);
         retry = RecommendRetryPolicy (ei_Retry i);
         queue = damp_conflict i scaling (RecommendQueuePolicy (ei_Queue i));
         cache = RecommendCachePolicy (ei_Cache i);
         globalRisk = fuse_risk (ei_Queue i) (sd_Risk scaling) (qd_Risk queue) (rd_Risk retry) (cd_Risk cache);
         cost = cb_TotalCost (EvaluatePolicyCost
           \<lparr> ci_EstimatedLatency = qs_ObservedLatency (ei_Queue i), ci_TargetLatency = qs_TargetLatency (ei_Queue i),
              ci_DesiredReplicas = sd_DesiredReplicas scaling, ci_CurrentReplicas = sc_CurrentReplicas (ei_Scaling i),
              ci_PricePerReplica = sc_InstanceCost (ei_Scaling i), ci_BaseSystemRisk = globalRisk,
              ci_PredictedLoad = sc_PredictedLoad (ei_Scaling i) \<rparr> (ei_CostWeights i));
         confidence = (sd_Confidence scaling + rd_Confidence retry + qd_Confidence queue + cd_Confidence cache) / fl 4;
         state' = map_option (update_regime globalRisk (sd_DesiredReplicas scaling)) state;
         reason = (case state' of None \<Rightarrow> stateless_reason globalRisk
                   | Some st \<Rightarrow> regime_reason globalRisk (en_OscillationScore st))
     in (state', \<lparr> ed_Scaling = scaling, ed_Retry = retry, ed_Queue = queue, ed_Cache = cache,
          ed_GlobalRisk = globalRisk, ed_GlobalCost = cost, ed_Confidence = confidence, ed_SystemReason = reason \<rparr>))"

section \<open>Optimality of the choices\<close>

lemma less_trans64: "x < y \<Longrightarrow> y < z \<Longrightarrow> x < (z :: f64)"
  by (cases x; cases y; cases z) auto

lemma less_le_trans64: "x < y \<Longrightarrow> y \<le> z \<Longrightarrow> x < (z :: f64)"
  by (cases x; cases y; cases z) auto

lemma MaxFloat64_not_NaN [simp]: "MaxFloat64 \<noteq> NaN"
  by (simp add: MaxFloat64_def)

lemma pick_step_apply:
  "pick_step F S c (b, s2, best) =
    (if \<not> F c then (b, s2, best) else if S c < b then (S c, b, Some c)
     else if S c < s2 then (b, S c, best) else (b, s2, best))"
  by (simp add: pick_step_def)

lemma scaling_step_apply:
  "scaling_step s c (r, b, z) =
    (if scaling_feasible s c \<and> scaling_cost s c < b then (c, scaling_cost s c, scaling_reason s c) else (r, b, z))"
  by (simp add: scaling_step_def)

text \<open>What a loop that keeps the strictly cheapest feasible candidate guarantees.\<close>

definition cheapest :: "('c \<Rightarrow> bool) \<Rightarrow> ('c \<Rightarrow> f64) \<Rightarrow> 'c list \<Rightarrow> f64 \<Rightarrow> 'c option \<Rightarrow> bool" where
  "cheapest feasible score cs bestScore best \<longleftrightarrow>
    (\<forall>c \<in> set cs. feasible c \<longrightarrow> \<not> score c < bestScore) \<and>
    (case best of None \<Rightarrow> bestScore = MaxFloat64
     | Some c \<Rightarrow> c \<in> set cs \<and> feasible c \<and> score c = bestScore \<and> bestScore < MaxFloat64)"

lemma cheapest_Nil [simp]: "cheapest F S [] MaxFloat64 None"
  by (simp add: cheapest_def)

lemma cheapest_skip: "cheapest F S cs b best \<Longrightarrow> \<not> F c \<or> \<not> S c < b \<Longrightarrow> cheapest F S (cs @ [c]) b best"
  by (auto simp: cheapest_def split: option.splits)

lemma cheapest_take:
  assumes "cheapest F S cs b best" "F c" "S c < b" shows "cheapest F S (cs @ [c]) (S c) (Some c)"
proof -
  have "b \<le> MaxFloat64" using assms(1)
    by (auto simp: cheapest_def le_refl64 split: option.splits intro: less_imp_le64)
  with \<open>S c < b\<close> have "S c < MaxFloat64" by (rule less_le_trans64)
  moreover have "\<not> S x < S c" if "x \<in> set cs" "F x" for x
    using assms(1, 3) that less_trans64 [of "S x" "S c" b] by (auto simp: cheapest_def)
  ultimately show ?thesis using assms(2) by (auto simp: cheapest_def)
qed

lemma pick_step_fold:
  "case fold (pick_step F S) cs (MaxFloat64, MaxFloat64, None) of
     (b, s2, best) \<Rightarrow> cheapest F S cs b best \<and> b \<le> s2"
proof (induction cs rule: rev_induct)
  case Nil
  then show ?case by (simp add: le_refl64)
next
  case (snoc c cs)
  obtain b s2 best where acc: "fold (pick_step F S) cs (MaxFloat64, MaxFloat64, None) = (b, s2, best)"
    by (metis prod_cases3)
  then have IH: "cheapest F S cs b best" "b \<le> s2" using snoc.IH by simp_all
  show ?case
  proof (cases "F c \<and> S c < b")
    case True
    then show ?thesis using IH cheapest_take [OF IH(1)] acc
      by (simp add: pick_step_apply less_imp_le64)
  next
    case False
    have "\<not> S c < b \<Longrightarrow> S c < s2 \<Longrightarrow> b \<le> S c" using \<open>b \<le> s2\<close> by (cases b; cases s2; cases "S c") auto
    with False show ?thesis using IH cheapest_skip [OF IH(1), of c] acc
      by (auto simp: pick_step_apply)
  qed
qed

lemma pick_cheapest:
  assumes "pick F S cs = (b, s2, best)" shows "cheapest F S cs b best" and "b \<le> s2"
  using pick_step_fold [of F S cs] assms by (auto simp: pick_def)

lemma scaling_fold:
  "case fold (scaling_step s) cs (sc_CurrentReplicas s, MaxFloat64, []) of (r, b, _) \<Rightarrow>
     cheapest (scaling_feasible s) (scaling_cost s) cs b (if b = MaxFloat64 then None else Some r) \<and>
     (b = MaxFloat64 \<longrightarrow> r = sc_CurrentReplicas s)"
proof (induction cs rule: rev_induct)
  case Nil
  then show ?case by simp
next
  case (snoc c cs)
  obtain r b z where acc: "fold (scaling_step s) cs (sc_CurrentReplicas s, MaxFloat64, []) = (r, b, z)"
    by (metis prod_cases3)
  then have IH: "cheapest (scaling_feasible s) (scaling_cost s) cs b (if b = MaxFloat64 then None else Some r)"
    "b = MaxFloat64 \<longrightarrow> r = sc_CurrentReplicas s" using snoc.IH by simp_all
  show ?case
  proof (cases "scaling_feasible s c \<and> scaling_cost s c < b")
    case True
    note new = cheapest_take [OF IH(1), of c]
    have "scaling_cost s c \<noteq> MaxFloat64" using new True by (auto simp: cheapest_def)
    then show ?thesis using True new acc by (simp add: scaling_step_apply)
  next
    case False
    then show ?thesis using IH cheapest_skip [OF IH(1), of c] acc
      by (auto simp: scaling_step_apply)
  qed
qed

lemma scaling_candidates_near:
  "r \<in> set (scaling_candidates s) \<Longrightarrow> sc_CurrentReplicas s - 1 \<le> r \<and> r \<le> sc_CurrentReplicas s + 4"
  by (auto simp: scaling_candidates_def Let_def split: if_splits)

text \<open>C14: RecommendScaling returns the cheapest feasible replica count: no candidate inside
  [MinReplicas, MaxReplicas] costs less than the returned Score; either the returned count is
  itself such a candidate, at most one below and four above the current count, with Score
  its cost, or no candidate was chosen and the current count is kept with the sentinel score.\<close>

theorem RecommendScaling_cheapest:
  "(\<forall>r \<in> set (scaling_candidates s). scaling_feasible s r \<longrightarrow> \<not> scaling_cost s r < sd_Score (RecommendScaling s)) \<and>
   (let d = RecommendScaling s; r = sd_DesiredReplicas d
    in sd_Score d = MaxFloat64 \<and> r = sc_CurrentReplicas s \<or>
       sc_MinReplicas s \<le> r \<and> r \<le> sc_MaxReplicas s \<and> sd_Score d = scaling_cost s r \<and> sd_Score d < MaxFloat64 \<and>
       sc_CurrentReplicas s - 1 \<le> r \<and> r \<le> sc_CurrentReplicas s + 4)"
proof -
  obtain r b z where acc: "fold (scaling_step s) (scaling_candidates s) (sc_CurrentReplicas s, MaxFloat64, []) = (r, b, z)"
    by (metis prod_cases3)
  then have d: "sd_Score (RecommendScaling s) = b" "sd_DesiredReplicas (RecommendScaling s) = r"
    by (simp_all add: RecommendScaling_def)
  have "cheapest (scaling_feasible s) (scaling_cost s) (scaling_candidates s) b (if b = MaxFloat64 then None else Some r)"
    and "b = MaxFloat64 \<longrightarrow> r = sc_CurrentReplicas s"
    using scaling_fold [of s "scaling_candidates s"] acc by simp_all
  then show ?thesis using scaling_candidates_near [of r s]
    by (auto simp: d cheapest_def scaling_feasible_def Let_def split: if_splits)
qed

definition sample_replicas :: ScalingSignal where
  "sample_replicas = \<lparr> sc_PredictedLoad = 1, sc_CurrentReplicas = 2, sc_TargetLatency = fl 500, sc_ObservedLatency = fl 900,
     sc_MinReplicas = 1, sc_MaxReplicas = 6, sc_ScaleCooldownCost = fl 0.1, sc_InstanceCost = 1, sc_SlaPenaltyWeight = 1 \<rparr>"

theorem RecommendScaling_cheapest_witness:
  "\<not> scaling_cost sample_replicas 4 < sd_Score (RecommendScaling sample_replicas)"
  using RecommendScaling_cheapest [of sample_replicas]
  by (auto simp: scaling_candidates_def scaling_feasible_def sample_replicas_def Let_def)

end
