(* ===== verification/PolicyProps.thy ===== *)
theory PolicyProps
  imports PolicyEngine FloatSign
begin

text \<open>
  What the recommendations of \<open>internal/policy\<close> promise the control plane: limits and steps,
  confidences and risks that are probabilities, the damping regime, and the fusion weights.
\<close>

section \<open>Risks and margins\<close>

lemma policy_risk_unit: "f_nonneg x \<Longrightarrow> unit_btw (1 - math_Exp (- x))"
  using math_Exp_nonpos [of "- x"] unfolding unit_btw_def one_f64_def
  by (intro fbtw_diff [where a = 1 and b = 1 and c = 0 and d = 1]) auto

lemma nn_risk: "nn x \<Longrightarrow> nn (1 - math_Exp (- x))"
proof (cases "x = NaN")
  case False
  assume "nn x"
  with False have "f_nonneg x" by (simp add: nn_def)
  then show ?thesis by (rule nnI [OF unit_nonneg [OF policy_risk_unit]])
qed simp

lemmas nn_intros = nn_closed nn_risk

lemma margin_unit: assumes "b \<le> s2" "b \<le> MaxFloat64" "f_nonneg b" shows "unit_btw (margin_confidence b s2)"
proof -
  have "f_nonneg (s2 - b)"
    using assms by (cases b; cases s2) (auto intro: fl_nonneg simp: minus_f64_def MaxFloat64_def)
  then show ?thesis unfolding margin_confidence_def by (rule policy_risk_unit)
qed

lemma cheapest_le_Max: "cheapest F S cs b best \<Longrightarrow> b \<le> MaxFloat64"
  by (auto simp: cheapest_def le_refl64 split: option.splits intro: less_imp_le64)

lemma f_nonneg_Max: "f_nonneg MaxFloat64"
  by (simp add: MaxFloat64_def)

lemma cheapest_nonneg:
  assumes "cheapest F S cs b best" "\<And>c. c \<in> set cs \<Longrightarrow> F c \<Longrightarrow> nn (S c)" shows "f_nonneg b"
proof (cases best)
  case (Some c)
  then have "nn (S c)" "S c < MaxFloat64" "S c = b" using assms by (auto simp: cheapest_def)
  then show ?thesis by (auto simp: nn_def)
qed (use assms(1) in \<open>simp add: cheapest_def f_nonneg_Max\<close>)

lemma pick_confidence:
  assumes "pick F S cs = (b, s2, best)" "\<And>c. c \<in> set cs \<Longrightarrow> F c \<Longrightarrow> nn (S c)"
  shows "unit_btw (margin_confidence b s2)"
  using pick_cheapest [OF assms(1)] assms(2) by (blast intro: margin_unit cheapest_le_Max cheapest_nonneg)

section \<open>Retries\<close>

definition retry_signal_ok :: "RetrySignal \<Rightarrow> bool" where
  "retry_signal_ok s \<longleftrightarrow> unit_btw (rt_ObservedErrorRate s) \<and> unit_btw (rt_TimeoutRate s) \<and>
     f_nonneg (rt_QueueDepth s) \<and> f_nonneg (rt_BaseSystemRisk s) \<and>
     0 \<le> rt_CurrentRetryLimit s \<and> rt_CurrentRetryLimit s \<le> 1000000"

lemma retry_floor_ok: "retry_signal_ok s \<Longrightarrow> retry_signal_ok (retry_floor s)"
  by (simp add: retry_floor_def retry_signal_ok_def)

lemma retry_floor_fields [simp]:
  "rt_CurrentRetryLimit (retry_floor s) = rt_CurrentRetryLimit s"
  "rt_MaxRetryLimit (retry_floor s) = rt_MaxRetryLimit s"
  "rt_MinRetryLimit (retry_floor s) = max 1 (rt_MinRetryLimit s)"
  by (auto simp: retry_floor_def)

lemma retry_candidate_near:
  "c \<in> set (retry_candidates s) \<Longrightarrow> \<bar>fst c - rt_CurrentRetryLimit s\<bar> \<le> 2 \<and> fst c \<le> rt_CurrentRetryLimit s + 1 \<and> nn (snd c)"
  by (auto simp: retry_candidates_def split: if_splits)

lemma retry_score_nn:
  assumes "retry_signal_ok s" "1 \<le> fst c" "nn (snd c)" shows "nn (retry_score s c)"
proof -
  have "nn (rt_ObservedErrorRate s)" "nn (rt_TimeoutRate s)" "nn (rt_QueueDepth s)" "nn (rt_BaseSystemRisk s)"
    using assms(1) by (auto simp: retry_signal_ok_def intro: unit_nonneg)
  with assms(2, 3) show ?thesis by (simp add: retry_score_def Let_def nn_intros)
qed

lemma retry_risk:
  assumes "retry_signal_ok s" "0 \<le> k" "k \<le> 1000001"
  shows "f_nonneg (rt_BaseSystemRisk s + f64_of_int k * (rt_ObservedErrorRate s + rt_TimeoutRate s))"
proof -
  have k: "f64_of_int k = Fin (of_int k)" using assms by (intro f64_of_int_small) simp
  have "fbtw 0 (rt_ObservedErrorRate s + rt_TimeoutRate s) 2"
    using assms(1) unfolding retry_signal_ok_def unit_btw_def
    by (intro fbtw_add [where a = 0 and b = 1 and c = 0 and d = 1]) auto
  then have "f_nonneg (f64_of_int k * (rt_ObservedErrorRate s + rt_TimeoutRate s))"
    using assms(2) by (auto elim!: fbtwE simp: k intro!: fl_nonneg)
  with assms(1) show ?thesis by (auto simp: retry_signal_ok_def intro: f_nonneg_add)
qed

text \<open>RecommendRetryPolicy for rates, depth and risk that are not negative: the limit it returns is the
  current one or lies in [max(1, MinRetryLimit), MaxRetryLimit] within two of the current one, and
  its Confidence and Risk lie in [0, 1].\<close>

theorem RecommendRetryPolicy_safe:
  assumes "retry_signal_ok s"
  shows "let d = RecommendRetryPolicy s; k = rd_RetryLimit d
    in (k = rt_CurrentRetryLimit s \<or>
        max 1 (rt_MinRetryLimit s) \<le> k \<and> k \<le> rt_MaxRetryLimit s \<and> \<bar>k - rt_CurrentRetryLimit s\<bar> \<le> 2) \<and>
       unit_btw (rd_Confidence d) \<and> unit_btw (rd_Risk d)"
proof -
  let ?s = "retry_floor s"
  obtain b s2 best where ch: "retry_choice ?s = (b, s2, best)" by (metis prod_cases3)
  note p = pick_cheapest [OF ch [unfolded retry_choice_def]]
  have ok: "retry_signal_ok ?s" using assms by (rule retry_floor_ok)
  define k where "k = (case best of None \<Rightarrow> rt_CurrentRetryLimit s | Some c \<Rightarrow> fst c)"
  have near: "k = rt_CurrentRetryLimit s \<or> max 1 (rt_MinRetryLimit s) \<le> k \<and> k \<le> rt_MaxRetryLimit s \<and>
      \<bar>k - rt_CurrentRetryLimit s\<bar> \<le> 2" and bounds: "0 \<le> k" "k \<le> 1000001"
    using p(1) ok retry_candidate_near [of "the best" ?s]
    by (auto simp: k_def cheapest_def retry_feasible_def retry_signal_ok_def split: option.splits)
  have d: "rd_RetryLimit (RecommendRetryPolicy s) = k"
    "rd_Risk (RecommendRetryPolicy s) = 1 - math_Exp (- (rt_BaseSystemRisk ?s + f64_of_int k * (rt_ObservedErrorRate ?s + rt_TimeoutRate ?s)))"
    "rd_Confidence (RecommendRetryPolicy s) = margin_confidence b s2"
    by (auto simp: RecommendRetryPolicy_def ch k_def Let_def split: option.splits prod.splits)
  have "unit_btw (margin_confidence b s2)"
    by (rule pick_confidence [OF ch [unfolded retry_choice_def]])
      (auto simp: retry_feasible_def intro!: retry_score_nn [OF ok] dest: retry_candidate_near)
  with near d policy_risk_unit [OF retry_risk [OF ok bounds]] show ?thesis by (simp add: Let_def)
qed

section \<open>Queue limit\<close>

definition queue_signal_ok :: "QueueSignal \<Rightarrow> bool" where
  "queue_signal_ok s \<longleftrightarrow> finite64 (qs_CurrentQueueDepth s) \<and> f_nonneg (qs_CurrentQueueDepth s) \<and>
     f_nonneg (qs_PredictedArrival s) \<and> f_nonneg (qs_BaseSystemRisk s) \<and>
     0 < qs_CurrentQueueLimit s \<and> qs_MinQueueLimit s \<noteq> NaN"

lemma queue_floor_ok: "queue_signal_ok s \<Longrightarrow> queue_signal_ok (queue_floor s)"
  by (auto simp: queue_floor_def queue_signal_ok_def Let_def one_f64_def)

lemma queue_floor_fields [simp]:
  "qs_CurrentQueueLimit (queue_floor s) = qs_CurrentQueueLimit s"
  "qs_MaxQueueLimit (queue_floor s) = qs_MaxQueueLimit s"
  by (auto simp: queue_floor_def Let_def)

lemma queue_floor_min: "qs_MinQueueLimit s \<noteq> NaN \<Longrightarrow> 1 \<le> qs_MinQueueLimit (queue_floor s) \<and> qs_MinQueueLimit s \<le> qs_MinQueueLimit (queue_floor s)"
  by (cases "qs_MinQueueLimit s") (auto simp: queue_floor_def Let_def one_f64_def)

lemma ge_1_nonneg: "1 \<le> x \<Longrightarrow> f_nonneg x"
  by (cases x) (auto simp: one_f64_def)

lemma queue_limit_ge:
  assumes "queue_feasible (queue_floor s) c" "qs_MinQueueLimit s \<noteq> NaN"
  shows "fst c = NaN \<or> 1 \<le> fst c \<and> qs_MinQueueLimit s \<le> fst c"
  using assms queue_floor_min [OF assms(2)] not_less64 [of "fst c" "qs_MinQueueLimit (queue_floor s)"] le_trans64
  by (cases "qs_MinQueueLimit (queue_floor s) = NaN") (auto simp: queue_feasible_def)

lemma queue_score_nn:
  assumes "queue_signal_ok s" "nn (fst c)" "nn (snd c)" shows "nn (queue_score s c)"
proof -
  have base: "nn (qs_CurrentQueueDepth s)" "nn (qs_PredictedArrival s)" "nn (qs_BaseSystemRisk s)"
    using assms(1) by (auto simp: queue_signal_ok_def)
  have "nn e" if "0 < e" for e using that by (cases e) (auto simp: zero_f64_def)
  then have "nn (if 0 < e then qs_PredictedArrival s / e else 0)" for e using base by (auto intro: nn_intros)
  with base assms(2, 3) show ?thesis by (simp add: queue_score_def latency_stress_def Let_def nn_intros)
qed

lemma queue_candidate_drain: "c \<in> set (queue_candidates s) \<Longrightarrow> nn (snd c)"
  by (auto simp: queue_candidates_def split: if_splits)

lemma queue_score_NaN: "fst c = NaN \<Longrightarrow> queue_score s c = NaN"
  by (simp add: queue_score_def Let_def math_Min_def)

lemma depth_over_limit:
  assumes "queue_signal_ok s" "0 < l" shows "f_nonneg (qs_BaseSystemRisk s + qs_CurrentQueueDepth s / l)"
proof -
  obtain q where q: "qs_CurrentQueueDepth s = Fin q" "0 \<le> q"
    using assms(1) by (cases "qs_CurrentQueueDepth s") (auto simp: queue_signal_ok_def)
  have "f_nonneg (Fin q / l)" using q assms(2) by (cases l) (auto simp: zero_f64_def intro: fl_nonneg)
  with q assms(1) show ?thesis by (auto simp: queue_signal_ok_def intro: f_nonneg_add)
qed

lemma ge_1_pos: "1 \<le> x \<Longrightarrow> 0 < (x :: f64)"
  by (cases x) (auto simp: one_f64_def zero_f64_def)

text \<open>RecommendQueuePolicy for a signal that is not negative: the queue limit it returns is the
  current one or is at least 1, at least MinQueueLimit and not above MaxQueueLimit, and its
  Confidence and Risk lie in [0, 1]; a candidate whose limit or score is NaN is never chosen.\<close>

theorem RecommendQueuePolicy_safe:
  assumes "queue_signal_ok s"
  shows "let d = RecommendQueuePolicy s; l = qd_QueueLimit d
    in (l = qs_CurrentQueueLimit s \<or> 1 \<le> l \<and> qs_MinQueueLimit s \<le> l \<and> \<not> qs_MaxQueueLimit s < l) \<and>
       unit_btw (qd_Confidence d) \<and> unit_btw (qd_Risk d)"
proof -
  let ?s = "queue_floor s"
  obtain b s2 best where ch: "queue_choice ?s = (b, s2, best)" by (metis prod_cases3)
  note p = pick_cheapest [OF ch [unfolded queue_choice_def]]
  have ok: "queue_signal_ok ?s" using assms by (rule queue_floor_ok)
  have min: "qs_MinQueueLimit s \<noteq> NaN" and cur: "0 < qs_CurrentQueueLimit s" using assms by (auto simp: queue_signal_ok_def)
  have best: "1 \<le> fst c \<and> qs_MinQueueLimit s \<le> fst c \<and> \<not> qs_MaxQueueLimit s < fst c" if "best = Some c" for c
  proof -
    have c: "queue_feasible ?s c" "queue_score ?s c < MaxFloat64" using p(1) that by (auto simp: cheapest_def)
    then have "fst c \<noteq> NaN" using queue_score_NaN [of c ?s] by auto
    with c queue_limit_ge [OF c(1) min] show ?thesis by (simp add: queue_feasible_def)
  qed
  define l where "l = (case best of None \<Rightarrow> qs_CurrentQueueLimit s | Some c \<Rightarrow> fst c)"
  have near: "l = qs_CurrentQueueLimit s \<or> 1 \<le> l \<and> qs_MinQueueLimit s \<le> l \<and> \<not> qs_MaxQueueLimit s < l" and "0 < l"
    using best cur by (auto simp: l_def ge_1_pos split: option.splits)
  have d: "qd_QueueLimit (RecommendQueuePolicy s) = l"
    "qd_Risk (RecommendQueuePolicy s) = 1 - math_Exp (- (qs_BaseSystemRisk ?s + qs_CurrentQueueDepth ?s / l))"
    "qd_Confidence (RecommendQueuePolicy s) = margin_confidence b s2"
    by (auto simp: RecommendQueuePolicy_def ch l_def Let_def split: option.splits prod.splits)
  have "nn (queue_score ?s c)" if "queue_feasible ?s c" "c \<in> set (queue_candidates ?s)" for c
    using queue_limit_ge [OF that(1) min] queue_candidate_drain [OF that(2)]
    by (intro queue_score_nn [OF ok]) (auto intro: ge_1_nonneg)
  then have "unit_btw (margin_confidence b s2)"
    by (intro pick_confidence [OF ch [unfolded queue_choice_def]])
  with near d policy_risk_unit [OF depth_over_limit [OF ok \<open>0 < l\<close>]] show ?thesis by (simp add: Let_def)
qed

section \<open>Cache aggression\<close>

lemma future_hit_le: "future_hit s a \<noteq> NaN \<Longrightarrow> f_nonneg (1 - future_hit s a)"
proof -
  assume "future_hit s a \<noteq> NaN"
  moreover have "fl 0.99 \<le> Fin 1" using fl_mono [of "0.99" 1] by simp
  ultimately have "future_hit s a \<le> Fin 1"
    by (auto simp: future_hit_def math_Min_def split: if_splits intro: less_imp_le64 le_trans64 [OF _ \<open>fl 0.99 \<le> Fin 1\<close>])
      (meson \<open>fl 0.99 \<le> Fin 1\<close> not_less64 le_trans64 fl_not_NaN)
  then show ?thesis by (cases "future_hit s a") (auto simp: one_f64_def minus_f64_def intro: fl_nonneg)
qed

lemma cache_score_NaN: "future_hit s a = NaN \<Longrightarrow> cache_score s a = NaN"
  by (simp add: cache_score_def Let_def)

text \<open>For a base risk that is not negative the cache decision's Risk lies in [0, 1], whatever
  the rest of the signal holds, and the aggression is the current one or inside the limits.\<close>

theorem RecommendCachePolicy_risk:
  assumes "f_nonneg (ca_BaseSystemRisk s)"
  shows "let d = RecommendCachePolicy s; a = cd_CacheAggression d
    in unit_btw (cd_Risk d) \<and> (a = ca_CurrentCacheAggression s \<or> \<not> a < ca_MinAggression s \<and> \<not> ca_MaxAggression s < a)"
proof -
  let ?s = "cache_floor s"
  obtain b s2 best where ch: "cache_choice ?s = (b, s2, best)" by (metis prod_cases3)
  note p = pick_cheapest [OF ch [unfolded cache_choice_def]]
  have fields: "ca_BaseSystemRisk ?s = ca_BaseSystemRisk s" "ca_CurrentCacheAggression ?s = ca_CurrentCacheAggression s"
    "ca_MinAggression ?s = ca_MinAggression s" "ca_MaxAggression ?s = ca_MaxAggression s" by (auto simp: cache_floor_def)
  define h where "h = (case best of None \<Rightarrow> 0 | Some a \<Rightarrow> future_hit ?s a)"
  have "f_nonneg (1 - h)"
  proof (cases best)
    case None
    then show ?thesis by (simp add: h_def zero_f64_def one_f64_def)
  next
    case (Some a)
    then have "cache_score ?s a < MaxFloat64" using p(1) by (auto simp: cheapest_def)
    then have "future_hit ?s a \<noteq> NaN" using cache_score_NaN [of ?s a] by auto
    then show ?thesis using Some by (auto simp: h_def intro: future_hit_le)
  qed
  then have "unit_btw (1 - math_Exp (- (ca_BaseSystemRisk s + (1 - h))))"
    by (intro policy_risk_unit f_nonneg_add assms)
  moreover have "cd_Risk (RecommendCachePolicy s) = 1 - math_Exp (- (ca_BaseSystemRisk s + (1 - h)))"
    "cd_CacheAggression (RecommendCachePolicy s) = (case best of None \<Rightarrow> ca_CurrentCacheAggression s | Some a \<Rightarrow> a)"
    by (simp_all add: RecommendCachePolicy_def ch h_def Let_def fields split: option.splits)
  ultimately show ?thesis using p(1) by (auto simp: Let_def cheapest_def cache_feasible_def fields split: option.splits)
qed

section \<open>The fusion weights\<close>

lemma weight_near:
  assumes "1 \<le> u"
  obtains y where "fl 0.25 + fl 0.2 * math_Min 1 u = Fin y" "0.449 \<le> y" "y \<le> 0.451"
proof -
  have m: "math_Min 1 u = Fin 1" using assms by (cases u) (auto simp: math_Min_def one_f64_def)
  obtain a where a: "fl 0.2 = Fin a" "0.2 - 1 / 100000 \<le> a" "a \<le> 0.2 + 1 / 100000" by (rule fl_close [of "0.2"]) auto
  obtain b where b: "fl (a * 1) = Fin b" "a - 1 / 100000 \<le> b" "b \<le> a + 1 / 100000"
    by (rule fl_close [of "a * 1"]) (use a in simp_all)
  obtain y where y: "fl (1 / 4 + b) = Fin y" "1 / 4 + b - 1 / 100000 \<le> y" "y \<le> 1 / 4 + b + 1 / 100000"
    by (rule fl_close [of "1 / 4 + b"]) (use a b in simp_all)
  have quarter: "fl 0.25 = Fin (1 / 4)" using fl_frep [of "1 / 4"] big_ge(3) by simp
  show ?thesis
  proof (rule that)
    show "fl 0.25 + fl 0.2 * math_Min 1 u = Fin y" unfolding quarter a(1) m times_f64.simps b(1) plus_f64.simps y(1) ..
    show "0.449 \<le> y" "y \<le> 0.451" using a b y by simp_all
  qed
qed

text \<open>When the predicted load reaches the capacity and the depth reaches the queue limit, the fusion
  weights of EvaluatePolicies leave the cache policy a negative weight (below -0.14): under the
  heaviest load a riskier cache lowers the global risk.\<close>

theorem full_load_negative_weight:
  assumes "1 \<le> load_ratio (qs_PredictedArrival q) (qs_ServiceCapacity q)"
    and "1 \<le> qs_CurrentQueueDepth q / qs_CurrentQueueLimit q"
  shows "case risk_weights q of (scaleW, queueW, retryW, cacheW) \<Rightarrow>
    fl 0.44 < scaleW \<and> fl 0.44 < queueW \<and> cacheW < Fin (- 0.14)"
proof -
  obtain x where x: "fl 0.25 + fl 0.2 * math_Min 1 (load_ratio (qs_PredictedArrival q) (qs_ServiceCapacity q)) = Fin x"
    "0.449 \<le> x" "x \<le> 0.451" by (rule weight_near [OF assms(1)])
  obtain y where y: "fl 0.25 + fl 0.2 * math_Min 1 (qs_CurrentQueueDepth q / qs_CurrentQueueLimit q) = Fin y"
    "0.449 \<le> y" "y \<le> 0.451" by (rule weight_near [OF assms(2)])
  have quarter: "fl 0.25 = Fin (1 / 4)" using fl_frep [of "1 / 4"] big_ge(3) by simp
  obtain z where z: "fl (x + y) = Fin z" "x + y - 1 / 100000 \<le> z" "z \<le> x + y + 1 / 100000"
    by (rule fl_close [of "x + y"]) (use x(2, 3) y(2, 3) in simp_all)
  obtain v where v: "fl (z + 1 / 4) = Fin v" "z + 1 / 4 - 1 / 100000 \<le> v" "v \<le> z + 1 / 4 + 1 / 100000"
    by (rule fl_close [of "z + 1 / 4"]) (use x(2, 3) y(2, 3) z in simp_all)
  obtain c where c: "fl (1 - v) = Fin c" "1 - v - 1 / 100000 \<le> c" "c \<le> 1 - v + 1 / 100000"
    by (rule fl_close [of "1 - v"]) (use x(2, 3) y(2, 3) z v in simp_all)
  obtain f where f: "fl 0.44 = Fin f" "f \<le> 0.44 + 1 / 100000" by (rule fl_close [of "0.44"]) auto
  have "f < x" "f < y" "c < - 0.14" using x(2, 3) y(2, 3) z(2) v(2) c(3) f(2) by simp_all
  then show ?thesis unfolding risk_weights_def Let_def x(1) y(1) f(1) unfolding quarter
    by (simp add: z(1) v(1) c(1) one_f64_def)
qed

section \<open>The damping regime\<close>

definition swing :: "f64 \<Rightarrow> f64 \<Rightarrow> bool" where
  "swing previous globalRisk \<longleftrightarrow> fl 0.12 < \<bar>globalRisk - previous\<bar>"

text \<open>A run of evaluations on one state, with the number of risk swings it saw.\<close>

fun evaluate_run :: "EngineInput list \<Rightarrow> EngineState \<Rightarrow> nat \<Rightarrow> EngineState \<times> nat" where
  "evaluate_run [] st n = (st, n)"
| "evaluate_run (i # is) st n =
    (case EvaluatePolicies i (Some st) of
       (Some st', d) \<Rightarrow> evaluate_run is st' (if swing (en_LastGlobalRisk st) (ed_GlobalRisk d) then Suc n else n)
     | (None, _) \<Rightarrow> (st, n))"

lemma EvaluatePolicies_state:
  "\<exists>desired. fst (EvaluatePolicies i (Some st)) = Some (update_regime (ed_GlobalRisk (snd (EvaluatePolicies i (Some st)))) desired st)"
  by (auto simp: EvaluatePolicies_def Let_def)

lemma EvaluatePolicies_reason:
  "EvaluatePolicies i (Some st) = (Some st', d) \<Longrightarrow>
   ed_SystemReason d = regime_reason (ed_GlobalRisk d) (en_OscillationScore st')"
  by (auto simp: EvaluatePolicies_def Let_def)

definition scored :: "nat \<Rightarrow> EngineState \<Rightarrow> bool" where
  "scored n st \<longleftrightarrow> fbtw 0 (en_OscillationScore st) (real n)"

lemma score_step:
  assumes "scored n st" "n < 1000000"
  shows "scored (if swing (en_LastGlobalRisk st) g then Suc n else n) (update_regime g desired st)"
proof -
  obtain r where r: "en_OscillationScore st = Fin r" "0 \<le> r" "r \<le> real n"
    using assms(1) by (auto simp: scored_def elim: fbtwE)
  have fb: "fbound (real k)" if "k \<le> 1000001" for k using fbound_of_int [of "int k"] that by simp
  have "fbtw 0 (Fin r + 1) (real (Suc n))" unfolding one_f64_def
    using r assms(2) fb [of "Suc n"] by (auto intro!: fbtw_fl)
  moreover have "fbtw 0 (Fin r * fl 0.8) (real n)"
  proof (rule fbtw_mult [where a = 0 and b = "real n" and c = 0 and d = 1])
    show "fbtw 0 (fl 0.8) 1" by (rule fbtw_fl) auto
  qed (use r assms(2) fb [of n] in auto)
  ultimately show ?thesis by (simp add: scored_def update_regime_def swing_def r Let_def)
qed

lemma run_scored:
  assumes "scored n st" "n + length is \<le> 1000000" "evaluate_run is st n = (st', n')"
  shows "scored n' st' \<and> n' \<le> n + length is"
  using assms
proof (induction "is" arbitrary: st n)
  case (Cons i "is")
  obtain desired where s: "fst (EvaluatePolicies i (Some st)) = Some (update_regime (ed_GlobalRisk (snd (EvaluatePolicies i (Some st)))) desired st)"
    using EvaluatePolicies_state by blast
  define g where "g = ed_GlobalRisk (snd (EvaluatePolicies i (Some st)))"
  let ?n = "if swing (en_LastGlobalRisk st) g then Suc n else n"
  have "evaluate_run is (update_regime g desired st) ?n = (st', n')"
    using Cons.prems(3) s by (auto simp: g_def split: prod.splits option.splits)
  moreover have "scored ?n (update_regime g desired st)"
    using Cons.prems(1, 2) by (intro score_step) auto
  ultimately show ?case using Cons.IH [of ?n "update_regime g desired st"] Cons.prems(2) by (auto split: if_splits)
qed simp

lemma evaluate_run_snoc:
  "evaluate_run (is @ [i]) st n =
    (case evaluate_run is st n of (st1, n1) \<Rightarrow> evaluate_run [i] st1 n1)"
proof (induction "is" arbitrary: st n)
  case (Cons j "is")
  obtain desired where "fst (EvaluatePolicies j (Some st)) = Some (update_regime (ed_GlobalRisk (snd (EvaluatePolicies j (Some st)))) desired st)"
    using EvaluatePolicies_state by blast
  then show ?case using Cons.IH by (auto split: prod.splits)
qed simp

text \<open>Starting from a zero oscillation score, EvaluatePolicies reports the damping regime only after
  at least four evaluations whose global risk moved by more than 0.12, over any run of fewer than
  a million evaluations: the score is a sum of at most one per swing that only decays.\<close>

theorem damping_needs_four_swings:
  assumes "en_OscillationScore st0 = 0" and "length is < 1000000"
    and "evaluate_run is st0 0 = (st, n)" and "EvaluatePolicies i (Some st) = (Some st', d)"
    and "ed_SystemReason d = ''Detected control oscillation '' @ arrow @ '' damping regime''"
  shows "4 \<le> snd (evaluate_run (is @ [i]) st0 0)"
proof (rule ccontr)
  obtain m where m: "evaluate_run (is @ [i]) st0 0 = (st', m)"
    using assms(3, 4) by (auto simp: evaluate_run_snoc)
  assume "\<not> 4 \<le> snd (evaluate_run (is @ [i]) st0 0)"
  then have "m < 4" by (simp add: m)
  have "scored 0 st0" using assms(1) by (simp add: scored_def zero_f64_def)
  from run_scored [OF this _ m] assms(2) have "scored m st'" by simp
  then have "\<not> fl 3 < en_OscillationScore st'" using \<open>m < 4\<close> by (auto simp: scored_def elim!: fbtwE)
  then show False using assms(5) EvaluatePolicies_reason [OF assms(4)]
    by (auto simp: regime_reason_def arrow_def split: if_splits)
qed

section \<open>Concrete signals\<close>

definition sample_retry :: "f64 \<Rightarrow> RetrySignal" where
  "sample_retry risk = \<lparr> rt_ObservedErrorRate = 0, rt_TimeoutRate = 0, rt_QueueDepth = 0, rt_PredictedArrival = 0,
     rt_ServiceCapacity = 1, rt_BaseSystemRisk = risk, rt_CurrentRetryLimit = 3, rt_MinRetryLimit = 10,
     rt_MaxRetryLimit = 5, rt_MinBackoff = 1, rt_MaxBackoff = fl 3 \<rparr>"

definition sample_queue :: "f64 \<Rightarrow> QueueSignal" where
  "sample_queue depth = \<lparr> qs_CurrentQueueDepth = depth, qs_PredictedArrival = depth, qs_ServiceCapacity = 1,
     qs_ObservedLatency = 1, qs_TargetLatency = fl 500, qs_BaseSystemRisk = 0, qs_CurrentQueueLimit = 1,
     qs_MinQueueLimit = Fin 20, qs_MaxQueueLimit = Fin (- 20), qs_MaxStep = 1 \<rparr>"

definition sample_scaling :: ScalingSignal where
  "sample_scaling = \<lparr> sc_PredictedLoad = 0, sc_CurrentReplicas = 3, sc_TargetLatency = fl 500, sc_ObservedLatency = 1,
     sc_MinReplicas = 10, sc_MaxReplicas = 1, sc_ScaleCooldownCost = 0, sc_InstanceCost = 1, sc_SlaPenaltyWeight = 1 \<rparr>"

definition sample_cache :: CacheSignal where
  "sample_cache = \<lparr> ca_CurrentHitRate = 0, ca_TargetHitRate = 0, ca_PredictedArrival = 0, ca_ServiceCapacity = 1,
     ca_ObservedLatency = 1, ca_TargetLatency = fl 500, ca_CacheableRatio = 0, ca_BaseMemoryPressure = 0,
     ca_BaseSystemRisk = - 1, ca_CurrentCacheAggression = 0, ca_MinAggression = Fin 1, ca_MaxAggression = Fin (- 1), ca_BaseStep = 1 \<rparr>"

definition sample_input :: "f64 \<Rightarrow> EngineInput" where
  "sample_input risk = \<lparr> ei_Scaling = sample_scaling, ei_Retry = sample_retry risk, ei_Queue = sample_queue 0,
     ei_Cache = sample_cache, ei_CostWeights = \<lparr> cw_SlaViolation = 1, cw_InfraCost = 1, cw_ChangeCost = 1, cw_RiskCost = 1, cw_FutureCost = 1 \<rparr> \<rparr>"

lemma sample_scaling_risk: "sd_Risk (RecommendScaling sample_scaling) = 0"
  by (simp add: RecommendScaling_def scaling_candidates_def sample_scaling_def scaling_step_def scaling_feasible_def
      Let_def one_f64_def zero_f64_def)

lemma pick_infeasible: "(\<And>c. c \<in> set cs \<Longrightarrow> \<not> F c) \<Longrightarrow> pick F S cs = (MaxFloat64, MaxFloat64, None)"
  unfolding pick_def by (induction cs) (auto simp: pick_step_def)

lemma crossed_limits: "c \<noteq> NaN \<Longrightarrow> \<not> Fin hi < c \<Longrightarrow> hi < lo \<Longrightarrow> c < Fin lo"
  by (cases c) auto

lemma sample_retry_risk: "rd_Risk (RecommendRetryPolicy (sample_retry risk)) = 1 - math_Exp (- (risk + 0))"
proof -
  have "retry_choice (retry_floor (sample_retry risk)) = (MaxFloat64, MaxFloat64, None)"
    unfolding retry_choice_def by (rule pick_infeasible) (auto simp: retry_feasible_def sample_retry_def)
  then show ?thesis
    by (simp add: RecommendRetryPolicy_def Let_def) (simp add: sample_retry_def retry_floor_def zero_f64_def)
qed

lemma sample_queue_risk:
  "qd_Risk (RecommendQueuePolicy (sample_queue 0)) = 0" "qd_QueueLimit (RecommendQueuePolicy (sample_queue 0)) = 1"
proof -
  have fields: "qs_MinQueueLimit (queue_floor (sample_queue 0)) = Fin 20" "qs_MaxQueueLimit (sample_queue 0) = Fin (- 20)"
    "qs_MaxStep (queue_floor (sample_queue 0)) = 1" "qs_CurrentQueueLimit (sample_queue 0) = Fin 1"
    by (simp_all add: queue_floor_def sample_queue_def one_f64_def zero_f64_def)
  have "queue_choice (queue_floor (sample_queue 0)) = (MaxFloat64, MaxFloat64, None)"
    unfolding queue_choice_def
    by (rule pick_infeasible)
      (auto simp: queue_feasible_def fields queue_candidates_def one_f64_def intro: crossed_limits split: if_splits)
  then show "qd_Risk (RecommendQueuePolicy (sample_queue 0)) = 0" "qd_QueueLimit (RecommendQueuePolicy (sample_queue 0)) = 1"
    by (simp_all add: RecommendQueuePolicy_def Let_def fields)
      (simp_all add: sample_queue_def queue_floor_def zero_f64_def one_f64_def)
qed

lemma sample_cache_risk: "cd_Risk (RecommendCachePolicy sample_cache) = 0"
proof -
  have fields: "ca_MinAggression (cache_floor sample_cache) = Fin 1" "ca_MaxAggression (cache_floor sample_cache) = Fin (- 1)"
    "ca_CurrentCacheAggression (cache_floor sample_cache) = Fin 0" "ca_BaseStep (cache_floor sample_cache) = Fin 1"
    "load_ratio (ca_PredictedArrival (cache_floor sample_cache)) (ca_ServiceCapacity (cache_floor sample_cache)) = Fin 0"
    "ca_BaseSystemRisk (cache_floor sample_cache) = - 1"
    by (simp_all add: cache_floor_def sample_cache_def load_ratio_def one_f64_def zero_f64_def)
  have half: "fl (1 / 2) = Fin (1 / 2)" using fl_frep [of "1 / 2"] big_ge(3) by simp
  have "cache_choice (cache_floor sample_cache) = (MaxFloat64, MaxFloat64, None)"
    unfolding cache_choice_def
    by (rule pick_infeasible)
      (auto simp: cache_feasible_def fields cache_candidates_def Let_def one_f64_def half intro: crossed_limits split: if_splits)
  then show ?thesis by (simp add: RecommendCachePolicy_def Let_def fields) (simp add: one_f64_def zero_f64_def)
qed

lemma sample_weights: "risk_weights (sample_queue 0) = (Fin (1 / 4), Fin (1 / 4), Fin (1 / 4), Fin (1 / 4))"
proof -
  have q: "fl (1 / 4) = Fin (1 / 4)" "fl (1 / 2) = Fin (1 / 2)" "fl (3 / 4) = Fin (3 / 4)"
    using fl_frep [of "1 / 4"] fl_frep [of "1 / 2"] fl_frep [of "3 / 4"] frep_quarter [of "num.Bit1 num.One"] big_ge(3)
    by simp_all
  obtain a where "fl (1 / 5) = Fin a" by (rule fl_close [of "1 / 5"]) auto
  then have "fl (1 / 5) * Fin 0 = Fin 0" by simp
  then show ?thesis
    by (simp add: risk_weights_def sample_queue_def load_ratio_def Let_def one_f64_def zero_f64_def q)
qed

lemma sample_global_risk:
  "ed_GlobalRisk (snd (EvaluatePolicies (sample_input 0) st)) = 0"
  "ed_GlobalRisk (snd (EvaluatePolicies (sample_input PInf) st)) = 1 - fl (exp (- (1 / 4)))"
proof -
  have q: "fl (1 / 4) = Fin (1 / 4)" using fl_frep [of "1 / 4"] big_ge(3) by simp
  show "ed_GlobalRisk (snd (EvaluatePolicies (sample_input 0) st)) = 0"
    "ed_GlobalRisk (snd (EvaluatePolicies (sample_input PInf) st)) = 1 - fl (exp (- (1 / 4)))"
    by (simp_all add: EvaluatePolicies_def Let_def sample_input_def sample_scaling_risk sample_retry_risk sample_queue_risk
        sample_cache_risk damp_conflict_def fuse_risk_def sample_weights)
      (simp_all add: q one_f64_def zero_f64_def)
qed

lemma sample_swing: "swing 0 (1 - fl (exp (- (1 / 4))))" "swing (1 - fl (exp (- (1 / 4)))) 0"
proof -
  have "1 + 1 / 4 \<le> exp (1 / 4 :: real)" by (rule exp_ge_add_one_self)
  then have e: "0 < exp (- (1 / 4) :: real)" "exp (- (1 / 4) :: real) \<le> 4 / 5"
    by (simp_all add: exp_minus field_simps)
  have e': "- 1024 \<le> exp (- (1 / 4) :: real)" "exp (- (1 / 4) :: real) \<le> 1024" using e by linarith+
  obtain y where y: "fl (exp (- (1 / 4))) = Fin y" "exp (- (1 / 4)) - 1 / 100000 \<le> y" "y \<le> exp (- (1 / 4)) + 1 / 100000"
    using fl_close [OF e'] by blast
  have y': "- (1 / 100) \<le> y" "y \<le> 81 / 100" using e y by linarith+
  obtain z where z: "fl (1 - y) = Fin z" "18 / 100 \<le> z" "z \<le> 2"
    by (rule fl_close [of "1 - y"]) (use y' in auto)
  obtain w where w: "fl z = Fin w" "17 / 100 \<le> w" by (rule fl_close [of z]) (use z in auto)
  obtain t where t: "fl 0.12 = Fin t" "t \<le> 13 / 100" by (rule fl_close [of "0.12"]) auto
  have "fl (- z) = Fin (- w)" using fl_minus [of z] w by simp
  then show "swing 0 (1 - fl (exp (- (1 / 4))))" "swing (1 - fl (exp (- (1 / 4)))) 0"
    using t w by (simp_all add: swing_def t(1) y(1) z(1) one_f64_def zero_f64_def)
qed

definition sample_state :: EngineState where
  "sample_state = \<lparr> en_LastGlobalRisk = 0, en_LastReplicas = 3, en_OscillationScore = 0 \<rparr>"

lemma sample_step:
  "EvaluatePolicies (sample_input risk) (Some st) =
    (Some (update_regime (ed_GlobalRisk (snd (EvaluatePolicies (sample_input risk) (Some st)))) 3 st),
     snd (EvaluatePolicies (sample_input risk) (Some st)))"
proof -
  have "sd_DesiredReplicas (RecommendScaling (ei_Scaling (sample_input risk))) = 3"
    by (simp add: RecommendScaling_def scaling_candidates_def sample_input_def sample_scaling_def scaling_step_def
        scaling_feasible_def Let_def one_f64_def zero_f64_def)
  then show ?thesis by (simp add: EvaluatePolicies_def Let_def)
qed

definition sample_swung :: "f64 \<Rightarrow> f64 \<Rightarrow> EngineState" where
  "sample_swung risk score = \<lparr> en_LastGlobalRisk = risk, en_LastReplicas = 3, en_OscillationScore = score \<rparr>"

lemma sample_update:
  "update_regime (1 - fl (exp (- (1 / 4)))) 3 (sample_swung 0 x) = sample_swung (1 - fl (exp (- (1 / 4)))) (x + 1)"
  "update_regime 0 3 (sample_swung (1 - fl (exp (- (1 / 4)))) x) = sample_swung 0 (x + 1)"
  using sample_swing by (simp_all add: update_regime_def sample_swung_def swing_def Let_def)

lemma sample_run_step:
  "evaluate_run (sample_input PInf # is) (sample_swung 0 x) n = evaluate_run is (sample_swung (1 - fl (exp (- (1 / 4)))) (x + 1)) (Suc n)"
  "evaluate_run (sample_input 0 # is) (sample_swung (1 - fl (exp (- (1 / 4)))) x) n = evaluate_run is (sample_swung 0 (x + 1)) (Suc n)"
proof -
  show "evaluate_run (sample_input PInf # is) (sample_swung 0 x) n = evaluate_run is (sample_swung (1 - fl (exp (- (1 / 4)))) (x + 1)) (Suc n)"
    using sample_swing sample_update
    by (subst evaluate_run.simps, subst sample_step) (simp add: sample_global_risk sample_swung_def)
  show "evaluate_run (sample_input 0 # is) (sample_swung (1 - fl (exp (- (1 / 4)))) x) n = evaluate_run is (sample_swung 0 (x + 1)) (Suc n)"
    using sample_swing sample_update
    by (subst evaluate_run.simps, subst sample_step) (simp add: sample_global_risk sample_swung_def)
qed

lemma sample_signals_ok:
  "retry_signal_ok (sample_retry 0)" "queue_signal_ok (sample_queue 0)"
  by (simp_all add: retry_signal_ok_def sample_retry_def queue_signal_ok_def sample_queue_def unit_btw_def one_f64_def zero_f64_def)

theorem RecommendRetryPolicy_safe_witness: "unit_btw (rd_Confidence (RecommendRetryPolicy (sample_retry 0)))"
  using RecommendRetryPolicy_safe [OF sample_signals_ok(1)] by (simp add: Let_def)

theorem RecommendQueuePolicy_safe_witness: "unit_btw (qd_Confidence (RecommendQueuePolicy (sample_queue 0)))"
  using RecommendQueuePolicy_safe [OF sample_signals_ok(2)] by (simp add: Let_def)

theorem RecommendCachePolicy_risk_witness: "unit_btw (cd_Risk (RecommendCachePolicy (sample_cache\<lparr> ca_BaseSystemRisk := 0 \<rparr>)))"
  using RecommendCachePolicy_risk [of "sample_cache\<lparr> ca_BaseSystemRisk := 0 \<rparr>"] by (simp add: Let_def)

theorem full_load_negative_weight_witness: "snd (snd (snd (risk_weights (sample_queue (fl 2))))) < Fin (- 0.14)"
  using full_load_negative_weight [of "sample_queue (fl 2)"]
  by (simp add: sample_queue_def load_ratio_def one_f64_def zero_f64_def split: prod.splits)

theorem damping_needs_four_swings_witness:
  "4 \<le> snd (evaluate_run ([sample_input PInf, sample_input 0, sample_input PInf] @ [sample_input 0]) (sample_swung 0 0) 0)"
proof (rule damping_needs_four_swings)
  let ?g = "1 - fl (exp (- (1 / 4)))"
  show "en_OscillationScore (sample_swung 0 0) = 0" by (simp add: sample_swung_def)
  show "evaluate_run [sample_input PInf, sample_input 0, sample_input PInf] (sample_swung 0 0) 0 = (sample_swung ?g (0 + 1 + 1 + 1), 3)"
    unfolding sample_run_step by simp
  let ?e = "EvaluatePolicies (sample_input 0) (Some (sample_swung ?g (0 + 1 + 1 + 1)))"
  show e: "?e = (Some (sample_swung 0 (0 + 1 + 1 + 1 + 1)), snd ?e)"
    using sample_step [of 0 "sample_swung ?g (0 + 1 + 1 + 1)"] sample_update(2) by (simp add: sample_global_risk)
  show "ed_SystemReason (snd ?e) = ''Detected control oscillation '' @ arrow @ '' damping regime''"
    using EvaluatePolicies_reason [OF e] by (simp add: sample_swung_def regime_reason_def one_f64_def zero_f64_def)
qed simp

end
