(* ===== verification/SandboxCompare.thy ===== *)
theory SandboxCompare
  imports SandboxPlant
begin

text \<open>
  \<open>internal/sandbox\<close>, from two series of snapshots to advice: \<open>comparison_engine.go\<close> (the recency
  weighted comparison of a candidate with its baseline, and the metrics of the phase 1 runner)
  and \<open>policy_recommendation.go\<close>.
\<close>

section \<open>Comparison\<close>

record ComparisonResult =
  cr_CostScore :: f64
  cr_UtilityScore :: f64
  cr_CollapseEnergy :: f64
  cr_InteractionRisk :: f64
  cr_GlobalScore :: f64
  cr_Stable :: bool
  cr_SafetyMarg :: f64
  cr_Confidence :: f64
  cr_TemporalRobustness :: f64

definition zero_comparison :: ComparisonResult where
  "zero_comparison =
    \<lparr> cr_CostScore = 0, cr_UtilityScore = 0, cr_CollapseEnergy = 0, cr_InteractionRisk = 0, cr_GlobalScore = 0,
      cr_Stable = False, cr_SafetyMarg = 0, cr_Confidence = 0, cr_TemporalRobustness = 0 \<rparr>"

record ComparisonWeights =
  cmw_LatencyW :: f64
  cmw_TailW :: f64
  cmw_BacklogW :: f64
  cmw_OscW :: f64
  cmw_SettleW :: f64
  cmw_ThroughputW :: f64
  cmw_CollapseW :: f64
  cmw_InteractW :: f64
  cmw_SLA_TailLimit :: f64
  cmw_SLA_CollapseLimit :: f64
  cmw_SLA_MinThroughput :: f64
  cmw_Hysteresis :: f64
  cmw_Discount :: f64

definition micro :: f64 where
  \<comment> \<open>the constant \<open>1e-6\<close>\<close>
  "micro = fl (1 / 1000000)"

definition costImproveStd :: "f64 \<Rightarrow> f64 \<Rightarrow> f64" where
  "costImproveStd base cand = (if base \<le> 0 \<or> cand \<le> 0 then 0 else math_Log (base / cand))"

definition utilImproveStd :: "f64 \<Rightarrow> f64 \<Rightarrow> f64" where
  "utilImproveStd base cand = (if base \<le> 0 \<or> cand \<le> 0 then 0 else math_Log (cand / base))"

definition stdDiff :: "f64 \<Rightarrow> f64 \<Rightarrow> f64" where
  "stdDiff a b = \<bar>a - b\<bar> / (\<bar>a\<bar> + \<bar>b\<bar> + micro)"

definition standardise :: "f64 \<Rightarrow> f64" where
  "standardise x = math_Log (1 + x)"

definition collapseEnergy :: "BaselineSnapshot \<Rightarrow> f64" where
  "collapseEnergy c = bs_CollapseFraction c * math_Log (1 + bs_CollapseSeverity c)"

definition interactionRiskStd :: "BaselineSnapshot \<Rightarrow> f64" where
  "interactionRiskStd c = math_Tanh (standardise (bs_LogTailIndex c) * standardise (bs_MeanBacklog c))"

definition smoothUtility :: "f64 \<Rightarrow> f64 \<Rightarrow> f64" where
  "smoothUtility cost util = math_Tanh cost + fl 0.5 * math_Tanh util"

definition local_margin :: "ComparisonWeights \<Rightarrow> BaselineSnapshot \<Rightarrow> f64" where
  "local_margin w c =
    (let tailMarg = (cmw_SLA_TailLimit w - bs_LogTailIndex c) / (cmw_SLA_TailLimit w + micro);
         collMarg = (cmw_SLA_CollapseLimit w - bs_CollapseSeverity c) / (cmw_SLA_CollapseLimit w + micro);
         thrMarg = (bs_ThroughputMean c - cmw_SLA_MinThroughput w) / (cmw_SLA_MinThroughput w + micro)
     in math_Min (math_Min tailMarg collMarg) thrMarg)"

definition worstSafetyMargin :: "BaselineSnapshot list \<Rightarrow> ComparisonWeights \<Rightarrow> f64" where
  "worstSafetyMargin cand w = fold (\<lambda>c m. if local_margin w c < m then local_margin w c else m) cand MaxFloat64"

definition covarianceAwareConfidence :: "SnapshotUncertainty \<Rightarrow> SnapshotUncertainty \<Rightarrow> f64" where
  "covarianceAwareConfidence a b =
    (let total' = su_LatencyVar a + su_TailVar a + su_BacklogVar a + su_ThroughputVar a +
           su_LatencyVar b + su_TailVar b + su_BacklogVar b + su_ThroughputVar b
     in 1 / (1 + math_Sqrt total' * fl 1.5))"

definition cost_term :: "ComparisonWeights \<Rightarrow> BaselineSnapshot \<Rightarrow> BaselineSnapshot \<Rightarrow> f64" where
  "cost_term w b c =
    cmw_LatencyW w * costImproveStd (bs_MeanLatency b) (bs_MeanLatency c) +
    cmw_TailW w * costImproveStd (bs_LogTailIndex b) (bs_LogTailIndex c) +
    cmw_BacklogW w * costImproveStd (bs_MeanBacklog b) (bs_MeanBacklog c) +
    cmw_OscW w * costImproveStd (bs_OscillationIndex b) (bs_OscillationIndex c) +
    cmw_SettleW w * costImproveStd (bs_SettlingIndex b) (bs_SettlingIndex c)"

definition recency :: "ComparisonWeights \<Rightarrow> nat \<Rightarrow> nat \<Rightarrow> f64" where
  "recency w n i = math_Exp (- cmw_Discount w * f64_of_int (int n - 1 - int i))"

definition weighted :: "ComparisonWeights \<Rightarrow> nat \<Rightarrow> (nat \<Rightarrow> f64) \<Rightarrow> f64" where
  \<comment> \<open>one of the accumulators of the loop: the sum of \<open>alpha\<close> times a term\<close>
  "weighted w n term' = fold (\<lambda>i s. s + recency w n i * term' i) [0..<n] 0"

definition variation :: "BaselineSnapshot list \<Rightarrow> nat \<Rightarrow> f64 \<Rightarrow> f64" where
  "variation cand i s =
    (if i = 0 then s
     else let c = cand ! i; prev = cand ! (i - 1)
       in s + (stdDiff (bs_MeanLatency c) (bs_MeanLatency prev) + stdDiff (bs_MeanBacklog c) (bs_MeanBacklog prev) +
            stdDiff (bs_ThroughputMean c) (bs_ThroughputMean prev) +
            stdDiff (bs_CollapseFraction c) (bs_CollapseFraction prev)))"

definition CompareSnapshotsMultiHorizon ::
  "BaselineSnapshot list \<Rightarrow> BaselineSnapshot list \<Rightarrow> ComparisonWeights \<Rightarrow> SnapshotUncertainty \<Rightarrow>
   SnapshotUncertainty \<Rightarrow> ComparisonResult" where
  "CompareSnapshotsMultiHorizon base cand w uBase uCand =
    (let n = min (length base) (length cand)
     in if n = 0 then zero_comparison
        else let wNorm = fold (\<lambda>i s. s + recency w n i) [0..<n] 0;
                 costScore = weighted w n (\<lambda>i. cost_term w (base ! i) (cand ! i)) / wNorm;
                 utilScore = weighted w n (\<lambda>i. cmw_ThroughputW w *
                   utilImproveStd (bs_ThroughputMean (base ! i)) (bs_ThroughputMean (cand ! i))) / wNorm;
                 collapseMean = weighted w n (\<lambda>i. collapseEnergy (cand ! i)) / wNorm;
                 interactionMean = weighted w n (\<lambda>i. interactionRiskStd (cand ! i)) / wNorm;
                 tempAcc = fold (variation cand) [0..<n] 0;
                 safety = worstSafetyMargin cand w
             in \<lparr> cr_CostScore = costScore, cr_UtilityScore = utilScore, cr_CollapseEnergy = collapseMean,
                  cr_InteractionRisk = interactionMean,
                  cr_GlobalScore = smoothUtility costScore utilScore - cmw_CollapseW w * collapseMean -
                    cmw_InteractW w * interactionMean,
                  cr_Stable = (- cmw_Hysteresis w < safety),
                  cr_SafetyMarg = safety, cr_Confidence = covarianceAwareConfidence uBase uCand,
                  cr_TemporalRobustness = 1 / (1 + fl 0.25 * tempAcc) \<rparr>)"

section \<open>Metrics of a run\<close>

record Metrics =
  mt_Failures :: int
  mt_RecoveryTime :: f64
  mt_Throughput :: f64
  mt_TotalCost :: f64

record collapse_count =
  cn_failures :: int
  cn_recovery :: f64
  cn_inCollapse :: bool
  cn_start :: f64

definition count_collapse :: "PlantPoint \<Rightarrow> collapse_count \<Rightarrow> collapse_count" where
  "count_collapse p s =
    (let s = (if pt_Collapsed p \<and> \<not> cn_inCollapse s
              then s\<lparr> cn_failures := cn_failures s + 1, cn_inCollapse := True,
                      cn_start := duration_Seconds (pt_Time p) \<rparr> else s)
     in if \<not> pt_Collapsed p \<and> cn_inCollapse s
        then s\<lparr> cn_recovery := cn_recovery s + (duration_Seconds (pt_Time p) - cn_start s), cn_inCollapse := False \<rparr>
        else s)"

definition ExtractMetrics :: "PlantTrace option \<Rightarrow> Metrics" where
  "ExtractMetrics trace =
    (case trace of
      None \<Rightarrow> \<lparr> mt_Failures = 0, mt_RecoveryTime = 0, mt_Throughput = 0, mt_TotalCost = 0 \<rparr>
    | Some [] \<Rightarrow> \<lparr> mt_Failures = 0, mt_RecoveryTime = 0, mt_Throughput = 0, mt_TotalCost = 0 \<rparr>
    | Some ps \<Rightarrow>
        (let n = f64_of_int (int (length ps));
             s = fold count_collapse ps \<lparr> cn_failures = 0, cn_recovery = 0, cn_inCollapse = False, cn_start = 0 \<rparr>;
             meanThroughput = fold (\<lambda>p a. a + pt_Throughput p) ps 0 / n;
             meanLatency = fold (\<lambda>p a. a + pt_Latency p) ps 0 / n
         in \<lparr> mt_Failures = cn_failures s,
              mt_RecoveryTime = (if 0 < cn_failures s then cn_recovery s / f64_of_int (cn_failures s) else 0),
              mt_Throughput = meanThroughput,
              mt_TotalCost = meanLatency + fl 0.5 * f64_of_int (cn_failures s) \<rparr>))"

definition ComparePhase1Metrics :: "Metrics \<Rightarrow> Metrics \<Rightarrow> (string, f64) gomap" where
  "ComparePhase1Metrics b e =
    [(''failures_reduction'',
        if 0 < mt_Failures b then f64_of_int (mt_Failures b - mt_Failures e) / f64_of_int (mt_Failures b) else 0),
     (''recovery_speed'', if micro < mt_RecoveryTime e then mt_RecoveryTime b / mt_RecoveryTime e else 1),
     (''throughput_improvement'', if micro < mt_Throughput b then mt_Throughput e / mt_Throughput b else 1),
     (''cost_reduction'', if micro < mt_TotalCost b then (mt_TotalCost b - mt_TotalCost e) / mt_TotalCost b else 0)]"

section \<open>Recommendation\<close>

record RecommendationSignals =
  rs_ThroughputMargin :: f64
  rs_CostGradient :: f64
  rs_DegradationRate :: f64

record PolicyRecommendation =
  pr_CapacityDelta :: f64
  pr_EfficiencyDelta :: f64
  pr_DampingDelta :: f64
  pr_RetryPressureDelta :: f64
  pr_BrownoutDelta :: f64
  pr_RiskScore :: f64
  pr_UrgencyMag :: f64
  pr_RiskUp :: bool
  pr_Confidence :: f64
  pr_RegimeCollapseProb :: f64
  pr_RegimeCongestProb :: f64
  pr_RegimeIneffProb :: f64

record RecommendationConfig =
  rc_CapacityGain :: f64
  rc_EfficiencyGain :: f64
  rc_DampingGain :: f64
  rc_RetryGain :: f64
  rc_BrownoutGain :: f64
  rc_RiskCollapseW :: f64
  rc_RiskInteractW :: f64
  rc_RiskViabilityW :: f64
  rc_SLA_CollapseRef :: f64
  rc_SLA_InteractRef :: f64
  rc_SLA_MinThroughput :: f64
  rc_RiskThreshold :: f64
  rc_TrendGain :: f64
  rc_SoftmaxTemp :: f64

definition regimeSoftmaxTemp :: "f64 \<Rightarrow> f64 \<Rightarrow> f64 \<Rightarrow> f64 \<Rightarrow> f64 \<times> f64 \<times> f64" where
  "regimeSoftmaxTemp c i v t =
    (let t = (if t \<le> 0 then 1 else t);
         e1 = math_Exp (c / t); e2 = math_Exp (i / t); e3 = math_Exp (v / t);
         s = e1 + e2 + e3
     in (e1 / s, e2 / s, e3 / s))"

definition collapse_norm :: "RecommendationConfig \<Rightarrow> ComparisonResult \<Rightarrow> f64" where
  "collapse_norm cfg cmp = cr_CollapseEnergy cmp / (rc_SLA_CollapseRef cfg + micro)"

definition interact_norm :: "RecommendationConfig \<Rightarrow> ComparisonResult \<Rightarrow> f64" where
  "interact_norm cfg cmp = cr_InteractionRisk cmp / (rc_SLA_InteractRef cfg + micro)"

definition viability_deficit :: "RecommendationConfig \<Rightarrow> RecommendationSignals \<Rightarrow> f64" where
  "viability_deficit cfg sig = math_Max 0 (- rs_ThroughputMargin sig / (rc_SLA_MinThroughput cfg + micro))"

definition advice_risk :: "RecommendationConfig \<Rightarrow> f64 \<Rightarrow> f64 \<Rightarrow> f64 \<Rightarrow> f64" where
  "advice_risk cfg c i v =
    math_Sqrt (rc_RiskCollapseW cfg * c * c + rc_RiskInteractW cfg * i * i + rc_RiskViabilityW cfg * v * v)"

definition RecommendPolicy ::
  "ComparisonResult \<Rightarrow> RecommendationSignals \<Rightarrow> RecommendationConfig \<Rightarrow> PolicyRecommendation" where
  "RecommendPolicy cmp sig cfg =
    (let vDef = viability_deficit cfg sig; cNorm = collapse_norm cfg cmp; iNorm = interact_norm cfg cmp;
         risk = advice_risk cfg cNorm iNorm vDef;
         trendShape = math_Tanh (rc_TrendGain cfg * rs_CostGradient sig);
         effAdj = (if risk < rc_RiskThreshold cfg \<and> iNorm < fl 0.7
                   then rc_EfficiencyGain cfg * math_Tanh (cr_UtilityScore cmp - risk) else 0)
     in case regimeSoftmaxTemp cNorm iNorm vDef (rc_SoftmaxTemp cfg) of (pCollapse, pCongest, pIneff) \<Rightarrow>
       \<lparr> pr_CapacityDelta = rc_CapacityGain cfg * math_Tanh risk * (1 + trendShape),
         pr_EfficiencyDelta = effAdj,
         pr_DampingDelta = rc_DampingGain cfg * math_Tanh ((1 - cr_TemporalRobustness cmp) + iNorm),
         pr_RetryPressureDelta = rc_RetryGain cfg * math_Tanh (cNorm + fl 0.7 * iNorm),
         pr_BrownoutDelta = rc_BrownoutGain cfg * math_Tanh (math_Max 0 (- cr_SafetyMarg cmp + fl 0.5 * iNorm)),
         pr_RiskScore = risk,
         pr_UrgencyMag = math_Tanh (risk + fl 0.5 * \<bar>rs_DegradationRate sig\<bar>) * cr_Confidence cmp,
         pr_RiskUp = (rc_RiskThreshold cfg < risk),
         pr_Confidence = cr_Confidence cmp,
         pr_RegimeCollapseProb = pCollapse, pr_RegimeCongestProb = pCongest, pr_RegimeIneffProb = pIneff \<rparr>)"

section \<open>Advice stays within its gains\<close>

definition gain_ok :: "f64 \<Rightarrow> bool" where
  "gain_ok x \<longleftrightarrow> (\<exists>g. x = Fin g \<and> 0 \<le> g \<and> fbound g \<and> fbound (2 * g))"

definition within_gain :: "f64 \<Rightarrow> f64 \<Rightarrow> bool" where
  "within_gain g x \<longleftrightarrow> x = NaN \<or> - g \<le> x \<and> x \<le> g"

lemma gain_times:
  assumes "0 \<le> g" "fbound g" "- 1 \<le> t" "t \<le> 1" shows "fbtw (- g) (fl (g * t)) g"
proof (rule fbtw_fl)
  show "- g \<le> g * t" using mult_left_mono [OF assms(3,1)] by simp
  show "g * t \<le> g" using mult_left_mono [OF assms(4,1)] by simp
qed (use assms in simp_all)

lemma gain_Tanh: "gain_ok g \<Longrightarrow> within_gain g (g * math_Tanh x)"
  by (cases rule: math_Tanh_cases [of x])
    (auto simp: gain_ok_def within_gain_def fbtw_le_iff dest!: gain_times)

lemma within_gain_0: "gain_ok g \<Longrightarrow> within_gain g 0"
  by (auto simp: gain_ok_def within_gain_def zero_f64_def)

lemma capacity_gain:
  assumes "gain_ok g" "nn x"
  shows "nn (g * math_Tanh x * (1 + math_Tanh y)) \<and> within_gain (fl 2 * g) (g * math_Tanh x * (1 + math_Tanh y))"
proof -
  obtain r where r: "g = Fin r" "0 \<le> r" "fbound r" "fbound (2 * r)" using assms(1) by (auto simp: gain_ok_def)
  have double: "Fin 2 * g = Fin (2 * r)" using r(4) by (simp add: r(1) fbound_def fl_frep)
  have one: "g * math_Tanh x = NaN \<or> fbtw 0 (g * math_Tanh x) r"
  proof (cases rule: math_Tanh_cases [of x])
    case (2 t)
    moreover have "0 \<le> t" using nn_Tanh [OF assms(2)] 2(1) by simp
    ultimately show ?thesis
      using mult_left_mono [OF 2(3) r(2)] r by (auto intro!: fbtw_fl)
  qed simp
  have two: "1 + math_Tanh y = NaN \<or> fbtw 0 (1 + math_Tanh y) 2"
    by (cases rule: math_Tanh_cases [of y]) (auto simp: one_f64_def intro!: fbtw_fl)
  from one two have "g * math_Tanh x * (1 + math_Tanh y) = NaN \<or>
      fbtw 0 (g * math_Tanh x * (1 + math_Tanh y)) (2 * r)"
    using fbtw_mult [of 0 "g * math_Tanh x" r 0 "1 + math_Tanh y" 2 0 "2 * r"] r by (auto simp: mult.commute)
  moreover have "nn z \<and> within_gain (fl 2 * g) z" if "z = NaN \<or> fbtw 0 z (2 * r)" for z
    using that r(2) by (cases z) (auto simp: double within_gain_def)
  ultimately show ?thesis by blast
qed

lemma RecommendPolicy_fields:
  "pr_CapacityDelta (RecommendPolicy cmp sig cfg) =
     rc_CapacityGain cfg * math_Tanh (pr_RiskScore (RecommendPolicy cmp sig cfg)) *
       (1 + math_Tanh (rc_TrendGain cfg * rs_CostGradient sig))"
  "nn (pr_RiskScore (RecommendPolicy cmp sig cfg))"
  "\<exists>x. pr_EfficiencyDelta (RecommendPolicy cmp sig cfg) \<in> {0, rc_EfficiencyGain cfg * math_Tanh x}"
  "\<exists>x. pr_DampingDelta (RecommendPolicy cmp sig cfg) = rc_DampingGain cfg * math_Tanh x"
  "\<exists>x. pr_RetryPressureDelta (RecommendPolicy cmp sig cfg) = rc_RetryGain cfg * math_Tanh x"
  "\<exists>x. pr_BrownoutDelta (RecommendPolicy cmp sig cfg) = rc_BrownoutGain cfg * math_Tanh x"
  by (auto simp: RecommendPolicy_def Let_def advice_risk_def nn_Sqrt split: prod.split)

definition advice_within :: "RecommendationConfig \<Rightarrow> PolicyRecommendation \<Rightarrow> bool" where
  "advice_within cfg r \<longleftrightarrow>
    nn (pr_CapacityDelta r) \<and> within_gain (fl 2 * rc_CapacityGain cfg) (pr_CapacityDelta r) \<and>
    within_gain (rc_EfficiencyGain cfg) (pr_EfficiencyDelta r) \<and> within_gain (rc_DampingGain cfg) (pr_DampingDelta r) \<and>
    within_gain (rc_RetryGain cfg) (pr_RetryPressureDelta r) \<and> within_gain (rc_BrownoutGain cfg) (pr_BrownoutDelta r)"

text \<open>
  The sandbox's advice is bounded whatever was measured: every adjustment is within its gain (the
  capacity within twice its gain), and the advice never removes capacity.  An adjustment that
  rests on a measurement that is not a number is not a number either.
\<close>

theorem advice_bounded:
  assumes "gain_ok (rc_CapacityGain cfg)" "gain_ok (rc_EfficiencyGain cfg)" "gain_ok (rc_DampingGain cfg)"
    "gain_ok (rc_RetryGain cfg)" "gain_ok (rc_BrownoutGain cfg)"
  shows "advice_within cfg (RecommendPolicy cmp sig cfg)"
  using RecommendPolicy_fields [of cmp sig cfg] capacity_gain [OF assms(1)] assms(2-)
  by (auto simp: advice_within_def gain_Tanh within_gain_0)

definition half_gains :: RecommendationConfig where
  "half_gains =
    \<lparr> rc_CapacityGain = fl (1 / 2), rc_EfficiencyGain = fl (1 / 2), rc_DampingGain = fl (1 / 2), rc_RetryGain = fl (1 / 2),
      rc_BrownoutGain = fl (1 / 2), rc_RiskCollapseW = fl (1 / 2), rc_RiskInteractW = fl (1 / 2), rc_RiskViabilityW = 0,
      rc_SLA_CollapseRef = 1, rc_SLA_InteractRef = 1, rc_SLA_MinThroughput = 1, rc_RiskThreshold = 1, rc_TrendGain = 1,
      rc_SoftmaxTemp = 1 \<rparr>"

theorem advice_bounded_witness:
  "advice_within half_gains (RecommendPolicy zero_comparison
     \<lparr> rs_ThroughputMargin = fl (- 4), rs_CostGradient = 1, rs_DegradationRate = 0 \<rparr> half_gains)"
proof -
  have "fl (1 / 2) = Fin (1 / 2)" using fbound_half(1) by (intro fl_frep) (simp_all only: fbound_def)
  then have "gain_ok (fl (1 / 2))" unfolding gain_ok_def by (intro exI [of _ "1 / 2"]) simp
  then show ?thesis by (intro advice_bounded) (simp_all add: half_gains_def)
qed

end
