(* ===== verification/SandboxRun.thy ===== *)
theory SandboxRun
  imports SandboxCompare GoString "HOL-Library.Word" "HOL-Library.Multiset"
begin

unbundle bit_operations_syntax

text \<open>
  \<open>internal/sandbox\<close>, the experiment: the jobs and the reducer of \<open>parallel_executor.go\<close>, which
  puts the results of concurrent workers back in order, and \<open>sandbox_orchestrator.go\<close>.

  The workers finish in any order, so the results of a batch reach the reducer as a permutation
  of \<open>map runSafe jobs\<close>: the argument \<open>arrive\<close>.  The context of a batch is
  \<open>context.Background()\<close>, which is never cancelled.  When the window is full, the entry that
  is flushed is the first of a map iteration: the argument \<open>pick\<close>.
\<close>

section \<open>Jobs\<close>

record SimulationJob =
  jb_ID :: string
  jb_Index :: nat
  jb_Seed :: int
  jb_Scenario :: "Scenario option"
  jb_PlantCfg :: PlantConfig

record SimulationResult =
  sr_ID :: string
  sr_Index :: nat
  sr_Trace :: PlantTrace

definition runSafe :: "SimulationJob \<Rightarrow> SimulationResult" where
  \<comment> \<open>the seed of the job replaces the seed of a copy of the scenario; the plant cannot panic\<close>
  "runSafe job =
    (let sn = (case jb_Scenario job of None \<Rightarrow> None
       | Some s \<Rightarrow> Some (if jb_Seed job \<noteq> 0 then s\<lparr> sn_Config := (sn_Config s)\<lparr> scf_Seed := jb_Seed job \<rparr> \<rparr> else s))
     in \<lparr> sr_ID = jb_ID job, sr_Index = jb_Index job, sr_Trace = RunVirtualPlant sn (jb_PlantCfg job) \<rparr>)"

record ExecutorConfig =
  ec_InitWorkers :: int
  ec_MaxWorkers :: int
  ec_JobBuffer :: int
  ec_ResultBuffer :: int
  ec_ScalerInterval :: duration
  ec_EnableAutoscale :: bool
  ec_IdleTimeout :: duration
  ec_ReorderWindow :: int
  ec_FlushOnCancel :: bool

definition NewParallelExecutor :: "int \<Rightarrow> ExecutorConfig \<Rightarrow> ExecutorConfig" where
  \<comment> \<open>\<open>cpus\<close> is \<open>runtime.NumCPU()\<close>\<close>
  "NewParallelExecutor cpus cfg =
    (let w = (if ec_InitWorkers cfg \<le> 0 then cpus else ec_InitWorkers cfg)
     in cfg\<lparr> ec_InitWorkers := w,
             ec_MaxWorkers := (if ec_MaxWorkers cfg < w then w else ec_MaxWorkers cfg),
             ec_JobBuffer := (if ec_JobBuffer cfg \<le> 0 then w * 4 else ec_JobBuffer cfg),
             ec_ResultBuffer := (if ec_ResultBuffer cfg \<le> 0 then w * 2 else ec_ResultBuffer cfg),
             ec_ScalerInterval := (if ec_ScalerInterval cfg \<le> 0 then 300 * Millisecond else ec_ScalerInterval cfg),
             ec_IdleTimeout := (if ec_IdleTimeout cfg \<le> 0 then 2 * Second else ec_IdleTimeout cfg),
             ec_ReorderWindow := (if ec_ReorderWindow cfg \<le> 0 then 128 else ec_ReorderWindow cfg) \<rparr>)"

section \<open>The reducer\<close>

type_synonym pending = "(nat, SimulationResult) gomap"

record reducer =
  rd_pending :: pending
  rd_next :: nat
  rd_sunk :: "SimulationResult list"

definition flush_one :: "(pending \<Rightarrow> nat) \<Rightarrow> reducer \<Rightarrow> reducer" where
  "flush_one pick s =
    (let k = pick (rd_pending s)
     in case map_of (rd_pending s) k of None \<Rightarrow> s
        | Some v \<Rightarrow> s\<lparr> rd_pending := AList.delete k (rd_pending s), rd_sunk := rd_sunk s @ [v] \<rparr>)"

definition reduce_result :: "(pending \<Rightarrow> nat) \<Rightarrow> int \<Rightarrow> SimulationResult \<Rightarrow> reducer \<Rightarrow> reducer" where
  "reduce_result pick window r s =
    (if sr_Index r = rd_next s
     then s\<lparr> rd_sunk := rd_sunk s @ [r], rd_next := rd_next s + 1 \<rparr>
     else let s = (if window \<le> int (length (rd_pending s)) then flush_one pick s else s)
          in s\<lparr> rd_pending := AList.update (sr_Index r) r (rd_pending s) \<rparr>)"

fun drain :: "nat \<Rightarrow> reducer \<Rightarrow> reducer" where
  \<comment> \<open>after the last result; every round removes a pending entry, so their number is enough fuel\<close>
  "drain 0 s = s"
| "drain (Suc n) s =
    (case map_of (rd_pending s) (rd_next s) of None \<Rightarrow> s
     | Some v \<Rightarrow> drain n (s\<lparr> rd_pending := AList.delete (rd_next s) (rd_pending s), rd_sunk := rd_sunk s @ [v],
                            rd_next := rd_next s + 1 \<rparr>))"

definition reduce_batch :: "(pending \<Rightarrow> nat) \<Rightarrow> int \<Rightarrow> SimulationResult list \<Rightarrow> SimulationResult list" where
  "reduce_batch pick window results =
    (let s = fold (reduce_result pick window) results \<lparr> rd_pending = [], rd_next = 0, rd_sunk = [] \<rparr>
     in rd_sunk (drain (length (rd_pending s)) s))"

record executor_env =
  ev_cpus :: int
  ev_pick :: "pending \<Rightarrow> nat"
  ev_arrive :: "SimulationResult list \<Rightarrow> SimulationResult list"

definition RunBatch :: "executor_env \<Rightarrow> ExecutorConfig \<Rightarrow> SimulationJob list \<Rightarrow> SimulationResult list" where
  \<comment> \<open>the results in the order in which the sink receives them\<close>
  "RunBatch env cfg jobs =
    reduce_batch (ev_pick env) (ec_ReorderWindow (NewParallelExecutor (ev_cpus env) cfg))
      (ev_arrive env (map runSafe jobs))"

section \<open>The experiment\<close>

fun fnv32a :: "u32 \<Rightarrow> string \<Rightarrow> u32" where
  "fnv32a h [] = h"
| "fnv32a h (c # cs) = fnv32a ((h XOR of_nat (char_code c)) * 0x01000193) cs"

definition hashID :: "string \<Rightarrow> u32" where
  "hashID s = fnv32a 0x811C9DC5 s"

definition inject_seed :: "int \<Rightarrow> nat \<Rightarrow> SimulationJob \<Rightarrow> SimulationJob" where
  "inject_seed seed i job =
    job\<lparr> jb_Index := i, jb_Seed := sint (word_of_int (seed + uint (hashID (jb_ID job))) :: 64 word) \<rparr>"

definition streamScenarioSnapshotsDeterministic ::
  "executor_env \<Rightarrow> int \<Rightarrow> SimulationJob list \<Rightarrow> ExecutorConfig \<Rightarrow> BaselineSnapshot list" where
  "streamScenarioSnapshotsDeterministic env seed jobs cfg =
    (let sunk = RunBatch env cfg (map2 (inject_seed seed) [0..<length jobs] jobs)
     in fold (\<lambda>r buf. buf[sr_Index r := BuildBaselineSnapshot (sr_Trace r)]) sunk (replicate (length jobs) empty_snapshot))"

definition loadNormalisedDegradation :: "BaselineSnapshot list \<Rightarrow> f64" where
  "loadNormalisedDegradation snaps =
    (if length snaps < 2 then 0
     else let load' = (\<lambda>i. 1 + math_Log (1 + bs_MeanBacklog (snaps ! i)));
              d = (\<lambda>i. stdDiff (bs_MeanLatency (snaps ! i)) (bs_MeanLatency (snaps ! (i - 1))) +
                fl 0.5 * stdDiff (bs_LogTailIndex (snaps ! i)) (bs_LogTailIndex (snaps ! (i - 1))) +
                fl 0.3 * stdDiff (bs_ThroughputMean (snaps ! i)) (bs_ThroughputMean (snaps ! (i - 1))));
              acc = fold (\<lambda>i s. s + load' i * d i) [1..<length snaps] 0;
              wsum = fold (\<lambda>i s. s + load' i) [1..<length snaps] 0
          in acc / (wsum + fl (1 / 1000000000)))"

record ExperimentContext =
  xc_Seed :: int
  xc_HorizonID :: string

record ExperimentScenario =
  xs_BaseJobs :: "SimulationJob list"
  xs_CandJobs :: "SimulationJob list"
  xs_BaseHash :: string
  xs_CandHash :: string

record ExperimentInput =
  xi_BaseTraces :: "PlantTrace list"
  xi_CandTraces :: "PlantTrace list"
  xi_Scenario :: "ExperimentScenario option"

record ExperimentConfig =
  xf_Weights :: ComparisonWeights
  xf_RecCfg :: RecommendationConfig
  xf_RunSimulation :: bool
  xf_ExecCfg :: ExecutorConfig

record ExperimentMetadata =
  xm_HorizonLength :: nat
  xm_GlobalScore :: f64
  xm_TemporalRobustness :: f64
  xm_UnifiedRisk :: f64
  xm_Stable :: bool
  xm_LoadNormalisedDegradation :: f64
  xm_ContextSeed :: int
  xm_HorizonID :: string
  xm_ScenarioHash :: string

record ExperimentOutput =
  xo_Comparison :: ComparisonResult
  xo_Advice :: PolicyRecommendation
  xo_Meta :: ExperimentMetadata

definition unifiedRisk :: "RecommendationConfig \<Rightarrow> ComparisonResult \<Rightarrow> f64" where
  "unifiedRisk cfg cmp =
    math_Sqrt (rc_RiskCollapseW cfg * cr_CollapseEnergy cmp * cr_CollapseEnergy cmp +
      rc_RiskInteractW cfg * cr_InteractionRisk cmp * cr_InteractionRisk cmp)"

definition experiment_snapshots ::
  "executor_env \<Rightarrow> ExperimentContext \<Rightarrow> ExperimentInput \<Rightarrow> ExperimentConfig \<Rightarrow>
   string + string \<times> BaselineSnapshot list \<times> BaselineSnapshot list" where
  \<comment> \<open>the hash and the two series, or the error\<close>
  "experiment_snapshots env ctx i cfg =
    (if xf_RunSimulation cfg
     then case xi_Scenario i of None \<Rightarrow> Inl ''missing scenario''
       | Some x \<Rightarrow>
           if xs_BaseHash x = [] \<or> xs_CandHash x = [] then Inl ''scenario hash missing''
           else if xs_BaseHash x \<noteq> xs_CandHash x then Inl ''scenario hash mismatch''
           else Inr (xs_BaseHash x, streamScenarioSnapshotsDeterministic env (xc_Seed ctx) (xs_BaseJobs x) (xf_ExecCfg cfg),
                     streamScenarioSnapshotsDeterministic env (xc_Seed ctx) (xs_CandJobs x) (xf_ExecCfg cfg))
     else Inr ('''', map BuildBaselineSnapshot (xi_BaseTraces i), map BuildBaselineSnapshot (xi_CandTraces i)))"

definition RunSandboxExperiment ::
  "executor_env \<Rightarrow> ExperimentContext \<Rightarrow> ExperimentInput \<Rightarrow> ExperimentConfig \<Rightarrow> RecommendationSignals \<Rightarrow>
   string + ExperimentOutput" where
  "RunSandboxExperiment env ctx i cfg signals =
    (case experiment_snapshots env ctx i cfg of Inl e \<Rightarrow> Inl e
     | Inr (hash, base, cand) \<Rightarrow>
        if base = [] \<or> length base \<noteq> length cand then Inl ''horizon mismatch''
        else let cmp = CompareSnapshotsMultiHorizon base cand (xf_Weights cfg)
                   (estimateUncertaintyInflated base) (estimateUncertaintyInflated cand)
             in Inr \<lparr> xo_Comparison = cmp, xo_Advice = RecommendPolicy cmp signals (xf_RecCfg cfg),
                      xo_Meta = \<lparr> xm_HorizonLength = length base, xm_GlobalScore = cr_GlobalScore cmp,
                        xm_TemporalRobustness = cr_TemporalRobustness cmp,
                        xm_UnifiedRisk = unifiedRisk (xf_RecCfg cfg) cmp, xm_Stable = cr_Stable cmp,
                        xm_LoadNormalisedDegradation = loadNormalisedDegradation cand, xm_ContextSeed = xc_Seed ctx,
                        xm_HorizonID = xc_HorizonID ctx, xm_ScenarioHash = hash \<rparr> \<rparr>)"

record Phase1ComparisonResult =
  p1_Baseline :: Metrics
  p1_Engine :: Metrics
  p1_Improvement :: "(string, f64) gomap"

definition baseline_plant :: PlantConfig where
  "baseline_plant = \<lparr> pg_CapacityScale = 1, pg_RetryBias = 0, pg_CacheRelief = 0 \<rparr>"

definition engine_plant :: PlantConfig where
  "engine_plant = \<lparr> pg_CapacityScale = fl 1.2, pg_RetryBias = fl (- 0.3), pg_CacheRelief = fl 0.4 \<rparr>"

definition compare_phase1 :: "Scenario \<Rightarrow> string + Phase1ComparisonResult" where
  "compare_phase1 sn =
    (if sn_Trace sn = [] then Inl ''failed to generate scenario''
     else let b = ExtractMetrics (Some (RunVirtualPlant (Some sn) baseline_plant));
              e = ExtractMetrics (Some (RunVirtualPlant (Some sn) engine_plant))
          in Inr \<lparr> p1_Baseline = b, p1_Engine = e, p1_Improvement = ComparePhase1Metrics b e \<rparr>)"

definition RunPhase1Comparison ::
  "nat \<Rightarrow> f64 stream \<Rightarrow> f64 stream \<Rightarrow> ScenarioKind \<Rightarrow> ScenarioConfig \<Rightarrow> (string + Phase1ComparisonResult) option" where
  \<comment> \<open>\<open>None\<close> while the generator has not ended\<close>
  "RunPhase1Comparison fuel us ns kind cfg = map_option compare_phase1 (GenerateScenario fuel us ns cfg kind)"

section \<open>The results come out in order\<close>

lemma update_new_mset:
  "k \<notin> keys m \<Longrightarrow> image_mset snd (mset (AList.update k v m)) = add_mset v (image_mset snd (mset m))"
  by (induction m) auto

lemma delete_mset:
  "wf_gomap m \<Longrightarrow> map_of m k = Some v \<Longrightarrow> image_mset snd (mset m) = add_mset v (image_mset snd (mset (AList.delete k m)))"
  by (induction m) (auto simp: wf_gomap_def delete_id split: if_splits)

definition reducer_ok :: "SimulationResult list \<Rightarrow> reducer \<Rightarrow> bool" where
  \<comment> \<open>what holds after the results \<open>ps\<close> as long as nothing was flushed\<close>
  "reducer_ok ps s \<longleftrightarrow>
    map sr_Index (rd_sunk s) = [0..<rd_next s] \<and> wf_gomap (rd_pending s) \<and>
    (\<forall>k r. map_of (rd_pending s) k = Some r \<longrightarrow> sr_Index r = k \<and> 0 < k \<and> rd_next s \<le> k) \<and>
    mset (rd_sunk s) + mset (map snd (rd_pending s)) = mset ps"

lemma reducer_okD:
  assumes "reducer_ok ps s"
  shows "map sr_Index (rd_sunk s) = [0..<rd_next s]" "wf_gomap (rd_pending s)"
    "mset (rd_sunk s) + mset (map snd (rd_pending s)) = mset ps"
    "map_of (rd_pending s) k = Some r \<Longrightarrow> sr_Index r = k \<and> 0 < k \<and> rd_next s \<le> k"
    "length (rd_sunk s) = rd_next s"
proof -
  show "length (rd_sunk s) = rd_next s"
    using assms by (metis diff_zero length_map length_upt reducer_ok_def)
qed (use assms in \<open>auto simp: reducer_ok_def\<close>)

lemma reducer_indices:
  assumes "reducer_ok ps s" shows "sr_Index ` set ps = {0..<rd_next s} \<union> keys (rd_pending s)"
proof -
  note ok = reducer_okD [OF assms]
  have "set ps = set (rd_sunk s) \<union> snd ` set (rd_pending s)"
    using arg_cong [OF ok(3), of set_mset] by simp
  then have "sr_Index ` set ps = set (map sr_Index (rd_sunk s)) \<union> (\<lambda>p. sr_Index (snd p)) ` set (rd_pending s)"
    by (auto simp: image_Un)
  moreover have "(\<lambda>p. sr_Index (snd p)) ` set (rd_pending s) = keys (rd_pending s)"
    using ok(2,4) by (intro image_cong) (auto simp flip: wf_gomap_map_of_iff)
  ultimately show ?thesis by (simp add: ok(1))
qed

lemma reducer_lengths: "reducer_ok ps s \<Longrightarrow> rd_next s + length (rd_pending s) = length ps"
  using reducer_okD(3,5) [of ps s] by (metis length_map size_mset size_union)

lemma reduce_result_ok:
  assumes "reducer_ok ps s" "sr_Index r \<notin> sr_Index ` set ps"
    "sr_Index r = rd_next s \<or> int (length (rd_pending s)) < window"
  shows "reducer_ok (ps @ [r]) (reduce_result pick window r s)"
proof (cases "sr_Index r = rd_next s")
  case True
  have new: "rd_next s \<notin> keys (rd_pending s)" using assms(1,2) True by (simp add: reducer_indices)
  have "Suc (rd_next s) \<le> k" if "map_of (rd_pending s) k = Some v" for k v
    using reducer_okD(4) [OF assms(1) that] new that by (cases "k = rd_next s") (auto simp: keys_map_of)
  then show ?thesis
    using assms(1) True by (auto simp: reducer_ok_def reduce_result_def)
next
  case False
  have "sr_Index r \<notin> keys (rd_pending s)" "rd_next s \<le> sr_Index r"
    using assms(1,2) by (auto simp: reducer_indices not_less)
  then show ?thesis
    using assms(1,3) False by (auto simp: reducer_ok_def reduce_result_def update_new_mset)
qed

lemma reduce_all_ok:
  assumes "mset (map sr_Index rs) = mset [0..<length rs]" "int (length rs) \<le> window + 1"
  shows "ps @ qs = rs \<Longrightarrow> reducer_ok ps s \<Longrightarrow> reducer_ok rs (fold (reduce_result pick window) qs s)"
proof (induction qs arbitrary: ps s)
  case (Cons r qs)
  have dist: "distinct (map sr_Index rs)" and ix: "sr_Index ` set rs = {0..<length rs}"
    using assms(1) mset_eq_imp_distinct_iff [OF assms(1)] mset_eq_setD [OF assms(1)] by auto
  then have new: "sr_Index r \<notin> sr_Index ` set ps" using Cons.prems(1) by auto
  have "sr_Index r = rd_next s \<or> int (length (rd_pending s)) < window"
  proof (rule ccontr)
    assume neg: "\<not> ?thesis"
    have len: "length ps < length rs" using Cons.prems(1) by auto
    then have "length (rd_pending s) = length ps \<and> length rs = Suc (length ps)"
      using neg reducer_lengths [OF Cons.prems(2)] assms(2) by auto
    moreover from this have "rd_next s = 0" "qs = []"
      using reducer_lengths [OF Cons.prems(2)] Cons.prems(1) by auto
    moreover have "0 \<notin> keys (rd_pending s)"
      using reducer_okD(4) [OF Cons.prems(2)] by (auto simp: keys_map_of)
    ultimately have "0 \<notin> sr_Index ` set ps" "rs = ps @ [r]" "0 \<in> sr_Index ` set rs"
      using reducer_indices [OF Cons.prems(2)] Cons.prems(1) ix len by auto
    then show False using neg \<open>rd_next s = 0\<close> by auto
  qed
  then show ?case
    using Cons.IH [OF _ reduce_result_ok [OF Cons.prems(2) new]] Cons.prems(1) by simp
qed simp

lemma drain_ok:
  assumes "sr_Index ` set rs = {0..<length rs}"
  shows "reducer_ok rs s \<Longrightarrow> length (rd_pending s) = n \<Longrightarrow> reducer_ok rs (drain n s) \<and> rd_pending (drain n s) = []"
proof (induction n arbitrary: s)
  case (Suc n)
  note ok = reducer_okD [OF Suc.prems(1)]
  have "rd_next s < length rs" using reducer_lengths [OF Suc.prems(1)] Suc.prems(2) by simp
  then have "rd_next s \<in> keys (rd_pending s)"
    using reducer_indices [OF Suc.prems(1)] assms by auto
  then obtain v where v: "map_of (rd_pending s) (rd_next s) = Some v" by (auto simp: keys_map_of)
  let ?s = "s\<lparr> rd_pending := AList.delete (rd_next s) (rd_pending s), rd_sunk := rd_sunk s @ [v],
    rd_next := rd_next s + 1 \<rparr>"
  have later: "sr_Index r = k \<and> 0 < k \<and> Suc (rd_next s) \<le> k"
    if "map_of (AList.delete (rd_next s) (rd_pending s)) k = Some r" for k r
    using that ok(4) [of k r] by (auto split: if_splits)
  have "reducer_ok rs ?s"
    unfolding reducer_ok_def
  proof (intro conjI allI impI)
    show "map sr_Index (rd_sunk ?s) = [0..<rd_next ?s]" using ok(1) ok(4) [OF v] by simp
    show "mset (rd_sunk ?s) + mset (map snd (rd_pending ?s)) = mset rs"
      using ok(3) delete_mset [OF ok(2) v] by simp
  qed (use ok(2) later in auto)
  moreover have "length (rd_pending ?s) = n"
    using length_delete_key [OF ok(2) \<open>rd_next s \<in> keys (rd_pending s)\<close>] Suc.prems(2) by simp
  ultimately show ?case using Suc.IH [of ?s] v by simp
qed simp

lemma reduce_batch_sorted:
  assumes "mset (map sr_Index rs) = mset [0..<length rs]" "int (length rs) \<le> window + 1"
  shows "map sr_Index (reduce_batch pick window rs) = [0..<length rs]" "mset (reduce_batch pick window rs) = mset rs"
proof -
  let ?z = "\<lparr> rd_pending = [], rd_next = 0, rd_sunk = [] \<rparr>"
  let ?s = "fold (reduce_result pick window) rs ?z"
  have "reducer_ok [] ?z" by (simp add: reducer_ok_def)
  from reduce_all_ok [OF assms, of "[]" rs, OF _ this] have "reducer_ok rs ?s" by simp
  moreover have "sr_Index ` set rs = {0..<length rs}" using mset_eq_setD [OF assms(1)] by simp
  ultimately have d: "reducer_ok rs (drain (length (rd_pending ?s)) ?s)" "rd_pending (drain (length (rd_pending ?s)) ?s) = []"
    using drain_ok by blast+
  then show "map sr_Index (reduce_batch pick window rs) = [0..<length rs]" "mset (reduce_batch pick window rs) = mset rs"
    using reducer_okD(1,3) [OF d(1)] reducer_lengths [OF d(1)] by (simp_all add: reduce_batch_def Let_def)
qed

section \<open>The snapshots of an experiment\<close>

lemma fold_writes:
  assumes "map ix out = [k..<k + length out]" "length xs = k + length out"
  shows "fold (\<lambda>r buf. buf[ix r := f r]) out xs = take k xs @ map f out"
  using assms
proof (induction out arbitrary: k xs)
  case (Cons r out)
  have "[k..<k + length (r # out)] = k # [Suc k..<Suc k + length out]" by (subst upt_conv_Cons) auto
  then have k: "ix r = k" "map ix out = [Suc k..<Suc k + length out]" using Cons.prems(1) by auto
  have "take (Suc k) (xs[k := f r]) = take k xs @ [f r]"
    using Cons.prems(2) by (simp add: take_Suc_conv_app_nth)
  then show ?case using Cons.IH [OF k(2), of "xs[k := f r]"] Cons.prems(2) k(1) by simp
qed simp

lemma same_keys_eq:
  assumes "map ix xs = map ix ys" "mset xs = mset ys" "distinct (map ix xs)" shows "xs = ys"
  using assms by (metis distinct_map inj_on_map_eq_map mset_eq_setD sup.idem)

lemma plant_ignores_seed: "virtual_loop (sc\<lparr> scf_Seed := x \<rparr>) cfg ps acc = virtual_loop sc cfg ps acc"
  by (induction ps arbitrary: acc) (simp_all add: virtual_step_def plant_service_def)

lemma runSafe_trace: "sr_Trace (runSafe job) = RunVirtualPlant (jb_Scenario job) (jb_PlantCfg job)"
  by (simp add: runSafe_def RunVirtualPlant_def plant_ignores_seed Let_def split: option.split)

lemma injected_nth:
  assumes "i < length jobs"
  shows "runSafe (map2 (inject_seed seed) [0..<length jobs] jobs ! i) = runSafe (inject_seed seed i (jobs ! i))"
  using assms by simp


definition two_jobs :: "SimulationJob list" where
  "two_jobs =
    [\<lparr> jb_ID = ''a'', jb_Index = 0, jb_Seed = 0, jb_Scenario = None, jb_PlantCfg = baseline_plant \<rparr>,
     \<lparr> jb_ID = ''b'', jb_Index = 0, jb_Seed = 0,
       jb_Scenario = Some \<lparr> sn_Config = plain_scenario, sn_Trace = [\<lparr> lp_T = 0, lp_Arrival = 1, lp_Fanout = 1 \<rparr>] \<rparr>,
       jb_PlantCfg = engine_plant \<rparr>]"

definition two_workers :: ExecutorConfig where
  "two_workers =
    \<lparr> ec_InitWorkers = 1, ec_MaxWorkers = 2, ec_JobBuffer = 4, ec_ResultBuffer = 4, ec_ScalerInterval = Second,
      ec_EnableAutoscale = False, ec_IdleTimeout = Second, ec_ReorderWindow = 8, ec_FlushOnCancel = True \<rparr>"


text \<open>
  A batch of two jobs more than the window can lose a result: the speculative flush skips past
  the index the reducer waits for, so a result that is still pending when the batch ends is
  never handed on.
\<close>

theorem reorder_overflow_loses_result:
  assumes "sr_Index r0 = 0" "sr_Index r1 = 1" "sr_Index r2 = 2"
  shows "reduce_batch (fst \<circ> hd) 1 [r1, r2, r0] = [r1, r0]"
  using assms by (simp add: reduce_batch_def reduce_result_def flush_one_def)

theorem reorder_overflow_loses_result_witness:
  "reduce_batch (fst \<circ> hd) 1 (map (\<lambda>i. \<lparr> sr_ID = ''job'', sr_Index = i, sr_Trace = [] \<rparr>) [1, 2, 0]) =
   map (\<lambda>i. \<lparr> sr_ID = ''job'', sr_Index = i, sr_Trace = [] \<rparr>) [1, 0]"
  unfolding list.map by (rule reorder_overflow_loses_result) simp_all

section \<open>Errors of an experiment\<close>

lemma length_writes: "length (fold (\<lambda>r buf. buf[ix r := f r]) rs xs) = length xs"
  by (induction rs arbitrary: xs) simp_all

lemma snapshots_length: "length (streamScenarioSnapshotsDeterministic env seed jobs ec) = length jobs"
  by (simp add: streamScenarioSnapshotsDeterministic_def Let_def length_writes)

lemma snapshots_Nil: "streamScenarioSnapshotsDeterministic env seed jobs ec = [] \<longleftrightarrow> jobs = []"
  by (metis length_0_conv snapshots_length)

text \<open>
  An experiment fails exactly when it should: a simulated one without a scenario, with a missing
  or a different hash, and any one whose two series are empty or differ in length; the error
  says which, and nothing else fails.
\<close>

theorem experiment_errors:
  "RunSandboxExperiment env ctx i cfg signals = Inl e \<longleftrightarrow>
    (if xf_RunSimulation cfg \<and> xi_Scenario i = None then e = ''missing scenario''
     else if xf_RunSimulation cfg \<and> (xs_BaseHash (the (xi_Scenario i)) = [] \<or> xs_CandHash (the (xi_Scenario i)) = [])
     then e = ''scenario hash missing''
     else if xf_RunSimulation cfg \<and> xs_BaseHash (the (xi_Scenario i)) \<noteq> xs_CandHash (the (xi_Scenario i))
     then e = ''scenario hash mismatch''
     else (case (if xf_RunSimulation cfg
             then (length (xs_BaseJobs (the (xi_Scenario i))), length (xs_CandJobs (the (xi_Scenario i))))
             else (length (xi_BaseTraces i), length (xi_CandTraces i))) of
         (b, c) \<Rightarrow> (b = 0 \<or> b \<noteq> c) \<and> e = ''horizon mismatch''))"
  by (cases "xi_Scenario i"; cases "xf_RunSimulation cfg")
    (auto simp: RunSandboxExperiment_def experiment_snapshots_def Let_def snapshots_length snapshots_Nil)

end
