(* ===== verification/EventHeap.thy ===== *)
theory EventHeap
  imports Float64
begin

text \<open>
  \<open>internal/simulation/scheduler.go\<close> and the part of Go's \<open>container/heap\<close> it calls: the
  binary heap of pending events in an array (a list here, child \<open>2 * i + 1\<close> and \<open>2 * i + 2\<close> of
  index \<open>i\<close>), with its sift loops, and the scheduler with its virtual clock.

  The heap functions take the comparison (\<open>Less\<close>) as an argument.  The locale \<open>heap_order\<close>
  states what they need of it, on the elements a predicate calls valid; it is interpreted on
  the comparison of event times, where valid means that the time is not NaN.  The locale
  \<open>priority_queue\<close> is the contract of a queue that releases a least element, and the
  scheduler's heap is an interpretation of it.
\<close>

section \<open>Events\<close>

datatype EventKind = EventArrival | EventDeparture | EventShock | EventRecovery | EventTick | EventPDE

record Event =
  ev_Time :: f64
  ev_Kind :: EventKind
  ev_ServiceID :: string
  ev_ServiceDurationMs :: f64
  ev_ArrivalTime :: f64

definition event :: "f64 \<Rightarrow> EventKind \<Rightarrow> string \<Rightarrow> Event" where
  \<comment> \<open>a composite literal that leaves the last two fields zero\<close>
  "event t k sid = \<lparr> ev_Time = t, ev_Kind = k, ev_ServiceID = sid, ev_ServiceDurationMs = 0, ev_ArrivalTime = 0 \<rparr>"

section \<open>container/heap\<close>

definition swap :: "'a list \<Rightarrow> nat \<Rightarrow> nat \<Rightarrow> 'a list" where
  "swap h i j = h[i := h ! j, j := h ! i]"

fun heap_up :: "('a \<Rightarrow> 'a \<Rightarrow> bool) \<Rightarrow> 'a list \<Rightarrow> nat \<Rightarrow> 'a list" where
  "heap_up lt h j =
    (if j = 0 then h
     else let i = (j - 1) div 2 in if \<not> lt (h ! j) (h ! i) then h else heap_up lt (swap h i j) i)"

declare heap_up.simps [simp del]

definition min_child :: "('a \<Rightarrow> 'a \<Rightarrow> bool) \<Rightarrow> 'a list \<Rightarrow> nat \<Rightarrow> nat \<Rightarrow> nat" where
  "min_child lt h i n =
    (let j1 = 2 * i + 1; j2 = j1 + 1 in if j2 < n \<and> lt (h ! j2) (h ! j1) then j2 else j1)"

function heap_down :: "('a \<Rightarrow> 'a \<Rightarrow> bool) \<Rightarrow> 'a list \<Rightarrow> nat \<Rightarrow> nat \<Rightarrow> 'a list" where
  "heap_down lt h i n =
    (if n \<le> 2 * i + 1 then h
     else let j = min_child lt h i n
       in if \<not> lt (h ! j) (h ! i) then h else heap_down lt (swap h i j) j n)"
  by pat_completeness auto
termination by (relation "measure (\<lambda>(lt, h, i, n). n - i)") (auto simp: min_child_def Let_def split: if_splits)

declare heap_down.simps [simp del]

definition heap_push :: "('a \<Rightarrow> 'a \<Rightarrow> bool) \<Rightarrow> 'a \<Rightarrow> 'a list \<Rightarrow> 'a list" where
  "heap_push lt x h = heap_up lt (h @ [x]) (length h)"

definition heap_pop :: "('a \<Rightarrow> 'a \<Rightarrow> bool) \<Rightarrow> 'a list \<Rightarrow> 'a \<times> 'a list" where
  "heap_pop lt h =
    (let n = length h - 1; h = heap_down lt (swap h 0 n) 0 n in (last h, butlast h))"

section \<open>The scheduler\<close>

record Scheduler =
  sch_h :: "Event list"
  sch_Clock :: f64

definition event_less :: "Event \<Rightarrow> Event \<Rightarrow> bool" where
  "event_less a b \<longleftrightarrow> ev_Time a < ev_Time b"

definition NewScheduler :: Scheduler where
  \<comment> \<open>\<open>heap.Init\<close> of an empty heap does nothing\<close>
  "NewScheduler = \<lparr> sch_h = [], sch_Clock = 0 \<rparr>"

definition Schedule :: "Event \<Rightarrow> Scheduler \<Rightarrow> Scheduler" where
  "Schedule e s =
    (let e = (if ev_Time e < sch_Clock s then e\<lparr> ev_Time := sch_Clock s \<rparr> else e)
     in s\<lparr> sch_h := heap_push event_less e (sch_h s) \<rparr>)"

definition Next :: "Scheduler \<Rightarrow> Event option \<times> Scheduler" where
  \<comment> \<open>\<open>None\<close> for the result \<open>false\<close>\<close>
  "Next s =
    (if sch_h s = [] then (None, s)
     else case heap_pop event_less (sch_h s) of (e, h) \<Rightarrow> (Some e, s\<lparr> sch_h := h, sch_Clock := ev_Time e \<rparr>))"

definition Len :: "Scheduler \<Rightarrow> nat" where
  "Len s = length (sch_h s)"

section \<open>Swapping keeps the elements\<close>

lemma length_swap [simp]: "length (swap h i j) = length h"
  by (simp add: swap_def)

lemma nth_swap: "i < length h \<Longrightarrow> j < length h \<Longrightarrow> k < length h \<Longrightarrow>
  swap h i j ! k = (if k = j then h ! i else if k = i then h ! j else h ! k)"
  by (auto simp: swap_def nth_list_update)

lemma mset_swap_nth [simp]: "i < length h \<Longrightarrow> j < length h \<Longrightarrow> mset (swap h i j) = mset h"
  unfolding swap_def by (rule mset_swap)

lemma heap_up_mset: "j < length h \<Longrightarrow> mset (heap_up lt h j) = mset h"
proof (induction lt h j rule: heap_up.induct)
  case (1 lt h j)
  show ?case
  proof (cases "j = 0 \<or> \<not> lt (h ! j) (h ! ((j - 1) div 2))")
    case True
    then show ?thesis by (subst heap_up.simps) (auto simp: Let_def)
  next
    case False
    then show ?thesis using 1 by (subst heap_up.simps) (simp add: Let_def)
  qed
qed

lemma min_child_range: "2 * i + 1 < n \<Longrightarrow> i < min_child lt h i n \<and> min_child lt h i n < n"
  by (auto simp: min_child_def Let_def)

lemma heap_down_mset: "n \<le> length h \<Longrightarrow> mset (heap_down lt h i n) = mset h"
proof (induction lt h i n rule: heap_down.induct)
  case (1 lt h i n)
  show ?case
  proof (cases "n \<le> 2 * i + 1 \<or> \<not> lt (h ! min_child lt h i n) (h ! i)")
    case True
    then show ?thesis by (subst heap_down.simps) (auto simp: Let_def)
  next
    case False
    then have "i < length h" "min_child lt h i n < length h"
      using 1(2) min_child_range [of i n lt h] by auto
    then show ?thesis using 1 False by (subst heap_down.simps) (simp add: Let_def)
  qed
qed

lemma heap_down_outside: "n \<le> length h \<Longrightarrow> n \<le> k \<Longrightarrow> k < length h \<Longrightarrow> heap_down lt h i n ! k = h ! k"
proof (induction lt h i n rule: heap_down.induct)
  case (1 lt h i n)
  show ?case
  proof (cases "n \<le> 2 * i + 1 \<or> \<not> lt (h ! min_child lt h i n) (h ! i)")
    case True
    then show ?thesis by (subst heap_down.simps) (auto simp: Let_def)
  next
    case False
    then have "i < n" "min_child lt h i n < n" using min_child_range [of i n lt h] by auto
    then show ?thesis using 1 False by (subst heap_down.simps) (simp add: Let_def nth_swap)
  qed
qed

lemma length_heap_down [simp]: "n \<le> length h \<Longrightarrow> length (heap_down lt h i n) = length h"
  using heap_down_mset [of n h lt i] by (metis size_mset)

section \<open>Heap order\<close>

definition parent :: "nat \<Rightarrow> nat" where
  "parent k = (k - 1) div 2"

text \<open>Every element but the one at index \<open>j\<close> is not less than its parent, and the children of
  \<open>j\<close> are not less than its parent: the invariant of the upward loop.\<close>

definition heap_but_up :: "('a \<Rightarrow> 'a \<Rightarrow> bool) \<Rightarrow> 'a list \<Rightarrow> nat \<Rightarrow> bool" where
  "heap_but_up lt h j \<longleftrightarrow>
    (\<forall>k < length h. k \<noteq> 0 \<longrightarrow> k \<noteq> j \<longrightarrow> \<not> lt (h ! k) (h ! parent k)) \<and>
    (\<forall>k < length h. k \<noteq> 0 \<longrightarrow> parent k = j \<longrightarrow> j \<noteq> 0 \<longrightarrow> \<not> lt (h ! k) (h ! parent j))"

text \<open>In the first \<open>n\<close> elements only the children of \<open>i\<close> may be less than their parent, and they
  are not less than the parent of \<open>i\<close>: the invariant of the downward loop.\<close>

definition heap_but_down :: "('a \<Rightarrow> 'a \<Rightarrow> bool) \<Rightarrow> 'a list \<Rightarrow> nat \<Rightarrow> nat \<Rightarrow> bool" where
  "heap_but_down lt h i n \<longleftrightarrow>
    (\<forall>k < n. k \<noteq> 0 \<longrightarrow> parent k \<noteq> i \<longrightarrow> \<not> lt (h ! k) (h ! parent k)) \<and>
    (\<forall>k < n. k \<noteq> 0 \<longrightarrow> parent k = i \<longrightarrow> i \<noteq> 0 \<longrightarrow> \<not> lt (h ! k) (h ! parent i))"

definition is_heap :: "('a \<Rightarrow> 'a \<Rightarrow> bool) \<Rightarrow> 'a list \<Rightarrow> nat \<Rightarrow> bool" where
  "is_heap lt h n \<longleftrightarrow> (\<forall>k < n. k \<noteq> 0 \<longrightarrow> \<not> lt (h ! k) (h ! parent k))"

lemma parent_less: "k \<noteq> 0 \<Longrightarrow> parent k < k"
  by (simp add: parent_def)

lemma parent_children: "k \<noteq> 0 \<Longrightarrow> parent k = i \<longleftrightarrow> k = 2 * i + 1 \<or> k = 2 * i + 2"
  by (auto simp: parent_def)

text \<open>What the loops need of the comparison, on valid elements: it is asymmetric and its
  negation is transitive.\<close>

locale heap_order =
  fixes lt :: "'a \<Rightarrow> 'a \<Rightarrow> bool" and valid :: "'a \<Rightarrow> bool"
  assumes asym: "valid a \<Longrightarrow> valid b \<Longrightarrow> lt a b \<Longrightarrow> \<not> lt b a"
    and trans_not: "valid a \<Longrightarrow> valid b \<Longrightarrow> valid c \<Longrightarrow> \<not> lt b a \<Longrightarrow> \<not> lt c b \<Longrightarrow> \<not> lt c a"
begin

lemma up_step:
  assumes "\<forall>x \<in> set h. valid x" "heap_but_up lt h j" "j < length h" "j \<noteq> 0" "lt (h ! j) (h ! parent j)"
  shows "heap_but_up lt (swap h (parent j) j) (parent j)"
proof -
  let ?p = "parent j"
  have p: "?p < j" "?p < length h" using parent_less assms(3, 4) less_trans by blast+
  have v: "valid (h ! k)" if "k < length h" for k using that assms(1) by simp
  have up: "\<not> lt (h ! k) (h ! parent k)" if "k < length h" "k \<noteq> 0" "k \<noteq> j" for k
    using assms(2) that by (auto simp: heap_but_up_def)
  have ch: "\<not> lt (h ! k) (h ! ?p)" if "k < length h" "k \<noteq> 0" "parent k = j" for k
    using assms(2, 4) that by (auto simp: heap_but_up_def)
  have sib: "\<not> lt (h ! k) (h ! j)" if "k < length h" "k \<noteq> 0" "k \<noteq> j" "parent k = ?p" for k
    using trans_not [OF v [OF assms(3)] v [OF p(2)] v [OF that(1)]] asym [OF v [OF assms(3)] v [OF p(2)] assms(5)]
      up [OF that(1, 2, 3)] that(4) by simp
  have first: "\<not> lt (swap h ?p j ! k) (swap h ?p j ! parent k)"
    if k: "k < length h" "k \<noteq> 0" "k \<noteq> ?p" for k
  proof -
    have pk: "parent k < length h" using parent_less [OF k(2)] k(1) by simp
    consider "k = j" | "k \<noteq> j" "parent k = j" | "k \<noteq> j" "parent k = ?p" | "k \<noteq> j" "parent k \<noteq> j" "parent k \<noteq> ?p" by blast
    then show ?thesis
      using k p pk assms(3) asym [OF v [OF assms(3)] v [OF p(2)] assms(5)] ch [OF k(1, 2)] sib [OF k(1, 2)] up [OF k(1, 2)]
      by cases (auto simp: nth_swap)
  qed
  have second: "\<not> lt (swap h ?p j ! k) (swap h ?p j ! parent ?p)"
    if k: "k < length h" "k \<noteq> 0" "parent k = ?p" "?p \<noteq> 0" for k
  proof -
    have g: "parent ?p < ?p" "parent ?p < length h" using parent_less [OF k(4)] p(2) by simp_all
    have pp: "\<not> lt (h ! ?p) (h ! parent ?p)" using up [OF p(2) k(4)] p(1) by simp
    have "k \<noteq> ?p" using parent_less [OF k(2)] k(3) by simp
    show ?thesis
    proof (cases "k = j")
      case True
      then show ?thesis using p g assms(3) pp by (simp add: nth_swap)
    next
      case False
      then have "\<not> lt (h ! k) (h ! ?p)" using up [OF k(1, 2)] k(3) by simp
      then have "\<not> lt (h ! k) (h ! parent ?p)" using trans_not [OF v [OF g(2)] v [OF p(2)] v [OF k(1)] pp] by simp
      then show ?thesis using False \<open>k \<noteq> ?p\<close> p g k(1) assms(3) by (simp add: nth_swap)
    qed
  qed
  show ?thesis using first second by (simp add: heap_but_up_def)
qed

lemma up_heap:
  "\<forall>x \<in> set h. valid x \<Longrightarrow> heap_but_up lt h j \<Longrightarrow> j < length h \<Longrightarrow> is_heap lt (heap_up lt h j) (length h)"
proof (induction j arbitrary: h rule: less_induct)
  case (less j)
  show ?case
  proof (cases "j = 0 \<or> \<not> lt (h ! j) (h ! parent j)")
    case True
    then show ?thesis using less.prems
      by (subst heap_up.simps) (auto simp: Let_def is_heap_def heap_but_up_def parent_def)
  next
    case False
    then have s: "heap_but_up lt (swap h (parent j) j) (parent j)" using less.prems by (intro up_step) auto
    have p: "parent j < j" using False parent_less by blast
    have "\<forall>x \<in> set (swap h (parent j) j). valid x"
      using less.prems p mset_swap_nth [of "parent j" h j] by (metis less_trans set_mset_mset)
    then have "is_heap lt (heap_up lt (swap h (parent j) j) (parent j)) (length h)"
      using less.IH [OF p _ s] less.prems p by simp
    then show ?thesis using False by (subst heap_up.simps) (simp add: Let_def parent_def)
  qed
qed

lemma min_child_least:
  assumes "\<forall>x \<in> set h. valid x" "n \<le> length h" "2 * i + 1 < n" "k < n" "k = 2 * i + 1 \<or> k = 2 * i + 2"
  shows "\<not> lt (h ! k) (h ! min_child lt h i n)"
proof -
  have v: "valid (h ! m)" if "m < n" for m using that assms(1, 2) by simp
  have irr: "\<not> lt (h ! k) (h ! k)" using asym [OF v [OF assms(4)] v [OF assms(4)]] by blast
  show ?thesis
  proof (cases "2 * i + 2 < n \<and> lt (h ! (2 * i + 2)) (h ! (2 * i + 1))")
    case True
    then have "min_child lt h i n = 2 * i + 2" by (simp add: min_child_def Let_def)
    moreover have "\<not> lt (h ! (2 * i + 1)) (h ! (2 * i + 2))" using asym [OF v v] True assms(3) by auto
    ultimately show ?thesis using assms(5) irr by auto
  next
    case False
    then have "min_child lt h i n = 2 * i + 1" by (auto simp: min_child_def Let_def)
    then show ?thesis using assms(4, 5) irr False by auto
  qed
qed

lemma down_step:
  assumes "\<forall>x \<in> set h. valid x" "heap_but_down lt h i n" "n \<le> length h" "2 * i + 1 < n"
    and "lt (h ! min_child lt h i n) (h ! i)"
  shows "heap_but_down lt (swap h i (min_child lt h i n)) (min_child lt h i n) n"
proof -
  let ?j = "min_child lt h i n"
  have j: "i < ?j" "?j < n" using min_child_range [OF assms(4), of lt h] by simp_all
  have pj: "parent ?j = i" by (auto simp: parent_def min_child_def Let_def)
  have len: "i < length h" "?j < length h" using j assms(3) by simp_all
  have v: "valid (h ! k)" if "k < n" for k using that assms(1, 3) by simp
  have up: "\<not> lt (h ! k) (h ! parent k)" if "k < n" "k \<noteq> 0" "parent k \<noteq> i" for k
    using assms(2) that by (auto simp: heap_but_down_def)
  have over: "\<not> lt (h ! ?j) (h ! parent i)" if "i \<noteq> 0"
    using assms(2) that j pj by (auto simp: heap_but_down_def)
  have sib: "\<not> lt (h ! k) (h ! ?j)" if "k < n" "k \<noteq> 0" "parent k = i" for k
    using min_child_least [OF assms(1, 3, 4) that(1)] that(3) parent_children [OF that(2)] by simp
  have first: "\<not> lt (swap h i ?j ! k) (swap h i ?j ! parent k)" if k: "k < n" "k \<noteq> 0" "parent k \<noteq> ?j" for k
  proof -
    have pk: "parent k < k" "k < length h" using parent_less [OF k(2)] k(1) assms(3) by simp_all
    consider "k = ?j" | "k = i" | "k \<noteq> ?j" "k \<noteq> i" "parent k = i" | "k \<noteq> ?j" "k \<noteq> i" "parent k \<noteq> i" by blast
    then show ?thesis
      using k pk len j pj asym [OF v [OF j(2)] v [of i] assms(5)] over sib [OF k(1, 2)] up [OF k(1, 2)]
      by cases (auto simp: nth_swap)
  qed
  have second: "\<not> lt (swap h i ?j ! k) (swap h i ?j ! parent ?j)" if k: "k < n" "k \<noteq> 0" "parent k = ?j" for k
  proof -
    have "?j < k" "k < length h" using parent_less [OF k(2)] k assms(3) by simp_all
    then show ?thesis using up [OF k(1, 2)] k(3) j pj len by (auto simp: nth_swap)
  qed
  show ?thesis using first second by (simp add: heap_but_down_def)
qed

lemma down_heap:
  "\<forall>x \<in> set h. valid x \<Longrightarrow> heap_but_down lt h i n \<Longrightarrow> n \<le> length h \<Longrightarrow> is_heap lt (heap_down lt h i n) n"
proof (induction "n - i" arbitrary: h i rule: less_induct)
  case less
  let ?j = "min_child lt h i n"
  show ?case
  proof (cases "n \<le> 2 * i + 1")
    case True
    then have "heap_down lt h i n = h" by (subst heap_down.simps) simp
    moreover have "parent k \<noteq> i" if "k < n" "k \<noteq> 0" for k using True that parent_children [of k i] by auto
    ultimately show ?thesis using less.prems(2) by (auto simp: is_heap_def heap_but_down_def)
  next
    case far: False
    then have j: "i < ?j" "?j < n" using min_child_range [of i n lt h] by simp_all
    show ?thesis
    proof (cases "lt (h ! ?j) (h ! i)")
      case True
      have s: "heap_but_down lt (swap h i ?j) ?j n" using less.prems far True by (intro down_step) auto
      have "\<forall>x \<in> set (swap h i ?j). valid x"
        using less.prems j mset_swap_nth [of i h ?j] by (metis less_le_trans less_trans set_mset_mset)
      then have "is_heap lt (heap_down lt (swap h i ?j) ?j n) n" using less.hyps [OF _ _ s] less.prems(3) j by simp
      then show ?thesis using far True by (subst heap_down.simps) (simp add: Let_def)
    next
      case False
      have v: "valid (h ! k)" if "k < n" for k using that less.prems by simp
      have "\<not> lt (h ! k) (h ! parent k)" if k: "k < n" "k \<noteq> 0" for k
      proof (cases "parent k = i")
        case True
        then have "\<not> lt (h ! k) (h ! ?j)"
          using min_child_least [OF less.prems(1, 3) _ k(1)] far parent_children [OF k(2)] by simp
        then show ?thesis using trans_not [OF v [of i] v [OF j(2)] v [OF k(1)] False] j True by simp
      qed (use less.prems(2) k in \<open>auto simp: heap_but_down_def\<close>)
      then show ?thesis using far False by (subst heap_down.simps) (simp add: Let_def is_heap_def)
    qed
  qed
qed

lemma root_least:
  "\<forall>x \<in> set h. valid x \<Longrightarrow> is_heap lt h n \<Longrightarrow> n \<le> length h \<Longrightarrow> k < n \<Longrightarrow> \<not> lt (h ! k) (h ! 0)"
proof (induction k rule: less_induct)
  case (less k)
  have v: "valid (h ! m)" if "m < n" for m using that less.prems by simp
  show ?case
  proof (cases "k = 0")
    case True
    then show ?thesis using asym [OF v v] less.prems(4) by blast
  next
    case False
    then have p: "parent k < k" by (rule parent_less)
    then have "\<not> lt (h ! parent k) (h ! 0)" using less by simp
    moreover have "\<not> lt (h ! k) (h ! parent k)" using less.prems False by (simp add: is_heap_def)
    ultimately show ?thesis using trans_not [OF v [of 0] v [of "parent k"] v [of k]] p less.prems(4) by simp
  qed
qed

lemma heap_push_heap:
  assumes "\<forall>y \<in> set h. valid y" "valid x" "is_heap lt h (length h)"
  shows "is_heap lt (heap_push lt x h) (length (heap_push lt x h))"
proof -
  have "length (heap_push lt x h) = length (h @ [x])"
    unfolding heap_push_def by (metis heap_up_mset length_append_singleton lessI size_mset)
  moreover have "heap_but_up lt (h @ [x]) (length h)"
  proof -
    have "\<not> lt ((h @ [x]) ! k) ((h @ [x]) ! parent k)" if "k < length h" "k \<noteq> 0" for k
      using assms(3) that parent_less [OF that(2)] by (simp add: is_heap_def nth_append)
    moreover have "parent k \<noteq> length h" if "k < Suc (length h)" "k \<noteq> 0" for k
      using that parent_less [OF that(2)] by simp
    ultimately show ?thesis by (auto simp: heap_but_up_def less_Suc_eq)
  qed
  ultimately show ?thesis using up_heap [of "h @ [x]" "length h"] assms(1, 2) by (simp add: heap_push_def)
qed

lemma heap_pop_heap:
  assumes "\<forall>y \<in> set h. valid y" "is_heap lt h (length h)" "h \<noteq> []" "heap_pop lt h = (x, h')"
  shows "is_heap lt h' (length h') \<and> mset h = add_mset x (mset h') \<and> (\<forall>y \<in> set h. \<not> lt y x)"
proof -
  define n where "n = length h - 1"
  define s where "s = swap h 0 n"
  have n: "length h = Suc n" using assms(3) by (simp add: n_def)
  then have len: "length s = Suc n" "length (heap_down lt s 0 n) = Suc n" by (simp_all add: s_def)
  have x: "x = last (heap_down lt s 0 n)" "h' = butlast (heap_down lt s 0 n)"
    using assms(4) by (simp_all add: heap_pop_def n_def s_def Let_def)
  have ms: "mset s = mset h" using n by (simp add: s_def)
  have "x = heap_down lt s 0 n ! n" using x(1) len by (metis diff_Suc_1 last_conv_nth length_0_conv nat.simps(3))
  also have "\<dots> = s ! n" using len by (intro heap_down_outside) auto
  also have "\<dots> = h ! 0" using n by (simp add: s_def nth_swap)
  finally have root: "x = h ! 0" .
  have "heap_but_down lt s 0 n"
  proof -
    have "\<not> lt (s ! k) (s ! parent k)" if "k < n" "k \<noteq> 0" "parent k \<noteq> 0" for k
      using assms(2) that parent_less [OF that(2)] n by (simp add: s_def nth_swap is_heap_def)
    then show ?thesis by (simp add: heap_but_down_def)
  qed
  moreover have "\<forall>y \<in> set s. valid y" using assms(1) ms by (metis set_mset_mset)
  ultimately have d: "is_heap lt (heap_down lt s 0 n) n" using len by (intro down_heap) auto
  have "is_heap lt h' (length h')"
    unfolding is_heap_def
  proof (intro allI impI)
    fix k assume k: "k < length h'" "k \<noteq> 0"
    have "length h' = n" using len by (simp add: x(2))
    then have "k < n" "parent k < n" using k parent_less [OF k(2)] by simp_all
    then show "\<not> lt (h' ! k) (h' ! parent k)" using d k(2) len by (simp add: is_heap_def x(2) nth_butlast)
  qed
  moreover have "mset h = add_mset x (mset h')"
  proof -
    have "heap_down lt s 0 n = h' @ [x]" using x len by (metis append_butlast_last_id length_0_conv nat.simps(3))
    then show ?thesis using ms heap_down_mset [of n s lt 0] len by simp
  qed
  moreover have "\<forall>y \<in> set h. \<not> lt y x"
    using root_least [OF assms(1, 2) order_refl] by (auto simp: root in_set_conv_nth)
  ultimately show ?thesis by blast
qed

end

section \<open>The contract of a priority queue\<close>

primrec drain :: "('q \<Rightarrow> 'a \<times> 'q) \<Rightarrow> nat \<Rightarrow> 'q \<Rightarrow> 'a list" where
  "drain pop 0 q = []"
| "drain pop (Suc n) q = (case pop q of (x, q') \<Rightarrow> x # drain pop n q')"

locale priority_queue =
  fixes inv :: "'q \<Rightarrow> bool" and ins :: "'a \<Rightarrow> 'q \<Rightarrow> 'q" and pop :: "'q \<Rightarrow> 'a \<times> 'q"
    and bag :: "'q \<Rightarrow> 'a multiset" and lt :: "'a \<Rightarrow> 'a \<Rightarrow> bool" and valid :: "'a \<Rightarrow> bool"
  assumes ins_law: "inv q \<Longrightarrow> valid x \<Longrightarrow> inv (ins x q) \<and> bag (ins x q) = add_mset x (bag q)"
    and pop_law: "inv q \<Longrightarrow> bag q \<noteq> {#} \<Longrightarrow> pop q = (x, q') \<Longrightarrow>
      inv q' \<and> bag q = add_mset x (bag q') \<and> (\<forall>y \<in># bag q. \<not> lt y x)"
begin

lemma drain_sorted:
  "inv q \<Longrightarrow> n = size (bag q) \<Longrightarrow>
   mset (drain pop n q) = bag q \<and> sorted_wrt (\<lambda>a b. \<not> lt b a) (drain pop n q)"
proof (induction n arbitrary: q)
  case (Suc n)
  obtain x q' where p: "pop q = (x, q')" by fastforce
  have "bag q \<noteq> {#}" using Suc.prems(2) by auto
  note law = pop_law [OF Suc.prems(1) this p]
  then have IH: "mset (drain pop n q') = bag q'" "sorted_wrt (\<lambda>a b. \<not> lt b a) (drain pop n q')"
    using Suc.IH [of q'] Suc.prems(2) by auto
  then have "set (drain pop n q') \<subseteq> set_mset (bag q)" using law by (metis set_mset_mset set_mset_add_mset_insert subset_insertI)
  then show ?case using law IH p by auto
qed simp

end

sublocale heap_order \<subseteq> pq: priority_queue
  "\<lambda>h. is_heap lt h (length h) \<and> (\<forall>x \<in> set h. valid x)" "heap_push lt" "heap_pop lt" mset lt valid
proof
  show "(is_heap lt (heap_push lt x h) (length (heap_push lt x h)) \<and> (\<forall>y \<in> set (heap_push lt x h). valid y)) \<and>
      mset (heap_push lt x h) = add_mset x (mset h)"
    if "is_heap lt h (length h) \<and> (\<forall>y \<in> set h. valid y)" "valid x" for h x
  proof -
    have m: "mset (heap_push lt x h) = add_mset x (mset h)" unfolding heap_push_def by (subst heap_up_mset) auto
    then have "set (heap_push lt x h) = insert x (set h)" by (metis set_mset_mset set_mset_add_mset_insert)
    then show ?thesis using heap_push_heap [of h x] that m by simp
  qed
  show "(is_heap lt h' (length h') \<and> (\<forall>y \<in> set h'. valid y)) \<and> mset h = add_mset x (mset h') \<and> (\<forall>y \<in># mset h. \<not> lt y x)"
    if "is_heap lt h (length h) \<and> (\<forall>y \<in> set h. valid y)" "mset h \<noteq> {#}" "heap_pop lt h = (x, h')" for h x h'
  proof -
    have p: "is_heap lt h' (length h') \<and> mset h = add_mset x (mset h') \<and> (\<forall>y \<in> set h. \<not> lt y x)"
      using that by (intro heap_pop_heap) auto
    then have "set h' \<subseteq> set h" by (metis set_mset_mset set_mset_add_mset_insert subset_insertI)
    have "x \<in> set h" using p by (metis set_mset_mset union_single_eq_member)
    then show ?thesis using p that(1) \<open>set h' \<subseteq> set h\<close> by auto
  qed
qed

interpretation ev: heap_order event_less "\<lambda>e. ev_Time e \<noteq> NaN"
proof
  show "\<not> event_less b a" if "ev_Time a \<noteq> NaN" "ev_Time b \<noteq> NaN" "event_less a b" for a b
    using that by (cases "ev_Time a"; cases "ev_Time b") (auto simp: event_less_def)
  show "\<not> event_less c a" if "ev_Time a \<noteq> NaN" "ev_Time b \<noteq> NaN" "ev_Time c \<noteq> NaN" "\<not> event_less b a" "\<not> event_less c b" for a b c
    using that by (cases "ev_Time a"; cases "ev_Time b"; cases "ev_Time c") (auto simp: event_less_def)
qed

section \<open>Virtual time\<close>

definition sched_ok :: "Scheduler \<Rightarrow> bool" where
  "sched_ok s \<longleftrightarrow> is_heap event_less (sch_h s) (length (sch_h s)) \<and> sch_Clock s \<noteq> NaN \<and>
     (\<forall>e \<in> set (sch_h s). ev_Time e \<noteq> NaN \<and> sch_Clock s \<le> ev_Time e)"

definition not_before :: "f64 \<Rightarrow> Event \<Rightarrow> Event" where
  "not_before clock e = (if ev_Time e < clock then e\<lparr> ev_Time := clock \<rparr> else e)"

lemma NewScheduler_ok: "sched_ok NewScheduler"
  by (simp add: sched_ok_def NewScheduler_def is_heap_def zero_f64_def)

lemma not_before_simps [simp]:
  "ev_Kind (not_before c e) = ev_Kind e" "ev_ServiceID (not_before c e) = ev_ServiceID e"
  by (simp_all add: not_before_def)

lemma not_before_time: "ev_Time e \<noteq> NaN \<Longrightarrow> c \<noteq> NaN \<Longrightarrow> ev_Time (not_before c e) \<noteq> NaN \<and> c \<le> ev_Time (not_before c e)"
  by (simp add: not_before_def le_refl64 not_less64)

lemma Schedule_pending: "mset (sch_h (Schedule e s)) = add_mset (not_before (sch_Clock s) e) (mset (sch_h s))"
  by (simp add: Schedule_def Let_def heap_push_def heap_up_mset not_before_def)

lemma Schedule_clock [simp]: "sch_Clock (Schedule e s) = sch_Clock s"
  by (simp add: Schedule_def Let_def)

lemma Schedule_ok: assumes "sched_ok s" "ev_Time e \<noteq> NaN" shows "sched_ok (Schedule e s)"
proof -
  have nb: "ev_Time (not_before (sch_Clock s) e) \<noteq> NaN \<and> sch_Clock s \<le> ev_Time (not_before (sch_Clock s) e)"
    using assms by (intro not_before_time) (auto simp: sched_ok_def)
  have "set (sch_h (Schedule e s)) = insert (not_before (sch_Clock s) e) (set (sch_h s))"
    using Schedule_pending [of e s] by (metis set_mset_mset set_mset_add_mset_insert)
  moreover have "is_heap event_less (sch_h (Schedule e s)) (length (sch_h (Schedule e s)))"
    using ev.heap_push_heap [of "sch_h s" "not_before (sch_Clock s) e"] assms nb
    by (simp add: Schedule_def Let_def not_before_def sched_ok_def)
  ultimately show ?thesis using assms nb by (auto simp: sched_ok_def)
qed

lemma Next_None: "Next s = (None, s') \<longleftrightarrow> sch_h s = [] \<and> s' = s"
  by (auto simp: Next_def split: prod.splits)

lemma Next_ok:
  assumes "sched_ok s" "Next s = (Some e, s')"
  shows "sched_ok s' \<and> mset (sch_h s) = add_mset e (mset (sch_h s')) \<and> sch_Clock s' = ev_Time e \<and>
    sch_Clock s \<le> ev_Time e \<and> (\<forall>y \<in> set (sch_h s). ev_Time e \<le> ev_Time y)"
proof -
  obtain h where h: "sch_h s \<noteq> []" "heap_pop event_less (sch_h s) = (e, h)" "s' = s\<lparr> sch_h := h, sch_Clock := ev_Time e \<rparr>"
    using assms(2) by (auto simp: Next_def split: if_splits prod.splits)
  have p: "is_heap event_less h (length h)" "mset (sch_h s) = add_mset e (mset h)" "\<forall>y \<in> set (sch_h s). \<not> event_less y e"
    using ev.heap_pop_heap [OF _ _ h(1, 2)] assms(1) by (auto simp: sched_ok_def)
  then have s: "set (sch_h s) = insert e (set h)" by (metis set_mset_mset set_mset_add_mset_insert)
  then have "ev_Time e \<le> ev_Time y" if "y \<in> set (sch_h s)" for y
    using p(3) that assms(1) not_less64 [of "ev_Time y" "ev_Time e"] by (auto simp: event_less_def sched_ok_def)
  then show ?thesis using p s assms(1) by (auto simp: h(3) sched_ok_def)
qed

datatype sched_op = Insert Event | Take

fun sched_step :: "sched_op \<Rightarrow> Scheduler \<times> Event list \<Rightarrow> Scheduler \<times> Event list" where
  "sched_step (Insert e) (s, out) = (Schedule e s, out)"
| "sched_step Take (s, out) = (case Next s of (None, s) \<Rightarrow> (s, out) | (Some e, s) \<Rightarrow> (s, out @ [e]))"

fun op_time_ok :: "sched_op \<Rightarrow> bool" where
  "op_time_ok (Insert e) = (ev_Time e \<noteq> NaN)"
| "op_time_ok Take = True"

definition released_ok :: "Scheduler \<times> Event list \<Rightarrow> bool" where
  "released_ok x \<longleftrightarrow> sched_ok (fst x) \<and> sorted_wrt (\<lambda>a b. ev_Time a \<le> ev_Time b) (snd x) \<and>
     (\<forall>e \<in> set (snd x). ev_Time e \<le> sch_Clock (fst x))"

lemma sched_step_released:
  assumes "released_ok x" "op_time_ok o'" shows "released_ok (sched_step o' x)"
proof (cases o')
  case (Insert e)
  then show ?thesis using assms by (cases x) (auto simp: released_ok_def Schedule_ok)
next
  case Take
  obtain s out where x: "x = (s, out)" by fastforce
  show ?thesis
  proof (cases "Next s")
    case (Pair r s')
    show ?thesis
    proof (cases r)
      case None
      then have "Next s = (None, s)" using Pair by (simp add: Next_None)
      then show ?thesis using assms(1) by (simp add: x Take)
    next
      case (Some e)
      then have n: "Next s = (Some e, s')" using Pair by simp
      have "sched_ok s" using assms(1) by (simp add: released_ok_def x)
      note ok = Next_ok [OF this n]
      have "ev_Time a \<le> ev_Time e" if "a \<in> set out" for a
        using assms(1) that ok by (auto simp: released_ok_def x intro: le_trans64)
      moreover have "ev_Time e \<le> ev_Time e" using ok \<open>sched_ok s\<close> by (auto simp: sched_ok_def intro!: le_refl64)
      ultimately show ?thesis using assms(1) ok by (auto simp: released_ok_def x Take n sorted_wrt_append)
    qed
  qed
qed

definition timeless :: "Event \<Rightarrow> Event" where
  "timeless e = e\<lparr> ev_Time := 0 \<rparr>"

fun inserted :: "sched_op \<Rightarrow> Event list" where
  "inserted (Insert e) = [e]"
| "inserted Take = []"

definition accounted :: "Scheduler \<times> Event list \<Rightarrow> Event multiset" where
  "accounted x = image_mset timeless (mset (sch_h (fst x)) + mset (snd x))"

lemma timeless_not_before [simp]: "timeless (not_before c e) = timeless e"
  by (simp add: timeless_def not_before_def)

lemma sched_step_accounted:
  assumes "released_ok x"
  shows "accounted (sched_step o' x) = accounted x + image_mset timeless (mset (inserted o'))"
proof (cases o')
  case (Insert e)
  then show ?thesis by (cases x) (simp add: accounted_def Schedule_pending)
next
  case Take
  obtain s out where x: "x = (s, out)" by fastforce
  obtain r s' where n: "Next s = (r, s')" by fastforce
  show ?thesis
  proof (cases r)
    case None
    then have "Next s = (None, s)" using n by (simp add: Next_None)
    then show ?thesis by (simp add: accounted_def x Take)
  next
    case (Some e)
    then have "mset (sch_h s) = add_mset e (mset (sch_h s'))"
      using Next_ok [of s e s'] n assms by (simp add: released_ok_def x)
    then show ?thesis using n Some by (simp add: accounted_def x Take)
  qed
qed

lemma sched_run:
  "released_ok x \<Longrightarrow> list_all op_time_ok ops \<Longrightarrow>
   released_ok (fold sched_step ops x) \<and>
   accounted (fold sched_step ops x) = accounted x + image_mset timeless (mset (concat (map inserted ops)))"
proof (induction ops arbitrary: x)
  case (Cons o' ops)
  then have "released_ok (sched_step o' x)" by (simp add: sched_step_released)
  then show ?case using Cons by (simp add: sched_step_accounted)
qed simp

text \<open>C8: Whatever is scheduled in whatever order, as long as no time is NaN, the events the scheduler
  releases come out in non-decreasing virtual time, and the released and the pending events
  are, up to the clamping of their times, exactly the scheduled ones.\<close>

theorem virtual_time_monotone:
  assumes "list_all op_time_ok ops" and "fold sched_step ops (NewScheduler, []) = (s, out)"
  shows "sorted_wrt (\<lambda>a b. ev_Time a \<le> ev_Time b) out \<and>
    image_mset timeless (mset (sch_h s) + mset out) = image_mset timeless (mset (concat (map inserted ops)))"
proof -
  have "released_ok (NewScheduler, [])" by (simp add: released_ok_def NewScheduler_ok)
  from sched_run [OF this assms(1)] assms(2) show ?thesis
    by (simp add: released_ok_def accounted_def NewScheduler_def)
qed

theorem virtual_time_monotone_witness:
  "sorted_wrt (\<lambda>a b. ev_Time a \<le> ev_Time b)
     (snd (fold sched_step [Insert (event (fl 3) EventTick ''a''), Insert (event 1 EventTick ''b''), Take, Take] (NewScheduler, [])))"
proof -
  let ?ops = "[Insert (event (fl 3) EventTick ''a''), Insert (event 1 EventTick ''b''), Take, Take]"
  have "list_all op_time_ok ?ops" by (simp add: event_def one_f64_def)
  from conjunct1 [OF virtual_time_monotone [OF this surjective_pairing]] show ?thesis .
qed

end
