(* ===== verification/Reasoning.thy ===== *)
theory Reasoning
  imports NetworkEquilibrium TopologySensitivity OptTypes GoString EventHeap "HOL-Library.Stream"
begin

text \<open>
  \<open>internal/reasoning/engine.go\<close> and \<open>types.go\<close>: the rule engine that turns the model bundles,
  the topology and the objective into operator events, with a cooldown per rule.

  An event has all its fields but the three texts for the operator (\<open>Description\<close>,
  \<open>Recommendation\<close>, \<open>ModelChain\<close>), which are formatted from the values the rule reads and which
  nothing reads back.  The identifiers (\<open>newID\<close>, six random bytes in hexadecimal) are drawn from
  a stream.  The order of \<open>sort.Slice\<close>, which is not stable, and of the map it sorts is the
  argument \<open>srt\<close>; \<open>sort.SliceStable\<close> is the stable sort, which is unique.
\<close>

section \<open>Events\<close>

datatype Severity = SeverityInfo | SeverityWarning | SeverityCritical

fun severity_level :: "Severity \<Rightarrow> int" where
  "severity_level SeverityInfo = 0"
| "severity_level SeverityWarning = 1"
| "severity_level SeverityCritical = 2"

fun severity_String :: "Severity \<Rightarrow> string" where
  "severity_String SeverityInfo = ''INFO''"
| "severity_String SeverityWarning = ''WARN''"
| "severity_String SeverityCritical = ''CRIT''"

record Evidence =
  ed_Utilisation :: f64
  ed_CollapseRisk :: f64
  ed_OscillationRisk :: f64
  ed_QueueWaitMs :: f64
  ed_SaturationSec :: f64
  ed_BurstFactor :: f64
  ed_CascadeRisk :: f64
  ed_StabilityMargin :: f64
  ed_CompositeScore :: f64

definition no_evidence :: Evidence where
  "no_evidence = \<lparr> ed_Utilisation = 0, ed_CollapseRisk = 0, ed_OscillationRisk = 0, ed_QueueWaitMs = 0, ed_SaturationSec = 0,
     ed_BurstFactor = 0, ed_CascadeRisk = 0, ed_StabilityMargin = 0, ed_CompositeScore = 0 \<rparr>"

record ReasonEvent =
  re_ID :: string
  re_Timestamp :: gotime
  re_ServiceID :: string
  re_Severity :: Severity
  re_Category :: string
  re_Evidence :: Evidence
  re_UncertaintyScore :: f64
  re_OperationalPriority :: int

section \<open>The engine and its cooldowns\<close>

record ReasonEngine =
  rg_cooldowns :: "(string, gotime) gomap"
  rg_cooldownOrder :: "string list"
  rg_cooldownPeriod :: duration
  rg_maxCooldowns :: int
  rg_runtimePressure :: int

definition SetRuntimePressure :: "int \<Rightarrow> ReasonEngine \<Rightarrow> ReasonEngine" where
  "SetRuntimePressure level e =
    e\<lparr> rg_runtimePressure := level,
       rg_cooldownPeriod := (if level = 1 then 20 * Second else if level = 2 then 10 * Second
         else if level = 3 then 5 * Second else 30 * Second) \<rparr>"

definition NewReasonEngine :: ReasonEngine where
  "NewReasonEngine = \<lparr> rg_cooldowns = [], rg_cooldownOrder = [], rg_cooldownPeriod = 30 * Second, rg_maxCooldowns = 500,
     rg_runtimePressure = 0 \<rparr>"

definition SetMaxCooldowns :: "int \<Rightarrow> ReasonEngine \<Rightarrow> ReasonEngine" where
  "SetMaxCooldowns n e = (if 0 < n then e\<lparr> rg_maxCooldowns := n \<rparr> else e)"

type_synonym entry_sort = "(string \<times> gotime) list \<Rightarrow> (string \<times> gotime) list"

definition evictOldest :: "entry_sort \<Rightarrow> nat \<Rightarrow> ReasonEngine \<Rightarrow> ReasonEngine" where
  "evictOldest srt n e =
    (if rg_cooldowns e = [] then e
     else let m = fold (\<lambda>x m. AList.delete (fst x) m) (take n (srt (rg_cooldowns e))) (rg_cooldowns e)
       in e\<lparr> rg_cooldowns := m, rg_cooldownOrder := map fst m \<rparr>)"

definition canFire :: "entry_sort \<Rightarrow> string \<Rightarrow> gotime \<Rightarrow> ReasonEngine \<Rightarrow> bool \<times> ReasonEngine" where
  "canFire srt key now e =
    (if (case map_of (rg_cooldowns e) key of None \<Rightarrow> False | Some t \<Rightarrow> time_sub now t < rg_cooldownPeriod e)
     then (False, e)
     else let e = (if rg_maxCooldowns e \<le> int (length (rg_cooldowns e)) then evictOldest srt 10 e else e)
       in (True, e\<lparr> rg_cooldowns := AList.update key now (rg_cooldowns e), rg_cooldownOrder := rg_cooldownOrder e @ [key] \<rparr>))"

definition computePriority :: "Severity \<Rightarrow> f64 \<Rightarrow> f64 \<Rightarrow> int" where
  "computePriority sev rho trend =
    (let base = (case sev of SeverityCritical \<Rightarrow> 7 | SeverityWarning \<Rightarrow> 4 | SeverityInfo \<Rightarrow> 1);
         trendBoost = (if fl 0.1 < trend then 1 else 0);
         rhoBoost = (if fl 0.90 < rho then 1 else 0);
         p = base + trendBoost + rhoBoost
     in if 9 < p then 9 else p)"

section \<open>Sorting\<close>

definition more_severe :: "ReasonEvent \<Rightarrow> ReasonEvent \<Rightarrow> bool" where
  \<comment> \<open>the less function of \<open>sortBySeverity\<close>\<close>
  "more_severe a b \<longleftrightarrow>
    (if re_Severity a \<noteq> re_Severity b then severity_level (re_Severity b) < severity_level (re_Severity a)
     else re_OperationalPriority b < re_OperationalPriority a)"

fun stable_insert :: "('a \<Rightarrow> 'a \<Rightarrow> bool) \<Rightarrow> 'a \<Rightarrow> 'a list \<Rightarrow> 'a list" where
  "stable_insert lt x [] = [x]"
| "stable_insert lt x (y # ys) = (if lt y x then y # stable_insert lt x ys else x # y # ys)"

definition stable_sort :: "('a \<Rightarrow> 'a \<Rightarrow> bool) \<Rightarrow> 'a list \<Rightarrow> 'a list" where
  "stable_sort lt xs = foldr (stable_insert lt) xs []"

definition sortBySeverity :: "ReasonEvent list \<Rightarrow> ReasonEvent list" where
  "sortBySeverity events = stable_sort more_severe events"

section \<open>Rules\<close>

text \<open>The rules run in the order of the code and thread the engine, the stream of identifiers and
  the events collected so far.\<close>

record reasoning =
  rs_engine :: ReasonEngine
  rs_ids :: "string stream"
  rs_events :: "ReasonEvent list"

definition mk_event :: "gotime \<Rightarrow> string \<Rightarrow> Severity \<Rightarrow> string \<Rightarrow> Evidence \<Rightarrow> f64 \<Rightarrow> int \<Rightarrow> ReasonEvent" where
  \<comment> \<open>the literal of a rule, its identifier still empty\<close>
  "mk_event now sid sev cat ed unc prio =
    \<lparr> re_ID = [], re_Timestamp = now, re_ServiceID = sid, re_Severity = sev, re_Category = cat, re_Evidence = ed,
       re_UncertaintyScore = unc, re_OperationalPriority = prio \<rparr>"

definition fire :: "entry_sort \<Rightarrow> bool \<Rightarrow> string \<Rightarrow> ReasonEvent \<Rightarrow> reasoning \<Rightarrow> reasoning" where
  \<comment> \<open>\<open>if guard \{ if e.canFire(key, now) \{ events = append(events, Event\{ID: newID(), ...\}) \} \}\<close>\<close>
  "fire srt guard key ev s =
    (if guard
     then case canFire srt key (re_Timestamp ev) (rs_engine s) of (ok, e) \<Rightarrow>
       if ok then s\<lparr> rs_engine := e, rs_ids := stl (rs_ids s), rs_events := rs_events s @ [ev\<lparr> re_ID := shd (rs_ids s) \<rparr>] \<rparr>
       else s\<lparr> rs_engine := e \<rparr>
     else s)"

definition uncertainty_of :: "ServiceModelBundle \<Rightarrow> f64" where
  "uncertainty_of b =
    (let baseUncertainty = 1 - qm_Confidence (mb_Queue b);
         cusumPressure = math_Min ((sg_CUSUMPos (mb_Signal b) + sg_CUSUMNeg (mb_Signal b)) / fl 20) (fl 0.2)
     in math_Min (baseUncertainty + cusumPressure) 1)"

definition utilisation_rule :: "entry_sort \<Rightarrow> ServiceModelBundle \<Rightarrow> gotime \<Rightarrow> reasoning \<Rightarrow> reasoning" where
  "utilisation_rule srt b now s =
    (let sid = qm_ServiceID (mb_Queue b); rho = qm_Utilisation (mb_Queue b); u = uncertainty_of b;
         trend = qm_UtilisationTrend (mb_Queue b)
     in if fl 0.95 \<le> rho
        then fire srt True (sid @ '':util:crit'') (mk_event now sid SeverityCritical ''UTILISATION''
               (no_evidence\<lparr> ed_Utilisation := rho, ed_StabilityMargin := sa_StabilityMargin (mb_Stability b) \<rparr>)
               u (computePriority SeverityCritical rho trend)) s
        else fire srt (fl 0.80 \<le> rho) (sid @ '':util:warn'') (mk_event now sid SeverityWarning ''UTILISATION''
               (no_evidence\<lparr> ed_Utilisation := rho \<rparr>) u (computePriority SeverityWarning rho trend)) s)"

definition horizon_rule :: "entry_sort \<Rightarrow> ServiceModelBundle \<Rightarrow> gotime \<Rightarrow> reasoning \<Rightarrow> reasoning" where
  "horizon_rule srt b now s =
    (let sid = qm_ServiceID (mb_Queue b); rho = qm_Utilisation (mb_Queue b);
         horizon = qm_SaturationHorizon (mb_Queue b); secs = duration_Seconds horizon;
         sev = (if secs < fl 60 then SeverityCritical else SeverityWarning)
     in fire srt (0 < horizon \<and> horizon < 5 * Minute) (sid @ '':horizon'') (mk_event now sid sev ''SATURATION''
          (no_evidence\<lparr> ed_Utilisation := rho, ed_SaturationSec := secs \<rparr>)
          (uncertainty_of b) (computePriority sev rho (qm_UtilisationTrend (mb_Queue b)))) s)"

definition margin_rule :: "entry_sort \<Rightarrow> ServiceModelBundle \<Rightarrow> gotime \<Rightarrow> reasoning \<Rightarrow> reasoning" where
  "margin_rule srt b now s =
    (let sid = qm_ServiceID (mb_Queue b); rho = qm_Utilisation (mb_Queue b)
     in fire srt (sa_TrendAdjustedMargin (mb_Stability b) < 0) (sid @ '':tam_negative'')
          (mk_event now sid SeverityCritical ''SATURATION''
             (no_evidence\<lparr> ed_Utilisation := rho, ed_SaturationSec := fl 20 \<rparr>) (uncertainty_of b * fl 0.8) 9) s)"

definition acceleration_rule :: "entry_sort \<Rightarrow> ServiceModelBundle \<Rightarrow> gotime \<Rightarrow> reasoning \<Rightarrow> reasoning" where
  "acceleration_rule srt b now s =
    (let sid = qm_ServiceID (mb_Queue b); rho = qm_Utilisation (mb_Queue b)
     in fire srt (fl 0.03 < sa_StabilityDerivative (mb_Stability b) \<and> fl 0.6 < rho) (sid @ '':risk_accel'')
          (mk_event now sid SeverityWarning ''STABILITY''
             (no_evidence\<lparr> ed_Utilisation := rho, ed_CollapseRisk := sa_CollapseRisk (mb_Stability b) \<rparr>)
             (uncertainty_of b) (computePriority SeverityWarning rho (qm_UtilisationTrend (mb_Queue b)))) s)"

definition network_horizon_rule :: "entry_sort \<Rightarrow> ServiceModelBundle \<Rightarrow> gotime \<Rightarrow> reasoning \<Rightarrow> reasoning" where
  "network_horizon_rule srt b now s =
    (let sid = qm_ServiceID (mb_Queue b); rho = qm_Utilisation (mb_Queue b); h = qm_NetworkSaturationHorizon (mb_Queue b)
     in fire srt (0 < h \<and> h < qm_SaturationHorizon (mb_Queue b) \<and> fl 0.2 < qm_UpstreamPressure (mb_Queue b))
          (sid @ '':net_horizon'')
          (mk_event now sid SeverityWarning ''SATURATION''
             (no_evidence\<lparr> ed_Utilisation := rho, ed_SaturationSec := duration_Seconds h \<rparr>)
             (uncertainty_of b) (computePriority SeverityWarning rho (qm_UtilisationTrend (mb_Queue b)))) s)"

definition wait_rule :: "entry_sort \<Rightarrow> ServiceModelBundle \<Rightarrow> gotime \<Rightarrow> reasoning \<Rightarrow> reasoning" where
  "wait_rule srt b now s =
    (let sid = qm_ServiceID (mb_Queue b); rho = qm_Utilisation (mb_Queue b); adjWait = qm_AdjustedWaitMs (mb_Queue b);
         sev = (if fl 2000 < adjWait then SeverityCritical else SeverityWarning)
     in fire srt (\<not> math_IsInf adjWait \<and> \<not> math_IsNaN adjWait \<and> fl 500 < adjWait) (sid @ '':wait'')
          (mk_event now sid sev ''LATENCY''
             (no_evidence\<lparr> ed_QueueWaitMs := adjWait, ed_BurstFactor := qm_BurstFactor (mb_Queue b), ed_Utilisation := rho \<rparr>)
             (uncertainty_of b) (computePriority sev rho (qm_UtilisationTrend (mb_Queue b)))) s)"

definition collapse_rule :: "entry_sort \<Rightarrow> ServiceModelBundle \<Rightarrow> gotime \<Rightarrow> reasoning \<Rightarrow> reasoning" where
  "collapse_rule srt b now s =
    (let sid = qm_ServiceID (mb_Queue b); rho = qm_Utilisation (mb_Queue b); risk = sa_CollapseRisk (mb_Stability b)
     in fire srt (fl 0.85 < risk) (sid @ '':collapse'')
          (mk_event now sid SeverityCritical ''STABILITY''
             (no_evidence\<lparr> ed_CollapseRisk := risk, ed_Utilisation := rho, ed_StabilityMargin := sa_StabilityMargin (mb_Stability b) \<rparr>)
             (uncertainty_of b) (computePriority SeverityCritical rho (qm_UtilisationTrend (mb_Queue b)))) s)"

definition cascade_rule :: "entry_sort \<Rightarrow> ServiceModelBundle \<Rightarrow> gotime \<Rightarrow> reasoning \<Rightarrow> reasoning" where
  "cascade_rule srt b now s =
    (let sid = qm_ServiceID (mb_Queue b); rho = qm_Utilisation (mb_Queue b); amp = sa_CascadeAmplificationScore (mb_Stability b)
     in fire srt (fl 0.5 < amp) (sid @ '':cascade_amp'')
          (mk_event now sid SeverityWarning ''CASCADE'' (no_evidence\<lparr> ed_CascadeRisk := amp, ed_Utilisation := rho \<rparr>)
             (uncertainty_of b) (computePriority SeverityWarning rho (qm_UtilisationTrend (mb_Queue b)))) s)"

definition oscillation_rule :: "entry_sort \<Rightarrow> ServiceModelBundle \<Rightarrow> gotime \<Rightarrow> reasoning \<Rightarrow> reasoning" where
  "oscillation_rule srt b now s =
    (let sid = qm_ServiceID (mb_Queue b); rho = qm_Utilisation (mb_Queue b); risk = sa_OscillationRisk (mb_Stability b)
     in fire srt (fl 0.6 < risk \<and> fl 0.65 < rho) (sid @ '':oscillation'')
          (mk_event now sid SeverityWarning ''STABILITY'' (no_evidence\<lparr> ed_OscillationRisk := risk, ed_Utilisation := rho \<rparr>)
             (uncertainty_of b) (computePriority SeverityWarning rho 0)) s)"

definition anomaly_rules :: "entry_sort \<Rightarrow> ServiceModelBundle \<Rightarrow> gotime \<Rightarrow> reasoning \<Rightarrow> reasoning" where
  "anomaly_rules srt b now s =
    (let sid = qm_ServiceID (mb_Queue b); rho = qm_Utilisation (mb_Queue b);
         s = fire srt (sg_SpikeDetected (mb_Signal b)) (sid @ '':spike'')
          (mk_event now sid SeverityWarning ''ANOMALY'' (no_evidence\<lparr> ed_Utilisation := rho \<rparr>)
             (uncertainty_of b) (computePriority SeverityWarning rho (qm_UtilisationTrend (mb_Queue b)))) s
     in fire srt (sg_ChangePointDetected (mb_Signal b)) (sid @ '':changepoint'')
          (mk_event now sid SeverityInfo ''ANOMALY'' no_evidence (uncertainty_of b) 2) s)"

definition evalService :: "entry_sort \<Rightarrow> ServiceModelBundle \<Rightarrow> gotime \<Rightarrow> reasoning \<Rightarrow> reasoning" where
  "evalService srt b now s =
    anomaly_rules srt b now (oscillation_rule srt b now (cascade_rule srt b now (collapse_rule srt b now
      (wait_rule srt b now (network_horizon_rule srt b now (acceleration_rule srt b now (margin_rule srt b now
        (horizon_rule srt b now (utilisation_rule srt b now s)))))))))"

definition evalTopology :: "entry_sort \<Rightarrow> GraphSnapshot \<Rightarrow> gotime \<Rightarrow> reasoning \<Rightarrow> reasoning" where
  "evalTopology srt topo now s =
    (let cp = gs_CriticalPath topo; n = length (cr_Nodes cp);
         sev = (if fl 0.90 < cr_CascadeRisk cp then SeverityCritical else SeverityWarning)
     in fire srt (\<not> (n < 2 \<or> cr_CascadeRisk cp < fl 0.70)) (''topo:cascade:'' @ dec_nat n)
          (mk_event now [] sev ''CASCADE'' (no_evidence\<lparr> ed_CascadeRisk := cr_CascadeRisk cp \<rparr>)
             (fl 0.2) (computePriority sev (cr_CascadeRisk cp) 0)) s)"

definition evalObjective :: "entry_sort \<Rightarrow> ObjectiveScore \<Rightarrow> gotime \<Rightarrow> reasoning \<Rightarrow> reasoning" where
  "evalObjective srt obj now s =
    fire srt (fl 0.80 < os_CompositeScore obj) ''obj:critical''
      (mk_event now [] SeverityCritical ''OBJECTIVE''
         (no_evidence\<lparr> ed_CompositeScore := os_CompositeScore obj, ed_CascadeRisk := os_CascadeFailureProbability obj,
            ed_QueueWaitMs := os_PredictedP99LatencyMs obj \<rparr>) (fl 0.15) 9) s"

definition Analyse ::
  "entry_sort \<Rightarrow> (string, ServiceModelBundle) gomap \<Rightarrow> GraphSnapshot \<Rightarrow> ObjectiveScore \<Rightarrow> gotime \<Rightarrow>
   ReasonEngine \<Rightarrow> string stream \<Rightarrow> reasoning" where
  "Analyse srt bundles topo obj now e ids =
    (let s = fold (\<lambda>x. evalService srt (snd x) now) bundles \<lparr> rs_engine = e, rs_ids = ids, rs_events = [] \<rparr>;
         s = evalObjective srt obj now (evalTopology srt topo now s)
     in s\<lparr> rs_events := sortBySeverity (rs_events s) \<rparr>)"

definition keystone_rule ::
  "entry_sort \<Rightarrow> TopologySensitivity \<Rightarrow> gotime \<Rightarrow> string \<times> ServiceModelBundle \<Rightarrow> reasoning \<Rightarrow> reasoning" where
  "keystone_rule srt topoSens now x s =
    (case map_of (ts_ByService topoSens) (fst x) of None \<Rightarrow> s
     | Some sens \<Rightarrow>
        let b = snd x; rho = qm_Utilisation (mb_Queue b)
        in fire srt (ss_IsKeystone sens \<and> fl 0.4 < sa_CollapseRisk (mb_Stability b) \<and> fl 0.70 < rho)
             (fst x @ '':keystone_risk'')
             (mk_event now (fst x) SeverityWarning ''TOPOLOGY''
                (no_evidence\<lparr> ed_Utilisation := rho, ed_CollapseRisk := sa_CollapseRisk (mb_Stability b) \<rparr>)
                (1 - qm_Confidence (mb_Queue b)) (computePriority SeverityWarning rho (qm_UtilisationTrend (mb_Queue b)))) s)"

definition AnalyseWithContext ::
  "entry_sort \<Rightarrow> (string, ServiceModelBundle) gomap \<Rightarrow> GraphSnapshot \<Rightarrow> ObjectiveScore \<Rightarrow> NetworkEquilibriumState \<Rightarrow>
   TopologySensitivity \<Rightarrow> gotime \<Rightarrow> ReasonEngine \<Rightarrow> string stream \<Rightarrow> reasoning" where
  "AnalyseWithContext srt bundles topo obj netEq topoSens now e ids =
    (let s = Analyse srt bundles topo obj now e ids;
         s = fire srt (\<not> ne_IsConverging netEq \<and> fl 0.50 < ne_NetworkSaturationRisk netEq) ''net:diverging''
           (mk_event now [] SeverityWarning ''EQUILIBRIUM''
              (no_evidence\<lparr> ed_CascadeRisk := ne_NetworkSaturationRisk netEq, ed_Utilisation := ne_SystemRhoMean netEq \<rparr>)
              (fl 0.25) (computePriority SeverityWarning (ne_SystemRhoMean netEq) 0)) s;
         fragility = ts_SystemFragility topoSens;
         sev = (if fl 0.85 < fragility then SeverityCritical else SeverityWarning);
         s = fire srt (fl 0.65 < fragility) ''topo:fragility''
           (mk_event now [] sev ''TOPOLOGY'' (no_evidence\<lparr> ed_CascadeRisk := fragility \<rparr>) (fl 0.20) (computePriority sev fragility 0)) s;
         s = fold (keystone_rule srt topoSens now) bundles s
     in s\<lparr> rs_events := sortBySeverity (rs_events s) \<rparr>)"

section \<open>The sort\<close>

lemma stable_insert_mset [simp]: "mset (stable_insert lt x ys) = add_mset x (mset ys)"
  by (induction ys) auto

lemma stable_sort_mset [simp]: "mset (stable_sort lt xs) = mset xs"
  by (induction xs) (auto simp: stable_sort_def)

context heap_order begin

lemma stable_insert_sorted:
  "valid x \<Longrightarrow> \<forall>y \<in> set ys. valid y \<Longrightarrow> sorted_wrt (\<lambda>a b. \<not> lt b a) ys \<Longrightarrow> sorted_wrt (\<lambda>a b. \<not> lt b a) (stable_insert lt x ys)"
proof (induction ys)
  case (Cons y ys)
  have s: "set (stable_insert lt x ys) = insert x (set ys)" by (metis set_mset_mset set_mset_add_mset_insert stable_insert_mset)
  show ?case
  proof (cases "lt y x")
    case True
    then show ?thesis using Cons s asym by auto
  next
    case False
    then have "\<not> lt z x" if "z \<in> set ys" for z using trans_not [of x y z] Cons.prems that by auto
    then show ?thesis using Cons.prems False by auto
  qed
qed simp

lemma stable_sort_sorted: "\<forall>y \<in> set ys. valid y \<Longrightarrow> sorted_wrt (\<lambda>a b. \<not> lt b a) (stable_sort lt ys)"
proof (induction ys)
  case (Cons y ys)
  have "set (stable_sort lt ys) = set ys" by (metis set_mset_mset stable_sort_mset)
  then show ?case using Cons by (auto simp: stable_sort_def intro!: stable_insert_sorted)
qed (simp add: stable_sort_def)

end

interpretation severe: heap_order more_severe "\<lambda>_. True"
proof
  show "\<not> more_severe b a" if "more_severe a b" for a b
    using that by (auto simp: more_severe_def split: if_splits)
  show "\<not> more_severe c a" if "\<not> more_severe b a" "\<not> more_severe c b" for a b c
    using that by (cases "re_Severity a"; cases "re_Severity b"; cases "re_Severity c") (auto simp: more_severe_def)
qed

section \<open>Every event is well formed\<close>

definition event_ok :: "gotime \<Rightarrow> ReasonEvent \<Rightarrow> bool" where
  "event_ok now ev \<longleftrightarrow> re_Timestamp ev = now \<and> 0 \<le> re_OperationalPriority ev \<and> re_OperationalPriority ev \<le> 9"

lemma computePriority_range: "0 \<le> computePriority sev rho trend \<and> computePriority sev rho trend \<le> 9"
  by (auto simp: computePriority_def Let_def split: Severity.splits)

lemma mk_event_ok [simp]:
  "event_ok now (mk_event now sid sev cat ed u (computePriority sev' rho trend))"
  "0 \<le> p \<Longrightarrow> p \<le> 9 \<Longrightarrow> event_ok now (mk_event now sid sev cat ed u p)"
  using computePriority_range by (simp_all add: event_ok_def mk_event_def)

text \<open>What a rule may do: it appends well-formed events and changes the engine by calls of \<open>canFire\<close>
  at the time of the analysis.\<close>

inductive fired :: "entry_sort \<Rightarrow> gotime \<Rightarrow> reasoning \<Rightarrow> reasoning \<Rightarrow> bool" for srt now where
  stay: "fired srt now s s"
| go: "fired srt now s s' \<Longrightarrow> event_ok now ev \<Longrightarrow> fired srt now s (fire srt guard key ev s')"

lemma fired_trans: "fired srt now s s' \<Longrightarrow> fired srt now s' s'' \<Longrightarrow> fired srt now s s''"
  by (rotate_tac, induction rule: fired.induct) (auto intro: fired.go)

lemmas fired_rules = fired.stay fired.go [OF fired.stay]

lemma fired_one [intro]: "event_ok now ev \<Longrightarrow> fired srt now s (fire srt guard key ev s)"
  by (rule fired.go [OF fired.stay])

lemma rules_fired:
  "fired srt now s (utilisation_rule srt b now s)" "fired srt now s (horizon_rule srt b now s)"
  "fired srt now s (margin_rule srt b now s)" "fired srt now s (acceleration_rule srt b now s)"
  "fired srt now s (network_horizon_rule srt b now s)" "fired srt now s (wait_rule srt b now s)"
  "fired srt now s (collapse_rule srt b now s)" "fired srt now s (cascade_rule srt b now s)"
  "fired srt now s (oscillation_rule srt b now s)" "fired srt now s (evalTopology srt topo now s)"
  "fired srt now s (evalObjective srt obj now s)"
  unfolding utilisation_rule_def horizon_rule_def margin_rule_def acceleration_rule_def network_horizon_rule_def
    wait_rule_def collapse_rule_def cascade_rule_def oscillation_rule_def evalTopology_def evalObjective_def Let_def
  by (auto simp del: fl_numeral intro: fired.go [OF fired.stay])

lemma anomaly_fired: "fired srt now s (anomaly_rules srt b now s)"
  unfolding anomaly_rules_def Let_def by (intro fired.go fired.stay) simp_all

lemma keystone_fired: "fired srt now s (keystone_rule srt ts now x s)"
  by (auto simp: keystone_rule_def Let_def simp del: fl_numeral intro: fired.stay split: option.splits)

lemma evalService_fired: "fired srt now s (evalService srt b now s)"
  unfolding evalService_def
  by (rule fired_trans [OF _ anomaly_fired] | rule fired_trans [OF _ rules_fired(9)] | rule fired_trans [OF _ rules_fired(8)]
    | rule fired_trans [OF _ rules_fired(7)] | rule fired_trans [OF _ rules_fired(6)] | rule fired_trans [OF _ rules_fired(5)]
    | rule fired_trans [OF _ rules_fired(4)] | rule fired_trans [OF _ rules_fired(3)] | rule fired_trans [OF _ rules_fired(2)]
    | rule rules_fired(1))+

lemma fold_fired: "(\<And>x s. fired srt now s (f x s)) \<Longrightarrow> fired srt now s (fold f xs s)"
proof (induction xs arbitrary: s)
  case (Cons x xs)
  then show ?case using fired_trans [OF Cons.prems Cons.IH] by simp
qed (simp add: fired.stay)

section \<open>Cooldowns\<close>

definition evicted :: "entry_sort \<Rightarrow> nat \<Rightarrow> (string, gotime) gomap \<Rightarrow> string set" where
  "evicted srt n m = fst ` set (take n (srt m))"

lemma fold_delete_filter: "fold (\<lambda>x m. AList.delete (fst x) m) xs m = filter (\<lambda>y. fst y \<notin> fst ` set xs) m"
proof (induction xs arbitrary: m)
  case (Cons x xs)
  have "AList.delete (fst x) m = filter (\<lambda>y. fst y \<noteq> fst x) m" by (induction m) auto
  then show ?case using Cons by (auto simp: conj_commute intro: filter_cong)
qed simp

lemma evictOldest_cooldowns:
  "rg_cooldowns (evictOldest srt n e) = filter (\<lambda>y. fst y \<notin> evicted srt n (rg_cooldowns e)) (rg_cooldowns e)"
  by (auto simp: evictOldest_def fold_delete_filter evicted_def Let_def)

lemma evictOldest_frame [simp]:
  "rg_maxCooldowns (evictOldest srt n e) = rg_maxCooldowns e" "rg_cooldownPeriod (evictOldest srt n e) = rg_cooldownPeriod e"
  by (simp_all add: evictOldest_def Let_def)

definition make_room :: "entry_sort \<Rightarrow> ReasonEngine \<Rightarrow> ReasonEngine" where
  "make_room srt e = (if rg_maxCooldowns e \<le> int (length (rg_cooldowns e)) then evictOldest srt 10 e else e)"

lemma canFire_cases:
  obtains (cooling) t where "map_of (rg_cooldowns e) key = Some t" "time_sub now t < rg_cooldownPeriod e"
      "canFire srt key now e = (False, e)"
  | (fires) "canFire srt key now e = (True, (make_room srt e)\<lparr>
        rg_cooldowns := AList.update key now (rg_cooldowns (make_room srt e)),
        rg_cooldownOrder := rg_cooldownOrder (make_room srt e) @ [key] \<rparr>)"
      "\<And>t. map_of (rg_cooldowns e) key = Some t \<Longrightarrow> \<not> time_sub now t < rg_cooldownPeriod e"
proof (cases "case map_of (rg_cooldowns e) key of None \<Rightarrow> False | Some t \<Rightarrow> time_sub now t < rg_cooldownPeriod e")
  case True
  then show ?thesis using cooling by (auto simp: canFire_def split: option.splits)
next
  case False
  then show ?thesis using fires by (auto simp: canFire_def make_room_def Let_def split: option.splits)
qed

lemma make_room_frame [simp]:
  "rg_maxCooldowns (make_room srt e) = rg_maxCooldowns e" "rg_cooldownPeriod (make_room srt e) = rg_cooldownPeriod e"
  by (simp_all add: make_room_def)

lemma wf_make_room: "wf_gomap (rg_cooldowns e) \<Longrightarrow> wf_gomap (rg_cooldowns (make_room srt e))"
  by (auto simp: make_room_def evictOldest_cooldowns)

lemma canFire_frame [simp]:
  "rg_maxCooldowns (snd (canFire srt key now e)) = rg_maxCooldowns e"
  "rg_cooldownPeriod (snd (canFire srt key now e)) = rg_cooldownPeriod e"
  by (cases rule: canFire_cases [of e key now srt]; simp)+

definition permutes :: "entry_sort \<Rightarrow> bool" where
  "permutes srt \<longleftrightarrow> (\<forall>xs. mset (srt xs) = mset xs)"

lemma make_room_length:
  assumes "permutes srt" "0 < rg_maxCooldowns e" "int (length (rg_cooldowns e)) \<le> rg_maxCooldowns e"
  shows "int (length (rg_cooldowns (make_room srt e))) < rg_maxCooldowns e"
proof (cases "rg_maxCooldowns e \<le> int (length (rg_cooldowns e))")
  case True
  let ?m = "rg_cooldowns e"
  have m: "mset (srt ?m) = mset ?m" "?m \<noteq> []" using assms True by (auto simp: permutes_def)
  then obtain y ys where y: "srt ?m = y # ys" by (metis list.exhaust mset_zero_iff)
  then have "y \<in> set ?m" using m(1) by (metis list.set_intros(1) set_mset_mset)
  moreover have "fst y \<in> evicted srt 10 ?m" by (simp add: evicted_def y)
  ultimately have "length (filter (\<lambda>y. fst y \<notin> evicted srt 10 ?m) ?m) < length ?m"
    by (intro length_filter_less) auto
  then show ?thesis using True assms(3) by (simp add: make_room_def evictOldest_cooldowns)
qed (use assms in \<open>simp add: make_room_def\<close>)

definition cooldowns_ok :: "ReasonEngine \<Rightarrow> bool" where
  "cooldowns_ok e \<longleftrightarrow> wf_gomap (rg_cooldowns e) \<and> 0 < rg_maxCooldowns e \<and>
     int (length (rg_cooldowns e)) \<le> rg_maxCooldowns e"

lemma canFire_ok:
  assumes "permutes srt" "cooldowns_ok e" shows "cooldowns_ok (snd (canFire srt key now e))"
proof (cases rule: canFire_cases [of e key now srt])
  case cooling
  then show ?thesis using assms by simp
next
  case fires
  have upd: "length (AList.update key now m) \<le> Suc (length m)" for m :: "(string, gotime) gomap"
    using length_update [of key now m] by (auto split: if_splits)
  then have "int (length (AList.update key now (rg_cooldowns (make_room srt e)))) \<le> rg_maxCooldowns e"
    using make_room_length [OF assms(1), of e] assms(2) upd [of "rg_cooldowns (make_room srt e)"]
    unfolding cooldowns_ok_def by linarith
  then show ?thesis using assms(2) wf_make_room by (auto simp: fires(1) cooldowns_ok_def)
qed

lemma fired_inv:
  assumes "fired srt now s s'" "permutes srt"
  shows "(list_all (event_ok now) (rs_events s) \<longrightarrow> list_all (event_ok now) (rs_events s')) \<and>
    (cooldowns_ok (rs_engine s) \<longrightarrow> cooldowns_ok (rs_engine s')) \<and>
    rg_maxCooldowns (rs_engine s') = rg_maxCooldowns (rs_engine s)"
  using assms(1)
proof (induction rule: fired.induct)
  case (go s s' ev guard key)
  then show ?case using canFire_ok [OF assms(2), of "rs_engine s'" key "re_Timestamp ev"]
      canFire_frame(1) [of srt key "re_Timestamp ev" "rs_engine s'"]
    by (auto simp: fire_def event_ok_def simp del: canFire_frame split: prod.splits)
qed simp

lemma sorted_events:
  "sorted_wrt (\<lambda>a b. \<not> more_severe b a) (sortBySeverity evs)" "set (sortBySeverity evs) = set evs"
proof -
  show "sorted_wrt (\<lambda>a b. \<not> more_severe b a) (sortBySeverity evs)"
    unfolding sortBySeverity_def by (rule severe.stable_sort_sorted) simp
  show "set (sortBySeverity evs) = set evs" unfolding sortBySeverity_def by (metis set_mset_mset stable_sort_mset)
qed

lemma Analyse_run:
  "\<exists>s. fired srt now \<lparr> rs_engine = e, rs_ids = ids, rs_events = [] \<rparr> s \<and>
     Analyse srt bundles topo obj now e ids = s\<lparr> rs_events := sortBySeverity (rs_events s) \<rparr>"
  unfolding Analyse_def Let_def
  by (rule exI, rule conjI [OF _ refl], intro fired_trans [OF fold_fired fired_trans [OF rules_fired(10) rules_fired(11)]] evalService_fired)

lemma AnalyseWithContext_run:
  "\<exists>s. fired srt now (Analyse srt bundles topo obj now e ids) s \<and>
     AnalyseWithContext srt bundles topo obj netEq ts now e ids = s\<lparr> rs_events := sortBySeverity (rs_events s) \<rparr>"
proof -
  have fold_k: "fired srt now s (fold (keystone_rule srt ts now) bundles s)" for s by (intro fold_fired keystone_fired)
  show ?thesis unfolding AnalyseWithContext_def Let_def
    by (rule exI, rule conjI [OF _ refl], rule fired_trans [OF _ fold_k], rule fired.go, rule fired.go, rule fired.stay) simp_all
qed

lemma AnalyseWithContext_inv:
  assumes "permutes srt" "cooldowns_ok e"
  shows "list_all (event_ok now) (rs_events (AnalyseWithContext srt bundles topo obj netEq ts now e ids)) \<and>
    cooldowns_ok (rs_engine (AnalyseWithContext srt bundles topo obj netEq ts now e ids)) \<and>
    rg_maxCooldowns (rs_engine (AnalyseWithContext srt bundles topo obj netEq ts now e ids)) = rg_maxCooldowns e \<and>
    sorted_wrt (\<lambda>a b. \<not> more_severe b a) (rs_events (AnalyseWithContext srt bundles topo obj netEq ts now e ids))"
proof -
  let ?s0 = "\<lparr> rs_engine = e, rs_ids = ids, rs_events = [] \<rparr>"
  obtain s where s: "fired srt now ?s0 s" "Analyse srt bundles topo obj now e ids = s\<lparr> rs_events := sortBySeverity (rs_events s) \<rparr>"
    using Analyse_run by blast
  obtain s' where s': "fired srt now (Analyse srt bundles topo obj now e ids) s'"
    "AnalyseWithContext srt bundles topo obj netEq ts now e ids = s'\<lparr> rs_events := sortBySeverity (rs_events s') \<rparr>"
    using AnalyseWithContext_run by blast
  show ?thesis using fired_inv [OF s(1) assms(1)] fired_inv [OF s'(1) assms(1)] assms(2) sorted_events
    by (simp add: s(2) s'(2) list_all_iff)
qed

lemma fired_ids:
  "fired srt now s s' \<Longrightarrow> sset (rs_ids s') \<subseteq> sset (rs_ids s) \<and>
     re_ID ` set (rs_events s') \<subseteq> re_ID ` set (rs_events s) \<union> sset (rs_ids s)"
proof (induction rule: fired.induct)
  case (go s s' ev guard key)
  have "shd (rs_ids s') \<in> sset (rs_ids s')" "sset (stl (rs_ids s')) \<subseteq> sset (rs_ids s')"
    by (metis shd_sset) (auto intro: stl_sset)
  then show ?case using go.IH by (auto simp: fire_def split: prod.splits)
qed simp

lemma AnalyseWithContext_ids:
  "re_ID ` set (rs_events (AnalyseWithContext srt bundles topo obj netEq ts now e ids)) \<subseteq> sset ids"
proof -
  let ?s0 = "\<lparr> rs_engine = e, rs_ids = ids, rs_events = [] \<rparr>"
  obtain s where s: "fired srt now ?s0 s" "Analyse srt bundles topo obj now e ids = s\<lparr> rs_events := sortBySeverity (rs_events s) \<rparr>"
    using Analyse_run by blast
  obtain s' where s': "fired srt now (Analyse srt bundles topo obj now e ids) s'"
    "AnalyseWithContext srt bundles topo obj netEq ts now e ids = s'\<lparr> rs_events := sortBySeverity (rs_events s') \<rparr>"
    using AnalyseWithContext_run by blast
  have "re_ID ` set (rs_events s') \<subseteq> re_ID ` set (rs_events s) \<union> sset (rs_ids s)" "re_ID ` set (rs_events s) \<subseteq> sset ids"
    "sset (rs_ids s) \<subseteq> sset ids"
    using fired_ids [OF s(1)] fired_ids [OF s'(1)] by (simp_all add: s(2) sorted_events(2))
  then show ?thesis unfolding s'(2) by (simp add: sorted_events(2)) blast
qed

record analysis_input =
  ai_bundles :: "(string, ServiceModelBundle) gomap"
  ai_topo :: GraphSnapshot
  ai_obj :: ObjectiveScore
  ai_netEq :: NetworkEquilibriumState
  ai_sens :: TopologySensitivity
  ai_pressure :: int
  ai_now :: gotime

definition tick_analysis :: "entry_sort \<Rightarrow> analysis_input \<Rightarrow> reasoning \<Rightarrow> reasoning" where
  \<comment> \<open>one tick: the pressure is set, then the analysis runs\<close>
  "tick_analysis srt i s =
    AnalyseWithContext srt (ai_bundles i) (ai_topo i) (ai_obj i) (ai_netEq i) (ai_sens i) (ai_now i)
      (SetRuntimePressure (ai_pressure i) (rs_engine s)) (rs_ids s)"

definition new_reasoning :: "string stream \<Rightarrow> reasoning" where
  "new_reasoning ids = \<lparr> rs_engine = NewReasonEngine, rs_ids = ids, rs_events = [] \<rparr>"

lemma tick_analysis_ok:
  assumes "permutes srt" "cooldowns_ok (rs_engine s)"
  shows "cooldowns_ok (rs_engine (tick_analysis srt i s)) \<and>
    rg_maxCooldowns (rs_engine (tick_analysis srt i s)) = rg_maxCooldowns (rs_engine s) \<and>
    list_all (event_ok (ai_now i)) (rs_events (tick_analysis srt i s)) \<and>
    sorted_wrt (\<lambda>a b. \<not> more_severe b a) (rs_events (tick_analysis srt i s))"
proof -
  have "cooldowns_ok (SetRuntimePressure l e) = cooldowns_ok e" "rg_maxCooldowns (SetRuntimePressure l e) = rg_maxCooldowns e" for l e
    by (simp_all add: cooldowns_ok_def SetRuntimePressure_def)
  then show ?thesis using AnalyseWithContext_inv [OF assms(1)] assms(2) by (simp add: tick_analysis_def)
qed

lemma tick_analyses_ok:
  assumes "permutes srt"
  shows "cooldowns_ok (rs_engine s) \<Longrightarrow> cooldowns_ok (rs_engine (fold (tick_analysis srt) is' s)) \<and>
    rg_maxCooldowns (rs_engine (fold (tick_analysis srt) is' s)) = rg_maxCooldowns (rs_engine s)"
  by (induction is' arbitrary: s) (use tick_analysis_ok [OF assms] in auto)

text \<open>Whatever the models report over any number of ticks and at any pressure, the rule engine keeps
  at most 500 cooldowns, and every tick returns its events ordered by severity and then by
  priority, stamped with the tick's time and with a priority between 0 and 9.\<close>

theorem analysis_bounded_and_sorted:
  assumes "permutes srt"
  shows "let s = tick_analysis srt i (fold (tick_analysis srt) inputs (new_reasoning ids)) in
    length (rg_cooldowns (rs_engine s)) \<le> 500 \<and>
    sorted_wrt (\<lambda>a b. \<not> more_severe b a) (rs_events s) \<and>
    list_all (\<lambda>ev. re_Timestamp ev = ai_now i \<and> 0 \<le> re_OperationalPriority ev \<and> re_OperationalPriority ev \<le> 9) (rs_events s)"
proof -
  have "cooldowns_ok NewReasonEngine" "rg_maxCooldowns NewReasonEngine = 500"
    by (simp_all add: cooldowns_ok_def NewReasonEngine_def)
  then have "cooldowns_ok (rs_engine (fold (tick_analysis srt) inputs (new_reasoning ids)))"
    "rg_maxCooldowns (rs_engine (fold (tick_analysis srt) inputs (new_reasoning ids))) = 500"
    using tick_analyses_ok [OF assms, of "new_reasoning ids" inputs] by (simp_all add: new_reasoning_def)
  from tick_analysis_ok [OF assms this(1), of i] this(2) show ?thesis
    by (simp add: Let_def cooldowns_ok_def event_ok_def [abs_def])
qed

definition by_stamp :: entry_sort where
  "by_stamp = sort_key snd"

lemma by_stamp_permutes: "permutes by_stamp"
  by (simp add: permutes_def by_stamp_def)

definition quiet_input :: "gotime \<Rightarrow> analysis_input" where
  "quiet_input now =
    \<lparr> ai_bundles = [],
       ai_topo = \<lparr> gs_CapturedAt = 0, gs_Nodes = [], gs_Edges = [], gs_CriticalPath = \<lparr> cr_Nodes = [], cr_TotalWeight = 0, cr_CascadeRisk = 0 \<rparr> \<rparr>,
       ai_obj = \<lparr> os_ComputedAt = 0, os_PredictedP99LatencyMs = 0, os_CascadeFailureProbability = 0, os_WeightedStabilityMargin = 0,
         os_MaxCollapseRisk = 0, os_OscillationRisk = 0, os_CompositeScore = 1, os_LatencyWeight = 0, os_UtilisationWeight = 0,
         os_RiskWeight = 0, os_PredictiveHorizon = 0, os_ReferenceLatencyMs = 0, os_TrendStabilityMargin = 0,
         os_RiskAcceleration = 0, os_TrajectoryScore = 0 \<rparr>,
       ai_netEq = \<lparr> ne_SystemRhoMean = 0, ne_SystemRhoVariance = 0, ne_EquilibriumDelta = 0, ne_IsConverging = True,
         ne_MaxCongestionFeedback = 0, ne_CriticalServiceID = [], ne_NetworkSaturationRisk = 0 \<rparr>,
       ai_sens = \<lparr> ts_ByService = [], ts_SystemFragility = 0, ts_MaxAmplificationPath = [], ts_MaxAmplificationScore = 0 \<rparr>,
       ai_pressure = 0, ai_now = now \<rparr>"

theorem analysis_bounded_and_sorted_witness:
  "let s = tick_analysis by_stamp (quiet_input 1) (fold (tick_analysis by_stamp) [quiet_input 0] (new_reasoning (sconst ''a''))) in
    length (rg_cooldowns (rs_engine s)) \<le> 500 \<and>
    sorted_wrt (\<lambda>a b. \<not> more_severe b a) (rs_events s) \<and>
    list_all (\<lambda>ev. re_Timestamp ev = 1 \<and> 0 \<le> re_OperationalPriority ev \<and> re_OperationalPriority ev \<le> 9) (rs_events s)"
  using analysis_bounded_and_sorted [OF by_stamp_permutes, of "quiet_input 1"] by (simp only: quiet_input_def analysis_input.simps)

section \<open>The order slice grows without bound\<close>

definition hourly :: "nat \<Rightarrow> ReasonEngine \<Rightarrow> ReasonEngine" where
  \<comment> \<open>one rule that fires every hour, the \<open>n\<close>-th time\<close>
  "hourly n e = snd (canFire by_stamp ''obj:critical'' (int n * 3600 * Second) e)"

lemma refire:
  "\<not> time_sub t' t < 30 * Second \<Longrightarrow>
   canFire srt k t' (NewReasonEngine\<lparr> rg_cooldowns := [(k, t)], rg_cooldownOrder := ord \<rparr>) =
   (True, NewReasonEngine\<lparr> rg_cooldowns := [(k, t')], rg_cooldownOrder := ord @ [k] \<rparr>)"
  by (simp add: canFire_def NewReasonEngine_def)

text \<open>The slice \<open>cooldownOrder\<close> is appended to whenever a rule fires and only rebuilt by an
  eviction, which the size of the map triggers: a single rule that keeps firing leaves one
  cooldown and one slice element per firing.\<close>

theorem cooldown_order_grows:
  "length (rg_cooldowns (fold hourly [0..<Suc n] NewReasonEngine)) = 1 \<and>
   length (rg_cooldownOrder (fold hourly [0..<Suc n] NewReasonEngine)) = Suc n"
proof -
  have "\<exists>ord. fold hourly [0..<Suc n] NewReasonEngine =
      NewReasonEngine\<lparr> rg_cooldowns := [(''obj:critical'', int n * 3600 * Second)], rg_cooldownOrder := ord \<rparr> \<and> length ord = Suc n" for n
  proof (induction n)
    case 0
    then show ?case by (simp add: hourly_def canFire_def NewReasonEngine_def)
  next
    case (Suc n)
    then obtain ord where IH: "fold hourly [0..<Suc n] NewReasonEngine =
        NewReasonEngine\<lparr> rg_cooldowns := [(''obj:critical'', int n * 3600 * Second)], rg_cooldownOrder := ord \<rparr>" "length ord = Suc n"
      by blast
    have "\<not> time_sub (int (Suc n) * 3600 * Second) (int n * 3600 * Second) < 30 * Second"
      by (simp add: time_sub_def sat_i64_def Second_def minI64_def maxI64_def algebra_simps)
    note refire [OF this, of by_stamp "''obj:critical''" ord]
    moreover have "fold hourly [0..<Suc (Suc n)] NewReasonEngine = hourly (Suc n) (fold hourly [0..<Suc n] NewReasonEngine)"
      by simp
    ultimately have "fold hourly [0..<Suc (Suc n)] NewReasonEngine =
        NewReasonEngine\<lparr> rg_cooldowns := [(''obj:critical'', int (Suc n) * 3600 * Second)], rg_cooldownOrder := ord @ [''obj:critical''] \<rparr>"
      by (simp only: IH(1) hourly_def snd_conv)
    then show ?case using IH(2) by (intro exI [of _ "ord @ [''obj:critical'']"]) simp
  qed
  then obtain ord where "fold hourly [0..<Suc n] NewReasonEngine =
      NewReasonEngine\<lparr> rg_cooldowns := [(''obj:critical'', int n * 3600 * Second)], rg_cooldownOrder := ord \<rparr>" "length ord = Suc n"
    by blast
  then show ?thesis by (simp del: fold.simps upt_Suc)
qed

section \<open>A cooldown is respected\<close>

definition sorts_stamps :: "entry_sort \<Rightarrow> bool" where
  \<comment> \<open>what \<open>sort.Slice\<close> promises of the entries\<close>
  "sorts_stamps srt \<longleftrightarrow> (\<forall>xs. mset (srt xs) = mset xs \<and> sorted_wrt (\<lambda>a b. snd a \<le> snd b) (srt xs))"

definition recent :: "gotime \<Rightarrow> (string, gotime) gomap \<Rightarrow> nat" where
  "recent t m = length (filter (\<lambda>x. t \<le> snd x) m)"

lemma recent_not_evicted:
  assumes "sorts_stamps srt" "wf_gomap m" "map_of m key = Some t" "recent t m + 10 \<le> length m"
  shows "key \<notin> evicted srt 10 m"
proof
  assume "key \<in> evicted srt 10 m"
  then obtain v where v: "(key, v) \<in> set (take 10 (srt m))" by (auto simp: evicted_def)
  have ms: "mset (srt m) = mset m" and so: "sorted_wrt (\<lambda>a b. snd a \<le> snd b) (srt m)"
    using assms(1) by (auto simp: sorts_stamps_def)
  have "(key, v) \<in> set m" using v ms by (metis in_set_takeD set_mset_mset)
  then have vt: "v = t" using assms(2, 3) wf_gomap_map_of_iff by (metis option.inject)
  have "\<forall>y \<in> set (drop 10 (srt m)). t \<le> snd y"
    using so v vt by (metis append_take_drop_id snd_conv sorted_wrt_append)
  then have "filter (\<lambda>x. t \<le> snd x) (drop 10 (srt m)) = drop 10 (srt m)" by (intro filter_True) auto
  moreover have "filter (\<lambda>x. t \<le> snd x) (take 10 (srt m)) \<noteq> []" using v vt by (force simp: filter_empty_conv)
  moreover have "filter (\<lambda>x. t \<le> snd x) (srt m) =
      filter (\<lambda>x. t \<le> snd x) (take 10 (srt m)) @ filter (\<lambda>x. t \<le> snd x) (drop 10 (srt m))"
    by (metis append_take_drop_id filter_append)
  ultimately have "length (filter (\<lambda>x. t \<le> snd x) (srt m)) \<ge> 1 + (length (srt m) - 10)"
    by (cases "filter (\<lambda>x. t \<le> snd x) (take 10 (srt m))") auto
  moreover have "length (filter (\<lambda>x. t \<le> snd x) (srt m)) = recent t m"
    unfolding recent_def using ms by (metis mset_filter size_mset)
  moreover have "length (srt m) = length m" using ms by (metis size_mset)
  ultimately show False using assms(4) by linarith
qed

definition cooling :: "string \<Rightarrow> gotime \<Rightarrow> nat \<Rightarrow> ReasonEngine \<Rightarrow> bool" where
  "cooling key t n e \<longleftrightarrow> wf_gomap (rg_cooldowns e) \<and> map_of (rg_cooldowns e) key = Some t \<and>
     int (recent t (rg_cooldowns e) + n + 10) \<le> rg_maxCooldowns e"

lemma recent_update: "recent t (AList.update k v m) \<le> Suc (recent t m)"
  unfolding recent_def by (induction m) auto

lemma recent_filter: "recent t (filter P m) \<le> recent t m"
  unfolding recent_def by (induction m) auto

lemma cooling_step:
  assumes "sorts_stamps srt" "cooling key t (Suc n) e" "k = key \<longrightarrow> time_sub now t < rg_cooldownPeriod e"
  shows "cooling key t n (snd (canFire srt k now e))"
proof (cases rule: canFire_cases [of e k now srt])
  case cooling
  then show ?thesis using assms(2) by (simp add: cooling_def)
next
  case fires
  let ?m = "rg_cooldowns e"
  have c: "wf_gomap ?m" "map_of ?m key = Some t" "int (recent t ?m + n + 11) \<le> rg_maxCooldowns e"
    using assms(2) by (auto simp: cooling_def)
  have k: "k \<noteq> key" using fires(2) c(2) assms(3) by blast
  have room: "map_of (rg_cooldowns (make_room srt e)) key = Some t \<and> recent t (rg_cooldowns (make_room srt e)) \<le> recent t ?m"
  proof (cases "rg_maxCooldowns e \<le> int (length ?m)")
    case True
    then have "key \<notin> evicted srt 10 ?m" using c by (intro recent_not_evicted [OF assms(1)]) auto
    then show ?thesis using True c(2) recent_filter
      by (simp add: make_room_def evictOldest_cooldowns map_of_filter [OF c(1)])
  qed (use c in \<open>simp add: make_room_def\<close>)
  have "recent t (AList.update k now (rg_cooldowns (make_room srt e))) \<le> Suc (recent t ?m)"
    using recent_update le_trans room by (metis Suc_le_mono)
  then have "int (recent t (AList.update k now (rg_cooldowns (make_room srt e))) + n + 10) \<le> rg_maxCooldowns e"
    using c(3) by linarith
  then show ?thesis using room k wf_make_room [OF c(1)] by (simp add: cooling_def fires(1))
qed

lemma cooling_run:
  assumes "sorts_stamps srt"
  shows "cooling key t (length calls) e \<Longrightarrow>
    list_all (\<lambda>c. fst c = key \<longrightarrow> time_sub (snd c) t < rg_cooldownPeriod e) calls \<Longrightarrow>
    cooling key t 0 (fold (\<lambda>c e. snd (canFire srt (fst c) (snd c) e)) calls e) \<and>
    rg_cooldownPeriod (fold (\<lambda>c e. snd (canFire srt (fst c) (snd c) e)) calls e) = rg_cooldownPeriod e"
proof (induction calls arbitrary: e)
  case (Cons c calls)
  have "cooling key t (length calls) (snd (canFire srt (fst c) (snd c) e))"
    using Cons.prems by (intro cooling_step [OF assms]) auto
  from Cons.IH [OF this] Cons.prems(2) show ?case by simp
qed simp

text \<open>C36: A rule that fired does not fire again before its cooldown is over, as long as the cooldowns
  taken since then leave ten entries of the limit free: the eviction, which drops the ten oldest
  entries when the map is full, cannot reach it, however ties between equal times are sorted.\<close>

theorem cooldown_respected:
  assumes "sorts_stamps srt" "wf_gomap (rg_cooldowns e)" "canFire srt key t e = (True, e1)"
    and "int (recent t (rg_cooldowns e) + length calls + 11) \<le> rg_maxCooldowns e"
    and "list_all (\<lambda>c. snd c \<le> now) calls" "time_sub now t < rg_cooldownPeriod e"
  shows "\<not> fst (canFire srt key now (fold (\<lambda>c e. snd (canFire srt (fst c) (snd c) e)) calls e1))"
proof -
  have e1: "e1 = (make_room srt e)\<lparr> rg_cooldowns := AList.update key t (rg_cooldowns (make_room srt e)),
      rg_cooldownOrder := rg_cooldownOrder (make_room srt e) @ [key] \<rparr>"
    using assms(3) by (cases rule: canFire_cases [of e key t srt]) auto
  have "recent t (rg_cooldowns (make_room srt e)) \<le> recent t (rg_cooldowns e)"
    by (simp add: make_room_def evictOldest_cooldowns recent_filter)
  then have "recent t (rg_cooldowns e1) \<le> Suc (recent t (rg_cooldowns e))"
    using recent_update [of t key t "rg_cooldowns (make_room srt e)"] by (simp add: e1)
  then have "cooling key t (length calls) e1"
    using assms(2, 4) wf_make_room by (simp add: cooling_def e1)
  moreover have "time_sub (snd c) t < rg_cooldownPeriod e" if "c \<in> set calls" for c
    using that assms(5, 6) time_sub_mono [of "snd c" now t] by (auto simp: list_all_iff)
  then have "list_all (\<lambda>c. fst c = key \<longrightarrow> time_sub (snd c) t < rg_cooldownPeriod e1) calls"
    by (simp add: list_all_iff e1)
  ultimately show ?thesis using cooling_run [OF assms(1)] assms(6)
    by (fastforce simp: cooling_def canFire_def e1)
qed

lemma by_stamp_sorts: "sorts_stamps by_stamp"
  using sorted_sort_key [of "snd :: string \<times> gotime \<Rightarrow> gotime"] by (simp add: sorts_stamps_def by_stamp_def sorted_map)

theorem cooldown_respected_witness:
  "\<not> fst (canFire by_stamp ''a'' (20 * Second)
     (fold (\<lambda>c e. snd (canFire by_stamp (fst c) (snd c) e)) [(''b'', 10 * Second), (''a'', 15 * Second)]
        (snd (canFire by_stamp ''a'' 0 NewReasonEngine))))"
proof (rule cooldown_respected [where e = NewReasonEngine and t = 0])
  show "canFire by_stamp ''a'' 0 NewReasonEngine = (True, snd (canFire by_stamp ''a'' 0 NewReasonEngine))"
    by (simp add: canFire_def NewReasonEngine_def)
qed (simp_all add: by_stamp_sorts NewReasonEngine_def recent_def Second_def time_sub_def sat_i64_def minI64_def maxI64_def)

end
