(* ===== verification/RuntimeControl.thy ===== *)
theory RuntimeControl
  imports Reasoning StabilityModel
begin

text \<open>
  \<open>internal/runtime/control.go\<close> and the parts of \<open>orchestrator.go\<close> and \<open>phase_runtime.go\<close> that
  decide when ticks run and what the operator controls: the switches of the control plane, the
  acknowledged alerts, the adaptive interval, the pressure and safety levels, the risk queue,
  the heat map and the stability envelope, and the loop \<open>Run\<close> against \<open>StepOnce\<close>.

  Tick counters are \<open>uint64\<close>.  A nil receiver is \<open>None\<close>.  Every operation is one access under
  its mutex or one atomic access, so it is atomic; \<open>loop_step\<close> interleaves the two callers of a
  tick.
\<close>

section \<open>Controls of the phase runtime\<close>

type_synonym tick = "64 word"

record PhaseControls =
  pc_policyPreset :: string
  pc_forceSandboxUntil :: tick
  pc_forceIntelligenceUntil :: tick

definition newPhaseControls :: PhaseControls where
  "newPhaseControls = \<lparr> pc_policyPreset = ''balanced'', pc_forceSandboxUntil = 0, pc_forceIntelligenceUntil = 0 \<rparr>"

definition normalisePolicyPreset :: "string \<Rightarrow> string" where
  "normalisePolicyPreset preset =
    (let p = to_lower (trim_space preset) in
     if p \<in> {''latency'', ''fast''} then ''latency''
     else if p \<in> {''stability'', ''conservative'', ''safe''} then ''stability''
     else if p \<in> {''cost'', ''efficient''} then ''cost''
     else if p = ''aggressive'' then ''aggressive'' else ''balanced'')"

definition set_preset :: "string \<Rightarrow> PhaseControls \<Rightarrow> string \<times> PhaseControls" where
  "set_preset preset p = (let n = normalisePolicyPreset preset in (n, p\<lparr> pc_policyPreset := n \<rparr>))"

definition PolicyPreset :: "PhaseControls \<Rightarrow> string" where
  "PolicyPreset p = (if pc_policyPreset p = [] then ''balanced'' else pc_policyPreset p)"

definition sandboxForced :: "tick \<Rightarrow> PhaseControls \<Rightarrow> bool" where
  "sandboxForced t p \<longleftrightarrow> 0 < pc_forceSandboxUntil p \<and> t \<le> pc_forceSandboxUntil p"

definition intelligenceForced :: "tick \<Rightarrow> PhaseControls \<Rightarrow> bool" where
  "intelligenceForced t p \<longleftrightarrow> 0 < pc_forceIntelligenceUntil p \<and> t \<le> pc_forceIntelligenceUntil p"

section \<open>The control plane\<close>

record ControlPlane =
  cp_publicTick :: tick
  cp_actuation :: bool
  cp_forceSimulationUntil :: tick
  cp_resetRequested :: bool
  cp_acked :: "(string, gotime) gomap"
  cp_phase :: "PhaseControls option"

definition SetActuationEnabled :: "bool \<Rightarrow> ControlPlane option \<Rightarrow> bool \<times> ControlPlane option" where
  "SetActuationEnabled b o' =
    (case o' of None \<Rightarrow> (False, None) | Some c \<Rightarrow> (b, Some (c\<lparr> cp_actuation := b \<rparr>)))"

definition ToggleActuation :: "ControlPlane option \<Rightarrow> bool \<times> ControlPlane option" where
  \<comment> \<open>the loop retries until its compare-and-swap succeeds, which is one atomic negation\<close>
  "ToggleActuation o' =
    (case o' of None \<Rightarrow> (False, None)
     | Some c \<Rightarrow> (\<not> cp_actuation c, Some (c\<lparr> cp_actuation := \<not> cp_actuation c \<rparr>)))"

definition ActuationEnabled :: "ControlPlane option \<Rightarrow> bool" where
  "ActuationEnabled o' = (case o' of None \<Rightarrow> False | Some c \<Rightarrow> cp_actuation c)"

definition SetPolicyPreset :: "string \<Rightarrow> ControlPlane option \<Rightarrow> string \<times> ControlPlane option" where
  "SetPolicyPreset preset o' =
    (case o' of None \<Rightarrow> (''balanced'', None)
     | Some c \<Rightarrow> (case cp_phase c of None \<Rightarrow> (''balanced'', o')
       | Some p \<Rightarrow> (case set_preset preset p of (n, p) \<Rightarrow> (n, Some (c\<lparr> cp_phase := Some p \<rparr>)))))"

definition untilTick :: "tick \<Rightarrow> ControlPlane \<Rightarrow> tick" where
  "untilTick d c = cp_publicTick c + (if d = 0 then 1 else d)"

definition ForceSandbox :: "tick \<Rightarrow> ControlPlane option \<Rightarrow> tick \<times> ControlPlane option" where
  "ForceSandbox d o' =
    (case o' of None \<Rightarrow> (0, None)
     | Some c \<Rightarrow> (case cp_phase c of None \<Rightarrow> (0, o')
       | Some p \<Rightarrow> let u = untilTick d c in (u, Some (c\<lparr> cp_phase := Some (p\<lparr> pc_forceSandboxUntil := u \<rparr>) \<rparr>))))"

definition ForceIntelligenceRollout :: "tick \<Rightarrow> ControlPlane option \<Rightarrow> tick \<times> ControlPlane option" where
  "ForceIntelligenceRollout d o' =
    (case o' of None \<Rightarrow> (0, None)
     | Some c \<Rightarrow> (case cp_phase c of None \<Rightarrow> (0, o')
       | Some p \<Rightarrow> let u = untilTick d c in (u, Some (c\<lparr> cp_phase := Some (p\<lparr> pc_forceIntelligenceUntil := u \<rparr>) \<rparr>))))"

definition ForceSimulation :: "tick \<Rightarrow> ControlPlane option \<Rightarrow> tick \<times> ControlPlane option" where
  "ForceSimulation d o' =
    (case o' of None \<Rightarrow> (0, None)
     | Some c \<Rightarrow> let u = (if d = 0 then 0 else untilTick d c) in (u, Some (c\<lparr> cp_forceSimulationUntil := u \<rparr>)))"

definition RequestSimulationReset :: "ControlPlane option \<Rightarrow> ControlPlane option" where
  "RequestSimulationReset o' = map_option (\<lambda>c. c\<lparr> cp_resetRequested := True \<rparr>) o'"

definition consumeSimulationReset :: "ControlPlane option \<Rightarrow> bool \<times> ControlPlane option" where
  "consumeSimulationReset o' =
    (case o' of None \<Rightarrow> (False, None) | Some c \<Rightarrow> (cp_resetRequested c, Some (c\<lparr> cp_resetRequested := False \<rparr>)))"

definition isSimulationForcedAt :: "tick \<Rightarrow> ControlPlane option \<Rightarrow> bool" where
  "isSimulationForcedAt t o' =
    (case o' of None \<Rightarrow> False | Some c \<Rightarrow> 0 < cp_forceSimulationUntil c \<and> t \<le> cp_forceSimulationUntil c)"

definition acknowledgedAlertCount :: "ControlPlane option \<Rightarrow> nat" where
  "acknowledgedAlertCount o' = (case o' of None \<Rightarrow> 0 | Some c \<Rightarrow> length (cp_acked c))"

definition AcknowledgeAlert :: "string \<Rightarrow> gotime \<Rightarrow> ControlPlane option \<Rightarrow> (nat \<times> bool) \<times> ControlPlane option" where
  "AcknowledgeAlert alertID now o' =
    (case o' of None \<Rightarrow> ((0, False), None)
     | Some c \<Rightarrow>
         let a = trim_space alertID
         in if a = [] then ((acknowledgedAlertCount o', False), o')
            else let m = AList.update a now (cp_acked c) in ((length m, True), Some (c\<lparr> cp_acked := m \<rparr>)))"

definition filterAcknowledgedEvents :: "ReasonEvent list \<Rightarrow> ControlPlane option \<Rightarrow> ReasonEvent list" where
  "filterAcknowledgedEvents events o' =
    (case o' of None \<Rightarrow> events
     | Some c \<Rightarrow>
         if events = [] \<or> acknowledgedAlertCount o' = 0 then events
         else filter (\<lambda>e. re_ID e = [] \<or> map_of (cp_acked c) (re_ID e) = None) events)"

record ControlPlaneState =
  cs_Tick :: tick
  cs_ActuationEnabled :: bool
  cs_PolicyPreset :: string
  cs_ForcedSandboxUntil :: tick
  cs_ForcedSimulationUntil :: tick
  cs_ForcedIntelligenceUntil :: tick
  cs_SimulationResetPending :: bool
  cs_AcknowledgedAlertCount :: nat

definition ControlState :: "ControlPlane option \<Rightarrow> ControlPlaneState" where
  "ControlState o' =
    (case o' of
       None \<Rightarrow> \<lparr> cs_Tick = 0, cs_ActuationEnabled = False, cs_PolicyPreset = [], cs_ForcedSandboxUntil = 0,
         cs_ForcedSimulationUntil = 0, cs_ForcedIntelligenceUntil = 0, cs_SimulationResetPending = False,
         cs_AcknowledgedAlertCount = 0 \<rparr>
     | Some c \<Rightarrow>
         let preset = (case cp_phase c of None \<Rightarrow> [] | Some p \<Rightarrow> PolicyPreset p)
         in \<lparr> cs_Tick = cp_publicTick c, cs_ActuationEnabled = cp_actuation c,
              cs_PolicyPreset = (if preset = [] then ''balanced'' else preset),
              cs_ForcedSandboxUntil = (case cp_phase c of None \<Rightarrow> 0 | Some p \<Rightarrow> pc_forceSandboxUntil p),
              cs_ForcedSimulationUntil = cp_forceSimulationUntil c,
              cs_ForcedIntelligenceUntil = (case cp_phase c of None \<Rightarrow> 0 | Some p \<Rightarrow> pc_forceIntelligenceUntil p),
              cs_SimulationResetPending = cp_resetRequested c, cs_AcknowledgedAlertCount = acknowledgedAlertCount o' \<rparr>)"

section \<open>The cadence\<close>

record TickConfig =
  tc_TickInterval :: duration
  tc_TickDeadline :: duration
  tc_MinTickInterval :: duration
  tc_MaxTickInterval :: duration
  tc_TickAdaptStep :: f64
  tc_SafetyModeThreshold :: int

record Cadence =
  cd_currentInterval :: duration
  cd_stableTickCount :: int
  cd_consecutiveOverruns :: int
  cd_totalOverruns :: int
  cd_safetyLevel :: int
  cd_safetyMode :: bool
  cd_pressureLevel :: int
  cd_tickCount :: tick
  cd_stageEWMA :: "f64 list"
  cd_stageEWMATrend :: "f64 list"

text \<open>The nine stages; the six critical ones are at the indices 0 to 5.\<close>

definition numStageMetrics :: nat where
  "numStageMetrics = 9"

definition forecast :: "Cadence \<Rightarrow> f64" where
  \<comment> \<open>the predicted cost of the critical stages in three ticks, at least zero\<close>
  "forecast c =
    (let stage = (\<lambda>i. cd_stageEWMA c ! i + fl 3 * cd_stageEWMATrend c ! i);
         p = stage 0 + stage 1 + stage 2 + stage 3 + stage 4 + stage 5
     in if p < 0 then 0 else p)"

definition record_stage :: "nat \<Rightarrow> duration \<Rightarrow> Cadence \<Rightarrow> Cadence" where
  \<comment> \<open>\<open>1 - \<alpha>\<close> is a constant expression\<close>
  "record_stage i elapsed c =
    (let elapsedMs = f64_of_int (quot elapsed 1000) / fl 1000;
         prev = cd_stageEWMA c ! i;
         e = fl 0.10 * elapsedMs + fl 0.90 * prev;
         rawTrend = e - prev
     in c\<lparr> cd_stageEWMA := (cd_stageEWMA c)[i := e],
           cd_stageEWMATrend := (cd_stageEWMATrend c)[i := fl 0.05 * rawTrend + fl 0.95 * cd_stageEWMATrend c ! i] \<rparr>)"

definition stretch :: "f64 \<Rightarrow> duration \<Rightarrow> Cadence \<Rightarrow> Cadence" where
  "stretch factor maxI c =
    (let s = duration_of_f64 (f64_of_int (cd_currentInterval c) * factor);
         s = (if maxI < s then maxI else s)
     in c\<lparr> cd_currentInterval := s, cd_stableTickCount := 0 \<rparr>)"

definition contract :: "f64 \<Rightarrow> duration \<Rightarrow> duration \<Rightarrow> Cadence \<Rightarrow> Cadence" where
  "contract adaptStep nominal minI c =
    (let c = c\<lparr> cd_stableTickCount := cd_stableTickCount c + 1 \<rparr>
     in if nominal < cd_currentInterval c
        then let excess = f64_of_int (cd_currentInterval c - nominal);
                 n = nominal + duration_of_f64 (excess / adaptStep);
                 n = (if n < nominal then nominal else n);
                 n = (if n < minI then minI else n);
                 c = c\<lparr> cd_currentInterval := n \<rparr>
             in if n = nominal then c\<lparr> cd_stableTickCount := 0 \<rparr> else c
        else c)"

definition adapt_step_of :: "TickConfig \<Rightarrow> f64" where
  "adapt_step_of cfg = (if tc_TickAdaptStep cfg \<le> 1 then fl 1.25 else tc_TickAdaptStep cfg)"

definition min_interval :: "TickConfig \<Rightarrow> duration" where
  "min_interval cfg = (if tc_MinTickInterval cfg \<le> 0 then tc_TickInterval cfg else tc_MinTickInterval cfg)"

definition max_interval :: "TickConfig \<Rightarrow> duration" where
  "max_interval cfg =
    (if tc_MaxTickInterval cfg \<le> 0 \<or> tc_MaxTickInterval cfg < tc_TickInterval cfg then tc_TickInterval cfg * 5
     else tc_MaxTickInterval cfg)"

definition adaptInterval :: "TickConfig \<Rightarrow> bool \<Rightarrow> Cadence \<Rightarrow> Cadence" where
  \<comment> \<open>\<open>hasServices\<close> is the answer of \<open>store.HasServices\<close>\<close>
  "adaptInterval cfg hasServices c =
    (let deadlineMs = f64_of_int (duration_Milliseconds (tc_TickDeadline cfg));
         proactive = (deadlineMs * fl 0.85 < forecast c \<and> cd_currentInterval c = tc_TickInterval cfg \<and>
           cd_consecutiveOverruns c = 0 \<and> 10 < cd_tickCount c \<and> \<not> hasServices)
     in if 2 \<le> cd_consecutiveOverruns c then stretch (adapt_step_of cfg) (max_interval cfg) c
        else if proactive then stretch (math_Sqrt (adapt_step_of cfg)) (max_interval cfg) c
        else contract (adapt_step_of cfg) (tc_TickInterval cfg) (min_interval cfg) c)"

section \<open>The end of a tick\<close>

definition escalate :: "TickConfig \<Rightarrow> Cadence \<Rightarrow> Cadence" where
  "escalate cfg c =
    (let c = c\<lparr> cd_consecutiveOverruns := cd_consecutiveOverruns c + 1, cd_totalOverruns := cd_totalOverruns c + 1 \<rparr>;
         threshold = (if tc_SafetyModeThreshold cfg \<le> 0 then 3 else tc_SafetyModeThreshold cfg);
         n = quot (cd_consecutiveOverruns c) threshold;
         n = (if 3 < n then 3 else n)
     in if cd_safetyLevel c < n then c\<lparr> cd_safetyLevel := n, cd_safetyMode := (2 \<le> n) \<rparr> else c)"

definition de_escalate :: "Cadence \<Rightarrow> Cadence" where
  "de_escalate c =
    (let c = (if 0 < cd_consecutiveOverruns c then c\<lparr> cd_consecutiveOverruns := cd_consecutiveOverruns c - 1 \<rparr> else c)
     in if 0 < cd_safetyLevel c \<and> cd_consecutiveOverruns c = 0 \<and> 0 < cd_stableTickCount c \<and> remt (cd_stableTickCount c) 5 = 0
        then c\<lparr> cd_safetyLevel := cd_safetyLevel c - 1, cd_safetyMode := (2 \<le> cd_safetyLevel c - 1) \<rparr> else c)"

definition end_tick :: "TickConfig \<Rightarrow> duration \<Rightarrow> Cadence \<Rightarrow> Cadence" where
  "end_tick cfg elapsed c = (if tc_TickDeadline cfg < elapsed then escalate cfg c else de_escalate c)"

section \<open>Pressure\<close>

definition overrunPressure :: "int \<Rightarrow> int" where
  "overrunPressure n = (if 3 \<le> n then 3 else if n = 2 then 2 else if n = 1 then 1 else 0)"

definition band_pressure :: "f64 \<Rightarrow> f64 \<Rightarrow> f64 \<Rightarrow> int" where
  \<comment> \<open>the switches on jitter, staleness and degraded fraction: high above \<open>hi\<close>, elevated above \<open>lo\<close>\<close>
  "band_pressure lo hi x = (if hi < x then 2 else if lo < x then 1 else 0)"

definition new_pressure :: "TickConfig \<Rightarrow> f64 \<Rightarrow> f64 \<Rightarrow> f64 \<Rightarrow> Cadence \<Rightarrow> int" where
  "new_pressure cfg jitterMs staleness degradedFraction c =
    (let jitterRatio = jitterMs / f64_of_int (duration_Milliseconds (tc_TickInterval cfg))
     in fold (\<lambda>p n. if n < p then p else n)
          [band_pressure (fl 0.25) (fl 0.50) jitterRatio, band_pressure (fl 0.50) (fl 0.70) staleness,
           band_pressure (fl 0.50) (fl 0.80) degradedFraction] (overrunPressure (cd_consecutiveOverruns c)))"

definition system_staleness :: "f64 list \<Rightarrow> f64" where
  \<comment> \<open>from the confidence scores of the observed windows\<close>
  "system_staleness confs =
    (if confs \<noteq> [] then 1 - fold (\<lambda>x s. s + x) confs 0 / f64_of_int (int (length confs)) else 0)"

definition degraded_fraction :: "int list \<Rightarrow> f64" where
  \<comment> \<open>from the sample counts of the observed windows\<close>
  "degraded_fraction samples =
    (if samples \<noteq> [] then f64_of_int (int (length (filter (\<lambda>n. n < 3) samples))) / f64_of_int (int (length samples)) else 0)"

definition pressureToSimMultiplier :: "int \<Rightarrow> f64" where
  "pressureToSimMultiplier level =
    (if level = 1 then fl 0.75 else if level = 2 then fl 0.50 else if level = 3 then fl 0.25 else 1)"

definition analysis_window :: "int \<Rightarrow> int \<Rightarrow> f64 \<Rightarrow> int" where
  \<comment> \<open>the pressure-scaled window depth, for at least one observed window\<close>
  "analysis_window windowN pressure staleness =
    (if 1 \<le> pressure
     then let minScale = (if 2 \<le> pressure then fl 0.50 else fl 0.75);
              scale = 1 - staleness;
              scale = (if scale < minScale then minScale else scale);
              scaled = int_of_f64 (f64_of_int windowN * scale);
              scaled = (if scaled < 3 then 3 else scaled)
          in if scaled < windowN then scaled else windowN
     else windowN)"

record stage_gates =
  sg_skipSim :: bool
  sg_skipPredDiff :: bool
  sg_skipPersist :: bool

definition optional_stages :: "bool \<Rightarrow> bool \<Rightarrow> f64 \<Rightarrow> Cadence \<Rightarrow> stage_gates" where
  "optional_stages pastDeadline forcedSimulation staleness c =
    (if forcedSimulation
     then \<lparr> sg_skipSim = False, sg_skipPredDiff = False, sg_skipPersist = (pastDeadline \<and> 0 < cd_consecutiveOverruns c) \<rparr>
     else \<lparr> sg_skipSim = (pastDeadline \<or> 2 \<le> cd_pressureLevel c \<or> fl 0.5 < staleness),
            sg_skipPredDiff = (pastDeadline \<or> 1 \<le> cd_pressureLevel c),
            sg_skipPersist = (pastDeadline \<and> 0 < cd_consecutiveOverruns c) \<rparr>)"

section \<open>Risk queue, heat map and stability envelope\<close>

record RiskQueueItem =
  rq_ServiceID :: string
  rq_UrgencyScore :: f64
  rq_CollapseRisk :: f64
  rq_Rho :: f64
  rq_IsKeystone :: bool
  rq_PathCollapseProb :: f64
  rq_UrgencyClass :: string

fun sift_by :: "('a \<Rightarrow> 'a \<Rightarrow> bool) \<Rightarrow> 'a list \<Rightarrow> nat \<Rightarrow> 'a list" where
  \<comment> \<open>the inner loop of an insertion sort by swaps\<close>
  "sift_by lt v 0 = v"
| "sift_by lt v (Suc j) = (if lt (v ! Suc j) (v ! j) then sift_by lt (swap v (Suc j) j) j else v)"

definition swap_sort :: "('a \<Rightarrow> 'a \<Rightarrow> bool) \<Rightarrow> 'a list \<Rightarrow> 'a list" where
  "swap_sort lt v = fold (\<lambda>i v. sift_by lt v i) [1..<length v] v"

definition more_urgent :: "RiskQueueItem \<Rightarrow> RiskQueueItem \<Rightarrow> bool" where
  "more_urgent a b \<longleftrightarrow> rq_UrgencyScore b < rq_UrgencyScore a"

definition risk_item ::
  "TopologySensitivity \<Rightarrow> (string, NetworkCoupling) gomap \<Rightarrow> string \<times> ServiceModelBundle \<Rightarrow> RiskQueueItem" where
  "risk_item sens coupling x =
    (let b = snd x;
         key = (case map_of (ts_ByService sens) (fst x) of None \<Rightarrow> False | Some ss \<Rightarrow> ss_IsKeystone ss);
         path = (case map_of coupling (fst x) of None \<Rightarrow> 0 | Some nc \<Rightarrow> nc_PathCollapseProb nc);
         baseRisk = sa_CollapseRisk (mb_Stability b);
         baseRisk = (if baseRisk < path then path else baseRisk);
         urgency = baseRisk * (1 + sa_StabilityDerivative (mb_Stability b) * fl 10);
         urgency = (if key then urgency * fl 1.3 else urgency);
         urgency = (if 1 < urgency then 1 else urgency)
     in \<lparr> rq_ServiceID = fst x, rq_UrgencyScore = urgency, rq_CollapseRisk = sa_CollapseRisk (mb_Stability b),
          rq_Rho = qm_Utilisation (mb_Queue b), rq_IsKeystone = key, rq_PathCollapseProb = path,
          rq_UrgencyClass = (if fl 0.70 \<le> urgency then ''critical'' else if fl 0.40 \<le> urgency then ''warning''
             else if fl 0.15 \<le> urgency then ''elevated'' else ''nominal'') \<rparr>)"

definition buildRiskQueue ::
  "(string, ServiceModelBundle) gomap \<Rightarrow> TopologySensitivity \<Rightarrow> (string, NetworkCoupling) gomap \<Rightarrow> RiskQueueItem list" where
  "buildRiskQueue bundles sens coupling = swap_sort more_urgent (map (risk_item sens coupling) bundles)"

definition heat :: "(string, NetworkCoupling) gomap \<Rightarrow> string \<times> ServiceModelBundle \<Rightarrow> f64" where
  "heat coupling x =
    (let b = snd x;
         ep = (case map_of coupling (fst x) of None \<Rightarrow> 0
               | Some nc \<Rightarrow> if 1 < nc_EffectivePressure nc then 1 else nc_EffectivePressure nc);
         dRisk = (sa_StabilityDerivative (mb_Stability b) + fl 0.1) / fl 0.2;
         dRisk = (if dRisk < 0 then 0 else dRisk);
         dRisk = (if 1 < dRisk then 1 else dRisk);
         pressure = fl 0.5 * qm_Utilisation (mb_Queue b) + fl 0.3 * ep + fl 0.2 * dRisk
     in if 1 < pressure then 1 else pressure)"

definition buildPressureHeatmap ::
  "(string, ServiceModelBundle) gomap \<Rightarrow> (string, NetworkCoupling) gomap \<Rightarrow> (string, f64) gomap" where
  "buildPressureHeatmap bundles coupling = map (\<lambda>x. (fst x, heat coupling x)) bundles"

record StabilityEnvelope =
  sv_SafeSystemRhoMax :: f64
  sv_CurrentSystemRhoMean :: f64
  sv_EnvelopeHeadroom :: f64
  sv_MostVulnerableService :: string
  sv_WorstPerturbationDelta :: f64

definition buildStabilityEnvelope ::
  "FixedPointResult \<Rightarrow> NetworkEquilibriumState \<Rightarrow> (string, f64) gomap \<Rightarrow> StabilityEnvelope" where
  "buildStabilityEnvelope fp eq sens =
    (let cr = fp_ConvergenceRate fp;
         cr = (if cr \<le> 0 \<or> math_IsNaN cr then 1 else cr);
         safeMax = 1 - (cr * fl 0.15 + fp_SystemicCollapseProb fp * fl 0.10);
         safeMax = (if safeMax < fl 0.40 then fl 0.40 else safeMax);
         safeMax = (if fl 0.90 < safeMax then fl 0.90 else safeMax);
         worst = fold (\<lambda>x acc. if snd acc < snd x then x else acc) sens ([], 0)
     in \<lparr> sv_SafeSystemRhoMax = safeMax, sv_CurrentSystemRhoMean = ne_SystemRhoMean eq,
          sv_EnvelopeHeadroom = safeMax - ne_SystemRhoMean eq, sv_MostVulnerableService = fst worst,
          sv_WorstPerturbationDelta = snd worst \<rparr>)"

section \<open>The tick loop\<close>

datatype run_pc = RunIdle | RunWaiting | RunTicking
datatype step_result = TickDone | TickInFlight

record tick_loop =
  tl_run :: run_pc
  tl_timer :: bool
  tl_stepping :: bool
  tl_inFlight :: bool
  tl_reentrant :: nat
  tl_processed :: nat
  tl_results :: "step_result list"

text \<open>\<open>Run\<close> arms its timer when it starts and again after each of its own ticks; a timer that fires
  is disarmed.  \<open>StepOnce\<close> comes from the API at any time.\<close>

inductive loop_step :: "tick_loop \<Rightarrow> tick_loop \<Rightarrow> bool" where
  start: "tl_run s = RunIdle \<Longrightarrow> loop_step s (s\<lparr> tl_run := RunWaiting, tl_timer := True \<rparr>)"
| shutdown: "tl_run s = RunWaiting \<Longrightarrow> loop_step s (s\<lparr> tl_run := RunIdle, tl_timer := False \<rparr>)"
| fire: "tl_run s = RunWaiting \<Longrightarrow> tl_timer s \<Longrightarrow> \<not> tl_inFlight s \<Longrightarrow>
    loop_step s (s\<lparr> tl_run := RunTicking, tl_timer := False, tl_inFlight := True \<rparr>)"
| busy: "tl_run s = RunWaiting \<Longrightarrow> tl_timer s \<Longrightarrow> tl_inFlight s \<Longrightarrow>
    loop_step s (s\<lparr> tl_timer := False, tl_reentrant := tl_reentrant s + 1 \<rparr>)"
| tick_end: "tl_run s = RunTicking \<Longrightarrow>
    loop_step s (s\<lparr> tl_run := RunWaiting, tl_timer := True, tl_inFlight := False, tl_processed := tl_processed s + 1 \<rparr>)"
| step_begin: "\<not> tl_inFlight s \<Longrightarrow> loop_step s (s\<lparr> tl_stepping := True, tl_inFlight := True \<rparr>)"
| step_refused: "tl_inFlight s \<Longrightarrow>
    loop_step s (s\<lparr> tl_reentrant := tl_reentrant s + 1, tl_results := tl_results s @ [TickInFlight] \<rparr>)"
| step_end: "tl_stepping s \<Longrightarrow>
    loop_step s (s\<lparr> tl_stepping := False, tl_inFlight := False, tl_processed := tl_processed s + 1,
                    tl_results := tl_results s @ [TickDone] \<rparr>)"

definition new_loop :: tick_loop where
  "new_loop = \<lparr> tl_run = RunIdle, tl_timer = False, tl_stepping = False, tl_inFlight = False, tl_reentrant = 0,
     tl_processed = 0, tl_results = [] \<rparr>"

section \<open>One tick at a time, and the lost timer\<close>

definition loop_ok :: "tick_loop \<Rightarrow> bool" where
  "loop_ok s \<longleftrightarrow> tl_inFlight s = (tl_run s = RunTicking \<or> tl_stepping s) \<and>
     \<not> (tl_run s = RunTicking \<and> tl_stepping s) \<and> (tl_timer s \<longrightarrow> tl_run s = RunWaiting)"

lemma loop_step_ok: "loop_step s s' \<Longrightarrow> loop_ok s \<Longrightarrow> loop_ok s'"
  by (induction rule: loop_step.induct) (auto simp: loop_ok_def)

lemma loop_reach_ok: "loop_step\<^sup>*\<^sup>* new_loop s \<Longrightarrow> loop_ok s"
  by (induction rule: rtranclp_induct) (auto simp: loop_ok_def new_loop_def dest: loop_step_ok)

text \<open>C12: In every interleaving of the tick loop and calls of StepOnce at most one of them is inside a tick,
  and the in-flight flag is set exactly then.\<close>

theorem ticks_exclusive:
  assumes "loop_step\<^sup>*\<^sup>* new_loop s"
  shows "\<not> (tl_run s = RunTicking \<and> tl_stepping s) \<and> tl_inFlight s = (tl_run s = RunTicking \<or> tl_stepping s)"
  using loop_reach_ok [OF assms] by (simp add: loop_ok_def)

definition started :: tick_loop where
  "started = new_loop\<lparr> tl_run := RunWaiting, tl_timer := True \<rparr>"

lemma started_reach: "loop_step\<^sup>*\<^sup>* new_loop started"
  unfolding started_def by (intro r_into_rtranclp loop_step.start) (simp add: new_loop_def)

theorem ticks_exclusive_witness:
  "\<not> (tl_run (started\<lparr> tl_stepping := True, tl_inFlight := True \<rparr>) = RunTicking \<and>
      tl_stepping (started\<lparr> tl_stepping := True, tl_inFlight := True \<rparr>)) \<and>
   tl_inFlight (started\<lparr> tl_stepping := True, tl_inFlight := True \<rparr>) =
     (tl_run (started\<lparr> tl_stepping := True, tl_inFlight := True \<rparr>) = RunTicking \<or>
      tl_stepping (started\<lparr> tl_stepping := True, tl_inFlight := True \<rparr>))"
proof (rule ticks_exclusive)
  have "loop_step started (started\<lparr> tl_stepping := True, tl_inFlight := True \<rparr>)"
    by (rule loop_step.step_begin) (simp add: started_def new_loop_def)
  then show "loop_step\<^sup>*\<^sup>* new_loop (started\<lparr> tl_stepping := True, tl_inFlight := True \<rparr>)"
    using started_reach by (rule rtranclp.rtrancl_into_rtrancl [rotated])
qed

text \<open>The timer is not armed again when it fires during a step of the API: from then on the loop waits
  on a timer that never fires.\<close>

definition stalled :: "tick_loop \<Rightarrow> bool" where
  "stalled s \<longleftrightarrow> tl_run s = RunWaiting \<and> \<not> tl_timer s"

lemma stalled_step: "loop_step s s' \<Longrightarrow> stalled s \<Longrightarrow> stalled s' \<or> tl_run s' = RunIdle"
  by (induction rule: loop_step.induct) (auto simp: stalled_def)

definition lost_timer :: tick_loop where
  "lost_timer = \<lparr> tl_run = RunWaiting, tl_timer = False, tl_stepping = False, tl_inFlight = False, tl_reentrant = 1,
     tl_processed = 1, tl_results = [TickDone] \<rparr>"

lemma lost_timer_reach: "loop_step\<^sup>*\<^sup>* new_loop lost_timer"
proof -
  let ?a = "started\<lparr> tl_stepping := True, tl_inFlight := True \<rparr>"
  have "loop_step started ?a" by (rule loop_step.step_begin) (simp add: started_def new_loop_def)
  moreover have "loop_step ?a (?a\<lparr> tl_timer := False, tl_reentrant := 1 \<rparr>)"
    using loop_step.busy [of ?a] by (simp add: started_def new_loop_def)
  moreover have "loop_step (?a\<lparr> tl_timer := False, tl_reentrant := 1 \<rparr>) lost_timer"
    using loop_step.step_end [of "?a\<lparr> tl_timer := False, tl_reentrant := 1 \<rparr>"]
    by (simp add: started_def new_loop_def lost_timer_def)
  ultimately show ?thesis using started_reach by (meson rtranclp.rtrancl_into_rtrancl)
qed

inductive running_step :: "tick_loop \<Rightarrow> tick_loop \<Rightarrow> bool" where
  \<comment> \<open>any step but the shutdown of the loop\<close>
  "loop_step s s' \<Longrightarrow> tl_run s' \<noteq> RunIdle \<Longrightarrow> running_step s s'"

lemma stalled_forever: "running_step\<^sup>*\<^sup>* s s' \<Longrightarrow> stalled s \<Longrightarrow> stalled s'"
  by (induction rule: rtranclp_induct) (auto elim!: running_step.cases dest: stalled_step)

text \<open>C13: One StepOnce that overlaps a firing of the timer stops the engine: the state in which the step
  has ended and nothing is in flight is reachable, and from it, until the loop is shut down, the
  loop never runs a tick again.\<close>

theorem overlapping_step_stops_engine:
  assumes "running_step\<^sup>*\<^sup>* lost_timer s"
  shows "loop_step\<^sup>*\<^sup>* new_loop lost_timer \<and> \<not> tl_inFlight lost_timer \<and> tl_run s = RunWaiting \<and> \<not> tl_timer s"
proof -
  have "stalled lost_timer" by (simp add: stalled_def lost_timer_def)
  from stalled_forever [OF assms this] show ?thesis
    using lost_timer_reach by (simp add: stalled_def lost_timer_def)
qed

theorem overlapping_step_stops_engine_witness:
  "tl_run (lost_timer\<lparr> tl_stepping := True, tl_inFlight := True \<rparr>) = RunWaiting \<and>
   \<not> tl_timer (lost_timer\<lparr> tl_stepping := True, tl_inFlight := True \<rparr>)"
proof -
  have "running_step lost_timer (lost_timer\<lparr> tl_stepping := True, tl_inFlight := True \<rparr>)"
    by (intro running_step.intros loop_step.step_begin) (simp_all add: lost_timer_def)
  from overlapping_step_stops_engine [OF r_into_rtranclp [of running_step, OF this]] show ?thesis by simp
qed

section \<open>The adaptive interval\<close>

definition cadence_cfg :: "TickConfig \<Rightarrow> bool" where
  "cadence_cfg cfg \<longleftrightarrow> 0 < tc_TickInterval cfg \<and> min_interval cfg \<le> tc_TickInterval cfg \<and>
     max_interval cfg \<le> 2 ^ 46 \<and> fbtw (101 / 100) (adapt_step_of cfg) 100"

definition interval_ok :: "TickConfig \<Rightarrow> Cadence \<Rightarrow> bool" where
  "interval_ok cfg c \<longleftrightarrow> tc_TickInterval cfg \<le> cd_currentInterval c \<and> cd_currentInterval c \<le> max_interval cfg"

lemma max_ge_nominal: "0 < tc_TickInterval cfg \<Longrightarrow> tc_TickInterval cfg \<le> max_interval cfg"
  by (auto simp: max_interval_def)

lemma stretch_ok:
  assumes "cadence_cfg cfg" "interval_ok cfg c" "fbtw 1 factor 100"
  shows "interval_ok cfg (stretch factor (max_interval cfg) c)"
proof -
  let ?i = "cd_currentInterval c"
  have i: "0 < ?i" "?i \<le> 2 ^ 46" using assms by (auto simp: cadence_cfg_def interval_ok_def)
  then have f: "f64_of_int ?i = Fin (of_int ?i)" by (intro f64_of_int_small) auto
  have "fbtw (of_int ?i) (f64_of_int ?i * factor) (of_int (?i * 100))"
    using i assms(3) by (intro fbtw_mult [where a = "of_int ?i" and b = "of_int ?i" and c = 1 and d = 100] fbound_of_int) (auto simp: f)
  then have "?i \<le> int_of_f64 (f64_of_int ?i * factor)"
    using i int_of_f64_btw [of ?i _ "?i * 100"] by (auto simp: maxI64_def)
  then show ?thesis using assms(2)
    by (auto simp: stretch_def Let_def interval_ok_def duration_of_f64_def max_ge_nominal)
qed

lemma sqrt_factor: "fbtw (101 / 100) x 100 \<Longrightarrow> fbtw 1 (math_Sqrt x) 100"
proof -
  assume "fbtw (101 / 100) x 100"
  then obtain r where r: "x = Fin r" "101 / 100 \<le> r" "r \<le> 100" by (rule fbtwE)
  have "1 \<le> sqrt r" using r by simp
  moreover have "sqrt r \<le> 100" using r by (intro real_le_lsqrt) auto
  ultimately show ?thesis using r by (auto intro!: fbtw_fl)
qed

lemma excess_shrinks:
  assumes "fbtw (101 / 100) st 100" "0 < e" "e \<le> 2 ^ 46"
  shows "0 \<le> int_of_f64 (f64_of_int e / st) \<and> int_of_f64 (f64_of_int e / st) < e"
proof -
  obtain a where a: "st = Fin a" "101 / 100 \<le> a" "a \<le> 100" using assms(1) by (rule fbtwE)
  have fe: "f64_of_int e = Fin (of_int e)" using assms by (intro f64_of_int_small) auto
  have "frep (of_int (e * 127) * 2 powi (- 7))" using assms by (intro frepI [where m = "e * 127" and e = "- 7"]) auto
  then have fr: "frep (of_int e * (127 / 128) :: real)" by (simp add: power_int_minus)
  have e: "(0::real) < of_int e" "of_int e \<le> (2::real) ^ 46"
    using assms of_int_le_iff [of e "2 ^ 46", where ?'a = real] by (auto simp del: of_int_le_iff)
  have "of_int e / a \<le> of_int e / (101 / 100 :: real)" using a e by (intro divide_left_mono) auto
  also have "\<dots> \<le> of_int e * (127 / 128)" using e by simp
  finally have up: "of_int e / a \<le> of_int e * (127 / 128 :: real)" .
  have "(2::real) ^ 46 \<le> big" unfolding big_def by (rule power_increasing) auto
  then have b: "of_int e * (127 / 128 :: real) \<le> big" using e by linarith
  have "fbtw 0 (f64_of_int e / st) (of_int e * (127 / 128))"
    using a e up fr b by (auto simp: fe fbound_def intro!: fbtw_fl)
  then obtain r where r: "f64_of_int e / st = Fin r" "0 \<le> r" "r \<le> of_int e * (127 / 128)" by (rule fbtwE)
  have "trunc_real r = \<lfloor>r\<rfloor>" "0 \<le> \<lfloor>r\<rfloor>" using r(2) by (simp_all add: trunc_real_def)
  moreover have "\<lfloor>r\<rfloor> < e" using r(3) e by (simp add: floor_less_iff)
  moreover have "minI64 \<le> \<lfloor>r\<rfloor> \<and> \<lfloor>r\<rfloor> \<le> maxI64"
  proof -
    have "(2 :: int) ^ 46 \<le> maxI64" "minI64 \<le> 0" by (simp_all add: minI64_def maxI64_def)
    then show ?thesis using calculation(2, 3) assms(3) by linarith
  qed
  ultimately show ?thesis by (simp add: r(1) Let_def)
qed

lemma contract_ok:
  assumes "cadence_cfg cfg" "interval_ok cfg c"
  shows "interval_ok cfg (contract (adapt_step_of cfg) (tc_TickInterval cfg) (min_interval cfg) c) \<and>
    cd_currentInterval (contract (adapt_step_of cfg) (tc_TickInterval cfg) (min_interval cfg) c)
      \<le> max (tc_TickInterval cfg) (cd_currentInterval c - 1)"
proof -
  let ?n = "tc_TickInterval cfg" and ?i = "cd_currentInterval c"
  have "0 \<le> int_of_f64 (f64_of_int (?i - ?n) / adapt_step_of cfg) \<and>
      int_of_f64 (f64_of_int (?i - ?n) / adapt_step_of cfg) < ?i - ?n" if "?n < ?i"
    using assms that by (intro excess_shrinks) (auto simp: cadence_cfg_def interval_ok_def)
  then show ?thesis using assms
    by (auto simp: contract_def Let_def interval_ok_def cadence_cfg_def duration_of_f64_def)
qed

lemma adaptInterval_ok:
  assumes "cadence_cfg cfg" "interval_ok cfg c" shows "interval_ok cfg (adaptInterval cfg h c)"
proof -
  have f: "fbtw (101 / 100) (adapt_step_of cfg) 100" using assms(1) by (simp add: cadence_cfg_def)
  then have "fbtw 1 (adapt_step_of cfg) 100" by (rule fbtw_weaken) auto
  then show ?thesis unfolding adaptInterval_def Let_def
    using stretch_ok [OF assms] sqrt_factor [OF f] contract_ok [OF assms] by simp
qed

definition safety_ok :: "Cadence \<Rightarrow> bool" where
  "safety_ok c \<longleftrightarrow> 0 \<le> cd_consecutiveOverruns c \<and> 0 \<le> cd_safetyLevel c \<and> cd_safetyLevel c \<le> 3 \<and>
     cd_safetyMode c = (2 \<le> cd_safetyLevel c)"

lemma end_tick_ok: "safety_ok c \<Longrightarrow> safety_ok (end_tick cfg d c)"
  by (auto simp: safety_ok_def end_tick_def escalate_def de_escalate_def Let_def)

lemma end_tick_interval [simp]: "cd_currentInterval (end_tick cfg d c) = cd_currentInterval c"
  by (simp add: end_tick_def escalate_def de_escalate_def Let_def)

lemma adapt_safety: "safety_ok (adaptInterval cfg h c) = safety_ok c"
  by (auto simp: adaptInterval_def stretch_def contract_def Let_def safety_ok_def)

definition new_cadence :: "TickConfig \<Rightarrow> Cadence" where
  "new_cadence cfg = \<lparr> cd_currentInterval = tc_TickInterval cfg, cd_stableTickCount = 0, cd_consecutiveOverruns = 0,
     cd_totalOverruns = 0, cd_safetyLevel = 0, cd_safetyMode = False, cd_pressureLevel = 0, cd_tickCount = 0,
     cd_stageEWMA = replicate numStageMetrics 0, cd_stageEWMATrend = replicate numStageMetrics 0 \<rparr>"

definition cadence_tick :: "TickConfig \<Rightarrow> duration \<times> bool \<Rightarrow> Cadence \<Rightarrow> Cadence" where
  \<comment> \<open>what \<open>executeTick\<close> does to the cadence: a tick of some duration, then \<open>adaptInterval\<close>\<close>
  "cadence_tick cfg x c = adaptInterval cfg (snd x) (end_tick cfg (fst x) (c\<lparr> cd_tickCount := cd_tickCount c + 1 \<rparr>))"

lemma cadence_tick_ok:
  assumes "cadence_cfg cfg" "interval_ok cfg c" "safety_ok c"
  shows "interval_ok cfg (cadence_tick cfg x c) \<and> safety_ok (cadence_tick cfg x c)"
proof -
  let ?c = "end_tick cfg (fst x) (c\<lparr> cd_tickCount := cd_tickCount c + 1 \<rparr>)"
  have "safety_ok (c\<lparr> cd_tickCount := t \<rparr>)" for t using assms(3) by (simp add: safety_ok_def)
  then have "safety_ok ?c" by (rule end_tick_ok)
  moreover have "interval_ok cfg ?c" using assms(2) by (simp add: interval_ok_def)
  ultimately show ?thesis using adaptInterval_ok [OF assms(1)] by (simp add: cadence_tick_def adapt_safety)
qed

text \<open>However long the ticks take, the tick interval stays between the configured interval and the
  maximum, the safety level stays between 0 and 3, and the safety mode is on exactly at level 2
  and above.\<close>

theorem cadence_bounded:
  assumes "cadence_cfg cfg"
  shows "let c = fold (cadence_tick cfg) ticks (new_cadence cfg) in
    tc_TickInterval cfg \<le> cd_currentInterval c \<and> cd_currentInterval c \<le> max_interval cfg \<and>
    0 \<le> cd_safetyLevel c \<and> cd_safetyLevel c \<le> 3 \<and> cd_safetyMode c = (2 \<le> cd_safetyLevel c)"
proof -
  have "interval_ok cfg c \<Longrightarrow> safety_ok c \<Longrightarrow>
      interval_ok cfg (fold (cadence_tick cfg) ticks c) \<and> safety_ok (fold (cadence_tick cfg) ticks c)" for c
    by (induction ticks arbitrary: c) (use cadence_tick_ok [OF assms] in auto)
  moreover have "interval_ok cfg (new_cadence cfg)" "safety_ok (new_cadence cfg)"
    using assms max_ge_nominal by (auto simp: interval_ok_def safety_ok_def new_cadence_def cadence_cfg_def)
  ultimately show ?thesis by (simp add: Let_def interval_ok_def safety_ok_def)
qed

definition default_config :: TickConfig where
  "default_config = \<lparr> tc_TickInterval = 2 * Second, tc_TickDeadline = 1800 * Millisecond, tc_MinTickInterval = Second,
     tc_MaxTickInterval = 10 * Second, tc_TickAdaptStep = fl 1.25, tc_SafetyModeThreshold = 3 \<rparr>"

lemma default_config_ok: "cadence_cfg default_config"
proof -
  have "fl (5 / 4) = Fin (5 / 4)" by (intro fl_frep frep_quarter) (auto intro: order_trans [OF _ big_ge(3)] simp: big_def)
  then show ?thesis
    by (simp add: cadence_cfg_def default_config_def min_interval_def max_interval_def adapt_step_of_def Second_def one_f64_def)
qed

theorem cadence_bounded_witness:
  "let c = fold (cadence_tick default_config) [(3 * Second, True), (3 * Second, True), (Second, True)] (new_cadence default_config) in
    tc_TickInterval default_config \<le> cd_currentInterval c \<and> cd_currentInterval c \<le> max_interval default_config \<and>
    0 \<le> cd_safetyLevel c \<and> cd_safetyLevel c \<le> 3 \<and> cd_safetyMode c = (2 \<le> cd_safetyLevel c)"
  by (rule cadence_bounded [OF default_config_ok])

lemma quiet_tick:
  assumes "cadence_cfg cfg" "interval_ok cfg c" "cd_consecutiveOverruns c < 2"
  shows "interval_ok cfg (adaptInterval cfg True c) \<and> cd_consecutiveOverruns (adaptInterval cfg True c) < 2 \<and>
    cd_currentInterval (adaptInterval cfg True c) \<le> max (tc_TickInterval cfg) (cd_currentInterval c - 1)"
proof -
  have "adaptInterval cfg True c = contract (adapt_step_of cfg) (tc_TickInterval cfg) (min_interval cfg) c"
    using assms(3) by (simp add: adaptInterval_def)
  moreover have "cd_consecutiveOverruns (contract s n m c) = cd_consecutiveOverruns c" for s n m
    by (simp add: contract_def Let_def)
  ultimately show ?thesis using contract_ok [OF assms(1, 2)] assms(3) by simp
qed

text \<open>Once ticks are quiet a stretched interval contracts all the way back to the configured interval and
  stays there: every quiet tick takes at least one nanosecond off, so this takes at most as many
  ticks as the excess has nanoseconds.\<close>

theorem interval_recovers:
  assumes "cadence_cfg cfg" "tc_TickInterval cfg \<le> cd_currentInterval c" "cd_currentInterval c \<le> max_interval cfg"
    and "cd_consecutiveOverruns c < 2" "nat (cd_currentInterval c - tc_TickInterval cfg) \<le> n"
  shows "cd_currentInterval ((adaptInterval cfg True ^^ n) c) = tc_TickInterval cfg"
proof -
  let ?i = "tc_TickInterval cfg"
  have "interval_ok cfg ((adaptInterval cfg True ^^ n) c) \<and> cd_consecutiveOverruns ((adaptInterval cfg True ^^ n) c) < 2 \<and>
      cd_currentInterval ((adaptInterval cfg True ^^ n) c) \<le> max ?i (cd_currentInterval c - int n)" for n
  proof (induction n)
    case (Suc n)
    then show ?case using quiet_tick [OF assms(1), of "(adaptInterval cfg True ^^ n) c"] by auto
  qed (use assms in \<open>simp add: interval_ok_def\<close>)
  from this [of n] assms(5) show ?thesis by (auto simp: interval_ok_def)
qed

theorem interval_recovers_witness:
  "cd_currentInterval ((adaptInterval default_config True ^^ 500000000)
     ((new_cadence default_config)\<lparr> cd_currentInterval := 2500 * Millisecond \<rparr>)) = 2 * Second"
  using interval_recovers [OF default_config_ok, of "(new_cadence default_config)\<lparr> cd_currentInterval := 2500 * Millisecond \<rparr>" 500000000]
  by (simp add: default_config_def new_cadence_def Second_def Millisecond_def max_interval_def del: funpow.simps)

section \<open>Acknowledged alerts\<close>

lemma stake_sdrop_disjoint: "inj (snth ids) \<Longrightarrow> set (stake k ids) \<inter> sset (sdrop k ids) = {}"
proof -
  assume "inj (snth ids)"
  then have "i = k + j" if "ids !! i = ids !! (k + j)" for i j using that by (rule injD)
  then show ?thesis by (fastforce simp: in_set_conv_nth sset_range sdrop_snth)
qed

text \<open>Acknowledging an alert never suppresses anything: events get fresh identifiers in every tick, the
  acknowledged identifiers are those of earlier events, so the filter returns every event of a
  tick, also of the rule whose event was acknowledged.\<close>

theorem acknowledgement_never_matches:
  assumes "inj (snth ids)" "rs_ids s = sdrop k ids" "fst ` set (cp_acked c) \<subseteq> set (stake k ids)"
  shows "filterAcknowledgedEvents (rs_events (tick_analysis srt i s)) (Some c) = rs_events (tick_analysis srt i s)"
proof -
  have "re_ID ` set (rs_events (tick_analysis srt i s)) \<subseteq> sset (sdrop k ids)"
    using AnalyseWithContext_ids assms(2) by (simp add: tick_analysis_def)
  then have "map_of (cp_acked c) (re_ID e) = None" if "e \<in> set (rs_events (tick_analysis srt i s))" for e
    using that assms(3) stake_sdrop_disjoint [OF assms(1), of k] by (auto simp: map_of_eq_None_iff)
  then show ?thesis by (auto simp: filterAcknowledgedEvents_def filter_id_conv)
qed

definition unary_ids :: "string stream" where
  "unary_ids = smap (\<lambda>n. replicate n CHR ''0'') (fromN 1)"

definition acked_plane :: ControlPlane where
  "acked_plane = \<lparr> cp_publicTick = 1, cp_actuation = True, cp_forceSimulationUntil = 0, cp_resetRequested = False,
     cp_acked = [(''0'', 0)], cp_phase = None \<rparr>"

theorem acknowledgement_never_matches_witness:
  "filterAcknowledgedEvents
     (rs_events (tick_analysis by_stamp (quiet_input (60 * Second)) (tick_analysis by_stamp (quiet_input 0) (new_reasoning unary_ids))))
     (Some acked_plane) =
   rs_events (tick_analysis by_stamp (quiet_input (60 * Second)) (tick_analysis by_stamp (quiet_input 0) (new_reasoning unary_ids)))"
proof (rule acknowledgement_never_matches [where k = 1 and ids = unary_ids])
  show "inj (snth unary_ids)" by (auto intro!: injI simp: unary_ids_def dest: replicate_eq_replicate [THEN iffD1])
  show "fst ` set (cp_acked acked_plane) \<subseteq> set (stake 1 unary_ids)" by (simp add: acked_plane_def unary_ids_def)
  have "fbtw 0 (fl (4 / 5)) (7 / 8)" "fbtw 0 (fl (13 / 20)) 1"
    using fbound_div_pow2 [of 7 3] by (auto intro!: fbtw_fl)
  then have "fl (4 / 5) < 1" "\<not> fl (13 / 20) < 0" by (auto elim!: fbtwE simp: one_f64_def zero_f64_def)
  then show "rs_ids (tick_analysis by_stamp (quiet_input 0) (new_reasoning unary_ids)) = sdrop 1 unary_ids"
    by (simp add: tick_analysis_def AnalyseWithContext_def Analyse_def quiet_input_def new_reasoning_def evalTopology_def
        evalObjective_def fire_def canFire_def NewReasonEngine_def SetRuntimePressure_def mk_event_def Let_def)
qed

section \<open>The risk queue\<close>

lemma sift_by_insert:
  "\<exists>ps qs. xs = ps @ qs \<and> sift_by lt (xs @ x # ys) (length xs) = ps @ x # qs @ ys \<and>
     (\<forall>q \<in> set qs. lt x q) \<and> (ps \<noteq> [] \<longrightarrow> \<not> lt x (last ps))"
proof (induction xs arbitrary: ys rule: rev_induct)
  case (snoc y xs)
  have at: "(xs @ [y] @ x # ys) ! Suc (length xs) = x" "(xs @ [y] @ x # ys) ! length xs = y" by (simp_all add: nth_append)
  show ?case
  proof (cases "lt x y")
    case True
    have "swap (xs @ [y] @ x # ys) (Suc (length xs)) (length xs) = xs @ x # y # ys"
      by (simp add: swap_def list_update_append nth_append)
    then have step: "sift_by lt ((xs @ [y]) @ x # ys) (length (xs @ [y])) = sift_by lt (xs @ x # y # ys) (length xs)"
      using True at by simp
    obtain ps qs where "xs = ps @ qs" "sift_by lt (xs @ x # y # ys) (length xs) = ps @ x # qs @ y # ys"
      "\<forall>q \<in> set qs. lt x q" "ps \<noteq> [] \<longrightarrow> \<not> lt x (last ps)"
      using snoc.IH [of "y # ys"] by blast
    then show ?thesis using True unfolding step by (intro exI [of _ ps] exI [of _ "qs @ [y]"]) auto
  next
    case False
    then show ?thesis using at by (intro exI [of _ "xs @ [y]"] exI [of _ "[]"]) simp
  qed
qed simp

context heap_order begin

lemma sift_by_sorted:
  assumes "sorted_wrt (\<lambda>a b. \<not> lt b a) xs" "\<forall>y \<in> set xs. valid y" "valid x"
  shows "\<exists>zs. sift_by lt (xs @ x # ys) (length xs) = zs @ ys \<and> sorted_wrt (\<lambda>a b. \<not> lt b a) zs \<and> mset zs = add_mset x (mset xs)"
proof -
  obtain ps qs where p: "xs = ps @ qs" "sift_by lt (xs @ x # ys) (length xs) = ps @ x # qs @ ys"
    "\<forall>q \<in> set qs. lt x q" "ps \<noteq> [] \<longrightarrow> \<not> lt x (last ps)"
    using sift_by_insert [of xs lt x ys] by blast
  have right: "\<not> lt q x" if "q \<in> set qs" for q using asym [of x q] p(1, 3) assms(2, 3) that by auto
  have left: "\<not> lt x a" if a: "a \<in> set ps" for a
  proof (cases ps rule: rev_cases)
    case (snoc ps' l)
    have l: "\<not> lt x l" using p(4) snoc by simp
    show ?thesis
    proof (cases "a = l")
      case False
      then have "\<not> lt l a" using assms(1) p(1) a snoc by (auto simp: sorted_wrt_append)
      then show ?thesis using trans_not [of a l x] l p(1) assms(2, 3) a snoc by auto
    qed (use l in simp)
  qed (use a in simp)
  show ?thesis using p assms(1) left right by (intro exI [of _ "ps @ x # qs"]) (auto simp: sorted_wrt_append)
qed

lemma swap_sort_sorted:
  assumes "\<forall>y \<in> set v. valid y"
  shows "sorted_wrt (\<lambda>a b. \<not> lt b a) (swap_sort lt v) \<and> mset (swap_sort lt v) = mset v"
proof -
  have step: "n < length v \<Longrightarrow> \<exists>zs. fold (\<lambda>i v. sift_by lt v i) [1..<Suc n] v = zs @ drop (Suc n) v \<and>
      sorted_wrt (\<lambda>a b. \<not> lt b a) zs \<and> mset zs = mset (take (Suc n) v)" for n
  proof (induction n)
    case 0
    then show ?case by (cases v) auto
  next
    case (Suc n)
    then obtain zs where z: "fold (\<lambda>i v. sift_by lt v i) [1..<Suc n] v = zs @ drop (Suc n) v"
      "sorted_wrt (\<lambda>a b. \<not> lt b a) zs" "mset zs = mset (take (Suc n) v)" by auto
    have len: "length zs = Suc n" using z(3) Suc.prems by (metis length_take less_or_eq_imp_le min.absorb2 size_mset)
    have "set zs \<subseteq> set v" using z(3) by (metis set_mset_mset set_take_subset)
    moreover have d: "drop (Suc n) v = v ! Suc n # drop (Suc (Suc n)) v" using Suc.prems by (simp add: Cons_nth_drop_Suc)
    ultimately obtain ws where "sift_by lt (zs @ v ! Suc n # drop (Suc (Suc n)) v) (length zs) = ws @ drop (Suc (Suc n)) v"
      "sorted_wrt (\<lambda>a b. \<not> lt b a) ws" "mset ws = add_mset (v ! Suc n) (mset zs)"
      using sift_by_sorted [OF z(2), of "v ! Suc n" "drop (Suc (Suc n)) v"] assms Suc.prems by (meson nth_mem subset_iff)
    moreover have "fold (\<lambda>i v. sift_by lt v i) [1..<Suc (Suc n)] v = sift_by lt (zs @ drop (Suc n) v) (Suc n)"
      by (simp add: z(1) [symmetric] del: sift_by.simps)
    ultimately show ?case using z(3) len d Suc.prems
      by (intro exI [of _ ws]) (simp add: take_Suc_conv_app_nth del: sift_by.simps upt_Suc)
  qed
  show ?thesis
  proof (cases v)
    case (Cons a as)
    have "[1..<length v] = [1..<Suc (length v - 1)]" using Cons by simp
    then show ?thesis using step [of "length v - 1"] Cons unfolding swap_sort_def by fastforce
  qed (simp add: swap_sort_def)
qed

end

interpretation urgent: heap_order more_urgent "\<lambda>x. rq_UrgencyScore x \<noteq> NaN"
proof
  show "\<not> more_urgent b a" if "rq_UrgencyScore a \<noteq> NaN" "rq_UrgencyScore b \<noteq> NaN" "more_urgent a b" for a b
    using that by (cases "rq_UrgencyScore a"; cases "rq_UrgencyScore b") (auto simp: more_urgent_def)
  show "\<not> more_urgent c a" if "rq_UrgencyScore a \<noteq> NaN" "rq_UrgencyScore b \<noteq> NaN" "rq_UrgencyScore c \<noteq> NaN"
    "\<not> more_urgent b a" "\<not> more_urgent c b" for a b c
    using that by (cases "rq_UrgencyScore a"; cases "rq_UrgencyScore b"; cases "rq_UrgencyScore c") (auto simp: more_urgent_def)
qed

text \<open>The priority queue of the dashboard ranks exactly the services of the tick, most urgent first,
  whenever no urgency is NaN.\<close>

theorem risk_queue_ranked:
  assumes "list_all (\<lambda>x. rq_UrgencyScore (risk_item sens coupling x) \<noteq> NaN) bundles"
  shows "sorted_wrt (\<lambda>a b. \<not> more_urgent b a) (buildRiskQueue bundles sens coupling) \<and>
    mset (map rq_ServiceID (buildRiskQueue bundles sens coupling)) = mset (map fst bundles)"
proof -
  have s: "sorted_wrt (\<lambda>a b. \<not> more_urgent b a) (buildRiskQueue bundles sens coupling) \<and>
      mset (buildRiskQueue bundles sens coupling) = mset (map (risk_item sens coupling) bundles)"
    unfolding buildRiskQueue_def using assms by (intro urgent.swap_sort_sorted) (auto simp: list_all_iff)
  then have "image_mset rq_ServiceID (mset (buildRiskQueue bundles sens coupling)) =
      image_mset (\<lambda>x. rq_ServiceID (risk_item sens coupling x)) (mset bundles)" by (simp add: image_mset.compositionality comp_def)
  then show ?thesis using s by (simp add: risk_item_def Let_def)
qed

end
