(* ===== verification/IntelMath.thy ===== *)
theory IntelMath
  imports FloatSign "HOL-Library.Stream"
begin

text \<open>
  \<open>internal/intelligence/shared_math.go\<close> and the vector helpers of
  \<open>adaptive_signal_learner.go\<close>: scalars, vectors (lists) and matrices (lists of rows).  Go's
  in-place loops over a slice are maps over the list; the sums are left folds from zero, in
  index order, because floating-point addition is not associative.
\<close>

fun math_Cos :: "f64 \<Rightarrow> f64" where
  "math_Cos (Fin r) = fl (cos r)"
| "math_Cos _ = NaN"

type_synonym vector = "f64 list"
type_synonym matrix = "f64 list list"

definition sigmoid :: "f64 \<Rightarrow> f64" where
  "sigmoid x = 1 / (1 + math_Exp (- x))"

definition clampInt :: "int \<Rightarrow> int \<Rightarrow> int \<Rightarrow> int" where
  "clampInt x lo hi = (if x < lo then lo else if hi < x then hi else x)"

definition dot :: "vector \<Rightarrow> vector \<Rightarrow> f64" where
  "dot a b = fold (\<lambda>(x, y) s. s + x * y) (zip a b) 0"

definition vec_sum :: "vector \<Rightarrow> f64" where
  "vec_sum v = fold (\<lambda>x s. s + x) v 0"

definition vec_mean :: "vector \<Rightarrow> f64" where
  "vec_mean x = (if x = [] then 0 else vec_sum x / f64_of_int (int (length x)))"

definition vecNorm :: "vector \<Rightarrow> f64" where
  "vecNorm x = math_Sqrt (fold (\<lambda>v s. s + v * v) x 0)"

definition vec_diff :: "vector \<Rightarrow> vector \<Rightarrow> vector" where
  "vec_diff a b = map (\<lambda>(x, y). x - y) (zip a b)"

definition shape_step :: "vector \<Rightarrow> nat \<Rightarrow> f64 \<times> f64 \<times> f64 \<Rightarrow> f64 \<times> f64 \<times> f64" where
  "shape_step rf i acc =
    (case acc of (m, drift, spike) \<Rightarrow>
       (m + rf ! i, (if 0 < i then drift + \<bar>rf ! i - rf ! (i - 1)\<bar> else drift),
        (if spike < rf ! i then rf ! i else spike)))"

definition riskShape :: "vector \<Rightarrow> f64 \<times> f64 \<times> f64" where
  "riskShape rf =
    (let n = f64_of_int (int (length rf)) + fl 0.000001;
         (m, drift, spike) = fold (shape_step rf) [0..<length rf] (0, 0, 0)
     in (m / n, drift / n, spike))"

definition hasNaN :: "vector \<Rightarrow> bool" where
  "hasNaN x = list_ex (\<lambda>v. math_IsNaN v \<or> math_IsInf v) x"

definition identityMatrix :: "nat \<Rightarrow> f64 \<Rightarrow> matrix" where
  "identityMatrix n diag = map (\<lambda>i. map (\<lambda>j. if i = j then diag else 0) [0..<n]) [0..<n]"

definition eliminate :: "nat \<Rightarrow> matrix \<times> matrix \<Rightarrow> matrix \<times> matrix" where
  \<comment> \<open>the elimination of column \<open>i\<close>, on the matrix and on its inverse\<close>
  "eliminate i mi =
    (let m = fst mi; inv = snd mi;
         p = m ! i ! i;
         p = (if \<bar>p\<bar> < fl 0.000001 then fl 0.000001 else p);
         mrow = map (\<lambda>x. x / p) (m ! i); irow = map (\<lambda>x. x / p) (inv ! i);
         upd = (\<lambda>k row piv. if k = i then piv
                  else map (\<lambda>(x, y). x - m ! k ! i * y) (zip row piv))
     in (map (\<lambda>k. upd k (m ! k) mrow) [0..<length m], map (\<lambda>k. upd k (inv ! k) irow) [0..<length m]))"

definition invertMatrix :: "matrix \<Rightarrow> matrix" where
  "invertMatrix a = snd (fold eliminate [0..<length a] (a, identityMatrix (length a) 1))"

definition randomVector :: "nat \<Rightarrow> f64 \<Rightarrow> f64 stream \<Rightarrow> vector \<times> f64 stream" where
  \<comment> \<open>the stream holds the results of \<open>rand.Float64\<close>\<close>
  "randomVector n scale r = (map (\<lambda>u. (u * fl 2 - 1) * scale) (stake n r), sdrop n r)"

fun randomMatrix :: "nat \<Rightarrow> nat \<Rightarrow> f64 \<Rightarrow> f64 stream \<Rightarrow> matrix \<times> f64 stream" where
  "randomMatrix 0 c scale r = ([], r)"
| "randomMatrix (Suc n) c scale r =
    (let (row, r) = randomVector c scale r; (rows, r) = randomMatrix n c scale r in (row # rows, r))"

section \<open>Helpers of the signal learner\<close>

definition row_dot :: "vector \<Rightarrow> vector \<Rightarrow> f64" where
  "row_dot row v = fold (\<lambda>j s. s + row ! j * v ! j) [0..<length v] 0"

definition matVec :: "matrix \<Rightarrow> vector \<Rightarrow> vector" where
  "matVec m v = map (\<lambda>i. if i < length m then row_dot (m ! i) v else 0) [0..<length v]"

definition downdate :: "matrix \<Rightarrow> vector \<Rightarrow> f64 \<Rightarrow> matrix" where
  \<comment> \<open>the rank-one downdate that \<open>sherman\<close> and \<open>joseph\<close> share\<close>
  "downdate m x lam =
    (let v = matVec m x; den = lam + dot x v
     in map (\<lambda>i. map (\<lambda>j. (m ! i ! j - v ! i * v ! j / den) / lam) [0..<length m]) [0..<length m])"

definition sherman :: "matrix \<Rightarrow> vector \<Rightarrow> f64 \<Rightarrow> matrix" where
  "sherman m x lam = downdate m x lam"

definition joseph :: "matrix \<Rightarrow> vector \<Rightarrow> f64 \<Rightarrow> matrix" where
  "joseph m phi lam = downdate m phi lam"

definition normalize :: "vector \<Rightarrow> vector" where
  "normalize v = (let s = vec_sum v in if feq s 0 then v else map (\<lambda>x. x / s) v)"

definition argmax_step :: "vector \<Rightarrow> nat \<Rightarrow> nat \<times> f64 \<Rightarrow> nat \<times> f64" where
  "argmax_step v i acc = (if snd acc < v ! i then (i, v ! i) else acc)"

definition argmax :: "vector \<Rightarrow> nat" where
  \<comment> \<open>the code panics on an empty slice; every caller passes \<open>K = 4\<close> entries\<close>
  "argmax v = fst (fold (argmax_step v) [1..<length v] (0, v ! 0))"

definition outer :: "vector \<Rightarrow> vector \<Rightarrow> matrix" where
  "outer x y = map (\<lambda>a. map (\<lambda>b. a * b) y) x"

definition adaptiveUnitVec :: "nat \<Rightarrow> vector" where
  "adaptiveUnitVec n = replicate n 1"

definition normalizeVec :: "vector \<Rightarrow> vector" where
  "normalizeVec v = (let n = vecNorm v in if feq n 0 then v else map (\<lambda>x. x / n) v)"

section \<open>Facts\<close>

lemma fold_zero: "(\<And>x. x \<in> set xs \<Longrightarrow> g x 0 = 0) \<Longrightarrow> fold g xs (0 :: f64) = 0"
  by (induction xs) auto

lemma vecNorm_nn: "nn (vecNorm x)"
  by (simp add: vecNorm_def nn_Sqrt)

lemma vecNorm_zero [simp]: "vecNorm (replicate n 0) = 0"
  unfolding vecNorm_def by (subst fold_zero) (auto simp: zero_f64_def)

lemma argmax_less: "v \<noteq> [] \<Longrightarrow> argmax v < length v"
proof -
  assume "v \<noteq> []"
  have step: "fst (fold (argmax_step v) is acc) < length v" if "set is \<subseteq> {..<length v}" "fst acc < length v" for "is" acc
    using that by (induction "is" arbitrary: acc) (auto simp: argmax_step_def)
  show ?thesis unfolding argmax_def by (rule step) (use \<open>v \<noteq> []\<close> in auto)
qed

lemma length_normalize [simp]: "length (normalize v) = length v"
  by (simp add: normalize_def Let_def)

end
