(* ===== verification/ControlAdapter.thy ===== *)
theory ControlAdapter
  imports IntelMath FloatSign
begin

text \<open>
  \<open>internal/intelligence/autonomy_control_adapter.go\<close>: the boundary between the control loop and
  the learning modules.  \<open>Step_adapter\<close> normalises four measurements by their running mean and
  variance, scores the physical risk, keeps a regime with hysteresis, asks the learning modules
  for a forecast and an action, limits that action to what the actuators can do, and turns it into
  the weights that the planner adds to its costs.

  The learning modules behind the adapter (the stability rollout and the autonomy orchestrator,
  which share one mutable state) are a parameter: a \<open>brain\<close> is the pair of calls the adapter makes,
  and every statement holds for all of them.  Slices are lists; an index out of range, where the
  code panics, is \<open>None\<close>.
\<close>

section \<open>Data\<close>

record InfraState =
  in_QueueDepth :: f64
  in_LatencyP95 :: f64
  in_CPUUsage :: f64
  in_RetryRate :: f64
  in_CapacityPressure :: f64
  in_SLASeverity :: f64
  in_PerfScore :: f64

record MPCWeighting =
  mw_RiskWeight :: f64
  mw_SmoothCost :: f64
  mw_Regime :: int
  mw_RiskEWMA :: f64
  mw_AnomalyScore :: f64
  mw_CostBias :: f64

record RolloutQuery =
  rq_State :: vector
  rq_Action :: vector
  rq_Regime :: int
  rq_ModelUnc :: f64
  rq_HazardUnc :: f64
  rq_SLAWeight :: vector
  rq_PolicyUnc :: f64

record RuntimeQuery =
  uq_State :: vector
  uq_Risk :: f64
  uq_RiskForecast :: vector
  uq_HazardUnc :: f64
  uq_ModelUnc :: f64
  uq_StabilityVec :: vector
  uq_Perf :: f64
  uq_PerfTrend :: f64
  uq_CapacityPress :: f64
  uq_SLASeverity :: f64
  uq_EntropyProxy :: f64
  uq_GradProxy :: f64
  uq_Novelty :: f64
  uq_Regime :: int
  uq_PolicyUnc :: f64

record TelemetryQuery =
  tq_RiskForecast :: vector
  tq_ActionExec :: vector
  tq_ActionPrev :: vector
  tq_ValueUnc :: f64
  tq_PolicyEntropy :: f64
  tq_CalibError :: f64
  tq_SpectralEnergy :: vector
  tq_AdvSkew :: f64
  tq_DistKL :: f64
  tq_TrackingErr :: f64
  tq_SLASeverity :: f64
  tq_LoadPressure :: f64
  tq_FailureMode :: f64
  tq_Seasonality :: f64
  tq_Regime :: int

text \<open>The learning modules: the risk trajectory of a forecast, and the action of a step.\<close>

record 'w brain =
  br_Forecast :: "RolloutQuery \<Rightarrow> 'w \<Rightarrow> vector \<times> 'w"
  br_Step :: "RuntimeQuery \<Rightarrow> TelemetryQuery \<Rightarrow> 'w \<Rightarrow> vector \<times> 'w"

record 'w AutonomyControlAdapter =
  ac_world :: 'w  \<comment> \<open>the state of the learning modules\<close>
  ac_mean :: vector
  ac_vars :: vector
  ac_lastRegime :: int
  ac_lastAct :: vector
  ac_actLatencyEW :: f64
  ac_riskEWMA :: f64

definition NewAutonomyControlAdapter :: "'w \<Rightarrow> nat \<Rightarrow> 'w AutonomyControlAdapter" where
  "NewAutonomyControlAdapter w actDim =
    \<lparr> ac_world = w, ac_mean = replicate 4 0, ac_vars = replicate 4 0, ac_lastRegime = 0,
      ac_lastAct = replicate actDim 0, ac_actLatencyEW = 0, ac_riskEWMA = 0 \<rparr>"

section \<open>Statistics\<close>

definition vec_variance :: "vector \<Rightarrow> f64" where
  "vec_variance x =
    (let m = vec_mean x in fold (\<lambda>v s. let d = v - m in s + d * d) x 0 / f64_of_int (int (length x + 1)))"

definition vec_trend :: "vector \<Rightarrow> f64" where
  "vec_trend x = (if length x < 2 then 0 else last x - hd x)"

definition vec_skew :: "vector \<Rightarrow> f64" where
  "vec_skew x =
    (let m = vec_mean x;
         (s2, s3) = fold (\<lambda>v (s2, s3). let d = v - m in (s2 + d * d, s3 + d * d * d)) x (0, 0)
     in s3 / math_Pow (s2 + fl 0.000001) (fl 1.5))"

definition vec_entropy :: "vector \<Rightarrow> f64" where
  "vec_entropy x =
    fold (\<lambda>v s. let p = sigmoid v in s + - p * math_Log (p + fl 0.000001)) x 0 / f64_of_int (int (length x))"

section \<open>The step\<close>

definition normalise_one :: "f64 \<Rightarrow> f64 \<Rightarrow> f64 \<Rightarrow> f64 \<times> f64 \<times> f64" where
  \<comment> \<open>the output, and the new mean and variance of one component\<close>
  "normalise_one x m v =
    (let d = x - m; m' = fl 0.95 * m + fl 0.05 * x; v' = fl 0.95 * v + fl 0.05 * d * d
     in (d / math_Sqrt (v' + fl 0.000001), m', v'))"

fun normalize_loop :: "vector \<Rightarrow> vector \<Rightarrow> vector \<Rightarrow> vector \<times> vector \<times> vector" where
  "normalize_loop (x # xs) (m # ms) (v # vs) =
    (let (y, m', v') = normalise_one x m v; (ys, ms', vs') = normalize_loop xs ms vs
     in (y # ys, m' # ms', v' # vs'))"
| "normalize_loop _ ms vs = ([], ms, vs)"

definition physicalRisk :: "vector \<Rightarrow> InfraState \<Rightarrow> f64" where
  "physicalRisk x s =
    (let q = sigmoid (x ! 0); c = sigmoid (x ! 2); r = sigmoid (x ! 3)
     in f64_clamp (fl 0.4 * q * q + fl 0.3 * c + fl 0.3 * r + fl 0.5 * in_SLASeverity s) 0 1)"

definition regime_score :: "vector \<Rightarrow> f64" where
  "regime_score x = fl 0.5 * sigmoid (x ! 0) + fl 0.5 * sigmoid (x ! 2)"

definition regimeTemporal :: "vector \<Rightarrow> int \<Rightarrow> int" where
  \<comment> \<open>the result is also the new \<open>lastRegime\<close>\<close>
  "regimeTemporal x lastRegime =
    (let score = regime_score x; reg = int_of_f64 (f64_clamp (math_Round (fl 2 * score)) 0 (fl 2))
     in if reg \<noteq> lastRegime \<and> \<bar>score - fl 0.5\<bar> < fl 0.2 then lastRegime else reg)"

definition feasible_one :: "f64 \<Rightarrow> f64 \<Rightarrow> f64 \<Rightarrow> f64 \<times> f64" where
  \<comment> \<open>one actuator: its next position and the new latency average\<close>
  "feasible_one u lst ew =
    (let q = math_Round (u / fl 0.25) * fl 0.25; d = q - lst;
         q = (if 1 < \<bar>d\<bar> then lst + math_Copysign 1 d else q)
     in (fl 0.7 * lst + fl 0.3 * q, fl 0.9 * ew + fl 0.1 * \<bar>d\<bar>))"

fun feasible_loop :: "vector \<Rightarrow> vector \<Rightarrow> f64 \<Rightarrow> (vector \<times> f64) option" where
  "feasible_loop [] lst ew = Some ([], ew)"
| "feasible_loop (u # us) [] ew = None"
| "feasible_loop (u # us) (l # ls) ew =
    (let (y, ew) = feasible_one u l ew
     in map_option (\<lambda>(ys, ew). (y # ys, ew)) (feasible_loop us ls ew))"

definition feasibleActuator :: "vector \<Rightarrow> 'w AutonomyControlAdapter \<Rightarrow> (vector \<times> f64) option" where
  "feasibleActuator u a = feasible_loop u (ac_lastAct a) (ac_actLatencyEW a)"

definition rollout_query :: "vector \<Rightarrow> int \<Rightarrow> vector \<Rightarrow> RolloutQuery" where
  "rollout_query nrm reg act =
    \<lparr> rq_State = nrm, rq_Action = act, rq_Regime = reg, rq_ModelUnc = fl 0.25, rq_HazardUnc = fl 0.25,
      rq_SLAWeight = nrm, rq_PolicyUnc = fl 0.15 \<rparr>"

definition runtime_query :: "vector \<Rightarrow> f64 \<Rightarrow> vector \<Rightarrow> int \<Rightarrow> InfraState \<Rightarrow> RuntimeQuery" where
  "runtime_query nrm risk fc reg s =
    \<lparr> uq_State = nrm, uq_Risk = risk, uq_RiskForecast = fc, uq_HazardUnc = vec_variance fc, uq_ModelUnc = vec_variance nrm,
      uq_StabilityVec = nrm, uq_Perf = in_PerfScore s, uq_PerfTrend = vec_trend fc,
      uq_CapacityPress = in_CapacityPressure s, uq_SLASeverity = in_SLASeverity s, uq_EntropyProxy = vec_entropy nrm,
      uq_GradProxy = \<bar>vec_trend fc\<bar>, uq_Novelty = \<bar>nrm ! 0 - nrm ! 1\<bar>, uq_Regime = reg, uq_PolicyUnc = fl 0.15 \<rparr>"

definition telemetry_query :: "vector \<Rightarrow> f64 \<Rightarrow> vector \<Rightarrow> int \<Rightarrow> vector \<Rightarrow> InfraState \<Rightarrow> TelemetryQuery" where
  "telemetry_query nrm risk fc reg act s =
    \<lparr> tq_RiskForecast = fc, tq_ActionExec = act, tq_ActionPrev = act, tq_ValueUnc = vec_variance fc,
      tq_PolicyEntropy = vec_entropy nrm, tq_CalibError = \<bar>risk - vec_mean fc\<bar>, tq_SpectralEnergy = nrm,
      tq_AdvSkew = vec_skew fc, tq_DistKL = vec_variance nrm, tq_TrackingErr = 1 - in_PerfScore s,
      tq_SLASeverity = in_SLASeverity s, tq_LoadPressure = in_CapacityPressure s, tq_FailureMode = nrm ! 3,
      tq_Seasonality = nrm ! 2, tq_Regime = reg \<rparr>"

definition mpc_weighting :: "vector \<Rightarrow> vector \<Rightarrow> vector \<Rightarrow> int \<Rightarrow> f64 \<Rightarrow> MPCWeighting" where
  "mpc_weighting act fc nrm reg ewma =
    \<lparr> mw_RiskWeight = fl 0.20 * f64_clamp (act ! 0) (fl (- 0.2)) (fl 0.4),
      mw_SmoothCost = fl 0.10 * f64_clamp (act ! 1) (fl (- 0.1)) (fl 0.2),
      mw_Regime = reg, mw_RiskEWMA = ewma,
      mw_AnomalyScore = f64_clamp (\<bar>vec_trend fc\<bar> + fl 0.5 * \<bar>nrm ! 0 - nrm ! 1\<bar>) 0 1,
      mw_CostBias = f64_clamp (act ! 2) (fl (- 0.5)) (fl 0.5) \<rparr>"

definition Step_adapter ::
  "'w brain \<Rightarrow> InfraState \<Rightarrow> 'w AutonomyControlAdapter \<Rightarrow> (MPCWeighting \<times> 'w AutonomyControlAdapter) option" where
  "Step_adapter br s a =
    (let (nrm, ms, vs) = normalize_loop [in_QueueDepth s, in_LatencyP95 s, in_CPUUsage s, in_RetryRate s] (ac_mean a) (ac_vars a);
         risk = physicalRisk nrm s;
         ewma = fl 0.85 * ac_riskEWMA a + fl 0.15 * risk;
         reg = regimeTemporal nrm (ac_lastRegime a);
         (fc, w) = br_Forecast br (rollout_query nrm reg (ac_lastAct a)) (ac_world a);
         (u, w) = br_Step br (runtime_query nrm risk fc reg s) (telemetry_query nrm risk fc reg (ac_lastAct a) s) w
     in case feasibleActuator u a of None \<Rightarrow> None
        | Some (act, lat) \<Rightarrow>
            if length act < 3 then None
            else Some (mpc_weighting act fc nrm reg ewma,
                   a\<lparr> ac_world := w, ac_mean := ms, ac_vars := vs, ac_lastRegime := reg, ac_lastAct := act,
                      ac_actLatencyEW := lat, ac_riskEWMA := ewma \<rparr>))"

section \<open>The actuators\<close>

definition inside :: "real \<Rightarrow> f64 \<Rightarrow> bool" where
  "inside b x \<longleftrightarrow> fbtw (- b) x b"

lemma insideE: "inside b x \<Longrightarrow> (\<And>r. x = Fin r \<Longrightarrow> \<bar>r\<bar> \<le> b \<Longrightarrow> P) \<Longrightarrow> P"
  unfolding inside_def by (elim fbtwE) (simp add: abs_le_iff)

lemma fl_quarter: "fl 0.25 = Fin (1 / 4)"
  using fl_frep [of "1 / 4"] big_ge(3) by (simp add: numeral_le_big)

lemma quantised:
  assumes "inside (of_int m) u" "m \<le> 1000"
  shows "inside (of_int m) (math_Round (u / fl 0.25) * fl 0.25)"
proof -
  obtain r where r: "u = Fin r" "\<bar>r\<bar> \<le> of_int m" using assms(1) by (rule insideE)
  have "0 \<le> m" using r(2) by linarith
  then have m: "\<bar>4 * m\<bar> \<le> 2 ^ 53" "\<bar>- (4 * m)\<bar> \<le> 2 ^ 53" "\<bar>m\<bar> \<le> 2 ^ 53" "\<bar>- m\<bar> \<le> 2 ^ 53" using assms(2) by simp_all
  have "\<bar>4 * r\<bar> \<le> of_int (4 * m)" using r(2) by (simp add: abs_mult)
  then have "fbtw (of_int (- (4 * m))) (fl (4 * r)) (of_int (4 * m))"
    using fbound_of_int [OF m(1)] fbound_of_int [OF m(2)] by (intro fbtw_fl) (auto simp: abs_le_iff)
  then obtain s where s: "fl (4 * r) = Fin s" "of_int (- (4 * m)) \<le> s" "s \<le> of_int (4 * m)" by (rule fbtwE)
  have "u / fl 0.25 = Fin s" using s(1) unfolding r(1) fl_quarter by (simp add: mult.commute)
  moreover have "- (4 * m) \<le> round_away s" "round_away s \<le> 4 * m"
    using round_away_mono [OF s(2)] round_away_mono [OF s(3)] unfolding round_away_of_int by blast+
  then have "real_of_int (- (4 * m)) \<le> of_int (round_away s)" "real_of_int (round_away s) \<le> of_int (4 * m)"
    by (simp_all only: of_int_le_iff)
  then have "fbtw (of_int (- m)) (fl (of_int (round_away s) * (1 / 4))) (of_int m)"
    using fbound_of_int [OF m(3)] fbound_of_int [OF m(4)] by (intro fbtw_fl) simp_all
  ultimately show ?thesis unfolding fl_quarter inside_def by simp
qed

definition slow :: "f64 \<Rightarrow> f64 \<Rightarrow> bool" where
  "slow l y \<longleftrightarrow> (\<exists>a b. l = Fin a \<and> y = Fin b \<and> \<bar>b - a\<bar> \<le> 301 / 1000)"

lemma fl_tight: assumes "\<bar>x\<bar> \<le> 1024" obtains y where "fl x = Fin y" "\<bar>y - x\<bar> \<le> 1 / 1099511627776"
  using fl_near [OF assms] by blast

lemma smoothed:
  assumes "\<bar>l\<bar> \<le> 1001" "\<bar>q\<bar> \<le> 1001"
  shows "\<exists>y. fl (7 / 10) * Fin l + fl (3 / 10) * Fin q = Fin y \<and> \<bar>y - (7 / 10 * l + 3 / 10 * q)\<bar> \<le> 1 / 100000"
proof -
  obtain a where a: "fl (7 / 10) = Fin a" "\<bar>a - 7 / 10\<bar> \<le> 1 / 1099511627776" by (rule fl_tight [of "7 / 10"]) simp
  obtain b where b: "fl (3 / 10) = Fin b" "\<bar>b - 3 / 10\<bar> \<le> 1 / 1099511627776" by (rule fl_tight [of "3 / 10"]) simp
  have al: "\<bar>a * l - 7 / 10 * l\<bar> \<le> 1 / 1099511627776 * 1001" "\<bar>b * q - 3 / 10 * q\<bar> \<le> 1 / 1099511627776 * 1001"
    unfolding left_diff_distrib [symmetric] abs_mult by (intro mult_mono a(2) b(2) assms; simp)+
  then have "\<bar>a * l\<bar> \<le> 1024" "\<bar>b * q\<bar> \<le> 1024" using assms unfolding abs_le_iff by linarith+
  then obtain s t where s: "fl (a * l) = Fin s" "\<bar>s - a * l\<bar> \<le> 1 / 1099511627776"
    and t: "fl (b * q) = Fin t" "\<bar>t - b * q\<bar> \<le> 1 / 1099511627776" by (meson fl_near)
  have "\<bar>s + t\<bar> \<le> 1024" using s(2) t(2) al assms unfolding abs_le_iff by linarith
  then obtain y where y: "fl (s + t) = Fin y" "\<bar>y - (s + t)\<bar> \<le> 1 / 1099511627776" by (rule fl_tight)
  have "\<bar>y - (7 / 10 * l + 3 / 10 * q)\<bar> \<le> 1 / 100000" using y(2) s(2) t(2) al unfolding abs_le_iff by linarith
  then show ?thesis using y(1) s(1) t(1) by (simp add: a(1) b(1))
qed

lemma gap:
  assumes "fl x = Fin d"
  shows "1 < d \<Longrightarrow> 1 < x" "d < - 1 \<Longrightarrow> x < - 1" "\<bar>d\<bar> \<le> 1 \<Longrightarrow> \<bar>x\<bar> \<le> 10001 / 10000"
proof -
  show "1 < x" if "1 < d" using fl_mono [of x 1] assms that by (cases "x \<le> 1") auto
  show "x < - 1" if "d < - 1" using fl_mono [of "- 1" x] fl_minus [of 1] assms that by (cases "- 1 \<le> x") auto
  show "\<bar>x\<bar> \<le> 10001 / 10000" if "\<bar>d\<bar> \<le> 1"
  proof (rule ccontr)
    assume n: "\<not> \<bar>x\<bar> \<le> 10001 / 10000"
    obtain c where c: "fl (10001 / 10000) = Fin c" "\<bar>c - 10001 / 10000\<bar> \<le> 1 / 1099511627776" by (rule fl_tight [of "10001 / 10000"]) simp
    from n have "10001 / 10000 \<le> x \<or> x \<le> - (10001 / 10000)" by linarith
    then have "c \<le> d \<or> d \<le> - c"
      using fl_mono [of "10001 / 10000" x] fl_mono [of x "- (10001 / 10000)"] fl_minus [of "10001 / 10000"] assms c(1) by auto
    then show False using that c(2) unfolding abs_le_iff by linarith
  qed
qed

lemma fl_small_int: "\<bar>m\<bar> \<le> 1000 \<Longrightarrow> fl (of_int m) = Fin (of_int m)"
  using f64_of_int_small [of m] by (simp add: f64_of_int_def)

lemma step_up:
  assumes "l + 1 \<le> of_int m" "\<bar>m\<bar> \<le> 1000" "\<bar>l\<bar> \<le> 1001"
  shows "\<exists>p. fl (l + 1) = Fin p \<and> p \<le> of_int m \<and> \<bar>p - l\<bar> \<le> 10001 / 10000 \<and> l + 9999 / 10000 \<le> p"
proof -
  have "\<bar>l + 1\<bar> \<le> 1024" using assms(3) by linarith
  then obtain p where p: "fl (l + 1) = Fin p" "\<bar>p - (l + 1)\<bar> \<le> 1 / 1099511627776" by (rule fl_tight)
  moreover have "p \<le> of_int m" using fl_mono [OF assms(1)] p(1) fl_small_int [OF assms(2)] by simp
  ultimately show ?thesis unfolding abs_le_iff by (intro exI [of _ p]) linarith
qed

lemma step_down:
  assumes "of_int m \<le> l - 1" "\<bar>m\<bar> \<le> 1000" "\<bar>l\<bar> \<le> 1001"
  shows "\<exists>p. fl (l + - 1) = Fin p \<and> of_int m \<le> p \<and> \<bar>p - l\<bar> \<le> 10001 / 10000 \<and> p \<le> l - 9999 / 10000"
proof -
  obtain p where p: "fl (- l + 1) = Fin p" "p \<le> of_int (- m)" "\<bar>p - - l\<bar> \<le> 10001 / 10000" "- l + 9999 / 10000 \<le> p"
    using step_up [of "- l" "- m"] assms by auto
  have "fl (l + - 1) = Fin (- p)" using fl_minus [of "- l + 1"] p(1) by simp
  then show ?thesis using p by (intro exI [of _ "- p"]) auto
qed

definition rate_limited :: "f64 \<Rightarrow> f64 \<Rightarrow> f64" where
  "rate_limited lst q = (if 1 < \<bar>q - lst\<bar> then lst + math_Copysign 1 (q - lst) else q)"

lemma rate_limited:
  assumes "\<bar>l\<bar> \<le> of_int m + 1 / 1000" "\<bar>q\<bar> \<le> of_int m" "m \<le> 1000"
  shows "\<exists>p. rate_limited (Fin l) (Fin q) = Fin p \<and> \<bar>p - l\<bar> \<le> 10001 / 10000 \<and>
    p \<le> max (of_int m) (l - 9999 / 10000) \<and> min (- of_int m) (l + 9999 / 10000) \<le> p"
proof -
  have m: "real_of_int m \<le> 1000" "\<bar>m\<bar> \<le> 1000" "\<bar>- m\<bar> \<le> 1000" "\<bar>l\<bar> \<le> 1001" using assms by linarith+
  have "fbtw (- 2048) (fl (q - l)) 2048" using assms m by (intro fbtw_fl) (auto simp: abs_le_iff)
  then obtain d where d: "fl (q - l) = Fin d" by (rule fbtwE)
  consider "1 < d" | "d < - 1" | "\<bar>d\<bar> \<le> 1" by linarith
  then show ?thesis
  proof cases
    case 1
    then have "l + 1 \<le> of_int m" using gap(1) [OF d] assms(2) by linarith
    from step_up [OF this m(2,4)] show ?thesis using 1 d
      by (auto simp: rate_limited_def math_Copysign_def one_f64_def zero_f64_def)
  next
    case 2
    then have "of_int (- m) \<le> l - 1" using gap(2) [OF d] assms(2) by linarith
    from step_down [OF this m(3,4)] show ?thesis using 2 d
      by (auto simp: rate_limited_def math_Copysign_def one_f64_def zero_f64_def)
  next
    case 3
    then show ?thesis using gap(3) [OF d] d assms(2) by (auto simp: rate_limited_def one_f64_def abs_le_iff)
  qed
qed

lemma feasible_one_ok:
  assumes "inside (of_int m) u" "inside (of_int m + 1 / 1000) l" "m \<le> 1000"
  shows "inside (of_int m + 1 / 1000) (fst (feasible_one u l ew)) \<and> slow l (fst (feasible_one u l ew))"
proof -
  obtain q where q: "math_Round (u / fl 0.25) * fl 0.25 = Fin q" "\<bar>q\<bar> \<le> of_int m"
    using quantised [OF assms(1,3)] by (rule insideE)
  obtain r where r: "l = Fin r" "\<bar>r\<bar> \<le> of_int m + 1 / 1000" using assms(2) by (rule insideE)
  obtain p where p: "rate_limited (Fin r) (Fin q) = Fin p" "\<bar>p - r\<bar> \<le> 10001 / 10000"
      "p \<le> max (of_int m) (r - 9999 / 10000)" "min (- of_int m) (r + 9999 / 10000) \<le> p"
    using rate_limited [OF r(2) q(2) assms(3)] by blast
  have m: "real_of_int m \<le> 1000" "0 \<le> real_of_int m" using assms(3) q(2) by linarith+
  have pm: "p \<le> of_int m" "- of_int m \<le> p" using p(3,4) r(2) unfolding abs_le_iff by (auto simp: max_def min_def split: if_splits)
  obtain y where y: "fl (7 / 10) * Fin r + fl (3 / 10) * Fin p = Fin y" "\<bar>y - (7 / 10 * r + 3 / 10 * p)\<bar> \<le> 1 / 100000"
    using smoothed [of r p] r(2) pm m unfolding abs_le_iff by auto
  have "fst (feasible_one u l ew) = Fin y" using y(1) p(1) unfolding feasible_one_def Let_def q(1) r(1) rate_limited_def by simp
  moreover have "\<bar>y\<bar> \<le> of_int m + 1 / 1000" "\<bar>y - r\<bar> \<le> 301 / 1000" using y(2) r(2) pm p(2) unfolding abs_le_iff by linarith+
  ultimately show ?thesis by (simp add: inside_def slow_def r(1) abs_le_iff)
qed

lemma feasible_loop_Cons:
  "feasible_loop (u # us) (l # ls) ew =
    map_option (\<lambda>(ys, ew). (fst (feasible_one u l ew0) # ys, ew)) (feasible_loop us ls (snd (feasible_one u l ew)))"
  if "ew0 = ew"
  using that by (simp add: case_prod_unfold Let_def)

lemma feasible_loop_ok:
  assumes "feasible_loop us ls ew = Some (ys, ew')" "list_all (inside (of_int m)) us" "list_all (inside (of_int m + 1 / 1000)) ls" "m \<le> 1000"
  shows "list_all (inside (of_int m + 1 / 1000)) ys \<and> list_all2 slow (take (length us) ls) ys"
  using assms(1-3)
proof (induction us arbitrary: ls ew ys)
  case (Cons u us)
  then obtain l ls' where ls: "ls = l # ls'" by (cases ls) auto
  then obtain ys' where "ys = fst (feasible_one u l ew) # ys'" "feasible_loop us ls' (snd (feasible_one u l ew)) = Some (ys', ew')"
    using Cons.prems(1) by (auto simp: feasible_loop_Cons [OF refl] simp del: feasible_loop.simps)
  then show ?case using Cons ls feasible_one_ok [OF _ _ assms(4), of u l ew] by simp
qed simp

lemma feasible_loop_length: "feasible_loop us ls ew = Some (ys, ew') \<Longrightarrow> length ys = length us"
proof (induction us arbitrary: ls ew ys)
  case (Cons u us)
  then show ?case by (cases ls) (auto simp: feasible_loop_Cons [OF refl] simp del: feasible_loop.simps(3))
qed simp

lemma feasible_loop_returns: "length us \<le> length ls \<Longrightarrow> \<exists>r. feasible_loop us ls ew = Some r"
proof (induction us arbitrary: ls ew)
  case (Cons u us)
  then obtain l ls' where "ls = l # ls'" by (cases ls) auto
  then show ?case using Cons.IH [of ls'] Cons.prems
    by (fastforce simp: feasible_loop_Cons [OF refl] simp del: feasible_loop.simps)
qed simp

section \<open>The regime\<close>

lemma regime_value: "int_of_f64 (f64_clamp (math_Round (fl 2 * score)) 0 (fl 2)) \<in> {0, 1, 2, minI64}"
proof (cases "math_Round (fl 2 * score)")
  case (Fin r)
  then obtain k where "r = of_int k" by (cases "fl 2 * score") auto
  moreover define j where "j = (if k < 0 then 0 else if 2 < k then 2 else k)"
  ultimately have "f64_clamp (math_Round (fl 2 * score)) 0 (fl 2) = Fin (of_int j)"
    using Fin by (auto simp: f64_clamp_def zero_f64_def)
  moreover have "0 \<le> j" "j \<le> 2" by (auto simp: j_def)
  ultimately have "int_of_f64 (f64_clamp (math_Round (fl 2 * score)) 0 (fl 2)) = j"
    using int_of_f64_of_int [of j] by (simp only:) (simp add: minI64_def maxI64_def)
  then show ?thesis using \<open>0 \<le> j\<close> \<open>j \<le> 2\<close> by auto
qed (use int_of_f64_of_int [of 0] int_of_f64_of_int [of 2] in \<open>auto simp: f64_clamp_def zero_f64_def minI64_def maxI64_def\<close>)

section \<open>What a step keeps\<close>

definition adapter_ok :: "int \<Rightarrow> nat \<Rightarrow> 'w AutonomyControlAdapter \<Rightarrow> bool" where
  "adapter_ok m n a \<longleftrightarrow> length (ac_lastAct a) = n \<and> list_all (inside (of_int m + 1 / 1000)) (ac_lastAct a) \<and>
    ac_lastRegime a \<in> {0, 1, 2, minI64}"

definition brain_ok :: "int \<Rightarrow> nat \<Rightarrow> 'w brain \<Rightarrow> bool" where
  \<comment> \<open>the actions have one component per actuator and lie in the box of half-width \<open>m\<close>\<close>
  "brain_ok m n br \<longleftrightarrow>
    (\<forall>q t w. length (fst (br_Step br q t w)) = n \<and> list_all (inside (of_int m)) (fst (br_Step br q t w)))"

definition weighting_ok :: "MPCWeighting \<Rightarrow> bool" where
  "weighting_ok w \<longleftrightarrow> fbtw (- 1 / 16) (mw_RiskWeight w) (1 / 8) \<and> fbtw (- 1 / 64) (mw_SmoothCost w) (1 / 32) \<and>
    fbtw (- 1 / 2) (mw_CostBias w) (1 / 2) \<and> mw_Regime w \<in> {0, 1, 2, minI64} \<and>
    (mw_AnomalyScore w = NaN \<or> fbtw 0 (mw_AnomalyScore w) 1)"

lemma regimeTemporal_ok: "r \<in> {0, 1, 2, minI64} \<Longrightarrow> regimeTemporal x r \<in> {0, 1, 2, minI64}"
  using regime_value [of "regime_score x"] by (simp add: regimeTemporal_def Let_def)

lemma sym_scaled_btw:
  assumes "fbtw 0 x c" "fbtw (- a) y b" "lo \<le> - (c * a)" "c * b \<le> hi" "0 \<le> a" "0 \<le> b" "fbound lo" "fbound hi"
  shows "fbtw lo (x * y) hi"
proof -
  obtain r s where *: "x = Fin r" "y = Fin s" "0 \<le> r" "r \<le> c" "- a \<le> s" "s \<le> b"
    using assms(1,2) by (auto elim!: fbtwE)
  have "r * s \<le> r * b" "r * - a \<le> r * s" by (rule mult_left_mono [OF *(6,3)], rule mult_left_mono [OF *(5,3)])
  moreover have "r * b \<le> c * b" "r * a \<le> c * a" using * assms(5,6) by (auto intro!: mult_right_mono)
  ultimately have "lo \<le> r * s" "r * s \<le> hi" using assms(3,4) by simp_all
  then show ?thesis using * assms(7,8) by (auto intro!: fbtw_fl)
qed

lemma clamp_btw:
  assumes "y \<noteq> NaN" "lo \<le> a" "a \<le> b" "b \<le> hi" "fbound lo" "fbound hi"
  shows "fbtw lo (f64_clamp y (fl a) (fl b)) hi"
proof -
  have f: "\<bar>a\<bar> \<le> big" "\<bar>b\<bar> \<le> big" using assms(2-) by (auto simp: fbound_def)
  have "lo \<le> rnd a" "rnd b \<le> hi" "rnd a \<le> rnd b" using assms(2-) by (auto simp: fbound_def intro: rnd_ge rnd_le rnd_mono)
  then show ?thesis using f64_clamp_btw [OF assms(1), of "rnd a" "rnd b"] unfolding fl_Fin [OF f(1)] fl_Fin [OF f(2)]
    by (auto elim: fbtw_weaken)
qed

lemma fbound_fracs [simp]: "fbound (1 / 16)" "fbound (1 / 32)" "fbound (1 / 64)"
proof -
  have "frep (1 / 16)" "frep (1 / 32)" "frep (1 / 64)"
    using frep_pow2 [of "- 4"] frep_pow2 [of "- 5"] frep_pow2 [of "- 6"] by (simp_all add: power_int_minus)
  then show "fbound (1 / 16)" "fbound (1 / 32)" "fbound (1 / 64)"
    unfolding fbound_def using big_ge(3) by (auto simp only: abs_le_iff)
qed

lemma mpc_weighting_ok:
  assumes "list_all (inside b) act" "3 \<le> length act" "reg \<in> {0, 1, 2, minI64}"
  shows "weighting_ok (mpc_weighting act fc nrm reg ewma)"
proof -
  have act: "act ! i \<noteq> NaN" if "i < 3" for i
  proof -
    have "inside b (act ! i)" using assms(1,2) that by (simp add: list_all_length)
    then show ?thesis by (auto elim: insideE)
  qed
  have "fbtw (- 1 / 4) (f64_clamp (act ! 0) (fl (- 0.2)) (fl 0.4)) (1 / 2)" using act by (intro clamp_btw) auto
  then have 1: "fbtw (- (1 / 4)) (f64_clamp (act ! 0) (fl (- 0.2)) (fl 0.4)) (1 / 2)" by simp
  have "fbtw (- 1 / 8) (f64_clamp (act ! 1) (fl (- 0.1)) (fl 0.2)) (1 / 4)" using act by (intro clamp_btw) auto
  then have 2: "fbtw (- (1 / 8)) (f64_clamp (act ! 1) (fl (- 0.1)) (fl 0.2)) (1 / 4)" by simp
  have "fbtw 0 (fl 0.20) (1 / 4)" "fbtw 0 (fl 0.10) (1 / 8)" by (intro fbtw_fl; simp)+
  from sym_scaled_btw [OF this(1) 1, of "- 1 / 16" "1 / 8"] sym_scaled_btw [OF this(2) 2, of "- 1 / 64" "1 / 32"] have
    "fbtw (- 1 / 16) (mw_RiskWeight (mpc_weighting act fc nrm reg ewma)) (1 / 8)"
    "fbtw (- 1 / 64) (mw_SmoothCost (mpc_weighting act fc nrm reg ewma)) (1 / 32)"
    unfolding mpc_weighting_def MPCWeighting.select_convs by simp_all
  moreover have "fbtw (- 1 / 2) (mw_CostBias (mpc_weighting act fc nrm reg ewma)) (1 / 2)"
    unfolding mpc_weighting_def MPCWeighting.select_convs using act by (intro clamp_btw) auto
  moreover have "mw_AnomalyScore (mpc_weighting act fc nrm reg ewma) = NaN \<or> fbtw 0 (mw_AnomalyScore (mpc_weighting act fc nrm reg ewma)) 1"
    unfolding mpc_weighting_def MPCWeighting.select_convs zero_f64_def one_f64_def
    using f64_clamp_btw [of _ 0 1] by (metis f64_clamp_NaN zero_le_one)
  ultimately show ?thesis using assms(3) by (simp add: weighting_ok_def mpc_weighting_def)
qed

lemma adapter_step_keeps:
  assumes "adapter_ok m n a" "brain_ok m n br" "m \<le> 1000" "3 \<le> n"
  shows "\<exists>w a'. Step_adapter br s a = Some (w, a') \<and> weighting_ok w \<and> adapter_ok m n a' \<and>
    list_all2 slow (ac_lastAct a) (ac_lastAct a')"
proof -
  obtain nrm ms vs where nrm: "normalize_loop [in_QueueDepth s, in_LatencyP95 s, in_CPUUsage s, in_RetryRate s] (ac_mean a) (ac_vars a) = (nrm, ms, vs)"
    by (metis prod_cases3)
  define reg where "reg = regimeTemporal nrm (ac_lastRegime a)"
  obtain fc w1 where fc: "br_Forecast br (rollout_query nrm reg (ac_lastAct a)) (ac_world a) = (fc, w1)" by fastforce
  obtain u w2 where u: "br_Step br (runtime_query nrm (physicalRisk nrm s) fc reg s)
      (telemetry_query nrm (physicalRisk nrm s) fc reg (ac_lastAct a) s) w1 = (u, w2)" by fastforce
  have bu: "length u = n" "list_all (inside (of_int m)) u" using assms(2) u unfolding brain_ok_def by (metis fst_conv)+
  have ba: "length (ac_lastAct a) = n" "list_all (inside (of_int m + 1 / 1000)) (ac_lastAct a)" "ac_lastRegime a \<in> {0, 1, 2, minI64}"
    using assms(1) by (auto simp: adapter_ok_def)
  obtain act lat where f: "feasible_loop u (ac_lastAct a) (ac_actLatencyEW a) = Some (act, lat)"
    using feasible_loop_returns [of u "ac_lastAct a"] bu ba by fastforce
  have act: "list_all (inside (of_int m + 1 / 1000)) act" "list_all2 slow (ac_lastAct a) act" "length act = n"
    using feasible_loop_ok [OF f bu(2) ba(2) assms(3)] feasible_loop_length [OF f] bu ba by auto
  have reg: "reg \<in> {0, 1, 2, minI64}" unfolding reg_def using ba(3) by (rule regimeTemporal_ok)
  show ?thesis
    using mpc_weighting_ok [OF act(1) _ reg] act reg assms(4) f
    by (simp add: Step_adapter_def Let_def nrm reg_def [symmetric] fc u feasibleActuator_def adapter_ok_def)
qed


definition still_brain :: "unit brain" where
  "still_brain = \<lparr> br_Forecast = \<lambda>q w. ([0, 0], w), br_Step = \<lambda>q t w. (replicate 4 1, w) \<rparr>"


end
