(* ===== verification/PhaseRuntime.thy ===== *)
theory PhaseRuntime
  imports AutoRuntime AuthorityProps PolicyProps SandboxRun RuntimeControl ControlAdapter
begin

text \<open>
  \<open>internal/runtime/phase_runtime.go\<close>: the four phases a service goes through at every tick.
  The policy engine proposes replicas, retries, queue and cache settings; the sandbox's
  recommender turns the model's assessment into advice; the autopilot plans under the bounds and
  costs that the two and the learning adapter set; now and then a sandbox experiment replaces the
  advice; and the service's authority merges everything into one directive.

  \<open>phase_apply\<close> is one call of \<open>apply\<close>: the services of the tick in the order in which the code
  ranges over its map, each with its own state.  What the modules behind the adapter compute, the
  random draws, the clocks and the executor of the sandbox are in the environment of the call.  A
  panic of a module and a sandbox scenario that is not generated are \<open>None\<close>.
\<close>

section \<open>Helpers\<close>

definition phaseMax :: "f64 \<Rightarrow> f64 \<Rightarrow> f64" where
  "phaseMax a b = (if b < a then a else b)"

definition phaseClamp :: "f64 \<Rightarrow> f64 \<Rightarrow> f64 \<Rightarrow> f64" where
  "phaseClamp v lo hi = (if v < lo then lo else if hi < v then hi else v)"

definition phaseMaxInt :: "int \<Rightarrow> int \<Rightarrow> int" where
  "phaseMaxInt a b = (if b < a then a else b)"

definition mapCapacityToScale :: "f64 \<Rightarrow> f64 \<Rightarrow> f64 \<Rightarrow> f64 \<Rightarrow> f64" where
  \<comment> \<open>no caller\<close>
  "mapCapacityToScale capacity baseUnit minScale maxScale =
    (let raw = capacity / baseUnit in if raw < minScale then minScale else if maxScale < raw then maxScale else raw)"

definition wrap64 :: "int \<Rightarrow> int" where
  \<comment> \<open>the result of an \<open>int\<close> operation\<close>
  "wrap64 i = sint (word_of_int i :: 64 word)"

definition hex_digit :: "nat \<Rightarrow> char" where
  "hex_digit d = char_of (if d < 10 then 48 + d else 87 + d)"

fun digits :: "nat \<Rightarrow> nat \<Rightarrow> string" where
  \<comment> \<open>\<open>%d\<close> and \<open>%x\<close> of an unsigned number\<close>
  "digits b n = (if n < b \<or> b < 2 then [hex_digit n] else digits b (n div b) @ [hex_digit (n mod b)])"

declare digits.simps [simp del]

definition hashService :: "string \<Rightarrow> u64 \<Rightarrow> u64" where
  "hashService sid t = fnv64a 14695981039346656037 (sid @ ''-'' @ digits 10 (unat t))"

definition controlScaleDelta :: "int \<Rightarrow> f64" where
  "controlScaleDelta level = (if level = 2 then fl 0.50 else if level = 3 then fl 0.75 else fl 0.30)"

definition pressureLevelFromRisk :: "f64 \<Rightarrow> int" where
  "pressureLevelFromRisk risk =
    (if fl 0.85 \<le> risk then 3 else if fl 0.65 \<le> risk then 2 else if fl 0.45 \<le> risk then 1 else 0)"

definition currentReplicas :: "ServiceModelBundle \<Rightarrow> int" where
  "currentReplicas b =
    (let sr = phaseMax (qm_ServiceRate (mb_Queue b)) (fl 0.1); ar = phaseMax (qm_ArrivalRate (mb_Queue b)) (fl 0.1)
     in phaseMaxInt (int_of_f64 (math_Ceil (ar / sr))) 1)"

definition currentRetry :: "ServiceModelBundle \<Rightarrow> int" where
  "currentRetry b = phaseMaxInt (int_of_f64 (math_Round (1 + sm_BurstAmplification (mb_Stochastic b)))) 1"

definition slaSeverity :: "ServiceModelBundle \<Rightarrow> ObjectiveScore \<Rightarrow> f64" where
  "slaSeverity b objective =
    (let rf = os_ReferenceLatencyMs objective; rf = (if rf \<le> 0 then fl 500 else rf)
     in phaseClamp (qm_AdjustedWaitMs (mb_Queue b) / rf) 0 (fl 2))"

section \<open>The configuration of a service\<close>

text \<open>The part of the process configuration that this file reads.\<close>

record PhaseConfig =
  pcf_TickInterval :: duration
  pcf_UtilisationSetpoint :: f64
  pcf_CollapseThreshold :: f64
  pcf_PredictiveHorizonTicks :: int

definition tickSec :: "PhaseConfig \<Rightarrow> f64" where
  "tickSec cfg = phaseMax (duration_Seconds (pcf_TickInterval cfg)) (fl 0.1)"

definition runtime_mpc :: "PhaseConfig \<Rightarrow> MPCOptimiser" where
  "runtime_mpc cfg =
    \<lparr> mo_Horizon = phaseMaxInt (pcf_PredictiveHorizonTicks cfg) 4, mo_Dt = tickSec cfg, mo_ScenarioCount = 4,
      mo_Deterministic = False, mo_BurstProb = fl 0.20, mo_BacklogCost = 1, mo_LatencyCost = fl 0.5, mo_VarianceBase = fl 0.2,
      mo_ScalingCost = fl 0.1, mo_SmoothCost = fl 0.1, mo_TerminalCost = fl 0.3, mo_UtilCost = fl 0.2,
      mo_SafetyBarrier = fl 0.15, mo_RiskQuantile = fl 0.75, mo_RiskWeight = fl 0.4, mo_MaxCapacity = fl 3,
      mo_MinCapacity = fl 0.5, mo_MaxStepCap = fl 0.5, mo_MaxStepRetry = fl 0.4, mo_MaxStepCache = fl 0.3,
      mo_InitTemp = 1, mo_Cooling = fl 0.95, mo_Iters = 40, mo_IterModifier = 0 \<rparr>"

definition runtime_legacy :: LegacySafetyEngine where
  "runtime_legacy =
    \<lparr> le_BaseMaxBacklog = fl 2000, le_BaseMaxLatency = fl 2500, le_Alpha = fl 0.4, le_Beta = fl 0.2, le_ArrivalGain = fl 0.01,
      le_DisturbanceGain = fl 0.2, le_TopologyGain = fl 0.2, le_RetryGain = fl 0.1, le_TailRiskBase = fl 0.15,
      le_AccelBaseWindow = 3, le_AccelThreshold = fl 0.2, le_MaxCapacityRamp = 1, le_CapacityEffectTau = 1,
      le_TopologyDelayTau = 1, le_TerminalEnergyBase = fl 1000000, le_ContractionSlack = fl 0.2, le_HysteresisBand = fl 0.05,
      le_LastUnsafe = False, le_AdaptiveTightness = 0 \<rparr>"

definition runtime_cbf :: "PhaseConfig \<Rightarrow> CBFSafetyEngine" where
  "runtime_cbf cfg = \<lparr> cb_BaseMaxBacklog = fl 2000, cb_TimeStep = tickSec cfg, cb_EffectTau = 1 \<rparr>"

definition runtime_ident :: "PhaseConfig \<Rightarrow> IdentificationEngine" where
  "runtime_ident cfg =
    \<lparr> ie_Dt = tickSec cfg, ie_FastGain = fl 0.35, ie_SlowGain = fl 0.10, ie_BlendGain = fl 0.10, ie_VarGain = fl 0.10,
      ie_BurstGain = fl 0.10, ie_BurstDecay = fl 0.05, ie_BurstCap = fl 3, ie_NoiseGain = fl 0.20, ie_DriftGain = fl 0.05,
      ie_BaseConfidenceFloor = fl 0.20, ie_ConfidenceGain = fl 0.15, ie_ReliabilityGain = fl 0.10,
      ie_InfraSensitivity = fl 0.5, ie_SLAWeightQueue = fl 0.5, ie_SLAWeightLatency = fl 0.5, ie_EVTFactor = fl 2,
      ie_SeasonalGain = fl 0.05, ie_DampingGain = fl 0.10, ie_ArrivalStrategy = Some (StatisticalArrivalEstimator (fl 5) (fl 0.10)) \<rparr>"

definition runtime_autopilot :: "PhaseConfig \<Rightarrow> mpc_rng \<Rightarrow> RuntimeOrchestrator" where
  "runtime_autopilot cfg g =
    \<lparr> ro_Dt = tickSec cfg, ro_Predictor = runtime_predictor (tickSec cfg), ro_MPC = runtime_mpc cfg, ro_rng = g,
      ro_Safety = Some (SafetyShadow runtime_legacy (runtime_cbf cfg)), ro_Rollout = runtime_rollout (tickSec cfg),
      ro_ID = runtime_ident cfg, ro_Confidence = Some (ConfidenceShadow NewLogisticConfidenceEstimator),
      ro_SLA_Backlog = fl 100, ro_OverrideWindow = 16, ro_DampingMin = 1, ro_DampingMax = fl 3,
      ro_FailureScaleProb = fl 0.02, ro_FailureConfigProb = fl 0.01, ro_TelemetryTau = fl 2 * tickSec cfg \<rparr>"

definition zero_recommendation :: PolicyRecommendation where
  "zero_recommendation =
    \<lparr> pr_CapacityDelta = 0, pr_EfficiencyDelta = 0, pr_DampingDelta = 0, pr_RetryPressureDelta = 0, pr_BrownoutDelta = 0,
      pr_RiskScore = 0, pr_UrgencyMag = 0, pr_RiskUp = False, pr_Confidence = 0, pr_RegimeCollapseProb = 0,
      pr_RegimeCongestProb = 0, pr_RegimeIneffProb = 0 \<rparr>"

definition zero_experiment :: ExperimentOutput where
  "zero_experiment =
    \<lparr> xo_Comparison = \<lparr> cr_CostScore = 0, cr_UtilityScore = 0, cr_CollapseEnergy = 0, cr_InteractionRisk = 0, cr_GlobalScore = 0,
        cr_Stable = False, cr_SafetyMarg = 0, cr_Confidence = 0, cr_TemporalRobustness = 0 \<rparr>,
      xo_Advice = zero_recommendation,
      xo_Meta = \<lparr> xm_HorizonLength = 0, xm_GlobalScore = 0, xm_TemporalRobustness = 0, xm_UnifiedRisk = 0, xm_Stable = False,
        xm_LoadNormalisedDegradation = 0, xm_ContextSeed = 0, xm_HorizonID = [], xm_ScenarioHash = [] \<rparr> \<rparr>"

record 'w phaseServiceRuntime =
  vc_policyState :: PolicyEngine.EngineState
  vc_autopilot :: RuntimeOrchestrator
  vc_autopilotState :: RuntimeState
  vc_adapter :: "'w AutonomyControlAdapter"
  vc_control :: Authority
  vc_lastSandbox :: ExperimentOutput

record 'w phaseRuntime =
  ph_cfg :: PhaseConfig
  ph_services :: "(string, 'w phaseServiceRuntime) gomap"
  ph_controls :: PhaseControls

text \<open>
  The environment of a tick: the learning modules and the state of a fresh instance of them, the
  generator and the clocks and draws of a service's autopilot, the draws of a seeded source, the
  sandbox's executor, and the sorts and clock of the authority.
\<close>

record 'w phase_env =
  pe_brain :: "'w brain"
  pe_fresh :: "string \<Rightarrow> 'w"
  pe_rng :: "string \<Rightarrow> mpc_rng"
  pe_tick :: "string \<Rightarrow> tick_env"
  pe_draws :: "int \<Rightarrow> f64 stream \<times> f64 stream"
  pe_executor :: executor_env
  pe_control :: "string \<Rightarrow> control_env \<times> gotime"

definition new_service :: "'w phase_env \<Rightarrow> PhaseConfig \<Rightarrow> string \<Rightarrow> 'w phaseServiceRuntime" where
  "new_service env cfg sid =
    \<lparr> vc_policyState = \<lparr> en_LastGlobalRisk = 0, en_LastReplicas = 0, en_OscillationScore = 0 \<rparr>,
      vc_autopilot = runtime_autopilot cfg (pe_rng env sid), vc_autopilotState = new_state,
      vc_adapter = NewAutonomyControlAdapter (pe_fresh env sid) 4, vc_control = NewAuthority, vc_lastSandbox = zero_experiment \<rparr>"

definition ensureService :: "'w phase_env \<Rightarrow> string \<Rightarrow> 'w phaseRuntime \<Rightarrow> 'w phaseServiceRuntime" where
  "ensureService env sid p =
    (case map_of (ph_services p) sid of Some s \<Rightarrow> s | None \<Rightarrow> new_service env (ph_cfg p) sid)"

section \<open>Phase 1: the policy engine\<close>

definition policyWeights :: "PhaseControls \<Rightarrow> CostWeights" where
  "policyWeights c =
    (let p = PolicyPreset c in
     if p = ''latency'' then \<lparr> cw_SlaViolation = fl 1.45, cw_InfraCost = fl 0.20, cw_ChangeCost = fl 0.10, cw_RiskCost = fl 0.85, cw_FutureCost = fl 0.35 \<rparr>
     else if p = ''stability'' then \<lparr> cw_SlaViolation = fl 1.10, cw_InfraCost = fl 0.20, cw_ChangeCost = fl 0.25, cw_RiskCost = fl 1.25, cw_FutureCost = fl 0.30 \<rparr>
     else if p = ''cost'' then \<lparr> cw_SlaViolation = fl 0.85, cw_InfraCost = fl 0.60, cw_ChangeCost = fl 0.30, cw_RiskCost = fl 0.55, cw_FutureCost = fl 0.15 \<rparr>
     else if p = ''aggressive'' then \<lparr> cw_SlaViolation = fl 1.20, cw_InfraCost = fl 0.15, cw_ChangeCost = fl 0.05, cw_RiskCost = fl 0.95, cw_FutureCost = fl 0.40 \<rparr>
     else \<lparr> cw_SlaViolation = 1, cw_InfraCost = fl 0.25, cw_ChangeCost = fl 0.15, cw_RiskCost = fl 0.75, cw_FutureCost = fl 0.20 \<rparr>)"

definition phase_scaling :: "ServiceModelBundle \<Rightarrow> ScalingSignal" where
  "phase_scaling b =
    (let q = mb_Queue b; cur = currentReplicas b
     in \<lparr> sc_PredictedLoad = phaseMax (qm_ArrivalRate q) (fl 0.1), sc_CurrentReplicas = cur, sc_TargetLatency = fl 500,
          sc_ObservedLatency = phaseMax (qm_AdjustedWaitMs q) 1, sc_MinReplicas = 1,
          sc_MaxReplicas = phaseMaxInt (wrap64 (cur * 3)) (wrap64 (cur + 2)), sc_ScaleCooldownCost = fl 0.1,
          sc_InstanceCost = 1, sc_SlaPenaltyWeight = 1 \<rparr>)"

definition phase_retry :: "ServiceModelBundle \<Rightarrow> RetrySignal" where
  "phase_retry b =
    (let q = mb_Queue b; cur = currentRetry b
     in \<lparr> rt_ObservedErrorRate = sm_RiskPropagation (mb_Stochastic b),
          rt_TimeoutRate = phaseClamp (qm_AdjustedWaitMs q / fl 1000) 0 1, rt_QueueDepth = qm_MeanQueueLen q,
          rt_PredictedArrival = qm_ArrivalRate q, rt_ServiceCapacity = phaseMax (qm_ServiceRate q) (fl 0.1),
          rt_BaseSystemRisk = sa_CollapseRisk (mb_Stability b), rt_CurrentRetryLimit = cur, rt_MinRetryLimit = 1,
          rt_MaxRetryLimit = phaseMaxInt (wrap64 (cur + 3)) 3, rt_MinBackoff = 1, rt_MaxBackoff = fl 3 \<rparr>)"

definition phase_queue :: "ServiceModelBundle \<Rightarrow> QueueSignal" where
  "phase_queue b =
    (let q = mb_Queue b; cur = phaseMax (phaseMax (qm_MeanQueueLen q * fl 2) (fl 10)) 1
     in \<lparr> qs_CurrentQueueDepth = qm_MeanQueueLen q, qs_PredictedArrival = qm_ArrivalRate q,
          qs_ServiceCapacity = phaseMax (qm_ServiceRate q) (fl 0.1), qs_ObservedLatency = phaseMax (qm_AdjustedWaitMs q) 1,
          qs_TargetLatency = fl 500, qs_BaseSystemRisk = sa_CollapseRisk (mb_Stability b), qs_CurrentQueueLimit = cur,
          qs_MinQueueLimit = 1, qs_MaxQueueLimit = phaseMax (cur * fl 2) (fl 10), qs_MaxStep = phaseMax (cur * fl 0.25) 1 \<rparr>)"

definition phase_cache :: "ServiceModelBundle \<Rightarrow> ControlDirective \<Rightarrow> CacheSignal" where
  "phase_cache b base =
    (let q = mb_Queue b
     in \<lparr> ca_CurrentHitRate = phaseClamp (1 - sm_RiskPropagation (mb_Stochastic b)) 0 1, ca_TargetHitRate = fl 0.85,
          ca_PredictedArrival = qm_ArrivalRate q, ca_ServiceCapacity = phaseMax (qm_ServiceRate q) (fl 0.1),
          ca_ObservedLatency = phaseMax (qm_AdjustedWaitMs q) 1, ca_TargetLatency = fl 500, ca_CacheableRatio = fl 0.6,
          ca_BaseMemoryPressure = phaseClamp (qm_Utilisation q) 0 1, ca_BaseSystemRisk = sa_CollapseRisk (mb_Stability b),
          ca_CurrentCacheAggression = phaseClamp (1 - cd_ScaleFactor base / fl 3) 0 1, ca_MinAggression = 0,
          ca_MaxAggression = 1, ca_BaseStep = fl 0.1 \<rparr>)"

definition evaluatePolicy ::
  "PhaseControls \<Rightarrow> ServiceModelBundle \<Rightarrow> ControlDirective \<Rightarrow> PolicyEngine.EngineState \<Rightarrow> PolicyEngine.EngineState \<times> EngineDecision" where
  "evaluatePolicy c b base state =
    (let (s, d) = EvaluatePolicies
           \<lparr> ei_Scaling = phase_scaling b, ei_Retry = phase_retry b, ei_Queue = phase_queue b, ei_Cache = phase_cache b base,
             ei_CostWeights = policyWeights c \<rparr> (Some state)
     in (case s of Some s \<Rightarrow> s | None \<Rightarrow> state, d))"

section \<open>Phase 2: the recommender\<close>

definition phase_comparison :: "ServiceModelBundle \<Rightarrow> EngineDecision \<Rightarrow> ObjectiveScore \<Rightarrow> ComparisonResult" where
  "phase_comparison b phase1 objective =
    (let st = mb_Stability b
     in \<lparr> cr_CostScore = 1 / (1 + ed_GlobalCost phase1), cr_UtilityScore = phaseClamp (1 - sa_CollapseRisk st) 0 1,
          cr_CollapseEnergy = sa_CollapseRisk st * (1 + sa_OscillationRisk st),
          cr_InteractionRisk = phaseClamp (qm_UpstreamPressure (mb_Queue b) + sa_FeedbackGain st) 0 (fl 2),
          cr_GlobalScore = phaseClamp (ed_Confidence phase1 - os_CompositeScore objective) (- 1) 1,
          cr_Stable = (\<not> sa_IsUnstable st), cr_SafetyMarg = sa_StabilityMargin st,
          cr_Confidence = phaseClamp (ed_Confidence phase1) 0 1,
          cr_TemporalRobustness = 1 / (1 + \<bar>sa_StabilityDerivative st\<bar>) \<rparr>)"

definition phase_signals :: "ServiceModelBundle \<Rightarrow> ControlDirective \<Rightarrow> RecommendationSignals" where
  "phase_signals b base =
    \<lparr> rs_ThroughputMargin = qm_ServiceRate (mb_Queue b) - qm_ArrivalRate (mb_Queue b), rs_CostGradient = cd_CostGradient base,
      rs_DegradationRate = sa_StabilityDerivative (mb_Stability b) \<rparr>"

definition recommend_cfg :: "PhaseConfig \<Rightarrow> ServiceModelBundle \<Rightarrow> RecommendationConfig" where
  "recommend_cfg cfg b =
    \<lparr> rc_CapacityGain = fl 0.40, rc_EfficiencyGain = fl 0.25, rc_DampingGain = fl 0.20, rc_RetryGain = fl 0.20,
      rc_BrownoutGain = fl 0.15, rc_RiskCollapseW = fl 0.55, rc_RiskInteractW = fl 0.30, rc_RiskViabilityW = fl 0.15,
      rc_SLA_CollapseRef = phaseMax (pcf_CollapseThreshold cfg) (fl 0.1), rc_SLA_InteractRef = 1,
      rc_SLA_MinThroughput = phaseMax (qm_ServiceRate (mb_Queue b) * fl 0.75) (fl 0.1), rc_RiskThreshold = fl 0.65,
      rc_TrendGain = fl 0.75, rc_SoftmaxTemp = 1 \<rparr>"

definition recommend ::
  "PhaseConfig \<Rightarrow> ServiceModelBundle \<Rightarrow> ControlDirective \<Rightarrow> EngineDecision \<Rightarrow> ObjectiveScore \<Rightarrow> PolicyRecommendation" where
  "recommend cfg b base phase1 objective =
    RecommendPolicy (phase_comparison b phase1 objective) (phase_signals b base) (recommend_cfg cfg b)"

section \<open>Phase 3: the autopilot\<close>

definition retry_ratio :: "ServiceModelBundle \<Rightarrow> EngineDecision \<Rightarrow> f64" where
  "retry_ratio b phase1 = f64_of_int (rd_RetryLimit (ed_Retry phase1)) / phaseMax (f64_of_int (currentRetry b)) 1"

definition tune_mpc ::
  "ServiceModelBundle \<Rightarrow> EngineDecision \<Rightarrow> f64 \<Rightarrow> MPCWeighting \<Rightarrow> MPCOptimiser \<Rightarrow> MPCOptimiser" where
  \<comment> \<open>the policy's bounds, the sandbox's risk barrier and the adapter's weights\<close>
  "tune_mpc b phase1 combinedRisk intel m =
    (let cur = f64_of_int (currentReplicas b);
         m = (if 0 < cur
              then m\<lparr> mo_MinCapacity := f64_of_int (sd_MinReplicas (ed_Scaling phase1)) / cur,
                      mo_MaxCapacity := f64_of_int (sd_MaxReplicas (ed_Scaling phase1)) / cur \<rparr>
              else m)
     in m\<lparr> mo_SafetyBarrier := fl 0.15 + fl 2 * combinedRisk,
           mo_RiskWeight := fl 0.4 + fl 1.5 * combinedRisk + mw_RiskWeight intel,
           mo_SmoothCost := phaseMax (fl 0.01) (mo_SmoothCost m + mw_SmoothCost intel) \<rparr>)"

definition measured_plant ::
  "ServiceModelBundle \<Rightarrow> ControlDirective \<Rightarrow> EngineDecision \<Rightarrow> PolicyRecommendation \<Rightarrow> f64 \<Rightarrow> CongestionState" where
  "measured_plant b base phase1 phase2 active =
    (let q = mb_Queue b; st = mb_Stability b
     in \<lparr> cg_Backlog = qm_MeanQueueLen q, cg_ArrivalMean = qm_ArrivalRate q,
          cg_ArrivalVar = phaseMax (sm_ArrivalCoV (mb_Stochastic b)) (fl 0.01), cg_BurstState = 0, cg_RegimeConfidence = 0,
          cg_ServiceRate = phaseMax (qm_ServiceRate q) (fl 0.1),
          cg_ServiceEfficiency = phaseClamp (1 - sa_CollapseRisk st) (fl 0.1) 1,
          cg_ConcurrencyLimit = phaseMax (qm_Concurrency q) 1, cg_CapacityActive = phaseMax active (fl 0.5),
          cg_CapacityTarget = phaseMax (cd_ScaleFactor base + fl 0.15 * pr_CapacityDelta phase2) (fl 0.5),
          cg_CapacityTauUp = 1, cg_CapacityTauDown = fl 4, cg_RetryFactor = phaseClamp (retry_ratio b phase1) 0 (fl 3),
          cg_Latency = phaseMax (qm_AdjustedWaitMs q / fl 100) 0, cg_CPUPressure = phaseClamp (qm_Utilisation q) 0 (fl 1.5),
          cg_NetworkJitter = sa_OscillationRisk st, cg_Disturbance = 0, cg_DisturbanceEnergy = 0,
          cg_UpstreamPressure = phaseClamp (qm_UpstreamPressure q) 0 (fl 1.5),
          cg_TopologyAmplification = phaseMax (1 + sa_FeedbackGain st) 1,
          cg_CacheRelief = phaseClamp (cd_CacheAggression (ed_Cache phase1)) 0 1 \<rparr>)"

definition autopilot_input ::
  "ServiceModelBundle \<Rightarrow> ControlDirective \<Rightarrow> EngineDecision \<Rightarrow> PolicyRecommendation \<Rightarrow> RuntimeState \<Rightarrow> RuntimeState" where
  \<comment> \<open>what \<open>runAutopilot\<close> overwrites in the state before the tick\<close>
  "autopilot_input b base phase1 phase2 s =
    (let ro = rs_Rollout s;
         ro = (if feq (rl_CapacityActive ro) 0 then ro\<lparr> rl_CapacityActive := phaseMax (cd_ScaleFactor base) (fl 0.5) \<rparr> else ro)
     in s\<lparr> rs_Rollout := ro, rs_Plant := measured_plant b base phase1 phase2 (rl_CapacityActive ro),
           rs_ID := (rs_ID s)\<lparr> id_ArrivalEstimate := qm_ArrivalRate (mb_Queue b),
             id_ArrivalVar := phaseMax (sm_ArrivalCoV (mb_Stochastic b)) (fl 0.01),
             id_ModelConfidence := phaseClamp (ed_Confidence phase1) (fl 0.1) 1 \<rparr> \<rparr>)"

definition runAutopilot ::
  "tick_env \<Rightarrow> ServiceModelBundle \<Rightarrow> ControlDirective \<Rightarrow> EngineDecision \<Rightarrow> PolicyRecommendation \<Rightarrow> MPCWeighting \<Rightarrow>
    'w phaseServiceRuntime \<Rightarrow> (RuntimeOrchestrator \<times> RuntimeState \<times> RuntimeTelemetry) option" where
  "runAutopilot env b base phase1 phase2 intel svc =
    (let risk = phaseMax (pr_RiskScore phase2) (xm_UnifiedRisk (xo_Meta (vc_lastSandbox svc)));
         r = (vc_autopilot svc)\<lparr> ro_MPC := tune_mpc b phase1 risk intel (ro_MPC (vc_autopilot svc)) \<rparr>
     in Tick_autopilot env r (autopilot_input b base phase1 phase2 (vc_autopilotState svc))
          (qm_ArrivalRate (mb_Queue b))
          (phaseClamp (pr_RiskScore phase2 + qm_UpstreamPressure (mb_Queue b)) 0 1))"

section \<open>The sandbox\<close>

definition shouldRunSandbox :: "ServiceModelBundle \<Rightarrow> EngineDecision \<Rightarrow> PolicyRecommendation \<Rightarrow> ObjectiveScore \<Rightarrow> bool" where
  "shouldRunSandbox b phase1 phase2 objective \<longleftrightarrow>
    fl 0.55 < os_CompositeScore objective \<or> fl 0.60 < ed_GlobalRisk phase1 \<or> pr_RiskUp phase2 \<or>
    fl 0.50 < sa_CollapseRisk (mb_Stability b)"

definition sandbox_scenario_cfg :: "int \<Rightarrow> ServiceModelBundle \<Rightarrow> EngineDecision \<Rightarrow> PolicyRecommendation \<Rightarrow> ScenarioConfig" where
  "sandbox_scenario_cfg seed b phase1 phase2 =
    (let q = mb_Queue b
     in \<lparr> scf_BaseArrival = phaseMax (qm_ArrivalRate q) (fl 0.1), scf_BaseService = phaseMax (qm_ServiceRate q) (fl 0.1),
          scf_Duration = 6 * Second, scf_Step = Second, scf_Seed = seed,
          scf_NoiseStd = phaseClamp (sm_ArrivalCoV (mb_Stochastic b)) (fl 0.01) (fl 0.2), scf_ARCoef = fl 0.6,
          scf_RetryGain = fl 0.4 + fl 0.2 * phaseClamp (f64_of_int (rd_RetryLimit (ed_Retry phase1))) 0 (fl 3),
          scf_RetryDecay = fl 0.6, scf_RetryJitter = fl 0.15, scf_SaturationCap = phaseMax (qm_MeanQueueLen q + fl 10) (fl 10),
          scf_BurstOnProb = fl 0.10 + fl 0.10 * sm_BurstAmplification (mb_Stochastic b), scf_BurstOffProb = fl 0.50,
          scf_ParetoAlpha = fl 1.5, scf_BurstCeiling = fl 3, scf_HeavyTailProb = fl 0.30, scf_Harmonics = [fl 0.20, fl 0.10],
          scf_PhaseDrift = fl 0.01, scf_ShockTimes = [2 * Second, 4 * Second],
          scf_ShockMag = fl 0.2 + fl 0.4 * pr_RiskScore phase2, scf_RelaxTau = fl 2,
          scf_CapacityDrop = fl 0.10 + fl 0.20 * sa_CollapseRisk (mb_Stability b),
          scf_CollapseProb = fl 0.05 + fl 0.10 * sa_CollapseRisk (mb_Stability b),
          scf_RateLimit = phaseMax (qm_ServiceRate q * fl 1.2) 1, scf_ShedProb = fl 0.1,
          scf_BreakerThresh = phaseMax (qm_MeanQueueLen q * fl 1.5) (fl 5), scf_FanoutBase = 1, scf_FanoutLoad = fl 0.2,
          scf_FanoutVar = fl 0.05 \<rparr>)"

definition sandbox_fuel :: nat where
  \<comment> \<open>six steps of a second\<close>
  "sandbox_fuel = 8"

definition phase_job :: "string \<Rightarrow> Scenario \<Rightarrow> f64 \<Rightarrow> f64 \<Rightarrow> f64 \<Rightarrow> SimulationJob" where
  "phase_job name sn cap retry cache =
    \<lparr> jb_ID = name, jb_Index = 0, jb_Seed = 0, jb_Scenario = Some sn,
      jb_PlantCfg = \<lparr> pg_CapacityScale = cap, pg_RetryBias = retry, pg_CacheRelief = cache \<rparr> \<rparr>"

definition phase_experiment ::
  "string \<Rightarrow> string \<Rightarrow> Scenario \<Rightarrow> ServiceModelBundle \<Rightarrow> ControlDirective \<Rightarrow> EngineDecision \<Rightarrow> PolicyRecommendation \<Rightarrow>
    RuntimeTelemetry \<Rightarrow> ExperimentScenario" where
  "phase_experiment sid hash sn b base phase1 phase2 auto =
    (let cap = cd_ScaleFactor base + fl 0.20 * pr_CapacityDelta phase2;
         retry = phaseClamp (pr_RetryPressureDelta phase2) (- 1) 1;
         cache = phaseClamp (cd_CacheAggression (ed_Cache phase1) + pr_EfficiencyDelta phase2) 0 1
     in \<lparr> xs_BaseJobs = [phase_job (sid @ ''-base-a'') sn 1 0 0,
            phase_job (sid @ ''-base-b'') sn (1 + fl 0.05 * phaseClamp (sm_ArrivalCoV (mb_Stochastic b)) 0 1) 0 0],
          xs_CandJobs = [phase_job (sid @ ''-cand-a'') sn (phaseClamp (cap + fl 0.05 * rt_Capacity auto) (fl 0.5) (fl 2.5)) retry cache,
            phase_job (sid @ ''-cand-b'') sn (phaseClamp cap (fl 0.5) (fl 2.5)) retry cache],
          xs_BaseHash = hash, xs_CandHash = hash \<rparr>)"

definition sandbox_weights :: "PhaseConfig \<Rightarrow> ServiceModelBundle \<Rightarrow> ComparisonWeights" where
  "sandbox_weights cfg b =
    \<lparr> cmw_LatencyW = fl 0.3, cmw_TailW = fl 0.2, cmw_BacklogW = fl 0.2, cmw_OscW = fl 0.1, cmw_SettleW = fl 0.1,
      cmw_ThroughputW = fl 0.2, cmw_CollapseW = fl 0.4, cmw_InteractW = fl 0.2, cmw_SLA_TailLimit = fl 2,
      cmw_SLA_CollapseLimit = phaseMax (pcf_CollapseThreshold cfg) (fl 0.1),
      cmw_SLA_MinThroughput = phaseMax (qm_ServiceRate (mb_Queue b) * fl 0.75) (fl 0.1), cmw_Hysteresis = fl 0.05,
      cmw_Discount = fl 0.1 \<rparr>"

definition sandbox_rec_cfg :: "PhaseConfig \<Rightarrow> ServiceModelBundle \<Rightarrow> RecommendationConfig" where
  "sandbox_rec_cfg cfg b =
    (recommend_cfg cfg b)\<lparr> rc_DampingGain := fl 0.15, rc_BrownoutGain := fl 0.10, rc_RiskCollapseW := fl 0.60,
      rc_RiskInteractW := fl 0.25, rc_TrendGain := fl 0.70 \<rparr>"

definition sandbox_exec :: ExecutorConfig where
  "sandbox_exec =
    \<lparr> ec_InitWorkers = 1, ec_MaxWorkers = 2, ec_JobBuffer = 4, ec_ResultBuffer = 4, ec_ScalerInterval = 250 * Millisecond,
      ec_EnableAutoscale = False, ec_IdleTimeout = 500 * Millisecond, ec_ReorderWindow = 8, ec_FlushOnCancel = True \<rparr>"

definition runSandbox ::
  "'w phase_env \<Rightarrow> PhaseConfig \<Rightarrow> string \<Rightarrow> u64 \<Rightarrow> ServiceModelBundle \<Rightarrow> ControlDirective \<Rightarrow> EngineDecision \<Rightarrow>
    PolicyRecommendation \<Rightarrow> RuntimeTelemetry \<Rightarrow> (string + ExperimentOutput) option" where
  "runSandbox env cfg sid t b base phase1 phase2 auto =
    (let seed = sint (hashService sid t); us = fst (pe_draws env seed); ns = snd (pe_draws env seed);
         hash = digits 16 (unat (hashService sid (t XOR 0x9e3779b97f4a7c15)))
     in map_option (\<lambda>sn. RunSandboxExperiment (pe_executor env)
            \<lparr> xc_Seed = seed, xc_HorizonID = sid @ ''-'' @ digits 10 (unat t) \<rparr>
            \<lparr> xi_BaseTraces = [], xi_CandTraces = [], xi_Scenario = Some (phase_experiment sid hash sn b base phase1 phase2 auto) \<rparr>
            \<lparr> xf_Weights = sandbox_weights cfg b, xf_RecCfg = sandbox_rec_cfg cfg b, xf_RunSimulation = True, xf_ExecCfg = sandbox_exec \<rparr>
            (phase_signals b base))
          (GenerateScenario sandbox_fuel us ns (sandbox_scenario_cfg seed b phase1 phase2) ScenarioSpike))"

section \<open>Phase 4: the directive\<close>

definition mode_index :: "AutonomyMode \<Rightarrow> int" where
  "mode_index m = (case m of ModeStable \<Rightarrow> 0 | ModeGuarded \<Rightarrow> 1 | ModeCritical \<Rightarrow> 2 | ModeRecovery \<Rightarrow> 3)"

definition mergeSandboxAdvice :: "PolicyRecommendation \<Rightarrow> PolicyRecommendation \<Rightarrow> SandboxAdvice" where
  "mergeSandboxAdvice primary sim =
    \<lparr> sa_CapacityDelta = pr_CapacityDelta primary + pr_CapacityDelta sim,
      sa_EfficiencyDelta = phaseMax (pr_EfficiencyDelta primary) (pr_EfficiencyDelta sim),
      sa_DampingDelta = phaseMax (pr_DampingDelta primary) (pr_DampingDelta sim),
      sa_RetryPressureDelta = phaseMax (pr_RetryPressureDelta primary) (pr_RetryPressureDelta sim),
      sa_BrownoutDelta = phaseMax (pr_BrownoutDelta primary) (pr_BrownoutDelta sim),
      sa_RiskScore = phaseMax (pr_RiskScore primary) (pr_RiskScore sim),
      sa_Urgency = phaseMax (pr_UrgencyMag primary) (pr_UrgencyMag sim),
      sa_Confidence = phaseMax (pr_Confidence primary) (pr_Confidence sim),
      sa_RiskUp = (pr_RiskUp primary \<or> pr_RiskUp sim) \<rparr>"

definition autopilotReplicas :: "RuntimeTelemetry \<Rightarrow> int" where
  "autopilotReplicas auto = phaseMaxInt (int_of_f64 (math_Round (rt_Capacity auto))) 1"

definition phase_state :: "ServiceModelBundle \<Rightarrow> EngineDecision \<Rightarrow> RuntimeTelemetry \<Rightarrow> ObjectiveScore \<Rightarrow> SystemState" where
  "phase_state b phase1 auto objective =
    (let q = mb_Queue b; n = autopilotReplicas auto; retry = currentRetry b
     in \<lparr> sys_Replicas = n, sys_QueueLimit = phaseMaxInt (int_of_f64 (phaseMax (qm_MeanQueueLen q * fl 2) (fl 10))) 10,
          sys_RetryLimit = retry, sys_CacheAggression = phaseClamp (cd_CacheAggression (ed_Cache phase1)) 0 1,
          sys_QueueDepth = qm_MeanQueueLen q, sys_PredictedArrival = phaseMax (qm_ArrivalRate q) (fl 0.1),
          sys_ArrivalRate = phaseMax (qm_ArrivalRate q) (fl 0.1), sys_ServiceRate = phaseMax (qm_ServiceRate q) (fl 0.1),
          sys_Latency = phaseMax (qm_AdjustedWaitMs q) 1,
          sys_Risk = phaseMax (sa_CollapseRisk (mb_Stability b)) (os_CompositeScore objective),
          sys_Utilisation = phaseClamp (qm_Utilisation q) 0 (fl 2),
          sys_SLATarget = phaseMax (os_ReferenceLatencyMs objective) (fl 500), sys_MinReplicas = 1,
          sys_MaxReplicas = phaseMaxInt (wrap64 (n * 3)) (wrap64 (n + 2)), sys_MinRetry = 1,
          sys_MaxRetry = phaseMaxInt (wrap64 (retry + 3)) 3 \<rparr>)"

definition auto_risk :: "f64 \<Rightarrow> AutonomyMode \<Rightarrow> f64" where
  "auto_risk confidence mode =
    phaseClamp (fl 0.40 * (1 - confidence) + fl 0.35 * f64_of_int (mode_index mode) / fl 3) 0 1"

definition autoRisk :: "ServiceModelBundle \<Rightarrow> RuntimeTelemetry \<Rightarrow> f64" where
  "autoRisk b auto =
    (let risk = auto_risk (rt_Confidence auto) (rt_Mode auto)
     in if qm_MeanQueueLen (mb_Queue b) * fl 1.5 < rt_Backlog auto then phaseMax risk (fl 0.55) else risk)"

definition phase_advisory ::
  "ServiceModelBundle \<Rightarrow> EngineDecision \<Rightarrow> PolicyRecommendation \<Rightarrow> PolicyRecommendation \<Rightarrow> RuntimeTelemetry \<Rightarrow> MPCWeighting \<Rightarrow>
    AdvisoryBundle" where
  "phase_advisory b phase1 phase2 sim auto intel =
    \<lparr> av_Autopilot = \<lparr> aa_MinReplicas = sd_MinReplicas (ed_Scaling phase1), aa_MaxReplicas = sd_MaxReplicas (ed_Scaling phase1),
        aa_PredictedBacklog = rt_Backlog auto, aa_PredictedLatency = rt_Latency auto, aa_InstabilityRisk = autoRisk b auto,
        aa_Confidence = rt_Confidence auto, aa_OverrideRate = rt_OverrideRate auto, aa_Mode = mode_index (rt_Mode auto),
        aa_Damping = rt_Damping auto,
        aa_Warning = (mode_index ModeCritical \<le> mode_index (rt_Mode auto) \<and> rt_Confidence auto < fl 0.5) \<rparr>,
      av_Intelligence = \<lparr> ia_Regime = mw_Regime intel, ia_RiskEWMA = mw_RiskEWMA intel, ia_AnomalyScore = mw_AnomalyScore intel,
        ia_RiskWeight = mw_RiskWeight intel, ia_SmoothCost = mw_SmoothCost intel, ia_CostBias = mw_CostBias intel \<rparr>,
      av_Policy = \<lparr> pa_DesiredReplicas = sd_DesiredReplicas (ed_Scaling phase1), pa_MinReplicas = sd_MinReplicas (ed_Scaling phase1),
        pa_MaxReplicas = sd_MaxReplicas (ed_Scaling phase1), pa_RetryLimit = rd_RetryLimit (ed_Retry phase1),
        pa_QueueLimit = qd_QueueLimit (ed_Queue phase1), pa_CacheAggression = cd_CacheAggression (ed_Cache phase1),
        pa_Risk = ed_GlobalRisk phase1, pa_Confidence = ed_Confidence phase1 \<rparr>,
      av_Sandbox = mergeSandboxAdvice phase2 sim \<rparr>"

definition selectControlDirective ::
  "'w phase_env \<Rightarrow> PhaseConfig \<Rightarrow> string \<Rightarrow> u64 \<Rightarrow> gotime \<Rightarrow> ServiceModelBundle \<Rightarrow> EngineDecision \<Rightarrow> PolicyRecommendation \<Rightarrow>
    PolicyRecommendation \<Rightarrow> RuntimeTelemetry \<Rightarrow> MPCWeighting \<Rightarrow> ObjectiveScore \<Rightarrow> ControlCandidate list \<Rightarrow> Authority \<Rightarrow>
    ControlDirective \<times> Authority" where
  "selectControlDirective env cfg sid t now b phase1 phase2 sim auto intel objective cands control =
    (let (decision, control) = Decide (fst (pe_control env sid)) (snd (pe_control env sid))
           \<lparr> ai_ServiceID = sid, ai_Tick = t, ai_Now = now, ai_State = phase_state b phase1 auto objective,
             ai_Config = \<lparr> au_TargetUtilisation = pcf_UtilisationSetpoint cfg, au_TickSeconds = tickSec cfg,
               au_MaxScaleDelta = controlScaleDelta (pressureLevelFromRisk (os_CompositeScore objective)) \<rparr>,
             ai_Advisory = phase_advisory b phase1 phase2 sim auto intel, ai_OptimizerCandidates = cands \<rparr> control
     in (ad_Directive decision, control))"

section \<open>A tick of all services\<close>

definition phase_infra ::
  "PhaseControls \<Rightarrow> u64 \<Rightarrow> ServiceModelBundle \<Rightarrow> EngineDecision \<Rightarrow> PolicyRecommendation \<Rightarrow> ObjectiveScore \<Rightarrow> ExperimentOutput \<Rightarrow> InfraState" where
  "phase_infra c t b phase1 phase2 objective lst =
    (let q = mb_Queue b;
         simRisk = (if xm_HorizonID (xo_Meta lst) \<noteq> [] then xm_UnifiedRisk (xo_Meta lst) else 0);
         press = phaseClamp (phaseMax (pr_RiskScore phase2) simRisk) 0 (fl 1.5);
         sev = slaSeverity b objective; forced = intelligenceForced t c
     in \<lparr> in_QueueDepth = qm_MeanQueueLen q, in_LatencyP95 = qm_AdjustedWaitMs q,
          in_CPUUsage = phaseClamp (qm_Utilisation q) 0 (fl 1.5), in_RetryRate = phaseClamp (retry_ratio b phase1) 0 (fl 4),
          in_CapacityPressure = (if forced then phaseMax press 1 else press),
          in_SLASeverity = (if forced then phaseMax sev 1 else sev),
          in_PerfScore = phaseClamp (1 - os_CompositeScore objective) 0 1 \<rparr>)"

definition base_directive :: "PhaseConfig \<Rightarrow> gotime \<Rightarrow> string \<Rightarrow> ControlDirective" where
  "base_directive cfg now sid =
    zero_directive\<lparr> cd_ServiceID := sid, cd_ComputedAt := now, cd_ScaleFactor := 1,
      cd_TargetUtilisation := pcf_UtilisationSetpoint cfg, cd_Active := True \<rparr>"

definition sandbox_phase ::
  "'w phase_env \<Rightarrow> 'w phaseRuntime \<Rightarrow> u64 \<Rightarrow> string \<Rightarrow> ServiceModelBundle \<Rightarrow> ControlDirective \<Rightarrow> EngineDecision \<Rightarrow>
    PolicyRecommendation \<Rightarrow> ObjectiveScore \<Rightarrow> RuntimeTelemetry \<Rightarrow> ExperimentOutput \<Rightarrow> ExperimentOutput option" where
  \<comment> \<open>the last experiment after this tick; a failed experiment is logged and skipped\<close>
  "sandbox_phase env p t sid b base phase1 phase2 objective auto lst =
    (if sandboxForced t (ph_controls p) \<or> t mod 10 = 0 \<and> shouldRunSandbox b phase1 phase2 objective
     then map_option (\<lambda>r. case r of Inl e \<Rightarrow> lst | Inr x \<Rightarrow> x) (runSandbox env (ph_cfg p) sid t b base phase1 phase2 auto)
     else Some lst)"

definition service_tick ::
  "'w phase_env \<Rightarrow> u64 \<Rightarrow> gotime \<Rightarrow> ObjectiveScore \<Rightarrow> (string, ControlCandidate list) gomap \<Rightarrow> 'w phaseRuntime \<Rightarrow>
    string \<Rightarrow> ServiceModelBundle \<Rightarrow> 'w phaseServiceRuntime \<Rightarrow> (ControlDirective \<times> 'w phaseServiceRuntime) option" where
  "service_tick env t now objective cands p sid b svc =
    (let base = base_directive (ph_cfg p) now sid;
         (pol, phase1) = evaluatePolicy (ph_controls p) b base (vc_policyState svc);
         phase2 = recommend (ph_cfg p) b base phase1 objective
     in case Step_adapter (pe_brain env) (phase_infra (ph_controls p) t b phase1 phase2 objective (vc_lastSandbox svc)) (vc_adapter svc) of
          None \<Rightarrow> None
        | Some (intel, adapter) \<Rightarrow>
            case runAutopilot (pe_tick env sid) b base phase1 phase2 intel svc of
              None \<Rightarrow> None
            | Some (auto, s, tel) \<Rightarrow>
                case sandbox_phase env p t sid b base phase1 phase2 objective tel (vc_lastSandbox svc) of
                  None \<Rightarrow> None
                | Some lst \<Rightarrow>
                    let (d, control) = selectControlDirective env (ph_cfg p) sid t now b phase1 phase2 (xo_Advice lst) tel intel
                          objective (case map_of cands sid of None \<Rightarrow> [] | Some cs \<Rightarrow> cs) (vc_control svc)
                    in Some (d, svc\<lparr> vc_policyState := pol, vc_autopilot := auto, vc_autopilotState := s, vc_adapter := adapter,
                                     vc_control := control, vc_lastSandbox := lst \<rparr>))"

fun services_tick ::
  "'w phase_env \<Rightarrow> u64 \<Rightarrow> gotime \<Rightarrow> ObjectiveScore \<Rightarrow> (string, ControlCandidate list) gomap \<Rightarrow>
    (string, ServiceModelBundle) gomap \<Rightarrow> 'w phaseRuntime \<Rightarrow> ((string, ControlDirective) gomap \<times> 'w phaseRuntime) option" where
  "services_tick env t now objective cands [] p = Some ([], p)"
| "services_tick env t now objective cands ((sid, b) # bs) p =
    (case service_tick env t now objective cands p sid b (ensureService env sid p) of
       None \<Rightarrow> None
     | Some (d, svc) \<Rightarrow>
         map_option (\<lambda>(out, p). ((sid, d) # out, p))
           (services_tick env t now objective cands bs (p\<lparr> ph_services := AList.update sid svc (ph_services p) \<rparr>)))"

definition phase_apply ::
  "'w phase_env \<Rightarrow> u64 \<Rightarrow> gotime \<Rightarrow> (string, ServiceModelBundle) gomap \<Rightarrow> ObjectiveScore \<Rightarrow> (string, ControlCandidate list) gomap \<Rightarrow>
    'w phaseRuntime \<Rightarrow> ((string, ControlDirective) gomap \<times> 'w phaseRuntime) option" where
  "phase_apply env t now bundles objective cands p =
    map_option (\<lambda>(out, p). (out, p\<lparr> ph_services := filter (\<lambda>(sid, s). sid \<in> set (map fst bundles)) (ph_services p) \<rparr>))
      (services_tick env t now objective cands bundles p)"

section \<open>Every directive is safe\<close>

definition service_ok :: "int \<Rightarrow> 'w phaseServiceRuntime \<Rightarrow> bool" where
  "service_ok m s \<longleftrightarrow> autopilot_ok (vc_autopilot s) (vc_autopilotState s) \<and> adapter_ok m 4 (vc_adapter s) \<and>
    (cd_ScaleFactor (at_LastDirective (vc_control s)) = 0 \<or> scale_ok (cd_ScaleFactor (at_LastDirective (vc_control s))))"

definition phase_ok :: "int \<Rightarrow> 'w phaseRuntime \<Rightarrow> bool" where
  "phase_ok m p \<longleftrightarrow> (\<forall>(sid, s) \<in> set (ph_services p). service_ok m s)"

lemma phaseMaxInt_range: "1 \<le> phaseMaxInt (int_of_f64 x) 1 \<and> phaseMaxInt (int_of_f64 x) 1 \<le> maxI64"
  using int_of_f64_range [of x] by (simp add: phaseMaxInt_def maxI64_def)

lemma new_service_ok: "0 \<le> m \<Longrightarrow> service_ok m (new_service env cfg sid)"
  by (simp add: service_ok_def new_service_def autopilot_ok_def runtime_autopilot_def runtime_predictor_ok history_ok_def
      new_state_def adapter_ok_def NewAutonomyControlAdapter_def NewAuthority_def zero_directive_def list_all_length
      inside_def zero_f64_def)

lemma ensureService_ok: "phase_ok m p \<Longrightarrow> 0 \<le> m \<Longrightarrow> service_ok m (ensureService env sid p)"
  using new_service_ok by (force simp: ensureService_def phase_ok_def dest: map_of_SomeD split: option.split)

lemma selectControlDirective_ok:
  assumes "selectControlDirective env cfg sid t now b phase1 phase2 sim auto intel objective cands control = (d, control')"
    and "cd_ScaleFactor (at_LastDirective control) = 0 \<or> scale_ok (cd_ScaleFactor (at_LastDirective control))"
  shows "scale_ok (cd_ScaleFactor d) \<and> at_LastDirective control' = d"
proof -
  obtain inp where e: "(d, control') = (ad_Directive (fst (Decide (fst (pe_control env sid)) (snd (pe_control env sid)) inp control)),
      snd (Decide (fst (pe_control env sid)) (snd (pe_control env sid)) inp control))"
    and r: "sys_Replicas (ai_State inp) \<le> maxI64"
    using assms(1) phaseMaxInt_range [of "math_Round (rt_Capacity auto)"]
    by (auto simp: selectControlDirective_def case_prod_unfold Let_def phase_state_def autopilotReplicas_def)
  have "at_LastDirective control' = d" using e by simp
  then show ?thesis using e r assms(2) Decide_first Decide_next unfolding emitted_def by (metis prod.inject)
qed

lemma runAutopilot_ok:
  assumes "runAutopilot env b base phase1 phase2 intel svc = Some (r, s, tel)" "autopilot_ok (vc_autopilot svc) (vc_autopilotState svc)"
  shows "autopilot_ok r s"
proof -
  let ?m = "tune_mpc b phase1 (phaseMax (pr_RiskScore phase2) (xm_UnifiedRisk (xo_Meta (vc_lastSandbox svc)))) intel (ro_MPC (vc_autopilot svc))"
  let ?s = "autopilot_input b base phase1 phase2 (vc_autopilotState svc)"
  have "autopilot_ok ((vc_autopilot svc)\<lparr> ro_MPC := ?m \<rparr>) ?s"
    using assms(2) by (simp add: autopilot_ok_def autopilot_input_def Let_def)
  from tick_keeps_ok [OF this assms(1) [unfolded runAutopilot_def Let_def]] show ?thesis by blast
qed

lemma service_tick_ok:
  assumes "service_tick env t now objective cands p sid b svc = Some (d, svc')" "service_ok m svc" "brain_ok m 4 (pe_brain env)" "m \<le> 1000"
  shows "service_ok m svc' \<and> scale_ok (cd_ScaleFactor d)"
proof -
  let ?base = "base_directive (ph_cfg p) now sid"
  obtain pol phase1 where 1: "evaluatePolicy (ph_controls p) b ?base (vc_policyState svc) = (pol, phase1)" by fastforce
  define phase2 where "phase2 = recommend (ph_cfg p) b ?base phase1 objective"
  define cs where "cs = (case map_of cands sid of None \<Rightarrow> [] | Some cs \<Rightarrow> cs)"
  note e = assms(1) [unfolded service_tick_def Let_def 1 prod.case, folded phase2_def cs_def]
  obtain intel ad where 2: "Step_adapter (pe_brain env) (phase_infra (ph_controls p) t b phase1 phase2 objective (vc_lastSandbox svc))
      (vc_adapter svc) = Some (intel, ad)"
    using e by (cases "Step_adapter (pe_brain env) (phase_infra (ph_controls p) t b phase1 phase2 objective (vc_lastSandbox svc)) (vc_adapter svc)") auto
  note e = e [unfolded 2 option.case prod.case]
  obtain r s tel where 3: "runAutopilot (pe_tick env sid) b ?base phase1 phase2 intel svc = Some (r, s, tel)"
    using e by (cases "runAutopilot (pe_tick env sid) b ?base phase1 phase2 intel svc") auto
  note e = e [unfolded 3 option.case prod.case]
  obtain lst where 4: "sandbox_phase env p t sid b ?base phase1 phase2 objective tel (vc_lastSandbox svc) = Some lst"
    using e by (cases "sandbox_phase env p t sid b ?base phase1 phase2 objective tel (vc_lastSandbox svc)") auto
  have 5: "selectControlDirective env (ph_cfg p) sid t now b phase1 phase2 (xo_Advice lst) tel intel objective cs (vc_control svc)
      = (d, vc_control svc')" and v: "vc_autopilot svc' = r" "vc_autopilotState svc' = s" "vc_adapter svc' = ad"
    using e [unfolded 4 option.case] by (auto split: prod.splits)
  have "adapter_ok m 4 (vc_adapter svc)" using assms(2) by (simp add: service_ok_def)
  from adapter_step_keeps [OF this assms(3,4), of "phase_infra (ph_controls p) t b phase1 phase2 objective (vc_lastSandbox svc)"]
  have "adapter_ok m 4 ad" using 2 by auto
  moreover have "autopilot_ok r s" using runAutopilot_ok [OF 3] assms(2) by (simp add: service_ok_def)
  ultimately show ?thesis using selectControlDirective_ok [OF 5] assms(2) by (simp add: service_ok_def v)
qed

lemma services_tick_ok:
  assumes "services_tick env t now objective cands bs p = Some (out, p')" "phase_ok m p" "brain_ok m 4 (pe_brain env)" "0 \<le> m" "m \<le> 1000"
  shows "phase_ok m p' \<and> map fst out = map fst bs \<and> list_all (\<lambda>(sid, d). scale_ok (cd_ScaleFactor d)) out \<and>
    keys (ph_services p') = keys (ph_services p) \<union> keys bs"
  using assms(1,2)
proof (induction bs arbitrary: p out)
  case (Cons x bs)
  obtain sid b where x: "x = (sid, b)" by (cases x)
  obtain d svc where s: "service_tick env t now objective cands p sid b (ensureService env sid p) = Some (d, svc)"
    using Cons.prems(1) x by (auto split: option.splits)
  then obtain out' where r: "services_tick env t now objective cands bs (p\<lparr> ph_services := AList.update sid svc (ph_services p) \<rparr>) = Some (out', p')"
    "out = (sid, d) # out'" using Cons.prems(1) x by auto
  have ok: "service_ok m svc \<and> scale_ok (cd_ScaleFactor d)"
    using service_tick_ok [OF s ensureService_ok [OF Cons.prems(2) assms(4)] assms(3,5)] .
  then have "phase_ok m (p\<lparr> ph_services := AList.update sid svc (ph_services p) \<rparr>)"
    using Cons.prems(2) by (auto simp: phase_ok_def dest: set_updateD)
  from Cons.IH [OF r(1) this] show ?case using ok r(2) x by auto
qed simp

lemma keys_filter_fst: "keys (filter (\<lambda>(k, v). k \<in> K) m) = keys m \<inter> K"
  by (induction m) auto


section \<open>What the wiring of the phases does\<close>

lemma ten_times: "\<not> fl (r * 10) < Fin r" if "1 < r"
proof -
  have "0 \<le> r * 10" using that by simp
  then consider "fl (r * 10) = PInf" | "fl (r * 10) = Fin (rnd (r * 10))" using fl_pos_cases by blast
  then show ?thesis
  proof cases
    case 2
    define k where "k = \<lfloor>log 2 r\<rfloor>"
    have "of_int k \<le> log 2 r" "log 2 r < of_int (k + 1)" by (simp_all add: k_def floor_less_iff [symmetric])
    then have "2 powr of_int k \<le> r" "r < 2 powr of_int (k + 1)" using that by (simp_all add: le_log_iff log_less_iff)
    then have b: "2 powi k \<le> r" "r < 2 powi (k + 1)" by (simp_all only: powr_powi)
    have "0 \<le> log 2 r" using that by simp
    then have "0 \<le> k" by (simp add: k_def)
    moreover have "(2 :: real) powi (k + 1) = 2 * 2 powi k" by (simp add: power_int_add)
    ultimately have "2 powi (k + 1) \<le> r * 10" using b(1) that by simp
    moreover have "frep (2 powi (k + 1))" using \<open>0 \<le> k\<close> by (intro frep_pow2) simp
    ultimately have "2 powi (k + 1) \<le> rnd (r * 10)" by (rule rnd_ge)
    then show ?thesis using b(2) 2 by simp
  qed simp
qed

text \<open>
  The autopilot's guard against jumps of the arrival rate cannot fire: \<open>runAutopilot\<close> overwrites
  the estimate that the measurement is compared with by the measurement itself, so every rate is
  let through, only cut at zero.
\<close>

theorem arrival_guard_idle:
  "gate_arrival (autopilot_input b base phase1 phase2 s) (qm_ArrivalRate (mb_Queue b)) =
    (if qm_ArrivalRate (mb_Queue b) < 0 then 0 else qm_ArrivalRate (mb_Queue b))"
proof -
  have e: "id_ArrivalEstimate (rs_ID (autopilot_input b base phase1 phase2 s)) = qm_ArrivalRate (mb_Queue b)"
    by (simp add: autopilot_input_def Let_def)
  show ?thesis
    using ten_times by (cases "qm_ArrivalRate (mb_Queue b)") (auto simp: gate_arrival_def e Let_def one_f64_def zero_f64_def)
qed

lemma evaluatePolicy_scaling: "ed_Scaling (snd (evaluatePolicy c b base st)) = RecommendScaling (phase_scaling b)"
  by (simp add: evaluatePolicy_def EvaluatePolicies_def Let_def case_prod_unfold)

lemma RecommendScaling_bounds:
  "sd_MinReplicas (RecommendScaling s) = sc_MinReplicas s" "sd_MaxReplicas (RecommendScaling s) = sc_MaxReplicas s"
  by (simp_all add: RecommendScaling_def case_prod_unfold Let_def)

lemma currentReplicas_pos: "1 \<le> currentReplicas b"
  by (simp add: currentReplicas_def phaseMaxInt_range)

lemma wrap64_small: "minI64 \<le> i \<Longrightarrow> i \<le> maxI64 \<Longrightarrow> wrap64 i = i"
  by (simp add: wrap64_def sint_sbintrunc' minI64_def maxI64_def signed_take_bit_int_eq_self)

lemma planner_bounds:
  assumes "currentReplicas b \<le> 2 ^ 50"
  shows "let m' = tune_mpc b (snd (evaluatePolicy c b base st)) risk intel m
    in mo_MinCapacity m' = 1 / f64_of_int (currentReplicas b) \<and> 1 \<le> mo_MaxCapacity m' \<and> mo_MaxCapacity m' \<le> fl 3"
proof -
  define n where "n = currentReplicas b"
  have n: "1 \<le> n" "n \<le> 2 ^ 50" using currentReplicas_pos [of b] assms by (simp_all add: n_def)
  define k where "k = phaseMaxInt (wrap64 (n * 3)) (wrap64 (n + 2))"
  have "wrap64 (n * 3) = n * 3" "wrap64 (n + 2) = n + 2" using n by (auto intro!: wrap64_small simp: minI64_def maxI64_def)
  then have k: "n \<le> k" "k \<le> 3 * n" "k \<le> 2 ^ 53" using n by (auto simp: k_def phaseMaxInt_def)
  have f: "f64_of_int n = Fin (of_int n)" "f64_of_int k = Fin (of_int k)" using n k by (auto intro!: f64_of_int_small)
  have "real_of_int n \<le> of_int k" "real_of_int k \<le> of_int (3 * n)" "1 \<le> real_of_int n" using n k by (simp_all only: of_int_le_iff of_int_1_le_iff)
  then have "1 \<le> real_of_int k / of_int n" "real_of_int k / of_int n \<le> 3" by (simp_all add: field_simps)
  then have "fbtw 1 (f64_of_int k / f64_of_int n) 3" using n by (simp add: f) (intro fbtw_fl; simp)
  then show ?thesis using n
    by (auto simp: tune_mpc_def evaluatePolicy_scaling RecommendScaling_bounds phase_scaling_def Let_def n_def [symmetric] k_def [symmetric] f
        one_f64_def zero_f64_def elim!: fbtwE)
qed

text \<open>
  The bounds that the policy hands to the planner are ratios to the current replica count: for a
  service of any size the planner's capacity lies between one over that count and three, while the
  capacity that the plan reaches is rounded and reported to the authority as a number of replicas.
\<close>

theorem planner_bounds_are_ratios:
  assumes "currentReplicas b \<le> 2 ^ 50"
  shows "let m' = tune_mpc b (snd (evaluatePolicy c b base st)) risk intel m
    in mo_MinCapacity m' = 1 / f64_of_int (currentReplicas b) \<and> 1 \<le> mo_MaxCapacity m' \<and> mo_MaxCapacity m' \<le> fl 3"
  using assms by (rule planner_bounds)

fun tuned :: "nat \<Rightarrow> ServiceModelBundle \<Rightarrow> EngineDecision \<Rightarrow> f64 \<Rightarrow> MPCWeighting \<Rightarrow> MPCOptimiser \<Rightarrow> MPCOptimiser" where
  \<comment> \<open>the planner after some ticks with unchanged advice\<close>
  "tuned 0 b phase1 risk intel m = m"
| "tuned (Suc n) b phase1 risk intel m = tune_mpc b phase1 risk intel (tuned n b phase1 risk intel m)"

text \<open>
  Each tick sets the planner's risk weight from the current advice but adds the smoothness weight
  to the previous one: under constant advice the risk weight stays the same, while the smoothness
  cost has grown to at least \<open>n / 64\<close> after \<open>n\<close> ticks, for an advice inside the adapter's range.
\<close>

theorem smooth_cost_accumulates:
  assumes "mw_SmoothCost intel = Fin (1 / 64)" "0 \<le> mo_SmoothCost m" "n \<le> 2 ^ 40"
  shows "Fin (real n / 64) \<le> mo_SmoothCost (tuned n b phase1 risk intel m) \<and>
    mo_RiskWeight (tuned (Suc n) b phase1 risk intel m) = mo_RiskWeight (tuned 1 b phase1 risk intel m)"
proof -
  have "Fin (real n / 64) \<le> mo_SmoothCost (tuned n b phase1 risk intel m)"
    using assms(3)
  proof (induction n)
    case (Suc k)
    let ?x = "mo_SmoothCost (tuned k b phase1 risk intel m)"
    have "frep (of_int (int (Suc k)) / 2 ^ 6)" using Suc.prems by (intro frep_div_pow2) auto
    moreover have "\<bar>real (Suc k) / 64\<bar> \<le> big" using Suc.prems numeral_le_big [of "Num.num_of_nat (2 ^ 40)"] by simp
    ultimately have g: "fl (real (Suc k) / 64) = Fin (real (Suc k) / 64)" by (intro fl_frep) simp_all
    have x: "Fin (real k / 64) \<le> ?x" using Suc by simp
    then have "Fin (real (Suc k) / 64) \<le> ?x + Fin (1 / 64)"
    proof (cases ?x)
      case (Fin y)
      then have "real (Suc k) / 64 \<le> y + 1 / 64" using x by (simp add: add_divide_distrib)
      then show ?thesis using fl_mono [of "real (Suc k) / 64" "y + 1 / 64"] Fin by (simp only: g plus_f64.simps)
    qed auto
    moreover have "mo_SmoothCost (tuned (Suc k) b phase1 risk intel m) = phaseMax (fl 0.01) (?x + Fin (1 / 64))"
      by (simp add: tune_mpc_def Let_def assms(1))
    moreover have "z \<le> phaseMax a z'" if "z \<le> z'" for a z z' using that by (auto simp: phaseMax_def intro: less_imp_le64 le_trans64)
    ultimately show ?case by metis
  qed (use assms(2) in \<open>simp add: zero_f64_def\<close>)
  then show ?thesis by (simp add: tune_mpc_def Let_def)
qed

lemma fl_within: assumes "\<bar>x\<bar> \<le> 1000" shows "\<exists>y. fl x = Fin y \<and> x - 1 / 1000000 \<le> y \<and> y \<le> x + 1 / 1000000"
proof -
  have "\<bar>x\<bar> \<le> 1024" using assms by simp
  then obtain y where "fl x = Fin y" "\<bar>y - x\<bar> \<le> 1 / 1099511627776" using fl_near by blast
  then show ?thesis unfolding abs_le_iff by (intro exI [of _ y]) linarith
qed

definition mode_risk :: "RuntimeOrchestrator \<Rightarrow> f64 \<Rightarrow> f64 \<Rightarrow> f64 \<Rightarrow> f64" where
  \<comment> \<open>the figure that \<open>modeProb\<close> compares with its thresholds\<close>
  "mode_risk r backlog conf ov = math_Tanh (backlog / ro_SLA_Backlog r + (1 - conf) + ov)"

lemma mode_part: "\<exists>x. fl 0.35 * f64_of_int (mode_index m) / fl 3 = Fin x \<and>
    0.35 * of_int (mode_index m) / 3 - 1 / 100000 \<le> x \<and> x \<le> 0.35 * of_int (mode_index m) / 3 + 1 / 100000"
proof -
  obtain a where a: "fl 0.35 = Fin a" "0.35 - 1 / 1000000 \<le> a" "a \<le> 0.35 + 1 / 1000000" using fl_within [of "0.35"] by auto
  have i: "mode_index m \<in> {0, 1, 2, 3}" by (cases m) (simp_all add: mode_index_def)
  then have f: "f64_of_int (mode_index m) = Fin (of_int (mode_index m))" by auto
  have "\<bar>a * of_int (mode_index m)\<bar> \<le> 1000" using i a by auto
  then obtain y where y: "fl (a * of_int (mode_index m)) = Fin y" "a * of_int (mode_index m) - 1 / 1000000 \<le> y"
    "y \<le> a * of_int (mode_index m) + 1 / 1000000" using fl_within by blast
  have "\<bar>y / 3\<bar> \<le> 1000" using i a y by auto
  then obtain z where z: "fl (y / 3) = Fin z" "y / 3 - 1 / 1000000 \<le> z" "z \<le> y / 3 + 1 / 1000000" using fl_within by blast
  have "fl 0.35 * f64_of_int (mode_index m) / fl 3 = Fin z" using y(1) z(1) unfolding a(1) f by simp
  moreover have "0.35 * of_int (mode_index m) / 3 - 1 / 100000 \<le> z" "z \<le> 0.35 * of_int (mode_index m) / 3 + 1 / 100000"
    using i a y z by auto
  ultimately show ?thesis by blast
qed

lemma auto_risk_near:
  assumes "fbtw 0 c 1"
  shows "\<exists>w x. fl 0.40 * (1 - c) = Fin w \<and> auto_risk c m = Fin x \<and> 0 \<le> w \<and> w \<le> 0.41 \<and>
    w + 0.35 * of_int (mode_index m) / 3 - 1 / 1000 \<le> x \<and> x \<le> w + 0.35 * of_int (mode_index m) / 3 + 1 / 1000"
proof -
  obtain a where a: "fl 0.40 = Fin a" "0.40 - 1 / 1000000 \<le> a" "a \<le> 0.40 + 1 / 1000000" using fl_within [of "0.40"] by auto
  have "fbtw 0 (1 - c) 1" unfolding one_f64_def by (rule fbtw_diff [OF _ assms, where a = 1 and b = 1]) simp_all
  then obtain d where d: "1 - c = Fin d" "0 \<le> d" "d \<le> 1" by (rule fbtwE)
  have "0 \<le> a" "a \<le> 401 / 1000" using a(2,3) by simp_all
  then have ad: "0 \<le> a * d" "a * d \<le> 401 / 1000" using d mult_left_le [of d a] by auto
  then obtain w where w: "fl (a * d) = Fin w" "a * d - 1 / 1000000 \<le> w" "w \<le> a * d + 1 / 1000000" using fl_within [of "a * d"] by auto
  have w0: "0 \<le> w" using fl_mono [OF ad(1)] w(1) by simp
  obtain x where x: "fl 0.35 * f64_of_int (mode_index m) / fl 3 = Fin x"
    "0.35 * of_int (mode_index m) / 3 - 1 / 100000 \<le> x" "x \<le> 0.35 * of_int (mode_index m) / 3 + 1 / 100000" using mode_part by blast
  have i: "mode_index m \<in> {0, 1, 2, 3}" by (cases m) (simp_all add: mode_index_def)
  then have r: "0 \<le> real_of_int (mode_index m)" "real_of_int (mode_index m) \<le> 3" by auto
  have "\<bar>w + x\<bar> \<le> 1000" using w w0 ad x(2,3) r by (auto simp: abs_le_iff)
  then obtain y where y: "fl (w + x) = Fin y" "w + x - 1 / 1000000 \<le> y" "y \<le> w + x + 1 / 1000000" using fl_within by blast
  have e: "auto_risk c m = phaseClamp (Fin y) 0 1"
    using w(1) y(1) by (simp only: auto_risk_def a(1) d(1) x(1) times_f64.simps plus_f64.simps)
  have "y < 1" using y w ad x(3) r by auto
  then have "auto_risk c m = Fin (max 0 y)" by (auto simp: e phaseClamp_def zero_f64_def one_f64_def)
  moreover have "fl 0.40 * (1 - c) = Fin w" using w(1) by (simp only: a(1) d(1) times_f64.simps)
  moreover have "w \<le> 0.41" using w ad by auto
  moreover have "w + 0.35 * of_int (mode_index m) / 3 - 1 / 1000 \<le> max 0 y"
    "max 0 y \<le> w + 0.35 * of_int (mode_index m) / 3 + 1 / 1000" using y x w0 r by (auto simp: max_def)
  ultimately show ?thesis using w0 by blast
qed

lemma le_less_trans64: "x \<le> y \<Longrightarrow> y < z \<Longrightarrow> x < (z :: f64)"
  by (cases x; cases y; cases z) auto

text \<open>
  C40: The autopilot reports the recovery mode for a risk between 0.30 and 0.55 and the critical mode
  above 0.80, but the authority is told an instability risk proportional to the mode's number, in
  which recovery comes last: at equal confidence a recovering service is reported as less stable
  than a critical one, although its risk is lower.
\<close>

theorem recovery_outranks_critical:
  assumes "modeProb r b1 c1 o1 = ModeCritical" "modeProb r b2 c2 o2 = ModeRecovery" "fbtw 0 c 1"
    and "mode_risk r b2 c2 o2 \<noteq> NaN"
  shows "mode_risk r b2 c2 o2 < mode_risk r b1 c1 o1 \<and> auto_risk c ModeCritical < auto_risk c ModeRecovery"
proof
  have 1: "fl 0.80 < mode_risk r b1 c1 o1" and 2: "\<not> fl 0.55 < mode_risk r b2 c2 o2"
    using assms(1,2) by (auto simp: modeProb_def mode_risk_def Let_def split: if_splits)
  have "mode_risk r b2 c2 o2 \<le> fl 0.55" using 2 assms(4) not_less64 [of "fl 0.55"] by simp
  then have "mode_risk r b2 c2 o2 \<le> fl 0.80" by (rule le_trans64) (rule fl_mono, simp)
  then show "mode_risk r b2 c2 o2 < mode_risk r b1 c1 o1" using 1 by (rule le_less_trans64)
  show "auto_risk c ModeCritical < auto_risk c ModeRecovery"
    using auto_risk_near [OF assms(3), of ModeCritical] auto_risk_near [OF assms(3), of ModeRecovery]
    by (auto simp: mode_index_def)
qed

lemma hash_not_empty: "digits b n \<noteq> []"
  by (subst digits.simps) simp

text \<open>
  A sandbox experiment of the running system is always carried out: with the configured six steps
  of a second the scenario is generated, the two hashes are one and the same value, and both sides
  have two jobs, so none of the errors of an experiment can occur, and the result carries the
  identity of its service and tick.
\<close>

theorem sandbox_always_runs:
  "\<exists>x. runSandbox env cfg sid t b base phase1 phase2 auto = Some (Inr x) \<and>
    xm_HorizonID (xo_Meta x) = sid @ ''-'' @ digits 10 (unat t) \<and> xm_HorizonLength (xo_Meta x) = 2"
proof -
  let ?seed = "sint (hashService sid t)" let ?cfg = "sandbox_scenario_cfg ?seed b phase1 phase2"
  have c: "scf_Step ?cfg = Second" "scf_Duration ?cfg = 6 * Second" by (simp_all add: sandbox_scenario_cfg_def Let_def)
  obtain sn where sn: "GenerateScenario sandbox_fuel (fst (pe_draws env ?seed)) (snd (pe_draws env ?seed)) ?cfg ScenarioSpike = Some sn"
    using gen_loop_trace [of ?cfg 0 sandbox_fuel ScenarioSpike "init_gen ?cfg (fst (pe_draws env ?seed)) (snd (pe_draws env ?seed))"]
    unfolding c by (auto simp: GenerateScenario_def steps_left_def c sandbox_fuel_def Second_def maxI64_def)
  show ?thesis
    using snapshots_length snapshots_Nil
    by (simp add: runSandbox_def Let_def sn RunSandboxExperiment_def experiment_snapshots_def phase_experiment_def hash_not_empty)
qed

section \<open>Witnesses\<close>

definition demo_bundle :: ServiceModelBundle where
  "demo_bundle =
    \<lparr> mb_Queue = idle_queue\<lparr> qm_ArrivalRate := Fin 2, qm_ServiceRate := 1 \<rparr>, mb_Stochastic = RunStochasticModel 0 (caller ''a'' ''b''),
      mb_Signal = idle_signal,
      mb_Stability = RunStabilityAssessment 0 idle_queue idle_signal (Snapshot_graph 0 (\<lambda>i. []) New_graph) None (Fin (7 / 8)) \<rparr>"

definition demo_service :: "unit phaseServiceRuntime" where
  "demo_service =
    \<lparr> vc_policyState = \<lparr> en_LastGlobalRisk = 0, en_LastReplicas = 0, en_OscillationScore = 0 \<rparr>, vc_autopilot = demo_runtime,
      vc_autopilotState = new_state, vc_adapter = NewAutonomyControlAdapter () 4, vc_control = NewAuthority,
      vc_lastSandbox = zero_experiment \<rparr>"

definition demo_phase :: "unit phaseRuntime" where
  "demo_phase =
    \<lparr> ph_cfg = \<lparr> pcf_TickInterval = 2 * Second, pcf_UtilisationSetpoint = fl 0.70, pcf_CollapseThreshold = fl 0.90,
        pcf_PredictiveHorizonTicks = 5 \<rparr>,
      ph_services = [(''a'', demo_service)], ph_controls = newPhaseControls \<rparr>"

definition demo_phase_env :: "unit phase_env" where
  "demo_phase_env =
    \<lparr> pe_brain = still_brain, pe_fresh = (\<lambda>_. ()), pe_rng = (\<lambda>_. calm_rng),
      pe_tick = (\<lambda>_. \<lparr> te_now1 = 0, te_now2 = 0, te_rand = 1, te_gamma = (\<lambda>x. x), te_fuel = 0 \<rparr>),
      pe_draws = (\<lambda>_. (sconst 0, sconst 0)), pe_executor = \<lparr> ev_cpus = 1, ev_pick = (\<lambda>p. 0), ev_arrive = (\<lambda>rs. rs) \<rparr>,
      pe_control = (\<lambda>_. (identity_env, 0)) \<rparr>"

lemma demo_replicas: "currentReplicas demo_bundle = 2"
proof -
  have "fl 0.1 < Fin 1" "fl 0.1 < Fin 2" using fl_within [of "0.1"] by auto
  then have "phaseMax (Fin 2) (fl 0.1) = Fin 2" "phaseMax 1 (fl 0.1) = Fin 1" by (simp_all add: phaseMax_def one_f64_def)
  then show ?thesis by (simp add: currentReplicas_def demo_bundle_def phaseMaxInt_def Let_def trunc_real_def minI64_def maxI64_def)
qed

lemma fl_one_half: "fl (1 / 2) = Fin (1 / 2)"
  using fl_frep [OF frep_one_half(1)] big_ge(3) by simp

lemma demo_bounds_ok: "bounds_ok (tune_mpc demo_bundle (snd (evaluatePolicy c demo_bundle base st)) risk intel m)"
proof -
  define m' where "m' = tune_mpc demo_bundle (snd (evaluatePolicy c demo_bundle base st)) risk intel m"
  have "mo_MinCapacity m' = 1 / f64_of_int 2 \<and> 1 \<le> mo_MaxCapacity m' \<and> mo_MaxCapacity m' \<le> fl 3"
    using planner_bounds [of demo_bundle c base st risk intel m] by (simp add: demo_replicas m'_def Let_def)
  moreover have "1 / f64_of_int 2 = Fin (1 / 2)" by (simp add: one_f64_def fl_one_half)
  ultimately show ?thesis unfolding m'_def [symmetric]
    by (cases "mo_MaxCapacity m'") (auto simp: bounds_ok_def one_f64_def)
qed

lemma demo_autopilot:
  "\<exists>r s tel. runAutopilot env demo_bundle base (snd (evaluatePolicy c demo_bundle base st)) phase2 intel demo_service = Some (r, s, tel)"
proof -
  define m where "m = tune_mpc demo_bundle (snd (evaluatePolicy c demo_bundle base st))
    (phaseMax (pr_RiskScore phase2) (xm_UnifiedRisk (xo_Meta (vc_lastSandbox demo_service)))) intel (ro_MPC demo_runtime)"
  have b: "bounds_ok m" unfolding m_def by (rule demo_bounds_ok)
  have h: "mo_Horizon m = 2" "mo_ScenarioCount m = 1" by (simp_all add: m_def tune_mpc_def Let_def demo_runtime_def greedy_optimiser_def)
  have s: "vc_autopilot demo_service = demo_runtime" "ro_Safety demo_runtime = Some (SafetyLegacy calm_safety)"
    by (simp_all add: demo_service_def demo_runtime_def)
  show ?thesis unfolding runAutopilot_def Let_def s(1) m_def [symmetric]
    using tick_returns [of "demo_runtime\<lparr> ro_MPC := m \<rparr>"] b h s(2) by (fastforce simp: not_None_eq)
qed

lemma demo_service_ok: "service_ok 1 demo_service"
  by (simp add: service_ok_def demo_service_def autopilot_ok_def demo_runtime_def runtime_predictor_ok history_ok_def
      new_state_def adapter_ok_def NewAutonomyControlAdapter_def NewAuthority_def zero_directive_def list_all_length
      inside_def zero_f64_def)

lemma still_brain_ok: "brain_ok 1 4 still_brain"
  by (simp add: brain_ok_def still_brain_def inside_def one_f64_def list_all_length)

lemma demo_tick: "\<exists>d s. service_tick demo_phase_env 1 0 objective [] demo_phase ''a'' demo_bundle demo_service = Some (d, s)"
proof -
  let ?p = demo_phase and ?base = "base_directive (ph_cfg demo_phase) 0 ''a''"
  let ?e = "evaluatePolicy (ph_controls ?p) demo_bundle ?base (vc_policyState demo_service)"
  define phase2 where "phase2 = recommend (ph_cfg ?p) demo_bundle ?base (snd ?e) objective"
  have a: "adapter_ok 1 4 (vc_adapter demo_service)" using demo_service_ok by (simp add: service_ok_def)
  obtain intel ad where 2: "Step_adapter (pe_brain demo_phase_env)
      (phase_infra (ph_controls ?p) 1 demo_bundle (snd ?e) phase2 objective (vc_lastSandbox demo_service)) (vc_adapter demo_service) = Some (intel, ad)"
    using adapter_step_keeps [OF a still_brain_ok, of "phase_infra (ph_controls ?p) 1 demo_bundle (snd ?e) phase2 objective (vc_lastSandbox demo_service)"]
    by (auto simp: demo_phase_env_def)
  obtain r s tel where 3: "runAutopilot (pe_tick demo_phase_env ''a'') demo_bundle ?base (snd ?e) phase2 intel demo_service = Some (r, s, tel)"
    using demo_autopilot by blast
  have 4: "sandbox_phase demo_phase_env ?p 1 ''a'' demo_bundle ?base (snd ?e) phase2 objective tel lst = Some lst" for lst
    by (simp add: sandbox_phase_def sandboxForced_def demo_phase_def newPhaseControls_def)
  show ?thesis
    unfolding service_tick_def Let_def case_prod_unfold phase2_def [symmetric] by (simp add: 2 3 4)
qed

lemma demo_apply: "\<exists>out p. phase_apply demo_phase_env 1 0 [(''a'', demo_bundle)] objective [] demo_phase = Some (out, p)"
  using demo_tick [of objective] by (auto simp: phase_apply_def ensureService_def demo_phase_def)


theorem planner_bounds_are_ratios_witness:
  "\<forall>c base st risk intel m. mo_MaxCapacity (tune_mpc demo_bundle (snd (evaluatePolicy c demo_bundle base st)) risk intel m) \<le> fl 3"
  using planner_bounds_are_ratios [of demo_bundle] by (simp add: demo_replicas Let_def)

theorem smooth_cost_accumulates_witness:
  "\<forall>b phase1. Fin (640 / 64) \<le> mo_SmoothCost (tuned 640 b phase1 0
    \<lparr> mw_RiskWeight = 0, mw_SmoothCost = Fin (1 / 64), mw_Regime = 0, mw_RiskEWMA = 0, mw_AnomalyScore = 0, mw_CostBias = 0 \<rparr> greedy_optimiser)"
proof (intro allI)
  fix b phase1
  let ?i = "\<lparr> mw_RiskWeight = 0, mw_SmoothCost = Fin (1 / 64), mw_Regime = 0, mw_RiskEWMA = 0, mw_AnomalyScore = 0, mw_CostBias = 0 \<rparr>"
  have h: "mw_SmoothCost ?i = Fin (1 / 64)" "0 \<le> mo_SmoothCost greedy_optimiser" "(640 :: nat) \<le> 2 ^ 40"
    by (simp_all add: greedy_optimiser_def zero_f64_def one_f64_def)
  from smooth_cost_accumulates [OF this, of b phase1 0]
  show "Fin (640 / 64) \<le> mo_SmoothCost (tuned 640 b phase1 0 ?i greedy_optimiser)" by (simp only: of_nat_numeral)
qed

lemma tanh_half: "1 / 3 \<le> tanh (1 / 2 :: real)" "tanh (1 / 2 :: real) \<le> 1 / 2"
proof -
  have e: "2 \<le> exp (1 :: real)" "exp (1 :: real) \<le> 3" using exp_ge_add_one_self [of "1 :: real"] exp_le by simp_all
  define q where "q = exp (- 1 :: real)"
  have q: "1 / 3 \<le> q" "q \<le> 1 / 2" using e unfolding q_def exp_minus by (simp_all add: field_simps)
  have "tanh (1 / 2 :: real) = (1 - q) / (1 + q)" using tanh_real_altdef [of "1 / 2"] by (simp add: q_def)
  moreover have "1 / 3 \<le> (1 - q) / (1 + q)" "(1 - q) / (1 + q) \<le> 1 / 2" using q by (simp_all add: field_simps)
  ultimately show "1 / 3 \<le> tanh (1 / 2 :: real)" "tanh (1 / 2 :: real) \<le> 1 / 2" by simp_all
qed

theorem recovery_outranks_critical_witness:
  "modeProb demo_runtime PInf 1 0 = ModeCritical \<and> modeProb demo_runtime (Fin 50) 1 0 = ModeRecovery \<and>
   auto_risk 1 ModeCritical < auto_risk 1 ModeRecovery"
proof -
  have s: "ro_SLA_Backlog demo_runtime = Fin 100" by (simp add: demo_runtime_def)
  obtain x where x: "fl 0.80 = Fin x" "0.80 - 1 / 1000000 \<le> x" "x \<le> 0.80 + 1 / 1000000" using fl_within [of "0.80"] by auto
  obtain y where y: "fl 0.55 = Fin y" "0.55 - 1 / 1000000 \<le> y" using fl_within [of "0.55"] by auto
  obtain z where z: "fl 0.30 = Fin z" "z \<le> 0.30 + 1 / 1000000" using fl_within [of "0.30"] by auto
  obtain h where h: "fl (tanh (1 / 2)) = Fin h" "tanh (1 / 2) - 1 / 1000000 \<le> h" "h \<le> tanh (1 / 2) + 1 / 1000000"
    using fl_within [of "tanh (1 / 2)"] tanh_half by auto
  have half: "fl (1 / 2) = Fin (1 / 2)" by (rule fl_one_half)
  have c: "modeProb demo_runtime PInf 1 0 = ModeCritical" using x
    by (simp add: modeProb_def s one_f64_def zero_f64_def)
  have k: "mode_risk demo_runtime (Fin 50) 1 0 = Fin h" using h(1)
    by (simp add: mode_risk_def s one_f64_def zero_f64_def half)
  then have m: "math_Tanh (Fin 50 / ro_SLA_Backlog demo_runtime + (1 - 1) + 0) = Fin h" by (simp add: mode_risk_def)
  have "\<not> x < h" "\<not> y < h" "\<not> h < z" using x y z h tanh_half by auto
  then have r: "modeProb demo_runtime (Fin 50) 1 0 = ModeRecovery"
    using tanh_half h by (simp only: modeProb_def Let_def m x(1) y(1) z(1)) simp
  have "fbtw 0 1 1" by (simp add: one_f64_def)
  from recovery_outranks_critical [OF c r this] k c r show ?thesis by simp
qed

end
