(* ===== verification/ActuatorDynamics.thy ===== *)
theory ActuatorDynamics
  imports ControlTypes
begin

text \<open>
  \<open>internal/control/actuator_dynamics.go\<close>: how a commanded bundle takes effect on one
  service: rate limits, lag, warm-up and the rounding back into the system state.
\<close>

record ActuatorState =
  as_ReplicaTarget :: int
  as_ReplicaActual :: f64
  as_ReplicaWarm :: f64
  as_ScaleCooldown :: f64
  as_QueueTarget :: int
  as_QueueActual :: f64
  as_QueueLag :: f64
  as_QueueCooldown :: f64
  as_RetryTarget :: int
  as_RetryActual :: f64
  as_CacheTarget :: f64
  as_CacheActual :: f64

record ActuatorConfig =
  av_MinReplicas :: int
  av_MaxReplicas :: int
  av_MaxScaleRate :: f64
  av_ScaleCooldownSec :: f64
  av_WarmupRate :: f64
  av_MinQueue :: int
  av_MaxQueue :: int
  av_MaxQueueRate :: f64
  av_QueueLagTau :: f64
  av_QueueCooldownSec :: f64
  av_RetryRate :: f64
  av_RetryDisturbanceGain :: f64
  av_MinRetry :: int
  av_MaxRetry :: int
  av_CacheRate :: f64
  av_CacheMemPressureGain :: f64

definition hysteresisRound :: "int \<Rightarrow> f64 \<Rightarrow> f64 \<Rightarrow> int" where
  "hysteresisRound current v band =
     (if \<bar>f64_of_int current - v\<bar> < band then current else int_of_f64 (math_Round v))"

text \<open>The defaulting of the configuration, in three blocks.\<close>

definition normalize_replicas :: "SystemState \<Rightarrow> Bundle \<Rightarrow> ActuatorConfig \<Rightarrow> ActuatorConfig" where
  "normalize_replicas sys cmd cfg =
    (let cfg = cfg\<lparr> av_MinReplicas := if av_MinReplicas cfg \<le> 0 then maxInt 1 (sys_MinReplicas sys)
                                   else av_MinReplicas cfg \<rparr>;
         cfg = cfg\<lparr> av_MaxReplicas := if av_MaxReplicas cfg < av_MinReplicas cfg
                     then maxInt (maxInt (sys_MaxReplicas sys) (bn_Replicas cmd)) (av_MinReplicas cfg)
                     else av_MaxReplicas cfg \<rparr>;
         cfg = cfg\<lparr> av_MaxScaleRate := if av_MaxScaleRate cfg \<le> 0
                     then math_Max 1 (f64_of_int (av_MaxReplicas cfg - av_MinReplicas cfg))
                     else av_MaxScaleRate cfg \<rparr>
     in cfg\<lparr> av_WarmupRate := if av_WarmupRate cfg \<le> 0 then 1 else av_WarmupRate cfg \<rparr>)"

definition normalize_queue :: "SystemState \<Rightarrow> Bundle \<Rightarrow> ActuatorConfig \<Rightarrow> ActuatorConfig" where
  "normalize_queue sys cmd cfg =
    (let cfg = cfg\<lparr> av_MinQueue := if av_MinQueue cfg \<le> 0 then 1 else av_MinQueue cfg \<rparr>;
         cfg = cfg\<lparr> av_MaxQueue := if av_MaxQueue cfg < av_MinQueue cfg
                     then maxInt (maxInt (sys_QueueLimit sys * 2) (int_of_f64 (math_Round (bn_QueueLimit cmd))))
                            (av_MinQueue cfg)
                     else av_MaxQueue cfg \<rparr>;
         cfg = cfg\<lparr> av_MaxQueueRate := if av_MaxQueueRate cfg \<le> 0
                     then math_Max 1 (f64_of_int (av_MaxQueue cfg - av_MinQueue cfg))
                     else av_MaxQueueRate cfg \<rparr>
     in cfg\<lparr> av_QueueLagTau := if av_QueueLagTau cfg \<le> 0 then 1 else av_QueueLagTau cfg \<rparr>)"

definition normalize_retry :: "SystemState \<Rightarrow> Bundle \<Rightarrow> ActuatorConfig \<Rightarrow> ActuatorConfig" where
  "normalize_retry sys cmd cfg =
    (let cfg = cfg\<lparr> av_MinRetry := if av_MinRetry cfg \<le> 0 then 1 else av_MinRetry cfg \<rparr>;
         cfg = cfg\<lparr> av_MaxRetry := if av_MaxRetry cfg < av_MinRetry cfg
                     then maxInt (maxInt (sys_MaxRetry sys) (bn_RetryLimit cmd)) (av_MinRetry cfg)
                     else av_MaxRetry cfg \<rparr>;
         cfg = cfg\<lparr> av_RetryRate := if av_RetryRate cfg \<le> 0 then 1 else av_RetryRate cfg \<rparr>
     in cfg\<lparr> av_CacheRate := if av_CacheRate cfg \<le> 0 then 1 else av_CacheRate cfg \<rparr>)"

definition normalizeActuatorConfig :: "SystemState \<Rightarrow> Bundle \<Rightarrow> ActuatorConfig \<Rightarrow> ActuatorConfig" where
  "normalizeActuatorConfig sys cmd cfg =
    (let cfg = normalize_retry sys cmd (normalize_queue sys cmd (normalize_replicas sys cmd cfg))
     in cfg\<lparr> av_MaxScaleRate := if av_MaxScaleRate cfg < fl 5 then fl 5 else av_MaxScaleRate cfg \<rparr>)"

text \<open>The four actuators, on the normalised configuration.\<close>

definition replica_dynamics :: "Bundle \<Rightarrow> ActuatorConfig \<Rightarrow> f64 \<Rightarrow> ActuatorState \<Rightarrow> ActuatorState" where
  "replica_dynamics cmd cfg dt act =
    (let act = act\<lparr> as_ReplicaTarget := clampInt (bn_Replicas cmd) (av_MinReplicas cfg) (av_MaxReplicas cfg) \<rparr>;
         diff = f64_of_int (as_ReplicaTarget act) - as_ReplicaActual act;
         step = clampFloat diff (- av_MaxScaleRate cfg * dt) (av_MaxScaleRate cfg * dt);
         act = act\<lparr> as_ReplicaActual := as_ReplicaActual act + step \<rparr>;
         warmDiff = as_ReplicaActual act - as_ReplicaWarm act;
         act = act\<lparr> as_ReplicaWarm := as_ReplicaWarm act + av_WarmupRate cfg * warmDiff * dt \<rparr>;
         act = (if \<bar>diff\<bar> < fl 0.05 \<and> as_ScaleCooldown act \<le> 0
                then act\<lparr> as_ScaleCooldown := av_ScaleCooldownSec cfg \<rparr> else act);
         act = act\<lparr> as_ScaleCooldown := math_Max 0 (as_ScaleCooldown act - dt) \<rparr>
     in act\<lparr> as_ReplicaActual := clampFloat (as_ReplicaActual act) (f64_of_int (av_MinReplicas cfg))
               (f64_of_int (av_MaxReplicas cfg)) \<rparr>)"

definition queue_dynamics :: "Bundle \<Rightarrow> ActuatorConfig \<Rightarrow> f64 \<Rightarrow> f64 \<Rightarrow> ActuatorState \<Rightarrow> ActuatorState" where
  "queue_dynamics cmd cfg backlog dt act =
    (let cmdQueue = clampInt (int_of_f64 (math_Round (bn_QueueLimit cmd))) (av_MinQueue cfg) (av_MaxQueue cfg);
         act = act\<lparr> as_QueueTarget := cmdQueue \<rparr>;
         act = act\<lparr> as_QueueLag := as_QueueLag act + (dt / math_Max (av_QueueLagTau cfg) (fl 0.001)) *
                     (f64_of_int (as_QueueTarget act) - as_QueueLag act) \<rparr>;
         safety = 1 + fl 0.3 * (backlog / math_Max (as_QueueActual act) 1);
         qdiff = as_QueueLag act - as_QueueActual act;
         qstep = clampFloat qdiff (- av_MaxQueueRate cfg * dt) (av_MaxQueueRate cfg * dt * safety);
         act = act\<lparr> as_QueueActual := as_QueueActual act + qstep \<rparr>;
         act = act\<lparr> as_QueueCooldown := math_Max 0 (as_QueueCooldown act - dt) \<rparr>
     in act\<lparr> as_QueueActual := clampFloat (as_QueueActual act) (f64_of_int (av_MinQueue cfg))
               (f64_of_int (av_MaxQueue cfg)) \<rparr>)"

definition retry_dynamics :: "Bundle \<Rightarrow> ActuatorConfig \<Rightarrow> f64 \<Rightarrow> f64 \<Rightarrow> ActuatorState \<Rightarrow> ActuatorState" where
  "retry_dynamics cmd cfg errorRate dt act =
    (let act = act\<lparr> as_RetryTarget := clampInt (bn_RetryLimit cmd) (av_MinRetry cfg) (av_MaxRetry cfg) \<rparr>;
         rdiff = f64_of_int (as_RetryTarget act) - as_RetryActual act;
         disturb = av_RetryDisturbanceGain cfg * errorRate;
         act = act\<lparr> as_RetryActual := as_RetryActual act + (av_RetryRate cfg * rdiff + disturb) * dt \<rparr>
     in act\<lparr> as_RetryActual := clampFloat (as_RetryActual act) (f64_of_int (av_MinRetry cfg))
               (f64_of_int (av_MaxRetry cfg)) \<rparr>)"

definition cache_dynamics :: "Bundle \<Rightarrow> ActuatorConfig \<Rightarrow> f64 \<Rightarrow> f64 \<Rightarrow> ActuatorState \<Rightarrow> ActuatorState" where
  "cache_dynamics cmd cfg memPressure dt act =
    (let act = act\<lparr> as_CacheTarget := clampFloat (bn_CacheAggression cmd) 0 1 \<rparr>;
         cdiff = as_CacheTarget act - as_CacheActual act;
         rate = av_CacheRate cfg / (1 + av_CacheMemPressureGain cfg * memPressure);
         act = act\<lparr> as_CacheActual := as_CacheActual act + rate * cdiff * dt \<rparr>
     in act\<lparr> as_CacheActual := clampFloat (as_CacheActual act) 0 1 \<rparr>)"

definition ApplyActuatorDynamics ::
  "SystemState \<Rightarrow> ActuatorState \<Rightarrow> Bundle \<Rightarrow> ActuatorConfig \<Rightarrow> f64 \<Rightarrow> f64 \<Rightarrow> f64 \<Rightarrow> f64
     \<Rightarrow> SystemState \<times> ActuatorState" where
  "ApplyActuatorDynamics sys act cmd cfg backlog errorRate memPressure dt =
    (let cfg = normalizeActuatorConfig sys cmd cfg;
         act = cache_dynamics cmd cfg memPressure dt (retry_dynamics cmd cfg errorRate dt
                 (queue_dynamics cmd cfg backlog dt (replica_dynamics cmd cfg dt act)));
         act = act\<lparr> as_ReplicaActual := math_Max 1 (as_ReplicaActual act) \<rparr>;
         sys = sys\<lparr> sys_Replicas := maxInt 1 (int_of_f64 (math_Round (as_ReplicaActual act))),
                    sys_QueueLimit := hysteresisRound (sys_QueueLimit sys) (as_QueueActual act) (fl 1.2),
                    sys_RetryLimit := hysteresisRound (sys_RetryLimit sys) (as_RetryActual act) (fl 0.6),
                    sys_CacheAggression := as_CacheActual act \<rparr>
     in (sys, act))"

section \<open>The actuators stay within their limits\<close>

lemma normalize_replicas_bounds:
  "1 \<le> av_MinReplicas (normalize_replicas sys cmd cfg) \<and>
   av_MinReplicas (normalize_replicas sys cmd cfg) \<le> av_MaxReplicas (normalize_replicas sys cmd cfg)"
  by (simp add: normalize_replicas_def Let_def)

lemma normalize_queue_bounds:
  "1 \<le> av_MinQueue (normalize_queue sys cmd cfg) \<and>
   av_MinQueue (normalize_queue sys cmd cfg) \<le> av_MaxQueue (normalize_queue sys cmd cfg)"
  by (simp add: normalize_queue_def Let_def)

lemma normalize_retry_bounds:
  "1 \<le> av_MinRetry (normalize_retry sys cmd cfg) \<and>
   av_MinRetry (normalize_retry sys cmd cfg) \<le> av_MaxRetry (normalize_retry sys cmd cfg)"
  by (simp add: normalize_retry_def Let_def)

lemma normalize_frame:
  "av_MinReplicas (normalize_queue sys cmd c) = av_MinReplicas c"
  "av_MaxReplicas (normalize_queue sys cmd c) = av_MaxReplicas c"
  "av_MinReplicas (normalize_retry sys cmd c) = av_MinReplicas c"
  "av_MaxReplicas (normalize_retry sys cmd c) = av_MaxReplicas c"
  "av_MinQueue (normalize_retry sys cmd c) = av_MinQueue c"
  "av_MaxQueue (normalize_retry sys cmd c) = av_MaxQueue c"
  by (simp_all add: normalize_queue_def normalize_retry_def Let_def)

lemma normalize_bounds:
  fixes sys cmd cfg defines "c \<equiv> normalizeActuatorConfig sys cmd cfg"
  shows "1 \<le> av_MinReplicas c" "av_MinReplicas c \<le> av_MaxReplicas c" "1 \<le> av_MinQueue c"
    "av_MinQueue c \<le> av_MaxQueue c" "1 \<le> av_MinRetry c" "av_MinRetry c \<le> av_MaxRetry c"
  using normalize_replicas_bounds normalize_queue_bounds normalize_retry_bounds
  by (simp_all add: c_def normalizeActuatorConfig_def Let_def normalize_frame)

lemma clampFloat_btw:
  "v \<noteq> NaN \<Longrightarrow> a \<le> b \<Longrightarrow> fbtw a (clampFloat v (Fin a) (Fin b)) b"
  by (cases v) (auto simp: clampFloat_def math_Max_def math_Min_def)

lemma clampFloat_NaN [simp]: "clampFloat NaN (Fin a) (Fin b) = NaN"
  by (simp add: clampFloat_def math_Max_def math_Min_def)

lemma round_btw:
  assumes "fbtw (of_int a) x (of_int b)" "minI64 \<le> a" "b \<le> maxI64"
  shows "a \<le> int_of_f64 (math_Round x) \<and> int_of_f64 (math_Round x) \<le> b"
proof -
  obtain r where r: "x = Fin r" "of_int a \<le> r" "r \<le> of_int b" using assms(1) by (rule fbtwE)
  then have "a \<le> round_away r" "round_away r \<le> b"
    using round_away_mono [of "of_int a" r] round_away_mono [of r "of_int b"] by simp_all
  then show ?thesis using r assms(2,3) by simp
qed

lemma keeps_replica [simp]:
  "as_ReplicaActual (queue_dynamics cmd c backlog dt act) = as_ReplicaActual act"
  "as_ReplicaActual (retry_dynamics cmd c e dt act) = as_ReplicaActual act"
  "as_ReplicaActual (cache_dynamics cmd c mp dt act) = as_ReplicaActual act"
  by (simp_all add: queue_dynamics_def retry_dynamics_def cache_dynamics_def Let_def)

lemma keeps_queue [simp]:
  "as_QueueActual (retry_dynamics cmd c e dt act) = as_QueueActual act"
  "as_QueueActual (cache_dynamics cmd c mp dt act) = as_QueueActual act"
  "as_RetryActual (cache_dynamics cmd c mp dt act) = as_RetryActual act"
  by (simp_all add: retry_dynamics_def cache_dynamics_def Let_def)

definition in_or_NaN :: "int \<Rightarrow> f64 \<Rightarrow> int \<Rightarrow> bool" where
  "in_or_NaN a x b \<longleftrightarrow> x = NaN \<or> fbtw (of_int a) x (of_int b)"

lemma clamp_in_or_NaN:
  assumes "a \<le> b" "\<bar>a\<bar> \<le> 2 ^ 53" "\<bar>b\<bar> \<le> 2 ^ 53"
  shows "in_or_NaN a (clampFloat v (f64_of_int a) (f64_of_int b)) b"
proof (cases "v = NaN")
  case False
  then show ?thesis
    using clampFloat_btw [of v "of_int a" "of_int b"] assms by (simp add: f64_of_int_small in_or_NaN_def)
qed (use assms in \<open>simp add: f64_of_int_small in_or_NaN_def\<close>)

lemma replica_in: 
  "\<exists>v. as_ReplicaActual (replica_dynamics cmd c dt act) =
     clampFloat v (f64_of_int (av_MinReplicas c)) (f64_of_int (av_MaxReplicas c))"
  by (simp add: replica_dynamics_def Let_def) blast

lemma queue_in:
  "\<exists>v. as_QueueActual (queue_dynamics cmd c backlog dt act) =
     clampFloat v (f64_of_int (av_MinQueue c)) (f64_of_int (av_MaxQueue c))"
  by (simp add: queue_dynamics_def Let_def) blast

lemma retry_in:
  "\<exists>v. as_RetryActual (retry_dynamics cmd c e dt act) =
     clampFloat v (f64_of_int (av_MinRetry c)) (f64_of_int (av_MaxRetry c))"
  by (simp add: retry_dynamics_def Let_def) blast

text \<open>A step limited to a rate, with the limit possibly overflowing to an infinity.\<close>

lemma clamp_step:
  assumes "0 \<le> y"
  shows "\<exists>s. clampFloat (Fin d) (- fl y) (fl y) = Fin s" "\<bar>Fin d\<bar> \<le> fl y \<Longrightarrow> clampFloat (Fin d) (- fl y) (fl y) = Fin d"
  using fl_pos_cases [OF assms] rnd_nonneg [OF assms]
  by (auto simp: clampFloat_def math_Max_def math_Min_def)

lemma replica_step:
  fixes cmd :: Bundle
  assumes act: "as_ReplicaActual act = Fin a" and rate: "av_MaxScaleRate c = Fin r" "0 \<le> r"
    and dt: "dt = Fin d" "0 \<le> d" and lim: "1 \<le> av_MinReplicas c" "av_MinReplicas c \<le> av_MaxReplicas c" "av_MaxReplicas c \<le> 2 ^ 52"
    and a: "\<bar>a\<bar> \<le> 2 ^ 52"
  defines "t \<equiv> clampInt (bn_Replicas cmd) (av_MinReplicas c) (av_MaxReplicas c)"
  shows "fbtw (of_int (av_MinReplicas c)) (as_ReplicaActual (replica_dynamics cmd c dt act)) (of_int (av_MaxReplicas c))"
    "a = of_int k \<Longrightarrow> \<bar>f64_of_int (t - k)\<bar> \<le> av_MaxScaleRate c * dt \<Longrightarrow>
       as_ReplicaActual (replica_dynamics cmd c dt act) = Fin (of_int t)"
proof -
  have t: "1 \<le> t" "t \<le> 2 ^ 52" "av_MinReplicas c \<le> t" "t \<le> av_MaxReplicas c"
    using clampInt_bounds [OF lim(2), of "bn_Replicas cmd"] lim by (simp_all add: t_def)
  have ft: "f64_of_int t = Fin (of_int t)" using t by (intro f64_of_int_small) simp
  have flim: "f64_of_int (av_MinReplicas c) = Fin (of_int (av_MinReplicas c))"
    "f64_of_int (av_MaxReplicas c) = Fin (of_int (av_MaxReplicas c))"
    using lim by (simp_all add: f64_of_int_small)
  have rd: "av_MaxScaleRate c * dt = fl (r * d)" "- av_MaxScaleRate c * dt = - fl (r * d)" "0 \<le> r * d"
    using rate dt by (simp_all add: flip: fl_minus)
  have tb: "real_of_int t \<le> 2 ^ 52" using t(2) by (simp add: of_int_le_numeral_iff)
  have "\<bar>real_of_int t - a\<bar> \<le> 2 ^ 53" using a tb t(1) by (simp add: abs_le_iff)
  then have diff: "f64_of_int t - as_ReplicaActual act = Fin (rnd (of_int t - a))"
    by (simp add: ft act fl_finite)
  define st where "st = clampFloat (f64_of_int t - as_ReplicaActual act) (- av_MaxScaleRate c * dt) (av_MaxScaleRate c * dt)"
  obtain s where s: "st = Fin s" using clamp_step(1) [OF rd(3)] unfolding st_def diff rd by blast
  have res: "as_ReplicaActual (replica_dynamics cmd c dt act) =
      clampFloat (as_ReplicaActual act + st) (Fin (of_int (av_MinReplicas c))) (Fin (of_int (av_MaxReplicas c)))"
    by (simp add: replica_dynamics_def Let_def t_def [symmetric] st_def flim)
  show "fbtw (of_int (av_MinReplicas c)) (as_ReplicaActual (replica_dynamics cmd c dt act)) (of_int (av_MaxReplicas c))"
    unfolding res act s using lim by (intro clampFloat_btw) simp_all
  assume k: "a = of_int k" and near: "\<bar>f64_of_int (t - k)\<bar> \<le> av_MaxScaleRate c * dt"
  have kb: "\<bar>k\<bar> \<le> 2 ^ 52"
  proof -
    have "of_int \<bar>k\<bar> \<le> (of_int (2 ^ 52) :: real)" using a k by simp
    then show ?thesis by (simp only: of_int_le_iff)
  qed
  have d0: "f64_of_int (t - k) = Fin (of_int (t - k))" using t kb by (intro f64_of_int_small) simp
  have "rnd (of_int t - a) = of_int (t - k)"
    using t kb k rnd_frep [OF frep_of_int, of "t - k"] by simp
  then have "st = Fin (of_int (t - k))"
    using clamp_step(2) [OF rd(3), of "of_int (t - k)"] near unfolding st_def diff rd d0 by simp
  then have "as_ReplicaActual act + st = Fin (of_int t)"
    using ft by (simp add: act k f64_of_int_def)
  then show "as_ReplicaActual (replica_dynamics cmd c dt act) = Fin (of_int t)"
    unfolding res using t(3,4) by (simp add: clampFloat_def)
qed

lemma hysteresisRound_cases: "hysteresisRound cur v band = cur \<or> hysteresisRound cur v band = int_of_f64 (math_Round v)"
  by (simp add: hysteresisRound_def)

lemma in64: "1 \<le> lo \<Longrightarrow> minI64 \<le> lo" "hi \<le> 2 ^ 52 \<Longrightarrow> hi \<le> maxI64"
  by (simp_all add: minI64_def maxI64_def)

lemma hysteresis_in:
  assumes "in_or_NaN a x b" "1 \<le> a" "b \<le> 2 ^ 52"
  shows "hysteresisRound cur x band = cur \<or> x = NaN \<or> hysteresisRound cur x band \<in> {a..b}"
  using assms round_btw [OF _ in64(1) in64(2), of a x b] hysteresisRound_cases [of cur x band]
  unfolding in_or_NaN_def by fastforce

lemma queue_retry_in:
  fixes cmd :: Bundle and act :: ActuatorState and mp er bl dt :: f64
  assumes "1 \<le> av_MinQueue c" "av_MinQueue c \<le> av_MaxQueue c" "av_MaxQueue c \<le> 2 ^ 52"
    "1 \<le> av_MinRetry c" "av_MinRetry c \<le> av_MaxRetry c" "av_MaxRetry c \<le> 2 ^ 52"
  defines "act' \<equiv> cache_dynamics cmd c mp dt (retry_dynamics cmd c er dt (queue_dynamics cmd c bl dt act))"
  shows "in_or_NaN (av_MinQueue c) (as_QueueActual act') (av_MaxQueue c)"
    "in_or_NaN (av_MinRetry c) (as_RetryActual act') (av_MaxRetry c)"
proof -
  obtain v where "as_QueueActual (queue_dynamics cmd c bl dt act) =
      clampFloat v (f64_of_int (av_MinQueue c)) (f64_of_int (av_MaxQueue c))"
    using queue_in by blast
  then show "in_or_NaN (av_MinQueue c) (as_QueueActual act') (av_MaxQueue c)"
    using clamp_in_or_NaN assms(1-3) by (simp add: act'_def)
  obtain v where "as_RetryActual (retry_dynamics cmd c er dt (queue_dynamics cmd c bl dt act)) =
      clampFloat v (f64_of_int (av_MinRetry c)) (f64_of_int (av_MaxRetry c))"
    using retry_in by blast
  then show "in_or_NaN (av_MinRetry c) (as_RetryActual act') (av_MaxRetry c)"
    using clamp_in_or_NaN assms(4-6) by (simp add: act'_def)
qed

text \<open>
  One step of the actuators, for any command, backlog, error rate and memory
  pressure.  With a finite rate and interval the effective replica count stays within
  the normalised limits and so does the rounded count written to the system; when the
  rate allows the whole move in one interval, the commanded (clamped) count is reached
  exactly.  The queue and retry limits written back are the old ones or, unless the
  actuator holds a NaN, within their limits.
\<close>

theorem dynamics_safe:
  fixes sys :: SystemState and cmd :: Bundle and cfg :: ActuatorConfig
  defines "c \<equiv> normalizeActuatorConfig sys cmd cfg"
  defines "t \<equiv> clampInt (bn_Replicas cmd) (av_MinReplicas c) (av_MaxReplicas c)"
  assumes "av_MaxReplicas c \<le> 2 ^ 52" "av_MaxQueue c \<le> 2 ^ 52" "av_MaxRetry c \<le> 2 ^ 52"
    "as_ReplicaActual act = Fin a" "\<bar>a\<bar> \<le> 2 ^ 52" "av_MaxScaleRate c = Fin r" "0 \<le> r" "dt = Fin d" "0 \<le> d"
  shows "let (sys', act') = ApplyActuatorDynamics sys act cmd cfg backlog errorRate memPressure dt in
    fbtw (of_int (av_MinReplicas c)) (as_ReplicaActual act') (of_int (av_MaxReplicas c)) \<and>
    sys_Replicas sys' \<in> {av_MinReplicas c..av_MaxReplicas c} \<and>
    (a = of_int k \<and> \<bar>f64_of_int (t - k)\<bar> \<le> av_MaxScaleRate c * dt \<longrightarrow> sys_Replicas sys' = t) \<and>
    (sys_QueueLimit sys' = sys_QueueLimit sys \<or> as_QueueActual act' = NaN \<or>
       sys_QueueLimit sys' \<in> {av_MinQueue c..av_MaxQueue c}) \<and>
    (sys_RetryLimit sys' = sys_RetryLimit sys \<or> as_RetryActual act' = NaN \<or>
       sys_RetryLimit sys' \<in> {av_MinRetry c..av_MaxRetry c})"
proof -
  note n = normalize_bounds [of sys cmd cfg, folded c_def]
  define a1 where "a1 = replica_dynamics cmd c dt act"
  define a4 where "a4 = cache_dynamics cmd c memPressure dt (retry_dynamics cmd c errorRate dt (queue_dynamics cmd c backlog dt a1))"
  note step = replica_step [OF assms(6,8,9,10,11) n(1,2) assms(3,7), where cmd = cmd, folded t_def a1_def]
  note qr = queue_retry_in [OF n(3,4) assms(4) n(5,6) assms(5), where cmd = cmd and act = a1 and mp = memPressure and er = errorRate and bl = backlog and dt = dt, folded a4_def]
  obtain x where x: "as_ReplicaActual a1 = Fin x" "of_int (av_MinReplicas c) \<le> x" "x \<le> of_int (av_MaxReplicas c)"
    using step(1) by (rule fbtwE)
  have "(1::real) \<le> of_int (av_MinReplicas c)" using n(1) by simp
  then have act': "math_Max 1 (as_ReplicaActual a4) = Fin x"
    using x by (simp add: a4_def one_f64_def)
  have rep: "int_of_f64 (math_Round (Fin x)) \<in> {av_MinReplicas c..av_MaxReplicas c}"
    using round_btw [OF step(1) in64(1) [OF n(1)] in64(2) [OF assms(3)]] x(1) by simp
  have reach: "int_of_f64 (math_Round (Fin x)) = t"
    if "a = of_int k" "\<bar>f64_of_int (t - k)\<bar> \<le> av_MaxScaleRate c * dt"
    using step(2) [OF that] x(1) clampInt_bounds [OF n(2), of "bn_Replicas cmd"] in64(1) [OF n(1)] in64(2) [OF assms(3)]
    by (simp add: t_def)
  have e: "ApplyActuatorDynamics sys act cmd cfg backlog errorRate memPressure dt =
     (sys\<lparr> sys_Replicas := max 1 (int_of_f64 (math_Round (Fin x))),
           sys_QueueLimit := hysteresisRound (sys_QueueLimit sys) (as_QueueActual a4) (fl 1.2),
           sys_RetryLimit := hysteresisRound (sys_RetryLimit sys) (as_RetryActual a4) (fl 0.6),
           sys_CacheAggression := as_CacheActual a4 \<rparr>, a4\<lparr> as_ReplicaActual := Fin x \<rparr>)"
    unfolding ApplyActuatorDynamics_def Let_def c_def [symmetric] a1_def [symmetric] a4_def [symmetric]
    by (simp add: act' del: math_Round.simps int_of_f64.simps)
  have m1: "max 1 (int_of_f64 (math_Round (Fin x))) = int_of_f64 (math_Round (Fin x))" using rep n(1) by auto
  show ?thesis
    unfolding e m1 using x rep reach hysteresis_in [OF qr(1) n(3) assms(4)] hysteresis_in [OF qr(2) n(5) assms(5)]
    by (simp del: math_Round.simps int_of_f64.simps)
qed

definition small_config :: ActuatorConfig where
  "small_config = \<lparr> av_MinReplicas = 1, av_MaxReplicas = 10, av_MaxScaleRate = Fin 5, av_ScaleCooldownSec = 0,
     av_WarmupRate = 1, av_MinQueue = 1, av_MaxQueue = 100, av_MaxQueueRate = Fin 10, av_QueueLagTau = 1,
     av_QueueCooldownSec = 0, av_RetryRate = 1, av_RetryDisturbanceGain = 0, av_MinRetry = 1, av_MaxRetry = 5,
     av_CacheRate = 1, av_CacheMemPressureGain = 0 \<rparr>"

lemma dynamics_safe_witness:
  "sys_Replicas (fst (ApplyActuatorDynamics zero_state
     \<lparr> as_ReplicaTarget = 2, as_ReplicaActual = Fin 2, as_ReplicaWarm = Fin 2, as_ScaleCooldown = 0, as_QueueTarget = 1,
        as_QueueActual = 1, as_QueueLag = 1, as_QueueCooldown = 0, as_RetryTarget = 1, as_RetryActual = 1,
        as_CacheTarget = 0, as_CacheActual = 0 \<rparr>
     (zero_bundle\<lparr> bn_Replicas := 4 \<rparr>) small_config NaN NaN NaN (Fin 1))) = 4"
proof -
  let ?act = "\<lparr> as_ReplicaTarget = 2, as_ReplicaActual = Fin 2, as_ReplicaWarm = Fin 2, as_ScaleCooldown = 0, as_QueueTarget = 1,
        as_QueueActual = 1, as_QueueLag = 1, as_QueueCooldown = 0, as_RetryTarget = 1, as_RetryActual = 1,
        as_CacheTarget = 0, as_CacheActual = 0 \<rparr>"
  have c: "normalizeActuatorConfig zero_state (zero_bundle\<lparr> bn_Replicas := 4 \<rparr>) small_config = small_config"
    by (simp add: normalizeActuatorConfig_def normalize_retry_def normalize_queue_def normalize_replicas_def
        small_config_def zero_f64_def one_f64_def Let_def)
  show ?thesis
    using dynamics_safe [of zero_state "zero_bundle\<lparr> bn_Replicas := 4 \<rparr>" small_config ?act 2 5 "Fin 1" 1 NaN NaN NaN 2]
    unfolding c by (auto simp: small_config_def clampInt_def split: prod.splits)
qed

end
