(* ===== verification/PolicyController.thy ===== *)
theory PolicyController
  imports ActuatorDynamics BundleSearch
begin

text \<open>
  \<open>internal/control/policy_controller.go\<close>: one tick of the closed control loop of a
  service, from the memory update through the search to the actuators.  \<open>Tick\<close> returns
  the updated system state and controller; the actuator state and the memory, which the
  code allocates on first use, are options.
\<close>

record Controller =
  ct_OptimizerCfg :: OptimizerConfig
  ct_SimCfg :: SimConfig
  ct_CostCfg :: CostParams
  ct_ActuatorCfg :: ActuatorConfig
  ct_ActState :: "ActuatorState option"
  ct_Memory :: "RegimeMemory option"
  ct_LastDecision :: Bundle
  ct_decisionCooldown :: f64
  ct_lastEnergy :: f64

definition initial_actuator :: "SystemState \<Rightarrow> ActuatorState" where
  "initial_actuator sys =
     \<lparr> as_ReplicaTarget = 0, as_ReplicaActual = f64_of_int (sys_Replicas sys),
       as_ReplicaWarm = f64_of_int (sys_Replicas sys), as_ScaleCooldown = 0, as_QueueTarget = 0,
       as_QueueActual = f64_of_int (sys_QueueLimit sys), as_QueueLag = 0, as_QueueCooldown = 0,
       as_RetryTarget = 0, as_RetryActual = f64_of_int (sys_RetryLimit sys), as_CacheTarget = 0,
       as_CacheActual = sys_CacheAggression sys \<rparr>"

definition tick_energy :: "SystemState \<Rightarrow> f64 \<Rightarrow> f64 \<Rightarrow> f64 \<Rightarrow> f64 \<Rightarrow> f64" where
  "tick_energy sys util backlog errorRate memPressure =
    (let queuePressure = backlog / math_Max 1 (f64_of_int (sys_QueueLimit sys));
         retryStorm = errorRate * f64_of_int (sys_RetryLimit sys);
         cacheSat = memPressure * sys_CacheAggression sys;
         rawBacklogBias = math_Min 1 (backlog / fl 400)
     in math_Tanh (fl 0.7 * util * queuePressure + 1 * rawBacklogBias + fl 0.4 * retryStorm + fl 0.2 * cacheSat))"

definition tick_memory :: "SystemState \<Rightarrow> f64 \<Rightarrow> f64 \<Rightarrow> RegimeMemory \<Rightarrow> RegimeMemory" where
  \<comment> \<open>the update and the feedback of actuator saturation\<close>
  "tick_memory sys util actuatorLag m =
    (let m = Update (zero_state\<lparr> sys_Utilisation := util, sys_Risk := sys_Risk sys, sys_Latency := sys_Latency sys \<rparr>)
               (sys_SLATarget sys) (sys_Risk sys) defaultRegimeConfig m
     in if fl 1.5 < actuatorLag then m\<lparr> rm_RiskEWMA := math_Min 1 (rm_RiskEWMA m + fl 0.1) \<rparr> else m)"

definition emergency :: "SystemState \<Rightarrow> f64 \<Rightarrow> f64 \<Rightarrow> bool" where
  "emergency sys backlog energy \<longleftrightarrow>
     f64_of_int (sys_QueueLimit sys) * fl 0.3 < backlog \<or> fl 0.75 < energy \<or> fl 0.7 < sys_Risk sys"

definition tick_best :: "control_env \<Rightarrow> SystemState \<Rightarrow> RegimeMemory \<Rightarrow> Controller \<Rightarrow> Bundle" where
  "tick_best env sys m c =
    (let radius = 1 + int_of_f64 (fl 3 * rm_RiskEWMA m);
         candidates = GenerateBundles env sys \<lparr> gc_BaseRadius = radius, gc_Seed = 0 \<rparr> (Some m);
         best = SelectBestBundle env sys candidates (ct_OptimizerCfg c) (ct_SimCfg c) (ct_CostCfg c) (Some m);
         utilAfter = sys_PredictedArrival sys /
           (f64_of_int (bn_Replicas best) * sys_ServiceRate sys + fl 0.001);
         best = (if fl 0.85 < utilAfter then best\<lparr> bn_Replicas := bn_Replicas best + 1 \<rparr> else best)
     in ApplyDamping (ct_LastDecision c) best
          \<lparr> ab_MinReplicas = sys_MinReplicas sys, ab_MaxReplicas = sys_MaxReplicas sys, ab_MinQueue = 1,
             ab_MaxQueue = sys_QueueLimit sys * 2, ab_MinRetry = 1, ab_MaxRetry = sys_MaxRetry sys,
             ab_MinCache = 0, ab_MaxCache = 1 \<rparr> m)"

definition Tick ::
  "control_env \<Rightarrow> f64 \<Rightarrow> f64 \<Rightarrow> f64 \<Rightarrow> f64 \<Rightarrow> SystemState \<times> Controller \<Rightarrow> SystemState \<times> Controller" where
  "Tick env backlog errorRate memPressure dt sc =
    (let sys = fst sc; c = snd sc;
         act = (case ct_ActState c of None \<Rightarrow> initial_actuator sys | Some a \<Rightarrow> a);
         m = (case ct_Memory c of None \<Rightarrow> NewRegimeMemory | Some m \<Rightarrow> m);
         util = sys_PredictedArrival sys / (f64_of_int (sys_Replicas sys) * sys_ServiceRate sys + fl 0.001);
         energy = tick_energy sys util backlog errorRate memPressure;
         actuatorLag = \<bar>as_ReplicaWarm act - f64_of_int (sys_Replicas sys)\<bar>;
         m = tick_memory sys util actuatorLag m;
         settleTime = fl 2 + actuatorLag;
         settleTime = (if fl 0.6 < rm_RiskEWMA m then settleTime * fl 0.6 else settleTime)
     in if 0 < ct_decisionCooldown c \<and> \<not> emergency sys backlog energy
        then let (sys', act') = ApplyActuatorDynamics sys act (ct_LastDecision c) (ct_ActuatorCfg c)
                   backlog errorRate memPressure dt
             in (sys', c\<lparr> ct_ActState := Some act', ct_Memory := Some m,
                          ct_decisionCooldown := ct_decisionCooldown c - dt \<rparr>)
        else
          let best = tick_best env sys m c;
              (sys', act') = ApplyActuatorDynamics sys act best (ct_ActuatorCfg c)
                   backlog errorRate memPressure dt;
              realEnergy = math_Tanh (fl 0.5 * sys_Risk sys' + fl 0.3 * (sys_Latency sys' / sys_SLATarget sys') +
                   fl 0.2 * (backlog / f64_of_int (sys_QueueLimit sys')));
              m = RecordAction best (UpdateCostTrend (realEnergy - ct_lastEnergy c) m)
          in (sys', c\<lparr> ct_ActState := Some act', ct_Memory := Some m, ct_LastDecision := best,
                       ct_lastEnergy := realEnergy, ct_decisionCooldown := settleTime \<rparr>))"

section \<open>What a tick guarantees\<close>

lemma tick_memory_ok:
  assumes "mem_ok m" "fbtw 0 (sys_Risk sys) 1" shows "mem_ok (tick_memory sys util lag m)"
proof -
  define m' where "m' = Update (zero_state\<lparr> sys_Utilisation := util, sys_Risk := sys_Risk sys, sys_Latency := sys_Latency sys \<rparr>)
      (sys_SLATarget sys) (sys_Risk sys) defaultRegimeConfig m"
  have ok: "mem_ok m'" unfolding m'_def using assms by (intro Update_ok) simp_all
  then have "fbtw 0 (rm_RiskEWMA m' + fl 0.1) 2"
    using fl_const_btw [of "0.1"]
    by (intro fbtw_add [where a = 0 and b = 1 and c = 0 and d = 1]) (auto simp: mem_ok_def)
  then have "fbtw 0 (math_Min 1 (rm_RiskEWMA m' + fl 0.1)) 1"
    by (elim fbtwE) (simp add: one_f64_def)
  then show ?thesis using ok unfolding tick_memory_def Let_def m'_def [symmetric] by (simp add: mem_ok_def)
qed

lemma dynamics_replicas_pos: "1 \<le> sys_Replicas (fst (ApplyActuatorDynamics sys act b cfg bl er mp dt))"
  by (simp add: ApplyActuatorDynamics_def Let_def)

lemma dynamics_frame:
  "sys_Risk (fst (ApplyActuatorDynamics sys act b cfg bl er mp dt)) = sys_Risk sys"
  "sys_MinReplicas (fst (ApplyActuatorDynamics sys act b cfg bl er mp dt)) = sys_MinReplicas sys"
  "sys_MaxReplicas (fst (ApplyActuatorDynamics sys act b cfg bl er mp dt)) = sys_MaxReplicas sys"
  by (simp_all add: ApplyActuatorDynamics_def Let_def)

lemma Tick_cases:
  obtains m act' sys' b where
    "m = tick_memory (fst sc) (sys_PredictedArrival (fst sc) / (f64_of_int (sys_Replicas (fst sc)) * sys_ServiceRate (fst sc) + fl 0.001))
       \<bar>as_ReplicaWarm (case ct_ActState (snd sc) of None \<Rightarrow> initial_actuator (fst sc) | Some a \<Rightarrow> a) - f64_of_int (sys_Replicas (fst sc))\<bar>
       (case ct_Memory (snd sc) of None \<Rightarrow> NewRegimeMemory | Some m \<Rightarrow> m)"
    "\<exists>act. sys' = fst (ApplyActuatorDynamics (fst sc) act b (ct_ActuatorCfg (snd sc)) backlog errorRate memPressure dt)"
    "fst (Tick env backlog errorRate memPressure dt sc) = sys'"
    "b = ct_LastDecision (snd (Tick env backlog errorRate memPressure dt sc))"
    "\<exists>m'. ct_Memory (snd (Tick env backlog errorRate memPressure dt sc)) = Some m' \<and> (mem_ok m \<longrightarrow> mem_ok m')"
    "b = ct_LastDecision (snd sc) \<or> b = tick_best env (fst sc) m (snd sc)"
  by (rule that [OF refl]) (auto simp: Tick_def Let_def split_beta split: if_splits)

lemma ApplyDamping_replicas:
  assumes "0 \<le> ab_MinReplicas b" "ab_MinReplicas b \<le> ab_MaxReplicas b" "ab_MaxReplicas b \<le> 2 ^ 53"
  shows "bn_Replicas (ApplyDamping cur nxt b r) \<in> {ab_MinReplicas b..ab_MaxReplicas b}"
proof -
  have lim: "f64_of_int (ab_MinReplicas b) = Fin (of_int (ab_MinReplicas b))"
    "f64_of_int (ab_MaxReplicas b) = Fin (of_int (ab_MaxReplicas b))"
    using assms by (auto intro!: f64_of_int_small)
  have "fbtw (of_int (ab_MinReplicas b))
      (f64_clamp (f64_of_int i) (Fin (of_int (ab_MinReplicas b))) (Fin (of_int (ab_MaxReplicas b))))
      (of_int (ab_MaxReplicas b))" for i
    using assms(2) by (intro f64_clamp_btw) (simp_all add: f64_of_int_def)
  from int_of_f64_btw [OF this assms(1)] assms(3) show ?thesis
    by (simp add: ApplyDamping_def Let_def lim maxI64_def)
qed

definition ctrl_ok :: "Controller \<Rightarrow> bool" where
  "ctrl_ok c \<longleftrightarrow> (case ct_Memory c of None \<Rightarrow> True | Some m \<Rightarrow> mem_ok m)"

definition cooling :: "f64 \<Rightarrow> f64 \<Rightarrow> f64 \<Rightarrow> SystemState \<times> Controller \<Rightarrow> bool" where
  \<comment> \<open>within the settling time and without an emergency\<close>
  "cooling backlog errorRate memPressure sc \<longleftrightarrow>
     0 < ct_decisionCooldown (snd sc) \<and>
     \<not> emergency (fst sc) backlog (tick_energy (fst sc)
         (sys_PredictedArrival (fst sc) / (f64_of_int (sys_Replicas (fst sc)) * sys_ServiceRate (fst sc) + fl 0.001))
         backlog errorRate memPressure)"

lemma Tick_decision:
  "\<exists>m. ct_LastDecision (snd (Tick env backlog errorRate memPressure dt sc)) =
     (if cooling backlog errorRate memPressure sc then ct_LastDecision (snd sc) else tick_best env (fst sc) m (snd sc))"
  by (auto simp: Tick_def Let_def split_beta cooling_def)

lemma Tick_cooldown:
  "cooling backlog errorRate memPressure sc \<Longrightarrow>
   ct_decisionCooldown (snd (Tick env backlog errorRate memPressure dt sc)) = ct_decisionCooldown (snd sc) - dt"
  by (simp add: Tick_def Let_def split_beta cooling_def)

text \<open>
  C33: one tick of the closed loop, for any backlog, error rate, memory pressure and
  interval.  The service keeps at least one replica and the smoothed risk stays in the
  unit interval; while the loop settles and no emergency is seen the last decision is
  kept and the settling time runs down by the interval; otherwise a new decision is
  taken, and its replica count is within the limits of the service.
\<close>

theorem Tick_safe:
  assumes "ctrl_ok (snd sc)" "fbtw 0 (sys_Risk (fst sc)) 1"
    "0 \<le> sys_MinReplicas (fst sc)" "sys_MinReplicas (fst sc) \<le> sys_MaxReplicas (fst sc)"
    "sys_MaxReplicas (fst sc) \<le> 2 ^ 53"
  shows "let sc' = Tick env backlog errorRate memPressure dt sc; r = bn_Replicas (ct_LastDecision (snd sc')) in
    ctrl_ok (snd sc') \<and> 1 \<le> sys_Replicas (fst sc') \<and> sys_Risk (fst sc') = sys_Risk (fst sc) \<and>
    (if cooling backlog errorRate memPressure sc
     then ct_LastDecision (snd sc') = ct_LastDecision (snd sc) \<and>
          ct_decisionCooldown (snd sc') = ct_decisionCooldown (snd sc) - dt
     else sys_MinReplicas (fst sc) \<le> r \<and> r \<le> sys_MaxReplicas (fst sc))"
proof -
  define sc' where "sc' = Tick env backlog errorRate memPressure dt sc"
  obtain m act' sys' b where t:
    "m = tick_memory (fst sc) (sys_PredictedArrival (fst sc) / (f64_of_int (sys_Replicas (fst sc)) * sys_ServiceRate (fst sc) + fl 0.001))
       \<bar>as_ReplicaWarm (case ct_ActState (snd sc) of None \<Rightarrow> initial_actuator (fst sc) | Some a \<Rightarrow> a) - f64_of_int (sys_Replicas (fst sc))\<bar>
       (case ct_Memory (snd sc) of None \<Rightarrow> NewRegimeMemory | Some m \<Rightarrow> m)"
    "\<exists>act. sys' = fst (ApplyActuatorDynamics (fst sc) act b (ct_ActuatorCfg (snd sc)) backlog errorRate memPressure dt)"
    "fst sc' = sys'"
    "\<exists>m'. ct_Memory (snd sc') = Some m' \<and> (mem_ok m \<longrightarrow> mem_ok m')"
    unfolding sc'_def by (rule Tick_cases)
  have "mem_ok (case ct_Memory (snd sc) of None \<Rightarrow> NewRegimeMemory | Some m \<Rightarrow> m)"
    using assms(1) by (simp add: ctrl_ok_def split: option.splits)
  then have "mem_ok m" unfolding t(1) by (intro tick_memory_ok assms(2))
  then have 1: "ctrl_ok (snd sc')" using t(4) by (auto simp: ctrl_ok_def)
  have 2: "1 \<le> sys_Replicas (fst sc')" "sys_Risk (fst sc') = sys_Risk (fst sc)"
    using t(2,3) dynamics_replicas_pos dynamics_frame by auto
  have best: "bn_Replicas (tick_best env (fst sc) mm (snd sc)) \<in> {sys_MinReplicas (fst sc)..sys_MaxReplicas (fst sc)}" for mm
    using ApplyDamping_replicas [of "\<lparr> ab_MinReplicas = sys_MinReplicas (fst sc), ab_MaxReplicas = sys_MaxReplicas (fst sc),
       ab_MinQueue = 1, ab_MaxQueue = sys_QueueLimit (fst sc) * 2, ab_MinRetry = 1, ab_MaxRetry = sys_MaxRetry (fst sc),
       ab_MinCache = 0, ab_MaxCache = 1 \<rparr>"] assms(3-5)
    unfolding tick_best_def Let_def by simp
  obtain mm where 3: "ct_LastDecision (snd sc') =
     (if cooling backlog errorRate memPressure sc then ct_LastDecision (snd sc) else tick_best env (fst sc) mm (snd sc))"
    using Tick_decision unfolding sc'_def by blast
  show ?thesis
    using 1 2 3 best [of mm] Tick_cooldown [of backlog errorRate memPressure sc env dt]
    unfolding Let_def sc'_def [symmetric] by simp
qed

definition idle_controller :: Controller where
  "idle_controller = \<lparr> ct_OptimizerCfg = \<lparr> oc_ScenarioCount = 1, oc_EarlyStopMargin = 0, oc_BaseTemperature = 1, oc_MaxEvaluate = 8, oc_MinEvaluate = 1 \<rparr>,
     ct_SimCfg = \<lparr> sc_HorizonSteps = 1, sc_BaseLatency = 1, sc_Dt = 1, sc_DisturbanceStd = 0, sc_DisturbanceFreq = 0, sc_RetryFeedbackGain = 0,
       sc_WarmupRate = 0, sc_EfficiencyDecay = 0, sc_MaxQueueDelay = 1, sc_HazardUtilGain = 0, sc_HazardBacklogGain = 0, sc_HazardRetryGain = 0, sc_Seed = 1 \<rparr>,
     ct_CostCfg = \<lparr> cp_InfraUnitCost = 1, cp_SLAWeight = 1, cp_RiskWeight = 1, cp_BacklogWeight = 1, cp_UtilTarget = 1, cp_UtilBand = 0,
       cp_SmoothReplica = 0, cp_SmoothRetry = 0, cp_SmoothQueue = 0, cp_SmoothCache = 0, cp_CacheCostWeight = 0 \<rparr>,
     ct_ActuatorCfg = small_config, ct_ActState = None, ct_Memory = None, ct_LastDecision = zero_bundle,
     ct_decisionCooldown = 0, ct_lastEnergy = 0 \<rparr>"

definition small_service :: SystemState where
  "small_service = zero_state\<lparr> sys_MinReplicas := 2, sys_MaxReplicas := 6 \<rparr>"

lemma Tick_safe_witness:
  "bn_Replicas (ct_LastDecision (snd (Tick identity_env NaN NaN NaN 1 (small_service, idle_controller)))) \<in> {2..6}"
proof -
  have c: "ctrl_ok idle_controller" "\<not> cooling NaN NaN NaN (small_service, idle_controller)"
    by (simp_all add: cooling_def ctrl_ok_def idle_controller_def)
  have s: "fbtw 0 (sys_Risk small_service) 1" "sys_MinReplicas small_service = 2" "sys_MaxReplicas small_service = 6"
    by (simp_all add: small_service_def zero_state_def zero_f64_def)
  show ?thesis
    using Tick_safe [of "(small_service, idle_controller)" identity_env NaN NaN NaN 1] c s by (simp add: Let_def)
qed

end
