(* ===== verification/PlantPhysics.thy ===== *)
theory PlantPhysics
  imports FloatSign
begin

text \<open>
  \<open>internal/physics/plant.go\<close>: the fluid plant of one simulated service.  The state is the
  fluid queue \<open>Q\<close>, arrival \<open>A\<close>, service \<open>S\<close>, a two-valued load phase, hazard \<open>Z\<close>, reservoir
  \<open>R\<close>, noise level and time.  The random numbers \<open>Step\<close> draws (a uniform one for the phase, a
  normal one for the diffusion) are arguments; \<open>critical\<close> says whether CRITICAL_LOAD_MODE is on,
  in which case the uniform draw does not happen and its argument is ignored.
\<close>

record PlantParams =
  pp_Lambda :: f64
  pp_HighPhasePersistence :: f64
  pp_InflowRelaxLow :: f64
  pp_InflowRelaxHigh :: f64
  pp_InflowMeanLow :: f64
  pp_InflowMeanHigh :: f64
  pp_BaseService :: f64
  pp_ServiceAlpha :: f64
  pp_ServiceBeta :: f64
  pp_RecoveryGain :: f64
  pp_StabilityGain :: f64
  pp_HazardGain :: f64
  pp_HazardPower :: f64
  pp_HazardHeal :: f64
  pp_HazardDrag :: f64
  pp_ReservoirLambda :: f64
  pp_ReservoirCap :: f64
  pp_ArrivalBoostGain :: f64
  pp_NoiseBase :: f64
  pp_NoiseGain :: f64
  pp_NoiseSpikeGain :: f64

record FluidPlant =
  fp_Q :: f64
  fp_A :: f64
  fp_S :: f64
  fp_Phase :: int
  fp_Z :: f64
  fp_R :: f64
  fp_Sigma :: f64
  fp_T :: f64
  fp_P :: PlantParams

definition plant_params :: PlantParams where
  "plant_params = \<lparr> pp_Lambda = fl 0.25, pp_HighPhasePersistence = fl 4.5,
     pp_InflowRelaxLow = fl 0.5, pp_InflowRelaxHigh = fl 0.7, pp_InflowMeanLow = fl 0.6, pp_InflowMeanHigh = fl 1.05,
     pp_BaseService = fl 1.6, pp_ServiceAlpha = fl 0.35, pp_ServiceBeta = fl 0.45, pp_RecoveryGain = fl 0.02,
     pp_StabilityGain = fl 0.42, pp_HazardGain = fl 0.03, pp_HazardPower = fl 2, pp_HazardHeal = fl 0.003,
     pp_HazardDrag = fl 0.015, pp_ReservoirLambda = fl 0.09, pp_ReservoirCap = fl 5, pp_ArrivalBoostGain = fl 0.15,
     pp_NoiseBase = fl 0.02, pp_NoiseGain = fl 0.09, pp_NoiseSpikeGain = fl 0.25 \<rparr>"

definition NewFluidPlant :: FluidPlant where
  "NewFluidPlant = \<lparr> fp_Q = 0, fp_A = fl 0.6, fp_S = 1, fp_Phase = 0, fp_Z = 0, fp_R = 0, fp_Sigma = 0, fp_T = 0,
     fp_P = plant_params \<rparr>"

definition updatePhase :: "bool \<Rightarrow> f64 \<Rightarrow> f64 \<Rightarrow> FluidPlant \<Rightarrow> FluidPlant" where
  "updatePhase critical u dt p =
    (if critical then p
     else let lam = pp_Lambda (fp_P p); mu = lam / pp_HighPhasePersistence (fp_P p)
       in if fp_Phase p = 0 then (if u < lam * dt then p\<lparr> fp_Phase := 1 \<rparr> else p)
          else (if u < mu * dt then p\<lparr> fp_Phase := 0 \<rparr> else p))"

definition updateInflow :: "bool \<Rightarrow> f64 \<Rightarrow> FluidPlant \<Rightarrow> FluidPlant" where
  "updateInflow critical dt p =
    (if critical then p\<lparr> fp_A := pp_InflowMeanHigh (fp_P p) \<rparr>
     else if fp_Phase p = 0
     then p\<lparr> fp_A := fp_A p + - pp_InflowRelaxLow (fp_P p) * (fp_A p - pp_InflowMeanLow (fp_P p)) * dt \<rparr>
     else p\<lparr> fp_A := fp_A p + - pp_InflowRelaxHigh (fp_P p) * (fp_A p - pp_InflowMeanHigh (fp_P p)) * dt \<rparr>)"

definition updateService :: "FluidPlant \<Rightarrow> FluidPlant" where
  "updateService p =
    (let q = math_Max (fp_Q p) 0;
         s = pp_BaseService (fp_P p) / (1 + pp_ServiceAlpha (fp_P p) * q + pp_ServiceBeta (fp_P p) * fp_Z p)
     in p\<lparr> fp_S := s + pp_RecoveryGain (fp_P p) * math_Sqrt q \<rparr>)"

definition updateHazard :: "f64 \<Rightarrow> FluidPlant \<Rightarrow> FluidPlant" where
  "updateHazard dt p =
    (let ld = math_Pow (fp_Q p / (1 + fp_Q p)) (pp_HazardPower (fp_P p));
         z = fp_Z p + (pp_HazardGain (fp_P p) * ld - pp_HazardHeal (fp_P p) * fp_Z p - pp_HazardDrag (fp_P p) * fp_Q p) * dt
     in p\<lparr> fp_Z := (if z < 0 then 0 else z) \<rparr>)"

definition updateReservoir :: "f64 \<Rightarrow> FluidPlant \<Rightarrow> FluidPlant" where
  "updateReservoir dt p =
    (let cap = pp_ReservoirCap (fp_P p);
         r = fp_R p + ((fp_A p - fp_S p) - pp_ReservoirLambda (fp_P p) * fp_R p) * dt;
         r = (if cap < r then cap else r);
         r = (if r < - cap then - cap else r)
     in p\<lparr> fp_R := r \<rparr>)"

definition updateNoise :: "FluidPlant \<Rightarrow> FluidPlant" where
  "updateNoise p =
    (let ld = math_Sqrt (fp_Q p / (1 + fp_Q p))
     in p\<lparr> fp_Sigma := pp_NoiseBase (fp_P p) + pp_NoiseGain (fp_P p) * ld + pp_NoiseSpikeGain (fp_P p) * fp_Z p \<rparr>)"

definition boost_arrival :: "bool \<Rightarrow> f64 \<Rightarrow> FluidPlant \<Rightarrow> FluidPlant" where
  "boost_arrival critical dt p =
    (if critical then p
     else p\<lparr> fp_A := fp_A p + pp_ArrivalBoostGain (fp_P p) * math_Max (fp_R p) 0 * dt \<rparr>)"

definition move_queue :: "f64 \<Rightarrow> f64 \<Rightarrow> FluidPlant \<Rightarrow> FluidPlant" where
  "move_queue g dt p =
    (let dW = g * math_Sqrt dt;
         net = (fp_A p - fp_S p) - pp_StabilityGain (fp_P p) * fp_Q p;
         q = fp_Q p + (net * dt + fp_Sigma p * dW)
     in p\<lparr> fp_Q := (if q < 0 then 0 else q), fp_T := fp_T p + dt \<rparr>)"

definition plant_step :: "bool \<Rightarrow> f64 \<Rightarrow> f64 \<Rightarrow> f64 \<Rightarrow> FluidPlant \<Rightarrow> FluidPlant" where
  \<comment> \<open>\<open>Step\<close>, with the uniform draw \<open>u\<close> and the normal draw \<open>g\<close>\<close>
  "plant_step critical u g dt p =
    move_queue g dt (boost_arrival critical dt (updateNoise (updateReservoir dt (updateHazard dt
      (updateService (updateInflow critical dt (updatePhase critical u dt p)))))))"

definition plant_snapshot :: "FluidPlant \<Rightarrow> (string, f64) gomap" where
  "plant_snapshot p = [(''q'', fp_Q p), (''a'', fp_A p), (''s'', fp_S p), (''z'', fp_Z p), (''r'', fp_R p),
     (''sigma'', fp_Sigma p), (''t'', fp_T p)]"

section \<open>The invariant of the plant\<close>

text \<open>The parameters the simulator uses: the service gains are not negative and the reservoir
  has a finite capacity.  The hazard power is free, the runner rewrites it.\<close>

definition params_ok :: "PlantParams \<Rightarrow> bool" where
  "params_ok P \<longleftrightarrow> nn (pp_BaseService P) \<and> nn (pp_ServiceAlpha P) \<and> nn (pp_ServiceBeta P) \<and> nn (pp_RecoveryGain P) \<and>
     nn (pp_NoiseBase P) \<and> nn (pp_NoiseGain P) \<and> nn (pp_NoiseSpikeGain P) \<and>
     finite64 (pp_ReservoirCap P) \<and> f_nonneg (pp_ReservoirCap P)"

definition within_cap :: "f64 \<Rightarrow> f64 \<Rightarrow> bool" where
  "within_cap cap r \<longleftrightarrow> r = NaN \<or> - cap \<le> r \<and> r \<le> cap"

definition plant_ok :: "FluidPlant \<Rightarrow> bool" where
  "plant_ok p \<longleftrightarrow> nn (fp_Q p) \<and> nn (fp_S p) \<and> nn (fp_Z p) \<and> nn (fp_Sigma p) \<and>
     within_cap (pp_ReservoirCap (fp_P p)) (fp_R p) \<and> fp_Phase p \<in> {0, 1} \<and> params_ok (fp_P p)"

lemmas plant_updates = updatePhase_def updateInflow_def updateService_def updateHazard_def updateReservoir_def
  updateNoise_def boost_arrival_def move_queue_def Let_def

lemma clip_cap: "finite64 cap \<Longrightarrow> f_nonneg cap \<Longrightarrow>
  within_cap cap (let r = (if cap < r then cap else r) in if r < - cap then - cap else r)"
  by (cases cap; cases r) (auto simp: within_cap_def)

lemma NewFluidPlant_ok: "plant_ok NewFluidPlant"
  by (simp add: plant_ok_def NewFluidPlant_def params_ok_def plant_params_def within_cap_def nn_closed zero_f64_def)

lemma phase_ok: "fp_Phase p \<in> {0, 1} \<Longrightarrow> fp_Phase (updatePhase critical u dt p) \<in> {0, 1}"
  by (auto simp: updatePhase_def Let_def)

lemma service_nn: "params_ok (fp_P p) \<Longrightarrow> nn (fp_Z p) \<Longrightarrow> nn (fp_S (updateService p))"
proof -
  assume "params_ok (fp_P p)" "nn (fp_Z p)"
  moreover have "nn (math_Max (fp_Q p) 0)" by (intro nn_Max nn_one)
  ultimately show ?thesis by (auto simp: updateService_def Let_def params_ok_def intro!: nn_closed)
qed

lemma noise_nn: "params_ok (fp_P p) \<Longrightarrow> nn (fp_Z p) \<Longrightarrow> nn (fp_Sigma (updateNoise p))"
  by (auto simp: updateNoise_def Let_def params_ok_def intro!: nn_closed)

lemma plant_frames [simp]:
  "fp_Phase (updateInflow c dt p) = fp_Phase p" "fp_Z (updateInflow c dt p) = fp_Z p" "fp_P (updateInflow c dt p) = fp_P p"
  "fp_Z (updatePhase c u dt p) = fp_Z p" "fp_P (updatePhase c u dt p) = fp_P p"
  "fp_Phase (updateService p) = fp_Phase p" "fp_P (updateService p) = fp_P p"
  "fp_Phase (updateHazard dt p) = fp_Phase p" "fp_P (updateHazard dt p) = fp_P p" "fp_S (updateHazard dt p) = fp_S p"
  "fp_Phase (updateReservoir dt p) = fp_Phase p" "fp_P (updateReservoir dt p) = fp_P p" "fp_S (updateReservoir dt p) = fp_S p"
  "fp_Z (updateReservoir dt p) = fp_Z p"
  "fp_Phase (updateNoise p) = fp_Phase p" "fp_P (updateNoise p) = fp_P p" "fp_S (updateNoise p) = fp_S p"
  "fp_Z (updateNoise p) = fp_Z p" "fp_R (updateNoise p) = fp_R p"
  "fp_Phase (boost_arrival c dt p) = fp_Phase p" "fp_P (boost_arrival c dt p) = fp_P p" "fp_S (boost_arrival c dt p) = fp_S p"
  "fp_Z (boost_arrival c dt p) = fp_Z p" "fp_R (boost_arrival c dt p) = fp_R p" "fp_Sigma (boost_arrival c dt p) = fp_Sigma p"
  "fp_Phase (move_queue g dt p) = fp_Phase p" "fp_P (move_queue g dt p) = fp_P p" "fp_S (move_queue g dt p) = fp_S p"
  "fp_Z (move_queue g dt p) = fp_Z p" "fp_R (move_queue g dt p) = fp_R p" "fp_Sigma (move_queue g dt p) = fp_Sigma p"
  by (simp_all add: plant_updates)

lemma plant_step_params [frame_simps]: "fp_P (plant_step critical u g dt p) = fp_P p"
  by (simp add: plant_step_def)

lemma hazard_nn: "nn (fp_Z (updateHazard dt p))"
  by (simp add: updateHazard_def Let_def nn_clip del: if_split)

lemma queue_nn: "nn (fp_Q (move_queue g dt p))"
  by (simp add: move_queue_def Let_def nn_clip del: if_split)

lemma reservoir_cap: "params_ok P \<Longrightarrow> fp_P p = P \<Longrightarrow> within_cap (pp_ReservoirCap P) (fp_R (updateReservoir dt p))"
  using clip_cap [of "pp_ReservoirCap P" "fp_R p + ((fp_A p - fp_S p) - pp_ReservoirLambda P * fp_R p) * dt"]
  by (auto simp: updateReservoir_def Let_def params_ok_def simp del: if_split)

text \<open>A step of the fluid plant keeps its invariant for every time step and every pair of random
  draws, infinite and NaN ones included: queue, service rate, hazard and noise level are never
  negative, the reservoir stays inside its capacity and the phase is 0 or 1.\<close>

theorem plant_step_ok:
  assumes "params_ok (fp_P p)" "nn (fp_Z p)" "fp_Phase p \<in> {0, 1}"
  shows "plant_ok (plant_step critical u g dt p)"
  using assms phase_ok [of p critical u dt]
  by (auto simp: plant_ok_def plant_step_def service_nn noise_nn hazard_nn queue_nn reservoir_cap)

theorem plant_step_ok_witness: "plant_ok (plant_step False NaN PInf (fl 0.05) NewFluidPlant)"
  using NewFluidPlant_ok by (intro plant_step_ok) (auto simp: plant_ok_def)

end
