(* ===== verification/TrafficField.thy ===== *)
theory TrafficField
  imports PolicyProps "HOL-Library.Stream"
begin

text \<open>
  \<open>internal/dynamics/conservation_engine.go\<close>: the traffic-flow model of a network edge, a
  second-order (Aw-Rascle-Zhang) field of \<open>n\<close> cells with an HLLC flux, the user (congestion
  window) that sends into it, the send history, and the engine that steps all circuits with a
  common time step that satisfies every field's CFL condition.

  The normal numbers drawn from the global \<open>math/rand\<close> source are a stream that is passed
  through.  The two loops that count a float down (\<open>Rtt\<close>, \<open>Engine.Step\<close>) take fuel and return
  \<open>None\<close> when it runs out; \<open>Rtt_returns\<close> and \<open>engine_step_returns\<close> show that the fuel the
  definitions use is enough for the fields the simulator builds.
\<close>

section \<open>The field\<close>

record FieldParams =
  dp_RhoMax :: f64
  dp_VFree :: f64
  dp_Tau :: f64
  dp_C :: f64

record Field =
  fd_Dt :: f64
  fd_Dx :: f64
  fd_p :: FieldParams
  fd_rho :: "f64 list"
  fd_w :: "f64 list"
  fd_frho :: "f64 list"
  fd_fw :: "f64 list"
  fd_n :: nat

definition pressure :: "f64 \<Rightarrow> FieldParams \<Rightarrow> f64" where
  "pressure rho p = dp_C p * dp_C p * math_Log (1 + rho / dp_RhoMax p)"

definition veq :: "f64 \<Rightarrow> FieldParams \<Rightarrow> f64" where
  "veq rho p = dp_VFree p * (1 - rho / dp_RhoMax p)"

definition NewField :: "nat \<Rightarrow> f64 \<Rightarrow> FieldParams \<Rightarrow> Field" where
  "NewField cells dt p = \<lparr> fd_Dt = dt, fd_Dx = 1 / f64_of_int (int cells), fd_p = p,
     fd_rho = replicate cells 0, fd_w = replicate cells 0,
     fd_frho = replicate (cells + 1) 0, fd_fw = replicate (cells + 1) 0, fd_n = cells \<rparr>"

definition max_speed_step :: "Field \<Rightarrow> nat \<Rightarrow> f64 \<Rightarrow> f64" where
  "max_speed_step f i m =
    (let v = fd_w f ! i - pressure (fd_rho f ! i) (fd_p f);
         l1 = \<bar>v\<bar>; l2 = \<bar>v - dp_C (fd_p f)\<bar>;
         m = (if m < l1 then l1 else m)
     in if m < l2 then l2 else m)"

definition enforceCFL :: "Field \<Rightarrow> Field" where
  "enforceCFL f =
    (let maxL = fold (max_speed_step f) [0..<fd_n f] 0
     in if 0 < maxL
        then let dtMax = fd_Dx f / maxL in if dtMax < fd_Dt f then f\<lparr> fd_Dt := fl 0.8 * dtMax \<rparr> else f
        else f)"

definition cell_state :: "Field \<Rightarrow> int \<Rightarrow> f64 \<times> f64" where
  \<comment> \<open>\<open>state\<close>, with the ghost cells at both ends\<close>
  "cell_state f i =
    (if i < 0 then (fd_rho f ! 0, fd_w f ! 0)
     else if int (fd_n f) \<le> i then (fd_rho f ! (fd_n f - 1), fd_w f ! (fd_n f - 1))
     else (fd_rho f ! nat i, fd_w f ! nat i))"

definition riemann :: "Field \<Rightarrow> nat \<Rightarrow> f64 \<times> f64" where
  \<comment> \<open>the two fluxes through the left face of cell \<open>i\<close>\<close>
  "riemann f i =
    (let (rl, wl) = cell_state f (int i - 1); (rr, wr) = cell_state f (int i);
         vl = wl - pressure rl (fd_p f); vr = wr - pressure rr (fd_p f);
         ql = rl * vl; qr = rr * vr;
         sl = math_Min (vl - dp_C (fd_p f)) (vr - dp_C (fd_p f));
         sr = math_Max vl vr
     in if 0 \<le> sl then (ql, ql * wl)
        else if sr \<le> 0 then (qr, qr * wr)
        else let sm = (qr - ql + sl * rl - sr * rr) / (sl * rl - sr * rr);
                 rhoStarL = rl * (sl - vl) / (sl - sm);
                 rhoStarR = rr * (sr - vr) / (sr - sm)
             in if 0 \<le> sm then (ql + sl * (rhoStarL - rl), ql * wl + sl * (rhoStarL * wl - rl * wl))
                else (qr + sr * (rhoStarR - rr), qr * wr + sr * (rhoStarR * wr - rr * wr)))"

definition stochasticMomentum :: "f64 \<Rightarrow> f64 \<Rightarrow> f64 stream \<Rightarrow> f64 \<times> f64 stream" where
  "stochasticMomentum v dt r = (v + math_Sqrt dt * fl 0.2 * shd r, stl r)"

definition clamp_density :: "FieldParams \<Rightarrow> f64 \<Rightarrow> f64" where
  "clamp_density p rho =
    (let rho = (if rho < 0 then 0 else rho) in if dp_RhoMax p < rho then dp_RhoMax p else rho)"

definition clamp_speed :: "FieldParams \<Rightarrow> f64 \<Rightarrow> f64" where
  "clamp_speed p v =
    (let v = (if dp_VFree p < v then dp_VFree p else v) in if v < - dp_VFree p then - dp_VFree p else v)"

definition cell_update :: "Field \<Rightarrow> nat \<Rightarrow> f64 stream \<Rightarrow> f64 \<times> f64 \<times> f64 stream" where
  "cell_update f i r =
    (let p = fd_p f; ratio = - (fd_Dt f / fd_Dx f);
         rho = fd_rho f ! i + ratio * (fd_frho f ! (i + 1) - fd_frho f ! i);
         mom = rho * (fd_w f ! i - pressure rho p) + ratio * (fd_fw f ! (i + 1) - fd_fw f ! i);
         (w, r) = (if fl 0.000001 < rho
           then let (v, r) = stochasticMomentum (mom / rho) (fd_Dt f) r;
                    v = v + fd_Dt f * (veq rho p - v) / dp_Tau p
                in (clamp_speed p v + pressure rho p, r)
           else (fd_w f ! i, r))
     in (clamp_density p rho, w, r))"

definition cell_step :: "nat \<Rightarrow> Field \<times> f64 stream \<Rightarrow> Field \<times> f64 stream" where
  "cell_step i acc =
    (let f = fst acc; (rho, w, r) = cell_update f i (snd acc)
     in (f\<lparr> fd_rho := (fd_rho f)[i := rho], fd_w := (fd_w f)[i := w] \<rparr>, r))"

definition compute_fluxes :: "Field \<Rightarrow> Field" where
  "compute_fluxes f = f\<lparr> fd_frho := map (\<lambda>i. fst (riemann f i)) [0..<fd_n f + 1],
                         fd_fw := map (\<lambda>i. snd (riemann f i)) [0..<fd_n f + 1] \<rparr>"

definition field_step :: "f64 \<Rightarrow> Field \<Rightarrow> f64 stream \<Rightarrow> f64 \<times> Field \<times> f64 stream" where
  \<comment> \<open>\<open>Field.Step\<close>; as in the code, the inflow is not used\<close>
  "field_step inflow f r =
    (let f = compute_fluxes (enforceCFL f); (f, r) = fold cell_step [0..<fd_n f] (f, r)
     in (fd_frho f ! fd_n f, f, r))"

fun rtt_loop :: "nat \<Rightarrow> Field \<Rightarrow> f64 \<Rightarrow> f64 \<Rightarrow> f64 option" where
  "rtt_loop 0 f x t = None"
| "rtt_loop (Suc fuel) f x t =
    (if 0 < x
     then let i = int_of_f64 (x / fd_Dx f);
              i = (if i < 0 then 0 else i);
              i = (if int (fd_n f) \<le> i then int (fd_n f) - 1 else i);
              v = fd_w f ! nat i - pressure (fd_rho f ! nat i) (fd_p f);
              v = (if v < fl 0.000001 then fl 0.000001 else v)
          in rtt_loop fuel f (x - fd_Dx f) (t + fd_Dx f / v)
     else Some t)"

definition Rtt :: "Field \<Rightarrow> f64 option" where
  "Rtt f = rtt_loop (2 * fd_n f + 2) f (f64_of_int (int (fd_n f) - 1) * fd_Dx f) 0"

section \<open>Users, histories and the engine\<close>

record User =
  us_Dt :: f64
  us_W :: f64
  us_N :: f64
  us_Send :: f64
  us_Ack :: f64
  us_A :: f64
  us_B :: f64

definition NewUser :: "f64 \<Rightarrow> User" where
  "NewUser dt = \<lparr> us_Dt = dt, us_W = 0, us_N = 0, us_Send = 0, us_Ack = 0, us_A = fl 0.1, us_B = fl 0.9 \<rparr>"

definition user_step :: "f64 \<Rightarrow> User \<Rightarrow> User" where
  "user_step deficit u =
    (let w = (if 0 < deficit then us_W u * us_B u else us_W u + us_A u * us_Dt u);
         send = (if us_N u < w then (w - us_N u) / us_Dt u else 0);
         n = us_N u + (send - us_Ack u) * us_Dt u
     in u\<lparr> us_W := w, us_Send := send, us_N := (if n < 0 then 0 else n) \<rparr>)"

record History =
  hi_t :: "f64 list"
  hi_r :: "f64 list"
  hi_n :: nat
  hi_pos :: nat

definition NewHistory :: "nat \<Rightarrow> History" where
  "NewHistory n = \<lparr> hi_t = replicate n 0, hi_r = replicate n 0, hi_n = n, hi_pos = 0 \<rparr>"

definition history_push :: "f64 \<Rightarrow> f64 \<Rightarrow> History \<Rightarrow> History" where
  "history_push t r h =
    h\<lparr> hi_t := (hi_t h)[hi_pos h := t], hi_r := (hi_r h)[hi_pos h := r], hi_pos := (hi_pos h + 1) mod hi_n h \<rparr>"

definition Integral :: "f64 \<Rightarrow> f64 \<Rightarrow> History \<Rightarrow> f64" where
  "Integral now delay h =
    fold (\<lambda>i s. if now - hi_t h ! i \<le> delay
       then s + fl 0.5 * (hi_r h ! i + hi_r h ! (i + 1)) * (hi_t h ! (i + 1) - hi_t h ! i) else s)
     [0..<hi_n h - 1] 0"

record Circuit =
  ct_Field :: Field
  ct_User :: User
  ct_Hist :: History

definition NewCircuit :: "Field \<Rightarrow> User \<Rightarrow> History \<Rightarrow> Circuit" where
  "NewCircuit f u h = \<lparr> ct_Field = f, ct_User = u, ct_Hist = h \<rparr>"

record Engine =
  dg_Dt :: f64
  dg_Circuits :: "Circuit list"
  dg_Time :: f64

definition NewEngine :: "f64 \<Rightarrow> Engine" where
  "NewEngine dt = \<lparr> dg_Dt = dt, dg_Circuits = [], dg_Time = 0 \<rparr>"

fun cfl_step :: "Circuit list \<Rightarrow> f64 \<Rightarrow> Circuit list \<times> f64" where
  \<comment> \<open>the first loop over the circuits: every field gets the current step and may lower it\<close>
  "cfl_step [] stepDt = ([], stepDt)"
| "cfl_step (c # cs) stepDt =
    (let f = enforceCFL ((ct_Field c)\<lparr> fd_Dt := stepDt \<rparr>);
         stepDt = (if fd_Dt f < stepDt then fd_Dt f else stepDt);
         (cs, stepDt) = cfl_step cs stepDt
     in (c\<lparr> ct_Field := f \<rparr> # cs, stepDt))"

definition circuit_step :: "f64 \<Rightarrow> f64 \<Rightarrow> Circuit \<Rightarrow> f64 stream \<Rightarrow> (Circuit \<times> f64 stream) option" where
  "circuit_step now stepDt c r =
    (let (out, f, r) = field_step (us_Send (ct_User c)) ((ct_Field c)\<lparr> fd_Dt := stepDt \<rparr>) r
     in case Rtt f of None \<Rightarrow> None
        | Some delay \<Rightarrow>
            (let ack = Integral now delay (ct_Hist c);
                 deficit = us_Send (ct_User c) - out;
                 u = user_step deficit ((ct_User c)\<lparr> us_Ack := ack, us_Dt := stepDt \<rparr>)
             in Some (\<lparr> ct_Field = f, ct_User = u, ct_Hist = history_push now (us_Send u) (ct_Hist c) \<rparr>, r)))"

fun circuits_step :: "f64 \<Rightarrow> f64 \<Rightarrow> Circuit list \<Rightarrow> f64 stream \<Rightarrow> (Circuit list \<times> f64 stream) option" where
  "circuits_step now stepDt [] r = Some ([], r)"
| "circuits_step now stepDt (c # cs) r =
    (case circuit_step now stepDt c r of None \<Rightarrow> None
     | Some (c, r) \<Rightarrow> (case circuits_step now stepDt cs r of None \<Rightarrow> None | Some (cs, r) \<Rightarrow> Some (c # cs, r)))"

fun engine_loop :: "nat \<Rightarrow> f64 \<Rightarrow> Engine \<Rightarrow> f64 stream \<Rightarrow> (Engine \<times> f64 stream) option" where
  "engine_loop 0 left e r = None"
| "engine_loop (Suc fuel) left e r =
    (if 0 < left
     then let stepDt = (if left < dg_Dt e then left else dg_Dt e);
              (cs, stepDt) = cfl_step (dg_Circuits e) stepDt;
              stepDt = (if stepDt < fl 0.000001 then fl 0.000001 else stepDt)
          in case circuits_step (dg_Time e) stepDt cs r of None \<Rightarrow> None
             | Some (cs, r) \<Rightarrow>
                 engine_loop fuel (left - stepDt) (e\<lparr> dg_Circuits := cs, dg_Time := dg_Time e + stepDt \<rparr>) r
     else Some (e, r))"

definition engine_fuel :: nat where
  \<comment> \<open>more than 0.05 s in steps of a microsecond\<close>
  "engine_fuel = 60000"

definition engine_step :: "f64 \<Rightarrow> Engine \<Rightarrow> f64 stream \<Rightarrow> (Engine \<times> f64 stream) option" where
  "engine_step macroDt e r = engine_loop engine_fuel macroDt e r"

section \<open>The densities stay in range\<close>

definition density_ok :: "FieldParams \<Rightarrow> f64 \<Rightarrow> bool" where
  "density_ok p rho \<longleftrightarrow> rho = NaN \<or> 0 \<le> rho \<and> rho \<le> dp_RhoMax p"

lemma clamp_density_ok: "fbtw 0 (dp_RhoMax p) big \<Longrightarrow> density_ok p (clamp_density p rho)"
  by (cases rho) (auto simp: clamp_density_def density_ok_def Let_def zero_f64_def elim!: fbtwE)

lemma cell_step_apply:
  "cell_step i (f, r) = (case cell_update f i r of (rho, w, r) \<Rightarrow> (f\<lparr> fd_rho := (fd_rho f)[i := rho], fd_w := (fd_w f)[i := w] \<rparr>, r))"
  by (simp add: cell_step_def)

lemma cell_update_density: "fbtw 0 (dp_RhoMax (fd_p f)) big \<Longrightarrow> density_ok (fd_p f) (fst (cell_update f i r))"
  by (auto simp: cell_update_def Let_def clamp_density_ok split: prod.splits)

lemma cells_frame:
  "case fold cell_step is (f, r) of (f', _) \<Rightarrow> fd_p f' = fd_p f \<and> fd_n f' = fd_n f \<and> fd_Dx f' = fd_Dx f \<and>
     fd_Dt f' = fd_Dt f \<and> fd_frho f' = fd_frho f \<and> fd_fw f' = fd_fw f \<and>
     length (fd_rho f') = length (fd_rho f) \<and> length (fd_w f') = length (fd_w f)"
proof (induction "is" arbitrary: f r)
  case (Cons i "is")
  obtain rho w r' where u: "cell_update f i r = (rho, w, r')" by (metis prod_cases3)
  show ?case using Cons.IH [of "f\<lparr> fd_rho := (fd_rho f)[i := rho], fd_w := (fd_w f)[i := w] \<rparr>" r']
    by (simp add: cell_step_apply u)
qed simp

lemma cells_density:
  assumes "fbtw 0 (dp_RhoMax (fd_p f)) big" "k \<le> length (fd_rho f)"
  shows "\<forall>i < k. density_ok (fd_p f) (fd_rho (fst (fold cell_step [0..<k] (f, r))) ! i)"
  using assms(2)
proof (induction k)
  case (Suc k)
  obtain g s where g: "fold cell_step [0..<k] (f, r) = (g, s)" by fastforce
  obtain rho w s' where u: "cell_update g k s = (rho, w, s')" by (metis prod_cases3)
  have fr: "fd_p g = fd_p f" "length (fd_rho g) = length (fd_rho f)" using cells_frame [where ?is = "[0..<k]" and f = f and r = r] by (simp_all add: g)
  have "density_ok (fd_p f) rho" using cell_update_density [of g k s] assms(1) by (simp add: u fr)
  then show ?case using Suc g fr by (auto simp: cell_step_apply u less_Suc_eq)
qed simp

lemma enforceCFL_frame [simp]:
  "fd_p (enforceCFL f) = fd_p f" "fd_n (enforceCFL f) = fd_n f" "fd_Dx (enforceCFL f) = fd_Dx f"
  "fd_rho (enforceCFL f) = fd_rho f" "fd_w (enforceCFL f) = fd_w f"
  by (auto simp: enforceCFL_def Let_def)

lemma compute_fluxes_frame [simp]:
  "fd_p (compute_fluxes f) = fd_p f" "fd_n (compute_fluxes f) = fd_n f" "fd_Dx (compute_fluxes f) = fd_Dx f"
  "fd_rho (compute_fluxes f) = fd_rho f" "fd_w (compute_fluxes f) = fd_w f" "fd_Dt (compute_fluxes f) = fd_Dt f"
  by (simp_all add: compute_fluxes_def)

lemma field_step_frame:
  "field_step inflow f r = (out, f', r') \<Longrightarrow>
   fd_p f' = fd_p f \<and> fd_n f' = fd_n f \<and> fd_Dx f' = fd_Dx f \<and>
   length (fd_rho f') = length (fd_rho f) \<and> length (fd_w f') = length (fd_w f)"
  using cells_frame [where ?is = "[0..<fd_n f]" and f = "compute_fluxes (enforceCFL f)" and r = r]
  by (auto simp: field_step_def Let_def split: prod.splits)

text \<open>After a step of the traffic field every cell's density is NaN or inside [0, RhoMax], whatever
  the time step, the inflow, the previous state and the random numbers.\<close>

theorem field_step_density:
  assumes "fbtw 0 (dp_RhoMax (fd_p f)) big" "fd_n f = length (fd_rho f)" "field_step inflow f r = (out, f', r')"
  shows "list_all (density_ok (fd_p f)) (fd_rho f')"
proof -
  let ?g = "compute_fluxes (enforceCFL f)"
  have "fd_rho f' = fd_rho (fst (fold cell_step [0..<fd_n f] (?g, r)))"
    using assms(3) by (auto simp: field_step_def Let_def split: prod.splits)
  then show ?thesis
    using cells_density [of ?g "fd_n f" r] assms(1, 2) field_step_frame [OF assms(3)] by (simp add: list_all_length)
qed

section \<open>A field that starts empty\<close>

definition simulator_params :: FieldParams where
  \<comment> \<open>the parameters of the runner's circuits\<close>
  "simulator_params = \<lparr> dp_RhoMax = fl 100, dp_VFree = fl 1, dp_Tau = fl 0.5, dp_C = fl 0.2 \<rparr>"

definition empty_field :: "Field \<Rightarrow> bool" where
  "empty_field f \<longleftrightarrow> fd_p f = simulator_params \<and> 0 < fd_n f \<and> fd_n f \<le> 1000 \<and>
     fbtw 0 (fd_Dt f) 1 \<and> fbtw (1 / 1024) (fd_Dx f) 1 \<and>
     fd_rho f = replicate (fd_n f) 0 \<and> fd_w f = replicate (fd_n f) 0"

lemma sim_C: obtains c where "fl 0.2 = Fin c" "1 / 8 \<le> c" "c \<le> 1"
  by (rule fl_close [of "0.2"]) auto

lemma pressure_empty: "pressure 0 simulator_params = 0"
proof -
  obtain c where c: "fl 0.2 = Fin c" "1 / 8 \<le> c" "c \<le> 1" by (rule sim_C)
  have cc: "0 \<le> c * c" "c * c \<le> 1" using c mult_mono [of c 1 c 1] by simp_all
  then have cc': "- 1024 \<le> c * c" "c * c \<le> 1024" by linarith+
  obtain d where "fl (c * c) = Fin d" using fl_close [OF cc'] by blast
  then show ?thesis using c by (simp add: pressure_def simulator_params_def zero_f64_def one_f64_def)
qed

lemma riemann_empty: assumes "empty_field f" shows "riemann f i = (0, 0)"
proof -
  obtain c where c: "fl 0.2 = Fin c" "1 / 8 \<le> c" "c \<le> 1" by (rule sim_C)
  obtain d where d: "fl (- c) = Fin d" "d < 0" by (rule fl_close [of "- c"]) (use c in auto)
  have st: "cell_state f k = (0, 0)" for k using assms by (auto simp: empty_field_def cell_state_def)
  have p: "fd_p f = simulator_params" using assms by (simp add: empty_field_def)
  have C: "dp_C simulator_params = Fin c" using c by (simp add: simulator_params_def)
  show ?thesis
    using pressure_empty by (simp add: riemann_def st p C Let_def zero_f64_def d)
qed

lemma riemann_Dt [simp]: "riemann (f\<lparr> fd_Dt := dt \<rparr>) i = riemann f i"
  by (simp add: riemann_def cell_state_def)

lemma cfl_dt:
  assumes "empty_field f" shows "fbtw 0 (fd_Dt (enforceCFL f)) 16"
proof -
  have dt: "fbtw 0 (fd_Dt f) 1" and dx: "fbtw (1 / 1024) (fd_Dx f) 1" using assms by (auto simp: empty_field_def)
  obtain c where c: "fl 0.2 = Fin c" "1 / 8 \<le> c" "c \<le> 1" by (rule sim_C)
  obtain d where d: "fl (- c) = Fin d" "d \<le> - (1 / 9)" "- 2 \<le> d" by (rule fl_close [of "- c"]) (use c in auto)
  have step: "max_speed_step f i m = (let m = (if m < 0 then 0 else m) in if m < Fin \<bar>d\<bar> then Fin \<bar>d\<bar> else m)"
    if "i < fd_n f" for i m
    using that assms pressure_empty c d
    by (simp add: max_speed_step_def empty_field_def simulator_params_def zero_f64_def Let_def)
  have m: "fold (max_speed_step f) is m \<in> {0, Fin \<bar>d\<bar>}" if "set is \<subseteq> {..<fd_n f}" "m \<in> {0, Fin \<bar>d\<bar>}" for "is" m
    using that by (induction "is" arbitrary: m) (auto simp: step zero_f64_def Let_def)
  have "fold (max_speed_step f) [0..<fd_n f] 0 \<in> {0, Fin \<bar>d\<bar>}" by (rule m) auto
  moreover have "fbtw 0 (fl 0.8 * (fd_Dx f / Fin \<bar>d\<bar>)) 16"
  proof (rule fbtw_mult [where a = 0 and b = 1 and c = 0 and d = 16])
    show "fbtw 0 (fl 0.8) 1" by (rule fbtw_fl) auto
    show "fbtw 0 (fd_Dx f / Fin \<bar>d\<bar>) 16"
      by (rule fbtw_divide [where a = "1 / 1024" and b = 1 and c = "1 / 9" and d = 2]) (use dx d in auto)
  qed auto
  ultimately show ?thesis using dt by (auto simp: enforceCFL_def Let_def intro: fbtw_weaken)
qed

lemma zero_arith [simp]: "0 - 0 = (0 :: f64)" "0 + 0 = (0 :: f64)" "0 * 0 = (0 :: f64)"
  by (simp_all add: zero_f64_def)

lemma times_zero: "fbtw a x b \<Longrightarrow> x * 0 = 0"
  by (auto elim!: fbtwE simp: zero_f64_def)

lemma clamp_density_zero [simp]: "clamp_density simulator_params 0 = 0"
  by (simp add: clamp_density_def simulator_params_def Let_def zero_f64_def)

lemma cell_update_empty:
  assumes "empty_field f" "fbtw 0 (fd_Dt g) 16" "fd_Dx g = fd_Dx f" "fd_p g = simulator_params"
    and "fd_rho g ! i = 0" "fd_w g ! i = 0" "fd_frho g ! i = 0" "fd_frho g ! (i + 1) = 0" "fd_fw g ! i = 0" "fd_fw g ! (i + 1) = 0"
  shows "cell_update g i r = (0, 0, r)"
proof -
  have "fbtw (1 / 1024) (fd_Dx g) 1" using assms by (simp add: empty_field_def)
  then have "fbtw 0 (fd_Dt g / fd_Dx g) 16384"
    by (intro fbtw_divide [where a = 0 and b = 16 and c = "1 / 1024" and d = 1] assms(2)) auto
  then have "fbtw (- 16384) (- (fd_Dt g / fd_Dx g)) 0" by (auto intro: fbtw_minus)
  note z = times_zero [OF this]
  obtain y where y: "fl 0.000001 = Fin y" by (rule fl_close [of "0.000001"]) auto
  then have "0 \<le> y" using fl_nonneg [of "0.000001"] by simp
  with y have "\<not> fl 0.000001 < 0" by (simp add: zero_f64_def)
  then show ?thesis using assms(4-) by (simp add: cell_update_def Let_def z pressure_empty)
qed

lemma cells_empty:
  assumes "empty_field f" "fbtw 0 (fd_Dt g) 16" "fd_Dx g = fd_Dx f" "fd_p g = simulator_params" "set is \<subseteq> {..<n}"
    and "fd_rho g = replicate n 0" "fd_w g = replicate n 0" "fd_frho g = replicate (n + 1) 0" "fd_fw g = replicate (n + 1) 0"
  shows "fold cell_step is (g, r) = (g, r)"
  using assms(5)
proof (induction "is")
  case (Cons i "is")
  then have "i < n" by simp
  then have "cell_update g i r = (0, 0, r)" using assms by (intro cell_update_empty [OF assms(1)]) (auto simp del: replicate_Suc)
  moreover have "(replicate n 0)[i := 0] = replicate n (0 :: f64)" by (simp add: list_update_same_conv \<open>i < n\<close>)
  ultimately have "cell_step i (g, r) = (g\<lparr> fd_rho := replicate n 0, fd_w := replicate n 0 \<rparr>, r)"
    using assms(6, 7) by (simp add: cell_step_apply)
  also have "g\<lparr> fd_rho := replicate n 0, fd_w := replicate n 0 \<rparr> = g" using assms(6, 7) by (cases g) simp
  finally show ?case using Cons by simp
qed simp

lemma field_step_empty:
  assumes "empty_field f"
  shows "\<exists>f'. field_step inflow f r = (0, f', r) \<and> empty_field (f'\<lparr> fd_Dt := fd_Dt f \<rparr>) \<and> fd_n f' = fd_n f"
proof -
  let ?g = "compute_fluxes (enforceCFL f)"
  have e: "empty_field (enforceCFL f\<lparr> fd_Dt := fd_Dt f \<rparr>)" using assms by (simp add: empty_field_def)
  have rm: "riemann (enforceCFL f) i = (0, 0)" for i
    using riemann_empty [OF e, of i] by simp
  have fx: "fd_frho ?g = replicate (fd_n f + 1) 0" "fd_fw ?g = replicate (fd_n f + 1) 0"
    by (simp_all add: compute_fluxes_def rm map_replicate_const del: upt_Suc replicate_Suc)
  have "fold cell_step [0..<fd_n f] (?g, r) = (?g, r)"
    using assms fx cfl_dt [OF assms]
    by (intro cells_empty [OF assms, where n = "fd_n f"]) (auto simp: empty_field_def simp del: replicate_Suc)
  then show ?thesis using assms fx
    by (simp add: field_step_def Let_def empty_field_def del: replicate_Suc)
qed

fun field_run :: "(f64 \<times> f64) list \<Rightarrow> Field \<Rightarrow> f64 stream \<Rightarrow> f64 list \<times> Field" where
  \<comment> \<open>the engine's calls: set the time step, then step with an inflow\<close>
  "field_run [] f r = ([], f)"
| "field_run ((dt, inflow) # xs) f r =
    (case field_step inflow (f\<lparr> fd_Dt := dt \<rparr>) r of (out, f, r) \<Rightarrow>
       (case field_run xs f r of (outs, f) \<Rightarrow> (out # outs, f)))"

lemma empty_field_dt: "empty_field (f\<lparr> fd_Dt := x \<rparr>) \<Longrightarrow> fbtw 0 y 1 \<Longrightarrow> empty_field (f\<lparr> fd_Dt := y \<rparr>)"
  by (simp add: empty_field_def)

text \<open>Field.Step ignores its inflow argument, so a field that starts empty, as NewField builds it for
  every edge of the simulated topology, stays empty for ever: whatever is sent into it at
  whatever time steps of at most a second, its outflow is always 0 and its densities stay 0.\<close>

theorem empty_field_never_fills:
  assumes "list_all (\<lambda>(dt, inflow). fbtw 0 dt 1) xs" "empty_field f"
  shows "fst (field_run xs f r) = replicate (length xs) 0 \<and> fd_rho (snd (field_run xs f r)) = replicate (fd_n f) 0"
proof -
  have "fst (field_run xs f r) = replicate (length xs) 0 \<and> fd_rho (snd (field_run xs f r)) = replicate (fd_n f) 0"
    if "empty_field (f\<lparr> fd_Dt := d \<rparr>)" for d
    using assms(1) that
  proof (induction xs arbitrary: f d)
    case (Cons x xs)
    obtain dt inflow where x: "x = (dt, inflow)" by fastforce
    then have "empty_field (f\<lparr> fd_Dt := dt \<rparr>)" using Cons.prems by (auto intro: empty_field_dt)
    from field_step_empty [OF this, of inflow r] obtain g where
      g: "field_step inflow (f\<lparr> fd_Dt := dt \<rparr>) r = (0, g, r)" "empty_field (g\<lparr> fd_Dt := dt \<rparr>)" "fd_n g = fd_n f" by auto
    show ?case using Cons.IH [OF _ g(2)] Cons.prems(1) g by (auto simp: x split: prod.splits)
  qed (simp add: empty_field_def)
  from this [of "fd_Dt f"] assms(2) show ?thesis by simp
qed

definition simulator_field :: Field where
  \<comment> \<open>the field the runner builds for every edge\<close>
  "simulator_field = NewField 20 (fl 0.05) simulator_params"

lemma cell_width: "fbtw (1 / 32) (1 / f64_of_int 20) (1 / 16)"
proof -
  obtain d where d: "fl (1 / 20) = Fin d" "1 / 20 - 1 / 100000 \<le> d" "d \<le> 1 / 20 + 1 / 100000" by (rule fl_close [of "1 / 20"]) auto
  then show ?thesis by (simp add: one_f64_def)
qed

lemma simulator_field_empty: "empty_field simulator_field"
proof -
  obtain d where d: "fl 0.05 = Fin d" "0 \<le> d" "d \<le> 1" by (rule fl_close [of "0.05"]) auto
  have "fbtw (1 / 1024) (1 / f64_of_int 20) 1" using cell_width by (auto elim: fbtw_weaken)
  then show ?thesis using d
    by (simp add: empty_field_def simulator_field_def NewField_def del: f64_of_int_simps)
qed

theorem empty_field_never_fills_witness:
  "fst (field_run [(1, fl 100), (fl 0.5, fl 100)] simulator_field (sconst 0)) = [0, 0]"
proof -
  have "list_all (\<lambda>(dt, inflow). fbtw 0 dt 1) [(1, fl 100), (fl 0.5, fl 100)]" by (auto simp: one_f64_def fbtw_fl)
  from conjunct1 [OF empty_field_never_fills [OF this simulator_field_empty, of "sconst 0"]] show ?thesis by simp
qed

theorem field_step_density_witness:
  "list_all (density_ok simulator_params) (fd_rho (fst (snd (field_step (fl 3) simulator_field (sconst PInf)))))"
proof -
  obtain out f' r' where s: "field_step (fl 3) simulator_field (sconst PInf) = (out, f', r')" by (metis prod_cases3)
  have "fd_p simulator_field = simulator_params" "fd_n simulator_field = length (fd_rho simulator_field)"
    by (simp_all add: simulator_field_def NewField_def)
  moreover have "fbtw 0 (dp_RhoMax simulator_params) big"
    using numeral_le_big [of "num.Bit0 (num.Bit0 (num.Bit1 (num.Bit0 (num.Bit0 (num.Bit1 num.One)))))"] by (simp add: simulator_params_def)
  ultimately show ?thesis using field_step_density [OF _ _ s] by (simp add: s del: fl_numeral)
qed

section \<open>The loops return\<close>

lemma sub_near:
  assumes "fbtw 0 x 1000" "fbtw d y 1" "0 \<le> d"
  obtains z where "x - y = Fin z" "z \<le> val x - val y + 1 / 1000000000000" "- 2 \<le> z"
proof -
  obtain a b where ab: "x = Fin a" "y = Fin b" "0 \<le> a" "a \<le> 1000" "0 \<le> b" "b \<le> 1" using assms by (auto elim!: fbtwE)
  have "\<bar>a - b\<bar> \<le> 1024" using ab by simp
  then obtain z where z: "fl (a - b) = Fin z" "\<bar>z - (a - b)\<bar> \<le> 1 / 1099511627776" using fl_near by blast
  show ?thesis
  proof (rule that)
    show "x - y = Fin z" using ab z by simp
    have "z \<le> a - b + 1 / 1000000000000" using z(2) by linarith
    then show "z \<le> val x - val y + 1 / 1000000000000" using ab by simp
    show "- 2 \<le> z" using z(2) ab(3, 6) by linarith
  qed
qed

definition field_ok :: "Field \<Rightarrow> bool" where
  "field_ok f \<longleftrightarrow> fd_n f \<le> 900 \<and> fbtw (1 / 1024) (fd_Dx f) 1"

lemma rtt_loop_returns:
  assumes "fbtw (1 / 1024) (fd_Dx f) 1"
  shows "fbtw (- 2) x 1000 \<Longrightarrow> val x \<le> real k * (val (fd_Dx f) - 1 / 1000000000) \<Longrightarrow> \<exists>t'. rtt_loop (Suc k) f x t = Some t'"
proof (induction k arbitrary: x t)
  case 0
  then have "\<not> 0 < x" by (auto elim!: fbtwE simp: zero_f64_def)
  then show ?case by simp
next
  case (Suc k)
  show ?case
  proof (cases "0 < x")
    case True
    then have x: "fbtw 0 x 1000" using Suc.prems(1) by (auto elim!: fbtwE simp: zero_f64_def)
    obtain z where z: "x - fd_Dx f = Fin z" "z \<le> val x - val (fd_Dx f) + 1 / 1000000000000" "- 2 \<le> z"
      by (rule sub_near [OF x assms]) auto
    have xv: "0 \<le> val x" "val x \<le> 1000" using x by (auto elim!: fbtwE)
    have dv: "1 / 1024 \<le> val (fd_Dx f)" using assms by (auto elim!: fbtwE)
    have "val x \<le> real k * (val (fd_Dx f) - 1 / 1000000000) + (val (fd_Dx f) - 1 / 1000000000)"
      using Suc.prems(2) by (simp add: algebra_simps add_divide_distrib)
    then have "z \<le> real k * (val (fd_Dx f) - 1 / 1000000000)" using z(2) by linarith
    moreover have "z \<le> 1000" using z(2) xv dv by linarith
    ultimately have "\<exists>t'. rtt_loop (Suc k) f (x - fd_Dx f) t = Some t'" for t
      using Suc.IH [of "Fin z" t] z by simp
    then show ?thesis using True by (subst rtt_loop.simps) (simp add: Let_def del: rtt_loop.simps)
  qed simp
qed

lemma Rtt_returns: assumes "field_ok f" shows "\<exists>t. Rtt f = Some t"
proof -
  have n: "fd_n f \<le> 900" and dx: "fbtw (1 / 1024) (fd_Dx f) 1" using assms by (auto simp: field_ok_def)
  then obtain d where d: "fd_Dx f = Fin d" "1 / 1024 \<le> d" "d \<le> 1" by (auto elim!: fbtwE)
  let ?m = "real_of_int (int (fd_n f) - 1)"
  have m: "f64_of_int (int (fd_n f) - 1) = Fin ?m" using n by (intro f64_of_int_small) auto
  have md: "- 1 \<le> ?m * d" "?m * d \<le> 900" "?m * d \<le> real (fd_n f) * d"
  proof -
    show "?m * d \<le> real (fd_n f) * d" using d by (intro mult_right_mono) auto
    moreover have "real (fd_n f) * d \<le> real (fd_n f)" using d by (simp add: mult_left_le)
    ultimately show "?m * d \<le> 900" using n by linarith
    have "- 1 * d \<le> ?m * d" using d by (intro mult_right_mono) auto
    then show "- 1 \<le> ?m * d" using d by linarith
  qed
  then have "\<bar>?m * d\<bar> \<le> 1024" by linarith
  then obtain x where x: "fl (?m * d) = Fin x" "\<bar>x - ?m * d\<bar> \<le> 1 / 1099511627776" using fl_near by blast
  have "real (fd_n f) * d + 1 / 1099511627776 \<le> real (2 * fd_n f + 1) * (d - 1 / 1000000000)"
  proof -
    have "real (fd_n f) * (1 / 500000000) \<le> real (fd_n f) * d" using d by (intro mult_left_mono) auto
    moreover have "real (2 * fd_n f + 1) * (d - 1 / 1000000000) =
      2 * (real (fd_n f) * d) + d - real (fd_n f) * (1 / 500000000) - 1 / 1000000000"
      by (simp add: algebra_simps add_divide_distrib)
    ultimately show ?thesis using d(2) by linarith
  qed
  moreover have "x \<le> real (fd_n f) * d + 1 / 1099511627776" using x(2) md(3) by linarith
  ultimately have "x \<le> real (2 * fd_n f + 1) * (d - 1 / 1000000000)" by (rule order_trans [rotated])
  moreover have "- 2 \<le> x" "x \<le> 1000" using x(2) md by linarith+
  ultimately show ?thesis
    using rtt_loop_returns [OF dx, of "Fin x" "2 * fd_n f + 1" 0] x m d by (simp add: Rtt_def del: rtt_loop.simps)
qed

lemma cfl_step_ok:
  assumes "cfl_step cs s = (cs', s')" "s \<noteq> NaN"
  shows "s' \<noteq> NaN \<and> s' \<le> s \<and> (list_all (\<lambda>c. field_ok (ct_Field c)) cs \<longrightarrow> list_all (\<lambda>c. field_ok (ct_Field c)) cs')"
  using assms
proof (induction cs arbitrary: s cs' s')
  case Nil
  then show ?case by (simp add: le_refl64)
next
  case (Cons c cs)
  let ?f = "enforceCFL ((ct_Field c)\<lparr> fd_Dt := s \<rparr>)"
  let ?s = "if fd_Dt ?f < s then fd_Dt ?f else s"
  have "?s \<noteq> NaN" "?s \<le> s" using Cons.prems(2) by (auto simp: le_refl64 intro: less_imp_le64)
  moreover obtain cs1 s1 where r: "cfl_step cs ?s = (cs1, s1)" by fastforce
  moreover have "field_ok ?f \<longleftrightarrow> field_ok (ct_Field c)" by (simp add: field_ok_def)
  ultimately show ?case using Cons.IH [OF r] Cons.prems(1) le_trans64 by (auto simp: Let_def)
qed

lemma circuit_step_returns:
  assumes "field_ok (ct_Field c)"
  shows "\<exists>c' r'. circuit_step now dt c r = Some (c', r') \<and> field_ok (ct_Field c')"
proof -
  obtain out f r' where s: "field_step (us_Send (ct_User c)) ((ct_Field c)\<lparr> fd_Dt := dt \<rparr>) r = (out, f, r')" by (metis prod_cases3)
  have "field_ok f" using field_step_frame [OF s] assms by (simp add: field_ok_def)
  then show ?thesis using Rtt_returns [of f] s by (auto simp: circuit_step_def Let_def)
qed

lemma circuits_step_returns:
  assumes "list_all (\<lambda>c. field_ok (ct_Field c)) cs"
  shows "\<exists>cs' r'. circuits_step now dt cs r = Some (cs', r') \<and> list_all (\<lambda>c. field_ok (ct_Field c)) cs'"
  using assms
proof (induction cs arbitrary: r)
  case (Cons c cs)
  obtain c' r' where c: "circuit_step now dt c r = Some (c', r')" "field_ok (ct_Field c')"
    using circuit_step_returns [of c now dt r] Cons.prems by auto
  obtain cs' r'' where "circuits_step now dt cs r' = Some (cs', r'')" "list_all (\<lambda>c. field_ok (ct_Field c)) cs'"
    using Cons.IH [of r'] Cons.prems by auto
  with c show ?case by simp
qed simp

definition engine_ok :: "Engine \<Rightarrow> bool" where
  "engine_ok e \<longleftrightarrow> fbtw 0 (dg_Dt e) 1 \<and> list_all (\<lambda>c. field_ok (ct_Field c)) (dg_Circuits e)"

lemma micro: obtains d where "fl 0.000001 = Fin d" "9 / 10000000 \<le> d" "d \<le> 1 / 1000"
proof -
  obtain d where d: "fl 0.000001 = Fin d" "\<bar>d - 0.000001\<bar> \<le> 1 / 1099511627776" using fl_near [of "0.000001"] by auto
  have e: "0.000001 = (1 / 1000000 :: real)" by simp
  have "9 / 10000000 \<le> d" "d \<le> 1 / 1000" using d(2) unfolding e by linarith+
  with d(1) show ?thesis by (rule that)
qed

lemma engine_loop_returns:
  "engine_ok e \<Longrightarrow> fbtw (- 2) left 1 \<Longrightarrow> val left \<le> real k * (17 / 20000000) \<Longrightarrow>
   \<exists>e' r'. engine_loop (Suc k) left e r = Some (e', r') \<and> engine_ok e'"
proof (induction k arbitrary: left e r)
  case 0
  then have "\<not> 0 < left" by (auto elim!: fbtwE simp: zero_f64_def)
  then show ?case using 0 by simp
next
  case (Suc k)
  show ?case
  proof (cases "0 < left")
    case True
    then obtain a where a: "left = Fin a" "0 < a" "a \<le> 1" using Suc.prems(2) by (auto elim!: fbtwE simp: zero_f64_def)
    obtain b where b: "dg_Dt e = Fin b" "0 \<le> b" "b \<le> 1" using Suc.prems(1) by (auto simp: engine_ok_def elim!: fbtwE)
    define s0 where "s0 = (if left < dg_Dt e then left else dg_Dt e)"
    have s0: "s0 \<noteq> NaN" "s0 \<le> Fin 1" using a b by (auto simp: s0_def)
    obtain cs s1 where c: "cfl_step (dg_Circuits e) s0 = (cs, s1)" by fastforce
    obtain m where m: "fl 0.000001 = Fin m" "9 / 10000000 \<le> m" "m \<le> 1 / 1000" by (rule micro)
    define s where "s = (if s1 < fl 0.000001 then fl 0.000001 else s1)"
    have "s1 \<noteq> NaN" "s1 \<le> Fin 1" using cfl_step_ok [OF c s0(1)] s0(2) le_trans64 by auto
    then have s: "fbtw (9 / 10000000) s 1" using m by (cases s1) (auto simp: s_def)
    obtain cs' r' where cs: "circuits_step (dg_Time e) s cs r = Some (cs', r')" "list_all (\<lambda>c. field_ok (ct_Field c)) cs'"
      using circuits_step_returns [of cs "dg_Time e" s r] cfl_step_ok [OF c s0(1)] Suc.prems(1) by (auto simp: engine_ok_def)
    let ?e = "e\<lparr> dg_Circuits := cs', dg_Time := dg_Time e + s \<rparr>"
    have e: "engine_ok ?e" using Suc.prems(1) cs by (simp add: engine_ok_def)
    obtain z where z: "left - s = Fin z" "z \<le> val left - val s + 1 / 1000000000000" "- 2 \<le> z"
      by (rule sub_near [of left "9 / 10000000" s]) (use a s in auto)
    have sv: "9 / 10000000 \<le> val s" using s by (auto elim!: fbtwE)
    have "val left \<le> real k * (17 / 20000000) + 17 / 20000000" using Suc.prems(3) by (simp add: algebra_simps)
    then have "z \<le> real k * (17 / 20000000)" using z(2) sv by linarith
    moreover have "z \<le> 1" using z(2) sv a by simp
    ultimately have "\<exists>e' r''. engine_loop (Suc k) (left - s) ?e r' = Some (e', r'') \<and> engine_ok e'"
      using Suc.IH [OF e, of "Fin z" r'] z by simp
    moreover have "engine_loop (Suc (Suc k)) left e r = engine_loop (Suc k) (left - s) ?e r'"
      unfolding engine_loop.simps(2) [of "Suc k"] if_P [OF True] Let_def s0_def [symmetric] c prod.case s_def [symmetric] cs(1) option.case ..
    ultimately show ?thesis by (simp only:)
  qed (use Suc.prems in simp)
qed

text \<open>C39: The engine's step returns for every engine whose fields have cells between 1/1024 and 1 wide and at
  most 900 of them, for a macro step of up to 0.0505 s: its own loop ends within 60000 rounds,
  because each round advances by a microsecond at least, whatever NaN or infinite CFL bound a
  field computes, and every Rtt loop inside it ends too.\<close>

theorem engine_step_returns:
  assumes "engine_ok e" "fbtw 0 macroDt (505 / 10000)"
  shows "\<exists>e' r'. engine_step macroDt e r = Some (e', r') \<and> engine_ok e'"
  unfolding engine_step_def engine_fuel_def using engine_loop_returns [of e macroDt 59999 r] assms by (auto elim!: fbtwE)

theorem engine_step_returns_witness:
  "\<exists>e' r'. engine_step (fl 0.05)
     ((NewEngine (fl 0.05))\<lparr> dg_Circuits := [NewCircuit simulator_field (NewUser (fl 0.05)) (NewHistory 100)] \<rparr>) (sconst 0) = Some (e', r') \<and>
     engine_ok e'"
proof (rule engine_step_returns)
  obtain d where d: "fl 0.05 = Fin d" "0 \<le> d" "d \<le> 1 / 20 + 1 / 100000" by (rule fl_close [of "0.05"]) auto
  have "fbtw (1 / 1024) (1 / f64_of_int 20) 1" using cell_width by (auto elim: fbtw_weaken)
  then show "engine_ok ((NewEngine (fl 0.05))\<lparr> dg_Circuits := [NewCircuit simulator_field (NewUser (fl 0.05)) (NewHistory 100)] \<rparr>)"
    using d by (simp add: engine_ok_def NewEngine_def NewCircuit_def field_ok_def simulator_field_def NewField_def del: f64_of_int_simps)
  show "fbtw 0 (fl 0.05) (505 / 10000)" using d by simp
qed

end
