(* ===== verification/SignalLearner.thy ===== *)
theory SignalLearner
  imports IntelMath
begin

text \<open>
  \<open>internal/intelligence/adaptive_signal_learner.go\<close>: the online learner that turns a vector of
  control errors into an instability score, a regime, a horizon risk, oscillation modes and
  a confidence.  \<open>Update\<close> is one atomic operation under the learner's mutex; it is modelled as
  a function from the learner and the input to the new learner and the result.
\<close>

record SignalVector =
  sv_BacklogError :: f64
  sv_LatencyError :: f64
  sv_ErrorRateError :: f64
  sv_CPUError :: f64
  sv_QueueDrift :: f64
  sv_RetryAmplification :: f64

record LearnedInstability =
  li_Score :: f64
  li_Confidence :: f64
  li_RegimeID :: nat
  li_RegimeProb :: vector
  li_HorizonRisk :: f64
  li_OscModes :: vector
  li_Observability :: f64

record AdaptiveSignalLearner =
  sl_dim :: nat
  sl_A :: matrix
  sl_P :: matrix
  sl_lam :: f64
  sl_mean :: vector
  sl_cov :: matrix
  sl_covInv :: matrix
  sl_covLam :: f64
  sl_reg :: f64
  sl_K :: nat
  sl_regMean :: matrix
  sl_regCov :: "matrix list"
  sl_regProb :: vector
  sl_trans :: matrix
  sl_specBuf :: matrix
  sl_specWin :: nat
  sl_freqGrid :: vector
  sl_ctrlDelay :: nat
  sl_ctrlBound :: f64
  sl_obsGram :: matrix
  sl_obsEW :: f64

definition makeBuf :: "nat \<Rightarrow> nat \<Rightarrow> matrix" where
  "makeBuf n d = replicate n (replicate d 0)"

definition makeTrans :: "nat \<Rightarrow> matrix" where
  "makeTrans K = identityMatrix K 1"

definition makeCentroids :: "nat \<Rightarrow> nat \<Rightarrow> matrix" where
  "makeCentroids K d = replicate K (replicate d 0)"

definition makeFullCovSet :: "nat \<Rightarrow> nat \<Rightarrow> matrix list" where
  "makeFullCovSet K d = replicate K (identityMatrix d (fl 2))"

definition uniform :: "nat \<Rightarrow> vector" where
  "uniform K = replicate K (1 / f64_of_int (int K))"

definition NewAdaptiveSignalLearner :: "nat \<Rightarrow> AdaptiveSignalLearner" where
  "NewAdaptiveSignalLearner d =
    \<lparr> sl_dim = d, sl_A = identityMatrix d (fl 0.4), sl_P = identityMatrix d (fl 40), sl_lam = fl 0.996,
       sl_mean = replicate d 0, sl_cov = identityMatrix d 1, sl_covInv = identityMatrix d 1,
       sl_covLam = fl 0.996, sl_reg = fl 0.0001, sl_K = 4, sl_regMean = makeCentroids 4 d,
       sl_regCov = makeFullCovSet 4 d, sl_regProb = uniform 4, sl_trans = makeTrans 4,
       sl_specBuf = makeBuf 128 d, sl_specWin = 128, sl_freqGrid = [fl 0.05, fl 0.12, fl 0.21],
       sl_ctrlDelay = 3, sl_ctrlBound = fl 4, sl_obsGram = identityMatrix d 0, sl_obsEW = 0 \<rparr>"

definition vec :: "SignalVector \<Rightarrow> vector" where
  "vec v = [sv_BacklogError v, sv_LatencyError v, sv_ErrorRateError v, sv_CPUError v, sv_QueueDrift v, sv_RetryAmplification v]"

definition nonlinearEmbed :: "vector \<Rightarrow> vector" where
  "nonlinearEmbed x =
    map math_Tanh x @ concat (map (\<lambda>i. map (\<lambda>j. x ! i * x ! j) [i..<length x]) [0..<length x])"

section \<open>Covariance and distance\<close>

definition updateCov :: "vector \<Rightarrow> AdaptiveSignalLearner \<Rightarrow> AdaptiveSignalLearner" where
  "updateCov x l =
    (let mean = map (\<lambda>i. sl_mean l ! i + (1 - sl_covLam l) * (x ! i - sl_mean l ! i)) [0..<sl_dim l];
         cov = map (\<lambda>i. map (\<lambda>j.
           let c = sl_covLam l * sl_cov l ! i ! j + (1 - sl_covLam l) * (x ! i - mean ! i) * (x ! j - mean ! j)
           in if i = j then c + sl_reg l else c) [0..<sl_dim l]) [0..<sl_dim l]
     in l\<lparr> sl_mean := mean, sl_cov := cov, sl_covInv := sherman (sl_covInv l) x (sl_covLam l) \<rparr>)"

definition quad_form :: "matrix \<Rightarrow> vector \<Rightarrow> nat \<Rightarrow> f64" where
  "quad_form m d n = fold (\<lambda>i s. fold (\<lambda>j s. s + d ! i * m ! i ! j * d ! j) [0..<n] s) [0..<n] 0"

definition mahal :: "vector \<Rightarrow> AdaptiveSignalLearner \<Rightarrow> f64" where
  "mahal x l =
    math_Sqrt \<bar>quad_form (sl_covInv l) (map (\<lambda>i. x ! i - sl_mean l ! i) [0..<sl_dim l]) (sl_dim l)\<bar>"

section \<open>Dynamics\<close>

definition projection_scale :: "f64 \<Rightarrow> matrix \<Rightarrow> f64" where
  "projection_scale rho A =
    vecNorm (((\<lambda>v. normalizeVec (matVec A v)) ^^ 10) (adaptiveUnitVec (length A)))"

fun project_loop :: "nat \<Rightarrow> f64 \<Rightarrow> matrix \<Rightarrow> matrix" where
  "project_loop 0 rho A = A"
| "project_loop (Suc k) rho A =
    (let l = projection_scale rho A
     in if l \<le> rho then A else project_loop k rho (map (map (\<lambda>a. a * (rho / l))) A))"

definition projectEigen :: "matrix \<Rightarrow> f64 \<Rightarrow> matrix" where
  "projectEigen A rho = project_loop 6 rho A"

definition rls_row :: "vector \<Rightarrow> vector \<Rightarrow> nat \<Rightarrow> AdaptiveSignalLearner \<Rightarrow> AdaptiveSignalLearner" where
  "rls_row phi x i l =
    (let phi = take (sl_dim l) phi;
         err = x ! i - dot (sl_A l ! i) phi;
         g = matVec (sl_P l) phi;
         den = sl_lam l + dot phi g;
         row = map (\<lambda>j. sl_A l ! i ! j + g ! j / den * err) [0..<sl_dim l]
     in l\<lparr> sl_A := (sl_A l)[i := row], sl_P := joseph (sl_P l) phi (sl_lam l) \<rparr>)"

definition rls :: "vector \<Rightarrow> vector \<Rightarrow> AdaptiveSignalLearner \<Rightarrow> AdaptiveSignalLearner" where
  "rls phi x l =
    (let l = fold (rls_row phi x) [0..<sl_dim l] l in l\<lparr> sl_A := projectEigen (sl_A l) (fl 0.95) \<rparr>)"

section \<open>Regimes\<close>

definition likelihood :: "vector \<Rightarrow> AdaptiveSignalLearner \<Rightarrow> nat \<Rightarrow> f64" where
  "likelihood x l k =
    math_Exp (fl (- 0.5) * quad_form (invertMatrix (sl_regCov l ! k))
      (map (\<lambda>i. x ! i - sl_regMean l ! k ! i) [0..<sl_dim l]) (sl_dim l))"

definition updateRegFull :: "vector \<Rightarrow> nat \<Rightarrow> AdaptiveSignalLearner \<Rightarrow> AdaptiveSignalLearner" where
  "updateRegFull x k l =
    (let mean = map (\<lambda>i. sl_regMean l ! k ! i + fl 0.01 * (x ! i - sl_regMean l ! k ! i)) [0..<sl_dim l];
         cov = map (\<lambda>i. map (\<lambda>j. fl 0.995 * sl_regCov l ! k ! i ! j +
           fl 0.005 * (x ! i - mean ! i) * (x ! j - mean ! j)) [0..<sl_dim l]) [0..<sl_dim l];
         row = map (\<lambda>t. t * fl 0.995) (sl_trans l ! k);
         row = normalize (row[k := row ! k + fl 0.005])
     in l\<lparr> sl_regMean := (sl_regMean l)[k := mean], sl_regCov := (sl_regCov l)[k := cov],
            sl_trans := (sl_trans l)[k := row] \<rparr>)"

definition regime_predict :: "AdaptiveSignalLearner \<Rightarrow> nat \<Rightarrow> f64" where
  "regime_predict l j = fold (\<lambda>i s. s + sl_regProb l ! i * sl_trans l ! i ! j) [0..<sl_K l] 0"

definition regimeFilter :: "vector \<Rightarrow> AdaptiveSignalLearner \<Rightarrow> AdaptiveSignalLearner \<times> vector" where
  "regimeFilter x l =
    (let next' = normalize (map (\<lambda>j. regime_predict l j * likelihood x l j) [0..<sl_K l])
     in (updateRegFull x (argmax next') (l\<lparr> sl_regProb := next' \<rparr>), next'))"

section \<open>Spectrum, risk and confidence\<close>

definition spectral_mode :: "AdaptiveSignalLearner \<Rightarrow> f64 \<Rightarrow> f64" where
  "spectral_mode l f =
    (let s = fold (\<lambda>t s. s + vecNorm (sl_specBuf l ! t) * math_Sin (fl (2 * pi) * f * f64_of_int (int t))) [0..<sl_specWin l] 0;
         c = fold (\<lambda>t s. s + vecNorm (sl_specBuf l ! t) * math_Cos (fl (2 * pi) * f * f64_of_int (int t))) [0..<sl_specWin l] 0
     in math_Sqrt (s * s + c * c) / f64_of_int (int (sl_specWin l)))"

definition spectral :: "AdaptiveSignalLearner \<Rightarrow> vector" where
  "spectral l = map (spectral_mode l) (sl_freqGrid l)"

definition queuePolicy :: "vector \<Rightarrow> f64 \<Rightarrow> vector" where
  "queuePolicy x b = map (\<lambda>a. if 1 < a then math_Min b (fl 0.8 * a) else fl 0.2 * a) x"

definition risk_step ::
  "AdaptiveSignalLearner \<Rightarrow> nat \<Rightarrow> vector \<times> matrix \<times> f64 \<Rightarrow> vector \<times> matrix \<times> f64" where
  "risk_step l k acc =
    (case acc of (state, delayBuf, risk) \<Rightarrow>
       let next' = matVec (sl_A l) state;
           delayBuf = delayBuf[k mod sl_ctrlDelay l := queuePolicy state (sl_ctrlBound l)];
           next' = map (\<lambda>i. next' ! i - delayBuf ! ((k + 1) mod sl_ctrlDelay l) ! i) [0..<sl_dim l]
       in (next', delayBuf, risk + math_Tanh (mahal next' l / fl 3.5)))"

definition closedLoopRisk :: "vector \<Rightarrow> AdaptiveSignalLearner \<Rightarrow> f64" where
  "closedLoopRisk x l =
    (case fold (risk_step l) [0..<14] (x, replicate (sl_ctrlDelay l) (replicate (sl_dim l) 0), 0) of
       (_, _, risk) \<Rightarrow> math_Min 1 (risk / fl 14))"

definition updateObs :: "vector \<Rightarrow> AdaptiveSignalLearner \<Rightarrow> AdaptiveSignalLearner \<times> f64" where
  "updateObs phi l =
    (let p = take (sl_dim l) phi; y = outer p p;
         gram = map (\<lambda>i. map (\<lambda>j. fl 0.97 * sl_obsGram l ! i ! j + fl 0.03 * y ! i ! j) [0..<sl_dim l]) [0..<sl_dim l];
         trace = fold (\<lambda>i s. s + gram ! i ! i) [0..<sl_dim l] 0;
         normed = trace / (trace + fl 10);
         ew = fl 0.9 * sl_obsEW l + fl 0.1 * normed
     in (l\<lparr> sl_obsGram := gram, sl_obsEW := ew \<rparr>, ew))"

definition learner_conf :: "f64 \<Rightarrow> f64 \<Rightarrow> f64" where
  "learner_conf s ob = (let c = math_Exp (fl (- 0.18) * s) * ob in if c < 0 then 0 else if 1 < c then 1 else c)"

definition learner_update :: "SignalVector \<Rightarrow> AdaptiveSignalLearner \<Rightarrow> AdaptiveSignalLearner \<times> LearnedInstability" where
  \<comment> \<open>\<open>Update\<close>\<close>
  "learner_update v l =
    (let x = vec v; phi = nonlinearEmbed x;
         l = updateCov x l;
         score = mahal x l;
         l = rls phi x l;
         (l, regProb) = regimeFilter x l;
         reg = argmax regProb;
         modes = spectral l;
         risk = closedLoopRisk x l;
         (l, ob) = updateObs phi l
     in (l, \<lparr> li_Score = score, li_Confidence = learner_conf score ob, li_RegimeID = reg, li_RegimeProb = regProb,
              li_HorizonRisk = risk, li_OscModes = modes, li_Observability = ob \<rparr>))"

definition learner_run :: "SignalVector list \<Rightarrow> AdaptiveSignalLearner" where
  "learner_run vs = fold (\<lambda>v l. fst (learner_update v l)) vs (NewAdaptiveSignalLearner 6)"

section \<open>What never changes\<close>

definition learner_frame :: "AdaptiveSignalLearner \<Rightarrow> AdaptiveSignalLearner \<Rightarrow> bool" where
  "learner_frame l l' \<longleftrightarrow> sl_dim l' = sl_dim l \<and> sl_K l' = sl_K l \<and> sl_specBuf l' = sl_specBuf l \<and>
     sl_specWin l' = sl_specWin l \<and> sl_freqGrid l' = sl_freqGrid l \<and> sl_ctrlDelay l' = sl_ctrlDelay l"

lemma learner_frame_refl: "learner_frame l l"
  by (simp add: learner_frame_def)

lemma learner_frame_trans: "learner_frame a b \<Longrightarrow> learner_frame b c \<Longrightarrow> learner_frame a c"
  by (simp add: learner_frame_def)

lemma rls_rows_frame: "learner_frame l (fold (rls_row phi x) is l) \<and> sl_trans (fold (rls_row phi x) is l) = sl_trans l"
  by (induction "is" arbitrary: l) (simp_all add: learner_frame_def rls_row_def Let_def)

lemma update_frames:
  "learner_frame l (updateCov x l)" "learner_frame l (rls phi x l)" "learner_frame l (fst (regimeFilter x l))"
  "learner_frame l (fst (updateObs phi l))"
  using rls_rows_frame [of l phi x "[0..<sl_dim l]"]
  by (simp_all add: learner_frame_def updateCov_def rls_def regimeFilter_def updateRegFull_def updateObs_def Let_def)

lemma learner_update_frame: "learner_frame l (fst (learner_update v l))"
proof -
  let ?x = "vec v" let ?phi = "nonlinearEmbed ?x"
  let ?l1 = "updateCov ?x l" let ?l2 = "rls ?phi ?x ?l1" let ?l3 = "fst (regimeFilter ?x ?l2)"
  have "fst (learner_update v l) = fst (updateObs ?phi ?l3)"
    by (simp add: learner_update_def Let_def split: prod.splits)
  moreover have "learner_frame l ?l3"
    using update_frames(1) [of l ?x] update_frames(2) [of ?l1 ?phi ?x] update_frames(3) [of ?l2 ?x] by (blast intro: learner_frame_trans)
  ultimately show ?thesis using update_frames(4) [of ?l3 ?phi] by (auto intro: learner_frame_trans)
qed

section \<open>The transition matrix\<close>

lemma rnd_Fin: "fl x = Fin y \<Longrightarrow> fl y = Fin y"
  by (auto simp: fl_def split: if_splits)

lemma reinforced: obtains y where "fl 0.995 + fl 0.005 = Fin y" "1 / 2 < y" "fl y = Fin y"
proof -
  obtain a where a: "fl 0.995 = Fin a" "9 / 10 \<le> a" "a \<le> 1" by (rule fl_close [of "0.995"]) auto
  obtain b where b: "fl 0.005 = Fin b" "0 \<le> b" "b \<le> 1" by (rule fl_close [of "0.005"]) auto
  obtain y where y: "fl (a + b) = Fin y" "1 / 2 < y" by (rule fl_close [of "a + b"]) (use a b in auto)
  show ?thesis by (rule that [of y]) (use a b y rnd_Fin [OF y(1)] in auto)
qed

lemma scaled_zero: "0 * fl 0.995 = 0" "1 * fl 0.995 = fl 0.995"
proof -
  obtain a where "fl 0.995 = Fin a" by (rule fl_close [of "0.995"]) auto
  then show "0 * fl 0.995 = 0" "1 * fl 0.995 = fl 0.995" using rnd_Fin [of "0.995" a] by (simp_all add: zero_f64_def one_f64_def)
qed

lemma identity_row_stable:
  assumes "k < 4"
  shows "normalize ((map (\<lambda>t. t * fl 0.995) (makeTrans 4 ! k))[k := map (\<lambda>t. t * fl 0.995) (makeTrans 4 ! k) ! k + fl 0.005]) =
    makeTrans 4 ! k"
proof -
  obtain y where y: "fl 0.995 + fl 0.005 = Fin y" "1 / 2 < y" "fl y = Fin y" by (rule reinforced)
  have four: "[0..<4] = [0, 1, 2, 3 :: nat]" by (simp add: upt_rec)
  have "k = 0 \<or> k = 1 \<or> k = 2 \<or> k = 3" using assms by auto
  then show ?thesis using y(2)
    using scaled_zero y(1, 3) unfolding zero_f64_def one_f64_def
    by (elim disjE; simp add: makeTrans_def identityMatrix_def four normalize_def vec_sum_def Let_def zero_f64_def one_f64_def)
qed

definition learner_ok :: "AdaptiveSignalLearner \<Rightarrow> bool" where
  "learner_ok l \<longleftrightarrow> learner_frame (NewAdaptiveSignalLearner 6) l \<and> sl_trans l = makeTrans 4"

lemma updateRegFull_trans: "sl_trans l = makeTrans 4 \<Longrightarrow> k < 4 \<Longrightarrow> sl_trans (updateRegFull x k l) = makeTrans 4"
proof -
  assume l: "sl_trans l = makeTrans 4" and k: "k < 4"
  have "length (makeTrans 4) = 4" by (simp add: makeTrans_def identityMatrix_def)
  then show ?thesis using k identity_row_stable [OF k]
    by (simp add: updateRegFull_def Let_def l list_update_same_conv)
qed

lemma regimeFilter_trans:
  assumes "sl_trans l = makeTrans 4" "sl_K l = 4"
  shows "sl_trans (fst (regimeFilter x l)) = makeTrans 4 \<and> argmax (snd (regimeFilter x l)) < 4"
proof -
  let ?v = "normalize (map (\<lambda>j. regime_predict l j * likelihood x l j) [0..<sl_K l])"
  have "length ?v = 4" by (simp add: assms(2))
  then have "argmax ?v < 4" using argmax_less [of ?v] by (metis length_0_conv zero_neq_numeral)
  then show ?thesis using assms by (simp add: regimeFilter_def Let_def updateRegFull_trans)
qed

lemma trans_frames: "sl_trans (updateCov x l) = sl_trans l" "sl_trans (rls phi x l) = sl_trans l" "sl_trans (fst (updateObs phi l)) = sl_trans l"
  using rls_rows_frame [of l phi x "[0..<sl_dim l]"] by (simp_all add: updateCov_def rls_def updateObs_def Let_def)

lemma learner_update_trans:
  assumes "learner_ok l"
  shows "sl_trans (fst (learner_update v l)) = makeTrans 4 \<and> li_RegimeID (snd (learner_update v l)) < 4"
proof -
  let ?x = "vec v" let ?phi = "nonlinearEmbed ?x"
  let ?l2 = "rls ?phi ?x (updateCov ?x l)"
  have "learner_frame l ?l2" using update_frames(1) [of l ?x] update_frames(2) [of "updateCov ?x l" ?phi ?x] by (rule learner_frame_trans)
  then have "sl_K ?l2 = 4" using assms by (simp add: learner_ok_def learner_frame_def NewAdaptiveSignalLearner_def)
  moreover have "sl_trans ?l2 = makeTrans 4" using assms by (simp add: trans_frames learner_ok_def)
  ultimately show ?thesis using regimeFilter_trans [of ?l2 ?x]
    by (auto simp: learner_update_def Let_def trans_frames split: prod.splits) (metis fst_conv trans_frames(3))
qed

lemma learner_update_ok: "learner_ok l \<Longrightarrow> learner_ok (fst (learner_update v l))"
  using learner_update_trans [of l v] learner_update_frame [of l v] by (auto simp: learner_ok_def intro: learner_frame_trans)

lemma learner_run_ok: "learner_ok (learner_run vs)"
proof -
  have "learner_ok (NewAdaptiveSignalLearner 6)"
    by (simp add: learner_ok_def learner_frame_refl) (simp add: NewAdaptiveSignalLearner_def)
  moreover have "learner_ok l \<Longrightarrow> learner_ok (fold (\<lambda>v l. fst (learner_update v l)) vs l)" for l
    by (induction vs arbitrary: l) (simp_all add: learner_update_ok)
  ultimately show ?thesis by (simp add: learner_run_def)
qed

section \<open>The modes and the ranges\<close>

lemma trig_finite:
  assumes "fbtw 0 f 1" "t < 128"
  shows "0 * math_Sin (fl (2 * pi) * f * f64_of_int (int t)) = 0" "0 * math_Cos (fl (2 * pi) * f * f64_of_int (int t)) = 0"
proof -
  have p: "fbtw 0 (fl (2 * pi)) 8" using pi_less_4 pi_ge_zero by (intro fbtw_fl) auto
  have t: "f64_of_int (int t) = Fin (real t)" using assms(2) by (simp add: f64_of_int_small)
  have "fbtw 0 (fl (2 * pi) * f) 8" by (rule fbtw_mult [OF p assms(1)]) auto
  then have "fbtw 0 (fl (2 * pi) * f * f64_of_int (int t)) 1024"
    unfolding t by (rule fbtw_mult [where c = 0 and d = 128]) (use assms(2) in auto)
  then obtain r where r: "fl (2 * pi) * f * f64_of_int (int t) = Fin r" by (auto elim: fbtwE)
  have "- 1024 \<le> sin r" "sin r \<le> 1024" "- 1024 \<le> cos r" "cos r \<le> 1024"
    using sin_le_one [of r] sin_ge_minus_one [of r] cos_le_one [of r] cos_ge_minus_one [of r] by linarith+
  then obtain a b where "fl (sin r) = Fin a" "fl (cos r) = Fin b" by (metis fl_close)
  then show "0 * math_Sin (fl (2 * pi) * f * f64_of_int (int t)) = 0" "0 * math_Cos (fl (2 * pi) * f * f64_of_int (int t)) = 0"
    by (simp_all add: r zero_f64_def)
qed

lemma spectral_silent:
  assumes "learner_frame (NewAdaptiveSignalLearner 6) l" shows "spectral l = [0, 0, 0]"
proof -
  have l: "sl_specBuf l = replicate 128 (replicate 6 0)" "sl_specWin l = 128" "sl_freqGrid l = [fl 0.05, fl 0.12, fl 0.21]"
    using assms by (simp_all add: learner_frame_def NewAdaptiveSignalLearner_def makeBuf_def)
  have "spectral_mode l f = 0" if "fbtw 0 f 1" for f
  proof -
    have z: "fold (\<lambda>t s. s + vecNorm (sl_specBuf l ! t) * math_Sin (fl (2 * pi) * f * f64_of_int (int t))) [0..<128] 0 = 0"
      "fold (\<lambda>t s. s + vecNorm (sl_specBuf l ! t) * math_Cos (fl (2 * pi) * f * f64_of_int (int t))) [0..<128] 0 = 0"
      by (intro fold_zero; simp add: l trig_finite [OF that] del: replicate_Suc; simp add: zero_f64_def)+
    show ?thesis unfolding spectral_mode_def l(2) z Let_def by (simp add: zero_f64_def)
  qed
  moreover have "fbtw 0 (fl 0.05) 1" "fbtw 0 (fl 0.12) 1" "fbtw 0 (fl 0.21) 1" by (auto intro!: fbtw_fl)
  ultimately show ?thesis by (simp add: spectral_def l)
qed

text \<open>However many signals the learner has seen, its spectral buffer is still empty and its regime
  transition matrix is still the identity: every Update reports the oscillation modes
  [0, 0, 0], and the predicted regime distribution is the old one.\<close>

theorem learner_never_learns_modes:
  "li_OscModes (snd (learner_update v (learner_run vs))) = [0, 0, 0] \<and>
   sl_trans (fst (learner_update v (learner_run vs))) = identityMatrix 4 1"
proof -
  let ?l = "learner_run vs" let ?x = "vec v" let ?phi = "nonlinearEmbed ?x"
  let ?l3 = "fst (regimeFilter ?x (rls ?phi ?x (updateCov ?x ?l)))"
  have "learner_frame ?l ?l3" by (blast intro: learner_frame_trans update_frames)
  then have "learner_frame (NewAdaptiveSignalLearner 6) ?l3"
    using learner_run_ok [of vs] by (auto simp: learner_ok_def intro: learner_frame_trans)
  moreover have "li_OscModes (snd (learner_update v ?l)) = spectral ?l3"
    by (simp add: learner_update_def Let_def split: prod.splits)
  ultimately show ?thesis using spectral_silent learner_update_trans [OF learner_run_ok, of v vs]
    by (simp add: makeTrans_def)
qed

lemma mahal_nn: "nn (mahal x l)"
  by (simp add: mahal_def nn_Sqrt)

lemma closedLoopRisk_range: "closedLoopRisk x l = NaN \<or> fbtw 0 (closedLoopRisk x l) 1"
proof -
  have step: "nn (snd (snd (risk_step l k acc)))" if "nn (snd (snd acc))" for k acc
    using that by (auto simp: risk_step_def Let_def split: prod.splits intro!: nn_add nn_Tanh nn_divide mahal_nn)
  have loop: "nn (snd (snd (fold (risk_step l) ks acc)))" if "nn (snd (snd acc))" for ks acc
    using that
  proof (induction ks arbitrary: acc)
    case (Cons k ks)
    then show ?case using step [of acc k] by (simp only: fold.simps o_apply)
  qed simp
  obtain a b r where r: "fold (risk_step l) [0..<14] (x, replicate (sl_ctrlDelay l) (replicate (sl_dim l) 0), 0) = (a, b, r)"
    by (metis prod_cases3)
  then have "nn r" using loop [of "(x, replicate (sl_ctrlDelay l) (replicate (sl_dim l) 0), 0)" "[0..<14]"] by (simp add: nn_one)
  then have "nn (r / fl 14)" by (intro nn_divide) auto
  then show ?thesis unfolding closedLoopRisk_def r prod.case
    by (elim nn_cases) (auto simp: math_Min_def one_f64_def)
qed

lemma learner_conf_range: "learner_conf s ob = NaN \<or> fbtw 0 (learner_conf s ob) 1"
  by (cases "math_Exp (fl (- 0.18) * s) * ob") (auto simp: learner_conf_def Let_def zero_f64_def one_f64_def)

text \<open>Every result of the learner, after any sequence of signals (infinite and NaN ones included), has
  a regime below four, a confidence and a horizon risk that are NaN or in [0, 1], and a score
  that is NaN or not negative.\<close>

theorem learner_output_ranges:
  "let out = snd (learner_update v (learner_run vs))
   in li_RegimeID out < 4 \<and> (li_Confidence out = NaN \<or> fbtw 0 (li_Confidence out) 1) \<and>
      (li_HorizonRisk out = NaN \<or> fbtw 0 (li_HorizonRisk out) 1) \<and> nn (li_Score out)"
  using learner_update_trans [OF learner_run_ok, of v vs] closedLoopRisk_range learner_conf_range
  by (auto simp: learner_update_def Let_def mahal_nn split: prod.splits)

end
