(* ===== verification/SimRunner.thy ===== *)
theory SimRunner
  imports EventHeap PlantPhysics TrafficField SignalLearner GoString
begin

text \<open>
  \<open>internal/simulation/runner.go\<close>: the discrete-event simulation one scenario runs.  Every
  service has a mutable state (\<open>ServiceSimState\<close>), the scheduler holds the pending events, and
  \<open>run\<close> pops events in virtual-time order and hands each to the handler of its kind until the
  deadline, the horizon or the event limit.

  The random source of the run is the stream of the numbers \<open>rng.Float64\<close> returns.  Each plant
  draws from its own source: the stream \<open>ss_draws\<close> holds, per step, the uniform and the normal
  number.  The wall clock enters as the predicate \<open>late\<close> (is the deadline over before iteration
  \<open>n\<close>).  The environment variables are the flags of \<open>RunEnv\<close>.  The runner's shared NetworkField,
  which the tick handler steps and only its debug log reads, is not part of the state.
\<close>

section \<open>State of a service\<close>

record ServiceSimState =
  ss_ArrivalRate :: f64
  ss_BaseRate :: f64
  ss_ServiceRate :: f64
  ss_Concurrency :: int
  ss_Utilisation :: f64
  ss_QueueLen :: int
  ss_InService :: int
  ss_MaxQueueLen :: int
  ss_QueuedArrivalTimes :: "f64 list"
  ss_TotalArrived :: int
  ss_TotalServed :: int
  ss_TotalDropped :: int
  ss_SumWaitMs :: f64
  ss_Shocked :: bool
  ss_ShockPeakRate :: f64
  ss_RecoveryStartMs :: f64
  ss_RecoveryConvergedAt :: f64
  ss_QueueLenSamples :: int
  ss_QueueLenSum :: f64
  ss_QueueLenSumSq :: f64
  ss_SaturationSamples :: int
  ss_CollapseCount :: int
  ss_SLAExceedances :: int
  ss_SLAChecked :: int
  ss_SLAThresholdMs :: f64
  ss_Plant :: "FluidPlant option"
  ss_SignalLearner :: "AdaptiveSignalLearner option"
  ss_QueueMass :: f64
  ss_Hazard :: f64
  ss_Reservoir :: f64
  ss_PhysicsClock :: f64
  ss_LastPhysicsTime :: f64
  ss_PhysicsUpdateCount :: int
  ss_draws :: "(f64 \<times> f64) stream"

definition maxQueueDepth :: int where
  "maxQueueDepth = 10000"

definition maxEvents :: nat where
  "maxEvents = 400000"

type_synonym rng = "f64 stream"

definition interarrival :: "rng \<Rightarrow> f64 \<Rightarrow> string \<Rightarrow> f64 \<times> rng" where
  \<comment> \<open>the constants of the Pareto branch are folded: \<open>\<alpha> - 1 = 0.5\<close>, \<open>\<alpha> = 1.5\<close>, \<open>1 / \<alpha> = 2/3\<close>\<close>
  "interarrival r mean mode =
    (if mean \<le> 0 then (0, r)
     else let u = (if shd r \<le> 0 then fl (1 / 10 ^ 15) else shd r)
       in if mode = ''pareto'' then (mean * fl 0.5 / fl 1.5 / math_Pow u (fl (2 / 3)), stl r)
          else (- math_Log u * mean, stl r))"

text \<open>The handlers thread the service, the scheduler and the random source.\<close>

definition start_service :: "f64 \<Rightarrow> f64 \<Rightarrow> string \<Rightarrow> ServiceSimState \<Rightarrow> Scheduler \<Rightarrow> rng \<Rightarrow> Scheduler \<times> rng" where
  \<comment> \<open>schedule the departure of a request that enters service now\<close>
  "start_service now arrival sid st sched r =
    (let (svcDur, r) = interarrival r (1 / math_Max (ss_ServiceRate st) (fl (1 / 10 ^ 12))) ''exponential''
     in (Schedule \<lparr> ev_Time = now + svcDur, ev_Kind = EventDeparture, ev_ServiceID = sid,
           ev_ServiceDurationMs = svcDur, ev_ArrivalTime = arrival \<rparr> sched, r))"

definition next_arrival :: "Event \<Rightarrow> string \<Rightarrow> ServiceSimState \<Rightarrow> Scheduler \<Rightarrow> rng \<Rightarrow> Scheduler \<times> rng" where
  \<comment> \<open>the block that ends the arrival, shock and recovery handlers\<close>
  "next_arrival e mode st sched r =
    (if 0 < ss_ArrivalRate st
     then let (d, r) = interarrival r (1 / ss_ArrivalRate st) mode
          in (Schedule (event (ev_Time e + d) EventArrival (ev_ServiceID e)) sched, r)
     else (sched, r))"

section \<open>Arrivals and departures\<close>

definition note_max :: "ServiceSimState \<Rightarrow> ServiceSimState" where
  "note_max st = (if ss_MaxQueueLen st < ss_QueueLen st then st\<lparr> ss_MaxQueueLen := ss_QueueLen st \<rparr> else st)"

definition admit :: "Event \<Rightarrow> ServiceSimState \<Rightarrow> Scheduler \<Rightarrow> rng \<Rightarrow> ServiceSimState \<times> Scheduler \<times> rng" where
  "admit e st sched r =
    (let st = st\<lparr> ss_TotalArrived := ss_TotalArrived st + 1 \<rparr>
     in if maxQueueDepth \<le> int (length (ss_QueuedArrivalTimes st))
        then (st\<lparr> ss_TotalDropped := ss_TotalDropped st + 1, ss_CollapseCount := ss_CollapseCount st + 1 \<rparr>, sched, r)
        else if ss_InService st < ss_Concurrency st
        then let st = st\<lparr> ss_InService := ss_InService st + 1 \<rparr>;
                 (sched, r) = start_service (ev_Time e) (ev_Time e) (ev_ServiceID e) st sched r
             in (st, sched, r)
        else let st = st\<lparr> ss_QueuedArrivalTimes := ss_QueuedArrivalTimes st @ [ev_Time e] \<rparr>;
                 st = st\<lparr> ss_QueueLen := max (ss_QueueLen st) (int (length (ss_QueuedArrivalTimes st))) \<rparr>
             in (note_max st, sched, r))"

definition handleArrival :: "Event \<Rightarrow> ServiceSimState \<Rightarrow> Scheduler \<Rightarrow> string \<Rightarrow> rng \<Rightarrow> ServiceSimState \<times> Scheduler \<times> rng" where
  "handleArrival e st sched mode r =
    (let (st, sched, r) = admit e st sched r; (sched, r) = next_arrival e mode st sched r in (st, sched, r))"

definition record_departure :: "Event \<Rightarrow> ServiceSimState \<Rightarrow> ServiceSimState" where
  "record_departure e st =
    (let st = st\<lparr> ss_TotalServed := ss_TotalServed st + 1 \<rparr>;
         st = (if 0 < ss_InService st then st\<lparr> ss_InService := ss_InService st - 1 \<rparr> else st);
         waitMs = ev_Time e - ev_ArrivalTime e - ev_ServiceDurationMs e;
         st = (if 0 < waitMs then st\<lparr> ss_SumWaitMs := ss_SumWaitMs st + waitMs \<rparr> else st);
         totalLatencyMs = ev_Time e - ev_ArrivalTime e;
         ql = f64_of_int (ss_QueueLen st);
         st = st\<lparr> ss_QueueLenSamples := ss_QueueLenSamples st + 1, ss_QueueLenSum := ss_QueueLenSum st + ql,
                  ss_QueueLenSumSq := ss_QueueLenSumSq st + ql * ql \<rparr>;
         st = (if quot maxQueueDepth 2 < ss_QueueLen st then st\<lparr> ss_SaturationSamples := ss_SaturationSamples st + 1 \<rparr> else st);
         st = st\<lparr> ss_SLAChecked := ss_SLAChecked st + 1 \<rparr>
     in if 0 < ss_SLAThresholdMs st \<and> ss_SLAThresholdMs st < totalLatencyMs
        then st\<lparr> ss_SLAExceedances := ss_SLAExceedances st + 1 \<rparr> else st)"

definition handleDeparture :: "Event \<Rightarrow> ServiceSimState \<Rightarrow> Scheduler \<Rightarrow> string \<Rightarrow> rng \<Rightarrow> ServiceSimState \<times> Scheduler \<times> rng" where
  "handleDeparture e st sched mode r =
    (let st = record_departure e st
     in case ss_QueuedArrivalTimes st of [] \<Rightarrow> (st, sched, r)
        | nextArrival # queue \<Rightarrow>
            let st = st\<lparr> ss_QueuedArrivalTimes := queue,
                         ss_QueueLen := max (int_of_f64 (math_Round (ss_QueueMass st))) (int (length queue)),
                         ss_InService := ss_InService st + 1 \<rparr>;
                (sched, r) = start_service (ev_Time e) nextArrival (ev_ServiceID e) st sched r
            in (st, sched, r))"

section \<open>Recovery\<close>

definition set_plant_A :: "f64 \<Rightarrow> ServiceSimState \<Rightarrow> ServiceSimState" where
  \<comment> \<open>\<open>if st.Plant != nil \{ st.Plant.A = a \}\<close>\<close>
  "set_plant_A a st = st\<lparr> ss_Plant := map_option (\<lambda>p. p\<lparr> fp_A := a \<rparr>) (ss_Plant st) \<rparr>"

definition mark_converged :: "f64 \<Rightarrow> ServiceSimState \<Rightarrow> ServiceSimState" where
  "mark_converged t st =
    (let st = st\<lparr> ss_Shocked := False \<rparr>
     in if feq (ss_RecoveryConvergedAt st) 0 then st\<lparr> ss_RecoveryConvergedAt := t \<rparr> else st)"

definition recover_step :: "Event \<Rightarrow> ServiceSimState \<Rightarrow> Scheduler \<Rightarrow> f64 \<Rightarrow> ServiceSimState \<times> Scheduler" where
  "recover_step e st sched horizonMs =
    (let tau = horizonMs * fl 0.15;
         tau = (if tau \<le> 0 then fl 1000 else tau);
         excess = ss_ArrivalRate st - ss_BaseRate st
     in if 0 < excess
        then let newArrival = ss_BaseRate st + excess * math_Exp (- 1);
                 st = set_plant_A newArrival (st\<lparr> ss_ArrivalRate := newArrival \<rparr>)
             in if ss_BaseRate st * fl 0.02 < \<bar>ss_ArrivalRate st - ss_BaseRate st\<bar>
                then (st, Schedule (event (ev_Time e + tau) EventRecovery (ev_ServiceID e)) sched)
                else (mark_converged (ev_Time e + tau)
                        (set_plant_A (ss_BaseRate st) (st\<lparr> ss_ArrivalRate := ss_BaseRate st \<rparr>)), sched)
        else (mark_converged (ev_Time e) (st\<lparr> ss_ArrivalRate := ss_BaseRate st \<rparr>), sched))"

definition handleRecovery ::
  "bool \<Rightarrow> Event \<Rightarrow> ServiceSimState \<Rightarrow> Scheduler \<Rightarrow> string \<Rightarrow> rng \<Rightarrow> f64 \<Rightarrow> ServiceSimState \<times> Scheduler \<times> rng" where
  "handleRecovery disabled e st sched mode r horizonMs =
    (if disabled then (st, sched, r)
     else let (st, sched) = recover_step e st sched horizonMs; (sched, r) = next_arrival e mode st sched r
          in (st, sched, r))"

section \<open>Ticks\<close>

definition learn_hazard :: "FluidPlant \<Rightarrow> ServiceSimState \<Rightarrow> ServiceSimState" where
  \<comment> \<open>the learner's score sets the plant's hazard power; the vector's timestamp is not used by the learner\<close>
  "learn_hazard p st =
    (case ss_SignalLearner st of None \<Rightarrow> st
     | Some l \<Rightarrow>
         let v = \<lparr> sv_BacklogError = fp_Q p - f64_of_int (ss_MaxQueueLen st) * fl 0.5, sv_LatencyError = 0,
                   sv_ErrorRateError = 0, sv_CPUError = ss_Utilisation st - fl 0.7,
                   sv_QueueDrift = fp_A p - fp_S p, sv_RetryAmplification = 0 \<rparr>;
             (l, instability) = learner_update v l;
             power = 1 + li_Score instability * fl 2.5;
             power = (if fl 3.5 < power then fl 3.5 else power)
         in st\<lparr> ss_SignalLearner := Some l, ss_Plant := Some (p\<lparr> fp_P := (fp_P p)\<lparr> pp_HazardPower := power \<rparr> \<rparr>) \<rparr>)"

definition physics_update :: "bool \<Rightarrow> FluidPlant \<Rightarrow> ServiceSimState \<Rightarrow> ServiceSimState" where
  "physics_update critical p st =
    (let dtSec = ss_PhysicsClock st / fl 1000;
         p = plant_step critical (fst (shd (ss_draws st))) (snd (shd (ss_draws st))) dtSec p;
         st = st\<lparr> ss_draws := stl (ss_draws st), ss_Plant := Some p, ss_PhysicsClock := 0,
                  ss_PhysicsUpdateCount := ss_PhysicsUpdateCount st + 1,
                  ss_QueueMass := fp_Q p,
                  ss_QueueLen := max (int_of_f64 (math_Round (fp_Q p))) (int (length (ss_QueuedArrivalTimes st))),
                  ss_ArrivalRate := fp_A p, ss_ServiceRate := fp_S p, ss_Hazard := fp_Z p, ss_Reservoir := fp_R p \<rparr>
     in learn_hazard p (note_max st))"

definition handleTick :: "bool \<Rightarrow> Event \<Rightarrow> ServiceSimState \<Rightarrow> Scheduler \<Rightarrow> ServiceSimState \<times> Scheduler" where
  "handleTick critical e st sched =
    (case ss_Plant st of None \<Rightarrow> (st, sched)
     | Some p \<Rightarrow>
         let dtMs = ev_Time e - ss_LastPhysicsTime st;
             st = st\<lparr> ss_PhysicsClock := ss_PhysicsClock st + dtMs, ss_LastPhysicsTime := ev_Time e \<rparr>;
             st = (if fl 50 \<le> ss_PhysicsClock st then physics_update critical p st else st)
         in (st, Schedule (event (ev_Time e + 1) EventTick (ev_ServiceID e)) sched))"

section \<open>Shocks\<close>

type_synonym sim_states = "(string, ServiceSimState) gomap"
type_synonym edge_map = "(string, string list) gomap"
type_synonym weight_map = "(string \<times> string, f64) gomap"

record RunEnv =
  re_disabled :: bool
  re_critical :: bool
  re_mode :: string
  re_horizonMs :: f64
  re_shockFactor :: f64
  re_cascadeEdges :: edge_map
  re_edgeWeights :: weight_map

definition cascade_targets :: "edge_map \<Rightarrow> string \<Rightarrow> string list" where
  "cascade_targets m k = (case map_of m k of None \<Rightarrow> [] | Some ts \<Rightarrow> ts)"

definition edge_weight :: "weight_map \<Rightarrow> string \<Rightarrow> string \<Rightarrow> f64" where
  "edge_weight m a b = (case map_of m (a, b) of None \<Rightarrow> 0 | Some w \<Rightarrow> w)"

record shock_state =
  sk_states :: sim_states
  sk_sched :: Scheduler
  sk_rng :: rng
  sk_visited :: "string list"
  sk_queue :: "(string \<times> nat \<times> f64) list"

definition shock_service :: "f64 \<Rightarrow> ServiceSimState \<Rightarrow> ServiceSimState" where
  "shock_service amp st =
    (let a = ss_BaseRate st * amp
     in (set_plant_A a st)\<lparr> ss_ArrivalRate := a, ss_ShockPeakRate := a, ss_Shocked := True \<rparr>)"

definition shock_target ::
  "RunEnv \<Rightarrow> Event \<Rightarrow> string \<times> nat \<times> f64 \<Rightarrow> string \<Rightarrow> shock_state \<Rightarrow> shock_state" where
  "shock_target env e cur tgt k =
    (case cur of (cid, hops, amp) \<Rightarrow>
      if tgt \<in> set (sk_visited k) then k
      else let ew = edge_weight (re_edgeWeights env) cid tgt;
               childAmp = amp * fl 0.6 * ew
        in if childAmp < fl 1.1 then k
           else let branchProb = math_Min (ew * math_Pow (fl 0.7) (f64_of_int (int hops))) 1;
                    u = shd (sk_rng k);
                    k = k\<lparr> sk_rng := stl (sk_rng k) \<rparr>
             in if branchProb < u then k
                else let k = k\<lparr> sk_visited := tgt # sk_visited k \<rparr>
                  in case map_of (sk_states k) tgt of None \<Rightarrow> k
                     | Some ts \<Rightarrow>
                         if ss_Shocked ts then k
                         else let recoveryAt = ev_Time e + re_horizonMs env * fl 0.25
                           in k\<lparr> sk_states := AList.update tgt ((shock_service childAmp ts)\<lparr> ss_RecoveryStartMs := recoveryAt \<rparr>) (sk_states k),
                                 sk_sched := Schedule (event recoveryAt EventRecovery tgt) (sk_sched k),
                                 sk_queue := sk_queue k @ [(tgt, hops + 1, childAmp)] \<rparr>)"

definition unshocked :: "sim_states \<Rightarrow> string set" where
  "unshocked ss = {i. \<exists>s. map_of ss i = Some s \<and> \<not> ss_Shocked s}"

definition shock_pop :: "RunEnv \<Rightarrow> Event \<Rightarrow> shock_state \<Rightarrow> shock_state" where
  \<comment> \<open>one round of the breadth-first loop, on a queue that is not empty\<close>
  "shock_pop env e k =
    (let cur = hd (sk_queue k); k = k\<lparr> sk_queue := tl (sk_queue k) \<rparr>
     in if 3 < fst (snd cur) then k
        else fold (shock_target env e cur) (cascade_targets (re_cascadeEdges env) (fst cur)) k)"

definition shock_measure :: "shock_state \<Rightarrow> nat" where
  "shock_measure k = card (unshocked (sk_states k)) + length (sk_queue k)"

lemma finite_unshocked [simp]: "finite (unshocked ss)"
  by (rule finite_subset [OF _ finite_dom_map_of [of ss]]) (auto simp: unshocked_def)

lemma unshocked_update:
  "ss_Shocked s \<Longrightarrow> unshocked (AList.update i s ss) = unshocked ss - {i}"
  by (auto simp: unshocked_def)

lemma shock_service_shocked [simp]: "ss_Shocked (shock_service amp s)"
  by (simp add: shock_service_def Let_def)

lemma shock_target_measure: "shock_measure (shock_target env e cur tgt k) \<le> shock_measure k"
proof -
  have "card (unshocked ss - {tgt}) + 1 = card (unshocked ss)" if "map_of ss tgt = Some s" "\<not> ss_Shocked s" for ss s
  proof -
    have "tgt \<in> unshocked ss" using that by (auto simp: unshocked_def)
    then show ?thesis using card_Suc_Diff1 [OF finite_unshocked] by fastforce
  qed
  then show ?thesis
    by (auto simp: shock_target_def shock_measure_def Let_def unshocked_update split: prod.splits option.splits)
qed

lemma shock_targets_measure: "shock_measure (fold (shock_target env e cur) ts k) \<le> shock_measure k"
  by (induction ts arbitrary: k) (auto intro: order_trans shock_target_measure)

lemma shock_pop_measure: "sk_queue k \<noteq> [] \<Longrightarrow> shock_measure (shock_pop env e k) < shock_measure k"
proof -
  assume q: "sk_queue k \<noteq> []"
  let ?k = "k\<lparr> sk_queue := tl (sk_queue k) \<rparr>"
  have "shock_measure ?k < shock_measure k" using q by (simp add: shock_measure_def)
  then show ?thesis
    using shock_targets_measure [of env e "hd (sk_queue k)" "cascade_targets (re_cascadeEdges env) (fst (hd (sk_queue k)))" ?k]
    by (simp add: shock_pop_def Let_def)
qed

function shock_loop :: "RunEnv \<Rightarrow> Event \<Rightarrow> shock_state \<Rightarrow> shock_state" where
  "shock_loop env e k = (if sk_queue k = [] then k else shock_loop env e (shock_pop env e k))"
  by auto
termination by (relation "measure (\<lambda>(env, e, k). shock_measure k)") (auto simp: shock_pop_measure)

declare shock_loop.simps [simp del]

definition applyShock ::
  "RunEnv \<Rightarrow> Event \<Rightarrow> ServiceSimState \<Rightarrow> sim_states \<Rightarrow> Scheduler \<Rightarrow> rng \<Rightarrow> sim_states \<times> Scheduler \<times> rng" where
  \<comment> \<open>\<open>st\<close> is the state of the service of the event\<close>
  "applyShock env e st states sched r =
    (if re_disabled env then (states, sched, r)
     else let sid = ev_ServiceID e;
              st = shock_service (re_shockFactor env) st;
              k = shock_loop env e \<lparr> sk_states = AList.update sid st states, sk_sched = sched, sk_rng = r,
                    sk_visited = [sid], sk_queue = [(sid, 0, re_shockFactor env)] \<rparr>;
              recoveryAt = ev_Time e + re_horizonMs env * fl 0.30;
              st = st\<lparr> ss_RecoveryStartMs := recoveryAt \<rparr>;
              sched = Schedule (event recoveryAt EventRecovery sid) (sk_sched k);
              (sched, r) = next_arrival e (re_mode env) st sched (sk_rng k)
          in (AList.update sid st (sk_states k), sched, r))"

section \<open>The transport engine\<close>

record Sim =
  si_states :: sim_states
  si_sched :: Scheduler
  si_rng :: rng
  si_engine :: TrafficField.Engine
  si_circuits :: "(string \<times> string, nat) gomap"
  si_noise :: "f64 stream"
  si_collapse :: bool
  si_cascade :: bool
  si_events :: nat

definition update_circuit :: "nat \<Rightarrow> (Circuit \<Rightarrow> Circuit) \<Rightarrow> TrafficField.Engine \<Rightarrow> TrafficField.Engine" where
  "update_circuit i f g = g\<lparr> dg_Circuits := (dg_Circuits g)[i := f (dg_Circuits g ! i)] \<rparr>"

definition inject_source :: "RunEnv \<Rightarrow> (string \<times> string list) \<Rightarrow> Sim \<Rightarrow> Sim" where
  \<comment> \<open>node to edge: the flow of the source, weighted, is what the users of its edges send\<close>
  "inject_source env st_ts s =
    (case map_of (si_states s) (fst st_ts) of None \<Rightarrow> s
     | Some st \<Rightarrow> (case ss_Plant st of None \<Rightarrow> s
       | Some p \<Rightarrow>
         let flow = (if fp_S p < fp_A p then fp_S p else fp_A p)
         in fold (\<lambda>tgt s. case map_of (si_circuits s) (fst st_ts, tgt) of None \<Rightarrow> s
              | Some i \<Rightarrow> s\<lparr> si_engine := update_circuit i
                  (\<lambda>c. c\<lparr> ct_User := (ct_User c)\<lparr> us_Send := flow * edge_weight (re_edgeWeights env) (fst st_ts) tgt \<rparr> \<rparr>)
                  (si_engine s) \<rparr>) (snd st_ts) s))"

definition couple_plant :: "Circuit \<Rightarrow> FluidPlant \<Rightarrow> FluidPlant" where
  "couple_plant c p =
    (case Rtt (ct_Field c) of None \<Rightarrow> p
     | Some rtt \<Rightarrow>
         let p = (if fl 2 < rtt then p\<lparr> fp_Z := fp_Z p + (rtt - fl 2) * fl 0.01 \<rparr> else p)
         in if fp_A p < us_Ack (ct_User c) then p\<lparr> fp_A := us_Ack (ct_User c) \<rparr> else p)"

definition couple_target :: "string \<Rightarrow> string \<Rightarrow> Sim \<Rightarrow> Sim" where
  \<comment> \<open>edge to node\<close>
  "couple_target src tgt s =
    (case (map_of (si_states s) tgt, map_of (si_circuits s) (src, tgt)) of
       (Some st, Some i) \<Rightarrow> s\<lparr> si_states := AList.update tgt
          (st\<lparr> ss_Plant := map_option (couple_plant (dg_Circuits (si_engine s) ! i)) (ss_Plant st) \<rparr>) (si_states s) \<rparr>
     | _ \<Rightarrow> s)"

definition handlePDE :: "RunEnv \<Rightarrow> Event \<Rightarrow> Sim \<Rightarrow> Sim" where
  \<comment> \<open>the engine's step and \<open>Rtt\<close> always return (\<open>engine_step_returns\<close>), the \<open>None\<close> branches are not reached\<close>
  "handlePDE env e s =
    (let s = fold (inject_source env) (re_cascadeEdges env) s;
         s = (case engine_step (fl (50 / 1000)) (si_engine s) (si_noise s) of None \<Rightarrow> s
              | Some (g, noise) \<Rightarrow> s\<lparr> si_engine := g, si_noise := noise \<rparr>);
         s = fold (\<lambda>st_ts s. fold (couple_target (fst st_ts)) (snd st_ts) s) (re_cascadeEdges env) s
     in s\<lparr> si_sched := Schedule (event (ev_Time e + fl 50) EventPDE ''global'') (si_sched s) \<rparr>)"

section \<open>The event loop\<close>

definition put_service :: "string \<Rightarrow> ServiceSimState \<times> Scheduler \<times> rng \<Rightarrow> Sim \<Rightarrow> Sim" where
  "put_service sid res s =
    s\<lparr> si_states := AList.update sid (fst res) (si_states s), si_sched := fst (snd res), si_rng := snd (snd res) \<rparr>"

definition handle_event :: "RunEnv \<Rightarrow> Event \<Rightarrow> ServiceSimState \<Rightarrow> Sim \<Rightarrow> Sim" where
  "handle_event env e st s =
    (let sid = ev_ServiceID e in
     case ev_Kind e of
       EventArrival \<Rightarrow> put_service sid (handleArrival e st (si_sched s) (re_mode env) (si_rng s)) s
     | EventDeparture \<Rightarrow> put_service sid (handleDeparture e st (si_sched s) (re_mode env) (si_rng s)) s
     | EventShock \<Rightarrow>
         (case applyShock env e st (si_states s) (si_sched s) (si_rng s) of (states, sched, r) \<Rightarrow>
            s\<lparr> si_states := states, si_sched := sched, si_rng := r,
               si_cascade := (cascade_targets (re_cascadeEdges env) sid \<noteq> []) \<rparr>)
     | EventRecovery \<Rightarrow>
         put_service sid (handleRecovery (re_disabled env) e st (si_sched s) (re_mode env) (si_rng s) (re_horizonMs env)) s
     | EventTick \<Rightarrow>
         (case handleTick (re_critical env) e st (si_sched s) of (st, sched) \<Rightarrow> put_service sid (st, sched, si_rng s) s)
     | EventPDE \<Rightarrow> handlePDE env e s)"

definition note_collapse :: "string \<Rightarrow> Sim \<Rightarrow> Sim" where
  "note_collapse sid s =
    (case map_of (si_states s) sid of None \<Rightarrow> s
     | Some st \<Rightarrow> if maxQueueDepth \<le> ss_QueueLen st then s\<lparr> si_collapse := True \<rparr> else s)"

definition process_event :: "RunEnv \<Rightarrow> Event \<Rightarrow> Sim \<Rightarrow> Sim" where
  \<comment> \<open>events of a service that does not exist are skipped\<close>
  "process_event env e s =
    (case map_of (si_states s) (ev_ServiceID e) of None \<Rightarrow> s
     | Some st \<Rightarrow> note_collapse (ev_ServiceID e) (handle_event env e st s))"

lemma inject_source_events [simp]: "si_events (inject_source env x s) = si_events s"
proof -
  have "si_events (fold (\<lambda>tgt s. case map_of (si_circuits s) (fst x, tgt) of None \<Rightarrow> s
              | Some i \<Rightarrow> s\<lparr> si_engine := f tgt i s \<rparr>) ts s) = si_events s" for f ts
    by (induction ts arbitrary: s) (auto split: option.splits)
  then show ?thesis by (auto simp: inject_source_def Let_def split: option.splits)
qed

lemma fold_frame: "(\<And>x s. g (f x s) = g s) \<Longrightarrow> g (fold f xs s) = g s"
  by (induction xs arbitrary: s) auto

lemma couple_target_events [simp]: "si_events (couple_target src tgt s) = si_events s"
  by (auto simp: couple_target_def split: option.splits prod.splits)

lemma handlePDE_events [simp]: "si_events (handlePDE env e s) = si_events s"
  by (auto simp: handlePDE_def Let_def fold_frame [where g = si_events] split: option.splits prod.splits)

lemma process_event_events [simp]: "si_events (process_event env e s) = si_events s"
  by (auto simp: process_event_def note_collapse_def handle_event_def put_service_def Let_def
      split: option.splits EventKind.splits prod.splits)

function run_loop :: "RunEnv \<Rightarrow> (nat \<Rightarrow> bool) \<Rightarrow> Sim \<Rightarrow> Sim" where
  "run_loop env late s =
    (if late (si_events s) then s
     else case Next (si_sched s) of
        (None, _) \<Rightarrow> s
      | (Some e, sched) \<Rightarrow>
          let s1 = s\<lparr> si_sched := sched \<rparr>
          in if re_horizonMs env < ev_Time e then s1
             else let s2 = s1\<lparr> si_events := si_events s + 1 \<rparr>
               in if maxEvents < si_events s + 1 then s2 else run_loop env late (process_event env e s2))"
  by auto
termination by (relation "measure (\<lambda>(env, late, s). Suc maxEvents - si_events s)") (auto simp: Let_def)

declare run_loop.simps [simp del]

end
