(* ===== verification/SimResult.thy ===== *)
theory SimResult
  imports SimRunner QueuePhysics Topology
begin

text \<open>
  \<open>internal/simulation/runner.go\<close>: how a run is set up from the model bundles and the topology,
  what it reports, and how the scenarios of one submission are merged and compared.
\<close>

section \<open>Setting up a run\<close>

record bundleSnap =
  bs_id :: string
  bs_arrivalRate :: f64
  bs_serviceRate :: f64
  bs_concurrency :: int
  bs_utilisation :: f64
  bs_slaThresholdMs :: f64
  bs_queueLen :: int

definition snapshotBundles :: "(string, ServiceModelBundle) gomap \<Rightarrow> f64 \<Rightarrow> bundleSnap list" where
  "snapshotBundles bundles slaMs =
    map (\<lambda>(sid, b). \<lparr> bs_id = sid, bs_arrivalRate = qm_ArrivalRate (mb_Queue b) / fl 1000,
       bs_serviceRate = qm_ServiceRate (mb_Queue b) / fl 1000,
       bs_concurrency = int_of_f64 (math_Max (math_Round (qm_Concurrency (mb_Queue b))) 1),
       bs_utilisation = qm_Utilisation (mb_Queue b), bs_slaThresholdMs = slaMs,
       bs_queueLen = int_of_f64 (qm_MeanQueueLen (mb_Queue b)) \<rparr>) bundles"

definition cascade_edge :: "Edge \<Rightarrow> edge_map \<times> weight_map \<Rightarrow> edge_map \<times> weight_map" where
  "cascade_edge e acc =
    (if fl 0.2 < eg_Weight e
     then (AList.update (eg_Source e) (cascade_targets (fst acc) (eg_Source e) @ [eg_Target e]) (fst acc),
           AList.update (eg_Source e, eg_Target e) (eg_Weight e) (snd acc))
     else acc)"

definition buildCascadeEdges :: "GraphSnapshot \<Rightarrow> edge_map \<times> weight_map" where
  "buildCascadeEdges topo = fold cascade_edge (gs_Edges topo) ([], [])"

definition highestUtilService :: "bundleSnap list \<Rightarrow> string" where
  "highestUtilService snaps =
    fst (fold (\<lambda>s acc. if snd acc < bs_utilisation s then (bs_id s, bs_utilisation s) else acc) snaps ([], 0))"

definition new_circuit :: Circuit where
  "new_circuit =
    NewCircuit (NewField 20 (fl 0.05) \<lparr> dp_RhoMax = fl 100, dp_VFree = fl 1, dp_Tau = fl 0.5, dp_C = fl 0.2 \<rparr>)
      (NewUser (fl 0.05)) (NewHistory 100)"

definition add_circuit :: "string \<Rightarrow> string \<Rightarrow> TrafficField.Engine \<times> (string \<times> string, nat) gomap \<Rightarrow>
  TrafficField.Engine \<times> (string \<times> string, nat) gomap" where
  "add_circuit src tgt acc =
    (let g = fst acc
     in (g\<lparr> dg_Circuits := dg_Circuits g @ [new_circuit] \<rparr>, AList.update (src, tgt) (length (dg_Circuits g)) (snd acc)))"

definition build_circuits :: "edge_map \<Rightarrow> TrafficField.Engine \<times> (string \<times> string, nat) gomap" where
  "build_circuits edges =
    fold (\<lambda>x acc. fold (add_circuit (fst x)) (snd x) acc) edges (NewEngine (fl (50 / 1000)), [])"

definition initial_plant :: "bool \<Rightarrow> bundleSnap \<Rightarrow> FluidPlant" where
  "initial_plant critical s =
    (if critical
     then NewFluidPlant\<lparr> fp_P := plant_params\<lparr> pp_InflowMeanHigh := fl 1.45 \<rparr>, fp_A := fl 1.45, fp_Q := fl 3,
            fp_Z := fl 0.3, fp_R := fl 1 \<rparr>
     else NewFluidPlant\<lparr> fp_Q := f64_of_int (bs_queueLen s), fp_A := bs_arrivalRate s \<rparr>)"

definition initial_service :: "bool \<Rightarrow> bundleSnap \<Rightarrow> (f64 \<times> f64) stream \<Rightarrow> ServiceSimState" where
  "initial_service critical s draws =
    (let plant = initial_plant critical s in
     \<lparr> ss_ArrivalRate = fp_A plant, ss_BaseRate = fp_A plant, ss_ServiceRate = bs_serviceRate s,
       ss_Concurrency = bs_concurrency s, ss_Utilisation = bs_utilisation s, ss_QueueLen = 0, ss_InService = 0,
       ss_MaxQueueLen = 0, ss_QueuedArrivalTimes = [], ss_TotalArrived = 0, ss_TotalServed = 0, ss_TotalDropped = 0,
       ss_SumWaitMs = 0, ss_Shocked = False, ss_ShockPeakRate = 0, ss_RecoveryStartMs = 0, ss_RecoveryConvergedAt = 0,
       ss_QueueLenSamples = 0, ss_QueueLenSum = 0, ss_QueueLenSumSq = 0, ss_SaturationSamples = 0, ss_CollapseCount = 0,
       ss_SLAExceedances = 0, ss_SLAChecked = 0, ss_SLAThresholdMs = bs_slaThresholdMs s, ss_Plant = Some plant,
       ss_SignalLearner = Some (NewAdaptiveSignalLearner 6), ss_QueueMass = 0, ss_Hazard = 0, ss_Reservoir = 0,
       ss_PhysicsClock = 0, ss_LastPhysicsTime = 0, ss_PhysicsUpdateCount = 0, ss_draws = draws \<rparr>)"

definition add_service :: "RunEnv \<Rightarrow> bundleSnap \<times> (f64 \<times> f64) stream \<Rightarrow> Sim \<Rightarrow> Sim" where
  "add_service env sd s =
    (let sid = bs_id (fst sd);
         st = initial_service (re_critical env) (fst sd) (snd sd);
         (sched, r) = (if 0 < ss_ArrivalRate st
           then let (d, r) = interarrival (si_rng s) (1 / ss_ArrivalRate st) (re_mode env)
                in (Schedule (event d EventArrival sid) (si_sched s), r)
           else (si_sched s, si_rng s))
     in s\<lparr> si_states := AList.update sid st (si_states s),
           si_sched := Schedule (event 0 EventTick sid) sched, si_rng := r \<rparr>)"

definition run_setup :: "RunEnv \<Rightarrow> bundleSnap list \<Rightarrow> (f64 \<times> f64) stream list \<Rightarrow> rng \<Rightarrow> f64 stream \<Rightarrow> Sim" where
  \<comment> \<open>\<open>draws\<close> are the sources of the plants, in the order of the snapshots\<close>
  "run_setup env snaps draws r noise =
    (let (g, circuits) = build_circuits (re_cascadeEdges env);
         s = \<lparr> si_states = [], si_sched = NewScheduler, si_rng = r, si_engine = g, si_circuits = circuits,
               si_noise = noise, si_collapse = False, si_cascade = False, si_events = 0 \<rparr>;
         s = fold (add_service env) (zip snaps draws) s;
         shockTarget = highestUtilService snaps;
         s = (if \<not> re_disabled env \<and> shockTarget \<noteq> []
              then s\<lparr> si_sched := Schedule (event (re_horizonMs env * fl 0.35) EventShock shockTarget) (si_sched s) \<rparr> else s)
     in s\<lparr> si_sched := Schedule (event 0 EventPDE ''global'') (si_sched s) \<rparr>)"

section \<open>The result of a run\<close>

record ServiceOutcome =
  so_ServiceID :: string
  so_FinalQueueLen :: int
  so_PeakQueueLen :: int
  so_ThroughputRatio :: f64
  so_MeanWaitMs :: f64
  so_Saturated :: bool
  so_PeakUtilisation :: f64
  so_RecoveryTimeMs :: f64
  so_QueueLenMean :: f64
  so_QueueLenVariance :: f64
  so_FinalHazard :: f64
  so_FinalReservoir :: f64

record SimulationMeta =
  sn_WallTimeMs :: f64
  sn_BudgetUsedPct :: f64
  sn_EventsPerMs :: f64

record QueueDistributionSnapshot =
  qx_MeanQueueLen :: f64
  qx_VarQueueLen :: f64
  qx_P95QueueLen :: f64
  qx_SaturationFrac :: f64
  qx_UtilisationAtEnd :: f64

record SimulationResult =
  sr_Services :: "(string, ServiceOutcome) gomap"
  sr_HorizonMs :: f64
  sr_CascadeTriggered :: bool
  sr_EventsProcessed :: int
  sr_Meta :: SimulationMeta
  sr_SystemStable :: bool
  sr_CollapseDetected :: bool
  sr_RecoveryConvergenceMs :: f64
  sr_DegradedServiceCount :: int
  sr_CascadeFailureProbability :: "(string, f64) gomap"
  sr_QueueDistributionAtHorizon :: "(string, QueueDistributionSnapshot) gomap"
  sr_SLAViolationProbability :: "(string, f64) gomap"

definition converge_step :: "ServiceSimState \<Rightarrow> f64 \<times> bool \<times> int \<Rightarrow> f64 \<times> bool \<times> int" where
  "converge_step st acc =
    (case acc of (maxConvergeMs, hasShocked, degraded) \<Rightarrow>
      let (maxConvergeMs, hasShocked) =
            (if 0 < ss_ShockPeakRate st
             then (if 0 < ss_RecoveryConvergedAt st \<and> maxConvergeMs < ss_RecoveryConvergedAt st then ss_RecoveryConvergedAt st
                   else if ss_Shocked st \<and> feq (ss_RecoveryConvergedAt st) 0 then - 1 else maxConvergeMs, True)
             else (maxConvergeMs, hasShocked))
      in (maxConvergeMs, hasShocked,
          if quot maxQueueDepth 2 < ss_MaxQueueLen st \<and> ss_MaxQueueLen st < maxQueueDepth then degraded + 1 else degraded))"

definition service_outcome :: "f64 \<Rightarrow> string \<Rightarrow> ServiceSimState \<Rightarrow> ServiceOutcome" where
  "service_outcome clock sid st =
    (let ratio = (if 0 < ss_TotalArrived st then f64_of_int (ss_TotalServed st) / f64_of_int (ss_TotalArrived st) else 0);
         meanWait = (if 0 < ss_TotalServed st then ss_SumWaitMs st / f64_of_int (ss_TotalServed st) else 0);
         peakUtil = (if 0 < ss_Concurrency st
           then math_Min (f64_of_int (ss_MaxQueueLen st + ss_Concurrency st) / f64_of_int (ss_Concurrency st)) (fl 2) else 0);
         recoveryMs = (if ss_Shocked st \<and> 0 < ss_RecoveryStartMs st then clock - ss_RecoveryStartMs st else 0);
         n = f64_of_int (ss_QueueLenSamples st);
         qlMean = (if 0 < ss_QueueLenSamples st then ss_QueueLenSum st / n else 0);
         qlVar = (if 0 < ss_QueueLenSamples st
           then let v = ss_QueueLenSumSq st / n - qlMean * qlMean in if v < 0 then 0 else v else 0)
     in \<lparr> so_ServiceID = sid, so_FinalQueueLen = ss_QueueLen st, so_PeakQueueLen = ss_MaxQueueLen st,
          so_ThroughputRatio = ratio, so_MeanWaitMs = meanWait, so_Saturated = (maxQueueDepth \<le> ss_MaxQueueLen st),
          so_PeakUtilisation = peakUtil, so_RecoveryTimeMs = recoveryMs, so_QueueLenMean = qlMean, so_QueueLenVariance = qlVar,
          so_FinalHazard = (case ss_Plant st of None \<Rightarrow> 0 | Some p \<Rightarrow> fp_Z p),
          so_FinalReservoir = (case ss_Plant st of None \<Rightarrow> 0 | Some p \<Rightarrow> fp_R p) \<rparr>)"

definition failure_probability :: "ServiceSimState \<Rightarrow> f64" where
  "failure_probability st =
    (let failureProb = (if 0 < ss_TotalArrived st then f64_of_int (ss_TotalDropped st) / f64_of_int (ss_TotalArrived st) else 0);
         failureProb = (if 0 < ss_CollapseCount st \<and> failureProb < fl 0.05 then fl 0.05 else failureProb)
     in math_Min failureProb 1)"

definition sla_probability :: "ServiceSimState \<Rightarrow> f64 option" where
  \<comment> \<open>\<open>None\<close>: the map has no entry for the service\<close>
  "sla_probability st =
    (if 0 < ss_SLAChecked st \<and> 0 < ss_SLAThresholdMs st
     then Some (math_Min (f64_of_int (ss_SLAExceedances st) / f64_of_int (ss_SLAChecked st)) 1) else None)"

definition queue_distribution :: "ServiceOutcome \<Rightarrow> ServiceSimState \<Rightarrow> QueueDistributionSnapshot" where
  "queue_distribution out st =
    (let satFrac = (if 0 < ss_QueueLenSamples st
           then f64_of_int (ss_SaturationSamples st) / f64_of_int (ss_QueueLenSamples st) else 0);
         qlStd = math_Sqrt (so_QueueLenVariance out);
         utilAtEnd = (if 0 < ss_Concurrency st
           then math_Min (f64_of_int (ss_InService st) / f64_of_int (ss_Concurrency st)) (fl 2) else 0)
     in \<lparr> qx_MeanQueueLen = so_QueueLenMean out, qx_VarQueueLen = so_QueueLenVariance out,
          qx_P95QueueLen = so_QueueLenMean out + fl 1.645 * qlStd, qx_SaturationFrac = satFrac,
          qx_UtilisationAtEnd = utilAtEnd \<rparr>)"

definition run_meta :: "f64 \<Rightarrow> f64 \<Rightarrow> nat \<Rightarrow> SimulationMeta" where
  "run_meta wallMs budgetMs events =
    (let budgetUsed = (if 0 < budgetMs then wallMs / budgetMs * fl 100 else 0);
         evPerMs = (if 0 < wallMs then f64_of_int (int events) / wallMs else 0)
     in \<lparr> sn_WallTimeMs = wallMs, sn_BudgetUsedPct = math_Min budgetUsed (fl 100), sn_EventsPerMs = evPerMs \<rparr>)"

definition run_result :: "f64 \<Rightarrow> f64 \<Rightarrow> Sim \<Rightarrow> SimulationResult" where
  "run_result wallMs budgetMs s =
    (let clock = sch_Clock (si_sched s);
         (maxConvergeMs, hasShocked, degraded) = fold converge_step (map snd (si_states s)) (- 1, False, 0)
     in \<lparr> sr_Services = map (\<lambda>(i, st). (i, service_outcome clock i st)) (si_states s),
          sr_HorizonMs = clock, sr_CascadeTriggered = si_cascade s, sr_EventsProcessed = int (si_events s),
          sr_Meta = run_meta wallMs budgetMs (si_events s), sr_SystemStable = (\<not> si_collapse s),
          sr_CollapseDetected = si_collapse s,
          sr_RecoveryConvergenceMs = (if hasShocked then maxConvergeMs else 0),
          sr_DegradedServiceCount = degraded,
          sr_CascadeFailureProbability = map (\<lambda>(i, st). (i, failure_probability st)) (si_states s),
          sr_QueueDistributionAtHorizon =
            map (\<lambda>(i, st). (i, queue_distribution (service_outcome clock i st) st)) (si_states s),
          sr_SLAViolationProbability =
            concat (map (\<lambda>(i, st). case sla_probability st of None \<Rightarrow> [] | Some p \<Rightarrow> [(i, p)]) (si_states s)) \<rparr>)"

definition simulate ::
  "RunEnv \<Rightarrow> (nat \<Rightarrow> bool) \<Rightarrow> f64 \<Rightarrow> f64 \<Rightarrow> bundleSnap list \<Rightarrow> (f64 \<times> f64) stream list \<Rightarrow> rng \<Rightarrow> f64 stream \<Rightarrow> SimulationResult" where
  \<comment> \<open>\<open>Runner.run\<close>\<close>
  "simulate env late wallMs budgetMs snaps draws r noise =
    run_result wallMs budgetMs (run_loop env late (run_setup env snaps draws r noise))"

end
