(* ===== verification/SimMerge.thy ===== *)
theory SimMerge
  imports SimResult
begin

text \<open>
  \<open>internal/simulation/runner.go\<close>: the settings of the runner, the merge of the scenario runs of
  one submission, the comparison \<open>LatestMultiScenario\<close> reports, and the channel through which the
  asynchronous runs hand their results over.
\<close>

section \<open>Settings\<close>

record Runner =
  rn_horizonMs :: f64
  rn_shockFactor :: f64
  rn_stochasticMode :: string
  rn_horizonMultiplier :: f64
  rn_scenarioCount :: int
  rn_slaThresholdMs :: f64

definition NewRunner :: "f64 \<Rightarrow> f64 \<Rightarrow> Runner" where
  "NewRunner horizonMs shockFactor =
    \<lparr> rn_horizonMs = horizonMs, rn_shockFactor = shockFactor, rn_stochasticMode = ''exponential'',
       rn_horizonMultiplier = 1, rn_scenarioCount = 1, rn_slaThresholdMs = fl 500 \<rparr>"

definition SetSLAThreshold :: "f64 \<Rightarrow> Runner \<Rightarrow> Runner" where
  "SetSLAThreshold ms r = (if 0 < ms then r\<lparr> rn_slaThresholdMs := ms \<rparr> else r)"

definition SetScenarioCount :: "int \<Rightarrow> Runner \<Rightarrow> Runner" where
  "SetScenarioCount n r =
    (let n = (if n < 1 then 1 else n); n = (if 8 < n then 8 else n) in r\<lparr> rn_scenarioCount := n \<rparr>)"

definition SetHorizonMultiplier :: "f64 \<Rightarrow> Runner \<Rightarrow> Runner" where
  "SetHorizonMultiplier m r =
    (let m = (if m < fl 0.1 then fl 0.1 else m); m = (if 1 < m then 1 else m) in r\<lparr> rn_horizonMultiplier := m \<rparr>)"

definition SetStochasticMode :: "string \<Rightarrow> Runner \<Rightarrow> Runner" where
  "SetStochasticMode mode r =
    (if mode = ''pareto'' \<or> mode = ''exponential'' then r\<lparr> rn_stochasticMode := mode \<rparr> else r)"

definition scenario_plan :: "Runner \<Rightarrow> int \<Rightarrow> int \<times> int" where
  \<comment> \<open>\<open>Submit\<close>: the number of scenarios and the budget of each, in nanoseconds\<close>
  "scenario_plan r budget =
    (let n = (if rn_scenarioCount r < 1 then 1 else rn_scenarioCount r); b = quot budget n
     in if b < 5000000 then (1, 5000000) else (n, b))"

section \<open>Merging\<close>

definition sum_f :: "('a \<Rightarrow> f64) \<Rightarrow> 'a list \<Rightarrow> f64" where
  "sum_f f xs = fold (\<lambda>x s. s + f x) xs 0"

definition mean_f :: "('a \<Rightarrow> f64) \<Rightarrow> 'a list \<Rightarrow> f64" where
  "mean_f f xs = sum_f f xs / f64_of_int (int (length xs))"

definition empty_result :: SimulationResult where
  "empty_result = \<lparr> sr_Services = [], sr_HorizonMs = 0, sr_CascadeTriggered = False, sr_EventsProcessed = 0,
     sr_Meta = \<lparr> sn_WallTimeMs = 0, sn_BudgetUsedPct = 0, sn_EventsPerMs = 0 \<rparr>, sr_SystemStable = False,
     sr_CollapseDetected = False, sr_RecoveryConvergenceMs = 0, sr_DegradedServiceCount = 0,
     sr_CascadeFailureProbability = [], sr_QueueDistributionAtHorizon = [], sr_SLAViolationProbability = [] \<rparr>"

definition service_ids :: "SimulationResult list \<Rightarrow> string list" where
  \<comment> \<open>the keys of the set \<open>serviceIDs\<close>, in one of its iteration orders\<close>
  "service_ids runs = remdups (concat (map (\<lambda>r. map fst (sr_Services r)) runs))"

definition lookups :: "('r \<Rightarrow> (string, 'v) gomap) \<Rightarrow> string \<Rightarrow> 'r list \<Rightarrow> 'v list" where
  "lookups f sid runs = concat (map (\<lambda>r. case map_of (f r) sid of None \<Rightarrow> [] | Some v \<Rightarrow> [v]) runs)"

definition merge_outcomes :: "string \<Rightarrow> ServiceOutcome list \<Rightarrow> ServiceOutcome" where
  "merge_outcomes sid svcs =
    (let n = int (length svcs); total = (\<lambda>f. fold (\<lambda>x s. s + f x) svcs (0 :: int)) in
     \<lparr> so_ServiceID = sid, so_FinalQueueLen = quot (total so_FinalQueueLen) n, so_PeakQueueLen = quot (total so_PeakQueueLen) n,
       so_ThroughputRatio = mean_f so_ThroughputRatio svcs, so_MeanWaitMs = mean_f so_MeanWaitMs svcs,
       so_Saturated = (quot n 2 < int (length (filter so_Saturated svcs))),
       so_PeakUtilisation = mean_f so_PeakUtilisation svcs, so_RecoveryTimeMs = mean_f so_RecoveryTimeMs svcs,
       so_QueueLenMean = mean_f so_QueueLenMean svcs, so_QueueLenVariance = mean_f so_QueueLenVariance svcs,
       so_FinalHazard = 0, so_FinalReservoir = 0 \<rparr>)"

definition merge_distributions :: "ServiceOutcome \<Rightarrow> QueueDistributionSnapshot list \<Rightarrow> QueueDistributionSnapshot" where
  "merge_distributions out qds =
    \<lparr> qx_MeanQueueLen = so_QueueLenMean out, qx_VarQueueLen = so_QueueLenVariance out,
       qx_P95QueueLen = mean_f qx_P95QueueLen qds, qx_SaturationFrac = mean_f qx_SaturationFrac qds,
       qx_UtilisationAtEnd = mean_f qx_UtilisationAtEnd qds \<rparr>"

definition merge_map :: "(string \<Rightarrow> 'r list \<Rightarrow> 'v) \<Rightarrow> (string \<Rightarrow> 'r list) \<Rightarrow> string list \<Rightarrow> (string, 'v) gomap" where
  \<comment> \<open>an entry for every service with at least one value\<close>
  "merge_map combine vals ids = concat (map (\<lambda>i. if vals i = [] then [] else [(i, combine i (vals i))]) ids)"

definition merged_recovery :: "SimulationResult list \<Rightarrow> f64" where
  "merged_recovery runs =
    (let good = filter (\<lambda>r. 0 \<le> sr_RecoveryConvergenceMs r) runs;
         unconverged = list_ex (\<lambda>r. \<not> 0 \<le> sr_RecoveryConvergenceMs r \<and> feq (sr_RecoveryConvergenceMs r) (- 1)) runs
     in if unconverged then - 1 else if good \<noteq> [] then mean_f sr_RecoveryConvergenceMs good else 0)"

definition merge_runs :: "SimulationResult list \<Rightarrow> SimulationResult" where
  \<comment> \<open>the body of \<open>mergeScenarios\<close> for two runs or more\<close>
  "merge_runs runs =
    (let n = f64_of_int (int (length runs));
         events = quot (fold (\<lambda>r s. s + sr_EventsProcessed r) runs 0) (int (length runs));
         wall = sum_f (\<lambda>r. sn_WallTimeMs (sr_Meta r)) runs; pct = sum_f (\<lambda>r. sn_BudgetUsedPct (sr_Meta r)) runs;
         ids = service_ids runs
     in \<lparr> sr_Services = merge_map merge_outcomes (\<lambda>i. lookups sr_Services i runs) ids,
          sr_HorizonMs = sr_HorizonMs (hd runs),
          sr_CascadeTriggered = list_ex sr_CascadeTriggered runs,
          sr_EventsProcessed = events,
          sr_Meta = \<lparr> sn_WallTimeMs = wall / n, sn_BudgetUsedPct = math_Min (pct / n) (fl 100),
                      sn_EventsPerMs = f64_of_int events / math_Max (wall / n) (fl 0.001) \<rparr>,
          sr_SystemStable = list_all sr_SystemStable runs,
          sr_CollapseDetected = list_ex sr_CollapseDetected runs,
          sr_RecoveryConvergenceMs = merged_recovery runs,
          sr_DegradedServiceCount =
            int_of_f64 (math_Round (sum_f (\<lambda>r. f64_of_int (sr_DegradedServiceCount r)) runs / n)),
          sr_CascadeFailureProbability =
            merge_map (\<lambda>i. mean_f id) (\<lambda>i. lookups sr_CascadeFailureProbability i runs) ids,
          sr_QueueDistributionAtHorizon =
            merge_map (\<lambda>i. merge_distributions (merge_outcomes i (lookups sr_Services i runs)))
              (\<lambda>i. lookups sr_QueueDistributionAtHorizon i runs) ids,
          sr_SLAViolationProbability =
            merge_map (\<lambda>i. mean_f id) (\<lambda>i. lookups sr_SLAViolationProbability i runs) ids \<rparr>)"

definition mergeScenarios :: "SimulationResult list \<Rightarrow> SimulationResult" where
  "mergeScenarios runs =
    (case runs of [] \<Rightarrow> empty_result | [r] \<Rightarrow> r | _ \<Rightarrow> merge_runs runs)"

section \<open>Comparison\<close>

record ScenarioComparisonData =
  sx_ScenarioCount :: int
  sx_BestCaseCollapse :: f64
  sx_WorstCaseCollapse :: f64
  sx_MedianSLAViolation :: f64
  sx_StableScenarioFraction :: f64
  sx_RecoveryConvergenceMin :: f64
  sx_RecoveryConvergenceMax :: f64

fun sift_left :: "f64 list \<Rightarrow> nat \<Rightarrow> f64 list" where
  "sift_left v 0 = v"
| "sift_left v (Suc j) = (if v ! Suc j < v ! j then sift_left (swap v (Suc j) j) j else v)"

definition sla_insertion_sort :: "f64 list \<Rightarrow> f64 list" where
  "sla_insertion_sort v = fold (\<lambda>i v. sift_left v i) [1..<length v] v"

definition collapse_estimate :: "SimulationResult \<Rightarrow> f64" where
  "collapse_estimate r =
    (let saturated = length (filter (\<lambda>x. so_Saturated (snd x)) (sr_Services r))
     in if sr_Services r \<noteq> [] then f64_of_int (int saturated) / f64_of_int (int (length (sr_Services r))) else 0)"

definition median_sla :: "f64 list \<Rightarrow> f64" where
  "median_sla values = (if values \<noteq> [] then sla_insertion_sort values ! (length values div 2) else 0)"

definition recovery_range :: "SimulationResult list \<Rightarrow> f64 \<times> f64" where
  "recovery_range runs =
    (let (lo, hi) = fold (\<lambda>r acc. if 0 \<le> sr_RecoveryConvergenceMs r
           then (if sr_RecoveryConvergenceMs r < fst acc then sr_RecoveryConvergenceMs r else fst acc,
                 if snd acc < sr_RecoveryConvergenceMs r then sr_RecoveryConvergenceMs r else snd acc)
           else acc) runs (MaxFloat64, - 1)
     in (if feq lo MaxFloat64 then 0 else lo, if hi < 0 then 0 else hi))"

definition compare_runs :: "SimulationResult list \<Rightarrow> ScenarioComparisonData" where
  \<comment> \<open>\<open>LatestMultiScenario\<close> on the finished runs\<close>
  "compare_runs runs =
    (let best = fold (\<lambda>r b. if collapse_estimate r < b then collapse_estimate r else b) runs 1;
         worst = fold (\<lambda>r b. if b < collapse_estimate r then collapse_estimate r else b) runs 0;
         slaValues = concat (map (\<lambda>r. map snd (sr_SLAViolationProbability r)) runs);
         (recoveryMin, recoveryMax) = recovery_range runs
     in \<lparr> sx_ScenarioCount = int (length runs), sx_BestCaseCollapse = best, sx_WorstCaseCollapse = worst,
          sx_MedianSLAViolation = median_sla slaValues,
          sx_StableScenarioFraction =
            f64_of_int (int (length (filter sr_SystemStable runs))) / f64_of_int (int (length runs)),
          sx_RecoveryConvergenceMin = recoveryMin, sx_RecoveryConvergenceMax = recoveryMax \<rparr>)"

definition multi_scenario_budget :: "int \<Rightarrow> int \<Rightarrow> int option" where
  \<comment> \<open>the guards of \<open>LatestMultiScenario\<close>: the budget of a scenario, or \<open>None\<close> when it returns nil\<close>
  "multi_scenario_budget budget nScenarios =
    (if nScenarios < 2 then None
     else let b = quot budget nScenarios in if b < 5000000 then None else Some b)"

section \<open>The results channel\<close>

text \<open>\<open>submitted\<close> numbers the submissions; a running simulation is the number of its submission.\<close>

record results_chan =
  rc_cap :: nat
  rc_buf :: "nat list"
  rc_running :: "nat list"
  rc_submitted :: nat

inductive chan_step :: "results_chan \<Rightarrow> results_chan \<Rightarrow> bool" where
  submit: "chan_step c (c\<lparr> rc_buf := tl (rc_buf c), rc_running := rc_submitted c # rc_running c,
                            rc_submitted := rc_submitted c + 1 \<rparr>)"
| deliver: "k \<in> set (rc_running c) \<Longrightarrow>
    chan_step c (c\<lparr> rc_running := remove1 k (rc_running c),
                    rc_buf := (if length (rc_buf c) < rc_cap c then rc_buf c @ [k] else rc_buf c) \<rparr>)"
| latest: "chan_step c (c\<lparr> rc_buf := tl (rc_buf c) \<rparr>)"

definition new_chan :: "nat \<Rightarrow> results_chan" where
  "new_chan n = \<lparr> rc_cap = n, rc_buf = [], rc_running = [], rc_submitted = 0 \<rparr>"

end
