(* ===== verification/SimProps.thy ===== *)
theory SimProps
  imports SimMerge
begin

text \<open>
  What holds of a simulation run (\<open>internal/simulation/runner.go\<close>): the accounting of requests
  over any number of events, the arrival chains each handler adds, the ranges of the reported
  probabilities, the merge of scenarios and the results channel.
\<close>

section \<open>Pending events by kind and service\<close>

definition pending :: "EventKind \<Rightarrow> string \<Rightarrow> Scheduler \<Rightarrow> nat" where
  "pending k i s = size (filter_mset (\<lambda>e. ev_Kind e = k \<and> ev_ServiceID e = i) (mset (sch_h s)))"

lemma pending_Schedule [simp]:
  "pending k i (Schedule e s) = pending k i s + (if ev_Kind e = k \<and> ev_ServiceID e = i then 1 else 0)"
  by (simp add: pending_def Schedule_pending)

lemma pending_New [simp]: "pending k i NewScheduler = 0"
  by (simp add: pending_def NewScheduler_def)

lemma heap_pop_mset: assumes "h \<noteq> []" "heap_pop lt h = (x, h')" shows "mset h = add_mset x (mset h')"
proof -
  define n where "n = length h - 1"
  let ?d = "heap_down lt (swap h 0 n) 0 n"
  have n: "length h = Suc n" using assms(1) by (simp add: n_def)
  then have "?d \<noteq> []" by (metis length_heap_down length_swap list.size(3) le_SucI order_refl nat.simps(3))
  moreover have "x = last ?d" "h' = butlast ?d" using assms(2) by (auto simp: heap_pop_def Let_def n_def)
  ultimately have "?d = h' @ [x]" by simp
  moreover have "mset ?d = mset h" using n by (subst heap_down_mset) simp_all
  ultimately show ?thesis by simp
qed

lemma pending_Next:
  "Next s = (Some e, s') \<Longrightarrow>
   pending k i s = pending k i s' + (if ev_Kind e = k \<and> ev_ServiceID e = i then 1 else 0)"
  by (auto simp: Next_def pending_def split: if_splits prod.splits dest!: heap_pop_mset)

lemma event_simps [simp]: "ev_Kind (event t k i) = k" "ev_ServiceID (event t k i) = i" "ev_Time (event t k i) = t"
  by (simp_all add: event_def)

section \<open>The account of a service\<close>

text \<open>The fields the request account rests on.\<close>

type_synonym request_counts = "int \<times> int \<times> int \<times> int \<times> int \<times> f64 list"

definition counts :: "ServiceSimState \<Rightarrow> request_counts" where
  "counts st = (ss_TotalArrived st, ss_TotalServed st, ss_TotalDropped st, ss_InService st, ss_Concurrency st,
     ss_QueuedArrivalTimes st)"

type_synonym sample_counts = "int \<times> int \<times> int \<times> int"

definition sla_counts :: "ServiceSimState \<Rightarrow> sample_counts" where
  "sla_counts st = (ss_SLAExceedances st, ss_SLAChecked st, ss_SaturationSamples st, ss_QueueLenSamples st)"

definition account_ok :: "nat \<Rightarrow> nat \<Rightarrow> request_counts \<Rightarrow> bool" where
  \<comment> \<open>\<open>n\<close> departures are pending, at most \<open>m\<close> events were handled\<close>
  "account_ok n m c \<longleftrightarrow>
    (case c of (arrived, served, dropped, inservice, conc, queue) \<Rightarrow>
      arrived = served + dropped + inservice + int (length queue) \<and> 0 \<le> served \<and> 0 \<le> dropped \<and> arrived \<le> int m \<and>
      inservice = int n \<and> inservice \<le> max 0 conc \<and> int (length queue) \<le> maxQueueDepth \<and>
      (queue = [] \<or> conc \<le> inservice))"

definition sla_ok :: "int \<Rightarrow> sample_counts \<Rightarrow> bool" where
  "sla_ok served c \<longleftrightarrow>
    (case c of (exceeded, checked, saturated, samples) \<Rightarrow>
      0 \<le> exceeded \<and> exceeded \<le> checked \<and> checked = served \<and> 0 \<le> saturated \<and> saturated \<le> samples \<and> samples = served)"

definition service_ok :: "nat \<Rightarrow> nat \<Rightarrow> ServiceSimState \<Rightarrow> bool" where
  "service_ok n m st \<longleftrightarrow> account_ok n m (counts st) \<and> sla_ok (fst (snd (counts st))) (sla_counts st)"

lemma service_ok_cong: "counts a = counts b \<Longrightarrow> sla_counts a = sla_counts b \<Longrightarrow> service_ok n m a = service_ok n m b"
  by (simp add: service_ok_def)

lemma service_ok_mono: "service_ok n m st \<Longrightarrow> m \<le> m' \<Longrightarrow> service_ok n m' st"
  by (auto simp: service_ok_def account_ok_def split: prod.splits)

subsection \<open>Frames\<close>

lemma pending_start_service [simp]:
  "pending k i (fst (start_service now a sid st sched r)) =
   pending k i sched + (if k = EventDeparture \<and> i = sid then 1 else 0)"
  by (auto simp: start_service_def Let_def split: prod.splits)

lemma pending_next_arrival [simp]:
  "pending k i (fst (next_arrival e mode st sched r)) =
   pending k i sched + (if k = EventArrival \<and> i = ev_ServiceID e \<and> 0 < ss_ArrivalRate st then 1 else 0)"
  by (auto simp: next_arrival_def Let_def split: prod.splits)

lemma counts_other [simp]:
  "counts (st\<lparr> ss_ArrivalRate := x0 \<rparr>) = counts st" "sla_counts (st\<lparr> ss_ArrivalRate := x0 \<rparr>) = sla_counts st"
  "counts (st\<lparr> ss_ShockPeakRate := x1 \<rparr>) = counts st" "sla_counts (st\<lparr> ss_ShockPeakRate := x1 \<rparr>) = sla_counts st"
  "counts (st\<lparr> ss_Shocked := x2 \<rparr>) = counts st" "sla_counts (st\<lparr> ss_Shocked := x2 \<rparr>) = sla_counts st"
  "counts (st\<lparr> ss_RecoveryStartMs := x3 \<rparr>) = counts st" "sla_counts (st\<lparr> ss_RecoveryStartMs := x3 \<rparr>) = sla_counts st"
  "counts (st\<lparr> ss_RecoveryConvergedAt := x4 \<rparr>) = counts st" "sla_counts (st\<lparr> ss_RecoveryConvergedAt := x4 \<rparr>) = sla_counts st"
  "counts (st\<lparr> ss_QueueLen := x5 \<rparr>) = counts st" "sla_counts (st\<lparr> ss_QueueLen := x5 \<rparr>) = sla_counts st"
  "counts (st\<lparr> ss_MaxQueueLen := x6 \<rparr>) = counts st" "sla_counts (st\<lparr> ss_MaxQueueLen := x6 \<rparr>) = sla_counts st"
  "counts (st\<lparr> ss_Plant := x7 \<rparr>) = counts st" "sla_counts (st\<lparr> ss_Plant := x7 \<rparr>) = sla_counts st"
  "counts (st\<lparr> ss_SignalLearner := x8 \<rparr>) = counts st" "sla_counts (st\<lparr> ss_SignalLearner := x8 \<rparr>) = sla_counts st"
  "counts (st\<lparr> ss_QueueMass := x9 \<rparr>) = counts st" "sla_counts (st\<lparr> ss_QueueMass := x9 \<rparr>) = sla_counts st"
  "counts (st\<lparr> ss_Hazard := x10 \<rparr>) = counts st" "sla_counts (st\<lparr> ss_Hazard := x10 \<rparr>) = sla_counts st"
  "counts (st\<lparr> ss_Reservoir := x11 \<rparr>) = counts st" "sla_counts (st\<lparr> ss_Reservoir := x11 \<rparr>) = sla_counts st"
  "counts (st\<lparr> ss_PhysicsClock := x12 \<rparr>) = counts st" "sla_counts (st\<lparr> ss_PhysicsClock := x12 \<rparr>) = sla_counts st"
  "counts (st\<lparr> ss_LastPhysicsTime := x13 \<rparr>) = counts st" "sla_counts (st\<lparr> ss_LastPhysicsTime := x13 \<rparr>) = sla_counts st"
  "counts (st\<lparr> ss_PhysicsUpdateCount := x14 \<rparr>) = counts st" "sla_counts (st\<lparr> ss_PhysicsUpdateCount := x14 \<rparr>) = sla_counts st"
  "counts (st\<lparr> ss_draws := x15 \<rparr>) = counts st" "sla_counts (st\<lparr> ss_draws := x15 \<rparr>) = sla_counts st"
  "counts (st\<lparr> ss_ServiceRate := x16 \<rparr>) = counts st" "sla_counts (st\<lparr> ss_ServiceRate := x16 \<rparr>) = sla_counts st"
  by (simp_all add: counts_def sla_counts_def)

lemma same_note_max [simp]: "counts (note_max st) = counts st" "sla_counts (note_max st) = sla_counts st"
  by (simp_all add: note_max_def)

lemma same_set_plant [simp]: "counts (set_plant_A a st) = counts st" "sla_counts (set_plant_A a st) = sla_counts st"
  by (simp_all add: set_plant_A_def)

lemma same_converged [simp]: "counts (mark_converged t st) = counts st" "sla_counts (mark_converged t st) = sla_counts st"
  by (simp_all add: mark_converged_def Let_def)

lemma same_recover [simp]:
  "counts (fst (recover_step e st sched h)) = counts st"
  "sla_counts (fst (recover_step e st sched h)) = sla_counts st"
  "k \<noteq> EventRecovery \<Longrightarrow> pending k i (snd (recover_step e st sched h)) = pending k i sched"
  by (simp_all add: recover_step_def Let_def)

lemma same_shock_service [simp]:
  "counts (shock_service a st) = counts st" "sla_counts (shock_service a st) = sla_counts st"
  by (simp_all add: shock_service_def Let_def)

lemma same_learn [simp]: "counts (learn_hazard p st) = counts st" "sla_counts (learn_hazard p st) = sla_counts st"
  by (simp_all add: learn_hazard_def Let_def split: option.splits prod.splits)

lemma same_physics [simp]:
  "counts (physics_update c p st) = counts st" "sla_counts (physics_update c p st) = sla_counts st"
  by (simp_all add: physics_update_def Let_def)

lemma same_tick [simp]:
  "counts (fst (handleTick c e st sched)) = counts st" "sla_counts (fst (handleTick c e st sched)) = sla_counts st"
  "k \<noteq> EventTick \<Longrightarrow> pending k i (snd (handleTick c e st sched)) = pending k i sched"
  by (simp_all add: handleTick_def Let_def split: option.splits)

subsection \<open>Arrivals and departures\<close>

lemma pending_admit:
  "k \<noteq> EventDeparture \<or> i \<noteq> ev_ServiceID e \<Longrightarrow> pending k i (fst (snd (admit e st sched r))) = pending k i sched"
  by (auto simp: admit_def Let_def start_service_def split: prod.splits)

lemma admit_ok:
  assumes "service_ok (pending EventDeparture (ev_ServiceID e) sched) m st"
  shows "service_ok (pending EventDeparture (ev_ServiceID e) (fst (snd (admit e st sched r)))) (Suc m) (fst (admit e st sched r))"
proof -
  let ?st = "st\<lparr> ss_TotalArrived := ss_TotalArrived st + 1 \<rparr>"
  consider (drop) "maxQueueDepth \<le> int (length (ss_QueuedArrivalTimes st))"
    | (serve) "int (length (ss_QueuedArrivalTimes st)) < maxQueueDepth" "ss_InService st < ss_Concurrency st"
    | (wait) "int (length (ss_QueuedArrivalTimes st)) < maxQueueDepth" "ss_Concurrency st \<le> ss_InService st" by linarith
  then show ?thesis
  proof cases
    case drop
    then show ?thesis using assms by (auto simp: admit_def Let_def service_ok_def account_ok_def counts_def sla_counts_def)
  next
    case serve
    then have "ss_QueuedArrivalTimes st = []" using assms by (auto simp: service_ok_def account_ok_def counts_def)
    moreover have "fst (snd (admit e st sched r)) = fst (start_service (ev_Time e) (ev_Time e) (ev_ServiceID e)
        (?st\<lparr> ss_InService := ss_InService st + 1 \<rparr>) sched r)"
      using serve by (simp add: admit_def Let_def split: prod.splits)
    moreover have "fst (admit e st sched r) = ?st\<lparr> ss_InService := ss_InService st + 1 \<rparr>"
      using serve by (simp add: admit_def Let_def split: prod.splits)
    ultimately show ?thesis using assms serve
      by (auto simp: service_ok_def account_ok_def counts_def sla_counts_def)
  next
    case wait
    then have "counts (fst (admit e st sched r)) =
        (ss_TotalArrived st + 1, ss_TotalServed st, ss_TotalDropped st, ss_InService st, ss_Concurrency st,
         ss_QueuedArrivalTimes st @ [ev_Time e])" "sla_counts (fst (admit e st sched r)) = sla_counts st"
      by (simp_all add: admit_def Let_def) (simp_all add: counts_def sla_counts_def)
    moreover have "fst (snd (admit e st sched r)) = sched" using wait by (simp add: admit_def Let_def)
    ultimately show ?thesis using assms wait by (auto simp: service_ok_def account_ok_def counts_def)
  qed
qed

lemma handleArrival_parts:
  "fst (handleArrival e st sched mode r) = fst (admit e st sched r)"
  "pending k i (fst (snd (handleArrival e st sched mode r))) =
   pending k i (fst (snd (admit e st sched r))) +
     (if k = EventArrival \<and> i = ev_ServiceID e \<and> 0 < ss_ArrivalRate (fst (admit e st sched r)) then 1 else 0)"
  using pending_next_arrival [of k i e mode "fst (admit e st sched r)" "fst (snd (admit e st sched r))" "snd (snd (admit e st sched r))"]
  by (auto simp: handleArrival_def Let_def split: prod.splits)

lemma record_departure_counts:
  "counts (record_departure e st) =
    (ss_TotalArrived st, ss_TotalServed st + 1, ss_TotalDropped st,
     if 0 < ss_InService st then ss_InService st - 1 else ss_InService st, ss_Concurrency st, ss_QueuedArrivalTimes st)"
  by (simp add: record_departure_def Let_def counts_def)

lemma record_departure_sla:
  "sla_ok n (sla_counts st) \<Longrightarrow> sla_ok (n + 1) (sla_counts (record_departure e st))"
  by (auto simp: record_departure_def Let_def sla_counts_def sla_ok_def)

lemma pending_departure:
  "k \<noteq> EventDeparture \<or> i \<noteq> ev_ServiceID e \<Longrightarrow>
   pending k i (fst (snd (handleDeparture e st sched mode r))) = pending k i sched"
  by (auto simp: handleDeparture_def Let_def start_service_def split: prod.splits list.splits)

lemma departure_ok:
  assumes "service_ok (Suc (pending EventDeparture (ev_ServiceID e) sched)) m st"
  shows "service_ok (pending EventDeparture (ev_ServiceID e) (fst (snd (handleDeparture e st sched mode r)))) m
    (fst (handleDeparture e st sched mode r))"
proof -
  let ?st = "record_departure e st"
  have "0 < ss_InService st" using assms by (auto simp: service_ok_def account_ok_def counts_def)
  then have c: "counts ?st = (ss_TotalArrived st, ss_TotalServed st + 1, ss_TotalDropped st,
      ss_InService st - 1, ss_Concurrency st, ss_QueuedArrivalTimes st)"
    by (simp add: record_departure_counts)
  have s: "sla_ok (ss_TotalServed st + 1) (sla_counts ?st)"
    using assms by (intro record_departure_sla) (simp add: service_ok_def counts_def)
  have q: "ss_QueuedArrivalTimes ?st = ss_QueuedArrivalTimes st" using c by (simp add: counts_def)
  show ?thesis
  proof (cases "ss_QueuedArrivalTimes st")
    case Nil
    then have "handleDeparture e st sched mode r = (?st, sched, r)" using q by (simp add: handleDeparture_def Let_def)
    then show ?thesis using assms c s Nil by (simp add: service_ok_def) (auto simp: account_ok_def counts_def)
  next
    case (Cons a as)
    define u where "u = fst (handleDeparture e st sched mode r)"
    have "counts u = (ss_TotalArrived st, ss_TotalServed st + 1, ss_TotalDropped st, ss_InService st, ss_Concurrency st, as)"
      "sla_counts u = sla_counts ?st"
      using c q Cons by (simp_all add: u_def handleDeparture_def Let_def counts_def sla_counts_def split: prod.splits)
    moreover have "pending EventDeparture (ev_ServiceID e) (fst (snd (handleDeparture e st sched mode r))) =
        Suc (pending EventDeparture (ev_ServiceID e) sched)"
      using q Cons by (auto simp: handleDeparture_def Let_def start_service_def split: prod.splits)
    ultimately show ?thesis using assms s Cons by (auto simp: u_def service_ok_def account_ok_def counts_def)
  qed
qed

subsection \<open>Shocks\<close>

definition account :: "sim_states \<Rightarrow> string \<Rightarrow> (request_counts \<times> sample_counts) option" where
  "account ss i = map_option (\<lambda>st. (counts st, sla_counts st)) (map_of ss i)"

lemma account_update: "account (AList.update i st ss) = (account ss)(i \<mapsto> (counts st, sla_counts st))"
  by (auto simp: account_def)

lemma account_upd_same:
  assumes "map_of ss i = Some st" "counts st' = counts st" "sla_counts st' = sla_counts st"
  shows "(account ss)(i \<mapsto> (counts st', sla_counts st')) = account ss"
  using assms by (auto simp: account_def)

definition shock_view :: "shock_state \<Rightarrow>
  (string \<Rightarrow> (request_counts \<times> sample_counts) option) \<times> (EventKind \<Rightarrow> string \<Rightarrow> nat) \<times> bool" where
  "shock_view k = (account (sk_states k), \<lambda>c i. if c = EventRecovery then 0 else pending c i (sk_sched k), wf_gomap (sk_states k))"

lemma shock_target_view: "shock_view (shock_target env e cur tgt k) = shock_view k"
  if w: "wf_gomap (sk_states k)"
proof -
  have "account (AList.update tgt ((shock_service a ts)\<lparr> ss_RecoveryStartMs := t \<rparr>) ss) = account ss"
    if "map_of ss tgt = Some ts" for a ts t ss
    using account_upd_same [OF that, of "(shock_service a ts)\<lparr> ss_RecoveryStartMs := t \<rparr>"] by (simp add: account_update)
  then show ?thesis
    using w by (auto simp: shock_target_def shock_view_def Let_def fun_eq_iff split: prod.splits option.splits)
qed

lemma shock_targets_view: "wf_gomap (sk_states k) \<Longrightarrow> shock_view (fold (shock_target env e cur) ts k) = shock_view k"
proof (induction ts arbitrary: k)
  case (Cons t ts)
  note v = shock_target_view [OF Cons.prems, of env e cur t]
  then have "wf_gomap (sk_states (shock_target env e cur t k))" using Cons.prems by (simp add: shock_view_def)
  then show ?case using Cons.IH v by simp
qed simp

lemma shock_pop_view: "wf_gomap (sk_states k) \<Longrightarrow> shock_view (shock_pop env e k) = shock_view k"
proof -
  assume w: "wf_gomap (sk_states k)"
  have "shock_view (k\<lparr> sk_queue := q \<rparr>) = shock_view k" for q by (simp add: shock_view_def fun_eq_iff)
  then show ?thesis using w by (simp add: shock_pop_def Let_def shock_targets_view)
qed

lemma shock_loop_view: "wf_gomap (sk_states k) \<Longrightarrow> shock_view (shock_loop env e k) = shock_view k"
proof (induction env e k rule: shock_loop.induct)
  case (1 env e k)
  have "wf_gomap (sk_states (shock_pop env e k))"
    using shock_pop_view [OF 1(2)] 1(2) by (simp add: shock_view_def)
  then show ?case using 1 shock_pop_view by (subst shock_loop.simps) simp
qed

lemma applyShock_view:
  assumes "map_of states (ev_ServiceID e) = Some st" "wf_gomap states"
    and "applyShock env e st states sched r = (states', sched', r')"
  shows "account states' = account states \<and> wf_gomap states' \<and>
    (k \<noteq> EventRecovery \<and> k \<noteq> EventArrival \<longrightarrow> pending k i sched' = pending k i sched)"
proof (cases "re_disabled env")
  case False
  let ?st = "shock_service (re_shockFactor env) st"
  let ?k = "\<lparr> sk_states = AList.update (ev_ServiceID e) ?st states, sk_sched = sched, sk_rng = r,
    sk_visited = [ev_ServiceID e], sk_queue = [(ev_ServiceID e, 0, re_shockFactor env)] \<rparr>"
  define m where "m = shock_loop env e ?k"
  have "shock_view m = shock_view ?k" unfolding m_def using assms(2) by (intro shock_loop_view) simp
  then have v: "account (sk_states m) = account (AList.update (ev_ServiceID e) ?st states)" "wf_gomap (sk_states m)"
    "k \<noteq> EventRecovery \<Longrightarrow> pending k i (sk_sched m) = pending k i sched"
    using assms(2) by (auto simp: shock_view_def fun_eq_iff split: if_splits)
  have same: "account (AList.update (ev_ServiceID e) ?st states) = account states"
    using account_upd_same [OF assms(1)] by (simp add: account_update)
  define t where "t = ev_Time e + re_horizonMs env * fl 0.30"
  let ?na = "next_arrival e (re_mode env) (?st\<lparr> ss_RecoveryStartMs := t \<rparr>)
    (Schedule (event t EventRecovery (ev_ServiceID e)) (sk_sched m)) (sk_rng m)"
  have parts: "states' = AList.update (ev_ServiceID e) (?st\<lparr> ss_RecoveryStartMs := t \<rparr>) (sk_states m)" "sched' = fst ?na"
    using assms(3) False by (auto simp: applyShock_def Let_def m_def t_def split: prod.splits)
  have "account states' = account states"
    using v(1) same assms(1) by (auto simp: parts account_update account_def)
  then show ?thesis using v(2, 3) by (simp add: parts del: fl_numeral)
qed (use assms in \<open>simp add: applyShock_def\<close>)

section \<open>The account over a run\<close>

definition sim_account :: "Sim \<Rightarrow> (string \<Rightarrow> (request_counts \<times> sample_counts) option) \<times> Scheduler \<times> bool" where
  "sim_account s = (account (si_states s), si_sched s, wf_gomap (si_states s))"

lemma inject_source_account: "sim_account (inject_source env x s) = sim_account s"
proof -
  have "sim_account (fold (\<lambda>tgt s. case map_of (si_circuits s) (fst x, tgt) of None \<Rightarrow> s
              | Some i \<Rightarrow> s\<lparr> si_engine := f tgt i s \<rparr>) ts s) = sim_account s" for f ts
    by (induction ts arbitrary: s) (auto simp: sim_account_def split: option.splits)
  then show ?thesis by (auto simp: inject_source_def Let_def split: option.splits)
qed

lemma couple_target_account: "wf_gomap (si_states s) \<Longrightarrow> sim_account (couple_target src tgt s) = sim_account s"
  by (auto simp: couple_target_def sim_account_def account_update account_upd_same split: option.splits prod.splits)

lemma fold_invariant_eq:
  "P s \<Longrightarrow> (\<And>x s. P s \<Longrightarrow> g (f x s) = g s \<and> P (f x s)) \<Longrightarrow> g (fold f xs s) = g s \<and> P (fold f xs s)"
  by (induction xs arbitrary: s) auto

lemma handlePDE_account:
  assumes "wf_gomap (si_states s)"
  shows "account (si_states (handlePDE env e s)) = account (si_states s) \<and> wf_gomap (si_states (handlePDE env e s)) \<and>
    si_sched (handlePDE env e s) = Schedule (event (ev_Time e + fl 50) EventPDE ''global'') (si_sched s)"
proof -
  define s1 where "s1 = fold (inject_source env) (re_cascadeEdges env) s"
  define s2 where "s2 = (case engine_step (fl (50 / 1000)) (si_engine s1) (si_noise s1) of None \<Rightarrow> s1
              | Some (g, noise) \<Rightarrow> s1\<lparr> si_engine := g, si_noise := noise \<rparr>)"
  define s3 where "s3 = fold (\<lambda>st_ts s. fold (couple_target (fst st_ts)) (snd st_ts) s) (re_cascadeEdges env) s2"
  have "sim_account s1 = sim_account s" unfolding s1_def by (rule fold_frame) (rule inject_source_account)
  then have s2: "sim_account s2 = sim_account s" by (auto simp: s2_def sim_account_def split: option.splits)
  then have "wf_gomap (si_states s2)" using assms by (simp add: sim_account_def)
  moreover have step: "sim_account (couple_target a t s) = sim_account s \<and> wf_gomap (si_states (couple_target a t s))"
    if "wf_gomap (si_states s)" for a t s
    using couple_target_account [OF that, of a t] that by (simp add: sim_account_def)
  moreover have "sim_account (fold (couple_target a) ts s) = sim_account s \<and> wf_gomap (si_states (fold (couple_target a) ts s))"
    if "wf_gomap (si_states s)" for a ts s
    using that step by (rule fold_invariant_eq)
  ultimately have "sim_account s3 = sim_account s2 \<and> wf_gomap (si_states s3)"
    unfolding s3_def by (intro fold_invariant_eq) auto
  moreover have "handlePDE env e s = s3\<lparr> si_sched := Schedule (event (ev_Time e + fl 50) EventPDE ''global'') (si_sched s3) \<rparr>"
    unfolding handlePDE_def Let_def s1_def s2_def s3_def by (rule refl)
  ultimately show ?thesis using s2 assms by (simp add: sim_account_def)
qed

definition sim_ok :: "Sim \<Rightarrow> bool" where
  "sim_ok s \<longleftrightarrow> wf_gomap (si_states s) \<and>
    (\<forall>i st. map_of (si_states s) i = Some st \<longrightarrow> service_ok (pending EventDeparture i (si_sched s)) (si_events s) st)"

definition popped_ok :: "nat \<Rightarrow> Event \<Rightarrow> Sim \<Rightarrow> bool" where
  \<comment> \<open>between the pop and the handler: \<open>m\<close> events were handled before\<close>
  "popped_ok m e s \<longleftrightarrow> si_events s = Suc m \<and> wf_gomap (si_states s) \<and>
    (\<forall>i st. map_of (si_states s) i = Some st \<longrightarrow>
       service_ok (pending EventDeparture i (si_sched s) + (if ev_Kind e = EventDeparture \<and> ev_ServiceID e = i then 1 else 0)) m st)"

lemma popped:
  "sim_ok s \<Longrightarrow> Next (si_sched s) = (Some e, sched) \<Longrightarrow>
   popped_ok (si_events s) e (s\<lparr> si_sched := sched, si_events := si_events s + 1 \<rparr>)"
  using pending_Next by (fastforce simp: sim_ok_def popped_ok_def)

lemma other_service_ok:
  assumes "popped_ok m e s" "map_of (si_states s) i = Some st" "ev_Kind e \<noteq> EventDeparture \<or> ev_ServiceID e \<noteq> i"
  shows "service_ok (pending EventDeparture i (si_sched s)) m st"
proof -
  have "service_ok (pending EventDeparture i (si_sched s) + (if ev_Kind e = EventDeparture \<and> ev_ServiceID e = i then 1 else 0)) m st"
    using assms(1, 2) unfolding popped_ok_def by blast
  moreover have "\<not> (ev_Kind e = EventDeparture \<and> ev_ServiceID e = i)" using assms(3) by blast
  ultimately show ?thesis by simp
qed

lemma put_service_ok:
  assumes "popped_ok m e s" "service_ok (pending EventDeparture i (fst (snd res))) (Suc m) (fst res)" "i = ev_ServiceID e"
    and "\<And>j. j \<noteq> i \<Longrightarrow> pending EventDeparture j (fst (snd res)) = pending EventDeparture j (si_sched s)"
  shows "sim_ok (put_service i res s)"
proof -
  have "service_ok (pending EventDeparture j (fst (snd res))) (Suc m) st" if "j \<noteq> i" "map_of (si_states s) j = Some st" for j st
    using service_ok_mono [OF other_service_ok [OF assms(1) that(2)]] that(1) by (simp add: assms(3, 4))
  then show ?thesis using assms(1, 2) by (simp add: sim_ok_def popped_ok_def put_service_def)
qed

lemma account_mono:
  assumes "account ss' = account ss" "\<And>i st. map_of ss i = Some st \<Longrightarrow> service_ok (n i) m st" "map_of ss' i = Some st"
  shows "service_ok (n i) m st"
proof -
  have "account ss i = Some (counts st, sla_counts st)" using assms(1, 3) by (simp add: account_def flip: assms(1))
  then obtain st' where "map_of ss i = Some st'" "counts st' = counts st" "sla_counts st' = sla_counts st"
    by (auto simp: account_def)
  then show ?thesis using assms(2) service_ok_cong by blast
qed

lemma sim_okI:
  assumes "popped_ok m e s" "si_events s' = si_events s" "account (si_states s') = account (si_states s)" "wf_gomap (si_states s')"
    and "\<And>i. pending EventDeparture i (si_sched s') = pending EventDeparture i (si_sched s)" "ev_Kind e \<noteq> EventDeparture"
  shows "sim_ok s'"
proof -
  have "service_ok (pending EventDeparture i (si_sched s)) m st" if "map_of (si_states s') i = Some st" for i st
    using other_service_ok [OF assms(1)] assms(6) by (intro account_mono [OF assms(3) _ that]) blast
  then have "service_ok (pending EventDeparture i (si_sched s)) (Suc m) st" if "map_of (si_states s') i = Some st" for i st
    using service_ok_mono that by fastforce
  then show ?thesis using assms(1, 2, 4) by (simp add: sim_ok_def popped_ok_def assms(5))
qed

lemma own_service_ok:
  assumes "popped_ok m e s" "map_of (si_states s) (ev_ServiceID e) = Some st"
  shows "service_ok (pending EventDeparture (ev_ServiceID e) (si_sched s) + (if ev_Kind e = EventDeparture then 1 else 0)) m st"
  using assms by (simp add: popped_ok_def) fastforce

lemma handle_event_ok:
  assumes p: "popped_ok m e s" and st: "map_of (si_states s) (ev_ServiceID e) = Some st"
  shows "sim_ok (handle_event env e st s)"
proof (cases "ev_Kind e")
  case EventArrival
  then show ?thesis using p own_service_ok [OF p st]
    by (auto simp: handle_event_def handleArrival_parts pending_admit intro!: put_service_ok admit_ok)
next
  case EventDeparture
  then show ?thesis using p own_service_ok [OF p st]
    by (auto simp: handle_event_def pending_departure intro!: put_service_ok intro: service_ok_mono [OF departure_ok])
next
  case EventShock
  obtain ss sched r where a: "applyShock env e st (si_states s) (si_sched s) (si_rng s) = (ss, sched, r)"
    by (metis prod_cases3)
  have "account ss = account (si_states s)" "wf_gomap ss" "pending EventDeparture i sched = pending EventDeparture i (si_sched s)" for i
    using applyShock_view [OF st _ a, of EventDeparture i] p by (simp_all add: popped_ok_def)
  then show ?thesis using EventShock a by (intro sim_okI [OF p]) (simp_all add: handle_event_def)
next
  case EventRecovery
  obtain st1 sched1 where r: "recover_step e st (si_sched s) (re_horizonMs env) = (st1, sched1)" by fastforce
  have same: "counts st1 = counts st" "sla_counts st1 = sla_counts st"
    "pending EventDeparture i sched1 = pending EventDeparture i (si_sched s)" for i
    using same_recover(1, 2) [of e st "si_sched s" "re_horizonMs env"]
      same_recover(3) [of EventDeparture i e st "si_sched s" "re_horizonMs env"] by (simp_all add: r)
  have "service_ok (pending EventDeparture (ev_ServiceID e) (si_sched s)) (Suc m) st"
    using own_service_ok [OF p st] EventRecovery by (auto intro: service_ok_mono)
  then show ?thesis
    using p EventRecovery service_ok_cong [OF same(1, 2)] pending_next_arrival [of EventDeparture _ e "re_mode env" st1 sched1 "si_rng s"]
    by (auto simp: handle_event_def handleRecovery_def r same split: prod.splits intro!: put_service_ok)
next
  case EventTick
  obtain st1 sched1 where r: "handleTick (re_critical env) e st (si_sched s) = (st1, sched1)" by fastforce
  have same: "counts st1 = counts st" "sla_counts st1 = sla_counts st"
    "pending EventDeparture i sched1 = pending EventDeparture i (si_sched s)" for i
    using same_tick(1, 2) [of "re_critical env" e st "si_sched s"]
      same_tick(3) [of EventDeparture i "re_critical env" e st "si_sched s"] by (simp_all add: r)
  have "service_ok (pending EventDeparture (ev_ServiceID e) (si_sched s)) (Suc m) st"
    using own_service_ok [OF p st] EventTick by (auto intro: service_ok_mono)
  then show ?thesis using p EventTick service_ok_cong [OF same(1, 2)]
    by (auto simp: handle_event_def r same intro!: put_service_ok)
next
  case EventPDE
  have "wf_gomap (si_states s)" using p by (simp add: popped_ok_def)
  from handlePDE_account [OF this, of env e] show ?thesis
    using EventPDE by (intro sim_okI [OF p]) (simp_all add: handle_event_def)
qed

lemma process_event_ok:
  assumes "popped_ok m e s" shows "sim_ok (process_event env e s)"
proof (cases "map_of (si_states s) (ev_ServiceID e)")
  case None
  have "service_ok (pending EventDeparture i (si_sched s)) (Suc m) st" if "map_of (si_states s) i = Some st" for i st
    using service_ok_mono [OF other_service_ok [OF assms that]] None that by fastforce
  then show ?thesis using assms None by (simp add: process_event_def popped_ok_def sim_ok_def)
next
  case (Some st)
  have "sim_ok (note_collapse i s)" if "sim_ok s" for i s
    using that by (auto simp: note_collapse_def sim_ok_def split: option.splits)
  then show ?thesis using handle_event_ok [OF assms Some] Some by (simp add: process_event_def)
qed

text \<open>The event the loop pops last, past the horizon or past the limit, is not handled; if it is a
  departure, its request stays in service.\<close>

definition final_ok :: "Sim \<Rightarrow> bool" where
  "final_ok s \<longleftrightarrow> si_events s \<le> Suc maxEvents \<and>
     list_all (\<lambda>x. \<exists>n. service_ok n (Suc maxEvents) (snd x)) (si_states s)"

lemma final_okI:
  assumes "wf_gomap (si_states s)" "si_events s \<le> Suc maxEvents" "m \<le> Suc maxEvents"
    and "\<And>i st. map_of (si_states s) i = Some st \<Longrightarrow> \<exists>n. service_ok n m st"
  shows "final_ok s"
  using assms wf_gomap_map_of_iff service_ok_mono unfolding final_ok_def list_all_iff by fastforce

lemma run_loop_final: "sim_ok s \<Longrightarrow> si_events s \<le> maxEvents \<Longrightarrow> final_ok (run_loop env late s)"
proof (induction env late s rule: run_loop.induct)
  case (1 env late s)
  have stay: "final_ok s"
    using 1(2, 3) by (intro final_okI [where m = "si_events s"]) (auto simp: sim_ok_def)
  obtain r sched where n: "Next (si_sched s) = (r, sched)" by fastforce
  show ?case
  proof (cases "late (si_events s) \<or> r = None")
    case True
    then have "run_loop env late s = s" using n by (subst run_loop.simps) auto
    then show ?thesis using stay by simp
  next
    case False
    then obtain e where e: "r = Some e" "\<not> late (si_events s)" by auto
    define s1 where "s1 = s\<lparr> si_sched := sched, si_events := si_events s + 1 \<rparr>"
    have p: "popped_ok (si_events s) e s1" unfolding s1_def using popped [OF 1(2)] n e(1) by simp
    show ?thesis
    proof (cases "re_horizonMs env < ev_Time e \<or> maxEvents < si_events s + 1")
      case True
      then have "run_loop env late s = s1 \<or> run_loop env late s = s1\<lparr> si_events := si_events s \<rparr>"
        using n e by (subst (1 2) run_loop.simps) (auto simp: s1_def Let_def)
      then show ?thesis using stay 1(3) by (auto simp: s1_def final_ok_def)
    next
      case False
      have "run_loop env late s = run_loop env late (process_event env e s1)"
        using False n e by (subst run_loop.simps) (simp add: s1_def Let_def)
      then show ?thesis using 1(1) [OF e(2) n [symmetric] e(1) refl] process_event_ok [OF p] False by (simp add: s1_def Let_def)
    qed
  qed
qed

section \<open>Setting up\<close>

lemma initial_service_ok: "service_ok 0 m (initial_service c s d)"
  by (simp add: initial_service_def Let_def service_ok_def account_ok_def sla_ok_def counts_def sla_counts_def maxQueueDepth_def)

definition fresh_sim :: "Sim \<Rightarrow> bool" where
  "fresh_sim s \<longleftrightarrow> sim_ok s \<and> si_events s = 0 \<and> (\<forall>i. pending EventDeparture i (si_sched s) = 0)"

lemma add_service_fresh: assumes "fresh_sim s" shows "fresh_sim (add_service env x s)"
proof -
  define st where "st = initial_service (re_critical env) (fst x) (snd x)"
  define first where "first = (if 0 < ss_ArrivalRate st
     then let (d, r) = interarrival (si_rng s) (1 / ss_ArrivalRate st) (re_mode env)
          in (Schedule (event d EventArrival (bs_id (fst x))) (si_sched s), r)
     else (si_sched s, si_rng s))"
  have "pending EventDeparture i (fst first) = pending EventDeparture i (si_sched s)" for i
    by (simp add: first_def Let_def split: prod.splits)
  moreover have "add_service env x s =
      s\<lparr> si_states := AList.update (bs_id (fst x)) st (si_states s),
          si_sched := Schedule (event 0 EventTick (bs_id (fst x))) (fst first), si_rng := snd first \<rparr>"
    unfolding add_service_def Let_def st_def [symmetric] first_def [unfolded Let_def, symmetric]
    by (cases first) simp
  ultimately show ?thesis using assms initial_service_ok by (auto simp: fresh_sim_def sim_ok_def st_def)
qed

lemma fold_keeps: "P s \<Longrightarrow> (\<And>x s. P s \<Longrightarrow> P (f x s)) \<Longrightarrow> P (fold f xs s)"
  by (induction xs arbitrary: s) auto

lemma fresh_sched:
  assumes "fresh_sim s" "\<And>i. pending EventDeparture i sched = pending EventDeparture i (si_sched s)"
  shows "fresh_sim (s\<lparr> si_sched := sched \<rparr>)"
  using assms by (auto simp: fresh_sim_def sim_ok_def)

lemma run_setup_fresh: "fresh_sim (run_setup env snaps draws r noise)"
proof -
  define s1 where "s1 = fold (add_service env) (zip snaps draws)
    \<lparr> si_states = [], si_sched = NewScheduler, si_rng = r, si_engine = fst (build_circuits (re_cascadeEdges env)),
       si_circuits = snd (build_circuits (re_cascadeEdges env)), si_noise = noise, si_collapse = False,
       si_cascade = False, si_events = 0 \<rparr>"
  define shocked where "shocked = (if \<not> re_disabled env \<and> highestUtilService snaps \<noteq> []
     then s1\<lparr> si_sched := Schedule (event (re_horizonMs env * fl 0.35) EventShock (highestUtilService snaps)) (si_sched s1) \<rparr> else s1)"
  have run: "run_setup env snaps draws r noise = shocked\<lparr> si_sched := Schedule (event 0 EventPDE ''global'') (si_sched shocked) \<rparr>"
    unfolding run_setup_def Let_def shocked_def s1_def case_prod_beta by (rule refl)
  have s1: "fresh_sim s1" unfolding s1_def by (rule fold_keeps [where P = fresh_sim])
    (simp add: fresh_sim_def sim_ok_def, rule add_service_fresh)
  then have "fresh_sim (s1\<lparr> si_sched := Schedule (event t EventShock i) (si_sched s1) \<rparr>)" for t i
    by (rule fresh_sched) simp
  then have "fresh_sim shocked" using s1 by (simp add: shocked_def del: fl_numeral)
  then show ?thesis unfolding run by (rule fresh_sched) simp
qed

lemma run_final: "final_ok (run_loop env late (run_setup env snaps draws r noise))"
  using run_setup_fresh [of env snaps draws r noise] by (intro run_loop_final) (auto simp: fresh_sim_def)

text \<open>C7: However a simulation run ends (deadline, horizon, event limit or no event left), with whatever
  random numbers, plants and edges, every request of every service is accounted for exactly
  once: arrived is served plus dropped plus in service plus waiting.  The number in service
  never exceeds the concurrency, requests wait only when all slots are taken, the queue never
  holds more than 10000 of them, and at most 400001 events are counted.\<close>

theorem requests_conserved:
  "(let s = run_loop env late (run_setup env snaps draws r noise) in si_events s \<le> 400001 \<and>
    list_all (\<lambda>(i, st).
      ss_TotalArrived st = ss_TotalServed st + ss_TotalDropped st + ss_InService st + int (length (ss_QueuedArrivalTimes st)) \<and>
      0 \<le> ss_TotalServed st \<and> 0 \<le> ss_TotalDropped st \<and> 0 \<le> ss_InService st \<and>
      ss_InService st \<le> max 0 (ss_Concurrency st) \<and> length (ss_QueuedArrivalTimes st) \<le> 10000 \<and>
      (ss_QueuedArrivalTimes st = [] \<or> ss_Concurrency st \<le> ss_InService st)) (si_states s))"
proof -
  let ?s = "run_loop env late (run_setup env snaps draws r noise)"
  have "list_all (\<lambda>x. \<exists>n. service_ok n (Suc maxEvents) (snd x)) (si_states ?s)" "si_events ?s \<le> 400001"
    using run_final [of env late snaps draws r noise] by (simp_all add: final_ok_def maxEvents_def)
  then show ?thesis unfolding Let_def
    by (intro conjI, simp, elim list.pred_mono_strong)
      (auto simp: service_ok_def account_ok_def counts_def maxQueueDepth_def)
qed

section \<open>Reported probabilities\<close>

definition probabilities_ok :: "SimulationResult \<Rightarrow> bool" where
  "probabilities_ok r \<longleftrightarrow>
    list_all (\<lambda>(i, o'). fbtw 0 (so_ThroughputRatio o') 1) (sr_Services r) \<and>
    list_all (\<lambda>(i, p). fbtw 0 p 1) (sr_CascadeFailureProbability r) \<and>
    list_all (\<lambda>(i, p). fbtw 0 p 1) (sr_SLAViolationProbability r) \<and>
    list_all (\<lambda>(i, q). fbtw 0 (qx_SaturationFrac q) 1) (sr_QueueDistributionAtHorizon r)"

lemma share_btw:
  assumes "0 \<le> a" "a \<le> b" "0 < b" "b \<le> 400001" shows "fbtw 0 (f64_of_int a / f64_of_int b) 1"
proof -
  have "real_of_int a / real_of_int b \<le> 1" using assms by (simp add: divide_le_eq)
  moreover have "f64_of_int a = Fin (of_int a)" "f64_of_int b = Fin (of_int b)"
    using assms by (simp_all add: f64_of_int_small)
  ultimately show ?thesis using assms by (auto intro!: fbtw_fl)
qed

lemma service_facts:
  assumes "service_ok n (Suc maxEvents) st"
  shows "0 \<le> ss_TotalServed st \<and> ss_TotalServed st \<le> ss_TotalArrived st \<and> 0 \<le> ss_TotalDropped st \<and>
    ss_TotalDropped st \<le> ss_TotalArrived st \<and> ss_TotalArrived st \<le> 400001 \<and> 0 \<le> ss_SLAExceedances st \<and>
    ss_SLAExceedances st \<le> ss_SLAChecked st \<and> ss_SLAChecked st = ss_TotalServed st \<and> 0 \<le> ss_SaturationSamples st \<and>
    ss_SaturationSamples st \<le> ss_QueueLenSamples st \<and> ss_QueueLenSamples st = ss_TotalServed st"
  using assms by (auto simp: service_ok_def account_ok_def sla_ok_def counts_def sla_counts_def maxEvents_def)

lemma throughput_btw: "service_ok n (Suc maxEvents) st \<Longrightarrow> fbtw 0 (so_ThroughputRatio (service_outcome c i st)) 1"
  using service_facts [of n st] by (auto simp: service_outcome_def Let_def zero_f64_def intro!: share_btw)

lemma failure_btw: "service_ok n (Suc maxEvents) st \<Longrightarrow> fbtw 0 (failure_probability st) 1"
proof -
  assume ok: "service_ok n (Suc maxEvents) st"
  let ?p = "if 0 < ss_TotalArrived st then f64_of_int (ss_TotalDropped st) / f64_of_int (ss_TotalArrived st) else 0"
  have p: "fbtw 0 ?p 1" using service_facts [OF ok] by (auto simp: zero_f64_def intro!: share_btw)
  have "fbtw 0 (fl 0.05) 1" by (intro fbtw_fl) auto
  then have "fbtw 0 (if 0 < ss_CollapseCount st \<and> ?p < fl 0.05 then fl 0.05 else ?p) 1" using p by simp
  then show ?thesis unfolding failure_probability_def Let_def
    by (rule math_Min_btw [where c = 1 and d = 1]) (simp_all add: one_f64_def)
qed

lemma sla_btw: "service_ok n (Suc maxEvents) st \<Longrightarrow> sla_probability st = Some p \<Longrightarrow> fbtw 0 p 1"
  using service_facts [of n st]
  by (auto simp: sla_probability_def one_f64_def split: if_splits intro!: share_btw math_Min_btw [where a = 0 and b = 1 and c = 1 and d = 1])

lemma saturation_btw: "service_ok n (Suc maxEvents) st \<Longrightarrow> fbtw 0 (qx_SaturationFrac (queue_distribution o' st)) 1"
  using service_facts [of n st] by (auto simp: queue_distribution_def Let_def zero_f64_def intro!: share_btw)

lemma run_result_probabilities:
  assumes "final_ok s" shows "probabilities_ok (run_result wall budget s)"
proof -
  have ok: "\<exists>n. service_ok n (Suc maxEvents) st" if "(i, st) \<in> set (si_states s)" for i st
    using assms that by (fastforce simp: final_ok_def list_all_iff)
  have r: "sr_Services (run_result wall budget s) =
        map (\<lambda>(i, st). (i, service_outcome (sch_Clock (si_sched s)) i st)) (si_states s)"
    "sr_CascadeFailureProbability (run_result wall budget s) = map (\<lambda>(i, st). (i, failure_probability st)) (si_states s)"
    "sr_QueueDistributionAtHorizon (run_result wall budget s) =
        map (\<lambda>(i, st). (i, queue_distribution (service_outcome (sch_Clock (si_sched s)) i st) st)) (si_states s)"
    "sr_SLAViolationProbability (run_result wall budget s) =
        concat (map (\<lambda>(i, st). case sla_probability st of None \<Rightarrow> [] | Some p \<Rightarrow> [(i, p)]) (si_states s))"
    by (simp_all add: run_result_def Let_def case_prod_beta)
  have "fbtw 0 (so_ThroughputRatio (service_outcome (sch_Clock (si_sched s)) i st)) 1" "fbtw 0 (failure_probability st) 1"
    "fbtw 0 (qx_SaturationFrac (queue_distribution o' st)) 1" "sla_probability st = Some p \<Longrightarrow> fbtw 0 p 1"
    if "(i, st) \<in> set (si_states s)" for i st o' p
    using ok [OF that] throughput_btw failure_btw saturation_btw sla_btw by blast+
  then show ?thesis unfolding probabilities_ok_def r by (auto simp: list_all_iff split: option.splits)
qed

section \<open>Merged probabilities\<close>

lemma mean_f_btw:
  assumes "\<forall>x \<in> set xs. fbtw 0 (f x) 1" "xs \<noteq> []" "length xs \<le> 8" shows "fbtw 0 (mean_f f xs) 1"
proof -
  have "fbtw 0 (sum_f f xs) (real (0 + length xs) * 1)" unfolding sum_f_def
    using assms(3) fbound_of_int [of "int j" for j]
    by (intro fold_sum_btw [OF assms(1)]) (auto simp: zero_f64_def)
  moreover have "f64_of_int (int (length xs)) = Fin (real (length xs))" using assms(3) by (simp add: f64_of_int_small)
  ultimately show ?thesis unfolding mean_f_def
    using assms(2) by (intro fbtw_divide [where a = 0 and b = "real (length xs)" and c = "real (length xs)" and d = "real (length xs)"]) auto
qed

lemma set_lookups: "x \<in> set (lookups f i runs) \<Longrightarrow> \<exists>r \<in> set runs. (i, x) \<in> set (f r)"
  by (auto simp: lookups_def split: option.splits) (metis map_of_SomeD)

lemma length_lookups: "length (lookups f i runs) \<le> length runs"
  by (induction runs) (auto simp: lookups_def split: option.splits)

lemma lookups_btw:
  assumes "\<forall>r \<in> set runs. list_all (\<lambda>(i, x). fbtw 0 (g x) 1) (f r)" "length runs \<le> 8" "lookups f i runs \<noteq> []"
  shows "fbtw 0 (mean_f g (lookups f i runs)) 1"
proof -
  have "\<forall>x \<in> set (lookups f i runs). fbtw 0 (g x) 1" using assms(1) set_lookups by (fastforce simp: list_all_iff)
  then show ?thesis using assms(2, 3) length_lookups [of f i runs] by (intro mean_f_btw) auto
qed

lemma merge_map_all: "(\<And>i. vals i \<noteq> [] \<Longrightarrow> P (combine i (vals i))) \<Longrightarrow> list_all (\<lambda>(i, x). P x) (merge_map combine vals ids)"
  by (auto simp: merge_map_def list_all_iff)

lemma merge_probabilities:
  assumes "list_all probabilities_ok runs" "length runs \<le> 8" shows "probabilities_ok (mergeScenarios runs)"
proof -
  have ok: "\<forall>r \<in> set runs. list_all (\<lambda>(i, o'). fbtw 0 (so_ThroughputRatio o') 1) (sr_Services r)"
    "\<forall>r \<in> set runs. list_all (\<lambda>(i, p). fbtw 0 (id p) 1) (sr_CascadeFailureProbability r)"
    "\<forall>r \<in> set runs. list_all (\<lambda>(i, p). fbtw 0 (id p) 1) (sr_SLAViolationProbability r)"
    "\<forall>r \<in> set runs. list_all (\<lambda>(i, q). fbtw 0 (qx_SaturationFrac q) 1) (sr_QueueDistributionAtHorizon r)"
    using assms(1) by (auto simp: probabilities_ok_def list_all_iff)
  have "probabilities_ok (merge_runs runs)"
    unfolding probabilities_ok_def
    by (intro conjI; simp add: merge_runs_def Let_def; rule merge_map_all)
      (auto simp: merge_outcomes_def Let_def merge_distributions_def intro!: lookups_btw [OF ok(1) assms(2)]
        lookups_btw [OF ok(2) assms(2)] lookups_btw [OF ok(3) assms(2)] lookups_btw [OF ok(4) assms(2)])
  then show ?thesis using assms(1)
    by (auto simp: mergeScenarios_def probabilities_ok_def empty_result_def split: list.splits)
qed

record run_args =
  ra_env :: RunEnv
  ra_late :: "nat \<Rightarrow> bool"
  ra_wallMs :: f64
  ra_budgetMs :: f64
  ra_snaps :: "bundleSnap list"
  ra_draws :: "(f64 \<times> f64) stream list"
  ra_rng :: rng
  ra_noise :: "f64 stream"

definition simulate_args :: "run_args \<Rightarrow> SimulationResult" where
  "simulate_args a =
    simulate (ra_env a) (ra_late a) (ra_wallMs a) (ra_budgetMs a) (ra_snaps a) (ra_draws a) (ra_rng a) (ra_noise a)"

text \<open>The merged result of up to eight scenario runs (the most the runner accepts), whatever their
  settings and random numbers, reports throughput ratios, failure probabilities, violation
  probabilities and saturation fractions that are finite and between 0 and 1.\<close>

theorem merged_probabilities_in_range:
  "probabilities_ok (mergeScenarios (map simulate_args (take 8 runs)))"
proof (rule merge_probabilities)
  have "probabilities_ok (simulate_args a)" for a
    unfolding simulate_args_def simulate_def by (intro run_result_probabilities run_final)
  then show "list_all probabilities_ok (map simulate_args (take 8 runs))" by (simp add: list_all_iff)
qed simp

section \<open>The transport engine never runs\<close>

definition inert :: "Sim \<Rightarrow> bool" where
  "inert s \<longleftrightarrow> map_of (si_states s) ''global'' = None \<and> (\<forall>i. i \<noteq> ''global'' \<longrightarrow> pending EventPDE i (si_sched s) = 0)"

lemma pending_arrival_PDE:
  "pending EventPDE i (fst (snd (handleArrival e st sched mode r))) = pending EventPDE i sched"
  by (simp add: handleArrival_parts pending_admit)

lemma pending_recovery_PDE:
  "pending EventPDE i (fst (snd (handleRecovery d e st sched mode r h))) = pending EventPDE i sched"
proof -
  obtain st1 sched1 where q: "recover_step e st sched h = (st1, sched1)" by fastforce
  then have "pending EventPDE i sched1 = pending EventPDE i sched"
    using same_recover(3) [of EventPDE i e st sched h] by simp
  then show ?thesis using pending_next_arrival [of EventPDE i e mode st1 sched1 r]
    by (auto simp: handleRecovery_def q split: prod.splits)
qed

lemma handle_event_inert:
  assumes "inert s" "wf_gomap (si_states s)" "map_of (si_states s) (ev_ServiceID e) = Some st" "ev_Kind e \<noteq> EventPDE"
  shows "inert (handle_event env e st s) \<and> si_engine (handle_event env e st s) = si_engine s"
proof -
  have put: "inert (put_service (ev_ServiceID e) res s)"
    if "\<And>i. pending EventPDE i (fst (snd res)) = pending EventPDE i (si_sched s)" for res
    using assms(1, 3) that by (auto simp: inert_def put_service_def)
  show ?thesis
  proof (cases "ev_Kind e")
    case EventShock
    obtain ss sched r where a: "applyShock env e st (si_states s) (si_sched s) (si_rng s) = (ss, sched, r)"
      by (metis prod_cases3)
    have v: "account ss = account (si_states s)" "pending EventPDE i sched = pending EventPDE i (si_sched s)" for i
      using applyShock_view [OF assms(3, 2) a, of EventPDE i] by simp_all
    have "account (si_states s) ''global'' = None" using assms(1) by (simp add: inert_def account_def)
    then have "account ss ''global'' = None" by (simp add: v(1))
    then have "map_of ss ''global'' = None" by (simp add: account_def)
    then show ?thesis using assms(1) v(2) EventShock a by (simp add: handle_event_def inert_def)
  next
    case EventTick
    obtain st1 sched1 where r: "handleTick (re_critical env) e st (si_sched s) = (st1, sched1)" by fastforce
    then have "pending EventPDE i sched1 = pending EventPDE i (si_sched s)" for i
      using same_tick(3) [of EventPDE i "re_critical env" e st "si_sched s"] by simp
    then show ?thesis using EventTick put [of "(st1, sched1, si_rng s)"] by (simp add: handle_event_def r put_service_def)
  qed (use put assms(4) in \<open>simp_all add: handle_event_def pending_arrival_PDE pending_departure pending_recovery_PDE put_service_def\<close>)
qed

lemma run_loop_inert:
  "inert s \<Longrightarrow> sim_ok s \<Longrightarrow> si_engine (run_loop env late s) = si_engine s"
proof (induction env late s rule: run_loop.induct)
  case (1 env late s)
  obtain r sched where n: "Next (si_sched s) = (r, sched)" by fastforce
  show ?case
  proof (cases "late (si_events s) \<or> r = None")
    case True
    then show ?thesis using n by (subst run_loop.simps) auto
  next
    case False
    then obtain e where e: "r = Some e" "\<not> late (si_events s)" by auto
    define s1 where "s1 = s\<lparr> si_sched := sched, si_events := si_events s + 1 \<rparr>"
    have p: "popped_ok (si_events s) e s1" unfolding s1_def using popped [OF 1(3)] n e(1) by simp
    have pop: "pending EventPDE i (si_sched s) =
        pending EventPDE i sched + (if ev_Kind e = EventPDE \<and> ev_ServiceID e = i then 1 else 0)" for i
      using n e(1) by (intro pending_Next) simp
    have in1: "inert s1" using 1(2) by (simp add: inert_def s1_def pop)
    have pde: "ev_ServiceID e = ''global''" if "ev_Kind e = EventPDE"
      using 1(2) pop [of "ev_ServiceID e"] that by (auto simp: inert_def)
    show ?thesis
    proof (cases "re_horizonMs env < ev_Time e \<or> maxEvents < si_events s + 1")
      case True
      then show ?thesis using n e by (subst run_loop.simps) (auto simp: Let_def)
    next
      case False
      have "inert (process_event env e s1) \<and> si_engine (process_event env e s1) = si_engine s"
      proof (cases "map_of (si_states s1) (ev_ServiceID e)")
        case None
        then show ?thesis using in1 by (simp add: process_event_def s1_def)
      next
        case (Some st)
        have "ev_Kind e \<noteq> EventPDE" using pde in1 Some by (auto simp: inert_def)
        moreover have "wf_gomap (si_states s1)" using p by (simp add: popped_ok_def)
        moreover have "inert (note_collapse i s') \<and> si_engine (note_collapse i s') = si_engine s'" if "inert s'" for i s'
          using that by (auto simp: note_collapse_def inert_def split: option.splits)
        ultimately show ?thesis using handle_event_inert [OF in1 _ Some] Some by (simp add: process_event_def s1_def)
      qed
      moreover have "run_loop env late s = run_loop env late (process_event env e s1)"
        using False n e by (subst run_loop.simps) (simp add: s1_def Let_def)
      ultimately show ?thesis
        using 1(1) [OF e(2) n [symmetric] e(1) refl] process_event_ok [OF p] False by (simp add: s1_def Let_def)
    qed
  qed
qed

lemma add_service_inert:
  "inert s \<Longrightarrow> bs_id (fst x) \<noteq> ''global'' \<Longrightarrow> inert (add_service env x s) \<and> si_engine (add_service env x s) = si_engine s"
  by (auto simp: inert_def add_service_def Let_def split: prod.splits)

text \<open>The transport engine of a run never advances.  Its events carry the service name global, the loop
  skips events of unknown services, so unless a service has that very name the engine after
  the run is the engine built before it.\<close>

theorem transport_engine_unused:
  assumes "list_all (\<lambda>b. bs_id b \<noteq> ''global'') snaps"
  shows "si_engine (run_loop env late (run_setup env snaps draws r noise)) = fst (build_circuits (re_cascadeEdges env))"
proof -
  define s0 where "s0 = \<lparr> si_states = [], si_sched = NewScheduler, si_rng = r, si_engine = fst (build_circuits (re_cascadeEdges env)),
       si_circuits = snd (build_circuits (re_cascadeEdges env)), si_noise = noise, si_collapse = False,
       si_cascade = False, si_events = 0 \<rparr>"
  define s1 where "s1 = fold (add_service env) (zip snaps draws) s0"
  define s2 where "s2 = run_setup env snaps draws r noise"
  have "inert s \<Longrightarrow> list_all (\<lambda>x. bs_id (fst x) \<noteq> ''global'') xs \<Longrightarrow>
      inert (fold (add_service env) xs s) \<and> si_engine (fold (add_service env) xs s) = si_engine s" for xs s
    by (induction xs arbitrary: s) (use add_service_inert in auto)
  moreover have "list_all (\<lambda>x. bs_id (fst x) \<noteq> ''global'') (zip snaps draws)"
    using assms by (auto simp: list_all_iff dest: set_zip_leftD)
  ultimately have "inert s1 \<and> si_engine s1 = si_engine s0" by (simp add: s1_def s0_def inert_def)
  moreover have "s2 = (let s = (if \<not> re_disabled env \<and> highestUtilService snaps \<noteq> []
         then s1\<lparr> si_sched := Schedule (event (re_horizonMs env * fl 0.35) EventShock (highestUtilService snaps)) (si_sched s1) \<rparr> else s1)
       in s\<lparr> si_sched := Schedule (event 0 EventPDE ''global'') (si_sched s) \<rparr>)"
    unfolding run_setup_def Let_def s2_def s1_def s0_def case_prod_beta by (rule refl)
  ultimately have "inert s2 \<and> si_engine s2 = si_engine s0" by (auto simp: inert_def Let_def)
  moreover have "sim_ok s2" using run_setup_fresh [of env snaps draws r noise] by (simp add: s2_def fresh_sim_def)
  ultimately show ?thesis using run_loop_inert [of s2 env late] by (simp add: s2_def s0_def)
qed

theorem transport_engine_unused_witness:
  "si_engine (run_loop \<lparr> re_disabled = False, re_critical = False, re_mode = ''exponential'', re_horizonMs = fl 1000,
      re_shockFactor = fl 2, re_cascadeEdges = [(''a'', [''b''])], re_edgeWeights = [((''a'', ''b''), 1)] \<rparr> (\<lambda>n. 50 \<le> n)
     (run_setup \<lparr> re_disabled = False, re_critical = False, re_mode = ''exponential'', re_horizonMs = fl 1000,
        re_shockFactor = fl 2, re_cascadeEdges = [(''a'', [''b''])], re_edgeWeights = [((''a'', ''b''), 1)] \<rparr>
        [\<lparr> bs_id = ''a'', bs_arrivalRate = 1, bs_serviceRate = 1, bs_concurrency = 1, bs_utilisation = 1,
           bs_slaThresholdMs = fl 500, bs_queueLen = 0 \<rparr>] [sconst (1, 0)] (sconst 1) (sconst 0))) =
   fst (build_circuits [(''a'', [''b''])])"
  by (subst transport_engine_unused) simp_all

section \<open>Arrival chains\<close>

text \<open>Every recovery event that leaves the service with a positive arrival rate adds a pending
  arrival of its own: an arrival handler only replaces the arrival that was popped, so from then
  on the service has one arrival chain more.\<close>

theorem recovery_adds_arrival_chain:
  "pending EventArrival (ev_ServiceID e) (fst (snd (handleRecovery False e st sched mode r h))) =
   pending EventArrival (ev_ServiceID e) sched + (if 0 < ss_ArrivalRate (fst (handleRecovery False e st sched mode r h)) then 1 else 0)"
proof -
  obtain st1 sched1 where q: "recover_step e st sched h = (st1, sched1)" by fastforce
  then have "pending EventArrival i sched1 = pending EventArrival i sched" for i
    using same_recover(3) [of EventArrival i e st sched h] by simp
  then show ?thesis using pending_next_arrival [of EventArrival "ev_ServiceID e" e mode st1 sched1 r]
    by (auto simp: handleRecovery_def q split: prod.splits)
qed

section \<open>The results channel\<close>

definition full_buffer_run :: "results_chan list" where
  "full_buffer_run =
    [new_chan 1, \<lparr> rc_cap = 1, rc_buf = [], rc_running = [0], rc_submitted = 1 \<rparr>,
     \<lparr> rc_cap = 1, rc_buf = [], rc_running = [1, 0], rc_submitted = 2 \<rparr>,
     \<lparr> rc_cap = 1, rc_buf = [0], rc_running = [1], rc_submitted = 2 \<rparr>,
     \<lparr> rc_cap = 1, rc_buf = [0], rc_running = [], rc_submitted = 2 \<rparr>]"

text \<open>The comment on \<open>Submit\<close> calls the channel drop-oldest, but a run that ends on a full buffer
  drops its own, newer, result: here submission 1 ends after submission 0, and only the result
  of submission 0 is left.\<close>

theorem newer_result_dropped:
  "list_all (\<lambda>i. chan_step (full_buffer_run ! i) (full_buffer_run ! Suc i)) [0, 1, 2, 3] \<and>
   rc_buf (last full_buffer_run) = [0] \<and> rc_submitted (last full_buffer_run) = 2"
proof -
  have "chan_step (new_chan 1) \<lparr> rc_cap = 1, rc_buf = [], rc_running = [0], rc_submitted = 1 \<rparr>"
    using chan_step.submit [of "new_chan 1"] by (simp add: new_chan_def)
  moreover have "chan_step \<lparr> rc_cap = 1, rc_buf = [], rc_running = [0], rc_submitted = 1 \<rparr>
     \<lparr> rc_cap = 1, rc_buf = [], rc_running = [1, 0], rc_submitted = 2 \<rparr>"
    using chan_step.submit [of "\<lparr> rc_cap = 1, rc_buf = [], rc_running = [0], rc_submitted = 1 \<rparr>"] by (simp add: numeral_2_eq_2)
  moreover have "chan_step \<lparr> rc_cap = 1, rc_buf = [], rc_running = [1, 0], rc_submitted = 2 \<rparr>
     \<lparr> rc_cap = 1, rc_buf = [0], rc_running = [1], rc_submitted = 2 \<rparr>"
    using chan_step.deliver [of 0 "\<lparr> rc_cap = 1, rc_buf = [], rc_running = [1, 0], rc_submitted = 2 \<rparr>"] by simp
  moreover have "chan_step \<lparr> rc_cap = 1, rc_buf = [0], rc_running = [1], rc_submitted = 2 \<rparr>
     \<lparr> rc_cap = 1, rc_buf = [0], rc_running = [], rc_submitted = 2 \<rparr>"
    using chan_step.deliver [of 1 "\<lparr> rc_cap = 1, rc_buf = [0], rc_running = [1], rc_submitted = 2 \<rparr>"] by simp
  ultimately show ?thesis by (simp add: full_buffer_run_def nth_Cons')
qed

section \<open>Medians\<close>

lemma length_sift_left [simp]: "length (sift_left v j) = length v"
  by (induction v j rule: sift_left.induct) auto

lemma sift_left_mset: "j < length v \<Longrightarrow> mset (sift_left v j) = mset v"
  by (induction v j rule: sift_left.induct) auto

lemma insertion_mset: "mset (sla_insertion_sort v) = mset v"
proof -
  have "list_all (\<lambda>i. i < length w) is' \<Longrightarrow> mset (fold (\<lambda>i v. sift_left v i) is' w) = mset w" for is' w
    by (induction is' arbitrary: w) (auto simp: sift_left_mset)
  then show ?thesis by (simp add: sla_insertion_sort_def list_all_iff)
qed

end
