(* ===== verification/Optimisation.thy ===== *)
theory Optimisation
  imports SimProps StabilityModel OptTypes
begin

text \<open>
  \<open>internal/optimisation\<close>: the objective score of a tick (\<open>ComputeObjective\<close>), the cost gradients, the
  trajectory planner, the short-horizon evaluator, the disturbance observer, and the engine, which
  proposes candidates to the authority (\<open>EvaluateCandidates\<close>) and can compute directives itself
  (\<open>RunControl\<close>).

  Go ranges over its maps in an order that changes from run to run; the association lists are in
  the order of the iteration, and a float sum over them is a fold in that order.  \<open>sort.Slice\<close> is an
  argument, a nil simulation result is \<open>None\<close>.  Log lines are left out.
\<close>

section \<open>Costs of a step\<close>

definition wait_cost :: "f64 \<Rightarrow> f64 \<Rightarrow> f64" where
  "wait_cost serviceRate simRho =
    (if simRho < 1 \<and> 0 < serviceRate then math_Tanh (simRho / ((1 - simRho) * serviceRate) * fl 2)
     else if 1 \<le> simRho then 1 else 0)"

definition step_risk :: "f64 \<Rightarrow> f64" where
  "step_risk simRho = 1 / (1 + math_Exp (- ((simRho - fl 0.85) / fl 0.06)))"

definition step_cost :: "f64 \<Rightarrow> f64 \<Rightarrow> f64" where
  "step_cost serviceRate simRho = fl 0.55 * wait_cost serviceRate simRho + fl 0.45 * step_risk simRho"

definition rho_correction :: "f64 \<Rightarrow> f64 \<Rightarrow> int \<Rightarrow> f64" where
  \<comment> \<open>what a scale factor takes off the utilisation at each tick of the horizon\<close>
  "rho_correction sf rho horizon =
    (if 1 < sf then rho * (1 - 1 / sf) / f64_of_int horizon
     else if sf < 1 then rho * (1 - sf) / f64_of_int horizon else 0)"

definition next_rho :: "f64 \<Rightarrow> f64 \<Rightarrow> f64 \<Rightarrow> f64 \<Rightarrow> f64" where
  "next_rho trend tick correction simRho =
    (let r = simRho + trend * tick; r = r - correction in if r < 0 then 0 else r)"

section \<open>The trajectory planner\<close>

record TrajectoryCandidate =
  tj_ScaleFactor :: f64
  tj_TrajectoryScore :: f64
  tj_FinalRho :: f64
  tj_ConvergesTo :: f64
  tj_Feasible :: bool
  tj_UncertaintyBand :: f64
  tj_ProbabilisticScore :: f64

record TrajectoryPlan =
  tp_BestScaleFactor :: f64
  tp_Candidates :: "TrajectoryCandidate list"
  tp_ObjectiveSurfaceConvex :: bool
  tp_ConvergenceAware :: bool
  tp_BestProbabilisticScore :: f64

text \<open>The steps of a candidate: the utilisation, the sum of the costs and whether it stayed feasible.\<close>

fun candidate_run :: "nat \<Rightarrow> f64 \<Rightarrow> f64 \<Rightarrow> f64 \<Rightarrow> f64 \<Rightarrow> f64 \<Rightarrow> f64 \<times> f64 \<times> bool \<Rightarrow> f64 \<times> f64 \<times> bool" where
  "candidate_run 0 trend tick correction mu threshold s = s"
| "candidate_run (Suc k) trend tick correction mu threshold (simRho, costSum, feasible) =
    (let r = next_rho trend tick correction simRho
     in candidate_run k trend tick correction mu threshold
          (r, costSum + step_cost mu r, if threshold \<le> r then False else feasible))"

definition evaluateCandidate ::
  "f64 \<Rightarrow> f64 \<Rightarrow> f64 \<Rightarrow> f64 \<Rightarrow> f64 \<Rightarrow> f64 \<Rightarrow> int \<Rightarrow> f64 \<Rightarrow> TrajectoryCandidate" where
  "evaluateCandidate sf rho trend mu setpoint threshold horizon tick =
    (let (simRho, costSum, feasible) = candidate_run (nat horizon) trend tick (rho_correction sf rho horizon) mu threshold (rho, 0, True);
         c = rho / math_Max sf (fl 0.5);
         c = (if fl 0.000001 < trend then c + trend * f64_of_int horizon * tick * fl 0.5 else c)
     in \<lparr> tj_ScaleFactor = sf, tj_TrajectoryScore = math_Min (costSum / f64_of_int horizon) 1, tj_FinalRho = simRho,
          tj_ConvergesTo = math_Max 0 c, tj_Feasible = feasible, tj_UncertaintyBand = 0, tj_ProbabilisticScore = 0 \<rparr>)"

definition nCandidates :: nat where
  "nCandidates = 7"

definition candidate_scale :: "nat \<Rightarrow> f64" where
  "candidate_scale i = fl 0.5 + f64_of_int (int i) * fl (3 - 0.5) / f64_of_int (int (nCandidates - 1))"

definition burst_penalty :: "ServiceModelBundle \<Rightarrow> f64" where
  "burst_penalty b =
    math_Min (fl 0.15 * sm_BurstAmplification (mb_Stochastic b) * math_Max (sm_ArrivalCoV (mb_Stochastic b)) 0) (fl 0.50)"

definition plan_candidate :: "ServiceModelBundle \<Rightarrow> f64 \<Rightarrow> int \<Rightarrow> f64 \<Rightarrow> f64 \<Rightarrow> nat \<Rightarrow> TrajectoryCandidate" where
  "plan_candidate b setpoint horizon tick threshold i =
    (let q = mb_Queue b;
         c = evaluateCandidate (candidate_scale i) (qm_Utilisation q) (qm_UtilisationTrend q) (qm_ServiceRate q) setpoint threshold horizon tick
     in c\<lparr> tj_UncertaintyBand := tj_TrajectoryScore c * math_Min (sm_ArrivalCoV (mb_Stochastic b) * fl 0.5) (fl 0.30),
           tj_ProbabilisticScore := tj_TrajectoryScore c * (1 + burst_penalty b) \<rparr>)"

definition converges :: "f64 \<Rightarrow> TrajectoryCandidate \<Rightarrow> bool" where
  "converges setpoint c \<longleftrightarrow> tj_ConvergesTo c \<le> setpoint + fl 0.03"

definition effective_cost :: "f64 \<Rightarrow> TrajectoryCandidate \<Rightarrow> f64" where
  "effective_cost setpoint c =
    (if converges setpoint c then tj_ProbabilisticScore c * fl 0.85 else tj_ProbabilisticScore c)"

definition cheapest_step ::
  "(TrajectoryCandidate \<Rightarrow> bool) \<Rightarrow> (TrajectoryCandidate \<Rightarrow> f64) \<Rightarrow> TrajectoryCandidate \<Rightarrow>
    TrajectoryCandidate option \<times> f64 \<Rightarrow> TrajectoryCandidate option \<times> f64" where
  \<comment> \<open>both selection loops; the code keeps the index of the best one\<close>
  "cheapest_step ok cost c acc = (if ok c \<and> cost c < snd acc then (Some c, cost c) else acc)"

definition best_feasible :: "f64 \<Rightarrow> TrajectoryCandidate list \<Rightarrow> TrajectoryCandidate option" where
  "best_feasible setpoint cs = fst (fold (cheapest_step tj_Feasible (effective_cost setpoint)) cs (None, MaxFloat64))"

definition lowest_rho :: "TrajectoryCandidate list \<Rightarrow> TrajectoryCandidate option" where
  "lowest_rho cs = fst (fold (cheapest_step (\<lambda>_. True) tj_FinalRho) cs (None, MaxFloat64))"

definition PlanTrajectory :: "ServiceModelBundle \<Rightarrow> f64 \<Rightarrow> int \<Rightarrow> f64 \<Rightarrow> f64 \<Rightarrow> TrajectoryPlan" where
  "PlanTrajectory b setpoint horizon tick threshold =
    (let cs = map (plan_candidate b setpoint horizon tick threshold) [0..<nCandidates];
         feasible = best_feasible setpoint cs;
         best = (case feasible of Some c \<Rightarrow> Some c | None \<Rightarrow> lowest_rho cs);
         midCost = tj_TrajectoryScore (cs ! (nCandidates div 2));
         avgExtreme = (tj_TrajectoryScore (cs ! 0) + tj_TrajectoryScore (cs ! (nCandidates - 1))) / fl 2
     in \<lparr> tp_BestScaleFactor = (case best of Some c \<Rightarrow> tj_ScaleFactor c | None \<Rightarrow> 1), tp_Candidates = cs,
          tp_ObjectiveSurfaceConvex = (midCost < avgExtreme),
          tp_ConvergenceAware = (case feasible of Some c \<Rightarrow> converges setpoint c | None \<Rightarrow> False),
          tp_BestProbabilisticScore = (case best of Some c \<Rightarrow> tj_ProbabilisticScore c | None \<Rightarrow> 0) \<rparr>)"

section \<open>The short-horizon evaluator\<close>

record MPCHorizonEval =
  mh_horizon :: int
  mh_tickSec :: f64
  mh_setpoint :: f64
  mh_maxOvershoot :: f64

definition NewMPCHorizonEval :: "int \<Rightarrow> f64 \<Rightarrow> f64 \<Rightarrow> MPCHorizonEval" where
  "NewMPCHorizonEval horizon tick setpoint =
    \<lparr> mh_horizon = horizon, mh_tickSec = tick, mh_setpoint = setpoint, mh_maxOvershoot = fl 0.05 \<rparr>"

record MPCResult =
  mr_AdjustedScaleFactor :: f64
  mr_PredictedRhoAtHorizon :: f64
  mr_OvershootRisk :: bool
  mr_UnderactuationRisk :: bool
  mr_TrajectoryCostAvg :: f64
  mr_MaxTrajectoryCost :: f64

record horizon_state =
  hz_rho :: f64
  hz_min :: f64
  hz_overshoot :: bool
  hz_sum :: f64
  hz_max :: f64

definition horizon_step :: "MPCHorizonEval \<Rightarrow> f64 \<Rightarrow> f64 \<Rightarrow> f64 \<Rightarrow> horizon_state \<Rightarrow> horizon_state" where
  "horizon_step m trend correction mu h =
    (let r = next_rho trend (mh_tickSec m) correction (hz_rho h); c = step_cost mu r
     in \<lparr> hz_rho = r, hz_min = (if r < hz_min h then r else hz_min h),
          hz_overshoot = (if r < mh_setpoint m - mh_maxOvershoot m then True else hz_overshoot h),
          hz_sum = hz_sum h + c, hz_max = (if hz_max h < c then c else hz_max h) \<rparr>)"

definition adjusted_scale :: "MPCHorizonEval \<Rightarrow> f64 \<Rightarrow> f64 \<Rightarrow> f64 \<Rightarrow> horizon_state \<Rightarrow> f64" where
  "adjusted_scale m rho scale costAvg h =
    (if hz_overshoot h \<and> 1 < scale
     then let mag = math_Max (mh_setpoint m - mh_maxOvershoot m - hz_min h) 0; damp = 1 - mag * fl 0.3
          in 1 + (scale - 1) * math_Max damp (fl 0.3)
     else if mh_setpoint m + mh_maxOvershoot m < hz_rho h \<and> 1 < scale \<and> rho < fl 0.85
     then scale * (1 + math_Min ((hz_rho h - mh_setpoint m) * fl 0.3 + costAvg * fl 0.15) (fl 0.20))
     else scale)"

definition Evaluate_horizon :: "MPCHorizonEval \<Rightarrow> ServiceModelBundle \<Rightarrow> f64 \<Rightarrow> MPCResult" where
  \<comment> \<open>the argument \<open>pidOutput\<close> is not used\<close>
  "Evaluate_horizon m b scale =
    (let q = mb_Queue b; rho = qm_Utilisation q;
         h = (horizon_step m (qm_UtilisationTrend q) (rho_correction scale rho (mh_horizon m)) (qm_ServiceRate q) ^^ nat (mh_horizon m))
               \<lparr> hz_rho = rho, hz_min = rho, hz_overshoot = False, hz_sum = 0, hz_max = 0 \<rparr>;
         costAvg = hz_sum h / f64_of_int (mh_horizon m)
     in \<lparr> mr_AdjustedScaleFactor = math_Max (fl 0.5) (math_Min (adjusted_scale m rho scale costAvg h) (fl 3)),
          mr_PredictedRhoAtHorizon = hz_rho h, mr_OvershootRisk = hz_overshoot h,
          mr_UnderactuationRisk = (mh_setpoint m + mh_maxOvershoot m < hz_rho h),
          mr_TrajectoryCostAvg = costAvg, mr_MaxTrajectoryCost = hz_max h \<rparr>)"

section \<open>The observer\<close>

record ObserverSignal =
  ob_QueueVelocity :: f64
  ob_UtilisationGrad :: f64
  ob_DisturbanceEnergy :: f64
  ob_StabilityScore :: f64
  ob_StabilityEnvelope :: f64
  ob_DisturbanceDecay :: f64
  ob_RecoveryActivation :: f64

record observerState =
  ov_queueHistory :: "f64 list"
  ov_historyIdx :: nat
  ov_historyCount :: nat
  ov_lastArrivalRate :: f64
  ov_lastServiceRate :: f64
  ov_utilGradient :: f64
  ov_filteredQueueV :: f64

type_synonym observer = "(string, observerState) gomap"

definition new_observer_state :: "ServiceModelBundle \<Rightarrow> observerState" where
  "new_observer_state b =
    \<lparr> ov_queueHistory = [0, 0, 0], ov_historyIdx = 0, ov_historyCount = 0, ov_lastArrivalRate = qm_ArrivalRate (mb_Queue b),
      ov_lastServiceRate = qm_ServiceRate (mb_Queue b), ov_utilGradient = 0, ov_filteredQueueV = 0 \<rparr>"

definition observe_state :: "ServiceModelBundle \<Rightarrow> observerState \<Rightarrow> observerState" where
  \<comment> \<open>the queue velocity over the window and the utilisation gradient\<close>
  "observe_state b st =
    (let q = mb_Queue b; hist = (ov_queueHistory st)[ov_historyIdx st := qm_MeanQueueLen q];
         idx = (ov_historyIdx st + 1) mod 3; cnt = (if ov_historyCount st < 3 then ov_historyCount st + 1 else ov_historyCount st);
         raw = (if cnt = 3 then (qm_MeanQueueLen q - hist ! idx) / fl 2 else 0);
         curr = qm_ArrivalRate q - qm_ServiceRate q; prev = ov_lastArrivalRate st - ov_lastServiceRate st
     in \<lparr> ov_queueHistory = hist, ov_historyIdx = idx, ov_historyCount = cnt, ov_lastArrivalRate = qm_ArrivalRate q,
          ov_lastServiceRate = qm_ServiceRate q, ov_utilGradient = fl 0.8 * ov_utilGradient st + fl 0.2 * (curr - prev),
          ov_filteredQueueV = fl 0.6 * raw + fl 0.4 * ov_filteredQueueV st \<rparr>)"

definition disturbance_energy :: "ServiceModelBundle \<Rightarrow> f64" where
  "disturbance_energy b =
    (let q = mb_Queue b; e = sg_EWMAVariance (mb_Signal b) * fl 1.5 + qm_AdjustedWaitMs q * fl 0.1 + qm_MeanQueueLen q * fl 0.5
     in if e < 0 then 0 else e)"

definition stability_score :: "ServiceModelBundle \<Rightarrow> f64 \<Rightarrow> f64" where
  "stability_score b grad =
    (let v = sg_EWMAVariance (mb_Signal b) / math_Max (qm_Concurrency (mb_Queue b)) 1;
         s = math_Max 0 (1 - v * fl 0.1 - math_Max 0 (grad * fl 0.5))
     in if 1 < s then 1 else s)"

definition observe_service :: "(string \<times> ServiceModelBundle) \<Rightarrow> observer \<Rightarrow> observer" where
  \<comment> \<open>the first pass\<close>
  "observe_service x o' =
    (let st = (case map_of o' (fst x) of Some st \<Rightarrow> st | None \<Rightarrow> new_observer_state (snd x))
     in AList.update (fst x) (observe_state (snd x) st) o')"

definition propagated_energy :: "Edge list \<Rightarrow> (string, f64) gomap \<Rightarrow> string \<Rightarrow> f64" where
  "propagated_energy edges energy sid =
    fold (\<lambda>e s. if eg_Target e = sid
                then case map_of energy (eg_Source e) of None \<Rightarrow> s | Some u \<Rightarrow> s + u * (eg_Weight e * fl 0.3)
                else s) edges 0"

definition recovery_decay :: "SimResult.SimulationResult option \<Rightarrow> f64 \<Rightarrow> f64 \<Rightarrow> f64" where
  "recovery_decay sim grad velocity =
    (let d = (case sim of None \<Rightarrow> 0
              | Some r \<Rightarrow> if 0 < sr_RecoveryConvergenceMs r then math_Max 0 (1 - sr_RecoveryConvergenceMs r / fl 5000) else 0)
     in if grad < fl (- 0.01) \<and> velocity \<le> 0 then d + fl 0.5 else d)"

definition observer_signal ::
  "(string, ServiceModelBundle) gomap \<Rightarrow> SimResult.SimulationResult option \<Rightarrow> Edge list \<Rightarrow> observer \<Rightarrow>
    string \<times> ServiceModelBundle \<Rightarrow> string \<times> ObserverSignal" where
  \<comment> \<open>the second pass\<close>
  "observer_signal bundles sim edges o' x =
    (let st = the (map_of o' (fst x)); energy = map (\<lambda>(i, b). (i, disturbance_energy b)) bundles;
         v = ov_filteredQueueV st; g = ov_utilGradient st; s = stability_score (snd x) g; d = recovery_decay sim g v
     in (fst x,
         \<lparr> ob_QueueVelocity = v, ob_UtilisationGrad = g,
           ob_DisturbanceEnergy = disturbance_energy (snd x) + propagated_energy edges energy (fst x),
           ob_StabilityScore = s, ob_StabilityEnvelope = s, ob_DisturbanceDecay = d,
           ob_RecoveryActivation = (if fl 0.2 < d \<and> fl 0.3 < s \<and> v \<le> fl 0.05 then math_Min (d * s) 1 else 0) \<rparr>))"

definition Observe ::
  "(string, ServiceModelBundle) gomap \<Rightarrow> SimResult.SimulationResult option \<Rightarrow> GraphSnapshot \<Rightarrow> observer \<Rightarrow>
    (string, ObserverSignal) gomap \<times> observer" where
  "Observe bundles sim topo o' =
    (let o' = fold observe_service bundles o'
     in (map (observer_signal bundles sim (gs_Edges topo) o') bundles,
         filter (\<lambda>(sid, st). sid \<in> set (map fst bundles)) o'))"

section \<open>Cost gradients\<close>

record ServiceCostContribution =
  ct_ServiceID :: string
  ct_LatencyCost :: f64
  ct_StabilityCost :: f64
  ct_CascadeCost :: f64
  ct_TotalCost :: f64
  ct_CostGradient :: f64

definition finite_wait :: "ServiceModelBundle \<Rightarrow> f64" where
  "finite_wait b =
    (let p99 = qm_AdjustedWaitMs (mb_Queue b) in if math_IsInf p99 \<or> math_IsNaN p99 then fl 100000 else p99)"

definition arrival_weight :: "ServiceModelBundle \<Rightarrow> f64" where
  "arrival_weight b = math_Max (qm_ArrivalRate (mb_Queue b)) (fl 0.01)"

definition wait_slope :: "ServiceModelBundle \<Rightarrow> f64" where
  "wait_slope b =
    (let rho = qm_Utilisation (mb_Queue b); mu = qm_ServiceRate (mb_Queue b)
     in if rho < 1 \<and> 0 < mu
        then let d = (1 - rho) * (1 - rho) in if fl 0.000001 < d then 1 / mu / d * fl 1000 else 0
        else if 1 \<le> rho then fl 1000000 else 0)"

definition cost_contribution :: "f64 \<Rightarrow> f64 \<Rightarrow> string \<times> ServiceModelBundle \<Rightarrow> string \<times> ServiceCostContribution" where
  "cost_contribution refLatencyMs totalArrival x =
    (let b = snd x; st = mb_Stability b; w = arrival_weight b / totalArrival;
         latency = fl 0.40 * math_Min (finite_wait b / refLatencyMs) 1 * w;
         stab = fl 0.20 * math_Max (1 - sa_StabilityMargin st) 0 * w;
         cascade = fl 0.30 * sa_CascadeAmplificationScore st * w;
         osc = fl 0.10 * sa_OscillationRisk st * w;
         dLat = fl 0.40 * math_Min (wait_slope b / refLatencyMs) (fl 10) * w;
         dRisk = sa_CollapseRisk st * (1 - sa_CollapseRisk st) / fl 0.04;
         dStab = fl 0.20 * dRisk * w
     in (fst x,
         \<lparr> ct_ServiceID = fst x, ct_LatencyCost = latency, ct_StabilityCost = stab, ct_CascadeCost = cascade,
           ct_TotalCost = latency + stab + cascade + osc, ct_CostGradient = math_Min (dLat + dStab) (fl 10) \<rparr>))"

definition ComputeCostGradients ::
  "(string, ServiceModelBundle) gomap \<Rightarrow> f64 \<Rightarrow> (string, ServiceCostContribution) gomap" where
  \<comment> \<open>the topology argument is not used\<close>
  "ComputeCostGradients bundles refLatencyMs =
    (let total = fold (\<lambda>(sid, b) s. s + arrival_weight b) bundles 0; total = (if total \<le> 0 then 1 else total)
     in map (cost_contribution refLatencyMs total) bundles)"

section \<open>The engine\<close>

record OptConfig =
  \<comment> \<open>the part of the process configuration that the engine reads\<close>
  oe_TickInterval :: duration
  oe_UtilisationSetpoint :: f64
  oe_CollapseThreshold :: f64
  oe_PredictiveHorizonTicks :: int

record OptEngine =
  oe_cfg :: OptConfig
  oe_lastScale :: "(string, f64) gomap"
  oe_stictionCount :: "(string, int) gomap"
  oe_mpc :: MPCHorizonEval
  oe_observer :: observer
  oe_pressureLevel :: int

definition horizon_ticks :: "OptConfig \<Rightarrow> int" where
  "horizon_ticks cfg = (if oe_PredictiveHorizonTicks cfg \<le> 0 then 5 else oe_PredictiveHorizonTicks cfg)"

definition NewEngine_opt :: "OptConfig \<Rightarrow> OptEngine" where
  "NewEngine_opt cfg =
    \<lparr> oe_cfg = cfg, oe_lastScale = [], oe_stictionCount = [],
      oe_mpc = NewMPCHorizonEval (horizon_ticks cfg) (duration_Seconds (oe_TickInterval cfg)) (oe_UtilisationSetpoint cfg),
      oe_observer = [], oe_pressureLevel = 0 \<rparr>"

definition SetPressureLevel :: "int \<Rightarrow> OptEngine \<Rightarrow> OptEngine" where
  "SetPressureLevel level e = e\<lparr> oe_pressureLevel := (if level < 0 then 0 else if 3 < level then 3 else level) \<rparr>"

definition engine_plan :: "OptConfig \<Rightarrow> ServiceModelBundle \<Rightarrow> TrajectoryPlan" where
  "engine_plan cfg b =
    PlanTrajectory b (oe_UtilisationSetpoint cfg) (horizon_ticks cfg) (duration_Seconds (oe_TickInterval cfg)) (oe_CollapseThreshold cfg)"

definition gradient_of :: "(string, ServiceCostContribution) gomap \<Rightarrow> string \<Rightarrow> f64" where
  "gradient_of grads sid = (case map_of grads sid of None \<Rightarrow> 0 | Some c \<Rightarrow> ct_CostGradient c)"

definition trajectory_candidate :: "OptConfig \<Rightarrow> gotime \<Rightarrow> string \<Rightarrow> f64 \<Rightarrow> TrajectoryCandidate \<Rightarrow> ControlCandidate" where
  "trajectory_candidate cfg now sid gradient c =
    (let score = tj_ProbabilisticScore c; score = (if \<not> tj_Feasible c then score + fl 10 else score);
         score = (if 0 < gradient then score + math_Min gradient (fl 5) * fl 0.02 else score)
     in \<lparr> cc_ServiceID = sid, cc_ScaleFactor = tj_ScaleFactor c, cc_Score = score, cc_Feasible = tj_Feasible c,
          cc_Convergent = converges (oe_UtilisationSetpoint cfg) c, cc_PredictedRho = tj_FinalRho c, cc_RiskScore = tj_TrajectoryScore c,
          cc_Uncertainty = tj_UncertaintyBand c, cc_Source = ''optimisation.trajectory'', cc_ComputedAt = now \<rparr>)"

definition hold_candidate :: "OptConfig \<Rightarrow> gotime \<Rightarrow> string \<Rightarrow> ServiceModelBundle \<Rightarrow> ControlCandidate" where
  "hold_candidate cfg now sid b =
    (let rho = qm_Utilisation (mb_Queue b); sp = oe_UtilisationSetpoint cfg
     in \<lparr> cc_ServiceID = sid, cc_ScaleFactor = 1, cc_Score = math_Max 0 (rho - sp), cc_Feasible = (rho < oe_CollapseThreshold cfg),
          cc_Convergent = (\<bar>rho - sp\<bar> < fl 0.05), cc_PredictedRho = rho, cc_RiskScore = sa_CollapseRisk (mb_Stability b),
          cc_Uncertainty = sm_ArrivalCoV (mb_Stochastic b), cc_Source = ''optimisation.hold'', cc_ComputedAt = now \<rparr>)"

definition EvaluateCandidates ::
  "((ControlCandidate \<Rightarrow> ControlCandidate \<Rightarrow> bool) \<Rightarrow> ControlCandidate list \<Rightarrow> ControlCandidate list) \<Rightarrow> OptConfig \<Rightarrow>
    (string, ServiceModelBundle) gomap \<Rightarrow> (string, ServiceCostContribution) gomap \<Rightarrow> gotime \<Rightarrow> (string, ControlCandidate list) gomap" where
  "EvaluateCandidates srt cfg bundles grads now =
    map (\<lambda>(sid, b). (sid, srt (\<lambda>x y. cc_Score x < cc_Score y)
        (map (trajectory_candidate cfg now sid (gradient_of grads sid)) (tp_Candidates (engine_plan cfg b)) @ [hold_candidate cfg now sid b])))
      bundles"

definition observed_scale :: "ServiceModelBundle \<Rightarrow> ObserverSignal \<Rightarrow> f64" where
  \<comment> \<open>the scale factor before the bound on its change\<close>
  "observed_scale b obs =
    (let bare = (1 :: f64); collapse = sa_CollapseZone (mb_Stability b) = ''collapse'';
         s = (if bare < fl 0.6 then fl 0.45 + fl 0.15 * math_Exp ((bare - fl 0.6) / fl 0.15) else math_Min bare (fl 3));
         s = (if s < 1 \<and> fl 0.3 < ob_StabilityEnvelope obs
              then math_Min (s + (ob_StabilityEnvelope obs - fl 0.3) * fl 0.25) 1 else s);
         s = (if \<not> collapse \<and> 0 < ob_RecoveryActivation obs \<and> s < fl 0.9
              then s + math_Min (ob_RecoveryActivation obs * fl 0.5) (fl 0.20) else s)
     in if \<not> collapse \<and> 0 < ob_DisturbanceDecay obs then s + math_Min (ob_DisturbanceDecay obs * fl 0.1) (fl 0.1) else s)"

definition max_scale_delta :: "int \<Rightarrow> f64" where
  "max_scale_delta level = (if level = 2 then fl 0.50 else if level = 3 then fl 0.75 else fl 0.30)"

definition bound_change :: "f64 \<Rightarrow> f64 option \<Rightarrow> f64 \<Rightarrow> f64" where
  "bound_change maxDelta lst s =
    (case lst of None \<Rightarrow> s
     | Some l \<Rightarrow> let d = s - l in if maxDelta < \<bar>d\<bar> then l + math_Copysign maxDelta d else s)"

definition blend_plan :: "OptConfig \<Rightarrow> ServiceModelBundle \<Rightarrow> TrajectoryPlan \<Rightarrow> f64 \<Rightarrow> f64" where
  \<comment> \<open>the planner's share, the cap in the risky zones and the final clamp\<close>
  "blend_plan cfg b plan s =
    (let zone = sa_CollapseZone (mb_Stability b);
         s = (if zone \<noteq> ''collapse''
              then if 0 < tp_BestScaleFactor plan \<and> tp_ConvergenceAware plan then fl 0.60 * s + fl 0.40 * tp_BestScaleFactor plan
                   else if 0 < tp_BestScaleFactor plan \<and> \<not> tp_ObjectiveSurfaceConvex plan then fl 0.45 * s + fl 0.55 * tp_BestScaleFactor plan
                   else s
              else s);
         s = (if zone \<noteq> ''safe'' \<and> oe_UtilisationSetpoint cfg \<le> qm_Utilisation (mb_Queue b) then math_Min s (fl 0.95) else s)
     in math_Max (fl 0.45) (math_Min s (fl 6)))"

definition gradient_amplify :: "(string, ServiceCostContribution) gomap \<Rightarrow> string \<Rightarrow> ServiceModelBundle \<Rightarrow> f64 \<Rightarrow> f64" where
  "gradient_amplify grads sid b s =
    (if sa_CollapseZone (mb_Stability b) \<noteq> ''collapse'' \<and> fl 0.5 < gradient_of grads sid
     then math_Min (s * (1 + math_Min (gradient_of grads sid / fl 10 * fl 0.25) (fl 0.25))) (fl 3) else s)"

definition unstick :: "string \<Rightarrow> f64 \<Rightarrow> f64 \<Rightarrow> (string, int) gomap \<Rightarrow> f64 \<times> (string, int) gomap" where
  "unstick sid prev s stuck =
    (if \<bar>s - prev\<bar> < fl 0.02 \<and> s < fl 0.75
     then let n = (case map_of stuck sid of None \<Rightarrow> 0 | Some n \<Rightarrow> n) + 1
          in if 4 < n then (s + fl 0.08, AList.update sid 0 stuck) else (s, AList.update sid n stuck)
     else (s, AList.update sid 0 stuck))"

definition control_service ::
  "(string, ServiceCostContribution) gomap \<Rightarrow> (string, ObserverSignal) gomap \<Rightarrow> gotime \<Rightarrow> string \<times> ServiceModelBundle \<Rightarrow>
    OptEngine \<Rightarrow> (string \<times> ControlDirective) \<times> OptEngine" where
  "control_service grads signals now x e =
    (let sid = fst x; b = snd x; q = mb_Queue b; cfg = oe_cfg e; rho = qm_Utilisation q;
         target = rho + qm_UtilisationTrend q * f64_of_int (horizon_ticks cfg) * fl 2;
         target = math_Max 0 (math_Min target (fl 1.5));
         maxDelta = max_scale_delta (oe_pressureLevel e);
         prev = bound_change maxDelta (map_of (oe_lastScale e) sid) (observed_scale b (the (map_of signals sid)));
         m = Evaluate_horizon (oe_mpc e) b prev;
         plan = engine_plan cfg b;
         s = blend_plan cfg b plan (gradient_amplify grads sid b (mr_AdjustedScaleFactor m));
         (s, stuck) = unstick sid prev s (oe_stictionCount e)
     in ((sid,
          \<lparr> cd_ServiceID = sid, cd_ComputedAt = now, cd_ScaleFactor = s, cd_TargetUtilisation = oe_UtilisationSetpoint cfg,
            cd_Error = rho - oe_UtilisationSetpoint cfg, cd_PIDOutput = 0, cd_Active = True,
            cd_StabilityMargin = sa_StabilityMargin (mb_Stability b), cd_HysteresisState = '''', cd_ActuationBound = maxDelta,
            cd_PredictiveTarget = target, cd_MPCPredictedRho = mr_PredictedRhoAtHorizon m, cd_MPCOvershootRisk = mr_OvershootRisk m,
            cd_MPCUnderactuationRisk = mr_UnderactuationRisk m, cd_CostGradient = gradient_of grads sid,
            cd_TrajectoryCostAvg = mr_TrajectoryCostAvg m, cd_MaxTrajectoryCost = mr_MaxTrajectoryCost m,
            cd_PlannerScaleFactor = tp_BestScaleFactor plan, cd_PlannerConvergent = tp_ConvergenceAware plan,
            cd_PlannerConvex = tp_ObjectiveSurfaceConvex plan, cd_PlannerProbabilisticScore = tp_BestProbabilisticScore plan \<rparr>),
         e\<lparr> oe_lastScale := AList.update sid s (oe_lastScale e), oe_stictionCount := stuck \<rparr>))"

definition control_step ::
  "(string, ServiceCostContribution) gomap \<Rightarrow> (string, ObserverSignal) gomap \<Rightarrow> gotime \<Rightarrow> string \<times> ServiceModelBundle \<Rightarrow>
    (string, ControlDirective) gomap \<times> OptEngine \<Rightarrow> (string, ControlDirective) gomap \<times> OptEngine" where
  "control_step grads signals now x acc =
    (let (d, e) = control_service grads signals now x (snd acc) in (fst acc @ [d], e))"

definition RunControl ::
  "(string, ServiceModelBundle) gomap \<Rightarrow> (string, ServiceCostContribution) gomap \<Rightarrow> SimResult.SimulationResult option \<Rightarrow> GraphSnapshot \<Rightarrow>
    gotime \<Rightarrow> OptEngine \<Rightarrow> (string, ControlDirective) gomap \<times> OptEngine" where
  "RunControl bundles grads sim topo now e =
    (let (signals, o') = Observe bundles sim topo (oe_observer e);
         (ds, e) = fold (control_step grads signals now) bundles ([], e\<lparr> oe_observer := o' \<rparr>)
     in (ds, e\<lparr> oe_lastScale := filter (\<lambda>(sid, s). sid \<in> set (map fst bundles)) (oe_lastScale e) \<rparr>))"

section \<open>The objective\<close>

definition reference_latency :: "ServiceModelBundle list \<Rightarrow> f64" where
  "reference_latency bs =
    (let waits = filter (\<lambda>w. \<not> math_IsInf w \<and> \<not> math_IsNaN w \<and> 0 < w) (map (\<lambda>b. qm_AdjustedWaitMs (mb_Queue b)) bs);
         n = length waits
     in if 3 \<le> n
        then let idx = int_of_f64 (math_Round (f64_of_int (int n) * fl 0.90)); idx = (if int n \<le> idx then int n - 1 else idx)
             in math_Max (sla_insertion_sort waits ! nat idx * fl 1.5) (fl 200)
        else fl 500)"

definition weighted_latency :: "ServiceModelBundle list \<Rightarrow> f64" where
  "weighted_latency bs =
    (let (s, w) = fold (\<lambda>b (s, w). (s + finite_wait b * arrival_weight b, w + arrival_weight b)) bs (0, 0)
     in if 0 < w then s / w else 0)"

definition positive_inverses :: "(ServiceModelBundle \<Rightarrow> f64) \<Rightarrow> ServiceModelBundle list \<Rightarrow> f64 \<times> int" where
  "positive_inverses f bs = fold (\<lambda>b (s, n). if 0 < f b then (s + 1 / f b, n + 1) else (s, n)) bs (0, 0)"

definition harmonic_stability :: "ServiceModelBundle list \<Rightarrow> f64" where
  "harmonic_stability bs =
    (let (s, n) = positive_inverses (\<lambda>b. sa_StabilityMargin (mb_Stability b)) bs in if 0 < n then f64_of_int n / s else 0)"

definition trend_stability :: "ServiceModelBundle list \<Rightarrow> f64" where
  "trend_stability bs =
    (let (s, n) = positive_inverses (\<lambda>b. sa_TrendAdjustedMargin (mb_Stability b)) bs
     in if 0 < n then fl 0.6 * (f64_of_int n / s) + fl 0.4 * harmonic_stability bs else harmonic_stability bs)"

definition largest :: "(ServiceModelBundle \<Rightarrow> f64) \<Rightarrow> ServiceModelBundle list \<Rightarrow> f64" where
  "largest f bs = fold (\<lambda>b m. if m < f b then f b else m) bs 0"

fun trajectory_sum :: "nat \<Rightarrow> nat \<Rightarrow> ServiceModelBundle \<Rightarrow> f64 \<Rightarrow> f64" where
  \<comment> \<open>the steps from \<open>k\<close> on of the five\<close>
  "trajectory_sum 0 k b s = s"
| "trajectory_sum (Suc n) k b s =
    (let q = mb_Queue b;
         simRho = math_Max (qm_Utilisation q + qm_UtilisationTrend q * fl 2 * f64_of_int (int k + 1)) 0
     in trajectory_sum n (Suc k) b (s + step_cost (qm_ServiceRate q) simRho))"

definition trajectory_score :: "ServiceModelBundle list \<Rightarrow> f64" where
  "trajectory_score bs =
    (let (s, w) = fold (\<lambda>b (s, w). (s + trajectory_sum 5 0 b 0 / fl 5 * arrival_weight b, w + arrival_weight b)) bs (0, 0)
     in if 0 < w then s / w else 0)"

definition composite_score :: "ServiceModelBundle list \<Rightarrow> f64 \<Rightarrow> f64" where
  "composite_score bs cascade =
    (let latency = math_Min (weighted_latency bs / reference_latency bs) 1;
         instability = math_Max (1 - trend_stability bs) 0;
         accel = math_Min (largest (\<lambda>b. sa_StabilityDerivative (mb_Stability b)) bs * fl 2) (fl 0.2);
         instability = math_Min (instability + accel) 1;
         osc = fold (\<lambda>b s. s + sa_OscillationRisk (mb_Stability b)) bs 0 / f64_of_int (int (length bs))
     in fl 0.40 * latency + fl 0.30 * cascade + fl 0.20 * instability + fl 0.10 * osc)"

definition ComputeObjective :: "(string, ServiceModelBundle) gomap \<Rightarrow> GraphSnapshot \<Rightarrow> gotime \<Rightarrow> ObjectiveScore" where
  "ComputeObjective bundles topo now =
    (let bs = map snd bundles; cascade = cr_CascadeRisk (gs_CriticalPath topo)
     in if bundles = []
        then \<lparr> os_ComputedAt = now, os_PredictedP99LatencyMs = 0, os_CascadeFailureProbability = 0, os_WeightedStabilityMargin = 0,
               os_MaxCollapseRisk = 0, os_OscillationRisk = 0, os_CompositeScore = 0, os_LatencyWeight = 0, os_UtilisationWeight = 0,
               os_RiskWeight = 0, os_PredictiveHorizon = 0, os_ReferenceLatencyMs = 0, os_TrendStabilityMargin = 0,
               os_RiskAcceleration = 0, os_TrajectoryScore = 0 \<rparr>
        else \<lparr> os_ComputedAt = now, os_PredictedP99LatencyMs = weighted_latency bs, os_CascadeFailureProbability = cascade,
               os_WeightedStabilityMargin = harmonic_stability bs, os_MaxCollapseRisk = largest (\<lambda>b. sa_CollapseRisk (mb_Stability b)) bs,
               os_OscillationRisk = fold (\<lambda>b s. s + sa_OscillationRisk (mb_Stability b)) bs 0 / f64_of_int (int (length bs)),
               os_CompositeScore = math_Min (composite_score bs cascade) 1, os_LatencyWeight = fl 0.40, os_UtilisationWeight = fl 0.20,
               os_RiskWeight = fl 0.30, os_PredictiveHorizon = 5, os_ReferenceLatencyMs = reference_latency bs,
               os_TrendStabilityMargin = trend_stability bs,
               os_RiskAcceleration = largest (\<lambda>b. sa_StabilityDerivative (mb_Stability b)) bs,
               os_TrajectoryScore = math_Min (trajectory_score bs) 1 \<rparr>)"
section \<open>The range of the costs\<close>

definition rated :: "f64 \<Rightarrow> bool" where
  \<comment> \<open>a service rate: absent, or a number that a division tolerates\<close>
  "rated mu \<longleftrightarrow> mu \<le> 0 \<or> fbtw (1 / 2 ^ 40) mu (2 ^ 35)"

lemma rated_bounds [simp]: "fbound (1 / 1099511627776)" "fbound 34359738368"
proof -
  have "frep (1 / 1099511627776)" using frep_pow2 [of "- 40"] by (simp add: power_int_minus)
  moreover have "(1 :: real) / 1099511627776 \<le> big" using big_ge(3) by linarith
  ultimately show "fbound (1 / 1099511627776)" by (simp add: fbound_def)
  show "fbound 34359738368" using fbound_of_int [of 34359738368] by simp
qed

lemma tanh_unit: assumes "f_nonneg z" shows "fbtw 0 (math_Tanh z) 1"
proof (cases z)
  case (Fin r)
  then have "0 \<le> tanh r" "tanh r \<le> 1" using assms by (simp_all add: less_imp_le [OF tanh_real_lt_1])
  then show ?thesis using Fin by (auto intro!: fbtw_fl)
qed (use assms in \<open>auto simp: f_nonneg_def one_f64_def\<close>)

lemma rated_wait:
  assumes "0 \<le> x" "x < 1" "fbtw (1 / 2 ^ 40) mu (2 ^ 35)"
  shows "f_nonneg (Fin x / ((1 - Fin x) * mu) * fl 2)"
proof -
  obtain y where y: "1 - Fin x = Fin y" "0 \<le> y" "y \<le> 1" "x = 0 \<longrightarrow> y = 1"
  proof (rule that [of "rnd (1 - x)"])
    have "\<bar>1 - x\<bar> \<le> big" using assms big_ge(3) by linarith
    then show "1 - Fin x = Fin (rnd (1 - x))" by (simp add: one_f64_def minus_f64_def fl_Fin)
    show "rnd (1 - x) \<le> 1" using assms by (intro rnd_le) auto
  qed (use assms in \<open>auto intro: rnd_nonneg simp: rnd_frep\<close>)
  obtain m where m: "mu = Fin m" "1 / 2 ^ 40 \<le> m" "m \<le> 2 ^ 35" using assms(3) by (rule fbtwE)
  have "fbtw 0 (Fin y * mu) (2 ^ 35)"
    by (rule fbtw_mult [OF _ assms(3), where a = 0 and b = 1]) (use y in auto)
  moreover have "fbtw (1 / 2 ^ 40) (Fin y * mu) (2 ^ 35)" if "x = 0"
    by (rule fbtw_mult [OF _ assms(3), where a = 1 and b = 1]) (use y that in auto)
  ultimately obtain e where e: "Fin y * mu = Fin e" "0 \<le> e" "x = 0 \<longrightarrow> 0 < e"
    by (force elim!: fbtwE)
  have "f_nonneg (Fin x / Fin e)"
    using e assms(1) fl_nonneg [of "x / e"] by (cases "e = 0") (simp_all add: f_nonneg_def)
  then show ?thesis unfolding y(1) e(1) by (simp add: f_nonneg_mult)
qed

lemma wait_cost_unit: assumes "f_nonneg r" "rated mu" shows "fbtw 0 (wait_cost mu r) 1"
proof (cases r)
  case (Fin x)
  then show ?thesis using assms tanh_unit [OF rated_wait [of x mu]]
    by (cases mu) (auto simp: wait_cost_def rated_def one_f64_def zero_f64_def)
qed (use assms in \<open>auto simp: wait_cost_def f_nonneg_def one_f64_def zero_f64_def\<close>)

lemma step_risk_unit: assumes "f_nonneg r" shows "fbtw 0 (step_risk r) 1"
proof -
  have f: "frep (1 / 32)" "(1 / 32 :: real) \<le> big"
    subgoal using frep_pow2 [of "- 5"] by (simp add: power_int_minus)
    subgoal using big_ge(3) by linarith
    done
  have "unit_btw (Topology.sigmoid ((r - fl 0.85) / fl 0.06))"
    by (rule sigmoid_scaled [OF f_nonneg_not_NaN [OF assms] fbtw_fl [of 0 _ 1] fbtw_fl [of "1 / 32" _ 1]])
      (use f in \<open>simp_all add: fbound_def\<close>)
  then show ?thesis by (simp add: step_risk_def Topology.sigmoid_def unit_btw_def)
qed

lemma cost_weights: "weights (fl 0.55) (fl 0.45)"
proof -
  have "fl 0.55 = Fin (4953959590107546 / 2 ^ 53)"
    by (subst fl_value [where e = "- 1" and m = 4953959590107546 and k = 1]) (simp_all add: power_int_minus)
  moreover have "fl 0.45 = Fin (8106479329266893 / 2 ^ 54)"
    by (subst fl_value [where e = "- 2" and m = 8106479329266893 and k = 2]) (simp_all add: power_int_minus)
  ultimately show ?thesis
    by (intro weights_of [where m = 4953959590107546 and j = 53 and n = 8106479329266893 and k = 54]) simp_all
qed

lemma step_cost_unit: "f_nonneg r \<Longrightarrow> rated mu \<Longrightarrow> fbtw 0 (step_cost mu r) 1"
  unfolding step_cost_def by (intro weighted_unit cost_weights wait_cost_unit step_risk_unit)

lemma next_rho_nonneg:
  assumes "f_nonneg r" "finite64 (trend * tick)" "finite64 c" shows "f_nonneg (next_rho trend tick c r)"
proof -
  obtain a b where ab: "trend * tick = Fin a" "c = Fin b" using assms by (metis finite64.elims(2))
  have "f_nonneg x" if "\<not> x < 0" "x \<noteq> NaN" for x using that by (cases x) (auto simp: f_nonneg_def zero_f64_def)
  moreover have "r + Fin a - Fin b \<noteq> NaN \<or> r + Fin a - Fin b < 0"
    using assms(1) by (cases r; cases "r + Fin a") (auto simp: f_nonneg_def minus_f64_def)
  ultimately show ?thesis by (auto simp: next_rho_def Let_def ab)
qed

section \<open>The planner\<close>

definition demand_ok :: "QueueModel \<Rightarrow> bool" where
  \<comment> \<open>what the queue model delivers, with a service rate that is absent or not absurdly small\<close>
  "demand_ok q \<longleftrightarrow> model_ok q \<and> rated (qm_ServiceRate q)"

lemma rho_correction_finite:
  assumes "fbtw 0 rho (2 ^ 35)" "fbtw (- 4) sf 4" "1 \<le> h" "h \<le> 2 ^ 53"
  shows "finite64 (rho_correction sf rho h)"
proof -
  have h: "fbtw 1 (f64_of_int h) (2 ^ 53)" using assms(3,4) by (simp add: f64_of_int_small)
  have b: "fbound (2 ^ 38)" using fbound_of_int [of "2 ^ 38"] by simp
  have "finite64 (rho * k / f64_of_int h)" if "fbtw 0 k 5" for k
  proof -
    have "fbtw 0 (rho * k) (2 ^ 38)" by (rule fbtw_mult [OF assms(1) that]) (use b in auto)
    from fbtw_divide [OF this h, where lo = 0 and hi = "2 ^ 38"] b show ?thesis by (auto intro: fbtw_finite)
  qed
  moreover have "fbtw 0 (1 - 1 / sf) 5" if "1 < sf"
  proof -
    have "fbtw 1 sf 4" using assms(2) that by (auto simp: one_f64_def elim!: fbtwE)
    then have "fbtw 0 (1 / sf) 1" by (intro fbtw_divide [where a = 1 and b = 1 and c = 1 and d = 4]) (auto simp: one_f64_def)
    then show ?thesis by (intro fbtw_diff [where a = 1 and b = 1 and c = 0 and d = 1]) (auto simp: one_f64_def)
  qed
  moreover have "fbtw 0 (1 - sf) 5" if "sf < 1"
  proof -
    have "fbtw (- 4) sf 1" using assms(2) that by (auto simp: one_f64_def elim!: fbtwE)
    then show ?thesis by (intro fbtw_diff [where a = 1 and b = 1 and c = "- 4" and d = 1]) (auto simp: one_f64_def)
  qed
  ultimately show ?thesis by (auto simp: rho_correction_def zero_f64_def)
qed

lemma candidate_run_ok:
  assumes "f_nonneg r" "finite64 (trend * tick)" "finite64 c" "rated mu" "fbtw 0 s (real k)" "k + n \<le> 2 ^ 53"
    "candidate_run n trend tick c mu threshold (r, s, f) = (r', s', f')"
  shows "f_nonneg r' \<and> fbtw 0 s' (real (k + n))"
  using assms(1,5-)
proof (induction n arbitrary: r s k f)
  case (Suc n)
  define q where "q = next_rho trend tick c r"
  have q: "f_nonneg q" unfolding q_def using Suc.prems(1) assms(2,3) by (rule next_rho_nonneg)
  have "fbtw 0 (s + step_cost mu q) (real (Suc k))"
    using Suc.prems(3) fbound_of_int [of "int k + 1"]
    by (intro fbtw_add [OF Suc.prems(2) step_cost_unit [OF q assms(4)]]) (auto simp: add.commute)
  then show ?case using Suc.IH [OF q, of _ "Suc k"] Suc.prems(3,4) by (simp add: q_def Let_def)
qed simp

definition horizon_ok :: "int \<Rightarrow> f64 \<Rightarrow> bool" where
  "horizon_ok h tick \<longleftrightarrow> 1 \<le> h \<and> h \<le> 2 ^ 52 \<and> fbtw 0 tick (2 ^ 40)"

definition burst_ok :: "StochasticModel \<Rightarrow> bool" where
  "burst_ok s \<longleftrightarrow> fbtw 0 (sm_ArrivalCoV s) (2 ^ 100) \<and> fbtw 0 (sm_BurstAmplification s) (2 ^ 200)"

definition plan_input :: "ServiceModelBundle \<Rightarrow> bool" where
  "plan_input b \<longleftrightarrow> demand_ok (mb_Queue b) \<and> burst_ok (mb_Stochastic b)"

lemma drift_finite: "model_ok q \<Longrightarrow> horizon_ok h tick \<Longrightarrow> finite64 (qm_UtilisationTrend q * tick)"
proof -
  assume a: "model_ok q" "horizon_ok h tick"
  obtain x where x: "qm_UtilisationTrend q = Fin x" "\<bar>x\<bar> \<le> 1 / 2" using a(1) by (auto simp: model_ok_def elim!: fbtwE)
  obtain y where y: "tick = Fin y" "\<bar>y\<bar> \<le> 2 ^ 40" using a(2) by (auto simp: horizon_ok_def elim!: fbtwE)
  have "\<bar>x * y\<bar> \<le> 1 / 2 * 2 ^ 40" unfolding abs_mult using x(2) y(2) by (intro mult_mono) auto
  then show ?thesis by (simp add: x(1) y(1) fl_finite)
qed

lemma candidate_score:
  fixes sf :: f64 and q :: QueueModel and setpoint threshold tick :: f64 and h :: int
  defines "c \<equiv> evaluateCandidate sf (qm_Utilisation q) (qm_UtilisationTrend q) (qm_ServiceRate q) setpoint threshold h tick"
  assumes "demand_ok q" "horizon_ok h tick" "fbtw (- 4) sf 4"
  shows "tj_ScaleFactor c = sf" "fbtw 0 (tj_TrajectoryScore c) 1" "f_nonneg (tj_FinalRho c)"
proof -
  define k where "k = rho_correction sf (qm_Utilisation q) h"
  have m: "model_ok q" and r: "rated (qm_ServiceRate q)" using assms(2) by (auto simp: demand_ok_def)
  have u: "fbtw 0 (qm_Utilisation q) (2 ^ 35)" using m by (simp add: model_ok_def)
  have h: "1 \<le> h" "h \<le> 2 ^ 53" using assms(3) by (auto simp: horizon_ok_def)
  have k: "finite64 k" unfolding k_def by (rule rho_correction_finite [OF u assms(4) h])
  obtain r' s' f' where run: "candidate_run (nat h) (qm_UtilisationTrend q) tick k (qm_ServiceRate q) threshold
      (qm_Utilisation q, 0, True) = (r', s', f')" by (metis prod_cases3)
  have *: "f_nonneg r' \<and> fbtw 0 s' (real (0 + nat h))"
    by (rule candidate_run_ok [OF fbtw_nonneg [OF u] drift_finite [OF m assms(3)] k r _ _ run])
      (use h in \<open>auto simp: zero_f64_def\<close>)
  then have "fbtw 0 s' (of_int h)" using h by simp
  then have "fbtw 0 (s' / f64_of_int h) 1"
    by (rule fbtw_divide [where c = "of_int h" and d = "of_int h"]) (use h in \<open>auto simp: f64_of_int_small\<close>)
  from math_Min_btw [OF this, of 1 1 1 0 1] have "fbtw 0 (math_Min (s' / f64_of_int h) 1) 1" by (simp add: one_f64_def)
  then show "fbtw 0 (tj_TrajectoryScore c) 1" "f_nonneg (tj_FinalRho c)" "tj_ScaleFactor c = sf"
    using * by (simp_all add: c_def evaluateCandidate_def run [unfolded k_def] Let_def)
qed

lemma fbound_five_halves [simp]: "fbound (5 / 2)"
  using big_ge(3) numeral_le_big [of "num.Bit1 (num.Bit1 num.One)"] by (simp add: fbound_def)

lemma candidate_scale_btw: assumes "i < nCandidates" shows "fbtw (1 / 2) (candidate_scale i) 3"
proof -
  have i: "f64_of_int (int i) = Fin (real i)" "i \<le> 6" using assms by (auto simp: nCandidates_def f64_of_int_small)
  have "fbtw 0 (f64_of_int (int i) * fl (3 - 0.5)) 15"
    unfolding i(1) using i(2) by (intro fbtw_mult [where a = 0 and b = 6 and c = 0 and d = "5 / 2"]) (auto intro!: fbtw_fl)
  then have "fbtw 0 (f64_of_int (int i) * fl (3 - 0.5) / f64_of_int (int (nCandidates - 1))) (5 / 2)"
    by (rule fbtw_divide [where c = 6 and d = 6]) (auto simp: nCandidates_def)
  from fbtw_add [OF fbtw_fl [of "1 / 2" "0.5" "1 / 2"] this, where lo = "1 / 2" and hi = 3]
  show ?thesis by (auto simp: candidate_scale_def)
qed

lemma min_half: "f_nonneg x \<Longrightarrow> fbtw 0 (math_Min x (Fin (1 / 2))) (1 / 2)"
  by (cases x) (auto simp: math_Min_def f_nonneg_def)

lemma burst_penalty_btw: assumes "burst_ok (mb_Stochastic b)" shows "fbtw 0 (burst_penalty b) (1 / 2)"
proof -
  let ?s = "mb_Stochastic b"
  obtain a c where s: "sm_BurstAmplification ?s = Fin a" "0 \<le> a" "a \<le> 2 ^ 200" "sm_ArrivalCoV ?s = Fin c" "0 \<le> c"
    using assms by (auto simp: burst_ok_def elim!: fbtwE)
  have "fbtw 0 (fl 0.15 * Fin a) big"
  proof (rule fbtw_mult [where a = 0 and b = 1 and c = 0 and d = "2 ^ 200"])
    show "1 * 2 ^ 200 \<le> big" unfolding big_def mult_1 by (rule power_increasing) auto
  qed (use s in \<open>auto intro!: fbtw_fl\<close>)
  then obtain p where p: "fl 0.15 * Fin a = Fin p" "0 \<le> p" by (rule fbtwE)
  have "f_nonneg (fl 0.15 * Fin a * Fin c)" unfolding p(1) using p(2) s(5) by (simp add: fl_nonneg)
  moreover have "fl 0.50 = Fin (1 / 2)" by (simp add: fl_finite rnd_frep)
  moreover have "math_Max (Fin c) 0 = Fin c" using s(5) by (simp add: zero_f64_def)
  ultimately show ?thesis by (simp only: burst_penalty_def s(1,4) min_half)
qed

lemma plan_candidate_ok:
  fixes b :: ServiceModelBundle and setpoint tick threshold :: f64 and h :: int and i :: nat
  defines "c \<equiv> plan_candidate b setpoint h tick threshold i"
  assumes "plan_input b" "horizon_ok h tick" "i < nCandidates"
  shows "tj_ScaleFactor c = candidate_scale i" "fbtw 0 (tj_TrajectoryScore c) 1"
    "fbtw 0 (tj_ProbabilisticScore c) (3 / 2)" "fbtw 0 (effective_cost setpoint c) (3 / 2)" "f_nonneg (tj_FinalRho c)"
proof -
  have sf: "fbtw (- 4) (candidate_scale i) 4" by (rule fbtw_weaken [OF candidate_scale_btw [OF assms(4)]]) auto
  have "demand_ok (mb_Queue b)" "burst_ok (mb_Stochastic b)" using assms(2) by (auto simp: plan_input_def)
  note s = candidate_score [OF this(1) assms(3) sf, of setpoint threshold] and p = burst_penalty_btw [OF this(2)]
  show "tj_ScaleFactor c = candidate_scale i" and sc: "fbtw 0 (tj_TrajectoryScore c) 1" and "f_nonneg (tj_FinalRho c)"
    using s by (simp_all add: c_def plan_candidate_def Let_def)
  have "(3 / 2 :: real) \<le> big" using numeral_le_big [of "num.Bit1 num.One"] by simp
  then have f: "fbound (3 / 2)" by (simp add: fbound_def)
  have "fbtw 1 (1 + burst_penalty b) (3 / 2)"
    by (rule fbtw_add [OF _ p, where a = 1 and b = 1]) (use f in \<open>auto simp: one_f64_def\<close>)
  from fbtw_mult [OF s(2) this, where lo = 0 and hi = "3 / 2"] f
  show ps: "fbtw 0 (tj_ProbabilisticScore c) (3 / 2)" by (simp add: c_def plan_candidate_def Let_def)
  from fbtw_mult [OF ps fbtw_fl [of 0 "0.85" 1], where lo = 0 and hi = "3 / 2"] f
  show "fbtw 0 (effective_cost setpoint c) (3 / 2)" using ps by (auto simp: effective_cost_def)
qed

text \<open>A selection loop ends with the cheapest of the admitted candidates, or with what it started from.\<close>

lemma cheapest_fold:
  assumes "fold (cheapest_step ok cost) cs (b0, m0) = (b, m)" "\<forall>c \<in> set cs. ok c \<longrightarrow> cost c \<noteq> NaN" "m0 \<noteq> NaN"
  shows "m \<noteq> NaN \<and> m \<le> m0 \<and> (\<forall>c \<in> set cs. ok c \<longrightarrow> m \<le> cost c) \<and>
    ((b, m) = (b0, m0) \<or> (\<exists>c \<in> set cs. ok c \<and> b = Some c \<and> m = cost c))"
  using assms
proof (induction cs arbitrary: b0 m0)
  case (Cons c cs)
  show ?case
  proof (cases "ok c \<and> cost c < m0")
    case True
    then have f: "fold (cheapest_step ok cost) cs (Some c, cost c) = (b, m)" using Cons.prems(1) by (simp add: cheapest_step_def [of ok cost c])
    have "m \<le> m0" if "m \<le> cost c" using that True le_trans64 less_imp_le64 by blast
    then show ?thesis using Cons.IH [OF f] Cons.prems(2) True by auto
  next
    case False
    then have f: "fold (cheapest_step ok cost) cs (b0, m0) = (b, m)" using Cons.prems(1) by (auto simp: cheapest_step_def [of ok cost c])
    have "m0 \<le> cost c" if "ok c" using False that not_less64 Cons.prems(2,3) by auto
    then have "m \<le> cost c" if "ok c" "m \<le> m0" using that le_trans64 by blast
    then show ?thesis using Cons.IH [OF f] Cons.prems(2,3) by auto
  qed
qed (auto simp: le_refl64)

lemma best_feasible_min:
  assumes "\<forall>c \<in> set cs. fbtw 0 (effective_cost setpoint c) (3 / 2)" "x \<in> set cs" "tj_Feasible x"
  shows "\<exists>c \<in> set cs. best_feasible setpoint cs = Some c \<and> tj_Feasible c \<and>
    (\<forall>y \<in> set cs. tj_Feasible y \<longrightarrow> effective_cost setpoint c \<le> effective_cost setpoint y)"
proof -
  obtain b m where f: "fold (cheapest_step tj_Feasible (effective_cost setpoint)) cs (None, MaxFloat64) = (b, m)" by fastforce
  note l = cheapest_fold [OF f]
  have n: "\<forall>c \<in> set cs. tj_Feasible c \<longrightarrow> effective_cost setpoint c \<noteq> NaN" using assms(1) fbtw_not_NaN by blast
  have "\<not> MaxFloat64 \<le> effective_cost setpoint x"
    using assms(1,2) by (auto simp: MaxFloat64_def elim!: fbtwE)
  then have "(b, m) \<noteq> (None, MaxFloat64)" using l [OF n] assms(2,3) by (auto simp: MaxFloat64_def)
  moreover have "best_feasible setpoint cs = b" by (simp add: best_feasible_def f)
  ultimately show ?thesis using l [OF n] by (auto simp: MaxFloat64_def)
qed

lemma plan_candidates_ok:
  assumes "plan_input b" "horizon_ok h tick" "c \<in> set (tp_Candidates (PlanTrajectory b setpoint h tick threshold))"
  shows "fbtw (1 / 2) (tj_ScaleFactor c) 3" "fbtw 0 (tj_TrajectoryScore c) 1" "fbtw 0 (tj_ProbabilisticScore c) (3 / 2)"
    "fbtw 0 (effective_cost setpoint c) (3 / 2)" "f_nonneg (tj_FinalRho c)"
proof -
  obtain i where "i < nCandidates" "c = plan_candidate b setpoint h tick threshold i"
    using assms(3) by (auto simp: PlanTrajectory_def Let_def)
  then show "fbtw (1 / 2) (tj_ScaleFactor c) 3" "fbtw 0 (tj_TrajectoryScore c) 1" "fbtw 0 (tj_ProbabilisticScore c) (3 / 2)"
    "fbtw 0 (effective_cost setpoint c) (3 / 2)" "f_nonneg (tj_FinalRho c)"
    using plan_candidate_ok [OF assms(1,2)] candidate_scale_btw by simp_all
qed

lemma best_feasible_None:
  assumes "best_feasible setpoint cs = None" "\<forall>c \<in> set cs. fbtw 0 (effective_cost setpoint c) (3 / 2)"
  shows "\<forall>c \<in> set cs. \<not> tj_Feasible c"
  using best_feasible_min [OF assms(2)] assms(1) by auto

lemma best_feasible_Some:
  assumes "best_feasible setpoint cs = Some c" "\<forall>c \<in> set cs. fbtw 0 (effective_cost setpoint c) (3 / 2)"
  shows "c \<in> set cs \<and> tj_Feasible c \<and> (\<forall>y \<in> set cs. tj_Feasible y \<longrightarrow> effective_cost setpoint c \<le> effective_cost setpoint y)"
proof -
  have "\<exists>x \<in> set cs. tj_Feasible x"
  proof (rule ccontr)
    assume "\<not> (\<exists>x \<in> set cs. tj_Feasible x)"
    then have "fold (cheapest_step tj_Feasible f) cs a = a" for f a by (induction cs) (auto simp: cheapest_step_def)
    then show False using assms(1) by (simp add: best_feasible_def)
  qed
  then show ?thesis using best_feasible_min [OF assms(2)] assms(1) by auto
qed

lemma lowest_rho_Some:
  assumes "lowest_rho cs = Some c" "\<forall>c \<in> set cs. f_nonneg (tj_FinalRho c)"
  shows "c \<in> set cs \<and> (\<forall>y \<in> set cs. tj_FinalRho c \<le> tj_FinalRho y)"
proof -
  obtain b m where f: "fold (cheapest_step (\<lambda>_. True) tj_FinalRho) cs (None, MaxFloat64) = (b, m)" by fastforce
  have "b = Some c" using assms(1) by (simp add: lowest_rho_def f)
  then show ?thesis using cheapest_fold [OF f] assms(2) f_nonneg_not_NaN by (auto simp: MaxFloat64_def)
qed

lemma planner_factor:
  assumes "plan_input b" "horizon_ok h tick"
  shows "fbtw (1 / 2) (tp_BestScaleFactor (PlanTrajectory b setpoint h tick threshold)) 3"
proof -
  define p where "p = PlanTrajectory b setpoint h tick threshold"
  note c = plan_candidates_ok [OF assms, of _ setpoint threshold, folded p_def]
  have cs: "map (plan_candidate b setpoint h tick threshold) [0..<nCandidates] = tp_Candidates p"
    by (simp add: p_def PlanTrajectory_def Let_def)
  note p = p_def [unfolded PlanTrajectory_def Let_def, unfolded cs]
  have "tp_BestScaleFactor p = 1 \<or> (\<exists>x \<in> set (tp_Candidates p). tp_BestScaleFactor p = tj_ScaleFactor x)"
  proof (cases "best_feasible setpoint (tp_Candidates p)")
    case None
    have "tp_BestScaleFactor p = (case lowest_rho (tp_Candidates p) of Some c \<Rightarrow> tj_ScaleFactor c | None \<Rightarrow> 1)" by (subst p, simp add: None)
    then show ?thesis using lowest_rho_Some [of "tp_Candidates p"] c(5) by (cases "lowest_rho (tp_Candidates p)") auto
  next
    case (Some x)
    have "tp_BestScaleFactor p = tj_ScaleFactor x" by (subst p, simp add: Some)
    then show ?thesis using best_feasible_Some [OF Some] c(4) by auto
  qed
  then show ?thesis using c(1) by (auto simp: one_f64_def p_def)
qed

text \<open>
  C16: The trajectory planner.  For the demand that the queue model delivers, the costs
  of all candidates lie in [0, 1].  When some candidate stays below the collapse threshold, the plan is
  a candidate that does so at the least cost of all that do; otherwise it is one with the lowest final
  utilisation, or 1.  The recommended factor is always between 0.5 and 3.
\<close>

lemma planner_optimal:
  assumes "plan_input b" "horizon_ok h tick"
  shows "case PlanTrajectory b setpoint h tick threshold of p \<Rightarrow>
    fbtw (1 / 2) (tp_BestScaleFactor p) 3 \<and>
    (\<forall>c \<in> set (tp_Candidates p). fbtw 0 (tj_TrajectoryScore c) 1 \<and> fbtw 0 (tj_ProbabilisticScore c) (3 / 2)) \<and>
    (if \<exists>c \<in> set (tp_Candidates p). tj_Feasible c
     then \<exists>c \<in> set (tp_Candidates p). tp_BestScaleFactor p = tj_ScaleFactor c \<and> tj_Feasible c \<and>
            tp_ConvergenceAware p = converges setpoint c \<and>
            (\<forall>y \<in> set (tp_Candidates p). tj_Feasible y \<longrightarrow> effective_cost setpoint c \<le> effective_cost setpoint y)
     else \<not> tp_ConvergenceAware p \<and> (tp_BestScaleFactor p = 1 \<or>
            (\<exists>c \<in> set (tp_Candidates p). tp_BestScaleFactor p = tj_ScaleFactor c \<and>
               (\<forall>y \<in> set (tp_Candidates p). tj_FinalRho c \<le> tj_FinalRho y))))"
proof -
  define p where "p = PlanTrajectory b setpoint h tick threshold"
  note c = plan_candidates_ok [OF assms, of _ setpoint threshold, folded p_def]
  have cs: "map (plan_candidate b setpoint h tick threshold) [0..<nCandidates] = tp_Candidates p"
    by (simp add: p_def PlanTrajectory_def Let_def)
  note p = p_def [unfolded PlanTrajectory_def Let_def, unfolded cs]
  have all: "\<forall>c \<in> set (tp_Candidates p). fbtw 0 (effective_cost setpoint c) (3 / 2)" "\<forall>c \<in> set (tp_Candidates p). f_nonneg (tj_FinalRho c)"
    using c(4,5) by blast+
  have "(if \<exists>c \<in> set (tp_Candidates p). tj_Feasible c
     then \<exists>c \<in> set (tp_Candidates p). tp_BestScaleFactor p = tj_ScaleFactor c \<and> tj_Feasible c \<and>
            tp_ConvergenceAware p = converges setpoint c \<and>
            (\<forall>y \<in> set (tp_Candidates p). tj_Feasible y \<longrightarrow> effective_cost setpoint c \<le> effective_cost setpoint y)
     else \<not> tp_ConvergenceAware p \<and> (tp_BestScaleFactor p = 1 \<or>
            (\<exists>c \<in> set (tp_Candidates p). tp_BestScaleFactor p = tj_ScaleFactor c \<and>
               (\<forall>y \<in> set (tp_Candidates p). tj_FinalRho c \<le> tj_FinalRho y))))" (is ?best)
  proof (cases "best_feasible setpoint (tp_Candidates p)")
    case None
    have "tp_BestScaleFactor p = (case lowest_rho (tp_Candidates p) of Some c \<Rightarrow> tj_ScaleFactor c | None \<Rightarrow> 1)" "\<not> tp_ConvergenceAware p"
      by (subst p, simp add: None)+
    then show ?thesis using best_feasible_None [OF None all(1)] lowest_rho_Some [OF _ all(2)]
      by (cases "lowest_rho (tp_Candidates p)") auto
  next
    case (Some c)
    have "tp_BestScaleFactor p = tj_ScaleFactor c" "tp_ConvergenceAware p = converges setpoint c" by (subst p, simp add: Some)+
    then show ?thesis using best_feasible_Some [OF Some all(1)] by auto
  qed
  then show ?thesis using c(2,3) planner_factor [OF assms, of setpoint threshold, folded p_def] unfolding p_def [symmetric] by simp
qed

text \<open>A service at a moderate load, for the witnesses.\<close>

definition moderate_bundle :: ServiceModelBundle where
  "moderate_bundle =
    \<lparr> mb_Queue = loaded_queue\<lparr> qm_ArrivalRate := Fin 2, qm_ServiceRate := Fin 4 \<rparr>,
      mb_Stochastic = \<lparr> sm_ServiceID = ''a'', sm_ComputedAt = 0, sm_ArrivalCoV = 1, sm_BurstAmplification = 1,
        sm_RiskPropagation = 0, sm_Confidence = 1 \<rparr>,
      mb_Signal = idle_signal,
      mb_Stability = \<lparr> sa_ServiceID = ''a'', sa_ComputedAt = 0, sa_StabilityMargin = Fin (1 / 8), sa_CollapseRisk = Fin (1 / 2),
        sa_OscillationRisk = 0, sa_FeedbackGain = 0, sa_IsUnstable = False, sa_PredictedCollapseMs = - 1,
        sa_CascadeAmplificationScore = 0, sa_CollapseZone = ''safe'', sa_TrendAdjustedMargin = Fin (1 / 8), sa_StabilityDerivative = 0 \<rparr> \<rparr>"

lemma moderate_input: "plan_input moderate_bundle"
  using sample_confidence_unit [of "sw_SampleCount (caller ''a'' ''b'')"]
  by (simp add: plan_input_def demand_ok_def burst_ok_def rated_def model_ok_def moderate_bundle_def loaded_queue_def
      idle_queue_def empty_model_def zero_f64_def one_f64_def)

lemma planner_optimal_witness:
  "fbtw (1 / 2) (tp_BestScaleFactor (PlanTrajectory moderate_bundle (Fin (3 / 4)) 5 (Fin 2) (Fin (7 / 8)))) 3"
  using planner_optimal [OF moderate_input, of 5 "Fin 2" "Fin (3 / 4)" "Fin (7 / 8)"]
  by (simp add: horizon_ok_def)

section \<open>The candidates of a service\<close>

definition ranks :: "((ControlCandidate \<Rightarrow> ControlCandidate \<Rightarrow> bool) \<Rightarrow> ControlCandidate list \<Rightarrow> ControlCandidate list) \<Rightarrow> bool" where
  \<comment> \<open>what \<open>sort.Slice\<close> promises for scores that compare\<close>
  "ranks srt \<longleftrightarrow>
    (\<forall>xs. (\<forall>x \<in> set xs. cc_Score x \<noteq> NaN) \<longrightarrow>
      mset (srt (\<lambda>x y. cc_Score x < cc_Score y) xs) = mset xs \<and>
      sorted_wrt (\<lambda>x y. cc_Score x \<le> cc_Score y) (srt (\<lambda>x y. cc_Score x < cc_Score y) xs))"

definition engine_cfg_ok :: "OptConfig \<Rightarrow> bool" where
  "engine_cfg_ok cfg \<longleftrightarrow> horizon_ok (horizon_ticks cfg) (duration_Seconds (oe_TickInterval cfg)) \<and> fbtw 0 (oe_UtilisationSetpoint cfg) 1"

definition planned :: "ControlCandidate \<Rightarrow> bool" where
  "planned c \<longleftrightarrow> cc_Source c = ''optimisation.trajectory''"

lemma gradient_bonus:
  assumes "0 < g" shows "fbtw 0 (math_Min g (fl 5) * fl 0.02) 1"
proof -
  have "fbtw 0 (math_Min g (fl 5)) 5" using assms by (cases g) (auto simp: math_Min_def zero_f64_def)
  moreover have "fbtw 0 (fl 0.02) (1 / 8)" by (rule fbtw_fl) auto
  ultimately show ?thesis by (rule fbtw_mult) auto
qed

lemma trajectory_candidate_score:
  assumes "fbtw 0 (tj_ProbabilisticScore c) (3 / 2)"
  shows "if tj_Feasible c then fbtw 0 (cc_Score (trajectory_candidate cfg now sid g c)) (5 / 2)
    else fbtw 10 (cc_Score (trajectory_candidate cfg now sid g c)) 13"
proof -
  have bonus: "fbtw lo (if 0 < g then s + math_Min g (fl 5) * fl 0.02 else s) (hi + 1)"
    if "fbtw lo s hi" "fbound lo" "fbound (hi + 1)" for s lo hi
    using fbtw_add [OF that(1) gradient_bonus [of g], where lo = lo and hi = "hi + 1"] that by (auto intro: fbtw_weaken)
  have "fbtw 10 (tj_ProbabilisticScore c + fl 10) 12"
    by (rule fbtw_add [OF assms, where c = 10 and d = 10]) auto
  then show ?thesis
    using bonus [OF assms] bonus [of 10 "tj_ProbabilisticScore c + fl 10" 12] by (auto simp: trajectory_candidate_def Let_def)
qed

lemma hold_score: "finite64 (qm_Utilisation (mb_Queue b)) \<Longrightarrow> finite64 (oe_UtilisationSetpoint cfg) \<Longrightarrow>
  cc_Score (hold_candidate cfg now sid b) \<noteq> NaN"
  by (cases "qm_Utilisation (mb_Queue b)"; cases "oe_UtilisationSetpoint cfg")
    (auto simp: hold_candidate_def Let_def math_Max_def minus_f64_def fl_def zero_f64_def)

text \<open>
  C15: The candidates proposed for a service.  Whatever the order in which \<open>sort.Slice\<close> leaves equal scores, a service of the
  tick gets the seven candidates of its plan and the one that holds the current scale, in the order
  of their scores; every factor is between 0.5 and 3, and no planned candidate that crosses the collapse threshold
  precedes a planned candidate that does not.
\<close>

lemma candidates_ranked:
  assumes "ranks srt" "engine_cfg_ok cfg" "(sid, b) \<in> set bundles" "plan_input b"
  shows "\<exists>cs. (sid, cs) \<in> set (EvaluateCandidates srt cfg bundles grads now) \<and> length cs = 8 \<and>
    hold_candidate cfg now sid b \<in> set cs \<and> (\<forall>c \<in> set cs. cc_ServiceID c = sid \<and> fbtw (1 / 2) (cc_ScaleFactor c) 3) \<and>
    sorted_wrt (\<lambda>x y. cc_Score x \<le> cc_Score y \<and> (planned x \<and> planned y \<and> cc_Feasible y \<longrightarrow> cc_Feasible x)) cs"
proof -
  let ?ps = "tp_Candidates (engine_plan cfg b)" and ?t = "trajectory_candidate cfg now sid (gradient_of grads sid)"
  let ?h = "hold_candidate cfg now sid b"
  define xs where "xs = map ?t ?ps @ [?h]"
  define cs where "cs = srt (\<lambda>x y. cc_Score x < cc_Score y) xs"
  have ho: "horizon_ok (horizon_ticks cfg) (duration_Seconds (oe_TickInterval cfg))" and sp: "finite64 (oe_UtilisationSetpoint cfg)"
    using assms(2) by (auto simp: engine_cfg_ok_def intro: fbtw_finite)
  note p = plan_candidates_ok [OF assms(4) ho, of _ "oe_UtilisationSetpoint cfg" "oe_CollapseThreshold cfg", folded engine_plan_def]
  have t: "cc_ServiceID (?t c) = sid \<and> fbtw (1 / 2) (cc_ScaleFactor (?t c)) 3 \<and> planned (?t c) \<and> cc_Feasible (?t c) = tj_Feasible c"
    if "c \<in> set ?ps" for c using p(1) [OF that] by (simp add: trajectory_candidate_def planned_def Let_def)
  have s: "if tj_Feasible c then fbtw 0 (cc_Score (?t c)) (5 / 2) else fbtw 10 (cc_Score (?t c)) 13" if "c \<in> set ?ps" for c
    by (rule trajectory_candidate_score [OF p(3) [OF that]])
  have h: "cc_ServiceID ?h = sid" "cc_ScaleFactor ?h = 1" "\<not> planned ?h" by (simp_all add: hold_candidate_def planned_def Let_def)
  have "finite64 (qm_Utilisation (mb_Queue b))" using assms(4) by (auto simp: plan_input_def demand_ok_def model_ok_def intro: fbtw_finite)
  moreover have "cc_Score (?t c) \<noteq> NaN" if "c \<in> set ?ps" for c using s [OF that] by (auto dest: fbtw_not_NaN split: if_splits)
  ultimately have n: "\<forall>x \<in> set xs. cc_Score x \<noteq> NaN" using hold_score [OF _ sp] by (auto simp: xs_def)
  then have m: "mset cs = mset xs" and srt: "sorted_wrt (\<lambda>x y. cc_Score x \<le> cc_Score y) cs"
    using assms(1) by (auto simp: ranks_def cs_def)
  have len: "length ?ps = 7" by (simp add: engine_plan_def PlanTrajectory_def Let_def nCandidates_def)
  have order: "cc_Feasible x" if xy: "x \<in> set xs" "y \<in> set xs" "cc_Score x \<le> cc_Score y" "planned x" "planned y" "cc_Feasible y" for x y
  proof -
    obtain c d where "c \<in> set ?ps" "x = ?t c" "d \<in> set ?ps" "y = ?t d" using xy h(3) by (auto simp: xs_def)
    then show ?thesis using s [of c] s [of d] t [of c] t [of d] xy by (auto elim!: fbtwE split: if_splits)
  qed
  have "sorted_wrt (\<lambda>x y. cc_Score x \<le> cc_Score y \<and> (planned x \<and> planned y \<and> cc_Feasible y \<longrightarrow> cc_Feasible x)) cs"
    using srt by (rule sorted_wrt_mono_rel [rotated]) (use order mset_eq_setD [OF m] in auto)
  moreover have "length cs = 8" using mset_eq_length [OF m] len by (simp add: xs_def)
  moreover have "(sid, cs) \<in> set (EvaluateCandidates srt cfg bundles grads now)"
    using assms(3) by (force simp: EvaluateCandidates_def cs_def xs_def)
  ultimately show ?thesis using t h mset_eq_setD [OF m] by (intro exI [of _ cs]) (auto simp: xs_def one_f64_def)
qed

text \<open>An insertion sort ranks.\<close>

fun insert_by :: "('a \<Rightarrow> 'a \<Rightarrow> bool) \<Rightarrow> 'a \<Rightarrow> 'a list \<Rightarrow> 'a list" where
  "insert_by lt x [] = [x]"
| "insert_by lt x (y # ys) = (if lt y x then y # insert_by lt x ys else x # y # ys)"

definition sort_with :: "('a \<Rightarrow> 'a \<Rightarrow> bool) \<Rightarrow> 'a list \<Rightarrow> 'a list" where
  "sort_with lt xs = fold (insert_by lt) xs []"

lemma insert_by_ranked:
  "cc_Score x \<noteq> NaN \<Longrightarrow> \<forall>y \<in> set ys. cc_Score y \<noteq> NaN \<Longrightarrow> sorted_wrt (\<lambda>x y. cc_Score x \<le> cc_Score y) ys \<Longrightarrow>
   mset (insert_by (\<lambda>x y. cc_Score x < cc_Score y) x ys) = add_mset x (mset ys) \<and>
   sorted_wrt (\<lambda>x y. cc_Score x \<le> cc_Score y) (insert_by (\<lambda>x y. cc_Score x < cc_Score y) x ys)"
proof (induction ys)
  case (Cons y ys)
  then have IH: "mset (insert_by (\<lambda>x y. cc_Score x < cc_Score y) x ys) = add_mset x (mset ys)"
    "sorted_wrt (\<lambda>x y. cc_Score x \<le> cc_Score y) (insert_by (\<lambda>x y. cc_Score x < cc_Score y) x ys)" by auto
  have "set (insert_by (\<lambda>x y. cc_Score x < cc_Score y) x ys) = insert x (set ys)" using mset_eq_setD [of _ "x # ys"] IH(1) by simp
  moreover have "cc_Score x \<le> cc_Score y \<Longrightarrow> z \<in> set ys \<Longrightarrow> cc_Score x \<le> cc_Score z" for z using Cons.prems(3) le_trans64 by auto
  ultimately show ?case using Cons.prems IH not_less64 [of "cc_Score y" "cc_Score x"] less_imp_le64 by auto
qed simp

lemma sort_with_ranks: "ranks sort_with"
proof -
  have "mset (fold (insert_by (\<lambda>x y. cc_Score x < cc_Score y)) xs ys) = mset xs + mset ys \<and>
      sorted_wrt (\<lambda>x y. cc_Score x \<le> cc_Score y) (fold (insert_by (\<lambda>x y. cc_Score x < cc_Score y)) xs ys)"
    if "\<forall>x \<in> set xs. cc_Score x \<noteq> NaN" "\<forall>y \<in> set ys. cc_Score y \<noteq> NaN" "sorted_wrt (\<lambda>x y. cc_Score x \<le> cc_Score y) ys" for xs ys
    using that
  proof (induction xs arbitrary: ys)
    case (Cons x xs)
    note i = insert_by_ranked [of x ys]
    have "set (insert_by (\<lambda>x y. cc_Score x < cc_Score y) x ys) = insert x (set ys)"
      using i Cons.prems mset_eq_setD [of _ "x # ys"] by auto
    then show ?case using Cons.IH [of "insert_by (\<lambda>x y. cc_Score x < cc_Score y) x ys"] i Cons.prems by auto
  qed simp
  from this [of _ "[]"] show ?thesis by (auto simp: ranks_def sort_with_def)
qed

definition small_opt_config :: OptConfig where
  "small_opt_config = \<lparr> oe_TickInterval = 2 * Second, oe_UtilisationSetpoint = Fin (3 / 4), oe_CollapseThreshold = Fin (7 / 8),
     oe_PredictiveHorizonTicks = 0 \<rparr>"

lemma small_cfg_ok: "engine_cfg_ok small_opt_config"
  by (simp add: engine_cfg_ok_def horizon_ok_def small_opt_config_def horizon_ticks_def duration_Seconds_def Second_def quot_def remt_def)

lemma candidates_ranked_witness:
  "\<exists>cs. (''a'', cs) \<in> set (EvaluateCandidates sort_with small_opt_config [(''a'', moderate_bundle)] [] 0) \<and> length cs = 8"
  using candidates_ranked [OF sort_with_ranks small_cfg_ok _ moderate_input, of "''a''" "[(''a'', moderate_bundle)]" "[]" 0] by auto

section \<open>The directives of the engine\<close>

lemma dyadic_bounds [simp]:
  "fbound (1 / 16)" "fbound (1 / 4)" "fbound (3 / 8)" "fbound (1 / 8)" "fbound (7 / 16)" "fbound (5 / 8)" "fbound (7 / 8)"
  "fbound (3 / 4)" "fbound (15 / 16)" "fbound (9 / 8)" "fbound (25 / 8)" "fbound (31 / 8)" "fbound (49 / 16)" "fbound (3 / 2)" "fbound (15 / 4)"
  using fbound_div_pow2 [of 1 4] fbound_div_pow2 [of 1 2] fbound_div_pow2 [of 3 3] fbound_div_pow2 [of 1 3] fbound_div_pow2 [of 7 4]
    fbound_div_pow2 [of 5 3] fbound_div_pow2 [of 7 3] fbound_div_pow2 [of 3 2] fbound_div_pow2 [of 15 4] fbound_div_pow2 [of 9 3]
    fbound_div_pow2 [of 25 3] fbound_div_pow2 [of 31 3] fbound_div_pow2 [of 49 4] fbound_div_pow2 [of 3 1] fbound_div_pow2 [of 15 2]
  by simp_all

lemma engine_consts:
  "fbtw 0 (fl 0.05) (1 / 16)" "fbtw (1 / 4) (fl 0.3) (3 / 8)" "fbtw (1 / 16) (fl 0.1) (1 / 8)" "fbtw 0 (fl 0.15) (1 / 4)"
  "fbtw (1 / 8) (fl 0.20) (1 / 4)" "fbtw (7 / 16) (fl 0.45) (1 / 2)" "fbtw (5 / 8) (fl 0.75) (7 / 8)" "fbtw 0 (fl 0.08) (1 / 8)"
  "fbtw (1 / 8) (fl 0.25) (3 / 8)" "fbtw (7 / 8) (fl 0.95) 1" "fbtw 0 (fl 0.6) (3 / 4)" "fbtw 0 (fl 0.9) (15 / 16)"
  by (rule fbtw_fl; simp)+

lemma observed_scale_eq:
  "observed_scale b obs =
    (if sa_CollapseZone (mb_Stability b) \<noteq> ''collapse'' \<and> 0 < ob_DisturbanceDecay obs
     then 1 + math_Min (ob_DisturbanceDecay obs * fl 0.1) (fl 0.1) else 1)"
proof -
  have "\<not> 1 < fl 0.6" "\<not> 1 < fl 0.9" "\<not> 1 < (1 :: f64)" using engine_consts(11,12) by (auto simp: one_f64_def elim!: fbtwE)
  moreover have "\<not> 1 < fl 0.9" "math_Min 1 (fl 3) = 1" using engine_consts(12) by (auto simp: one_f64_def elim!: fbtwE)
  ultimately show ?thesis by (simp add: observed_scale_def Let_def del: divide_simps64)
qed

lemma min_const_btw: "f_nonneg x \<Longrightarrow> fbtw a k b \<Longrightarrow> 0 \<le> a \<Longrightarrow> fbtw 0 (math_Min x k) b"
  by (cases x) (auto simp: math_Min_def f_nonneg_def elim!: fbtwE)

lemma f_nonneg_PInf [simp]: "f_nonneg PInf"
  by (simp add: f_nonneg_def)

lemma f_nonneg_times: "0 < x \<Longrightarrow> fbtw c y d \<Longrightarrow> 0 < c \<Longrightarrow> f_nonneg (x * y)"
  by (cases x) (auto simp: zero_f64_def elim!: fbtwE intro!: fl_nonneg)

lemma observed_scale_btw: "fbtw 1 (observed_scale b obs) (9 / 8)"
proof (cases "sa_CollapseZone (mb_Stability b) \<noteq> ''collapse'' \<and> 0 < ob_DisturbanceDecay obs")
  case True
  have "fbtw 0 (math_Min (ob_DisturbanceDecay obs * fl 0.1) (fl 0.1)) (1 / 8)"
    using min_const_btw [OF f_nonneg_times [OF _ engine_consts(3)] engine_consts(3)] True by simp
  then have "fbtw 1 (1 + math_Min (ob_DisturbanceDecay obs * fl 0.1) (fl 0.1)) (9 / 8)"
    by (intro fbtw_add [where a = 1 and b = 1 and c = 0 and d = "1 / 8"]) (auto simp: one_f64_def)
  then show ?thesis using True by (simp add: observed_scale_eq)
qed (auto simp: observed_scale_eq one_f64_def)

definition scale_in_range :: "f64 \<Rightarrow> bool" where
  "scale_in_range s \<longleftrightarrow> fbtw (7 / 16) s (49 / 16)"

lemma max_scale_delta_btw: "fbtw 0 (max_scale_delta level) (7 / 8)"
  unfolding max_scale_delta_def by (auto intro!: fbtw_fl)

lemma bound_change_btw:
  assumes "fbtw 0 d (7 / 8)" "\<And>l. lst = Some l \<Longrightarrow> scale_in_range l" "fbtw 1 s (9 / 8)"
  shows "fbtw (- 4) (bound_change d lst s) 4"
proof (cases lst)
  case (Some l)
  have l: "fbtw (7 / 16) l (49 / 16)" using assms(2) Some by (simp add: scale_in_range_def)
  have "fbtw (- (7 / 8)) (math_Copysign d x) (7 / 8)" if "x \<noteq> NaN" for x
    using assms(1) that by (cases x) (auto simp: math_Copysign_def zero_f64_def elim!: fbtwE)
  moreover have "s - l \<noteq> NaN" using l assms(3) by (auto simp: minus_f64_def elim!: fbtwE)
  ultimately have "fbtw (- 4) (l + math_Copysign d (s - l)) 4"
    by (intro fbtw_add [OF l, where c = "- (7 / 8)" and d = "7 / 8"]) auto
  then show ?thesis using Some assms(3) by (auto simp: bound_change_def Let_def intro: fbtw_weaken)
qed (use assms(3) in \<open>auto simp: bound_change_def intro: fbtw_weaken\<close>)

text \<open>The state of the evaluator after some steps.\<close>

lemma horizon_steps:
  assumes "f_nonneg rho" "finite64 (trend * mh_tickSec m)" "finite64 c" "rated mu" "n \<le> 2 ^ 52"
  shows "case (horizon_step m trend c mu ^^ n)
      \<lparr> hz_rho = rho, hz_min = rho, hz_overshoot = False, hz_sum = 0, hz_max = 0 \<rparr> of h \<Rightarrow>
    f_nonneg (hz_rho h) \<and> f_nonneg (hz_min h) \<and> fbtw 0 (hz_sum h) (real n) \<and> fbtw 0 (hz_max h) 1"
  using assms(5)
proof (induction n)
  case (Suc n)
  define h where "h = (horizon_step m trend c mu ^^ n) \<lparr> hz_rho = rho, hz_min = rho, hz_overshoot = False, hz_sum = 0, hz_max = 0 \<rparr>"
  have h: "f_nonneg (hz_rho h)" "f_nonneg (hz_min h)" "fbtw 0 (hz_sum h) (real n)" "fbtw 0 (hz_max h) 1"
    using Suc by (auto simp: h_def)
  define r where "r = next_rho trend (mh_tickSec m) c (hz_rho h)"
  have r: "f_nonneg r" unfolding r_def by (rule next_rho_nonneg [OF h(1) assms(2,3)])
  note s = step_cost_unit [OF r assms(4)]
  have "fbtw 0 (hz_sum h + step_cost mu r) (real (Suc n))"
    using Suc.prems fbound_of_int [of "int n + 1"] by (intro fbtw_add [OF h(3) s]) (auto simp: add.commute)
  then have "case horizon_step m trend c mu h of h \<Rightarrow>
      f_nonneg (hz_rho h) \<and> f_nonneg (hz_min h) \<and> fbtw 0 (hz_sum h) (real (Suc n)) \<and> fbtw 0 (hz_max h) 1"
    using h r s by (simp add: horizon_step_def Let_def r_def [symmetric])
  then show ?case by (simp add: h_def)
qed (use assms(1) in \<open>auto simp: zero_f64_def\<close>)

lemma excess_unit: assumes "q \<le> 1" "f_nonneg y" shows "fbtw 0 (math_Max (Fin q - y) 0) 1"
proof (cases y)
  case (Fin r)
  have "rnd (q - r) \<le> 1" using assms Fin by (intro rnd_le) auto
  then have "fl (q - r) = NInf \<or> (\<exists>w. fl (q - r) = Fin w \<and> w \<le> 1)" by (auto simp: fl_def)
  then show ?thesis using Fin by (auto simp: minus_f64_def math_Max_def zero_f64_def)
qed (use assms(2) in \<open>auto simp: f_nonneg_def minus_f64_def math_Max_def zero_f64_def\<close>)

lemma adjusted_scale_btw:
  assumes "fbtw (- 4) scale 4" "f_nonneg (hz_rho h)" "f_nonneg (hz_min h)" "fbtw 0 costAvg 1"
    "fbtw 0 (mh_setpoint m) 1" "mh_maxOvershoot m = fl 0.05"
  shows "fbtw (- 8) (adjusted_scale m rho scale costAvg h) 8"
proof -
  obtain z where z: "mh_setpoint m = Fin z" "0 \<le> z" "z \<le> 1" using assms(5) by (rule fbtwE)
  have o1: "fbtw 1 (1 + (scale - 1) * math_Max (1 - math_Max (mh_setpoint m - mh_maxOvershoot m - hz_min h) 0 * fl 0.3) (fl 0.3)) 8"
    if "1 < scale"
  proof -
    have sc: "fbtw 1 scale 4" using assms(1) that by (auto simp: one_f64_def elim!: fbtwE)
    have "fbtw (- 1) (mh_setpoint m - mh_maxOvershoot m) 1"
      unfolding assms(6) by (rule fbtw_diff [OF assms(5) engine_consts(1)]) auto
    then obtain q where q: "mh_setpoint m - mh_maxOvershoot m = Fin q" "q \<le> 1" by (rule fbtwE)
    have "fbtw 0 (math_Max (Fin q - hz_min h) 0) 1" by (rule excess_unit [OF q(2) assms(3)])
    from fbtw_mult [OF this engine_consts(2), where lo = 0 and hi = "3 / 8"]
    have "fbtw 0 (math_Max (Fin q - hz_min h) 0 * fl 0.3) (3 / 8)" by simp
    then have "fbtw 0 (1 - math_Max (Fin q - hz_min h) 0 * fl 0.3) 1"
      by (intro fbtw_diff [where a = 1 and b = 1 and c = 0 and d = "3 / 8"]) (auto simp: one_f64_def)
    from math_Max_btw [OF this engine_consts(2), of 0 1] have d: "fbtw 0 (math_Max (1 - math_Max (Fin q - hz_min h) 0 * fl 0.3) (fl 0.3)) 1" by simp
    have "fbtw 0 (scale - 1) 3" by (rule fbtw_diff [OF sc, where c = 1 and d = 1]) (auto simp: one_f64_def)
    from fbtw_mult [OF this d, where lo = 0 and hi = 3] show ?thesis
      unfolding q(1) by (intro fbtw_add [where a = 1 and b = 1 and c = 0 and d = 3]) (auto simp: one_f64_def)
  qed
  have o2: "fbtw 0 (scale * (1 + math_Min ((hz_rho h - mh_setpoint m) * fl 0.3 + costAvg * fl 0.15) (fl 0.20))) 8"
    if "1 < scale" "mh_setpoint m + mh_maxOvershoot m < hz_rho h"
  proof -
    have sc: "fbtw 1 scale 4" using assms(1) that by (auto simp: one_f64_def elim!: fbtwE)
    have "f_nonneg ((hz_rho h - mh_setpoint m) * fl 0.3)"
    proof (cases "hz_rho h")
      case (Fin y)
      obtain k where k: "fl 0.05 = Fin k" "0.05 - 1 / 100000 \<le> k" "k \<le> 0.05 + 1 / 100000" using fl_close [of "0.05"] by auto
      obtain w where w: "fl (z + k) = Fin w" "z + k - 1 / 100000 \<le> w" using fl_close [of "z + k"] z k by auto
      have "w < y" using that(2) unfolding assms(6) Fin z(1) k(1) by (simp add: w(1))
      then have "z \<le> y" using w(2) k(2) by simp
      then have "f_nonneg (hz_rho h - mh_setpoint m)" by (simp add: Fin z(1) fl_nonneg)
      then show ?thesis using engine_consts(2) by (auto simp: f_nonneg_mult elim!: fbtwE)
    next
      case PInf
      then show ?thesis using engine_consts(2) by (auto simp: z minus_f64_def elim!: fbtwE)
    qed (use assms(2) in \<open>auto simp: f_nonneg_def\<close>)
    moreover have "f_nonneg (costAvg * fl 0.15)"
      using fbtw_mult [OF assms(4) engine_consts(4), where lo = 0 and hi = 1] by (auto intro: fbtw_nonneg)
    ultimately have "fbtw 0 (math_Min ((hz_rho h - mh_setpoint m) * fl 0.3 + costAvg * fl 0.15) (fl 0.20)) (1 / 4)"
      by (intro min_const_btw [OF f_nonneg_add engine_consts(5)]) auto
    then have "fbtw 1 (1 + math_Min ((hz_rho h - mh_setpoint m) * fl 0.3 + costAvg * fl 0.15) (fl 0.20)) 2"
      by (intro fbtw_add [where a = 1 and b = 1 and c = 0 and d = "1 / 4"]) (auto simp: one_f64_def)
    from fbtw_mult [OF sc this, where lo = 0 and hi = 8] show ?thesis by simp
  qed
  show ?thesis using o1 o2 assms(1) by (auto simp: adjusted_scale_def Let_def intro: fbtw_weaken)
qed

lemma Evaluate_horizon_btw:
  assumes "demand_ok (mb_Queue b)" "fbtw (- 4) scale 4" "horizon_ok h tick" "fbtw 0 setpoint 1"
  shows "fbtw (1 / 2) (mr_AdjustedScaleFactor (Evaluate_horizon (NewMPCHorizonEval h tick setpoint) b scale)) 3"
    "fbtw 0 (mr_TrajectoryCostAvg (Evaluate_horizon (NewMPCHorizonEval h tick setpoint) b scale)) 1"
    "fbtw 0 (mr_MaxTrajectoryCost (Evaluate_horizon (NewMPCHorizonEval h tick setpoint) b scale)) 1"
proof -
  let ?m = "NewMPCHorizonEval h tick setpoint" and ?q = "mb_Queue b"
  define c where "c = rho_correction scale (qm_Utilisation ?q) h"
  have m: "model_ok ?q" and r: "rated (qm_ServiceRate ?q)" using assms(1) by (auto simp: demand_ok_def)
  have u: "fbtw 0 (qm_Utilisation ?q) (2 ^ 35)" using m by (simp add: model_ok_def)
  have h: "1 \<le> h" "h \<le> 2 ^ 52" using assms(3) by (auto simp: horizon_ok_def)
  have f: "mh_tickSec ?m = tick" "mh_horizon ?m = h" "mh_setpoint ?m = setpoint" "mh_maxOvershoot ?m = fl 0.05"
    by (simp_all add: NewMPCHorizonEval_def)
  have c: "finite64 c" unfolding c_def by (rule rho_correction_finite [OF u assms(2)]) (use h in auto)
  define z where "z = (horizon_step ?m (qm_UtilisationTrend ?q) c (qm_ServiceRate ?q) ^^ nat h)
    \<lparr> hz_rho = qm_Utilisation ?q, hz_min = qm_Utilisation ?q, hz_overshoot = False, hz_sum = 0, hz_max = 0 \<rparr>"
  have z: "f_nonneg (hz_rho z)" "f_nonneg (hz_min z)" "fbtw 0 (hz_sum z) (of_int h)" "fbtw 0 (hz_max z) 1"
    using horizon_steps [OF fbtw_nonneg [OF u], of "qm_UtilisationTrend ?q" ?m c "qm_ServiceRate ?q" "nat h"]
      drift_finite [OF m assms(3)] c r h by (auto simp: f z_def)
  have avg: "fbtw 0 (hz_sum z / f64_of_int h) 1"
    by (rule fbtw_divide [OF z(3), where c = "of_int h" and d = "of_int h"]) (use h in \<open>auto simp: f64_of_int_small\<close>)
  have "fbtw (- 8) (adjusted_scale ?m (qm_Utilisation ?q) scale (hz_sum z / f64_of_int h) z) 8"
    by (rule adjusted_scale_btw [OF assms(2) z(1,2) avg]) (simp_all add: f assms(4))
  from math_Max_btw [OF fbtw_fl [of "1 / 2" "0.5" "1 / 2"] math_Min_btw [OF this, of 3 "fl 3" 3 "- 8" 3], of "1 / 2" 3]
  have adj: "fbtw (1 / 2) (math_Max (fl 0.5) (math_Min (adjusted_scale ?m (qm_Utilisation ?q) scale (hz_sum z / f64_of_int h) z) (fl 3))) 3"
    by simp
  have e: "Evaluate_horizon ?m b scale =
    \<lparr> mr_AdjustedScaleFactor = math_Max (fl 0.5) (math_Min (adjusted_scale ?m (qm_Utilisation ?q) scale (hz_sum z / f64_of_int h) z) (fl 3)),
      mr_PredictedRhoAtHorizon = hz_rho z, mr_OvershootRisk = hz_overshoot z,
      mr_UnderactuationRisk = (mh_setpoint ?m + mh_maxOvershoot ?m < hz_rho z),
      mr_TrajectoryCostAvg = hz_sum z / f64_of_int h, mr_MaxTrajectoryCost = hz_max z \<rparr>"
    unfolding Evaluate_horizon_def Let_def f(2) c_def [symmetric] z_def [symmetric] by (rule refl)
  show "fbtw (1 / 2) (mr_AdjustedScaleFactor (Evaluate_horizon ?m b scale)) 3"
    "fbtw 0 (mr_TrajectoryCostAvg (Evaluate_horizon ?m b scale)) 1"
    "fbtw 0 (mr_MaxTrajectoryCost (Evaluate_horizon ?m b scale)) 1"
    unfolding e using adj avg z(4) by simp_all
qed

lemma gradient_amplify_btw: assumes "fbtw (1 / 2) s 3" shows "fbtw (1 / 2) (gradient_amplify grads sid b s) 3"
proof (cases "fl 0.5 < gradient_of grads sid")
  case True
  let ?g = "gradient_of grads sid"
  have "f_nonneg (?g / fl 10)"
    using True by (cases ?g) (auto simp: fl_finite rnd_frep f_nonneg_def intro!: fl_nonneg [unfolded f_nonneg_def])
  then have "f_nonneg (?g / fl 10 * fl 0.25)" using engine_consts(9) by (auto simp: f_nonneg_mult elim!: fbtwE)
  from min_const_btw [OF this engine_consts(9)]
  have "fbtw 1 (1 + math_Min (?g / fl 10 * fl 0.25) (fl 0.25)) (3 / 2)"
    by (intro fbtw_add [where a = 1 and b = 1 and c = 0 and d = "3 / 8"]) (auto simp: one_f64_def)
  from fbtw_mult [OF assms this, where lo = "1 / 2" and hi = 5]
  have "fbtw (1 / 2) (s * (1 + math_Min (?g / fl 10 * fl 0.25) (fl 0.25))) 5" by simp
  from math_Min_btw [OF this, of 3 "fl 3" 3 "1 / 2" 3] show ?thesis using assms by (simp add: gradient_amplify_def)
qed (use assms in \<open>simp add: gradient_amplify_def\<close>)

lemma blended:
  assumes "fbtw (1 / 2) s 3" "fbtw (1 / 2) p 3" "0 \<le> u" "0 \<le> v" "u + v = 1"
  shows "fbtw 0 (fl u * s + fl v * p) (49 / 16)"
proof -
  obtain u' where u: "fl u = Fin u'" "u - 1 / 100000 \<le> u'" "u' \<le> u + 1 / 100000" using fl_close [of u] assms by auto
  obtain v' where v: "fl v = Fin v'" "v - 1 / 100000 \<le> v'" "v' \<le> v + 1 / 100000" using fl_close [of v] assms by auto
  obtain r t where rt: "s = Fin r" "p = Fin t" "0 \<le> r" "r \<le> 3" "0 \<le> t" "t \<le> 3" using assms(1,2) by (auto elim!: fbtwE)
  have nn: "0 \<le> u'" "0 \<le> v'" using fbtw_fl [of 0 u 1] fbtw_fl [of 0 v 1] assms u v by auto
  have le: "u' * r \<le> u' * 3" "v' * t \<le> v' * 3" "0 \<le> u' * r" "0 \<le> v' * t" using nn rt by (auto intro: mult_left_mono)
  obtain x where x: "fl (u' * r) = Fin x" "x \<le> u' * r + 1 / 100000" using fl_close [of "u' * r"] le u assms by auto
  obtain y where y: "fl (v' * t) = Fin y" "y \<le> v' * t + 1 / 100000" using fl_close [of "v' * t"] le v assms by auto
  have xy: "0 \<le> x" "0 \<le> y" using fl_nonneg [OF le(3)] fl_nonneg [OF le(4)] x y by auto
  have "x + y \<le> 49 / 16" using x(2) y(2) le(1,2) u(3) v(3) assms(5) by simp
  then show ?thesis using xy by (auto simp: u(1) v(1) rt(1,2) x(1) y(1) intro!: fbtw_fl)
qed

lemma clamp_scale: assumes "fbtw 0 s (49 / 16)" shows "fbtw (7 / 16) (math_Max (fl 0.45) (math_Min s (fl 6))) (49 / 16)"
  using math_Max_btw [OF engine_consts(6) math_Min_btw [OF assms, of 6 "fl 6" 6 0 "49 / 16"], of "7 / 16" "49 / 16"] by simp

lemma blend_plan_btw:
  assumes "fbtw (1 / 2) s 3" "fbtw (1 / 2) (tp_BestScaleFactor plan) 3"
  shows "fbtw (7 / 16) (blend_plan cfg b plan s) (49 / 16)"
proof -
  have a: "fbtw 0 s (49 / 16)" "fbtw 0 (fl 0.60 * s + fl 0.40 * tp_BestScaleFactor plan) (49 / 16)"
    "fbtw 0 (fl 0.45 * s + fl 0.55 * tp_BestScaleFactor plan) (49 / 16)"
    using assms(1) blended [OF assms, of "0.60" "0.40"] blended [OF assms, of "0.45" "0.55"] by (auto intro: fbtw_weaken)
  have m: "fbtw 0 (math_Min x (fl 0.95)) (49 / 16)" if "fbtw 0 x (49 / 16)" for x
    using math_Min_btw [OF that engine_consts(10), of 0 "49 / 16"] by simp
  show ?thesis unfolding blend_plan_def Let_def by (rule clamp_scale) (use a m in auto)
qed

lemma unstick_btw: assumes "fbtw (7 / 16) s (49 / 16)" shows "scale_in_range (fst (unstick sid prev s stuck))"
proof -
  have "fbtw (7 / 16) (s + fl 0.08) 1" if "s < fl 0.75"
  proof -
    have "fbtw (7 / 16) s (7 / 8)" using assms that engine_consts(7) by (auto elim!: fbtwE)
    then show ?thesis by (intro fbtw_add [OF _ engine_consts(8)]) auto
  qed
  then show ?thesis using assms by (auto simp: unstick_def scale_in_range_def Let_def intro: fbtw_weaken)
qed

definition engine_ok :: "OptEngine \<Rightarrow> bool" where
  "engine_ok e \<longleftrightarrow> engine_cfg_ok (oe_cfg e) \<and> (\<forall>(sid, s) \<in> set (oe_lastScale e). scale_in_range s) \<and>
    oe_mpc e = NewMPCHorizonEval (horizon_ticks (oe_cfg e)) (duration_Seconds (oe_TickInterval (oe_cfg e))) (oe_UtilisationSetpoint (oe_cfg e))"

lemma NewEngine_opt_ok: "engine_cfg_ok cfg \<Longrightarrow> engine_ok (NewEngine_opt cfg)"
  by (simp add: engine_ok_def NewEngine_opt_def)

lemma SetPressureLevel_ok: "engine_ok e \<Longrightarrow> engine_ok (SetPressureLevel n e) \<and> 0 \<le> oe_pressureLevel (SetPressureLevel n e) \<and>
  oe_pressureLevel (SetPressureLevel n e) \<le> 3"
  by (simp add: engine_ok_def SetPressureLevel_def)

definition directive_in_range :: "ControlDirective \<Rightarrow> bool" where
  "directive_in_range d \<longleftrightarrow> scale_in_range (cd_ScaleFactor d) \<and> fbtw (1 / 2) (cd_PlannerScaleFactor d) 3 \<and>
    fbtw 0 (cd_TrajectoryCostAvg d) 1 \<and> fbtw 0 (cd_MaxTrajectoryCost d) 1 \<and> cd_Active d"

lemma control_service_ok:
  assumes "engine_ok e" "plan_input b" "control_service grads signals now (sid, b) e = (d, e')"
  shows "fst d = sid \<and> cd_ServiceID (snd d) = sid \<and> directive_in_range (snd d) \<and> engine_ok e'"
proof -
  let ?cfg = "oe_cfg e"
  have ho: "horizon_ok (horizon_ticks ?cfg) (duration_Seconds (oe_TickInterval ?cfg))" and sp: "fbtw 0 (oe_UtilisationSetpoint ?cfg) 1"
    and last: "\<And>l. map_of (oe_lastScale e) sid = Some l \<Longrightarrow> scale_in_range l"
    using assms(1) by (auto simp: engine_ok_def engine_cfg_ok_def dest!: map_of_SomeD)
  define prev where "prev = bound_change (max_scale_delta (oe_pressureLevel e)) (map_of (oe_lastScale e) sid) (observed_scale b (the (map_of signals sid)))"
  have prev: "fbtw (- 4) prev 4"
    unfolding prev_def by (rule bound_change_btw [OF max_scale_delta_btw last observed_scale_btw])
  define m where "m = Evaluate_horizon (oe_mpc e) b prev"
  have mpc: "oe_mpc e = NewMPCHorizonEval (horizon_ticks ?cfg) (duration_Seconds (oe_TickInterval ?cfg)) (oe_UtilisationSetpoint ?cfg)"
    using assms(1) by (simp add: engine_ok_def)
  have "demand_ok (mb_Queue b)" using assms(2) by (simp add: plan_input_def)
  note ev = Evaluate_horizon_btw [OF this prev ho sp, folded mpc, folded m_def]
  define plan where "plan = engine_plan ?cfg b"
  have p: "fbtw (1 / 2) (tp_BestScaleFactor plan) 3"
    using planner_factor [OF assms(2) ho] by (simp add: plan_def engine_plan_def)
  obtain s stuck where u: "unstick sid prev (blend_plan ?cfg b plan (gradient_amplify grads sid b (mr_AdjustedScaleFactor m))) (oe_stictionCount e) = (s, stuck)"
    by fastforce
  have s: "scale_in_range s" using unstick_btw [OF blend_plan_btw [OF gradient_amplify_btw [OF ev(1)] p]] u by (metis fst_conv)
  have e': "e' = e\<lparr> oe_lastScale := AList.update sid s (oe_lastScale e), oe_stictionCount := stuck \<rparr>"
    and d: "fst d = sid" "cd_ServiceID (snd d) = sid" "cd_ScaleFactor (snd d) = s" "cd_PlannerScaleFactor (snd d) = tp_BestScaleFactor plan"
      "cd_TrajectoryCostAvg (snd d) = mr_TrajectoryCostAvg m" "cd_MaxTrajectoryCost (snd d) = mr_MaxTrajectoryCost m" "cd_Active (snd d)"
    using assms(3) by (auto simp: control_service_def Let_def prev_def [symmetric] m_def [symmetric] plan_def [symmetric] u)
  have "engine_ok e'" using assms(1) s unfolding engine_ok_def e' by (auto dest!: set_updateD)
  then show ?thesis using d s p ev(2,3) by (simp add: directive_in_range_def)
qed

lemma control_fold:
  assumes "engine_ok e" "\<forall>(sid, b) \<in> set bundles. plan_input b" "\<forall>(sid, d) \<in> set ds. cd_ServiceID d = sid \<and> directive_in_range d"
    "fold (control_step grads signals now) bundles (ds, e) = (ds', e')"
  shows "engine_ok e' \<and> map fst ds' = map fst ds @ map fst bundles \<and> (\<forall>(sid, d) \<in> set ds'. cd_ServiceID d = sid \<and> directive_in_range d)"
  using assms
proof (induction bundles arbitrary: ds e)
  case (Cons x bundles)
  obtain sid b where x: "x = (sid, b)" by fastforce
  obtain d f where c: "control_service grads signals now (sid, b) e = (d, f)" by fastforce
  have *: "fst d = sid" "cd_ServiceID (snd d) = sid" "directive_in_range (snd d)" "engine_ok f"
    using control_service_ok [OF Cons.prems(1) _ c] Cons.prems(2) by (auto simp: x)
  have "fold (control_step grads signals now) bundles (ds @ [d], f) = (ds', e')"
    using Cons.prems(4) by (simp add: x c control_step_def [of _ _ _ "(sid, b)"])
  moreover have "\<forall>(sid, d) \<in> set (ds @ [d]). cd_ServiceID d = sid \<and> directive_in_range d"
    using Cons.prems(3) *(1-3) by (cases d) auto
  ultimately have "engine_ok e' \<and> map fst ds' = map fst (ds @ [d]) @ map fst bundles \<and>
      (\<forall>(sid, d) \<in> set ds'. cd_ServiceID d = sid \<and> directive_in_range d)"
    using Cons.prems(2) by (intro Cons.IH [OF *(4)]) simp_all
  then show ?case using *(1) by (simp add: x)
qed simp

text \<open>
  A control cycle of the engine.  One directive comes out for every service of the tick; its scale factor is
  between 0.4375 and 3.0625, far inside the clamp to [0.45, 6] plus the exploratory 0.08, its cost
  figures are in [0, 1], and the scales the engine remembers stay in the same range.
\<close>

lemma control_cycle_ok:
  assumes "engine_ok e" "\<forall>(sid, b) \<in> set bundles. plan_input b" "RunControl bundles grads sim topo now e = (ds, e')"
  shows "engine_ok e' \<and> map fst ds = map fst bundles \<and> (\<forall>(sid, d) \<in> set ds. cd_ServiceID d = sid \<and> directive_in_range d) \<and>
    set (map fst (oe_lastScale e')) \<subseteq> set (map fst bundles)"
proof -
  obtain signals o' where o: "Observe bundles sim topo (oe_observer e) = (signals, o')" by fastforce
  obtain ds' f where f: "fold (control_step grads signals now) bundles ([], e\<lparr> oe_observer := o' \<rparr>) = (ds', f)" by fastforce
  have "engine_ok (e\<lparr> oe_observer := o' \<rparr>)" using assms(1) by (simp add: engine_ok_def)
  note c = control_fold [OF this assms(2) _ f]
  show ?thesis using c assms(3) by (auto simp: RunControl_def o f engine_ok_def)
qed

lemma control_cycle_ok_witness:
  "map fst (fst (RunControl [(''a'', moderate_bundle)] [] None one_call 0 (NewEngine_opt small_opt_config))) = [''a'']"
  using control_cycle_ok [OF NewEngine_opt_ok [OF small_cfg_ok], of "[(''a'', moderate_bundle)]" "[]" None one_call 0] moderate_input
  by (cases "RunControl [(''a'', moderate_bundle)] [] None one_call 0 (NewEngine_opt small_opt_config)") auto

section \<open>The objective\<close>

definition objective_bundle :: "ServiceModelBundle \<Rightarrow> bool" where
  "objective_bundle b \<longleftrightarrow> demand_ok (mb_Queue b) \<and>
    (qm_AdjustedWaitMs (mb_Queue b) = PInf \<or> fbtw 0 (qm_AdjustedWaitMs (mb_Queue b)) (2 ^ 40)) \<and>
    fbtw 0 (sa_OscillationRisk (mb_Stability b)) 1 \<and> fbtw 0 (sa_CollapseRisk (mb_Stability b)) 1"

definition objective_input :: "ServiceModelBundle list \<Rightarrow> bool" where
  "objective_input bs \<longleftrightarrow> bs \<noteq> [] \<and> length bs \<le> 2 ^ 20 \<and> (\<forall>b \<in> set bs. objective_bundle b)"

lemma fbound_2_40 [simp]: "fbound (2 ^ 40)" "fbound (2 ^ 42)" "fbound (2 ^ 24)"
  using fbound_of_int [of "2 ^ 40"] fbound_of_int [of "2 ^ 42"] fbound_of_int [of "2 ^ 24"] by simp_all

lemma f_nonneg_lmult: "f_nonneg x \<Longrightarrow> 0 < c \<Longrightarrow> f_nonneg (Fin c * x)"
  by (cases x) (auto simp: f_nonneg_def intro!: fl_nonneg [unfolded f_nonneg_def])

lemma arrival_weight_btw: "demand_ok (mb_Queue b) \<Longrightarrow> fbtw 0 (arrival_weight b) (2 ^ 24)"
proof -
  assume "demand_ok (mb_Queue b)"
  then have "fbtw 0 (qm_ArrivalRate (mb_Queue b)) (2 ^ 24)" by (simp add: demand_ok_def model_ok_def)
  from math_Max_btw [OF this fbtw_fl [of 0 "0.01" 1], of 0 "2 ^ 24"] show ?thesis by (simp add: arrival_weight_def)
qed

text \<open>A weighted mean over the services, as the code accumulates it.\<close>

lemma weighted_fold:
  assumes "\<forall>b \<in> set bs. f_nonneg (f b) \<and> demand_ok (mb_Queue b)" "f_nonneg s" "fbtw 0 w (real k * 2 ^ 24)" "k + length bs \<le> 2 ^ 20"
    "fold (\<lambda>b (s, w). (s + f b, w + arrival_weight b)) bs (s, w) = (s', w')"
  shows "f_nonneg s' \<and> fbtw 0 w' (real (k + length bs) * 2 ^ 24)"
  using assms
proof (induction bs arbitrary: s w k)
  case (Cons b bs)
  have "fbound (real (Suc k) * 2 ^ 24)" using fbound_of_int [of "(int k + 1) * 2 ^ 24"] Cons.prems(4) by (simp add: add.commute)
  then have "fbtw 0 (w + arrival_weight b) (real (Suc k) * 2 ^ 24)"
    using Cons.prems(1) by (intro fbtw_add [OF Cons.prems(3) arrival_weight_btw]) (simp_all add: distrib_right)
  moreover have "f_nonneg (s + f b)" using Cons.prems(1,2) by (intro f_nonneg_add) auto
  ultimately have "f_nonneg s' \<and> fbtw 0 w' (real (Suc k + length bs) * 2 ^ 24)"
    using Cons.prems by (intro Cons.IH) simp_all
  then show ?case by simp
qed simp

lemma weighted_ratio:
  assumes "f_nonneg s" "fbtw 0 w h" shows "f_nonneg (if 0 < w then s / w else 0)"
  using assms f_nonneg_divide [of s] by (auto simp: zero_f64_def elim!: fbtwE)

lemma finite_wait_ok: "objective_bundle b \<Longrightarrow> fbtw 0 (finite_wait b) (2 ^ 40)"
  by (auto simp: objective_bundle_def finite_wait_def Let_def math_IsInf_def math_IsNaN_def)

lemma weighted_latency_nonneg: assumes "objective_input bs" shows "f_nonneg (weighted_latency bs)"
proof -
  obtain s w where f: "fold (\<lambda>b (s, w). (s + finite_wait b * arrival_weight b, w + arrival_weight b)) bs (0, 0) = (s, w)" by fastforce
  have "f_nonneg (finite_wait b * arrival_weight b) \<and> demand_ok (mb_Queue b)" if "b \<in> set bs" for b
  proof -
    have b: "objective_bundle b" "demand_ok (mb_Queue b)" using assms that by (auto simp: objective_input_def objective_bundle_def)
    show ?thesis using finite_wait_ok [OF b(1)] arrival_weight_btw [OF b(2)] b(2) by (auto elim!: fbtwE intro!: fl_nonneg)
  qed
  then have "f_nonneg s \<and> fbtw 0 w (real (0 + length bs) * 2 ^ 24)"
    using assms by (intro weighted_fold [OF _ _ _ _ f]) (auto simp: objective_input_def zero_f64_def)
  then show ?thesis using weighted_ratio [of s w "real (length bs) * 2 ^ 24"] by (simp add: weighted_latency_def f)
qed

lemma reference_latency_btw: assumes "objective_input bs" shows "fbtw 200 (reference_latency bs) (2 ^ 42)"
proof -
  define ws where "ws = filter (\<lambda>w. \<not> math_IsInf w \<and> \<not> math_IsNaN w \<and> 0 < w) (map (\<lambda>b. qm_AdjustedWaitMs (mb_Queue b)) bs)"
  have ws: "fbtw 0 w (2 ^ 40)" if "w \<in> set ws" for w
    using that assms by (auto simp: ws_def objective_input_def objective_bundle_def math_IsInf_def)
  have "fbtw 200 (math_Max (sla_insertion_sort ws ! i * fl 1.5) (fl 200)) (2 ^ 42)" if "i < length ws" for i
  proof -
    have "set (sla_insertion_sort ws) = set ws" "length (sla_insertion_sort ws) = length ws"
      using mset_eq_setD [OF insertion_mset] mset_eq_length [OF insertion_mset] by auto
    then have "fbtw 0 (sla_insertion_sort ws ! i) (2 ^ 40)" using ws nth_mem that by metis
    from fbtw_mult [OF this fbtw_fl [of 0 "1.5" 2], where lo = 0 and hi = "2 ^ 42"]
    have "fbtw 0 (sla_insertion_sort ws ! i * fl 1.5) (2 ^ 42)" by simp
    from math_Max_btw [OF this, of 200 "fl 200" 200 200 "2 ^ 42"] show ?thesis by simp
  qed
  moreover have "nat (if int (length ws) \<le> k then int (length ws) - 1 else k) < length ws" if "3 \<le> length ws" for k using that by auto
  ultimately show ?thesis by (auto simp: reference_latency_def ws_def [symmetric] Let_def)
qed

lemma positive_inverses_ok:
  assumes "f_nonneg s" "0 \<le> n" "n + int (length bs) \<le> 2 ^ 20"
    "fold (\<lambda>b (s, n). if 0 < f b then (s + 1 / f b, n + 1) else (s, n)) bs (s, n) = (s', n')"
  shows "f_nonneg s' \<and> 0 \<le> n' \<and> n' \<le> 2 ^ 20"
  using assms
proof (induction bs arbitrary: s n)
  case (Cons b bs)
  have s: "f_nonneg (s + 1 / f b)" if "0 < f b"
  proof -
    have "f_nonneg (f b)" using that by (cases "f b") (auto simp: zero_f64_def)
    from f_nonneg_recip [of 1, OF _ this] show ?thesis using Cons.prems(1) by (intro f_nonneg_add) (simp_all add: one_f64_def)
  qed
  show ?case
  proof (cases "0 < f b")
    case True
    then show ?thesis using Cons.prems by (intro Cons.IH [OF s [OF True], of "n + 1"]) auto
  next
    case False
    then show ?thesis using Cons.prems by (intro Cons.IH [of s n]) auto
  qed
qed simp

lemma harmonic_nonneg:
  assumes "length bs \<le> 2 ^ 20" "positive_inverses f bs = (s, n)" "0 < n" shows "f_nonneg (f64_of_int n / s)"
proof -
  have "f_nonneg s \<and> 0 \<le> n \<and> n \<le> 2 ^ 20"
    using assms(1,2) by (intro positive_inverses_ok [of 0 0]) (auto simp: positive_inverses_def)
  then show ?thesis using assms(3) f_nonneg_recip [of "of_int n" s] by (simp add: f64_of_int_small)
qed

lemma trend_stability_nonneg: assumes "length bs \<le> 2 ^ 20" shows "f_nonneg (trend_stability bs)"
proof -
  have h: "f_nonneg (harmonic_stability bs)"
    using harmonic_nonneg [OF assms, of "\<lambda>b. sa_StabilityMargin (mb_Stability b)"] by (auto simp: harmonic_stability_def split: prod.split)
  obtain c where c: "fl 0.6 = Fin c" "0.6 - 1 / 100000 \<le> c" using fl_close [of "0.6"] by auto
  obtain d where d: "fl 0.4 = Fin d" "0.4 - 1 / 100000 \<le> d" using fl_close [of "0.4"] by auto
  have l: "f_nonneg (fl 0.6 * x)" "f_nonneg (fl 0.4 * x)" if "f_nonneg x" for x
    unfolding c(1) d(1) using c(2) d(2) that by (auto intro: f_nonneg_lmult)
  show ?thesis
    using h harmonic_nonneg [OF assms, of "\<lambda>b. sa_TrendAdjustedMargin (mb_Stability b)"] l f_nonneg_add
    by (auto simp: trend_stability_def split: prod.split)
qed

lemma largest_nonneg: "f_nonneg (largest f bs)"
proof -
  have "f_nonneg (fold (\<lambda>b m. if m < f b then f b else m) bs m)" if "f_nonneg m" for m
    using that
  proof (induction bs arbitrary: m)
    case (Cons b bs)
    have "f_nonneg (f b)" if "m < f b" using Cons.prems that by (cases m; cases "f b") (auto simp: f_nonneg_def)
    then show ?case using Cons by simp
  qed simp
  then show ?thesis by (simp add: largest_def)
qed

lemma largest_unit: "\<forall>b \<in> set bs. fbtw 0 (f b) 1 \<Longrightarrow> fbtw 0 (largest f bs) 1"
proof -
  assume a: "\<forall>b \<in> set bs. fbtw 0 (f b) 1"
  have "fbtw 0 (fold (\<lambda>b m. if m < f b then f b else m) bs m) 1" if "fbtw 0 m 1" for m
    using that a by (induction bs arbitrary: m) auto
  then show ?thesis by (simp add: largest_def zero_f64_def)
qed

lemma unit_mean:
  assumes "\<forall>b \<in> set bs. fbtw 0 (f b) 1" "bs \<noteq> []" "length bs \<le> 2 ^ 20"
  shows "fbtw 0 (fold (\<lambda>b s. s + f b) bs 0 / f64_of_int (int (length bs))) 1"
proof -
  have "fbtw 0 (fold (\<lambda>b s. s + f b) bs 0) (real (0 + length bs) * 1)"
    using assms(3) fbound_of_int [of "int j" for j] by (intro fold_sum_btw [OF assms(1)]) (auto simp: zero_f64_def)
  then show ?thesis
    by (rule fbtw_divide [where c = "length bs" and d = "length bs"]) (use assms(2,3) in \<open>auto simp: f64_of_int_small Suc_le_eq\<close>)
qed

lemma trajectory_sum_btw:
  assumes "demand_ok (mb_Queue b)" "fbtw 0 s (real k)" "k + n \<le> 5" shows "fbtw 0 (trajectory_sum n k b s) (real (k + n))"
  using assms(2,3)
proof (induction n arbitrary: k s)
  case (Suc n)
  let ?q = "mb_Queue b"
  define r where "r = math_Max (qm_Utilisation ?q + qm_UtilisationTrend ?q * fl 2 * f64_of_int (int k + 1)) 0"
  have m: "model_ok ?q" "rated (qm_ServiceRate ?q)" using assms(1) by (auto simp: demand_ok_def)
  obtain u t where ut: "qm_Utilisation ?q = Fin u" "0 \<le> u" "u \<le> 2 ^ 35" "qm_UtilisationTrend ?q = Fin t" "\<bar>t\<bar> \<le> 1 / 2"
    using m(1) by (auto simp: model_ok_def elim!: fbtwE)
  have "\<exists>y. qm_UtilisationTrend ?q * fl 2 = Fin y \<and> \<bar>y\<bar> \<le> 1"
  proof -
    have "fbtw (- 1) (fl (t * 2)) 1" using ut by (intro fbtw_fl) auto
    then show ?thesis by (auto simp: ut elim!: fbtwE)
  qed
  then obtain y where y: "qm_UtilisationTrend ?q * fl 2 = Fin y" "\<bar>y\<bar> \<le> 1" by blast
  have "\<bar>y * (real k + 1)\<bar> \<le> 1 * 6" unfolding abs_mult using y Suc.prems by (intro mult_mono) auto
  then have "fbtw (- 6) (fl (y * (real k + 1))) 6" by (intro fbtw_fl) auto
  then have "qm_Utilisation ?q + qm_UtilisationTrend ?q * fl 2 * f64_of_int (int k + 1) \<noteq> NaN"
    using Suc.prems unfolding y(1) by (auto simp: ut f64_of_int_small elim!: fbtwE)
  then have r: "f_nonneg r" unfolding r_def
    by (cases "qm_Utilisation ?q + qm_UtilisationTrend ?q * fl 2 * f64_of_int (int k + 1)") (auto simp: math_Max_def zero_f64_def f_nonneg_def)
  have "fbtw 0 (s + step_cost (qm_ServiceRate ?q) r) (real (Suc k))"
    using Suc.prems fbound_of_int [of "int k + 1"]
    by (intro fbtw_add [OF Suc.prems(1) step_cost_unit [OF r m(2)]]) (auto simp: add.commute)
  from Suc.IH [OF this] Suc.prems show ?case by (simp add: r_def Let_def)
qed simp

lemma trajectory_score_nonneg: assumes "objective_input bs" shows "f_nonneg (trajectory_score bs)"
proof -
  obtain s w where f: "fold (\<lambda>b (s, w). (s + trajectory_sum 5 0 b 0 / fl 5 * arrival_weight b, w + arrival_weight b)) bs (0, 0) = (s, w)" by fastforce
  have "f_nonneg (trajectory_sum 5 0 b 0 / fl 5 * arrival_weight b) \<and> demand_ok (mb_Queue b)" if "b \<in> set bs" for b
  proof -
    have b: "demand_ok (mb_Queue b)" using assms that by (auto simp: objective_input_def objective_bundle_def)
    have "fbtw 0 (trajectory_sum 5 0 b 0) 5" using trajectory_sum_btw [OF b, of 0 0 5] by (simp add: zero_f64_def)
    then have "fbtw 0 (trajectory_sum 5 0 b 0 / fl 5) 1" by (rule fbtw_divide [where c = 5 and d = 5]) auto
    then show ?thesis using arrival_weight_btw [OF b] b by (auto elim!: fbtwE intro!: fl_nonneg)
  qed
  then have "f_nonneg s \<and> fbtw 0 w (real (0 + length bs) * 2 ^ 24)"
    using assms by (intro weighted_fold [OF _ _ _ _ f]) (auto simp: objective_input_def zero_f64_def)
  then show ?thesis using weighted_ratio [of s w "real (length bs) * 2 ^ 24"] unfolding trajectory_score_def f Let_def by simp
qed

text \<open>
  C17: The objective of a tick.  For the figures the models deliver, and a finite or infinite wait of each service, the composite score,
  the score of the uncontrolled trajectory and all risks are in [0, 1], the reference latency is at
  least 200 ms and the predicted latency is a number or infinite, never NaN.
\<close>

lemma objective_in_range:
  assumes "objective_input (map snd bundles)" "fbtw 0 (cr_CascadeRisk (gs_CriticalPath topo)) 1"
  shows "case ComputeObjective bundles topo now of s \<Rightarrow>
    fbtw 0 (os_CompositeScore s) 1 \<and> fbtw 0 (os_TrajectoryScore s) 1 \<and> fbtw 0 (os_CascadeFailureProbability s) 1 \<and>
    fbtw 0 (os_OscillationRisk s) 1 \<and> fbtw 0 (os_MaxCollapseRisk s) 1 \<and>
    f_nonneg (os_PredictedP99LatencyMs s) \<and> fbtw 200 (os_ReferenceLatencyMs s) (2 ^ 42)"
proof -
  let ?bs = "map snd bundles"
  have ne: "bundles \<noteq> []" and len: "length ?bs \<le> 2 ^ 20" using assms(1) by (auto simp: objective_input_def)
  have osc: "fbtw 0 (fold (\<lambda>b s. s + sa_OscillationRisk (mb_Stability b)) ?bs 0 / f64_of_int (int (length ?bs))) 1"
    using assms(1) by (intro unit_mean) (auto simp: objective_input_def objective_bundle_def)
  have risk: "fbtw 0 (largest (\<lambda>b. sa_CollapseRisk (mb_Stability b)) ?bs) 1"
    using assms(1) by (intro largest_unit) (auto simp: objective_input_def objective_bundle_def)
  have m1: "f_nonneg x \<Longrightarrow> fbtw 0 (math_Min x 1) 1" for x using min_const_btw [of x 1 1 1] by (simp add: one_f64_def)
  obtain z where z: "reference_latency ?bs = Fin z" "200 \<le> z" using reference_latency_btw [OF assms(1)] by (rule fbtwE)
  have lat: "fbtw 0 (math_Min (weighted_latency ?bs / reference_latency ?bs) 1) 1"
    unfolding z(1) using z(2) weighted_latency_nonneg [OF assms(1)] by (intro m1 f_nonneg_divide) auto
  have ins: "fbtw 0 (math_Max (1 - trend_stability ?bs) 0) 1"
    using excess_unit [of 1, OF _ trend_stability_nonneg [OF len]] by (simp add: one_f64_def)
  have acc: "fbtw 0 (math_Min (largest (\<lambda>b. sa_StabilityDerivative (mb_Stability b)) ?bs * fl 2) (fl 0.2)) (1 / 4)"
    using min_const_btw [OF f_nonneg_mult [of _ 2, OF largest_nonneg] engine_consts(5)] by simp
  have ins2: "fbtw 0 (math_Min (math_Max (1 - trend_stability ?bs) 0 +
      math_Min (largest (\<lambda>b. sa_StabilityDerivative (mb_Stability b)) ?bs * fl 2) (fl 0.2)) 1) 1"
    using fbtw_nonneg [OF ins] fbtw_nonneg [OF acc] by (intro m1 f_nonneg_add)
  have part: "fbtw 0 (fl w * x) 1" if "fbtw 0 x 1" "0 \<le> w" "w \<le> 1" for w x
    using fbtw_mult [OF fbtw_fl [of 0 w 1] that(1), where lo = 0 and hi = 1] that by simp
  have "f_nonneg (composite_score ?bs (cr_CascadeRisk (gs_CriticalPath topo)))"
    unfolding composite_score_def Let_def
    by (intro f_nonneg_add fbtw_nonneg [OF part] lat assms(2) ins2 osc) auto
  then show ?thesis
    using ne m1 [OF trajectory_score_nonneg [OF assms(1)]] osc risk assms(2) weighted_latency_nonneg [OF assms(1)]
      reference_latency_btw [OF assms(1)] m1
    by (simp add: ComputeObjective_def Let_def)
qed

lemma objective_in_range_witness:
  "fbtw 0 (os_CompositeScore (ComputeObjective [(''a'', moderate_bundle)] one_call 0)) 1"
proof -
  have "objective_input (map snd [(''a'', moderate_bundle)])"
    using moderate_input
    by (simp add: objective_input_def objective_bundle_def plan_input_def moderate_bundle_def loaded_queue_def idle_queue_def
        empty_model_def zero_f64_def)
  moreover have "fbtw 0 (cr_CascadeRisk (gs_CriticalPath one_call)) 1" by (simp add: one_call_def zero_f64_def)
  ultimately show ?thesis using objective_in_range [of "[(''a'', moderate_bundle)]" one_call 0] by simp
qed

section \<open>What the evaluator calls overshoot\<close>

lemma overshoot_steps:
  "hz_overshoot ((horizon_step m trend c mu ^^ n) h) \<longleftrightarrow>
    hz_overshoot h \<or> (\<exists>k < n. hz_rho ((horizon_step m trend c mu ^^ Suc k) h) < mh_setpoint m - mh_maxOvershoot m)"
  by (induction n) (auto simp: horizon_step_def Let_def less_Suc_eq)

text \<open>
  The comment on \<open>OvershootRisk\<close> says that it is set when the trajectory passes above the setpoint plus the
  allowed overshoot.  It is set by a step below the setpoint minus the allowance, so a
  service that stays above the setpoint is never reported, however high its utilisation.
\<close>

lemma overshoot_is_undershoot:
  defines "start b \<equiv> \<lparr> hz_rho = qm_Utilisation (mb_Queue b), hz_min = qm_Utilisation (mb_Queue b), hz_overshoot = False, hz_sum = 0, hz_max = 0 \<rparr>"
  shows "mr_OvershootRisk (Evaluate_horizon m b scale) \<longleftrightarrow>
    (\<exists>k < nat (mh_horizon m).
       hz_rho ((horizon_step m (qm_UtilisationTrend (mb_Queue b)) (rho_correction scale (qm_Utilisation (mb_Queue b)) (mh_horizon m))
          (qm_ServiceRate (mb_Queue b)) ^^ Suc k) (start b)) < mh_setpoint m - mh_maxOvershoot m)"
  using overshoot_steps [of "nat (mh_horizon m)" m "qm_UtilisationTrend (mb_Queue b)"
      "rho_correction scale (qm_Utilisation (mb_Queue b)) (mh_horizon m)" "qm_ServiceRate (mb_Queue b)" "start b"] by (simp add: Evaluate_horizon_def Let_def start_def)

end
